(* ===== verification/Boot_Prelude.thy ===== *)
theory Boot_Prelude
  imports Main "HOL-Library.AList" "HOL-Library.Sublist"
begin

text \<open>
  Shared vocabulary of the development.

  \<^item> A JavaScript \<open>Map\<close> iterates in insertion order, and \<open>set\<close> on a present key keeps the
    key's position; it is an association list, \<open>set\<close> is \<^const>\<open>AList.update\<close> (in place, or at
    the end), \<open>delete\<close> is \<^const>\<open>AList.delete\<close>, \<open>get\<close> is \<^const>\<open>map_of\<close>.
  \<^item> A JavaScript \<open>Set\<close> is a list without repetitions, in insertion order.
  \<^item> Times are integers (milliseconds since the epoch); the clock is an argument. The reads of
    \<open>Date.now()\<close> in one stretch of code that does not wait share one value.
\<close>

named_theorems jsmap_simps "reads and key sets of an updated Map"
named_theorems jsset_simps "members of an updated Set"

section \<open>JavaScript maps\<close>

type_synonym ('k, 'v) jsmap = "('k \<times> 'v) list"

abbreviation jm_get :: "('k, 'v) jsmap \<Rightarrow> 'k \<Rightarrow> 'v option" where
  "jm_get \<equiv> map_of"

abbreviation jm_set :: "('k, 'v) jsmap \<Rightarrow> 'k \<Rightarrow> 'v \<Rightarrow> ('k, 'v) jsmap" where
  "jm_set m k v \<equiv> AList.update k v m"

abbreviation jm_del :: "('k, 'v) jsmap \<Rightarrow> 'k \<Rightarrow> ('k, 'v) jsmap" where
  "jm_del m k \<equiv> AList.delete k m"

abbreviation jm_has :: "('k, 'v) jsmap \<Rightarrow> 'k \<Rightarrow> bool" where
  "jm_has m k \<equiv> map_of m k \<noteq> None"

abbreviation jm_keys :: "('k, 'v) jsmap \<Rightarrow> 'k list" where
  "jm_keys m \<equiv> map fst m"

abbreviation jm_values :: "('k, 'v) jsmap \<Rightarrow> 'v list" where
  "jm_values m \<equiv> map snd m"

definition jm_wf :: "('k, 'v) jsmap \<Rightarrow> bool" where
  "jm_wf m \<longleftrightarrow> distinct (jm_keys m)"

lemma jm_get_set [jsmap_simps]: "jm_get (jm_set m k v) j = (if j = k then Some v else jm_get m j)"
  by (simp add: update_conv)

lemma jm_get_del [jsmap_simps]: "jm_get (jm_del m k) j = (if j = k then None else jm_get m j)"
  by (simp add: delete_conv)

lemma jm_keys_set [jsmap_simps]:
  "jm_keys (jm_set m k v) = (if k \<in> set (jm_keys m) then jm_keys m else jm_keys m @ [k])"
  by (induction m) auto

lemma jm_keys_del [jsmap_simps]: "jm_keys (jm_del m k) = filter (\<lambda>j. j \<noteq> k) (jm_keys m)"
  by (induction m) auto

lemma jm_wf_Nil [simp, intro]: "jm_wf []"
  by (simp add: jm_wf_def)

lemma jm_wf_set [simp, intro]: "jm_wf m \<Longrightarrow> jm_wf (jm_set m k v)"
  by (simp add: jm_wf_def distinct_update)

lemma jm_wf_del [simp, intro]: "jm_wf m \<Longrightarrow> jm_wf (jm_del m k)"
  by (simp add: jm_wf_def jm_keys_del)

lemma jm_wf_filter [simp, intro]: "jm_wf m \<Longrightarrow> jm_wf (filter P m)"
  by (simp add: jm_wf_def distinct_map_filter)

lemma jm_wf_tl [intro]: "jm_wf m \<Longrightarrow> jm_wf (tl m)"
  by (cases m) (auto simp: jm_wf_def)

lemma jm_get_filter [jsmap_simps]:
  "jm_wf m \<Longrightarrow> jm_get (filter (\<lambda>(k, v). P k v) m) j =
     (case jm_get m j of None \<Rightarrow> None | Some v \<Rightarrow> if P j v then Some v else None)"
proof (induction m)
  case Nil
  then show ?case by simp
next
  case (Cons kv m)
  obtain k v where kv: "kv = (k, v)" by (cases kv)
  have "jm_get m k = None"
    using Cons.prems by (simp add: jm_wf_def kv map_of_eq_None_iff)
  moreover have "jm_wf m"
    using Cons.prems by (simp add: jm_wf_def kv)
  ultimately show ?case
    using Cons.IH by (auto simp: kv split: option.splits)
qed

lemma jm_get_in_values: "jm_get m k = Some v \<Longrightarrow> v \<in> set (jm_values m)"
  by (force dest: map_of_SomeD)

lemma jm_wf_get_iff: "jm_wf m \<Longrightarrow> jm_get m k = Some v \<longleftrightarrow> (k, v) \<in> set m"
  by (simp add: jm_wf_def)

lemma jm_length_set: "length (jm_set m k v) = (if jm_has m k then length m else Suc (length m))"
  by (induction m) auto

lemma jm_length_del: "length (jm_del m k) \<le> length m"
  by (simp add: length_delete_le)

lemma jm_length_del_wf:
  assumes "jm_wf m"
  shows "length (jm_del m k) = (if jm_has m k then length m - 1 else length m)"
  using assms
proof (induction m)
  case (Cons kv m)
  then have "jm_wf m" and notin: "fst kv \<notin> set (jm_keys m)"
    by (auto simp: jm_wf_def)
  show ?case
  proof (cases "fst kv = k")
    case True
    then have "jm_del m k = m"
      using notin by (intro delete_id) simp
    with True show ?thesis by (cases kv) simp
  next
    case False
    then show ?thesis
      using Cons.IH[OF \<open>jm_wf m\<close>]
      by (cases kv; cases m) (auto dest: length_pos_if_in_set)
  qed
qed simp

text \<open>A property of every entry, and the set of keys.\<close>

definition jm_all :: "('k \<Rightarrow> 'v \<Rightarrow> bool) \<Rightarrow> ('k, 'v) jsmap \<Rightarrow> bool" where
  "jm_all P m \<longleftrightarrow> (\<forall>k v. jm_get m k = Some v \<longrightarrow> P k v)"

lemma jm_all_Nil [simp, intro]: "jm_all P []"
  by (simp add: jm_all_def)

lemma jm_all_get: "jm_all P m \<Longrightarrow> jm_get m k = Some v \<Longrightarrow> P k v"
  by (simp add: jm_all_def)

lemma jm_all_set [intro]: "jm_all P m \<Longrightarrow> P k v \<Longrightarrow> jm_all P (jm_set m k v)"
  by (simp add: jm_all_def jm_get_set)

lemma jm_all_del [simp, intro]: "jm_all P m \<Longrightarrow> jm_all P (jm_del m k)"
  by (simp add: jm_all_def jm_get_del)

lemma jm_all_filter [simp]:
  assumes "jm_wf m" and "jm_all P m"
  shows "jm_all P (filter (\<lambda>(k, v). Q k v) m)"
  unfolding jm_all_def
proof (intro allI impI)
  fix k v
  assume "jm_get (filter (\<lambda>(k, v). Q k v) m) k = Some v"
  then have "jm_get m k = Some v"
    using jm_get_filter[OF assms(1), of Q k] by (cases "jm_get m k") (simp_all split: if_splits)
  then show "P k v" by (rule jm_all_get[OF assms(2)])
qed

lemma jm_all_filtered:
  assumes "jm_wf m"
  shows "jm_all Q (filter (\<lambda>(k, v). Q k v) m)"
  unfolding jm_all_def
proof (intro allI impI)
  fix k v
  assume "jm_get (filter (\<lambda>(k, v). Q k v) m) k = Some v"
  then show "Q k v"
    using jm_get_filter[OF assms, of Q k] by (cases "jm_get m k") (simp_all split: if_splits)
qed

lemma jm_all_mono: "jm_all P m \<Longrightarrow> (\<And>k v. P k v \<Longrightarrow> Q k v) \<Longrightarrow> jm_all Q m"
  by (simp add: jm_all_def)

lemma jm_dom_set [jsmap_simps]: "dom (jm_get (jm_set m k v)) = insert k (dom (jm_get m))"
  by (auto simp: jm_get_set)

lemma jm_dom_del [jsmap_simps]: "dom (jm_get (jm_del m k)) = dom (jm_get m) - {k}"
  by (auto simp: jm_get_del split: if_splits)

section \<open>JavaScript sets\<close>

definition js_add :: "'a \<Rightarrow> 'a list \<Rightarrow> 'a list" where
  "js_add x xs = (if x \<in> set xs then xs else xs @ [x])"

definition js_add_all :: "'a list \<Rightarrow> 'a list \<Rightarrow> 'a list" where
  "js_add_all ys xs = fold js_add ys xs"

definition js_set_of :: "'a list \<Rightarrow> 'a list" where
  "js_set_of ys = js_add_all ys []"

definition js_del :: "'a \<Rightarrow> 'a list \<Rightarrow> 'a list" where
  "js_del x xs = filter (\<lambda>y. y \<noteq> x) xs"

lemma set_js_add [simp, jsset_simps]: "set (js_add x xs) = insert x (set xs)"
  by (auto simp: js_add_def)

lemma distinct_js_add [simp, intro]: "distinct xs \<Longrightarrow> distinct (js_add x xs)"
  by (simp add: js_add_def)

lemma set_js_add_all [simp, jsset_simps]: "set (js_add_all ys xs) = set xs \<union> set ys"
  unfolding js_add_all_def by (induction ys arbitrary: xs) auto

lemma distinct_js_add_all [simp, intro]: "distinct xs \<Longrightarrow> distinct (js_add_all ys xs)"
  unfolding js_add_all_def by (induction ys arbitrary: xs) auto

lemma set_js_set_of [simp, jsset_simps]: "set (js_set_of ys) = set ys"
  by (simp add: js_set_of_def)

lemma distinct_js_set_of [simp, intro]: "distinct (js_set_of ys)"
  by (simp add: js_set_of_def)

lemma set_js_del [simp, jsset_simps]: "set (js_del x xs) = set xs - {x}"
  by (auto simp: js_del_def)

lemma distinct_js_del [simp, intro]: "distinct xs \<Longrightarrow> distinct (js_del x xs)"
  by (simp add: js_del_def)

section \<open>Options and strings\<close>

text \<open>\<open>x ?? d\<close>: the value, or the default where it is undefined.\<close>

definition or_else :: "'a option \<Rightarrow> 'a \<Rightarrow> 'a" where
  "or_else x d = (case x of None \<Rightarrow> d | Some v \<Rightarrow> v)"

lemma or_else_simps [simp]: "or_else None d = d" "or_else (Some v) d = v"
  by (simp_all add: or_else_def)

text \<open>\<open>s.startsWith(p)\<close> and \<open>s.endsWith(p)\<close>.\<close>

abbreviation starts_with :: "string \<Rightarrow> string \<Rightarrow> bool" where
  "starts_with s p \<equiv> prefix p s"

abbreviation ends_with :: "string \<Rightarrow> string \<Rightarrow> bool" where
  "ends_with s p \<equiv> suffix p s"

text \<open>\<open>s.split(c)\<close> on one character, \<open>xs.join(c)\<close>, and \<open>s.trim()\<close> on the characters up to 255.\<close>

fun js_split :: "char \<Rightarrow> string \<Rightarrow> string list" where
  "js_split c [] = [[]]"
| "js_split c (x # xs) = (if x = c then [] # js_split c xs
     else (case js_split c xs of [] \<Rightarrow> [[x]] | y # ys \<Rightarrow> (x # y) # ys))"

fun js_join :: "string \<Rightarrow> string list \<Rightarrow> string" where
  "js_join sep [] = []"
| "js_join sep [x] = x"
| "js_join sep (x # y # ys) = x @ sep @ js_join sep (y # ys)"

definition js_space :: "char \<Rightarrow> bool" where
  "js_space c \<longleftrightarrow> of_char c \<in> {9, 10, 11, 12, 13, 32, 160 :: nat}"

definition js_trim :: "string \<Rightarrow> string" where
  "js_trim s = rev (dropWhile js_space (rev (dropWhile js_space s)))"

lemma js_split_not_Nil [simp]: "js_split c s \<noteq> []"
  by (induction s) (auto split: list.splits)

lemma js_join_Cons: "ys \<noteq> [] \<Longrightarrow> js_join sep (y # ys) = y @ sep @ js_join sep ys"
  by (cases ys) auto

lemma js_join_split: "js_join [c] (js_split c s) = s"
proof (induction s)
  case (Cons x s)
  then show ?case
    by (cases "js_split c s"; cases "tl (js_split c s)") (auto simp: js_join_Cons)
qed simp

lemma js_split_free: "c \<notin> set s \<Longrightarrow> js_split c s = [s]"
  by (induction s) auto

lemma js_split_append: "c \<notin> set s \<Longrightarrow> js_split c (s @ c # t) = s # js_split c t"
  by (induction s) auto

lemma js_split_parts_free: "p \<in> set (js_split c s) \<Longrightarrow> c \<notin> set p"
proof (induction s arbitrary: p)
  case (Cons x s)
  then show ?case by (cases "js_split c s") (auto split: if_splits)
qed simp

lemma js_split_join:
  "ys \<noteq> [] \<Longrightarrow> (\<And>y. y \<in> set ys \<Longrightarrow> c \<notin> set y) \<Longrightarrow> js_split c (js_join [c] ys) = ys"
  by (induction "[c]" ys rule: js_join.induct) (simp_all add: js_split_free js_split_append)

text \<open>\<open>s.toLowerCase()\<close> on the characters up to 255.\<close>

definition to_lower :: "string \<Rightarrow> string" where
  "to_lower = map (\<lambda>c. let n = of_char c :: nat in
     if 65 \<le> n \<and> n \<le> 90 \<or> 192 \<le> n \<and> n \<le> 222 \<and> n \<noteq> 215 then char_of (n + 32) else c)"

text \<open>\<open>String(n)\<close> of a natural number, and \<open>padStart\<close>.\<close>

fun js_of_nat :: "nat \<Rightarrow> string" where
  "js_of_nat n = (if n < 10 then [char_of (48 + n)] else js_of_nat (n div 10) @ [char_of (48 + n mod 10)])"

declare js_of_nat.simps [simp del]

definition js_padStart :: "nat \<Rightarrow> char \<Rightarrow> string \<Rightarrow> string" where
  "js_padStart k c s = replicate (k - length s) c @ s"

lemma js_of_nat_length: "0 < k \<Longrightarrow> n < 10 ^ k \<Longrightarrow> length (js_of_nat n) \<le> k"
proof (induction k arbitrary: n)
  case (Suc k)
  show ?case
  proof (cases "n < 10")
    case False
    then have "0 < k" using Suc.prems by (cases k) auto
    moreover have "n div 10 < 10 ^ k" using Suc.prems by (simp add: less_mult_imp_div_less mult.commute)
    ultimately show ?thesis
      using Suc.IH[of "n div 10"] False by (simp add: js_of_nat.simps[of n])
  qed (simp add: js_of_nat.simps[of n])
qed simp

lemma js_of_nat_not_Nil [simp]: "js_of_nat n \<noteq> []"
  by (subst js_of_nat.simps) simp

end
