(* ===== verification/Resilience_Breaker.thy ===== *)
theory Resilience_Breaker
  imports Boot_Prelude
begin

text \<open>
  \<open>src/resilience/circuit-breaker.ts\<close>, \<open>circuit-breaker-observability.ts\<close> and the constants of
  \<open>resilience/constants.ts\<close>.

  A breaker is a record of the class's fields. \<open>execute\<close> runs in two atomic pieces, the code before
  \<open>await fn()\<close> (\<open>cb_admit\<close>) and the code after it (\<open>cb_onSuccess\<close> or \<open>cb_onFailure\<close>): between the
  two, other calls of the same breaker may run. \<open>cb_execute\<close> puts the pieces of one call together
  with nothing in between; \<open>cb_step\<close> is the relation with any interleaving of concurrent calls.
  The observability object is the part of the breaker that records gauges, counters and emitted
  events; prom-client's gauges and counters are maps from label tuples to numbers.
\<close>

section \<open>Data\<close>

datatype cb_state = CLOSED | OPEN | HALF_OPEN

record cb_options =
  opt_name :: "string option"
  opt_failureThreshold :: "int option"
  opt_resetTimeout :: "int option"
  opt_halfOpenMax :: "int option"

definition DEFAULT_FAILURE_THRESHOLD :: int where "DEFAULT_FAILURE_THRESHOLD = 5"

definition DEFAULT_RESET_TIMEOUT :: int where "DEFAULT_RESET_TIMEOUT = 30000"

definition DEFAULT_HALF_OPEN_MAX :: int where "DEFAULT_HALF_OPEN_MAX = 1"

text \<open>\<open>CircuitBreakerStateChangeEvent\<close>, the event the observability object puts on the bus.\<close>

record cb_change =
  ch_name :: string
  ch_previous :: cb_state
  ch_new :: cb_state
  ch_failureCount :: int

record cb_obs =
  stateGauge :: "(string \<times> cb_state, int) jsmap"
  transitionsCounter :: "(string \<times> cb_state \<times> cb_state, int) jsmap"
  failuresCounter :: "(string, int) jsmap"
  hasEventBus :: bool
  emitted :: "cb_change list"

record breaker =
  cb_st :: cb_state
  failureCount :: int
  halfOpenAttempts :: int
  nextAttemptTime :: int
  failureThreshold :: int
  resetTimeout :: int
  halfOpenMax :: int
  cb_name :: string
  observability :: "cb_obs option"

datatype cb_error = CircuitBreakerOpenError string

section \<open>Observability\<close>

fun STATE_VALUE :: "cb_state \<Rightarrow> int" where
  "STATE_VALUE CLOSED = 0"
| "STATE_VALUE OPEN = 1"
| "STATE_VALUE HALF_OPEN = 2"

definition counter_inc :: "('l, int) jsmap \<Rightarrow> 'l \<Rightarrow> ('l, int) jsmap" where
  "counter_inc m l = jm_set m l (or_else (jm_get m l) 0 + 1)"

definition set_gauges :: "string \<Rightarrow> cb_state \<Rightarrow> (string \<times> cb_state, int) jsmap
    \<Rightarrow> (string \<times> cb_state, int) jsmap" where
  "set_gauges name new g =
     fold (\<lambda>st g. jm_set g (name, st) (if st = new then STATE_VALUE st else 0)) [CLOSED, OPEN, HALF_OPEN] g"

definition obs_onStateChange ::
    "string \<Rightarrow> cb_state \<Rightarrow> cb_state \<Rightarrow> int \<Rightarrow> cb_obs \<Rightarrow> cb_obs" where
  "obs_onStateChange name previous new count ob =
     (let ob1 = ob\<lparr>stateGauge := set_gauges name new (stateGauge ob)\<rparr>;
          ob2 = (if previous \<noteq> new
                 then ob1\<lparr>transitionsCounter := counter_inc (transitionsCounter ob1) (name, previous, new)\<rparr>
                 else ob1)
      in if hasEventBus ob2 \<and> previous \<noteq> new
         then ob2\<lparr>emitted := emitted ob2 @
                [\<lparr>ch_name = name, ch_previous = previous, ch_new = new, ch_failureCount = count\<rparr>]\<rparr>
         else ob2)"

definition obs_onFailure :: "string \<Rightarrow> cb_obs \<Rightarrow> cb_obs" where
  "obs_onFailure name ob = ob\<lparr>failuresCounter := counter_inc (failuresCounter ob) name\<rparr>"

section \<open>The breaker\<close>

definition cb_new :: "cb_options \<Rightarrow> cb_obs option \<Rightarrow> breaker" where
  "cb_new opts ob =
     (let name = or_else (opt_name opts) ''default'' in
      \<lparr>cb_st = CLOSED, failureCount = 0, halfOpenAttempts = 0, nextAttemptTime = 0,
       failureThreshold = or_else (opt_failureThreshold opts) DEFAULT_FAILURE_THRESHOLD,
       resetTimeout = or_else (opt_resetTimeout opts) DEFAULT_RESET_TIMEOUT,
       halfOpenMax = or_else (opt_halfOpenMax opts) DEFAULT_HALF_OPEN_MAX,
       cb_name = name,
       observability = map_option (obs_onStateChange name CLOSED CLOSED 0) ob\<rparr>)"

definition cb_transitionTo :: "int \<Rightarrow> cb_state \<Rightarrow> breaker \<Rightarrow> breaker" where
  "cb_transitionTo now new b =
     (if cb_st b = new then b
      else let previous = cb_st b;
               b1 = b\<lparr>cb_st := new\<rparr>;
               b2 = (if new = OPEN then b1\<lparr>nextAttemptTime := now + resetTimeout b1\<rparr> else b1)
           in b2\<lparr>observability :=
                map_option (obs_onStateChange (cb_name b2) previous new (failureCount b2)) (observability b2)\<rparr>)"

definition cb_reset :: "int \<Rightarrow> breaker \<Rightarrow> breaker" where
  "cb_reset now b =
     (cb_transitionTo now CLOSED b)\<lparr>failureCount := 0, halfOpenAttempts := 0, nextAttemptTime := 0\<rparr>"

definition cb_onSuccess :: "int \<Rightarrow> breaker \<Rightarrow> breaker" where
  "cb_onSuccess now b =
     (let b1 = (if cb_st b = HALF_OPEN then cb_transitionTo now CLOSED b else b)
      in b1\<lparr>failureCount := 0, halfOpenAttempts := 0\<rparr>)"

definition cb_onFailure :: "int \<Rightarrow> breaker \<Rightarrow> breaker" where
  "cb_onFailure now b =
     (let b1 = b\<lparr>failureCount := failureCount b + 1,
                 observability := map_option (obs_onFailure (cb_name b)) (observability b)\<rparr>
      in if cb_st b1 = HALF_OPEN then cb_transitionTo now OPEN b1
         else if failureCount b1 \<ge> failureThreshold b1 then cb_transitionTo now OPEN b1
         else b1)"

text \<open>\<open>execute\<close> up to \<open>await fn()\<close>: the breaker left behind, and the error if the call is refused.\<close>

definition cb_admit :: "int \<Rightarrow> breaker \<Rightarrow> breaker \<times> cb_error option" where
  "cb_admit now b =
     (if cb_st b = OPEN \<and> now < nextAttemptTime b
      then (b, Some (CircuitBreakerOpenError ''Circuit breaker is OPEN''))
      else let b1 = (if cb_st b = OPEN
                     then (cb_transitionTo now HALF_OPEN b)\<lparr>halfOpenAttempts := 0\<rparr> else b)
           in if cb_st b1 = HALF_OPEN \<and> halfOpenAttempts b1 \<ge> halfOpenMax b1
              then (b1, Some (CircuitBreakerOpenError ''Circuit breaker is OPEN (half-open limit reached)''))
              else if cb_st b1 = HALF_OPEN
              then (b1\<lparr>halfOpenAttempts := halfOpenAttempts b1 + 1\<rparr>, None)
              else (b1, None))"

text \<open>
  One whole call, with no other call of the breaker in between: \<open>fn\<close> acts on the rest of the world
  and takes until \<open>later\<close>. The result keeps the breaker's own refusal apart from \<open>fn\<close>'s error.
\<close>

datatype ('e, 'a) cb_result = Refused cb_error | Failed 'e | Returned 'a

definition cb_execute ::
    "int \<Rightarrow> int \<Rightarrow> ('w \<Rightarrow> ('e + 'a) \<times> 'w) \<Rightarrow> breaker \<Rightarrow> 'w \<Rightarrow> ('e, 'a) cb_result \<times> breaker \<times> 'w" where
  "cb_execute now later fn b w =
     (case cb_admit now b of
        (b1, Some err) \<Rightarrow> (Refused err, b1, w)
      | (b1, None) \<Rightarrow>
          (case fn w of
             (Inr result, w1) \<Rightarrow> (Returned result, cb_onSuccess later b1, w1)
           | (Inl err, w1) \<Rightarrow> (Failed err, cb_onFailure later b1, w1)))"

section \<open>The decorator's registry\<close>

text \<open>\<open>circuit-breaker.decorator.ts\<close>: one breaker per name, made from the options of the first use; the
  registry holds the breakers' states, and a decorated method runs through its name's breaker.\<close>

definition getOrCreateBreaker :: "(string, breaker) jsmap \<Rightarrow> cb_options \<Rightarrow> cb_obs option
    \<Rightarrow> (string, breaker) jsmap \<times> string" where
  "getOrCreateBreaker registry options ob =
     (let name = or_else (opt_name options) ''default''
      in if jm_has registry name then (registry, name)
         else (jm_set registry name (cb_new options ob), name))"

definition decorated_execute :: "int \<Rightarrow> int \<Rightarrow> string \<Rightarrow> ('w \<Rightarrow> ('e + 'a) \<times> 'w)
    \<Rightarrow> (string, breaker) jsmap \<Rightarrow> 'w \<Rightarrow> (('e, 'a) cb_result \<times> (string, breaker) jsmap \<times> 'w) option" where
  "decorated_execute now later name fn registry w =
     (case jm_get registry name of
        None \<Rightarrow> None
      | Some b \<Rightarrow> (case cb_execute now later fn b w of (r, b1, w1) \<Rightarrow> Some (r, jm_set registry name b1, w1)))"

section \<open>Concurrent calls\<close>

text \<open>The breaker with the clock and the number of admitted calls that have not settled yet.\<close>

record cb_sys =
  sys_breaker :: breaker
  sys_clock :: int
  sys_inflight :: nat

inductive cb_step :: "cb_sys \<Rightarrow> cb_sys \<Rightarrow> bool" where
  cb_begin: "cb_admit (sys_clock s) (sys_breaker s) = (b, None) \<Longrightarrow>
     cb_step s (s\<lparr>sys_breaker := b, sys_inflight := Suc (sys_inflight s)\<rparr>)"
| cb_refuse: "cb_admit (sys_clock s) (sys_breaker s) = (b, Some err) \<Longrightarrow> cb_step s (s\<lparr>sys_breaker := b\<rparr>)"
| cb_succeed: "sys_inflight s = Suc n \<Longrightarrow>
     cb_step s (s\<lparr>sys_breaker := cb_onSuccess (sys_clock s) (sys_breaker s), sys_inflight := n\<rparr>)"
| cb_fail: "sys_inflight s = Suc n \<Longrightarrow>
     cb_step s (s\<lparr>sys_breaker := cb_onFailure (sys_clock s) (sys_breaker s), sys_inflight := n\<rparr>)"
| cb_do_reset: "cb_step s (s\<lparr>sys_breaker := cb_reset (sys_clock s) (sys_breaker s)\<rparr>)"
| cb_tick: "sys_clock s \<le> t \<Longrightarrow> cb_step s (s\<lparr>sys_clock := t\<rparr>)"

inductive_cases cb_stepE: "cb_step s t"

inductive cb_reach :: "breaker \<Rightarrow> cb_sys \<Rightarrow> bool" for b0 where
  cb_reach_init: "cb_reach b0 \<lparr>sys_breaker = b0, sys_clock = t, sys_inflight = 0\<rparr>"
| cb_reach_step: "cb_reach b0 s \<Longrightarrow> cb_step s t \<Longrightarrow> cb_reach b0 t"

lemmas cb_defs = cb_transitionTo_def cb_reset_def cb_onSuccess_def cb_onFailure_def cb_admit_def


section \<open>The invariant\<close>

definition gauges_ok :: "breaker \<Rightarrow> bool" where
  "gauges_ok b \<longleftrightarrow> (\<forall>ob. observability b = Some ob \<longrightarrow>
     (\<forall>st. jm_get (stateGauge ob) (cb_name b, st) = Some (if st = cb_st b then STATE_VALUE st else 0)))"

definition cb_inv :: "int \<Rightarrow> breaker \<Rightarrow> bool" where
  "cb_inv now b \<longleftrightarrow> 1 \<le> failureThreshold b \<and> 0 \<le> failureCount b \<and>
     (cb_st b = CLOSED \<longrightarrow> failureCount b < failureThreshold b) \<and>
     0 \<le> halfOpenAttempts b \<and> halfOpenAttempts b \<le> max 0 (halfOpenMax b) \<and>
     (cb_st b = OPEN \<longrightarrow> nextAttemptTime b \<le> now + resetTimeout b)"

lemma set_gauges_get:
  "jm_get (set_gauges name new g) (name, st) = Some (if st = new then STATE_VALUE st else 0)"
  by (cases st) (simp_all add: set_gauges_def jsmap_simps)

lemma stateGauge_onStateChange [simp]:
  "stateGauge (obs_onStateChange n p new c ob) = set_gauges n new (stateGauge ob)"
  by (cases "p = new"; cases "hasEventBus ob") (simp_all add: obs_onStateChange_def)

lemma stateGauge_onFailure [simp]: "stateGauge (obs_onFailure n ob) = stateGauge ob"
  by (simp add: obs_onFailure_def)

lemma cb_transitionTo_simps [simp]:
  "cb_st (cb_transitionTo now new b) = new"
  "failureCount (cb_transitionTo now new b) = failureCount b"
  "halfOpenAttempts (cb_transitionTo now new b) = halfOpenAttempts b"
  "failureThreshold (cb_transitionTo now new b) = failureThreshold b"
  "resetTimeout (cb_transitionTo now new b) = resetTimeout b"
  "halfOpenMax (cb_transitionTo now new b) = halfOpenMax b"
  "cb_name (cb_transitionTo now new b) = cb_name b"
  "nextAttemptTime (cb_transitionTo now new b) =
     (if cb_st b \<noteq> new \<and> new = OPEN then now + resetTimeout b else nextAttemptTime b)"
  by (auto simp: cb_transitionTo_def Let_def)

lemma observability_transitionTo:
  "cb_st b \<noteq> new \<Longrightarrow> observability (cb_transitionTo now new b) =
     map_option (obs_onStateChange (cb_name b) (cb_st b) new (failureCount b)) (observability b)"
  by (simp add: cb_transitionTo_def Let_def)

lemma gauges_ok_transitionTo [simp]:
  assumes "gauges_ok b"
  shows "gauges_ok (cb_transitionTo now new b)"
proof (cases "cb_st b = new")
  case True
  with assms show ?thesis by (simp add: cb_transitionTo_def)
next
  case False
  then show ?thesis
    by (cases "observability b") (simp_all add: gauges_ok_def observability_transitionTo set_gauges_get)
qed

lemma gauges_ok_update [simp]:
  "gauges_ok (b\<lparr>failureCount := n\<rparr>) = gauges_ok b"
  "gauges_ok (b\<lparr>halfOpenAttempts := n\<rparr>) = gauges_ok b"
  "gauges_ok (b\<lparr>nextAttemptTime := t\<rparr>) = gauges_ok b"
  "gauges_ok (b\<lparr>observability := map_option (obs_onFailure k) (observability b)\<rparr>) = gauges_ok b"
  by (auto simp: gauges_ok_def)

lemma cb_onFailure_alt:
  "cb_onFailure now b =
     (let b1 = b\<lparr>failureCount := failureCount b + 1\<rparr>
                \<lparr>observability := map_option (obs_onFailure (cb_name b)) (observability b)\<rparr>
      in if cb_st b = HALF_OPEN \<or> failureCount b + 1 \<ge> failureThreshold b
         then cb_transitionTo now OPEN b1 else b1)"
  by (simp add: cb_onFailure_def Let_def)

lemma gauges_ok_ops:
  assumes "gauges_ok b"
  shows "gauges_ok (cb_reset now b)" and "gauges_ok (cb_onSuccess now b)"
    and "gauges_ok (cb_onFailure now b)" and "gauges_ok (fst (cb_admit now b))"
proof -
  let ?f = "b\<lparr>failureCount := failureCount b + 1\<rparr>
             \<lparr>observability := map_option (obs_onFailure (cb_name b)) (observability b)\<rparr>"
  have "gauges_ok ?f"
    using assms gauges_ok_update(4)[where b = "b\<lparr>failureCount := failureCount b + 1\<rparr>" and k = "cb_name b"] by simp
  then show "gauges_ok (cb_onFailure now b)"
    unfolding cb_onFailure_alt Let_def by simp
qed (use assms in \<open>simp_all add: cb_reset_def cb_onSuccess_def cb_admit_def Let_def\<close>)

lemma cb_inv_ops:
  assumes "cb_inv now b"
  shows "cb_inv now (cb_reset now b)" and "cb_inv now (cb_onSuccess now b)"
    and "cb_inv now (cb_onFailure now b)" and "cb_inv now (fst (cb_admit now b))"
  using assms
  by (auto simp: cb_inv_def cb_reset_def cb_onSuccess_def cb_onFailure_alt cb_admit_def Let_def)

lemma cb_params_ops [simp]:
  "failureThreshold (cb_reset now b) = failureThreshold b"
  "failureThreshold (cb_onSuccess now b) = failureThreshold b"
  "failureThreshold (cb_onFailure now b) = failureThreshold b"
  "failureThreshold (fst (cb_admit now b)) = failureThreshold b"
  "resetTimeout (cb_onFailure now b) = resetTimeout b"
  by (simp_all add: cb_reset_def cb_onSuccess_def cb_onFailure_alt cb_admit_def Let_def)

lemma cb_inv_later: "cb_inv now b \<Longrightarrow> now \<le> t \<Longrightarrow> cb_inv t b"
  by (auto simp: cb_inv_def)

lemma cb_step_inv:
  assumes "cb_step s t" and "cb_inv (sys_clock s) (sys_breaker s) \<and> gauges_ok (sys_breaker s)"
  shows "cb_inv (sys_clock t) (sys_breaker t) \<and> gauges_ok (sys_breaker t)"
  using assms
proof (induction rule: cb_step.induct)
  case (cb_begin s b)
  then show ?case using cb_inv_ops(4)[of "sys_clock s" "sys_breaker s"] gauges_ok_ops(4)[of "sys_breaker s" "sys_clock s"] by simp
next
  case (cb_refuse s b err)
  then show ?case using cb_inv_ops(4)[of "sys_clock s" "sys_breaker s"] gauges_ok_ops(4)[of "sys_breaker s" "sys_clock s"] by simp
next
  case (cb_tick s t)
  then show ?case using cb_inv_later by auto
qed (simp_all add: cb_inv_ops gauges_ok_ops)

lemma cb_new_inv:
  assumes "or_else (opt_failureThreshold opts) DEFAULT_FAILURE_THRESHOLD \<ge> 1"
  shows "cb_inv t (cb_new opts ob) \<and> gauges_ok (cb_new opts ob)"
  using assms by (cases ob) (auto simp: cb_inv_def gauges_ok_def cb_new_def Let_def set_gauges_get)

lemma cb_reach_inv:
  assumes "cb_reach (cb_new opts ob) s"
    and "or_else (opt_failureThreshold opts) DEFAULT_FAILURE_THRESHOLD \<ge> 1"
  shows "cb_inv (sys_clock s) (sys_breaker s) \<and> gauges_ok (sys_breaker s)"
  using assms by (induction rule: cb_reach.induct) (auto simp: cb_new_inv dest: cb_step_inv)

section \<open>Sequences of calls\<close>

text \<open>Calls made one after the other, each with the times at which it starts and settles.\<close>

fun cb_run :: "(int \<times> int) list \<Rightarrow> ('w \<Rightarrow> ('e + 'a) \<times> 'w) \<Rightarrow> breaker \<Rightarrow> 'w
    \<Rightarrow> ('e, 'a) cb_result list \<times> breaker \<times> 'w" where
  "cb_run [] fn b w = ([], b, w)"
| "cb_run ((now, later) # ts) fn b w =
     (let (r, b1, w1) = cb_execute now later fn b w; (rs, b2, w2) = cb_run ts fn b1 w1
      in (r # rs, b2, w2))"

definition always_fails :: "('w \<Rightarrow> ('e + 'a) \<times> 'w) \<Rightarrow> bool" where
  "always_fails fn \<longleftrightarrow> (\<forall>w. \<exists>e w'. fn w = (Inl e, w'))"

lemma cb_execute_fail_fast:
  assumes "cb_st b = OPEN" and "now < nextAttemptTime b"
  shows "cb_execute now later fn b w =
           (Refused (CircuitBreakerOpenError ''Circuit breaker is OPEN''), b, w)"
  using assms by (simp add: cb_execute_def cb_admit_def)

lemma cb_execute_closed_failure:
  assumes "cb_st b = CLOSED" and "fn w = (Inl e, w')"
  shows "cb_execute now later fn b w = (Failed e, cb_onFailure later b, w')"
  using assms by (simp add: cb_execute_def cb_admit_def)

lemma cb_onFailure_closed:
  assumes "cb_st b = CLOSED" and "failureCount b + 1 < failureThreshold b"
  shows "cb_st (cb_onFailure now b) = CLOSED" and "failureCount (cb_onFailure now b) = failureCount b + 1"
  using assms by (simp_all add: cb_onFailure_alt)

lemma cb_onFailure_trips:
  assumes "cb_st b = CLOSED" and "failureCount b + 1 \<ge> failureThreshold b"
  shows "cb_st (cb_onFailure now b) = OPEN"
    and "nextAttemptTime (cb_onFailure now b) = now + resetTimeout b"
  using assms by (simp_all add: cb_onFailure_alt)

lemma cb_run_trips:
  assumes "always_fails fn" and "cb_st b = CLOSED" and "ts \<noteq> []"
    and "failureCount b + int (length ts) = failureThreshold b"
    and "cb_run ts fn b w = (rs, b', w')"
  shows "(\<forall>r \<in> set rs. \<exists>e. r = Failed e) \<and> length rs = length ts \<and> cb_st b' = OPEN \<and>
         nextAttemptTime b' = snd (last ts) + resetTimeout b"
  using assms
proof (induction ts arbitrary: b w rs)
  case (Cons t ts)
  obtain now later where t: "t = (now, later)" by (cases t)
  obtain e w1 where fn: "fn w = (Inl e, w1)" using Cons.prems(1) unfolding always_fails_def by blast
  let ?b = "cb_onFailure later b"
  have ex: "cb_execute now later fn b w = (Failed e, ?b, w1)"
    using cb_execute_closed_failure[where fn = fn] Cons.prems(2) fn by blast
  obtain rs' where run: "cb_run ts fn ?b w1 = (rs', b', w')" and rs: "rs = Failed e # rs'"
    using Cons.prems(5) by (auto simp: t ex split: prod.splits)
  show ?case
  proof (cases "ts = []")
    case True
    with run rs cb_onFailure_trips[OF Cons.prems(2)] Cons.prems(4) show ?thesis by (auto simp: t)
  next
    case False
    then have "failureCount b + 1 < failureThreshold b"
      using Cons.prems(4) by (cases ts) auto
    note b = cb_onFailure_closed[OF Cons.prems(2) this]
    have "failureCount ?b + int (length ts) = failureThreshold ?b"
      using b(2) Cons.prems(4) by simp
    from Cons.IH[OF Cons.prems(1) b(1) False this run] False rs show ?thesis
      by (simp add: t)
  qed
qed simp

section \<open>Properties\<close>

text \<open>C1. Safety of the breaker under any interleaving of concurrent calls, refusals, resets and clock
  ticks: from a fresh breaker with a positive threshold, a CLOSED breaker has fewer failures than the
  threshold, never more than \<open>halfOpenMax\<close> probes are admitted in one half-open phase, and the
  retry deadline of an OPEN breaker is at most \<open>resetTimeout\<close> ahead of the clock.\<close>

theorem breaker_reachable_invariant:
  assumes "cb_reach (cb_new opts ob) s"
    and "or_else (opt_failureThreshold opts) DEFAULT_FAILURE_THRESHOLD \<ge> 1"
  shows "(cb_st (sys_breaker s) = CLOSED \<longrightarrow> failureCount (sys_breaker s) < failureThreshold (sys_breaker s)) \<and>
         halfOpenAttempts (sys_breaker s) \<le> max 0 (halfOpenMax (sys_breaker s)) \<and>
         (cb_st (sys_breaker s) = OPEN \<longrightarrow> nextAttemptTime (sys_breaker s) \<le> sys_clock s + resetTimeout (sys_breaker s))"
  using cb_reach_inv[OF assms] by (simp add: cb_inv_def)

definition cb_example_options :: cb_options where
  "cb_example_options = \<lparr>opt_name = None, opt_failureThreshold = Some 1, opt_resetTimeout = Some 10,
     opt_halfOpenMax = None\<rparr>"

lemma cb_reach_example:
  "cb_reach (cb_new cb_example_options None)
     \<lparr>sys_breaker = cb_onFailure 0 (cb_new cb_example_options None), sys_clock = 0, sys_inflight = 0\<rparr>"
proof -
  let ?b = "cb_new cb_example_options None"
  have "cb_admit 0 ?b = (?b, None)"
    by (simp add: cb_new_def cb_admit_def Let_def cb_example_options_def)
  then have "cb_step \<lparr>sys_breaker = ?b, sys_clock = 0, sys_inflight = 0\<rparr> \<lparr>sys_breaker = ?b, sys_clock = 0, sys_inflight = Suc 0\<rparr>"
    using cb_begin[of "\<lparr>sys_breaker = ?b, sys_clock = 0, sys_inflight = 0\<rparr>" ?b] by simp
  then have r: "cb_reach ?b \<lparr>sys_breaker = ?b, sys_clock = 0, sys_inflight = Suc 0\<rparr>"
    using cb_reach_init[of ?b 0] cb_reach_step by blast
  have "cb_step \<lparr>sys_breaker = ?b, sys_clock = 0, sys_inflight = Suc 0\<rparr>
      \<lparr>sys_breaker = cb_onFailure 0 ?b, sys_clock = 0, sys_inflight = 0\<rparr>"
    using cb_fail[of "\<lparr>sys_breaker = ?b, sys_clock = 0, sys_inflight = Suc 0\<rparr>" 0] by simp
  with r show ?thesis by (rule cb_reach_step)
qed

theorem breaker_reachable_invariant_witness:
  "cb_st (cb_onFailure 0 (cb_new cb_example_options None)) = OPEN \<and>
   nextAttemptTime (cb_onFailure 0 (cb_new cb_example_options None)) \<le> 0 + 10"
  using breaker_reachable_invariant[OF cb_reach_example]
  by (simp add: cb_example_options_def cb_onFailure_alt cb_new_def Let_def)

text \<open>The exported gauges mirror the breaker: in every reachable state the label of the current
  state carries that state's value and the two other labels are zero.\<close>

theorem breaker_gauges_mirror_state:
  assumes "cb_reach (cb_new opts (Some ob)) s"
    and "or_else (opt_failureThreshold opts) DEFAULT_FAILURE_THRESHOLD \<ge> 1"
    and "observability (sys_breaker s) = Some ob'"
  shows "jm_get (stateGauge ob') (cb_name (sys_breaker s), st) =
           Some (if st = cb_st (sys_breaker s) then STATE_VALUE st else 0)"
  using cb_reach_inv[OF assms(1,2)] assms(3) by (auto simp: gauges_ok_def)

definition cb_empty_obs :: cb_obs where
  "cb_empty_obs = \<lparr>stateGauge = [], transitionsCounter = [], failuresCounter = [], hasEventBus = True, emitted = []\<rparr>"

theorem breaker_gauges_mirror_state_witness:
  "jm_get (stateGauge (obs_onStateChange ''default'' CLOSED CLOSED 0 cb_empty_obs)) (''default'', OPEN) = Some 0"
proof -
  let ?b = "cb_new cb_example_options (Some cb_empty_obs)"
  have "observability ?b = Some (obs_onStateChange ''default'' CLOSED CLOSED 0 cb_empty_obs)"
    and "cb_name ?b = ''default''" and "cb_st ?b = CLOSED"
    by (simp_all add: cb_new_def Let_def cb_example_options_def)
  then show ?thesis
    using breaker_gauges_mirror_state[OF cb_reach_init[of ?b 0], of _ OPEN]
    by (simp add: cb_example_options_def)
qed


text \<open>C2. The breaker trips exactly at its threshold and then fails fast: from a fresh breaker, as many
  failing calls as the threshold all reach \<open>fn\<close> and leave it OPEN with the deadline \<open>resetTimeout\<close>
  after the last failure; until that deadline a call is refused, \<open>fn\<close> is not run, and nothing changes.\<close>

theorem breaker_trips_then_fails_fast:
  assumes "always_fails fn" and "ts \<noteq> []"
    and "int (length ts) = failureThreshold (cb_new opts ob)"
    and "cb_run ts fn (cb_new opts ob) w = (rs, b', w')"
  shows "(\<forall>r \<in> set rs. \<exists>e. r = Failed e) \<and> length rs = length ts \<and> cb_st b' = OPEN \<and>
         nextAttemptTime b' = snd (last ts) + resetTimeout (cb_new opts ob) \<and>
         (\<forall>now later v. now < nextAttemptTime b' \<longrightarrow>
            cb_execute now later fn b' v =
              (Refused (CircuitBreakerOpenError ''Circuit breaker is OPEN''), b', v))"
proof -
  have "cb_st (cb_new opts ob) = CLOSED" and "failureCount (cb_new opts ob) = 0"
    by (simp_all add: cb_new_def Let_def)
  with cb_run_trips[OF assms(1) _ assms(2) _ assms(4)] assms(3)
  show ?thesis by (auto intro: cb_execute_fail_fast)
qed

theorem breaker_trips_then_fails_fast_witness:
  "cb_st (fst (snd (cb_run [(0, 3)] (\<lambda>w. (Inl ''boom'' :: string + unit, Suc w))
     (cb_new cb_example_options None) 0))) = OPEN"
proof -
  let ?fn = "\<lambda>w. (Inl ''boom'' :: string + unit, Suc w)"
  obtain rs b' w' where run: "cb_run [(0, 3)] ?fn (cb_new cb_example_options None) 0 = (rs, b', w')"
    by (metis prod_cases3)
  have "always_fails ?fn" by (simp add: always_fails_def)
  moreover have "int (length [(0::int, 3::int)]) = failureThreshold (cb_new cb_example_options None)"
    by (simp add: cb_new_def Let_def cb_example_options_def)
  ultimately have "cb_st b' = OPEN"
    using breaker_trips_then_fails_fast[OF _ _ _ run] by simp
  with run show ?thesis by simp
qed

text \<open>An OPEN breaker stays OPEN whatever its in-flight calls do: the only steps that leave OPEN are
  a call arriving at or after the deadline, which moves it to HALF_OPEN, and an explicit \<open>reset\<close>.\<close>

theorem breaker_open_left_by_deadline_or_reset:
  assumes "cb_step s t" and "cb_st (sys_breaker s) = OPEN" and "cb_st (sys_breaker t) \<noteq> OPEN"
  shows "(nextAttemptTime (sys_breaker s) \<le> sys_clock s \<and> cb_st (sys_breaker t) = HALF_OPEN) \<or>
         sys_breaker t = cb_reset (sys_clock s) (sys_breaker s)"
  using assms
  by (elim cb_stepE)
    (auto simp: cb_admit_def cb_onSuccess_def cb_onFailure_alt Let_def split: if_splits)

theorem breaker_open_left_by_deadline_or_reset_witness:
  "\<exists>s t. cb_step s t \<and> cb_st (sys_breaker s) = OPEN \<and> cb_st (sys_breaker t) = CLOSED \<and>
     sys_breaker t = cb_reset (sys_clock s) (sys_breaker s)"
proof -
  define s where "s = \<lparr>sys_breaker = cb_onFailure 0 (cb_new cb_example_options None), sys_clock = 0, sys_inflight = 0\<rparr>"
  define t where "t = s\<lparr>sys_breaker := cb_reset (sys_clock s) (sys_breaker s)\<rparr>"
  have step: "cb_step s t" unfolding t_def by (rule cb_do_reset)
  have st: "cb_st (sys_breaker s) = OPEN"
    by (simp add: s_def cb_example_options_def cb_onFailure_alt cb_new_def Let_def)
  have "cb_st (sys_breaker t) = CLOSED" by (simp add: t_def cb_reset_def)
  with breaker_open_left_by_deadline_or_reset[OF step st] step st show ?thesis by fastforce
qed

text \<open>C3. Recovery: once the deadline has passed, and with at least one probe allowed, the next call of an
  OPEN breaker reaches \<open>fn\<close>; its success closes the breaker with all counters cleared, its failure
  opens it again for another \<open>resetTimeout\<close>.\<close>

theorem breaker_recovers_after_deadline:
  assumes "cb_st b = OPEN" and "nextAttemptTime b \<le> now" and "1 \<le> halfOpenMax b"
  shows "case fn w of
           (Inr a, w1) \<Rightarrow> \<exists>b'. cb_execute now later fn b w = (Returned a, b', w1) \<and> cb_st b' = CLOSED \<and>
              failureCount b' = 0 \<and> halfOpenAttempts b' = 0
         | (Inl e, w1) \<Rightarrow> \<exists>b'. cb_execute now later fn b w = (Failed e, b', w1) \<and> cb_st b' = OPEN \<and>
              nextAttemptTime b' = later + resetTimeout b"
  using assms
  by (auto simp: cb_execute_def cb_admit_def cb_onSuccess_def cb_onFailure_alt Let_def
           split: prod.splits sum.splits)

theorem breaker_recovers_after_deadline_witness:
  "\<exists>b'. cb_execute 10 11 (\<lambda>w. (Inr True :: string + bool, w))
      (cb_onFailure 0 (cb_new cb_example_options None)) () = (Returned True, b', ()) \<and> cb_st b' = CLOSED"
proof -
  let ?b = "cb_onFailure 0 (cb_new cb_example_options None)"
  have "cb_st ?b = OPEN" and "nextAttemptTime ?b \<le> 10" and "1 \<le> halfOpenMax ?b"
    by (simp_all add: cb_example_options_def cb_onFailure_alt cb_new_def Let_def DEFAULT_HALF_OPEN_MAX_def)
  from breaker_recovers_after_deadline[OF this, where fn = "\<lambda>w. (Inr True :: string + bool, w)"
      and w = "()" and later = 11]
  show ?thesis by auto
qed

end
