(* ===== verification/Resilience_Retry.thy ===== *)
theory Resilience_Retry
  imports Resilience_Breaker Complex_Main
begin

text \<open>
  \<open>src/resilience/retry.decorator.ts\<close> and \<open>src/transport/resilient-client.ts\<close>.

  A remote or decorated method is a function from the state of the world to its outcome and the next
  state. The loops thread the world together with the list of delays they slept; \<open>Math.random()\<close> is a
  function of the attempt number. Delays are rationals: the code's jitter is a fraction of a millisecond.
\<close>

section \<open>Options and delays\<close>

datatype backoff = Fixed | Exponential

record 'e retry_options =
  ro_maxAttempts :: "int option"
  ro_backoff :: "backoff option"
  ro_delay :: "rat option"
  ro_maxDelay :: "rat option"
  ro_retryOn :: "('e \<Rightarrow> bool) option"

definition DEFAULT_RETRY_MAX_ATTEMPTS :: int where "DEFAULT_RETRY_MAX_ATTEMPTS = 3"

definition DEFAULT_RETRY_DELAY :: rat where "DEFAULT_RETRY_DELAY = 1000"

definition DEFAULT_RETRY_MAX_DELAY :: rat where "DEFAULT_RETRY_MAX_DELAY = 10000"

definition computeDelay :: "nat \<Rightarrow> backoff \<Rightarrow> rat \<Rightarrow> rat \<Rightarrow> rat \<Rightarrow> rat" where
  "computeDelay attempt bo baseDelay maxDelay random =
     (if bo = Fixed then min baseDelay maxDelay
      else let exponential = baseDelay * 2 ^ attempt; jitter = random * (baseDelay / 2)
           in min (exponential + jitter) maxDelay)"

text \<open>\<open>retryOn && !retryOn(err)\<close>: the error is not to be retried.\<close>

definition not_retryable :: "('e \<Rightarrow> bool) option \<Rightarrow> 'e \<Rightarrow> bool" where
  "not_retryable p e = (case p of None \<Rightarrow> False | Some f \<Rightarrow> \<not> f e)"

section \<open>The Retry decorator\<close>

text \<open>
  The loop body of the wrapped method. The thrown \<open>lastError\<close> is \<open>undefined\<close> (here \<open>None\<close>) when
  \<open>maxAttempts\<close> is not positive and the loop never runs.
\<close>

function retry_loop :: "int \<Rightarrow> (nat \<Rightarrow> rat) \<Rightarrow> ('e \<Rightarrow> bool) option \<Rightarrow> ('w \<Rightarrow> ('e + 'a) \<times> 'w)
    \<Rightarrow> nat \<Rightarrow> 'e option \<Rightarrow> 'w \<times> rat list \<Rightarrow> ('e option + 'a) \<times> 'w \<times> rat list" where
  "retry_loop maxAttempts waitTime retryOn method attempt lastError (w, slept) =
     (if int attempt < maxAttempts
      then (case method w of
              (Inr a, w1) \<Rightarrow> (Inr a, w1, slept)
            | (Inl e, w1) \<Rightarrow>
                if not_retryable retryOn e then (Inl (Some e), w1, slept)
                else retry_loop maxAttempts waitTime retryOn method (Suc attempt) (Some e)
                       (w1, if int attempt < maxAttempts - 1 then slept @ [waitTime attempt] else slept))
      else (Inl lastError, w, slept))"
  by pat_completeness auto
termination
  by (relation "measure (\<lambda>(maxAttempts, _, _, _, attempt, _, _). nat (maxAttempts - int attempt))") auto

declare retry_loop.simps [simp del]

text \<open>\<open>Retry(options)\<close> around a method; the world's list of sleeps starts empty.\<close>

definition Retry :: "'e retry_options option \<Rightarrow> (nat \<Rightarrow> rat) \<Rightarrow> ('w \<Rightarrow> ('e + 'a) \<times> 'w)
    \<Rightarrow> 'w \<Rightarrow> ('e option + 'a) \<times> 'w \<times> rat list" where
  "Retry options random method w =
     (let maxAttempts = or_else (Option.bind options ro_maxAttempts) DEFAULT_RETRY_MAX_ATTEMPTS;
          bo = or_else (Option.bind options ro_backoff) Exponential;
          delay = or_else (Option.bind options ro_delay) DEFAULT_RETRY_DELAY;
          maxDelay = or_else (Option.bind options ro_maxDelay) DEFAULT_RETRY_MAX_DELAY;
          retryOn = Option.bind options ro_retryOn
      in retry_loop maxAttempts (\<lambda>k. computeDelay k bo delay maxDelay (random k)) retryOn method 0 None (w, []))"

section \<open>The resilient client\<close>

datatype 'e call_error = CbOpen cb_error | TimedOut int | Remote 'e | UnknownError

record 'e client_options =
  co_timeout :: "int option"
  co_retry :: "'e call_error retry_options option"

definition computeBackoffDelay :: "nat \<Rightarrow> 'e retry_options \<Rightarrow> rat \<Rightarrow> rat" where
  "computeBackoffDelay attempt opts random =
     (let base = or_else (ro_delay opts) 1000; mx = or_else (ro_maxDelay opts) 10000
      in if or_else (ro_backoff opts) Exponential = Fixed then min base mx
         else let exponential = base * 2 ^ attempt; jitter = random * (base / 2)
              in min (exponential + jitter) mx)"

text \<open>
  \<open>_callWithTimeout\<close>: with no timeout (or 0) the call itself; otherwise the race of the call and the
  timer, \<open>None\<close> when the race rejects with a \<open>TimeoutError\<close>.
\<close>

definition callWithTimeout :: "int option \<Rightarrow> ('w \<Rightarrow> ('e call_error + 'a) \<times> 'w)
    \<Rightarrow> (int \<Rightarrow> 'w \<Rightarrow> ('e call_error + 'a) option \<times> 'w) \<Rightarrow> 'w \<Rightarrow> ('e call_error + 'a) \<times> 'w" where
  "callWithTimeout timeoutMs call race w =
     (case timeoutMs of
        None \<Rightarrow> call w
      | Some t \<Rightarrow> if t = 0 then call w
          else (case race t w of (None, w1) \<Rightarrow> (Inl (TimedOut t), w1) | (Some r, w1) \<Rightarrow> (r, w1)))"

function callWithRetry_loop :: "int \<Rightarrow> (nat \<Rightarrow> rat) \<Rightarrow> ('e call_error \<Rightarrow> bool) option
    \<Rightarrow> ('w \<Rightarrow> ('e call_error + 'a) \<times> 'w) \<Rightarrow> nat \<Rightarrow> 'e call_error \<Rightarrow> 'w \<times> rat list
    \<Rightarrow> ('e call_error + 'a) \<times> 'w \<times> rat list" where
  "callWithRetry_loop maxAttempts waitTime retryOn fn attempt lastError (w, slept) =
     (if int attempt < maxAttempts
      then (case fn w of
              (Inr a, w1) \<Rightarrow> (Inr a, w1, slept)
            | (Inl e, w1) \<Rightarrow>
                if (\<exists>c. e = CbOpen c) then (Inl e, w1, slept)
                else if not_retryable retryOn e then (Inl e, w1, slept)
                else callWithRetry_loop maxAttempts waitTime retryOn fn (Suc attempt) e
                       (w1, if int attempt \<noteq> maxAttempts - 1 then slept @ [waitTime attempt] else slept))
      else (Inl lastError, w, slept))"
  by pat_completeness auto
termination
  by (relation "measure (\<lambda>(maxAttempts, _, _, _, attempt, _, _). nat (maxAttempts - int attempt))") auto

declare callWithRetry_loop.simps [simp del]

definition callWithRetry :: "'e call_error retry_options option \<Rightarrow> (nat \<Rightarrow> rat)
    \<Rightarrow> ('w \<Rightarrow> ('e call_error + 'a) \<times> 'w) \<Rightarrow> 'w \<times> rat list \<Rightarrow> ('e call_error + 'a) \<times> 'w \<times> rat list" where
  "callWithRetry retry random fn s =
     (case retry of
        None \<Rightarrow> (case fn (fst s) of (r, w1) \<Rightarrow> (r, w1, snd s))
      | Some opts \<Rightarrow>
          callWithRetry_loop (or_else (ro_maxAttempts opts) 3)
            (\<lambda>k. computeBackoffDelay k opts (random k)) (ro_retryOn opts) fn 0 UnknownError s)"

text \<open>\<open>ResilientServiceClient.call\<close>: circuit breaker (if configured) around retry around timeout.\<close>

definition rc_call :: "'e client_options \<Rightarrow> (nat \<Rightarrow> rat) \<Rightarrow> int \<Rightarrow> int
    \<Rightarrow> ('w \<Rightarrow> ('e call_error + 'a) \<times> 'w) \<Rightarrow> (int \<Rightarrow> 'w \<Rightarrow> ('e call_error + 'a) option \<times> 'w)
    \<Rightarrow> breaker option \<Rightarrow> 'w \<times> rat list \<Rightarrow> ('e call_error + 'a) \<times> breaker option \<times> 'w \<times> rat list" where
  "rc_call opts random now later call race brk s =
     (let execute = callWithTimeout (co_timeout opts) call race;
          body = callWithRetry (co_retry opts) random execute
      in case brk of
           None \<Rightarrow> (case body s of (r, s1) \<Rightarrow> (r, None, s1))
         | Some b \<Rightarrow>
             (case cb_execute now later body b s of
                (Refused c, b1, s1) \<Rightarrow> (Inl (CbOpen c), Some b1, s1)
              | (Failed e, b1, s1) \<Rightarrow> (Inl e, Some b1, s1)
              | (Returned a, b1, s1) \<Rightarrow> (Inr a, Some b1, s1)))"

datatype circuit_state = Circuit cb_state | DISABLED

definition getCircuitState :: "breaker option \<Rightarrow> circuit_state" where
  "getCircuitState brk = (case brk of None \<Rightarrow> DISABLED | Some b \<Rightarrow> Circuit (cb_st b))"


section \<open>Attempts as a sequence\<close>

text \<open>The world after \<open>k\<close> calls of the method, the outcome of the call with number \<open>k\<close>, and whether that
  outcome ends the loop.\<close>

fun world_after :: "('w \<Rightarrow> ('e + 'a) \<times> 'w) \<Rightarrow> nat \<Rightarrow> 'w \<Rightarrow> 'w" where
  "world_after m 0 w = w"
| "world_after m (Suc k) w = snd (m (world_after m k w))"

definition outcome :: "('w \<Rightarrow> ('e + 'a) \<times> 'w) \<Rightarrow> nat \<Rightarrow> 'w \<Rightarrow> 'e + 'a" where
  "outcome m k w = fst (m (world_after m k w))"

fun retried :: "('e \<Rightarrow> bool) option \<Rightarrow> 'e + 'a \<Rightarrow> bool" where
  "retried p (Inr a) = False"
| "retried p (Inl e) = (\<not> not_retryable p e)"

lemma retry_loop_retry:
  assumes "int i < n" and "m w = (Inl e, w1)" and "\<not> not_retryable p e"
  shows "retry_loop n wt p m i le (w, slept) =
           retry_loop n wt p m (Suc i) (Some e) (w1, if int i < n - 1 then slept @ [wt i] else slept)"
  using assms by (simp add: retry_loop.simps[of n wt p m i le])

lemma retry_loop_return:
  assumes "int i < n" and "m w = (r, w1)" and "\<not> retried p r"
  shows "retry_loop n wt p m i le (w, slept) = (map_sum Some id r, w1, slept)"
  using assms by (cases r) (simp_all add: retry_loop.simps[of n wt p m i le])

lemma retry_loop_end: "\<not> int i < n \<Longrightarrow> retry_loop n wt p m i le (w, slept) = (Inl le, w, slept)"
  by (simp add: retry_loop.simps)

lemma retry_loop_advance:
  assumes "int (i + d) < n" and "\<forall>j. i \<le> j \<and> j < i + d \<longrightarrow> retried p (outcome m j w)"
  shows "\<exists>le. retry_loop n wt p m i lastError (world_after m i w, slept) =
           retry_loop n wt p m (i + d) le (world_after m (i + d) w, slept @ map wt [i..<i + d])"
  using assms
proof (induction d)
  case 0
  then show ?case by auto
next
  case (Suc d)
  then obtain le where IH: "retry_loop n wt p m i lastError (world_after m i w, slept) =
      retry_loop n wt p m (i + d) le (world_after m (i + d) w, slept @ map wt [i..<i + d])"
    by auto
  have "retried p (outcome m (i + d) w)"
    using Suc.prems(2) by simp
  then obtain e where e: "outcome m (i + d) w = Inl e" and ne: "\<not> not_retryable p e"
    by (cases "outcome m (i + d) w") auto
  from e have m: "m (world_after m (i + d) w) = (Inl e, world_after m (Suc (i + d)) w)"
    by (simp add: outcome_def prod_eq_iff)
  from Suc.prems(1) have "int (i + d) < n" and "int (i + d) < n - 1" by auto
  then show ?case
    unfolding IH using retry_loop_retry[of "i + d" n m "world_after m (i + d) w" e _ p wt le "slept @ map wt [i..<i + d]", OF _ m ne] by auto
qed

lemma retry_loop_stops:
  assumes "int k < n" and "\<forall>j<k. retried p (outcome m j w)" and "\<not> retried p (outcome m k w)"
  shows "retry_loop n wt p m 0 le0 (w, []) =
           (map_sum Some id (outcome m k w), world_after m (Suc k) w, map wt [0..<k])"
proof -
  obtain le where adv: "retry_loop n wt p m 0 le0 (w, []) =
      retry_loop n wt p m k le (world_after m k w, map wt [0..<k])"
    using retry_loop_advance[of 0 k n p m w wt le0 "[]"] assms(1,2) by auto
  obtain r w1 where m: "m (world_after m k w) = (r, w1)" by (cases "m (world_after m k w)")
  then have "outcome m k w = r" and "world_after m (Suc k) w = w1"
    by (simp_all add: outcome_def)
  with assms(1,3) retry_loop_return[of k n m "world_after m k w" r w1 p wt le "map wt [0..<k]", OF _ m] show ?thesis
    unfolding adv by simp
qed

lemma retry_loop_exhausts:
  assumes "n = int (Suc k)" and "\<forall>j\<le>k. retried p (outcome m j w)"
  shows "retry_loop n wt p m 0 le0 (w, []) =
           (map_sum Some id (outcome m k w), world_after m (Suc k) w, map wt [0..<k])"
proof -
  obtain le where adv: "retry_loop n wt p m 0 le0 (w, []) =
      retry_loop n wt p m k le (world_after m k w, map wt [0..<k])"
    using retry_loop_advance[of 0 k n p m w wt le0 "[]"] assms by auto
  have "retried p (outcome m k w)" using assms(2) by simp
  then obtain e where e: "outcome m k w = Inl e" and ne: "\<not> not_retryable p e"
    by (cases "outcome m k w") auto
  from e have m: "m (world_after m k w) = (Inl e, world_after m (Suc k) w)"
    by (simp add: outcome_def prod_eq_iff)
  show ?thesis
    unfolding adv using assms(1) retry_loop_retry[of k n m "world_after m k w" e _ p wt le "map wt [0..<k]", OF _ m ne]
    by (simp add: e retry_loop_end)
qed

lemma computeDelay_le: "computeDelay k bo base mx r \<le> mx"
  by (simp add: computeDelay_def Let_def)

lemma computeDelay_ge:
  assumes "0 \<le> base" and "0 \<le> r"
  shows "min base mx \<le> computeDelay k bo base mx r"
proof -
  have "(1::rat) \<le> 2 ^ k" by simp
  then have "base * 1 \<le> base * 2 ^ k" using assms(1) by (intro mult_left_mono) auto
  moreover have "0 \<le> r * (base / 2)" using assms by simp
  ultimately have "base \<le> base * 2 ^ k + r * (base / 2)" by linarith
  then show ?thesis by (auto simp: computeDelay_def Let_def)
qed

section \<open>The client's loop is the decorator's loop\<close>

abbreviation client_retryOn :: "('e call_error \<Rightarrow> bool) option \<Rightarrow> ('e call_error \<Rightarrow> bool) option" where
  "client_retryOn p \<equiv> Some (\<lambda>e. (\<forall>c. e \<noteq> CbOpen c) \<and> \<not> not_retryable p e)"

lemma callWithRetry_loop_eq:
  "callWithRetry_loop n wt p fn i le s =
     (case retry_loop n wt (client_retryOn p) fn i (Some le) s of (r, s1) \<Rightarrow> (map_sum the id r, s1))"
proof (induction n wt p fn i le s rule: callWithRetry_loop.induct)
  case (1 n wt p fn i le w slept)
  obtain r w1 where fn: "fn w = (r, w1)" by (cases "fn w")
  consider "\<not> int i < n" | "int i < n" "\<not> retried (client_retryOn p) r"
    | e where "int i < n" "r = Inl e" "retried (client_retryOn p) (Inl e :: _ + 'b)"
    by (cases r) auto
  then show ?case
  proof cases
    case 1
    then show ?thesis by (simp add: callWithRetry_loop.simps retry_loop_end)
  next
    case 2
    note retry_loop_return[of i n fn w r w1, OF 2(1) fn 2(2)]
    with 2 fn show ?thesis
      by (cases r) (auto simp: callWithRetry_loop.simps[of n wt p fn i] not_retryable_def)
  next
    case (3 e)
    then have ne: "\<not> (\<exists>c. e = CbOpen c)" "\<not> not_retryable p e"
      and nr: "\<not> not_retryable (client_retryOn p) e"
      by (auto simp: not_retryable_def)
    show ?thesis
      using "1.IH"[OF 3(1) fn[symmetric] 3(2) ne] 3(1,2) fn ne
        retry_loop_retry[of i n fn w e w1 "client_retryOn p", OF 3(1) _ nr]
      by (auto simp: callWithRetry_loop.simps[of n wt p fn i])
  qed
qed


section \<open>Properties\<close>

definition retry_max :: "'e retry_options \<Rightarrow> int" where
  "retry_max opts = or_else (ro_maxAttempts opts) DEFAULT_RETRY_MAX_ATTEMPTS"

definition retry_delay :: "'e retry_options \<Rightarrow> (nat \<Rightarrow> rat) \<Rightarrow> nat \<Rightarrow> rat" where
  "retry_delay opts random k =
     computeDelay k (or_else (ro_backoff opts) Exponential) (or_else (ro_delay opts) DEFAULT_RETRY_DELAY)
       (or_else (ro_maxDelay opts) DEFAULT_RETRY_MAX_DELAY) (random k)"

lemma Retry_Some:
  "Retry (Some opts) random m w =
     retry_loop (retry_max opts) (retry_delay opts random) (ro_retryOn opts) m 0 None (w, [])"
  by (simp add: Retry_def Let_def retry_max_def retry_delay_def[abs_def])

text \<open>C4. A decorated method stops at the first decisive attempt: if the attempts before number \<open>k\<close>
  fail with retryable errors and attempt \<open>k\<close> succeeds or fails with an error not to be retried, the
  method has run exactly \<open>k + 1\<close> times, that attempt's value or error is the result, and the wrapper
  slept once after each earlier attempt, each time at most \<open>maxDelay\<close>.\<close>

theorem retry_stops_at_decisive_attempt:
  assumes "int k < retry_max opts"
    and "\<forall>j<k. retried (ro_retryOn opts) (outcome m j w)"
    and "\<not> retried (ro_retryOn opts) (outcome m k w)"
  shows "Retry (Some opts) random m w =
           (map_sum Some id (outcome m k w), world_after m (Suc k) w, map (retry_delay opts random) [0..<k]) \<and>
         (\<forall>d \<in> set (map (retry_delay opts random) [0..<k]).
            d \<le> or_else (ro_maxDelay opts) DEFAULT_RETRY_MAX_DELAY)"
  using retry_loop_stops[OF assms] computeDelay_le by (auto simp: Retry_Some retry_delay_def)

definition retry_example :: "string retry_options" where
  "retry_example = \<lparr>ro_maxAttempts = Some 3, ro_backoff = Some Fixed, ro_delay = Some 5,
     ro_maxDelay = None, ro_retryOn = None\<rparr>"

definition flaky :: "nat \<Rightarrow> (string + nat) \<times> nat" where
  "flaky n = (if n = 0 then Inl ''down'' else Inr n, Suc n)"

theorem retry_stops_at_decisive_attempt_witness:
  "Retry (Some retry_example) (\<lambda>_. 0) flaky 0 = (Inr 1, 2, [5])"
proof -
  have "int 1 < retry_max retry_example"
    by (simp add: retry_max_def retry_example_def)
  moreover have "\<forall>j<1. retried (ro_retryOn retry_example) (outcome flaky j 0)"
    by (simp add: outcome_def flaky_def retry_example_def not_retryable_def)
  moreover have "\<not> retried (ro_retryOn retry_example) (outcome flaky 1 0)"
    by (simp add: outcome_def flaky_def)
  ultimately show ?thesis
    using retry_stops_at_decisive_attempt[of 1 retry_example flaky 0 "\<lambda>_. 0"]
    by (simp add: outcome_def flaky_def retry_delay_def retry_example_def computeDelay_def
        DEFAULT_RETRY_MAX_DELAY_def)
qed

text \<open>Exhaustion: when every allowed attempt fails with a retryable error, the method has run exactly
  \<open>maxAttempts\<close> times, the error of the last attempt is thrown, and the wrapper slept between
  attempts only, never after the last one.\<close>

theorem retry_exhausted_throws_last_error:
  assumes "retry_max opts = int (Suc k)"
    and "\<forall>j\<le>k. retried (ro_retryOn opts) (outcome m j w)"
  shows "\<exists>e. outcome m k w = Inl e \<and>
           Retry (Some opts) random m w =
             (Inl (Some e), world_after m (Suc k) w, map (retry_delay opts random) [0..<k])"
proof -
  have "retried (ro_retryOn opts) (outcome m k w)" using assms(2) by simp
  then obtain e where e: "outcome m k w = Inl e" by (cases "outcome m k w") auto
  show ?thesis
    using retry_loop_exhausts[OF assms] e by (auto simp: Retry_Some)
qed

theorem retry_exhausted_throws_last_error_witness:
  "Retry (Some retry_example) (\<lambda>_. 0) (\<lambda>n. (Inl ''down'' :: string + unit, Suc n)) 0 =
     (Inl (Some ''down''), 3, [5, 5])"
proof -
  let ?m = "\<lambda>n. (Inl ''down'' :: string + unit, Suc n)"
  have w: "world_after ?m k 0 = k" for k by (induction k) simp_all
  have "retry_max retry_example = int (Suc 2)"
    by (simp add: retry_max_def retry_example_def)
  moreover have "\<forall>j\<le>2. retried (ro_retryOn retry_example) (outcome ?m j 0)"
    by (simp add: outcome_def retry_example_def not_retryable_def)
  ultimately show ?thesis
    using retry_exhausted_throws_last_error[of retry_example 2 ?m 0 "\<lambda>_. 0"] w[of 3]
    by (simp add: outcome_def w retry_delay_def retry_example_def computeDelay_def
        DEFAULT_RETRY_MAX_DELAY_def upt_rec numeral_3_eq_3)
qed

text \<open>The resilient client's own retry loop is the \<open>Retry\<close> decorator with "not a breaker refusal"
  added to the retry predicate: for any positive number of attempts both run the method the same number of
  times, sleep the same delays and end with the same value or error.\<close>

theorem client_retry_is_decorator_retry:
  assumes "1 \<le> retry_max opts"
  shows "callWithRetry (Some opts) random fn (w, []) =
           (case Retry (Some (opts\<lparr>ro_retryOn := client_retryOn (ro_retryOn opts)\<rparr>)) random fn w of
              (r, s1) \<Rightarrow> (map_sum the id r, s1))"
proof -
  have delay: "(\<lambda>k. computeBackoffDelay k opts (random k)) =
      retry_delay (opts\<lparr>ro_retryOn := client_retryOn (ro_retryOn opts)\<rparr>) random"
    by (simp add: fun_eq_iff computeBackoffDelay_def retry_delay_def computeDelay_def Let_def
        DEFAULT_RETRY_DELAY_def DEFAULT_RETRY_MAX_DELAY_def)
  have mx: "or_else (ro_maxAttempts opts) 3 = retry_max opts"
    by (simp add: retry_max_def DEFAULT_RETRY_MAX_ATTEMPTS_def)
  have start: "retry_loop (retry_max opts) wt p fn 0 le1 (w, []) = retry_loop (retry_max opts) wt p fn 0 le2 (w, [])"
    for wt p le1 le2
    using assms by (simp add: retry_loop.simps[of _ _ _ _ 0])
  show ?thesis
    unfolding callWithRetry_def Retry_Some
    by (simp add: delay mx callWithRetry_loop_eq retry_max_def
        start[unfolded retry_max_def, of _ _ "Some UnknownError" None])
qed

theorem client_retry_is_decorator_retry_witness:
  "callWithRetry (Some \<lparr>ro_maxAttempts = Some 2, ro_backoff = Some Fixed, ro_delay = Some 5,
       ro_maxDelay = None, ro_retryOn = None\<rparr>) (\<lambda>_. 0)
     (\<lambda>n. (if n = 0 then Inl (Remote ''x'') else Inr n, Suc n)) ((0::nat), []) = (Inr 1, 2, [5])"
proof -
  let ?o = "\<lparr>ro_maxAttempts = Some 2, ro_backoff = Some Fixed, ro_delay = Some 5,
    ro_maxDelay = None, ro_retryOn = None\<rparr> :: string call_error retry_options"
  have "1 \<le> retry_max ?o" by (simp add: retry_max_def)
  from client_retry_is_decorator_retry[OF this, of "\<lambda>_. 0"
      "\<lambda>n. (if n = 0 then Inl (Remote ''x'') else Inr n, Suc n)" "0::nat"]
  show ?thesis
    by (simp add: Retry_Some retry_loop.simps[of _ _ _ _ 0] retry_loop.simps[of _ _ _ _ "Suc 0"]
        retry_max_def retry_delay_def computeDelay_def not_retryable_def DEFAULT_RETRY_MAX_DELAY_def)
qed

text \<open>Composition order: the breaker is outside the retries. A call through a CLOSED breaker that ends
  in an error, after however many retried attempts, counts as one failure; and while the breaker is
  OPEN before its deadline the remote is not contacted and the retry loop does not run.\<close>

theorem client_call_counts_one_failure:
  "(cb_st b = CLOSED \<and> rc_call opts random now later call race (Some b) s = (Inl e, brk', s') \<longrightarrow>
      brk' = Some (cb_onFailure later b)) \<and>
   (cb_st b = OPEN \<and> now < nextAttemptTime b \<longrightarrow>
      rc_call opts random now later call race (Some b) s =
        (Inl (CbOpen (CircuitBreakerOpenError ''Circuit breaker is OPEN'')), Some b, s))"
  by (auto simp: rc_call_def Let_def cb_execute_def cb_admit_def
           split: cb_result.splits prod.splits sum.splits)

theorem client_call_counts_one_failure_witness:
  "fst (snd (rc_call \<lparr>co_timeout = None, co_retry = None\<rparr> (\<lambda>_. 0) 0 1
      (\<lambda>w. (Inl (Remote ''x'') :: string call_error + unit, Suc w)) (\<lambda>_ w. (None, w))
      (Some (cb_new cb_example_options None)) (0, []))) =
    Some (cb_onFailure 1 (cb_new cb_example_options None))"
proof -
  let ?call = "\<lambda>w. (Inl (Remote ''x'') :: string call_error + unit, Suc w)"
  let ?b = "cb_new cb_example_options None"
  obtain r brk' s' where run: "rc_call \<lparr>co_timeout = None, co_retry = None\<rparr> (\<lambda>_. 0) 0 1 ?call
      (\<lambda>_ w. (None, w)) (Some ?b) (0, []) = (r, brk', s')"
    by (metis prod_cases3)
  have st: "cb_st ?b = CLOSED" by (simp add: cb_new_def Let_def)
  have "r = Inl (Remote ''x'')"
    using run st by (auto simp: rc_call_def callWithRetry_def callWithTimeout_def cb_execute_def cb_admit_def)
  with client_call_counts_one_failure[where b = ?b] run st show ?thesis by fastforce
qed

end
