(* ===== verification/Auth_Roles.thy ===== *)
theory Auth_Roles
  imports Boot_Prelude
begin

text \<open>
  \<open>src/auth/rbac/role-hierarchy.ts\<close> and \<open>src/auth/rbac/privilege-boundary.ts\<close>: glob matching of
  permissions, role inheritance with its cycle check, and role levels. The class's \<open>roles\<close> map is the
  state; the two recursive helpers walk the \<open>inherits\<close> edges of a hierarchy that may have cycles and
  may name roles that are not defined.
\<close>

section \<open>Permissions\<close>

definition matchesPermission :: "string \<Rightarrow> string \<Rightarrow> bool" where
  "matchesPermission userPerm required =
     (if userPerm = ''*'' then True
      else if userPerm = required then True
      else if ends_with userPerm '':*'' then starts_with required (butlast userPerm)
      else False)"

section \<open>Role hierarchy\<close>

record role_definition =
  rd_name :: string
  rd_inherits :: "string list option"
  rd_permissions :: "string list option"

type_synonym role_hierarchy = "(string, role_definition) jsmap"

definition rh_define :: "role_hierarchy \<Rightarrow> role_definition \<Rightarrow> role_hierarchy" where
  "rh_define h d = jm_set h (rd_name d) d"

definition rh_new :: "role_definition list option \<Rightarrow> role_hierarchy" where
  "rh_new definitions = foldl rh_define [] (or_else definitions [])"

definition rh_parents :: "role_hierarchy \<Rightarrow> string \<Rightarrow> string list" where
  "rh_parents h role = (case jm_get h role of None \<Rightarrow> [] | Some d \<Rightarrow> or_else (rd_inherits d) [])"

definition rh_role_permissions :: "role_hierarchy \<Rightarrow> string \<Rightarrow> string list" where
  "rh_role_permissions h role = (case jm_get h role of None \<Rightarrow> [] | Some d \<Rightarrow> or_else (rd_permissions d) [])"

text \<open>\<open>_resolve\<close> and the loop over \<open>def.inherits\<close> inside it; \<open>resolved\<close> is the shared Set.\<close>

function (domintros) rh_resolve_into :: "role_hierarchy \<Rightarrow> string \<Rightarrow> string list \<Rightarrow> string list"
  and rh_resolve_parents :: "role_hierarchy \<Rightarrow> string list \<Rightarrow> string list \<Rightarrow> string list" where
  "rh_resolve_into h role resolved =
     (if role \<in> set resolved then resolved
      else rh_resolve_parents h (rh_parents h role) (resolved @ [role]))"
| "rh_resolve_parents h [] resolved = resolved"
| "rh_resolve_parents h (p # ps) resolved = rh_resolve_parents h ps (rh_resolve_into h p resolved)"
  by pat_completeness auto

lemma rh_resolve_grows:
  "rh_resolve_into_rh_resolve_parents_dom (Inl (h, role, resolved)) \<Longrightarrow>
     set resolved \<subseteq> set (rh_resolve_into h role resolved)"
  "rh_resolve_into_rh_resolve_parents_dom (Inr (h, ps, resolved)) \<Longrightarrow>
     set resolved \<subseteq> set (rh_resolve_parents h ps resolved)"
  by (induction rule: rh_resolve_into_rh_resolve_parents.pinduct)
    (auto simp: rh_resolve_into.psimps rh_resolve_parents.psimps split: if_splits)

definition rh_unresolved :: "role_hierarchy \<Rightarrow> string list \<Rightarrow> nat" where
  "rh_unresolved h resolved = card (set (jm_keys h) - set resolved)"

lemma rh_parents_known: "p \<in> set (rh_parents h role) \<Longrightarrow> role \<in> set (jm_keys h)"
  by (cases "role \<in> fst ` set h") (auto simp: rh_parents_def map_of_eq_None_iff[THEN iffD2])

lemma rh_unresolved_less:
  "role \<in> set (jm_keys h) \<Longrightarrow> role \<notin> set resolved \<Longrightarrow>
     rh_unresolved h (resolved @ [role]) < rh_unresolved h resolved"
  unfolding rh_unresolved_def by (rule psubset_card_mono) auto

lemma rh_unresolved_mono:
  "set resolved \<subseteq> set resolved' \<Longrightarrow> rh_unresolved h resolved' \<le> rh_unresolved h resolved"
  unfolding rh_unresolved_def by (rule card_mono) auto

fun rh_rank :: "(role_hierarchy \<times> string \<times> string list) + (role_hierarchy \<times> string list \<times> string list)
    \<Rightarrow> nat \<times> nat" where
  "rh_rank (Inl (h, role, resolved)) = (rh_unresolved h resolved, 1)"
| "rh_rank (Inr (h, ps, resolved)) = (rh_unresolved h resolved, 2 * length ps)"

termination rh_resolve_into
proof (relation "inv_image (less_than <*lex*> less_than) rh_rank")
  show "wf (inv_image (less_than <*lex*> less_than) rh_rank)" by auto
next
  fix h :: role_hierarchy and role :: string and resolved
  assume "role \<notin> set resolved"
  then show "(Inr (h, rh_parents h role, resolved @ [role]), Inl (h, role, resolved))
      \<in> inv_image (less_than <*lex*> less_than) rh_rank"
    using rh_unresolved_less[of role h resolved] rh_parents_known[of _ h role]
      rh_unresolved_mono[of resolved "resolved @ [role]" h]
    by (cases "rh_parents h role") (fastforce simp: le_less)+
next
  fix h :: role_hierarchy and p :: string and ps resolved
  assume "rh_resolve_into_rh_resolve_parents_dom (Inl (h, p, resolved))"
  then show "(Inr (h, ps, rh_resolve_into h p resolved), Inr (h, p # ps, resolved))
      \<in> inv_image (less_than <*lex*> less_than) rh_rank"
    using rh_unresolved_mono[OF rh_resolve_grows(1)] by (fastforce simp: le_less)
qed auto

declare rh_resolve_into.simps [simp del]

definition rh_resolve :: "role_hierarchy \<Rightarrow> string \<Rightarrow> string list" where
  "rh_resolve h role = rh_resolve_into h role []"

definition rh_resolveAll :: "role_hierarchy \<Rightarrow> string list \<Rightarrow> string list" where
  "rh_resolveAll h roles = foldl (\<lambda>resolved role. rh_resolve_into h role resolved) [] roles"

definition rh_getPermissions :: "role_hierarchy \<Rightarrow> string \<Rightarrow> string list" where
  "rh_getPermissions h role =
     foldl (\<lambda>perms r. js_add_all (rh_role_permissions h r) perms) [] (rh_resolve h role)"

definition rh_getAllPermissions :: "role_hierarchy \<Rightarrow> string list \<Rightarrow> string list" where
  "rh_getAllPermissions h roles =
     foldl (\<lambda>perms role. js_add_all (rh_getPermissions h role) perms) [] roles"

text \<open>
  \<open>_detectCycle\<close> and the loop over \<open>def.inherits\<close> inside it. \<open>path\<close> is the shared array (pushed and
  popped); \<open>visiting\<close> is copied for each call, so it is passed by value.
\<close>

function rh_detectCycle :: "role_hierarchy \<Rightarrow> string \<Rightarrow> string list \<Rightarrow> string list \<Rightarrow> bool \<times> string list"
  and rh_detectParents :: "role_hierarchy \<Rightarrow> string list \<Rightarrow> string list \<Rightarrow> string list \<Rightarrow> bool \<times> string list" where
  "rh_detectCycle h role path visiting =
     (if role \<in> set visiting then (True, path @ [role])
      else rh_detectParents h (rh_parents h role) (path @ [role]) (visiting @ [role]))"
| "rh_detectParents h [] path visiting = (False, butlast path)"
| "rh_detectParents h (p # ps) path visiting =
     (case rh_detectCycle h p path visiting of
        (True, path1) \<Rightarrow> (True, path1)
      | (False, path1) \<Rightarrow> rh_detectParents h ps path1 visiting)"
  by pat_completeness auto

fun rh_detect_rank :: "(role_hierarchy \<times> string \<times> string list \<times> string list) +
    (role_hierarchy \<times> string list \<times> string list \<times> string list) \<Rightarrow> nat \<times> nat" where
  "rh_detect_rank (Inl (h, role, path, visiting)) = (rh_unresolved h visiting, 1)"
| "rh_detect_rank (Inr (h, ps, path, visiting)) = (rh_unresolved h visiting, 2 * length ps)"

termination rh_detectCycle
proof (relation "inv_image (less_than <*lex*> less_than) rh_detect_rank")
  show "wf (inv_image (less_than <*lex*> less_than) rh_detect_rank)" by auto
next
  fix h :: role_hierarchy and role :: string and path visiting :: "string list"
  assume "role \<notin> set visiting"
  then show "(Inr (h, rh_parents h role, path @ [role], visiting @ [role]), Inl (h, role, path, visiting))
      \<in> inv_image (less_than <*lex*> less_than) rh_detect_rank"
    using rh_unresolved_less[of role h visiting] rh_parents_known[of _ h role]
      rh_unresolved_mono[of visiting "visiting @ [role]" h]
    by (cases "rh_parents h role") (fastforce simp: le_less)+
qed auto

declare rh_detectCycle.simps [simp del]

definition rh_validate :: "role_hierarchy \<Rightarrow> bool \<times> string list list" where
  "rh_validate h =
     (let cycles = foldl (\<lambda>cs name. case rh_detectCycle h name [] [] of
                                      (True, path) \<Rightarrow> cs @ [path] | (False, path) \<Rightarrow> cs) [] (jm_keys h)
      in (length cycles = 0, cycles))"


section \<open>Inheritance as a relation\<close>

definition rh_edge :: "role_hierarchy \<Rightarrow> (string \<times> string) set" where
  "rh_edge h = {(r, p). p \<in> set (rh_parents h r)}"

lemma rh_edge_iff [simp]: "(r, p) \<in> rh_edge h \<longleftrightarrow> p \<in> set (rh_parents h r)"
  by (simp add: rh_edge_def)

subsection \<open>Resolution computes the reflexive-transitive closure\<close>

lemma rh_resolve_contains:
  "set resolved \<subseteq> set (rh_resolve_into h role resolved) \<and> role \<in> set (rh_resolve_into h role resolved)"
  "set resolved \<subseteq> set (rh_resolve_parents h ps resolved) \<and> set ps \<subseteq> set (rh_resolve_parents h ps resolved)"
  by (induction h role resolved and h ps resolved rule: rh_resolve_into_rh_resolve_parents.induct)
    (auto simp: rh_resolve_into.simps)

lemma rh_resolve_closed:
  "r \<in> set (rh_resolve_into h role resolved) - set resolved \<Longrightarrow>
     set (rh_parents h r) \<subseteq> set (rh_resolve_into h role resolved)"
  "r \<in> set (rh_resolve_parents h ps resolved) - set resolved \<Longrightarrow>
     set (rh_parents h r) \<subseteq> set (rh_resolve_parents h ps resolved)"
proof (induction h role resolved and h ps resolved rule: rh_resolve_into_rh_resolve_parents.induct)
  case (1 h role resolved)
  then show ?case
    using rh_resolve_contains(2)[of "resolved @ [role]" h "rh_parents h role"]
    by (cases "r = role") (auto simp: rh_resolve_into.simps[of h role])
next
  case (3 h p ps resolved)
  then show ?case
    using rh_resolve_contains(2)[of "rh_resolve_into h p resolved" h ps] by auto
qed simp

lemma rh_resolve_reachable:
  "set (rh_resolve_into h role resolved) \<subseteq> set resolved \<union> (rh_edge h)\<^sup>* `` {role}"
  "set (rh_resolve_parents h ps resolved) \<subseteq> set resolved \<union> (rh_edge h)\<^sup>* `` set ps"
proof (induction h role resolved and h ps resolved rule: rh_resolve_into_rh_resolve_parents.induct)
  case (1 h role resolved)
  have "(rh_edge h)\<^sup>* `` set (rh_parents h role) \<subseteq> (rh_edge h)\<^sup>* `` {role}"
    by (auto intro: converse_rtrancl_into_rtrancl)
  with 1 show ?case by (auto simp: rh_resolve_into.simps[of h role])
qed auto

lemma rh_resolve_distinct:
  "distinct resolved \<Longrightarrow> distinct (rh_resolve_into h role resolved)"
  "distinct resolved \<Longrightarrow> distinct (rh_resolve_parents h ps resolved)"
  by (induction h role resolved and h ps resolved rule: rh_resolve_into_rh_resolve_parents.induct)
    (auto simp: rh_resolve_into.simps)

lemma rh_resolve_parents_set: "set (rh_resolve_parents h ps []) = (rh_edge h)\<^sup>* `` set ps"
proof (rule antisym)
  show "set (rh_resolve_parents h ps []) \<subseteq> (rh_edge h)\<^sup>* `` set ps"
    using rh_resolve_reachable(2)[of h ps "[]"] by simp
  show "(rh_edge h)\<^sup>* `` set ps \<subseteq> set (rh_resolve_parents h ps [])"
  proof
    fix r
    assume "r \<in> (rh_edge h)\<^sup>* `` set ps"
    then obtain p where p: "p \<in> set ps" and "(p, r) \<in> (rh_edge h)\<^sup>*" by auto
    from this(2) show "r \<in> set (rh_resolve_parents h ps [])"
    proof (induction rule: rtrancl_induct)
      case base
      then show ?case using p rh_resolve_contains(2)[of "[]" h ps] by auto
    next
      case (step y z)
      then show ?case using rh_resolve_closed(2)[of y h ps "[]"] by auto
    qed
  qed
qed

lemma rh_resolveAll_eq: "rh_resolveAll h roles = rh_resolve_parents h roles []"
proof -
  have "foldl (\<lambda>resolved role. rh_resolve_into h role resolved) resolved roles =
      rh_resolve_parents h roles resolved" for resolved
    by (induction roles arbitrary: resolved) simp_all
  then show ?thesis by (simp add: rh_resolveAll_def)
qed

lemma foldl_add_all_set: "set (foldl (\<lambda>acc x. js_add_all (f x) acc) acc xs) = set acc \<union> (\<Union>x\<in>set xs. set (f x))"
  by (induction xs arbitrary: acc) auto

lemma rh_resolve_set: "set (rh_resolve h role) = (rh_edge h)\<^sup>* `` {role}"
  using rh_resolve_parents_set[of h "[role]"] by (simp add: rh_resolve_def)

lemma rh_getPermissions_set:
  "set (rh_getPermissions h role) = (\<Union>r \<in> (rh_edge h)\<^sup>* `` {role}. set (rh_role_permissions h r))"
  by (simp add: rh_getPermissions_def foldl_add_all_set rh_resolve_set)

lemma rh_getAllPermissions_set:
  "set (rh_getAllPermissions h roles) = (\<Union>r \<in> (rh_edge h)\<^sup>* `` set roles. set (rh_role_permissions h r))"
  by (auto simp: rh_getAllPermissions_def foldl_add_all_set rh_getPermissions_set)

subsection \<open>Cycle detection\<close>

abbreviation rh_walk :: "role_hierarchy \<Rightarrow> string list \<Rightarrow> bool" where
  "rh_walk h w \<equiv> w \<noteq> [] \<and> successively (\<lambda>a b. (a, b) \<in> rh_edge h) w"

lemma rh_detect_restores:
  "rh_detectCycle h role path visiting = (False, path') \<Longrightarrow> path' = path"
  "rh_detectParents h ps path visiting = (False, path') \<Longrightarrow> path' = butlast path"
proof (induction h role path visiting and h ps path visiting
    arbitrary: path' and path' rule: rh_detectCycle_rh_detectParents.induct)
  case (1 h role path visiting)
  then show ?case by (auto simp: rh_detectCycle.simps[of h role] split: if_splits)
next
  case (3 h p ps path visiting)
  obtain b path1 where d: "rh_detectCycle h p path visiting = (b, path1)" by (cases "rh_detectCycle h p path visiting")
  with 3(3) have "\<not> b" by (cases b) auto
  then show ?case using 3 d by auto
qed simp

lemma rh_detect_True:
  "rh_detectCycle h role path visiting = (True, path') \<Longrightarrow>
     \<exists>w. path' = path @ w \<and> rh_walk h w \<and> hd w = role \<and> last w \<in> set visiting \<union> set (butlast w)"
  "rh_detectParents h ps path visiting = (True, path') \<Longrightarrow>
     \<exists>w. path' = path @ w \<and> rh_walk h w \<and> hd w \<in> set ps \<and> last w \<in> set visiting \<union> set (butlast w)"
proof (induction h role path visiting and h ps path visiting
    arbitrary: path' and path' rule: rh_detectCycle_rh_detectParents.induct)
  case (1 h role path visiting)
  show ?case
  proof (cases "role \<in> set visiting")
    case True
    with 1(2) show ?thesis
      by (intro exI[of _ "[role]"]) (auto simp: rh_detectCycle.simps[of h role])
  next
    case False
    with 1 obtain w where "path' = (path @ [role]) @ w" "rh_walk h w" "hd w \<in> set (rh_parents h role)"
      "last w \<in> set (visiting @ [role]) \<union> set (butlast w)"
      by (auto simp: rh_detectCycle.simps[of h role])
    then show ?thesis
      by (intro exI[of _ "role # w"]) (auto simp: successively_Cons)
  qed
next
  case (3 h p ps path visiting)
  obtain b path1 where d: "rh_detectCycle h p path visiting = (b, path1)" by (cases "rh_detectCycle h p path visiting")
  show ?case
  proof (cases b)
    case True
    with d 3(3) have "rh_detectCycle h p path visiting = (True, path')" by simp
    from 3(1)[OF this] show ?thesis by auto
  next
    case False
    with d have f: "rh_detectCycle h p path visiting = (False, path)"
      using rh_detect_restores(1)[of h p path visiting path1] by simp
    note IH = 3(2)[OF f[symmetric]]
    obtain w where "path' = path @ w" "rh_walk h w" "hd w \<in> set ps"
      "last w \<in> set visiting \<union> set (butlast w)"
      using IH[of path'] f 3(3) by auto
    then show ?thesis by auto
  qed
qed simp

lemma rh_detect_False:
  "rh_detectCycle h role path visiting = (False, path') \<Longrightarrow> rh_walk h w \<Longrightarrow> hd w = role \<Longrightarrow>
     distinct w \<and> set w \<inter> set visiting = {}"
  "rh_detectParents h ps path visiting = (False, path') \<Longrightarrow> rh_walk h w \<Longrightarrow> hd w \<in> set ps \<Longrightarrow>
     distinct w \<and> set w \<inter> set visiting = {}"
proof (induction h role path visiting and h ps path visiting
    arbitrary: path' w and path' w rule: rh_detectCycle_rh_detectParents.induct)
  case (1 h role path visiting)
  then have role: "role \<notin> set visiting"
    by (auto simp: rh_detectCycle.simps[of h role])
  obtain v where w: "w = role # v" using 1(3,4) by (cases w) auto
  show ?case
  proof (cases v)
    case Nil
    then show ?thesis using w role by simp
  next
    case (Cons p v')
    then have "hd v \<in> set (rh_parents h role)" and "rh_walk h v"
      using 1(3) w by (auto simp: successively_Cons)
    then show ?thesis
      using 1(1)[OF role] 1(2) role w by (auto simp: rh_detectCycle.simps[of h role])
  qed
next
  case (3 h p ps path visiting)
  obtain b path1 where d: "rh_detectCycle h p path visiting = (b, path1)" by (cases "rh_detectCycle h p path visiting")
  with 3(3) have b: "\<not> b" by (cases b) auto
  show ?case
  proof (cases "hd w = p")
    case True
    with 3(1)[of path1 w] 3(4) d b show ?thesis by simp
  next
    case False
    then show ?thesis using 3 d b by auto
  qed
qed simp

lemma rh_walk_trancl: "successively (\<lambda>a b. (a, b) \<in> rh_edge h) (x # v @ [y]) \<Longrightarrow> (x, y) \<in> (rh_edge h)\<^sup>+"
  by (induction v arbitrary: x) (auto simp: successively_Cons intro: trancl_into_trancl2)

lemma rh_trancl_walk:
  assumes "(x, y) \<in> (rh_edge h)\<^sup>+"
  shows "\<exists>v. successively (\<lambda>a b. (a, b) \<in> rh_edge h) (x # v @ [y])"
  using assms
proof (induction rule: converse_trancl_induct)
  case (base x)
  then show ?case by (intro exI[of _ "[]"]) simp
next
  case (step x z)
  then obtain v where "successively (\<lambda>a b. (a, b) \<in> rh_edge h) (z # v @ [y])" by blast
  with step show ?case by (intro exI[of _ "z # v"]) simp
qed

lemma rh_validate_cycles:
  "set (snd (rh_validate h)) =
     {snd (rh_detectCycle h name [] []) | name. name \<in> set (jm_keys h) \<and> fst (rh_detectCycle h name [] [])}"
proof -
  have if_fst: "(case d of (True, path) \<Rightarrow> cs @ [path] | (False, path) \<Rightarrow> cs) =
      (if fst d then cs @ [snd d] else cs)" for d :: "bool \<times> string list" and cs
    by (cases d; cases "fst d") auto
  have "set (foldl (\<lambda>cs name. case rh_detectCycle h name [] [] of
      (True, path) \<Rightarrow> cs @ [path] | (False, path) \<Rightarrow> cs) cs names) =
    set cs \<union> {snd (rh_detectCycle h name [] []) | name. name \<in> set names \<and> fst (rh_detectCycle h name [] [])}"
    for cs names
    unfolding if_fst by (induction names arbitrary: cs) auto
  then show ?thesis by (simp add: rh_validate_def Let_def)
qed

lemma rh_validate_sound:
  assumes "c \<in> set (snd (rh_validate h))"
  shows "rh_walk h c \<and> last c \<in> set (butlast c)"
proof -
  from assms obtain name where "rh_detectCycle h name [] [] = (True, c)"
    by (auto simp: rh_validate_cycles prod_eq_iff)
  from rh_detect_True(1)[OF this] show ?thesis by auto
qed

lemma rh_validate_iff: "fst (rh_validate h) \<longleftrightarrow> acyclic (rh_edge h)"
proof
  assume "acyclic (rh_edge h)"
  then have "(x, x) \<notin> (rh_edge h)\<^sup>+" for x by (simp add: acyclic_def)
  moreover have "\<exists>x. (x, x) \<in> (rh_edge h)\<^sup>+" if "c \<in> set (snd (rh_validate h))" for c
  proof -
    from rh_validate_sound[OF that] obtain us vs where "butlast c = us @ last c # vs" and c: "rh_walk h c"
      by (auto dest: split_list)
    then have "c = us @ (last c # vs @ [last c])"
      by (metis append.assoc append_Cons append_butlast_last_id)
    with c have "successively (\<lambda>a b. (a, b) \<in> rh_edge h) (last c # vs @ [last c])"
      by (metis successively_append_iff)
    then show ?thesis by (blast dest: rh_walk_trancl)
  qed
  ultimately have "snd (rh_validate h) = []"
    by (metis list.set_intros(1) neq_Nil_conv)
  then show "fst (rh_validate h)" by (simp add: rh_validate_def Let_def)
next
  assume "fst (rh_validate h)"
  then have none: "snd (rh_validate h) = []" by (simp add: rh_validate_def Let_def)
  show "acyclic (rh_edge h)"
  proof (rule acyclicI, intro allI notI)
    fix x
    assume "(x, x) \<in> (rh_edge h)\<^sup>+"
    then obtain v where v: "successively (\<lambda>a b. (a, b) \<in> rh_edge h) (x # v @ [x])"
      by (blast dest: rh_trancl_walk)
    then obtain p where "p \<in> set (rh_parents h x)" by (cases v) auto
    then have "x \<in> set (jm_keys h)" by (rule rh_parents_known)
    with none have "\<not> fst (rh_detectCycle h x [] [])"
      using rh_validate_cycles[of h] by auto
    then obtain q where "rh_detectCycle h x [] [] = (False, q)" by (cases "rh_detectCycle h x [] []") auto
    from rh_detect_False(1)[OF this, of "x # v @ [x]"] v show False by simp
  qed
qed


section \<open>Privilege levels\<close>

record leveled_role =
  lr_name :: string
  lr_level :: int
  lr_inherits :: "string list option"
  lr_permissions :: "string list option"

type_synonym boundary = "(string, leveled_role) jsmap"

definition pb_define :: "boundary \<Rightarrow> leveled_role \<Rightarrow> boundary" where
  "pb_define b role = jm_set b (lr_name role) role"

definition pb_new :: "leveled_role list option \<Rightarrow> boundary" where
  "pb_new definitions = foldl pb_define [] (or_else definitions [])"

definition pb_getLevel :: "boundary \<Rightarrow> string \<Rightarrow> int" where
  "pb_getLevel b roleName = or_else (map_option lr_level (jm_get b roleName)) 0"

definition pb_getMaxLevel :: "boundary \<Rightarrow> string list \<Rightarrow> int" where
  "pb_getMaxLevel b roleNames = foldl max 0 (map (pb_getLevel b) roleNames)"

definition pb_canAssignRole :: "boundary \<Rightarrow> string list \<Rightarrow> string \<Rightarrow> bool" where
  "pb_canAssignRole b actorRoles targetRole =
     (let actorLevel = pb_getMaxLevel b actorRoles; targetLevel = pb_getLevel b targetRole
      in actorLevel > targetLevel)"

datatype forbidden = AssignmentForbidden string int int | ModificationForbidden

definition pb_enforceAssignment :: "boundary \<Rightarrow> string list \<Rightarrow> string \<Rightarrow> forbidden + unit" where
  "pb_enforceAssignment b actorRoles targetRole =
     (if \<not> pb_canAssignRole b actorRoles targetRole
      then Inl (AssignmentForbidden targetRole (pb_getLevel b targetRole) (pb_getMaxLevel b actorRoles))
      else Inr ())"

definition pb_canModifyUser :: "boundary \<Rightarrow> string list \<Rightarrow> string list \<Rightarrow> bool" where
  "pb_canModifyUser b actorRoles targetUserRoles =
     (pb_getMaxLevel b actorRoles > pb_getMaxLevel b targetUserRoles)"

definition pb_enforceModification :: "boundary \<Rightarrow> string list \<Rightarrow> string list \<Rightarrow> forbidden + unit" where
  "pb_enforceModification b actorRoles targetUserRoles =
     (if \<not> pb_canModifyUser b actorRoles targetUserRoles then Inl ModificationForbidden else Inr ())"

text \<open>\<open>sort((a, b) => b.level - a.level)\<close>, a stable sort by descending level.\<close>

definition pb_getAllRoles :: "boundary \<Rightarrow> leveled_role list" where
  "pb_getAllRoles b = sort_key (\<lambda>r. - lr_level r) (jm_values b)"

lemma foldl_max_le_iff: "foldl max (a::int) xs \<le> m \<longleftrightarrow> a \<le> m \<and> (\<forall>x\<in>set xs. x \<le> m)"
  by (induction xs arbitrary: a) auto

lemma pb_getMaxLevel_le_iff:
  "pb_getMaxLevel b rs \<le> m \<longleftrightarrow> 0 \<le> m \<and> (\<forall>r\<in>set rs. pb_getLevel b r \<le> m)"
  by (auto simp: pb_getMaxLevel_def foldl_max_le_iff)

lemma pb_getMaxLevel_ge: "r \<in> set rs \<Longrightarrow> pb_getLevel b r \<le> pb_getMaxLevel b rs"
  using pb_getMaxLevel_le_iff[of b rs "pb_getMaxLevel b rs"] by simp

lemma pb_getMaxLevel_mono: "set rs \<subseteq> set rs' \<Longrightarrow> pb_getMaxLevel b rs \<le> pb_getMaxLevel b rs'"
  using pb_getMaxLevel_le_iff[of b rs "pb_getMaxLevel b rs'"] pb_getMaxLevel_le_iff[of b rs' "pb_getMaxLevel b rs'"]
  by auto

section \<open>Properties\<close>

text \<open>C5. Resolving roles computes exactly the roles reachable through \<open>inherits\<close>, each once, on every
  hierarchy, cyclic ones and ones that name undefined roles included (so the recursion ends), and the
  permissions collected for them are exactly those of the reachable roles.\<close>

theorem role_resolution_is_closure:
  "set (rh_resolveAll h roles) = (rh_edge h)\<^sup>* `` set roles \<and> distinct (rh_resolveAll h roles) \<and>
   set (rh_getAllPermissions h roles) =
     (\<Union>r \<in> (rh_edge h)\<^sup>* `` set roles. set (rh_role_permissions h r))"
  by (simp add: rh_resolveAll_eq rh_resolve_parents_set rh_resolve_distinct rh_getAllPermissions_set)

text \<open>C6. \<open>validate\<close> decides acyclicity: it answers valid exactly when the inheritance relation has no
  cycle, and every path it reports is a real inheritance path that ends on a role it has passed.\<close>

theorem role_validation_decides_acyclicity:
  "(fst (rh_validate h) \<longleftrightarrow> acyclic (rh_edge h)) \<and>
   (\<forall>c \<in> set (snd (rh_validate h)). rh_walk h c \<and> last c \<in> set (butlast c))"
  using rh_validate_iff[of h] rh_validate_sound[of _ h] by blast

theorem role_validation_decides_acyclicity_witness:
  "rh_walk (rh_new (Some [\<lparr>rd_name = ''a'', rd_inherits = Some [''a''], rd_permissions = None\<rparr>])) [''a'', ''a'']"
proof -
  let ?h = "rh_new (Some [\<lparr>rd_name = ''a'', rd_inherits = Some [''a''], rd_permissions = None\<rparr>])"
  have "[''a'', ''a''] \<in> set (snd (rh_validate ?h))"
    by (simp add: rh_new_def rh_define_def rh_validate_def Let_def rh_detectCycle.simps rh_parents_def)
  with role_validation_decides_acyclicity[of ?h] show ?thesis by blast
qed

text \<open>C7. No escalation through the boundary: when an assignment is allowed, the role's level is strictly
  below the actor's highest level, so an actor can never hand out a role at or above their own level
  and an account that receives the role stays strictly below an actor it was below before.\<close>

theorem boundary_prevents_escalation:
  assumes "pb_enforceAssignment b actorRoles targetRole = Inr ()"
  shows "pb_getLevel b targetRole < pb_getMaxLevel b actorRoles \<and>
         (pb_canModifyUser b actorRoles userRoles \<longrightarrow>
            pb_canModifyUser b actorRoles (targetRole # userRoles))"
proof -
  from assms have less: "pb_getLevel b targetRole < pb_getMaxLevel b actorRoles"
    by (simp add: pb_enforceAssignment_def pb_canAssignRole_def split: if_splits)
  moreover have "pb_getMaxLevel b (targetRole # userRoles) < pb_getMaxLevel b actorRoles"
    if "pb_getMaxLevel b userRoles < pb_getMaxLevel b actorRoles"
    using less that pb_getMaxLevel_le_iff[of b "targetRole # userRoles" "pb_getMaxLevel b actorRoles - 1"]
      pb_getMaxLevel_le_iff[of b userRoles "pb_getMaxLevel b actorRoles - 1"]
    by auto
  ultimately show ?thesis by (simp add: pb_canModifyUser_def)
qed

theorem boundary_prevents_escalation_witness:
  "pb_getLevel (pb_new (Some [\<lparr>lr_name = ''admin'', lr_level = 9, lr_inherits = None, lr_permissions = None\<rparr>])) ''user''
     < 9"
proof -
  let ?b = "pb_new (Some [\<lparr>lr_name = ''admin'', lr_level = 9, lr_inherits = None, lr_permissions = None\<rparr>])"
  have "pb_enforceAssignment ?b [''admin''] ''user'' = Inr ()"
    by (simp add: pb_enforceAssignment_def pb_canAssignRole_def pb_getMaxLevel_def pb_getLevel_def
        pb_new_def pb_define_def)
  from boundary_prevents_escalation[OF this] show ?thesis
    by (simp add: pb_getMaxLevel_def pb_getLevel_def pb_new_def pb_define_def)
qed

end
