(* ===== verification/Auth_Store.thy ===== *)
theory Auth_Store
  imports Auth_Roles
begin

text \<open>
  \<open>src/src/auth/rbac/permission-store.ts\<close>: the \<open>PermissionStore\<close> interface the guards and the role
  manager call, its contract as a locale, and the in-memory implementation that satisfies it.
  The methods are asynchronous in the source; here each is one atomic step on the store's state.
\<close>

section \<open>The interface\<close>

record 's permission_store =
  ps_getUserPermissions :: "'s \<Rightarrow> string \<Rightarrow> string list"
  ps_getUserRoles :: "'s \<Rightarrow> string \<Rightarrow> string list"
  ps_assignRoles :: "'s \<Rightarrow> string \<Rightarrow> string list \<Rightarrow> 's"
  ps_removeRoles :: "'s \<Rightarrow> string \<Rightarrow> string list \<Rightarrow> 's"
  ps_assignPermissions :: "'s \<Rightarrow> string \<Rightarrow> string list \<Rightarrow> 's"
  ps_removePermissions :: "'s \<Rightarrow> string \<Rightarrow> string list \<Rightarrow> 's"
  ps_hasPermission :: "'s \<Rightarrow> string \<Rightarrow> string \<Rightarrow> role_hierarchy option \<Rightarrow> bool"

text \<open>The contract, on the sets of roles and permissions a user has: an update changes only the named
  user and only the named table, and \<open>hasPermission\<close> decides whether one of the user's own patterns,
  or one that a hierarchy gives to the user's roles, matches.\<close>

locale permission_store_spec =
  fixes ps :: "'s permission_store"
  assumes roles_assignRoles: "set (ps_getUserRoles ps (ps_assignRoles ps s u rs) v) =
      set (ps_getUserRoles ps s v) \<union> (if v = u then set rs else {})"
    and roles_removeRoles: "set (ps_getUserRoles ps (ps_removeRoles ps s u rs) v) =
      set (ps_getUserRoles ps s v) - (if v = u then set rs else {})"
    and perms_assignPermissions: "set (ps_getUserPermissions ps (ps_assignPermissions ps s u qs) v) =
      set (ps_getUserPermissions ps s v) \<union> (if v = u then set qs else {})"
    and perms_removePermissions: "set (ps_getUserPermissions ps (ps_removePermissions ps s u qs) v) =
      set (ps_getUserPermissions ps s v) - (if v = u then set qs else {})"
    and perms_frame:
      "ps_getUserPermissions ps (ps_assignRoles ps s u rs) v = ps_getUserPermissions ps s v"
      "ps_getUserPermissions ps (ps_removeRoles ps s u rs) v = ps_getUserPermissions ps s v"
    and roles_frame:
      "ps_getUserRoles ps (ps_assignPermissions ps s u qs) v = ps_getUserRoles ps s v"
      "ps_getUserRoles ps (ps_removePermissions ps s u qs) v = ps_getUserRoles ps s v"
    and hasPermission_iff: "ps_hasPermission ps s u p h \<longleftrightarrow>
      (\<exists>q \<in> set (ps_getUserPermissions ps s u). matchesPermission q p) \<or>
      (\<exists>h'. h = Some h' \<and> (\<exists>q \<in> set (rh_getAllPermissions h' (ps_getUserRoles ps s u)). matchesPermission q p))"
begin

lemma granted_then_held:
  "matchesPermission q p \<Longrightarrow> q \<in> set qs \<Longrightarrow> ps_hasPermission ps (ps_assignPermissions ps s u qs) u p h"
  by (auto simp: hasPermission_iff perms_assignPermissions)

lemma hasPermission_other_user:
  assumes "v \<noteq> u"
  shows "ps_hasPermission ps (ps_assignRoles ps s u rs) v p h = ps_hasPermission ps s v p h"
proof -
  have roles: "set (ps_getUserRoles ps (ps_assignRoles ps s u rs) v) = set (ps_getUserRoles ps s v)"
    using assms by (simp add: roles_assignRoles)
  have "set (rh_getAllPermissions h' (ps_getUserRoles ps (ps_assignRoles ps s u rs) v)) =
        set (rh_getAllPermissions h' (ps_getUserRoles ps s v))" for h'
    by (simp add: rh_getAllPermissions_set roles)
  then show ?thesis
    by (simp add: hasPermission_iff perms_frame)
qed

lemma revoked_then_not_held:
  assumes "set (ps_getUserPermissions ps s u) \<subseteq> set qs"
  shows "\<not> ps_hasPermission ps (ps_removePermissions ps s u qs) u p None"
proof -
  have "set (ps_getUserPermissions ps (ps_removePermissions ps s u qs) u) = {}"
    using assms by (auto simp: perms_removePermissions)
  then show ?thesis by (simp add: hasPermission_iff)
qed

end

section \<open>MemoryPermissionStore\<close>

record mem_perm_store =
  mps_userRoles :: "(string, string list) jsmap"
  mps_userPermissions :: "(string, string list) jsmap"

definition mps_getUserPermissions :: "mem_perm_store \<Rightarrow> string \<Rightarrow> string list" where
  "mps_getUserPermissions s userId = or_else (jm_get (mps_userPermissions s) userId) []"

definition mps_getUserRoles :: "mem_perm_store \<Rightarrow> string \<Rightarrow> string list" where
  "mps_getUserRoles s userId = or_else (jm_get (mps_userRoles s) userId) []"

text \<open>The two updates of a table of sets: create the set when absent and add to it; delete from it
  when present.\<close>

definition grant_all :: "(string, string list) jsmap \<Rightarrow> string \<Rightarrow> string list \<Rightarrow> (string, string list) jsmap" where
  "grant_all m userId xs = jm_set m userId (js_add_all xs (or_else (jm_get m userId) []))"

definition revoke_all :: "(string, string list) jsmap \<Rightarrow> string \<Rightarrow> string list \<Rightarrow> (string, string list) jsmap" where
  "revoke_all m userId xs = (case jm_get m userId of
     None \<Rightarrow> m
   | Some held \<Rightarrow> jm_set m userId (fold js_del xs held))"

definition mps_assignRoles :: "mem_perm_store \<Rightarrow> string \<Rightarrow> string list \<Rightarrow> mem_perm_store" where
  "mps_assignRoles s userId roles = s\<lparr>mps_userRoles := grant_all (mps_userRoles s) userId roles\<rparr>"

definition mps_removeRoles :: "mem_perm_store \<Rightarrow> string \<Rightarrow> string list \<Rightarrow> mem_perm_store" where
  "mps_removeRoles s userId roles = s\<lparr>mps_userRoles := revoke_all (mps_userRoles s) userId roles\<rparr>"

definition mps_assignPermissions :: "mem_perm_store \<Rightarrow> string \<Rightarrow> string list \<Rightarrow> mem_perm_store" where
  "mps_assignPermissions s userId perms =
     s\<lparr>mps_userPermissions := grant_all (mps_userPermissions s) userId perms\<rparr>"

definition mps_removePermissions :: "mem_perm_store \<Rightarrow> string \<Rightarrow> string list \<Rightarrow> mem_perm_store" where
  "mps_removePermissions s userId perms =
     s\<lparr>mps_userPermissions := revoke_all (mps_userPermissions s) userId perms\<rparr>"

definition mps_hasPermission :: "mem_perm_store \<Rightarrow> string \<Rightarrow> string \<Rightarrow> role_hierarchy option \<Rightarrow> bool" where
  "mps_hasPermission s userId permission hierarchy =
     (if (case jm_get (mps_userPermissions s) userId of
            None \<Rightarrow> False
          | Some directPerms \<Rightarrow> list_ex (\<lambda>userPerm. matchesPermission userPerm permission) directPerms)
      then True
      else case hierarchy of
        None \<Rightarrow> False
      | Some h \<Rightarrow>
          (let roles = mps_getUserRoles s userId
           in if length roles > 0
              then list_ex (\<lambda>rolePerm. matchesPermission rolePerm permission) (rh_getAllPermissions h roles)
              else False))"

definition memory_permission_store :: "mem_perm_store permission_store" where
  "memory_permission_store = \<lparr>
     ps_getUserPermissions = mps_getUserPermissions, ps_getUserRoles = mps_getUserRoles,
     ps_assignRoles = mps_assignRoles, ps_removeRoles = mps_removeRoles,
     ps_assignPermissions = mps_assignPermissions, ps_removePermissions = mps_removePermissions,
     ps_hasPermission = mps_hasPermission\<rparr>"

lemma set_fold_js_del [jsset_simps]: "set (fold js_del xs ys) = set ys - set xs"
  by (induction xs arbitrary: ys) auto

lemma get_grant_all [jsset_simps]:
  "set (or_else (jm_get (grant_all m u xs) v) []) =
     set (or_else (jm_get m v) []) \<union> (if v = u then set xs else {})"
  by (simp add: grant_all_def jsmap_simps)

lemma get_revoke_all [jsset_simps]:
  "set (or_else (jm_get (revoke_all m u xs) v) []) =
     set (or_else (jm_get m v) []) - (if v = u then set xs else {})"
  by (simp add: revoke_all_def jsmap_simps set_fold_js_del split: option.splits)

lemma getAllPermissions_Nil: "rh_getAllPermissions h [] = []"
  by (simp add: rh_getAllPermissions_def js_set_of_def js_add_all_def)

lemmas mps_defs = mps_getUserPermissions_def mps_getUserRoles_def mps_assignRoles_def mps_removeRoles_def
  mps_assignPermissions_def mps_removePermissions_def memory_permission_store_def

lemma mps_hasPermission_iff:
  "mps_hasPermission s u p h \<longleftrightarrow>
     (\<exists>q \<in> set (mps_getUserPermissions s u). matchesPermission q p) \<or>
     (\<exists>h'. h = Some h' \<and> (\<exists>q \<in> set (rh_getAllPermissions h' (mps_getUserRoles s u)). matchesPermission q p))"
  by (cases "jm_get (mps_userPermissions s) u"; cases h; cases "mps_getUserRoles s u")
    (simp_all add: mps_hasPermission_def mps_getUserPermissions_def list_ex_iff getAllPermissions_Nil)

interpretation mem: permission_store_spec memory_permission_store
  by unfold_locales
    (simp_all add: memory_permission_store_def mps_hasPermission_iff, simp_all add: mps_defs jsset_simps)

end
