(* ===== verification/Auth_Guards.thy ===== *)
theory Auth_Guards
  imports Auth_Store
begin

text \<open>
  \<open>src/src/auth/guards/roles.guard.ts\<close> and \<open>permissions.guard.ts\<close>. A guard keeps one piece of state,
  the role hierarchy it builds lazily from its options; \<open>canActivate\<close> returns its decision (an exception
  is \<open>Inl\<close>) and that cache. Route metadata, read through the framework's \<open>Reflector\<close>, is a record; the
  request is the part of it the guards read. The permission store is the interface of \<open>Auth_Store\<close>.
\<close>

section \<open>Requests, routes and options\<close>

record auth_user =
  u_id :: "string option"
  u_sub :: "string option"
  u_roles :: "string list option"
  u_permissions :: "string list option"

record auth_request =
  rq_user :: "auth_user option"

record route_meta =
  rt_isPublic :: bool
  rt_roles :: "string list option"
  rt_permissions :: "string list option"
  rt_superAdminOnly :: bool

record rbac_options =
  rb_extractRoles :: "(auth_request \<Rightarrow> string list) option"
  rb_extractPermissions :: "(auth_request \<Rightarrow> string list) option"
  rb_hierarchy :: "role_definition list option"
  rb_superAdmin :: "string option"
  rb_denyByDefault :: bool

datatype guard_error = NoRolesDefined | SuperAdminAccessOnly | InsufficientRole
  | NoPermissionsDefined | InsufficientPermissions

definition extractRoles :: "rbac_options \<Rightarrow> auth_request \<Rightarrow> string list" where
  "extractRoles opts = or_else (rb_extractRoles opts)
     (\<lambda>req. case rq_user req of None \<Rightarrow> [] | Some user \<Rightarrow> or_else (u_roles user) [])"

definition extractPermissions :: "rbac_options \<Rightarrow> auth_request \<Rightarrow> string list" where
  "extractPermissions opts = or_else (rb_extractPermissions opts)
     (\<lambda>req. case rq_user req of None \<Rightarrow> [] | Some user \<Rightarrow> or_else (u_permissions user) [])"

text \<open>The empty string is falsy, so an empty super-admin name bypasses nothing.\<close>

definition superAdminBypass :: "rbac_options \<Rightarrow> string list \<Rightarrow> bool" where
  "superAdminBypass opts rawUserRoles = (case rb_superAdmin opts of
     None \<Rightarrow> False
   | Some superAdmin \<Rightarrow> superAdmin \<noteq> [] \<and> superAdmin \<in> set rawUserRoles)"

text \<open>\<open>getHierarchy\<close>, the same in both guards: the hierarchy and the cache it leaves.\<close>

definition getHierarchy :: "rbac_options \<Rightarrow> role_hierarchy option
    \<Rightarrow> role_hierarchy option \<times> role_hierarchy option" where
  "getHierarchy opts cache = (case rb_hierarchy opts of
     None \<Rightarrow> (None, cache)
   | Some defs \<Rightarrow> (case cache of
       None \<Rightarrow> (Some (rh_new (Some defs)), Some (rh_new (Some defs)))
     | Some h \<Rightarrow> (Some h, Some h)))"

text \<open>\<open>hierarchy ? hierarchy.resolveAll(roles) : roles\<close> and \<open>hierarchy ? hierarchy.getAllPermissions(roles) : []\<close>.\<close>

definition resolvedRoles :: "role_hierarchy option \<Rightarrow> string list \<Rightarrow> string list" where
  "resolvedRoles hierarchy roles = (case hierarchy of None \<Rightarrow> roles | Some h \<Rightarrow> rh_resolveAll h roles)"

definition hierarchyPerms :: "role_hierarchy option \<Rightarrow> string list \<Rightarrow> string list" where
  "hierarchyPerms hierarchy roles = (case hierarchy of None \<Rightarrow> [] | Some h \<Rightarrow> rh_getAllPermissions h roles)"

section \<open>RolesGuard\<close>

definition roles_canActivate :: "rbac_options \<Rightarrow> role_hierarchy option \<Rightarrow> route_meta \<Rightarrow> auth_request
    \<Rightarrow> (guard_error + bool) \<times> role_hierarchy option" where
  "roles_canActivate opts cache route request =
     (if rt_isPublic route then (Inr True, cache)
      else case rt_roles route of
        None \<Rightarrow> (if rb_denyByDefault opts then Inl NoRolesDefined else Inr True, cache)
      | Some requiredRoles \<Rightarrow>
          if requiredRoles = [] then
            (if rb_denyByDefault opts then Inl NoRolesDefined else Inr True, cache)
          else let rawUserRoles = extractRoles opts request in
            if superAdminBypass opts rawUserRoles then (Inr True, cache)
            else if rt_superAdminOnly route then (Inl SuperAdminAccessOnly, cache)
            else let (hierarchy, cache') = getHierarchy opts cache;
                     userRoles = resolvedRoles hierarchy rawUserRoles
                 in (if list_ex (\<lambda>role. role \<in> set userRoles) requiredRoles
                     then Inr True else Inl InsufficientRole, cache'))"

section \<open>PermissionsGuard\<close>

definition hasAll :: "string list \<Rightarrow> string list \<Rightarrow> bool" where
  "hasAll userPermsArray requiredPermissions =
     list_all (\<lambda>required. list_ex (\<lambda>userPerm. matchesPermission userPerm required) userPermsArray)
       requiredPermissions"

definition perms_canActivateSync :: "rbac_options \<Rightarrow> role_hierarchy option \<Rightarrow> auth_request \<Rightarrow> string list
    \<Rightarrow> (guard_error + bool) \<times> role_hierarchy option" where
  "perms_canActivateSync opts cache request requiredPermissions =
     (let rawUserRoles = extractRoles opts request in
      if superAdminBypass opts rawUserRoles then (Inr True, cache)
      else let directPermissions = extractPermissions opts request;
               (hierarchy, cache') = getHierarchy opts cache;
               hierarchyPermissions = hierarchyPerms hierarchy rawUserRoles;
               userPermissions = js_set_of (directPermissions @ hierarchyPermissions)
           in (if hasAll userPermissions requiredPermissions then Inr True else Inl InsufficientPermissions,
               cache'))"

text \<open>\<open>request.user?.id ?? request.user?.sub\<close>; an empty id is falsy where it is used.\<close>

definition request_userId :: "auth_request \<Rightarrow> string option" where
  "request_userId request = (case rq_user request of
     None \<Rightarrow> None
   | Some user \<Rightarrow> (case u_id user of None \<Rightarrow> u_sub user | Some i \<Rightarrow> Some i))"

definition for_user :: "string option \<Rightarrow> (string \<Rightarrow> string list) \<Rightarrow> string list" where
  "for_user userId get = (case userId of None \<Rightarrow> [] | Some u \<Rightarrow> if u = [] then [] else get u)"

definition perms_canActivateAsync :: "rbac_options \<Rightarrow> 's permission_store \<Rightarrow> 's \<Rightarrow> role_hierarchy option
    \<Rightarrow> auth_request \<Rightarrow> string list \<Rightarrow> (guard_error + bool) \<times> role_hierarchy option" where
  "perms_canActivateAsync opts store s cache request requiredPermissions =
     (let rawUserRoles = extractRoles opts request in
      if superAdminBypass opts rawUserRoles then (Inr True, cache)
      else let userId = request_userId request;
               directPermissions = extractPermissions opts request;
               storePermissions = for_user userId (ps_getUserPermissions store s);
               (hierarchy, cache') = getHierarchy opts cache;
               hierarchyPermissions = hierarchyPerms hierarchy rawUserRoles;
               storeRoles = for_user userId (ps_getUserRoles store s);
               storeRolePermissions = hierarchyPerms hierarchy storeRoles;
               userPermissions = js_set_of (directPermissions @ storePermissions @ hierarchyPermissions
                 @ storeRolePermissions)
           in (if hasAll userPermissions requiredPermissions then Inr True else Inl InsufficientPermissions,
               cache'))"

definition perms_canActivate :: "rbac_options \<Rightarrow> ('s permission_store \<times> 's) option \<Rightarrow> role_hierarchy option
    \<Rightarrow> route_meta \<Rightarrow> auth_request \<Rightarrow> (guard_error + bool) \<times> role_hierarchy option" where
  "perms_canActivate opts permissionStore cache route request =
     (if rt_isPublic route then (Inr True, cache)
      else case rt_permissions route of
        None \<Rightarrow> (if rb_denyByDefault opts then Inl NoPermissionsDefined else Inr True, cache)
      | Some requiredPermissions \<Rightarrow>
          if requiredPermissions = [] then
            (if rb_denyByDefault opts then Inl NoPermissionsDefined else Inr True, cache)
          else case permissionStore of
            Some (store, s) \<Rightarrow> perms_canActivateAsync opts store s cache request requiredPermissions
          | None \<Rightarrow> perms_canActivateSync opts cache request requiredPermissions)"

section \<open>All guard instances\<close>

text \<open>The two static \<open>_instances\<close> sets, as the list of their caches, and \<open>clearHierarchyCache\<close>.\<close>

record guard_caches =
  gc_roles :: "role_hierarchy option list"
  gc_permissions :: "role_hierarchy option list"

definition clearHierarchyCache :: "guard_caches \<Rightarrow> guard_caches" where
  "clearHierarchyCache g = g\<lparr>gc_roles := map (\<lambda>_. None) (gc_roles g),
     gc_permissions := map (\<lambda>_. None) (gc_permissions g)\<rparr>"

text \<open>A cache is coherent when it is empty or holds the hierarchy of the guard's options; every call of
  a guard keeps it so.\<close>

definition cache_ok :: "rbac_options \<Rightarrow> role_hierarchy option \<Rightarrow> bool" where
  "cache_ok opts cache \<longleftrightarrow> cache = None \<or> (\<exists>defs. rb_hierarchy opts = Some defs \<and> cache = Some (rh_new (Some defs)))"

lemma getHierarchy_ok:
  "cache_ok opts cache \<Longrightarrow> fst (getHierarchy opts cache) = map_option (\<lambda>d. rh_new (Some d)) (rb_hierarchy opts)"
  "cache_ok opts cache \<Longrightarrow> cache_ok opts (snd (getHierarchy opts cache))"
  by (auto simp: getHierarchy_def cache_ok_def split: option.splits)

lemma hasAll_iff: "hasAll ps rs \<longleftrightarrow> (\<forall>r \<in> set rs. \<exists>p \<in> set ps. matchesPermission p r)"
  by (simp add: hasAll_def list_all_iff list_ex_iff)

lemma roles_canActivate_cache:
  "cache_ok opts cache \<Longrightarrow> cache_ok opts (snd (roles_canActivate opts cache route request))"
  using getHierarchy_ok(2)[of opts cache]
  by (auto simp: roles_canActivate_def Let_def split: option.splits prod.splits)

lemma perms_canActivate_cache:
  "cache_ok opts cache \<Longrightarrow> cache_ok opts (snd (perms_canActivate opts ps cache route request))"
  using getHierarchy_ok(2)[of opts cache]
  by (auto simp: perms_canActivate_def perms_canActivateSync_def perms_canActivateAsync_def Let_def
      split: option.splits prod.splits)

section \<open>What the guards decide\<close>

text \<open>The roles a request counts as having: its own and, with a hierarchy, every role they inherit.\<close>

definition effective_roles :: "rbac_options \<Rightarrow> string list \<Rightarrow> string set" where
  "effective_roles opts roles = (case rb_hierarchy opts of
     None \<Rightarrow> set roles
   | Some defs \<Rightarrow> (rh_edge (rh_new (Some defs)))\<^sup>* `` set roles)"

definition hierarchy_permissions :: "rbac_options \<Rightarrow> string list \<Rightarrow> string set" where
  "hierarchy_permissions opts roles = (case rb_hierarchy opts of
     None \<Rightarrow> {}
   | Some defs \<Rightarrow> (\<Union>r \<in> effective_roles opts roles. set (rh_role_permissions (rh_new (Some defs)) r)))"

text \<open>The permission patterns a request holds: from the request, from the store under its user id, and
  through the hierarchy from the roles of both.\<close>

definition held_permissions :: "rbac_options \<Rightarrow> ('s permission_store \<times> 's) option \<Rightarrow> auth_request \<Rightarrow> string set" where
  "held_permissions opts ps request =
     set (extractPermissions opts request) \<union> hierarchy_permissions opts (extractRoles opts request) \<union>
     (case ps of None \<Rightarrow> {} | Some (store, s) \<Rightarrow>
        set (for_user (request_userId request) (ps_getUserPermissions store s)) \<union>
        hierarchy_permissions opts (for_user (request_userId request) (ps_getUserRoles store s)))"

lemma roles_resolved:
  "set (resolvedRoles (map_option (\<lambda>d. rh_new (Some d)) (rb_hierarchy opts)) roles) = effective_roles opts roles"
  by (cases "rb_hierarchy opts")
    (simp_all add: resolvedRoles_def effective_roles_def rh_resolveAll_eq rh_resolve_parents_set)

lemma permissions_resolved:
  "set (hierarchyPerms (map_option (\<lambda>d. rh_new (Some d)) (rb_hierarchy opts)) roles) = hierarchy_permissions opts roles"
  by (cases "rb_hierarchy opts")
    (auto simp: hierarchyPerms_def hierarchy_permissions_def effective_roles_def rh_getAllPermissions_set)

lemma roles_canActivate_checked:
  assumes "cache_ok opts cache" and "\<not> rt_isPublic route" and "rt_roles route = Some req" and "req \<noteq> []"
  shows "fst (roles_canActivate opts cache route request) =
    (if superAdminBypass opts (extractRoles opts request) then Inr True
     else if rt_superAdminOnly route then Inl SuperAdminAccessOnly
     else if set req \<inter> effective_roles opts (extractRoles opts request) \<noteq> {} then Inr True
     else Inl InsufficientRole)"
proof -
  obtain h c where gh: "getHierarchy opts cache = (h, c)" by fastforce
  have h: "h = map_option (\<lambda>d. rh_new (Some d)) (rb_hierarchy opts)"
    using getHierarchy_ok(1)[OF assms(1)] gh by simp
  show ?thesis
    using assms(2-4)
    by (auto simp: roles_canActivate_def Let_def gh h list_ex_iff roles_resolved)
qed

lemma perms_canActivate_checked:
  assumes "cache_ok opts cache" and "\<not> rt_isPublic route" and "rt_permissions route = Some req" and "req \<noteq> []"
  shows "fst (perms_canActivate opts ps cache route request) =
    (if superAdminBypass opts (extractRoles opts request) then Inr True
     else if \<forall>r \<in> set req. \<exists>p \<in> held_permissions opts ps request. matchesPermission p r then Inr True
     else Inl InsufficientPermissions)"
proof -
  obtain h c where gh: "getHierarchy opts cache = (h, c)" by fastforce
  have h: "h = map_option (\<lambda>d. rh_new (Some d)) (rb_hierarchy opts)"
    using getHierarchy_ok(1)[OF assms(1)] gh by simp
  show ?thesis
  proof (cases ps)
    case None
    then show ?thesis
      using assms(2-4)
      by (simp add: perms_canActivate_def perms_canActivateSync_def Let_def gh hasAll_iff h held_permissions_def
          permissions_resolved)
  next
    case (Some p)
    then show ?thesis
      using assms(2-4)
      by (cases p) (simp add: perms_canActivate_def perms_canActivateAsync_def Let_def gh hasAll_iff h
          held_permissions_def permissions_resolved Un_ac)
  qed
qed

section \<open>Properties\<close>

text \<open>What the two guards decide, with a coherent cache: the roles guard lets a request through a
  protected route exactly for the super-admin or, unless the route is for the super-admin only, for a
  request one of whose roles, inherited ones included, is required; the permissions guard exactly when
  every required permission is matched by a pattern the request, the store or the hierarchy gives it.
  Neither depends on whether the hierarchy was cached, and both keep the cache coherent.\<close>

theorem guards_decide_by_effective_rights:
  assumes "cache_ok opts cache" and "\<not> rt_isPublic route"
    and "rt_roles route = Some roles" and "roles \<noteq> []"
    and "rt_permissions route = Some perms" and "perms \<noteq> []"
  shows "(fst (roles_canActivate opts cache route request) = Inr True \<longleftrightarrow>
            superAdminBypass opts (extractRoles opts request) \<or>
            (\<not> rt_superAdminOnly route \<and> set roles \<inter> effective_roles opts (extractRoles opts request) \<noteq> {})) \<and>
         (fst (perms_canActivate opts ps cache route request) = Inr True \<longleftrightarrow>
            superAdminBypass opts (extractRoles opts request) \<or>
            (\<forall>r \<in> set perms. \<exists>p \<in> held_permissions opts ps request. matchesPermission p r)) \<and>
         cache_ok opts (snd (roles_canActivate opts cache route request)) \<and>
         cache_ok opts (snd (perms_canActivate opts ps cache route request))"
  by (simp add: roles_canActivate_checked[OF assms(1-4)] perms_canActivate_checked[OF assms(1,2,5,6)]
      roles_canActivate_cache[OF assms(1)] perms_canActivate_cache[OF assms(1)])

definition example_rbac :: rbac_options where
  "example_rbac = \<lparr>rb_extractRoles = None, rb_extractPermissions = None,
     rb_hierarchy = Some [\<lparr>rd_name = ''admin'', rd_inherits = Some [''user''], rd_permissions = None\<rparr>,
                          \<lparr>rd_name = ''user'', rd_inherits = None, rd_permissions = Some [''doc:*'']\<rparr>],
     rb_superAdmin = Some ''root'', rb_denyByDefault = False\<rparr>"

definition example_request :: auth_request where
  "example_request = \<lparr>rq_user = Some \<lparr>u_id = Some ''u1'', u_sub = None, u_roles = Some [''admin''], u_permissions = None\<rparr>\<rparr>"

lemma example_edge: "(''admin'', ''user'') \<in> rh_edge (rh_new (rb_hierarchy example_rbac))"
  by (simp add: rh_edge_def rh_parents_def rh_new_def rh_define_def example_rbac_def)

theorem guards_decide_by_effective_rights_witness:
  "fst (roles_canActivate example_rbac None
      \<lparr>rt_isPublic = False, rt_roles = Some [''user''], rt_permissions = Some [''doc:read''], rt_superAdminOnly = False\<rparr>
      example_request) = Inr True"
proof -
  let ?route = "\<lparr>rt_isPublic = False, rt_roles = Some [''user''], rt_permissions = Some [''doc:read''], rt_superAdminOnly = False\<rparr>"
  have "''user'' \<in> effective_roles example_rbac (extractRoles example_rbac example_request)"
    using example_edge
    by (auto simp: effective_roles_def extractRoles_def example_rbac_def example_request_def)
  then show ?thesis
    using guards_decide_by_effective_rights[of example_rbac None ?route "[''user'']" "[''doc:read'']" example_request
      "None :: (unit permission_store \<times> unit) option"]
    by (simp add: cache_ok_def)
qed

text \<open>\<open>@SuperAdminOnly()\<close> protects a route only where \<open>@Roles()\<close> is present as well: on a route
  that carries the marker and no roles, and without deny-by-default, the roles guard lets every request
  through, whatever its roles, before it looks at the marker.\<close>

theorem superadmin_marker_alone_not_enforced:
  "fst (roles_canActivate (opts\<lparr>rb_denyByDefault := False\<rparr>) cache
      \<lparr>rt_isPublic = False, rt_roles = None, rt_permissions = perms, rt_superAdminOnly = True\<rparr> request) = Inr True"
  by (simp add: roles_canActivate_def)

end
