(* ===== verification/Auth_Manager.thy ===== *)
theory Auth_Manager
  imports Auth_Guards
begin

text \<open>
  \<open>src/src/auth/rbac/role-manager.service.ts\<close>: the role and permission catalogue, the assignment of
  roles to users through the permission store and under the privilege boundary, and the seeding. An
  operation returns its error or result together with the state; the caches of the guards, which every
  change of the catalogue clears, are part of the state.
\<close>

section \<open>State\<close>

record role_rec =
  rr_code :: string
  rr_name :: string
  rr_description :: "string option"
  rr_level :: int
  rr_isSystem :: bool
  rr_permissions :: "string list"
  rr_inherits :: "string list option"

record perm_rec =
  pr_code :: string
  pr_name :: string
  pr_description :: "string option"
  pr_resource :: string
  pr_action :: string

text \<open>\<open>Partial<RoleDefinitionRecord>\<close>: a field that is absent is \<open>None\<close>.\<close>

record role_patch =
  rp_code :: "string option"
  rp_name :: "string option"
  rp_description :: "string option"
  rp_level :: "int option"
  rp_isSystem :: "bool option"
  rp_permissions :: "string list option"
  rp_inherits :: "string list option"

record 's role_manager =
  rm_roles :: "(string, role_rec) jsmap"
  rm_permissions :: "(string, perm_rec) jsmap"
  rm_rolePermissions :: "(string, string list) jsmap"
  rm_store :: 's
  rm_boundary :: "boundary option"
  rm_guards :: guard_caches

datatype rm_error = RoleExists string | RoleNotFound string | CannotRenameSystemRole
  | CannotDeleteSystemRole | PermissionExists string | PermissionNotFound string | Forbidden forbidden

type_synonym ('s, 'a) rm_result = "(rm_error + 'a) \<times> 's role_manager"

definition invalidateHierarchyCache :: "'s role_manager \<Rightarrow> 's role_manager" where
  "invalidateHierarchyCache m = m\<lparr>rm_guards := clearHierarchyCache (rm_guards m)\<rparr>"

definition leveled_of :: "role_rec \<Rightarrow> leveled_role" where
  "leveled_of role = \<lparr>lr_name = rr_code role, lr_level = rr_level role, lr_inherits = rr_inherits role,
     lr_permissions = Some (rr_permissions role)\<rparr>"

text \<open>The three updates \<open>createRole\<close> and \<open>seed\<close> make for a new role.\<close>

definition register_role :: "role_rec \<Rightarrow> 's role_manager \<Rightarrow> 's role_manager" where
  "register_role role m = m\<lparr>
     rm_roles := jm_set (rm_roles m) (rr_code role) role,
     rm_rolePermissions := jm_set (rm_rolePermissions m) (rr_code role) (js_set_of (rr_permissions role)),
     rm_boundary := map_option (\<lambda>b. pb_define b (leveled_of role)) (rm_boundary m)\<rparr>"

section \<open>Roles\<close>

definition rm_createRole :: "role_rec \<Rightarrow> 's role_manager \<Rightarrow> ('s, role_rec) rm_result" where
  "rm_createRole role m =
     (if jm_has (rm_roles m) (rr_code role) then (Inl (RoleExists (rr_code role)), m)
      else (Inr role, invalidateHierarchyCache (register_role role m)))"

definition rm_getRole :: "'s role_manager \<Rightarrow> string \<Rightarrow> rm_error + role_rec" where
  "rm_getRole m code = (case jm_get (rm_roles m) code of None \<Rightarrow> Inl (RoleNotFound code) | Some role \<Rightarrow> Inr role)"

definition rm_listRoles :: "'s role_manager \<Rightarrow> role_rec list" where
  "rm_listRoles m = sort_key (\<lambda>r. - rr_level r) (jm_values (rm_roles m))"

text \<open>\<open>{ ...existing, ...data, code }\<close>\<close>

definition patch_role :: "role_rec \<Rightarrow> role_patch \<Rightarrow> string \<Rightarrow> role_rec" where
  "patch_role existing data code = \<lparr>rr_code = code,
     rr_name = or_else (rp_name data) (rr_name existing),
     rr_description = (case rp_description data of None \<Rightarrow> rr_description existing | Some d \<Rightarrow> Some d),
     rr_level = or_else (rp_level data) (rr_level existing),
     rr_isSystem = or_else (rp_isSystem data) (rr_isSystem existing),
     rr_permissions = or_else (rp_permissions data) (rr_permissions existing),
     rr_inherits = (case rp_inherits data of None \<Rightarrow> rr_inherits existing | Some i \<Rightarrow> Some i)\<rparr>"

definition renames :: "role_patch \<Rightarrow> string \<Rightarrow> bool" where
  "renames data code = (case rp_code data of None \<Rightarrow> False | Some c \<Rightarrow> c \<noteq> [] \<and> c \<noteq> code)"

definition rm_updateRole :: "string \<Rightarrow> role_patch \<Rightarrow> 's role_manager \<Rightarrow> ('s, role_rec) rm_result" where
  "rm_updateRole code data m = (case rm_getRole m code of
     Inl e \<Rightarrow> (Inl e, m)
   | Inr existing \<Rightarrow>
       if rr_isSystem existing \<and> renames data code then (Inl CannotRenameSystemRole, m)
       else let updated = patch_role existing data code;
                m1 = m\<lparr>rm_roles := jm_set (rm_roles m) code updated\<rparr>;
                m2 = (case rp_permissions data of None \<Rightarrow> m1
                      | Some ps \<Rightarrow> m1\<lparr>rm_rolePermissions := jm_set (rm_rolePermissions m1) code (js_set_of ps)\<rparr>)
            in (Inr updated, invalidateHierarchyCache m2))"

definition rm_deleteRole :: "string \<Rightarrow> 's role_manager \<Rightarrow> ('s, unit) rm_result" where
  "rm_deleteRole code m = (case rm_getRole m code of
     Inl e \<Rightarrow> (Inl e, m)
   | Inr role \<Rightarrow>
       if rr_isSystem role then (Inl CannotDeleteSystemRole, m)
       else (Inr (), invalidateHierarchyCache (m\<lparr>rm_roles := jm_del (rm_roles m) code,
               rm_rolePermissions := jm_del (rm_rolePermissions m) code\<rparr>)))"

section \<open>Permissions\<close>

definition rm_createPermission :: "perm_rec \<Rightarrow> 's role_manager \<Rightarrow> ('s, perm_rec) rm_result" where
  "rm_createPermission perm m =
     (if jm_has (rm_permissions m) (pr_code perm) then (Inl (PermissionExists (pr_code perm)), m)
      else (Inr perm, m\<lparr>rm_permissions := jm_set (rm_permissions m) (pr_code perm) perm\<rparr>))"

definition rm_getPermission :: "'s role_manager \<Rightarrow> string \<Rightarrow> rm_error + perm_rec" where
  "rm_getPermission m code =
     (case jm_get (rm_permissions m) code of None \<Rightarrow> Inl (PermissionNotFound code) | Some p \<Rightarrow> Inr p)"

definition rm_listPermissions :: "'s role_manager \<Rightarrow> perm_rec list" where
  "rm_listPermissions m = jm_values (rm_permissions m)"

definition rm_assignPermissionToRole :: "string \<Rightarrow> string \<Rightarrow> 's role_manager \<Rightarrow> ('s, unit) rm_result" where
  "rm_assignPermissionToRole roleCode permissionCode m = (case rm_getRole m roleCode of
     Inl e \<Rightarrow> (Inl e, m)
   | Inr _ \<Rightarrow> (case rm_getPermission m permissionCode of
       Inl e \<Rightarrow> (Inl e, m)
     | Inr _ \<Rightarrow>
         let perms = or_else (jm_get (rm_rolePermissions m) roleCode) []
         in (Inr (), invalidateHierarchyCache (m\<lparr>rm_rolePermissions :=
               jm_set (rm_rolePermissions m) roleCode (js_add permissionCode perms)\<rparr>))))"

definition rm_removePermissionFromRole :: "string \<Rightarrow> string \<Rightarrow> 's role_manager \<Rightarrow> 's role_manager" where
  "rm_removePermissionFromRole roleCode permissionCode m =
     invalidateHierarchyCache (case jm_get (rm_rolePermissions m) roleCode of
       None \<Rightarrow> m
     | Some perms \<Rightarrow> m\<lparr>rm_rolePermissions := jm_set (rm_rolePermissions m) roleCode (js_del permissionCode perms)\<rparr>)"

definition rm_getRolePermissions :: "'s role_manager \<Rightarrow> string \<Rightarrow> rm_error + string list" where
  "rm_getRolePermissions m roleCode = (case rm_getRole m roleCode of
     Inl e \<Rightarrow> Inl e
   | Inr _ \<Rightarrow> Inr (or_else (jm_get (rm_rolePermissions m) roleCode) []))"

section \<open>Users\<close>

text \<open>\<open>if (actorRoles && this.boundary) this.boundary.enforceAssignment(actorRoles, roleCode)\<close>\<close>

definition check_boundary :: "'s role_manager \<Rightarrow> string list option \<Rightarrow> string \<Rightarrow> rm_error + unit" where
  "check_boundary m actorRoles roleCode = (case (actorRoles, rm_boundary m) of
     (Some actor, Some b) \<Rightarrow> (case pb_enforceAssignment b actor roleCode of Inl e \<Rightarrow> Inl (Forbidden e) | Inr () \<Rightarrow> Inr ())
   | _ \<Rightarrow> Inr ())"

definition rm_assignRoleToUser :: "'s permission_store \<Rightarrow> string \<Rightarrow> string \<Rightarrow> string list option
    \<Rightarrow> 's role_manager \<Rightarrow> ('s, unit) rm_result" where
  "rm_assignRoleToUser ps userId roleCode actorRoles m = (case rm_getRole m roleCode of
     Inl e \<Rightarrow> (Inl e, m)
   | Inr _ \<Rightarrow> (case check_boundary m actorRoles roleCode of
       Inl e \<Rightarrow> (Inl e, m)
     | Inr _ \<Rightarrow> (Inr (), m\<lparr>rm_store := ps_assignRoles ps (rm_store m) userId [roleCode]\<rparr>)))"

definition rm_removeRoleFromUser :: "'s permission_store \<Rightarrow> string \<Rightarrow> string \<Rightarrow> string list option
    \<Rightarrow> 's role_manager \<Rightarrow> ('s, unit) rm_result" where
  "rm_removeRoleFromUser ps userId roleCode actorRoles m = (case check_boundary m actorRoles roleCode of
     Inl e \<Rightarrow> (Inl e, m)
   | Inr _ \<Rightarrow> (Inr (), m\<lparr>rm_store := ps_removeRoles ps (rm_store m) userId [roleCode]\<rparr>))"

definition rm_getUserRoles :: "'s permission_store \<Rightarrow> 's role_manager \<Rightarrow> string \<Rightarrow> string list" where
  "rm_getUserRoles ps m userId = ps_getUserRoles ps (rm_store m) userId"

definition rm_getUserPermissions :: "'s permission_store \<Rightarrow> 's role_manager \<Rightarrow> string \<Rightarrow> string list" where
  "rm_getUserPermissions ps m userId = ps_getUserPermissions ps (rm_store m) userId"

section \<open>Seeding\<close>

definition seed_permission :: "perm_rec \<Rightarrow> 's role_manager \<times> nat \<Rightarrow> 's role_manager \<times> nat" where
  "seed_permission perm = (\<lambda>(m, created).
     if jm_has (rm_permissions m) (pr_code perm) then (m, created)
     else (m\<lparr>rm_permissions := jm_set (rm_permissions m) (pr_code perm) perm\<rparr>, Suc created))"

definition seed_role :: "role_rec \<Rightarrow> 's role_manager \<times> nat \<Rightarrow> 's role_manager \<times> nat" where
  "seed_role role = (\<lambda>(m, created).
     if jm_has (rm_roles m) (rr_code role) then (m, created) else (register_role role m, Suc created))"

definition rm_seed :: "role_rec list \<Rightarrow> perm_rec list \<Rightarrow> 's role_manager \<Rightarrow> (nat \<times> nat) \<times> 's role_manager" where
  "rm_seed roles perms m =
     (let (m1, permissionsCreated) = fold seed_permission perms (m, 0);
          (m2, rolesCreated) = fold seed_role roles (m1, 0)
      in ((rolesCreated, permissionsCreated), m2))"

section \<open>The catalogue's invariant\<close>

text \<open>Every role sits under its own code, the roles and the sets of their permissions have the same
  keys, and those sets have no repetition. A level the boundary knows for a role of the catalogue may be
  out of date, see the last property.\<close>

definition rm_ok :: "'s role_manager \<Rightarrow> bool" where
  "rm_ok m \<longleftrightarrow> jm_all (\<lambda>c r. rr_code r = c) (rm_roles m) \<and>
     dom (jm_get (rm_rolePermissions m)) = dom (jm_get (rm_roles m)) \<and>
     jm_all (\<lambda>c p. pr_code p = c) (rm_permissions m) \<and>
     jm_all (\<lambda>c ps. distinct ps) (rm_rolePermissions m)"

lemma rm_ok_simps [simp]:
  "rm_ok (invalidateHierarchyCache m) = rm_ok m"
  "rm_ok (m\<lparr>rm_store := s\<rparr>) = rm_ok m"
  by (simp_all add: rm_ok_def invalidateHierarchyCache_def)

lemma rm_ok_register: "rm_ok m \<Longrightarrow> rm_ok (register_role role m)"
  by (simp add: rm_ok_def register_role_def jm_dom_set jm_all_set)

lemma rm_ok_permission:
  "rm_ok m \<Longrightarrow> rm_ok (m\<lparr>rm_permissions := jm_set (rm_permissions m) (pr_code perm) perm\<rparr>)"
  by (simp add: rm_ok_def jm_all_set)

lemma rm_ok_rolePermissions:
  assumes "rm_ok m" and "jm_has (rm_roles m) c" and "distinct ps"
  shows "rm_ok (m\<lparr>rm_rolePermissions := jm_set (rm_rolePermissions m) c ps\<rparr>)"
  using assms by (simp add: rm_ok_def jm_dom_set jm_all_set insert_absorb domIff)

lemma rm_ok_update:
  assumes "rm_ok m" and "jm_has (rm_roles m) c" and "rr_code r = c"
  shows "rm_ok (m\<lparr>rm_roles := jm_set (rm_roles m) c r\<rparr>)"
  using assms by (simp add: rm_ok_def jm_dom_set jm_all_set insert_absorb domIff)

lemma rm_ok_delete:
  "rm_ok m \<Longrightarrow> rm_ok (m\<lparr>rm_roles := jm_del (rm_roles m) c, rm_rolePermissions := jm_del (rm_rolePermissions m) c\<rparr>)"
  by (simp add: rm_ok_def jm_dom_del)

lemma rm_getRole_Inr: "rm_getRole m c = Inr r \<longleftrightarrow> jm_get (rm_roles m) c = Some r"
  by (simp add: rm_getRole_def split: option.splits)

lemma rm_createRole_ok: "rm_ok m \<Longrightarrow> rm_ok (snd (rm_createRole role m))"
  by (simp add: rm_createRole_def rm_ok_register)

lemma rm_updateRole_ok:
  assumes "rm_ok m" shows "rm_ok (snd (rm_updateRole code data m))"
proof (cases "rm_getRole m code")
  case (Inr existing)
  let ?m1 = "m\<lparr>rm_roles := jm_set (rm_roles m) code (patch_role existing data code)\<rparr>"
  have m1: "rm_ok ?m1" "jm_has (rm_roles ?m1) code"
    using Inr assms by (simp_all add: rm_ok_update rm_getRole_Inr patch_role_def jsmap_simps)
  show ?thesis
    using assms m1 rm_ok_rolePermissions[OF m1]
    by (cases "rp_permissions data") (simp_all add: rm_updateRole_def Inr Let_def)
qed (simp add: rm_updateRole_def assms)

lemma rm_deleteRole_ok: "rm_ok m \<Longrightarrow> rm_ok (snd (rm_deleteRole code m))"
  by (simp add: rm_deleteRole_def rm_ok_delete split: sum.splits)

lemma rm_createPermission_ok: "rm_ok m \<Longrightarrow> rm_ok (snd (rm_createPermission perm m))"
  by (simp add: rm_createPermission_def rm_ok_permission)

lemma rm_ok_held:
  assumes "rm_ok m" and "jm_get (rm_rolePermissions m) c = Some ps"
  shows "distinct ps" and "jm_has (rm_roles m) c"
proof -
  show "distinct ps"
    using assms unfolding rm_ok_def jm_all_def by blast
  have "c \<in> dom (jm_get (rm_roles m))"
    using assms unfolding rm_ok_def by blast
  then show "jm_has (rm_roles m) c" by (simp add: domIff)
qed

lemma rm_rolePermissions_distinct:
  "rm_ok m \<Longrightarrow> distinct (or_else (jm_get (rm_rolePermissions m) c) [])"
  by (cases "jm_get (rm_rolePermissions m) c") (simp_all only: or_else_simps distinct.simps rm_ok_held(1))

lemma rm_assignPermissionToRole_ok:
  assumes "rm_ok m" shows "rm_ok (snd (rm_assignPermissionToRole rc pc m))"
proof (cases "rm_getRole m rc")
  case (Inr r)
  then have "jm_has (rm_roles m) rc" by (simp add: rm_getRole_Inr)
  then have "rm_ok (m\<lparr>rm_rolePermissions := jm_set (rm_rolePermissions m) rc
      (js_add pc (or_else (jm_get (rm_rolePermissions m) rc) []))\<rparr>)"
    by (rule rm_ok_rolePermissions[OF assms _ distinct_js_add[OF rm_rolePermissions_distinct[OF assms]]])
  then show ?thesis
    by (cases "rm_getPermission m pc") (simp_all add: rm_assignPermissionToRole_def Let_def Inr assms)
qed (simp add: rm_assignPermissionToRole_def assms)

lemma rm_removePermissionFromRole_ok:
  assumes "rm_ok m" shows "rm_ok (rm_removePermissionFromRole rc pc m)"
proof (cases "jm_get (rm_rolePermissions m) rc")
  case (Some ps)
  then show ?thesis
    using assms rm_ok_held[OF assms Some] rm_ok_rolePermissions[of m rc "js_del pc ps"]
    by (simp add: rm_removePermissionFromRole_def)
qed (simp add: rm_removePermissionFromRole_def assms)

lemma rm_assignRoleToUser_ok: "rm_ok m \<Longrightarrow> rm_ok (snd (rm_assignRoleToUser ps u rc actor m))"
  by (simp add: rm_assignRoleToUser_def split: sum.splits)

lemma rm_removeRoleFromUser_ok: "rm_ok m \<Longrightarrow> rm_ok (snd (rm_removeRoleFromUser ps u rc actor m))"
  by (simp add: rm_removeRoleFromUser_def split: sum.splits)

subsection \<open>What a seeding leaves\<close>

lemma fold_seed_permission_known:
  "(\<And>p. p \<in> set perms \<Longrightarrow> jm_has (rm_permissions m) (pr_code p)) \<Longrightarrow> fold seed_permission perms (m, n) = (m, n)"
  by (induction perms) (auto simp: seed_permission_def)

lemma fold_seed_role_known:
  "(\<And>r. r \<in> set roles \<Longrightarrow> jm_has (rm_roles m) (rr_code r)) \<Longrightarrow> fold seed_role roles (m, n) = (m, n)"
  by (induction roles) (auto simp: seed_role_def)

lemma seed_permission_step:
  "rm_ok m \<Longrightarrow> rm_ok (fst (seed_permission p (m, n)))"
  "rm_roles (fst (seed_permission p (m, n))) = rm_roles m"
  "jm_get (rm_permissions (fst (seed_permission p (m, n)))) c =
     (case jm_get (rm_permissions m) c of Some q \<Rightarrow> Some q | None \<Rightarrow> if pr_code p = c then Some p else None)"
  by (auto simp: seed_permission_def rm_ok_permission jm_get_set split: option.splits)

lemma seed_role_step:
  "rm_ok m \<Longrightarrow> rm_ok (fst (seed_role r (m, n)))"
  "rm_permissions (fst (seed_role r (m, n))) = rm_permissions m"
  "jm_get (rm_roles (fst (seed_role r (m, n)))) c =
     (case jm_get (rm_roles m) c of Some q \<Rightarrow> Some q | None \<Rightarrow> if rr_code r = c then Some r else None)"
  by (simp add: seed_role_def rm_ok_register)
    (auto simp: seed_role_def register_role_def jm_get_set split: option.splits)

lemma fold_seed_permission_facts:
  "(rm_ok m \<longrightarrow> rm_ok (fst (fold seed_permission perms (m, n)))) \<and>
   rm_roles (fst (fold seed_permission perms (m, n))) = rm_roles m \<and>
   jm_get (rm_permissions (fst (fold seed_permission perms (m, n)))) c =
     (case jm_get (rm_permissions m) c of Some q \<Rightarrow> Some q | None \<Rightarrow> List.find (\<lambda>p. pr_code p = c) perms)"
proof (induction perms arbitrary: m n)
  case (Cons p perms)
  obtain m' n' where step: "seed_permission p (m, n) = (m', n')" by fastforce
  show ?case
    using Cons.IH[of m' n'] seed_permission_step(1)[of m p n] seed_permission_step(2,3)[where m=m and p=p and n=n] step
    by (auto split: option.splits if_splits)
qed (auto split: option.splits)

lemma fold_seed_role_facts:
  "(rm_ok m \<longrightarrow> rm_ok (fst (fold seed_role roles (m, n)))) \<and>
   rm_permissions (fst (fold seed_role roles (m, n))) = rm_permissions m \<and>
   jm_get (rm_roles (fst (fold seed_role roles (m, n)))) c =
     (case jm_get (rm_roles m) c of Some q \<Rightarrow> Some q | None \<Rightarrow> List.find (\<lambda>r. rr_code r = c) roles)"
proof (induction roles arbitrary: m n)
  case (Cons r roles)
  obtain m' n' where step: "seed_role r (m, n) = (m', n')" by fastforce
  show ?case
    using Cons.IH[of m' n'] seed_role_step(1)[of m r n] seed_role_step(2,3)[where m=m and r=r and n=n] step
    by (auto split: option.splits if_splits)
qed (auto split: option.splits)

lemma find_has: "x \<in> set xs \<Longrightarrow> \<exists>y. List.find (\<lambda>z. k z = k x) xs = Some y"
  by (cases "List.find (\<lambda>z. k z = k x) xs") (auto simp: find_None_iff)

lemma rm_seed_unfold:
  "snd (rm_seed roles perms m) = fst (fold seed_role roles (fst (fold seed_permission perms (m, 0)), 0))"
  by (simp add: rm_seed_def case_prod_beta Let_def)

lemma rm_seed_facts:
  "rm_ok m \<longrightarrow> rm_ok (snd (rm_seed roles perms m))"
  "jm_get (rm_permissions (snd (rm_seed roles perms m))) c =
     (case jm_get (rm_permissions m) c of Some q \<Rightarrow> Some q | None \<Rightarrow> List.find (\<lambda>p. pr_code p = c) perms)"
  "jm_get (rm_roles (snd (rm_seed roles perms m))) c =
     (case jm_get (rm_roles m) c of Some q \<Rightarrow> Some q | None \<Rightarrow> List.find (\<lambda>r. rr_code r = c) roles)"
  using fold_seed_permission_facts[of m perms 0 c]
    fold_seed_role_facts[of "fst (fold seed_permission perms (m, 0))" roles 0 c]
  by (auto simp: rm_seed_unfold split: option.splits)

section \<open>Properties\<close>

inductive rm_step :: "'s permission_store \<Rightarrow> 's role_manager \<Rightarrow> 's role_manager \<Rightarrow> bool" for ps where
  rm_create: "rm_step ps m (snd (rm_createRole role m))"
| rm_update: "rm_step ps m (snd (rm_updateRole code data m))"
| rm_delete: "rm_step ps m (snd (rm_deleteRole code m))"
| rm_new_permission: "rm_step ps m (snd (rm_createPermission perm m))"
| rm_grant: "rm_step ps m (snd (rm_assignPermissionToRole rc pc m))"
| rm_revoke: "rm_step ps m (rm_removePermissionFromRole rc pc m)"
| rm_assign: "rm_step ps m (snd (rm_assignRoleToUser ps userId rc actor m))"
| rm_unassign: "rm_step ps m (snd (rm_removeRoleFromUser ps userId rc actor m))"
| rm_do_seed: "rm_step ps m (snd (rm_seed roles perms m))"

lemma rm_step_ok: "rm_step ps m m' \<Longrightarrow> rm_ok m \<Longrightarrow> rm_ok m'"
  by (induction rule: rm_step.induct)
    (simp_all add: rm_createRole_ok rm_updateRole_ok rm_deleteRole_ok rm_createPermission_ok
      rm_assignPermissionToRole_ok rm_removePermissionFromRole_ok rm_assignRoleToUser_ok
      rm_removeRoleFromUser_ok rm_seed_facts)

text \<open>C8. The catalogue stays consistent: whatever sequence of operations runs, every role is stored
  under its own code, a role has a permission set exactly as long as it exists, and those sets have no
  repetition.\<close>

theorem role_catalogue_stays_consistent:
  assumes "(rm_step ps)\<^sup>*\<^sup>* m m'" and "rm_ok m"
  shows "rm_ok m'"
  using assms by (induction rule: rtranclp_induct) (auto intro: rm_step_ok)

definition empty_manager :: "mem_perm_store role_manager" where
  "empty_manager = \<lparr>rm_roles = [], rm_permissions = [], rm_rolePermissions = [],
     rm_store = \<lparr>mps_userRoles = [], mps_userPermissions = []\<rparr>, rm_boundary = Some [],
     rm_guards = \<lparr>gc_roles = [], gc_permissions = []\<rparr>\<rparr>"

definition editor_role :: role_rec where
  "editor_role = \<lparr>rr_code = ''editor'', rr_name = ''Editor'', rr_description = None, rr_level = 5,
     rr_isSystem = False, rr_permissions = [''doc:*''], rr_inherits = None\<rparr>"

theorem role_catalogue_stays_consistent_witness:
  "rm_ok (snd (rm_deleteRole ''editor'' (snd (rm_createRole editor_role empty_manager))))"
proof (rule role_catalogue_stays_consistent[of memory_permission_store empty_manager])
  show "(rm_step memory_permission_store)\<^sup>*\<^sup>* empty_manager
      (snd (rm_deleteRole ''editor'' (snd (rm_createRole editor_role empty_manager))))"
    by (meson rtranclp.rtrancl_into_rtrancl rtranclp.rtrancl_refl rm_create rm_delete)
qed (simp add: rm_ok_def empty_manager_def)

text \<open>C9. Assigning a role, over any store that keeps its contract: it succeeds only for a role of the
  catalogue and, where the actor is known and a boundary is set, only for a role whose level is strictly
  below the actor's; it then adds exactly that role to exactly that user; a refusal changes nothing.\<close>

theorem role_assignment_is_guarded_and_exact:
  assumes "permission_store_spec ps" and "rm_assignRoleToUser ps userId roleCode actorRoles m = (r, m')"
  shows "case r of
      Inl e \<Rightarrow> m' = m
    | Inr _ \<Rightarrow> jm_has (rm_roles m) roleCode \<and>
        (\<forall>actor b. actorRoles = Some actor \<longrightarrow> rm_boundary m = Some b \<longrightarrow>
           pb_getLevel b roleCode < pb_getMaxLevel b actor) \<and>
        (\<forall>v. set (rm_getUserRoles ps m' v) =
           set (rm_getUserRoles ps m v) \<union> (if v = userId then {roleCode} else {}))"
  using assms(2)
  by (auto simp: rm_assignRoleToUser_def check_boundary_def pb_enforceAssignment_def pb_canAssignRole_def
      rm_getUserRoles_def rm_getRole_Inr permission_store_spec.roles_assignRoles[OF assms(1)]
      split: sum.splits option.splits if_splits)

theorem role_assignment_is_guarded_and_exact_witness:
  "case rm_assignRoleToUser memory_permission_store ''u1'' ''editor'' (Some [''viewer''])
      (snd (rm_createRole editor_role empty_manager)) of
     (r, m') \<Rightarrow> r = Inl (Forbidden (AssignmentForbidden ''editor'' 5 0)) \<and>
       m' = snd (rm_createRole editor_role empty_manager)"
proof -
  let ?m = "snd (rm_createRole editor_role empty_manager)"
  have r: "fst (rm_assignRoleToUser memory_permission_store ''u1'' ''editor'' (Some [''viewer'']) ?m) =
      Inl (Forbidden (AssignmentForbidden ''editor'' 5 0))"
    by (simp add: rm_createRole_def editor_role_def empty_manager_def register_role_def rm_assignRoleToUser_def
        rm_getRole_def check_boundary_def pb_enforceAssignment_def pb_canAssignRole_def pb_getLevel_def
        pb_getMaxLevel_def pb_define_def leveled_of_def invalidateHierarchyCache_def)
  obtain r' m' where a: "rm_assignRoleToUser memory_permission_store ''u1'' ''editor'' (Some [''viewer'']) ?m = (r', m')"
    by fastforce
  show ?thesis
    using r a role_assignment_is_guarded_and_exact[OF mem.permission_store_spec_axioms a] by simp
qed

text \<open>Seeding is idempotent: seeding the same roles and permissions again creates nothing and changes
  nothing, a role or permission that already existed is never overwritten, and after it every seeded code
  exists.\<close>

theorem seeding_is_idempotent:
  "rm_seed roles perms (snd (rm_seed roles perms m)) = ((0, 0), snd (rm_seed roles perms m)) \<and>
   jm_get (rm_roles (snd (rm_seed roles perms m))) c =
     (case jm_get (rm_roles m) c of Some r \<Rightarrow> Some r | None \<Rightarrow> List.find (\<lambda>r. rr_code r = c) roles)"
proof -
  let ?m = "snd (rm_seed roles perms m)"
  have p: "jm_has (rm_permissions ?m) (pr_code p)" if "p \<in> set perms" for p
    using that by (simp add: rm_seed_facts find_has split: option.splits)
  have r: "jm_has (rm_roles ?m) (rr_code r)" if "r \<in> set roles" for r
    using that by (simp add: rm_seed_facts find_has split: option.splits)
  have "fold seed_permission perms (?m, 0) = (?m, 0)" "fold seed_role roles (?m, 0) = (?m, 0)"
    by (auto intro!: fold_seed_permission_known fold_seed_role_known p r)
  then have "rm_seed roles perms ?m = ((0, 0), ?m)"
    by (simp add: rm_seed_def[of roles perms ?m])
  then show ?thesis by (simp add: rm_seed_facts)
qed

text \<open>A change of level does not reach the boundary: after \<open>updateRole\<close> or \<open>deleteRole\<close> the boundary
  decides every assignment exactly as before, whatever level the new definition carries.\<close>

theorem updated_level_not_enforced:
  "check_boundary (snd (rm_updateRole code data m)) actor rc = check_boundary m actor rc \<and>
   check_boundary (snd (rm_deleteRole code m)) actor rc = check_boundary m actor rc"
proof -
  have "rm_boundary (snd (rm_updateRole code data m)) = rm_boundary m"
    by (cases "rm_getRole m code"; cases "rp_permissions data")
      (simp_all add: rm_updateRole_def Let_def invalidateHierarchyCache_def)
  moreover have "rm_boundary (snd (rm_deleteRole code m)) = rm_boundary m"
    by (cases "rm_getRole m code") (simp_all add: rm_deleteRole_def invalidateHierarchyCache_def)
  ultimately show ?thesis by (simp add: check_boundary_def)
qed

end
