(* ===== verification/Auth_Jwt.thy ===== *)
theory Auth_Jwt
  imports Boot_Prelude
begin

text \<open>
  \<open>src/src/auth/services/jwt.service.ts\<close> and the guards \<open>jwt-auth.guard.ts\<close>, \<open>api-key.guard.ts\<close> and
  \<open>auth-strategy.guard.ts\<close>. The \<open>jsonwebtoken\<close> package is a parameter, a record of its \<open>sign\<close> and
  \<open>verify\<close>; what the code relies on of it is the predicate \<open>jwt_lib_ok\<close>. Times are in milliseconds and
  are arguments; a thrown error is \<open>Inl\<close>.
\<close>

section \<open>Tokens and the library\<close>

datatype claim = CStr string | CNum int | CStrs "string list"

type_synonym claims = "(string, claim) jsmap"

datatype expiry = ExpText string | ExpSeconds int

record sign_options =
  so_expiresIn :: "expiry option"
  so_algorithm :: "string option"

record jwt_lib =
  jl_sign :: "claims \<Rightarrow> string \<Rightarrow> sign_options \<Rightarrow> int \<Rightarrow> string"
  jl_verify :: "string \<Rightarrow> string \<Rightarrow> string list \<Rightarrow> int \<Rightarrow> claims option"
  jl_lifetime :: "expiry \<Rightarrow> int"

text \<open>The documented behaviour of the package: \<open>sign\<close> uses HS256 unless told otherwise; \<open>verify\<close>
  rejects a token signed with another secret or with an algorithm outside the list, and accepts one that
  has not expired, giving back the claims with \<open>iat\<close> and \<open>exp\<close> added.\<close>

definition jwt_lib_ok :: "jwt_lib \<Rightarrow> bool" where
  "jwt_lib_ok lib \<longleftrightarrow> (\<forall>p s opts t s' algs t'.
     (s' \<noteq> s \<or> or_else (so_algorithm opts) ''HS256'' \<notin> set algs \<longrightarrow>
        jl_verify lib (jl_sign lib p s opts t) s' algs t' = None) \<and>
     (or_else (so_algorithm opts) ''HS256'' \<in> set algs \<and> t \<le> t' \<and>
      (\<forall>e. so_expiresIn opts = Some e \<longrightarrow> t' < t + jl_lifetime lib e) \<and>
      jm_get p ''exp'' = None \<and> jm_get p ''nbf'' = None \<longrightarrow>
        (\<exists>c. jl_verify lib (jl_sign lib p s opts t) s algs t' = Some c \<and>
           (\<forall>k. k \<noteq> ''iat'' \<and> k \<noteq> ''exp'' \<longrightarrow> jm_get c k = jm_get p k))))"

lemma jwt_lib_rejects:
  "jwt_lib_ok lib \<Longrightarrow> s' \<noteq> s \<or> or_else (so_algorithm opts) ''HS256'' \<notin> set algs \<Longrightarrow>
     jl_verify lib (jl_sign lib p s opts t) s' algs t' = None"
  unfolding jwt_lib_ok_def by blast

lemma jwt_lib_accepts:
  assumes "jwt_lib_ok lib" and "or_else (so_algorithm opts) ''HS256'' \<in> set algs" and "t \<le> t'"
    and "\<And>e. so_expiresIn opts = Some e \<Longrightarrow> t' < t + jl_lifetime lib e"
    and "jm_get p ''exp'' = None" and "jm_get p ''nbf'' = None"
  obtains c where "jl_verify lib (jl_sign lib p s opts t) s algs t' = Some c"
    and "\<And>k. k \<noteq> ''iat'' \<Longrightarrow> k \<noteq> ''exp'' \<Longrightarrow> jm_get c k = jm_get p k"
  using assms unfolding jwt_lib_ok_def by metis

section \<open>BootJwtService\<close>

record jwt_options =
  jo_secret :: string
  jo_expiresIn :: "expiry option"
  jo_algorithm :: "string option"
  jo_refreshSecret :: "string option"
  jo_refreshExpiresIn :: "expiry option"
  jo_resetSecret :: "string option"
  jo_isRevoked :: "(claims \<Rightarrow> unit + bool) option"

record jwt_service =
  js_secret :: string
  js_signOpts :: sign_options
  js_algorithm :: string
  js_refreshSecret :: string
  js_refreshSignOpts :: sign_options
  js_resetSecret :: string

text \<open>\<open>if (x)\<close> on an expiry and on an algorithm: an empty text and the number 0 are falsy.\<close>

definition truthy_expiry :: "expiry option \<Rightarrow> expiry option" where
  "truthy_expiry e = (if e \<in> {Some (ExpText []), Some (ExpSeconds 0)} then None else e)"

definition truthy_text :: "string option \<Rightarrow> string option" where
  "truthy_text a = (if a = Some [] then None else a)"

definition jwt_new :: "jwt_options \<Rightarrow> jwt_service" where
  "jwt_new o1 = \<lparr>js_secret = jo_secret o1,
     js_signOpts = \<lparr>so_expiresIn = truthy_expiry (jo_expiresIn o1), so_algorithm = truthy_text (jo_algorithm o1)\<rparr>,
     js_algorithm = or_else (jo_algorithm o1) ''HS256'',
     js_refreshSecret = or_else (jo_refreshSecret o1) (jo_secret o1),
     js_refreshSignOpts = \<lparr>so_expiresIn = truthy_expiry (jo_refreshExpiresIn o1), so_algorithm = None\<rparr>,
     js_resetSecret = or_else (jo_resetSecret o1) (jo_secret o1)\<rparr>"

definition jwt_sign :: "jwt_lib \<Rightarrow> jwt_service \<Rightarrow> claims \<Rightarrow> int \<Rightarrow> string" where
  "jwt_sign lib js payload now = jl_sign lib payload (js_secret js) (js_signOpts js) now"

definition jwt_verify :: "jwt_lib \<Rightarrow> jwt_service \<Rightarrow> string \<Rightarrow> int \<Rightarrow> claims option" where
  "jwt_verify lib js token now = jl_verify lib token (js_secret js) [js_algorithm js] now"

definition jwt_signRefresh :: "jwt_lib \<Rightarrow> jwt_service \<Rightarrow> claims \<Rightarrow> int \<Rightarrow> string" where
  "jwt_signRefresh lib js payload now = jl_sign lib payload (js_refreshSecret js) (js_refreshSignOpts js) now"

definition jwt_verifyRefresh :: "jwt_lib \<Rightarrow> jwt_service \<Rightarrow> string \<Rightarrow> int \<Rightarrow> claims option" where
  "jwt_verifyRefresh lib js token now = jl_verify lib token (js_refreshSecret js) [js_algorithm js] now"

text \<open>\<open>const { iat, exp, nbf, jti, ...payload } = decoded\<close>\<close>

definition strip_claims :: "claims \<Rightarrow> claims" where
  "strip_claims c = fold (\<lambda>k c. jm_del c k) [''iat'', ''exp'', ''nbf'', ''jti''] c"

definition rotateRefreshToken :: "jwt_lib \<Rightarrow> jwt_service \<Rightarrow> string \<Rightarrow> int \<Rightarrow> (string \<times> string) option" where
  "rotateRefreshToken lib js oldToken now = (case jwt_verifyRefresh lib js oldToken now of
     None \<Rightarrow> None
   | Some decoded \<Rightarrow> let payload = strip_claims decoded
                     in Some (jwt_sign lib js payload now, jwt_signRefresh lib js payload now))"

definition signPasswordReset :: "jwt_lib \<Rightarrow> jwt_service \<Rightarrow> string \<Rightarrow> expiry option \<Rightarrow> int \<Rightarrow> string" where
  "signPasswordReset lib js userId expiresIn now =
     jl_sign lib [(''sub'', CStr userId), (''purpose'', CStr ''password-reset'')] (js_resetSecret js)
       \<lparr>so_expiresIn = Some (or_else expiresIn (ExpText ''15m'')), so_algorithm = None\<rparr> now"

definition verify_purpose :: "jwt_lib \<Rightarrow> jwt_service \<Rightarrow> string \<Rightarrow> string \<Rightarrow> string \<Rightarrow> int \<Rightarrow> (claim option \<times> string) option" where
  "verify_purpose lib js purpose key token now =
     (case jl_verify lib token (js_resetSecret js) [js_algorithm js] now of
        None \<Rightarrow> None
      | Some decoded \<Rightarrow>
          if jm_get decoded ''purpose'' \<noteq> Some (CStr purpose) then None
          else Some (jm_get decoded key, purpose))"

definition verifyPasswordReset :: "jwt_lib \<Rightarrow> jwt_service \<Rightarrow> string \<Rightarrow> int \<Rightarrow> (claim option \<times> string) option" where
  "verifyPasswordReset lib js = verify_purpose lib js ''password-reset'' ''sub''"

definition signEmailVerification :: "jwt_lib \<Rightarrow> jwt_service \<Rightarrow> string \<Rightarrow> expiry option \<Rightarrow> int \<Rightarrow> string" where
  "signEmailVerification lib js email expiresIn now =
     jl_sign lib [(''email'', CStr email), (''purpose'', CStr ''email-verification'')] (js_resetSecret js)
       \<lparr>so_expiresIn = Some (or_else expiresIn (ExpText ''24h'')), so_algorithm = None\<rparr> now"

definition verifyEmailVerification :: "jwt_lib \<Rightarrow> jwt_service \<Rightarrow> string \<Rightarrow> int \<Rightarrow> (claim option \<times> string) option" where
  "verifyEmailVerification lib js = verify_purpose lib js ''email-verification'' ''email''"

section \<open>The guards\<close>

record http_request =
  hr_headers :: "(string, string) jsmap"
  hr_user :: "claims option"

datatype auth_error = MissingAuthorization | TokenRevoked | InvalidToken | MissingApiKey string
  | InvalidApiKey | ValidatorThrew

definition bearer_token :: "http_request \<Rightarrow> string option" where
  "bearer_token request = (case jm_get (hr_headers request) ''authorization'' of
     None \<Rightarrow> None
   | Some h \<Rightarrow> if starts_with h ''Bearer '' then Some (drop 7 h) else None)"

definition jwt_canActivate :: "jwt_lib \<Rightarrow> jwt_options \<Rightarrow> bool \<Rightarrow> int \<Rightarrow> http_request
    \<Rightarrow> (auth_error + bool) \<times> http_request" where
  "jwt_canActivate lib o1 isPublic now request =
     (if isPublic then (Inr True, request)
      else case bearer_token request of
        None \<Rightarrow> (Inl MissingAuthorization, request)
      | Some token \<Rightarrow>
          (case jl_verify lib token (jo_secret o1) [or_else (jo_algorithm o1) ''HS256''] now of
             None \<Rightarrow> (Inl InvalidToken, request)
           | Some decoded \<Rightarrow>
               (case jo_isRevoked o1 of
                  None \<Rightarrow> (Inr True, request\<lparr>hr_user := Some decoded\<rparr>)
                | Some isRevoked \<Rightarrow> (case isRevoked decoded of
                    Inl _ \<Rightarrow> (Inl InvalidToken, request)
                  | Inr revoked \<Rightarrow>
                      if revoked then (Inl TokenRevoked, request)
                      else (Inr True, request\<lparr>hr_user := Some decoded\<rparr>)))))"

datatype api_verdict = Verdict bool | Detailed bool "string list option"

record api_key_options =
  ak_headerName :: "string option"
  ak_validate :: "string \<Rightarrow> unit + api_verdict"

definition api_canActivate :: "api_key_options \<Rightarrow> bool \<Rightarrow> http_request \<Rightarrow> (auth_error + bool) \<times> http_request" where
  "api_canActivate ak isPublic request =
     (if isPublic then (Inr True, request)
      else let headerName = or_else (ak_headerName ak) ''x-api-key'' in
        case truthy_text (jm_get (hr_headers request) headerName) of
          None \<Rightarrow> (Inl (MissingApiKey headerName), request)
        | Some apiKey \<Rightarrow> (case ak_validate ak apiKey of
            Inl _ \<Rightarrow> (Inl ValidatorThrew, request)
          | Inr (Verdict result) \<Rightarrow> (if \<not> result then Inl InvalidApiKey else Inr True, request)
          | Inr (Detailed valid permissions) \<Rightarrow>
              if \<not> valid then (Inl InvalidApiKey, request)
              else (Inr True, case permissions of
                 None \<Rightarrow> request
               | Some ps \<Rightarrow> request\<lparr>hr_user := Some (jm_set (or_else (hr_user request) []) ''permissions'' (CStrs ps))\<rparr>)))"

definition strategy_canActivate :: "jwt_lib \<Rightarrow> jwt_options \<Rightarrow> api_key_options option \<Rightarrow> bool \<Rightarrow> int
    \<Rightarrow> http_request \<Rightarrow> (auth_error + bool) \<times> http_request" where
  "strategy_canActivate lib o1 apiKey isPublic now request =
     (if isPublic then (Inr True, request)
      else case jwt_canActivate lib o1 isPublic now request of
        (Inr b, request') \<Rightarrow> (Inr b, request')
      | (Inl jwtError, request') \<Rightarrow> (case apiKey of
          None \<Rightarrow> (Inl jwtError, request')
        | Some ak \<Rightarrow> (case api_canActivate ak isPublic request' of
            (Inr b, request'') \<Rightarrow> (Inr b, request'')
          | (Inl _, request'') \<Rightarrow> (Inl jwtError, request''))))"

section \<open>Lemmas\<close>

lemma jm_get_strip [jsmap_simps]:
  "jm_get (strip_claims c) k = (if k \<in> {''iat'', ''exp'', ''nbf'', ''jti''} then None else jm_get c k)"
  by (simp add: strip_claims_def jm_get_del)

lemma api_canActivate_refused: "fst (api_canActivate ak p r) = Inl e \<Longrightarrow> snd (api_canActivate ak p r) = r"
  by (auto simp: api_canActivate_def Let_def split: if_splits option.splits sum.splits api_verdict.splits)

lemma jwt_canActivate_refused: "fst (jwt_canActivate lib o1 p now r) = Inl e \<Longrightarrow> snd (jwt_canActivate lib o1 p now r) = r"
  by (auto simp: jwt_canActivate_def split: if_splits option.splits sum.splits)

lemma js_fields [simp]:
  "js_secret (jwt_new o1) = jo_secret o1" "js_algorithm (jwt_new o1) = or_else (jo_algorithm o1) ''HS256''"
  "so_algorithm (js_signOpts (jwt_new o1)) = truthy_text (jo_algorithm o1)"
  "so_expiresIn (js_signOpts (jwt_new o1)) = truthy_expiry (jo_expiresIn o1)"
  "js_refreshSecret (jwt_new o1) = or_else (jo_refreshSecret o1) (jo_secret o1)"
  "so_algorithm (js_refreshSignOpts (jwt_new o1)) = None"
  "so_expiresIn (js_refreshSignOpts (jwt_new o1)) = truthy_expiry (jo_refreshExpiresIn o1)"
  "js_resetSecret (jwt_new o1) = or_else (jo_resetSecret o1) (jo_secret o1)"
  by (simp_all add: jwt_new_def)

section \<open>A reference library\<close>

text \<open>A library with the assumed behaviour, so that the assumptions are known to be satisfiable: a token
  prints the stamped claims, the secret and the algorithm in a prefix code, and \<open>verify\<close> reads it back.\<close>

definition enc_nat :: "nat \<Rightarrow> string" where "enc_nat n = replicate n CHR ''1'' @ ''0''"

definition dec_nat :: "string \<Rightarrow> nat \<times> string" where
  "dec_nat cs = (length (takeWhile (\<lambda>c. c = CHR ''1'') cs), tl (dropWhile (\<lambda>c. c = CHR ''1'') cs))"

definition enc_str :: "string \<Rightarrow> string" where "enc_str s = enc_nat (length s) @ s"

definition dec_str :: "string \<Rightarrow> string \<times> string" where
  "dec_str cs = (let (n, r) = dec_nat cs in (take n r, drop n r))"

fun dec_times :: "nat \<Rightarrow> (string \<Rightarrow> 'a \<times> string) \<Rightarrow> string \<Rightarrow> 'a list \<times> string" where
  "dec_times 0 d cs = ([], cs)"
| "dec_times (Suc n) d cs = (let (x, r) = d cs; (xs, r') = dec_times n d r in (x # xs, r'))"

definition enc_list :: "('a \<Rightarrow> string) \<Rightarrow> 'a list \<Rightarrow> string" where
  "enc_list e xs = enc_nat (length xs) @ concat (map e xs)"

definition dec_list :: "(string \<Rightarrow> 'a \<times> string) \<Rightarrow> string \<Rightarrow> 'a list \<times> string" where
  "dec_list d cs = (let (n, r) = dec_nat cs in dec_times n d r)"

fun enc_claim :: "claim \<Rightarrow> string" where
  "enc_claim (CStr s) = CHR ''s'' # enc_str s"
| "enc_claim (CStrs ss) = CHR ''l'' # enc_list enc_str ss"
| "enc_claim (CNum i) = (if i < 0 then CHR ''-'' # enc_nat (nat (- i)) else CHR ''+'' # enc_nat (nat i))"

definition dec_claim :: "string \<Rightarrow> claim \<times> string" where
  "dec_claim cs = (case cs of [] \<Rightarrow> (CNum 0, [])
   | c # r \<Rightarrow> if c = CHR ''s'' then (let (s, r') = dec_str r in (CStr s, r'))
       else if c = CHR ''l'' then (let (ss, r') = dec_list dec_str r in (CStrs ss, r'))
       else let (n, r') = dec_nat r in (CNum (if c = CHR ''-'' then - int n else int n), r'))"

definition enc_entry :: "string \<times> claim \<Rightarrow> string" where
  "enc_entry kv = enc_str (fst kv) @ enc_claim (snd kv)"

definition dec_entry :: "string \<Rightarrow> (string \<times> claim) \<times> string" where
  "dec_entry cs = (let (k, r) = dec_str cs; (v, r') = dec_claim r in ((k, v), r'))"

definition enc_token :: "claims \<Rightarrow> string \<Rightarrow> string \<Rightarrow> string" where
  "enc_token c s alg = enc_list enc_entry c @ enc_str s @ enc_str alg"

definition dec_token :: "string \<Rightarrow> claims \<times> string \<times> string" where
  "dec_token cs = (let (c, r) = dec_list dec_entry cs; (s, r') = dec_str r in (c, s, fst (dec_str r')))"

definition ref_lifetime :: "expiry \<Rightarrow> int" where
  "ref_lifetime e = (case e of ExpSeconds n \<Rightarrow> 1000 * n | ExpText s \<Rightarrow> if s = ''24h'' then 86400000 else 900000)"

definition ref_stamp :: "claims \<Rightarrow> sign_options \<Rightarrow> int \<Rightarrow> claims" where
  "ref_stamp p opts t = (case so_expiresIn opts of
     None \<Rightarrow> jm_set p ''iat'' (CNum t)
   | Some e \<Rightarrow> jm_set (jm_set p ''iat'' (CNum t)) ''exp'' (CNum (t + ref_lifetime e)))"

definition ref_live :: "claims \<Rightarrow> int \<Rightarrow> bool" where
  "ref_live c t = (case jm_get c ''exp'' of Some (CNum e) \<Rightarrow> t < e | Some _ \<Rightarrow> False | None \<Rightarrow> True)"

definition ref_jwt_lib :: jwt_lib where
  "ref_jwt_lib = \<lparr>jl_sign = (\<lambda>p s opts t. enc_token (ref_stamp p opts t) s (or_else (so_algorithm opts) ''HS256'')),
     jl_verify = (\<lambda>token s algs t. case dec_token token of
        (c, s', alg) \<Rightarrow> if s' = s \<and> alg \<in> set algs \<and> ref_live c t then Some c else None),
     jl_lifetime = ref_lifetime\<rparr>"

lemma dec_nat_enc [simp]: "dec_nat (enc_nat n @ r) = (n, r)"
  by (simp add: dec_nat_def enc_nat_def takeWhile_append dropWhile_append)

lemma dec_str_enc [simp]: "dec_str (enc_str s @ r) = (s, r)"
  by (simp add: dec_str_def enc_str_def)

lemma dec_times_enc: "(\<And>x r. d (e x @ r) = (x, r)) \<Longrightarrow> dec_times (length xs) d (concat (map e xs) @ r) = (xs, r)"
  by (induction xs) auto

lemma dec_list_enc: "(\<And>x r. d (e x @ r) = (x, r)) \<Longrightarrow> dec_list d (enc_list e xs @ r) = (xs, r)"
  by (simp add: dec_list_def enc_list_def dec_times_enc)

lemma dec_claim_enc [simp]: "dec_claim (enc_claim v @ r) = (v, r)"
  by (cases v) (simp_all add: dec_claim_def dec_list_enc)

lemma dec_entry_enc: "dec_entry (enc_entry kv @ r) = (kv, r)"
  by (simp add: dec_entry_def enc_entry_def)

lemma dec_token_enc [simp]: "dec_token (enc_token c s alg) = (c, s, alg)"
  using dec_str_enc[of alg "[]"] by (simp add: dec_token_def enc_token_def dec_list_enc[OF dec_entry_enc])

lemma ref_jwt_lib_ok: "jwt_lib_ok ref_jwt_lib"
  unfolding jwt_lib_ok_def
  by (auto simp: ref_jwt_lib_def ref_stamp_def ref_live_def jm_get_set split: option.splits)

section \<open>Properties\<close>


definition example_jwt :: jwt_options where
  "example_jwt = \<lparr>jo_secret = ''s'', jo_expiresIn = Some (ExpSeconds 60), jo_algorithm = None,
     jo_refreshSecret = Some ''r'', jo_refreshExpiresIn = None, jo_resetSecret = None, jo_isRevoked = None\<rparr>"


text \<open>With any other algorithm configured the service cannot verify what it signs: refresh, reset and
  e-mail tokens are signed without the algorithm option, so with HS256, and verified against the
  configured algorithm only; every such token is rejected.\<close>

theorem other_algorithm_breaks_refresh_and_reset:
  assumes "jwt_lib_ok lib" and "jo_algorithm o1 = Some alg" and "alg \<noteq> ''HS256''"
  shows "jwt_verifyRefresh lib (jwt_new o1) (jwt_signRefresh lib (jwt_new o1) p now) now' = None \<and>
    verifyPasswordReset lib (jwt_new o1) (signPasswordReset lib (jwt_new o1) u e now) now' = None \<and>
    verifyEmailVerification lib (jwt_new o1) (signEmailVerification lib (jwt_new o1) u e now) now' = None"
  using assms(2,3)
  by (simp add: jwt_verifyRefresh_def jwt_signRefresh_def verifyPasswordReset_def signPasswordReset_def
      verifyEmailVerification_def signEmailVerification_def verify_purpose_def jwt_lib_rejects[OF assms(1)])

theorem other_algorithm_breaks_refresh_and_reset_witness:
  "jwt_verifyRefresh ref_jwt_lib (jwt_new (example_jwt\<lparr>jo_algorithm := Some ''HS512''\<rparr>))
     (jwt_signRefresh ref_jwt_lib (jwt_new (example_jwt\<lparr>jo_algorithm := Some ''HS512''\<rparr>)) [] 0) 0 = None"
  using other_algorithm_breaks_refresh_and_reset[OF ref_jwt_lib_ok, of "example_jwt\<lparr>jo_algorithm := Some ''HS512''\<rparr>" "''HS512''"]
  by simp

text \<open>Without a separate reset secret a password-reset token is an access token: the guard, which
  never looks at \<open>purpose\<close>, accepts it in the Authorization header for as long as it lives.\<close>

theorem reset_token_passes_jwt_guard:
  assumes "jwt_lib_ok lib" and "jo_resetSecret o1 = None" and "jo_algorithm o1 = None" and "jo_isRevoked o1 = None"
    and "now \<le> now'" and "now' < now + jl_lifetime lib (ExpText ''15m'')"
    and "jm_get (hr_headers request) ''authorization'' =
           Some (''Bearer '' @ signPasswordReset lib (jwt_new o1) userId None now)"
  shows "fst (jwt_canActivate lib o1 False now' request) = Inr True"
proof -
  obtain c where "jl_verify lib (signPasswordReset lib (jwt_new o1) userId None now) (jo_secret o1) [''HS256''] now' = Some c"
    using jwt_lib_accepts[OF assms(1), of "\<lparr>so_expiresIn = Some (ExpText ''15m''), so_algorithm = None\<rparr>" "[''HS256'']"
        now now' "[(''sub'', CStr userId), (''purpose'', CStr ''password-reset'')]" "jo_secret o1"] assms(2,5,6)
    by (auto simp: signPasswordReset_def)
  then show ?thesis
    using assms(3,4,7) by (simp add: jwt_canActivate_def bearer_token_def)
qed

theorem reset_token_passes_jwt_guard_witness:
  "fst (jwt_canActivate ref_jwt_lib example_jwt False 10
     \<lparr>hr_headers = [(''authorization'', ''Bearer '' @ signPasswordReset ref_jwt_lib (jwt_new example_jwt) ''u'' None 0)],
      hr_user = None\<rparr>) = Inr True"
  by (rule reset_token_passes_jwt_guard[OF ref_jwt_lib_ok, where now = 0])
    (simp_all add: example_jwt_def ref_jwt_lib_def ref_lifetime_def)

text \<open>The composite guard accepts exactly what one of the two guards accepts, prefers the token, and
  reports the token's error whenever it refuses; a refusal leaves the request as it was.\<close>

theorem strategy_guard_is_jwt_or_api_key:
  "fst (strategy_canActivate lib o1 apiKey False now request) =
     (case fst (jwt_canActivate lib o1 False now request) of
        Inr b \<Rightarrow> Inr b
      | Inl jwtError \<Rightarrow> (case apiKey of
          None \<Rightarrow> Inl jwtError
        | Some ak \<Rightarrow> (case fst (api_canActivate ak False request) of Inr b \<Rightarrow> Inr b | Inl _ \<Rightarrow> Inl jwtError))) \<and>
   (case fst (strategy_canActivate lib o1 apiKey False now request) of
      Inl _ \<Rightarrow> snd (strategy_canActivate lib o1 apiKey False now request) = request
    | Inr _ \<Rightarrow> True)"
proof (cases "jwt_canActivate lib o1 False now request")
  case (Pair r request')
  show ?thesis
  proof (cases r)
    case (Inl e)
    then have "request' = request" using jwt_canActivate_refused[of lib o1 False now request e] Pair by simp
    then show ?thesis
      using Pair Inl api_canActivate_refused[of "the apiKey" False request]
      by (cases "api_canActivate (the apiKey) False request")
        (auto simp: strategy_canActivate_def split: option.splits sum.splits)
  qed (simp add: strategy_canActivate_def Pair)
qed

end
