(* ===== verification/Auth_Login.thy ===== *)
theory Auth_Login
  imports Boot_Prelude
begin

text \<open>
  \<open>src/src/auth/login-tracker/login-tracker.ts\<close> and \<open>src/src/auth/token/memory-token.store.ts\<close>: the
  brute-force lockout and the refresh-token families. Both keep a \<open>Map\<close> and read the clock; reads that
  delete stale entries return the new state as well.
\<close>

section \<open>LoginTracker\<close>

record attempt =
  at_count :: int
  at_lockedUntil :: "int option"
  at_lastAttempt :: int

record login_tracker =
  lt_attempts :: "(string, attempt) jsmap"
  lt_failureCount :: nat
  lt_optMaxAttempts :: "int option"
  lt_optLockout :: "int option"

definition lt_maxAttempts :: "login_tracker \<Rightarrow> int" where
  "lt_maxAttempts l = or_else (lt_optMaxAttempts l) 5"

definition lt_lockoutDuration :: "login_tracker \<Rightarrow> int" where
  "lt_lockoutDuration l = or_else (lt_optLockout l) (15 * 60 * 1000)"

definition lt_cleanup :: "int \<Rightarrow> login_tracker \<Rightarrow> login_tracker" where
  "lt_cleanup now l = l\<lparr>lt_attempts :=
     filter (\<lambda>(key, entry). \<not> now - at_lastAttempt entry > lt_lockoutDuration l * 2) (lt_attempts l)\<rparr>"

definition lt_isLocked :: "int \<Rightarrow> string \<Rightarrow> login_tracker \<Rightarrow> bool \<times> login_tracker" where
  "lt_isLocked now identifier l = (case jm_get (lt_attempts l) identifier of
     None \<Rightarrow> (False, l)
   | Some entry \<Rightarrow> (case at_lockedUntil entry of
       None \<Rightarrow> (False, l)
     | Some until \<Rightarrow> if until > now then (True, l)
         else (False, l\<lparr>lt_attempts := jm_del (lt_attempts l) identifier\<rparr>)))"

text \<open>The counter of all failures, which sweeps the stale entries at every hundredth.\<close>

definition lt_counted :: "int \<Rightarrow> login_tracker \<Rightarrow> login_tracker" where
  "lt_counted now l = (let l1 = l\<lparr>lt_failureCount := Suc (lt_failureCount l)\<rparr>
     in if lt_failureCount l1 mod 100 = 0 then lt_cleanup now l1 else l1)"

definition lt_recordFailure :: "int \<Rightarrow> string \<Rightarrow> login_tracker \<Rightarrow> bool \<times> login_tracker" where
  "lt_recordFailure now identifier l0 =
     (let l = lt_counted now l0;
          entry0 = or_else (jm_get (lt_attempts l) identifier)
            \<lparr>at_count = 0, at_lockedUntil = None, at_lastAttempt = now\<rparr>;
          entry = entry0\<lparr>at_count := at_count entry0 + 1, at_lastAttempt := now\<rparr>
      in if at_count entry \<ge> lt_maxAttempts l
         then (True, l\<lparr>lt_attempts := jm_set (lt_attempts l) identifier
                (entry\<lparr>at_lockedUntil := Some (now + lt_lockoutDuration l)\<rparr>)\<rparr>)
         else (False, l\<lparr>lt_attempts := jm_set (lt_attempts l) identifier entry\<rparr>))"

definition lt_recordSuccess :: "string \<Rightarrow> login_tracker \<Rightarrow> login_tracker" where
  "lt_recordSuccess identifier l = l\<lparr>lt_attempts := jm_del (lt_attempts l) identifier\<rparr>"

definition lt_getRemainingAttempts :: "string \<Rightarrow> login_tracker \<Rightarrow> int" where
  "lt_getRemainingAttempts identifier l = (case jm_get (lt_attempts l) identifier of
     None \<Rightarrow> lt_maxAttempts l
   | Some entry \<Rightarrow> max 0 (lt_maxAttempts l - at_count entry))"

definition lt_unlock :: "string \<Rightarrow> login_tracker \<Rightarrow> login_tracker" where
  "lt_unlock identifier l = l\<lparr>lt_attempts := jm_del (lt_attempts l) identifier\<rparr>"

text \<open>The calls other code makes between \<open>t0\<close> and \<open>h\<close> while one account is locked: anything except a
  recorded success or a manual unlock of that account.\<close>

inductive lt_step :: "string \<Rightarrow> int \<Rightarrow> int \<Rightarrow> login_tracker \<Rightarrow> login_tracker \<Rightarrow> bool" for who t0 h where
  lt_do_isLocked: "t0 \<le> t \<Longrightarrow> t \<le> h \<Longrightarrow> lt_step who t0 h l (snd (lt_isLocked t i l))"
| lt_do_failure: "t0 \<le> t \<Longrightarrow> t \<le> h \<Longrightarrow> lt_step who t0 h l (snd (lt_recordFailure t i l))"
| lt_do_success: "i \<noteq> who \<Longrightarrow> lt_step who t0 h l (lt_recordSuccess i l)"
| lt_do_unlock: "i \<noteq> who \<Longrightarrow> lt_step who t0 h l (lt_unlock i l)"

text \<open>While an account is locked: its entry carries a lock beyond the horizon, has been touched at or
  after \<open>t0\<close>, and has a count at or above the limit.\<close>

definition locked_past :: "string \<Rightarrow> int \<Rightarrow> int \<Rightarrow> login_tracker \<Rightarrow> bool" where
  "locked_past who t0 h l \<longleftrightarrow> jm_wf (lt_attempts l) \<and> h < t0 + lt_lockoutDuration l \<and> 0 \<le> lt_lockoutDuration l \<and>
     (\<exists>e u. jm_get (lt_attempts l) who = Some e \<and> at_lockedUntil e = Some u \<and> h < u \<and>
        t0 \<le> at_lastAttempt e \<and> lt_maxAttempts l \<le> at_count e)"

lemma lt_options_simps [simp]:
  "lt_maxAttempts (l\<lparr>lt_attempts := a\<rparr>) = lt_maxAttempts l"
  "lt_lockoutDuration (l\<lparr>lt_attempts := a\<rparr>) = lt_lockoutDuration l"
  "lt_maxAttempts (l\<lparr>lt_failureCount := n\<rparr>) = lt_maxAttempts l"
  "lt_lockoutDuration (l\<lparr>lt_failureCount := n\<rparr>) = lt_lockoutDuration l"
  by (simp_all add: lt_maxAttempts_def lt_lockoutDuration_def)

lemma lt_counted_simps [simp]:
  "lt_maxAttempts (lt_counted t l) = lt_maxAttempts l"
  "lt_lockoutDuration (lt_counted t l) = lt_lockoutDuration l"
  "jm_wf (lt_attempts l) \<Longrightarrow> jm_wf (lt_attempts (lt_counted t l))"
  by (simp_all add: lt_counted_def lt_cleanup_def Let_def)

lemma lt_counted_get:
  assumes "jm_wf (lt_attempts l)" and "jm_get (lt_attempts l) i = Some e"
    and "t - at_lastAttempt e \<le> lt_lockoutDuration l * 2"
  shows "jm_get (lt_attempts (lt_counted t l)) i = Some e"
  using assms by (simp add: lt_counted_def lt_cleanup_def Let_def jm_get_filter)

lemma locked_past_counted:
  assumes "locked_past who t0 h l" and "t \<le> h"
  shows "locked_past who t0 h (lt_counted t l)"
proof -
  obtain e where "jm_get (lt_attempts l) who = Some e" "t0 \<le> at_lastAttempt e"
    using assms(1) by (auto simp: locked_past_def)
  then show ?thesis
    using assms lt_counted_get[of l who e t] by (auto simp: locked_past_def)
qed

lemma locked_past_set_other:
  "locked_past who t0 h l \<Longrightarrow> i \<noteq> who \<Longrightarrow> locked_past who t0 h (l\<lparr>lt_attempts := jm_set (lt_attempts l) i e\<rparr>)"
  by (auto simp: locked_past_def jm_get_set)

lemma locked_past_del_other:
  "locked_past who t0 h l \<Longrightarrow> i \<noteq> who \<Longrightarrow> locked_past who t0 h (l\<lparr>lt_attempts := jm_del (lt_attempts l) i\<rparr>)"
  by (auto simp: locked_past_def jm_get_del)

lemma locked_past_failure:
  assumes "locked_past who t0 h l" and "t0 \<le> t" and "t \<le> h"
  shows "locked_past who t0 h (snd (lt_recordFailure t i l))"
proof -
  note c = locked_past_counted[OF assms(1,3)]
  show ?thesis
  proof (cases "i = who")
    case True
    obtain e where e: "jm_get (lt_attempts (lt_counted t l)) who = Some e"
      and "lt_maxAttempts l \<le> at_count e" using c by (auto simp: locked_past_def)
    then show ?thesis
      using c True assms(2) by (auto simp: lt_recordFailure_def Let_def locked_past_def jm_get_set)
  next
    case False
    then show ?thesis
      using locked_past_set_other[OF c False] by (simp add: lt_recordFailure_def Let_def)
  qed
qed

lemma locked_past_isLocked:
  assumes "locked_past who t0 h l" and "t \<le> h"
  shows "locked_past who t0 h (snd (lt_isLocked t i l))" and "fst (lt_isLocked t who l)"
proof -
  obtain e u where e: "jm_get (lt_attempts l) who = Some e" "at_lockedUntil e = Some u" "h < u"
    using assms(1) by (auto simp: locked_past_def)
  then show "fst (lt_isLocked t who l)"
    using assms(2) by (simp add: lt_isLocked_def)
  show "locked_past who t0 h (snd (lt_isLocked t i l))"
    using assms e locked_past_del_other[OF assms(1)]
    by (cases "i = who") (auto simp: lt_isLocked_def split: option.splits)
qed

lemma locked_past_step: "lt_step who t0 h l l' \<Longrightarrow> locked_past who t0 h l \<Longrightarrow> locked_past who t0 h l'"
  by (induction rule: lt_step.induct)
    (simp_all add: locked_past_failure locked_past_isLocked lt_recordSuccess_def lt_unlock_def locked_past_del_other)

lemma lt_recordFailure_True:
  assumes "jm_wf (lt_attempts l)" and "0 \<le> lt_lockoutDuration l" and "fst (lt_recordFailure t0 who l)"
    and "h < t0 + lt_lockoutDuration l"
  shows "locked_past who t0 h (snd (lt_recordFailure t0 who l))"
  using assms by (auto simp: lt_recordFailure_def Let_def locked_past_def jm_get_set split: if_splits)

section \<open>MemoryTokenStore\<close>

record stored_token =
  tk_familyId :: string
  tk_userId :: string
  tk_used :: bool
  tk_expiresAt :: int

record token_store =
  tks_tokens :: "(string, stored_token) jsmap"
  tks_revokedFamilies :: "string list"

definition tks_storeToken :: "string \<Rightarrow> string \<Rightarrow> string \<Rightarrow> int \<Rightarrow> token_store \<Rightarrow> token_store" where
  "tks_storeToken tokenId familyId userId expiresAt s = s\<lparr>tks_tokens := jm_set (tks_tokens s) tokenId
     \<lparr>tk_familyId = familyId, tk_userId = userId, tk_used = False, tk_expiresAt = expiresAt\<rparr>\<rparr>"

definition tks_getToken :: "int \<Rightarrow> string \<Rightarrow> token_store \<Rightarrow> (string \<times> string \<times> bool) option \<times> token_store" where
  "tks_getToken now tokenId s = (case jm_get (tks_tokens s) tokenId of
     None \<Rightarrow> (None, s)
   | Some t \<Rightarrow>
       if tk_expiresAt t < now then (None, s\<lparr>tks_tokens := jm_del (tks_tokens s) tokenId\<rparr>)
       else (Some (tk_familyId t, tk_userId t, tk_used t), s))"

definition tks_markUsed :: "string \<Rightarrow> token_store \<Rightarrow> token_store" where
  "tks_markUsed tokenId s = (case jm_get (tks_tokens s) tokenId of
     None \<Rightarrow> s
   | Some t \<Rightarrow> s\<lparr>tks_tokens := jm_set (tks_tokens s) tokenId (t\<lparr>tk_used := True\<rparr>)\<rparr>)"

definition tks_revokeFamily :: "string \<Rightarrow> token_store \<Rightarrow> token_store" where
  "tks_revokeFamily familyId s = s\<lparr>tks_revokedFamilies := js_add familyId (tks_revokedFamilies s),
     tks_tokens := filter (\<lambda>(i, t). \<not> tk_familyId t = familyId) (tks_tokens s)\<rparr>"

definition tks_isFamilyRevoked :: "string \<Rightarrow> token_store \<Rightarrow> bool" where
  "tks_isFamilyRevoked familyId s \<longleftrightarrow> familyId \<in> set (tks_revokedFamilies s)"

definition tks_revokeAllForUser :: "string \<Rightarrow> token_store \<Rightarrow> token_store" where
  "tks_revokeAllForUser userId s = s\<lparr>
     tks_revokedFamilies := js_add_all
       (map (\<lambda>(i, t). tk_familyId t) (filter (\<lambda>(i, t). tk_userId t = userId) (tks_tokens s))) (tks_revokedFamilies s),
     tks_tokens := filter (\<lambda>(i, t). \<not> tk_userId t = userId) (tks_tokens s)\<rparr>"

text \<open>Everything else a program does with the store, apart from storing a token into family \<open>f\<close>.\<close>

inductive tks_step :: "string \<Rightarrow> token_store \<Rightarrow> token_store \<Rightarrow> bool" for f where
  tks_do_store: "g \<noteq> f \<Longrightarrow> tks_step f s (tks_storeToken i g u e s)"
| tks_do_get: "tks_step f s (snd (tks_getToken now i s))"
| tks_do_mark: "tks_step f s (tks_markUsed i s)"
| tks_do_revoke: "tks_step f s (tks_revokeFamily g s)"
| tks_do_revoke_user: "tks_step f s (tks_revokeAllForUser u s)"

definition family_dead :: "string \<Rightarrow> token_store \<Rightarrow> bool" where
  "family_dead f s \<longleftrightarrow> jm_wf (tks_tokens s) \<and> jm_all (\<lambda>i t. tk_familyId t \<noteq> f) (tks_tokens s) \<and> tks_isFamilyRevoked f s"

lemma family_dead_token: "family_dead f s \<Longrightarrow> jm_get (tks_tokens s) i = Some t \<Longrightarrow> tk_familyId t \<noteq> f"
  unfolding family_dead_def jm_all_def by blast

lemma family_dead_store: "g \<noteq> f \<Longrightarrow> family_dead f s \<Longrightarrow> family_dead f (tks_storeToken i g u e s)"
  by (simp add: family_dead_def tks_storeToken_def tks_isFamilyRevoked_def jm_all_set)

lemma family_dead_revoke:
  "family_dead f s \<Longrightarrow> family_dead f (tks_revokeFamily g s)"
  "family_dead f s \<Longrightarrow> family_dead f (tks_revokeAllForUser u s)"
  by (simp_all add: family_dead_def tks_revokeFamily_def tks_revokeAllForUser_def tks_isFamilyRevoked_def)

lemma family_dead_getToken: "family_dead f s \<Longrightarrow> family_dead f (snd (tks_getToken now i s))"
  by (simp add: family_dead_def tks_getToken_def tks_isFamilyRevoked_def split: option.split)

lemma family_dead_markUsed:
  assumes "family_dead f s" shows "family_dead f (tks_markUsed i s)"
proof (cases "jm_get (tks_tokens s) i")
  case (Some t)
  then show ?thesis
    using assms family_dead_token[OF assms Some]
    by (simp add: family_dead_def tks_markUsed_def tks_isFamilyRevoked_def jm_all_set)
next
  case None
  then show ?thesis using assms by (simp only: tks_markUsed_def option.case)
qed

lemma family_dead_step: "tks_step f s s' \<Longrightarrow> family_dead f s \<Longrightarrow> family_dead f s'"
  by (induction rule: tks_step.induct)
    (blast intro: family_dead_store family_dead_revoke family_dead_getToken family_dead_markUsed)+

lemma family_dead_revoked: "jm_wf (tks_tokens s) \<Longrightarrow> family_dead f (tks_revokeFamily f s)"
  by (simp add: family_dead_def tks_revokeFamily_def tks_isFamilyRevoked_def jm_all_filtered)

lemma family_dead_get:
  assumes "family_dead f s" shows "fst (tks_getToken now i s) \<noteq> Some (f, u, b)"
proof (cases "jm_get (tks_tokens s) i")
  case (Some t)
  then show ?thesis using family_dead_token[OF assms Some] by (simp add: tks_getToken_def)
qed (simp add: tks_getToken_def)

section \<open>Properties\<close>


definition strict_tracker :: login_tracker where
  "strict_tracker = \<lparr>lt_attempts = [], lt_failureCount = 0, lt_optMaxAttempts = Some 1, lt_optLockout = Some 100\<rparr>"




end
