(* ===== verification/Auth_Session.thy ===== *)
theory Auth_Session
  imports Boot_Prelude
begin

text \<open>
  \<open>src/src/auth/session/\<close>: the \<open>SessionStore\<close> interface with its contract, the in-memory store
  (\<open>memory-session.store.ts\<close>) that satisfies it, and \<open>session.guard.ts\<close> over any store. The HMAC of
  the cookie signature, from the runtime's crypto module, is a parameter. Cookies are ASCII, so the byte
  and character lengths of a signature agree.
\<close>

section \<open>The interface\<close>

record ('s, 'd) session_store =
  ss_get :: "'s \<Rightarrow> int \<Rightarrow> string \<Rightarrow> 'd option \<times> 's"
  ss_set :: "'s \<Rightarrow> int \<Rightarrow> string \<Rightarrow> 'd \<Rightarrow> int option \<Rightarrow> 's"
  ss_destroy :: "'s \<Rightarrow> string \<Rightarrow> 's"
  ss_touch :: "'s \<Rightarrow> int \<Rightarrow> string \<Rightarrow> int option \<Rightarrow> 's"

definition default_maxAge :: int where "default_maxAge = 86400000"

text \<open>The contract is stated on \<open>live s t i\<close>, the session that is visible under \<open>i\<close> at time \<open>t\<close>. Reading
  changes no session that is visible from then on; \<open>touch\<close> is only promised for a visible session.\<close>

locale session_store_spec =
  fixes ss :: "('s, 'd) session_store" and live :: "'s \<Rightarrow> int \<Rightarrow> string \<Rightarrow> 'd option"
  assumes get_live: "fst (ss_get ss s now i) = live s now i"
    and get_frame: "now \<le> t \<Longrightarrow> live (snd (ss_get ss s now i)) t j = live s t j"
    and set_live: "now \<le> t \<Longrightarrow> live (ss_set ss s now i d age) t j =
      (if j = i then (if t \<le> now + or_else age default_maxAge then Some d else None) else live s t j)"
    and destroy_live: "live (ss_destroy ss s i) t j = (if j = i then None else live s t j)"
    and touch_live: "now \<le> t \<Longrightarrow> live s now i = Some d \<Longrightarrow> live (ss_touch ss s now i age) t j =
      (if j = i then (if t \<le> now + or_else age default_maxAge then Some d else None) else live s t j)"
begin

lemma set_then_get:
  "now \<le> t \<Longrightarrow> t \<le> now + or_else age default_maxAge \<Longrightarrow> fst (ss_get ss (ss_set ss s now i d age) t i) = Some d"
  by (simp add: get_live set_live)

lemma destroyed_not_found: "fst (ss_get ss (ss_destroy ss s i) t i) = None"
  by (simp add: get_live destroy_live)

lemma touch_extends:
  assumes "live s now i = Some d" and "now \<le> t" and "t \<le> now + or_else age default_maxAge"
  shows "fst (ss_get ss (ss_touch ss (snd (ss_get ss s now i)) now i age) t i) = Some d"
  using assms touch_live[OF assms(2), of "snd (ss_get ss s now i)" i d age i]
  by (simp add: get_live get_frame)

end

section \<open>MemorySessionStore\<close>

record 'd mem_session =
  se_data :: 'd
  se_expiresAt :: int

type_synonym 'd mem_sessions = "(string, 'd mem_session) jsmap"

definition mss_get :: "'d mem_sessions \<Rightarrow> int \<Rightarrow> string \<Rightarrow> 'd option \<times> 'd mem_sessions" where
  "mss_get s now sessionId = (case jm_get s sessionId of
     None \<Rightarrow> (None, s)
   | Some entry \<Rightarrow> if now > se_expiresAt entry then (None, jm_del s sessionId) else (Some (se_data entry), s))"

definition mss_set :: "'d mem_sessions \<Rightarrow> int \<Rightarrow> string \<Rightarrow> 'd \<Rightarrow> int option \<Rightarrow> 'd mem_sessions" where
  "mss_set s now sessionId data maxAge =
     (let ttl = or_else maxAge default_maxAge
      in jm_set s sessionId \<lparr>se_data = data, se_expiresAt = now + ttl\<rparr>)"

definition mss_destroy :: "'d mem_sessions \<Rightarrow> string \<Rightarrow> 'd mem_sessions" where
  "mss_destroy s sessionId = jm_del s sessionId"

definition mss_touch :: "'d mem_sessions \<Rightarrow> int \<Rightarrow> string \<Rightarrow> int option \<Rightarrow> 'd mem_sessions" where
  "mss_touch s now sessionId maxAge = (case jm_get s sessionId of
     None \<Rightarrow> s
   | Some entry \<Rightarrow> jm_set s sessionId (entry\<lparr>se_expiresAt := now + or_else maxAge default_maxAge\<rparr>))"

definition memory_session_store :: "('d mem_sessions, 'd) session_store" where
  "memory_session_store = \<lparr>ss_get = mss_get, ss_set = mss_set, ss_destroy = mss_destroy, ss_touch = mss_touch\<rparr>"

definition mss_live :: "'d mem_sessions \<Rightarrow> int \<Rightarrow> string \<Rightarrow> 'd option" where
  "mss_live s t i = (case jm_get s i of
     None \<Rightarrow> None | Some e \<Rightarrow> if t > se_expiresAt e then None else Some (se_data e))"

lemmas mss_defs = mss_get_def mss_set_def mss_destroy_def mss_touch_def mss_live_def

interpretation mss: session_store_spec memory_session_store mss_live
  by unfold_locales
    (auto simp: memory_session_store_def mss_defs Let_def jm_get_set jm_get_del split: option.splits if_splits)

section \<open>SessionGuard\<close>

record ('s, 'd) session_options =
  so_store :: "('s, 'd) session_store option"
  so_secret :: string
  so_cookieName :: "string option"
  so_maxAge :: "int option"

record 'd session_request =
  sr_cookies :: "(string, string) jsmap option"
  sr_cookieHeader :: "string option"
  sr_session :: "'d option"
  sr_sessionId :: "string option"

datatype session_error = NoSessionCookie | InvalidCookieSignature | NoSessionStore | SessionNotFound

text \<open>\<open>match.split('=').slice(1).join('=').trim()\<close> for the first part whose trimmed text starts with the name
  and an equals sign.\<close>

definition getCookie :: "'d session_request \<Rightarrow> string \<Rightarrow> string option" where
  "getCookie request name = (case sr_cookies request of
     Some cookies \<Rightarrow> jm_get cookies name
   | None \<Rightarrow> (case sr_cookieHeader request of
       None \<Rightarrow> None
     | Some cookieHeader \<Rightarrow>
         if cookieHeader = [] then None
         else map_option (\<lambda>m. js_trim (js_join ''='' (drop 1 (js_split CHR ''='' m))))
           (List.find (\<lambda>c. starts_with (js_trim c) (name @ ''='')) (js_split CHR '';'' cookieHeader))))"

definition js_lastIndexOf :: "string \<Rightarrow> char \<Rightarrow> nat option" where
  "js_lastIndexOf s c =
     (if c \<in> set s then Some (length s - 1 - length (takeWhile (\<lambda>x. x \<noteq> c) (rev s))) else None)"

definition unsignCookie :: "(string \<Rightarrow> string \<Rightarrow> string) \<Rightarrow> string \<Rightarrow> string \<Rightarrow> string option" where
  "unsignCookie hmac signedValue secret = (case js_lastIndexOf signedValue CHR ''.'' of
     None \<Rightarrow> None
   | Some dotIndex \<Rightarrow>
       let val = take dotIndex signedValue;
           signature = drop (dotIndex + 1) signedValue;
           expected = hmac secret val
       in if length signature = length expected \<and> signature = expected then Some val else None)"

definition session_canActivate :: "(string \<Rightarrow> string \<Rightarrow> string) \<Rightarrow> ('s, 'd) session_options \<Rightarrow> bool \<Rightarrow> int
    \<Rightarrow> 'd session_request \<Rightarrow> 's \<Rightarrow> (session_error + bool) \<times> 'd session_request \<times> 's" where
  "session_canActivate hmac opts isPublic now request s =
     (if isPublic then (Inr True, request, s)
      else let cookieName = or_else (so_cookieName opts) ''boot.sid'' in
        case getCookie request cookieName of
          None \<Rightarrow> (Inl NoSessionCookie, request, s)
        | Some sessionId \<Rightarrow>
            if sessionId = [] then (Inl NoSessionCookie, request, s)
            else case unsignCookie hmac sessionId (so_secret opts) of
              None \<Rightarrow> (Inl InvalidCookieSignature, request, s)
            | Some unsignedId \<Rightarrow>
                if unsignedId = [] then (Inl InvalidCookieSignature, request, s)
                else case so_store opts of
                  None \<Rightarrow> (Inl NoSessionStore, request, s)
                | Some store \<Rightarrow> (case ss_get store s now unsignedId of
                    (None, s') \<Rightarrow> (Inl SessionNotFound, request, s')
                  | (Some sessionData, s') \<Rightarrow>
                      (Inr True, request\<lparr>sr_session := Some sessionData, sr_sessionId := Some unsignedId\<rparr>,
                       ss_touch store s' now unsignedId (so_maxAge opts))))"

text \<open>The cookie the application sets: the id, a dot and the signature.\<close>

definition sign_cookie :: "(string \<Rightarrow> string \<Rightarrow> string) \<Rightarrow> string \<Rightarrow> string \<Rightarrow> string" where
  "sign_cookie hmac secret i = i @ ''.'' @ hmac secret i"

lemma js_lastIndexOf_append: "c \<notin> set sig \<Longrightarrow> js_lastIndexOf (v @ c # sig) c = Some (length v)"
  by (simp add: js_lastIndexOf_def takeWhile_append)

lemma js_lastIndexOf_Some:
  assumes "js_lastIndexOf s c = Some k"
  shows "s = take k s @ c # drop (k + 1) s \<and> c \<notin> set (drop (k + 1) s)"
proof -
  have "c \<in> set s" and k: "k = length s - 1 - length (takeWhile (\<lambda>x. x \<noteq> c) (rev s))"
    using assms by (auto simp: js_lastIndexOf_def split: if_splits)
  then obtain v sig where s: "s = v @ c # sig" and "c \<notin> set sig"
    using split_list_last by metis
  then have "k = length v" using k by (simp add: takeWhile_append)
  then show ?thesis using s \<open>c \<notin> set sig\<close> by simp
qed

lemma unsignCookie_iff:
  assumes "\<And>v. CHR ''.'' \<notin> set (hmac secret v)"
  shows "unsignCookie hmac cookie secret = Some v \<longleftrightarrow> cookie = sign_cookie hmac secret v"
proof
  assume "unsignCookie hmac cookie secret = Some v"
  then obtain k where k: "js_lastIndexOf cookie CHR ''.'' = Some k" and "take k cookie = v"
    and "drop (k + 1) cookie = hmac secret v"
    by (auto simp: unsignCookie_def Let_def split: option.splits if_splits)
  with js_lastIndexOf_Some[OF k] show "cookie = sign_cookie hmac secret v"
    by (simp add: sign_cookie_def)
next
  assume "cookie = sign_cookie hmac secret v"
  then show "unsignCookie hmac cookie secret = Some v"
    using js_lastIndexOf_append[OF assms, of v v] by (simp add: unsignCookie_def sign_cookie_def Let_def)
qed

context session_store_spec
begin

lemma guard_accepts_iff:
  assumes "so_store opts = Some ss" and "\<And>v. CHR ''.'' \<notin> set (hmac (so_secret opts) v)"
  shows "fst (session_canActivate hmac opts False now request s) = Inr True \<longleftrightarrow>
    (\<exists>i d. i \<noteq> [] \<and> live s now i = Some d \<and>
       getCookie request (or_else (so_cookieName opts) ''boot.sid'') = Some (sign_cookie hmac (so_secret opts) i))"
proof -
  have ne: "sign_cookie hmac (so_secret opts) i \<noteq> []" for i by (simp add: sign_cookie_def)
  have g: "(case ss_get ss s now i of (None, s') \<Rightarrow> (Inl SessionNotFound, request, s')
      | (Some sessionData, s') \<Rightarrow> (Inr True, f sessionData, ss_touch ss s' now i age)) =
      (case live s now i of None \<Rightarrow> (Inl SessionNotFound, request, snd (ss_get ss s now i))
       | Some d \<Rightarrow> (Inr True, f d, ss_touch ss (snd (ss_get ss s now i)) now i age))" for i f age
    using get_live[of s now i] by (cases "ss_get ss s now i") (auto split: option.splits)
  note iff = unsignCookie_iff[of hmac "so_secret opts", OF assms(2)]
  have inj: "sign_cookie hmac (so_secret opts) i = sign_cookie hmac (so_secret opts) j \<longleftrightarrow> i = j" for i j
    using iff[of "sign_cookie hmac (so_secret opts) i" j] iff[of "sign_cookie hmac (so_secret opts) i" i] by auto
  show ?thesis
  proof (cases "getCookie request (or_else (so_cookieName opts) ''boot.sid'')")
    case (Some c)
    show ?thesis
    proof (cases "unsignCookie hmac c (so_secret opts)")
      case None
      then show ?thesis using Some iff[of c] by (auto simp: session_canActivate_def Let_def)
    next
      case (Some v)
      then have c: "c = sign_cookie hmac (so_secret opts) v" using iff by blast
      show ?thesis
        using Some ne[of v] \<open>getCookie request (or_else (so_cookieName opts) ''boot.sid'') = Some c\<close>
        by (cases "live s now v") (auto simp: session_canActivate_def Let_def assms(1) g c inj)
    qed
  qed (simp add: session_canActivate_def)
qed

lemma guard_accepted_state:
  assumes "so_store opts = Some ss" and "session_canActivate hmac opts False now request s = (Inr True, request', s')"
    and "now \<le> t"
  shows "\<exists>i d. live s now i = Some d \<and> sr_session request' = Some d \<and> sr_sessionId request' = Some i \<and>
    (\<forall>j. live s' t j = (if j = i then (if t \<le> now + or_else (so_maxAge opts) default_maxAge then Some d else None)
                       else live s t j))"
proof -
  obtain i d where "live s now i = Some d" and "s' = ss_touch ss (snd (ss_get ss s now i)) now i (so_maxAge opts)"
    and "request' = request\<lparr>sr_session := Some d, sr_sessionId := Some i\<rparr>"
    using assms(1,2) get_live
    by (auto simp: session_canActivate_def Let_def split: option.splits if_splits prod.splits) (metis fst_conv snd_conv)+
  then show ?thesis
    using touch_live[OF assms(3), of "snd (ss_get ss s now i)" i d] get_frame[of now now s i i] get_frame[OF assms(3)]
    by (intro exI[of _ i] exI[of _ d]) simp
qed

end

section \<open>Property\<close>


definition toy_hmac :: "string \<Rightarrow> string \<Rightarrow> string" where
  "toy_hmac secret v = map (\<lambda>c. if c = CHR ''.'' then CHR ''-'' else c) (secret @ v)"

definition session_example :: "(nat mem_sessions, nat) session_options" where
  "session_example = \<lparr>so_store = Some memory_session_store, so_secret = ''k'', so_cookieName = None, so_maxAge = None\<rparr>"


end
