(* ===== verification/Auth_Totp.thy ===== *)
theory Auth_Totp
  imports Boot_Prelude "HOL-Library.Word"
begin

text \<open>
  \<open>src/src/auth/totp/totp.service.ts\<close>, the built-in implementation (the one used without the \<open>otpauth\<close>
  package). JavaScript's \<open><<\<close>, \<open>>>>\<close>, \<open>&\<close> and \<open>|\<close> work on 32 bits: the shift register is a 32-bit word, a
  buffer is a list of 8-bit words. HMAC-SHA1, random bytes and \<open>encodeURIComponent\<close> are parameters.
\<close>

unbundle bit_operations_syntax

section \<open>Base 32\<close>

definition b32_alphabet :: string where "b32_alphabet = ''ABCDEFGHIJKLMNOPQRSTUVWXYZ234567''"

text \<open>\<open>while (bits >= 5) { result += alphabet[(value >>> (bits - 5)) & 0x1f]; bits -= 5; }\<close>\<close>

fun b32_emit :: "nat \<Rightarrow> 32 word \<Rightarrow> string \<times> nat" where
  "b32_emit bits val = (if bits \<ge> 5
     then (let (r, b) = b32_emit (bits - 5) val
           in (b32_alphabet ! unat (drop_bit (bits - 5) val AND 0x1f) # r, b))
     else ([], bits))"

declare b32_emit.simps [simp del]

fun b32_encode_from :: "8 word list \<Rightarrow> nat \<Rightarrow> 32 word \<Rightarrow> string" where
  "b32_encode_from [] bits val =
     (if bits > 0 then [b32_alphabet ! unat (push_bit (5 - bits) val AND 0x1f)] else [])"
| "b32_encode_from (byte # buffer) bits val =
     (let val = push_bit 8 val OR ucast byte; bits = bits + 8; (r, bits) = b32_emit bits val
      in r @ b32_encode_from buffer bits val)"

definition base32Encode :: "8 word list \<Rightarrow> string" where
  "base32Encode buffer = b32_encode_from buffer 0 0"

fun indexOf_from :: "nat \<Rightarrow> char \<Rightarrow> string \<Rightarrow> nat option" where
  "indexOf_from k c [] = None"
| "indexOf_from k c (x # xs) = (if x = c then Some k else indexOf_from (Suc k) c xs)"

definition js_upper :: "char \<Rightarrow> char" where
  "js_upper c = (if 97 \<le> (of_char c :: nat) \<and> (of_char c :: nat) \<le> 122 then char_of (of_char c - 32 :: nat) else c)"

fun b32_decode_from :: "string \<Rightarrow> nat \<Rightarrow> 32 word \<Rightarrow> 8 word list" where
  "b32_decode_from [] bits val = []"
| "b32_decode_from (c # cs) bits val = (case indexOf_from 0 c b32_alphabet of
     None \<Rightarrow> b32_decode_from cs bits val
   | Some idx \<Rightarrow>
       let val = push_bit 5 val OR of_nat idx; bits = bits + 5
       in if bits \<ge> 8
          then ucast (drop_bit (bits - 8) val AND 0xff) # b32_decode_from cs (bits - 8) val
          else b32_decode_from cs bits val)"

definition base32Decode :: "string \<Rightarrow> 8 word list" where
  "base32Decode input = b32_decode_from (map js_upper input) 0 0"

section \<open>Codes\<close>

text \<open>\<open>writeBigUInt64BE\<close> of the step, most significant byte first; a negative step raises an error.\<close>

definition timeBuffer :: "int \<Rightarrow> 8 word list option" where
  "timeBuffer timeStep = (if timeStep < 0 \<or> 2 ^ 64 \<le> timeStep then None
     else Some (map (\<lambda>k. word_of_int (timeStep div 2 ^ (8 * k))) (rev [0..<8])))"

definition totp_truncate :: "8 word list \<Rightarrow> 32 word" where
  "totp_truncate hash = (let offset = unat (hash ! (length hash - 1) AND 0x0f) in
     push_bit 24 (ucast (hash ! offset) AND 0x7f) OR push_bit 16 (ucast (hash ! (offset + 1)) AND 0xff)
     OR push_bit 8 (ucast (hash ! (offset + 2)) AND 0xff) OR (ucast (hash ! (offset + 3)) AND 0xff))"

definition generateTOTP :: "(8 word list \<Rightarrow> 8 word list \<Rightarrow> 8 word list) \<Rightarrow> string \<Rightarrow> int \<Rightarrow> string option" where
  "generateTOTP hmac base32Secret timeStep = (case timeBuffer timeStep of
     None \<Rightarrow> None
   | Some buf \<Rightarrow>
       let hash = hmac (base32Decode base32Secret) buf; code = totp_truncate hash
       in Some (js_padStart 6 CHR ''0'' (js_of_nat (nat (sint code mod 1000000)))))"

fun totp_window :: "(int \<Rightarrow> string option) \<Rightarrow> string \<Rightarrow> int \<Rightarrow> int list \<Rightarrow> bool option" where
  "totp_window gen token step [] = Some False"
| "totp_window gen token step (i # rest) = (case gen (step + i) of
     None \<Rightarrow> None
   | Some expected \<Rightarrow>
       if length expected = length token \<and> expected = token then Some True
       else totp_window gen token step rest)"

definition totp_verify :: "(8 word list \<Rightarrow> 8 word list \<Rightarrow> 8 word list) \<Rightarrow> int \<Rightarrow> string \<Rightarrow> string \<Rightarrow> bool option" where
  "totp_verify hmac now_ms token secret =
     (let now = now_ms div 1000; period = 30
      in totp_window (generateTOTP hmac secret) token (now div period) [-1, 0, 1])"

definition generateSecret :: "(string \<Rightarrow> string) \<Rightarrow> 8 word list \<Rightarrow> string \<Rightarrow> string option \<Rightarrow> string \<times> string \<times> string" where
  "generateSecret encodeURIComponent secretBytes label issuer0 =
     (let issuer = or_else issuer0 ''NestJS-Boot'';
          base32Secret = base32Encode secretBytes;
          otpauthUrl = ''otpauth://totp/'' @ encodeURIComponent issuer @ '':'' @ encodeURIComponent label
            @ ''?secret='' @ base32Secret @ ''&issuer='' @ encodeURIComponent issuer
            @ ''&algorithm=SHA1&digits=6&period=30''
      in (base32Secret, otpauthUrl, otpauthUrl))"

definition hex_upper :: "8 word \<Rightarrow> string" where
  "hex_upper b = map (\<lambda>n. ''0123456789ABCDEF'' ! n) [unat b div 16, unat b mod 16]"

definition generateBackupCodes :: "(nat \<Rightarrow> 8 word list) \<Rightarrow> nat option \<Rightarrow> string list" where
  "generateBackupCodes randomBytes4 count =
     map (\<lambda>i. let code = concat (map hex_upper (randomBytes4 i)) in take 4 code @ ''-'' @ take 4 (drop 4 code))
       [0..<or_else count 8]"

section \<open>The shift register as a list of bits\<close>

text \<open>The low \<open>n\<close> bits of a word, most significant first.\<close>

definition lowbits :: "nat \<Rightarrow> 'a::len word \<Rightarrow> bool list" where
  "lowbits n w = map (bit w) (rev [0..<n])"

lemma length_lowbits [simp]: "length (lowbits n w) = n"
  by (simp add: lowbits_def)

lemma nth_lowbits: "i < n \<Longrightarrow> lowbits n w ! i = bit w (n - Suc i)"
  by (simp add: lowbits_def rev_nth)

lemma lowbits_split: "lowbits (a + b) w = lowbits a (drop_bit b w) @ lowbits b w"
proof (rule nth_equalityI)
  fix i
  assume "i < length (lowbits (a + b) w)"
  moreover have "a + b - Suc i = b + (a - Suc i)" if "i < a"
    using that by simp
  ultimately show "lowbits (a + b) w ! i = (lowbits a (drop_bit b w) @ lowbits b w) ! i"
    by (auto simp: nth_append nth_lowbits bit_drop_bit_eq add.commute)
qed simp

lemma lowbits_cong: "(\<And>k. k < n \<Longrightarrow> bit v k = bit w k) \<Longrightarrow> lowbits n v = lowbits n w"
  by (simp add: lowbits_def)

lemma lowbits_push:
  fixes v :: "32 word" and w :: "32 word"
  assumes "n + m \<le> 32" and "\<And>k. m \<le> k \<Longrightarrow> \<not> bit w k"
  shows "lowbits (n + m) (push_bit m v OR w) = lowbits n v @ lowbits m w"
proof -
  have "lowbits n (drop_bit m (push_bit m v OR w)) = lowbits n v"
    using assms by (intro lowbits_cong) (simp add: bit_drop_bit_eq bit_or_iff bit_push_bit_iff)
  moreover have "lowbits m (push_bit m v OR w) = lowbits m w"
    by (intro lowbits_cong) (simp add: bit_or_iff bit_push_bit_iff)
  ultimately show ?thesis by (simp add: lowbits_split)
qed

lemma lowbits_ucast:
  "lowbits 8 (ucast (b :: 8 word) :: 32 word) = lowbits 8 b"
  by (intro lowbits_cong) (simp add: bit_ucast_iff)

lemma lowbits_8_inject: "lowbits 8 a = lowbits 8 (b :: 8 word) \<Longrightarrow> a = b"
  by (rule bit_word_eqI) (auto simp: lowbits_def)

lemma concat_lowbits_inject:
  "concat (map (lowbits 8) xs) = concat (map (lowbits 8) ys) \<Longrightarrow> xs = (ys :: 8 word list)"
proof (induction xs arbitrary: ys)
  case Nil
  then show ?case by (cases ys) (auto dest: arg_cong[of _ _ length])
next
  case (Cons x xs)
  then show ?case
    by (cases ys) (auto dest: arg_cong[of _ _ length] lowbits_8_inject)
qed

section \<open>Encoding and decoding the bits\<close>

lemma indexOf_nth: "distinct xs \<Longrightarrow> k < length xs \<Longrightarrow> indexOf_from j (xs ! k) xs = Some (j + k)"
proof (induction xs arbitrary: j k)
  case (Cons x xs)
  then show ?case by (cases k) auto
qed simp

lemma b32_alphabet_facts: "distinct b32_alphabet" "length b32_alphabet = 32"
  by (simp_all add: b32_alphabet_def)

lemma b32_alphabet_upper: "list_all (\<lambda>c. js_upper c = c) b32_alphabet"
  by (simp add: b32_alphabet_def js_upper_def)

text \<open>The five bits a character of the alphabet stands for.\<close>

definition dbits :: "char \<Rightarrow> bool list" where
  "dbits c = (case indexOf_from 0 c b32_alphabet of None \<Rightarrow> [] | Some i \<Rightarrow> lowbits 5 (of_nat i :: 32 word))"

lemma unat_and_31: "unat (x AND (0x1f :: 32 word)) < 32"
proof -
  have "x AND 0x1f \<le> (0x1f :: 32 word)" by (rule word_and_le1)
  then have "unat (x AND 0x1f) \<le> unat (0x1f :: 32 word)" by (simp add: word_le_nat_alt)
  then show ?thesis by simp
qed

lemma bit_31: "bit (0x1f :: 32 word) k \<longleftrightarrow> k < 5"
proof -
  have *: "(0x1f :: 32 word) = mask 5" by (simp add: mask_eq_exp_minus_1)
  show ?thesis unfolding * by (auto simp: bit_mask_iff)
qed

lemma bit_255: "bit (0xff :: 32 word) k \<longleftrightarrow> k < 8"
proof -
  have *: "(0xff :: 32 word) = mask 8" by (simp add: mask_eq_exp_minus_1)
  show ?thesis unfolding * by (auto simp: bit_mask_iff)
qed

lemma emitted_char:
  "b32_alphabet ! unat (x AND 0x1f) \<in> set b32_alphabet"
  "dbits (b32_alphabet ! unat (x AND (0x1f :: 32 word))) = lowbits 5 x"
proof -
  show "b32_alphabet ! unat (x AND 0x1f) \<in> set b32_alphabet"
    using unat_and_31[of x] by (simp add: b32_alphabet_facts)
  have "lowbits 5 (x AND 0x1f) = lowbits 5 x"
    by (intro lowbits_cong) (simp only: bit_and_iff bit_31 simp_thms)
  then show "dbits (b32_alphabet ! unat (x AND (0x1f :: 32 word))) = lowbits 5 x"
    using indexOf_nth[of b32_alphabet "unat (x AND 0x1f)" 0] unat_and_31[of x]
    by (simp add: dbits_def b32_alphabet_facts)
qed

lemma b32_emit_bits:
  "case b32_emit bits v of (r, b) \<Rightarrow> b < 5 \<and> set r \<subseteq> set b32_alphabet \<and>
     concat (map dbits r) @ lowbits b v = lowbits bits v"
proof (induction bits v rule: b32_emit.induct)
  case (1 bits v)
  show ?case
  proof (cases "5 \<le> bits")
    case True
    obtain r b where rb: "b32_emit (bits - 5) v = (r, b)" by fastforce
    have e: "b32_emit bits v = (b32_alphabet ! unat (drop_bit (bits - 5) v AND 0x1f) # r, b)"
      using True rb by (simp add: b32_emit.simps[of bits])
    have "lowbits bits v = lowbits 5 (drop_bit (bits - 5) v) @ lowbits (bits - 5) v"
      using lowbits_split[of 5 "bits - 5" v] True by simp
    then show ?thesis
      using 1[OF True] rb emitted_char[of "drop_bit (bits - 5) v"] by (simp add: e)
  next
    case False
    then show ?thesis by (simp add: b32_emit.simps[of bits])
  qed
qed

lemma b32_encode_bits:
  "bits < 5 \<Longrightarrow> set (b32_encode_from buf bits v) \<subseteq> set b32_alphabet \<and>
     (\<exists>pad. pad < 5 \<and> concat (map dbits (b32_encode_from buf bits v)) =
        lowbits bits v @ concat (map (lowbits 8) buf) @ replicate pad False)"
proof (induction buf arbitrary: bits v)
  case Nil
  show ?case
  proof (cases "bits = 0")
    case False
    have "lowbits 5 (push_bit (5 - bits) v) = lowbits (bits + (5 - bits)) (push_bit (5 - bits) v OR 0)"
      using Nil by simp
    also have "\<dots> = lowbits bits v @ lowbits (5 - bits) (0 :: 32 word)"
      using Nil by (intro lowbits_push) simp_all
    also have "lowbits (5 - bits) (0 :: 32 word) = replicate (5 - bits) False"
      by (rule nth_equalityI) (simp_all add: nth_lowbits)
    finally show ?thesis
      using False Nil emitted_char[of "push_bit (5 - bits) v"] by (auto intro!: exI[of _ "5 - bits"])
  qed (simp add: lowbits_def)
next
  case (Cons byte buf)
  let ?v = "push_bit 8 v OR ucast byte"
  obtain r b where rb: "b32_emit (bits + 8) ?v = (r, b)" by fastforce
  have high: "\<not> bit (ucast byte :: 32 word) j" if "8 \<le> j" for j
    using that by (auto simp: bit_ucast_iff dest: bit_imp_le_length)
  have v: "lowbits (bits + 8) ?v = lowbits bits v @ lowbits 8 byte"
    using Cons.prems lowbits_push[where n = bits and v = v, OF _ high] by (simp add: lowbits_ucast)
  have "b < 5" and r: "set r \<subseteq> set b32_alphabet" "concat (map dbits r) @ lowbits b ?v = lowbits (bits + 8) ?v"
    using b32_emit_bits[where bits = "bits + 8" and v = ?v] rb by auto
  from Cons.IH[OF \<open>b < 5\<close>, of ?v] obtain pad where pad: "pad < 5"
    "concat (map dbits (b32_encode_from buf b ?v)) = lowbits b ?v @ concat (map (lowbits 8) buf) @ replicate pad False"
    and s: "set (b32_encode_from buf b ?v) \<subseteq> set b32_alphabet" by blast
  have e: "b32_encode_from (byte # buf) bits v = r @ b32_encode_from buf b ?v"
    using rb by (simp add: Let_def)
  have "concat (map dbits (b32_encode_from (byte # buf) bits v)) =
      (concat (map dbits r) @ lowbits b ?v) @ concat (map (lowbits 8) buf) @ replicate pad False"
    by (simp only: e pad(2) map_append concat_append append_assoc)
  also have "\<dots> = lowbits bits v @ concat (map (lowbits 8) (byte # buf)) @ replicate pad False"
    using r v by simp
  finally have eq: "concat (map dbits (b32_encode_from (byte # buf) bits v)) =
      lowbits bits v @ concat (map (lowbits 8) (byte # buf)) @ replicate pad False" .
  have "set (b32_encode_from (byte # buf) bits v) \<subseteq> set b32_alphabet"
    using r(1) s unfolding e by simp
  with eq pad(1) show ?case by blast
qed

lemma b32_decode_bits:
  assumes "set cs \<subseteq> set b32_alphabet" and "bits < 8"
  shows "\<exists>rest. length rest < 8 \<and>
    concat (map (lowbits 8) (b32_decode_from cs bits v)) @ rest = lowbits bits v @ concat (map dbits cs)"
  using assms
proof (induction cs arbitrary: bits v)
  case Nil
  then show ?case by (auto intro!: exI[of _ "lowbits bits v"])
next
  case (Cons c cs)
  then obtain k where "k < 32" and c: "c = b32_alphabet ! k"
    by (auto simp: in_set_conv_nth b32_alphabet_facts)
  then have i: "indexOf_from 0 c b32_alphabet = Some k"
    using indexOf_nth[of b32_alphabet k 0] by (simp add: b32_alphabet_facts)
  let ?v = "push_bit 5 v OR of_nat k"
  have d: "dbits c = lowbits 5 (of_nat k :: 32 word)"
    by (simp add: dbits_def i)
  have "\<not> bit (of_nat k :: 32 word) j" if "5 \<le> j" for j
    using take_bit_nat_eq_self[of k 5] \<open>k < 32\<close> that bit_take_bit_iff[of 5 k j]
    by (simp add: bit_of_nat_iff)
  then have v: "lowbits (bits + 5) ?v = lowbits bits v @ dbits c"
    using Cons.prems lowbits_push[of bits 5 "of_nat k" v] by (simp add: d)
  have cs: "set cs \<subseteq> set b32_alphabet" using Cons.prems by simp
  show ?case
  proof (cases "8 \<le> bits + 5")
    case True
    let ?n = "bits + 5 - 8"
    have "?n < 8" using Cons.prems by simp
    then obtain rest where rest: "length rest < 8"
      "concat (map (lowbits 8) (b32_decode_from cs ?n ?v)) @ rest = lowbits ?n ?v @ concat (map dbits cs)"
      using Cons.IH[OF cs, of ?n ?v] by blast
    have byte: "lowbits 8 (ucast (drop_bit ?n ?v AND 0xff) :: 8 word) = lowbits 8 (drop_bit ?n ?v)"
      by (intro lowbits_cong) (simp only: bit_ucast_iff bit_and_iff bit_255 simp_thms, simp)
    have split: "lowbits (bits + 5) ?v = lowbits 8 (drop_bit ?n ?v) @ lowbits ?n ?v"
      using lowbits_split[of 8 ?n ?v] True by (simp add: add.commute)
    have "b32_decode_from (c # cs) bits v = ucast (drop_bit ?n ?v AND 0xff) # b32_decode_from cs ?n ?v"
      using True by (simp add: i Let_def)
    then have "concat (map (lowbits 8) (b32_decode_from (c # cs) bits v)) @ rest =
        lowbits 8 (drop_bit ?n ?v) @ (concat (map (lowbits 8) (b32_decode_from cs ?n ?v)) @ rest)"
      by (simp only: list.map concat.simps byte append_assoc)
    also have "\<dots> = lowbits bits v @ concat (map dbits (c # cs))"
      using v split by (simp only: rest(2) list.map concat.simps append_assoc[symmetric])
    finally show ?thesis using rest(1) by blast
  next
    case False
    then have "bits + 5 < 8" by simp
    then obtain rest where "length rest < 8"
      "concat (map (lowbits 8) (b32_decode_from cs (bits + 5) ?v)) @ rest = lowbits (bits + 5) ?v @ concat (map dbits cs)"
      using Cons.IH[OF cs, of "bits + 5" ?v] by blast
    moreover have "b32_decode_from (c # cs) bits v = b32_decode_from cs (bits + 5) ?v"
      using False by (simp add: i Let_def)
    ultimately show ?thesis using v by auto
  qed
qed

lemma base32Encode_upper: "set cs \<subseteq> set b32_alphabet \<Longrightarrow> map js_upper cs = cs"
  using b32_alphabet_upper by (induction cs) (auto simp: list_all_iff)

lemma base32Encode_set: "set (base32Encode buffer) \<subseteq> set b32_alphabet"
  using b32_encode_bits[of 0 buffer 0] by (simp add: base32Encode_def)

lemma generateTOTP_length: "generateTOTP hmac secret step = Some code \<Longrightarrow> length code = 6"
proof -
  let ?n = "\<lambda>h. nat (sint (totp_truncate h) mod 1000000)"
  have "?n h < 10 ^ 6" for h by (simp add: nat_less_iff)
  then have "length (js_of_nat (?n h)) \<le> 6" for h by (rule js_of_nat_length[rotated]) simp
  then show "generateTOTP hmac secret step = Some code \<Longrightarrow> length code = 6"
    by (auto simp: generateTOTP_def Let_def js_padStart_def split: option.splits)
qed

lemma generateTOTP_ok:
  assumes "0 \<le> step" and "step < 2 ^ 64"
  shows "\<exists>c. generateTOTP hmac secret step = Some c"
proof -
  have "\<exists>b. timeBuffer step = Some b"
    using assms by (simp only: timeBuffer_def not_le[symmetric] simp_thms if_False) simp
  then obtain b where "timeBuffer step = Some b" ..
  then show ?thesis by (simp only: generateTOTP_def option.case Let_def) blast
qed

section \<open>Properties\<close>

text \<open>C14. Base 32 round trip on 32-bit shifts: decoding an encoded secret gives back exactly its bytes, for
  buffers of any length, although the shift register overflows.\<close>

theorem base32_roundtrip: "base32Decode (base32Encode bytes) = bytes"
proof -
  let ?e = "base32Encode bytes"
  obtain pad where pad: "pad < 5" "concat (map dbits ?e) = concat (map (lowbits 8) bytes) @ replicate pad False"
    using b32_encode_bits[of 0 bytes 0] by (auto simp: base32Encode_def lowbits_def)
  obtain rest where rest: "length rest < 8" "concat (map (lowbits 8) (b32_decode_from ?e 0 0)) @ rest = concat (map dbits ?e)"
    using b32_decode_bits[OF base32Encode_set, of 0 bytes 0] by (auto simp: lowbits_def)
  let ?o = "b32_decode_from ?e 0 0"
  have len: "length (concat (map (lowbits 8) (xs :: 8 word list))) = 8 * length xs" for xs
    by (induction xs) auto
  have eq: "concat (map (lowbits 8) ?o) @ rest = concat (map (lowbits 8) bytes) @ replicate pad False"
    using pad(2) rest(2) by simp
  then have "8 * length ?o + length rest = 8 * length bytes + pad"
    by (metis eq len length_append length_replicate)
  then have "length ?o = length bytes" using pad(1) rest(1) by linarith
  then have "concat (map (lowbits 8) ?o) = concat (map (lowbits 8) bytes)"
    using eq by (simp add: append_eq_append_conv len)
  then show ?thesis
    by (simp add: base32Decode_def base32Encode_upper base32Encode_set concat_lowbits_inject)
qed

text \<open>Verification accepts exactly the codes of the current 30-second step and its two neighbours, and
  every code has six characters; with the clock past the first minute no error is raised.\<close>

theorem totp_accepts_three_steps:
  assumes "30000 \<le> now" and "now < 2 ^ 64"
  shows "(\<exists>ok. totp_verify hmac now token secret = Some ok \<and>
      (ok \<longleftrightarrow> (\<exists>i \<in> {-1, 0, 1}. generateTOTP hmac secret (now div 1000 div 30 + i) = Some token))) \<and>
    (\<forall>step code. generateTOTP hmac secret step = Some code \<longrightarrow> length code = 6)"
proof -
  let ?s = "now div 1000 div 30"
  have s: "1 \<le> ?s" "?s + 1 < 2 ^ 64" using assms by linarith+
  have "\<exists>c. generateTOTP hmac secret (?s + i) = Some c" if "- 1 \<le> i" "i \<le> 1" for i
    using that s by (intro generateTOTP_ok) linarith+
  from this[of "-1"] this[of 0] this[of 1]
obtain a b c where abc: "generateTOTP hmac secret (?s + -1) = Some a"
    "generateTOTP hmac secret (?s + 0) = Some b" "generateTOTP hmac secret (?s + 1) = Some c" by auto
  have "totp_verify hmac now token secret = Some (a = token \<or> b = token \<or> c = token)"
    by (auto simp: totp_verify_def Let_def abc[simplified])
  moreover have "(\<exists>i \<in> {-1, 0, 1}. generateTOTP hmac secret (?s + i) = Some token) \<longleftrightarrow> a = token \<or> b = token \<or> c = token"
    by (simp add: abc[simplified])
  moreover have "\<forall>step code. generateTOTP hmac secret step = Some code \<longrightarrow> length code = 6"
    by (intro allI impI) (rule generateTOTP_length)
  ultimately show ?thesis by blast
qed

theorem totp_accepts_three_steps_witness:
  "\<exists>ok. totp_verify (\<lambda>k m. replicate 20 0) 60000 ''000000'' ''AAAA'' = Some ok"
  using conjunct1[OF totp_accepts_three_steps[of 60000 "\<lambda>k m. replicate 20 0" "''000000''" "''AAAA''"]] by fastforce

end
