(* ===== verification/Policy.thy ===== *)
theory Policy
  imports Boot_Prelude
begin

text \<open>
  \<open>src/src/policy/\<close>: named authorization policies, their registry, the engine that evaluates them and the
  guard that asks it. A policy is supplied by the application: a function of the authorization context
  that gives a result or throws a message (\<open>Inl\<close>).
\<close>

section \<open>Contexts and results\<close>

record authz_user =
  au_id :: string
  au_roles :: "string list"
  au_permissions :: "string list"
  au_organizationId :: "string option"
  au_departmentId :: "string option"
  au_teamId :: "string option"

record authz_context =
  ac_user :: authz_user
  ac_action :: string
  ac_resource :: "string option"
  ac_resourceId :: "string option"
  ac_organizationId :: "string option"
  ac_departmentId :: "string option"
  ac_teamId :: "string option"
  ac_purposeOfUse :: "string option"
  ac_metadata :: "(string, string) jsmap option"

record authz_result =
  ar_allowed :: bool
  ar_reason :: "string option"
  ar_matchedPermission :: "string option"
  ar_scope :: "string option"
  ar_policy :: "string option"

record authz_policy =
  po_name :: string
  po_evaluate :: "authz_context \<Rightarrow> string + authz_result"

text \<open>The parts of a request that the default context reads.\<close>

record policy_request =
  pq_sub :: "string option"
  pq_id :: "string option"
  pq_roles :: "string list option"
  pq_permissions :: "string list option"
  pq_organizationId :: "string option"
  pq_departmentId :: "string option"
  pq_teamId :: "string option"
  pq_paramId :: "string option"
  pq_purposeHeader :: "string option"
  pq_purposeBody :: "string option"

record policy_options =
  po_buildContext :: "(policy_request \<Rightarrow> (string, string) jsmap option \<Rightarrow> authz_context) option"
  po_denyByDefault :: "bool option"

section \<open>PolicyRegistry\<close>

type_synonym policy_registry = "(string, authz_policy) jsmap"

definition policy_register :: "authz_policy \<Rightarrow> policy_registry \<Rightarrow> policy_registry" where
  "policy_register policy r = jm_set r (po_name policy) policy"

definition policy_get :: "policy_registry \<Rightarrow> string \<Rightarrow> authz_policy option" where
  "policy_get r name = jm_get r name"

definition policy_has :: "policy_registry \<Rightarrow> string \<Rightarrow> bool" where
  "policy_has r name = jm_has r name"

definition policy_getAll :: "policy_registry \<Rightarrow> authz_policy list" where
  "policy_getAll r = jm_values r"

definition policy_getNames :: "policy_registry \<Rightarrow> string list" where
  "policy_getNames r = jm_keys r"

section \<open>PolicyEngine\<close>

definition first_some :: "'a option \<Rightarrow> 'a option \<Rightarrow> 'a option" where
  "first_some x y = (case x of None \<Rightarrow> y | Some v \<Rightarrow> Some v)"

definition meta_get :: "(string, string) jsmap option \<Rightarrow> string \<Rightarrow> string option" where
  "meta_get metadata k = (case metadata of None \<Rightarrow> None | Some m \<Rightarrow> jm_get m k)"

definition policy_buildContext :: "policy_options option \<Rightarrow> policy_request \<Rightarrow> (string, string) jsmap option
    \<Rightarrow> authz_context" where
  "policy_buildContext opts request metadata =
     (case (case opts of None \<Rightarrow> None | Some o1 \<Rightarrow> po_buildContext o1) of
        Some build \<Rightarrow> build request metadata
      | None \<Rightarrow> \<lparr>
          ac_user = \<lparr>au_id = or_else (first_some (pq_sub request) (pq_id request)) [],
            au_roles = or_else (pq_roles request) [], au_permissions = or_else (pq_permissions request) [],
            au_organizationId = pq_organizationId request, au_departmentId = pq_departmentId request,
            au_teamId = pq_teamId request\<rparr>,
          ac_action = or_else (meta_get metadata ''action'') [],
          ac_resource = meta_get metadata ''resource'',
          ac_resourceId = first_some (meta_get metadata ''resourceId'') (pq_paramId request),
          ac_organizationId = pq_organizationId request,
          ac_departmentId = pq_departmentId request,
          ac_teamId = pq_teamId request,
          ac_purposeOfUse = first_some (pq_purposeHeader request) (pq_purposeBody request),
          ac_metadata = metadata\<rparr>)"

definition policy_denyByDefault :: "policy_options option \<Rightarrow> bool" where
  "policy_denyByDefault opts = or_else (case opts of None \<Rightarrow> None | Some o1 \<Rightarrow> po_denyByDefault o1) True"

definition policy_evaluate :: "policy_registry \<Rightarrow> policy_options option \<Rightarrow> string \<Rightarrow> authz_context \<Rightarrow> authz_result" where
  "policy_evaluate r opts policyName context = (case policy_get r policyName of
     None \<Rightarrow> \<lparr>ar_allowed = \<not> policy_denyByDefault opts,
       ar_reason = Some (''Policy \"'' @ policyName @ ''\" not registered''),
       ar_matchedPermission = None, ar_scope = None, ar_policy = Some policyName\<rparr>
   | Some policy \<Rightarrow> (case po_evaluate policy context of
       Inr result \<Rightarrow> result\<lparr>ar_policy := Some policyName\<rparr>
     | Inl message \<Rightarrow> \<lparr>ar_allowed = False, ar_reason = Some (''Policy evaluation error: '' @ message),
         ar_matchedPermission = None, ar_scope = None, ar_policy = Some policyName\<rparr>))"

fun policy_evaluateAll :: "policy_registry \<Rightarrow> policy_options option \<Rightarrow> string list \<Rightarrow> authz_context \<Rightarrow> authz_result" where
  "policy_evaluateAll r opts [] context = \<lparr>ar_allowed = True, ar_reason = Some ''All policies passed'',
     ar_matchedPermission = None, ar_scope = None, ar_policy = None\<rparr>"
| "policy_evaluateAll r opts (name # policyNames) context =
     (let result = policy_evaluate r opts name context
      in if \<not> ar_allowed result then result else policy_evaluateAll r opts policyNames context)"

section \<open>PolicyGuard\<close>

definition policy_canActivate :: "policy_registry \<Rightarrow> policy_options option \<Rightarrow> bool
    \<Rightarrow> (string list \<times> (string, string) jsmap option) option \<Rightarrow> policy_request \<Rightarrow> string + bool" where
  "policy_canActivate r opts isPublic policyMeta request =
     (if isPublic then Inr True
      else case policyMeta of
        None \<Rightarrow> Inr True
      | Some (policyNames, metadata) \<Rightarrow>
          let authContext = policy_buildContext opts request metadata;
              result = (if length policyNames = 1 then policy_evaluate r opts (hd policyNames) authContext
                        else policy_evaluateAll r opts policyNames authContext)
          in if \<not> ar_allowed result then Inl (or_else (ar_reason result) ''Policy denied access'') else Inr True)"

section \<open>Lemmas\<close>

text \<open>When one policy allows.\<close>

definition policy_allows :: "policy_registry \<Rightarrow> policy_options option \<Rightarrow> authz_context \<Rightarrow> string \<Rightarrow> bool" where
  "policy_allows r opts ctx name \<longleftrightarrow> (case policy_get r name of
     None \<Rightarrow> \<not> policy_denyByDefault opts
   | Some p \<Rightarrow> (case po_evaluate p ctx of Inl _ \<Rightarrow> False | Inr res \<Rightarrow> ar_allowed res))"

lemma policy_evaluate_allowed: "ar_allowed (policy_evaluate r opts name ctx) = policy_allows r opts ctx name"
  by (simp add: policy_evaluate_def policy_allows_def split: option.split sum.split)

lemma policy_evaluate_policy: "ar_policy (policy_evaluate r opts name ctx) = Some name"
  by (simp add: policy_evaluate_def split: option.split sum.split)

lemma policy_evaluateAll_allowed: "ar_allowed (policy_evaluateAll r opts names ctx) \<longleftrightarrow> (\<forall>n \<in> set names. policy_allows r opts ctx n)"
  by (induction names) (simp_all add: Let_def policy_evaluate_allowed)

lemma policy_evaluateAll_denied:
  "\<not> ar_allowed (policy_evaluateAll r opts names ctx) \<Longrightarrow>
     \<exists>pre n post. names = pre @ n # post \<and> (\<forall>m \<in> set pre. policy_allows r opts ctx m) \<and> \<not> policy_allows r opts ctx n \<and>
       policy_evaluateAll r opts names ctx = policy_evaluate r opts n ctx"
proof (induction names)
  case (Cons m names)
  show ?case
  proof (cases "policy_allows r opts ctx m")
    case True
    then obtain pre n post where "names = pre @ n # post" "\<forall>x \<in> set pre. policy_allows r opts ctx x"
      "\<not> policy_allows r opts ctx n" "policy_evaluateAll r opts names ctx = policy_evaluate r opts n ctx"
      using Cons by (auto simp: Let_def policy_evaluate_allowed)
    then show ?thesis
      using True by (intro exI[of _ "m # pre"] exI[of _ n] exI[of _ post]) (simp add: Let_def policy_evaluate_allowed)
  next
    case False
    then show ?thesis
      by (intro exI[of _ "[]"] exI[of _ m] exI[of _ names]) (simp add: Let_def policy_evaluate_allowed)
  qed
qed simp

section \<open>Property\<close>

text \<open>Policies fail closed and combine by AND: on a route with policies the guard lets a request
  through exactly when each named policy allows it, where a policy that throws denies, and one that is
  not registered denies unless deny-by-default is off; on a refusal the reason is that of the first
  policy, in the order of the decorator, that does not allow.\<close>

theorem policies_fail_closed_and_conjunctive:
  "(policy_canActivate r opts False (Some (names, meta)) request = Inr True \<longleftrightarrow>
      (\<forall>n \<in> set names. policy_allows r opts (policy_buildContext opts request meta) n)) \<and>
    (\<forall>reason. policy_canActivate r opts False (Some (names, meta)) request = Inl reason \<longrightarrow>
      (\<exists>pre n post. names = pre @ n # post \<and>
         (\<forall>m \<in> set pre. policy_allows r opts (policy_buildContext opts request meta) m) \<and>
         \<not> policy_allows r opts (policy_buildContext opts request meta) n \<and>
         reason = or_else (ar_reason (policy_evaluate r opts n (policy_buildContext opts request meta)))
           ''Policy denied access''))"
proof -
  let ?ctx = "policy_buildContext opts request meta"
  let ?res = "policy_evaluateAll r opts names ?ctx"
  have single: "(if length names = 1 then policy_evaluate r opts (hd names) ?ctx else ?res) = ?res
      \<or> (length names = 1 \<and> ar_allowed ?res)"
    by (cases names; cases "tl names") (auto simp: Let_def)
  have allowed: "ar_allowed (if length names = 1 then policy_evaluate r opts (hd names) ?ctx else ?res) = ar_allowed ?res"
    by (cases names; cases "tl names") (auto simp: Let_def)
  have *: "policy_canActivate r opts False (Some (names, meta)) request =
      (if \<not> ar_allowed ?res then Inl (or_else (ar_reason ?res) ''Policy denied access'') else Inr True)"
    using single allowed by (auto simp: policy_canActivate_def Let_def)
  show ?thesis
  proof (cases "ar_allowed ?res")
    case True
    then show ?thesis unfolding * policy_evaluateAll_allowed[symmetric] by simp
  next
    case False
    from policy_evaluateAll_denied[OF this] obtain pre n post where
      d: "names = pre @ n # post" "\<forall>m \<in> set pre. policy_allows r opts ?ctx m" "\<not> policy_allows r opts ?ctx n"
        "?res = policy_evaluate r opts n ?ctx" by blast
    have "policy_canActivate r opts False (Some (names, meta)) request =
        Inl (or_else (ar_reason (policy_evaluate r opts n ?ctx)) ''Policy denied access'')"
      using False unfolding * d(4) by simp
    then show ?thesis using d(1-3) by fastforce
  qed
qed

definition no_claims :: policy_request where
  "no_claims = \<lparr>pq_sub = None, pq_id = None, pq_roles = None, pq_permissions = None, pq_organizationId = None,
     pq_departmentId = None, pq_teamId = None, pq_paramId = None, pq_purposeHeader = None, pq_purposeBody = None\<rparr>"

theorem policies_fail_closed_and_conjunctive_witness:
  "policy_canActivate [(''boom'', \<lparr>po_name = ''boom'', po_evaluate = \<lambda>_. Inl ''x''\<rparr>)] None False
     (Some ([''boom''], None)) no_claims \<noteq> Inr True"
proof -
  let ?r = "[(''boom'', \<lparr>po_name = ''boom'', po_evaluate = \<lambda>_. Inl ''x''\<rparr>)]"
  have "\<not> policy_allows ?r None (policy_buildContext None no_claims None) ''boom''"
    by (simp add: policy_allows_def policy_get_def)
  then show ?thesis
    using policies_fail_closed_and_conjunctive[of ?r None "[''boom'']" None no_claims] by auto
qed

end
