(* ===== verification/Audit_Log.thy ===== *)
theory Audit_Log
  imports Boot_Prelude
begin

text \<open>
  \<open>src/src/audit/\<close>: the audit service (\<open>audit.service.ts\<close>) with the hash chain it threads through the
  entries it logs, over the interface \<open>AuditStore\<close> (\<open>interfaces.ts\<close>), and the in-memory store
  (\<open>memory-audit.store.ts\<close>). The digest of the JSON text of an entry is a parameter \<open>sha\<close> on the entry;
  dates are milliseconds and the structured metadata has type \<open>'m\<close>.
\<close>

section \<open>Entries, events and filters\<close>

datatype audit_result = ALLOW | DENY | ERROR

definition audit_result_str :: "audit_result \<Rightarrow> string" where
  "audit_result_str r = (case r of ALLOW \<Rightarrow> ''ALLOW'' | DENY \<Rightarrow> ''DENY'' | ERROR \<Rightarrow> ''ERROR'')"

record 'm audit_entry =
  ae_id :: "string option"
  ae_actorId :: string
  ae_action :: string
  ae_resource :: "string option"
  ae_resourceId :: "string option"
  ae_result :: audit_result
  ae_organizationId :: "string option"
  ae_departmentId :: "string option"
  ae_ipAddress :: "string option"
  ae_userAgent :: "string option"
  ae_timestamp :: int
  ae_purposeOfUse :: "string option"
  ae_metadata :: "'m option"
  ae_previousHash :: "string option"
  ae_entryHash :: "string option"

datatype security_severity = LOW | MEDIUM | HIGH | CRITICAL

definition severity_str :: "security_severity \<Rightarrow> string" where
  "severity_str s = (case s of LOW \<Rightarrow> ''LOW'' | MEDIUM \<Rightarrow> ''MEDIUM'' | HIGH \<Rightarrow> ''HIGH'' | CRITICAL \<Rightarrow> ''CRITICAL'')"

record 'm security_event =
  sv_id :: "string option"
  sv_type :: string
  sv_severity :: security_severity
  sv_actorId :: "string option"
  sv_description :: string
  sv_ipAddress :: "string option"
  sv_userAgent :: "string option"
  sv_timestamp :: int
  sv_metadata :: "'m option"

record audit_filter =
  af_actorId :: "string option"
  af_action :: "string option"
  af_resource :: "string option"
  af_resourceId :: "string option"
  af_result :: "string option"
  af_organizationId :: "string option"
  af_from :: "int option"
  af_to :: "int option"
  af_limit :: "int option"
  af_offset :: "int option"

record security_filter =
  sf_type :: "string option"
  sf_severity :: "string option"
  sf_actorId :: "string option"
  sf_from :: "int option"
  sf_to :: "int option"
  sf_limit :: "int option"
  sf_offset :: "int option"

section \<open>The in-memory store\<close>

record 'm memory_audit =
  ma_auditEntries :: "'m audit_entry list"
  ma_securityEvents :: "'m security_event list"
  ma_counter :: nat

definition mas_empty :: "'m memory_audit" where
  "mas_empty = \<lparr>ma_auditEntries = [], ma_securityEvents = [], ma_counter = 0\<rparr>"

definition mas_saveAuditEntry :: "'m audit_entry \<Rightarrow> 'm memory_audit \<Rightarrow> 'm memory_audit" where
  "mas_saveAuditEntry entry s = (case ae_id entry of
     Some i \<Rightarrow> s\<lparr>ma_auditEntries := ma_auditEntries s @ [entry]\<rparr>
   | None \<Rightarrow> let c = Suc (ma_counter s) in
       s\<lparr>ma_counter := c,
         ma_auditEntries := ma_auditEntries s @ [entry\<lparr>ae_id := Some (''audit_'' @ js_of_nat c)\<rparr>]\<rparr>)"

definition mas_saveSecurityEvent :: "'m security_event \<Rightarrow> 'm memory_audit \<Rightarrow> 'm memory_audit" where
  "mas_saveSecurityEvent event s = (case sv_id event of
     Some i \<Rightarrow> s\<lparr>ma_securityEvents := ma_securityEvents s @ [event]\<rparr>
   | None \<Rightarrow> let c = Suc (ma_counter s) in
       s\<lparr>ma_counter := c,
         ma_securityEvents := ma_securityEvents s @ [event\<lparr>sv_id := Some (''sec_'' @ js_of_nat c)\<rparr>]\<rparr>)"

text \<open>An absent or empty filter text keeps every entry.\<close>

definition by_text :: "string option \<Rightarrow> ('e \<Rightarrow> string option) \<Rightarrow> 'e list \<Rightarrow> 'e list" where
  "by_text wanted field xs = (case wanted of
     None \<Rightarrow> xs | Some w \<Rightarrow> if w = [] then xs else filter (\<lambda>e. field e = Some w) xs)"

definition by_period :: "int option \<Rightarrow> int option \<Rightarrow> ('e \<Rightarrow> int) \<Rightarrow> 'e list \<Rightarrow> 'e list" where
  "by_period from to time xs =
     (let xs = (case from of None \<Rightarrow> xs | Some t \<Rightarrow> filter (\<lambda>e. t \<le> time e) xs)
      in case to of None \<Rightarrow> xs | Some t \<Rightarrow> filter (\<lambda>e. time e \<le> t) xs)"

text \<open>\<open>xs.slice(a, b)\<close>: a negative index counts from the end.\<close>

definition list_slice :: "int \<Rightarrow> int \<Rightarrow> 'a list \<Rightarrow> 'a list" where
  "list_slice a b xs =
     (let n = int (length xs); pos = (\<lambda>i. nat (if i < 0 then max 0 (n + i) else min i n))
      in drop (pos a) (take (pos b) xs))"

definition page_newest :: "int option \<Rightarrow> int option \<Rightarrow> ('e \<Rightarrow> int) \<Rightarrow> 'e list \<Rightarrow> 'e list" where
  "page_newest offset limit time xs =
     (let off = or_else offset 0; lim = or_else limit 100
      in list_slice off (off + lim) (sort_key (\<lambda>e. - time e) xs))"

definition audit_select :: "audit_filter \<Rightarrow> 'm audit_entry list \<Rightarrow> 'm audit_entry list" where
  "audit_select f xs = by_period (af_from f) (af_to f) ae_timestamp
     (by_text (af_organizationId f) ae_organizationId
     (by_text (af_result f) (\<lambda>e. Some (audit_result_str (ae_result e)))
     (by_text (af_resourceId f) ae_resourceId
     (by_text (af_resource f) ae_resource
     (by_text (af_action f) (\<lambda>e. Some (ae_action e))
     (by_text (af_actorId f) (\<lambda>e. Some (ae_actorId e)) xs))))))"

definition mas_findAuditEntries :: "audit_filter \<Rightarrow> 'm memory_audit \<Rightarrow> 'm audit_entry list" where
  "mas_findAuditEntries f s =
     page_newest (af_offset f) (af_limit f) ae_timestamp (audit_select f (ma_auditEntries s))"

definition mas_countAuditEntries :: "audit_filter \<Rightarrow> 'm memory_audit \<Rightarrow> nat" where
  "mas_countAuditEntries f s = length (mas_findAuditEntries f s)"

definition mas_findSecurityEvents :: "security_filter \<Rightarrow> 'm memory_audit \<Rightarrow> 'm security_event list" where
  "mas_findSecurityEvents f s = page_newest (sf_offset f) (sf_limit f) sv_timestamp
     (by_period (sf_from f) (sf_to f) sv_timestamp
     (by_text (sf_actorId f) sv_actorId
     (by_text (sf_severity f) (\<lambda>e. Some (severity_str (sv_severity e)))
     (by_text (sf_type f) (\<lambda>e. Some (sv_type e)) (ma_securityEvents s)))))"

text \<open>The purged store and the numbers of audit entries and security events deleted.\<close>

definition mas_purgeOlderThan :: "int \<Rightarrow> 'm memory_audit \<Rightarrow> (nat \<times> nat) \<times> 'm memory_audit" where
  "mas_purgeOlderThan date s =
     (let kept = filter (\<lambda>e. date \<le> ae_timestamp e) (ma_auditEntries s);
          keptSec = filter (\<lambda>e. date \<le> sv_timestamp e) (ma_securityEvents s)
      in ((length (ma_auditEntries s) - length kept, length (ma_securityEvents s) - length keptSec),
          s\<lparr>ma_auditEntries := kept, ma_securityEvents := keptSec\<rparr>))"

section \<open>The service\<close>

text \<open>
  The service keeps the last hash of its own process and a store. \<open>log\<close> links the entry before it waits
  for the store, so calls are linked in the order they are made.
\<close>

record 's audit_service =
  as_lastHash :: "string option"
  as_store :: 's

definition audit_log ::
  "('m audit_entry \<Rightarrow> string) \<Rightarrow> ('m audit_entry \<Rightarrow> 's \<Rightarrow> 's) \<Rightarrow> int \<Rightarrow> 'm audit_entry
    \<Rightarrow> 's audit_service \<Rightarrow> 's audit_service" where
  "audit_log sha save now entry sv =
     (let full = entry\<lparr>ae_timestamp := now, ae_previousHash := as_lastHash sv\<rparr>;
          full = full\<lparr>ae_entryHash := Some (sha full)\<rparr>
      in \<lparr>as_lastHash = ae_entryHash full, as_store = save full (as_store sv)\<rparr>)"

text \<open>The entry \<open>logAccess\<close> and \<open>logDenial\<close> build; \<open>log\<close> overwrites the time.\<close>

definition audit_record ::
  "audit_result \<Rightarrow> string \<Rightarrow> string \<Rightarrow> string option \<Rightarrow> string option \<Rightarrow> 'm option \<Rightarrow> 'm audit_entry" where
  "audit_record result actorId action resource resourceId metadata =
     \<lparr>ae_id = None, ae_actorId = actorId, ae_action = action, ae_resource = resource,
      ae_resourceId = resourceId, ae_result = result, ae_organizationId = None, ae_departmentId = None,
      ae_ipAddress = None, ae_userAgent = None, ae_timestamp = 0, ae_purposeOfUse = None,
      ae_metadata = metadata, ae_previousHash = None, ae_entryHash = None\<rparr>"

definition audit_logAccess ::
  "('m audit_entry \<Rightarrow> string) \<Rightarrow> ('m audit_entry \<Rightarrow> 's \<Rightarrow> 's) \<Rightarrow> int \<Rightarrow> string \<Rightarrow> string \<Rightarrow> string option
    \<Rightarrow> string option \<Rightarrow> 'm option \<Rightarrow> 's audit_service \<Rightarrow> 's audit_service" where
  "audit_logAccess sha save now actorId action resource resourceId metadata =
     audit_log sha save now (audit_record ALLOW actorId action resource resourceId metadata)"

definition audit_logDenial ::
  "('m audit_entry \<Rightarrow> string) \<Rightarrow> ('m audit_entry \<Rightarrow> 's \<Rightarrow> 's) \<Rightarrow> int \<Rightarrow> string \<Rightarrow> string \<Rightarrow> string option
    \<Rightarrow> string option \<Rightarrow> 'm option \<Rightarrow> 's audit_service \<Rightarrow> 's audit_service" where
  "audit_logDenial sha save now actorId action resource resourceId metadata =
     audit_log sha save now (audit_record DENY actorId action resource resourceId metadata)"

definition audit_logSecurityEvent ::
  "('m security_event \<Rightarrow> 's \<Rightarrow> 's) \<Rightarrow> int \<Rightarrow> 'm security_event \<Rightarrow> 's audit_service \<Rightarrow> 's audit_service" where
  "audit_logSecurityEvent saveSec now event sv =
     sv\<lparr>as_store := saveSec (event\<lparr>sv_timestamp := now\<rparr>) (as_store sv)\<rparr>"

subsection \<open>The request context\<close>

record audit_user =
  au_sub :: "string option"
  au_id :: "string option"
  au_organizationId :: "string option"

record audit_request =
  aq_user :: "audit_user option"
  aq_ip :: "string option"
  aq_remoteAddress :: "string option"
  aq_userAgent :: "string option"

record audit_context =
  ax_actorId :: string
  ax_ipAddress :: "string option"
  ax_userAgent :: "string option"
  ax_organizationId :: "string option"

definition audit_extractRequestContext ::
  "(audit_request \<Rightarrow> string option) option \<Rightarrow> (audit_request \<Rightarrow> string option) option
    \<Rightarrow> audit_request \<Rightarrow> audit_context" where
  "audit_extractRequestContext extractIp extractUa req =
     (let ip = or_else extractIp (\<lambda>r. case aq_ip r of None \<Rightarrow> aq_remoteAddress r | Some i \<Rightarrow> Some i);
          ua = or_else extractUa aq_userAgent;
          sub = Option.bind (aq_user req) au_sub;
          uid = Option.bind (aq_user req) au_id
      in \<lparr>ax_actorId = or_else sub (or_else uid ''anonymous''), ax_ipAddress = ip req,
          ax_userAgent = ua req, ax_organizationId = Option.bind (aq_user req) au_organizationId\<rparr>)"

section \<open>The chain\<close>

text \<open>What the digest of a stored entry covers: not the digest itself, nor the id the store gave.\<close>

definition audit_payload :: "'m audit_entry \<Rightarrow> 'm audit_entry" where
  "audit_payload e = e\<lparr>ae_id := None, ae_entryHash := None\<rparr>"

definition audit_no_id :: "'m audit_entry \<Rightarrow> 'm audit_entry" where
  "audit_no_id e = e\<lparr>ae_id := None\<rparr>"

text \<open>\<open>chain_ok sha first es fin\<close>: the entries link the hash \<open>first\<close> to the hash \<open>fin\<close>.\<close>

fun chain_ok :: "('m audit_entry \<Rightarrow> string) \<Rightarrow> string option \<Rightarrow> 'm audit_entry list \<Rightarrow> string option \<Rightarrow> bool" where
  "chain_ok sha first [] fin \<longleftrightarrow> first = fin"
| "chain_ok sha first (e # es) fin \<longleftrightarrow> ae_previousHash e = first
     \<and> ae_entryHash e = Some (sha (audit_payload e)) \<and> chain_ok sha (ae_entryHash e) es fin"

lemma chain_ok_append:
  "chain_ok sha a (es @ fs) c \<longleftrightarrow> (\<exists>b. chain_ok sha a es b \<and> chain_ok sha b fs c)"
  by (induction es arbitrary: a) auto

lemma chain_ok_snoc:
  "chain_ok sha a (es @ [e]) c \<longleftrightarrow> chain_ok sha a es (ae_previousHash e)
     \<and> ae_entryHash e = Some (sha (audit_payload e)) \<and> c = ae_entryHash e"
  by (auto simp: chain_ok_append)

lemma audit_payload_no_id [simp]: "audit_payload (audit_no_id e) = audit_payload e"
  by (simp add: audit_payload_def audit_no_id_def)

lemma audit_no_id_fields [simp]:
  "ae_previousHash (audit_no_id e) = ae_previousHash e" "ae_entryHash (audit_no_id e) = ae_entryHash e"
  by (simp_all add: audit_no_id_def)

lemma audit_payload_previous [simp]: "ae_previousHash (audit_payload e) = ae_previousHash e"
  by (simp add: audit_payload_def)

lemma chain_ok_no_id: "chain_ok sha a (map audit_no_id es) c = chain_ok sha a es c"
  by (induction es arbitrary: a) auto

lemma audit_no_id_renumbered: "map audit_no_id (map (\<lambda>e. e\<lparr>ae_id := Some (g e)\<rparr>) es) = map audit_no_id es"
  by (simp add: audit_no_id_def)

lemma chain_ok_renumbered: "chain_ok sha a (map (\<lambda>e. e\<lparr>ae_id := Some (g e)\<rparr>) es) c = chain_ok sha a es c"
  by (simp only: chain_ok_no_id[symmetric, of sha a "map _ es"] chain_ok_no_id[symmetric, of sha a es]
      audit_no_id_renumbered)

lemma audit_no_id_eqI:
  "audit_payload e = audit_payload f \<Longrightarrow> ae_entryHash e = ae_entryHash f \<Longrightarrow> audit_no_id e = audit_no_id f"
  by (cases e; cases f) (simp add: audit_payload_def audit_no_id_def)

text \<open>Two chains with the same ends are the same entries, or exhibit two payloads with one digest.\<close>

lemma chain_ok_unique:
  assumes "chain_ok sha None es fin" and "chain_ok sha None fs fin"
  shows "map audit_no_id fs = map audit_no_id es \<or>
    (\<exists>e\<in>set es. \<exists>f\<in>set fs. audit_payload e \<noteq> audit_payload f \<and> sha (audit_payload e) = sha (audit_payload f))"
  using assms
proof (induction es arbitrary: fs fin rule: rev_induct)
  case Nil
  have "fin = None" using Nil.prems(1) by simp
  then have "\<not> chain_ok sha None (gs @ [g]) fin" for gs g
    unfolding chain_ok_snoc by fastforce
  then have "fs = []" using Nil.prems(2) by (cases fs rule: rev_cases) simp_all
  then show ?case by simp
next
  case (snoc e es)
  show ?case
  proof (cases fs rule: rev_cases)
    case Nil
    with snoc.prems show ?thesis by (simp add: chain_ok_snoc)
  next
    case (snoc gs g)
    have e: "chain_ok sha None es (ae_previousHash e)" "ae_entryHash e = Some (sha (audit_payload e))"
      "fin = ae_entryHash e"
      using snoc.prems(1) unfolding chain_ok_snoc by blast+
    have g: "chain_ok sha None gs (ae_previousHash g)" "ae_entryHash g = Some (sha (audit_payload g))"
      "fin = ae_entryHash g"
      using snoc.prems(2) unfolding snoc chain_ok_snoc by blast+
    have same: "sha (audit_payload e) = sha (audit_payload g)" using e(2,3) g(2,3) by (metis option.inject)
    show ?thesis
    proof (cases "audit_payload e = audit_payload g")
      case True
      then have "ae_previousHash e = ae_previousHash g" using audit_payload_previous[of e] by simp
      then have "chain_ok sha None gs (ae_previousHash e)" using g(1) by simp
      note IH = snoc.IH[OF e(1) this]
      have same_entry: "audit_no_id g = audit_no_id e"
        by (rule audit_no_id_eqI[OF True[symmetric]]) (simp only: e(3)[symmetric] g(3)[symmetric])
      from IH show ?thesis
      proof
        assume "map audit_no_id gs = map audit_no_id es"
        then show ?thesis using same_entry by (simp add: \<open>fs = gs @ [g]\<close>)
      next
        assume "\<exists>e\<in>set es. \<exists>f\<in>set gs. audit_payload e \<noteq> audit_payload f
          \<and> sha (audit_payload e) = sha (audit_payload f)"
        then show ?thesis unfolding \<open>fs = gs @ [g]\<close> set_append by blast
      qed
    next
      case False
      then show ?thesis
        unfolding \<open>fs = gs @ [g]\<close> using same by (intro disjI2 bexI[of _ e] bexI[of _ g]) simp_all
    qed
  qed
qed

section \<open>The interface AuditStore\<close>

locale audit_store_spec =
  fixes entries :: "'s \<Rightarrow> 'm audit_entry list"
    and save :: "'m audit_entry \<Rightarrow> 's \<Rightarrow> 's"
    and saveSec :: "'m security_event \<Rightarrow> 's \<Rightarrow> 's"
    and purge :: "int \<Rightarrow> 's \<Rightarrow> 's"
  assumes entries_save: "map audit_no_id (entries (save e s)) = map audit_no_id (entries s) @ [audit_no_id e]"
    and entries_saveSec: "entries (saveSec ev s) = entries s"
    and entries_purge: "entries (purge d s) = filter (\<lambda>e. d \<le> ae_timestamp e) (entries s)"

datatype 'm audit_call = LogCall int "'m audit_entry" | SecurityCall int "'m security_event"

primrec audit_call_run ::
  "('m audit_entry \<Rightarrow> string) \<Rightarrow> ('m audit_entry \<Rightarrow> 's \<Rightarrow> 's) \<Rightarrow> ('m security_event \<Rightarrow> 's \<Rightarrow> 's)
    \<Rightarrow> 'm audit_call \<Rightarrow> 's audit_service \<Rightarrow> 's audit_service" where
  "audit_call_run sha save saveSec (LogCall now e) sv = audit_log sha save now e sv"
| "audit_call_run sha save saveSec (SecurityCall now ev) sv = audit_logSecurityEvent saveSec now ev sv"

text \<open>The caller leaves the id and the digest of the entry to the library.\<close>

primrec audit_call_plain :: "'m audit_call \<Rightarrow> bool" where
  "audit_call_plain (LogCall now e) \<longleftrightarrow> ae_id e = None \<and> ae_entryHash e = None"
| "audit_call_plain (SecurityCall now ev) \<longleftrightarrow> True"

abbreviation audit_run where
  "audit_run sha save saveSec calls sv \<equiv> fold (audit_call_run sha save saveSec) calls sv"

lemma audit_log_chain:
  assumes "ae_id e = None" and "ae_entryHash e = None"
    and "as_lastHash sv = p"
  shows "\<exists>full. audit_log sha save now e sv = \<lparr>as_lastHash = ae_entryHash full, as_store = save full (as_store sv)\<rparr>
    \<and> ae_previousHash full = p \<and> ae_entryHash full = Some (sha (audit_payload full))"
proof -
  define full where "full = e\<lparr>ae_timestamp := now, ae_previousHash := p\<rparr>"
  have "audit_payload (full\<lparr>ae_entryHash := Some (sha full)\<rparr>) = full"
    using assms(1,2) by (cases e) (simp add: audit_payload_def full_def)
  then show ?thesis
    using assms(3) by (intro exI[of _ "full\<lparr>ae_entryHash := Some (sha full)\<rparr>"])
      (simp add: audit_log_def Let_def full_def)
qed

context audit_store_spec
begin

lemma run_chain:
  assumes "\<forall>c\<in>set calls. audit_call_plain c" and "chain_ok sha first (entries (as_store sv)) (as_lastHash sv)"
  shows "chain_ok sha first (entries (as_store (audit_run sha save saveSec calls sv)))
    (as_lastHash (audit_run sha save saveSec calls sv))"
  using assms
proof (induction calls arbitrary: sv)
  case (Cons c calls)
  have "chain_ok sha first (entries (as_store (audit_call_run sha save saveSec c sv)))
      (as_lastHash (audit_call_run sha save saveSec c sv))"
  proof (cases c)
    case (LogCall now e)
    then have "ae_id e = None" "ae_entryHash e = None" using Cons.prems(1) by simp_all
    from audit_log_chain[OF this refl, of sha save now sv] obtain full where
      full: "audit_log sha save now e sv = \<lparr>as_lastHash = ae_entryHash full, as_store = save full (as_store sv)\<rparr>"
        "ae_previousHash full = as_lastHash sv" "ae_entryHash full = Some (sha (audit_payload full))" by blast
    have "chain_ok sha first (map audit_no_id (entries (save full (as_store sv)))) (ae_entryHash full)"
      using full Cons.prems(2) by (simp add: entries_save chain_ok_snoc chain_ok_no_id)
    then show ?thesis using full LogCall by (simp add: chain_ok_no_id)
  next
    case (SecurityCall now ev)
    then show ?thesis using Cons.prems(2) by (simp add: audit_logSecurityEvent_def entries_saveSec)
  qed
  then show ?case using Cons.IH Cons.prems(1) by simp
qed simp

lemma run_tamper_evident:
  assumes "\<forall>c\<in>set calls. audit_call_plain c" and "entries (as_store sv) = []" and "as_lastHash sv = None"
    and "chain_ok sha None fs (as_lastHash (audit_run sha save saveSec calls sv))"
  defines "es \<equiv> entries (as_store (audit_run sha save saveSec calls sv))"
  shows "map audit_no_id fs = map audit_no_id es \<or>
    (\<exists>e\<in>set es. \<exists>f\<in>set fs. audit_payload e \<noteq> audit_payload f \<and> sha (audit_payload e) = sha (audit_payload f))"
proof -
  have "chain_ok sha None es (as_lastHash (audit_run sha save saveSec calls sv))"
    unfolding es_def by (rule run_chain[OF assms(1)]) (simp add: assms(2,3))
  then show ?thesis using assms(4) by (rule chain_ok_unique)
qed

end

lemma mas_save_entries:
  "map audit_no_id (ma_auditEntries (mas_saveAuditEntry e s)) =
     map audit_no_id (ma_auditEntries s) @ [audit_no_id e]"
  by (cases "ae_id e") (simp_all add: mas_saveAuditEntry_def Let_def audit_no_id_def)

interpretation mas: audit_store_spec ma_auditEntries mas_saveAuditEntry mas_saveSecurityEvent
  "\<lambda>d s. snd (mas_purgeOlderThan d s)"
proof
  fix ev :: "'a security_event" and s
  show "ma_auditEntries (mas_saveSecurityEvent ev s) = ma_auditEntries s"
    by (cases "sv_id ev") (simp_all add: mas_saveSecurityEvent_def Let_def)
qed (simp_all add: mas_save_entries mas_purgeOlderThan_def Let_def)


section \<open>Queries\<close>

lemma by_text_subset [intro]: "e \<in> set (by_text w f xs) \<Longrightarrow> e \<in> set xs"
  by (cases w) (auto simp: by_text_def split: if_splits)

lemma by_text_member:
  "e \<in> set (by_text w f xs) \<longleftrightarrow> e \<in> set xs \<and> (case w of None \<Rightarrow> True | Some t \<Rightarrow> t = [] \<or> f e = Some t)"
  by (cases w) (auto simp: by_text_def)

lemma by_period_member:
  "e \<in> set (by_period from to time xs) \<longleftrightarrow>
     e \<in> set xs \<and> pred_option (\<lambda>t. t \<le> time e) from \<and> pred_option (\<lambda>t. time e \<le> t) to"
  by (cases "from"; cases to) (auto simp: by_period_def)

lemma list_slice_page: "0 \<le> a \<Longrightarrow> 0 \<le> n \<Longrightarrow> list_slice a (a + n) xs = take (nat n) (drop (nat a) xs)"
proof -
  assume a: "0 \<le> a" and n: "0 \<le> n"
  then have "list_slice a (a + n) xs = drop (nat a) (take (nat a + nat n) xs)"
    by (cases "a \<le> int (length xs)"; cases "a + n \<le> int (length xs)")
      (simp_all add: list_slice_def Let_def min_def nat_add_distrib)
  then show ?thesis by (simp add: drop_take)
qed

lemma page_newest_page:
  assumes "0 \<le> or_else offset 0" and "0 \<le> or_else limit 100"
  shows "page_newest offset limit time xs =
    take (nat (or_else limit 100)) (drop (nat (or_else offset 0)) (sort_key (\<lambda>e. - time e) xs))"
  by (simp add: page_newest_def Let_def list_slice_page assms)

text \<open>A page runs from the newest entry, and the count of a filter is the length of one page of it.\<close>

lemma audit_find_sorted:
  assumes "0 \<le> or_else (af_offset f) 0" and "0 \<le> or_else (af_limit f) 100"
  shows "sorted (map (\<lambda>e. - ae_timestamp e) (mas_findAuditEntries f s))"
  by (simp add: mas_findAuditEntries_def page_newest_page[OF assms] take_map[symmetric] drop_map[symmetric]
      sorted_wrt_take sorted_wrt_drop)

lemma audit_count_is_capped:
  assumes "af_limit f = None" and "af_offset f = None"
  shows "mas_countAuditEntries f s = min 100 (length (audit_select f (ma_auditEntries s)))"
  by (simp add: mas_countAuditEntries_def mas_findAuditEntries_def page_newest_page assms)

section \<open>The property\<close>

definition fresh_service :: "'m memory_audit audit_service" where
  "fresh_service = \<lparr>as_lastHash = None, as_store = mas_empty\<rparr>"

definition logged_entries :: "('m audit_entry \<Rightarrow> string) \<Rightarrow> 'm audit_call list \<Rightarrow> 'm audit_entry list" where
  "logged_entries sha calls =
     ma_auditEntries (as_store (audit_run sha mas_saveAuditEntry mas_saveSecurityEvent calls fresh_service))"

definition logged_hash :: "('m audit_entry \<Rightarrow> string) \<Rightarrow> 'm audit_call list \<Rightarrow> string option" where
  "logged_hash sha calls =
     as_lastHash (audit_run sha mas_saveAuditEntry mas_saveSecurityEvent calls fresh_service)"

text \<open>C20. The audit log is tamper evident. Whatever calls to \<open>log\<close> and \<open>logSecurityEvent\<close> a fresh service with
  a memory store has answered, its entries form a chain from no hash to the service's last hash: each
  holds the digest of its own content and the digest of the entry before it. And any other sequence of
  entries that passes as such a chain up to the same last hash, of whatever length, is the logged one up
  to the ids the store assigns, or contains an entry whose content differs from a logged one but has the
  same digest: an edit, a removal, an insertion or a swap cannot go unnoticed without a collision. The
  ids themselves are not covered: renumbering every entry leaves the chain intact.\<close>

theorem audit_chain_is_tamper_evident:
  assumes "\<forall>c\<in>set calls. audit_call_plain c"
  shows "chain_ok sha None (logged_entries sha calls) (logged_hash sha calls)
    \<and> (\<forall>fs. chain_ok sha None fs (logged_hash sha calls) \<longrightarrow>
        map audit_no_id fs = map audit_no_id (logged_entries sha calls) \<or>
        (\<exists>e\<in>set (logged_entries sha calls). \<exists>f\<in>set fs.
          audit_payload e \<noteq> audit_payload f \<and> sha (audit_payload e) = sha (audit_payload f)))
    \<and> chain_ok sha None (map (\<lambda>e. e\<lparr>ae_id := Some (g e)\<rparr>) (logged_entries sha calls)) (logged_hash sha calls)"
proof (intro conjI allI impI)
  show chain: "chain_ok sha None (logged_entries sha calls) (logged_hash sha calls)"
    unfolding logged_entries_def logged_hash_def
    by (rule mas.run_chain[OF assms]) (simp add: mas_empty_def fresh_service_def)
  show "chain_ok sha None (map (\<lambda>e. e\<lparr>ae_id := Some (g e)\<rparr>) (logged_entries sha calls)) (logged_hash sha calls)"
    using chain by (simp only: chain_ok_renumbered)
next
  fix fs
  assume "chain_ok sha None fs (logged_hash sha calls)"
  then show "map audit_no_id fs = map audit_no_id (logged_entries sha calls) \<or>
      (\<exists>e\<in>set (logged_entries sha calls). \<exists>f\<in>set fs.
        audit_payload e \<noteq> audit_payload f \<and> sha (audit_payload e) = sha (audit_payload f))"
    unfolding logged_entries_def logged_hash_def
    by (rule mas.run_tamper_evident[OF assms, rotated 2])
      (simp_all only: mas_empty_def fresh_service_def audit_service.simps memory_audit.simps)
qed

definition wit_sha :: "nat audit_entry \<Rightarrow> string" where
  "wit_sha e = ae_actorId e @ ''/'' @ ae_action e @ ''/'' @ or_else (ae_previousHash e) ''-''"

definition wit_audit_calls :: "nat audit_call list" where
  "wit_audit_calls = [LogCall 5 (audit_record ALLOW ''ann'' ''login'' None None None),
     LogCall 7 (audit_record DENY ''bob'' ''read'' (Some ''doc'') None (Some 3))]"

theorem audit_chain_is_tamper_evident_witness:
  "chain_ok wit_sha None (logged_entries wit_sha wit_audit_calls) (logged_hash wit_sha wit_audit_calls)
   \<and> logged_hash wit_sha wit_audit_calls = Some ''bob/read/ann/login/-''"
  (is "?chain \<and> ?hash")
proof
  have plain: "\<forall>c\<in>set wit_audit_calls. audit_call_plain c"
    by (simp add: wit_audit_calls_def audit_record_def)
  show ?chain by (rule audit_chain_is_tamper_evident[OF plain, THEN conjunct1])
  show ?hash
    by (simp add: logged_hash_def fresh_service_def wit_audit_calls_def audit_log_def audit_record_def
        wit_sha_def Let_def)
qed

end
