(* ===== verification/Cache_Memory.thy ===== *)
theory Cache_Memory
  imports Boot_Prelude
begin

text \<open>
  \<open>src/src/cache/interfaces.ts\<close> and \<open>adapters/memory-cache.adapter.ts\<close>: the \<open>CacheAdapter\<close> interface with
  its contract, and the in-memory LRU adapter that satisfies it. A value is of any type; \<open>undefined\<close> is
  \<open>None\<close>. TTLs are seconds, the clock is in milliseconds.
\<close>

section \<open>The interface\<close>

record ('s, 'v) cache_adapter =
  ca_get :: "'s \<Rightarrow> int \<Rightarrow> string \<Rightarrow> 'v option \<times> 's"
  ca_set :: "'s \<Rightarrow> int \<Rightarrow> string \<Rightarrow> 'v \<Rightarrow> int option \<Rightarrow> 's"
  ca_del :: "'s \<Rightarrow> string \<Rightarrow> 's"
  ca_delByPrefix :: "'s \<Rightarrow> string \<Rightarrow> 's"
  ca_has :: "'s \<Rightarrow> int \<Rightarrow> string \<Rightarrow> bool \<times> 's"

text \<open>\<open>ttl ? ... : null\<close>: without a time to live, and with 0, an entry never expires.\<close>

definition ttl_live :: "int option \<Rightarrow> int \<Rightarrow> int \<Rightarrow> bool" where
  "ttl_live ttl now t \<longleftrightarrow> (case ttl of None \<Rightarrow> True | Some s \<Rightarrow> s = 0 \<or> t \<le> now + s * 1000)"

text \<open>The contract, on the value \<open>vis s t k\<close> visible under \<open>k\<close> at time \<open>t\<close>: reads change nothing that is
  visible from then on, a write is visible for its time to live and may only evict other keys, a
  deletion removes exactly what it names.\<close>

locale cache_adapter_spec =
  fixes ca :: "('s, 'v) cache_adapter" and vis :: "'s \<Rightarrow> int \<Rightarrow> string \<Rightarrow> 'v option"
  assumes get_vis: "fst (ca_get ca s now k) = vis s now k"
    and get_frame: "now \<le> t \<Longrightarrow> vis (snd (ca_get ca s now k)) t j = vis s t j"
    and set_vis: "now \<le> t \<Longrightarrow> vis (ca_set ca s now k v ttl) t k = (if ttl_live ttl now t then Some v else None)"
    and set_others: "j \<noteq> k \<Longrightarrow> vis (ca_set ca s now k v ttl) t j \<in> {None, vis s t j}"
    and del_vis: "vis (ca_del ca s k) t j = (if j = k then None else vis s t j)"
    and delByPrefix_vis: "vis (ca_delByPrefix ca s p) t j = (if starts_with j p then None else vis s t j)"
    and has_vis: "fst (ca_has ca s now k) \<longleftrightarrow> vis s now k \<noteq> None"
    and has_frame: "now \<le> t \<Longrightarrow> vis (snd (ca_has ca s now k)) t j = vis s t j"
begin

lemma get_after_set: "now \<le> t \<Longrightarrow> ttl_live ttl now t \<Longrightarrow> fst (ca_get ca (ca_set ca s now k v ttl) t k) = Some v"
  by (simp add: get_vis set_vis)

lemma get_after_del: "fst (ca_get ca (ca_del ca s k) t k) = None"
  by (simp add: get_vis del_vis)

lemma del_all_vis: "vis (foldl (ca_del ca) s ks) t j = (if j \<in> set ks then None else vis s t j)"
  by (induction ks arbitrary: s) (auto simp: del_vis)

end

section \<open>MemoryCacheAdapter\<close>

record 'v cache_entry =
  ce_value :: 'v
  ce_expiresAt :: "int option"
  ce_createdAt :: int

record 'v memory_cache =
  mc_store :: "(string, 'v cache_entry) jsmap"
  mc_maxEntries :: nat

definition memory_cache_new :: "nat option \<Rightarrow> 'v memory_cache" where
  "memory_cache_new maxEntries = \<lparr>mc_store = [], mc_maxEntries = or_else maxEntries 1000\<rparr>"

definition entry_expired :: "int \<Rightarrow> 'v cache_entry \<Rightarrow> bool" where
  "entry_expired now entry \<longleftrightarrow> (case ce_expiresAt entry of None \<Rightarrow> False | Some e \<Rightarrow> now > e)"

definition mca_get :: "'v memory_cache \<Rightarrow> int \<Rightarrow> string \<Rightarrow> 'v option \<times> 'v memory_cache" where
  "mca_get s now key = (case jm_get (mc_store s) key of
     None \<Rightarrow> (None, s)
   | Some entry \<Rightarrow>
       if entry_expired now entry then (None, s\<lparr>mc_store := jm_del (mc_store s) key\<rparr>)
       else (Some (ce_value entry), s\<lparr>mc_store := jm_set (jm_del (mc_store s) key) key entry\<rparr>))"

text \<open>Eviction of the oldest key, when the map is full.\<close>

definition mca_evict :: "nat \<Rightarrow> (string, 'v cache_entry) jsmap \<Rightarrow> (string, 'v cache_entry) jsmap" where
  "mca_evict maxEntries store =
     (if length store \<ge> maxEntries
      then (case jm_keys store of [] \<Rightarrow> store | oldestKey # _ \<Rightarrow> jm_del store oldestKey)
      else store)"

definition mca_set :: "'v memory_cache \<Rightarrow> int \<Rightarrow> string \<Rightarrow> 'v \<Rightarrow> int option \<Rightarrow> 'v memory_cache" where
  "mca_set s now key val ttl =
     (let store = (if jm_has (mc_store s) key then jm_del (mc_store s) key else mc_store s);
          entry = \<lparr>ce_value = val,
            ce_expiresAt = (case ttl of None \<Rightarrow> None | Some n \<Rightarrow> if n = 0 then None else Some (now + n * 1000)),
            ce_createdAt = now\<rparr>
      in s\<lparr>mc_store := jm_set (mca_evict (mc_maxEntries s) store) key entry\<rparr>)"

definition mca_del :: "'v memory_cache \<Rightarrow> string \<Rightarrow> 'v memory_cache" where
  "mca_del s key = s\<lparr>mc_store := jm_del (mc_store s) key\<rparr>"

definition mca_delByPrefix :: "'v memory_cache \<Rightarrow> string \<Rightarrow> 'v memory_cache" where
  "mca_delByPrefix s p =
     (let keysToDelete = filter (\<lambda>key. starts_with key p) (jm_keys (mc_store s))
      in s\<lparr>mc_store := foldl jm_del (mc_store s) keysToDelete\<rparr>)"

definition mca_has :: "'v memory_cache \<Rightarrow> int \<Rightarrow> string \<Rightarrow> bool \<times> 'v memory_cache" where
  "mca_has s now key = (case jm_get (mc_store s) key of
     None \<Rightarrow> (False, s)
   | Some entry \<Rightarrow>
       if entry_expired now entry then (False, s\<lparr>mc_store := jm_del (mc_store s) key\<rparr>) else (True, s))"

definition memory_cache_adapter :: "('v memory_cache, 'v) cache_adapter" where
  "memory_cache_adapter = \<lparr>ca_get = mca_get, ca_set = mca_set, ca_del = mca_del,
     ca_delByPrefix = mca_delByPrefix, ca_has = mca_has\<rparr>"

section \<open>The contract holds\<close>

definition mca_vis :: "'v memory_cache \<Rightarrow> int \<Rightarrow> string \<Rightarrow> 'v option" where
  "mca_vis s t k = (case jm_get (mc_store s) k of
     None \<Rightarrow> None | Some e \<Rightarrow> if entry_expired t e then None else Some (ce_value e))"

lemma entry_expired_mono: "now \<le> t \<Longrightarrow> entry_expired now e \<Longrightarrow> entry_expired t e"
  by (simp add: entry_expired_def split: option.splits)

lemma jm_get_dels: "jm_get (foldl jm_del m ks) j = (if j \<in> set ks then None else jm_get m j)"
  by (induction ks arbitrary: m) (auto simp: jm_get_del)

lemma mca_evict_get: "jm_get (mca_evict n m) j \<in> {None, jm_get m j}"
  by (simp add: mca_evict_def jm_get_del split: list.split)

lemma mca_get_vis: "fst (mca_get s now k) = mca_vis s now k"
  by (simp add: mca_get_def mca_vis_def split: option.split)

lemma mca_get_frame: "now \<le> t \<Longrightarrow> mca_vis (snd (mca_get s now k)) t j = mca_vis s t j"
  by (auto simp: mca_get_def mca_vis_def jm_get_set jm_get_del dest: entry_expired_mono split: option.split)

lemma mca_set_vis:
  "now \<le> t \<Longrightarrow> mca_vis (mca_set s now k v ttl) t k = (if ttl_live ttl now t then Some v else None)"
  by (auto simp: mca_set_def mca_vis_def Let_def jm_get_set ttl_live_def entry_expired_def split: option.split)

lemma mca_set_others: "j \<noteq> k \<Longrightarrow> mca_vis (mca_set s now k v ttl) t j \<in> {None, mca_vis s t j}"
proof -
  assume jk: "j \<noteq> k"
  let ?m = "if jm_has (mc_store s) k then jm_del (mc_store s) k else mc_store s"
  have m: "jm_get ?m j = jm_get (mc_store s) j" using jk by (simp add: jm_get_del)
  have g: "jm_get (mc_store (mca_set s now k v ttl)) j = jm_get (mca_evict (mc_maxEntries s) ?m) j"
    using jk by (simp add: mca_set_def Let_def jm_get_set)
  show ?thesis
    using mca_evict_get[of "mc_maxEntries s" ?m j] unfolding mca_vis_def g m
    by (elim insertE emptyE) simp_all
qed

lemma mca_del_vis: "mca_vis (mca_del s k) t j = (if j = k then None else mca_vis s t j)"
  by (simp add: mca_del_def mca_vis_def jm_get_del)

lemma mca_delByPrefix_vis: "mca_vis (mca_delByPrefix s p) t j = (if starts_with j p then None else mca_vis s t j)"
proof (cases "jm_get (mc_store s) j")
  case (Some e)
  then have "j \<in> set (jm_keys (mc_store s))" by (force dest: map_of_SomeD)
  then show ?thesis by (auto simp: mca_delByPrefix_def mca_vis_def Let_def jm_get_dels Some)
qed (simp add: mca_delByPrefix_def mca_vis_def Let_def jm_get_dels)

lemma mca_has_vis: "fst (mca_has s now k) \<longleftrightarrow> mca_vis s now k \<noteq> None"
  by (simp add: mca_has_def mca_vis_def split: option.split)

lemma mca_has_frame: "now \<le> t \<Longrightarrow> mca_vis (snd (mca_has s now k)) t j = mca_vis s t j"
  by (auto simp: mca_has_def mca_vis_def jm_get_del dest: entry_expired_mono split: option.split)

interpretation mca: cache_adapter_spec memory_cache_adapter mca_vis
  by unfold_locales
    (simp_all add: memory_cache_adapter_def mca_get_vis mca_get_frame mca_set_vis mca_del_vis
      mca_delByPrefix_vis mca_has_vis mca_has_frame mca_set_others[simplified])

section \<open>Size and order\<close>

text \<open>The keys are in order of last use; the cache never exceeds its capacity (a capacity of 0 still
  holds the last entry written).\<close>

definition mca_ok :: "'v memory_cache \<Rightarrow> bool" where
  "mca_ok s \<longleftrightarrow> jm_wf (mc_store s) \<and> length (mc_store s) \<le> max 1 (mc_maxEntries s)"

lemma keys_set_del: "jm_keys (jm_set (jm_del m k) k v) = filter (\<lambda>j. j \<noteq> k) (jm_keys m) @ [k]"
  by (simp add: jm_keys_set jm_keys_del)

lemma length_set_del:
  assumes "jm_wf m" and "jm_has m k"
  shows "length (jm_set (jm_del m k) k v) = length m"
proof -
  have "k \<in> set (jm_keys m)" using assms(2) by (auto simp: map_of_eq_None_iff)
  then have "0 < length m" by (auto dest: length_pos_if_in_set)
  then show ?thesis
    using assms jm_length_del_wf[OF assms(1), of k] by (simp add: jm_length_set jm_get_del)
qed

lemma mca_evict_ok:
  "jm_wf m \<Longrightarrow> jm_wf (mca_evict n m)"
  "jm_wf m \<Longrightarrow> length m \<le> max 1 n \<Longrightarrow> Suc (length (mca_evict n m)) \<le> max 1 n"
proof -
  show "jm_wf m \<Longrightarrow> jm_wf (mca_evict n m)"
    by (simp add: mca_evict_def split: list.split)
  assume "jm_wf m" "length m \<le> max 1 n"
  show "Suc (length (mca_evict n m)) \<le> max 1 n"
  proof (cases m)
    case (Cons kv m')
    have "length (jm_del m (fst kv)) = length m'"
      using jm_length_del_wf[OF \<open>jm_wf m\<close>, of "fst kv"] Cons by (cases kv) simp
    then show ?thesis
      using \<open>length m \<le> max 1 n\<close> Cons by (auto simp: mca_evict_def)
  qed (simp add: mca_evict_def)
qed

lemma mca_set_ok: "mca_ok s \<Longrightarrow> mca_ok (mca_set s now k v ttl)"
proof -
  assume s: "mca_ok s"
  let ?m = "if jm_has (mc_store s) k then jm_del (mc_store s) k else mc_store s"
  have wf: "jm_wf ?m" using s by (simp add: mca_ok_def)
  have len: "length ?m \<le> max 1 (mc_maxEntries s)"
    using s jm_length_del[of k "mc_store s"] by (auto simp: mca_ok_def)
  have "length (jm_set (mca_evict (mc_maxEntries s) ?m) k e) \<le> max 1 (mc_maxEntries s)" for e
    using mca_evict_ok(2)[OF wf len] by (simp add: jm_length_set)
  then show ?thesis
    using mca_evict_ok(1)[OF wf] by (simp add: mca_ok_def mca_set_def Let_def)
qed

lemma mca_del_ok: "mca_ok s \<Longrightarrow> mca_ok (s\<lparr>mc_store := jm_del (mc_store s) k\<rparr>)"
  using jm_length_del[of k "mc_store s"] by (simp add: mca_ok_def)

lemma mca_get_ok: "mca_ok s \<Longrightarrow> mca_ok (snd (mca_get s now k))"
  using mca_del_ok[of s k]
  by (auto simp: mca_get_def length_set_del mca_ok_def split: option.split)

lemma mca_dels_ok: "mca_ok s \<Longrightarrow> mca_ok (s\<lparr>mc_store := foldl jm_del (mc_store s) ks\<rparr>)"
proof (induction ks arbitrary: s)
  case (Cons k ks)
  show ?case using Cons.IH[OF mca_del_ok[OF Cons.prems, of k]] by simp
qed simp

inductive mca_step :: "'v memory_cache \<Rightarrow> 'v memory_cache \<Rightarrow> bool" where
  mca_do_get: "mca_step s (snd (mca_get s now k))"
| mca_do_set: "mca_step s (mca_set s now k v ttl)"
| mca_do_del: "mca_step s (mca_del s k)"
| mca_do_delByPrefix: "mca_step s (mca_delByPrefix s p)"
| mca_do_has: "mca_step s (snd (mca_has s now k))"

lemma mca_step_ok: "mca_step s s' \<Longrightarrow> mca_ok s \<Longrightarrow> mca_ok s'"
proof (induction rule: mca_step.induct)
  case (mca_do_has s now k)
  then show ?case by (simp add: mca_has_def mca_del_ok split: option.split)
qed (simp_all add: mca_get_ok mca_set_ok mca_del_def mca_del_ok mca_delByPrefix_def Let_def mca_dels_ok)

lemma mca_step_max: "mca_step s s' \<Longrightarrow> mc_maxEntries s' = mc_maxEntries s"
  by (induction rule: mca_step.induct)
    (simp_all add: mca_get_def mca_set_def mca_del_def mca_delByPrefix_def mca_has_def Let_def split: option.split)

section \<open>Property\<close>



end
