(* ===== verification/Cache_Multi.thy ===== *)
theory Cache_Multi
  imports Cache_Memory
begin

text \<open>
  \<open>src/src/cache/multi-cache.service.ts\<close> and \<open>cache-tags.ts\<close>: two cache layers behind one service, over
  any adapters that keep the contract of \<open>Cache_Memory\<close>, and the tag index built on top of it. The size
  of a value is what \<open>JSON.stringify\<close> gives, a parameter (\<open>None\<close> where it throws).
\<close>

section \<open>MultiCacheService\<close>

record cache_set_options =
  cs_ttl :: "int option"
  cs_l2Ttl :: "int option"

record ('a, 'b, 'v) multi_cache =
  mu_l1 :: "('a, 'v) cache_adapter"
  mu_l2 :: "('b, 'v) cache_adapter option"
  mu_defaultTtl :: int
  mu_jsonSize :: "'v \<Rightarrow> nat option"

type_synonym ('a, 'b) layers = "'a \<times> 'b"

definition SIZE_THRESHOLD_BYTES :: nat where "SIZE_THRESHOLD_BYTES = 1024 * 1024"

definition estimateSize :: "('a, 'b, 'v) multi_cache \<Rightarrow> 'v \<Rightarrow> nat" where
  "estimateSize mu val = or_else (mu_jsonSize mu val) 0"

definition mu_get :: "('a, 'b, 'v) multi_cache \<Rightarrow> ('a, 'b) layers \<Rightarrow> int \<Rightarrow> string \<Rightarrow> 'v option \<times> ('a, 'b) layers" where
  "mu_get mu s now key = (case s of (s1, s2) \<Rightarrow>
     (case ca_get (mu_l1 mu) s1 now key of
        (Some l1Value, s1) \<Rightarrow> (Some l1Value, (s1, s2))
      | (None, s1) \<Rightarrow> (case mu_l2 mu of
          None \<Rightarrow> (None, (s1, s2))
        | Some l2 \<Rightarrow> (case ca_get l2 s2 now key of
            (Some l2Value, s2) \<Rightarrow>
              (Some l2Value,
               (if estimateSize mu l2Value < SIZE_THRESHOLD_BYTES
                then ca_set (mu_l1 mu) s1 now key l2Value (Some (mu_defaultTtl mu)) else s1, s2))
          | (None, s2) \<Rightarrow> (None, (s1, s2))))))"

definition mu_set :: "('a, 'b, 'v) multi_cache \<Rightarrow> ('a, 'b) layers \<Rightarrow> int \<Rightarrow> string \<Rightarrow> 'v
    \<Rightarrow> cache_set_options option \<Rightarrow> ('a, 'b) layers" where
  "mu_set mu s now key val opts = (case s of (s1, s2) \<Rightarrow>
     let l1Ttl = or_else (case opts of None \<Rightarrow> None | Some o1 \<Rightarrow> cs_ttl o1) (mu_defaultTtl mu);
         l2Ttl = or_else (case opts of None \<Rightarrow> None | Some o1 \<Rightarrow> cs_l2Ttl o1) (l1Ttl * 2)
     in (if estimateSize mu val < SIZE_THRESHOLD_BYTES then ca_set (mu_l1 mu) s1 now key val (Some l1Ttl) else s1,
         case mu_l2 mu of None \<Rightarrow> s2 | Some l2 \<Rightarrow> ca_set l2 s2 now key val (Some l2Ttl)))"

definition mu_del :: "('a, 'b, 'v) multi_cache \<Rightarrow> ('a, 'b) layers \<Rightarrow> string \<Rightarrow> ('a, 'b) layers" where
  "mu_del mu s key = (case s of (s1, s2) \<Rightarrow>
     (ca_del (mu_l1 mu) s1 key, case mu_l2 mu of None \<Rightarrow> s2 | Some l2 \<Rightarrow> ca_del l2 s2 key))"

definition mu_delByPrefix :: "('a, 'b, 'v) multi_cache \<Rightarrow> ('a, 'b) layers \<Rightarrow> string \<Rightarrow> ('a, 'b) layers" where
  "mu_delByPrefix mu s p = (case s of (s1, s2) \<Rightarrow>
     (ca_delByPrefix (mu_l1 mu) s1 p, case mu_l2 mu of None \<Rightarrow> s2 | Some l2 \<Rightarrow> ca_delByPrefix l2 s2 p))"

text \<open>\<open>getOrSet\<close>: the factory runs on a world that it may change and may throw (\<open>Inl\<close>); \<open>later\<close> is the time
  when it has finished.\<close>

definition mu_getOrSet :: "('a, 'b, 'v) multi_cache \<Rightarrow> ('a, 'b) layers \<Rightarrow> int \<Rightarrow> int \<Rightarrow> string
    \<Rightarrow> ('w \<Rightarrow> ('e + 'v) \<times> 'w) \<Rightarrow> cache_set_options option \<Rightarrow> 'w \<Rightarrow> ('e + 'v) \<times> ('a, 'b) layers \<times> 'w" where
  "mu_getOrSet mu s now later key factory opts w = (case mu_get mu s now key of
     (Some cached, s) \<Rightarrow> (Inr cached, s, w)
   | (None, s) \<Rightarrow> (case factory w of
       (Inl e, w) \<Rightarrow> (Inl e, s, w)
     | (Inr val, w) \<Rightarrow> (Inr val, mu_set mu s later key val opts, w)))"

definition mu_has :: "('a, 'b, 'v) multi_cache \<Rightarrow> ('a, 'b) layers \<Rightarrow> int \<Rightarrow> string \<Rightarrow> bool \<times> ('a, 'b) layers" where
  "mu_has mu s now key = (case s of (s1, s2) \<Rightarrow>
     (case ca_has (mu_l1 mu) s1 now key of
        (True, s1) \<Rightarrow> (True, (s1, s2))
      | (False, s1) \<Rightarrow> (case mu_l2 mu of
          None \<Rightarrow> (False, (s1, s2))
        | Some l2 \<Rightarrow> (case ca_has l2 s2 now key of (b, s2) \<Rightarrow> (b, (s1, s2))))))"

section \<open>The service over adapters that keep their contract\<close>

locale multi_cache_spec =
  l1: cache_adapter_spec "mu_l1 mu" vis1 + l2: cache_adapter_spec l2 vis2
  for mu :: "('a, 'b, 'v) multi_cache" and vis1 :: "'a \<Rightarrow> int \<Rightarrow> string \<Rightarrow> 'v option"
    and l2 :: "('b, 'v) cache_adapter" and vis2 :: "'b \<Rightarrow> int \<Rightarrow> string \<Rightarrow> 'v option" +
  assumes two_layers: "mu_l2 mu = Some l2"
begin

text \<open>What a read sees: the first layer, or else the second.\<close>

definition mvis :: "('a, 'b) layers \<Rightarrow> int \<Rightarrow> string \<Rightarrow> 'v option" where
  "mvis s t k = (case vis1 (fst s) t k of Some v \<Rightarrow> Some v | None \<Rightarrow> vis2 (snd s) t k)"

lemma mu_get_vis: "fst (mu_get mu s now k) = mvis s now k"
  using l1.get_vis[of "fst s" now k] l2.get_vis[of "snd s" now k]
  by (cases s; cases "ca_get (mu_l1 mu) (fst s) now k"; cases "ca_get l2 (snd s) now k")
    (auto simp: mu_get_def mvis_def two_layers split: option.splits)

lemma mu_set_get:
  assumes "now \<le> t" and "estimateSize mu v < SIZE_THRESHOLD_BYTES"
    and "ttl_live (Some (or_else (case opts of None \<Rightarrow> None | Some o1 \<Rightarrow> cs_ttl o1) (mu_defaultTtl mu))) now t"
  shows "fst (mu_get mu (mu_set mu s now k v opts) t k) = Some v"
  using assms
  by (cases s) (simp add: mu_get_vis mvis_def mu_set_def Let_def l1.set_vis)

lemma mu_set_large_get:
  assumes "now \<le> t" and "\<not> estimateSize mu v < SIZE_THRESHOLD_BYTES"
    and "ttl_live (Some (or_else (case opts of None \<Rightarrow> None | Some o1 \<Rightarrow> cs_l2Ttl o1)
           (or_else (case opts of None \<Rightarrow> None | Some o1 \<Rightarrow> cs_ttl o1) (mu_defaultTtl mu) * 2))) now t"
  shows "fst (mu_get mu (mu_set mu s now k v opts) t k) =
    (case vis1 (fst s) t k of Some old \<Rightarrow> Some old | None \<Rightarrow> Some v)"
  using assms
  by (cases s) (simp add: mu_get_vis mvis_def mu_set_def Let_def two_layers l2.set_vis split: option.split)

lemma mu_del_vis: "mvis (mu_del mu s k) t j = (if j = k then None else mvis s t j)"
  by (cases s) (simp add: mvis_def mu_del_def two_layers l1.del_vis l2.del_vis split: option.split)

lemma mu_delByPrefix_vis: "mvis (mu_delByPrefix mu s p) t j = (if starts_with j p then None else mvis s t j)"
  by (cases s) (simp add: mvis_def mu_delByPrefix_def two_layers l1.delByPrefix_vis l2.delByPrefix_vis split: option.split)

lemma mu_has_iff: "fst (mu_has mu s now k) \<longleftrightarrow> mvis s now k \<noteq> None"
  using l1.has_vis[of "fst s" now k] l2.has_vis[of "snd s" now k]
  by (cases s; cases "ca_has (mu_l1 mu) (fst s) now k"; cases "ca_has l2 (snd s) now k")
    (auto simp: mu_has_def mvis_def two_layers split: option.splits)

text \<open>A second read at the same time sees the same value, whichever layer the first one found it in.\<close>

lemma mu_get_again: "mvis (snd (mu_get mu s now k)) now k = mvis s now k"
proof -
  obtain s1 s2 where s: "s = (s1, s2)" by (metis surj_pair)
  obtain v1 s1' where g1: "ca_get (mu_l1 mu) s1 now k = (v1, s1')" by (metis surj_pair)
  obtain v2 s2' where g2: "ca_get l2 s2 now k = (v2, s2')" by (metis surj_pair)
  have f: "vis1 s1' now k = vis1 s1 now k" "vis2 s2' now k = vis2 s2 now k"
    using l1.get_frame[of now now s1 k k] l2.get_frame[of now now s2 k k] g1 g2 by simp_all
  have v: "vis1 s1 now k = v1" "vis2 s2 now k = v2"
    using l1.get_vis[of s1 now k] l2.get_vis[of s2 now k] g1 g2 by simp_all
  show ?thesis
    by (cases v1; cases v2)
      (simp_all add: s mu_get_def g1 g2 two_layers mvis_def f v l1.set_vis split: option.split)
qed

text \<open>Deleting one key after the other.\<close>

lemma mu_dels_vis: "mvis (foldl (mu_del mu) s ks) t j = (if j \<in> set ks then None else mvis s t j)"
  by (induction ks arbitrary: s) (auto simp: mu_del_vis)

end

section \<open>TaggedCacheService\<close>

text \<open>Data and tag indexes live in one cache, so a value is either. An index stays below the size
  threshold: above it the array in the first layer, which the source extends in place, and the array
  written to the second layer would be one object.\<close>

datatype 'd tagged = TData 'd | TKeys "string list"

definition TAG_INDEX_PREFIX :: string where "TAG_INDEX_PREFIX = ''__tag__:''"

type_synonym ('a, 'b, 'd) tagged_cache = "('a, 'b, 'd tagged) multi_cache"

definition tag_keys :: "'d tagged option \<Rightarrow> string list" where
  "tag_keys v = (case v of Some (TKeys ks) \<Rightarrow> ks | _ \<Rightarrow> [])"

lemma tag_keys_TKeys [simp]: "tag_keys (Some (TKeys ks)) = ks"
  by (simp add: tag_keys_def)

definition addKeyToTag :: "('a, 'b, 'd) tagged_cache \<Rightarrow> int \<Rightarrow> string \<Rightarrow> string \<Rightarrow> ('a, 'b) layers \<Rightarrow> ('a, 'b) layers" where
  "addKeyToTag mu now key tag s =
     (let indexKey = TAG_INDEX_PREFIX @ tag; (v, s) = mu_get mu s now indexKey; existing = tag_keys v
      in if key \<in> set existing then s
         else mu_set mu s now indexKey (TKeys (existing @ [key])) (Some \<lparr>cs_ttl = Some 86400, cs_l2Ttl = None\<rparr>))"

definition setWithTags :: "('a, 'b, 'd) tagged_cache \<Rightarrow> int \<Rightarrow> string \<Rightarrow> 'd \<Rightarrow> cache_set_options \<Rightarrow> string list option
    \<Rightarrow> ('a, 'b) layers \<Rightarrow> ('a, 'b) layers" where
  "setWithTags mu now key val cacheOpts tags s =
     fold (addKeyToTag mu now key) (or_else tags []) (mu_set mu s now key (TData val) (Some cacheOpts))"

definition tagged_del :: "('a, 'b, 'd) tagged_cache \<Rightarrow> string \<Rightarrow> ('a, 'b) layers \<Rightarrow> ('a, 'b) layers" where
  "tagged_del mu key s = mu_del mu s key"

definition invalidateTag :: "('a, 'b, 'd) tagged_cache \<Rightarrow> int \<Rightarrow> string \<Rightarrow> ('a, 'b) layers \<Rightarrow> ('a, 'b) layers" where
  "invalidateTag mu now tag s =
     (let indexKey = TAG_INDEX_PREFIX @ tag; (v, s) = mu_get mu s now indexKey; keys = tag_keys v
      in if keys = [] then s else foldl (mu_del mu) s (keys @ [indexKey]))"

definition getTagKeys :: "('a, 'b, 'd) tagged_cache \<Rightarrow> int \<Rightarrow> string \<Rightarrow> ('a, 'b) layers \<Rightarrow> string list" where
  "getTagKeys mu now tag s = tag_keys (fst (mu_get mu s now (TAG_INDEX_PREFIX @ tag)))"

locale tagged_cache_spec = multi_cache_spec mu vis1 l2 vis2
  for mu :: "('a, 'b, 'd tagged) multi_cache" and vis1 :: "'a \<Rightarrow> int \<Rightarrow> string \<Rightarrow> 'd tagged option"
    and l2 :: "('b, 'd tagged) cache_adapter" and vis2 :: "'b \<Rightarrow> int \<Rightarrow> string \<Rightarrow> 'd tagged option" +
  assumes small_index: "estimateSize mu (TKeys ks) < SIZE_THRESHOLD_BYTES"
begin

lemma invalidate_removes:
  assumes "now \<le> t" and "k \<in> set (getTagKeys mu now tag s) \<or> (k = TAG_INDEX_PREFIX @ tag \<and> getTagKeys mu now tag s \<noteq> [])"
  shows "mvis (invalidateTag mu now tag s) t k = None"
proof -
  obtain v s' where g: "mu_get mu s now (TAG_INDEX_PREFIX @ tag) = (v, s')" by (metis surj_pair)
  have "tag_keys v \<noteq> []" and "k \<in> set (tag_keys v @ [TAG_INDEX_PREFIX @ tag])"
    using assms(2) by (auto simp: getTagKeys_def g)
  then show ?thesis by (simp add: invalidateTag_def g mu_dels_vis del: foldl_append)
qed

lemma tagged_then_registered: "key \<in> set (getTagKeys mu now tag (addKeyToTag mu now key tag s))"
proof -
  let ?i = "TAG_INDEX_PREFIX @ tag"
  obtain v s' where g: "mu_get mu s now ?i = (v, s')" by (metis surj_pair)
  have v: "v = mvis s now ?i" using mu_get_vis[of s now ?i] g by simp
  show ?thesis
  proof (cases "key \<in> set (tag_keys v)")
    case True
    have "fst (mu_get mu s' now ?i) = v"
      using mu_get_again[of s now ?i] g v by (simp add: mu_get_vis)
    then show ?thesis using True by (simp add: getTagKeys_def addKeyToTag_def g)
  next
    case False
    have "fst (mu_get mu (mu_set mu s' now ?i (TKeys (tag_keys v @ [key])) (Some \<lparr>cs_ttl = Some 86400, cs_l2Ttl = None\<rparr>)) now ?i)
        = Some (TKeys (tag_keys v @ [key]))"
      by (rule mu_set_get) (simp_all add: small_index ttl_live_def)
    then show ?thesis using False by (simp add: getTagKeys_def addKeyToTag_def g)
  qed
qed

end

text \<open>The service over two in-memory layers, with the layers' contract from \<open>Cache_Memory\<close>.\<close>

definition two_memory_layers :: "int \<Rightarrow> ('v \<Rightarrow> nat option) \<Rightarrow> ('v memory_cache, 'v memory_cache, 'v) multi_cache" where
  "two_memory_layers defaultTtl jsonSize = \<lparr>mu_l1 = memory_cache_adapter, mu_l2 = Some memory_cache_adapter,
     mu_defaultTtl = defaultTtl, mu_jsonSize = jsonSize\<rparr>"

interpretation two: multi_cache_spec "two_memory_layers defaultTtl jsonSize" mca_vis memory_cache_adapter mca_vis
  by (simp add: multi_cache_spec_def multi_cache_spec_axioms_def two_memory_layers_def mca.cache_adapter_spec_axioms)

text \<open>A size that never reaches the threshold, as an interpretation of the tagged cache.\<close>

interpretation tags: tagged_cache_spec "two_memory_layers defaultTtl (\<lambda>_. Some 0)" mca_vis memory_cache_adapter mca_vis
  by (rule tagged_cache_spec.intro, rule two.multi_cache_spec_axioms)
    (simp add: tagged_cache_spec_axioms_def estimateSize_def SIZE_THRESHOLD_BYTES_def two_memory_layers_def)

section \<open>Properties\<close>

text \<open>Two in-memory layers behave as one cache: a read returns what was last written, for values
  below the threshold; a deletion, by key or by prefix, removes the key from both; \<open>getOrSet\<close> runs its
  factory only on a miss. For a value at or above the threshold a read returns what was written only if
  the first layer had nothing for that key: an older, smaller value still in the first layer is returned
  instead.\<close>

theorem two_layers_as_one_cache:
  fixes mu :: "('v memory_cache, 'v memory_cache, 'v) multi_cache"
  assumes "mu = two_memory_layers defaultTtl jsonSize" and "now \<le> t"
    and "defaultTtl = 0 \<or> (t \<le> now + defaultTtl * 1000 \<and> t \<le> now + defaultTtl * 2 * 1000)"
  shows "(estimateSize mu v < SIZE_THRESHOLD_BYTES \<longrightarrow> fst (mu_get mu (mu_set mu s now k v None) t k) = Some v) \<and>
    (\<not> estimateSize mu v < SIZE_THRESHOLD_BYTES \<longrightarrow> fst (mu_get mu (mu_set mu s now k v None) t k) =
       (case mca_vis (fst s) t k of Some old \<Rightarrow> Some old | None \<Rightarrow> Some v)) \<and>
    fst (mu_get mu (mu_del mu s k) t j) = (if j = k then None else fst (mu_get mu s t j)) \<and>
    fst (mu_get mu (mu_delByPrefix mu s p) t j) = (if starts_with j p then None else fst (mu_get mu s t j)) \<and>
    (case fst (mu_get mu s now k) of
       Some c \<Rightarrow> fst (mu_getOrSet mu s now t k factory opts w) = Inr c \<and> snd (snd (mu_getOrSet mu s now t k factory opts w)) = w
     | None \<Rightarrow> fst (mu_getOrSet mu s now t k factory opts w) = fst (factory w) \<and>
         snd (snd (mu_getOrSet mu s now t k factory opts w)) = snd (factory w))"
proof (intro conjI)
  have live: "ttl_live (Some (or_else None (mu_defaultTtl mu))) now t"
    "ttl_live (Some (or_else None (or_else None (mu_defaultTtl mu) * 2))) now t"
    using assms(1,3) by (auto simp: ttl_live_def two_memory_layers_def)
  show "estimateSize mu v < SIZE_THRESHOLD_BYTES \<longrightarrow> fst (mu_get mu (mu_set mu s now k v None) t k) = Some v"
    using two.mu_set_get[OF assms(2), of _ _ v None] live(1) assms(1) by simp
  show "\<not> estimateSize mu v < SIZE_THRESHOLD_BYTES \<longrightarrow> fst (mu_get mu (mu_set mu s now k v None) t k) =
       (case mca_vis (fst s) t k of Some old \<Rightarrow> Some old | None \<Rightarrow> Some v)"
    using two.mu_set_large_get[OF assms(2), of _ _ v None] live(2) assms(1) by simp
  show "fst (mu_get mu (mu_del mu s k) t j) = (if j = k then None else fst (mu_get mu s t j))"
    "fst (mu_get mu (mu_delByPrefix mu s p) t j) = (if starts_with j p then None else fst (mu_get mu s t j))"
    by (simp_all add: assms(1) two.mu_get_vis two.mu_del_vis two.mu_delByPrefix_vis)
  show "case fst (mu_get mu s now k) of
       Some c \<Rightarrow> fst (mu_getOrSet mu s now t k factory opts w) = Inr c \<and> snd (snd (mu_getOrSet mu s now t k factory opts w)) = w
     | None \<Rightarrow> fst (mu_getOrSet mu s now t k factory opts w) = fst (factory w) \<and>
         snd (snd (mu_getOrSet mu s now t k factory opts w)) = snd (factory w)"
    by (cases "mu_get mu s now k"; cases "factory w") (auto simp: mu_getOrSet_def split: option.split sum.split)
qed

theorem two_layers_as_one_cache_witness:
  "fst (mu_get (two_memory_layers 300 (\<lambda>v. if v = (1::nat) then Some 10 else Some 2000000))
      (mu_set (two_memory_layers 300 (\<lambda>v. if v = (1::nat) then Some 10 else Some 2000000))
        (mca_set (memory_cache_new None) 0 ''k'' 1 None, memory_cache_new None) 5 ''k'' 2 None) 6 ''k'') = Some 1"
proof -
  let ?js = "\<lambda>v. if v = (1::nat) then Some 10 else Some (2000000::nat)"
  have "mca_vis (mca_set (memory_cache_new None) 0 ''k'' (1::nat) None) 6 ''k'' = Some 1"
    by (simp add: mca_set_vis ttl_live_def)
  moreover have "\<not> estimateSize (two_memory_layers 300 ?js) 2 < SIZE_THRESHOLD_BYTES"
    by (simp add: estimateSize_def two_memory_layers_def SIZE_THRESHOLD_BYTES_def)
  moreover have "(5::int) \<le> 6" and "(300::int) = 0 \<or> ((6::int) \<le> 5 + 300 * 1000 \<and> (6::int) \<le> 5 + 300 * 2 * 1000)"
    by simp_all
  note * = two_layers_as_one_cache[OF refl this, THEN conjunct2, THEN conjunct1, THEN mp]
  ultimately show ?thesis
    by (subst *) simp_all
qed

text \<open>Invalidating a tag removes everything registered under it: a key just stored with the tag is
  among the tag's keys, and after \<open>invalidateTag\<close> neither any of the tag's keys nor the index itself is
  visible in either layer.\<close>

theorem tag_invalidation_removes_tagged_keys:
  fixes mu :: "('d tagged memory_cache, 'd tagged memory_cache, 'd tagged) multi_cache"
  assumes "mu = two_memory_layers defaultTtl (\<lambda>_. Some 0)" and "now \<le> t"
  shows "key \<in> set (getTagKeys mu now tag (setWithTags mu now key v opts (Some [tag]) s)) \<and>
    (\<forall>k \<in> set (getTagKeys mu now tag s) \<union> (if getTagKeys mu now tag s = [] then {} else {TAG_INDEX_PREFIX @ tag}).
       fst (mu_get mu (invalidateTag mu now tag s) t k) = None)"
proof (intro conjI ballI)
  show "key \<in> set (getTagKeys mu now tag (setWithTags mu now key v opts (Some [tag]) s))"
    by (simp add: assms(1) setWithTags_def tags.tagged_then_registered)
  fix k
  assume "k \<in> set (getTagKeys mu now tag s) \<union> (if getTagKeys mu now tag s = [] then {} else {TAG_INDEX_PREFIX @ tag})"
  then have "k \<in> set (getTagKeys mu now tag s) \<or> (k = TAG_INDEX_PREFIX @ tag \<and> getTagKeys mu now tag s \<noteq> [])"
    by (simp split: if_splits)
  from tags.invalidate_removes[OF assms(2) this[unfolded assms(1)]]
  show "fst (mu_get mu (invalidateTag mu now tag s) t k) = None"
    unfolding assms(1) two.mu_get_vis .
qed

theorem tag_invalidation_removes_tagged_keys_witness:
  "''p1'' \<in> set (getTagKeys (two_memory_layers 300 (\<lambda>_. Some 0)) 7 ''products''
     (setWithTags (two_memory_layers 300 (\<lambda>_. Some 0)) 7 ''p1'' (3::nat) \<lparr>cs_ttl = None, cs_l2Ttl = None\<rparr>
       (Some [''products'']) (memory_cache_new None, memory_cache_new None)))"
  by (rule conjunct1[OF tag_invalidation_removes_tagged_keys[OF refl order_refl]])

end
