(* ===== verification/Cqrs_Store.thy ===== *)
theory Cqrs_Store
  imports Boot_Prelude "HOL-Library.Multiset"
begin

text \<open>
  \<open>src/src/cqrs/\<close>: the event store interface (\<open>interfaces.ts\<close>) with its contract and the in-memory store
  (\<open>adapters/memory-event-store.ts\<close>, \<open>adapters/memory-snapshot-store.ts\<close>) that satisfies it, the
  aggregate (\<open>aggregate-root.ts\<close>) that is rebuilt from a store, and the replay service
  (\<open>event-replay.service.ts\<close>). What a subclass supplies (\<open>applyEvent\<close>, \<open>restoreFromSnapshot\<close>, the
  projections' methods) are parameters.
\<close>

section \<open>Stored events and the store interface\<close>

record 'd stored_event =
  ev_streamId :: string
  ev_version :: nat
  ev_type :: string
  ev_data :: 'd
  ev_correlationId :: "string option"
  ev_causationId :: "string option"
  ev_timestamp :: "int option"
  ev_position :: nat

datatype es_error = ConcurrencyError string nat nat

record ('s, 'd) event_store =
  es_append :: "int \<Rightarrow> string \<Rightarrow> 'd stored_event list \<Rightarrow> nat option \<Rightarrow> 's \<Rightarrow> (es_error + unit) \<times> 's"
  es_getEvents :: "'s \<Rightarrow> string \<Rightarrow> nat option \<Rightarrow> 'd stored_event list"
  es_getAllEvents :: "'s \<Rightarrow> nat option \<Rightarrow> 'd stored_event list"

text \<open>What stays of an event when it is stored.\<close>

definition ev_content :: "'d stored_event \<Rightarrow> string \<times> 'd \<times> string option \<times> string option" where
  "ev_content e = (ev_type e, ev_data e, ev_correlationId e, ev_causationId e)"

definition stream_version :: "'d stored_event list \<Rightarrow> nat" where
  "stream_version es = (if es = [] then 0 else ev_version (last es))"

text \<open>The contract, for states that satisfy the store's invariant: an append with the wrong expected
  version fails and changes nothing; otherwise it extends exactly the named stream, numbers the new
  events consecutively, and puts them at the end of the global order.\<close>

locale event_store_spec =
  fixes es :: "('s, 'd) event_store" and inv :: "'s \<Rightarrow> bool"
  assumes append_inv: "inv s \<Longrightarrow> inv (snd (es_append es now sid evs exp s))"
    and append_conflict: "inv s \<Longrightarrow> exp = Some v \<Longrightarrow> v \<noteq> stream_version (es_getEvents es s sid None) \<Longrightarrow>
      es_append es now sid evs exp s = (Inl (ConcurrencyError sid v (stream_version (es_getEvents es s sid None))), s)"
    and append_stream: "inv s \<Longrightarrow> exp = None \<or> exp = Some (stream_version (es_getEvents es s sid None)) \<Longrightarrow>
      \<exists>new. fst (es_append es now sid evs exp s) = Inr () \<and>
        es_getEvents es (snd (es_append es now sid evs exp s)) sid None = es_getEvents es s sid None @ new \<and>
        es_getAllEvents es (snd (es_append es now sid evs exp s)) None = es_getAllEvents es s None @ new \<and>
        map ev_content new = map ev_content evs \<and>
        map ev_version new = map (\<lambda>i. stream_version (es_getEvents es s sid None) + Suc i) [0..<length evs]"
    and append_other: "inv s \<Longrightarrow> sid' \<noteq> sid \<Longrightarrow>
      es_getEvents es (snd (es_append es now sid evs exp s)) sid' None = es_getEvents es s sid' None"
    and getEvents_from: "es_getEvents es s sid (Some v) = filter (\<lambda>e. ev_version e > v) (es_getEvents es s sid None)"
    and versions: "inv s \<Longrightarrow> map ev_version (es_getEvents es s sid None) =
      [1..<Suc (length (es_getEvents es s sid None))]"

section \<open>MemoryEventStore and MemorySnapshotStore\<close>

record 'd memory_event_store =
  mes_streams :: "(string, 'd stored_event list) jsmap"
  mes_globalPosition :: nat

definition mes_stamp :: "int \<Rightarrow> string \<Rightarrow> nat \<Rightarrow> nat \<Rightarrow> 'd stored_event \<Rightarrow> 'd stored_event" where
  "mes_stamp now streamId version position event = event\<lparr>ev_streamId := streamId, ev_version := version,
     ev_timestamp := Some (or_else (ev_timestamp event) now), ev_position := position\<rparr>"

fun mes_push_all :: "int \<Rightarrow> string \<Rightarrow> 'd stored_event list \<Rightarrow> nat \<Rightarrow> nat \<Rightarrow> 'd stored_event list
    \<Rightarrow> 'd stored_event list \<times> nat" where
  "mes_push_all now streamId [] version position stream = (stream, position)"
| "mes_push_all now streamId (event # events) version position stream =
     mes_push_all now streamId events (Suc version) (Suc position)
       (stream @ [mes_stamp now streamId (Suc version) (Suc position) event])"

definition mes_append :: "int \<Rightarrow> string \<Rightarrow> 'd stored_event list \<Rightarrow> nat option \<Rightarrow> 'd memory_event_store
    \<Rightarrow> (es_error + unit) \<times> 'd memory_event_store" where
  "mes_append now streamId events expectedVersion s =
     (let stream = or_else (jm_get (mes_streams s) streamId) [];
          currentVersion = (if length stream > 0 then ev_version (stream ! (length stream - 1)) else 0)
      in if expectedVersion \<noteq> None \<and> currentVersion \<noteq> the expectedVersion
         then (Inl (ConcurrencyError streamId (the expectedVersion) currentVersion), s)
         else let (stream, position) = mes_push_all now streamId events currentVersion (mes_globalPosition s) stream
              in (Inr (), s\<lparr>mes_streams := jm_set (mes_streams s) streamId stream, mes_globalPosition := position\<rparr>))"

definition mes_getEvents :: "'d memory_event_store \<Rightarrow> string \<Rightarrow> nat option \<Rightarrow> 'd stored_event list" where
  "mes_getEvents s streamId fromVersion =
     (let stream = or_else (jm_get (mes_streams s) streamId) []
      in case fromVersion of None \<Rightarrow> stream | Some v \<Rightarrow> filter (\<lambda>e. ev_version e > v) stream)"

definition mes_getAllEvents :: "'d memory_event_store \<Rightarrow> nat option \<Rightarrow> 'd stored_event list" where
  "mes_getAllEvents s fromPosition =
     (let all = sort_key ev_position (concat (jm_values (mes_streams s)))
      in case fromPosition of None \<Rightarrow> all | Some p \<Rightarrow> filter (\<lambda>e. ev_position e > p) all)"

definition mes_clear :: "'d memory_event_store" where
  "mes_clear = \<lparr>mes_streams = [], mes_globalPosition = 0\<rparr>"

definition memory_event_store :: "('d memory_event_store, 'd) event_store" where
  "memory_event_store = \<lparr>es_append = mes_append, es_getEvents = mes_getEvents, es_getAllEvents = mes_getAllEvents\<rparr>"

type_synonym 'st snapshots = "(string, nat \<times> 'st) jsmap"

definition mss_save :: "string \<Rightarrow> nat \<Rightarrow> 'st \<Rightarrow> 'st snapshots \<Rightarrow> 'st snapshots" where
  "mss_save streamId version state s = jm_set s streamId (version, state)"

definition mss_load :: "'st snapshots \<Rightarrow> string \<Rightarrow> (nat \<times> 'st) option" where
  "mss_load s streamId = jm_get s streamId"

subsection \<open>Its invariant\<close>

definition mes_ok :: "'d memory_event_store \<Rightarrow> bool" where
  "mes_ok s \<longleftrightarrow> jm_wf (mes_streams s) \<and>
     jm_all (\<lambda>sid st. map ev_version st = [1..<Suc (length st)]) (mes_streams s) \<and>
     distinct (map ev_position (concat (jm_values (mes_streams s)))) \<and>
     (\<forall>p \<in> set (map ev_position (concat (jm_values (mes_streams s)))). p \<le> mes_globalPosition s)"

definition mes_new :: "int \<Rightarrow> string \<Rightarrow> 'd stored_event list \<Rightarrow> nat \<Rightarrow> nat \<Rightarrow> 'd stored_event list" where
  "mes_new now sid events version position =
     map (\<lambda>(i, e). mes_stamp now sid (version + Suc i) (position + Suc i) e) (zip [0..<length events] events)"

lemma mes_new_Cons: "mes_new now sid (e # events) version position =
    mes_stamp now sid (Suc version) (Suc position) e # mes_new now sid events (Suc version) (Suc position)"
proof -
  have "[0..<length (e # events)] = 0 # map Suc [0..<length events]"
    by (simp add: map_Suc_upt upt_conv_Cons del: upt_Suc)
  then show ?thesis
    by (simp add: mes_new_def zip_map1 comp_def case_prod_beta)
qed

lemma mes_push_all_eq:
  "mes_push_all now sid events version position stream =
     (stream @ mes_new now sid events version position, position + length events)"
proof (induction events arbitrary: version position stream)
  case (Cons e events)
  show ?case by (simp add: Cons.IH mes_new_Cons)
qed (simp add: mes_new_def)

lemma mes_new_facts:
  "length (mes_new now sid events v p) = length events"
  "map ev_content (mes_new now sid events v p) = map ev_content events"
  "map ev_version (mes_new now sid events v p) = map (\<lambda>i. v + Suc i) [0..<length events]"
  "map ev_position (mes_new now sid events v p) = map (\<lambda>i. p + Suc i) [0..<length events]"
  by (induction events arbitrary: v p)
    (simp_all add: mes_new_Cons mes_stamp_def ev_content_def map_upt_Suc del: upt_Suc,
      simp_all add: mes_new_def)

lemma stream_version_length: "map ev_version st = [1..<Suc (length st)] \<Longrightarrow> stream_version st = length st"
proof (cases st rule: rev_cases)
  case (snoc xs x)
  assume "map ev_version st = [1..<Suc (length st)]"
  then show ?thesis using snoc by (simp add: stream_version_def)
qed (simp add: stream_version_def)

lemma mes_current: "(if length st > 0 then ev_version (st ! (length st - 1)) else 0) = stream_version st"
  by (simp add: stream_version_def last_conv_nth)

lemma mset_concat_values_set:
  assumes "jm_wf m"
  shows "mset (concat (jm_values (jm_set m k v))) + mset (or_else (jm_get m k) []) =
    mset (concat (jm_values m)) + mset v"
  using assms
proof (induction m)
  case (Cons kv m)
  obtain k' v' where kv: "kv = (k', v')" by fastforce
  show ?case
  proof (cases "k' = k")
    case False
    then show ?thesis using Cons by (simp add: kv jm_wf_def union_ac)
  qed (simp add: kv union_ac)
qed simp

lemma mes_ok_versions:
  assumes "mes_ok s"
  shows "map ev_version (mes_getEvents s sid None) = [1..<Suc (length (mes_getEvents s sid None))]"
proof (cases "jm_get (mes_streams s) sid")
  case (Some st)
  have "jm_all (\<lambda>sid st. map ev_version st = [1..<Suc (length st)]) (mes_streams s)"
    using assms by (simp add: mes_ok_def)
  from jm_all_get[OF this Some] show ?thesis by (simp add: mes_getEvents_def Some)
qed (simp add: mes_getEvents_def)

lemma mes_append_alt:
  "mes_append now sid events exp s =
     (let cur = stream_version (mes_getEvents s sid None)
      in if exp \<noteq> None \<and> cur \<noteq> the exp then (Inl (ConcurrencyError sid (the exp) cur), s)
         else (Inr (), s\<lparr>mes_streams := jm_set (mes_streams s) sid
                   (mes_getEvents s sid None @ mes_new now sid events cur (mes_globalPosition s)),
                 mes_globalPosition := mes_globalPosition s + length events\<rparr>))"
  by (simp only: mes_append_def mes_getEvents_def mes_current Let_def mes_push_all_eq prod.case option.case)

text \<open>The state after a successful append, in one piece.\<close>

definition mes_appended :: "int \<Rightarrow> string \<Rightarrow> 'd stored_event list \<Rightarrow> 'd memory_event_store \<Rightarrow> 'd memory_event_store" where
  "mes_appended now sid events s = s\<lparr>mes_streams := jm_set (mes_streams s) sid
       (mes_getEvents s sid None @ mes_new now sid events (stream_version (mes_getEvents s sid None)) (mes_globalPosition s)),
     mes_globalPosition := mes_globalPosition s + length events\<rparr>"

lemma mes_append_cases:
  "snd (mes_append now sid events exp s) = s \<or> snd (mes_append now sid events exp s) = mes_appended now sid events s"
  by (simp add: mes_append_alt mes_appended_def Let_def)

lemma mes_appended_mset:
  assumes "jm_wf (mes_streams s)"
  shows "mset (concat (jm_values (mes_streams (mes_appended now sid events s)))) =
    mset (concat (jm_values (mes_streams s))) +
    mset (mes_new now sid events (stream_version (mes_getEvents s sid None)) (mes_globalPosition s))"
proof -
  let ?new = "mes_new now sid events (stream_version (mes_getEvents s sid None)) (mes_globalPosition s)"
  have e: "or_else (jm_get (mes_streams s) sid) [] = mes_getEvents s sid None"
    by (simp add: mes_getEvents_def)
  show ?thesis
    using mset_concat_values_set[OF assms, of sid "mes_getEvents s sid None @ ?new"]
    by (simp add: mes_appended_def e union_ac)
qed

lemma mes_appended_versions:
  assumes "mes_ok s"
  shows "map ev_version (mes_getEvents s sid None @
      mes_new now sid events (stream_version (mes_getEvents s sid None)) p) =
    [1..<Suc (length (mes_getEvents s sid None) + length events)]"
proof -
  let ?n = "length (mes_getEvents s sid None)"
  have "map (\<lambda>i. ?n + Suc i) [0..<length events] = [Suc ?n..<Suc ?n + length events]"
    by (rule nth_equalityI) (simp_all del: upt_Suc)
  moreover have "[1..<Suc ?n] @ [Suc ?n..<Suc ?n + length events] = [1..<Suc (?n + length events)]"
    using upt_add_eq_append[of 1 "Suc ?n" "length events"] by simp
  ultimately show ?thesis
    using mes_ok_versions[OF assms, of sid] stream_version_length[OF mes_ok_versions[OF assms, of sid]]
    by (simp add: mes_new_facts del: upt_Suc)
qed

lemma mes_new_position:
  "p \<in> set (map ev_position (mes_new now sid events v g)) \<Longrightarrow> g < p \<and> p \<le> g + length events"
  unfolding mes_new_facts by auto

lemma mes_new_distinct: "distinct (map ev_position (mes_new now sid events v g))"
  unfolding mes_new_facts by (simp add: distinct_map inj_on_def)

lemma mes_new_sorted: "sorted (map ev_position (mes_new now sid events v g))"
  unfolding mes_new_facts by (simp add: sorted_iff_nth_mono)

lemma mes_ok_position: "mes_ok s \<Longrightarrow> p \<in> set (map ev_position (concat (jm_values (mes_streams s)))) \<Longrightarrow> p \<le> mes_globalPosition s"
  unfolding mes_ok_def by blast

lemma mes_ok_appended:
  assumes "mes_ok s" shows "mes_ok (mes_appended now sid events s)"
proof -
  let ?s' = "mes_appended now sid events s" and ?g = "mes_globalPosition s"
  let ?new = "mes_new now sid events (stream_version (mes_getEvents s sid None)) ?g"
  have wf: "jm_wf (mes_streams s)" using assms by (simp add: mes_ok_def)
  let ?old = "map ev_position (concat (jm_values (mes_streams s)))"
  have pos: "mset (map ev_position (concat (jm_values (mes_streams ?s')))) = mset (?old @ map ev_position ?new)"
    using mes_appended_mset[OF wf, of now sid events] by (simp only: mset_map mset_append image_mset_union)
  have "distinct ?old" using assms by (simp only: mes_ok_def)
  moreover have "set ?old \<inter> set (map ev_position ?new) = {}"
    using mes_ok_position[OF assms] mes_new_position by (meson disjoint_iff leD)
  ultimately have "distinct (?old @ map ev_position ?new)"
    using mes_new_distinct by (simp only: distinct_append simp_thms)
  then have d: "distinct (map ev_position (concat (jm_values (mes_streams ?s'))))"
    using mset_eq_imp_distinct_iff[OF pos] by blast
  have b: "\<forall>p \<in> set (map ev_position (concat (jm_values (mes_streams ?s')))). p \<le> mes_globalPosition ?s'"
  proof
    fix p assume "p \<in> set (map ev_position (concat (jm_values (mes_streams ?s'))))"
    then have "p \<in> set ?old \<or> p \<in> set (map ev_position ?new)"
      using mset_eq_setD[OF pos] by (metis Un_iff set_append)
    then show "p \<le> mes_globalPosition ?s'"
      using mes_ok_position[OF assms, of p] mes_new_position[of p] by (fastforce simp: mes_appended_def)
  qed
  have v: "jm_all (\<lambda>sid st. map ev_version st = [1..<Suc (length st)]) (mes_streams ?s')"
    using assms mes_appended_versions[OF assms, of sid now events ?g]
    by (simp add: mes_ok_def mes_appended_def jm_all_set mes_new_facts(1) del: upt_Suc)
  show ?thesis using wf d b v by (simp add: mes_ok_def mes_appended_def del: upt_Suc)
qed

lemma mes_all_appended:
  assumes "mes_ok s"
  shows "mes_getAllEvents (mes_appended now sid events s) None = mes_getAllEvents s None @
    mes_new now sid events (stream_version (mes_getEvents s sid None)) (mes_globalPosition s)"
proof -
  let ?s' = "mes_appended now sid events s" and ?g = "mes_globalPosition s"
  let ?new = "mes_new now sid events (stream_version (mes_getEvents s sid None)) ?g"
  let ?all = "sort_key ev_position (concat (jm_values (mes_streams s)))"
  have wf: "jm_wf (mes_streams s)" using assms by (simp add: mes_ok_def)
  have "set (map ev_position ?all) = set (map ev_position (concat (jm_values (mes_streams s))))" by simp
  then have "\<forall>p \<in> set (map ev_position ?all). \<forall>q \<in> set (map ev_position ?new). p \<le> q"
    using mes_ok_position[OF assms] mes_new_position by (metis less_imp_le order_trans)
  then have sorted: "sorted (map ev_position (?all @ ?new))"
    unfolding map_append sorted_append by (intro conjI sorted_sort_key mes_new_sorted)
  have inj: "inj_on ev_position (set (concat (jm_values (mes_streams ?s'))))"
    using mes_ok_appended[OF assms] by (simp only: mes_ok_def distinct_map)
  have "mset (concat (jm_values (mes_streams ?s'))) = mset (?all @ ?new)"
    using mes_appended_mset[OF wf] by simp
  from sort_key_inj_key_eq[OF this inj sorted] show ?thesis
    by (simp add: mes_getAllEvents_def)
qed

lemma mes_streams_appended:
  "mes_getEvents (mes_appended now sid events s) sid' None = (if sid' = sid then mes_getEvents s sid None @
     mes_new now sid events (stream_version (mes_getEvents s sid None)) (mes_globalPosition s)
   else mes_getEvents s sid' None)"
  by (simp add: mes_appended_def mes_getEvents_def jm_get_set)

interpretation mes: event_store_spec memory_event_store mes_ok
proof
  fix s :: "'a memory_event_store" and now sid exp and evs :: "'a stored_event list"
  show "mes_ok s \<Longrightarrow> mes_ok (snd (es_append memory_event_store now sid evs exp s))"
    using mes_append_cases[of now sid evs exp s] mes_ok_appended[of s now sid evs]
    by (auto simp: memory_event_store_def)
next
  fix s :: "'a memory_event_store" and now sid exp v and evs :: "'a stored_event list"
  assume "mes_ok s" "exp = Some v" "v \<noteq> stream_version (es_getEvents memory_event_store s sid None)"
  then show "es_append memory_event_store now sid evs exp s =
      (Inl (ConcurrencyError sid v (stream_version (es_getEvents memory_event_store s sid None))), s)"
    by (simp add: memory_event_store_def mes_append_alt Let_def)
next
  fix s :: "'a memory_event_store" and now sid exp and evs :: "'a stored_event list"
  assume s: "mes_ok s" and e: "exp = None \<or> exp = Some (stream_version (es_getEvents memory_event_store s sid None))"
  let ?new = "mes_new now sid evs (stream_version (mes_getEvents s sid None)) (mes_globalPosition s)"
  have "mes_append now sid evs exp s = (Inr (), mes_appended now sid evs s)"
    using e by (auto simp: memory_event_store_def mes_append_alt mes_appended_def Let_def)
  then show "\<exists>new. fst (es_append memory_event_store now sid evs exp s) = Inr () \<and>
        es_getEvents memory_event_store (snd (es_append memory_event_store now sid evs exp s)) sid None =
          es_getEvents memory_event_store s sid None @ new \<and>
        es_getAllEvents memory_event_store (snd (es_append memory_event_store now sid evs exp s)) None =
          es_getAllEvents memory_event_store s None @ new \<and>
        map ev_content new = map ev_content evs \<and>
        map ev_version new = map (\<lambda>i. stream_version (es_getEvents memory_event_store s sid None) + Suc i) [0..<length evs]"
    by (intro exI[of _ ?new])
      (simp add: memory_event_store_def mes_streams_appended mes_all_appended[OF s] mes_new_facts)
next
  fix s :: "'a memory_event_store" and sid' sid :: string and now exp and evs :: "'a stored_event list"
  assume "mes_ok s" "sid' \<noteq> sid"
  then show "es_getEvents memory_event_store (snd (es_append memory_event_store now sid evs exp s)) sid' None =
      es_getEvents memory_event_store s sid' None"
    using mes_append_cases[of now sid evs exp s] mes_streams_appended[of now sid evs s sid']
    by (auto simp: memory_event_store_def)
next
  fix s :: "'a memory_event_store" and sid v
  show "es_getEvents memory_event_store s sid (Some v) =
      filter (\<lambda>e. ev_version e > v) (es_getEvents memory_event_store s sid None)"
    by (simp add: memory_event_store_def mes_getEvents_def Let_def)
next
  fix s :: "'a memory_event_store" and sid
  assume "mes_ok s"
  then show "map ev_version (es_getEvents memory_event_store s sid None) =
      [1..<Suc (length (es_getEvents memory_event_store s sid None))]"
    using mes_ok_versions by (simp add: memory_event_store_def del: upt_Suc)
qed

lemma mes_ok_empty: "mes_ok mes_clear"
  by (simp add: mes_ok_def mes_clear_def)

section \<open>AggregateRoot\<close>

text \<open>\<open>applyEvent\<close> of a subclass gets a domain event when the event happens (\<open>Inl\<close>) and a stored event when
  history is replayed (\<open>Inr\<close>).\<close>

record ('e, 'st) aggregate =
  ag_uncommitted :: "'e list"
  ag_version :: nat
  ag_state :: 'st

definition ag_new :: "'st \<Rightarrow> ('e, 'st) aggregate" where
  "ag_new init = \<lparr>ag_uncommitted = [], ag_version = 0, ag_state = init\<rparr>"

definition ag_apply :: "('e + 'd stored_event \<Rightarrow> 'st \<Rightarrow> 'st) \<Rightarrow> 'e \<Rightarrow> ('e, 'st) aggregate \<Rightarrow> ('e, 'st) aggregate" where
  "ag_apply applyEvent event a = a\<lparr>ag_uncommitted := ag_uncommitted a @ [event],
     ag_state := applyEvent (Inl event) (ag_state a), ag_version := ag_version a + 1\<rparr>"

definition ag_getUncommittedEvents :: "('e, 'st) aggregate \<Rightarrow> 'e list" where
  "ag_getUncommittedEvents a = ag_uncommitted a"

definition ag_clearUncommittedEvents :: "('e, 'st) aggregate \<Rightarrow> ('e, 'st) aggregate" where
  "ag_clearUncommittedEvents a = a\<lparr>ag_uncommitted := []\<rparr>"

definition ag_replay_one :: "('e + 'd stored_event \<Rightarrow> 'st \<Rightarrow> 'st) \<Rightarrow> 'd stored_event \<Rightarrow> ('e, 'st) aggregate
    \<Rightarrow> ('e, 'st) aggregate" where
  "ag_replay_one applyEvent event a = a\<lparr>ag_state := applyEvent (Inr event) (ag_state a), ag_version := ev_version event\<rparr>"

definition ag_loadFromHistory :: "('e + 'd stored_event \<Rightarrow> 'st \<Rightarrow> 'st) \<Rightarrow> 'd stored_event list
    \<Rightarrow> ('e, 'st) aggregate \<Rightarrow> ('e, 'st) aggregate" where
  "ag_loadFromHistory applyEvent events a = fold (ag_replay_one applyEvent) events a"

definition ag_loadFromSnapshot :: "('e + 'd stored_event \<Rightarrow> 'st \<Rightarrow> 'st) \<Rightarrow> ('snap \<Rightarrow> 'st \<Rightarrow> 'st) \<Rightarrow> nat \<times> 'snap
    \<Rightarrow> 'd stored_event list \<Rightarrow> ('e, 'st) aggregate \<Rightarrow> ('e, 'st) aggregate" where
  "ag_loadFromSnapshot applyEvent restoreFromSnapshot snapshot events a =
     fold (ag_replay_one applyEvent) events
       (a\<lparr>ag_state := restoreFromSnapshot (snd snapshot) (ag_state a), ag_version := fst snapshot\<rparr>)"

section \<open>EventReplayService\<close>

text \<open>A projection is its class name and its handlers, (event type, method); a method runs on a world and
  may throw a message.\<close>

type_synonym ('w, 'd) projection =
  "string \<times> (string \<times> ('d stored_event \<Rightarrow> 'w \<Rightarrow> string option \<times> 'w)) list"

record replay_result =
  rr_eventsProcessed :: nat
  rr_projectionCounts :: "(string, nat) jsmap"
  rr_errors :: "(nat \<times> string \<times> string) list"

definition handler_map :: "('w, 'd) projection list
    \<Rightarrow> (string, (string \<times> ('d stored_event \<Rightarrow> 'w \<Rightarrow> string option \<times> 'w)) list) jsmap" where
  "handler_map projections = fold (\<lambda>(projectionName, entries) hm.
     fold (\<lambda>(typeName, method) hm. jm_set hm typeName (or_else (jm_get hm typeName) [] @ [(projectionName, method)]))
       entries hm) projections []"

definition run_handler :: "'d stored_event \<Rightarrow> string \<times> ('d stored_event \<Rightarrow> 'w \<Rightarrow> string option \<times> 'w)
    \<Rightarrow> replay_result \<times> 'w \<Rightarrow> replay_result \<times> 'w" where
  "run_handler event = (\<lambda>(projectionName, method) (r, w). case method event w of
     (None, w) \<Rightarrow> (r\<lparr>rr_projectionCounts := jm_set (rr_projectionCounts r) projectionName
         (or_else (jm_get (rr_projectionCounts r) projectionName) 0 + 1)\<rparr>, w)
   | (Some errorMsg, w) \<Rightarrow> (r\<lparr>rr_errors := rr_errors r @ [(ev_position event, ev_type event, errorMsg)]\<rparr>, w))"

definition es_replay :: "('w, 'd) projection list \<Rightarrow> 'd stored_event list \<Rightarrow> 'w \<Rightarrow> replay_result \<times> 'w" where
  "es_replay projections events w =
     (let handlerMap = handler_map projections;
          projectionCounts = fold (\<lambda>(projectionName, _) m. jm_set m projectionName 0) projections []
      in fold (\<lambda>event. fold (run_handler event) (or_else (jm_get handlerMap (ev_type event)) [])) events
           (\<lparr>rr_eventsProcessed = length events, rr_projectionCounts = projectionCounts, rr_errors = []\<rparr>, w))"

definition replayAll :: "('s, 'd) event_store \<Rightarrow> 's \<Rightarrow> ('w, 'd) projection list \<Rightarrow> 'w \<Rightarrow> replay_result \<times> 'w" where
  "replayAll es s projections w = es_replay projections (es_getAllEvents es s None) w"

definition replayFrom :: "('s, 'd) event_store \<Rightarrow> 's \<Rightarrow> nat \<Rightarrow> ('w, 'd) projection list \<Rightarrow> 'w \<Rightarrow> replay_result \<times> 'w" where
  "replayFrom es s position projections w = es_replay projections (es_getAllEvents es s (Some position)) w"

definition replayStream :: "('s, 'd) event_store \<Rightarrow> 's \<Rightarrow> string \<Rightarrow> ('w, 'd) projection list \<Rightarrow> 'w \<Rightarrow> replay_result \<times> 'w" where
  "replayStream es s streamId projections w = es_replay projections (es_getEvents es s streamId None) w"

section \<open>Rebuilding an aggregate\<close>

text \<open>What the code asks of a subclass: a stored event has the effect of the domain event it was made from.\<close>

definition replayable :: "('e + 'd stored_event \<Rightarrow> 'st \<Rightarrow> 'st) \<Rightarrow> ('e \<Rightarrow> 'd stored_event) \<Rightarrow> bool" where
  "replayable applyEvent ser \<longleftrightarrow> (\<forall>e x. ev_content x = ev_content (ser e) \<longrightarrow> applyEvent (Inr x) = applyEvent (Inl e))"

lemma replay_state: "ag_state (fold (ag_replay_one f) es a) = fold (\<lambda>e. f (Inr e)) es (ag_state a)"
  by (induction es arbitrary: a) (simp_all add: ag_replay_one_def)

lemma replay_version: "ag_version (fold (ag_replay_one f) es a) = (if es = [] then ag_version a else ev_version (last es))"
  by (induction es arbitrary: a) (simp_all add: ag_replay_one_def)

lemma replay_uncommitted: "ag_uncommitted (fold (ag_replay_one f) es a) = ag_uncommitted a"
  by (induction es arbitrary: a) (simp_all add: ag_replay_one_def)

lemma numbered_nth:
  assumes "map f xs = [1..<Suc (length xs)]" and "i < length xs"
  shows "f (xs ! i) = Suc i"
proof -
  have "map f xs ! i = Suc i" unfolding assms(1) using assms(2) by (simp del: upt_Suc)
  then show ?thesis using assms(2) by simp
qed

lemma numbered_last:
  assumes "map f xs = map (\<lambda>i. b + Suc i) [0..<length xs]" and "xs \<noteq> []"
  shows "f (last xs) = b + length xs"
proof -
  have lt: "length xs - 1 < length xs" using assms(2) by simp
  then have "map f xs ! (length xs - 1) = b + Suc (length xs - 1)" unfolding assms(1) by (simp del: upt_Suc)
  then have "map f xs ! (length xs - 1) = b + length xs" using lt by simp
  then show ?thesis using assms(2) by (simp add: last_conv_nth)
qed

lemma applied_facts:
  "ag_state (fold (ag_apply f) es a) = fold (\<lambda>e. f (Inl e)) es (ag_state a) \<and>
   ag_version (fold (ag_apply f) es a) = ag_version a + length es \<and>
   ag_uncommitted (fold (ag_apply f) es a) = ag_uncommitted a @ es"
  by (induction es arbitrary: a) (simp_all add: ag_apply_def)

lemma replayed_as_applied:
  assumes "replayable f ser" and "map ev_content new = map (ev_content \<circ> ser) evs"
  shows "fold (\<lambda>e. f (Inr e)) new st = fold (\<lambda>e. f (Inl e)) evs st"
  using assms(2)
proof (induction evs arbitrary: new st)
  case (Cons e evs)
  then obtain x xs where "new = x # xs" "ev_content x = ev_content (ser e)" "map ev_content xs = map (ev_content \<circ> ser) evs"
    by (cases new) auto
  then show ?case using assms(1) Cons.IH by (simp add: replayable_def)
qed simp

context event_store_spec
begin

lemma loaded_version:
  "ag_version (ag_loadFromHistory f (es_getEvents es s sid None) (ag_new init)) = stream_version (es_getEvents es s sid None)"
  by (simp add: ag_loadFromHistory_def replay_version stream_version_def ag_new_def)

lemma save_then_load:
  fixes init :: 'st
  assumes "inv s" and "replayable f ser"
    and a: "a = fold (ag_apply f) evs (ag_loadFromHistory f (es_getEvents es s sid None) (ag_new init))"
    and s': "es_append es now sid (map ser (ag_getUncommittedEvents a))
      (Some (stream_version (es_getEvents es s sid None))) s = (r, s')"
  shows "r = Inr () \<and> ag_loadFromHistory f (es_getEvents es s' sid None) (ag_new init) = ag_clearUncommittedEvents a"
proof -
  let ?h = "es_getEvents es s sid None"
  have u: "ag_getUncommittedEvents a = evs"
    by (simp add: a ag_getUncommittedEvents_def applied_facts replay_uncommitted ag_loadFromHistory_def ag_new_def)
  from append_stream[OF assms(1), of "Some (stream_version ?h)" sid now "map ser evs"] s' u
  obtain new where r: "r = Inr ()" and h': "es_getEvents es s' sid None = ?h @ new"
    and c: "map ev_content new = map (ev_content \<circ> ser) evs"
    and v: "map ev_version new = map (\<lambda>i. stream_version ?h + Suc i) [0..<length evs]" by auto
  have len: "length new = length evs" using c by (metis length_map)
  have st: "ag_state (ag_loadFromHistory f (es_getEvents es s' sid None) (ag_new init)) = ag_state a"
    by (simp add: a ag_loadFromHistory_def replay_state h' applied_facts replayed_as_applied[OF assms(2) c])
  have "ev_version (last new) = stream_version ?h + length evs" if "new \<noteq> []"
    using numbered_last[OF v[folded len] that] len by simp
  then have ver: "ag_version (ag_loadFromHistory f (es_getEvents es s' sid None) (ag_new init)) = ag_version a"
    using len by (auto simp: a ag_loadFromHistory_def replay_version applied_facts h' stream_version_def ag_new_def)
  show ?thesis
    using r st ver
    by (auto simp: replay_uncommitted ag_clearUncommittedEvents_def ag_loadFromHistory_def ag_new_def intro!: aggregate.equality)
qed

lemma snapshot_then_load:
  assumes "inv s" and "\<And>x st. restore (snap x) st = x"
    and k: "k \<le> length (es_getEvents es s sid None)"
    and a: "a = ag_loadFromHistory f (take k (es_getEvents es s sid None)) (ag_new init)"
  shows "ag_loadFromSnapshot f restore (k, snap (ag_state a)) (es_getEvents es s sid (Some k)) (ag_new init) =
    ag_loadFromHistory f (es_getEvents es s sid None) (ag_new init)"
proof -
  let ?h = "es_getEvents es s sid None"
  have vs: "map ev_version ?h = [1..<Suc (length ?h)]" by (rule versions[OF assms(1)])
  have nth: "ev_version (?h ! i) = Suc i" if "i < length ?h" for i
    by (rule numbered_nth[OF vs that])
  have "filter (\<lambda>e. ev_version e > k) (take k ?h) = []"
    using nth by (auto simp: filter_empty_conv in_set_conv_nth)
  moreover have "filter (\<lambda>e. ev_version e > k) (drop k ?h) = drop k ?h"
    using nth k by (auto simp: filter_id_conv in_set_conv_nth)
  ultimately have d: "es_getEvents es s sid (Some k) = drop k ?h"
    unfolding getEvents_from by (metis append_take_drop_id filter_append self_append_conv2)
  have ver: "ag_version a = k"
    using k nth[of "k - 1"]
    by (cases k) (auto simp: a ag_loadFromHistory_def replay_version ag_new_def last_conv_nth min_def)
  have un: "ag_uncommitted a = []"
    by (simp add: a ag_loadFromHistory_def ag_new_def replay_uncommitted)
  have "\<lparr>ag_uncommitted = [], ag_version = k, ag_state = ag_state a\<rparr> = a"
    using ver un by (intro aggregate.equality) simp_all
  then have "ag_loadFromSnapshot f restore (k, snap (ag_state a)) (drop k ?h) (ag_new init) = fold (ag_replay_one f) (drop k ?h) a"
    by (simp add: ag_loadFromSnapshot_def assms(2) ag_new_def)
  also have "\<dots> = ag_loadFromHistory f ?h (ag_new init)"
    by (metis a ag_loadFromHistory_def append_take_drop_id comp_apply fold_append)
  finally show ?thesis unfolding d .
qed

lemma second_writer_fails:
  assumes "inv s" and "evs \<noteq> []" and "es_append es now sid evs (Some v) s = (Inr (), s1)"
  shows "es_append es now' sid evs' (Some v) s1 = (Inl (ConcurrencyError sid v (v + length evs)), s1)"
proof -
  let ?h = "es_getEvents es s sid None"
  have v: "v = stream_version ?h"
    using append_conflict[OF assms(1), of "Some v" v sid now evs] assms(3) by auto
  from append_stream[OF assms(1), of "Some v" sid now evs] assms(3) v
  obtain new where h1: "es_getEvents es s1 sid None = ?h @ new" and c: "map ev_content new = map ev_content evs"
    and vs: "map ev_version new = map (\<lambda>i. stream_version ?h + Suc i) [0..<length evs]" by auto
  have len: "length new = length evs" using c by (metis length_map)
  then have "new \<noteq> []" using assms(2) by auto
  then have "ev_version (last new) = v + length evs"
    using numbered_last[OF vs[folded len]] len v by simp
  then have "stream_version (es_getEvents es s1 sid None) = v + length evs"
    using \<open>new \<noteq> []\<close> by (simp add: h1 stream_version_def)
  moreover have "inv s1" using append_inv[OF assms(1), of now sid evs "Some v"] assms(3) by simp
  ultimately show ?thesis
    using append_conflict[of s1 "Some v" v sid now' evs'] assms(2) by simp
qed

end

section \<open>Properties\<close>


definition counted :: "nat + nat stored_event \<Rightarrow> nat \<Rightarrow> nat" where
  "counted ev st = st + (case ev of Inl n \<Rightarrow> n | Inr e \<Rightarrow> ev_data e)"

definition to_stored :: "nat \<Rightarrow> nat stored_event" where
  "to_stored n = \<lparr>ev_streamId = [], ev_version = 0, ev_type = ''Added'', ev_data = n, ev_correlationId = None,
     ev_causationId = None, ev_timestamp = None, ev_position = 0\<rparr>"


text \<open>C17. Loading from a snapshot agrees with loading from the whole history: for a snapshot taken at any
  version of the stream, restoring it and replaying the events after that version gives the same
  aggregate as replaying all of them.\<close>

theorem snapshot_load_equals_history_load:
  assumes "mes_ok s" and "\<And>x st. restore (snap x) st = x" and "k \<le> length (mes_getEvents s sid None)"
  shows "ag_loadFromSnapshot f restore
      (k, snap (ag_state (ag_loadFromHistory f (take k (mes_getEvents s sid None)) (ag_new init))))
      (mes_getEvents s sid (Some k)) (ag_new init) =
    ag_loadFromHistory f (mes_getEvents s sid None) (ag_new init)"
  using mes.snapshot_then_load[OF assms(1), of restore snap k sid _ f init] assms(2,3)
  by (simp add: memory_event_store_def)

theorem snapshot_load_equals_history_load_witness:
  "ag_loadFromSnapshot counted (\<lambda>x _. x)
      (1, ag_state (ag_loadFromHistory counted (take 1 (mes_getEvents (mes_appended 1 ''acc'' (map to_stored [3, 4]) mes_clear) ''acc'' None)) (ag_new 0)))
      (mes_getEvents (mes_appended 1 ''acc'' (map to_stored [3, 4]) mes_clear) ''acc'' (Some 1)) (ag_new 0) =
    ag_loadFromHistory counted (mes_getEvents (mes_appended 1 ''acc'' (map to_stored [3, 4]) mes_clear) ''acc'' None) (ag_new 0)"
proof (rule snapshot_load_equals_history_load[where snap = "\<lambda>x. x"])
  show "mes_ok (mes_appended 1 ''acc'' (map to_stored [3, 4]) mes_clear)"
    by (rule mes_ok_appended[OF mes_ok_empty])
  show "1 \<le> length (mes_getEvents (mes_appended 1 ''acc'' (map to_stored [3, 4]) mes_clear) ''acc'' None)"
    by (simp add: mes_streams_appended mes_new_facts(1))
qed simp

end
