(* ===== verification/Cqrs_Saga.thy ===== *)
theory Cqrs_Saga
  imports Boot_Prelude
begin

text \<open>
  \<open>src/src/cqrs/saga.ts\<close> and \<open>command-bus.ts\<close>. The actions of a saga and the handlers of commands are
  supplied by the application: they run on a world \<open>'w\<close>, which they may change, and either finish or throw
  (\<open>Inl\<close>); the world also stands for the context object the actions share.
\<close>

section \<open>Sagas\<close>

record ('w, 'e) saga_step =
  sg_name :: string
  sg_execute :: "'w \<Rightarrow> ('e + unit) \<times> 'w"
  sg_compensate :: "'e \<Rightarrow> 'w \<Rightarrow> ('e + unit) \<times> 'w"

record ('w, 'e) saga_definition =
  sd_name :: string
  sd_steps :: "('w, 'e) saga_step list"

record 'e saga_result =
  sr_success :: bool
  sr_completedSteps :: "string list"
  sr_failedStep :: "string option"
  sr_error :: "'e option"
  sr_compensatedSteps :: "string list option"

type_synonym ('w, 'e) saga_builder = "string \<times> ('w, 'e) saga_step list"

definition defineSaga :: "string \<Rightarrow> ('w, 'e) saga_builder" where
  "defineSaga name = (name, [])"

definition builder_step :: "string \<Rightarrow> ('w \<Rightarrow> ('e + unit) \<times> 'w) \<Rightarrow> ('e \<Rightarrow> 'w \<Rightarrow> ('e + unit) \<times> 'w)
    \<Rightarrow> ('w, 'e) saga_builder \<Rightarrow> ('w, 'e) saga_builder" where
  "builder_step name execute compensate b =
     (fst b, snd b @ [\<lparr>sg_name = name, sg_execute = execute, sg_compensate = compensate\<rparr>])"

text \<open>An empty saga is an error, here \<open>None\<close>.\<close>

definition builder_build :: "('w, 'e) saga_builder \<Rightarrow> ('w, 'e) saga_definition option" where
  "builder_build b = (if length (snd b) = 0 then None else Some \<lparr>sd_name = fst b, sd_steps = snd b\<rparr>)"

text \<open>\<open>compensate\<close>: over the completed names from the last to the first; a step is found by its name, and a
  compensation that throws is recorded like one that does not.\<close>

fun saga_compensate :: "('w, 'e) saga_step list \<Rightarrow> 'e \<Rightarrow> string list \<Rightarrow> string list \<Rightarrow> 'w \<Rightarrow> string list \<times> 'w" where
  "saga_compensate allSteps error [] compensated w = (compensated, w)"
| "saga_compensate allSteps error (stepName # rest) compensated w =
     (case List.find (\<lambda>s. sg_name s = stepName) allSteps of
        None \<Rightarrow> saga_compensate allSteps error rest compensated w
      | Some step \<Rightarrow> (case sg_compensate step error w of
          (Inr _, w) \<Rightarrow> saga_compensate allSteps error rest (compensated @ [stepName]) w
        | (Inl _, w) \<Rightarrow> saga_compensate allSteps error rest (compensated @ [stepName]) w))"

fun saga_loop :: "('w, 'e) saga_step list \<Rightarrow> ('w, 'e) saga_step list \<Rightarrow> string list \<Rightarrow> 'w \<Rightarrow> 'e saga_result \<times> 'w" where
  "saga_loop allSteps [] completedSteps w =
     (\<lparr>sr_success = True, sr_completedSteps = completedSteps, sr_failedStep = None, sr_error = None,
       sr_compensatedSteps = None\<rparr>, w)"
| "saga_loop allSteps (step # steps) completedSteps w = (case sg_execute step w of
     (Inr _, w) \<Rightarrow> saga_loop allSteps steps (completedSteps @ [sg_name step]) w
   | (Inl err, w) \<Rightarrow>
       let (compensatedSteps, w) = saga_compensate allSteps err (rev completedSteps) [] w
       in (\<lparr>sr_success = False, sr_completedSteps = completedSteps, sr_failedStep = Some (sg_name step),
             sr_error = Some err, sr_compensatedSteps = Some compensatedSteps\<rparr>, w))"

definition saga_execute :: "('w, 'e) saga_definition \<Rightarrow> 'w \<Rightarrow> 'e saga_result \<times> 'w" where
  "saga_execute saga w = saga_loop (sd_steps saga) (sd_steps saga) [] w"

section \<open>Commands\<close>

type_synonym ('c, 'w, 'e, 'r) command_bus = "(string, 'c \<Rightarrow> 'w \<Rightarrow> ('e + 'r) \<times> 'w) jsmap"

definition cmd_register :: "string \<Rightarrow> ('c \<Rightarrow> 'w \<Rightarrow> ('e + 'r) \<times> 'w) \<Rightarrow> ('c, 'w, 'e, 'r) command_bus
    \<Rightarrow> ('c, 'w, 'e, 'r) command_bus" where
  "cmd_register commandType handler bus = jm_set bus commandType handler"

datatype 'e cmd_error = NoHandlerRegistered string | HandlerError 'e

definition cmd_execute :: "('c, 'w, 'e, 'r) command_bus \<Rightarrow> ('c \<Rightarrow> string) \<Rightarrow> 'c \<Rightarrow> 'w \<Rightarrow> ('e cmd_error + 'r) \<times> 'w" where
  "cmd_execute bus type_of command w = (case jm_get bus (type_of command) of
     None \<Rightarrow> (Inl (NoHandlerRegistered (type_of command)), w)
   | Some handler \<Rightarrow> (case handler command w of
       (Inl e, w) \<Rightarrow> (Inl (HandlerError e), w)
     | (Inr r, w) \<Rightarrow> (Inr r, w)))"

lemma cmd_execute_registered:
  "type_of c = t \<Longrightarrow> handler c w = (Inr r, w') \<Longrightarrow> cmd_execute (cmd_register t handler bus) type_of c w = (Inr r, w')"
  by (simp add: cmd_execute_def cmd_register_def jm_get_set)

section \<open>What a saga does\<close>

text \<open>The worlds along the forward run, and the world after undoing a list of steps.\<close>

fun forward :: "('w, 'e) saga_step list \<Rightarrow> 'w \<Rightarrow> 'w" where
  "forward [] w = w"
| "forward (step # steps) w = forward steps (snd (sg_execute step w))"

fun undo :: "'e \<Rightarrow> ('w, 'e) saga_step list \<Rightarrow> 'w \<Rightarrow> 'w" where
  "undo err [] w = w"
| "undo err (step # steps) w = undo err steps (snd (sg_compensate step err w))"

definition step_ok :: "('w, 'e) saga_step \<Rightarrow> 'w \<Rightarrow> bool" where
  "step_ok step w \<longleftrightarrow> (\<exists>u. fst (sg_execute step w) = Inr u)"

lemma find_step:
  "distinct (map sg_name steps) \<Longrightarrow> step \<in> set steps \<Longrightarrow> List.find (\<lambda>s. sg_name s = sg_name step) steps = Some step"
  by (induction steps) auto

lemma saga_compensate_undo:
  assumes "distinct (map sg_name allSteps)" and "set steps \<subseteq> set allSteps"
  shows "saga_compensate allSteps err (map sg_name steps) acc w = (acc @ map sg_name steps, undo err steps w)"
  using assms(2)
proof (induction steps arbitrary: acc w)
  case (Cons step steps)
  obtain r w' where "sg_compensate step err w = (r, w')" by fastforce
  then show ?case
    using Cons find_step[OF assms(1), of step] by (cases r) simp_all
qed simp

lemma saga_loop_success:
  assumes "\<And>i. i < length steps \<Longrightarrow> step_ok (steps ! i) (forward (take i steps) w)"
  shows "saga_loop allSteps steps completed w =
    (\<lparr>sr_success = True, sr_completedSteps = completed @ map sg_name steps, sr_failedStep = None,
      sr_error = None, sr_compensatedSteps = None\<rparr>, forward steps w)"
  using assms
proof (induction steps arbitrary: completed w)
  case (Cons step steps)
  have "step_ok step w" using Cons.prems[of 0] by simp
  then obtain u w' where e: "sg_execute step w = (Inr u, w')"
    by (cases "sg_execute step w") (auto simp: step_ok_def)
  have "step_ok (steps ! i) (forward (take i steps) w')" if "i < length steps" for i
    using Cons.prems[of "Suc i"] that e by simp
  then show ?case using Cons.IH[of w' "completed @ [sg_name step]"] e by simp
qed simp

lemma saga_loop_failure:
  assumes "\<And>i. i < k \<Longrightarrow> step_ok (steps ! i) (forward (take i steps) w)" and "k < length steps"
    and "sg_execute (steps ! k) (forward (take k steps) w) = (Inl err, w')"
  shows "saga_loop allSteps steps completed w =
    (let (compensated, w'') = saga_compensate allSteps err (rev (completed @ map sg_name (take k steps))) [] w'
     in (\<lparr>sr_success = False, sr_completedSteps = completed @ map sg_name (take k steps),
          sr_failedStep = Some (sg_name (steps ! k)), sr_error = Some err,
          sr_compensatedSteps = Some compensated\<rparr>, w''))"
  using assms
proof (induction steps arbitrary: completed w k)
  case (Cons step steps)
  show ?case
  proof (cases k)
    case (Suc j)
    have "step_ok step w" using Cons.prems(1)[of 0] Suc by simp
    then obtain u w1 where e: "sg_execute step w = (Inr u, w1)"
      by (cases "sg_execute step w") (auto simp: step_ok_def)
    have "step_ok (steps ! i) (forward (take i steps) w1)" if "i < j" for i
      using Cons.prems(1)[of "Suc i"] that e Suc by simp
    then show ?thesis
      using Cons.IH[of j w1 "completed @ [sg_name step]"] Cons.prems(2,3) e Suc by simp
  qed (use Cons.prems in simp)
qed simp

text \<open>Two steps with one name: the compensation of the first runs twice and that of the second never.\<close>

lemma saga_duplicate_names_compensate_first_twice:
  "snd (saga_execute \<lparr>sd_name = ''s'', sd_steps =
     [\<lparr>sg_name = ''a'', sg_execute = \<lambda>w. (Inr (), w), sg_compensate = \<lambda>e w. (Inr (), w @ [1])\<rparr>,
      \<lparr>sg_name = ''a'', sg_execute = \<lambda>w. (Inr (), w), sg_compensate = \<lambda>e w. (Inr (), w @ [2])\<rparr>,
      \<lparr>sg_name = ''b'', sg_execute = \<lambda>w. (Inl ''x'', w), sg_compensate = \<lambda>e w. (Inr (), w)\<rparr>]\<rparr> []) = [1, 1::nat]"
  by (simp add: saga_execute_def)

section \<open>Property\<close>


definition booking :: "(nat list, string) saga_definition" where
  "booking = \<lparr>sd_name = ''booking'', sd_steps =
     [\<lparr>sg_name = ''hotel'', sg_execute = \<lambda>w. (Inr (), w @ [1]), sg_compensate = \<lambda>e w. (Inl ''late'', w @ [11])\<rparr>,
      \<lparr>sg_name = ''car'', sg_execute = \<lambda>w. (Inr (), w @ [2]), sg_compensate = \<lambda>e w. (Inr (), w @ [12])\<rparr>,
      \<lparr>sg_name = ''pay'', sg_execute = \<lambda>w. (Inl ''declined'', w @ [3]), sg_compensate = \<lambda>e w. (Inr (), w)\<rparr>]\<rparr>"


end
