(* ===== verification/Graph_Cycles.thy ===== *)
theory Graph_Cycles
  imports Boot_Prelude
begin

text \<open>
  The cycle detector of the module graph, \<open>graph/cycle-detector.ts\<close>: Tarjan's algorithm over a
  list of node names and a list of edges. A state holds what the closure variables of
  \<open>detectCycles\<close> hold (the stack with its top first); \<open>strongconnect\<close> and the loop over the
  neighbours inside it are one pair of mutually recursive functions. The theory proves that the
  detector reports exactly the strongly connected components with two members or more.
\<close>

section \<open>Data\<close>

record dep_edge =
  eg_from :: string
  eg_to :: string

type_synonym adjacency = "(string, string list) jsmap"

record tarjan =
  tj_index :: nat
  tj_stack :: "string list"
  tj_onStack :: "string list"
  tj_indices :: "(string, nat) jsmap"
  tj_lowlinks :: "(string, nat) jsmap"
  tj_sccs :: "string list list"

section \<open>Operations\<close>

definition build_adj :: "string list \<Rightarrow> dep_edge list \<Rightarrow> adjacency" where
  "build_adj nodes edges =
     foldl (\<lambda>adj e. if jm_has adj (eg_from e) \<and> jm_has adj (eg_to e)
                    then jm_set adj (eg_from e) (the (jm_get adj (eg_from e)) @ [eg_to e]) else adj)
       (foldl (\<lambda>adj node. jm_set adj node []) [] nodes) edges"

definition adj_of :: "adjacency \<Rightarrow> string \<Rightarrow> string list" where
  "adj_of adj v = (case jm_get adj v of None \<Rightarrow> [] | Some ws \<Rightarrow> ws)"

definition tj_lowlink :: "tarjan \<Rightarrow> string \<Rightarrow> nat" where
  "tj_lowlink s v = the (jm_get (tj_lowlinks s) v)"

definition tj_lower :: "string \<Rightarrow> nat \<Rightarrow> tarjan \<Rightarrow> tarjan" where
  "tj_lower v n s = s\<lparr>tj_lowlinks := jm_set (tj_lowlinks s) v (min (tj_lowlink s v) n)\<rparr>"

text \<open>The lines of \<open>strongconnect\<close> before its loop.\<close>

definition tj_enter :: "string \<Rightarrow> tarjan \<Rightarrow> tarjan" where
  "tj_enter v s = s\<lparr>tj_indices := jm_set (tj_indices s) v (tj_index s),
     tj_lowlinks := jm_set (tj_lowlinks s) v (tj_index s),
     tj_index := tj_index s + 1, tj_stack := v # tj_stack s, tj_onStack := js_add v (tj_onStack s)\<rparr>"

text \<open>The \<open>do ... while\<close> loop; it pops until \<open>v\<close>, which is on the stack.\<close>

fun tj_pop :: "string \<Rightarrow> string list \<Rightarrow> string list \<Rightarrow> string list \<Rightarrow> string list \<times> string list \<times> string list" where
  "tj_pop v [] onStack scc = ([], onStack, scc)"
| "tj_pop v (w # stack) onStack scc =
     (if w = v then (stack, js_del w onStack, scc @ [w])
      else tj_pop v stack (js_del w onStack) (scc @ [w]))"

definition tj_finish :: "string \<Rightarrow> tarjan \<Rightarrow> tarjan" where
  "tj_finish v s =
     (if jm_get (tj_lowlinks s) v = jm_get (tj_indices s) v
      then let (stack, onStack, scc) = tj_pop v (tj_stack s) (tj_onStack s) []
           in s\<lparr>tj_stack := stack, tj_onStack := onStack,
                tj_sccs := (if 1 < length scc then tj_sccs s @ [rev scc] else tj_sccs s)\<rparr>
      else s)"

function (domintros) strongconnect :: "adjacency \<Rightarrow> string \<Rightarrow> tarjan \<Rightarrow> tarjan"
  and visit_all :: "adjacency \<Rightarrow> string \<Rightarrow> string list \<Rightarrow> tarjan \<Rightarrow> tarjan" where
  "strongconnect adj v s = tj_finish v (visit_all adj v (adj_of adj v) (tj_enter v s))"
| "visit_all adj v [] s = s"
| "visit_all adj v (w # ws) s =
     (if \<not> jm_has (tj_indices s) w
      then let s' = strongconnect adj w s in visit_all adj v ws (tj_lower v (tj_lowlink s' w) s')
      else if w \<in> set (tj_onStack s)
      then visit_all adj v ws (tj_lower v (the (jm_get (tj_indices s) w)) s)
      else visit_all adj v ws s)"
  by pat_completeness auto

section \<open>Termination\<close>

definition tj_visited :: "tarjan \<Rightarrow> string set" where
  "tj_visited s = dom (jm_get (tj_indices s))"

lemma jm_has_visited [simp]: "jm_get (tj_indices s) w = None \<longleftrightarrow> w \<notin> tj_visited s"
  by (auto simp: tj_visited_def)

lemma tj_lower_simps [simp]:
  "tj_index (tj_lower v n s) = tj_index s" "tj_stack (tj_lower v n s) = tj_stack s"
  "tj_onStack (tj_lower v n s) = tj_onStack s" "tj_indices (tj_lower v n s) = tj_indices s"
  "tj_sccs (tj_lower v n s) = tj_sccs s"
  by (simp_all add: tj_lower_def)

lemma tj_finish_simps [simp]:
  "tj_index (tj_finish v s) = tj_index s" "tj_indices (tj_finish v s) = tj_indices s"
  "tj_lowlinks (tj_finish v s) = tj_lowlinks s"
  by (simp_all add: tj_finish_def split: prod.split)

lemma tj_enter_visited [simp]: "tj_visited (tj_enter v s) = insert v (tj_visited s)"
  by (simp add: tj_visited_def tj_enter_def jsmap_simps)

lemma tj_visited_same [simp]:
  "tj_visited (tj_lower v n s) = tj_visited s" "tj_visited (tj_finish v s) = tj_visited s"
  by (simp_all add: tj_visited_def)

lemma tarjan_grows:
  "strongconnect_visit_all_dom (Inl (adj, v, s)) \<Longrightarrow>
     insert v (tj_visited s) \<subseteq> tj_visited (strongconnect adj v s)"
  "strongconnect_visit_all_dom (Inr (adj, v, ws, s)) \<Longrightarrow> tj_visited s \<subseteq> tj_visited (visit_all adj v ws s)"
proof (induction rule: strongconnect_visit_all.pinduct)
  case (1 adj v s)
  then show ?case by (simp add: strongconnect.psimps)
next
  case (2 adj v s)
  then show ?case by (simp add: visit_all.psimps)
next
  case (3 adj v w ws s)
  have mono: "tj_visited s \<subseteq> tj_visited (strongconnect adj w s)" if "w \<notin> tj_visited s"
    using 3(2) that by simp
  show ?case
    using 3(1,3,4,5) mono by (simp add: visit_all.psimps Let_def) (metis subset_trans)
qed

definition tj_unvisited :: "adjacency \<Rightarrow> tarjan \<Rightarrow> nat" where
  "tj_unvisited adj s = card (set (jm_keys adj) - tj_visited s)"

lemma tj_unvisited_mono: "tj_visited s \<subseteq> tj_visited t \<Longrightarrow> tj_unvisited adj t \<le> tj_unvisited adj s"
  unfolding tj_unvisited_def by (rule card_mono) auto

lemma tj_unvisited_less:
  "v \<in> set (jm_keys adj) \<Longrightarrow> v \<notin> tj_visited s \<Longrightarrow> tj_unvisited adj (tj_enter v s) < tj_unvisited adj s"
  unfolding tj_unvisited_def by (rule psubset_card_mono) auto

lemma adj_of_known: "v \<notin> set (jm_keys adj) \<Longrightarrow> adj_of adj v = []"
  by (simp add: adj_of_def map_of_eq_None_iff[THEN iffD2])

fun tj_rank :: "(adjacency \<times> string \<times> tarjan) + (adjacency \<times> string \<times> string list \<times> tarjan) \<Rightarrow> nat \<times> nat" where
  "tj_rank (Inl (adj, v, s)) =
     (tj_unvisited adj s, if v \<in> tj_visited s then 2 * length (adj_of adj v) + 1 else 1)"
| "tj_rank (Inr (adj, v, ws, s)) = (tj_unvisited adj s, 2 * length ws)"

termination strongconnect
proof (relation "inv_image (less_than <*lex*> less_than) tj_rank")
  show "wf (inv_image (less_than <*lex*> less_than) tj_rank)" by auto
next
  fix adj :: adjacency and v and s :: tarjan
  show "(Inr (adj, v, adj_of adj v, tj_enter v s), Inl (adj, v, s))
      \<in> inv_image (less_than <*lex*> less_than) tj_rank"
    using tj_unvisited_less[of v adj s] adj_of_known[of v adj] tj_unvisited_mono[of s "tj_enter v s" adj]
    by (cases "v \<in> set (jm_keys adj)"; cases "v \<in> tj_visited s") (auto simp: le_less)
next
  fix adj :: adjacency and v w :: string and ws and s :: tarjan
  assume "\<not> jm_has (tj_indices s) w"
  then show "(Inl (adj, w, s), Inr (adj, v, w # ws, s)) \<in> inv_image (less_than <*lex*> less_than) tj_rank"
    by simp
next
  fix adj :: adjacency and v w :: string and ws and s s' :: tarjan
  assume "s' = strongconnect adj w s" "strongconnect_visit_all_dom (Inl (adj, w, s))"
  then show "(Inr (adj, v, ws, tj_lower v (tj_lowlink s' w) s'), Inr (adj, v, w # ws, s))
      \<in> inv_image (less_than <*lex*> less_than) tj_rank"
    using tarjan_grows(1)[of adj w s] tj_unvisited_mono[of s "strongconnect adj w s" adj]
    by (auto simp: le_less tj_unvisited_def)
qed (auto simp: tj_unvisited_def)

declare strongconnect.simps [simp del]

definition tj_start :: tarjan where
  "tj_start = \<lparr>tj_index = 0, tj_stack = [], tj_onStack = [], tj_indices = [], tj_lowlinks = [], tj_sccs = []\<rparr>"

definition connect_node :: "adjacency \<Rightarrow> string \<Rightarrow> tarjan \<Rightarrow> tarjan" where
  "connect_node adj node s = (if \<not> jm_has (tj_indices s) node then strongconnect adj node s else s)"

definition detectCycles :: "string list \<Rightarrow> dep_edge list \<Rightarrow> string list list" where
  "detectCycles nodes edges = tj_sccs (fold (connect_node (build_adj nodes edges)) nodes tj_start)"

section \<open>The invariant of the search\<close>

definition dep_rel :: "adjacency \<Rightarrow> (string \<times> string) set" where
  "dep_rel adj = {(v, w). w \<in> set (adj_of adj v)}"

definition component :: "adjacency \<Rightarrow> string \<Rightarrow> string set" where
  "component adj v = {w. (v, w) \<in> (dep_rel adj)\<^sup>* \<and> (w, v) \<in> (dep_rel adj)\<^sup>*}"

definition tj_idx :: "tarjan \<Rightarrow> string \<Rightarrow> nat" where
  "tj_idx s v = the (jm_get (tj_indices s) v)"

text \<open>
  \<open>grey\<close> are the nodes whose call of \<open>strongconnect\<close> is active. The stack holds them and what they
  reached without closing a component; the nodes that left it form whole components.
\<close>

definition stack_ok :: "adjacency \<Rightarrow> tarjan \<Rightarrow> bool" where
  "stack_ok adj s \<longleftrightarrow> distinct (tj_stack s) \<and> set (tj_onStack s) = set (tj_stack s)
     \<and> set (tj_stack s) \<subseteq> tj_visited s \<and> (\<forall>v \<in> tj_visited s. tj_idx s v < tj_index s)
     \<and> sorted_wrt (\<lambda>x y. tj_idx s y < tj_idx s x) (tj_stack s)"

definition grey_ok :: "adjacency \<Rightarrow> string set \<Rightarrow> tarjan \<Rightarrow> bool" where
  "grey_ok adj grey s \<longleftrightarrow> grey \<subseteq> set (tj_stack s)
     \<and> (\<forall>g \<in> grey. \<forall>y \<in> set (tj_stack s). tj_idx s g \<le> tj_idx s y \<longrightarrow> (g, y) \<in> (dep_rel adj)\<^sup>*)
     \<and> (\<forall>y \<in> set (tj_stack s). \<exists>g \<in> grey. tj_idx s g \<le> tj_idx s y \<and> (y, g) \<in> (dep_rel adj)\<^sup>*)
     \<and> (\<forall>x \<in> tj_visited s - grey. set (adj_of adj x) \<subseteq> tj_visited s)"

definition closed_ok :: "adjacency \<Rightarrow> tarjan \<Rightarrow> bool" where
  "closed_ok adj s \<longleftrightarrow>
     (\<forall>x \<in> tj_visited s - set (tj_stack s). set (adj_of adj x) \<subseteq> tj_visited s - set (tj_stack s))
   \<and> set ` set (tj_sccs s) = {C. \<exists>x \<in> tj_visited s - set (tj_stack s). C = component adj x \<and> 1 < card C}
   \<and> distinct (map set (tj_sccs s)) \<and> list_all distinct (tj_sccs s)"

definition tj_ok :: "adjacency \<Rightarrow> string set \<Rightarrow> tarjan \<Rightarrow> bool" where
  "tj_ok adj grey s \<longleftrightarrow> stack_ok adj s \<and> grey_ok adj grey s \<and> closed_ok adj s"

definition tj_ext :: "tarjan \<Rightarrow> tarjan \<Rightarrow> bool" where
  "tj_ext s t \<longleftrightarrow> (\<exists>new. tj_stack t = new @ tj_stack s \<and> set new \<inter> tj_visited s = {})
     \<and> (\<forall>x \<in> tj_visited s. x \<in> tj_visited t \<and> tj_idx t x = tj_idx s x)
     \<and> tj_index s \<le> tj_index t \<and> (\<forall>x \<in> tj_visited t - tj_visited s. tj_index s \<le> tj_idx t x)"

lemma tj_idx_lower [simp]: "tj_idx (tj_lower v n s) = tj_idx s"
  by (simp add: tj_idx_def fun_eq_iff)

lemma tj_lower_ok [simp]:
  "tj_ok adj grey (tj_lower v n s) \<longleftrightarrow> tj_ok adj grey s"
  "tj_ext s (tj_lower v n t) \<longleftrightarrow> tj_ext s t" "tj_ext (tj_lower v n s) t \<longleftrightarrow> tj_ext s t"
  by (simp_all add: tj_ok_def stack_ok_def grey_ok_def closed_ok_def tj_ext_def)

lemma tj_lowlink_lower [simp]:
  "tj_lowlink (tj_lower v n s) x = (if x = v then min (tj_lowlink s v) n else tj_lowlink s x)"
  by (simp add: tj_lowlink_def tj_lower_def jsmap_simps)

lemma tj_ext_refl [simp, intro]: "tj_ext s s"
  by (auto simp: tj_ext_def)

lemma tj_ext_trans:
  assumes "tj_ext s t" and "tj_ext t u"
  shows "tj_ext s u"
proof -
  obtain n1 n2 where "tj_stack t = n1 @ tj_stack s" "set n1 \<inter> tj_visited s = {}"
    "tj_stack u = n2 @ tj_stack t" "set n2 \<inter> tj_visited t = {}"
    using assms unfolding tj_ext_def by (elim conjE exE) blast
  moreover have "tj_visited s \<subseteq> tj_visited t" using assms(1) by (auto simp: tj_ext_def)
  ultimately have "\<exists>new. tj_stack u = new @ tj_stack s \<and> set new \<inter> tj_visited s = {}"
    by (intro exI[of _ "n2 @ n1"]) auto
  moreover have "tj_index s \<le> tj_idx u x" if "x \<in> tj_visited u - tj_visited s" for x
    using assms that unfolding tj_ext_def by (cases "x \<in> tj_visited t") (auto intro: order_trans)
  ultimately show ?thesis using assms unfolding tj_ext_def by auto
qed

lemma tj_ext_old:
  "tj_ext s t \<Longrightarrow> x \<in> set (tj_stack t) \<Longrightarrow> x \<in> tj_visited s \<Longrightarrow> x \<in> set (tj_stack s)"
  "tj_ext s t \<Longrightarrow> x \<in> set (tj_stack s) \<Longrightarrow> x \<in> set (tj_stack t)"
  "tj_ext s t \<Longrightarrow> x \<in> tj_visited s \<Longrightarrow> tj_idx t x = tj_idx s x"
  "tj_ext s t \<Longrightarrow> x \<in> tj_visited s \<Longrightarrow> x \<in> tj_visited t"
  by (auto simp: tj_ext_def)

lemma tj_enter_simps [simp]:
  "tj_stack (tj_enter v s) = v # tj_stack s" "set (tj_onStack (tj_enter v s)) = insert v (set (tj_onStack s))"
  "tj_index (tj_enter v s) = Suc (tj_index s)" "tj_sccs (tj_enter v s) = tj_sccs s"
  "tj_idx (tj_enter v s) x = (if x = v then tj_index s else tj_idx s x)"
  "tj_lowlink (tj_enter v s) x = (if x = v then tj_index s else tj_lowlink s x)"
  by (simp_all add: tj_enter_def tj_idx_def tj_lowlink_def jsmap_simps)

lemma tj_enter_ext: "v \<notin> tj_visited s \<Longrightarrow> tj_ext s (tj_enter v s)"
  by (auto simp: tj_ext_def)

lemma tj_enter_ok:
  assumes "tj_ok adj grey s" and "v \<notin> tj_visited s" and reach: "\<forall>g \<in> grey. (g, v) \<in> (dep_rel adj)\<^sup>*"
  shows "tj_ok adj (insert v grey) (tj_enter v s)"
proof -
  have st: "stack_ok adj s" and gr: "grey_ok adj grey s" and cl: "closed_ok adj s"
    using assms(1) by (simp_all add: tj_ok_def)
  have vs: "v \<notin> set (tj_stack s)" using st assms(2) by (auto simp: stack_ok_def)
  have below: "tj_idx s x < tj_index s" if "x \<in> set (tj_stack s)" for x
    using st that by (auto simp: stack_ok_def)
  have neq: "x \<noteq> v" if "x \<in> set (tj_stack s)" for x using vs that by blast
  have "sorted_wrt (\<lambda>x y. tj_idx (tj_enter v s) y < tj_idx (tj_enter v s) x) (tj_stack s)"
    using st unfolding stack_ok_def
    by (auto intro!: sorted_wrt_mono_rel[of "tj_stack s" "\<lambda>x y. tj_idx s y < tj_idx s x"] dest: neq)
  then have "stack_ok adj (tj_enter v s)"
    using st vs below neq by (auto simp: stack_ok_def less_Suc_eq)
  moreover have "grey_ok adj (insert v grey) (tj_enter v s)"
    unfolding grey_ok_def
  proof (intro conjI ballI impI)
    note gr = gr[unfolded grey_ok_def]
    show "insert v grey \<subseteq> set (tj_stack (tj_enter v s))" using gr by auto
    fix x assume x: "x \<in> tj_visited (tj_enter v s) - insert v grey"
    then show "set (adj_of adj x) \<subseteq> tj_visited (tj_enter v s)" using gr by auto
  next
    note gr = gr[unfolded grey_ok_def]
    fix g y assume "g \<in> insert v grey" "y \<in> set (tj_stack (tj_enter v s))"
      and "tj_idx (tj_enter v s) g \<le> tj_idx (tj_enter v s) y"
    then consider "g = v" "y = v" | "g = v" "y \<in> set (tj_stack s)" "tj_index s \<le> tj_idx s y"
      | "g \<in> grey" "y = v" | "g \<in> grey" "y \<in> set (tj_stack s)" "tj_idx s g \<le> tj_idx s y"
      using gr neq by (auto split: if_splits)
    then show "(g, y) \<in> (dep_rel adj)\<^sup>*"
      using gr reach below by cases (auto simp: not_le[symmetric])
  next
    note gr = gr[unfolded grey_ok_def]
    fix y assume y: "y \<in> set (tj_stack (tj_enter v s))"
    show "\<exists>g\<in>insert v grey. tj_idx (tj_enter v s) g \<le> tj_idx (tj_enter v s) y \<and> (y, g) \<in> (dep_rel adj)\<^sup>*"
    proof (cases "y = v")
      case False
      then obtain g where "g \<in> grey" "tj_idx s g \<le> tj_idx s y" "(y, g) \<in> (dep_rel adj)\<^sup>*"
        using y gr by auto
      then show ?thesis using False gr neq by (intro bexI[of _ g]) auto
    qed auto
  qed
  moreover have "closed_ok adj (tj_enter v s)"
  proof -
    have "tj_visited (tj_enter v s) - set (tj_stack (tj_enter v s)) = tj_visited s - set (tj_stack s)"
      using assms(2) by auto
    then show ?thesis using cl unfolding closed_ok_def by simp
  qed
  ultimately show ?thesis by (simp add: tj_ok_def)
qed

lemma stack_oldest:
  assumes "stack_ok adj s" and "tj_stack s = new @ v # old"
  shows "\<forall>x \<in> set new. tj_idx s v < tj_idx s x" and "\<forall>x \<in> set old. tj_idx s x < tj_idx s v"
    and "set new \<inter> set (v # old) = {}" and "v \<notin> set old" and "distinct new"
  using assms by (auto simp: stack_ok_def sorted_wrt_append)

text \<open>A node whose low link is below its index stays on the stack and turns black.\<close>

lemma tj_leave_ok:
  assumes "tj_ok adj (insert v grey) t" and "v \<notin> grey" and "set (adj_of adj v) \<subseteq> tj_visited t"
    and low: "x \<in> set (tj_stack t)" "(v, x) \<in> (dep_rel adj)\<^sup>*" "tj_idx t x < tj_idx t v"
  shows "tj_ok adj grey t"
proof -
  have st: "stack_ok adj t" and gr: "grey_ok adj (insert v grey) t" and cl: "closed_ok adj t"
    using assms(1) by (simp_all add: tj_ok_def)
  obtain g where g: "g \<in> grey" "tj_idx t g < tj_idx t v" "(v, g) \<in> (dep_rel adj)\<^sup>*"
  proof -
    obtain g where "g \<in> insert v grey" "tj_idx t g \<le> tj_idx t x" "(x, g) \<in> (dep_rel adj)\<^sup>*"
      using gr low(1) unfolding grey_ok_def by blast
    then show ?thesis using that[of g] low by (auto intro: rtrancl_trans)
  qed
  have "\<exists>h\<in>grey. tj_idx t h \<le> tj_idx t y \<and> (y, h) \<in> (dep_rel adj)\<^sup>*" if y: "y \<in> set (tj_stack t)" for y
  proof -
    obtain h where h: "h \<in> insert v grey" "tj_idx t h \<le> tj_idx t y" "(y, h) \<in> (dep_rel adj)\<^sup>*"
      using gr y unfolding grey_ok_def by blast
    show ?thesis
    proof (cases "h = v")
      case True
      then have "(y, g) \<in> (dep_rel adj)\<^sup>*" using h g rtrancl_trans by metis
      then show ?thesis using g h True by (intro bexI[of _ g]) auto
    qed (use h in auto)
  qed
  then have "grey_ok adj grey t"
    using gr assms(2,3) unfolding grey_ok_def by auto
  then show ?thesis using st cl by (simp add: tj_ok_def)
qed

lemma tj_pop_segment:
  "v \<notin> set new \<Longrightarrow> \<exists>on. tj_pop v (new @ v # old) onStack scc = (old, on, scc @ new @ [v])
     \<and> set on = set onStack - insert v (set new)"
proof (induction new arbitrary: onStack scc)
  case (Cons a new)
  from Cons.IH[of "js_del a onStack" "scc @ [a]"] Cons.prems obtain on where
    "tj_pop v (new @ v # old) (js_del a onStack) (scc @ [a]) = (old, on, (scc @ [a]) @ new @ [v])"
    "set on = set (js_del a onStack) - insert v (set new)" by auto
  then show ?case using Cons.prems by (intro exI[of _ on]) auto
qed simp

lemma closed_reach:
  assumes "\<forall>x \<in> A. set (adj_of adj x) \<subseteq> A" and "x \<in> A" and "(x, y) \<in> (dep_rel adj)\<^sup>*"
  shows "y \<in> A"
  using assms(3,2) by induction (use assms(1) in \<open>auto simp: dep_rel_def\<close>)

text \<open>The nodes above a root are its component.\<close>

lemma segment_is_component:
  assumes ok: "tj_ok adj (insert v grey) t" and stack: "tj_stack t = new @ v # old"
    and old: "grey \<subseteq> set old" and reach: "\<forall>g \<in> grey. (g, v) \<in> (dep_rel adj)\<^sup>*"
    and closed: "\<forall>x \<in> insert v (set new). set (adj_of adj x) \<subseteq> tj_visited t - set old"
    and x: "x \<in> insert v (set new)"
  shows "component adj x = insert v (set new)"
proof -
  define D where "D = tj_visited t - set (tj_stack t)"
  define S where "S = insert v (set new)"
  have st: "stack_ok adj t" and gr: "grey_ok adj (insert v grey) t" and cl: "closed_ok adj t"
    using ok by (simp_all add: tj_ok_def)
  note above = stack_oldest[OF st stack]
  have seg: "(v, y) \<in> (dep_rel adj)\<^sup>* \<and> (y, v) \<in> (dep_rel adj)\<^sup>*" if "y \<in> S" for y
  proof
    have y: "y \<in> set (tj_stack t)" "tj_idx t v \<le> tj_idx t y"
      using that above(1) stack by (auto simp: S_def intro: less_imp_le)
    then show "(v, y) \<in> (dep_rel adj)\<^sup>*" using gr unfolding grey_ok_def by blast
    obtain g where "g \<in> insert v grey" "(y, g) \<in> (dep_rel adj)\<^sup>*"
      using gr y(1) unfolding grey_ok_def by blast
    then show "(y, v) \<in> (dep_rel adj)\<^sup>*" using reach by (auto intro: rtrancl_trans)
  qed
  have D: "\<forall>x \<in> D. set (adj_of adj x) \<subseteq> D" using cl unfolding closed_ok_def D_def by blast
  have "\<forall>x \<in> D \<union> S. set (adj_of adj x) \<subseteq> D \<union> S"
    using D closed unfolding D_def S_def stack by auto
  then have out: "y \<in> D \<union> S" if "(x, y) \<in> (dep_rel adj)\<^sup>*" for y
    using closed_reach[of "D \<union> S" adj x y] that x by (auto simp: S_def)
  have "y \<notin> D" if "(y, x) \<in> (dep_rel adj)\<^sup>*" for y
    using closed_reach[OF D _ that] x stack by (auto simp only: D_def set_append set_simps)
  then have "component adj x \<subseteq> S" using out by (auto simp: component_def)
  moreover have "S \<subseteq> component adj x"
    using seg[of x] seg x by (auto simp: component_def S_def[symmetric] intro: rtrancl_trans)
  ultimately have "component adj x = S" by (rule subset_antisym)
  then show ?thesis by (simp add: S_def)
qed

lemma tj_close_ok:
  assumes ok: "tj_ok adj (insert v grey) t" and stack: "tj_stack t = new @ v # old"
    and old: "grey \<subseteq> set old" and reach: "\<forall>g \<in> grey. (g, v) \<in> (dep_rel adj)\<^sup>*"
    and closed: "\<forall>x \<in> insert v (set new). set (adj_of adj x) \<subseteq> tj_visited t - set old"
    and root: "jm_get (tj_lowlinks t) v = jm_get (tj_indices t) v"
  shows "tj_ok adj grey (tj_finish v t) \<and> tj_stack (tj_finish v t) = old"
proof -
  define S where "S = insert v (set new)"
  have st: "stack_ok adj t" and gr: "grey_ok adj (insert v grey) t" and cl: "closed_ok adj t"
    using ok by (simp_all add: tj_ok_def)
  note above = stack_oldest[OF st stack]
  have vnew: "v \<notin> set new" using above(3) by auto
  have vis: "S \<subseteq> tj_visited t" using st stack by (auto simp: S_def stack_ok_def)
  obtain on where pop: "tj_pop v (tj_stack t) (tj_onStack t) [] = (old, on, new @ [v])"
    and on: "set on = set (tj_onStack t) - S"
    using tj_pop_segment[OF vnew, of old "tj_onStack t" "[]"] unfolding stack S_def by auto
  have u: "tj_stack (tj_finish v t) = old" "tj_onStack (tj_finish v t) = on"
    "tj_sccs (tj_finish v t) = (if new \<noteq> [] then tj_sccs t @ [v # rev new] else tj_sccs t)"
    using pop root by (simp_all add: tj_finish_def)
  have [simp]: "tj_idx (tj_finish v t) = tj_idx t" by (simp add: tj_idx_def fun_eq_iff)
  have comp: "component adj x = S" if "x \<in> S" for x
    using segment_is_component[OF ok stack old reach closed] that by (simp add: S_def)
  have S: "set (tj_stack t) = S \<union> set old" "S \<inter> set old = {}" using stack above(3,4) by (auto simp: S_def)
  have "stack_ok adj (tj_finish v t)"
    unfolding stack_ok_def u(1,2) on
  proof (intro conjI)
    note st = st[unfolded stack_ok_def]
    show "distinct old" "sorted_wrt (\<lambda>x y. tj_idx (tj_finish v t) y < tj_idx (tj_finish v t) x) old"
      using st stack by (simp_all add: sorted_wrt_append)
    show "set (tj_onStack t) - S = set old" using st S by blast
    show "set old \<subseteq> tj_visited (tj_finish v t)" using st stack by simp
    show "\<forall>w \<in> tj_visited (tj_finish v t). tj_idx (tj_finish v t) w < tj_index (tj_finish v t)"
      using st by simp
  qed
  moreover have "grey_ok adj grey (tj_finish v t)"
    unfolding grey_ok_def u
  proof (intro conjI ballI impI)
    note gr = gr[unfolded grey_ok_def]
    show "grey \<subseteq> set old" by fact
    fix x assume "x \<in> tj_visited (tj_finish v t) - grey"
    then show "set (adj_of adj x) \<subseteq> tj_visited (tj_finish v t)"
      using gr closed by (cases "x = v") auto
  next
    note gr = gr[unfolded grey_ok_def]
    fix g y assume "g \<in> grey" "y \<in> set old" "tj_idx (tj_finish v t) g \<le> tj_idx (tj_finish v t) y"
    then show "(g, y) \<in> (dep_rel adj)\<^sup>*" using gr stack by simp
  next
    note gr = gr[unfolded grey_ok_def]
    fix y assume y: "y \<in> set old"
    then have "y \<in> set (tj_stack t)" by (simp add: S(1))
    then obtain g where "g \<in> insert v grey" "tj_idx t g \<le> tj_idx t y" "(y, g) \<in> (dep_rel adj)\<^sup>*"
      using gr by blast
    moreover have "tj_idx t y < tj_idx t v" using above(2) y by blast
    ultimately show "\<exists>g\<in>grey. tj_idx (tj_finish v t) g \<le> tj_idx (tj_finish v t) y \<and> (y, g) \<in> (dep_rel adj)\<^sup>*"
      by auto
  qed
  moreover have "closed_ok adj (tj_finish v t)"
  proof -
    define D where "D = tj_visited t - set (tj_stack t)"
    have D': "tj_visited (tj_finish v t) - set (tj_stack (tj_finish v t)) = D \<union> S"
      using S vis u by (auto simp: D_def)
    have cl: "\<forall>x \<in> D. set (adj_of adj x) \<subseteq> D"
      "set ` set (tj_sccs t) = {C. \<exists>x \<in> D. C = component adj x \<and> 1 < card C}"
      "distinct (map set (tj_sccs t))" "list_all distinct (tj_sccs t)"
      using cl by (simp_all add: closed_ok_def D_def)
    have next_closed: "\<forall>x \<in> D \<union> S. set (adj_of adj x) \<subseteq> D \<union> S"
      using cl(1) closed S by (auto simp: D_def S_def)
    have card: "card S = Suc (length new)"
      using above(5) vnew by (simp add: S_def distinct_card)
    have seg: "set (v # rev new) = S" by (simp add: S_def)
    have sets: "{C. \<exists>x \<in> D \<union> S. C = component adj x \<and> 1 < card C} =
        {C. \<exists>x \<in> D. C = component adj x \<and> 1 < card C} \<union> (if new = [] then {} else {S})"
    proof -
      have parts: "{C. \<exists>x \<in> D \<union> S. C = component adj x \<and> 1 < card C} =
          {C. \<exists>x \<in> D. C = component adj x \<and> 1 < card C} \<union> {C. \<exists>x \<in> S. C = component adj x \<and> 1 < card C}"
        by blast
      have "{C. \<exists>x \<in> S. C = component adj x \<and> 1 < card C} = (if new = [] then {} else {S})"
        using comp card S_def by auto
      then show ?thesis unfolding parts by simp
    qed
    have fresh: "S \<notin> set ` set (tj_sccs t)"
    proof
      assume "S \<in> set ` set (tj_sccs t)"
      then obtain x where "x \<in> D" "S = component adj x" unfolding cl(2) by blast
      moreover have "x \<in> component adj x" by (simp add: component_def)
      ultimately show False using S by (auto simp: D_def)
    qed
    show ?thesis
      unfolding closed_ok_def D' sets u(3)
    proof (intro conjI)
      show "\<forall>x \<in> D \<union> S. set (adj_of adj x) \<subseteq> D \<union> S" by (fact next_closed)
      show "set ` set (if new \<noteq> [] then tj_sccs t @ [v # rev new] else tj_sccs t) =
          {C. \<exists>x \<in> D. C = component adj x \<and> 1 < card C} \<union> (if new = [] then {} else {S})"
        unfolding cl(2)[symmetric] seg[symmetric] by simp
      show "distinct (map set (if new \<noteq> [] then tj_sccs t @ [v # rev new] else tj_sccs t))"
        using cl(3) fresh seg by simp
      show "list_all distinct (if new \<noteq> [] then tj_sccs t @ [v # rev new] else tj_sccs t)"
        using cl(4) above(5) vnew by simp
    qed
  qed
  ultimately show ?thesis using u by (simp add: tj_ok_def)
qed

section \<open>The search keeps the invariant\<close>

definition tj_lows :: "tarjan \<Rightarrow> string set" where
  "tj_lows s = dom (jm_get (tj_lowlinks s))"

lemma tj_lows_simps [simp]:
  "tj_lows (tj_enter v s) = insert v (tj_lows s)" "tj_lows (tj_lower v n s) = insert v (tj_lows s)"
  "tj_lows (tj_finish v s) = tj_lows s"
  by (simp_all add: tj_lows_def tj_enter_def tj_lower_def jm_dom_set)

lemma lowlinks_grow:
  "insert v (tj_lows s) \<subseteq> tj_lows (strongconnect adj v s)"
  "tj_lows s \<subseteq> tj_lows (visit_all adj v ws s)"
proof (induction adj v s and adj v ws s rule: strongconnect_visit_all.induct)
  case (1 adj v s)
  then show ?case by (simp add: strongconnect.simps)
next
  case (3 adj v w ws s)
  then show ?case by (cases "w \<in> tj_visited s"; cases "w \<in> set (tj_onStack s)") (auto simp: Let_def)
qed simp

definition connect_post :: "adjacency \<Rightarrow> string set \<Rightarrow> string \<Rightarrow> tarjan \<Rightarrow> tarjan \<Rightarrow> bool" where
  "connect_post adj grey v s t \<longleftrightarrow> tj_ok adj grey t \<and> tj_ext s t \<and> v \<in> tj_visited t \<and> tj_idx t v = tj_index s
     \<and> (\<forall>x \<in> tj_visited s. tj_lowlink t x = tj_lowlink s x)
     \<and> tj_lowlink t v \<le> tj_index s
     \<and> (v \<in> set (tj_stack t) \<longrightarrow> (\<exists>x \<in> set (tj_stack s). tj_lowlink t v = tj_idx s x \<and> (v, x) \<in> (dep_rel adj)\<^sup>*))
     \<and> (v \<notin> set (tj_stack t) \<longrightarrow> tj_lowlink t v = tj_index s)
     \<and> (\<forall>x \<in> tj_visited t - tj_visited s. \<forall>y \<in> set (adj_of adj x) \<inter> set (tj_stack s). tj_lowlink t v \<le> tj_idx s y)"

definition visit_post :: "adjacency \<Rightarrow> string set \<Rightarrow> string \<Rightarrow> string list \<Rightarrow> tarjan \<Rightarrow> tarjan \<Rightarrow> bool" where
  "visit_post adj grey v ws s t \<longleftrightarrow> tj_ok adj grey t \<and> tj_ext s t \<and> set ws \<subseteq> tj_visited t
     \<and> (\<forall>x \<in> tj_visited s - {v}. tj_lowlink t x = tj_lowlink s x)
     \<and> tj_lowlink t v \<le> tj_lowlink s v
     \<and> (\<exists>x \<in> set (tj_stack t). tj_lowlink t v = tj_idx t x \<and> (v, x) \<in> (dep_rel adj)\<^sup>*)
     \<and> (\<forall>w \<in> set ws \<inter> set (tj_stack s). tj_lowlink t v \<le> tj_idx s w)
     \<and> (\<forall>x \<in> tj_visited t - tj_visited s. \<forall>y \<in> set (adj_of adj x) \<inter> set (tj_stack s). tj_lowlink t v \<le> tj_idx s y)"

definition visit_pre :: "adjacency \<Rightarrow> string set \<Rightarrow> string \<Rightarrow> string list \<Rightarrow> tarjan \<Rightarrow> bool" where
  "visit_pre adj grey v ws s \<longleftrightarrow> tj_ok adj grey s \<and> v \<in> grey \<and> (\<forall>g \<in> grey. (g, v) \<in> (dep_rel adj)\<^sup>*)
     \<and> set ws \<subseteq> set (adj_of adj v) \<and> tj_lowlink s v \<le> tj_idx s v
     \<and> (\<exists>x \<in> set (tj_stack s). tj_lowlink s v = tj_idx s x \<and> (v, x) \<in> (dep_rel adj)\<^sup>*)"

lemma visit_post_step:
  assumes ext: "tj_ext s s1" and same: "\<forall>x \<in> tj_visited s - {v}. tj_lowlink s1 x = tj_lowlink s x"
    and w: "w \<in> tj_visited s1" "w \<in> set (tj_stack s) \<Longrightarrow> tj_lowlink s1 v \<le> tj_idx s w"
    and low: "tj_lowlink s1 v \<le> tj_lowlink s v"
    and reach: "\<forall>x \<in> tj_visited s1 - tj_visited s. \<forall>y \<in> set (adj_of adj x) \<inter> set (tj_stack s).
      tj_lowlink s1 v \<le> tj_idx s y"
    and st: "set (tj_stack s) \<subseteq> tj_visited s"
    and rest: "visit_post adj grey v ws s1 t"
  shows "visit_post adj grey v (w # ws) s t"
proof -
  note r = rest[unfolded visit_post_def]
  have ext1: "tj_ext s1 t" and low1: "tj_lowlink t v \<le> tj_lowlink s1 v" using r by simp_all
  note old = tj_ext_old[OF ext] and old1 = tj_ext_old[OF ext1]
  have "tj_lowlink t x = tj_lowlink s x" if "x \<in> tj_visited s - {v}" for x
    using r same old(4) that by auto
  moreover have "tj_lowlink t v \<le> tj_idx s x" if x: "x \<in> set (w # ws) \<inter> set (tj_stack s)" for x
  proof (cases "x = w")
    case True
    then show ?thesis using w(2) x low1 by simp
  next
    case False
    then have "x \<in> set ws \<inter> set (tj_stack s1)" using x old(2) by simp
    moreover have "tj_idx s1 x = tj_idx s x" using x st old(3) by blast
    ultimately show ?thesis using r by metis
  qed
  moreover have "tj_lowlink t v \<le> tj_idx s y"
    if x: "x \<in> tj_visited t - tj_visited s" and y: "y \<in> set (adj_of adj x) \<inter> set (tj_stack s)" for x y
  proof (cases "x \<in> tj_visited s1")
    case True
    then have "tj_lowlink s1 v \<le> tj_idx s y" using reach x y by blast
    then show ?thesis using low1 by simp
  next
    case False
    then have "x \<in> tj_visited t - tj_visited s1" "y \<in> set (adj_of adj x) \<inter> set (tj_stack s1)"
      using x y old(2) by simp_all
    moreover have "tj_idx s1 y = tj_idx s y" using y st old(3) by blast
    ultimately show ?thesis using r by metis
  qed
  ultimately show ?thesis
    unfolding visit_post_def using r low w(1) old1(4) tj_ext_trans[OF ext ext1] by simp
qed

lemma connect_post_finish:
  assumes ok: "tj_ok adj grey s" and v: "v \<notin> tj_visited s" and reach: "\<forall>g \<in> grey. (g, v) \<in> (dep_rel adj)\<^sup>*"
    and post: "visit_post adj (insert v grey) v (adj_of adj v) (tj_enter v s) t"
    and low: "v \<in> tj_lows t"
  shows "connect_post adj grey v s (tj_finish v t)"
proof -
  let ?s = "tj_enter v s"
  note post = post[unfolded visit_post_def]
  have ext: "tj_ext ?s t" and okt: "tj_ok adj (insert v grey) t" using post by simp_all
  note old = tj_ext_old[OF ext]
  have st: "stack_ok adj s" and gr: "grey_ok adj grey s" using ok by (simp_all add: tj_ok_def)
  have stt: "stack_ok adj t" and grt: "grey_ok adj (insert v grey) t" using okt by (simp_all add: tj_ok_def)
  have below: "x \<in> tj_visited s \<and> x \<noteq> v \<and> tj_idx s x < tj_index s" if "x \<in> set (tj_stack s)" for x
    using st that v by (auto simp: stack_ok_def)
  have idx: "tj_idx t v = tj_index s" "v \<in> tj_visited t" and idx_old: "\<And>x. x \<in> tj_visited s \<Longrightarrow> tj_idx t x = tj_idx s x"
    using old(3,4) v by auto
  obtain new where stack: "tj_stack t = new @ v # tj_stack s" and new: "set new \<inter> tj_visited ?s = {}"
    using ext unfolding tj_ext_def by auto
  have reached: "tj_lowlink t v \<le> tj_idx s y"
    if "x \<in> tj_visited t - tj_visited s" "y \<in> set (adj_of adj x) \<inter> set (tj_stack s)" for x y
  proof -
    have y: "tj_idx ?s y = tj_idx s y" "y \<in> set (tj_stack ?s)" using below that by auto
    show ?thesis
    proof (cases "x = v")
      case True
      then show ?thesis using post y that by (metis Int_iff)
    next
      case False
      then have "x \<in> tj_visited t - tj_visited ?s" using that by simp
      then show ?thesis using post y that by (metis Int_iff)
    qed
  qed
  have lows: "\<forall>x \<in> tj_visited s. tj_lowlink t x = tj_lowlink s x" "tj_lowlink t v \<le> tj_index s"
    using post v by auto
  have same: "tj_lowlink (tj_finish v t) = tj_lowlink t" "tj_idx (tj_finish v t) = tj_idx t"
    by (simp_all add: tj_lowlink_def tj_idx_def fun_eq_iff)
  have visited: "tj_visited s \<subseteq> tj_visited t" "tj_index s \<le> tj_index t"
    using ext by (auto simp: tj_ext_def)
  have fresh: "\<forall>x \<in> tj_visited t - tj_visited s. tj_index s \<le> tj_idx t x"
  proof
    fix x assume "x \<in> tj_visited t - tj_visited s"
    then consider "x = v" | "x \<in> tj_visited t - tj_visited ?s" by auto
    then show "tj_index s \<le> tj_idx t x"
    proof cases
      case 2
      then have "tj_index ?s \<le> tj_idx t x" using ext unfolding tj_ext_def by blast
      then show ?thesis by simp
    qed (use idx in simp)
  qed
  show ?thesis
  proof (cases "jm_get (tj_lowlinks t) v = jm_get (tj_indices t) v")
    case True
    then have root: "tj_lowlink t v = tj_index s" using idx by (simp add: tj_lowlink_def tj_idx_def)
    have closed: "set (adj_of adj x) \<subseteq> tj_visited t - set (tj_stack s)" if x: "x \<in> insert v (set new)" for x
    proof -
      have "x \<in> tj_visited t - tj_visited s"
        using x v new idx(2) stt stack by (auto simp: stack_ok_def)
      then have "y \<notin> set (tj_stack s)" if "y \<in> set (adj_of adj x)" for y
        using reached[of x y] that below[of y] root by (auto simp: not_less[symmetric])
      moreover have "set (adj_of adj x) \<subseteq> tj_visited t"
      proof (cases "x = v")
        case False
        then have "x \<notin> insert v grey" "x \<in> tj_visited t"
          using x new gr below stt stack unfolding grey_ok_def stack_ok_def by auto
        then show ?thesis using grt unfolding grey_ok_def by blast
      qed (use post in simp)
      ultimately show ?thesis by blast
    qed
    have "tj_ok adj grey (tj_finish v t) \<and> tj_stack (tj_finish v t) = tj_stack s"
      using tj_close_ok[OF okt stack _ reach _ True] closed gr unfolding grey_ok_def by blast
    moreover have "v \<notin> set (tj_stack s)" using below by blast
    ultimately show ?thesis
      unfolding connect_post_def tj_ext_def same using root idx idx_old lows visited fresh reached by auto
  next
    case False
    obtain l where "jm_get (tj_lowlinks t) v = Some l" using low by (auto simp: tj_lows_def)
    moreover obtain i where "jm_get (tj_indices t) v = Some i" using idx(2) by (auto simp: tj_visited_def)
    ultimately have "tj_lowlink t v \<noteq> tj_idx t v" using False by (simp add: tj_lowlink_def tj_idx_def)
    then have less: "tj_lowlink t v < tj_index s" using lows(2) idx(1) by simp
    obtain x where x: "x \<in> set (tj_stack t)" "tj_lowlink t v = tj_idx t x" "(v, x) \<in> (dep_rel adj)\<^sup>*"
      using post by blast
    have "x \<in> tj_visited s"
      using fresh x less stt by (auto simp: stack_ok_def not_less[symmetric])
    then have xs: "x \<in> set (tj_stack s)" "tj_idx t x = tj_idx s x"
      using x(1) new stack v idx_old by auto
    have "v \<notin> grey" using gr below unfolding grey_ok_def by blast
    moreover have "set (adj_of adj v) \<subseteq> tj_visited t" using post by simp
    moreover have "tj_idx t x < tj_idx t v" using less x(2) idx(1) by simp
    ultimately have "tj_ok adj grey t" using tj_leave_ok[OF okt _ _ x(1,3)] by blast
    moreover have "tj_finish v t = t" using False by (simp add: tj_finish_def)
    moreover have "tj_ext s t" using tj_ext_trans[OF tj_enter_ext[OF v] ext] .
    ultimately show ?thesis
      unfolding connect_post_def using idx lows reached x xs stack by auto
  qed
qed

lemma visit_pre_lower:
  assumes pre: "visit_pre adj grey v (w # ws) s" and ext: "tj_ext s s1" and ok: "tj_ok adj grey s1"
    and same: "tj_lowlink s1 v = tj_lowlink s v"
    and n: "n < tj_lowlink s v \<Longrightarrow> \<exists>x \<in> set (tj_stack s1). n = tj_idx s1 x \<and> (v, x) \<in> (dep_rel adj)\<^sup>*"
  shows "visit_pre adj grey v ws (tj_lower v n s1)"
proof -
  note p = pre[unfolded visit_pre_def]
  have st: "set (tj_stack s) \<subseteq> tj_visited s" "grey \<subseteq> set (tj_stack s)"
    using p by (simp_all add: tj_ok_def stack_ok_def grey_ok_def)
  then have "tj_idx s1 v = tj_idx s v" using p tj_ext_old(3)[OF ext] by blast
  moreover have "\<exists>x \<in> set (tj_stack s1). tj_lowlink s v = tj_idx s1 x \<and> (v, x) \<in> (dep_rel adj)\<^sup>*"
    using p st tj_ext_old(2,3)[OF ext] by (metis subset_iff)
  ultimately show ?thesis
    unfolding visit_pre_def using p ok same n by (cases "n < tj_lowlink s v") (auto simp: min_def)
qed

lemma tarjan_correct:
  "(\<forall>grey. tj_ok adj grey s \<and> v \<notin> tj_visited s \<and> (\<forall>g \<in> grey. (g, v) \<in> (dep_rel adj)\<^sup>*) \<longrightarrow>
     connect_post adj grey v s (strongconnect adj v s))"
  "(\<forall>grey. visit_pre adj grey v ws s \<longrightarrow> visit_post adj grey v ws s (visit_all adj v ws s))"
proof (induction adj v s and adj v ws s rule: strongconnect_visit_all.induct)
  case (1 adj v s)
  show ?case
  proof (intro allI impI, elim conjE)
    fix grey assume pre: "tj_ok adj grey s" "v \<notin> tj_visited s" "\<forall>g \<in> grey. (g, v) \<in> (dep_rel adj)\<^sup>*"
    have "visit_pre adj (insert v grey) v (adj_of adj v) (tj_enter v s)"
      unfolding visit_pre_def using tj_enter_ok[OF pre] pre(3) by simp
    then have "visit_post adj (insert v grey) v (adj_of adj v) (tj_enter v s)
        (visit_all adj v (adj_of adj v) (tj_enter v s))" using 1 by blast
    moreover have "v \<in> tj_lows (visit_all adj v (adj_of adj v) (tj_enter v s))"
      using lowlinks_grow(2)[of "tj_enter v s" adj v] by auto
    ultimately show "connect_post adj grey v s (strongconnect adj v s)"
      unfolding strongconnect.simps by (rule connect_post_finish[OF pre])
  qed
next
  case (2 adj v s)
  then show ?case by (auto simp: visit_pre_def visit_post_def)
next
  case (3 adj v w ws s)
  show ?case
  proof (intro allI impI)
    fix grey assume pre: "visit_pre adj grey v (w # ws) s"
    note p = pre[unfolded visit_pre_def]
    have ok: "tj_ok adj grey s" and vg: "v \<in> grey" using p by simp_all
    have st: "set (tj_stack s) \<subseteq> tj_visited s" "grey \<subseteq> set (tj_stack s)" "set (tj_onStack s) = set (tj_stack s)"
      "\<forall>x \<in> tj_visited s. tj_idx s x < tj_index s"
      using ok by (simp_all add: tj_ok_def stack_ok_def grey_ok_def)
    have vs: "v \<in> tj_visited s" using vg st by blast
    have vw: "(v, w) \<in> (dep_rel adj)\<^sup>*" using p by (auto simp: dep_rel_def)
    consider (new) "w \<notin> tj_visited s" | (on) "w \<in> tj_visited s" "w \<in> set (tj_stack s)"
      | (closed) "w \<in> tj_visited s" "w \<notin> set (tj_stack s)" by blast
    then show "visit_post adj grey v (w # ws) s (visit_all adj v (w # ws) s)"
    proof cases
      case new
      let ?t = "strongconnect adj w s"
      let ?s1 = "tj_lower v (tj_lowlink ?t w) ?t"
      have "\<forall>g \<in> grey. (g, w) \<in> (dep_rel adj)\<^sup>*" using p vw by (meson rtrancl_trans)
      then have post: "connect_post adj grey w s ?t" using 3(1) new ok by simp
      note c = post[unfolded connect_post_def]
      have ext: "tj_ext s ?t" and okt: "tj_ok adj grey ?t" using c by simp_all
      have low: "tj_lowlink ?t v = tj_lowlink s v" using c vs by blast
      have n: "\<exists>x \<in> set (tj_stack ?t). tj_lowlink ?t w = tj_idx ?t x \<and> (v, x) \<in> (dep_rel adj)\<^sup>*"
        if "tj_lowlink ?t w < tj_lowlink s v"
      proof -
        have "tj_idx s v < tj_index s" using st(4) vs by blast
        then have "w \<in> set (tj_stack ?t)" using c that p by fastforce
        then obtain x where x: "x \<in> set (tj_stack s)" "tj_lowlink ?t w = tj_idx s x" "(w, x) \<in> (dep_rel adj)\<^sup>*"
          using c by blast
        then show ?thesis
          using tj_ext_old(2,3)[OF ext] st(1) rtrancl_trans[OF vw x(3)] by (intro bexI[of _ x]) auto
      qed
      have "visit_pre adj grey v ws ?s1"
        by (rule visit_pre_lower[OF pre ext okt low n])
      then have "visit_post adj grey v ws ?s1 (visit_all adj v ws ?s1)"
        using 3(2) new by simp
      moreover have "tj_lowlink ?s1 x = tj_lowlink s x" if "x \<in> tj_visited s - {v}" for x
        using c that by simp
      ultimately have "visit_post adj grey v (w # ws) s (visit_all adj v ws ?s1)"
        using c low new st(1) by (intro visit_post_step[of s ?s1]) (auto simp: min_le_iff_disj)
      then show ?thesis using new by (simp add: Let_def)
    next
      case on
      let ?s1 = "tj_lower v (tj_idx s w) s"
      have "visit_pre adj grey v ws ?s1"
        using on vw by (intro visit_pre_lower[OF pre _ ok]) auto
      then have "visit_post adj grey v ws ?s1 (visit_all adj v ws ?s1)"
        using 3(3) on st(3) by (simp add: tj_idx_def)
      then have "visit_post adj grey v (w # ws) s (visit_all adj v ws ?s1)"
        using on st(1) by (intro visit_post_step[of s ?s1]) auto
      then show ?thesis using on st(3) by (simp add: tj_idx_def)
    next
      case closed
      have "visit_pre adj grey v ws s" using p by (auto simp: visit_pre_def)
      then have "visit_post adj grey v ws s (visit_all adj v ws s)"
        using 3(4) closed st(3) by simp
      then have "visit_post adj grey v (w # ws) s (visit_all adj v ws s)"
        using closed st(1) by (intro visit_post_step[of s s]) auto
      then show ?thesis using closed st(3) by simp
    qed
  qed
qed

section \<open>Properties\<close>

lemma tj_start_ok: "tj_ok adj {} tj_start"
  by (simp add: tj_ok_def stack_ok_def grey_ok_def closed_ok_def tj_start_def tj_visited_def)

lemma connect_node_ok:
  assumes "tj_ok adj {} s"
  shows "tj_ok adj {} (connect_node adj v s)" and "insert v (tj_visited s) \<subseteq> tj_visited (connect_node adj v s)"
  using tarjan_correct(1)[of adj s v] assms
  by (auto simp: connect_node_def connect_post_def tj_ext_def)

lemma connect_nodes_ok:
  "tj_ok adj {} s \<Longrightarrow> tj_ok adj {} (fold (connect_node adj) nodes s)
     \<and> set nodes \<union> tj_visited s \<subseteq> tj_visited (fold (connect_node adj) nodes s)"
proof (induction nodes arbitrary: s)
  case (Cons v nodes)
  from Cons.IH[OF connect_node_ok(1)[OF Cons.prems, of v]] connect_node_ok(2)[OF Cons.prems, of v]
  show ?case by auto
qed simp

lemma grey_empty: "grey_ok adj {} s \<Longrightarrow> tj_stack s = []"
  unfolding grey_ok_def by (cases "tj_stack s") auto

text \<open>The edges between known nodes, as a relation.\<close>

definition known_edges :: "string list \<Rightarrow> dep_edge list \<Rightarrow> (string \<times> string) set" where
  "known_edges nodes edges =
     {(eg_from e, eg_to e) | e. e \<in> set edges \<and> eg_from e \<in> set nodes \<and> eg_to e \<in> set nodes}"

lemma build_adj_nodes:
  "jm_get (foldl (\<lambda>adj node. jm_set adj node []) m nodes) v = (if v \<in> set nodes then Some [] else jm_get m v)"
  by (induction nodes arbitrary: m) (auto simp: jsmap_simps)

lemma build_adj_edges:
  assumes "\<And>v. jm_has adj v \<longleftrightarrow> v \<in> set nodes"
  shows "dep_rel (foldl (\<lambda>adj e. if jm_has adj (eg_from e) \<and> jm_has adj (eg_to e)
      then jm_set adj (eg_from e) (the (jm_get adj (eg_from e)) @ [eg_to e]) else adj) adj edges)
    = dep_rel adj \<union> known_edges nodes edges"
  using assms
proof (induction edges arbitrary: adj)
  case Nil
  then show ?case by (simp add: known_edges_def)
next
  case (Cons e edges)
  have split: "known_edges nodes (e # edges) = known_edges nodes edges
      \<union> (if eg_from e \<in> set nodes \<and> eg_to e \<in> set nodes then {(eg_from e, eg_to e)} else {})"
    by (auto simp: known_edges_def)
  show ?case
  proof (cases "eg_from e \<in> set nodes \<and> eg_to e \<in> set nodes")
    case True
    let ?adj = "jm_set adj (eg_from e) (the (jm_get adj (eg_from e)) @ [eg_to e])"
    have "jm_has adj (eg_from e)" using Cons.prems True by blast
    then obtain ws where "jm_get adj (eg_from e) = Some ws" by blast
    then have "dep_rel ?adj = insert (eg_from e, eg_to e) (dep_rel adj)"
      by (auto simp: dep_rel_def adj_of_def jsmap_simps split: if_splits option.splits)
    moreover have "\<And>v. jm_has ?adj v \<longleftrightarrow> v \<in> set nodes"
      using Cons.prems True by (simp add: jsmap_simps)
    ultimately show ?thesis using Cons.IH[of ?adj] True Cons.prems split by simp
  next
    case False
    then show ?thesis using Cons.IH[OF Cons.prems] Cons.prems split by auto
  qed
qed

lemma dep_rel_build: "dep_rel (build_adj nodes edges) = known_edges nodes edges"
proof -
  let ?adj = "foldl (\<lambda>adj node. jm_set adj node []) [] nodes"
  have "dep_rel ?adj = {}" by (auto simp: dep_rel_def adj_of_def build_adj_nodes)
  moreover have "\<And>v. jm_has ?adj v \<longleftrightarrow> v \<in> set nodes" by (simp add: build_adj_nodes)
  note build_adj_edges[OF this, of edges]
  ultimately show ?thesis unfolding build_adj_def by (simp only: Un_empty_left)
qed

lemma detectCycles_final:
  "\<exists>s. detectCycles nodes edges = tj_sccs s \<and> closed_ok (build_adj nodes edges) s \<and> tj_stack s = []
     \<and> set nodes \<subseteq> tj_visited s"
  using connect_nodes_ok[OF tj_start_ok, of "build_adj nodes edges" nodes] grey_empty
  unfolding detectCycles_def tj_ok_def by blast

lemma component_member: "v \<in> component adj v"
  by (simp add: component_def)

lemma big_component_known:
  assumes "1 < card (component adj v)" and "dep_rel adj = known_edges nodes edges"
  shows "v \<in> set nodes"
proof -
  obtain w where "w \<in> component adj v" "w \<noteq> v"
    using assms(1) by (metis card.empty card_1_singleton_iff component_member empty_iff is_singletonI' is_singleton_altdef less_irrefl not_one_less_zero)
  then obtain u where "(v, u) \<in> dep_rel adj"
    unfolding component_def by (metis (mono_tags, lifting) converse_rtranclE mem_Collect_eq)
  then show ?thesis unfolding assms(2) known_edges_def by auto
qed

lemma acyclic_iff_small_components:
  assumes "finite (dep_rel adj)"
  shows "acyclic (dep_rel adj - Id) \<longleftrightarrow> (\<forall>v. \<not> 1 < card (component adj v))"
proof
  assume ac: "acyclic (dep_rel adj - Id)"
  show "\<forall>v. \<not> 1 < card (component adj v)"
  proof (intro allI notI)
    fix v assume "1 < card (component adj v)"
    then obtain w where w: "w \<in> component adj v" "w \<noteq> v"
      by (metis card_1_singleton_iff component_member empty_iff is_singletonI' is_singleton_altdef less_irrefl)
    then have "(v, w) \<in> (dep_rel adj - Id)\<^sup>*" "(w, v) \<in> (dep_rel adj - Id)\<^sup>*"
      by (simp_all add: component_def rtrancl_r_diff_Id)
    then have "(v, v) \<in> (dep_rel adj - Id)\<^sup>+"
      using w(2) by (metis rtranclD trancl_rtrancl_trancl)
    then show False using ac by (auto simp: acyclic_def)
  qed
next
  assume small: "\<forall>v. \<not> 1 < card (component adj v)"
  show "acyclic (dep_rel adj - Id)"
    unfolding acyclic_def
  proof (intro allI notI)
    fix v assume "(v, v) \<in> (dep_rel adj - Id)\<^sup>+"
    then obtain w where w: "(v, w) \<in> dep_rel adj - Id" "(w, v) \<in> (dep_rel adj - Id)\<^sup>*"
      by (meson tranclD)
    then have "{v, w} \<subseteq> component adj v"
      by (auto simp: component_def rtrancl_r_diff_Id)
    moreover have "component adj v \<subseteq> insert v (Range (dep_rel adj))"
      unfolding component_def by (auto elim: rtranclE)
    then have "finite (component adj v)" using assms finite_Range finite_subset by blast
    moreover have "card {v, w} = 2" using w(1) by auto
    ultimately have "2 \<le> card (component adj v)" using card_mono[of "component adj v" "{v, w}"] by simp
    then show False using spec[OF small, of v] by linarith
  qed
qed

lemma known_component:
  "1 < card (component (build_adj nodes edges) v) \<Longrightarrow> v \<in> set nodes"
  using big_component_known dep_rel_build by blast

lemma detected_sets:
  shows "set ` set (detectCycles nodes edges) =
      {C. \<exists>x \<in> set nodes. C = component (build_adj nodes edges) x \<and> 1 < card C}" (is ?sets)
    and "distinct (map set (detectCycles nodes edges))" and "list_all distinct (detectCycles nodes edges)"
proof -
  let ?adj = "build_adj nodes edges"
  obtain s where s: "detectCycles nodes edges = tj_sccs s" "closed_ok ?adj s" "tj_stack s = []"
    "set nodes \<subseteq> tj_visited s" using detectCycles_final by blast
  have sccs: "set ` set (tj_sccs s) = {C. \<exists>x \<in> tj_visited s. C = component ?adj x \<and> 1 < card C}"
    "distinct (map set (tj_sccs s))" "list_all distinct (tj_sccs s)"
    using s(2,3) by (simp_all add: closed_ok_def)
  have "(\<exists>x \<in> tj_visited s. C = component ?adj x \<and> 1 < card C) \<longleftrightarrow>
      (\<exists>x \<in> set nodes. C = component ?adj x \<and> 1 < card C)" for C
    using known_component s(4) by (metis subsetD)
  then show ?sets unfolding s(1) sccs(1) by simp
  show "distinct (map set (detectCycles nodes edges))" "list_all distinct (detectCycles nodes edges)"
    unfolding s(1) by (rule sccs)+
qed

lemma no_cycles_iff_acyclic: "detectCycles nodes edges = [] \<longleftrightarrow> acyclic (known_edges nodes edges - Id)"
proof -
  let ?adj = "build_adj nodes edges"
  have "finite (dep_rel ?adj)"
    unfolding dep_rel_build known_edges_def by (rule finite_subset[of _ "(\<lambda>e. (eg_from e, eg_to e)) ` set edges"]) auto
  then have "acyclic (known_edges nodes edges - Id) \<longleftrightarrow> (\<forall>v. \<not> 1 < card (component ?adj v))"
    unfolding dep_rel_build[symmetric] by (rule acyclic_iff_small_components)
  moreover have "detectCycles nodes edges = [] \<longleftrightarrow> set ` set (detectCycles nodes edges) = {}" by simp
  then have "detectCycles nodes edges = [] \<longleftrightarrow> (\<forall>v. \<not> 1 < card (component ?adj v))"
    unfolding detected_sets(1) using known_component by blast
  ultimately show ?thesis by blast
qed

text \<open>C24. The cycle detector reports the strongly connected components of the module graph that have two
  members or more, each once and without repetition, and nothing else; it reports none exactly when
  the graph without its self-loops is acyclic. A module that imports itself is not reported.\<close>

theorem detected_cycles_are_components:
  "set ` set (detectCycles nodes edges) =
     {C. \<exists>v \<in> set nodes. C = {w. (v, w) \<in> (known_edges nodes edges)\<^sup>* \<and> (w, v) \<in> (known_edges nodes edges)\<^sup>*}
                       \<and> 1 < card C}
   \<and> distinct (map set (detectCycles nodes edges)) \<and> list_all distinct (detectCycles nodes edges)
   \<and> (detectCycles nodes edges = [] \<longleftrightarrow> acyclic (known_edges nodes edges - Id))"
  using detected_sets[of nodes edges] no_cycles_iff_acyclic[of nodes edges]
  unfolding component_def dep_rel_build by blast

lemma self_import_not_reported: "detectCycles [''A''] [\<lparr>eg_from = ''A'', eg_to = ''A''\<rparr>] = []"
  by (simp add: detectCycles_def build_adj_def connect_node_def strongconnect.simps tj_start_def
      tj_enter_def adj_of_def tj_finish_def tj_lower_def tj_lowlink_def js_add_def)

end
