(* ===== verification/Graph_Modules.thy ===== *)
theory Graph_Modules
  imports Graph_Cycles "HOL-Library.List_Lexorder" "HOL-Library.Char_ord"
begin

text \<open>
  The module analyzer and its renderer, \<open>graph/module-analyzer.ts\<close> and
  \<open>graph/mermaid-renderer.ts\<close>, and the start-up scan for mutual imports of
  \<open>di/circular-dep-scanner.ts\<close>. A directory is a tree of names; reading a file and matching the
  decorator with regular expressions (\<open>parseModuleFile\<close>) is a parameter.
\<close>

section \<open>Finding the module files\<close>

datatype fs_entry = FsFile string | FsDir string "fs_entry list" | FsUnreadable string

fun fs_name :: "fs_entry \<Rightarrow> string" where
  "fs_name (FsFile n) = n" | "fs_name (FsDir n _) = n" | "fs_name (FsUnreadable n) = n"

text \<open>\<open>join(dir, entry)\<close> for an entry name.\<close>

definition path_join :: "string \<Rightarrow> string \<Rightarrow> string" where
  "path_join dir entry = dir @ ''/'' @ entry"

fun walkDir :: "string \<Rightarrow> string \<Rightarrow> fs_entry list \<Rightarrow> string list" where
  "walkDir dir ext [] = []"
| "walkDir dir ext (entry # entries) =
     (let full = path_join dir (fs_name entry) in
      if fs_name entry = ''node_modules'' \<or> fs_name entry = ''.git'' then walkDir dir ext entries
      else case entry of
          FsDir _ inner \<Rightarrow> walkDir full ext inner @ walkDir dir ext entries
        | FsFile name \<Rightarrow> (if ends_with name (''.module'' @ ext) then [full] else []) @ walkDir dir ext entries
        | FsUnreadable _ \<Rightarrow> walkDir dir ext entries)"

section \<open>The graph and its statistics\<close>

record module_node =
  md_name :: string
  md_filePath :: string
  md_imports :: "string list"
  md_exports :: "string list"
  md_providers :: "string list"

record fan =
  fn_module :: string
  fn_count :: nat

record graph_result =
  gr_modules :: "module_node list"
  gr_edges :: "dep_edge list"
  gr_cycles :: "string list list"
  gr_totalModules :: nat
  gr_totalEdges :: nat
  gr_maxFanOut :: fan
  gr_maxFanIn :: fan
  gr_cycleCount :: nat

definition module_edges :: "module_node list \<Rightarrow> dep_edge list" where
  "module_edges modules =
     concat (map (\<lambda>m. map (\<lambda>imp. \<lparr>eg_from = md_name m, eg_to = imp\<rparr>)
                      (filter (\<lambda>imp. imp \<in> md_name ` set modules) (md_imports m))) modules)"

definition fan_zero :: "module_node list \<Rightarrow> (string, nat) jsmap" where
  "fan_zero modules = foldl (\<lambda>m md. jm_set m (md_name md) 0) [] modules"

definition fan_add :: "string \<Rightarrow> (string, nat) jsmap \<Rightarrow> (string, nat) jsmap" where
  "fan_add k m = jm_set m k (or_else (jm_get m k) 0 + 1)"

definition max_fan :: "(string, nat) jsmap \<Rightarrow> fan" where
  "max_fan m = foldl (\<lambda>b (md, count). if fn_count b < count then \<lparr>fn_module = md, fn_count = count\<rparr> else b)
                 \<lparr>fn_module = [], fn_count = 0\<rparr> m"

definition build_result :: "module_node list \<Rightarrow> graph_result" where
  "build_result modules =
     (let edges = module_edges modules;
          cycles = detectCycles (map md_name modules) edges;
          fanOut = foldl (\<lambda>m e. fan_add (eg_from e) m) (fan_zero modules) edges;
          fanIn = foldl (\<lambda>m e. fan_add (eg_to e) m) (fan_zero modules) edges
      in \<lparr>gr_modules = modules, gr_edges = edges, gr_cycles = cycles,
           gr_totalModules = length modules, gr_totalEdges = length edges,
           gr_maxFanOut = max_fan fanOut, gr_maxFanIn = max_fan fanIn, gr_cycleCount = length cycles\<rparr>)"

text \<open>
  \<open>src\<close> and \<open>dist\<close> are what the two directories of the project hold, when they exist; \<open>parse\<close> reads
  and parses a file.
\<close>

definition analyzeModules ::
  "(string \<Rightarrow> module_node option) \<Rightarrow> string \<Rightarrow> fs_entry list option \<Rightarrow> fs_entry list option \<Rightarrow> graph_result" where
  "analyzeModules parse projectRoot src dist = (case (src, dist) of
     (Some es, _) \<Rightarrow> build_result (List.map_filter parse (walkDir (path_join projectRoot ''src'') ''.ts'' es))
   | (None, Some es) \<Rightarrow> build_result (List.map_filter parse (walkDir (path_join projectRoot ''dist'') ''.js'' es))
   | (None, None) \<Rightarrow> \<lparr>gr_modules = [], gr_edges = [], gr_cycles = [], gr_totalModules = 0, gr_totalEdges = 0,
        gr_maxFanOut = \<lparr>fn_module = [], fn_count = 0\<rparr>, gr_maxFanIn = \<lparr>fn_module = [], fn_count = 0\<rparr>,
        gr_cycleCount = 0\<rparr>)"

section \<open>Rendering\<close>

definition renderMermaid :: "graph_result \<Rightarrow> string" where
  "renderMermaid r =
     (let nodesWithEdges = foldl (\<lambda>s e. js_add (eg_to e) (js_add (eg_from e) s)) [] (gr_edges r);
          isolated = map (\<lambda>m. ''    '' @ md_name m @ ''['' @ md_name m @ '']'')
                       (filter (\<lambda>m. md_name m \<notin> set nodesWithEdges) (gr_modules r));
          arrows = map (\<lambda>e. ''    '' @ eg_from e @ '' --> '' @ eg_to e) (gr_edges r);
          styles = map (\<lambda>n. ''    style '' @ n @ '' fill:#ef4444,stroke:#dc2626,color:#fff'')
                     (js_set_of (concat (gr_cycles r)))
      in js_join ''\<newline>'' ([''graph TD''] @ isolated @ arrows @ styles))"

section \<open>The start-up scan\<close>

datatype di_warning = MutualImport string string | GodModule string nat

text \<open>
  A node is a module with the names of its imports (a \<open>Set\<close>); the map keeps the last node of a name.
  The key of a pair is its two names, sorted.
\<close>

type_synonym import_node = "string \<times> string list"

definition mutual_step ::
  "(string, string list) jsmap \<Rightarrow> string \<Rightarrow> string \<Rightarrow> string list list \<times> di_warning list
     \<Rightarrow> string list list \<times> di_warning list" where
  "mutual_step importEdges modA modB st = (case (st, jm_get importEdges modB) of
     ((reported, warnings), Some importsB) \<Rightarrow>
       if modA \<in> set importsB \<and> sort [modA, modB] \<notin> set reported
       then (reported @ [sort [modA, modB]], warnings @ [MutualImport modA modB]) else st
   | (_, None) \<Rightarrow> st)"

definition scan_mutual :: "(string, string list) jsmap \<Rightarrow> string list list \<times> di_warning list" where
  "scan_mutual importEdges =
     foldl (\<lambda>st (modA, importsA). foldl (\<lambda>st modB. mutual_step importEdges modA modB st) st importsA)
       ([], []) importEdges"

definition scanForCircularDepWarnings :: "import_node list \<Rightarrow> di_warning list" where
  "scanForCircularDepWarnings nodes =
     (let importEdges = foldl (\<lambda>m (name, imports). jm_set m name imports) [] nodes
      in snd (scan_mutual importEdges)
         @ map (\<lambda>(name, imports). GodModule name (length imports))
             (filter (\<lambda>(name, imports). 10 < length imports) nodes))"

section \<open>Properties\<close>

lemma fan_add_get: "jm_get (fan_add k m) j = (if j = k then Some (or_else (jm_get m k) 0 + 1) else jm_get m j)"
  by (simp add: fan_add_def jsmap_simps)

lemma fan_count_get:
  "jm_get (foldl (\<lambda>m e. fan_add (f e) m) m es) j =
     (if j \<in> f ` set es then Some (or_else (jm_get m j) 0 + length (filter (\<lambda>e. f e = j) es)) else jm_get m j)"
proof (induction es arbitrary: m)
  case (Cons e es)
  have "filter (\<lambda>e. f e = f e0) es = []" if "f e0 \<notin> f ` set es" for e0
    unfolding filter_empty_conv using that by (metis image_eqI)
  then show ?case using Cons by (auto simp: fan_add_get)
qed simp

lemma fan_zero_get: "jm_get (foldl (\<lambda>m md. jm_set m (md_name md) 0) m0 modules) j =
    (if j \<in> md_name ` set modules then Some 0 else jm_get m0 j)"
  by (induction modules arbitrary: m0) (auto simp: jsmap_simps)

lemma fan_of_modules:
  assumes "f ` set es \<subseteq> md_name ` set modules"
  shows "jm_get (foldl (\<lambda>m e. fan_add (f e) m) (fan_zero modules) es) j =
    (if j \<in> md_name ` set modules then Some (length (filter (\<lambda>e. f e = j) es)) else None)"
proof -
  have "filter (\<lambda>e. f e = j) es = []" if "j \<notin> f ` set es" using that by (auto simp: filter_empty_conv)
  then show ?thesis using assms unfolding fan_count_get fan_zero_def fan_zero_get by auto
qed

lemma fan_wf: "jm_wf m \<Longrightarrow> jm_wf (foldl (\<lambda>m e. fan_add (f e) m) m es)"
  by (induction es arbitrary: m) (simp_all add: fan_add_def)

lemma fan_zero_wf: "jm_wf m \<Longrightarrow> jm_wf (foldl (\<lambda>m md. jm_set m (md_name md) 0) m modules)"
  by (induction modules arbitrary: m) simp_all

lemma max_fan_fold:
  "let r = foldl (\<lambda>b (md, count). if fn_count b < count then \<lparr>fn_module = md, fn_count = count\<rparr> else b) b m
   in fn_count b \<le> fn_count r \<and> (\<forall>(k, n) \<in> set m. n \<le> fn_count r)
      \<and> (r = b \<or> (fn_module r, fn_count r) \<in> set m)"
proof (induction m arbitrary: b)
  case (Cons kn m)
  obtain k n where kn: "kn = (k, n)" by (cases kn)
  show ?case
    using Cons.IH[of "if fn_count b < n then \<lparr>fn_module = k, fn_count = n\<rparr> else b"]
    unfolding kn Let_def by (cases "fn_count b < n") auto
qed simp

definition degree :: "(dep_edge \<Rightarrow> string) \<Rightarrow> dep_edge list \<Rightarrow> string \<Rightarrow> nat" where
  "degree f es name = length (filter (\<lambda>e. f e = name) es)"

lemma max_fan_degree:
  assumes "f ` set es \<subseteq> md_name ` set modules"
    and r: "r = max_fan (foldl (\<lambda>m e. fan_add (f e) m) (fan_zero modules) es)"
  shows "list_all (\<lambda>m. degree f es (md_name m) \<le> fn_count r) modules \<and>
     (fn_count r = 0 \<and> fn_module r = [] \<or>
      fn_module r \<in> md_name ` set modules \<and> degree f es (fn_module r) = fn_count r)"
proof -
  let ?m = "foldl (\<lambda>m e. fan_add (f e) m) (fan_zero modules) es"
  have wf: "jm_wf ?m" using fan_wf fan_zero_wf[of "[]"] unfolding fan_zero_def by blast
  have in_m: "(k, n) \<in> set ?m \<longleftrightarrow> k \<in> md_name ` set modules \<and> n = degree f es k" for k n
    using jm_wf_get_iff[OF wf, of k n] fan_of_modules[OF assms(1), of k] by (auto simp: degree_def split: if_splits)
  have fold: "(\<forall>(k, n) \<in> set ?m. n \<le> fn_count r)"
    "r = \<lparr>fn_module = [], fn_count = 0\<rparr> \<or> (fn_module r, fn_count r) \<in> set ?m"
    using max_fan_fold[where b = "\<lparr>fn_module = [], fn_count = 0\<rparr>" and m = ?m]
    unfolding r max_fan_def Let_def by blast+
  have "degree f es (md_name m) \<le> fn_count r" if "m \<in> set modules" for m
    using bspec[OF fold(1), of "(md_name m, degree f es (md_name m))"] in_m that by simp
  then show ?thesis using fold(2) in_m by (auto simp: list_all_iff)
qed

lemma module_edges_known:
  "eg_from ` set (module_edges modules) \<subseteq> md_name ` set modules"
  "eg_to ` set (module_edges modules) \<subseteq> md_name ` set modules"
  by (auto simp: module_edges_def)

text \<open>The statistics of the graph: the largest fan-out and fan-in are those of a module and bound
  those of every module.\<close>

theorem graph_statistics_are_maximal:
  assumes "r = build_result modules"
  shows "list_all (\<lambda>m. degree eg_from (gr_edges r) (md_name m) \<le> fn_count (gr_maxFanOut r)
           \<and> degree eg_to (gr_edges r) (md_name m) \<le> fn_count (gr_maxFanIn r)) modules"
    and "0 < fn_count (gr_maxFanOut r) \<Longrightarrow> fn_module (gr_maxFanOut r) \<in> md_name ` set modules
      \<and> degree eg_from (gr_edges r) (fn_module (gr_maxFanOut r)) = fn_count (gr_maxFanOut r)"
    and "0 < fn_count (gr_maxFanIn r) \<Longrightarrow> fn_module (gr_maxFanIn r) \<in> md_name ` set modules
      \<and> degree eg_to (gr_edges r) (fn_module (gr_maxFanIn r)) = fn_count (gr_maxFanIn r)"
  using max_fan_degree[OF module_edges_known(1), of "gr_maxFanOut r" modules]
    max_fan_degree[OF module_edges_known(2), of "gr_maxFanIn r" modules] assms
  by (auto simp: build_result_def Let_def list_all_iff)

subsection \<open>Mutual imports\<close>

definition imports_of :: "(string, string list) jsmap \<Rightarrow> (string \<times> string) set" where
  "imports_of m = {(a, b). \<exists>is. jm_get m a = Some is \<and> b \<in> set is}"

fun warned_pair :: "di_warning \<Rightarrow> string set" where
  "warned_pair (MutualImport a b) = {a, b}" | "warned_pair (GodModule a n) = {}"

definition scan_inv :: "(string \<times> string) set \<Rightarrow> string list list \<times> di_warning list \<Rightarrow> bool" where
  "scan_inv done st \<longleftrightarrow> set ` set (fst st) = set (map warned_pair (snd st))
     \<and> (\<forall>l \<in> set (fst st). \<exists>a b. l = sort [a, b])
     \<and> distinct (map warned_pair (snd st)) \<and> (\<forall>w \<in> set (snd st). \<exists>a b. w = MutualImport a b)
     \<and> set (map warned_pair (snd st)) = {{a, b} | a b. (a, b) \<in> done}"

lemma sort_pair_eq: "sort [a, b] = sort [c, d] \<longleftrightarrow> {a, b} = {c, d}" for a b c d :: "'a::linorder"
  by (auto simp: doubleton_eq_iff)

lemma mutual_step_inv:
  assumes "scan_inv E st" and "b \<in> set is" and "jm_get m a = Some is"
  shows "scan_inv (E \<union> ({(a, b)} \<inter> (imports_of m)\<inverse>)) (mutual_step m a b st)"
proof -
  obtain rep ws where st: "st = (rep, ws)" by (cases st)
  note inv = assms(1)[unfolded scan_inv_def st fst_conv snd_conv]
  have shape: "\<forall>l \<in> set rep. \<exists>a b. l = sort [a, b]" by (rule conjunct1[OF conjunct2[OF inv]])
  have mem: "sort [a, b] \<in> set rep \<longleftrightarrow> {a, b} \<in> set ` set rep"
  proof
    assume "{a, b} \<in> set ` set rep"
    then obtain l where l: "l \<in> set rep" "{a, b} = set l" by blast
    obtain c d where "l = sort [c, d]" using bspec[OF shape l(1)] by blast
    then show "sort [a, b] \<in> set rep" using l by (metis list.simps(15) set_empty sort_pair_eq set_sort empty_set)
  next
    assume "sort [a, b] \<in> set rep"
    moreover have "set (sort [a, b]) = {a, b}" by auto
    ultimately show "{a, b} \<in> set ` set rep" by (metis imageI)
  qed
  show ?thesis
  proof (cases "(b, a) \<in> imports_of m")
    case False
    then have "mutual_step m a b st = st"
      by (auto simp: mutual_step_def imports_of_def st split: option.splits)
    then show ?thesis using assms(1) False by simp
  next
    case True
    then obtain bs where bs: "jm_get m b = Some bs" "a \<in> set bs" by (auto simp: imports_of_def)
    have E: "{{c, d} | c d. (c, d) \<in> E \<union> ({(a, b)} \<inter> (imports_of m)\<inverse>)} = insert {a, b} {{c, d} | c d. (c, d) \<in> E}"
      using True by auto
    show ?thesis
    proof (cases "sort [a, b] \<in> set rep")
      case seen: True
      then have "mutual_step m a b st = st" using bs by (simp add: mutual_step_def st)
      moreover have "{a, b} \<in> {{c, d} | c d. (c, d) \<in> E}" using seen mem inv by metis
      ultimately show ?thesis using assms(1) unfolding scan_inv_def E by (simp add: insert_absorb)
    next
      case new: False
      then have step: "mutual_step m a b st = (rep @ [sort [a, b]], ws @ [MutualImport a b])"
        using bs by (simp add: mutual_step_def st)
      have "set (sort [a, b]) = {a, b}" by auto
      then show ?thesis
        unfolding scan_inv_def E step fst_conv snd_conv using inv new mem by auto
    qed
  qed
qed

lemma mutual_steps_inv:
  assumes "scan_inv E st" and "jm_get m a = Some is" and "set bs \<subseteq> set is"
  shows "scan_inv (E \<union> ({a} \<times> set bs \<inter> (imports_of m)\<inverse>)) (foldl (\<lambda>st b. mutual_step m a b st) st bs)"
  using assms(1,3)
proof (induction bs arbitrary: E st)
  case (Cons b bs)
  have "scan_inv (E \<union> ({(a, b)} \<inter> (imports_of m)\<inverse>)) (mutual_step m a b st)"
    using mutual_step_inv[OF Cons.prems(1) _ assms(2)] Cons.prems(2) by simp
  from Cons.IH[OF this] Cons.prems(2)
  have "scan_inv (E \<union> ({(a, b)} \<inter> (imports_of m)\<inverse>) \<union> ({a} \<times> set bs \<inter> (imports_of m)\<inverse>))
      (foldl (\<lambda>st b. mutual_step m a b st) (mutual_step m a b st) bs)" by simp
  moreover have "E \<union> ({(a, b)} \<inter> (imports_of m)\<inverse>) \<union> ({a} \<times> set bs \<inter> (imports_of m)\<inverse>)
      = E \<union> ({a} \<times> set (b # bs) \<inter> (imports_of m)\<inverse>)" by auto
  ultimately show ?case by (simp only: foldl_Cons)
qed simp

lemma scan_mutual_inv:
  assumes "jm_wf m" and "set ms \<subseteq> set m" and "scan_inv E st"
  shows "scan_inv (E \<union> ((\<Union>(a, is) \<in> set ms. {a} \<times> set is) \<inter> (imports_of m)\<inverse>))
    (foldl (\<lambda>st (a, is). foldl (\<lambda>st b. mutual_step m a b st) st is) st ms)"
  using assms(2,3)
proof (induction ms arbitrary: E st)
  case (Cons x ms)
  obtain a "is" where x: "x = (a, is)" by (cases x)
  have "jm_get m a = Some is" using Cons.prems(1) x jm_wf_get_iff[OF assms(1)] by simp
  from Cons.IH[OF _ mutual_steps_inv[OF Cons.prems(2) this subset_refl]] Cons.prems(1)
  have "scan_inv (E \<union> ({a} \<times> set is \<inter> (imports_of m)\<inverse>) \<union> ((\<Union>(a, is) \<in> set ms. {a} \<times> set is) \<inter> (imports_of m)\<inverse>))
      (foldl (\<lambda>st (a, is). foldl (\<lambda>st b. mutual_step m a b st) st is) st (x # ms))"
    unfolding x by simp
  moreover have "E \<union> ({a} \<times> set is \<inter> (imports_of m)\<inverse>) \<union> ((\<Union>(a, is) \<in> set ms. {a} \<times> set is) \<inter> (imports_of m)\<inverse>)
      = E \<union> ((\<Union>(a, is) \<in> set (x # ms). {a} \<times> set is) \<inter> (imports_of m)\<inverse>)" unfolding x by auto
  ultimately show ?case by simp
qed simp

lemma import_edges_wf:
  "jm_wf m \<Longrightarrow> jm_wf (foldl (\<lambda>m (name, imports). jm_set m name imports) m nodes)"
  by (induction nodes arbitrary: m) auto

text \<open>The start-up scan warns about a pair of modules exactly when each imports the other, and once per
  pair whatever the order in which it meets them; the other warnings are the modules with more than
  ten imports.\<close>

theorem mutual_imports_warned_once:
  assumes "m = foldl (\<lambda>m (name, imports). jm_set m name imports) [] nodes"
  shows "\<exists>ws. scanForCircularDepWarnings nodes =
      ws @ map (\<lambda>(name, imports). GodModule name (length imports)) (filter (\<lambda>(name, imports). 10 < length imports) nodes)
    \<and> set (map warned_pair ws) = {{a, b} | a b. (a, b) \<in> imports_of m \<and> (b, a) \<in> imports_of m}
    \<and> distinct (map warned_pair ws)"
proof (intro exI conjI)
  have wf: "jm_wf m" unfolding assms by (rule import_edges_wf) simp
  have "scan_inv {} ([], [])" by (simp add: scan_inv_def)
  from scan_mutual_inv[OF wf subset_refl this]
  have inv: "scan_inv ((\<Union>(a, is) \<in> set m. {a} \<times> set is) \<inter> (imports_of m)\<inverse>) (scan_mutual m)"
    by (simp add: scan_mutual_def)
  have "(\<Union>(a, is) \<in> set m. {a} \<times> set is) = imports_of m"
    using jm_wf_get_iff[OF wf] by (fastforce simp: imports_of_def)
  then have pairs: "{{a, b} | a b. (a, b) \<in> (\<Union>(a, is) \<in> set m. {a} \<times> set is) \<inter> (imports_of m)\<inverse>}
      = {{a, b} | a b. (a, b) \<in> imports_of m \<and> (b, a) \<in> imports_of m}" by simp
  show "scanForCircularDepWarnings nodes = snd (scan_mutual m)
      @ map (\<lambda>(name, imports). GodModule name (length imports)) (filter (\<lambda>(name, imports). 10 < length imports) nodes)"
    by (simp add: scanForCircularDepWarnings_def assms)
  show "set (map warned_pair (snd (scan_mutual m))) = {{a, b} | a b. (a, b) \<in> imports_of m \<and> (b, a) \<in> imports_of m}"
    using inv unfolding scan_inv_def pairs by (elim conjE)
  show "distinct (map warned_pair (snd (scan_mutual m)))"
    using inv unfolding scan_inv_def by (elim conjE)
qed

text \<open>A pair that is warned about lies in one component, which the cycle detector reports.\<close>

lemma mutual_import_in_component:
  assumes "(a, b) \<in> known_edges ns es" and "(b, a) \<in> known_edges ns es" and "a \<noteq> b"
  shows "\<exists>c \<in> set (detectCycles ns es). {a, b} \<subseteq> set c"
proof -
  let ?adj = "build_adj ns es"
  have fin: "finite (component ?adj a)"
  proof -
    have "finite (known_edges ns es)"
      unfolding known_edges_def by (rule finite_subset[of _ "(\<lambda>e. (eg_from e, eg_to e)) ` set es"]) auto
    moreover have "component ?adj a \<subseteq> insert a (Range (known_edges ns es))"
      unfolding component_def dep_rel_build by (auto elim: rtranclE)
    ultimately show ?thesis using finite_Range finite_subset by blast
  qed
  have sub: "{a, b} \<subseteq> component ?adj a"
    using assms(1,2) by (auto simp: component_def dep_rel_build)
  then have "1 < card (component ?adj a)" using card_mono[OF fin sub] assms(3) by simp
  moreover have "a \<in> set ns" using assms(1) by (auto simp: known_edges_def)
  ultimately have "component ?adj a \<in> set ` set (detectCycles ns es)"
    using conjunct1[OF detected_cycles_are_components, of ns es]
    unfolding component_def dep_rel_build by blast
  then show ?thesis using sub by blast
qed

end
