(* ===== verification/Payments.thy ===== *)
theory Payments
  imports Boot_Prelude
begin

text \<open>
  \<open>src/src/payments/\<close>: the webhook controller (\<open>webhook.controller.ts\<close>) with its deduplication of events,
  the Stripe signature check (\<open>webhook.providers.ts\<close>) and the idempotency guard (\<open>idempotency.guard.ts\<close>).
  HMAC, JSON parsing and the provider and handler the application supplies are parameters; a handler runs
  on a world \<open>'w\<close>. The handler is awaited, so a dispatch is split into what happens before and after it.
\<close>

section \<open>Bounded maps of recent things\<close>

text \<open>The eviction both components use: drop the expired entries, then the oldest beyond the limit.\<close>

definition evict_map :: "('v \<Rightarrow> bool) \<Rightarrow> nat \<Rightarrow> (string, 'v) jsmap \<Rightarrow> (string, 'v) jsmap" where
  "evict_map expired limit m =
     (let m = filter (\<lambda>(k, v). \<not> expired v) m; excess = length m - limit in drop excess m)"

lemma evict_map_wf: "jm_wf m \<Longrightarrow> jm_wf (evict_map expired limit m)"
proof -
  assume "jm_wf m"
  then have "jm_wf (filter (\<lambda>(k, v). \<not> expired v) m)" by (rule jm_wf_filter)
  then show ?thesis by (simp add: evict_map_def Let_def jm_wf_def drop_map[symmetric])
qed

lemma evict_map_length: "length (evict_map expired limit m) \<le> limit"
  by (simp add: evict_map_def Let_def)

lemma evict_map_get:
  assumes "jm_wf m" and "jm_get m k = Some v" and "\<not> expired v" and "length m \<le> limit"
  shows "jm_get (evict_map expired limit m) k = Some v"
proof -
  have "length (filter (\<lambda>(k, v). \<not> expired v) m) \<le> limit"
    using assms(4) length_filter_le[of "\<lambda>(k, v). \<not> expired v" m] by linarith
  then have "evict_map expired limit m = filter (\<lambda>(k, v). \<not> expired v) m"
    by (simp add: evict_map_def Let_def)
  then show ?thesis using assms(1-3) by (simp add: jm_get_filter)
qed

section \<open>Webhooks\<close>

record 'd webhook_event =
  we_provider :: string
  we_type :: string
  we_id :: string
  we_data :: 'd
  we_timestamp :: int

record ('j, 'd) webhook_provider =
  wp_name :: string
  wp_verifySignature :: "string \<Rightarrow> string \<Rightarrow> string \<Rightarrow> bool"
  wp_normalizeEvent :: "'j \<Rightarrow> 'd webhook_event"

subsection \<open>The Stripe signature\<close>

text \<open>\<open>Object.fromEntries\<close> of the comma-separated \<open>key=value\<close> parts, later ones overwriting earlier ones.\<close>

definition stripe_parts :: "string \<Rightarrow> (string, string) jsmap" where
  "stripe_parts signature = foldl (\<lambda>m part. case js_split CHR ''='' part of
     [] \<Rightarrow> m | key # rest \<Rightarrow> jm_set m key (js_join ''='' rest)) [] (js_split CHR '','' signature)"

definition hex_digit :: "char \<Rightarrow> nat option" where
  "hex_digit c = (let n = of_char c :: nat in
     if 48 \<le> n \<and> n \<le> 57 then Some (n - 48)
     else if 97 \<le> n \<and> n \<le> 102 then Some (n - 87)
     else if 65 \<le> n \<and> n \<le> 70 then Some (n - 55) else None)"

text \<open>\<open>Buffer.from(s, 'hex')\<close> stops at the first pair that is not hexadecimal.\<close>

fun hex_decode :: "string \<Rightarrow> nat list" where
  "hex_decode (a # b # s) = (case (hex_digit a, hex_digit b) of
     (Some x, Some y) \<Rightarrow> (16 * x + y) # hex_decode s | _ \<Rightarrow> [])"
| "hex_decode _ = []"

text \<open>\<open>timingSafeEqual\<close> throws on buffers of different lengths, which the \<open>catch\<close> turns into false.\<close>

definition stripe_verifySignature :: "(string \<Rightarrow> string \<Rightarrow> string) \<Rightarrow> string \<Rightarrow> string \<Rightarrow> string \<Rightarrow> bool" where
  "stripe_verifySignature hmacHex payload signature secret =
     (let parts = stripe_parts signature in
      case (jm_get parts ''t'', jm_get parts ''v1'') of
        (Some timestamp, Some v1) \<Rightarrow>
          if timestamp = [] \<or> v1 = [] then False
          else let signedPayload = timestamp @ ''.'' @ payload; expected = hmacHex secret signedPayload
               in hex_decode v1 = hex_decode expected
      | _ \<Rightarrow> False)"

subsection \<open>WebhookController\<close>

definition MAX_STORE_SIZE :: nat where "MAX_STORE_SIZE = 10000"

definition STORE_TTL_MS :: int where "STORE_TTL_MS = 300000"

type_synonym ('j, 'd) provider_map = "(string, ('j, 'd) webhook_provider \<times> string) jsmap"

record ('j, 'd) webhook_options =
  wo_stripe :: "(('j, 'd) webhook_provider \<times> string) option"
  wo_paypal :: "(('j, 'd) webhook_provider \<times> string) option"
  wo_customProviders :: "('j, 'd) webhook_provider list"
  wo_providerSecrets :: "(string, string) jsmap"

definition webhook_providerMap :: "('j, 'd) webhook_options \<Rightarrow> ('j, 'd) provider_map" where
  "webhook_providerMap options =
     (let m0 = (case wo_stripe options of None \<Rightarrow> [] | Some p \<Rightarrow> jm_set [] ''stripe'' p);
          m1 = (case wo_paypal options of None \<Rightarrow> m0 | Some p \<Rightarrow> jm_set m0 ''paypal'' p)
      in foldl (\<lambda>m customProvider. case jm_get (wo_providerSecrets options) (wp_name customProvider) of
             None \<Rightarrow> m
           | Some secret \<Rightarrow> jm_set m (wp_name customProvider) (customProvider, secret)) m1
           (wo_customProviders options))"

type_synonym dedup_store = "(string, int) jsmap"

definition evictStore :: "int \<Rightarrow> dedup_store \<Rightarrow> dedup_store" where
  "evictStore now store = evict_map (\<lambda>v. now - v > STORE_TTL_MS) MAX_STORE_SIZE store"

text \<open>\<open>dispatchIfNew\<close> up to the call of the handler: whether the handler runs, and the store.\<close>

definition dispatch_begin :: "int \<Rightarrow> string \<Rightarrow> dedup_store \<Rightarrow> bool \<times> dedup_store" where
  "dispatch_begin now eventId store =
     (case jm_get store eventId of
        Some cachedAt \<Rightarrow>
          if now - cachedAt > STORE_TTL_MS
          then (True, jm_set (evictStore now (jm_del store eventId)) eventId now)
          else (False, store)
      | None \<Rightarrow> (True, jm_set (evictStore now store) eventId now))"

text \<open>The \<open>catch\<close> of a failed handler.\<close>

definition dispatch_failed :: "string \<Rightarrow> dedup_store \<Rightarrow> dedup_store" where
  "dispatch_failed eventId store = jm_del store eventId"

definition dispatchIfNew :: "('d webhook_event \<Rightarrow> 'w \<Rightarrow> ('e + unit) \<times> 'w) \<Rightarrow> int \<Rightarrow> 'd webhook_event
    \<Rightarrow> dedup_store \<Rightarrow> 'w \<Rightarrow> ('e + unit) \<times> dedup_store \<times> 'w" where
  "dispatchIfNew handler now event store w = (case dispatch_begin now (we_id event) store of
     (False, store) \<Rightarrow> (Inr (), store, w)
   | (True, store) \<Rightarrow> (case handler event w of
       (Inr _, w) \<Rightarrow> (Inr (), store, w)
     | (Inl err, w) \<Rightarrow> (Inl err, dispatch_failed (we_id event) store, w)))"

datatype 'e webhook_error = UnknownProvider string | NoRawBody | MissingSignature string
  | InvalidSignature string | InvalidJson | HandlerFailed 'e

definition extractSignature :: "string \<Rightarrow> (string, string) jsmap \<Rightarrow> string option" where
  "extractSignature providerName headers =
     (let headerName = or_else (jm_get [(''stripe'', ''stripe-signature''), (''paypal'', ''paypal-transmission-sig'')] providerName)
        ''x-webhook-signature''
      in jm_get headers headerName)"

definition handleWebhook :: "('j, 'd) provider_map \<Rightarrow> (string \<Rightarrow> 'j option) \<Rightarrow> ('d webhook_event \<Rightarrow> 'w \<Rightarrow> ('e + unit) \<times> 'w)
    \<Rightarrow> int \<Rightarrow> string \<Rightarrow> string option \<Rightarrow> (string, string) jsmap \<Rightarrow> dedup_store \<Rightarrow> 'w
    \<Rightarrow> ('e webhook_error + bool) \<times> dedup_store \<times> 'w" where
  "handleWebhook providers jsonParse handler now providerName rawBody headers store w =
     (case jm_get providers providerName of
        None \<Rightarrow> (Inl (UnknownProvider providerName), store, w)
      | Some (provider, secret) \<Rightarrow> (case rawBody of
          None \<Rightarrow> (Inl NoRawBody, store, w)
        | Some body \<Rightarrow> (case extractSignature providerName headers of
            None \<Rightarrow> (Inl (MissingSignature providerName), store, w)
          | Some signature \<Rightarrow>
              if signature = [] then (Inl (MissingSignature providerName), store, w)
              else if \<not> wp_verifySignature provider body signature secret
              then (Inl (InvalidSignature providerName), store, w)
              else (case jsonParse body of
                None \<Rightarrow> (Inl InvalidJson, store, w)
              | Some parsed \<Rightarrow> (case dispatchIfNew handler now (wp_normalizeEvent provider parsed) store w of
                  (Inl err, store, w) \<Rightarrow> (Inl (HandlerFailed err), store, w)
                | (Inr _, store, w) \<Rightarrow> (Inr True, store, w))))))"

subsection \<open>Deduplication under interleaving\<close>

text \<open>What happens between \<open>t0\<close> and \<open>h\<close> while one event has been dispatched and not failed: other events
  begin, end and fail in any order, and the same event arrives again, with the store within its limit.\<close>

inductive wh_step :: "string \<Rightarrow> int \<Rightarrow> int \<Rightarrow> dedup_store \<Rightarrow> dedup_store \<Rightarrow> bool" for i t0 h where
  wh_begin: "t0 \<le> t \<Longrightarrow> t \<le> h \<Longrightarrow> length s \<le> MAX_STORE_SIZE \<Longrightarrow> wh_step i t0 h s (snd (dispatch_begin t j s))"
| wh_fail: "j \<noteq> i \<Longrightarrow> wh_step i t0 h s (dispatch_failed j s)"

definition wh_seen :: "string \<Rightarrow> int \<Rightarrow> dedup_store \<Rightarrow> bool" where
  "wh_seen i t0 s \<longleftrightarrow> jm_wf s \<and> jm_get s i = Some t0"

lemma wh_seen_begin:
  assumes "wh_seen i t0 s" and "t0 \<le> t" and "t \<le> t0 + STORE_TTL_MS" and "length s \<le> MAX_STORE_SIZE"
  shows "wh_seen i t0 (snd (dispatch_begin t j s))"
proof -
  have wf: "jm_wf s" and g: "jm_get s i = Some t0" using assms(1) by (simp_all add: wh_seen_def)
  have keep: "wh_seen i t0 (jm_set (evictStore t m) j t)"
    if "jm_wf m" "jm_get m i = Some t0" "length m \<le> MAX_STORE_SIZE" "j \<noteq> i" for m
    using that assms(3) evict_map_get[of m i t0 "\<lambda>v. t - v > STORE_TTL_MS" MAX_STORE_SIZE]
    by (simp add: wh_seen_def evictStore_def jm_get_set evict_map_wf)
  show ?thesis
  proof (cases "jm_get s j")
    case None
    then have "j \<noteq> i" using g by auto
    then show ?thesis using keep[OF wf g assms(4)] None by (simp add: dispatch_begin_def)
  next
    case (Some c)
    show ?thesis
    proof (cases "t - c > STORE_TTL_MS")
      case True
      then have "j \<noteq> i" using g Some assms(3) by auto
      moreover have "length (jm_del s j) \<le> MAX_STORE_SIZE"
        using jm_length_del[of j s] assms(4) by linarith
      moreover have "jm_get (jm_del s j) i = Some t0" using g \<open>j \<noteq> i\<close> by (simp add: jm_get_del)
      ultimately show ?thesis
        using keep[of "jm_del s j"] wf Some True by (simp add: dispatch_begin_def)
    qed (use assms(1) Some in \<open>simp add: dispatch_begin_def\<close>)
  qed
qed

lemma wh_seen_step:
  assumes "wh_step i t0 h s s'" and "h \<le> t0 + STORE_TTL_MS" and "wh_seen i t0 s"
  shows "wh_seen i t0 s'"
  using assms(1)
proof cases
  case (wh_begin t j)
  then show ?thesis using wh_seen_begin[OF assms(3), of t j] assms(2) by simp
next
  case (wh_fail j)
  then show ?thesis using assms(3) by (simp add: wh_seen_def dispatch_failed_def jm_get_del)
qed

section \<open>The idempotency guard\<close>

record 'b cached_response =
  cr_statusCode :: int
  cr_body :: 'b
  cr_expiresAt :: int

type_synonym 'b idem_cache = "(string, 'b cached_response) jsmap"

definition MAX_SIZE :: nat where "MAX_SIZE = 10000"

definition idem_evict :: "int \<Rightarrow> 'b idem_cache \<Rightarrow> 'b idem_cache" where
  "idem_evict now cache = evict_map (\<lambda>v. now \<ge> cr_expiresAt v) MAX_SIZE cache"

text \<open>The guard's answer: let the handler run, let it run and cache its response under a key, or halt with
  the cached status and body.\<close>

datatype 'b idem_verdict = Proceed | ProceedCaching string int | Halt int 'b

definition idem_canActivate :: "bool \<Rightarrow> int option \<Rightarrow> string \<Rightarrow> string option \<Rightarrow> int \<Rightarrow> 'b idem_cache
    \<Rightarrow> 'b idem_verdict \<times> 'b idem_cache" where
  "idem_canActivate isIdempotent ttlMeta reqMethod idempotencyKey now cache =
     (if \<not> isIdempotent then (Proceed, cache)
      else let ttl = or_else ttlMeta 86400 in
        if reqMethod \<notin> {''POST'', ''PUT'', ''PATCH''} then (Proceed, cache)
        else case idempotencyKey of
          None \<Rightarrow> (Proceed, cache)
        | Some key \<Rightarrow>
            if key = [] then (Proceed, cache)
            else case jm_get cache key of
              Some cached \<Rightarrow>
                if now < cr_expiresAt cached then (Halt (cr_statusCode cached) (cr_body cached), cache)
                else (ProceedCaching key ttl, jm_del cache key)
            | None \<Rightarrow> (ProceedCaching key ttl, cache))"

text \<open>The wrapped \<open>res.json\<close> of a request that was let through with caching.\<close>

definition idem_respond :: "string \<Rightarrow> int \<Rightarrow> int \<Rightarrow> int \<Rightarrow> 'b \<Rightarrow> 'b idem_cache \<Rightarrow> 'b idem_cache" where
  "idem_respond key ttl now statusCode body cache = jm_set (idem_evict now cache) key
     \<lparr>cr_statusCode = statusCode, cr_body = body, cr_expiresAt = now + ttl * 1000\<rparr>"

section \<open>Properties\<close>



text \<open>Idempotency after the first response: once a response has been cached under a key, every
  idempotent POST, PUT or PATCH with that key before the expiry gets exactly that status and body and its
  handler is halted. Before the first response is sent nothing is held under the key, so a second request
  with it is let through as well and both handlers run.\<close>

theorem idempotent_replays_first_response:
  assumes "reqMethod \<in> {''POST'', ''PUT'', ''PATCH''}" and "key \<noteq> []" and "now' < now + ttl * 1000"
  shows "idem_canActivate True ttlMeta reqMethod (Some key) now' (idem_respond key ttl now statusCode body cache) =
      (Halt statusCode body, idem_respond key ttl now statusCode body cache) \<and>
    (jm_get cache key = None \<longrightarrow>
      idem_canActivate True ttlMeta reqMethod (Some key) now' (snd (idem_canActivate True ttlMeta reqMethod (Some key) now cache)) =
        idem_canActivate True ttlMeta reqMethod (Some key) now cache)"
  using assms by (auto simp: idem_canActivate_def idem_respond_def jm_get_set Let_def)

theorem idempotent_replays_first_response_witness:
  "fst (idem_canActivate True None ''POST'' (Some ''k'') 5 (idem_respond ''k'' 60 0 201 ''ok'' [])) = Halt 201 ''ok''"
  using idempotent_replays_first_response[of "''POST''" "''k''" 5 0 60 None 201 "''ok''" "[]"] by simp

end
