(* ===== verification/Event_Bus.thy ===== *)
theory Event_Bus
  imports Boot_Prelude
begin

text \<open>
  \<open>src/src/events/event-bus.service.ts\<close>: the in-process event bus, with its optional Redis channel, and its
  query handlers. A handler runs on a world \<open>'w\<close> and either finishes, throws, or gives a promise that is
  fulfilled or rejected. What a handler does after its first wait is part of its effect on the world.
  The pub/sub channel delivers a published message to every subscriber, the publisher's own included.
\<close>

section \<open>Handlers\<close>

datatype handler_result = Finished | Threw string | Promised "string option"

text \<open>\<open>Promised None\<close> is a promise that is fulfilled, \<open>Promised (Some e)\<close> one rejected with \<open>e\<close>.\<close>

record ('d, 'w) handler_entry =
  he_class :: string
  he_handler :: "'d \<Rightarrow> 'w \<Rightarrow> handler_result \<times> 'w"
  he_async :: bool

datatype 'r query_result = QValue 'r | QThrew string | QPromise nat "string + 'r"

text \<open>\<open>QPromise t r\<close> settles after \<open>t\<close> milliseconds with \<open>r\<close>.\<close>

record ('d, 'r, 'w) event_bus =
  eb_handlers :: "('d, 'w) handler_entry list"
  eb_queryHandlers :: "(string, 'd \<Rightarrow> 'w \<Rightarrow> 'r query_result \<times> 'w) jsmap"
  eb_redis :: bool

definition eb_new :: "bool \<Rightarrow> ('d, 'r, 'w) event_bus" where
  "eb_new redis = \<lparr>eb_handlers = [], eb_queryHandlers = [], eb_redis = redis\<rparr>"

definition registerHandler ::
  "string \<Rightarrow> ('d \<Rightarrow> 'w \<Rightarrow> handler_result \<times> 'w) \<Rightarrow> bool \<Rightarrow> ('d, 'r, 'w) event_bus \<Rightarrow> ('d, 'r, 'w) event_bus" where
  "registerHandler cls h async b =
     b\<lparr>eb_handlers := eb_handlers b @ [\<lparr>he_class = cls, he_handler = h, he_async = async\<rparr>]\<rparr>"

definition registerQueryHandler ::
  "string \<Rightarrow> ('d \<Rightarrow> 'w \<Rightarrow> 'r query_result \<times> 'w) \<Rightarrow> ('d, 'r, 'w) event_bus \<Rightarrow> ('d, 'r, 'w) event_bus" where
  "registerQueryHandler cls h b = b\<lparr>eb_queryHandlers := jm_set (eb_queryHandlers b) cls h\<rparr>"

section \<open>Emitting\<close>

text \<open>
  One call of \<open>invokeHandlers\<close>: the world after it and the outcomes of the promises it waits for. The
  promise it returns is rejected when one of these is. A throwing handler is logged, and so is the
  rejection of a handler it does not wait for.
\<close>

fun invoke_all :: "bool \<Rightarrow> 'd \<Rightarrow> ('d, 'w) handler_entry list \<Rightarrow> 'w \<Rightarrow> string option list \<times> 'w" where
  "invoke_all awaitAll d [] w = ([], w)"
| "invoke_all awaitAll d (h # hs) w =
     (case he_handler h d w of (r, w1) \<Rightarrow>
      case invoke_all awaitAll d hs w1 of (ps, w2) \<Rightarrow>
        (case r of Promised p \<Rightarrow> if awaitAll \<or> \<not> he_async h then (p # ps, w2) else (ps, w2)
         | _ \<Rightarrow> (ps, w2)))"

definition invokeHandlers ::
  "('d, 'r, 'w) event_bus \<Rightarrow> string \<Rightarrow> 'd \<Rightarrow> bool \<Rightarrow> 'w \<Rightarrow> string option list \<times> 'w" where
  "invokeHandlers b cls d awaitAll w =
     invoke_all awaitAll d (filter (\<lambda>h. he_class h = cls) (eb_handlers b)) w"

definition rejections :: "string option list \<Rightarrow> string list" where
  "rejections ps = List.map_filter id ps"

text \<open>
  What the channel delivers to one service: the message is handled there as \<open>invokeHandlers\<close> without
  \<open>awaitAll\<close>, not waited for. An emission: the publication, which reaches this service again, and then
  the local handlers (the two may interleave; here the received message comes first). The data is taken
  to survive its trip as JSON. \<open>emit\<close> does not wait for them, so a rejection is nobody's; \<open>emitAsync\<close> does.
\<close>

definition eb_receive :: "('d, 'r, 'w) event_bus \<Rightarrow> string \<Rightarrow> 'd \<Rightarrow> 'w \<Rightarrow> string list \<times> 'w" where
  "eb_receive b cls d w =
     (if eb_redis b then map_prod rejections id (invokeHandlers b cls d False w) else ([], w))"

text \<open>The result is the unhandled rejections.\<close>

definition emit :: "('d, 'r, 'w) event_bus \<Rightarrow> string \<Rightarrow> 'd \<Rightarrow> 'w \<Rightarrow> string list \<times> 'w" where
  "emit b cls d w =
     (case eb_receive b cls d w of (u1, w1) \<Rightarrow>
      case invokeHandlers b cls d False w1 of (ps, w2) \<Rightarrow> (u1 @ rejections ps, w2))"

text \<open>The result is what the call throws, if anything, and the unhandled rejections.\<close>

definition emitAsync :: "('d, 'r, 'w) event_bus \<Rightarrow> string \<Rightarrow> 'd \<Rightarrow> 'w \<Rightarrow> (string list + unit) \<times> string list \<times> 'w" where
  "emitAsync b cls d w =
     (case eb_receive b cls d w of (u1, w1) \<Rightarrow>
      case invokeHandlers b cls d True w1 of (ps, w2) \<Rightarrow>
        (if rejections ps = [] then Inr () else Inl (rejections ps), u1, w2))"

definition no_query_handler_message :: "string \<Rightarrow> string" where
  "no_query_handler_message cls = ''No handler registered for query \"'' @ cls @ ''\". ''
     @ ''Did you forget to use @OnQuery('' @ cls @ '') in a provider? ''
     @ ''The provider's module must be imported somewhere in the app.''"

definition query_timeout_message :: "string \<Rightarrow> nat \<Rightarrow> string" where
  "query_timeout_message cls ms = ''Query \"'' @ cls @ ''\" timed out after '' @ js_of_nat ms @ ''ms. ''
     @ ''The handler may be stuck or performing a long-running operation.''"

definition emitAndWait ::
  "('d, 'r, 'w) event_bus \<Rightarrow> string \<Rightarrow> 'd \<Rightarrow> nat option \<Rightarrow> 'w \<Rightarrow> (string + 'r) \<times> 'w" where
  "emitAndWait b cls d ms w =
     (let limit = or_else ms 5000 in
      case jm_get (eb_queryHandlers b) cls of
        None \<Rightarrow> (Inl (no_query_handler_message cls), w)
      | Some h \<Rightarrow> (case h d w of (r, w') \<Rightarrow>
          (case r of
             QValue v \<Rightarrow> Inr v
           | QThrew e \<Rightarrow> Inl e
           | QPromise t res \<Rightarrow> if t < limit then res else Inl (query_timeout_message cls limit), w')))"

section \<open>What emitting does\<close>

definition run_handlers :: "'d \<Rightarrow> ('d, 'w) handler_entry list \<Rightarrow> 'w \<Rightarrow> 'w" where
  "run_handlers d hs w = foldl (\<lambda>w h. snd (he_handler h d w)) w hs"

lemma invoke_all_world: "snd (invoke_all awaitAll d hs w) = run_handlers d hs w"
  by (cases awaitAll; induction hs arbitrary: w)
    (simp_all add: run_handlers_def case_prod_unfold split: handler_result.split)

lemma rejections_Nil: "rejections ps = [] \<longleftrightarrow> (\<forall>p\<in>set ps. p = None)"
  by (induction ps) (auto simp: rejections_def map_filter_simps split: option.splits)

text \<open>The outcomes a call waits for.\<close>

fun awaited :: "bool \<Rightarrow> 'd \<Rightarrow> ('d, 'w) handler_entry list \<Rightarrow> 'w \<Rightarrow> string option list" where
  "awaited awaitAll d [] w = []"
| "awaited awaitAll d (h # hs) w =
     (case fst (he_handler h d w) of
        Promised p \<Rightarrow> if awaitAll \<or> \<not> he_async h then [p] else []
      | _ \<Rightarrow> []) @ awaited awaitAll d hs (snd (he_handler h d w))"

lemma invoke_all_awaited: "fst (invoke_all awaitAll d hs w) = awaited awaitAll d hs w"
  by (cases awaitAll; induction hs arbitrary: w) (simp_all add: case_prod_unfold split: handler_result.split)

abbreviation matching :: "('d, 'r, 'w) event_bus \<Rightarrow> string \<Rightarrow> ('d, 'w) handler_entry list" where
  "matching b cls \<equiv> filter (\<lambda>h. he_class h = cls) (eb_handlers b)"

text \<open>Delivery of events. Emitting runs every handler registered for the class exactly once, in the order
  of registration, whatever the others throw, on the memory transport; on Redis the service receives its
  own message back, so each of its handlers runs twice, and a service that only receives it runs them
  once. \<open>emitAsync\<close> throws exactly when the promise of some handler it ran locally is rejected; a handler
  that throws synchronously is never reported. \<open>emit\<close> itself never fails: a rejection it did not wait for
  is left unhandled.\<close>

theorem event_delivery:
  "snd (emit b cls d w) = (if eb_redis b then run_handlers d (matching b cls) (run_handlers d (matching b cls) w)
      else run_handlers d (matching b cls) w)
   \<and> snd (snd (emitAsync b cls d w)) = snd (emit b cls d w)
   \<and> snd (eb_receive b cls d w) = (if eb_redis b then run_handlers d (matching b cls) w else w)
   \<and> (fst (emitAsync b cls d w) = Inr () \<longleftrightarrow>
        (\<forall>p\<in>set (awaited True d (matching b cls) (snd (eb_receive b cls d w))). p = None))
   \<and> (\<not> eb_redis b \<longrightarrow> fst (emit b cls d w) = rejections (awaited False d (matching b cls) w))"
proof (intro conjI impI)
  obtain u1 w1 where r: "eb_receive b cls d w = (u1, w1)" by (metis surj_pair)
  have w1: "w1 = (if eb_redis b then run_handlers d (matching b cls) w else w)"
    using arg_cong[OF r, of snd] by (simp add: eb_receive_def invokeHandlers_def invoke_all_world split: if_splits)
  show "snd (eb_receive b cls d w) = (if eb_redis b then run_handlers d (matching b cls) w else w)"
    using r w1 by simp
  show "snd (emit b cls d w) = (if eb_redis b then run_handlers d (matching b cls) (run_handlers d (matching b cls) w)
      else run_handlers d (matching b cls) w)"
    by (simp add: emit_def r case_prod_unfold invokeHandlers_def invoke_all_world w1)
  show "snd (snd (emitAsync b cls d w)) = snd (emit b cls d w)"
    by (simp add: emit_def emitAsync_def r case_prod_unfold invokeHandlers_def invoke_all_world)
  show "fst (emitAsync b cls d w) = Inr () \<longleftrightarrow>
      (\<forall>p\<in>set (awaited True d (matching b cls) (snd (eb_receive b cls d w))). p = None)"
    by (simp add: emitAsync_def r case_prod_unfold invokeHandlers_def invoke_all_awaited rejections_Nil)
  assume "\<not> eb_redis b"
  then show "fst (emit b cls d w) = rejections (awaited False d (matching b cls) w)"
    by (simp add: emit_def eb_receive_def case_prod_unfold invokeHandlers_def invoke_all_awaited)
qed

text \<open>Queries. A query without a handler is refused; otherwise its single handler, the one registered
  last, runs once, and the answer is its value, or its exception, or what its promise settles to before
  the limit, and the timeout error if it does not settle before.\<close>

theorem query_answers_or_times_out:
  "emitAndWait (registerQueryHandler cls h b) cls d ms w =
     (case fst (h d w) of
        QValue v \<Rightarrow> Inr v
      | QThrew e \<Rightarrow> Inl e
      | QPromise t res \<Rightarrow> if t < or_else ms 5000 then res else Inl (query_timeout_message cls (or_else ms 5000)),
      snd (h d w))
   \<and> (jm_get (eb_queryHandlers b) cls = None \<longrightarrow>
        emitAndWait b cls d ms w = (Inl (no_query_handler_message cls), w))
   \<and> (cls' \<noteq> cls \<longrightarrow> emitAndWait (registerQueryHandler cls h b) cls' d ms w = emitAndWait b cls' d ms w)"
  by (simp add: emitAndWait_def registerQueryHandler_def jm_get_set case_prod_unfold Let_def)

definition wit_bus :: "(nat, nat, nat list) event_bus" where
  "wit_bus = registerHandler ''Paid'' (\<lambda>d w. (Promised None, w @ [d + 1])) False
     (registerHandler ''Paid'' (\<lambda>d w. (Threw ''boom'', w @ [d])) False (eb_new True))"

theorem event_delivery_witness:
  "snd (emit wit_bus ''Paid'' 5 []) = [5, 6, 5, 6] \<and> fst (emitAsync wit_bus ''Paid'' 5 []) = Inr ()"
  unfolding event_delivery[of wit_bus "''Paid''" 5 "[]", THEN conjunct1]
    event_delivery[of wit_bus "''Paid''" 5 "[]", THEN conjunct2, THEN conjunct2, THEN conjunct2, THEN conjunct1]
  by (simp add: wit_bus_def registerHandler_def eb_new_def run_handlers_def)

theorem query_answers_or_times_out_witness:
  "emitAndWait (wit_bus\<lparr>eb_queryHandlers := []\<rparr>) ''Get'' 1 None [] = (Inl (no_query_handler_message ''Get''), [])"
  by (rule query_answers_or_times_out[THEN conjunct2, THEN conjunct1, rule_format]) simp

end
