(* ===== verification/Outbox.thy ===== *)
theory Outbox
  imports Event_Bus
begin

text \<open>
  \<open>src/src/cqrs/outbox-processor.ts\<close>: events persisted in an outbox collection are published to the event
  bus by a polling loop. The MongoDB collection is a parameter, \<open>outbox_coll\<close>, with the documented
  behaviour of its query and updates as \<open>outbox_coll_ok\<close>; its calls succeed. The bus is that of
  \<open>Event_Bus\<close>: the processor renames the event's class to the entry's type and waits for \<open>emitAsync\<close>.
\<close>

section \<open>The collection\<close>

record 'd outbox_entry =
  ob_id :: nat
  ob_type :: string
  ob_data :: 'd
  ob_correlationId :: "string option"
  ob_createdAt :: int
  ob_published :: bool
  ob_retryCount :: nat
  ob_lastError :: "string option"
  ob_publishedAt :: "int option"

record ('d, 's) outbox_coll =
  oc_findPending :: "nat \<Rightarrow> 's \<Rightarrow> 'd outbox_entry list"
  oc_setPublished :: "nat \<Rightarrow> int \<Rightarrow> 's \<Rightarrow> 's"
  oc_countFailure :: "nat \<Rightarrow> string \<Rightarrow> 's \<Rightarrow> 's"
  oc_insertOne :: "'d outbox_entry \<Rightarrow> 's \<Rightarrow> 's"

definition set_published :: "int \<Rightarrow> 'd outbox_entry \<Rightarrow> 'd outbox_entry" where
  "set_published now e = e\<lparr>ob_published := True, ob_publishedAt := Some now\<rparr>"

definition count_failure :: "string \<Rightarrow> 'd outbox_entry \<Rightarrow> 'd outbox_entry" where
  "count_failure msg e = e\<lparr>ob_retryCount := Suc (ob_retryCount e), ob_lastError := Some msg\<rparr>"

definition is_pending :: "nat \<Rightarrow> 'd outbox_entry \<Rightarrow> bool" where
  "is_pending maxRetries e \<longleftrightarrow> \<not> ob_published e \<and> ob_retryCount e < maxRetries"

definition on_entry :: "nat \<Rightarrow> ('d outbox_entry \<Rightarrow> 'd outbox_entry) \<Rightarrow> 'd outbox_entry list \<Rightarrow> 'd outbox_entry list" where
  "on_entry i f es = map (\<lambda>e. if ob_id e = i then f e else e) es"

text \<open>
  \<open>find({published: false, retryCount: {$lt: max}}).sort({createdAt: 1}).limit(100)\<close> answers pending
  entries, oldest first, none twice, at most a hundred, and some when there are some; an update by id
  changes that entry; an insert adds the entry under a fresh id.
\<close>

definition outbox_coll_ok :: "('d, 's) outbox_coll \<Rightarrow> ('s \<Rightarrow> 'd outbox_entry list) \<Rightarrow> bool" where
  "outbox_coll_ok c es \<longleftrightarrow>
     (\<forall>s. distinct (map ob_id (es s)))
   \<and> (\<forall>m s. set (oc_findPending c m s) \<subseteq> {e \<in> set (es s). is_pending m e}
        \<and> distinct (map ob_id (oc_findPending c m s)) \<and> sorted (map ob_createdAt (oc_findPending c m s))
        \<and> length (oc_findPending c m s) \<le> 100
        \<and> (oc_findPending c m s = [] \<longrightarrow> (\<forall>e\<in>set (es s). \<not> is_pending m e)))
   \<and> (\<forall>i t s. es (oc_setPublished c i t s) = on_entry i (set_published t) (es s))
   \<and> (\<forall>i msg s. es (oc_countFailure c i msg s) = on_entry i (count_failure msg) (es s))
   \<and> (\<forall>e s. \<exists>i. i \<notin> ob_id ` set (es s) \<and> es (oc_insertOne c e s) = es s @ [e\<lparr>ob_id := i\<rparr>])"

section \<open>The processor\<close>

record 'd outbox_event =
  oe_data :: 'd
  oe_timestamp :: int
  oe_correlationId :: "string option"

definition event_of :: "'d outbox_entry \<Rightarrow> 'd outbox_event" where
  "event_of e = \<lparr>oe_data = ob_data e, oe_timestamp = ob_createdAt e, oe_correlationId = ob_correlationId e\<rparr>"

record ('s, 'w) outbox_state =
  op_coll :: 's
  op_world :: 'w
  op_processing :: bool

text \<open>One entry: publish it, and mark it or count the failure; the flag says whether it was published.\<close>

definition publish_entry ::
  "('d, 's) outbox_coll \<Rightarrow> ('d outbox_event, 'r, 'w) event_bus \<Rightarrow> int \<Rightarrow> 'd outbox_entry \<Rightarrow> 's \<times> 'w \<Rightarrow> bool \<times> 's \<times> 'w" where
  "publish_entry c bus now e st = (case st of (s, w) \<Rightarrow>
     (case emitAsync bus (ob_type e) (event_of e) w of (r, _, w') \<Rightarrow>
        (case r of
           Inr _ \<Rightarrow> (True, oc_setPublished c (ob_id e) now s, w')
         | Inl errs \<Rightarrow> (False, oc_countFailure c (ob_id e) (hd errs) s, w'))))"

fun publish_batch ::
  "('d, 's) outbox_coll \<Rightarrow> ('d outbox_event, 'r, 'w) event_bus \<Rightarrow> int \<Rightarrow> 'd outbox_entry list \<Rightarrow> 's \<times> 'w \<Rightarrow> nat \<times> 's \<times> 'w" where
  "publish_batch c bus now [] st = (0, st)"
| "publish_batch c bus now (e # es) st =
     (case publish_entry c bus now e st of (ok, st1) \<Rightarrow>
      case publish_batch c bus now es st1 of (n, st2) \<Rightarrow> ((if ok then Suc n else n), st2))"

definition processOutbox ::
  "('d, 's) outbox_coll \<Rightarrow> ('d outbox_event, 'r, 'w) event_bus \<Rightarrow> nat \<Rightarrow> int \<Rightarrow> ('s, 'w) outbox_state
    \<Rightarrow> nat \<times> ('s, 'w) outbox_state" where
  "processOutbox c bus maxRetries now st =
     (if op_processing st then (0, st)
      else let pending = oc_findPending c maxRetries (op_coll st) in
        if pending = [] then (0, st)
        else case publish_batch c bus now pending (op_coll st, op_world st) of (n, s, w) \<Rightarrow>
          (n, st\<lparr>op_coll := s, op_world := w, op_processing := False\<rparr>))"

definition persistToOutbox ::
  "('d, 's) outbox_coll \<Rightarrow> int \<Rightarrow> string \<Rightarrow> 'd \<Rightarrow> string option \<Rightarrow> ('s, 'w) outbox_state \<Rightarrow> ('s, 'w) outbox_state" where
  "persistToOutbox c now ty data correlationId st = st\<lparr>op_coll := oc_insertOne c
     \<lparr>ob_id = 0, ob_type = ty, ob_data = data, ob_correlationId = correlationId, ob_createdAt = now,
      ob_published = False, ob_retryCount = 0, ob_lastError = None, ob_publishedAt = None\<rparr> (op_coll st)\<rparr>"

text \<open>The timer: one poll after another.\<close>

fun poll ::
  "('d, 's) outbox_coll \<Rightarrow> ('d outbox_event, 'r, 'w) event_bus \<Rightarrow> nat \<Rightarrow> int list \<Rightarrow> ('s, 'w) outbox_state
    \<Rightarrow> ('s, 'w) outbox_state" where
  "poll c bus maxRetries [] st = st"
| "poll c bus maxRetries (now # ticks) st = poll c bus maxRetries ticks (snd (processOutbox c bus maxRetries now st))"

section \<open>What a poll does\<close>

text \<open>An entry's successor in a poll: unchanged, published, or failed once more.\<close>

definition entry_step :: "nat \<Rightarrow> 'd outbox_entry \<Rightarrow> 'd outbox_entry \<Rightarrow> bool" where
  "entry_step m e e' \<longleftrightarrow> is_pending m e \<and> ((\<exists>t. e' = set_published t e) \<or> (\<exists>msg. e' = count_failure msg e))"

text \<open>The attempts an entry has left.\<close>

definition attempts_left :: "nat \<Rightarrow> 'd outbox_entry \<Rightarrow> nat" where
  "attempts_left m e = (if ob_published e then 0 else m - ob_retryCount e)"

definition total_left :: "nat \<Rightarrow> 'd outbox_entry list \<Rightarrow> nat" where
  "total_left m es = sum_list (map (attempts_left m) es)"

lemma entry_step_less: "entry_step m e e' \<Longrightarrow> attempts_left m e' < attempts_left m e"
  by (auto simp: entry_step_def is_pending_def attempts_left_def set_published_def count_failure_def)

lemma total_left_0: "total_left m es = 0 \<Longrightarrow> e \<in> set es \<Longrightarrow> \<not> is_pending m e"
proof -
  assume "total_left m es = 0" and "e \<in> set es"
  then have "attempts_left m e = 0" by (simp add: total_left_def)
  then show "\<not> is_pending m e" by (auto simp: attempts_left_def is_pending_def)
qed

lemma publish_entry_coll:
  assumes "outbox_coll_ok c es" and "publish_entry c bus now e (s, w) = (ok, s', w')"
  shows "\<exists>f. es s' = on_entry (ob_id e) f (es s) \<and> (if ok then f = set_published now else \<exists>msg. f = count_failure msg)"
proof -
  obtain r u w1 where em: "emitAsync bus (ob_type e) (event_of e) w = (r, u, w1)" by (metis surj_pair)
  have laws: "es (oc_setPublished c i t s) = on_entry i (set_published t) (es s)"
    "es (oc_countFailure c i msg s) = on_entry i (count_failure msg) (es s)" for i t msg
    using assms(1) by (simp_all add: outbox_coll_ok_def)
  show ?thesis
  proof (cases r)
    case (Inl errs)
    with em assms(2) have "\<not> ok" "s' = oc_countFailure c (ob_id e) (hd errs) s"
      by (simp_all add: publish_entry_def)
    then show ?thesis using laws(2) by auto
  next
    case (Inr x)
    with em assms(2) have "ok" "s' = oc_setPublished c (ob_id e) now s"
      by (simp_all add: publish_entry_def)
    then show ?thesis using laws(1) by auto
  qed
qed

text \<open>The entries after a batch: those of the batch have made a step, the others are as they were.\<close>

definition batch_steps :: "nat \<Rightarrow> nat set \<Rightarrow> 'd outbox_entry list \<Rightarrow> 'd outbox_entry list \<Rightarrow> bool" where
  "batch_steps m ids xs ys \<longleftrightarrow> list_all2 (\<lambda>x y. ob_id y = ob_id x \<and>
     (if ob_id x \<in> ids then entry_step m x y else y = x)) xs ys"

lemma on_entry_steps:
  assumes "\<forall>x\<in>set xs. ob_id x = i \<longrightarrow> is_pending m x"
    and "f = set_published t \<or> f = count_failure msg"
  shows "batch_steps m {i} xs (on_entry i f xs)"
  using assms(1)
proof (induction xs)
  case (Cons x xs)
  have "ob_id (f x) = ob_id x" using assms(2) by (auto simp: set_published_def count_failure_def)
  moreover have "entry_step m x (f x)" if "ob_id x = i"
    using assms(2) Cons.prems that by (auto simp: entry_step_def)
  ultimately show ?case using Cons by (simp add: batch_steps_def on_entry_def)
qed (simp add: batch_steps_def on_entry_def)

lemma batch_steps_trans:
  assumes "batch_steps m A xs ys" and "batch_steps m B ys zs" and "A \<inter> B = {}"
  shows "batch_steps m (A \<union> B) xs zs"
  using assms(1,2) unfolding batch_steps_def
proof (induction xs ys arbitrary: zs rule: list_all2_induct)
  case (Cons x xs y ys)
  then obtain z zs' where z: "zs = z # zs'" "ob_id z = ob_id y" "if ob_id y \<in> B then entry_step m y z else z = y"
    "list_all2 (\<lambda>x y. ob_id y = ob_id x \<and> (if ob_id x \<in> B then entry_step m x y else y = x)) ys zs'"
    by (auto simp: list_all2_Cons1)
  have "ob_id z = ob_id x \<and> (if ob_id x \<in> A \<union> B then entry_step m x z else z = x)"
    using Cons.hyps(1) z(2,3) assms(3) by (auto split: if_splits)
  with Cons.IH[OF z(4)] z(1) show ?case by simp
qed simp

lemma batch_steps_refl: "batch_steps m {} xs xs"
  by (simp add: batch_steps_def list_all2_refl)

lemma batch_steps_outside:
  "batch_steps m A xs ys \<Longrightarrow> y \<in> set ys \<Longrightarrow> ob_id y \<notin> A \<Longrightarrow> y \<in> set xs"
  unfolding batch_steps_def by (induction xs ys rule: list_all2_induct) auto

lemma publish_batch_steps:
  assumes "outbox_coll_ok c es" and "publish_batch c bus now batch (s, w) = (n, s', w')"
    and "distinct (map ob_id batch)"
    and "\<forall>x\<in>set (es s). ob_id x \<in> ob_id ` set batch \<longrightarrow> is_pending m x"
  shows "batch_steps m (ob_id ` set batch) (es s) (es s')"
  using assms(2-)
proof (induction batch arbitrary: s w n)
  case Nil
  then show ?case by (simp add: batch_steps_refl)
next
  case (Cons e batch)
  obtain ok s1 w1 where one: "publish_entry c bus now e (s, w) = (ok, s1, w1)" by (metis surj_pair)
  obtain n1 where rest: "publish_batch c bus now batch (s1, w1) = (n1, s', w')"
    using Cons.prems(1) one by (auto split: prod.splits)
  obtain f where f: "es s1 = on_entry (ob_id e) f (es s)" "f = set_published now \<or> (\<exists>msg. f = count_failure msg)"
    using publish_entry_coll[OF assms(1) one] by (auto split: if_splits)
  have "batch_steps m {ob_id e} (es s) (es s1)"
    unfolding f(1) using f(2) Cons.prems(3) on_entry_steps[of "es s" "ob_id e" m f now] by auto
  moreover have "batch_steps m (ob_id ` set batch) (es s1) (es s')"
  proof (rule Cons.IH[OF rest])
    show "distinct (map ob_id batch)" using Cons.prems(2) by simp
    show "\<forall>x\<in>set (es s1). ob_id x \<in> ob_id ` set batch \<longrightarrow> is_pending m x"
    proof (intro ballI impI)
      fix x
      assume x: "x \<in> set (es s1)" "ob_id x \<in> ob_id ` set batch"
      then have "ob_id x \<notin> {ob_id e}" using Cons.prems(2) by auto
      then have "x \<in> set (es s)" using batch_steps_outside[OF calculation x(1)] by simp
      then show "is_pending m x" using Cons.prems(3) x(2) by simp
    qed
  qed
  ultimately have "batch_steps m ({ob_id e} \<union> ob_id ` set batch) (es s) (es s')"
    by (rule batch_steps_trans) (use Cons.prems(2) in auto)
  then show ?case by simp
qed

lemma batch_steps_left:
  "batch_steps m A xs ys \<Longrightarrow> total_left m ys \<le> total_left m xs
     \<and> ((\<exists>x\<in>set xs. ob_id x \<in> A) \<longrightarrow> total_left m ys < total_left m xs)"
  unfolding batch_steps_def total_left_def
proof (induction xs ys rule: list_all2_induct)
  case (Cons x xs y ys)
  then show ?case using entry_step_less[of m x y] by (cases "ob_id x \<in> A") fastforce+
qed simp

lemma processOutbox_steps:
  assumes "outbox_coll_ok c es" and "\<not> op_processing st" and "st' = snd (processOutbox c bus m now st)"
  shows "\<not> op_processing st'
    \<and> batch_steps m (ob_id ` set (oc_findPending c m (op_coll st))) (es (op_coll st)) (es (op_coll st'))
    \<and> (total_left m (es (op_coll st')) < total_left m (es (op_coll st))
       \<or> es (op_coll st') = es (op_coll st) \<and> (\<forall>e\<in>set (es (op_coll st)). \<not> is_pending m e))"
proof (cases "oc_findPending c m (op_coll st) = []")
  case True
  then have "st' = st" using assms(2) by (simp add: assms(3) processOutbox_def)
  moreover have "\<forall>e\<in>set (es (op_coll st)). \<not> is_pending m e"
    using True assms(1) by (simp add: outbox_coll_ok_def)
  ultimately show ?thesis using assms(2) True by (simp add: batch_steps_refl)
next
  case False
  let ?b = "oc_findPending c m (op_coll st)"
  obtain n s w where b: "publish_batch c bus now ?b (op_coll st, op_world st) = (n, s, w)" by (metis surj_pair)
  then have st': "op_coll st' = s" "\<not> op_processing st'"
    using False assms(2) by (simp_all add: assms(3) processOutbox_def)
  have found: "set ?b \<subseteq> {e \<in> set (es (op_coll st)). is_pending m e}" "distinct (map ob_id ?b)"
    and ids: "distinct (map ob_id (es (op_coll st)))"
    using assms(1) by (simp_all add: outbox_coll_ok_def)
  have "\<forall>x\<in>set (es (op_coll st)). ob_id x \<in> ob_id ` set ?b \<longrightarrow> is_pending m x"
  proof (intro ballI impI)
    fix x
    assume x: "x \<in> set (es (op_coll st))" "ob_id x \<in> ob_id ` set ?b"
    then obtain y where y: "y \<in> set ?b" "ob_id x = ob_id y" by blast
    then have "y \<in> set (es (op_coll st))" using found(1) by blast
    then have "x = y" using ids x(1) y(2) by (meson distinct_map inj_onD)
    then show "is_pending m x" using found(1) y(1) by blast
  qed
  from publish_batch_steps[OF assms(1) b found(2) this]
  have steps: "batch_steps m (ob_id ` set ?b) (es (op_coll st)) (es s)" .
  have "hd ?b \<in> set ?b" using False by simp
  then have "\<exists>x\<in>set (es (op_coll st)). ob_id x \<in> ob_id ` set ?b" using found(1) by blast
  then have "total_left m (es s) < total_left m (es (op_coll st))" using batch_steps_left[OF steps] by blast
  then show ?thesis using steps st' by simp
qed

lemma poll_idle:
  assumes "outbox_coll_ok c es" and "\<not> op_processing st" and "total_left m (es (op_coll st)) \<le> length ticks"
  shows "\<forall>e\<in>set (es (op_coll (poll c bus m ticks st))). \<not> is_pending m e"
  using assms(2,3)
proof (induction ticks arbitrary: st)
  case Nil
  then show ?case using total_left_0 by auto
next
  case (Cons now ticks)
  let ?st = "snd (processOutbox c bus m now st)"
  note s = processOutbox_steps[OF assms(1) Cons.prems(1) refl, of bus m now]
  have "total_left m (es (op_coll ?st)) \<le> length ticks"
  proof (cases "total_left m (es (op_coll ?st)) < total_left m (es (op_coll st))")
    case True
    then show ?thesis using Cons.prems(2) by simp
  next
    case False
    then have e: "es (op_coll ?st) = es (op_coll st)" "\<forall>e\<in>set (es (op_coll st)). \<not> is_pending m e"
      using s by blast+
    then have "\<forall>e\<in>set (es (op_coll st)). attempts_left m e = 0"
      by (auto simp: is_pending_def attempts_left_def)
    then have "total_left m (es (op_coll st)) = 0" by (simp add: total_left_def)
    with e(1) show ?thesis by simp
  qed
  then have "\<forall>e\<in>set (es (op_coll (poll c bus m ticks ?st))). \<not> is_pending m e"
    using s by (intro Cons.IH) blast+
  then show ?case by (simp only: poll.simps)
qed

section \<open>The property\<close>


text \<open>A collection over lists, whose ids are positions.\<close>

definition numbered :: "'d outbox_entry list \<Rightarrow> 'd outbox_entry list" where
  "numbered s = map (\<lambda>i. (s ! i)\<lparr>ob_id := i\<rparr>) [0..<length s]"

lemma numbered_ids [simp]: "map ob_id (numbered s) = [0..<length s]"
  by (simp add: numbered_def comp_def)

lemma numbered_update:
  assumes "\<And>e i. f (e\<lparr>ob_id := i\<rparr>) = (f e)\<lparr>ob_id := i\<rparr>"
  shows "i < length s \<Longrightarrow> numbered (s[i := f (s ! i)]) = on_entry i f (numbered s)"
    and "\<not> i < length s \<Longrightarrow> on_entry i f (numbered s) = numbered s"
  by (rule nth_equalityI; simp add: numbered_def on_entry_def assms nth_list_update)+

lemma numbered_snoc: "numbered (s @ [e]) = numbered s @ [e\<lparr>ob_id := length s\<rparr>]"
  by (simp add: numbered_def nth_append)

definition list_coll :: "('d, 'd outbox_entry list) outbox_coll" where
  "list_coll = \<lparr>oc_findPending = (\<lambda>m s. take 100 (sort_key ob_createdAt (filter (is_pending m) (numbered s)))),
     oc_setPublished = (\<lambda>i t s. if i < length s then s[i := set_published t (s ! i)] else s),
     oc_countFailure = (\<lambda>i msg s. if i < length s then s[i := count_failure msg (s ! i)] else s),
     oc_insertOne = (\<lambda>e s. s @ [e])\<rparr>"

lemma distinct_map_sort_key: "distinct (map f xs) \<Longrightarrow> distinct (map f (sort_key g xs))"
  by (simp add: distinct_map)

lemma sorted_map_take: "sorted (map f xs) \<Longrightarrow> sorted (map f (take n xs))"
  by (simp add: take_map[symmetric] sorted_wrt_take)

lemma list_coll_ok: "outbox_coll_ok list_coll numbered"
  unfolding outbox_coll_ok_def
proof (intro conjI allI impI)
  fix m and s :: "'a outbox_entry list"
  let ?p = "filter (is_pending m) (numbered s)"
  have found: "oc_findPending list_coll m s = take 100 (sort_key ob_createdAt ?p)" by (simp add: list_coll_def)
  show "set (oc_findPending list_coll m s) \<subseteq> {e \<in> set (numbered s). is_pending m e}"
    unfolding found by (auto dest: in_set_takeD)
  have "distinct (map ob_id ?p)" by (rule distinct_map_filter) simp
  then show "distinct (map ob_id (oc_findPending list_coll m s))"
    unfolding found by (simp add: take_map[symmetric] distinct_map_sort_key)
  show "sorted (map ob_createdAt (oc_findPending list_coll m s))"
    unfolding found by (simp add: sorted_map_take)
  show "length (oc_findPending list_coll m s) \<le> 100" unfolding found by simp
  assume "oc_findPending list_coll m s = []"
  then have "?p = []" unfolding found by (metis length_0_conv length_sort length_take min_0R min_def take_eq_Nil zero_neq_numeral)
  then show "\<forall>e\<in>set (numbered s). \<not> is_pending m e" by (simp add: filter_empty_conv)
next
  fix i t and s :: "'a outbox_entry list"
  have "set_published t (e\<lparr>ob_id := i\<rparr>) = (set_published t e)\<lparr>ob_id := i\<rparr>" for e :: "'a outbox_entry" and i
    by (simp add: set_published_def)
  note u = numbered_update[of "set_published t", OF this]
  show "numbered (oc_setPublished list_coll i t s) = on_entry i (set_published t) (numbered s)"
    using u[of i s] by (cases "i < length s") (simp_all add: list_coll_def)
next
  fix i msg and s :: "'a outbox_entry list"
  have "count_failure msg (e\<lparr>ob_id := i\<rparr>) = (count_failure msg e)\<lparr>ob_id := i\<rparr>" for e :: "'a outbox_entry" and i
    by (simp add: count_failure_def)
  note u = numbered_update[of "count_failure msg", OF this]
  show "numbered (oc_countFailure list_coll i msg s) = on_entry i (count_failure msg) (numbered s)"
    using u[of i s] by (cases "i < length s") (simp_all add: list_coll_def)
next
  fix e and s :: "'a outbox_entry list"
  show "\<exists>i. i \<notin> ob_id ` set (numbered s) \<and> numbered (oc_insertOne list_coll e s) = numbered s @ [e\<lparr>ob_id := i\<rparr>]"
    by (rule exI[of _ "length s"]) (simp add: list_coll_def numbered_snoc set_map[symmetric] del: set_map)
qed simp

definition wit_outbox :: "(nat outbox_entry list, nat list) outbox_state" where
  "wit_outbox = \<lparr>op_coll = [\<lparr>ob_id = 0, ob_type = ''Paid'', ob_data = 5, ob_correlationId = None, ob_createdAt = 1,
     ob_published = False, ob_retryCount = 0, ob_lastError = None, ob_publishedAt = None\<rparr>],
     op_world = [], op_processing = False\<rparr>"

definition wit_failing_bus :: "(nat outbox_event, nat, nat list) event_bus" where
  "wit_failing_bus = registerHandler ''Paid'' (\<lambda>d w. (Promised (Some ''down''), w @ [oe_data d])) False (eb_new False)"


end
