(* ===== verification/Alerts.thy ===== *)
theory Alerts
  imports Boot_Prelude Complex_Main
begin

text \<open>
  \<open>src/src/alerts/alert.service.ts\<close>: alert rules over metrics, with their debounce and cooldown, and the
  channels an alert goes to. Metrics and thresholds are rationals (no NaN); how a number prints is a
  parameter. A channel is its name; \<open>al_sent\<close> records what the channels were asked to send, which the
  service waits for but whose failures it only logs. One run of \<open>checkRules\<close> reads the clock once.
\<close>

section \<open>Rules and state\<close>

datatype alert_condition = GT | LT | EQ
datatype alert_severity = Info | Warning | Critical

record alert_rule =
  ar_name :: string
  ar_metric :: string
  ar_condition :: alert_condition
  ar_threshold :: rat
  ar_severity :: alert_severity
  ar_for :: "rat option"
  ar_channels :: "string list option"

record alert_payload =
  ap_severity :: alert_severity
  ap_title :: string
  ap_message :: string
  ap_metric :: "string option"
  ap_value :: "rat option"
  ap_threshold :: "rat option"
  ap_timestamp :: int

record pending_alert =
  pn_rule :: alert_rule
  pn_firstTriggered :: int
  pn_fired :: bool

record alert_service =
  al_cooldown :: int
  al_channels :: "string list"
  al_rules :: "(string, alert_rule) jsmap"
  al_activeAlerts :: "alert_payload list"
  al_cooldowns :: "(string, int) jsmap"
  al_pending :: "(string, pending_alert) jsmap"
  al_sent :: "(string \<times> alert_payload) list"

text \<open>A metric of the registry: its name and the values of its label combinations, where it has them.\<close>

type_synonym metric_json = "string \<times> rat option list option"

definition DEFAULT_COOLDOWN :: int where "DEFAULT_COOLDOWN = 300000"

definition al_new :: "int option \<Rightarrow> alert_service" where
  "al_new cooldown = \<lparr>al_cooldown = or_else cooldown DEFAULT_COOLDOWN, al_channels = [], al_rules = [],
     al_activeAlerts = [], al_cooldowns = [], al_pending = [], al_sent = []\<rparr>"

definition al_addRule :: "alert_rule \<Rightarrow> alert_service \<Rightarrow> alert_service" where
  "al_addRule rule st = st\<lparr>al_rules := jm_set (al_rules st) (ar_name rule) rule\<rparr>"

definition al_onModuleInit :: "alert_rule list option \<Rightarrow> alert_service \<Rightarrow> alert_service" where
  "al_onModuleInit rules st = fold al_addRule (or_else rules []) st"

definition al_removeRule :: "string \<Rightarrow> alert_service \<Rightarrow> alert_service" where
  "al_removeRule name st = st\<lparr>al_rules := jm_del (al_rules st) name, al_pending := jm_del (al_pending st) name\<rparr>"

definition al_registerChannel :: "string \<Rightarrow> alert_service \<Rightarrow> alert_service" where
  "al_registerChannel name st = st\<lparr>al_channels := js_add name (al_channels st)\<rparr>"

definition al_getActiveAlerts :: "alert_service \<Rightarrow> alert_payload list" where
  "al_getActiveAlerts st = al_activeAlerts st"

section \<open>Checking the rules\<close>

definition evaluateCondition :: "rat \<Rightarrow> alert_condition \<Rightarrow> rat \<Rightarrow> bool" where
  "evaluateCondition v c threshold = (case c of GT \<Rightarrow> threshold < v | LT \<Rightarrow> v < threshold | EQ \<Rightarrow> v = threshold)"

definition al_sendAlert :: "alert_payload \<Rightarrow> string list option \<Rightarrow> alert_service \<Rightarrow> alert_service" where
  "al_sendAlert payload channelNames st =
     (let active = al_activeAlerts st @ [payload];
          targets = (case channelNames of
            None \<Rightarrow> al_channels st | Some ns \<Rightarrow> filter (\<lambda>n. n \<in> set (al_channels st)) ns)
      in st\<lparr>al_activeAlerts := drop (length active - 1000) active,
            al_sent := al_sent st @ map (\<lambda>ch. (ch, payload)) targets\<rparr>)"

definition metricValues :: "metric_json list \<Rightarrow> (string, rat) jsmap" where
  "metricValues = foldl (\<lambda>m (name, vals). case vals of
     None \<Rightarrow> m
   | Some vs \<Rightarrow> if vs = [] then m else jm_set m name (foldl (\<lambda>acc v. acc + or_else v 0) 0 vs)) []"

text \<open>The debounce: whether the rule goes on to fire, and the pending entry it leaves.\<close>

definition al_debounce :: "int \<Rightarrow> string \<Rightarrow> alert_rule \<Rightarrow> alert_service \<Rightarrow> bool \<times> alert_service" where
  "al_debounce now name rule st =
     (case ar_for rule of
        None \<Rightarrow> (True, st)
      | Some secs \<Rightarrow>
          if secs \<le> 0 then (True, st)
          else case jm_get (al_pending st) name of
            None \<Rightarrow> (False, st\<lparr>al_pending := jm_set (al_pending st) name
                       \<lparr>pn_rule = rule, pn_firstTriggered = now, pn_fired = False\<rparr>\<rparr>)
          | Some p \<Rightarrow>
              if \<not> pn_fired p \<and> of_int (now - pn_firstTriggered p) < secs * 1000 then (False, st)
              else if pn_fired p then (False, st)
              else (True, st\<lparr>al_pending := jm_set (al_pending st) name (p\<lparr>pn_fired := True\<rparr>)\<rparr>))"

definition in_cooldown :: "int \<Rightarrow> int \<Rightarrow> int option \<Rightarrow> bool" where
  "in_cooldown cooldown now lastFired = (case lastFired of
     None \<Rightarrow> False | Some l \<Rightarrow> l \<noteq> 0 \<and> now - l < cooldown)"

definition fired_payload :: "(rat \<Rightarrow> string) \<Rightarrow> int \<Rightarrow> alert_rule \<Rightarrow> rat \<Rightarrow> alert_payload" where
  "fired_payload num now rule v = \<lparr>ap_severity = ar_severity rule, ap_title = ar_name rule,
     ap_message = ar_metric rule @ '' is '' @ num v @ '' (threshold: ''
       @ (case ar_condition rule of GT \<Rightarrow> ''gt'' | LT \<Rightarrow> ''lt'' | EQ \<Rightarrow> ''eq'') @ '' '' @ num (ar_threshold rule) @ '')'',
     ap_metric = Some (ar_metric rule), ap_value = Some v, ap_threshold = Some (ar_threshold rule),
     ap_timestamp = now\<rparr>"

definition resolved_payload :: "(rat \<Rightarrow> string) \<Rightarrow> int \<Rightarrow> alert_rule \<Rightarrow> rat \<Rightarrow> alert_payload" where
  "resolved_payload num now rule v = \<lparr>ap_severity = Info, ap_title = ''[RESOLVED] '' @ ar_name rule,
     ap_message = ar_metric rule @ '' returned to normal (value: '' @ num v @ '', threshold: ''
       @ (case ar_condition rule of GT \<Rightarrow> ''gt'' | LT \<Rightarrow> ''lt'' | EQ \<Rightarrow> ''eq'') @ '' '' @ num (ar_threshold rule) @ '')'',
     ap_metric = Some (ar_metric rule), ap_value = Some v, ap_threshold = Some (ar_threshold rule),
     ap_timestamp = now\<rparr>"

text \<open>One rule of the loop; the flag says whether the rule's alert was sent.\<close>

definition al_fire :: "(rat \<Rightarrow> string) \<Rightarrow> int \<Rightarrow> string \<Rightarrow> alert_rule \<Rightarrow> rat \<Rightarrow> alert_service \<Rightarrow> bool \<times> alert_service" where
  "al_fire num now name rule v st =
     (case al_debounce now name rule st of (go, st) \<Rightarrow>
        if \<not> go then (False, st)
        else if in_cooldown (al_cooldown st) now (jm_get (al_cooldowns st) name) then (False, st)
        else (True, al_sendAlert (fired_payload num now rule v) (ar_channels rule)
                      (st\<lparr>al_cooldowns := jm_set (al_cooldowns st) name now\<rparr>)))"

definition al_clear :: "(rat \<Rightarrow> string) \<Rightarrow> int \<Rightarrow> string \<Rightarrow> alert_rule \<Rightarrow> rat \<Rightarrow> alert_service \<Rightarrow> alert_service" where
  "al_clear num now name rule v st =
     (let st = (case jm_get (al_pending st) name of
                  None \<Rightarrow> st
                | Some p \<Rightarrow> if pn_fired p
                    then al_sendAlert (resolved_payload num now rule v) (ar_channels rule) st else st)
      in st\<lparr>al_pending := jm_del (al_pending st) name\<rparr>)"

definition al_checkRule ::
  "(rat \<Rightarrow> string) \<Rightarrow> int \<Rightarrow> (string, rat) jsmap \<Rightarrow> string \<times> alert_rule \<Rightarrow> alert_service \<Rightarrow> bool \<times> alert_service" where
  "al_checkRule num now vals nr st = (case nr of (name, rule) \<Rightarrow>
     (case jm_get vals (ar_metric rule) of
        None \<Rightarrow> (False, st)
      | Some v \<Rightarrow>
          if evaluateCondition v (ar_condition rule) (ar_threshold rule) then al_fire num now name rule v st
          else (False, al_clear num now name rule v st)))"

text \<open>The loop; the names of the rules whose alerts were sent, in order.\<close>

fun al_loop ::
  "(rat \<Rightarrow> string) \<Rightarrow> int \<Rightarrow> (string, rat) jsmap \<Rightarrow> (string \<times> alert_rule) list \<Rightarrow> alert_service
    \<Rightarrow> string list \<times> alert_service" where
  "al_loop num now vals [] st = ([], st)"
| "al_loop num now vals (nr # nrs) st =
     (case al_checkRule num now vals nr st of (fired, st) \<Rightarrow>
      case al_loop num now vals nrs st of (names, st) \<Rightarrow> (if fired then fst nr # names else names, st))"

text \<open>\<open>None\<close>: there is no registry, or reading it throws.\<close>

definition al_checkRules ::
  "(rat \<Rightarrow> string) \<Rightarrow> int \<Rightarrow> metric_json list option \<Rightarrow> alert_service \<Rightarrow> string list \<times> alert_service" where
  "al_checkRules num now metrics st = (case metrics of
     None \<Rightarrow> ([], st)
   | Some ms \<Rightarrow> al_loop num now (metricValues ms) (al_rules st) st)"

text \<open>The timer runs the check again and again; which rules fired when.\<close>

fun al_run ::
  "(rat \<Rightarrow> string) \<Rightarrow> (int \<times> metric_json list option) list \<Rightarrow> alert_service \<Rightarrow> (string \<times> int) list \<times> alert_service" where
  "al_run num [] st = ([], st)"
| "al_run num ((now, metrics) # checks) st =
     (case al_checkRules num now metrics st of (names, st) \<Rightarrow>
      case al_run num checks st of (rest, st) \<Rightarrow> (map (\<lambda>n. (n, now)) names @ rest, st))"

definition fires_of :: "string \<Rightarrow> (string \<times> int) list \<Rightarrow> int list" where
  "fires_of n evs = map snd (filter (\<lambda>e. fst e = n) evs)"

section \<open>One machine per rule\<close>

text \<open>What the service knows of one rule: the pending entry's time and flag, and the last firing.\<close>

type_synonym rule_view = "(int \<times> bool) option \<times> int option"

definition al_view :: "string \<Rightarrow> alert_service \<Rightarrow> rule_view" where
  "al_view n st = (map_option (\<lambda>p. (pn_firstTriggered p, pn_fired p)) (jm_get (al_pending st) n),
     jm_get (al_cooldowns st) n)"

definition triggered :: "alert_rule \<Rightarrow> rat option \<Rightarrow> bool" where
  "triggered rule v = (case v of None \<Rightarrow> False
     | Some x \<Rightarrow> evaluateCondition x (ar_condition rule) (ar_threshold rule))"

definition cleared :: "alert_rule \<Rightarrow> rat option \<Rightarrow> bool" where
  "cleared rule v \<longleftrightarrow> v \<noteq> None \<and> \<not> triggered rule v"

definition debounced :: "alert_rule \<Rightarrow> rat option" where
  "debounced rule = (case ar_for rule of None \<Rightarrow> None | Some secs \<Rightarrow> if secs \<le> 0 then None else Some secs)"

text \<open>The specification of a rule on its own.\<close>

definition rule_ready :: "alert_rule \<Rightarrow> int \<Rightarrow> (int \<times> bool) option \<Rightarrow> bool \<times> (int \<times> bool) option" where
  "rule_ready rule now p = (case debounced rule of
     None \<Rightarrow> (True, p)
   | Some secs \<Rightarrow> (case p of
       None \<Rightarrow> (False, Some (now, False))
     | Some (t, fired) \<Rightarrow>
         if fired \<or> of_int (now - t) < secs * 1000 then (False, p) else (True, Some (t, True))))"

definition rule_step :: "int \<Rightarrow> alert_rule \<Rightarrow> int \<Rightarrow> rat option \<Rightarrow> rule_view \<Rightarrow> bool \<times> rule_view" where
  "rule_step cooldown rule now v s = (case s of (p, c) \<Rightarrow>
     if cleared rule v then (False, None, c)
     else if v = None then (False, p, c)
     else (case rule_ready rule now p of (ready, p') \<Rightarrow>
        if ready \<and> \<not> in_cooldown cooldown now c then (True, p', Some now) else (False, p', c)))"

fun rule_fires :: "int \<Rightarrow> alert_rule \<Rightarrow> (int \<times> rat option) list \<Rightarrow> rule_view \<Rightarrow> int list" where
  "rule_fires cooldown rule [] s = []"
| "rule_fires cooldown rule ((now, v) # checks) s =
     (case rule_step cooldown rule now v s of (fired, s') \<Rightarrow>
        (if fired then [now] else []) @ rule_fires cooldown rule checks s')"

subsection \<open>The service refines the machines\<close>

lemma sendAlert_fields [simp]:
  "al_cooldown (al_sendAlert p chs st) = al_cooldown st"
  "al_rules (al_sendAlert p chs st) = al_rules st"
  "al_cooldowns (al_sendAlert p chs st) = al_cooldowns st"
  "al_pending (al_sendAlert p chs st) = al_pending st"
  by (simp_all add: al_sendAlert_def Let_def)

lemma al_view_sendAlert [simp]: "al_view n (al_sendAlert p chs st) = al_view n st"
  by (simp add: al_view_def)

lemma al_view_pending:
  "al_view n (st\<lparr>al_pending := jm_set (al_pending st) m p\<rparr>) =
     (if n = m then (Some (pn_firstTriggered p, pn_fired p), snd (al_view n st)) else al_view n st)"
  "al_view n (st\<lparr>al_pending := jm_del (al_pending st) m\<rparr>) =
     (if n = m then (None, snd (al_view n st)) else al_view n st)"
  by (simp_all add: al_view_def jm_get_set jm_get_del)

lemma al_view_cooldowns:
  "al_cooldowns st = cs \<Longrightarrow> al_view n (st\<lparr>al_cooldowns := jm_set cs m now\<rparr>) =
     (if n = m then (fst (al_view n st), Some now) else al_view n st)"
  by (auto simp: al_view_def jm_get_set)

lemma al_debounce_refines:
  assumes "al_debounce now n rule st = (go, st')"
  shows "rule_ready rule now (fst (al_view n st)) = (go, fst (al_view n st'))"
    and "snd (al_view n st') = snd (al_view n st)"
    and "m \<noteq> n \<Longrightarrow> al_view m st' = al_view m st"
    and "al_cooldown st' = al_cooldown st" and "al_rules st' = al_rules st"
    and "al_cooldowns st' = al_cooldowns st"
proof -
  have "rule_ready rule now (fst (al_view n st)) = (go, fst (al_view n st'))
    \<and> snd (al_view n st') = snd (al_view n st) \<and> (m \<noteq> n \<longrightarrow> al_view m st' = al_view m st)
    \<and> al_cooldown st' = al_cooldown st \<and> al_rules st' = al_rules st \<and> al_cooldowns st' = al_cooldowns st"
  proof (cases "debounced rule")
    case None
    then have "go" "st' = st"
      using assms by (cases "ar_for rule"; simp add: al_debounce_def debounced_def split: if_splits)+
    with None show ?thesis by (simp add: rule_ready_def)
  next
    case (Some secs)
    then have f: "ar_for rule = Some secs" "\<not> secs \<le> 0"
      by (cases "ar_for rule"; simp add: debounced_def split: if_splits)+
    show ?thesis
    proof (cases "jm_get (al_pending st) n")
      case None
      then have "\<not> go" "st' = st\<lparr>al_pending := jm_set (al_pending st) n
          \<lparr>pn_rule = rule, pn_firstTriggered = now, pn_fired = False\<rparr>\<rparr>"
        using assms f by (auto simp: al_debounce_def)
      with None Some show ?thesis by (simp add: rule_ready_def al_view_def jm_get_set)
    next
      case p: (Some p)
      show ?thesis
      proof (cases "pn_fired p \<or> of_int (now - pn_firstTriggered p) < secs * 1000")
        case True
        then have "\<not> go" "st' = st" using assms f p by (auto simp: al_debounce_def split: if_splits)
        with True Some p show ?thesis by (simp add: rule_ready_def al_view_def)
      next
        case False
        then have "go" "st' = st\<lparr>al_pending := jm_set (al_pending st) n (p\<lparr>pn_fired := True\<rparr>)\<rparr>"
          using assms f p by (auto simp: al_debounce_def)
        with False Some p show ?thesis by (simp add: rule_ready_def al_view_def jm_get_set)
      qed
    qed
  qed
  then show "rule_ready rule now (fst (al_view n st)) = (go, fst (al_view n st'))"
    and "snd (al_view n st') = snd (al_view n st)"
    and "m \<noteq> n \<Longrightarrow> al_view m st' = al_view m st"
    and "al_cooldown st' = al_cooldown st" and "al_rules st' = al_rules st"
    and "al_cooldowns st' = al_cooldowns st" by blast+
qed

lemma al_checkRule_refines:
  assumes "al_checkRule num now vals (n, rule) st = (fired, st')"
  shows "rule_step (al_cooldown st) rule now (jm_get vals (ar_metric rule)) (al_view n st) = (fired, al_view n st')"
    and "m \<noteq> n \<Longrightarrow> al_view m st' = al_view m st"
    and "al_cooldown st' = al_cooldown st" and "al_rules st' = al_rules st"
proof -
  obtain p c where view: "al_view n st = (p, c)" by (metis surj_pair)
  have "rule_step (al_cooldown st) rule now (jm_get vals (ar_metric rule)) (al_view n st) = (fired, al_view n st')
    \<and> (m \<noteq> n \<longrightarrow> al_view m st' = al_view m st) \<and> al_cooldown st' = al_cooldown st \<and> al_rules st' = al_rules st"
  proof (cases "jm_get vals (ar_metric rule)")
    case None
    with assms show ?thesis by (simp add: al_checkRule_def rule_step_def cleared_def view)
  next
    case (Some v)
    show ?thesis
    proof (cases "evaluateCondition v (ar_condition rule) (ar_threshold rule)")
      case True
      then have "\<not> cleared rule (Some v)" by (simp add: cleared_def triggered_def)
      moreover from True Some assms have fire: "al_fire num now n rule v st = (fired, st')"
        by (simp add: al_checkRule_def)
      moreover obtain go st1 where d: "al_debounce now n rule st = (go, st1)" by (metis surj_pair)
      moreover note al_debounce_refines[OF d]
      moreover have "snd (al_view n st1) = jm_get (al_cooldowns st1) n" by (simp add: al_view_def)
      ultimately show ?thesis
        using Some view by (cases "al_view n st1") (auto simp: al_fire_def rule_step_def al_view_cooldowns split: if_splits)
    next
      case False
      then have "cleared rule (Some v)" by (simp add: cleared_def triggered_def)
      moreover from False Some assms have "fired = False" "st' = al_clear num now n rule v st"
        by (simp_all add: al_checkRule_def)
      ultimately show ?thesis
        using Some view by (auto simp: al_clear_def Let_def rule_step_def al_view_def jm_get_del split: option.splits)
    qed
  qed
  then show "rule_step (al_cooldown st) rule now (jm_get vals (ar_metric rule)) (al_view n st) = (fired, al_view n st')"
    and "m \<noteq> n \<Longrightarrow> al_view m st' = al_view m st"
    and "al_cooldown st' = al_cooldown st" and "al_rules st' = al_rules st" by blast+
qed

lemma al_loop_refines:
  assumes "al_loop num now vals nrs st = (names, st')" and "distinct (map fst nrs)"
  shows "al_cooldown st' = al_cooldown st \<and> al_rules st' = al_rules st \<and> set names \<subseteq> set (map fst nrs)
    \<and> distinct names
    \<and> (\<forall>n. n \<notin> set (map fst nrs) \<longrightarrow> al_view n st' = al_view n st)
    \<and> (\<forall>n rule. (n, rule) \<in> set nrs \<longrightarrow>
         rule_step (al_cooldown st) rule now (jm_get vals (ar_metric rule)) (al_view n st) = (n \<in> set names, al_view n st'))"
  using assms
proof (induction nrs arbitrary: st names st')
  case (Cons nr nrs)
  obtain n rule where nr: "nr = (n, rule)" by (cases nr)
  obtain fired st1 where one: "al_checkRule num now vals (n, rule) st = (fired, st1)" by (metis surj_pair)
  obtain names1 where rest: "al_loop num now vals nrs st1 = (names1, st')"
    and names: "names = (if fired then n # names1 else names1)"
    using Cons.prems(1) one by (auto simp: nr split: prod.splits)
  note r = al_checkRule_refines[OF one]
  have dist: "distinct (map fst nrs)" "n \<notin> set (map fst nrs)" using Cons.prems(2) by (simp_all add: nr)
  have IH: "al_cooldown st' = al_cooldown st1" "al_rules st' = al_rules st1" "set names1 \<subseteq> set (map fst nrs)"
    "distinct names1" "\<And>m. m \<notin> set (map fst nrs) \<Longrightarrow> al_view m st' = al_view m st1"
    "\<And>m rl. (m, rl) \<in> set nrs \<Longrightarrow>
       rule_step (al_cooldown st1) rl now (jm_get vals (ar_metric rl)) (al_view m st1) = (m \<in> set names1, al_view m st')"
    using Cons.IH[OF rest dist(1)] by blast+
  have this_rule: "rule_step (al_cooldown st) rule now (jm_get vals (ar_metric rule)) (al_view n st) = (n \<in> set names, al_view n st')"
    using r(1) IH(3) IH(5)[OF dist(2)] dist(2) names by auto
  have other: "rule_step (al_cooldown st) rl now (jm_get vals (ar_metric rl)) (al_view m st) = (m \<in> set names, al_view m st')"
    if "(m, rl) \<in> set nrs" for m rl
  proof -
    have "m \<noteq> n" using that dist(2) by force
    then show ?thesis using IH(6)[OF that] r(2)[of m] r(3) names by simp
  qed
  have "set names \<subseteq> set (map fst (nr # nrs))" "distinct names"
    using IH(3,4) dist(2) by (auto simp: names nr)
  moreover have "al_view m st' = al_view m st" if "m \<notin> set (map fst (nr # nrs))" for m
    using that IH(5)[of m] r(2)[of m] by (simp add: nr)
  ultimately show ?case
    using this_rule other IH(1,2) r(3,4) by (auto simp: nr)
qed simp

definition value_of :: "alert_rule \<Rightarrow> metric_json list option \<Rightarrow> rat option" where
  "value_of rule metrics = (case metrics of None \<Rightarrow> None | Some ms \<Rightarrow> jm_get (metricValues ms) (ar_metric rule))"

lemma fires_of_names:
  "distinct names \<Longrightarrow> fires_of n (map (\<lambda>m. (m, now)) names) = (if n \<in> set names then [now] else [])"
  by (induction names) (auto simp: fires_of_def)

lemma fires_of_append: "fires_of n (xs @ ys) = fires_of n xs @ fires_of n ys"
  by (simp add: fires_of_def)

lemma rule_step_none: "rule_step cd rule now None s = (False, s)"
  by (cases s) (simp add: rule_step_def cleared_def)

text \<open>In a run of checks, the firings of a rule are those of its machine, whatever the other rules do.\<close>

lemma al_run_refines:
  assumes "jm_wf (al_rules st)" and "(n, rule) \<in> set (al_rules st)"
  shows "fires_of n (fst (al_run num checks st)) =
    rule_fires (al_cooldown st) rule (map (\<lambda>(now, ms). (now, value_of rule ms)) checks) (al_view n st)"
  using assms
proof (induction checks arbitrary: st)
  case Nil
  then show ?case by (simp add: fires_of_def)
next
  case (Cons check checks)
  obtain now metrics where check: "check = (now, metrics)" by (cases check)
  obtain names st1 where step: "al_checkRules num now metrics st = (names, st1)" by (metis surj_pair)
  have s: "al_cooldown st1 = al_cooldown st \<and> al_rules st1 = al_rules st \<and> distinct names
    \<and> rule_step (al_cooldown st) rule now (value_of rule metrics) (al_view n st) = (n \<in> set names, al_view n st1)"
  proof (cases metrics)
    case None
    with step show ?thesis by (auto simp: al_checkRules_def value_of_def rule_step_none)
  next
    case (Some ms)
    with step have "al_loop num now (metricValues ms) (al_rules st) st = (names, st1)"
      by (simp add: al_checkRules_def)
    from al_loop_refines[OF this] Cons.prems Some show ?thesis
      by (simp add: jm_wf_def value_of_def)
  qed
  obtain rest st2 where run: "al_run num checks st1 = (rest, st2)" by (metis surj_pair)
  have "fires_of n rest = rule_fires (al_cooldown st) rule
      (map (\<lambda>(now, ms). (now, value_of rule ms)) checks) (al_view n st1)"
    using Cons.IH[of st1] s Cons.prems by (simp add: run)
  then show ?case
    using s by (simp add: check step run fires_of_append fires_of_names)
qed

section \<open>What a machine does\<close>

lemma rule_step_cases:
  assumes "rule_step cd rule now v (p, c) = (fired, p', c')"
  shows "if fired then \<not> cleared rule v \<and> v \<noteq> None \<and> c' = Some now \<and> \<not> in_cooldown cd now c
           \<and> rule_ready rule now p = (True, p')
         else c' = c \<and> (cleared rule v \<and> p' = None \<or> v = None \<and> p' = p
           \<or> \<not> cleared rule v \<and> v \<noteq> None \<and> p' = snd (rule_ready rule now p))"
  using assms unfolding rule_step_def by (auto split: if_splits prod.splits)

text \<open>Spacing: a firing comes at least the cooldown after the last one.\<close>

lemma rule_fires_times: "t \<in> set (rule_fires cd rule checks s) \<Longrightarrow> t \<in> fst ` set checks"
proof (induction checks arbitrary: s)
  case (Cons check checks)
  obtain now v where check: "check = (now, v)" by (cases check)
  obtain fired s' where "rule_step cd rule now v s = (fired, s')" by (metis surj_pair)
  then show ?case using Cons.prems Cons.IH[of s'] by (auto simp: check split: if_splits)
qed simp

lemma rule_fires_spaced:
  assumes "sorted (map fst checks)" and "\<forall>t\<in>fst ` set checks. 0 < t" and "\<forall>l. c = Some l \<longrightarrow> 0 < l"
  shows "sorted_wrt (\<lambda>s t. cd \<le> t - s) (rule_fires cd rule checks (p, c))
    \<and> (\<forall>t\<in>set (rule_fires cd rule checks (p, c)). \<forall>l. c = Some l \<longrightarrow> cd \<le> t - l)"
  using assms
proof (induction checks arbitrary: p c)
  case (Cons check checks)
  obtain now v where check: "check = (now, v)" by (cases check)
  obtain fired p' c' where step: "rule_step cd rule now v (p, c) = (fired, p', c')" by (metis surj_pair)
  note r = rule_step_cases[OF step]
  have sorted: "sorted (map fst checks)" and later: "\<forall>t\<in>fst ` set checks. now \<le> t"
    and pos: "\<forall>t\<in>fst ` set checks. 0 < t" and now: "0 < now"
    using Cons.prems(1,2) by (auto simp: check)
  show ?case
  proof (cases fired)
    case True
    then have c': "c' = Some now" and cool: "\<not> in_cooldown cd now c" using r by simp_all
    have IH: "sorted_wrt (\<lambda>s t. cd \<le> t - s) (rule_fires cd rule checks (p', c'))"
      "\<forall>t\<in>set (rule_fires cd rule checks (p', c')). cd \<le> t - now"
      using Cons.IH[OF sorted pos, of c' p'] c' now by auto
    have "cd \<le> now - l" if "c = Some l" for l
      using cool Cons.prems(3) that by (simp add: in_cooldown_def)
    moreover have "cd \<le> t - l" if "c = Some l" "t \<in> set (rule_fires cd rule checks (p', c'))" for l t
    proof -
      have "now \<le> t" using rule_fires_times[OF that(2)] later by blast
      then show ?thesis using calculation[OF that(1)] by simp
    qed
    ultimately show ?thesis using IH True by (simp add: check step)
  next
    case False
    then have "c' = c" using r by simp
    then have "rule_fires cd rule (check # checks) (p, c) = rule_fires cd rule checks (p', c)"
      using False by (simp add: check step)
    then show ?thesis by (simp only:) (rule Cons.IH[OF sorted pos Cons.prems(3)])
  qed
qed simp

text \<open>Debounce: \<open>held rule H t\<close> says the condition was seen at time \<open>t\<close> and not seen clear since.\<close>

definition held :: "alert_rule \<Rightarrow> (int \<times> rat option) list \<Rightarrow> int \<Rightarrow> bool" where
  "held rule H t \<longleftrightarrow> (\<exists>H1 v H2. H = H1 @ (t, v) # H2 \<and> triggered rule v
     \<and> (\<forall>x\<in>set H2. \<not> cleared rule (snd x)))"

lemma held_snoc: "held rule H t \<Longrightarrow> \<not> cleared rule v \<Longrightarrow> held rule (H @ [(now, v)]) t"
  unfolding held_def by (elim exE conjE) (rule exI, rule exI, rule_tac x = "H2 @ [(now, v)]" in exI, simp add: ball_Un)

lemma held_now: "triggered rule v \<Longrightarrow> held rule (H @ [(now, v)]) now"
  unfolding held_def by (intro exI[of _ H] exI[of _ v] exI[of _ "[]"]) simp

definition debounce_met :: "alert_rule \<Rightarrow> (int \<times> rat option) list \<Rightarrow> int \<Rightarrow> bool" where
  "debounce_met rule H t \<longleftrightarrow> (\<forall>secs. debounced rule = Some secs \<longrightarrow>
     (\<exists>t0. held rule H t0 \<and> secs * 1000 \<le> of_int (t - t0)))"

lemma rule_fires_debounced:
  assumes "\<forall>t0 f. p = Some (t0, f) \<longrightarrow> held rule H t0" and "t \<in> set (rule_fires cd rule checks (p, c))"
  shows "\<exists>pre v post. checks = pre @ (t, v) # post \<and> triggered rule v \<and> debounce_met rule (H @ pre) t"
  using assms
proof (induction checks arbitrary: p c H)
  case (Cons check checks)
  obtain now v where check: "check = (now, v)" by (cases check)
  obtain fired p' c' where step: "rule_step cd rule now v (p, c) = (fired, p', c')" by (metis surj_pair)
  note r = rule_step_cases[OF step]
  have pend: "held rule (H @ [(now, v)]) t0" if "p' = Some (t0, f)" for t0 f
  proof (cases "p = p'")
    case True
    then have "held rule H t0" using Cons.prems(1) that by blast
    moreover have "\<not> cleared rule v" using r that True by (cases fired) (auto simp: cleared_def)
    ultimately show ?thesis by (rule held_snoc)
  next
    case False
    then have c: "\<not> cleared rule v" "v \<noteq> None" "p' = snd (rule_ready rule now p)"
      using r that by (cases fired; auto)+
    show ?thesis
    proof (cases p)
      case None
      then have "t0 = now" using c(3) that False by (auto simp: rule_ready_def split: option.splits)
      moreover have "triggered rule v" using c by (auto simp: cleared_def)
      ultimately show ?thesis using held_now by simp
    next
      case (Some q)
      then obtain t1 f1 where q: "p = Some (t1, f1)" by (cases q) simp
      then have "t0 = t1" using c(3) that by (auto simp: rule_ready_def split: option.splits if_splits)
      then show ?thesis using held_snoc[OF _ c(1)] Cons.prems(1) q by blast
    qed
  qed
  show ?case
  proof (cases "fired \<and> t = now")
    case True
    then have f: "\<not> cleared rule v" "v \<noteq> None" "rule_ready rule now p = (True, p')" using r by simp_all
    have "\<exists>t0. held rule H t0 \<and> secs * 1000 \<le> of_int (t - t0)" if "debounced rule = Some secs" for secs
    proof -
      from f(3) that obtain t0 where "p = Some (t0, False)" "\<not> of_int (now - t0) < secs * 1000"
        by (auto simp: rule_ready_def split: option.splits if_splits)
      then show ?thesis using Cons.prems(1) True by (intro exI[of _ t0]) auto
    qed
    then have "debounce_met rule (H @ []) t" by (simp add: debounce_met_def)
    moreover have "triggered rule v" using f by (auto simp: cleared_def)
    ultimately show ?thesis using True by (intro exI[of _ "[]"] exI[of _ v] exI[of _ checks]) (simp add: check)
  next
    case False
    then have "t \<in> set (rule_fires cd rule checks (p', c'))"
      using Cons.prems(2) by (auto simp: check step split: if_splits)
    from Cons.IH[OF _ this, of "H @ [(now, v)]"] pend obtain pre u post where
      "checks = pre @ (t, u) # post" "triggered rule u" "debounce_met rule ((H @ [(now, v)]) @ pre) t" by blast
    then show ?thesis by (intro exI[of _ "(now, v) # pre"] exI[of _ u] exI[of _ post]) (simp add: check)
  qed
qed simp

text \<open>An entry marked as fired keeps the rule silent until the condition is seen clear.\<close>

lemma rule_fires_silent:
  assumes "debounced rule \<noteq> None" and "\<forall>x\<in>set checks. \<not> cleared rule (snd x)"
  shows "rule_fires cd rule checks (Some (t, True), c) = []"
  using assms(2)
proof (induction checks)
  case (Cons check checks)
  obtain now v where check: "check = (now, v)" by (cases check)
  have "rule_step cd rule now v (Some (t, True), c) = (False, Some (t, True), c)"
    using assms(1) Cons.prems by (auto simp: check rule_step_def rule_ready_def split: option.splits)
  then show ?case using Cons by (simp add: check)
qed simp

lemma alert_lost_in_cooldown:
  assumes "debounced rule = Some secs" and "secs * 1000 \<le> of_int (now - t)" and "in_cooldown cd now c"
    and "triggered rule v" and "\<forall>x\<in>set checks. \<not> cleared rule (snd x)"
  shows "rule_fires cd rule ((now, v) # checks) (Some (t, False), c) = []"
proof -
  have "v \<noteq> None" using assms(4) by (cases v) (simp_all add: triggered_def)
  moreover have "\<not> cleared rule v" using assms(4) by (simp add: cleared_def)
  moreover have "rule_ready rule now (Some (t, False)) = (True, Some (t, True))"
    using assms(1,2) by (simp add: rule_ready_def)
  ultimately have "rule_step cd rule now v (Some (t, False), c) = (False, Some (t, True), c)"
    using assms(3) by (simp add: rule_step_def)
  then show ?thesis using rule_fires_silent[OF _ assms(5), of cd t c] assms(1) by simp
qed

section \<open>The property\<close>

text \<open>Alerts are debounced and spaced. A rule that starts with a clean record, watched by any number of
  timed checks together with any other rules, fires at the times its own machine does; two firings are at
  least the cooldown apart; and each firing is at a check where the metric meets the condition, which has
  been met for the debounce period: it was seen met that long before, and never seen clear in between. But
  when the debounce ends inside the cooldown the alert is lost: until the condition is seen clear the rule
  stays silent, even after the cooldown.\<close>

theorem alerts_debounced_and_spaced:
  assumes "jm_wf (al_rules st)" and "(n, rule) \<in> set (al_rules st)"
    and "jm_get (al_pending st) n = None" and "jm_get (al_cooldowns st) n = None"
    and "sorted (map fst checks)" and "\<forall>t\<in>fst ` set checks. 0 < t"
  shows "sorted_wrt (\<lambda>s t. al_cooldown st \<le> t - s) (fires_of n (fst (al_run num checks st)))
    \<and> (\<forall>t\<in>set (fires_of n (fst (al_run num checks st))). \<exists>pre v post.
         map (\<lambda>(now, ms). (now, value_of rule ms)) checks = pre @ (t, v) # post
       \<and> triggered rule v \<and> debounce_met rule pre t)
    \<and> (\<forall>secs t0 now c v later. debounced rule = Some secs \<and> secs * 1000 \<le> of_int (now - t0)
         \<and> in_cooldown (al_cooldown st) now c \<and> triggered rule v \<and> (\<forall>x\<in>set later. \<not> cleared rule (snd x)) \<longrightarrow>
         rule_fires (al_cooldown st) rule ((now, v) # later) (Some (t0, False), c) = [])"
proof -
  let ?cs = "map (\<lambda>(now, ms). (now, value_of rule ms)) checks"
  have view: "al_view n st = (None, None)" using assms(3,4) by (simp add: al_view_def)
  have fires: "fires_of n (fst (al_run num checks st)) = rule_fires (al_cooldown st) rule ?cs (None, None)"
    using al_run_refines[OF assms(1,2)] by (simp add: view)
  have times: "map fst ?cs = map fst checks" by (simp add: case_prod_unfold comp_def)
  then have "fst ` set ?cs = fst ` set checks" by (metis set_map)
  then have "sorted_wrt (\<lambda>s t. al_cooldown st \<le> t - s) (rule_fires (al_cooldown st) rule ?cs (None, None))"
    using rule_fires_spaced[of ?cs None "al_cooldown st" rule None, THEN conjunct1] assms(5,6) times by (simp only:) simp
  moreover have "\<exists>pre v post. ?cs = pre @ (t, v) # post \<and> triggered rule v \<and> debounce_met rule pre t"
    if "t \<in> set (rule_fires (al_cooldown st) rule ?cs (None, None))" for t
    using rule_fires_debounced[OF _ that, of "[]"] by simp
  ultimately show ?thesis unfolding fires using alert_lost_in_cooldown by blast
qed

definition wit_rule :: alert_rule where
  "wit_rule = \<lparr>ar_name = ''cpu'', ar_metric = ''load'', ar_condition = GT, ar_threshold = 3,
     ar_severity = Critical, ar_for = Some 10, ar_channels = None\<rparr>"

definition wit_alerts :: alert_service where
  "wit_alerts = al_addRule wit_rule (al_new None)"

definition wit_checks :: "(int \<times> metric_json list option) list" where
  "wit_checks = [(1000, Some [(''load'', Some [Some 4])]), (12000, Some [(''load'', Some [Some 5])])]"

theorem alerts_debounced_and_spaced_witness:
  "fires_of ''cpu'' (fst (al_run (\<lambda>v. ''n'') wit_checks wit_alerts)) = [12000]
   \<and> (\<exists>pre v post. map (\<lambda>(now, ms). (now, value_of wit_rule ms)) wit_checks = pre @ (12000, v) # post
        \<and> triggered wit_rule v \<and> debounce_met wit_rule pre 12000)"
proof -
  have rules: "al_rules wit_alerts = [(''cpu'', wit_rule)]" "al_pending wit_alerts = []"
    "al_cooldowns wit_alerts = []" "al_cooldown wit_alerts = 300000"
    by (simp_all add: wit_alerts_def al_addRule_def al_new_def wit_rule_def DEFAULT_COOLDOWN_def)
  have pre: "jm_wf (al_rules wit_alerts)" "(''cpu'', wit_rule) \<in> set (al_rules wit_alerts)"
    "jm_get (al_pending wit_alerts) ''cpu'' = None" "jm_get (al_cooldowns wit_alerts) ''cpu'' = None"
    "sorted (map fst wit_checks)" "\<forall>t\<in>fst ` set wit_checks. 0 < t"
    by (simp_all add: rules jm_wf_def wit_checks_def)
  have "fires_of ''cpu'' (fst (al_run (\<lambda>v. ''n'') wit_checks wit_alerts)) = [12000]"
    unfolding al_run_refines[OF pre(1,2)]
    by (simp add: rules al_view_def wit_checks_def value_of_def metricValues_def rule_step_def cleared_def
        triggered_def wit_rule_def evaluateCondition_def rule_ready_def debounced_def in_cooldown_def)
  then show ?thesis
    using alerts_debounced_and_spaced[OF pre, of "\<lambda>v. ''n''", THEN conjunct2, THEN conjunct1] by simp
qed

end
