(* ===== verification/Layers.thy ===== *)
theory Layers
  imports Boot_Prelude
begin

text \<open>
  \<open>src/src/layers/\<close>: the layer of a module (\<open>layer.decorator.ts\<close>, a number) and the check of the import
  directions of an application (\<open>layer-enforcer.ts\<close>). The modules come from the framework's container, an
  argument: each has a class, unless it is dynamic, and the classes it imports. A class is its name and
  the layer its decorator recorded. The allow rules are compared as pairs: the code joins the two names
  with an arrow, which no class name contains. The text of a violation is not modelled.
\<close>

section \<open>Modules and options\<close>

record module_type =
  mt_name :: string
  mt_layer :: "int option"

record module_wrapper =
  mw_metatype :: "module_type option"
  mw_imports :: "module_type option list"

record layer_options =
  lo_enabled :: bool
  lo_strict :: bool
  lo_allow :: "(string \<times> string) list"

record layer_violation =
  lv_module :: string
  lv_moduleLayer :: int
  lv_importedModule :: string
  lv_importedLayer :: int

record layer_result =
  lr_valid :: bool
  lr_violations :: "layer_violation list"

abbreviation (input) CORE_layer :: int where "CORE_layer \<equiv> 0"
abbreviation (input) DOMAIN_layer :: int where "DOMAIN_layer \<equiv> 2"

definition layerName :: "int \<Rightarrow> string option" where
  "layerName layer = (if layer = 0 then Some ''CORE'' else if layer = 1 then Some ''INFRASTRUCTURE''
     else if layer = 2 then Some ''DOMAIN'' else if layer = 3 then Some ''APPLICATION'' else None)"

definition CORE_MODULE_NAMES :: "string list" where
  "CORE_MODULE_NAMES = [''BootConfigModule'', ''DatabaseModule'', ''CacheModule'', ''HealthModule'',
     ''AuthModule'', ''CorrelationModule'', ''ShutdownModule'', ''TransportModule'', ''InterServiceAuthModule'',
     ''RpcModule'', ''MetricsModule'', ''LoggingModule'', ''TracingModule'', ''QueueModule'',
     ''EventBusModule'', ''BootWrappedModule'']"

definition getLayerForModule :: "module_type \<Rightarrow> int" where
  "getLayerForModule m = (if mt_name m \<in> set CORE_MODULE_NAMES then CORE_layer
     else or_else (mt_layer m) DOMAIN_layer)"

section \<open>The check\<close>

definition check_import :: "(string \<times> string) list \<Rightarrow> module_type \<Rightarrow> module_type option \<Rightarrow> layer_violation list" where
  "check_import allow m imported = (case imported of
     None \<Rightarrow> []
   | Some i \<Rightarrow>
       if getLayerForModule m < getLayerForModule i \<and> (mt_name m, mt_name i) \<notin> set allow
       then [\<lparr>lv_module = mt_name m, lv_moduleLayer = getLayerForModule m,
              lv_importedModule = mt_name i, lv_importedLayer = getLayerForModule i\<rparr>]
       else [])"

definition check_module :: "(string \<times> string) list \<Rightarrow> module_wrapper \<Rightarrow> layer_violation list" where
  "check_module allow w = (case mw_metatype w of
     None \<Rightarrow> [] | Some m \<Rightarrow> concat (map (check_import allow m) (mw_imports w)))"

text \<open>The container may be absent, and so may its module table; in strict mode violations are thrown.\<close>

definition validateLayers ::
  "module_wrapper list option option \<Rightarrow> layer_options option \<Rightarrow> layer_violation list + layer_result" where
  "validateLayers container options = (case container of
     None \<Rightarrow> Inr \<lparr>lr_valid = True, lr_violations = []\<rparr>
   | Some modules \<Rightarrow>
       (let allow = (case options of None \<Rightarrow> [] | Some opts \<Rightarrow> lo_allow opts);
            violations = concat (map (check_module allow) (or_else modules []))
        in if violations \<noteq> [] \<and> (case options of None \<Rightarrow> False | Some opts \<Rightarrow> lo_strict opts)
           then Inl violations
           else Inr \<lparr>lr_valid = (violations = []), lr_violations = violations\<rparr>))"

section \<open>Import paths\<close>

inductive module_imports :: "module_wrapper list \<Rightarrow> module_type \<Rightarrow> module_type \<Rightarrow> bool" for modules where
  "w \<in> set modules \<Longrightarrow> mw_metatype w = Some m \<Longrightarrow> Some i \<in> set (mw_imports w) \<Longrightarrow> module_imports modules m i"

inductive_cases module_imports_elim: "module_imports modules m i"

lemma check_import_empty:
  "check_import allow m (Some i) = [] \<longleftrightarrow>
     getLayerForModule i \<le> getLayerForModule m \<or> (mt_name m, mt_name i) \<in> set allow"
  by (auto simp: check_import_def)

lemma check_import_None [simp]: "check_import allow m None = []"
  by (simp add: check_import_def)

lemma check_module_empty:
  "check_module allow w = [] \<longleftrightarrow> (\<forall>m i. mw_metatype w = Some m \<and> Some i \<in> set (mw_imports w) \<longrightarrow>
     getLayerForModule i \<le> getLayerForModule m \<or> (mt_name m, mt_name i) \<in> set allow)"
proof (cases "mw_metatype w")
  case (Some m)
  have "check_module allow w = [] \<longleftrightarrow> (\<forall>x\<in>set (mw_imports w). check_import allow m x = [])"
    by (simp add: check_module_def Some)
  also have "\<dots> \<longleftrightarrow> (\<forall>i. Some i \<in> set (mw_imports w) \<longrightarrow> check_import allow m (Some i) = [])"
    by (metis check_import_None option.exhaust)
  finally show ?thesis by (simp add: Some check_import_empty)
qed (simp add: check_module_def)

lemma violations_empty:
  "concat (map (check_module allow) modules) = [] \<longleftrightarrow> (\<forall>m i. module_imports modules m i \<longrightarrow>
     getLayerForModule i \<le> getLayerForModule m \<or> (mt_name m, mt_name i) \<in> set allow)"
  by (auto simp: check_module_empty intro: module_imports.intros elim!: module_imports_elim)

lemma path_descends:
  assumes "\<forall>m i. module_imports modules m i \<longrightarrow> getLayerForModule i \<le> getLayerForModule m"
    and "(module_imports modules)\<^sup>*\<^sup>* a b"
  shows "getLayerForModule b \<le> getLayerForModule a"
  using assms(2)
proof induction
  case (step b c)
  then show ?case using assms(1) order_trans by blast
qed simp

lemma violation_iff:
  "v \<in> set (concat (map (check_module allow) modules)) \<longleftrightarrow> (\<exists>m i. module_imports modules m i
     \<and> getLayerForModule m < getLayerForModule i \<and> (mt_name m, mt_name i) \<notin> set allow
     \<and> v = \<lparr>lv_module = mt_name m, lv_moduleLayer = getLayerForModule m,
          lv_importedModule = mt_name i, lv_importedLayer = getLayerForModule i\<rparr>)"
proof
  assume "v \<in> set (concat (map (check_module allow) modules))"
  then obtain w m x where w: "w \<in> set modules" "mw_metatype w = Some m" "x \<in> set (mw_imports w)"
    "v \<in> set (check_import allow m x)"
  proof -
    from \<open>v \<in> _\<close> obtain w where w: "w \<in> set modules" "v \<in> set (check_module allow w)" by auto
    then obtain m where "mw_metatype w = Some m" by (cases "mw_metatype w") (simp_all add: check_module_def)
    with w show thesis by (auto simp: check_module_def intro: that)
  qed
  then obtain i where "x = Some i" by (cases x) simp_all
  with w show "\<exists>m i. module_imports modules m i \<and> getLayerForModule m < getLayerForModule i
      \<and> (mt_name m, mt_name i) \<notin> set allow
      \<and> v = \<lparr>lv_module = mt_name m, lv_moduleLayer = getLayerForModule m,
          lv_importedModule = mt_name i, lv_importedLayer = getLayerForModule i\<rparr>"
    by (intro exI[of _ m] exI[of _ i]) (auto simp: check_import_def intro: module_imports.intros split: if_splits)
next
  assume "\<exists>m i. module_imports modules m i \<and> getLayerForModule m < getLayerForModule i
      \<and> (mt_name m, mt_name i) \<notin> set allow
      \<and> v = \<lparr>lv_module = mt_name m, lv_moduleLayer = getLayerForModule m,
          lv_importedModule = mt_name i, lv_importedLayer = getLayerForModule i\<rparr>"
  then obtain m i where i: "module_imports modules m i" "v \<in> set (check_import allow m (Some i))"
    by (auto simp: check_import_def)
  from i(1) obtain w where "w \<in> set modules" "mw_metatype w = Some m" "Some i \<in> set (mw_imports w)"
    by (rule module_imports_elim)
  with i(2) show "v \<in> set (concat (map (check_module allow) modules))"
    by (auto simp: check_module_def intro!: bexI[of _ w])
qed

text \<open>Layer validation decides the import direction. The violations reported are exactly the imports of
  a module of a higher layer that no rule allows; strict mode throws exactly when there is one. Without
  allow rules the answer is valid exactly when the layer never rises along any path of imports, however
  long: a valid application has no way from a core module to a module above the core layer.\<close>

theorem layer_validation_decides_direction:
  "(\<forall>v. v \<in> set (concat (map (check_module allow) modules)) \<longleftrightarrow> (\<exists>m i. module_imports modules m i
      \<and> getLayerForModule m < getLayerForModule i \<and> (mt_name m, mt_name i) \<notin> set allow
      \<and> v = \<lparr>lv_module = mt_name m, lv_moduleLayer = getLayerForModule m,
           lv_importedModule = mt_name i, lv_importedLayer = getLayerForModule i\<rparr>))
   \<and> (\<exists>vs. validateLayers (Some (Some modules)) (Some \<lparr>lo_enabled = e, lo_strict = True, lo_allow = allow\<rparr>) = Inl vs)
     = (\<exists>m i. module_imports modules m i \<and> getLayerForModule m < getLayerForModule i \<and> (mt_name m, mt_name i) \<notin> set allow)
   \<and> (\<exists>vs. validateLayers (Some (Some modules)) None = Inr \<lparr>lr_valid = True, lr_violations = vs\<rparr>)
     = (\<forall>a b. (module_imports modules)\<^sup>*\<^sup>* a b \<longrightarrow> getLayerForModule b \<le> getLayerForModule a)"
proof (intro conjI allI)
  fix v
  show "v \<in> set (concat (map (check_module allow) modules)) \<longleftrightarrow> (\<exists>m i. module_imports modules m i
      \<and> getLayerForModule m < getLayerForModule i \<and> (mt_name m, mt_name i) \<notin> set allow
      \<and> v = \<lparr>lv_module = mt_name m, lv_moduleLayer = getLayerForModule m,
           lv_importedModule = mt_name i, lv_importedLayer = getLayerForModule i\<rparr>)"
    by (rule violation_iff)
next
  have "(\<exists>vs. validateLayers (Some (Some modules)) (Some \<lparr>lo_enabled = e, lo_strict = True, lo_allow = allow\<rparr>) = Inl vs)
      \<longleftrightarrow> concat (map (check_module allow) modules) \<noteq> []"
    by (simp only: validateLayers_def Let_def option.case or_else_simps layer_options.simps) simp
  then show "(\<exists>vs. validateLayers (Some (Some modules)) (Some \<lparr>lo_enabled = e, lo_strict = True, lo_allow = allow\<rparr>) = Inl vs)
      = (\<exists>m i. module_imports modules m i \<and> getLayerForModule m < getLayerForModule i \<and> (mt_name m, mt_name i) \<notin> set allow)"
    unfolding violations_empty by (simp add: not_le)
next
  have "(\<exists>vs. validateLayers (Some (Some modules)) None = Inr \<lparr>lr_valid = True, lr_violations = vs\<rparr>)
      \<longleftrightarrow> concat (map (check_module []) modules) = []"
    by (simp only: validateLayers_def Let_def option.case or_else_simps) auto
  also have "\<dots> \<longleftrightarrow> (\<forall>m i. module_imports modules m i \<longrightarrow> getLayerForModule i \<le> getLayerForModule m)"
    unfolding violations_empty by simp
  also have "\<dots> \<longleftrightarrow> (\<forall>a b. (module_imports modules)\<^sup>*\<^sup>* a b \<longrightarrow> getLayerForModule b \<le> getLayerForModule a)"
    using path_descends by blast
  finally show "(\<exists>vs. validateLayers (Some (Some modules)) None = Inr \<lparr>lr_valid = True, lr_violations = vs\<rparr>)
      = (\<forall>a b. (module_imports modules)\<^sup>*\<^sup>* a b \<longrightarrow> getLayerForModule b \<le> getLayerForModule a)" .
qed

text \<open>An order module imports the cache, whatever layer the cache's decorator claims.\<close>

definition wit_order :: module_type where
  "wit_order = \<lparr>mt_name = ''OrderModule'', mt_layer = None\<rparr>"

definition wit_cache :: module_type where
  "wit_cache = \<lparr>mt_name = ''CacheModule'', mt_layer = Some 3\<rparr>"

definition wit_modules :: "module_wrapper list" where
  "wit_modules = [\<lparr>mw_metatype = Some wit_order, mw_imports = [Some wit_cache]\<rparr>]"

theorem layer_validation_decides_direction_witness:
  "module_imports wit_modules wit_order wit_cache \<and> getLayerForModule wit_cache \<le> getLayerForModule wit_order"
proof -
  have path: "module_imports wit_modules wit_order wit_cache"
    by (rule module_imports.intros[of "hd wit_modules"]) (simp_all add: wit_modules_def)
  have "\<exists>vs. validateLayers (Some (Some wit_modules)) None = Inr \<lparr>lr_valid = True, lr_violations = vs\<rparr>"
    by (simp add: validateLayers_def wit_modules_def check_module_def check_import_def getLayerForModule_def
        wit_order_def wit_cache_def CORE_MODULE_NAMES_def)
  from layer_validation_decides_direction[of "[]" wit_modules True, THEN conjunct2, THEN conjunct2, THEN iffD1, OF this]
  show ?thesis using path by (blast intro: r_into_rtranclp)
qed

end
