(* ===== verification/Tenancy.thy ===== *)
theory Tenancy
  imports Boot_Prelude
begin

text \<open>
  \<open>src/src/tenancy/\<close>: how the tenant of a request is found (\<open>tenant.middleware.ts\<close>), the context it runs
  in (\<open>tenant-context.ts\<close>), the guard (\<open>tenant.guard.ts\<close>), the repository that scopes every query to
  the tenant (\<open>tenant-aware.repository.ts\<close>) and the isolation strategies (\<open>strategies/\<close>). The current
  tenant, which the runtime's async storage holds, is an argument. The Mongoose model is a parameter over
  a collection \<open>'s\<close>; a filter is a map from fields to conditions, of which the code itself only builds
  equalities with a text, \<open>Is t\<close>; the caller's other conditions have type \<open>'c\<close>.
\<close>

section \<open>Finding the tenant\<close>

datatype tenant_strategy = ByHeader | BySubdomain | ByPath

record tenant_request =
  tr_headers :: "(string, string) jsmap"
  tr_hostname :: "string option"
  tr_path :: string

record tenancy_options =
  to_strategy :: tenant_strategy
  to_headerName :: "string option"
  to_resolver :: "(tenant_request \<Rightarrow> string option) option"

definition js_lower :: "string \<Rightarrow> string" where
  "js_lower = map (\<lambda>c. let n = of_char c :: nat in if 65 \<le> n \<and> n \<le> 90 then char_of (n + 32) else c)"

definition nonempty :: "string option \<Rightarrow> string option" where
  "nonempty x = (case x of None \<Rightarrow> None | Some t \<Rightarrow> if t = [] then None else Some t)"

definition tm_extract :: "tenancy_options \<Rightarrow> tenant_request \<Rightarrow> string option" where
  "tm_extract options req = (case to_resolver options of
     Some resolver \<Rightarrow> resolver req
   | None \<Rightarrow> (case to_strategy options of
       ByHeader \<Rightarrow> nonempty (jm_get (tr_headers req) (js_lower (or_else (to_headerName options) ''X-Tenant-ID'')))
     | BySubdomain \<Rightarrow> (let parts = js_split CHR ''.'' (or_else (tr_hostname req) []) in
         if 3 \<le> length parts then Some (hd parts) else None)
     | ByPath \<Rightarrow> (case filter (\<lambda>p. p \<noteq> []) (js_split CHR ''/'' (tr_path req)) of
         [] \<Rightarrow> None | p # _ \<Rightarrow> Some p)))"

text \<open>\<open>use\<close>: the tenant the rest of the pipeline runs under, or the exception.\<close>

definition tm_use :: "tenancy_options \<Rightarrow> tenant_request \<Rightarrow> string + string" where
  "tm_use options req = (case nonempty (tm_extract options req) of
     None \<Rightarrow> Inl ''Missing or invalid tenant identifier'' | Some t \<Rightarrow> Inr t)"

definition tg_canActivate :: "bool \<Rightarrow> string option \<Rightarrow> string + bool" where
  "tg_canActivate required tenant =
     (if \<not> required then Inr True
      else case nonempty tenant of
        None \<Rightarrow> Inl ''This route requires a valid tenant context (X-Tenant-ID header missing or invalid)''
      | Some t \<Rightarrow> Inr True)"

definition tc_getTenantId :: "string option \<Rightarrow> string + string" where
  "tc_getTenantId tenant = (case nonempty tenant of
     None \<Rightarrow> Inl (''[nestjs-boot] No tenant context active. Ensure TenantMiddleware is applied ''
       @ ''and the route is within the tenanted path.'')
   | Some t \<Rightarrow> Inr t)"

section \<open>The repository\<close>

datatype 'c condition = Is string | Other 'c

type_synonym 'c tenant_filter = "(string, 'c condition) jsmap"
type_synonym 'v document = "(string, 'v) jsmap"

text \<open>The Mongoose model: queries, inserts, updates and deletes; a count is that of \<open>find\<close>.\<close>

record ('c, 'v, 'u, 's) mongoose_model =
  mm_name :: string
  mm_find :: "'c tenant_filter \<Rightarrow> 's \<Rightarrow> 'v document list"
  mm_findOne :: "'c tenant_filter \<Rightarrow> 's \<Rightarrow> 'v document option"
  mm_create :: "'v document \<Rightarrow> 's \<Rightarrow> 'v document \<times> 's"
  mm_updateMany :: "'c tenant_filter \<Rightarrow> 'u \<Rightarrow> 's \<Rightarrow> nat \<times> 's"
  mm_findOneAndUpdate :: "'c tenant_filter \<Rightarrow> 'u \<Rightarrow> 's \<Rightarrow> 'v document option \<times> 's"
  mm_deleteMany :: "'c tenant_filter \<Rightarrow> 's \<Rightarrow> nat \<times> 's"
  mm_deleteOne :: "'c tenant_filter \<Rightarrow> 's \<Rightarrow> nat \<times> 's"
  mm_countDocuments :: "'c tenant_filter \<Rightarrow> 's \<Rightarrow> nat"

definition no_tenant_error :: "string \<Rightarrow> string \<Rightarrow> string" where
  "no_tenant_error what name = ''[TenantAwareRepository] No tenant context active '' @ what @ name"

definition tenantFilter :: "bool \<Rightarrow> string \<Rightarrow> string option \<Rightarrow> string + 'c tenant_filter" where
  "tenantFilter requireTenant name tenant = (case nonempty tenant of
     None \<Rightarrow> if requireTenant then Inl (no_tenant_error ''cannot perform query on '' name) else Inr []
   | Some t \<Rightarrow> Inr [(''tenantId'', Is t)])"

text \<open>\<open>{ ...this.tenantFilter(), ...filter }\<close>: the caller's fields come last.\<close>

definition withTenant :: "bool \<Rightarrow> string \<Rightarrow> string option \<Rightarrow> 'c tenant_filter \<Rightarrow> string + 'c tenant_filter" where
  "withTenant requireTenant name tenant f =
     map_sum id (\<lambda>tf. foldl (\<lambda>m (k, c). jm_set m k c) tf f) (tenantFilter requireTenant name tenant)"

definition ta_findAll where
  "ta_findAll m rq tenant f s = map_sum id (\<lambda>f. mm_find m f s) (withTenant rq (mm_name m) tenant f)"

definition ta_findOne where
  "ta_findOne m rq tenant f s = map_sum id (\<lambda>f. mm_findOne m f s) (withTenant rq (mm_name m) tenant f)"

text \<open>Here the tenant comes last.\<close>

definition ta_findById where
  "ta_findById m rq tenant i s = map_sum id (\<lambda>tf.
     mm_findOne m (foldl (\<lambda>m (k, c). jm_set m k c) [(''_id'', Is i)] tf) s) (tenantFilter rq (mm_name m) tenant)"

definition ta_create ::
  "('c, 'v, 'u, 's) mongoose_model \<Rightarrow> bool \<Rightarrow> (string \<Rightarrow> 'v) \<Rightarrow> string option \<Rightarrow> 'v document \<Rightarrow> 's
    \<Rightarrow> string + 'v document \<times> 's" where
  "ta_create m rq text tenant data s = (case nonempty tenant of
     Some t \<Rightarrow> Inr (mm_create m (jm_set data ''tenantId'' (text t)) s)
   | None \<Rightarrow> if rq then Inl (no_tenant_error ''cannot create '' (mm_name m)) else Inr (mm_create m data s))"

definition ta_updateMany where
  "ta_updateMany m rq tenant f u s = map_sum id (\<lambda>f. mm_updateMany m f u s) (withTenant rq (mm_name m) tenant f)"

definition ta_updateOne where
  "ta_updateOne m rq tenant f u s =
     map_sum id (\<lambda>f. mm_findOneAndUpdate m f u s) (withTenant rq (mm_name m) tenant f)"

definition ta_deleteMany where
  "ta_deleteMany m rq tenant f s = map_sum id (\<lambda>f. mm_deleteMany m f s) (withTenant rq (mm_name m) tenant f)"

definition ta_deleteOne where
  "ta_deleteOne m rq tenant f s = map_sum id (\<lambda>f. case mm_deleteOne m f s of (n, s') \<Rightarrow> (0 < n, s'))
     (withTenant rq (mm_name m) tenant f)"

definition ta_count where
  "ta_count m rq tenant f s = map_sum id (\<lambda>f. mm_countDocuments m f s) (withTenant rq (mm_name m) tenant f)"

section \<open>The model's laws\<close>

text \<open>
  A document meets a filter when it meets every condition of it; \<open>docs\<close> are the documents of the
  collection. Reads answer documents that meet the filter, writes leave the others untouched.
\<close>

definition meets :: "('c \<Rightarrow> 'v option \<Rightarrow> bool) \<Rightarrow> (string \<Rightarrow> 'v) \<Rightarrow> 'c tenant_filter \<Rightarrow> 'v document \<Rightarrow> bool" where
  "meets holds text f d \<longleftrightarrow> (\<forall>(k, c)\<in>set f. case c of
     Is t \<Rightarrow> jm_get d k = Some (text t) | Other c \<Rightarrow> holds c (jm_get d k))"

definition mongoose_ok ::
  "('c, 'v, 'u, 's) mongoose_model \<Rightarrow> ('c \<Rightarrow> 'v option \<Rightarrow> bool) \<Rightarrow> (string \<Rightarrow> 'v) \<Rightarrow> ('s \<Rightarrow> 'v document list) \<Rightarrow> bool" where
  "mongoose_ok m holds text docs \<longleftrightarrow>
     (\<forall>f s. set (mm_find m f s) = {d \<in> set (docs s). meets holds text f d})
   \<and> (\<forall>f s d. mm_findOne m f s = Some d \<longrightarrow> d \<in> set (docs s) \<and> meets holds text f d)
   \<and> (\<forall>d s. docs (snd (mm_create m d s)) = docs s @ [d])
   \<and> (\<forall>f s. filter (\<lambda>d. \<not> meets holds text f d) (docs s) =
        filter (\<lambda>d. \<not> meets holds text f d) (docs (snd (mm_deleteMany m f s)))
      \<and> set (docs (snd (mm_deleteMany m f s))) \<subseteq> set (docs s))
   \<and> (\<forall>f s. set (filter (\<lambda>d. \<not> meets holds text f d) (docs s)) \<subseteq> set (docs (snd (mm_deleteOne m f s))))
   \<and> (\<forall>f u s. set (filter (\<lambda>d. \<not> meets holds text f d) (docs s)) \<subseteq> set (docs (snd (mm_updateMany m f u s))))
   \<and> (\<forall>f u s. set (filter (\<lambda>d. \<not> meets holds text f d) (docs s)) \<subseteq> set (docs (snd (mm_findOneAndUpdate m f u s))))"

text \<open>The documents of a tenant; those of the others.\<close>

definition of_tenant :: "(string \<Rightarrow> 'v) \<Rightarrow> string \<Rightarrow> 'v document \<Rightarrow> bool" where
  "of_tenant text t d \<longleftrightarrow> jm_get d ''tenantId'' = Some (text t)"

lemma foldl_set_keeps:
  "k \<notin> fst ` set f \<Longrightarrow> jm_get (foldl (\<lambda>m (k, c). jm_set m k c) m f) k = jm_get m k"
  by (induction f arbitrary: m) (auto simp: jm_get_set)

lemma withTenant_scoped:
  assumes "t \<noteq> []" and "''tenantId'' \<notin> fst ` set f"
  shows "\<exists>g. withTenant rq name (Some t) f = Inr g \<and> (''tenantId'', Is t) \<in> set g"
proof -
  have "jm_get (foldl (\<lambda>m (k, c). jm_set m k c) [(''tenantId'', Is t)] f) ''tenantId'' = Some (Is t)"
    using foldl_set_keeps[OF assms(2)] by simp
  then have "(''tenantId'', Is t) \<in> set (foldl (\<lambda>m (k, c). jm_set m k c) [(''tenantId'', Is t)] f)"
    by (rule map_of_SomeD)
  then show ?thesis using assms(1) by (simp add: withTenant_def tenantFilter_def nonempty_def)
qed

lemma meets_tenant: "(''tenantId'', Is t) \<in> set g \<Longrightarrow> meets holds text g d \<Longrightarrow> of_tenant text t d"
  unfolding meets_def of_tenant_def by fastforce

section \<open>Collections per tenant\<close>

definition getCollectionName :: "string \<Rightarrow> string \<Rightarrow> string \<Rightarrow> string" where
  "getCollectionName pre base tenant = pre @ ''_'' @ tenant @ ''_'' @ base"

definition getTenantFilter :: "string \<Rightarrow> 'c tenant_filter" where
  "getTenantFilter t = [(''tenantId'', Is t)]"

text \<open>The connections of the database strategy: opened on first use, and closed by \<open>evict\<close>.\<close>

definition di_getConnection ::
  "(string \<Rightarrow> string) \<Rightarrow> (string \<Rightarrow> 'w \<Rightarrow> 'c \<times> 'w) \<Rightarrow> string \<Rightarrow> (string, 'c) jsmap \<times> 'w \<Rightarrow> 'c \<times> (string, 'c) jsmap \<times> 'w" where
  "di_getConnection uri connect tenant st = (case st of (conns, w) \<Rightarrow>
     (case jm_get conns tenant of
        Some c \<Rightarrow> (c, conns, w)
      | None \<Rightarrow> (case connect (uri tenant) w of (c, w') \<Rightarrow> (c, jm_set conns tenant c, w'))))"

definition di_evict :: "('c \<Rightarrow> 'w \<Rightarrow> 'w) \<Rightarrow> string \<Rightarrow> (string, 'c) jsmap \<times> 'w \<Rightarrow> (string, 'c) jsmap \<times> 'w" where
  "di_evict close tenant st = (case st of (conns, w) \<Rightarrow>
     (case jm_get conns tenant of None \<Rightarrow> (conns, w) | Some c \<Rightarrow> (jm_del conns tenant, close c w)))"

lemma append_sep_inj:
  assumes "c \<notin> set a" and "c \<notin> set a'" and "a @ c # b = a' @ c # b'"
  shows "a = a' \<and> b = b'"
  using assms by (induction a arbitrary: a') (case_tac a'; auto)+

lemma collection_names_separate:
  assumes "CHR ''_'' \<notin> set t" and "CHR ''_'' \<notin> set t'"
  shows "getCollectionName pre b t = getCollectionName pre b' t' \<longleftrightarrow> t = t' \<and> b = b'"
  using append_sep_inj[OF assms, of b b'] by (auto simp: getCollectionName_def)

lemma collection_names_collide:
  "getCollectionName ''tenant'' ''orders'' ''a_b'' = getCollectionName ''tenant'' ''b_orders'' ''a''"
  by (simp add: getCollectionName_def)

section \<open>A model over lists\<close>

text \<open>An instance of the laws: texts are the values, and an update replaces a field.\<close>

fun remove_first :: "('a \<Rightarrow> bool) \<Rightarrow> 'a list \<Rightarrow> 'a list" where
  "remove_first P [] = []"
| "remove_first P (x # xs) = (if P x then xs else x # remove_first P xs)"

fun change_first :: "('a \<Rightarrow> bool) \<Rightarrow> ('a \<Rightarrow> 'a) \<Rightarrow> 'a list \<Rightarrow> 'a list" where
  "change_first P g [] = []"
| "change_first P g (x # xs) = (if P x then g x # xs else x # change_first P g xs)"

lemma remove_first_keeps: "x \<in> set xs \<Longrightarrow> \<not> P x \<Longrightarrow> x \<in> set (remove_first P xs)"
  by (induction xs) auto

lemma change_first_keeps: "x \<in> set xs \<Longrightarrow> \<not> P x \<Longrightarrow> x \<in> set (change_first P g xs)"
  by (induction xs) auto

definition list_mongoose :: "(unit, string, string document \<Rightarrow> string document, string document list) mongoose_model" where
  "list_mongoose = (let ok = meets (\<lambda>c v. True) (\<lambda>t. t) in
     \<lparr>mm_name = ''Product'',
      mm_find = (\<lambda>f s. filter (ok f) s),
      mm_findOne = (\<lambda>f s. find (ok f) s),
      mm_create = (\<lambda>d s. (d, s @ [d])),
      mm_updateMany = (\<lambda>f u s. (length (filter (ok f) s), map (\<lambda>d. if ok f d then u d else d) s)),
      mm_findOneAndUpdate = (\<lambda>f u s. (map_option u (find (ok f) s), change_first (ok f) u s)),
      mm_deleteMany = (\<lambda>f s. (length (filter (ok f) s), filter (\<lambda>d. \<not> ok f d) s)),
      mm_deleteOne = (\<lambda>f s. (length s - length (remove_first (ok f) s), remove_first (ok f) s)),
      mm_countDocuments = (\<lambda>f s. length (filter (ok f) s))\<rparr>)"

lemma find_SomeD': "find P xs = Some x \<Longrightarrow> x \<in> set xs \<and> P x"
  by (induction xs) (auto split: if_splits)

lemma list_mongoose_ok: "mongoose_ok list_mongoose (\<lambda>c v. True) (\<lambda>t. t) (\<lambda>s. s)"
  unfolding mongoose_ok_def list_mongoose_def Let_def
  by (auto simp: remove_first_keeps change_first_keeps dest: find_SomeD')

section \<open>Properties\<close>


text \<open>Collection isolation. With tenants whose names hold no underscore, two tenants never share a
  collection, and a tenant's collections are as many as its base names. Names with an underscore do
  collide: the orders of \<open>a_b\<close> are the \<open>b_orders\<close> of \<open>a\<close>.\<close>

theorem tenant_collections_isolated:
  "(\<forall>t t' b b'. CHR ''_'' \<notin> set t \<and> CHR ''_'' \<notin> set t' \<longrightarrow>
      (getCollectionName pre b t = getCollectionName pre b' t' \<longleftrightarrow> t = t' \<and> b = b'))
   \<and> (\<exists>t t' b b'. t \<noteq> t' \<and> getCollectionName ''tenant'' b t = getCollectionName ''tenant'' b' t')"
proof (intro conjI allI impI)
  fix t t' b b' :: string
  assume "CHR ''_'' \<notin> set t \<and> CHR ''_'' \<notin> set t'"
  then show "getCollectionName pre b t = getCollectionName pre b' t' \<longleftrightarrow> t = t' \<and> b = b'"
    by (intro collection_names_separate) simp_all
next
  show "\<exists>t t' b b'. t \<noteq> t' \<and> getCollectionName ''tenant'' b t = getCollectionName ''tenant'' b' t'"
    using collection_names_collide by (intro exI[of _ "''a_b''"] exI[of _ "''a''"] exI) (rule conjI, simp)
qed

definition wit_docs :: "string document list" where
  "wit_docs = [[(''_id'', ''1''), (''tenantId'', ''acme'')], [(''_id'', ''2''), (''tenantId'', ''zeta'')]]"


theorem tenant_collections_isolated_witness:
  "getCollectionName ''tenant'' ''orders'' ''acme'' \<noteq> getCollectionName ''tenant'' ''orders'' ''zeta''"
  using tenant_collections_isolated[of "''tenant''", THEN conjunct1, rule_format, of "''acme''" "''zeta''" "''orders''" "''orders''"]
  by simp

end
