(* ===== verification/Access_Scope.thy ===== *)
theory Access_Scope
  imports Boot_Prelude
begin

text \<open>
  \<open>src/src/scope/\<close>: the access scopes and their levels (\<open>interfaces.ts\<close>), the resolver that reads a
  user's scope and context from a request and turns a scope into a query filter (\<open>scope.resolver.ts\<close>),
  and the guard (\<open>scope.guard.ts\<close>). The two functions an application may configure are optional
  parameters; the scope a request carries is a text, which may be no scope at all.
\<close>

section \<open>Scopes\<close>

datatype access_scope = OWN | TEAM | DEPARTMENT | ORGANIZATION | SYSTEM

fun SCOPE_LEVELS :: "access_scope \<Rightarrow> nat" where
  "SCOPE_LEVELS OWN = 10"
| "SCOPE_LEVELS TEAM = 20"
| "SCOPE_LEVELS DEPARTMENT = 30"
| "SCOPE_LEVELS ORGANIZATION = 40"
| "SCOPE_LEVELS SYSTEM = 50"

lemma SCOPE_LEVELS_inj: "SCOPE_LEVELS a = SCOPE_LEVELS b \<longleftrightarrow> a = b"
  by (cases a; cases b) simp_all

text \<open>The scopes are ordered by their levels.\<close>

instantiation access_scope :: linorder
begin

definition less_eq_access_scope :: "access_scope \<Rightarrow> access_scope \<Rightarrow> bool" where
  "a \<le> b \<longleftrightarrow> SCOPE_LEVELS a \<le> SCOPE_LEVELS b"

definition less_access_scope :: "access_scope \<Rightarrow> access_scope \<Rightarrow> bool" where
  "a < b \<longleftrightarrow> SCOPE_LEVELS a < SCOPE_LEVELS b"

instance
  by standard (auto simp: less_eq_access_scope_def less_access_scope_def SCOPE_LEVELS_inj)

end

definition scope_str :: "access_scope \<Rightarrow> string" where
  "scope_str s = (case s of OWN \<Rightarrow> ''OWN'' | TEAM \<Rightarrow> ''TEAM'' | DEPARTMENT \<Rightarrow> ''DEPARTMENT''
     | ORGANIZATION \<Rightarrow> ''ORGANIZATION'' | SYSTEM \<Rightarrow> ''SYSTEM'')"

definition scope_of_str :: "string \<Rightarrow> access_scope option" where
  "scope_of_str t = find (\<lambda>s. scope_str s = t) [OWN, TEAM, DEPARTMENT, ORGANIZATION, SYSTEM]"

record scope_context =
  sx_userId :: string
  sx_organizationId :: "string option"
  sx_departmentId :: "string option"
  sx_teamId :: "string option"

record scope_user =
  su_sub :: "string option"
  su_id :: "string option"
  su_organizationId :: "string option"
  su_departmentId :: "string option"
  su_teamId :: "string option"
  su_scope :: "string option"

type_synonym scope_request = "scope_user option"

record scope_options =
  so_extractContext :: "(scope_request \<Rightarrow> scope_context) option"
  so_resolveScope :: "(scope_request \<Rightarrow> access_scope) option"
  so_defaultScope :: "access_scope option"

section \<open>The resolver\<close>

definition no_context :: scope_context where
  "no_context = \<lparr>sx_userId = [], sx_organizationId = None, sx_departmentId = None, sx_teamId = None\<rparr>"

definition scope_extractContext :: "scope_options option \<Rightarrow> scope_request \<Rightarrow> scope_context" where
  "scope_extractContext options req = (case Option.bind options so_extractContext of
     Some f \<Rightarrow> f req
   | None \<Rightarrow> (case req of
       None \<Rightarrow> no_context
     | Some u \<Rightarrow> (case (case su_sub u of None \<Rightarrow> su_id u | Some i \<Rightarrow> Some i) of
         None \<Rightarrow> no_context
       | Some i \<Rightarrow> if i = [] then no_context
           else \<lparr>sx_userId = i, sx_organizationId = su_organizationId u,
                  sx_departmentId = su_departmentId u, sx_teamId = su_teamId u\<rparr>)))"

definition scope_resolveScope :: "scope_options option \<Rightarrow> scope_request \<Rightarrow> access_scope" where
  "scope_resolveScope options req = (case Option.bind options so_resolveScope of
     Some f \<Rightarrow> f req
   | None \<Rightarrow> (case Option.bind (Option.bind req su_scope) scope_of_str of
       Some s \<Rightarrow> s | None \<Rightarrow> or_else (Option.bind options so_defaultScope) OWN))"

definition isScopeSufficient :: "access_scope \<Rightarrow> access_scope \<Rightarrow> bool" where
  "isScopeSufficient userScope requiredScope \<longleftrightarrow> SCOPE_LEVELS requiredScope \<le> SCOPE_LEVELS userScope"

definition own_or :: "string \<Rightarrow> string option \<Rightarrow> string \<Rightarrow> (string \<times> string) list" where
  "own_or field value userId = (case value of
     None \<Rightarrow> [(''ownerId'', userId)]
   | Some v \<Rightarrow> if v = [] then [(''ownerId'', userId)] else [(field, v)])"

definition buildScopeFilter :: "access_scope \<Rightarrow> scope_context \<Rightarrow> (string \<times> string) list" where
  "buildScopeFilter s ctx = (case s of
     OWN \<Rightarrow> [(''ownerId'', sx_userId ctx)]
   | TEAM \<Rightarrow> own_or ''teamId'' (sx_teamId ctx) (sx_userId ctx)
   | DEPARTMENT \<Rightarrow> own_or ''departmentId'' (sx_departmentId ctx) (sx_userId ctx)
   | ORGANIZATION \<Rightarrow> own_or ''organizationId'' (sx_organizationId ctx) (sx_userId ctx)
   | SYSTEM \<Rightarrow> [])"

section \<open>The guard\<close>

definition insufficient_message :: "access_scope \<Rightarrow> access_scope \<Rightarrow> string" where
  "insufficient_message requiredScope userScope =
     ''Insufficient scope: requires '' @ scope_str requiredScope @ '', user has '' @ scope_str userScope"

definition scope_canActivate ::
  "scope_options option \<Rightarrow> bool \<Rightarrow> access_scope option \<Rightarrow> scope_request \<Rightarrow> string + bool" where
  "scope_canActivate options isPublic required req =
     (if isPublic then Inr True
      else let requiredScope = or_else required OWN; userScope = scope_resolveScope options req in
        if \<not> isScopeSufficient userScope requiredScope then Inl (insufficient_message requiredScope userScope)
        else Inr True)"

section \<open>What a filter shows\<close>

text \<open>A resource is a map of its fields; \<open>shows\<close> is the meaning of a filter of equalities.\<close>

definition shows_row :: "(string \<times> string) list \<Rightarrow> (string, string) jsmap \<Rightarrow> bool" where
  "shows_row f row \<longleftrightarrow> (\<forall>(k, v)\<in>set f. jm_get row k = Some v)"

text \<open>The resource lies in the organizational tree of the context: what is below is inside what is above.\<close>

definition nested :: "scope_context \<Rightarrow> (string, string) jsmap \<Rightarrow> bool" where
  "nested ctx row \<longleftrightarrow> (\<exists>t d org. sx_teamId ctx = Some t \<and> t \<noteq> [] \<and> sx_departmentId ctx = Some d \<and> d \<noteq> []
     \<and> sx_organizationId ctx = Some org \<and> org \<noteq> []
     \<and> (jm_get row ''ownerId'' = Some (sx_userId ctx) \<longrightarrow> jm_get row ''teamId'' = Some t)
     \<and> (jm_get row ''teamId'' = Some t \<longrightarrow> jm_get row ''departmentId'' = Some d)
     \<and> (jm_get row ''departmentId'' = Some d \<longrightarrow> jm_get row ''organizationId'' = Some org))"

lemma shows_filter:
  assumes "nested ctx row"
  shows "shows_row (buildScopeFilter s ctx) row \<longleftrightarrow> (case s of
      OWN \<Rightarrow> jm_get row ''ownerId'' = Some (sx_userId ctx)
    | TEAM \<Rightarrow> jm_get row ''teamId'' = sx_teamId ctx
    | DEPARTMENT \<Rightarrow> jm_get row ''departmentId'' = sx_departmentId ctx
    | ORGANIZATION \<Rightarrow> jm_get row ''organizationId'' = sx_organizationId ctx
    | SYSTEM \<Rightarrow> True)"
proof -
  obtain t d org where "sx_teamId ctx = Some t" "t \<noteq> []" "sx_departmentId ctx = Some d" "d \<noteq> []"
    "sx_organizationId ctx = Some org" "org \<noteq> []"
    using assms unfolding nested_def by blast
  then show ?thesis by (cases s) (simp_all add: shows_row_def buildScopeFilter_def own_or_def)
qed

lemma shows_mono:
  assumes "nested ctx row" and "s \<le> s'" and "shows_row (buildScopeFilter s ctx) row"
  shows "shows_row (buildScopeFilter s' ctx) row"
proof -
  obtain t d org where c: "sx_teamId ctx = Some t" "sx_departmentId ctx = Some d" "sx_organizationId ctx = Some org"
    "jm_get row ''ownerId'' = Some (sx_userId ctx) \<longrightarrow> jm_get row ''teamId'' = Some t"
    "jm_get row ''teamId'' = Some t \<longrightarrow> jm_get row ''departmentId'' = Some d"
    "jm_get row ''departmentId'' = Some d \<longrightarrow> jm_get row ''organizationId'' = Some org"
    using assms(1) unfolding nested_def by blast
  have low: "case s of OWN \<Rightarrow> jm_get row ''ownerId'' = Some (sx_userId ctx)
    | TEAM \<Rightarrow> jm_get row ''teamId'' = sx_teamId ctx
    | DEPARTMENT \<Rightarrow> jm_get row ''departmentId'' = sx_departmentId ctx
    | ORGANIZATION \<Rightarrow> jm_get row ''organizationId'' = sx_organizationId ctx
    | SYSTEM \<Rightarrow> True"
    using assms(3) shows_filter[OF assms(1)] by simp
  show ?thesis
    unfolding shows_filter[OF assms(1)]
    using low c assms(2) by (cases s; cases s') (simp_all add: less_eq_access_scope_def)
qed

section \<open>Properties\<close>

text \<open>Scope checks and filters agree with one order of scopes. The guard lets a request through exactly
  when the route is public or the user's scope is at least the required one, which defaults to OWN; so
  raising a user's scope never closes a route. For a user with a complete context, a broader scope shows
  every resource of the tree a narrower one shows, and only SYSTEM is unfiltered. But with an incomplete
  context the filter falls back to the user's own resources: a user of DEPARTMENT scope without a
  department no longer sees what TEAM scope shows.\<close>

theorem scope_order_governs_access:
  "(scope_canActivate options pub required req = Inr True \<longleftrightarrow>
      pub \<or> or_else required OWN \<le> scope_resolveScope options req)
   \<and> (\<forall>s s'. nested ctx row \<and> s \<le> s' \<and> shows_row (buildScopeFilter s ctx) row \<longrightarrow>
        shows_row (buildScopeFilter s' ctx) row)
   \<and> (buildScopeFilter s ctx = [] \<longleftrightarrow> s = SYSTEM)
   \<and> (\<exists>ctx row. shows_row (buildScopeFilter TEAM ctx) row \<and> \<not> shows_row (buildScopeFilter DEPARTMENT ctx) row)"
proof (intro conjI allI impI)
  show "scope_canActivate options pub required req = Inr True \<longleftrightarrow>
      pub \<or> or_else required OWN \<le> scope_resolveScope options req"
    by (simp add: scope_canActivate_def Let_def isScopeSufficient_def less_eq_access_scope_def)
  show "buildScopeFilter s ctx = [] \<longleftrightarrow> s = SYSTEM"
    by (cases s) (simp_all add: buildScopeFilter_def own_or_def split: option.splits)
  show "\<exists>ctx row. shows_row (buildScopeFilter TEAM ctx) row \<and> \<not> shows_row (buildScopeFilter DEPARTMENT ctx) row"
    by (intro exI[of _ "\<lparr>sx_userId = ''u'', sx_organizationId = None, sx_departmentId = None, sx_teamId = Some ''t''\<rparr>"]
        exI[of _ "[(''ownerId'', ''v''), (''teamId'', ''t'')]"])
      (simp add: shows_row_def buildScopeFilter_def own_or_def)
qed (blast intro: shows_mono)

theorem scope_order_governs_access_witness:
  "shows_row (buildScopeFilter ORGANIZATION
      \<lparr>sx_userId = ''u'', sx_organizationId = Some ''o'', sx_departmentId = Some ''d'', sx_teamId = Some ''t''\<rparr>)
    [(''ownerId'', ''u''), (''teamId'', ''t''), (''departmentId'', ''d''), (''organizationId'', ''o'')]"
  by (rule scope_order_governs_access[THEN conjunct2, THEN conjunct1, rule_format, of _ _ OWN])
    (simp add: nested_def less_eq_access_scope_def shows_row_def buildScopeFilter_def)

end
