(* ===== verification/Organizations.thy ===== *)
theory Organizations
  imports Boot_Prelude
begin

text \<open>
  \<open>src/src/organizations/\<close>: organizations, departments, teams and memberships in the in-memory store
  (\<open>memory-organization.store.ts\<close>) and the service over it (\<open>organization.service.ts\<close>). An absent
  property of a partial entity is \<open>None\<close>; a search filter is a predicate; metadata has type \<open>'m\<close>; the clock
  is an argument. The service's checks and the store call that follows run as one step.
\<close>

section \<open>Entities\<close>

record 'm organization =
  og_id :: string
  og_name :: string
  og_code :: string
  og_description :: "string option"
  og_isActive :: bool
  og_metadata :: "'m option"
  og_createdAt :: int
  og_updatedAt :: int

record 'm department =
  dp_id :: string
  dp_organizationId :: string
  dp_name :: string
  dp_code :: string
  dp_description :: "string option"
  dp_parentId :: "string option"
  dp_isActive :: bool
  dp_metadata :: "'m option"
  dp_createdAt :: int
  dp_updatedAt :: int

record 'm team =
  tm_id :: string
  tm_departmentId :: string
  tm_organizationId :: string
  tm_name :: string
  tm_code :: string
  tm_description :: "string option"
  tm_isActive :: bool
  tm_metadata :: "'m option"
  tm_createdAt :: int
  tm_updatedAt :: int

record membership =
  mb_userId :: string
  mb_organizationId :: string
  mb_departmentId :: "string option"
  mb_teamId :: "string option"
  mb_role :: "string option"
  mb_joinedAt :: "int option"

text \<open>The properties a caller may give of an organization, department or team.\<close>

record 'm partial =
  pt_id :: "string option"
  pt_organizationId :: "string option"
  pt_departmentId :: "string option"
  pt_parentId :: "string option"
  pt_name :: "string option"
  pt_code :: "string option"
  pt_description :: "string option"
  pt_isActive :: "bool option"
  pt_metadata :: "'m option"

definition over :: "'a option \<Rightarrow> 'a option \<Rightarrow> 'a option" where
  "over new old = (case new of None \<Rightarrow> old | Some x \<Rightarrow> Some x)"

section \<open>The store\<close>

record 'm org_store =
  os_organizations :: "(string, 'm organization) jsmap"
  os_departments :: "(string, 'm department) jsmap"
  os_teams :: "(string, 'm team) jsmap"
  os_memberships :: "membership list"
  os_counter :: nat

definition os_empty :: "'m org_store" where
  "os_empty = \<lparr>os_organizations = [], os_departments = [], os_teams = [], os_memberships = [], os_counter = 0\<rparr>"

text \<open>\<open>data.id ?? this.nextId()\<close>\<close>

definition os_newId :: "string option \<Rightarrow> 'm org_store \<Rightarrow> string \<times> 'm org_store" where
  "os_newId given s = (case given of
     Some i \<Rightarrow> (i, s)
   | None \<Rightarrow> (let c = Suc (os_counter s) in (''org_'' @ js_of_nat c, s\<lparr>os_counter := c\<rparr>)))"

definition os_createOrganization :: "int \<Rightarrow> 'm partial \<Rightarrow> 'm org_store \<Rightarrow> 'm organization \<times> 'm org_store" where
  "os_createOrganization now d s = (case os_newId (pt_id d) s of (i, s) \<Rightarrow>
     let e = \<lparr>og_id = i, og_name = or_else (pt_name d) [], og_code = or_else (pt_code d) [],
       og_description = pt_description d, og_isActive = or_else (pt_isActive d) True, og_metadata = pt_metadata d,
       og_createdAt = now, og_updatedAt = now\<rparr>
     in (e, s\<lparr>os_organizations := jm_set (os_organizations s) i e\<rparr>))"

definition os_findOrganization :: "string \<Rightarrow> 'm org_store \<Rightarrow> 'm organization option" where
  "os_findOrganization i s = jm_get (os_organizations s) i"

definition os_findOrganizations :: "('m organization \<Rightarrow> bool) option \<Rightarrow> 'm org_store \<Rightarrow> 'm organization list" where
  "os_findOrganizations f s = (case f of None \<Rightarrow> jm_values (os_organizations s)
     | Some P \<Rightarrow> filter P (jm_values (os_organizations s)))"

text \<open>\<open>{ ...org, ...data, updatedAt }\<close>, under the key it was found.\<close>

definition os_updateOrganization ::
  "int \<Rightarrow> string \<Rightarrow> 'm partial \<Rightarrow> 'm org_store \<Rightarrow> string + 'm organization \<times> 'm org_store" where
  "os_updateOrganization now i d s = (case jm_get (os_organizations s) i of
     None \<Rightarrow> Inl (''Organization '' @ i @ '' not found'')
   | Some e \<Rightarrow> (let e' = e\<lparr>og_id := or_else (pt_id d) (og_id e), og_name := or_else (pt_name d) (og_name e),
         og_code := or_else (pt_code d) (og_code e), og_description := over (pt_description d) (og_description e),
         og_isActive := or_else (pt_isActive d) (og_isActive e), og_metadata := over (pt_metadata d) (og_metadata e),
         og_updatedAt := now\<rparr>
       in Inr (e', s\<lparr>os_organizations := jm_set (os_organizations s) i e'\<rparr>)))"

definition os_createDepartment :: "int \<Rightarrow> 'm partial \<Rightarrow> 'm org_store \<Rightarrow> 'm department \<times> 'm org_store" where
  "os_createDepartment now d s = (case os_newId (pt_id d) s of (i, s) \<Rightarrow>
     let e = \<lparr>dp_id = i, dp_organizationId = or_else (pt_organizationId d) [], dp_name = or_else (pt_name d) [],
       dp_code = or_else (pt_code d) [], dp_description = pt_description d, dp_parentId = pt_parentId d,
       dp_isActive = or_else (pt_isActive d) True, dp_metadata = pt_metadata d,
       dp_createdAt = now, dp_updatedAt = now\<rparr>
     in (e, s\<lparr>os_departments := jm_set (os_departments s) i e\<rparr>))"

definition os_findDepartment :: "string \<Rightarrow> 'm org_store \<Rightarrow> 'm department option" where
  "os_findDepartment i s = jm_get (os_departments s) i"

definition os_findDepartments :: "('m department \<Rightarrow> bool) option \<Rightarrow> 'm org_store \<Rightarrow> 'm department list" where
  "os_findDepartments f s = (case f of None \<Rightarrow> jm_values (os_departments s)
     | Some P \<Rightarrow> filter P (jm_values (os_departments s)))"

definition os_updateDepartment ::
  "int \<Rightarrow> string \<Rightarrow> 'm partial \<Rightarrow> 'm org_store \<Rightarrow> string + 'm department \<times> 'm org_store" where
  "os_updateDepartment now i d s = (case jm_get (os_departments s) i of
     None \<Rightarrow> Inl (''Department '' @ i @ '' not found'')
   | Some e \<Rightarrow> (let e' = e\<lparr>dp_id := or_else (pt_id d) (dp_id e),
         dp_organizationId := or_else (pt_organizationId d) (dp_organizationId e),
         dp_name := or_else (pt_name d) (dp_name e), dp_code := or_else (pt_code d) (dp_code e),
         dp_description := over (pt_description d) (dp_description e), dp_parentId := over (pt_parentId d) (dp_parentId e),
         dp_isActive := or_else (pt_isActive d) (dp_isActive e), dp_metadata := over (pt_metadata d) (dp_metadata e),
         dp_updatedAt := now\<rparr>
       in Inr (e', s\<lparr>os_departments := jm_set (os_departments s) i e'\<rparr>)))"

definition os_createTeam :: "int \<Rightarrow> 'm partial \<Rightarrow> 'm org_store \<Rightarrow> 'm team \<times> 'm org_store" where
  "os_createTeam now d s = (case os_newId (pt_id d) s of (i, s) \<Rightarrow>
     let e = \<lparr>tm_id = i, tm_departmentId = or_else (pt_departmentId d) [],
       tm_organizationId = or_else (pt_organizationId d) [], tm_name = or_else (pt_name d) [],
       tm_code = or_else (pt_code d) [], tm_description = pt_description d,
       tm_isActive = or_else (pt_isActive d) True, tm_metadata = pt_metadata d,
       tm_createdAt = now, tm_updatedAt = now\<rparr>
     in (e, s\<lparr>os_teams := jm_set (os_teams s) i e\<rparr>))"

definition os_findTeam :: "string \<Rightarrow> 'm org_store \<Rightarrow> 'm team option" where
  "os_findTeam i s = jm_get (os_teams s) i"

definition os_updateTeam :: "int \<Rightarrow> string \<Rightarrow> 'm partial \<Rightarrow> 'm org_store \<Rightarrow> string + 'm team \<times> 'm org_store" where
  "os_updateTeam now i d s = (case jm_get (os_teams s) i of
     None \<Rightarrow> Inl (''Team '' @ i @ '' not found'')
   | Some e \<Rightarrow> (let e' = e\<lparr>tm_id := or_else (pt_id d) (tm_id e),
         tm_departmentId := or_else (pt_departmentId d) (tm_departmentId e),
         tm_organizationId := or_else (pt_organizationId d) (tm_organizationId e),
         tm_name := or_else (pt_name d) (tm_name e), tm_code := or_else (pt_code d) (tm_code e),
         tm_description := over (pt_description d) (tm_description e),
         tm_isActive := or_else (pt_isActive d) (tm_isActive e), tm_metadata := over (pt_metadata d) (tm_metadata e),
         tm_updatedAt := now\<rparr>
       in Inr (e', s\<lparr>os_teams := jm_set (os_teams s) i e'\<rparr>)))"

definition same_member :: "string \<Rightarrow> string \<Rightarrow> membership \<Rightarrow> bool" where
  "same_member userId organizationId m \<longleftrightarrow> mb_userId m = userId \<and> mb_organizationId m = organizationId"

definition os_removeMember :: "string \<Rightarrow> string \<Rightarrow> 'm org_store \<Rightarrow> 'm org_store" where
  "os_removeMember userId organizationId s =
     s\<lparr>os_memberships := filter (\<lambda>m. \<not> same_member userId organizationId m) (os_memberships s)\<rparr>"

definition os_addMember :: "int \<Rightarrow> membership \<Rightarrow> 'm org_store \<Rightarrow> 'm org_store" where
  "os_addMember now m s =
     (let s = s\<lparr>os_memberships :=
            filter (\<lambda>x. \<not> same_member (mb_userId m) (mb_organizationId m) x) (os_memberships s)\<rparr>
      in s\<lparr>os_memberships := os_memberships s @ [m\<lparr>mb_joinedAt := Some (or_else (mb_joinedAt m) now)\<rparr>]\<rparr>)"

definition os_getUserMemberships :: "string \<Rightarrow> 'm org_store \<Rightarrow> membership list" where
  "os_getUserMemberships userId s = filter (\<lambda>m. mb_userId m = userId) (os_memberships s)"

definition os_getOrganizationMembers :: "string \<Rightarrow> 'm org_store \<Rightarrow> membership list" where
  "os_getOrganizationMembers i s = filter (\<lambda>m. mb_organizationId m = i) (os_memberships s)"

definition os_getDepartmentMembers :: "string \<Rightarrow> 'm org_store \<Rightarrow> membership list" where
  "os_getDepartmentMembers i s = filter (\<lambda>m. mb_departmentId m = Some i) (os_memberships s)"

definition os_getTeamMembers :: "string \<Rightarrow> 'm org_store \<Rightarrow> membership list" where
  "os_getTeamMembers i s = filter (\<lambda>m. mb_teamId m = Some i) (os_memberships s)"

section \<open>The service\<close>

definition given :: "string option \<Rightarrow> bool" where
  "given x \<longleftrightarrow> (case x of None \<Rightarrow> False | Some t \<Rightarrow> t \<noteq> [])"

type_synonym 'm org_result = "string + 'm org_store"

definition sv_getOrganization :: "string \<Rightarrow> 'm org_store \<Rightarrow> string + 'm organization" where
  "sv_getOrganization i s = (case os_findOrganization i s of
     None \<Rightarrow> Inl (''Organization '' @ i @ '' not found'') | Some e \<Rightarrow> Inr e)"

definition sv_getDepartment :: "string \<Rightarrow> 'm org_store \<Rightarrow> string + 'm department" where
  "sv_getDepartment i s = (case os_findDepartment i s of
     None \<Rightarrow> Inl (''Department '' @ i @ '' not found'') | Some e \<Rightarrow> Inr e)"

definition sv_getTeam :: "string \<Rightarrow> 'm org_store \<Rightarrow> string + 'm team" where
  "sv_getTeam i s = (case os_findTeam i s of
     None \<Rightarrow> Inl (''Team '' @ i @ '' not found'') | Some e \<Rightarrow> Inr e)"

definition sv_createOrganization :: "int \<Rightarrow> 'm partial \<Rightarrow> 'm org_store \<Rightarrow> string + 'm organization \<times> 'm org_store" where
  "sv_createOrganization now d s =
     (if given (pt_code d) \<and> os_findOrganizations (Some (\<lambda>e. og_code e = the (pt_code d))) s \<noteq> []
      then Inl (''Organization code \"'' @ the (pt_code d) @ ''\" already exists'')
      else Inr (os_createOrganization now d s))"

definition sv_updateOrganization where
  "sv_updateOrganization now i d s = (case sv_getOrganization i s of
     Inl e \<Rightarrow> Inl e | Inr _ \<Rightarrow> os_updateOrganization now i d s)"

definition sv_createDepartment :: "int \<Rightarrow> 'm partial \<Rightarrow> 'm org_store \<Rightarrow> string + 'm department \<times> 'm org_store" where
  "sv_createDepartment now d s =
     (if given (pt_organizationId d) \<and> os_findOrganization (the (pt_organizationId d)) s = None
      then Inl (''Organization '' @ the (pt_organizationId d) @ '' not found'')
      else if given (pt_parentId d) \<and> os_findDepartment (the (pt_parentId d)) s = None
      then Inl (''Parent department '' @ the (pt_parentId d) @ '' not found'')
      else Inr (os_createDepartment now d s))"

definition sv_updateDepartment where
  "sv_updateDepartment now i d s = (case sv_getDepartment i s of
     Inl e \<Rightarrow> Inl e | Inr _ \<Rightarrow> os_updateDepartment now i d s)"

definition sv_createTeam :: "int \<Rightarrow> 'm partial \<Rightarrow> 'm org_store \<Rightarrow> string + 'm team \<times> 'm org_store" where
  "sv_createTeam now d s =
     (if given (pt_departmentId d) \<and> os_findDepartment (the (pt_departmentId d)) s = None
      then Inl (''Department '' @ the (pt_departmentId d) @ '' not found'')
      else Inr (os_createTeam now d s))"

definition sv_updateTeam where
  "sv_updateTeam now i d s = (case sv_getTeam i s of Inl e \<Rightarrow> Inl e | Inr _ \<Rightarrow> os_updateTeam now i d s)"

definition sv_addMember :: "int \<Rightarrow> membership \<Rightarrow> 'm org_store \<Rightarrow> string + 'm org_store" where
  "sv_addMember now m s = (case sv_getOrganization (mb_organizationId m) s of
     Inl e \<Rightarrow> Inl e | Inr _ \<Rightarrow> Inr (os_addMember now m s))"

definition sv_removeMember :: "string \<Rightarrow> string \<Rightarrow> 'm org_store \<Rightarrow> 'm org_store" where
  "sv_removeMember = os_removeMember"

definition sv_isUserInOrganization :: "string \<Rightarrow> string \<Rightarrow> 'm org_store \<Rightarrow> bool" where
  "sv_isUserInOrganization userId i s \<longleftrightarrow> (\<exists>m\<in>set (os_getUserMemberships userId s). mb_organizationId m = i)"

definition sv_isUserInDepartment :: "string \<Rightarrow> string \<Rightarrow> 'm org_store \<Rightarrow> bool" where
  "sv_isUserInDepartment userId i s \<longleftrightarrow> (\<exists>m\<in>set (os_getUserMemberships userId s). mb_departmentId m = Some i)"

definition sv_isUserInTeam :: "string \<Rightarrow> string \<Rightarrow> 'm org_store \<Rightarrow> bool" where
  "sv_isUserInTeam userId i s \<longleftrightarrow> (\<exists>m\<in>set (os_getUserMemberships userId s). mb_teamId m = Some i)"

section \<open>Runs of the service\<close>

datatype 'm org_op = CreateOrg int "'m partial" | UpdateOrg int string "'m partial"
  | CreateDept int "'m partial" | UpdateDept int string "'m partial"
  | CreateTeam int "'m partial" | UpdateTeam int string "'m partial"
  | AddMember int membership | RemoveMember string string

definition kept :: "'m org_store \<Rightarrow> string + 'a \<times> 'm org_store \<Rightarrow> 'm org_store" where
  "kept s r = (case r of Inl _ \<Rightarrow> s | Inr (_, s') \<Rightarrow> s')"

text \<open>The state after an operation; one that throws leaves it as it was.\<close>

fun org_run :: "'m org_op \<Rightarrow> 'm org_store \<Rightarrow> 'm org_store" where
  "org_run (CreateOrg now d) s = kept s (sv_createOrganization now d s)"
| "org_run (UpdateOrg now i d) s = kept s (sv_updateOrganization now i d s)"
| "org_run (CreateDept now d) s = kept s (sv_createDepartment now d s)"
| "org_run (UpdateDept now i d) s = kept s (sv_updateDepartment now i d s)"
| "org_run (CreateTeam now d) s = kept s (sv_createTeam now d s)"
| "org_run (UpdateTeam now i d) s = kept s (sv_updateTeam now i d s)"
| "org_run (AddMember now m) s = (case sv_addMember now m s of Inl _ \<Rightarrow> s | Inr s' \<Rightarrow> s')"
| "org_run (RemoveMember u i) s = sv_removeMember u i s"

definition member_key :: "membership \<Rightarrow> string \<times> string" where
  "member_key m = (mb_userId m, mb_organizationId m)"

definition org_wf :: "'m org_store \<Rightarrow> bool" where
  "org_wf s \<longleftrightarrow> distinct (map member_key (os_memberships s))
     \<and> mb_organizationId ` set (os_memberships s) \<subseteq> dom (jm_get (os_organizations s))"

lemma same_member_key: "same_member u i m \<longleftrightarrow> member_key m = (u, i)"
  by (auto simp: same_member_def member_key_def)

text \<open>Operations on organizations, departments and teams only add organizations and leave the members.\<close>

definition org_grows :: "'m org_store \<Rightarrow> 'm org_store \<Rightarrow> bool" where
  "org_grows s s' \<longleftrightarrow> os_memberships s' = os_memberships s
     \<and> dom (jm_get (os_organizations s)) \<subseteq> dom (jm_get (os_organizations s'))"

lemma org_grows_refl [simp]: "org_grows s s"
  by (simp add: org_grows_def)

lemma org_grows_wf: "org_grows s s' \<Longrightarrow> org_wf s \<Longrightarrow> org_wf s'"
  unfolding org_grows_def org_wf_def by (simp only:) (blast intro: subset_trans)

lemma newId_parts: "os_newId g s = (i, s') \<Longrightarrow> os_organizations s' = os_organizations s
    \<and> os_memberships s' = os_memberships s \<and> os_departments s' = os_departments s \<and> os_teams s' = os_teams s"
  by (cases g) (auto simp: os_newId_def Let_def)

lemma store_grows:
  "org_grows s (snd (os_createOrganization now d s))"
  "org_grows s (snd (os_createDepartment now d s))"
  "org_grows s (snd (os_createTeam now d s))"
proof -
  obtain i s1 where new: "os_newId (pt_id d) s = (i, s1)" by (metis surj_pair)
  note parts = newId_parts[OF new]
  have "dom (jm_get (os_organizations s)) \<subseteq> dom (jm_get (jm_set (os_organizations s) i e))" for e
    by (simp only: jm_dom_set) (rule subset_insertI)
  then show "org_grows s (snd (os_createOrganization now d s))"
    using parts by (simp only: os_createOrganization_def new org_grows_def) (simp add: Let_def)
  show "org_grows s (snd (os_createDepartment now d s))" "org_grows s (snd (os_createTeam now d s))"
    using parts by (simp_all add: os_createDepartment_def os_createTeam_def new org_grows_def Let_def)
qed

lemma update_grows:
  "org_grows s (kept s (os_updateOrganization now i d s))"
  "org_grows s (kept s (os_updateDepartment now i d s))"
  "org_grows s (kept s (os_updateTeam now i d s))"
  by (simp_all add: kept_def os_updateOrganization_def os_updateDepartment_def os_updateTeam_def org_grows_def
      Let_def jm_dom_set subset_insertI split: option.splits)

lemma kept_Inl [simp]: "kept s (Inl e) = s"
  by (simp add: kept_def)

lemma kept_Inr [simp]: "kept s (Inr r) = snd r"
  by (simp add: kept_def case_prod_unfold)

lemma entity_ops_grow:
  "org_grows s (org_run (CreateOrg now d) s)" "org_grows s (org_run (UpdateOrg now i d) s)"
  "org_grows s (org_run (CreateDept now d) s)" "org_grows s (org_run (UpdateDept now i d) s)"
  "org_grows s (org_run (CreateTeam now d) s)" "org_grows s (org_run (UpdateTeam now i d) s)"
proof -
  show "org_grows s (org_run (CreateOrg now d) s)"
    unfolding org_run.simps sv_createOrganization_def
    by (simp only: if_distrib[of "kept s"] kept_Inl kept_Inr org_grows_refl store_grows if_split) simp
  show "org_grows s (org_run (CreateDept now d) s)"
    unfolding org_run.simps sv_createDepartment_def
    by (simp only: if_distrib[of "kept s"] kept_Inl kept_Inr org_grows_refl store_grows if_split) simp
  show "org_grows s (org_run (CreateTeam now d) s)"
    unfolding org_run.simps sv_createTeam_def
    by (simp only: if_distrib[of "kept s"] kept_Inl kept_Inr org_grows_refl store_grows if_split) simp
  show "org_grows s (org_run (UpdateOrg now i d) s)"
    by (cases "sv_getOrganization i s") (simp_all add: sv_updateOrganization_def update_grows)
  show "org_grows s (org_run (UpdateDept now i d) s)"
    by (cases "sv_getDepartment i s") (simp_all add: sv_updateDepartment_def update_grows)
  show "org_grows s (org_run (UpdateTeam now i d) s)"
    by (cases "sv_getTeam i s") (simp_all add: sv_updateTeam_def update_grows)
qed

lemma addMember_keys:
  "map member_key (os_memberships (os_addMember now m s)) =
     filter (\<lambda>k. k \<noteq> member_key m) (map member_key (os_memberships s)) @ [member_key m]"
  by (simp add: os_addMember_def Let_def same_member_key filter_map comp_def member_key_def)

lemma org_wf_keys:
  "org_wf s \<longleftrightarrow> distinct (map member_key (os_memberships s))
     \<and> snd ` set (map member_key (os_memberships s)) \<subseteq> dom (jm_get (os_organizations s))"
  by (simp add: org_wf_def image_image member_key_def)

lemma addMember_wf:
  assumes "org_wf s" and "sv_addMember now m s = Inr s'"
  shows "org_wf s'"
proof -
  have org: "mb_organizationId m \<in> dom (jm_get (os_organizations s))" and s': "s' = os_addMember now m s"
    using assms(2) by (auto simp: sv_addMember_def sv_getOrganization_def os_findOrganization_def split: option.splits)
  have same: "os_organizations s' = os_organizations s"
    by (simp add: s' os_addMember_def Let_def)
  have key: "snd (member_key m) = mb_organizationId m" by (simp add: member_key_def)
  have "distinct (filter (\<lambda>k. k \<noteq> member_key m) (map member_key (os_memberships s)) @ [member_key m])"
    using assms(1) by (simp add: org_wf_keys)
  moreover have "snd ` set (filter (\<lambda>k. k \<noteq> member_key m) (map member_key (os_memberships s)) @ [member_key m])
      \<subseteq> dom (jm_get (os_organizations s))"
    using assms(1) org key unfolding org_wf_keys by auto
  ultimately show ?thesis unfolding org_wf_keys same unfolding s' addMember_keys by blast
qed

lemma removeMember_wf: "org_wf s \<Longrightarrow> org_wf (sv_removeMember u i s)"
  by (auto simp: org_wf_def sv_removeMember_def os_removeMember_def distinct_map_filter)

lemma org_run_wf: "org_wf s \<Longrightarrow> org_wf (org_run op s)"
proof (cases op)
  case (AddMember now m)
  then show "org_wf s \<Longrightarrow> ?thesis" using addMember_wf by (auto split: sum.splits)
next
  case (RemoveMember u i)
  then show "org_wf s \<Longrightarrow> ?thesis" by (simp add: removeMember_wf)
qed (metis entity_ops_grow org_grows_wf)+

lemma fold_org_run_wf: "org_wf s \<Longrightarrow> org_wf (fold org_run ops s)"
  by (induction ops arbitrary: s) (simp_all add: org_run_wf)

section \<open>Properties\<close>


definition wit_partial :: "unit partial" where
  "wit_partial = \<lparr>pt_id = Some ''o1'', pt_organizationId = None, pt_departmentId = None, pt_parentId = None,
     pt_name = Some ''Acme'', pt_code = Some ''acme'', pt_description = None, pt_isActive = None, pt_metadata = None\<rparr>"

definition wit_member :: membership where
  "wit_member = \<lparr>mb_userId = ''ann'', mb_organizationId = ''o1'', mb_departmentId = Some ''elsewhere'',
     mb_teamId = None, mb_role = None, mb_joinedAt = None\<rparr>"


end
