(* ===== verification/Content_Entries.thy ===== *)
theory Content_Entries
  imports Boot_Prelude Complex_Main
begin

text \<open>
  \<open>src/src/content/\<close>: entries and their versions. The rows (\<open>content-entry.interface.ts\<close>,
  \<open>entry-status.enum.ts\<close>), the repositories (\<open>content-entry.repository.ts\<close>,
  \<open>content-locale.repository.ts\<close>). The generated Prisma client is a
  parameter \<open>content_db\<close> over a database \<open>'s\<close>; \<open>content_db_ok\<close> states the documented behaviour the
  code relies on. The columns \<open>createdAt\<close> and \<open>updatedAt\<close>, which the database fills and this code never
  reads, are left out.
\<close>

section \<open>Rows\<close>

datatype entry_status = DRAFT | APPROVED | SCHEDULED | PUBLISHED | REJECTED | UNPUBLISHED | ARCHIVED

definition entry_status_str :: "entry_status \<Rightarrow> string" where
  "entry_status_str s = (case s of DRAFT \<Rightarrow> ''DRAFT'' | APPROVED \<Rightarrow> ''APPROVED'' | SCHEDULED \<Rightarrow> ''SCHEDULED''
     | PUBLISHED \<Rightarrow> ''PUBLISHED'' | REJECTED \<Rightarrow> ''REJECTED'' | UNPUBLISHED \<Rightarrow> ''UNPUBLISHED''
     | ARCHIVED \<Rightarrow> ''ARCHIVED'')"

fun status_transitions :: "entry_status \<Rightarrow> entry_status list" where
  "status_transitions DRAFT = [APPROVED, ARCHIVED]"
| "status_transitions APPROVED = [PUBLISHED, SCHEDULED, REJECTED]"
| "status_transitions SCHEDULED = [PUBLISHED, APPROVED, REJECTED]"
| "status_transitions PUBLISHED = [UNPUBLISHED, ARCHIVED]"
| "status_transitions REJECTED = [DRAFT]"
| "status_transitions UNPUBLISHED = [DRAFT, ARCHIVED]"
| "status_transitions ARCHIVED = [DRAFT]"

text \<open>A value of an entry's data; a missing property reads as \<open>undefined\<close>.\<close>

datatype 'j content_value = CUndefined | CNull | CText string | CNumber rat | COther 'j

type_synonym 'j content_data = "(string, 'j content_value) jsmap"

definition cd_get :: "'j content_data \<Rightarrow> string \<Rightarrow> 'j content_value" where
  "cd_get d f = or_else (jm_get d f) CUndefined"

definition cv_empty :: "'j content_value \<Rightarrow> bool" where
  "cv_empty v = (case v of CUndefined \<Rightarrow> True | CNull \<Rightarrow> True | CText t \<Rightarrow> t = [] | _ \<Rightarrow> False)"

record 'j content_entry =
  en_id :: string
  en_contentTypeId :: string
  en_data :: "'j content_data"
  en_locale :: string
  en_status :: entry_status
  en_version :: nat
  en_slug :: "string option"
  en_publishedAt :: "int option"
  en_scheduledAt :: "int option"
  en_scheduledUnpublishAt :: "int option"
  en_tenantId :: "string option"
  en_createdBy :: "string option"

record 'j entry_version =
  ev_entryId :: string
  ev_version :: nat
  ev_data :: "'j content_data"
  ev_changedBy :: "string option"

record content_locale =
  lc_code :: string
  lc_name :: string
  lc_isDefault :: bool
  lc_fallbackLocale :: "string option"
  lc_tenantId :: "string option"

text \<open>What the code asks to be changed (\<open>Partial<IContentEntry>\<close>; \<open>None\<close> is an absent or undefined property).\<close>

record 'j entry_partial =
  pa_data :: "'j content_data option"
  pa_slug :: "string option"
  pa_status :: "entry_status option"
  pa_version :: "nat option"
  pa_publishedAt :: "int option"
  pa_scheduledAt :: "int option"
  pa_scheduledUnpublishAt :: "int option"

definition no_change :: "'j entry_partial" where
  "no_change = \<lparr>pa_data = None, pa_slug = None, pa_status = None, pa_version = None,
     pa_publishedAt = None, pa_scheduledAt = None, pa_scheduledUnpublishAt = None\<rparr>"

section \<open>The database client\<close>

text \<open>
  \<open>findFirst\<close> and \<open>findMany\<close> take the row condition of their \<open>where\<close>; \<open>update\<close> sets the columns that are
  given and throws (\<open>None\<close>) when there is no such row; \<open>create\<close> fills the defaults of the schema and
  throws when a constraint is violated.
\<close>

record ('j, 's) content_db =
  db_findFirst :: "('j content_entry \<Rightarrow> bool) \<Rightarrow> 's \<Rightarrow> 'j content_entry option"
  db_findMany :: "('j content_entry \<Rightarrow> bool) \<Rightarrow> 's \<Rightarrow> 'j content_entry list"
  db_create :: "'j content_entry \<Rightarrow> 's \<Rightarrow> ('j content_entry \<times> 's) option"
  db_update :: "string \<Rightarrow> 'j entry_partial \<Rightarrow> 's \<Rightarrow> ('j content_entry \<times> 's) option"
  db_delete :: "string \<Rightarrow> 's \<Rightarrow> 's option"
  db_createVersion :: "'j entry_version \<Rightarrow> 's \<Rightarrow> 's option"
  db_versions :: "'s \<Rightarrow> 'j entry_version list"
  db_findFirstLocale :: "(content_locale \<Rightarrow> bool) \<Rightarrow> 's \<Rightarrow> content_locale option"
  db_findManyLocales :: "(content_locale \<Rightarrow> bool) \<Rightarrow> 's \<Rightarrow> content_locale list"

definition set_columns :: "'j entry_partial \<Rightarrow> 'j content_entry \<Rightarrow> 'j content_entry" where
  "set_columns p e = e\<lparr>en_data := or_else (pa_data p) (en_data e),
     en_slug := (case pa_slug p of None \<Rightarrow> en_slug e | Some x \<Rightarrow> Some x),
     en_status := or_else (pa_status p) (en_status e),
     en_version := or_else (pa_version p) (en_version e),
     en_publishedAt := (case pa_publishedAt p of None \<Rightarrow> en_publishedAt e | Some x \<Rightarrow> Some x),
     en_scheduledAt := (case pa_scheduledAt p of None \<Rightarrow> en_scheduledAt e | Some x \<Rightarrow> Some x),
     en_scheduledUnpublishAt :=
       (case pa_scheduledUnpublishAt p of None \<Rightarrow> en_scheduledUnpublishAt e | Some x \<Rightarrow> Some x)\<rparr>"

definition update_rows :: "string \<Rightarrow> 'j entry_partial \<Rightarrow> 'j content_entry list \<Rightarrow> 'j content_entry list" where
  "update_rows i p rows = map (\<lambda>e. if en_id e = i then set_columns p e else e) rows"

text \<open>The laws: reads answer from the rows, an update changes the one row and answers with it.\<close>

definition content_db_ok :: "('j, 's) content_db \<Rightarrow> ('s \<Rightarrow> 'j content_entry list) \<Rightarrow> bool" where
  "content_db_ok db rows \<longleftrightarrow>
     (\<forall>s. distinct (map en_id (rows s)))
   \<and> (\<forall>P s e. db_findFirst db P s = Some e \<longrightarrow> e \<in> set (rows s) \<and> P e)
   \<and> (\<forall>P s. db_findFirst db P s = None \<longrightarrow> (\<forall>e\<in>set (rows s). \<not> P e))
   \<and> (\<forall>P s. set (db_findMany db P s) = {e \<in> set (rows s). P e} \<and> distinct (db_findMany db P s))
   \<and> (\<forall>i p s. db_update db i p s = None \<longleftrightarrow> i \<notin> en_id ` set (rows s))
   \<and> (\<forall>i p s e s'. db_update db i p s = Some (e, s') \<longrightarrow>
        rows s' = update_rows i p (rows s) \<and> e \<in> set (rows s') \<and> en_id e = i)"

lemma content_db_okD:
  assumes "content_db_ok db rows"
  shows "distinct (map en_id (rows s))"
    and "db_findFirst db P s = Some e \<Longrightarrow> e \<in> set (rows s) \<and> P e"
    and "db_findFirst db P s = None \<Longrightarrow> e \<in> set (rows s) \<Longrightarrow> \<not> P e"
    and "e \<in> set (db_findMany db P s) \<longleftrightarrow> e \<in> set (rows s) \<and> P e"
    and "distinct (db_findMany db P s)"
    and "db_update db i p s = None \<longleftrightarrow> i \<notin> en_id ` set (rows s)"
    and "db_update db i p s = Some (e', s') \<Longrightarrow> rows s' = update_rows i p (rows s) \<and> e' \<in> set (rows s') \<and> en_id e' = i"
proof -
  have d: "\<forall>s. distinct (map en_id (rows s))"
    "\<forall>P s e. db_findFirst db P s = Some e \<longrightarrow> e \<in> set (rows s) \<and> P e"
    "\<forall>P s. db_findFirst db P s = None \<longrightarrow> (\<forall>e\<in>set (rows s). \<not> P e)"
    "\<forall>P s. set (db_findMany db P s) = {e \<in> set (rows s). P e} \<and> distinct (db_findMany db P s)"
    "\<forall>i p s. db_update db i p s = None \<longleftrightarrow> i \<notin> en_id ` set (rows s)"
    "\<forall>i p s e s'. db_update db i p s = Some (e, s') \<longrightarrow>
        rows s' = update_rows i p (rows s) \<and> e \<in> set (rows s') \<and> en_id e = i"
    by (insert assms, unfold content_db_ok_def, elim conjE, assumption)+
  show "distinct (map en_id (rows s))" using d(1) by (rule spec)
  show "db_findFirst db P s = Some e \<Longrightarrow> e \<in> set (rows s) \<and> P e" using d(2) by blast
  show "db_findFirst db P s = None \<Longrightarrow> e \<in> set (rows s) \<Longrightarrow> \<not> P e" using d(3) by blast
  show "e \<in> set (db_findMany db P s) \<longleftrightarrow> e \<in> set (rows s) \<and> P e" using d(4) by simp
  show "distinct (db_findMany db P s)" using d(4) by blast
  show "db_update db i p s = None \<longleftrightarrow> i \<notin> en_id ` set (rows s)" using d(5) by blast
  show "db_update db i p s = Some (e', s') \<Longrightarrow> rows s' = update_rows i p (rows s) \<and> e' \<in> set (rows s') \<and> en_id e' = i"
    using d(6) by blast
qed

lemma set_columns_id [simp]: "en_id (set_columns p e) = en_id e"
  by (simp add: set_columns_def)

lemma update_rows_ids [simp]: "map en_id (update_rows i p rows) = map en_id rows"
  by (simp add: update_rows_def comp_def if_distrib cong: if_cong)

section \<open>The entry repository\<close>

text \<open>\<open>...(tenantId ? { tenantId } : {})\<close>\<close>

definition tenant_where :: "string option \<Rightarrow> string option \<Rightarrow> bool" where
  "tenant_where wanted actual \<longleftrightarrow> (case wanted of None \<Rightarrow> True | Some t \<Rightarrow> t = [] \<or> actual = Some t)"

definition cer_findById :: "('j, 's) content_db \<Rightarrow> string \<Rightarrow> string option \<Rightarrow> 's \<Rightarrow> 'j content_entry option" where
  "cer_findById db i tenantId s =
     db_findFirst db (\<lambda>e. en_id e = i \<and> tenant_where tenantId (en_tenantId e)) s"

definition cer_findBySlug ::
  "('j, 's) content_db \<Rightarrow> string \<Rightarrow> string \<Rightarrow> string option \<Rightarrow> 's \<Rightarrow> 'j content_entry option" where
  "cer_findBySlug db slug lang tenantId s =
     db_findFirst db (\<lambda>e. en_slug e = Some slug \<and> en_locale e = lang \<and> tenant_where tenantId (en_tenantId e)) s"

text \<open>Only these six columns are passed on.\<close>

definition cer_update ::
  "('j, 's) content_db \<Rightarrow> string \<Rightarrow> 'j entry_partial \<Rightarrow> 's \<Rightarrow> ('j content_entry \<times> 's) option" where
  "cer_update db i data s = db_update db i
     \<lparr>pa_data = pa_data data, pa_slug = pa_slug data, pa_status = pa_status data, pa_version = pa_version data,
      pa_publishedAt = pa_publishedAt data, pa_scheduledAt = pa_scheduledAt data,
      pa_scheduledUnpublishAt = None\<rparr> s"

definition cer_create ::
  "('j, 's) content_db \<Rightarrow> string \<Rightarrow> 'j content_data \<Rightarrow> string \<Rightarrow> string option \<Rightarrow> string option \<Rightarrow> string option
    \<Rightarrow> 's \<Rightarrow> ('j content_entry \<times> 's) option" where
  "cer_create db contentTypeId data lang slug tenantId createdBy s = db_create db
     \<lparr>en_id = [], en_contentTypeId = contentTypeId, en_data = data, en_locale = lang, en_status = DRAFT,
      en_version = 1, en_slug = slug, en_publishedAt = None, en_scheduledAt = None,
      en_scheduledUnpublishAt = None, en_tenantId = tenantId, en_createdBy = createdBy\<rparr> s"

definition cer_softDelete :: "('j, 's) content_db \<Rightarrow> string \<Rightarrow> 's \<Rightarrow> ('j content_entry \<times> 's) option" where
  "cer_softDelete db i s = db_update db i (no_change\<lparr>pa_status := Some ARCHIVED\<rparr>) s"

definition cer_hardDelete :: "('j, 's) content_db \<Rightarrow> string \<Rightarrow> 's \<Rightarrow> 's option" where
  "cer_hardDelete db i s = db_delete db i s"

text \<open>\<open>lte\<close> never matches a column that is null.\<close>

definition lte_col :: "int option \<Rightarrow> int \<Rightarrow> bool" where
  "lte_col col t \<longleftrightarrow> (case col of None \<Rightarrow> False | Some x \<Rightarrow> x \<le> t)"

definition cer_findScheduledEntries :: "('j, 's) content_db \<Rightarrow> int \<Rightarrow> 's \<Rightarrow> 'j content_entry list" where
  "cer_findScheduledEntries db before s =
     db_findMany db (\<lambda>e. en_status e = SCHEDULED \<and> lte_col (en_scheduledAt e) before) s"

definition cer_findScheduledUnpublishEntries :: "('j, 's) content_db \<Rightarrow> int \<Rightarrow> 's \<Rightarrow> 'j content_entry list" where
  "cer_findScheduledUnpublishEntries db before s =
     db_findMany db (\<lambda>e. en_status e = PUBLISHED \<and> lte_col (en_scheduledUnpublishAt e) before) s"

text \<open>What an update through the repository does to a row.\<close>

definition repo_columns :: "'j entry_partial \<Rightarrow> 'j entry_partial" where
  "repo_columns p = p\<lparr>pa_scheduledUnpublishAt := None\<rparr>"

lemma cer_update_db: "cer_update db i p s = db_update db i (repo_columns p) s"
  by (cases p) (simp add: cer_update_def repo_columns_def)

lemma cer_update_None:
  "content_db_ok db rows \<Longrightarrow> cer_update db i p s = None \<longleftrightarrow> i \<notin> en_id ` set (rows s)"
  by (simp add: cer_update_db content_db_okD(6))

lemma cer_update_rows:
  assumes "content_db_ok db rows" and "cer_update db i p s = Some (e, s')"
  shows "rows s' = update_rows i (repo_columns p) (rows s)" and "e \<in> set (rows s')" and "en_id e = i"
  using content_db_okD(7)[OF assms(1) assms(2)[unfolded cer_update_db]] by blast+

lemma rows_id_unique:
  assumes "content_db_ok db rows" and "a \<in> set (rows s)" and "b \<in> set (rows s)" and "en_id a = en_id b"
  shows "a = b"
  using content_db_okD(1)[OF assms(1), of s] assms(2-4) by (meson distinct_map inj_onD)

lemma cer_findById_iff:
  assumes "content_db_ok db rows"
  shows "cer_findById db i t s = Some e \<longleftrightarrow>
    e \<in> set (rows s) \<and> en_id e = i \<and> tenant_where t (en_tenantId e)"
proof
  assume "cer_findById db i t s = Some e"
  then show "e \<in> set (rows s) \<and> en_id e = i \<and> tenant_where t (en_tenantId e)"
    using content_db_okD(2)[OF assms] unfolding cer_findById_def by blast
next
  assume e: "e \<in> set (rows s) \<and> en_id e = i \<and> tenant_where t (en_tenantId e)"
  then have "cer_findById db i t s \<noteq> None"
    using content_db_okD(3)[OF assms] unfolding cer_findById_def by blast
  then obtain x where x: "cer_findById db i t s = Some x" by blast
  then have "x \<in> set (rows s) \<and> en_id x = i"
    using content_db_okD(2)[OF assms] unfolding cer_findById_def by blast
  with e have "x = e" using rows_id_unique[OF assms] by metis
  with x show "cer_findById db i t s = Some e" by simp
qed

lemma cer_findBySlug_SomeD:
  assumes "content_db_ok db rows" and "cer_findBySlug db slug l t s = Some e"
  shows "e \<in> set (rows s)" "en_slug e = Some slug" "en_locale e = l" "tenant_where t (en_tenantId e)"
  using content_db_okD(2)[OF assms(1)] assms(2) unfolding cer_findBySlug_def by blast+

lemma cer_findBySlug_NoneD:
  assumes "content_db_ok db rows" and "cer_findBySlug db slug l t s = None"
    and "e \<in> set (rows s)" "en_slug e = Some slug" "tenant_where t (en_tenantId e)"
  shows "en_locale e \<noteq> l"
  using content_db_okD(3)[OF assms(1)] assms(2-) unfolding cer_findBySlug_def by blast

section \<open>Locales\<close>

definition clr_findAll :: "('j, 's) content_db \<Rightarrow> string option \<Rightarrow> 's \<Rightarrow> content_locale list" where
  "clr_findAll db tenantId s = db_findManyLocales db (\<lambda>l. tenant_where tenantId (lc_tenantId l)) s"

definition clr_findByCode :: "('j, 's) content_db \<Rightarrow> string \<Rightarrow> string option \<Rightarrow> 's \<Rightarrow> content_locale option" where
  "clr_findByCode db code tenantId s =
     db_findFirstLocale db (\<lambda>l. lc_code l = code \<and> tenant_where tenantId (lc_tenantId l)) s"

section \<open>A client over lists\<close>

text \<open>An instance of the laws, on which the properties are evaluated. Its states have unique ids.\<close>

typedef 'j entry_table = "{rows :: 'j content_entry list. distinct (map en_id rows)}"
  by (intro exI[of _ "[]"]) simp

setup_lifting type_definition_entry_table

lift_definition table_rows :: "'j entry_table \<Rightarrow> 'j content_entry list" is "\<lambda>rows. rows" .

lift_definition table_of :: "'j content_entry list \<Rightarrow> 'j entry_table" is
  "\<lambda>rows. if distinct (map en_id rows) then rows else []" by simp

lift_definition table_update :: "string \<Rightarrow> 'j entry_partial \<Rightarrow> 'j entry_table \<Rightarrow> 'j entry_table" is update_rows
  by simp

lemma table_rows_of [simp]: "distinct (map en_id rows) \<Longrightarrow> table_rows (table_of rows) = rows"
  by transfer simp

lemma table_rows_update [simp]: "table_rows (table_update i p t) = update_rows i p (table_rows t)"
  by transfer simp

lemma table_rows_distinct: "distinct (map en_id (table_rows t))"
  by transfer simp

definition list_db :: "content_locale list \<Rightarrow> ('j, 'j entry_table) content_db" where
  "list_db locales =
     \<lparr>db_findFirst = (\<lambda>P t. find P (table_rows t)),
      db_findMany = (\<lambda>P t. filter P (table_rows t)),
      db_create = (\<lambda>e t. Some (e, table_of (table_rows t @ [e]))),
      db_update = (\<lambda>i p t. map_option (\<lambda>e. (set_columns p e, table_update i p t))
         (find (\<lambda>e. en_id e = i) (table_rows t))),
      db_delete = (\<lambda>i t. Some (table_of (filter (\<lambda>e. en_id e \<noteq> i) (table_rows t)))),
      db_createVersion = (\<lambda>v t. Some t),
      db_versions = (\<lambda>t. []),
      db_findFirstLocale = (\<lambda>P t. find P locales),
      db_findManyLocales = (\<lambda>P t. filter P locales)\<rparr>"

lemma find_SomeD: "find P xs = Some x \<Longrightarrow> x \<in> set xs \<and> P x"
  by (induction xs) (auto split: if_splits)

lemma list_db_ok: "content_db_ok (list_db locales) table_rows"
  unfolding content_db_ok_def
proof (intro conjI allI impI)
  show "distinct (map en_id (table_rows s))" for s :: "'a entry_table" by (rule table_rows_distinct)
  show "distinct (db_findMany (list_db locales) P s)" for P and s :: "'a entry_table"
    using table_rows_distinct[of s] by (simp add: list_db_def distinct_map)
  show "db_update (list_db locales) i p s = None \<longleftrightarrow> i \<notin> en_id ` set (table_rows s)"
    for i p and s :: "'a entry_table"
    by (auto simp: list_db_def find_None_iff)
  fix i p e and s s' :: "'a entry_table"
  assume "db_update (list_db locales) i p s = Some (e, s')"
  then obtain x where x: "find (\<lambda>e. en_id e = i) (table_rows s) = Some x" "e = set_columns p x"
    "s' = table_update i p s"
    by (auto simp: list_db_def)
  then show "table_rows s' = update_rows i p (table_rows s)" "en_id e = i" "e \<in> set (table_rows s')"
    using find_SomeD[OF x(1)] by (auto simp: update_rows_def)
qed (auto simp: list_db_def find_None_iff dest: find_SomeD)

end
