(* ===== verification/Content_Types.thy ===== *)
theory Content_Types
  imports Content_Entries
begin

text \<open>
  Content types and their fields: \<open>content/interfaces/content-type.interface.ts\<close>,
  \<open>content/repositories/content-type.repository.ts\<close>, \<open>content-component.repository.ts\<close> and
  \<open>content/services/content-type.service.ts\<close>. The Prisma client is the parameter \<open>type_db\<close>; the fields
  of a row are kept as the list that \<open>parseFields\<close> reads back from the JSON text the repository writes.
\<close>

section \<open>Data\<close>

record field_validation =
  fv_required :: bool
  fv_minLength :: "nat option"
  fv_maxLength :: "nat option"
  fv_min :: "rat option"
  fv_max :: "rat option"
  fv_pattern :: "string option"

text \<open>The properties the services read; a missing string is \<open>None\<close>, missing options are none.\<close>

record field_def =
  fd_name :: string
  fd_type :: string
  fd_validation :: "field_validation option"
  fd_multiple :: bool
  fd_enumOptions :: "string list"
  fd_componentSlug :: "string option"
  fd_slugSource :: "string option"
  fd_order :: "nat option"

definition VALID_FIELD_TYPES :: "string list" where
  "VALID_FIELD_TYPES = [''text'', ''textarea'', ''richtext'', ''number'', ''boolean'', ''date'', ''datetime'',
     ''media'', ''reference'', ''json'', ''enum'', ''slug'', ''url'', ''email'', ''color'', ''component'']"

record content_type =
  ct_id :: string
  ct_name :: string
  ct_slug :: string
  ct_description :: "string option"
  ct_fields :: "field_def list"
  ct_components :: "string list"
  ct_tenantId :: "string option"

record content_component =
  cc_id :: string
  cc_name :: string
  cc_slug :: string
  cc_fields :: "field_def list"
  cc_tenantId :: "string option"

record type_partial =
  tp_name :: "string option"
  tp_slug :: "string option"
  tp_description :: "string option"
  tp_fields :: "field_def list option"
  tp_components :: "string list option"

definition no_type_change :: type_partial where
  "no_type_change = \<lparr>tp_name = None, tp_slug = None, tp_description = None, tp_fields = None, tp_components = None\<rparr>"

datatype content_error = Conflict string | NotFound string | BadRequest string | Thrown string

type_synonym ('a, 's) ct_result = "content_error + 'a \<times> 's"

section \<open>The database client\<close>

record 's type_db =
  td_findFirst :: "(content_type \<Rightarrow> bool) \<Rightarrow> 's \<Rightarrow> content_type option"
  td_findMany :: "(content_type \<Rightarrow> bool) \<Rightarrow> 's \<Rightarrow> content_type list"
  td_count :: "(content_type \<Rightarrow> bool) \<Rightarrow> 's \<Rightarrow> nat"
  td_create :: "content_type \<Rightarrow> 's \<Rightarrow> (content_type \<times> 's) option"
  td_update :: "string \<Rightarrow> type_partial \<Rightarrow> 's \<Rightarrow> (content_type \<times> 's) option"
  td_delete :: "string \<Rightarrow> 's \<Rightarrow> 's option"
  td_findFirstComponent :: "(content_component \<Rightarrow> bool) \<Rightarrow> 's \<Rightarrow> content_component option"

section \<open>The repositories\<close>

definition ctr_create ::
  "'s type_db \<Rightarrow> string \<Rightarrow> string \<Rightarrow> string option \<Rightarrow> field_def list option \<Rightarrow> string list option \<Rightarrow> string option
    \<Rightarrow> 's \<Rightarrow> (content_type \<times> 's) option" where
  "ctr_create db name slug description fs components tenantId s = td_create db
     \<lparr>ct_id = [], ct_name = name, ct_slug = slug, ct_description = description, ct_fields = or_else fs [],
      ct_components = or_else components [], ct_tenantId = tenantId\<rparr> s"

definition ctr_findById :: "'s type_db \<Rightarrow> string \<Rightarrow> string option \<Rightarrow> 's \<Rightarrow> content_type option" where
  "ctr_findById db i tenantId s = td_findFirst db (\<lambda>t. ct_id t = i \<and> tenant_where tenantId (ct_tenantId t)) s"

definition ctr_findBySlug :: "'s type_db \<Rightarrow> string \<Rightarrow> string option \<Rightarrow> 's \<Rightarrow> content_type option" where
  "ctr_findBySlug db slug tenantId s = td_findFirst db (\<lambda>t. ct_slug t = slug \<and> tenant_where tenantId (ct_tenantId t)) s"

definition ctr_findAll :: "'s type_db \<Rightarrow> string option \<Rightarrow> 's \<Rightarrow> content_type list" where
  "ctr_findAll db tenantId s = td_findMany db (\<lambda>t. tenant_where tenantId (ct_tenantId t)) s"

definition ctr_update :: "'s type_db \<Rightarrow> string \<Rightarrow> type_partial \<Rightarrow> 's \<Rightarrow> (content_type \<times> 's) option" where
  "ctr_update db i data s = td_update db i data s"

definition ctr_delete :: "'s type_db \<Rightarrow> string \<Rightarrow> 's \<Rightarrow> 's option" where
  "ctr_delete db i s = td_delete db i s"

definition ctr_slugExists :: "'s type_db \<Rightarrow> string \<Rightarrow> string option \<Rightarrow> string option \<Rightarrow> 's \<Rightarrow> bool" where
  "ctr_slugExists db slug tenantId excludeId s \<longleftrightarrow>
     0 < td_count db (\<lambda>t. ct_slug t = slug \<and> tenant_where tenantId (ct_tenantId t)
       \<and> (case excludeId of None \<Rightarrow> True | Some i \<Rightarrow> i = [] \<or> ct_id t \<noteq> i)) s"

definition ccr_findBySlug :: "'s type_db \<Rightarrow> string \<Rightarrow> string option \<Rightarrow> 's \<Rightarrow> content_component option" where
  "ccr_findBySlug db slug tenantId s =
     td_findFirstComponent db (\<lambda>c. cc_slug c = slug \<and> tenant_where tenantId (cc_tenantId c)) s"

section \<open>The service\<close>

definition quoted :: "string \<Rightarrow> string" where
  "quoted s = ''\"'' @ s @ ''\"''"

text \<open>One turn of the loop of \<open>validateFields\<close>; \<open>names\<close> is the set of names met so far.\<close>

definition field_problem :: "string list \<Rightarrow> field_def \<Rightarrow> content_error option" where
  "field_problem names f =
     (if fd_name f = [] \<or> fd_type f = [] then Some (BadRequest ''Each field must have a name and type'')
      else if fd_type f \<notin> set VALID_FIELD_TYPES
      then Some (BadRequest (''Invalid field type '' @ quoted (fd_type f) @ ''. Valid: '' @ js_join '', '' VALID_FIELD_TYPES))
      else if fd_name f \<in> set names then Some (BadRequest (''Duplicate field name '' @ quoted (fd_name f)))
      else if fd_type f = ''enum'' \<and> fd_enumOptions f = []
      then Some (BadRequest (''Enum field '' @ quoted (fd_name f) @ '' must have options''))
      else if fd_type f = ''component'' \<and> or_else (fd_componentSlug f) [] = []
      then Some (BadRequest (''Component field '' @ quoted (fd_name f) @ '' must specify componentSlug''))
      else if fd_type f = ''slug'' \<and> or_else (fd_slugSource f) [] = []
      then Some (BadRequest (''Slug field '' @ quoted (fd_name f) @ '' must specify slugSource''))
      else None)"

fun validate_from :: "string list \<Rightarrow> field_def list \<Rightarrow> content_error + unit" where
  "validate_from names [] = Inr ()"
| "validate_from names (f # fs) = (case field_problem names f of
     Some e \<Rightarrow> Inl e | None \<Rightarrow> validate_from (js_add (fd_name f) names) fs)"

definition validateFields :: "field_def list \<Rightarrow> content_error + unit" where
  "validateFields fs = validate_from [] fs"

fun validateComponents :: "'s type_db \<Rightarrow> string list \<Rightarrow> string option \<Rightarrow> 's \<Rightarrow> content_error + unit" where
  "validateComponents db [] tenantId s = Inr ()"
| "validateComponents db (slug # slugs) tenantId s = (case ccr_findBySlug db slug tenantId s of
     None \<Rightarrow> Inl (NotFound (''Component '' @ quoted slug @ '' not found''))
   | Some _ \<Rightarrow> validateComponents db slugs tenantId s)"

definition db_result :: "('a \<times> 's) option \<Rightarrow> ('a, 's) ct_result" where
  "db_result r = (case r of None \<Rightarrow> Inl (Thrown ''database'') | Some x \<Rightarrow> Inr x)"

definition checks_then :: "field_def list option \<Rightarrow> (content_error + unit) \<Rightarrow> ('a, 's) ct_result \<Rightarrow> ('a, 's) ct_result" where
  "checks_then fs components go = (case (case fs of None \<Rightarrow> Inr () | Some fs \<Rightarrow> validateFields fs) of
     Inl e \<Rightarrow> Inl e | Inr _ \<Rightarrow> (case components of Inl e \<Rightarrow> Inl e | Inr _ \<Rightarrow> go))"

definition slug_taken_message :: "string \<Rightarrow> string" where
  "slug_taken_message slug = ''Content type slug '' @ quoted slug @ '' already exists''"

definition cts_create ::
  "'s type_db \<Rightarrow> string \<Rightarrow> string \<Rightarrow> string option \<Rightarrow> field_def list option \<Rightarrow> string list option \<Rightarrow> string option
    \<Rightarrow> 's \<Rightarrow> (content_type, 's) ct_result" where
  "cts_create db name slug description fs components tenantId s =
     (if ctr_slugExists db slug tenantId None s then Inl (Conflict (slug_taken_message slug))
      else checks_then fs (validateComponents db (or_else components []) tenantId s)
             (db_result (ctr_create db name slug description fs components tenantId s)))"

definition cts_findById :: "'s type_db \<Rightarrow> string \<Rightarrow> string option \<Rightarrow> 's \<Rightarrow> content_error + content_type" where
  "cts_findById db i tenantId s = (case ctr_findById db i tenantId s of
     None \<Rightarrow> Inl (NotFound (''Content type '' @ quoted i @ '' not found'')) | Some t \<Rightarrow> Inr t)"

definition cts_findBySlug :: "'s type_db \<Rightarrow> string \<Rightarrow> string option \<Rightarrow> 's \<Rightarrow> content_error + content_type" where
  "cts_findBySlug db slug tenantId s = (case ctr_findBySlug db slug tenantId s of
     None \<Rightarrow> Inl (NotFound (''Content type '' @ quoted slug @ '' not found'')) | Some t \<Rightarrow> Inr t)"

definition cts_findAll :: "'s type_db \<Rightarrow> string option \<Rightarrow> 's \<Rightarrow> content_type list" where
  "cts_findAll db tenantId s = ctr_findAll db tenantId s"

definition cts_update ::
  "'s type_db \<Rightarrow> string \<Rightarrow> type_partial \<Rightarrow> string option \<Rightarrow> 's \<Rightarrow> (content_type, 's) ct_result" where
  "cts_update db i data tenantId s = (case cts_findById db i tenantId s of
     Inl e \<Rightarrow> Inl e
   | Inr _ \<Rightarrow>
       if or_else (tp_slug data) [] \<noteq> [] \<and> ctr_slugExists db (the (tp_slug data)) tenantId (Some i) s
       then Inl (Conflict (slug_taken_message (the (tp_slug data))))
       else checks_then (tp_fields data) (validateComponents db (or_else (tp_components data) []) tenantId s)
              (db_result (ctr_update db i data s)))"

definition cts_delete :: "'s type_db \<Rightarrow> string \<Rightarrow> string option \<Rightarrow> 's \<Rightarrow> (unit, 's) ct_result" where
  "cts_delete db i tenantId s = (case cts_findById db i tenantId s of
     Inl e \<Rightarrow> Inl e
   | Inr _ \<Rightarrow> db_result (map_option (\<lambda>s. ((), s)) (ctr_delete db i s)))"

definition set_fields :: "'s type_db \<Rightarrow> string \<Rightarrow> field_def list \<Rightarrow> 's \<Rightarrow> (content_type, 's) ct_result" where
  "set_fields db i fs s = db_result (ctr_update db i (no_type_change\<lparr>tp_fields := Some fs\<rparr>) s)"

definition cts_addField :: "'s type_db \<Rightarrow> string \<Rightarrow> field_def \<Rightarrow> string option \<Rightarrow> 's \<Rightarrow> (content_type, 's) ct_result" where
  "cts_addField db i field tenantId s = (case cts_findById db i tenantId s of
     Inl e \<Rightarrow> Inl e
   | Inr type \<Rightarrow>
       if list_ex (\<lambda>f. fd_name f = fd_name field) (ct_fields type)
       then Inl (Conflict (''Field '' @ quoted (fd_name field) @ '' already exists''))
       else (case validateFields [field] of
           Inl e \<Rightarrow> Inl e
         | Inr _ \<Rightarrow> set_fields db i (ct_fields type @
             [field\<lparr>fd_order := Some (or_else (fd_order field) (length (ct_fields type)))\<rparr>]) s))"

text \<open>\<open>{ ...fields[idx], ...updates }\<close> is the function \<open>change\<close> on the field.\<close>

fun update_first :: "string \<Rightarrow> (field_def \<Rightarrow> field_def) \<Rightarrow> field_def list \<Rightarrow> field_def list" where
  "update_first name change [] = []"
| "update_first name change (f # fs) = (if fd_name f = name then change f # fs else f # update_first name change fs)"

definition cts_updateField ::
  "'s type_db \<Rightarrow> string \<Rightarrow> string \<Rightarrow> (field_def \<Rightarrow> field_def) \<Rightarrow> string option \<Rightarrow> 's \<Rightarrow> (content_type, 's) ct_result" where
  "cts_updateField db i fieldName change tenantId s = (case cts_findById db i tenantId s of
     Inl e \<Rightarrow> Inl e
   | Inr type \<Rightarrow>
       if \<not> list_ex (\<lambda>f. fd_name f = fieldName) (ct_fields type)
       then Inl (NotFound (''Field '' @ quoted fieldName @ '' not found''))
       else (let fs = update_first fieldName change (ct_fields type)
             in case validateFields fs of Inl e \<Rightarrow> Inl e | Inr _ \<Rightarrow> set_fields db i fs s))"

definition cts_removeField :: "'s type_db \<Rightarrow> string \<Rightarrow> string \<Rightarrow> string option \<Rightarrow> 's \<Rightarrow> (content_type, 's) ct_result" where
  "cts_removeField db i fieldName tenantId s = (case cts_findById db i tenantId s of
     Inl e \<Rightarrow> Inl e
   | Inr type \<Rightarrow> set_fields db i (filter (\<lambda>f. fd_name f \<noteq> fieldName) (ct_fields type)) s)"

section \<open>The client's laws\<close>

definition set_type_columns :: "type_partial \<Rightarrow> content_type \<Rightarrow> content_type" where
  "set_type_columns p t = t\<lparr>ct_name := or_else (tp_name p) (ct_name t), ct_slug := or_else (tp_slug p) (ct_slug t),
     ct_description := (case tp_description p of None \<Rightarrow> ct_description t | Some d \<Rightarrow> Some d),
     ct_fields := or_else (tp_fields p) (ct_fields t), ct_components := or_else (tp_components p) (ct_components t)\<rparr>"

definition type_db_ok :: "'s type_db \<Rightarrow> ('s \<Rightarrow> content_type set) \<Rightarrow> bool" where
  "type_db_ok db rows \<longleftrightarrow>
     (\<forall>P s t. td_findFirst db P s = Some t \<longrightarrow> t \<in> rows s \<and> P t)
   \<and> (\<forall>P s. 0 < td_count db P s \<longleftrightarrow> (\<exists>t\<in>rows s. P t))
   \<and> (\<forall>t s t' s'. td_create db t s = Some (t', s') \<longrightarrow>
        (\<exists>i. i \<notin> ct_id ` rows s \<and> t' = t\<lparr>ct_id := i\<rparr> \<and> rows s' = insert t' (rows s)))
   \<and> (\<forall>i p s t s'. td_update db i p s = Some (t, s') \<longrightarrow>
        rows s' = (\<lambda>t. if ct_id t = i then set_type_columns p t else t) ` rows s)
   \<and> (\<forall>i s s'. td_delete db i s = Some s' \<longrightarrow> rows s' = {t \<in> rows s. ct_id t \<noteq> i})"

lemma type_db_okD:
  assumes "type_db_ok db rows"
  shows "td_findFirst db P s = Some t \<Longrightarrow> t \<in> rows s \<and> P t"
    and "0 < td_count db P s \<longleftrightarrow> (\<exists>t\<in>rows s. P t)"
    and "td_create db t s = Some (t', s') \<Longrightarrow>
      \<exists>i. i \<notin> ct_id ` rows s \<and> t' = t\<lparr>ct_id := i\<rparr> \<and> rows s' = insert t' (rows s)"
    and "td_update db i p s = Some (t, s') \<Longrightarrow> rows s' = (\<lambda>t. if ct_id t = i then set_type_columns p t else t) ` rows s"
    and "td_delete db i s = Some s' \<Longrightarrow> rows s' = {t \<in> rows s. ct_id t \<noteq> i}"
proof -
  have d: "\<forall>P s t. td_findFirst db P s = Some t \<longrightarrow> t \<in> rows s \<and> P t"
    "\<forall>P s. 0 < td_count db P s \<longleftrightarrow> (\<exists>t\<in>rows s. P t)"
    "\<forall>t s t' s'. td_create db t s = Some (t', s') \<longrightarrow>
        (\<exists>i. i \<notin> ct_id ` rows s \<and> t' = t\<lparr>ct_id := i\<rparr> \<and> rows s' = insert t' (rows s))"
    "\<forall>i p s t s'. td_update db i p s = Some (t, s') \<longrightarrow>
        rows s' = (\<lambda>t. if ct_id t = i then set_type_columns p t else t) ` rows s"
    "\<forall>i s s'. td_delete db i s = Some s' \<longrightarrow> rows s' = {t \<in> rows s. ct_id t \<noteq> i}"
    by (insert assms, unfold type_db_ok_def, elim conjE, assumption)+
  show "td_findFirst db P s = Some t \<Longrightarrow> t \<in> rows s \<and> P t" using d(1) by blast
  show "0 < td_count db P s \<longleftrightarrow> (\<exists>t\<in>rows s. P t)" using d(2) by blast
  show "td_create db t s = Some (t', s') \<Longrightarrow>
      \<exists>i. i \<notin> ct_id ` rows s \<and> t' = t\<lparr>ct_id := i\<rparr> \<and> rows s' = insert t' (rows s)" using d(3) by blast
  show "td_update db i p s = Some (t, s') \<Longrightarrow> rows s' = (\<lambda>t. if ct_id t = i then set_type_columns p t else t) ` rows s"
    using d(4) by blast
  show "td_delete db i s = Some s' \<Longrightarrow> rows s' = {t \<in> rows s. ct_id t \<noteq> i}" using d(5) by blast
qed

section \<open>Valid field lists\<close>

lemma field_problem_names:
  "field_problem names f = None \<longleftrightarrow> field_problem [] f = None \<and> fd_name f \<notin> set names"
  by (simp add: field_problem_def)

lemma validate_from_ok:
  "validate_from names fs = Inr () \<longleftrightarrow> (\<forall>f\<in>set fs. field_problem [] f = None)
     \<and> distinct (map fd_name fs) \<and> fd_name ` set fs \<inter> set names = {}"
proof (induction fs arbitrary: names)
  case (Cons f fs)
  then show ?case
    using field_problem_names[of names f] by (auto split: option.splits)
qed simp

lemma validateFields_ok:
  "validateFields fs = Inr () \<longleftrightarrow> (\<forall>f\<in>set fs. field_problem [] f = None) \<and> distinct (map fd_name fs)"
  by (simp add: validateFields_def validate_from_ok)

lemma validateFields_filter: "validateFields fs = Inr () \<Longrightarrow> validateFields (filter P fs) = Inr ()"
  by (simp add: validateFields_ok distinct_map_filter)

lemma field_problem_order [simp]: "field_problem names (f\<lparr>fd_order := i\<rparr>) = field_problem names f"
  by (simp add: field_problem_def)

lemma validateFields_append:
  "validateFields fs = Inr () \<Longrightarrow> validateFields [f] = Inr () \<Longrightarrow> fd_name f \<notin> fd_name ` set fs \<Longrightarrow>
     validateFields (fs @ [f\<lparr>fd_order := i\<rparr>]) = Inr ()"
  unfolding validateFields_ok by auto

section \<open>The catalogue of types\<close>

definition types_ok :: "content_type set \<Rightarrow> bool" where
  "types_ok T \<longleftrightarrow> inj_on ct_id T
   \<and> (\<forall>t\<in>T. validateFields (ct_fields t) = Inr ())
   \<and> (\<forall>t\<in>T. \<forall>u\<in>T. ct_slug t = ct_slug u \<and> ct_tenantId t = ct_tenantId u \<and> ct_slug t \<noteq> [] \<longrightarrow> t = u)"

lemma ctr_slugExists_iff:
  assumes "type_db_ok db rows"
  shows "ctr_slugExists db slug tenantId excludeId s \<longleftrightarrow> (\<exists>t\<in>rows s. ct_slug t = slug
    \<and> tenant_where tenantId (ct_tenantId t) \<and> (case excludeId of None \<Rightarrow> True | Some i \<Rightarrow> i = [] \<or> ct_id t \<noteq> i))"
  unfolding ctr_slugExists_def type_db_okD(2)[OF assms] by simp

lemma types_ok_insert:
  assumes "types_ok T" and "ct_id t \<notin> ct_id ` T" and "validateFields (ct_fields t) = Inr ()"
    and "\<forall>u\<in>T. ct_slug u = ct_slug t \<longrightarrow> ct_tenantId u \<noteq> ct_tenantId t"
  shows "types_ok (insert t T)"
proof -
  note ok = assms(1)[unfolded types_ok_def]
  have "inj_on ct_id (insert t T)"
    unfolding inj_on_insert using conjunct1[OF ok] assms(2) by blast
  moreover have "u = v" if "u \<in> insert t T" "v \<in> insert t T" "ct_slug u = ct_slug v" "ct_tenantId u = ct_tenantId v"
    "ct_slug u \<noteq> []" for u v
    using that assms(4) ok by (metis insert_iff)
  moreover have "validateFields (ct_fields u) = Inr ()" if "u \<in> insert t T" for u
    using that assms(3) conjunct1[OF conjunct2[OF ok]] by blast
  ultimately show ?thesis unfolding types_ok_def by (intro conjI ballI impI; (elim conjE)?; blast)
qed

lemma set_type_columns_simps [simp]:
  "ct_id (set_type_columns p t) = ct_id t" "ct_tenantId (set_type_columns p t) = ct_tenantId t"
  "ct_slug (set_type_columns p t) = or_else (tp_slug p) (ct_slug t)"
  "ct_fields (set_type_columns p t) = or_else (tp_fields p) (ct_fields t)"
  by (simp_all add: set_type_columns_def)

lemma types_ok_update:
  assumes ok: "types_ok T" and t: "t \<in> T" and valid: "\<And>fs. tp_fields p = Some fs \<Longrightarrow> validateFields fs = Inr ()"
    and slug: "\<And>u sl. tp_slug p = Some sl \<Longrightarrow> sl \<noteq> [] \<Longrightarrow> u \<in> T \<Longrightarrow> ct_id u \<noteq> ct_id t \<Longrightarrow> ct_slug u = sl \<Longrightarrow>
      ct_tenantId u \<noteq> ct_tenantId t"
  shows "types_ok ((\<lambda>u. if ct_id u = ct_id t then set_type_columns p u else u) ` T)"
proof -
  let ?f = "\<lambda>u. if ct_id u = ct_id t then set_type_columns p u else u"
  have only: "u = t" if "u \<in> T" "ct_id u = ct_id t" for u
    using ok that t by (auto simp: types_ok_def inj_on_def)
  have "inj_on ct_id (?f ` T)"
    using ok by (auto simp: types_ok_def inj_on_def)
  moreover have "validateFields (ct_fields (?f u)) = Inr ()" if "u \<in> T" for u
    using ok that valid by (cases "tp_fields p") (auto simp: types_ok_def)
  moreover have "?f u = ?f v"
    if uv: "u \<in> T" "v \<in> T" "ct_slug (?f u) = ct_slug (?f v)" "ct_tenantId (?f u) = ct_tenantId (?f v)" "ct_slug (?f u) \<noteq> []"
    for u v
  proof -
    have same: "u = v" if "ct_slug u = ct_slug v" "ct_tenantId u = ct_tenantId v" "ct_slug u \<noteq> []"
      using ok uv(1,2) that by (auto simp: types_ok_def)
    have clash: False if "w \<in> T" "ct_id w \<noteq> ct_id t" "ct_slug w = or_else (tp_slug p) (ct_slug t)"
        "ct_tenantId w = ct_tenantId t" "ct_slug w \<noteq> []" for w
    proof (cases "tp_slug p")
      case None
      then have "w = t" using ok that t by (auto simp: types_ok_def)
      then show False using that by simp
    next
      case (Some sl)
      then show False using slug[of sl w] that by simp
    qed
    show ?thesis
    proof (cases "ct_id u = ct_id t"; cases "ct_id v = ct_id t")
      assume "ct_id u = ct_id t" "ct_id v = ct_id t"
      then show ?thesis using only uv(1,2) by metis
    next
      assume "ct_id u = ct_id t" "ct_id v \<noteq> ct_id t"
      then show ?thesis using clash[of v] only[of u] uv by simp
    next
      assume "ct_id u \<noteq> ct_id t" "ct_id v = ct_id t"
      then show ?thesis using clash[of u] only[of v] uv by simp
    next
      assume "ct_id u \<noteq> ct_id t" "ct_id v \<noteq> ct_id t"
      then show ?thesis using same uv by simp
    qed
  qed
  ultimately show ?thesis unfolding types_ok_def by blast
qed

inductive type_step :: "'s type_db \<Rightarrow> 's \<Rightarrow> 's \<Rightarrow> bool" for db where
  create: "cts_create db name slug description fs components tenantId s = Inr (t, s') \<Longrightarrow> type_step db s s'"
| update: "cts_update db i data tenantId s = Inr (t, s') \<Longrightarrow> type_step db s s'"
| delete: "cts_delete db i tenantId s = Inr (u, s') \<Longrightarrow> type_step db s s'"
| addField: "cts_addField db i field tenantId s = Inr (t, s') \<Longrightarrow> type_step db s s'"
| updateField: "cts_updateField db i name change tenantId s = Inr (t, s') \<Longrightarrow> type_step db s s'"
| removeField: "cts_removeField db i name tenantId s = Inr (t, s') \<Longrightarrow> type_step db s s'"

lemma checks_then_InrD:
  "checks_then fs components go = Inr r \<Longrightarrow> go = Inr r \<and> (\<forall>l. fs = Some l \<longrightarrow> validateFields l = Inr ())"
  by (auto simp: checks_then_def split: option.splits sum.splits)

lemma db_result_Inr [simp]: "db_result r = Inr x \<longleftrightarrow> r = Some x"
  by (simp add: db_result_def split: option.splits)

lemma cts_findById_InrD:
  assumes "type_db_ok db rows" and "cts_findById db i tenantId s = Inr t"
  shows "t \<in> rows s \<and> ct_id t = i \<and> tenant_where tenantId (ct_tenantId t)"
  using type_db_okD(1)[OF assms(1)] assms(2)
  by (auto simp: cts_findById_def ctr_findById_def split: option.splits)

lemma tenant_where_same: "tenant_where w a \<Longrightarrow> \<not> tenant_where w b \<Longrightarrow> a \<noteq> b"
  by auto

lemma set_fields_ok:
  assumes db: "type_db_ok db rows" and ok: "types_ok (rows s)" and found: "cts_findById db i tenantId s = Inr t0"
    and set: "set_fields db i fs s = Inr (t, s')" and valid: "validateFields fs = Inr ()"
  shows "types_ok (rows s')"
proof -
  have t0: "t0 \<in> rows s" "ct_id t0 = i" using cts_findById_InrD[OF db found] by simp_all
  have "rows s' = (\<lambda>t. if ct_id t = i then set_type_columns (no_type_change\<lparr>tp_fields := Some fs\<rparr>) t else t) ` rows s"
    using type_db_okD(4)[OF db] set by (simp add: set_fields_def ctr_update_def)
  then show ?thesis
    using types_ok_update[OF ok t0(1), of "no_type_change\<lparr>tp_fields := Some fs\<rparr>"] valid t0(2)
    by (simp add: no_type_change_def)
qed

lemma type_step_ok:
  assumes db: "type_db_ok db rows" and step: "type_step db s s'" and ok: "types_ok (rows s)"
  shows "types_ok (rows s')"
  using step
proof cases
  case (create name slug description fs components tenantId t)
  let ?r = "\<lparr>ct_id = [], ct_name = name, ct_slug = slug, ct_description = description, ct_fields = or_else fs [],
      ct_components = or_else components [], ct_tenantId = tenantId\<rparr>"
  have free: "\<not> ctr_slugExists db slug tenantId None s" using create by (auto simp: cts_create_def split: if_splits)
  then have new: "\<forall>u\<in>rows s. ct_slug u = slug \<longrightarrow> ct_tenantId u \<noteq> tenantId"
    unfolding ctr_slugExists_iff[OF db] by (auto simp: tenant_where_def split: option.splits)
  have "checks_then fs (validateComponents db (or_else components []) tenantId s)
      (db_result (ctr_create db name slug description fs components tenantId s)) = Inr (t, s')"
    using create free by (simp add: cts_create_def)
  from checks_then_InrD[OF this] have c: "td_create db ?r s = Some (t, s')"
    and v: "validateFields (or_else fs []) = Inr ()"
    by (auto simp: ctr_create_def validateFields_def or_else_def split: option.splits)
  obtain i where i: "i \<notin> ct_id ` rows s" "t = ?r\<lparr>ct_id := i\<rparr>" "rows s' = insert t (rows s)"
    using type_db_okD(3)[OF db c] by blast
  show ?thesis unfolding i(3) by (rule types_ok_insert[OF ok]) (use i new v in auto)
next
  case (update i data tenantId t)
  then obtain t0 where t0: "cts_findById db i tenantId s = Inr t0"
    by (auto simp: cts_update_def split: sum.splits)
  note row = cts_findById_InrD[OF db t0]
  have free: "\<not> (or_else (tp_slug data) [] \<noteq> [] \<and> ctr_slugExists db (the (tp_slug data)) tenantId (Some i) s)"
    using update t0 by (auto simp: cts_update_def split: if_splits)
  have "checks_then (tp_fields data) (validateComponents db (or_else (tp_components data) []) tenantId s)
      (db_result (ctr_update db i data s)) = Inr (t, s')"
    using update unfolding cts_update_def t0 sum.case if_not_P[OF free] .
  from checks_then_InrD[OF this] have u: "td_update db i data s = Some (t, s')"
    and v: "\<And>fs. tp_fields data = Some fs \<Longrightarrow> validateFields fs = Inr ()"
    by (simp_all add: ctr_update_def)
  have slug: "ct_tenantId w \<noteq> ct_tenantId t0"
    if "tp_slug data = Some sl" "sl \<noteq> []" "w \<in> rows s" "ct_id w \<noteq> ct_id t0" "ct_slug w = sl" for w sl
    using free row that unfolding ctr_slugExists_iff[OF db] by auto
  show ?thesis
    using types_ok_update[OF ok conjunct1[OF row] v slug] row unfolding type_db_okD(4)[OF db u] by simp
next
  case (delete i tenantId u)
  then obtain t0 where "td_delete db i s = Some s'"
    by (auto simp: cts_delete_def ctr_delete_def split: sum.splits)
  then show ?thesis
    using ok unfolding type_db_okD(5)[OF db \<open>td_delete db i s = Some s'\<close>] types_ok_def
    by (elim conjE, intro conjI) (auto intro: inj_on_subset)
next
  case (addField i field tenantId t)
  then obtain t0 where t0: "cts_findById db i tenantId s = Inr t0"
    by (auto simp: cts_addField_def split: sum.splits)
  have fresh: "\<not> list_ex (\<lambda>f. fd_name f = fd_name field) (ct_fields t0)" and v: "validateFields [field] = Inr ()"
    using addField t0 by (auto simp: cts_addField_def split: if_splits sum.splits)
  have "validateFields (ct_fields t0) = Inr ()"
    using ok cts_findById_InrD[OF db t0] by (simp add: types_ok_def)
  then have "validateFields (ct_fields t0 @ [field\<lparr>fd_order := o'\<rparr>]) = Inr ()" for o'
    using v fresh by (intro validateFields_append) (auto simp: list_ex_iff)
  then show ?thesis
    using set_fields_ok[OF db ok t0] addField t0 fresh v by (auto simp: cts_addField_def)
next
  case (updateField i name change tenantId t)
  then obtain t0 where t0: "cts_findById db i tenantId s = Inr t0"
    by (auto simp: cts_updateField_def split: sum.splits)
  then show ?thesis
    using set_fields_ok[OF db ok t0] updateField
    by (auto simp: cts_updateField_def Let_def split: if_splits sum.splits)
next
  case (removeField i name tenantId t)
  then obtain t0 where t0: "cts_findById db i tenantId s = Inr t0"
    by (auto simp: cts_removeField_def split: sum.splits)
  have "validateFields (ct_fields t0) = Inr ()"
    using ok cts_findById_InrD[OF db t0] by (simp add: types_ok_def)
  then show ?thesis
    using set_fields_ok[OF db ok t0] removeField t0 validateFields_filter by (simp add: cts_removeField_def)
qed

section \<open>Properties\<close>

text \<open>C26. Every operation of the content type service keeps the catalogue valid: each type's fields have
  distinct names, a known type and the settings that type needs, and no two types of a tenant share a
  slug other than the empty one. (An update does not check an empty slug, so two types can both get it.)\<close>

theorem content_types_stay_valid:
  assumes "type_db_ok db rows" and "(type_step db)\<^sup>*\<^sup>* s s'" and "types_ok (rows s)"
  shows "types_ok (rows s') \<and>
    (\<forall>t\<in>rows s'. distinct (map fd_name (ct_fields t)) \<and> (\<forall>f\<in>set (ct_fields t). fd_type f \<in> set VALID_FIELD_TYPES))"
proof -
  have ok: "types_ok (rows s')"
    using assms(2,3) by induction (auto intro: type_step_ok[OF assms(1)])
  moreover have "distinct (map fd_name (ct_fields t)) \<and> (\<forall>f\<in>set (ct_fields t). fd_type f \<in> set VALID_FIELD_TYPES)"
    if "t \<in> rows s'" for t
  proof -
    have "validateFields (ct_fields t) = Inr ()" using ok that by (simp add: types_ok_def)
    then have "distinct (map fd_name (ct_fields t))" "\<forall>f\<in>set (ct_fields t). field_problem [] f = None"
      by (simp_all add: validateFields_ok)
    moreover have "field_problem [] f = None \<Longrightarrow> fd_type f \<in> set VALID_FIELD_TYPES" for f
      by (simp add: field_problem_def split: if_splits)
    ultimately show ?thesis by blast
  qed
  ultimately show ?thesis by blast
qed

subsection \<open>A client over lists\<close>

definition fresh_id :: "content_type list \<Rightarrow> string" where
  "fresh_id ts = replicate (Suc (foldr (\<lambda>t n. max (length (ct_id t)) n) ts 0)) CHR ''i''"

lemma fresh_id_fresh: "fresh_id ts \<notin> ct_id ` set ts"
proof
  have bound: "t \<in> set ts \<Longrightarrow> length (ct_id t) \<le> foldr (\<lambda>t n. max (length (ct_id t)) n) ts 0" for t
    by (induction ts) auto
  assume "fresh_id ts \<in> ct_id ` set ts"
  then obtain t where "t \<in> set ts" "ct_id t = fresh_id ts" by force
  then show False using bound[of t] by (simp add: fresh_id_def)
qed

definition list_type_db :: "content_component list \<Rightarrow> content_type list type_db" where
  "list_type_db comps =
     \<lparr>td_findFirst = find, td_findMany = filter, td_count = (\<lambda>P ts. length (filter P ts)),
      td_create = (\<lambda>t ts. let t' = t\<lparr>ct_id := fresh_id ts\<rparr> in Some (t', ts @ [t'])),
      td_update = (\<lambda>i p ts. map_option (\<lambda>t. (set_type_columns p t, map (\<lambda>t. if ct_id t = i then set_type_columns p t else t) ts))
        (find (\<lambda>t. ct_id t = i) ts)),
      td_delete = (\<lambda>i ts. Some (filter (\<lambda>t. ct_id t \<noteq> i) ts)),
      td_findFirstComponent = (\<lambda>P ts. find P comps)\<rparr>"

lemma list_type_db_ok: "type_db_ok (list_type_db comps) set"
  unfolding type_db_ok_def
proof (intro conjI allI impI)
  fix t s t' s' assume "td_create (list_type_db comps) t s = Some (t', s')"
  then show "\<exists>i. i \<notin> ct_id ` set s \<and> t' = t\<lparr>ct_id := i\<rparr> \<and> set s' = insert t' (set s)"
    using fresh_id_fresh[of s] by (intro exI[of _ "fresh_id s"]) (auto simp: list_type_db_def Let_def)
qed (auto simp: list_type_db_def length_greater_0_conv filter_empty_conv dest: find_SomeD)

definition title_field :: field_def where
  "title_field = \<lparr>fd_name = ''title'', fd_type = ''text'', fd_validation = None, fd_multiple = False,
     fd_enumOptions = [], fd_componentSlug = None, fd_slugSource = None, fd_order = None\<rparr>"

lemma example_type_step:
  "type_step (list_type_db []) [] [\<lparr>ct_id = ''i'', ct_name = ''Post'', ct_slug = ''post'', ct_description = None,
     ct_fields = [title_field], ct_components = [], ct_tenantId = None\<rparr>]"
  by (rule create[of _ "''Post''" "''post''" None "Some [title_field]" None None _
      "\<lparr>ct_id = ''i'', ct_name = ''Post'', ct_slug = ''post'', ct_description = None,
     ct_fields = [title_field], ct_components = [], ct_tenantId = None\<rparr>"])
    (simp add: cts_create_def ctr_slugExists_def list_type_db_def checks_then_def validateFields_def
      field_problem_def title_field_def VALID_FIELD_TYPES_def ctr_create_def fresh_id_def db_result_def Let_def)

theorem content_types_stay_valid_witness:
  "types_ok (set [\<lparr>ct_id = ''i'', ct_name = ''Post'', ct_slug = ''post'', ct_description = None,
     ct_fields = [title_field], ct_components = [], ct_tenantId = None\<rparr>])"
  by (rule conjunct1[OF content_types_stay_valid[OF list_type_db_ok r_into_rtranclp[of "type_step (list_type_db [])", OF example_type_step]]])
    (simp add: types_ok_def)

end
