(* ===== verification/Content_Entry_Service.thy ===== *)
theory Content_Entry_Service
  imports Content_Types
begin

text \<open>
  The entry service and the version service, \<open>content/services/content-entry.service.ts\<close> and
  \<open>content-version.service.ts\<close>: validation of an entry's data against the fields of its type, slugs,
  and the version that every change of data writes. A regular expression is compiled and tested by
  the parameter \<open>rx\<close> (\<open>None\<close>: the pattern does not compile and the constructor throws); \<open>fold_marks\<close>
  is \<open>normalize('NFD')\<close> followed by the removal of the combining marks.
\<close>

section \<open>Validation\<close>

definition fails_rule :: "bool \<Rightarrow> string \<Rightarrow> content_error option" where
  "fails_rule b msg = (if b then Some (BadRequest msg) else None)"

definition first_problem :: "content_error option list \<Rightarrow> content_error option" where
  "first_problem ps = (case filter (\<lambda>p. p \<noteq> None) ps of [] \<Rightarrow> None | p # _ \<Rightarrow> p)"

text \<open>\<open>field.validation?.minLength && ...\<close>: a bound of zero is falsy and skips the check.\<close>

definition pattern_problem :: "(string \<Rightarrow> string \<Rightarrow> bool option) \<Rightarrow> string \<Rightarrow> string option \<Rightarrow> 'j content_value
    \<Rightarrow> content_error option" where
  "pattern_problem rx name pat v = (case (pat, v) of
     (Some p, CText t) \<Rightarrow> if p = [] then None else (case rx p t of
         None \<Rightarrow> Some (Thrown ''SyntaxError'')
       | Some True \<Rightarrow> None
       | Some False \<Rightarrow> Some (BadRequest (''Field '' @ quoted name @ '' does not match pattern'')))
   | _ \<Rightarrow> None)"

definition rule_problem :: "(rat \<Rightarrow> string) \<Rightarrow> (string \<Rightarrow> string \<Rightarrow> bool option) \<Rightarrow> string \<Rightarrow> field_validation
    \<Rightarrow> 'j content_value \<Rightarrow> content_error option" where
  "rule_problem num rx name v x = first_problem
     [case (fv_minLength v, x) of
        (Some n, CText t) \<Rightarrow> fails_rule (n \<noteq> 0 \<and> length t < n)
          (''Field '' @ quoted name @ '' must be at least '' @ js_of_nat n @ '' characters'') | _ \<Rightarrow> None,
      case (fv_maxLength v, x) of
        (Some n, CText t) \<Rightarrow> fails_rule (n \<noteq> 0 \<and> n < length t)
          (''Field '' @ quoted name @ '' must be at most '' @ js_of_nat n @ '' characters'') | _ \<Rightarrow> None,
      case (fv_min v, x) of
        (Some n, CNumber k) \<Rightarrow> fails_rule (k < n) (''Field '' @ quoted name @ '' must be >= '' @ num n) | _ \<Rightarrow> None,
      case (fv_max v, x) of
        (Some n, CNumber k) \<Rightarrow> fails_rule (n < k) (''Field '' @ quoted name @ '' must be <= '' @ num n) | _ \<Rightarrow> None,
      pattern_problem rx name (fv_pattern v) x]"

fun validateEntryData :: "(rat \<Rightarrow> string) \<Rightarrow> (string \<Rightarrow> string \<Rightarrow> bool option) \<Rightarrow> 'j content_data \<Rightarrow> field_def list
    \<Rightarrow> content_error + unit" where
  "validateEntryData num rx data [] = Inr ()"
| "validateEntryData num rx data (f # fs) =
     (let x = cd_get data (fd_name f) in
      case fd_validation f of
        None \<Rightarrow> validateEntryData num rx data fs
      | Some v \<Rightarrow>
          if fv_required v \<and> cv_empty x then Inl (BadRequest (''Field '' @ quoted (fd_name f) @ '' is required''))
          else if x = CUndefined \<or> x = CNull then validateEntryData num rx data fs
          else (case rule_problem num rx (fd_name f) v x of
              Some e \<Rightarrow> Inl e | None \<Rightarrow> validateEntryData num rx data fs))"

section \<open>Slugs\<close>

definition slug_char :: "char \<Rightarrow> bool" where
  "slug_char c \<longleftrightarrow> (let n = of_char c :: nat in 97 \<le> n \<and> n \<le> 122 \<or> 48 \<le> n \<and> n \<le> 57)"

text \<open>\<open>replace(/[^a-z0-9]+/g, '-')\<close>; the flag says that the match of a run is open.\<close>

fun dash_runs :: "bool \<Rightarrow> string \<Rightarrow> string" where
  "dash_runs inRun [] = []"
| "dash_runs inRun (c # cs) =
     (if slug_char c then c # dash_runs False cs
      else if inRun then dash_runs True cs else CHR ''-'' # dash_runs True cs)"

text \<open>\<open>replace(/^-|-$/g, '')\<close>\<close>

definition trim_dash :: "string \<Rightarrow> string" where
  "trim_dash s = (let s = (case s of c # cs \<Rightarrow> if c = CHR ''-'' then cs else s | [] \<Rightarrow> [])
     in if s \<noteq> [] \<and> last s = CHR ''-'' then butlast s else s)"

definition slugify :: "(string \<Rightarrow> string) \<Rightarrow> string \<Rightarrow> string" where
  "slugify fold_marks source = trim_dash (dash_runs False (fold_marks (to_lower source)))"

definition generateSlug :: "(string \<Rightarrow> string) \<Rightarrow> 'j content_data \<Rightarrow> field_def list \<Rightarrow> string option" where
  "generateSlug fold_marks data fs = (case find (\<lambda>f. fd_type f = ''slug'') fs of
     None \<Rightarrow> None
   | Some f \<Rightarrow> (case fd_slugSource f of
       None \<Rightarrow> None
     | Some source \<Rightarrow> if source = [] then None else (case cd_get data source of
           CText t \<Rightarrow> Some (slugify fold_marks t) | _ \<Rightarrow> None)))"

section \<open>The services\<close>

text \<open>What the services are built with: the two clients over one state, and the options.\<close>

record ('j, 's) entry_env =
  ee_db :: "('j, 's) content_db"
  ee_types :: "'s type_db"
  ee_num :: "rat \<Rightarrow> string"
  ee_rx :: "string \<Rightarrow> string \<Rightarrow> bool option"
  ee_fold_marks :: "string \<Rightarrow> string"
  ee_defaultLocale :: "string option"

definition cvs_createVersion ::
  "('j, 's) content_db \<Rightarrow> string \<Rightarrow> nat \<Rightarrow> 'j content_data \<Rightarrow> string option \<Rightarrow> 's \<Rightarrow> 's option" where
  "cvs_createVersion db entryId version data changedBy s =
     db_createVersion db \<lparr>ev_entryId = entryId, ev_version = version, ev_data = data, ev_changedBy = changedBy\<rparr> s"

definition cvs_findVersions :: "('j, 's) content_db \<Rightarrow> string \<Rightarrow> 's \<Rightarrow> 'j entry_version list" where
  "cvs_findVersions db entryId s =
     rev (sort_key ev_version (filter (\<lambda>v. ev_entryId v = entryId) (db_versions db s)))"

definition cvs_findVersion ::
  "('j, 's) content_db \<Rightarrow> string \<Rightarrow> nat \<Rightarrow> 's \<Rightarrow> content_error + 'j entry_version" where
  "cvs_findVersion db entryId version s =
     (case find (\<lambda>v. ev_entryId v = entryId \<and> ev_version v = version) (db_versions db s) of
        None \<Rightarrow> Inl (NotFound (''Version '' @ js_of_nat version @ '' not found for entry '' @ quoted entryId))
      | Some v \<Rightarrow> Inr v)"

definition cvs_rollback ::
  "('j, 's) content_db \<Rightarrow> string \<Rightarrow> nat \<Rightarrow> 's \<Rightarrow> content_error + 'j content_data" where
  "cvs_rollback db entryId version s = map_sum id ev_data (cvs_findVersion db entryId version s)"

definition ces_findById :: "('j, 's) content_db \<Rightarrow> string \<Rightarrow> string option \<Rightarrow> 's \<Rightarrow> content_error + 'j content_entry" where
  "ces_findById db i tenantId s = (case cer_findById db i tenantId s of
     None \<Rightarrow> Inl (NotFound (''Entry '' @ quoted i @ '' not found'')) | Some e \<Rightarrow> Inr e)"

definition ces_findBySlug ::
  "('j, 's) content_db \<Rightarrow> string \<Rightarrow> string \<Rightarrow> string option \<Rightarrow> 's \<Rightarrow> content_error + 'j content_entry" where
  "ces_findBySlug db slug lang tenantId s = (case cer_findBySlug db slug lang tenantId s of
     None \<Rightarrow> Inl (NotFound (''Entry with slug '' @ quoted slug @ '' not found'')) | Some e \<Rightarrow> Inr e)"

text \<open>A write, then the version of what it wrote. The two are separate calls of the client, not a
  transaction: when the second throws the first stays.\<close>

type_synonym ('a, 's) ce_result = "(content_error + 'a) \<times> 's"

definition stored :: "('a \<times> 's) option \<Rightarrow> 's \<Rightarrow> ('a, 's) ce_result" where
  "stored written s = (case written of None \<Rightarrow> (Inl (Thrown ''database''), s) | Some (x, s') \<Rightarrow> (Inr x, s'))"

definition with_version ::
  "('j, 's) content_db \<Rightarrow> nat \<Rightarrow> string option \<Rightarrow> ('j content_entry \<times> 's) option \<Rightarrow> 's \<Rightarrow> ('j content_entry, 's) ce_result" where
  "with_version db version changedBy written s = (case written of
     None \<Rightarrow> (Inl (Thrown ''database''), s)
   | Some (e, s1) \<Rightarrow> (case cvs_createVersion db (en_id e) version (en_data e) changedBy s1 of
       None \<Rightarrow> (Inl (Thrown ''database''), s1) | Some s2 \<Rightarrow> (Inr e, s2)))"

definition ces_create ::
  "('j, 's) entry_env \<Rightarrow> string \<Rightarrow> 'j content_data \<Rightarrow> string option \<Rightarrow> string option \<Rightarrow> string option \<Rightarrow> string option
    \<Rightarrow> 's \<Rightarrow> ('j content_entry, 's) ce_result" where
  "ces_create env contentTypeId data lang slug tenantId createdBy s =
     (case cts_findById (ee_types env) contentTypeId tenantId s of
        Inl e \<Rightarrow> (Inl e, s)
      | Inr type \<Rightarrow> (case validateEntryData (ee_num env) (ee_rx env) data (ct_fields type) of
          Inl e \<Rightarrow> (Inl e, s)
        | Inr _ \<Rightarrow> with_version (ee_db env) 1 createdBy
            (cer_create (ee_db env) contentTypeId data (or_else lang (or_else (ee_defaultLocale env) ''en''))
               (case slug of Some sl \<Rightarrow> Some sl | None \<Rightarrow> generateSlug (ee_fold_marks env) data (ct_fields type))
               tenantId createdBy s) s))"

text \<open>
  \<open>update\<close> in two halves: what it reads and checks (the partial row it will write, and the version it
  will record, if any), and what it writes. Between them other requests can run.
\<close>

record 'j update_request =
  ur_data :: "'j content_data option"
  ur_slug :: "string option"
  ur_status :: "entry_status option"

definition data_check :: "('j, 's) entry_env \<Rightarrow> 'j content_entry \<Rightarrow> 'j content_data option \<Rightarrow> string option \<Rightarrow> 's
    \<Rightarrow> content_error + unit" where
  "data_check env entry data tenantId s = (case data of
     None \<Rightarrow> Inr ()
   | Some d \<Rightarrow> (case cts_findById (ee_types env) (en_contentTypeId entry) tenantId s of
       Inl e \<Rightarrow> Inl e
     | Inr type \<Rightarrow> validateEntryData (ee_num env) (ee_rx env) d (ct_fields type)))"

definition ces_update_read ::
  "('j, 's) entry_env \<Rightarrow> string \<Rightarrow> 'j update_request \<Rightarrow> string option \<Rightarrow> 's
    \<Rightarrow> content_error + 'j entry_partial \<times> nat option" where
  "ces_update_read env i r tenantId s = (case ces_findById (ee_db env) i tenantId s of
     Inl e \<Rightarrow> Inl e
   | Inr entry \<Rightarrow> (case data_check env entry (ur_data r) tenantId s of
       Inl e \<Rightarrow> Inl e
     | Inr _ \<Rightarrow>
         if ur_status r \<noteq> None \<and> ur_data r = None \<and> or_else (ur_slug r) [] = []
         then Inr (no_change\<lparr>pa_status := ur_status r\<rparr>, None)
         else Inr (no_change\<lparr>pa_data := ur_data r, pa_slug := ur_slug r, pa_status := ur_status r,
                     pa_version := Some (en_version entry + 1)\<rparr>, Some (en_version entry + 1))))"

definition ces_update_write ::
  "('j, 's) content_db \<Rightarrow> string \<Rightarrow> 'j entry_partial \<times> nat option \<Rightarrow> string option \<Rightarrow> 's
    \<Rightarrow> ('j content_entry, 's) ce_result" where
  "ces_update_write db i pv changedBy s = (case snd pv of
     None \<Rightarrow> stored (cer_update db i (fst pv) s) s
   | Some v \<Rightarrow> with_version db v changedBy (cer_update db i (fst pv) s) s)"

definition ces_update ::
  "('j, 's) entry_env \<Rightarrow> string \<Rightarrow> 'j update_request \<Rightarrow> string option \<Rightarrow> string option \<Rightarrow> 's
    \<Rightarrow> ('j content_entry, 's) ce_result" where
  "ces_update env i r tenantId changedBy s = (case ces_update_read env i r tenantId s of
     Inl e \<Rightarrow> (Inl e, s) | Inr pv \<Rightarrow> ces_update_write (ee_db env) i pv changedBy s)"

definition ces_delete :: "('j, 's) content_db \<Rightarrow> string \<Rightarrow> string option \<Rightarrow> 's \<Rightarrow> ('j content_entry, 's) ce_result" where
  "ces_delete db i tenantId s = (case ces_findById db i tenantId s of
     Inl e \<Rightarrow> (Inl e, s) | Inr _ \<Rightarrow> stored (cer_softDelete db i s) s)"

definition ces_hardDelete :: "('j, 's) content_db \<Rightarrow> string \<Rightarrow> 's \<Rightarrow> (unit, 's) ce_result" where
  "ces_hardDelete db i s = stored (map_option (\<lambda>s. ((), s)) (cer_hardDelete db i s)) s"

definition ces_duplicate ::
  "('j, 's) entry_env \<Rightarrow> string \<Rightarrow> string option \<Rightarrow> string option \<Rightarrow> 's \<Rightarrow> ('j content_entry, 's) ce_result" where
  "ces_duplicate env i tenantId createdBy s = (case ces_findById (ee_db env) i tenantId s of
     Inl e \<Rightarrow> (Inl e, s)
   | Inr source \<Rightarrow> ces_create env (en_contentTypeId source) (en_data source) (Some (en_locale source))
       (case en_slug source of None \<Rightarrow> None | Some sl \<Rightarrow> if sl = [] then None else Some (sl @ ''-copy''))
       tenantId createdBy s)"

section \<open>Validation decides\<close>

text \<open>What a field asks of a value, one rule at a time.\<close>

definition field_accepts :: "(string \<Rightarrow> string \<Rightarrow> bool option) \<Rightarrow> field_def \<Rightarrow> 'j content_value \<Rightarrow> bool" where
  "field_accepts rx f x \<longleftrightarrow> (case fd_validation f of
     None \<Rightarrow> True
   | Some v \<Rightarrow> (fv_required v \<longrightarrow> \<not> cv_empty x)
       \<and> (case x of
            CText t \<Rightarrow> (case fv_minLength v of None \<Rightarrow> True | Some n \<Rightarrow> n \<le> length t)
              \<and> (case fv_maxLength v of None \<Rightarrow> True | Some n \<Rightarrow> n = 0 \<or> length t \<le> n)
              \<and> (case fv_pattern v of None \<Rightarrow> True | Some p \<Rightarrow> p = [] \<or> rx p t = Some True)
          | CNumber k \<Rightarrow> (case fv_min v of None \<Rightarrow> True | Some n \<Rightarrow> n \<le> k)
              \<and> (case fv_max v of None \<Rightarrow> True | Some n \<Rightarrow> k \<le> n)
          | _ \<Rightarrow> True))"

lemma first_problem_None: "first_problem ps = None \<longleftrightarrow> list_all (\<lambda>p. p = None) ps"
  by (induction ps) (auto simp: first_problem_def split: list.splits option.splits)

lemma fails_rule_None [simp]: "fails_rule b msg = None \<longleftrightarrow> \<not> b"
  by (simp add: fails_rule_def)

lemma rule_problem_None:
  "rule_problem num rx name v x = None \<longleftrightarrow> (case x of
      CText t \<Rightarrow> (case fv_minLength v of None \<Rightarrow> True | Some n \<Rightarrow> n \<le> length t)
        \<and> (case fv_maxLength v of None \<Rightarrow> True | Some n \<Rightarrow> n = 0 \<or> length t \<le> n)
        \<and> (case fv_pattern v of None \<Rightarrow> True | Some p \<Rightarrow> p = [] \<or> rx p t = Some True)
    | CNumber k \<Rightarrow> (case fv_min v of None \<Rightarrow> True | Some n \<Rightarrow> n \<le> k) \<and> (case fv_max v of None \<Rightarrow> True | Some n \<Rightarrow> k \<le> n)
    | _ \<Rightarrow> True)"
  unfolding rule_problem_def first_problem_None
  by (cases x) (auto simp: pattern_problem_def not_less split: option.splits bool.splits)

lemma validateEntryData_Cons:
  "validateEntryData num rx data (f # fs) = Inr () \<longleftrightarrow>
     field_accepts rx f (cd_get data (fd_name f)) \<and> validateEntryData num rx data fs = Inr ()"
proof (cases "fd_validation f")
  case (Some v)
  then show ?thesis
    using rule_problem_None[of num rx "fd_name f" v "cd_get data (fd_name f)"]
    by (cases "cd_get data (fd_name f)") (auto simp: field_accepts_def Let_def cv_empty_def split: option.splits)
qed (simp add: field_accepts_def)

lemma validateEntryData_step:
  "validateEntryData num rx data (f # fs) =
     (case validateEntryData num rx data [f] of Inl e \<Rightarrow> Inl e | Inr _ \<Rightarrow> validateEntryData num rx data fs)"
  by (auto simp: Let_def split: option.splits)

lemma validateEntryData_error:
  "validateEntryData num rx data fs = Inl e \<longleftrightarrow> (\<exists>ok f rest. fs = ok @ f # rest
     \<and> list_all (\<lambda>f. field_accepts rx f (cd_get data (fd_name f))) ok
     \<and> validateEntryData num rx data [f] = Inl e)"
proof (induction fs)
  case (Cons f fs)
  have one: "validateEntryData num rx data [f] = Inr () \<longleftrightarrow> field_accepts rx f (cd_get data (fd_name f))"
    by (simp only: validateEntryData_Cons validateEntryData.simps(1)) simp
  show ?case
  proof (cases "validateEntryData num rx data [f]")
    case (Inl e')
    then have "\<not> field_accepts rx f (cd_get data (fd_name f))" using one by simp
    then show ?thesis
      unfolding validateEntryData_step[of num rx data f fs] Inl sum.case
    proof (safe, goal_cases)
      case 1
      then show ?case using Inl by (intro exI[of _ "[]"]) (simp del: validateEntryData.simps)
    next
      case (2 ok' f' rest)
      then show ?case using Inl by (cases ok') (simp_all del: validateEntryData.simps)
    qed
  next
    case (Inr u)
    then have ok: "field_accepts rx f (cd_get data (fd_name f))" using one by simp
    show ?thesis
      unfolding validateEntryData_step[of num rx data f fs] Inr sum.case Cons.IH
    proof (safe, goal_cases)
      case (1 ok f' rest)
      then show ?case using ok by (intro exI[of _ "f # ok"]) simp
    next
      case (2 ok' f' rest)
      then show ?case using Inr by (cases ok') (auto simp del: validateEntryData.simps)
    qed
  qed
qed simp

text \<open>The data of an entry is accepted exactly when every field of its type accepts its value; when it
  is refused, the error is raised by the first field that does not.\<close>

theorem entry_validation_decides:
  "(validateEntryData num rx data fs = Inr () \<longleftrightarrow> list_all (\<lambda>f. field_accepts rx f (cd_get data (fd_name f))) fs)
   \<and> (validateEntryData num rx data fs = Inl e \<longleftrightarrow> (\<exists>ok f rest. fs = ok @ f # rest
        \<and> list_all (\<lambda>f. field_accepts rx f (cd_get data (fd_name f))) ok
        \<and> \<not> field_accepts rx f (cd_get data (fd_name f)) \<and> validateEntryData num rx data [f] = Inl e))"
proof (rule conjI)
  show "validateEntryData num rx data fs = Inr () \<longleftrightarrow> list_all (\<lambda>f. field_accepts rx f (cd_get data (fd_name f))) fs"
    by (induction fs) (simp_all add: validateEntryData_Cons del: validateEntryData.simps(2))
  have refused: "\<not> field_accepts rx f (cd_get data (fd_name f))" if "validateEntryData num rx data [f] = Inl e" for f
    using that validateEntryData_Cons[of num rx data f "[]"] by (simp del: validateEntryData.simps(2))
  show "validateEntryData num rx data fs = Inl e \<longleftrightarrow> (\<exists>ok f rest. fs = ok @ f # rest
        \<and> list_all (\<lambda>f. field_accepts rx f (cd_get data (fd_name f))) ok
        \<and> \<not> field_accepts rx f (cd_get data (fd_name f)) \<and> validateEntryData num rx data [f] = Inl e)"
    unfolding validateEntryData_error[of num rx data fs e] using refused by metis
qed

section \<open>Slugs are canonical\<close>

abbreviation dash :: char where "dash \<equiv> CHR ''-''"

abbreviation no_double_dash :: "string \<Rightarrow> bool" where
  "no_double_dash \<equiv> successively (\<lambda>a b. \<not> (a = dash \<and> b = dash))"

definition canonical_slug :: "string \<Rightarrow> bool" where
  "canonical_slug s \<longleftrightarrow> list_all (\<lambda>c. slug_char c \<or> c = dash) s \<and> no_double_dash s
     \<and> (s = [] \<or> hd s \<noteq> dash \<and> last s \<noteq> dash)"

lemma slug_char_dash [simp]: "\<not> slug_char dash"
  by (simp add: slug_char_def)

lemma dash_runs_shape:
  "list_all (\<lambda>c. slug_char c \<or> c = dash) (dash_runs r s) \<and> no_double_dash (dash_runs r s)
   \<and> (r \<and> dash_runs r s \<noteq> [] \<longrightarrow> hd (dash_runs r s) \<noteq> dash)"
  by (induction r s rule: dash_runs.induct) (auto simp: successively_Cons)

lemma trim_dash_canonical:
  assumes "list_all (\<lambda>c. slug_char c \<or> c = dash) s" and "no_double_dash s"
  shows "canonical_slug (trim_dash s)"
proof -
  define t where "t = (case s of c # cs \<Rightarrow> if c = dash then cs else s | [] \<Rightarrow> [])"
  have t: "list_all (\<lambda>c. slug_char c \<or> c = dash) t" "no_double_dash t" "t \<noteq> [] \<Longrightarrow> hd t \<noteq> dash"
    using assms by (auto simp: t_def successively_Cons split: list.splits if_splits)
  have "canonical_slug (if t \<noteq> [] \<and> last t = dash then butlast t else t)"
  proof (cases t rule: rev_cases)
    case (snoc u c)
    show ?thesis
    proof (cases "c = dash")
      case True
      then have "u \<noteq> [] \<Longrightarrow> last u \<noteq> dash" using t(2) snoc by (simp add: successively_append_iff)
      moreover have "u \<noteq> [] \<Longrightarrow> hd u \<noteq> dash" using t(3) snoc by simp
      ultimately show ?thesis using t snoc True by (auto simp: canonical_slug_def successively_append_iff)
    next
      case False
      then show ?thesis using t snoc by (auto simp: canonical_slug_def)
    qed
  qed (simp add: canonical_slug_def)
  then show ?thesis by (simp add: trim_dash_def t_def[symmetric] Let_def)
qed

lemma dash_runs_canonical:
  assumes "list_all (\<lambda>c. slug_char c \<or> c = dash) s" and "no_double_dash s" and "r \<Longrightarrow> s \<noteq> [] \<Longrightarrow> hd s \<noteq> dash"
  shows "dash_runs r s = s"
  using assms by (induction r s rule: dash_runs.induct) (auto simp: successively_Cons)

lemma canonical_slug_fixed:
  assumes "canonical_slug s" and "fold_marks s = s"
  shows "slugify fold_marks s = s"
proof -
  have chars: "list_all (\<lambda>c. slug_char c \<or> c = dash) s" and "no_double_dash s"
    and ends: "s = [] \<or> hd s \<noteq> dash \<and> last s \<noteq> dash" using assms(1) by (simp_all add: canonical_slug_def)
  have "to_lower s = s"
    using chars unfolding to_lower_def
    by (induction s) (auto simp: slug_char_def Let_def)
  moreover have "dash_runs False s = s" by (rule dash_runs_canonical) (use chars \<open>no_double_dash s\<close> in auto)
  moreover have "trim_dash s = s" using ends by (cases s) (auto simp: trim_dash_def Let_def)
  ultimately show ?thesis using assms(2) by (simp add: slugify_def)
qed

text \<open>A generated slug consists of lower case letters, digits and single inner dashes, whatever the
  source; and generating a slug from a slug gives it back, when the normalization leaves ASCII text
  alone.\<close>

theorem slugs_are_canonical:
  assumes "\<And>s. list_all (\<lambda>c. of_char c < (128 :: nat)) s \<Longrightarrow> fold_marks s = s"
  shows "canonical_slug (slugify fold_marks source) \<and>
     slugify fold_marks (slugify fold_marks source) = slugify fold_marks source"
proof -
  have canonical: "canonical_slug (slugify fold_marks source)"
    unfolding slugify_def using dash_runs_shape[of False] by (intro trim_dash_canonical) blast+
  then have "list_all (\<lambda>c. of_char c < (128 :: nat)) (slugify fold_marks source)"
    unfolding canonical_slug_def by (auto simp: list_all_iff slug_char_def Let_def)
  then show ?thesis using canonical canonical_slug_fixed assms by blast
qed

theorem slugs_are_canonical_witness:
  "slugify id ''  Hello, World -- again!'' = ''hello-world-again''
   \<and> slugify id ''hello-world-again'' = ''hello-world-again''"
proof -
  have "slugify id ''  Hello, World -- again!'' = ''hello-world-again''"
    by code_simp
  then show ?thesis
    using conjunct2[OF slugs_are_canonical[of id "''  Hello, World -- again!''"]] by simp
qed

section \<open>The version history\<close>

text \<open>The laws for created rows and versions; \<open>vers\<close> are the versions recorded.\<close>

definition version_db_ok ::
  "('j, 's) content_db \<Rightarrow> ('s \<Rightarrow> 'j content_entry list) \<Rightarrow> ('s \<Rightarrow> 'j entry_version list) \<Rightarrow> bool" where
  "version_db_ok db rows vers \<longleftrightarrow> content_db_ok db rows
   \<and> (\<forall>e s e' s'. db_create db e s = Some (e', s') \<longrightarrow>
        (\<exists>i. i \<notin> en_id ` set (rows s) \<and> i \<notin> ev_entryId ` set (vers s) \<and> e' = e\<lparr>en_id := i\<rparr>
           \<and> set (rows s') = insert e' (set (rows s)) \<and> vers s' = vers s))
   \<and> (\<forall>v s s'. db_createVersion db v s = Some s' \<longrightarrow> rows s' = rows s \<and> vers s' = vers s @ [v])
   \<and> (\<forall>i p s e s'. db_update db i p s = Some (e, s') \<longrightarrow> vers s' = vers s)
   \<and> (\<forall>s. db_versions db s = vers s)"

lemma version_db_okD:
  assumes "version_db_ok db rows vers"
  shows "content_db_ok db rows"
    and "db_create db e s = Some (e', s') \<Longrightarrow> \<exists>i. i \<notin> en_id ` set (rows s) \<and> i \<notin> ev_entryId ` set (vers s)
      \<and> e' = e\<lparr>en_id := i\<rparr> \<and> set (rows s') = insert e' (set (rows s)) \<and> vers s' = vers s"
    and "db_createVersion db v s = Some s' \<Longrightarrow> rows s' = rows s \<and> vers s' = vers s @ [v]"
    and "db_update db i p s = Some (e, s') \<Longrightarrow> vers s' = vers s"
    and "db_versions db s = vers s"
proof -
  have d: "content_db_ok db rows"
    "\<forall>e s e' s'. db_create db e s = Some (e', s') \<longrightarrow>
        (\<exists>i. i \<notin> en_id ` set (rows s) \<and> i \<notin> ev_entryId ` set (vers s) \<and> e' = e\<lparr>en_id := i\<rparr>
           \<and> set (rows s') = insert e' (set (rows s)) \<and> vers s' = vers s)"
    "\<forall>v s s'. db_createVersion db v s = Some s' \<longrightarrow> rows s' = rows s \<and> vers s' = vers s @ [v]"
    "\<forall>i p s e s'. db_update db i p s = Some (e, s') \<longrightarrow> vers s' = vers s"
    "\<forall>s. db_versions db s = vers s"
    by (insert assms, unfold version_db_ok_def, elim conjE, assumption)+
  show "content_db_ok db rows" by (fact d(1))
  show "db_create db e s = Some (e', s') \<Longrightarrow> \<exists>i. i \<notin> en_id ` set (rows s) \<and> i \<notin> ev_entryId ` set (vers s)
      \<and> e' = e\<lparr>en_id := i\<rparr> \<and> set (rows s') = insert e' (set (rows s)) \<and> vers s' = vers s" using d(2) by blast
  show "db_createVersion db v s = Some s' \<Longrightarrow> rows s' = rows s \<and> vers s' = vers s @ [v]" using d(3) by blast
  show "db_update db i p s = Some (e, s') \<Longrightarrow> vers s' = vers s" using d(4) by blast
  show "db_versions db s = vers s" using d(5) by blast
qed

definition history :: "'j entry_version list \<Rightarrow> string \<Rightarrow> 'j entry_version list" where
  "history vs i = filter (\<lambda>v. ev_entryId v = i) vs"

text \<open>An entry at version n has recorded the versions 1 to n in order, the last one with its data.\<close>

definition history_ok :: "'j entry_version list \<Rightarrow> 'j content_entry \<Rightarrow> bool" where
  "history_ok vs e \<longleftrightarrow> 0 < en_version e \<and> map ev_version (history vs (en_id e)) = [1..<Suc (en_version e)]
     \<and> ev_data (last (history vs (en_id e))) = en_data e"

inductive entry_step :: "('j, 's) entry_env \<Rightarrow> 's \<Rightarrow> 's \<Rightarrow> bool" for env where
  create: "ces_create env typeId data lang slug tenantId createdBy s = (Inr e, s') \<Longrightarrow> entry_step env s s'"
| update: "ces_update env i r tenantId changedBy s = (Inr e, s') \<Longrightarrow> entry_step env s s'"
| delete: "ces_delete (ee_db env) i tenantId s = (Inr e, s') \<Longrightarrow> entry_step env s s'"
| duplicate: "ces_duplicate env i tenantId createdBy s = (Inr e, s') \<Longrightarrow> entry_step env s s'"

lemma with_version_InrD:
  "with_version db v who written s = (Inr e, s') \<Longrightarrow> \<exists>s1. written = Some (e, s1)
     \<and> db_createVersion db \<lparr>ev_entryId = en_id e, ev_version = v, ev_data = en_data e, ev_changedBy = who\<rparr> s1 = Some s'"
  by (auto simp: with_version_def cvs_createVersion_def split: option.splits)

lemma stored_InrD: "stored written s = (Inr x, s') \<Longrightarrow> written = Some (x, s')"
  by (auto simp: stored_def split: option.splits)

lemma history_append: "history (vs @ [v]) i = history vs i @ (if ev_entryId v = i then [v] else [])"
  by (simp add: history_def)

lemma history_fresh: "i \<notin> ev_entryId ` set vs \<Longrightarrow> history vs i = []"
  by (auto simp: history_def filter_empty_conv)

lemma ces_create_InrD:
  assumes db: "version_db_ok (ee_db env) rows vers"
    and c: "ces_create env typeId data lang slug tenantId createdBy s = (Inr e, s')"
  shows "\<exists>v. en_id e \<notin> en_id ` set (rows s) \<and> en_id e \<notin> ev_entryId ` set (vers s) \<and> en_version e = 1
    \<and> set (rows s') = insert e (set (rows s)) \<and> vers s' = vers s @ [v]
    \<and> ev_entryId v = en_id e \<and> ev_version v = 1 \<and> ev_data v = en_data e"
proof -
  from c obtain sl where "with_version (ee_db env) 1 createdBy
      (cer_create (ee_db env) typeId data (or_else lang (or_else (ee_defaultLocale env) ''en'')) sl tenantId createdBy s) s = (Inr e, s')"
    by (auto simp: ces_create_def split: sum.splits)
  from with_version_InrD[OF this] obtain s1 where s1:
    "cer_create (ee_db env) typeId data (or_else lang (or_else (ee_defaultLocale env) ''en'')) sl tenantId createdBy s = Some (e, s1)"
    "db_createVersion (ee_db env) \<lparr>ev_entryId = en_id e, ev_version = 1, ev_data = en_data e, ev_changedBy = createdBy\<rparr> s1 = Some s'"
    by blast
  note row = version_db_okD(2)[OF db s1(1)[unfolded cer_create_def]] and ver = version_db_okD(3)[OF db s1(2)]
  from row ver show ?thesis by (elim exE conjE) (intro exI conjI, auto)
qed

lemma history_ok_create:
  assumes "\<forall>e \<in> set (rows s). history_ok (vers s) e"
    and "en_id e \<notin> en_id ` set (rows s) \<and> en_id e \<notin> ev_entryId ` set (vers s) \<and> en_version e = 1
    \<and> set (rows s') = insert e (set (rows s)) \<and> vers s' = vers s @ [v]
    \<and> ev_entryId v = en_id e \<and> ev_version v = 1 \<and> ev_data v = en_data e"
  shows "\<forall>e \<in> set (rows s'). history_ok (vers s') e"
proof
  fix x assume "x \<in> set (rows s')"
  then have "x = e \<or> x \<in> set (rows s)" using assms(2) by simp
  moreover have "x \<in> set (rows s) \<Longrightarrow> en_id x \<noteq> en_id e" using assms(2) by (metis imageI)
  ultimately consider "x = e" | "x \<in> set (rows s)" "en_id x \<noteq> en_id e" by blast
  then show "history_ok (vers s') x"
  proof cases
    case 1
    then show ?thesis using assms(2) by (simp add: history_ok_def history_append history_fresh)
  next
    case 2
    then have "history (vers s') (en_id x) = history (vers s) (en_id x)" using assms(2) by (simp add: history_append)
    then show ?thesis using bspec[OF assms(1) 2(1)] by (simp add: history_ok_def)
  qed
qed

lemma ces_findById_InrD:
  assumes "content_db_ok db rows" and "ces_findById db i tenantId s = Inr e"
  shows "e \<in> set (rows s)" "en_id e = i"
  using assms cer_findById_iff[OF assms(1)] by (auto simp: ces_findById_def split: option.splits)

lemma update_rows_mem: "x \<in> set (update_rows i p R) \<longleftrightarrow> (\<exists>e\<in>set R. x = (if en_id e = i then set_columns p e else e))"
  unfolding update_rows_def set_map image_def by blast

text \<open>A change of neither version nor data leaves the histories as they are.\<close>

lemma history_ok_same:
  assumes "\<forall>e \<in> set R. history_ok vs e" and "pa_data p = None" and "pa_version p = None"
  shows "\<forall>e \<in> set (update_rows i p R). history_ok vs e"
proof -
  have "history_ok vs (set_columns p e) = history_ok vs e" for e
    using assms(2,3) by (simp add: history_ok_def set_columns_def)
  then show ?thesis using assms(1) by (auto simp: update_rows_def)
qed

text \<open>A change that counts the version up and records it.\<close>

lemma history_ok_bump:
  assumes ok: "\<forall>e \<in> set R. history_ok vs e" and ids: "distinct (map en_id R)" and e0: "e0 \<in> set R"
    and p: "pa_version p = Some (Suc (en_version e0))"
    and v: "ev_entryId v = en_id e0" "ev_version v = Suc (en_version e0)" "ev_data v = en_data (set_columns p e0)"
  shows "\<forall>e \<in> set (update_rows (en_id e0) p R). history_ok (vs @ [v]) e"
proof
  fix x assume "x \<in> set (update_rows (en_id e0) p R)"
  then obtain e where e: "e \<in> set R" "x = (if en_id e = en_id e0 then set_columns p e else e)"
    unfolding update_rows_mem by blast
  show "history_ok (vs @ [v]) x"
  proof (cases "en_id e = en_id e0")
    case True
    then have "e = e0" using ids e(1) e0 by (meson distinct_map inj_onD)
    then show ?thesis
      using bspec[OF ok e0] e(2) p v by (simp add: history_ok_def history_append set_columns_def)
  next
    case False
    then show ?thesis using bspec[OF ok e(1)] e(2) v(1) by (simp add: history_ok_def history_append)
  qed
qed

lemma ces_update_InrD:
  assumes db: "version_db_ok (ee_db env) rows vers" and u: "ces_update env i r tenantId changedBy s = (Inr e, s')"
    and ok: "\<forall>e \<in> set (rows s). history_ok (vers s) e"
  shows "\<forall>e \<in> set (rows s'). history_ok (vers s') e"
proof -
  let ?db = "ee_db env"
  note cdb = version_db_okD(1)[OF db]
  obtain p v where pv: "ces_update_read env i r tenantId s = Inr (p, v)" "ces_update_write ?db i (p, v) changedBy s = (Inr e, s')"
    using u by (auto simp: ces_update_def split: sum.splits)
  obtain e0 where e0: "ces_findById ?db i tenantId s = Inr e0"
    using pv(1) by (auto simp: ces_update_read_def split: sum.splits)
  have row: "e0 \<in> set (rows s)" "en_id e0 = i" using ces_findById_InrD[OF cdb e0] by simp_all
  have shape: "(v = None \<and> pa_data p = None \<and> pa_version p = None) \<or>
      (v = Some (Suc (en_version e0)) \<and> pa_version p = Some (Suc (en_version e0)))"
    using pv(1) e0 by (auto simp: ces_update_read_def no_change_def split: sum.splits if_splits)
  show ?thesis
  proof (cases v)
    case None
    then have w: "cer_update ?db i p s = Some (e, s')"
      using pv(2) stored_InrD by (auto simp: ces_update_write_def)
    then have "db_update ?db i (repo_columns p) s = Some (e, s')" by (simp add: cer_update_db)
    then have "vers s' = vers s" by (rule version_db_okD(4)[OF db])
    then show ?thesis
      using history_ok_same[OF ok, of "repo_columns p" i] shape None cer_update_rows(1)[OF cdb w]
      by (simp add: repo_columns_def)
  next
    case (Some n)
    then have n: "n = Suc (en_version e0)" "pa_version p = Some (Suc (en_version e0))" using shape by auto
    from pv(2) Some obtain s1 where w: "cer_update ?db i p s = Some (e, s1)"
      "db_createVersion ?db \<lparr>ev_entryId = en_id e, ev_version = n, ev_data = en_data e, ev_changedBy = changedBy\<rparr> s1 = Some s'"
      using with_version_InrD[of ?db n changedBy _ s e s'] by (auto simp: ces_update_write_def)
    note upd = cer_update_rows[OF cdb w(1)]
    have "db_update ?db i (repo_columns p) s = Some (e, s1)" using w(1) by (simp add: cer_update_db)
    then have v1: "vers s1 = vers s" by (rule version_db_okD(4)[OF db])
    have "e \<in> set (update_rows i (repo_columns p) (rows s))" using upd by simp
    then have e: "e = set_columns (repo_columns p) e0"
      using upd(3) row content_db_okD(1)[OF cdb, of s] unfolding update_rows_mem
      by (metis distinct_map inj_onD set_columns_id)
    note ver = version_db_okD(3)[OF db w(2)]
    have "\<forall>x \<in> set (update_rows (en_id e0) (repo_columns p) (rows s)).
        history_ok (vers s @ [\<lparr>ev_entryId = en_id e, ev_version = n, ev_data = en_data e, ev_changedBy = changedBy\<rparr>]) x"
      by (rule history_ok_bump[OF ok content_db_okD(1)[OF cdb] row(1)])
        (use n upd(3) row(2) e in \<open>simp_all add: repo_columns_def\<close>)
    then show ?thesis using ver v1 upd(1) row(2) by simp
  qed
qed

lemma ces_delete_InrD:
  assumes db: "version_db_ok (ee_db env) rows vers" and d: "ces_delete (ee_db env) i tenantId s = (Inr e, s')"
    and ok: "\<forall>e \<in> set (rows s). history_ok (vers s) e"
  shows "\<forall>e \<in> set (rows s'). history_ok (vers s') e"
proof -
  have w: "db_update (ee_db env) i (no_change\<lparr>pa_status := Some ARCHIVED\<rparr>) s = Some (e, s')"
    using d stored_InrD by (auto simp: ces_delete_def cer_softDelete_def split: sum.splits)
  show ?thesis
    using history_ok_same[OF ok, of "no_change\<lparr>pa_status := Some ARCHIVED\<rparr>" i] version_db_okD(4)[OF db w]
      content_db_okD(7)[OF version_db_okD(1)[OF db] w]
    by (simp add: no_change_def)
qed

lemma entry_step_history:
  assumes db: "version_db_ok (ee_db env) rows vers" and step: "entry_step env s s'"
    and ok: "\<forall>e \<in> set (rows s). history_ok (vers s) e"
  shows "\<forall>e \<in> set (rows s'). history_ok (vers s') e"
  using step
proof cases
  case create
  from ces_create_InrD[OF db this] show ?thesis using history_ok_create[where rows = rows and vers = vers, OF ok] by blast
next
  case update
  from ces_update_InrD[OF db this ok] show ?thesis .
next
  case delete
  from ces_delete_InrD[OF db this ok] show ?thesis .
next
  case (duplicate i tenantId createdBy e)
  obtain src where src: "ces_findById (ee_db env) i tenantId s = Inr src"
    using duplicate by (cases "ces_findById (ee_db env) i tenantId s") (simp_all add: ces_duplicate_def)
  have "ces_create env (en_contentTypeId src) (en_data src) (Some (en_locale src))
      (case en_slug src of None \<Rightarrow> None | Some sl \<Rightarrow> if sl = [] then None else Some (sl @ ''-copy''))
      tenantId createdBy s = (Inr e, s')"
    using duplicate unfolding ces_duplicate_def src sum.case .
  from ces_create_InrD[OF db this] show ?thesis using history_ok_create[where rows = rows and vers = vers, OF ok] by blast
qed


text \<open>Two updates of an entry at version n whose reads both come first record the version n + 1 twice.\<close>

lemma concurrent_updates_share_a_version:
  assumes db: "version_db_ok (ee_db env) rows vers" and e: "ces_findById (ee_db env) i tenantId s = Inr e"
    and reads: "ces_update_read env i r1 tenantId s = Inr (p1, Some n1)"
      "ces_update_read env i r2 tenantId s = Inr (p2, Some n2)"
    and w1: "ces_update_write (ee_db env) i (p1, Some n1) who1 s = (Inr e1, s1)"
    and w2: "ces_update_write (ee_db env) i (p2, Some n2) who2 s1 = (Inr e2, s2)"
  shows "n1 = en_version e + 1 \<and> n2 = en_version e + 1
    \<and> map ev_version (history (vers s2) i) = map ev_version (history (vers s) i) @ [en_version e + 1, en_version e + 1]"
proof -
  have n: "n1 = en_version e + 1" "n2 = en_version e + 1"
    using reads e by (auto simp: ces_update_read_def split: sum.splits if_splits)
  have recorded: "\<exists>v. vers t' = vers t @ [v] \<and> ev_entryId v = i \<and> ev_version v = n"
    if w: "ces_update_write (ee_db env) i (p, Some n) who t = (Inr x, t')" for p n who t x t'
  proof -
    from w obtain t1 where t1: "cer_update (ee_db env) i p t = Some (x, t1)"
      "db_createVersion (ee_db env) \<lparr>ev_entryId = en_id x, ev_version = n, ev_data = en_data x, ev_changedBy = who\<rparr> t1 = Some t'"
      using with_version_InrD[of "ee_db env" n who _ t x t'] by (auto simp: ces_update_write_def)
    have "db_update (ee_db env) i (repo_columns p) t = Some (x, t1)" using t1(1) by (simp add: cer_update_db)
    then have "vers t1 = vers t" by (rule version_db_okD(4)[OF db])
    then show ?thesis
      using version_db_okD(3)[OF db t1(2)] cer_update_rows(3)[OF version_db_okD(1)[OF db] t1(1)] by auto
  qed
  from recorded[OF w1] recorded[OF w2] show ?thesis using n by (auto simp: history_def)
qed

subsection \<open>A client over lists\<close>

type_synonym 'j version_store = "'j entry_table \<times> 'j entry_version list"

definition unused_id :: "string list \<Rightarrow> string" where
  "unused_id is = replicate (Suc (foldr (\<lambda>i n. max (length i) n) is 0)) CHR ''i''"

lemma unused_id_fresh: "unused_id is \<notin> set is"
proof
  have bound: "i \<in> set is \<Longrightarrow> length i \<le> foldr (\<lambda>i n. max (length i) n) is 0" for i
    by (induction "is") auto
  assume "unused_id is \<in> set is"
  from bound[OF this] show False by (simp add: unused_id_def)
qed

definition version_store_db :: "('j, 'j version_store) content_db" where
  "version_store_db =
     \<lparr>db_findFirst = (\<lambda>P (t, vs). find P (table_rows t)),
      db_findMany = (\<lambda>P (t, vs). filter P (table_rows t)),
      db_create = (\<lambda>e (t, vs). let e' = e\<lparr>en_id := unused_id (map en_id (table_rows t) @ map ev_entryId vs)\<rparr>
         in Some (e', (table_of (table_rows t @ [e']), vs))),
      db_update = (\<lambda>i p (t, vs). map_option (\<lambda>e. (set_columns p e, (table_update i p t, vs)))
         (find (\<lambda>e. en_id e = i) (table_rows t))),
      db_delete = (\<lambda>i (t, vs). Some (table_of (filter (\<lambda>e. en_id e \<noteq> i) (table_rows t)), vs)),
      db_createVersion = (\<lambda>v (t, vs). Some (t, vs @ [v])),
      db_versions = snd,
      db_findFirstLocale = (\<lambda>P s. None),
      db_findManyLocales = (\<lambda>P s. [])\<rparr>"

lemma version_store_content_ok: "content_db_ok version_store_db (table_rows \<circ> fst)"
  unfolding content_db_ok_def
proof (intro conjI allI impI)
  show "distinct (map en_id ((table_rows \<circ> fst) s))" for s :: "'a version_store"
    by (simp add: table_rows_distinct)
  show "distinct (db_findMany version_store_db P s)" for P and s :: "'a version_store"
    using table_rows_distinct[of "fst s"] by (cases s) (simp add: version_store_db_def distinct_map)
  show "db_update version_store_db i p s = None \<longleftrightarrow> i \<notin> en_id ` set ((table_rows \<circ> fst) s)"
    for i p and s :: "'a version_store"
    by (auto simp: version_store_db_def find_None_iff split: prod.split)
  fix i p e and s s' :: "'a version_store"
  assume "db_update version_store_db i p s = Some (e, s')"
  then obtain x where x: "find (\<lambda>e. en_id e = i) (table_rows (fst s)) = Some x" "e = set_columns p x"
    "fst s' = table_update i p (fst s)"
    by (auto simp: version_store_db_def split: prod.splits)
  then show "(table_rows \<circ> fst) s' = update_rows i p ((table_rows \<circ> fst) s)" "en_id e = i" "e \<in> set ((table_rows \<circ> fst) s')"
    using find_SomeD[OF x(1)] by (auto simp: update_rows_def)
qed (auto simp: version_store_db_def find_None_iff dest: find_SomeD split: prod.splits)

lemma version_store_ok: "version_db_ok version_store_db (table_rows \<circ> fst) snd"
  unfolding version_db_ok_def
proof (intro conjI allI impI)
  fix e e' and s s' :: "'a version_store"
  obtain t vs where s: "s = (t, vs)" by (cases s)
  let ?i = "unused_id (map en_id (table_rows t) @ map ev_entryId vs)"
  assume "db_create version_store_db e s = Some (e', s')"
  then have e': "e' = e\<lparr>en_id := ?i\<rparr>" "s' = (table_of (table_rows t @ [e']), vs)"
    by (auto simp: version_store_db_def s Let_def)
  have fresh: "?i \<notin> set (map en_id (table_rows t) @ map ev_entryId vs)" by (rule unused_id_fresh)
  then have "distinct (map en_id (table_rows t @ [e']))" using table_rows_distinct[of t] e'(1) by auto
  then have "table_rows (fst s') = table_rows t @ [e']" using e'(2) by simp
  then show "\<exists>i. i \<notin> en_id ` set ((table_rows \<circ> fst) s) \<and> i \<notin> ev_entryId ` set (snd s) \<and> e' = e\<lparr>en_id := i\<rparr>
      \<and> set ((table_rows \<circ> fst) s') = insert e' (set ((table_rows \<circ> fst) s)) \<and> snd s' = snd s"
    using fresh e' s by (intro exI[of _ ?i]) auto
qed (rule version_store_content_ok, auto simp: version_store_db_def split: prod.splits)

definition post_type :: content_type where
  "post_type = \<lparr>ct_id = ''post'', ct_name = ''Post'', ct_slug = ''post'', ct_description = None,
     ct_fields = [title_field], ct_components = [], ct_tenantId = None\<rparr>"

definition example_env :: "(unit, unit version_store) entry_env" where
  "example_env = \<lparr>ee_db = version_store_db,
     ee_types = \<lparr>td_findFirst = (\<lambda>P s. find P [post_type]), td_findMany = (\<lambda>P s. filter P [post_type]),
       td_count = (\<lambda>P s. length (filter P [post_type])), td_create = (\<lambda>t s. None), td_update = (\<lambda>i p s. None),
       td_delete = (\<lambda>i s. None), td_findFirstComponent = (\<lambda>P s. None)\<rparr>,
     ee_num = (\<lambda>n. []), ee_rx = (\<lambda>p t. None), ee_fold_marks = id, ee_defaultLocale = None\<rparr>"

definition example_entry :: "unit content_entry" where
  "example_entry = \<lparr>en_id = ''i'', en_contentTypeId = ''post'', en_data = [(''title'', CText ''Hi'')], en_locale = ''en'',
     en_status = DRAFT, en_version = 1, en_slug = None, en_publishedAt = None, en_scheduledAt = None,
     en_scheduledUnpublishAt = None, en_tenantId = None, en_createdBy = None\<rparr>"

definition example_version :: "unit entry_version" where
  "example_version = \<lparr>ev_entryId = ''i'', ev_version = 1, ev_data = [(''title'', CText ''Hi'')], ev_changedBy = None\<rparr>"

lemma example_create:
  "ces_create example_env ''post'' [(''title'', CText ''Hi'')] None None None None (table_of [], []) =
     (Inr example_entry, (table_of [example_entry], [example_version]))"
  by (simp add: ces_create_def example_env_def cts_findById_def ctr_findById_def post_type_def tenant_where_def
      title_field_def with_version_def cer_create_def generateSlug_def version_store_db_def unused_id_def
      cvs_createVersion_def example_entry_def example_version_def Let_def)


end
