(* ===== verification/Js_Text.thy ===== *)
theory Js_Text
  imports Complex_Main Boot_Prelude
begin

text \<open>
  JSON values and the string methods the content services share: \<open>slice\<close> with its negative
  positions, and \<open>split\<close> on a separator of any length.
\<close>

section \<open>JSON values\<close>

text \<open>
  A number is a rational (every finite double is one); an object lists its fields in the order in
  which \<open>Object.entries\<close> enumerates them.
\<close>

datatype json = JNull | JBool bool | JNum rat | JStr string | JArr "json list" | JObj "(string \<times> json) list"

type_synonym json_record = "(string, json) jsmap"

text \<open>The values that count as true.\<close>

fun js_truthy :: "json \<Rightarrow> bool" where
  "js_truthy JNull = False"
| "js_truthy (JBool b) = b"
| "js_truthy (JNum n) = (n \<noteq> 0)"
| "js_truthy (JStr s) = (s \<noteq> [])"
| "js_truthy (JArr _) = True"
| "js_truthy (JObj _) = True"

text \<open>Objects have distinct keys, at every depth.\<close>

fun json_wf :: "json \<Rightarrow> bool" and elems_wf :: "json list \<Rightarrow> bool" and members_wf :: "(string \<times> json) list \<Rightarrow> bool" where
  "json_wf (JArr xs) \<longleftrightarrow> elems_wf xs"
| "json_wf (JObj kvs) \<longleftrightarrow> jm_wf kvs \<and> members_wf kvs"
| "json_wf _ \<longleftrightarrow> True"
| "elems_wf [] \<longleftrightarrow> True"
| "elems_wf (x # xs) \<longleftrightarrow> json_wf x \<and> elems_wf xs"
| "members_wf [] \<longleftrightarrow> True"
| "members_wf ((k, v) # kvs) \<longleftrightarrow> json_wf v \<and> members_wf kvs"

lemma members_wf_iff: "members_wf kvs \<longleftrightarrow> (\<forall>(k, v)\<in>set kvs. json_wf v)"
  by (induction kvs) auto

section \<open>Slices\<close>

definition js_rel :: "nat \<Rightarrow> int \<Rightarrow> nat" where
  "js_rel n i = (if i < 0 then nat (int n + i) else min (nat i) n)"

definition js_slice :: "string \<Rightarrow> int \<Rightarrow> int \<Rightarrow> string" where
  "js_slice s a b = take (js_rel (length s) b - js_rel (length s) a) (drop (js_rel (length s) a) s)"

lemma js_slice_pos:
  assumes "0 \<le> a" and "0 \<le> n"
  shows "js_slice s a (a + n) = take (nat n) (drop (nat a) s)"
proof -
  obtain i k where ik: "a = int i" "n = int k" using assms by (metis nonneg_int_cases)
  have nat: "nat (int i + int k) = i + k" by simp
  show ?thesis
  proof (cases "i \<le> length s")
    case True
    then show ?thesis unfolding js_slice_def js_rel_def ik nat by (auto simp: min_def take_all)
  qed (simp add: js_slice_def js_rel_def ik nat)
qed

lemma js_slice_length: "0 \<le> a \<Longrightarrow> 0 \<le> n \<Longrightarrow> length (js_slice s a (a + n)) \<le> nat n"
  by (simp add: js_slice_pos)

text \<open>\<open>s.slice(-n)\<close>: the end of the string.\<close>

lemma js_slice_end:
  assumes "0 < n"
  shows "js_slice s (- n) (int (length s)) = drop (length s - nat n) s"
proof -
  obtain k where k: "n = int k" using assms by (metis nonneg_int_cases less_imp_le)
  have "nat (int (length s) + - int k) = length s - k" by simp
  then show ?thesis using assms unfolding k js_slice_def js_rel_def by simp
qed

section \<open>Splitting on a separator\<close>

function js_splits :: "string \<Rightarrow> string \<Rightarrow> string list" where
  "js_splits sep s =
     (if sep \<noteq> [] \<and> starts_with s sep then [] # js_splits sep (drop (length sep) s)
      else (case s of [] \<Rightarrow> [[]]
        | c # cs \<Rightarrow> (case js_splits sep cs of [] \<Rightarrow> [[c]] | p # ps \<Rightarrow> (c # p) # ps)))"
  by pat_completeness auto
termination
  by (relation "measure (\<lambda>(sep, s). length s)") (auto simp: prefix_def)

declare js_splits.simps [simp del]

lemma js_splits_not_Nil [simp]: "js_splits sep s \<noteq> []"
  by (subst js_splits.simps) (auto split: list.splits)

lemma js_splits_join: "sep \<noteq> [] \<Longrightarrow> js_join sep (js_splits sep s) = s"
proof (induction sep s rule: js_splits.induct)
  case (1 sep s)
  show ?case
  proof (cases "starts_with s sep")
    case True
    then obtain t where t: "s = sep @ t" by (auto simp: prefix_def)
    then show ?thesis using 1 by (subst js_splits.simps) (simp add: js_join_Cons)
  next
    case False
    show ?thesis
    proof (cases s)
      case Nil
      then show ?thesis using False by (subst js_splits.simps) simp
    next
      case (Cons c cs)
      then have IH: "js_join sep (js_splits sep cs) = cs" using 1 False by simp
      obtain p ps where ps: "js_splits sep cs = p # ps" by (cases "js_splits sep cs") auto
      then have "js_join sep ((c # p) # ps) = c # js_join sep (p # ps)" by (cases ps) auto
      then show ?thesis using IH ps False Cons by (subst js_splits.simps) simp
    qed
  qed
qed

end
