(* ===== verification/Content_Chunking.thy ===== *)
theory Content_Chunking
  imports Js_Text "HOL-Library.Sublist"
begin

text \<open>
  The chunker of the retrieval service, \<open>content/services/rag/chunking.service.ts\<close>: text is taken out
  of the data of an entry and cut into overlapping chunks. The hard split may run for ever, so it is
  a partial function: \<open>None\<close> is a call that does not return.
\<close>

section \<open>Data\<close>

record chunker =
  chunkSize :: int
  chunkOverlap :: int

definition chunker_new :: "int option \<Rightarrow> int option \<Rightarrow> chunker" where
  "chunker_new sz overlap = \<lparr>chunkSize = or_else sz 4000, chunkOverlap = or_else overlap 200\<rparr>"

datatype meta_value = MetaNum nat | MetaJson json

record text_chunk =
  tc_index :: nat
  tc_text :: string
  tc_metadata :: "(string, meta_value) jsmap option"

section \<open>Extracting the text\<close>

text \<open>\<open>html.replace(/<[^>]*>/g, ' ')\<close>, then \<open>.replace(/\s+/g, ' ')\<close>.\<close>

lemma tl_dropWhile_length [termination_simp]: "length (dropWhile P xs) - Suc 0 < Suc (length xs)"
  using length_dropWhile_le[of P xs] by linarith

fun strip_tags :: "string \<Rightarrow> string" where
  "strip_tags [] = []"
| "strip_tags (c # cs) =
     (if c = CHR ''<'' \<and> CHR ''>'' \<in> set cs
      then CHR '' '' # strip_tags (tl (dropWhile (\<lambda>c. c \<noteq> CHR ''>'') cs)) else c # strip_tags cs)"

fun squeeze_spaces :: "bool \<Rightarrow> string \<Rightarrow> string" where
  "squeeze_spaces inRun [] = []"
| "squeeze_spaces inRun (c # cs) =
     (if js_space c then (if inRun then squeeze_spaces True cs else CHR '' '' # squeeze_spaces True cs)
      else c # squeeze_spaces False cs)"

definition stripHtml :: "string \<Rightarrow> string" where
  "stripHtml html = squeeze_spaces False (strip_tags html)"

definition METADATA_FIELDS :: "string list" where
  "METADATA_FIELDS = [''id'', ''slug'', ''createdAt'', ''updatedAt'', ''publishedAt'', ''scheduledAt'']"

text \<open>\<open>walkObject\<close>; numbers and booleans are none of its cases.\<close>

fun walkObject :: "json \<Rightarrow> string list \<Rightarrow> string list"
  and walk_items :: "json list \<Rightarrow> string list \<Rightarrow> string list"
  and walk_fields :: "(string \<times> json) list \<Rightarrow> string list \<Rightarrow> string list" where
  "walkObject JNull parts = parts"
| "walkObject (JStr s) parts = (let cleaned = js_trim (stripHtml s) in if cleaned \<noteq> [] then parts @ [cleaned] else parts)"
| "walkObject (JArr items) parts = walk_items items parts"
| "walkObject (JObj fs) parts = walk_fields fs parts"
| "walkObject (JBool b) parts = parts"
| "walkObject (JNum n) parts = parts"
| "walk_items [] parts = parts"
| "walk_items (x # xs) parts = walk_items xs (walkObject x parts)"
| "walk_fields [] parts = parts"
| "walk_fields ((key, val) # fs) parts =
     (if key \<in> set METADATA_FIELDS then walk_fields fs parts else walk_fields fs (walkObject val parts))"

definition extractText :: "json_record \<Rightarrow> string" where
  "extractText data = js_trim (js_join ''\<newline>\<newline>'' (walkObject (JObj data) []))"

section \<open>Splitting\<close>

partial_function (option) hard_from :: "chunker \<Rightarrow> string \<Rightarrow> int \<Rightarrow> string list \<Rightarrow> string list option" where
  "hard_from c text i chunks =
     (if i < int (length text)
      then (if int (length text) \<le> i + chunkSize c then Some (chunks @ [js_slice text i (i + chunkSize c)])
            else hard_from c text (i + (chunkSize c - chunkOverlap c)) (chunks @ [js_slice text i (i + chunkSize c)]))
      else Some chunks)"

definition hardSplit :: "chunker \<Rightarrow> string \<Rightarrow> string list option" where
  "hardSplit c text = hard_from c text 0 []"

definition addOverlap :: "chunker \<Rightarrow> string list \<Rightarrow> string list" where
  "addOverlap c chunks =
     (if length chunks \<le> 1 \<or> chunkOverlap c \<le> 0 then chunks
      else hd chunks # map (\<lambda>(prev, chunk). js_slice prev (- chunkOverlap c) (int (length prev)) @ chunk)
                         (zip chunks (tl chunks)))"

text \<open>The loop of \<open>splitBySeparators\<close> over the parts; \<open>split\<close> is the recursive call.\<close>

fun pack_parts :: "chunker \<Rightarrow> string \<Rightarrow> (string \<Rightarrow> string list option) \<Rightarrow> string list \<Rightarrow> string list \<Rightarrow> string
    \<Rightarrow> (string list \<times> string) option" where
  "pack_parts c sep split [] chunks current = Some (chunks, current)"
| "pack_parts c sep split (part # parts) chunks current =
     (let candidate = (if current \<noteq> [] then current @ sep @ part else part) in
      if int (length candidate) \<le> chunkSize c then pack_parts c sep split parts chunks candidate
      else let chunks = (if current \<noteq> [] then chunks @ [current] else chunks) in
        if int (length part) > chunkSize c
        then (case split part of None \<Rightarrow> None | Some cs \<Rightarrow> pack_parts c sep split parts (chunks @ cs) [])
        else pack_parts c sep split parts chunks part)"

fun splitBySeparators :: "chunker \<Rightarrow> string list \<Rightarrow> string \<Rightarrow> string list option" where
  "splitBySeparators c [] text = (if int (length text) \<le> chunkSize c then Some [text] else hardSplit c text)"
| "splitBySeparators c (sep # remaining) text =
     (if int (length text) \<le> chunkSize c then Some [text]
      else case pack_parts c sep (splitBySeparators c remaining) (js_splits sep text) [] [] of
        None \<Rightarrow> None
      | Some (chunks, current) \<Rightarrow> Some (addOverlap c (if current \<noteq> [] then chunks @ [current] else chunks)))"

definition SEPARATORS :: "string list" where
  "SEPARATORS = [''\<newline>\<newline>'', ''\<newline>'', ''. '', '' '']"

definition recursiveSplit :: "chunker \<Rightarrow> string \<Rightarrow> string list option" where
  "recursiveSplit c text = splitBySeparators c SEPARATORS text"

definition chunk_metadata :: "(string, meta_value) jsmap option \<Rightarrow> nat \<Rightarrow> nat \<Rightarrow> (string, meta_value) jsmap" where
  "chunk_metadata metadata i n =
     jm_set (jm_set (or_else metadata []) ''chunkIndex'' (MetaNum i)) ''totalChunks'' (MetaNum n)"

definition chunk_text :: "chunker \<Rightarrow> string \<Rightarrow> (string, meta_value) jsmap option \<Rightarrow> text_chunk list option" where
  "chunk_text c text metadata =
     (if text = [] then Some []
      else if int (length text) \<le> chunkSize c then Some [\<lparr>tc_index = 0, tc_text = text, tc_metadata = metadata\<rparr>]
      else map_option (\<lambda>raw. map (\<lambda>(i, t). \<lparr>tc_index = i, tc_text = t,
             tc_metadata = Some (chunk_metadata metadata i (length raw))\<rparr>) (zip [0..<length raw] raw))
           (recursiveSplit c text))"

definition extractAndChunk :: "chunker \<Rightarrow> json_record \<Rightarrow> (string, meta_value) jsmap option \<Rightarrow> text_chunk list option" where
  "extractAndChunk c data metadata = chunk_text c (extractText data) metadata"

section \<open>Nothing is lost\<close>

text \<open>The characters that are in no separator.\<close>

definition solid :: "char \<Rightarrow> bool" where
  "solid ch \<longleftrightarrow> ch \<noteq> CHR ''\<newline>'' \<and> ch \<noteq> CHR ''.'' \<and> ch \<noteq> CHR '' ''"

definition keeps :: "chunker \<Rightarrow> string \<Rightarrow> string \<Rightarrow> bool" where
  "keeps c a b \<longleftrightarrow> subseq a b \<and> (chunkOverlap c = 0 \<longrightarrow> a = b)"

lemma keeps_refl [simp, intro]: "keeps c a a"
  by (simp add: keeps_def)

lemma keeps_trans: "keeps c x y \<Longrightarrow> keeps c y z \<Longrightarrow> keeps c x z"
  unfolding keeps_def by (metis subseq_order.trans)

lemma keeps_append: "keeps c a b \<Longrightarrow> keeps c x y \<Longrightarrow> keeps c (a @ x) (b @ y)"
  unfolding keeps_def by (auto intro: list_emb_append_mono)

lemma keeps_filter: "keeps c a b \<Longrightarrow> keeps c (filter P a) (filter P b)"
  unfolding keeps_def by (auto intro: subseq_filter)

lemma subseq_insert: "subseq b d \<Longrightarrow> subseq (a @ b) (a @ x @ d)"
  by (intro list_emb_append_mono) (auto intro: list_emb_append2)

lemma hard_from_returns:
  assumes "0 \<le> chunkOverlap c" and "chunkOverlap c < chunkSize c"
  shows "\<exists>cs. hard_from c text (int j) chunks = Some (chunks @ cs)
    \<and> list_all (\<lambda>x. int (length x) \<le> chunkSize c) cs \<and> keeps c (drop j text) (concat cs)"
proof (induction "length text - j" arbitrary: j chunks rule: less_induct)
  case less
  obtain n v where nv: "chunkSize c = int n" "chunkOverlap c = int v" "v < n"
    using assms by (metis nonneg_int_cases of_nat_less_iff order.strict_trans1 less_imp_le)
  have slice: "js_slice text (int j) (int j + int n) = take n (drop j text)"
    using js_slice_pos[of "int j" "int n" "text"] by simp
  consider (out) "length text \<le> j" | (final) "j < length text" "length text \<le> j + n" | (more) "j + n < length text"
    by linarith
  then show ?case
  proof cases
    case out
    then show ?thesis by (subst hard_from.simps) simp
  next
    case final
    then show ?thesis
      unfolding hard_from.simps[of c "text" "int j" chunks] nv slice by (simp add: of_nat_add[symmetric] del: of_nat_add)
  next
    case more
    let ?j = "j + (n - v)"
    have step: "int j + (int n - int v) = int ?j" using nv(3) by simp
    have "length text - ?j < length text - j" using more nv(3) by simp
    from less[OF this, of "chunks @ [take n (drop j text)]"] obtain cs where cs:
      "hard_from c text (int ?j) (chunks @ [take n (drop j text)]) = Some ((chunks @ [take n (drop j text)]) @ cs)"
      "list_all (\<lambda>x. int (length x) \<le> int n) cs" "keeps c (drop ?j text) (concat cs)"
      unfolding nv by blast
    have split: "take n (drop j text) = take (n - v) (drop j text) @ take v (drop ?j text)"
      using nv(3) take_add[of "n - v" v "drop j text"] by (simp add: add.commute)
    have "drop j text = take (n - v) (drop j text) @ drop ?j text"
      by (metis append_take_drop_id drop_drop add.commute)
    then have "keeps c (drop j text) (concat (take n (drop j text) # cs))"
      using cs(3) nv split unfolding keeps_def
      by (metis append.assoc append_Nil concat.simps(2) of_nat_0 of_nat_eq_iff subseq_insert take0)
    moreover have "hard_from c text (int j) chunks = Some (chunks @ take n (drop j text) # cs)"
      using more cs(1) unfolding hard_from.simps[of c "text" "int j" chunks] nv slice step
      by (simp add: of_nat_add[symmetric] del: of_nat_add)
    ultimately show ?thesis using cs(2) nv by (intro exI[of _ "take n (drop j text) # cs"]) simp
  qed
qed

lemma hardSplit_returns:
  assumes "0 \<le> chunkOverlap c" and "chunkOverlap c < chunkSize c"
  shows "\<exists>cs. hardSplit c text = Some cs \<and> list_all (\<lambda>x. int (length x) \<le> chunkSize c) cs \<and> keeps c text (concat cs)"
  using hard_from_returns[OF assms, of "text" 0 "[]"] by (simp add: hardSplit_def)

lemma subseq_prefixed:
  "length ps = length xs \<Longrightarrow> subseq (concat xs) (concat (map (\<lambda>(p, x). g p @ x) (zip ps xs)))"
proof (induction ps xs rule: list_induct2)
  case (Cons p ps x xs)
  have "subseq (x @ concat xs) (x @ concat (map (\<lambda>(p, x). g p @ x) (zip ps xs)))"
    using Cons.IH by (intro list_emb_append_mono) auto
  then show ?case using list_emb_append2 by fastforce
qed simp

lemma zip_tl_butlast: "zip xs (tl xs) = zip (butlast xs) (tl xs)"
  by (induction xs rule: induct_list012) auto

lemma addOverlap_keeps: "keeps c (concat chunks) (concat (addOverlap c chunks))"
proof (cases "length chunks \<le> 1 \<or> chunkOverlap c \<le> 0")
  case False
  then obtain x y zs where chunks: "chunks = x # y # zs" by (metis One_nat_def length_0_conv length_Suc_conv list.exhaust not_less_eq_eq le0)
  let ?g = "\<lambda>prev. js_slice prev (- chunkOverlap c) (int (length prev))"
  have "subseq (concat (tl chunks)) (concat (map (\<lambda>(p, z). ?g p @ z) (zip (butlast chunks) (tl chunks))))"
    by (rule subseq_prefixed) simp
  then show ?thesis
    using False chunks unfolding keeps_def addOverlap_def zip_tl_butlast[of chunks] by (auto intro: list_emb_append_mono)
qed (simp add: addOverlap_def)

lemma addOverlap_bounded:
  assumes "list_all (\<lambda>x. int (length x) \<le> n) chunks" and "0 \<le> chunkOverlap c"
  shows "list_all (\<lambda>x. int (length x) \<le> n + chunkOverlap c) (addOverlap c chunks)"
proof (cases "length chunks \<le> 1 \<or> chunkOverlap c \<le> 0")
  case True
  then show ?thesis using assms by (auto simp: addOverlap_def list_all_iff)
next
  case False
  have "int (length (js_slice p (- chunkOverlap c) (int (length p)) @ x)) \<le> n + chunkOverlap c"
    if "(p, x) \<in> set (zip chunks (tl chunks))" for p x
  proof -
    have "x \<in> set chunks" using that by (metis set_zip_rightD list.set_sel(2) tl_Nil empty_iff list.set(1))
    then have "int (length x) \<le> n" using assms(1) by (simp add: list_all_iff)
    moreover have "int (length (js_slice p (- chunkOverlap c) (int (length p)))) \<le> chunkOverlap c"
      using False by (subst js_slice_end) auto
    ultimately show ?thesis by simp
  qed
  moreover have "int (length (hd chunks)) \<le> n + chunkOverlap c"
    using False assms by (cases chunks) auto
  ultimately show ?thesis using False by (auto simp: addOverlap_def list_all_iff)
qed

lemma filter_join: "filter P sep = [] \<Longrightarrow> filter P (js_join sep ps) = filter P (concat ps)"
  by (induction sep ps rule: js_join.induct) simp_all

definition unsolid :: "string \<Rightarrow> bool" where
  "unsolid sep \<longleftrightarrow> sep \<noteq> [] \<and> filter solid sep = []"

lemma splits_solid: "unsolid sep \<Longrightarrow> filter solid (concat (js_splits sep text)) = filter solid text"
  unfolding unsolid_def by (metis filter_join js_splits_join)

lemma pack_parts_returns:
  assumes size: "chunkSize c \<le> n" and sep: "unsolid sep"
    and split: "\<And>part. chunkSize c < int (length part) \<Longrightarrow> \<exists>cs. split part = Some cs
      \<and> list_all (\<lambda>x. int (length x) \<le> n) cs \<and> keeps c (filter solid part) (filter solid (concat cs))"
    and "int (length current) \<le> chunkSize c" and "list_all (\<lambda>x. int (length x) \<le> n) chunks"
  shows "\<exists>cs cur. pack_parts c sep split parts chunks current = Some (cs, cur)
    \<and> int (length cur) \<le> chunkSize c \<and> list_all (\<lambda>x. int (length x) \<le> n) cs
    \<and> keeps c (filter solid (concat chunks @ current @ concat parts)) (filter solid (concat cs @ cur))"
  using assms(4,5)
proof (induction parts arbitrary: chunks current)
  case (Cons part parts)
  let ?goal = "\<lambda>chunks current parts cs cur. int (length cur) \<le> chunkSize c \<and> list_all (\<lambda>x. int (length x) \<le> n) cs
    \<and> keeps c (filter solid (concat chunks @ current @ concat parts)) (filter solid (concat cs @ cur))"
  let ?cand = "if current \<noteq> [] then current @ sep @ part else part"
  let ?chunks = "if current \<noteq> [] then chunks @ [current] else chunks"
  have sep0: "filter solid sep = []" using sep by (simp add: unsolid_def)
  have ch: "list_all (\<lambda>x. int (length x) \<le> n) ?chunks" "concat ?chunks = concat chunks @ current"
    using Cons.prems size by auto
  consider (fits) "int (length ?cand) \<le> chunkSize c"
    | (big) "chunkSize c < int (length ?cand)" "chunkSize c < int (length part)"
    | (flush) "chunkSize c < int (length ?cand)" "int (length part) \<le> chunkSize c" by linarith
  then show ?case
  proof cases
    case fits
    have "filter solid (concat chunks @ ?cand @ concat parts) = filter solid (concat chunks @ current @ concat (part # parts))"
      using sep0 by simp
    then show ?thesis using Cons.IH[OF fits Cons.prems(2)] fits by (simp add: Let_def)
  next
    case big
    obtain ps where ps: "split part = Some ps" "list_all (\<lambda>x. int (length x) \<le> n) ps"
      "keeps c (filter solid part) (filter solid (concat ps))" using split[OF big(2)] by blast
    have "0 \<le> chunkSize c" using Cons.prems(1) by linarith
    then obtain cs cur where r: "pack_parts c sep split parts (?chunks @ ps) [] = Some (cs, cur)"
      "?goal (?chunks @ ps) [] parts cs cur"
      using Cons.IH[of "[]" "?chunks @ ps"] ch(1) ps(2) by auto
    have "keeps c (filter solid (concat chunks @ current @ part @ concat parts))
        (filter solid (concat (?chunks @ ps) @ [] @ concat parts))"
      using ps(3) ch(2) by (auto intro!: keeps_append)
    then have "?goal chunks current (part # parts) cs cur" using r(2) keeps_trans by (metis concat.simps(2) append_assoc)
    then show ?thesis using r(1) big ps(1) by (auto simp: Let_def)
  next
    case flush
    obtain cs cur where r: "pack_parts c sep split parts ?chunks part = Some (cs, cur)" "?goal ?chunks part parts cs cur"
      using Cons.IH[OF flush(2) ch(1)] by auto
    then have "?goal chunks current (part # parts) cs cur" using ch(2) by (metis concat.simps(2) append_assoc)
    then show ?thesis using r(1) flush by (auto simp: Let_def)
  qed
qed auto

lemma splitBySeparators_returns:
  assumes "0 \<le> chunkOverlap c" and "chunkOverlap c < chunkSize c" and "list_all unsolid seps"
  shows "\<exists>cs. splitBySeparators c seps text = Some cs
    \<and> list_all (\<lambda>x. int (length x) \<le> chunkSize c + int (length seps) * chunkOverlap c) cs
    \<and> keeps c (filter solid text) (filter solid (concat cs))"
  using assms(3)
proof (induction seps arbitrary: "text")
  case Nil
  then show ?case using hardSplit_returns[OF assms(1,2), of "text"] by (auto intro: keeps_filter)
next
  case (Cons sep seps)
  let ?n = "chunkSize c + int (length seps) * chunkOverlap c"
  have n: "chunkSize c \<le> ?n" "?n + chunkOverlap c = chunkSize c + int (length (sep # seps)) * chunkOverlap c"
    using assms(1) by (simp_all add: algebra_simps)
  show ?case
  proof (cases "int (length text) \<le> chunkSize c")
    case True
    have "0 \<le> int (length (sep # seps)) * chunkOverlap c" using assms(1) by simp
    then have "int (length text) \<le> chunkSize c + int (length (sep # seps)) * chunkOverlap c"
      using True by linarith
    then show ?thesis using True by simp
  next
    case False
    have "unsolid sep" using Cons.prems by simp
    moreover have "list_all unsolid seps" using Cons.prems by simp
    moreover have "int (length ([]::string)) \<le> chunkSize c" using assms by simp
    ultimately obtain cs cur where r: "pack_parts c sep (splitBySeparators c seps) (js_splits sep text) [] [] = Some (cs, cur)"
      "int (length cur) \<le> chunkSize c" "list_all (\<lambda>x. int (length x) \<le> ?n) cs"
      "keeps c (filter solid (concat (js_splits sep text))) (filter solid (concat cs @ cur))"
      using pack_parts_returns[OF n(1), of sep "splitBySeparators c seps" "[]" "[]" "js_splits sep text"] Cons.IH
      by auto
    let ?cs = "if cur \<noteq> [] then cs @ [cur] else cs"
    have "keeps c (filter solid text) (filter solid (concat ?cs))"
    proof -
      have "concat ?cs = concat cs @ cur" by simp
      then show ?thesis using r(4) splits_solid[OF \<open>unsolid sep\<close>] by metis
    qed
    then have "keeps c (filter solid text) (filter solid (concat (addOverlap c ?cs)))"
      using keeps_trans keeps_filter[OF addOverlap_keeps] by blast
    moreover have "list_all (\<lambda>x. int (length x) \<le> ?n) ?cs" using r(2,3) n(1) by auto
    then have "list_all (\<lambda>x. int (length x) \<le> ?n + chunkOverlap c) (addOverlap c ?cs)"
      by (rule addOverlap_bounded[OF _ assms(1)])
    ultimately show ?thesis using r(1) False unfolding n(2) by simp
  qed
qed

section \<open>When it does not return\<close>

lemma hard_from_diverges:
  assumes "chunkSize c \<le> chunkOverlap c" and "i + chunkSize c < int (length text)" and "i < int (length text)"
  shows "hard_from c text i chunks = None"
proof -
  let ?P = "\<lambda>c' t i ch r. c' = c \<and> t = text \<longrightarrow> \<not> (i + chunkSize c < int (length text) \<and> i < int (length text))"
  have "?P c text i chunks r" if "hard_from c text i chunks = Some r" for r
  proof (rule hard_from.raw_induct[where P = ?P, OF _ that], intro impI notI; elim conjE)
    fix f :: "chunker \<Rightarrow> string \<Rightarrow> int \<Rightarrow> string list \<Rightarrow> string list option" and c' t i ch r
    assume IH: "\<And>c' t i ch r. f c' t i ch = Some r \<Longrightarrow> ?P c' t i ch r"
      and eq: "(if i < int (length t) then if int (length t) \<le> i + chunkSize c'
          then Some (ch @ [js_slice t i (i + chunkSize c')])
          else f c' t (i + (chunkSize c' - chunkOverlap c')) (ch @ [js_slice t i (i + chunkSize c')])
        else Some ch) = Some r"
      and here: "i + chunkSize c < int (length text)" "i < int (length text)" "c' = c" "t = text"
    then have "f c text (i + (chunkSize c - chunkOverlap c)) (ch @ [js_slice text i (i + chunkSize c)]) = Some r"
      by simp
    from IH[OF this] show False using here(1,2) assms(1) by simp
  qed
  then show ?thesis using assms(2,3) by (metis not_Some_eq)
qed

lemma splits_absent: "sep \<noteq> [] \<Longrightarrow> hd sep \<notin> set s \<Longrightarrow> js_splits sep s = [s]"
proof (induction s)
  case Nil
  then show ?case by (subst js_splits.simps) simp
next
  case (Cons c cs)
  have "\<not> starts_with (c # cs) sep" using Cons.prems by (cases sep) auto
  then show ?case using Cons by (subst js_splits.simps) auto
qed

lemma splitBySeparators_diverges:
  assumes "chunkSize c \<le> chunkOverlap c" and "chunkSize c < int (length text)" and "0 < length text"
    and "list_all (\<lambda>sep. sep \<noteq> [] \<and> hd sep \<notin> set text) seps"
  shows "splitBySeparators c seps text = None"
  using assms(4)
proof (induction seps)
  case Nil
  then show ?case using assms hard_from_diverges[of c 0 "text"] by (simp add: hardSplit_def)
next
  case (Cons sep seps)
  then show ?case using assms(2) by (simp add: splits_absent Let_def)
qed

section \<open>Properties\<close>

lemma chunk_fields:
  "map tc_index (map (\<lambda>(i, t). \<lparr>tc_index = i, tc_text = t, tc_metadata = md i\<rparr>) (zip [0..<length raw] raw)) = [0..<length raw]"
  "map tc_text (map (\<lambda>(i, t). \<lparr>tc_index = i, tc_text = t, tc_metadata = md i\<rparr>) (zip [0..<length raw] raw)) = raw"
  by (simp_all add: comp_def case_prod_unfold)

text \<open>C25. With an overlap smaller than the chunk size the chunker returns for every text: the chunks are
  numbered in order, none is longer than the chunk size and four overlaps (one for each separator),
  and the characters outside the separators appear in order in the chunks, exactly once when the
  overlap is zero. With an overlap that is not smaller, a long text without separators is never
  returned from.\<close>

theorem chunking_returns_bounded_and_complete:
  "(0 \<le> chunkOverlap c \<and> chunkOverlap c < chunkSize c \<longrightarrow>
     (\<exists>cs. chunk_text c text metadata = Some cs \<and> map tc_index cs = [0..<length cs]
        \<and> list_all (\<lambda>x. int (length (tc_text x)) \<le> chunkSize c + 4 * chunkOverlap c) cs
        \<and> subseq (filter solid text) (filter solid (concat (map tc_text cs)))
        \<and> (chunkOverlap c = 0 \<longrightarrow> filter solid (concat (map tc_text cs)) = filter solid text)))
   \<and> (chunkSize c \<le> chunkOverlap c \<and> chunkSize c < int (length text) \<and> text \<noteq> [] \<and> filter solid text = text \<longrightarrow>
        chunk_text c text metadata = None)"
proof (intro conjI impI; (elim conjE)?)
  assume ov: "0 \<le> chunkOverlap c" "chunkOverlap c < chunkSize c"
  show "\<exists>cs. chunk_text c text metadata = Some cs \<and> map tc_index cs = [0..<length cs]
        \<and> list_all (\<lambda>x. int (length (tc_text x)) \<le> chunkSize c + 4 * chunkOverlap c) cs
        \<and> subseq (filter solid text) (filter solid (concat (map tc_text cs)))
        \<and> (chunkOverlap c = 0 \<longrightarrow> filter solid (concat (map tc_text cs)) = filter solid text)"
  proof (cases "text = [] \<or> int (length text) \<le> chunkSize c")
    case True
    then show ?thesis using ov by (auto simp: chunk_text_def)
  next
    case False
    have "list_all unsolid SEPARATORS" by (simp add: SEPARATORS_def unsolid_def solid_def)
    from splitBySeparators_returns[OF ov this, of "text"] obtain raw where raw: "recursiveSplit c text = Some raw"
      "list_all (\<lambda>x. int (length x) \<le> chunkSize c + 4 * chunkOverlap c) raw"
      "keeps c (filter solid text) (filter solid (concat raw))"
      by (auto simp: recursiveSplit_def SEPARATORS_def)
    let ?cs = "map (\<lambda>(i, t). \<lparr>tc_index = i, tc_text = t,
        tc_metadata = Some (chunk_metadata metadata i (length raw))\<rparr>) (zip [0..<length raw] raw)"
    note fields = chunk_fields[of "\<lambda>i. Some (chunk_metadata metadata i (length raw))" raw]
    have "list_all (\<lambda>x. int (length (tc_text x)) \<le> chunkSize c + 4 * chunkOverlap c) ?cs"
      using raw(2) fields(2) by (metis (mono_tags, lifting) list_all_iff set_map imageI)
    moreover have "chunk_text c text metadata = Some ?cs" using False raw(1) by (simp add: chunk_text_def)
    moreover have "map tc_index ?cs = [0..<length ?cs]" unfolding fields(1) by simp
    moreover have "subseq (filter solid text) (filter solid (concat (map tc_text ?cs)))"
      and "chunkOverlap c = 0 \<longrightarrow> filter solid (concat (map tc_text ?cs)) = filter solid text"
      unfolding fields(2) using raw(3) by (simp_all add: keeps_def)
    ultimately show ?thesis by (intro exI[of _ ?cs] conjI)
  qed
next
  assume d: "chunkSize c \<le> chunkOverlap c" "chunkSize c < int (length text)" "text \<noteq> []" "filter solid text = text"
  have heads: "list_all (\<lambda>sep. sep \<noteq> [] \<and> \<not> solid (hd sep)) SEPARATORS"
    by (simp add: SEPARATORS_def solid_def)
  have "\<forall>ch \<in> set text. solid ch" using d(4) by (metis filter_id_conv)
  then have "list_all (\<lambda>sep. sep \<noteq> [] \<and> hd sep \<notin> set text) SEPARATORS"
    by (intro list.pred_mono_strong[OF heads]) blast
  then have "recursiveSplit c text = None"
    unfolding recursiveSplit_def using splitBySeparators_diverges[OF d(1,2)] d(3) by simp
  then show "chunk_text c text metadata = None" using d(2,3) by (simp add: chunk_text_def)
qed


text \<open>The overlap is added after packing, once for each separator level: the same two characters are
  repeated four times, and a chunk of four characters grows to twelve.\<close>

lemma chunk_longer_than_chunk_size:
  "map_option (map tc_text) (chunk_text \<lparr>chunkSize = 4, chunkOverlap = 2\<rparr> ''ab cd efgh'' None)
     = Some [''ab'', ''ababababcd'', ''cdcdcdcdefgh'']"
  by (simp add: chunk_text_def recursiveSplit_def SEPARATORS_def js_splits.simps addOverlap_def js_slice_def
      js_rel_def Let_def)

theorem chunking_returns_bounded_and_complete_witness:
  "(\<exists>cs. chunk_text \<lparr>chunkSize = 4, chunkOverlap = 0\<rparr> ''ab cd efgh'' None = Some cs
      \<and> filter solid (concat (map tc_text cs)) = ''abcdefgh'')
   \<and> chunk_text \<lparr>chunkSize = 4, chunkOverlap = 4\<rparr> ''abcdefgh'' None = None"
  using chunking_returns_bounded_and_complete[of "\<lparr>chunkSize = 4, chunkOverlap = 0\<rparr>" "''ab cd efgh''" None]
    chunking_returns_bounded_and_complete[of "\<lparr>chunkSize = 4, chunkOverlap = 4\<rparr>" "''abcdefgh''" None]
  by (auto simp: solid_def)

end
