(* ===== verification/Content_Bulk.thy ===== *)
theory Content_Bulk
  imports Content_Entries Js_Text
begin

text \<open>
  Import and export, \<open>content/services/content-bulk.service.ts\<close>: the CSV text of the entries of a type
  and back, and the import of a JSON export with its counters. \<open>String(n)\<close> of a number,
  \<open>JSON.stringify\<close>, \<open>JSON.parse\<close> and the text of a date are parameters; the text of an
  exception in an error message is written \<open>error\<close>.
\<close>

section \<open>CSV\<close>

record 'j csv_env =
  cv_num :: "rat \<Rightarrow> string"
  cv_json :: "'j \<Rightarrow> string"
  cv_parse :: "string \<Rightarrow> 'j content_value option"
  cv_created :: "'j content_entry \<Rightarrow> string"
  cv_updated :: "'j content_entry \<Rightarrow> string"

definition CSV_SYSTEM_FIELDS :: "string list" where
  "CSV_SYSTEM_FIELDS = [''id'', ''slug'', ''locale'', ''status'', ''version'', ''createdAt'', ''updatedAt'']"

definition csv_headers :: "string list \<Rightarrow> string list" where
  "csv_headers fieldNames =
     [''id'', ''slug'', ''locale'', ''status'', ''version''] @ fieldNames @ [''createdAt'', ''updatedAt'']"

text \<open>\<open>s.replace(/"/g, '""')\<close>\<close>

fun double_quotes :: "string \<Rightarrow> string" where
  "double_quotes [] = []"
| "double_quotes (c # cs) = (if c = CHR 0x22 then [c, c] else [c]) @ double_quotes cs"

definition csv_quoted :: "string \<Rightarrow> string" where
  "csv_quoted s = [CHR 0x22] @ double_quotes s @ [CHR 0x22]"

definition value_text :: "'j csv_env \<Rightarrow> 'j content_value \<Rightarrow> string" where
  "value_text env v = (case v of CUndefined \<Rightarrow> [] | CNull \<Rightarrow> [] | CText t \<Rightarrow> t | CNumber n \<Rightarrow> cv_num env n
     | COther j \<Rightarrow> cv_json env j)"

definition csv_value :: "'j csv_env \<Rightarrow> 'j content_value \<Rightarrow> string" where
  "csv_value env v = (if v = CUndefined \<or> v = CNull then [] else csv_quoted (value_text env v))"

definition csv_row :: "'j csv_env \<Rightarrow> string list \<Rightarrow> 'j content_entry \<Rightarrow> string" where
  "csv_row env fieldNames e = js_join '',''
     ([en_id e, or_else (en_slug e) [], en_locale e, entry_status_str (en_status e), js_of_nat (en_version e)]
      @ map (\<lambda>name. csv_value env (cd_get (en_data e) name)) fieldNames @ [cv_created env e, cv_updated env e])"

definition csv_document :: "'j csv_env \<Rightarrow> string list \<Rightarrow> 'j content_entry list \<Rightarrow> string" where
  "csv_document env fieldNames entries =
     js_join ''\<newline>'' (js_join '','' (csv_headers fieldNames) # map (csv_row env fieldNames) entries)"

text \<open>\<open>fieldNamesOf\<close> answers the field names of the type, when it is found.\<close>

definition exportEntriesCsv ::
  "('j, 's) content_db \<Rightarrow> 'j csv_env \<Rightarrow> (string \<Rightarrow> 's \<Rightarrow> string list option) \<Rightarrow> string \<Rightarrow> string option \<Rightarrow> 's
    \<Rightarrow> string + string" where
  "exportEntriesCsv db env fieldNamesOf contentTypeId tenantId s = (case fieldNamesOf contentTypeId s of
     None \<Rightarrow> Inl (''Content type '' @ [CHR 0x22] @ contentTypeId @ [CHR 0x22] @ '' not found'')
   | Some fieldNames \<Rightarrow> Inr (csv_document env fieldNames
       (db_findMany db (\<lambda>e. en_contentTypeId e = contentTypeId \<and> tenant_where tenantId (en_tenantId e)) s)))"

fun parse_from :: "bool \<Rightarrow> string \<Rightarrow> string list \<Rightarrow> string \<Rightarrow> string list" where
  "parse_from inQuotes current result [] = result @ [current]"
| "parse_from inQuotes current result (c # cs) =
     (if c = CHR 0x22 then
        (if inQuotes \<and> cs \<noteq> [] \<and> hd cs = CHR 0x22 then parse_from inQuotes (current @ [CHR 0x22]) result (tl cs)
         else parse_from (\<not> inQuotes) current result cs)
      else if c = CHR '','' \<and> \<not> inQuotes then parse_from inQuotes [] (result @ [current]) cs
      else parse_from inQuotes (current @ [c]) result cs)"

definition parseCsvLine :: "string \<Rightarrow> string list" where
  "parseCsvLine line = parse_from False [] [] line"

definition csv_lines :: "string \<Rightarrow> string list" where
  "csv_lines csv = filter (\<lambda>l. l \<noteq> []) (js_split CHR ''\<newline>'' csv)"

text \<open>\<open>record[h] = values[idx] ?? ''\<close> over the headers.\<close>

fun csv_record :: "string list \<Rightarrow> string list \<Rightarrow> (string, string) jsmap \<Rightarrow> (string, string) jsmap" where
  "csv_record [] values rec = rec"
| "csv_record (h # hs) values rec =
     csv_record hs (tl values) (jm_set rec h (case values of [] \<Rightarrow> [] | v # _ \<Rightarrow> v))"

definition csv_data :: "'j csv_env \<Rightarrow> (string, string) jsmap \<Rightarrow> 'j content_data" where
  "csv_data env rec = foldl (\<lambda>data (key, v). if key \<in> set CSV_SYSTEM_FIELDS then data
     else jm_set data key (case cv_parse env v of Some j \<Rightarrow> j | None \<Rightarrow> CText v)) [] rec"

definition csv_new_entry :: "'j csv_env \<Rightarrow> string \<Rightarrow> string option \<Rightarrow> string list \<Rightarrow> string \<Rightarrow> 'j content_entry" where
  "csv_new_entry env contentTypeId tenantId headers line =
     (let rec = csv_record headers (parseCsvLine line) []
      in \<lparr>en_id = [], en_contentTypeId = contentTypeId, en_data = csv_data env rec,
           en_locale = or_else (jm_get rec ''locale'') ''en'', en_status = DRAFT, en_version = 1,
           en_slug = (if or_else (jm_get rec ''slug'') [] = [] then None else jm_get rec ''slug''),
           en_publishedAt = None, en_scheduledAt = None, en_scheduledUnpublishAt = None,
           en_tenantId = tenantId, en_createdBy = None\<rparr>)"

fun import_rows :: "('j, 's) content_db \<Rightarrow> (string \<Rightarrow> 'j content_entry) \<Rightarrow> nat \<Rightarrow> string list \<Rightarrow> 's
    \<Rightarrow> nat \<times> string list \<times> 's" where
  "import_rows db entryOf i [] s = (0, [], s)"
| "import_rows db entryOf i (line # ls) s = (case db_create db (entryOf line) s of
     Some (_, s1) \<Rightarrow> (case import_rows db entryOf (Suc i) ls s1 of (n, errs, s2) \<Rightarrow> (Suc n, errs, s2))
   | None \<Rightarrow> (case import_rows db entryOf (Suc i) ls s of (n, errs, s2) \<Rightarrow> (n, (''Row '' @ js_of_nat (i + 1) @ '': error'') # errs, s2)))"

definition importEntriesCsv ::
  "('j, 's) content_db \<Rightarrow> 'j csv_env \<Rightarrow> string \<Rightarrow> string \<Rightarrow> string option \<Rightarrow> 's
    \<Rightarrow> string + nat \<times> string list \<times> 's" where
  "importEntriesCsv db env csv contentTypeId tenantId s = (case csv_lines csv of
     [] \<Rightarrow> Inl ''CSV must have header + at least 1 row''
   | [_] \<Rightarrow> Inl ''CSV must have header + at least 1 row''
   | first # rows \<Rightarrow> Inr (import_rows db (csv_new_entry env contentTypeId tenantId (parseCsvLine first)) 1 rows s))"

section \<open>Importing a JSON export\<close>

record bulk_counts =
  bk_created :: nat
  bk_skipped :: nat

text \<open>
  The loops over locales, components and content types have one shape: look a row up, skip it when it
  exists, create it otherwise; an exception counts as skipped. A step answers \<open>None\<close> for an exception,
  \<open>Some (True, s)\<close> for a created row and \<open>Some (False, s)\<close> for one that exists.
\<close>

definition import_one ::
  "('a \<Rightarrow> 's \<Rightarrow> (unit + 'b option)) \<Rightarrow> ('a \<Rightarrow> 's \<Rightarrow> ('c \<times> 's) option) \<Rightarrow> 'a \<Rightarrow> 's \<Rightarrow> ('b + 'c) option \<times> 's" where
  "import_one look build row s = (case look row s of
     Inl _ \<Rightarrow> (None, s)
   | Inr (Some x) \<Rightarrow> (Some (Inl x), s)
   | Inr None \<Rightarrow> (case build row s of None \<Rightarrow> (None, s) | Some (y, s1) \<Rightarrow> (Some (Inr y), s1)))"

definition count_one :: "('b + 'c) option \<Rightarrow> bulk_counts \<Rightarrow> bulk_counts" where
  "count_one r c = (case r of
     Some (Inr _) \<Rightarrow> c\<lparr>bk_created := bk_created c + 1\<rparr> | _ \<Rightarrow> c\<lparr>bk_skipped := bk_skipped c + 1\<rparr>)"

fun import_table ::
  "('a \<Rightarrow> 's \<Rightarrow> (unit + 'b option)) \<Rightarrow> ('a \<Rightarrow> 's \<Rightarrow> ('c \<times> 's) option) \<Rightarrow> 'a list \<Rightarrow> bulk_counts \<Rightarrow> 's \<Rightarrow> bulk_counts \<times> 's" where
  "import_table look build [] c s = (c, s)"
| "import_table look build (row # rows) c s = (case import_one look build row s of
     (r, s1) \<Rightarrow> import_table look build rows (count_one r c) s1)"

text \<open>The content types also fill the map from old to new ids; both clients answer ids.\<close>

fun import_types ::
  "('a \<Rightarrow> 's \<Rightarrow> (unit + string option)) \<Rightarrow> ('a \<Rightarrow> 's \<Rightarrow> (string \<times> 's) option) \<Rightarrow> ('a \<Rightarrow> string) \<Rightarrow> 'a list
    \<Rightarrow> (string, string) jsmap \<Rightarrow> bulk_counts \<Rightarrow> 's \<Rightarrow> (string, string) jsmap \<times> bulk_counts \<times> 's" where
  "import_types look build oldId [] typeIdMap c s = (typeIdMap, c, s)"
| "import_types look build oldId (row # rows) typeIdMap c s = (case import_one look build row s of
     (r, s1) \<Rightarrow> import_types look build oldId rows
       (case r of None \<Rightarrow> typeIdMap | Some (Inl i) \<Rightarrow> jm_set typeIdMap (oldId row) i
          | Some (Inr i) \<Rightarrow> jm_set typeIdMap (oldId row) i) (count_one r c) s1)"

record 'j bulk_entry =
  be_id :: string
  be_contentTypeId :: string
  be_data :: "'j content_data"
  be_locale :: "string option"
  be_status :: "entry_status option"
  be_version :: "nat option"
  be_slug :: "string option"
  be_publishedAt :: "int option"
  be_tenantId :: "string option"
  be_createdBy :: "string option"

definition bulk_new_entry :: "(string, string) jsmap \<Rightarrow> string option \<Rightarrow> 'j bulk_entry \<Rightarrow> 'j content_entry" where
  "bulk_new_entry typeIdMap tenantId b =
     \<lparr>en_id = [], en_contentTypeId = or_else (jm_get typeIdMap (be_contentTypeId b)) (be_contentTypeId b),
      en_data = be_data b, en_locale = or_else (be_locale b) ''en'', en_status = or_else (be_status b) DRAFT,
      en_version = or_else (be_version b) 1, en_slug = be_slug b, en_publishedAt = be_publishedAt b,
      en_scheduledAt = None, en_scheduledUnpublishAt = None,
      en_tenantId = (case tenantId of Some t \<Rightarrow> Some t | None \<Rightarrow> be_tenantId b), en_createdBy = be_createdBy b\<rparr>"

fun import_entries ::
  "('j, 's) content_db \<Rightarrow> (string, string) jsmap \<Rightarrow> string option \<Rightarrow> 'j bulk_entry list \<Rightarrow> bulk_counts \<Rightarrow> string list \<Rightarrow> 's
    \<Rightarrow> bulk_counts \<times> string list \<times> 's" where
  "import_entries db typeIdMap tenantId [] c errs s = (c, errs, s)"
| "import_entries db typeIdMap tenantId (b # bs) c errs s = (case db_create db (bulk_new_entry typeIdMap tenantId b) s of
     Some (_, s1) \<Rightarrow> import_entries db typeIdMap tenantId bs (c\<lparr>bk_created := bk_created c + 1\<rparr>) errs s1
   | None \<Rightarrow> import_entries db typeIdMap tenantId bs (c\<lparr>bk_skipped := bk_skipped c + 1\<rparr>)
       (errs @ [''Entry '' @ or_else (be_slug b) (be_id b) @ '': error'']) s)"

record ('l, 'c, 't, 's) bulk_client =
  bc_findLocale :: "string option \<Rightarrow> 'l \<Rightarrow> 's \<Rightarrow> unit + unit option"
  bc_createLocale :: "string option \<Rightarrow> 'l \<Rightarrow> 's \<Rightarrow> (unit \<times> 's) option"
  bc_findComponent :: "string option \<Rightarrow> 'c \<Rightarrow> 's \<Rightarrow> unit + unit option"
  bc_createComponent :: "string option \<Rightarrow> 'c \<Rightarrow> 's \<Rightarrow> (unit \<times> 's) option"
  bc_findType :: "string option \<Rightarrow> 't \<Rightarrow> 's \<Rightarrow> unit + string option"
  bc_createType :: "string option \<Rightarrow> 't \<Rightarrow> 's \<Rightarrow> (string \<times> 's) option"
  bc_typeId :: "'t \<Rightarrow> string"

record ('l, 'c, 't, 'j) bulk_export =
  bx_contentTypes :: "'t list option"
  bx_components :: "'c list option"
  bx_entries :: "'j bulk_entry list option"
  bx_locales :: "'l list option"

record bulk_result =
  br_contentTypes :: bulk_counts
  br_components :: bulk_counts
  br_entries :: bulk_counts
  br_errors :: "string list"
  br_locales :: bulk_counts

definition no_counts :: bulk_counts where
  "no_counts = \<lparr>bk_created = 0, bk_skipped = 0\<rparr>"

definition importAll ::
  "('j, 's) content_db \<Rightarrow> ('l, 'c, 't, 's) bulk_client \<Rightarrow> ('l, 'c, 't, 'j) bulk_export \<Rightarrow> string option \<Rightarrow> 's
    \<Rightarrow> bulk_result \<times> 's" where
  "importAll db bc x tenantId s =
     (case import_table (bc_findLocale bc tenantId) (bc_createLocale bc tenantId) (or_else (bx_locales x) []) no_counts s of (l, s) \<Rightarrow>
      case import_table (bc_findComponent bc tenantId) (bc_createComponent bc tenantId) (or_else (bx_components x) []) no_counts s of (c, s) \<Rightarrow>
      case import_types (bc_findType bc tenantId) (bc_createType bc tenantId) (bc_typeId bc) (or_else (bx_contentTypes x) []) [] no_counts s of (ids, t, s) \<Rightarrow>
      case import_entries db ids tenantId (or_else (bx_entries x) []) no_counts [] s of (e, errs, s) \<Rightarrow>
        (\<lparr>br_contentTypes = t, br_components = c, br_entries = e, br_errors = errs, br_locales = l\<rparr>, s))"

section \<open>The CSV text and back\<close>

abbreviation quote :: char where "quote \<equiv> CHR 0x22"

definition plain :: "string \<Rightarrow> bool" where
  "plain t \<longleftrightarrow> quote \<notin> set t \<and> CHR '','' \<notin> set t \<and> CHR ''\<newline>'' \<notin> set t"

lemma parse_plain:
  "plain t \<Longrightarrow> parse_from False current result (t @ rest) = parse_from False (current @ t) result rest"
  by (induction t arbitrary: current) (auto simp: plain_def)

lemma parse_doubled:
  "rest = [] \<or> hd rest \<noteq> quote \<Longrightarrow>
     parse_from True current result (double_quotes t @ quote # rest) = parse_from False (current @ t) result rest"
  by (induction t arbitrary: current) auto

lemma parse_quoted:
  "rest = [] \<or> hd rest \<noteq> quote \<Longrightarrow>
     parse_from False current result (csv_quoted t @ rest) = parse_from False (current @ t) result rest"
  using parse_doubled[of rest current result t] by (simp add: csv_quoted_def)

text \<open>A cell and the value it stands for.\<close>

definition csv_cell :: "string \<Rightarrow> string \<Rightarrow> bool" where
  "csv_cell src v \<longleftrightarrow> src = csv_quoted v \<or> src = v \<and> plain v"

lemma parse_cell:
  "csv_cell src v \<Longrightarrow> rest = [] \<or> hd rest \<noteq> quote \<Longrightarrow>
     parse_from False [] result (src @ rest) = parse_from False v result rest"
  using parse_plain[of v "[]" result rest] parse_quoted[of rest "[]" result v] by (auto simp: csv_cell_def)

lemma parse_row:
  "list_all2 csv_cell srcs vals \<Longrightarrow> srcs \<noteq> [] \<Longrightarrow>
     parse_from False [] result (js_join '','' srcs) = result @ vals"
proof (induction srcs vals arbitrary: result rule: list_all2_induct)
  case (Cons src srcs v vals)
  show ?case
  proof (cases srcs)
    case Nil
    then show ?thesis using Cons parse_cell[OF Cons.hyps(1), of "[]" result] by simp
  next
    case (Cons src' srcs')
    then have "js_join '','' (src # srcs) = src @ CHR '','' # js_join '','' srcs" by simp
    then show ?thesis
      using Cons.IH[of "result @ [v]"] parse_cell[OF Cons.hyps(1), of "CHR '','' # js_join '','' srcs" result] Cons by simp
  qed
qed simp

lemma plain_append: "plain (a @ b) \<longleftrightarrow> plain a \<and> plain b"
  by (auto simp: plain_def)

lemma digit_plain:
  assumes "n < 10"
  shows "plain [char_of (48 + n :: nat)]"
proof -
  have "char_of (48 + n) \<noteq> c" if "of_char c < (48 :: nat)" for c :: char
  proof
    assume "char_of (48 + n) = c"
    then have "of_char c = (48 + n) mod (256 :: nat)" by (metis of_char_of)
    then show False using that assms by simp
  qed
  from this[of quote] this[of "CHR '',''"] this[of "CHR ''\<newline>''"] show ?thesis
    unfolding plain_def by simp
qed

lemma js_of_nat_plain: "plain (js_of_nat n)"
proof (induction n rule: js_of_nat.induct)
  case (1 n)
  show ?case
  proof (cases "n < 10")
    case True
    then show ?thesis using digit_plain[OF True] by (simp add: js_of_nat.simps[of n])
  next
    case False
    then show ?thesis using 1 digit_plain[of "n mod 10"] by (simp add: js_of_nat.simps[of n] plain_append)
  qed
qed

lemma entry_status_plain: "plain (entry_status_str st)"
  by (cases st) (simp_all add: entry_status_str_def plain_def)

text \<open>What an export writes without quotes has no separator in it, and no value has a line break.\<close>

definition exportable :: "'j csv_env \<Rightarrow> string list \<Rightarrow> 'j content_entry \<Rightarrow> bool" where
  "exportable env fieldNames e \<longleftrightarrow>
     list_all plain [en_id e, or_else (en_slug e) [], en_locale e, cv_created env e, cv_updated env e]
   \<and> list_all (\<lambda>name. CHR ''\<newline>'' \<notin> set (value_text env (cd_get (en_data e) name))) fieldNames"

definition csv_values :: "'j csv_env \<Rightarrow> string list \<Rightarrow> 'j content_entry \<Rightarrow> string list" where
  "csv_values env fieldNames e =
     [en_id e, or_else (en_slug e) [], en_locale e, entry_status_str (en_status e), js_of_nat (en_version e)]
     @ map (\<lambda>name. value_text env (cd_get (en_data e) name)) fieldNames @ [cv_created env e, cv_updated env e]"

lemma csv_value_cell: "csv_cell (csv_value env v) (value_text env v)"
  by (cases v) (auto simp: csv_cell_def csv_value_def value_text_def plain_def)

lemma parse_csv_row:
  assumes "exportable env fieldNames e"
  shows "parseCsvLine (csv_row env fieldNames e) = csv_values env fieldNames e"
proof -
  have "list_all2 csv_cell
      ([en_id e, or_else (en_slug e) [], en_locale e, entry_status_str (en_status e), js_of_nat (en_version e)]
       @ map (\<lambda>name. csv_value env (cd_get (en_data e) name)) fieldNames @ [cv_created env e, cv_updated env e])
      (csv_values env fieldNames e)"
    unfolding csv_values_def
  proof (intro list_all2_appendI)
    have plain_cell: "csv_cell t t" if "plain t" for t using that by (simp add: csv_cell_def)
    show "list_all2 csv_cell (map (\<lambda>name. csv_value env (cd_get (en_data e) name)) fieldNames)
        (map (\<lambda>name. value_text env (cd_get (en_data e) name)) fieldNames)"
      by (simp add: list_all2_conv_all_nth csv_value_cell)
    show "list_all2 csv_cell [cv_created env e, cv_updated env e] [cv_created env e, cv_updated env e]"
      "list_all2 csv_cell [en_id e, or_else (en_slug e) [], en_locale e, entry_status_str (en_status e), js_of_nat (en_version e)]
        [en_id e, or_else (en_slug e) [], en_locale e, entry_status_str (en_status e), js_of_nat (en_version e)]"
      using assms by (simp_all add: exportable_def plain_cell js_of_nat_plain entry_status_plain)
  qed
  from parse_row[OF this, of "[]"] show ?thesis by (simp add: parseCsvLine_def csv_row_def)
qed

lemma parse_csv_headers:
  "list_all plain fieldNames \<Longrightarrow> parseCsvLine (js_join '','' (csv_headers fieldNames)) = csv_headers fieldNames"
proof -
  assume "list_all plain fieldNames"
  then have "list_all2 csv_cell (csv_headers fieldNames) (csv_headers fieldNames)"
    by (auto simp: csv_headers_def list_all2_same csv_cell_def plain_def list_all_iff)
  then show ?thesis using parse_row[of "csv_headers fieldNames" "csv_headers fieldNames" "[]"]
    by (simp add: parseCsvLine_def csv_headers_def)
qed

lemma js_join_free: "list_all (\<lambda>x. c \<notin> set x) xs \<Longrightarrow> c \<notin> set sep \<Longrightarrow> c \<notin> set (js_join sep xs)"
  by (induction sep xs rule: js_join.induct) auto

lemma set_double_quotes [simp]: "set (double_quotes t) = set t"
  by (induction t) auto

lemma csv_row_line:
  assumes "exportable env fieldNames e"
  shows "CHR ''\<newline>'' \<notin> set (csv_row env fieldNames e)" "csv_row env fieldNames e \<noteq> []"
proof -
  have "CHR ''\<newline>'' \<notin> set (csv_value env (cd_get (en_data e) name))" if "name \<in> set fieldNames" for name
    using assms that by (auto simp: exportable_def list_all_iff csv_value_def csv_quoted_def)
  moreover have "list_all (\<lambda>x. CHR ''\<newline>'' \<notin> set x) [en_id e, or_else (en_slug e) [], en_locale e,
      entry_status_str (en_status e), js_of_nat (en_version e), cv_created env e, cv_updated env e]"
    using assms js_of_nat_plain[of "en_version e"] entry_status_plain[of "en_status e"]
    by (simp add: exportable_def plain_def)
  ultimately have "list_all (\<lambda>x. CHR ''\<newline>'' \<notin> set x)
     ([en_id e, or_else (en_slug e) [], en_locale e, entry_status_str (en_status e), js_of_nat (en_version e)]
      @ map (\<lambda>name. csv_value env (cd_get (en_data e) name)) fieldNames @ [cv_created env e, cv_updated env e])"
    by (simp add: list_all_iff)
  then show "CHR ''\<newline>'' \<notin> set (csv_row env fieldNames e)"
    unfolding csv_row_def by (rule js_join_free) simp
  show "csv_row env fieldNames e \<noteq> []" by (simp add: csv_row_def)
qed

lemma csv_header_line:
  assumes "list_all plain fieldNames"
  shows "CHR ''\<newline>'' \<notin> set (js_join '','' (csv_headers fieldNames))" "js_join '','' (csv_headers fieldNames) \<noteq> []"
proof -
  have "list_all (\<lambda>x. CHR ''\<newline>'' \<notin> set x) (csv_headers fieldNames)"
    using assms by (simp add: csv_headers_def plain_def list_all_iff)
  then show "CHR ''\<newline>'' \<notin> set (js_join '','' (csv_headers fieldNames))" by (rule js_join_free) simp
  show "js_join '','' (csv_headers fieldNames) \<noteq> []" by (simp add: csv_headers_def)
qed

lemma csv_lines_document:
  assumes "list_all plain fieldNames" and "list_all (exportable env fieldNames) entries"
  shows "csv_lines (csv_document env fieldNames entries) =
    js_join '','' (csv_headers fieldNames) # map (csv_row env fieldNames) entries"
proof -
  let ?lines = "js_join '','' (csv_headers fieldNames) # map (csv_row env fieldNames) entries"
  have rows: "exportable env fieldNames e" if "e \<in> set entries" for e using that assms(2) by (simp add: list_all_iff)
  have lines: "CHR ''\<newline>'' \<notin> set l \<and> l \<noteq> []" if "l \<in> set ?lines" for l
  proof -
    from that consider "l = js_join '','' (csv_headers fieldNames)" | e where "e \<in> set entries" "l = csv_row env fieldNames e"
      by auto
    then show ?thesis
      using csv_header_line[OF assms(1)] csv_row_line[OF rows] by cases simp_all
  qed
  have "js_split CHR ''\<newline>'' (js_join ''\<newline>'' ?lines) = ?lines"
    by (rule js_split_join) (use lines in blast)+
  moreover have "filter (\<lambda>l. l \<noteq> []) ?lines = ?lines"
    by (rule filter_True) (use lines in blast)
  ultimately show ?thesis unfolding csv_lines_def csv_document_def by (simp only:)
qed

lemma csv_record_get:
  "distinct hs \<Longrightarrow> length values = length hs \<Longrightarrow>
     jm_get (csv_record hs values rec) k = (case map_of (zip hs values) k of Some v \<Rightarrow> Some v | None \<Rightarrow> jm_get rec k)"
proof (induction hs arbitrary: "values" rec)
  case (Cons h hs)
  then obtain v vs where vs: "values = v # vs" by (cases "values") auto
  then have len: "length vs = length hs" using Cons.prems by simp
  have IH: "jm_get (csv_record hs vs (jm_set rec h v)) k =
      (case map_of (zip hs vs) k of Some x \<Rightarrow> Some x | None \<Rightarrow> jm_get (jm_set rec h v) k)"
    using Cons.IH[OF _ len] Cons.prems(1) by simp
  have "map_of (zip hs vs) h = None" using Cons.prems(1) len by (simp add: map_of_zip_is_None)
  then show ?case using IH by (cases "k = h") (simp_all add: vs jm_get_set split: option.split)
qed simp

lemma csv_record_wf: "jm_wf rec \<Longrightarrow> jm_wf (csv_record hs values rec)"
  by (induction hs arbitrary: "values" rec) auto

definition reread :: "'j csv_env \<Rightarrow> string \<Rightarrow> 'j content_value" where
  "reread env v = (case cv_parse env v of Some j \<Rightarrow> j | None \<Rightarrow> CText v)"

lemma csv_data_get:
  assumes "jm_wf rec"
  shows "jm_get (csv_data env rec) k = (if k \<in> set CSV_SYSTEM_FIELDS then None else map_option (reread env) (jm_get rec k))"
proof -
  have "jm_get (foldl (\<lambda>data (key, v). if key \<in> set CSV_SYSTEM_FIELDS then data
      else jm_set data key (case cv_parse env v of Some j \<Rightarrow> j | None \<Rightarrow> CText v)) d rec) k =
      (if k \<in> set CSV_SYSTEM_FIELDS then jm_get d k else case jm_get rec k of Some v \<Rightarrow> Some (reread env v) | None \<Rightarrow> jm_get d k)"
    if "distinct (map fst rec)" for d
    using that
  proof (induction rec arbitrary: d)
    case (Cons kv rec)
    obtain key v where kv: "kv = (key, v)" by (cases kv)
    have "jm_get rec key = None" using Cons.prems kv by (simp add: map_of_eq_None_iff)
    then show ?case using Cons kv by (auto simp: jsmap_simps reread_def split: option.splits)
  qed simp
  then show ?thesis using assms unfolding csv_data_def jm_wf_def by (simp split: option.splits)
qed

lemma map_of_zip_mid:
  "length xs = length us \<Longrightarrow> k \<notin> set xs \<Longrightarrow> distinct names \<Longrightarrow> length names = length vs \<Longrightarrow> k \<in> set names \<Longrightarrow>
     map_of (zip (xs @ names @ ys) (us @ vs @ ws)) k = map_of (zip names vs) k"
proof -
  assume a: "length xs = length us" "k \<notin> set xs" "length names = length vs" "k \<in> set names"
  have "map_of (zip xs us) k = None" using a by (simp add: map_of_zip_is_None)
  moreover obtain v where "map_of (zip names vs) k = Some v"
    using a by (metis map_of_zip_is_None not_Some_eq)
  moreover have "zip (xs @ names @ ys) (us @ vs @ ws) = zip xs us @ zip names vs @ zip ys ws" using a by simp
  ultimately show ?thesis by (simp only: map_of_append map_add_def option.case)
qed

lemma csv_entry_fields:
  assumes names: "distinct fieldNames" "set fieldNames \<inter> set CSV_SYSTEM_FIELDS = {}"
    and e: "exportable env fieldNames e"
    and n: "n = csv_new_entry env contentTypeId tenantId (csv_headers fieldNames) (csv_row env fieldNames e)"
  shows "en_locale n = en_locale e" and "en_slug n = (if or_else (en_slug e) [] = [] then None else en_slug e)"
    and "en_status n = DRAFT" and "en_contentTypeId n = contentTypeId"
    and "jm_get (en_data n) k = (if k \<in> set fieldNames then Some (reread env (value_text env (cd_get (en_data e) k))) else None)"
proof -
  let ?rec = "csv_record (csv_headers fieldNames) (csv_values env fieldNames e) []"
  have len: "length (csv_values env fieldNames e) = length (csv_headers fieldNames)"
    by (simp add: csv_values_def csv_headers_def)
  have dist: "distinct (csv_headers fieldNames)"
    using names by (auto simp: csv_headers_def CSV_SYSTEM_FIELDS_def)
  have get: "jm_get ?rec k = map_of (zip (csv_headers fieldNames) (csv_values env fieldNames e)) k" for k
    using csv_record_get[OF dist len, of "[]" k] by (simp split: option.splits)
  have field: "jm_get ?rec k = Some (value_text env (cd_get (en_data e) k))" if "k \<in> set fieldNames" for k
  proof -
    have "k \<notin> set [''id'', ''slug'', ''locale'', ''status'', ''version'']"
      using names(2) that by (auto simp: CSV_SYSTEM_FIELDS_def)
    then have "jm_get ?rec k = map_of (zip fieldNames (map (\<lambda>name. value_text env (cd_get (en_data e) name)) fieldNames)) k"
      unfolding get unfolding csv_headers_def csv_values_def using that names(1) by (intro map_of_zip_mid) simp_all
    then show ?thesis using that by (simp add: map_of_zip_map)
  qed
  have other: "jm_get ?rec k = None" if "k \<notin> set fieldNames" "k \<notin> set CSV_SYSTEM_FIELDS" for k
    unfolding get using that len by (simp add: map_of_zip_is_None csv_headers_def CSV_SYSTEM_FIELDS_def)
  have sys: "jm_get ?rec ''slug'' = Some (or_else (en_slug e) [])" "jm_get ?rec ''locale'' = Some (en_locale e)"
    unfolding get by (simp_all add: csv_headers_def csv_values_def)
  have n: "n = \<lparr>en_id = [], en_contentTypeId = contentTypeId, en_data = csv_data env ?rec,
      en_locale = or_else (jm_get ?rec ''locale'') ''en'', en_status = DRAFT, en_version = 1,
      en_slug = (if or_else (jm_get ?rec ''slug'') [] = [] then None else jm_get ?rec ''slug''),
      en_publishedAt = None, en_scheduledAt = None, en_scheduledUnpublishAt = None,
      en_tenantId = tenantId, en_createdBy = None\<rparr>"
    unfolding n csv_new_entry_def parse_csv_row[OF e] Let_def ..
  show "en_locale n = en_locale e" "en_slug n = (if or_else (en_slug e) [] = [] then None else en_slug e)"
    "en_status n = DRAFT" "en_contentTypeId n = contentTypeId"
    unfolding n sys by (auto simp: or_else_def split: option.splits)
  have "jm_wf ?rec" by (rule csv_record_wf) simp
  note data = csv_data_get[OF this, of env k]
  have "jm_get (csv_data env ?rec) k =
      (if k \<in> set fieldNames then Some (reread env (value_text env (cd_get (en_data e) k))) else None)"
  proof (cases "k \<in> set fieldNames")
    case True
    then have "k \<notin> set CSV_SYSTEM_FIELDS" using names(2) by blast
    then show ?thesis unfolding data field[OF True] using True by simp
  next
    case False
    then show ?thesis using data other[OF False] by (cases "k \<in> set CSV_SYSTEM_FIELDS") simp_all
  qed
  then show "jm_get (en_data n) k =
      (if k \<in> set fieldNames then Some (reread env (value_text env (cd_get (en_data e) k))) else None)"
    unfolding n by simp
qed

section \<open>Properties\<close>

definition csv_faithful :: "'j csv_env \<Rightarrow> string list \<Rightarrow> 'j content_entry \<Rightarrow> 'j content_entry \<Rightarrow> bool" where
  "csv_faithful env fieldNames e n \<longleftrightarrow> en_locale n = en_locale e
     \<and> en_slug n = (if or_else (en_slug e) [] = [] then None else en_slug e) \<and> en_status n = DRAFT
     \<and> dom (jm_get (en_data n)) = set fieldNames
     \<and> list_all (\<lambda>k. cd_get (en_data n) k = reread env (value_text env (cd_get (en_data e) k))) fieldNames"


definition text_env :: "unit csv_env" where
  "text_env = \<lparr>cv_num = (\<lambda>n. []), cv_json = (\<lambda>j. []),
     cv_parse = (\<lambda>t. if t = ''42'' then Some (CNumber 42) else None), cv_created = (\<lambda>e. ''c''), cv_updated = (\<lambda>e. ''u'')\<rparr>"

definition csv_example :: "unit content_entry" where
  "csv_example = \<lparr>en_id = ''1'', en_contentTypeId = ''t'',
     en_data = [(''title'', CText [CHR ''a'', CHR '','', quote, CHR ''b'']), (''code'', CText ''42'')], en_locale = ''en'',
     en_status = PUBLISHED, en_version = 7, en_slug = Some ''s'', en_publishedAt = None, en_scheduledAt = None,
     en_scheduledUnpublishAt = None, en_tenantId = None, en_createdBy = None\<rparr>"


subsection \<open>The import accounts for every row\<close>

abbreviation counted :: "bulk_counts \<Rightarrow> nat" where
  "counted c \<equiv> bk_created c + bk_skipped c"

lemma no_counts_simps [simp]: "bk_created no_counts = 0" "bk_skipped no_counts = 0"
  by (simp_all add: no_counts_def)

lemma count_one_counted [simp]: "counted (count_one r c) = Suc (counted c)"
  by (simp add: count_one_def split: option.splits sum.splits)

lemma import_table_counted: "counted (fst (import_table look build rows c s)) = counted c + length rows"
  by (induction rows arbitrary: c s) (simp_all split: prod.split)

lemma import_types_counted: "counted (fst (snd (import_types look build oldId rows m c s))) = counted c + length rows"
  by (induction rows arbitrary: m c s) (simp_all split: prod.split)

lemma import_entries_counted:
  "case import_entries db m tenantId bs c errs s of (c', errs', s') \<Rightarrow> counted c' = counted c + length bs
     \<and> length errs' + bk_skipped c = length errs + bk_skipped c'"
proof (induction bs arbitrary: c errs s)
  case (Cons b bs)
  show ?case
  proof (cases "db_create db (bulk_new_entry m tenantId b) s")
    case None
    then show ?thesis
      using Cons[of "c\<lparr>bk_skipped := bk_skipped c + 1\<rparr>" "errs @ [''Entry '' @ or_else (be_slug b) (be_id b) @ '': error'']" s]
      by (simp split: prod.splits)
  next
    case (Some es)
    then show ?thesis using Cons[of "c\<lparr>bk_created := bk_created c + 1\<rparr>" errs "snd es"]
      by (cases es) (simp split: prod.splits)
  qed
qed simp

theorem import_accounts_for_every_row:
  "case importAll db bc x tenantId s of (r, s') \<Rightarrow>
     counted (br_locales r) = length (or_else (bx_locales x) [])
   \<and> counted (br_components r) = length (or_else (bx_components x) [])
   \<and> counted (br_contentTypes r) = length (or_else (bx_contentTypes x) [])
   \<and> counted (br_entries r) = length (or_else (bx_entries x) []) \<and> length (br_errors r) = bk_skipped (br_entries r)"
proof -
  obtain l s1 where l: "import_table (bc_findLocale bc tenantId) (bc_createLocale bc tenantId) (or_else (bx_locales x) []) no_counts s = (l, s1)"
    by (metis surj_pair)
  obtain c s2 where c: "import_table (bc_findComponent bc tenantId) (bc_createComponent bc tenantId) (or_else (bx_components x) []) no_counts s1 = (c, s2)"
    by (metis surj_pair)
  obtain ids t s3 where t: "import_types (bc_findType bc tenantId) (bc_createType bc tenantId) (bc_typeId bc) (or_else (bx_contentTypes x) []) [] no_counts s2 = (ids, t, s3)"
    by (metis surj_pair)
  obtain e errs s4 where e: "import_entries db ids tenantId (or_else (bx_entries x) []) no_counts [] s3 = (e, errs, s4)"
    by (metis surj_pair)
  have "counted l = length (or_else (bx_locales x) [])"
    using import_table_counted[of "bc_findLocale bc tenantId" "bc_createLocale bc tenantId" "or_else (bx_locales x) []" no_counts s]
    by (simp add: l)
  moreover have "counted c = length (or_else (bx_components x) [])"
    using import_table_counted[of "bc_findComponent bc tenantId" "bc_createComponent bc tenantId" "or_else (bx_components x) []" no_counts s1]
    by (simp add: c)
  moreover have "counted t = length (or_else (bx_contentTypes x) [])"
    using import_types_counted[of "bc_findType bc tenantId" "bc_createType bc tenantId" "bc_typeId bc" "or_else (bx_contentTypes x) []" "[]" no_counts s2]
    by (simp add: t)
  moreover have "counted e = length (or_else (bx_entries x) []) \<and> length errs = bk_skipped e"
    using import_entries_counted[where db = db and m = ids and tenantId = tenantId and bs = "or_else (bx_entries x) []" and c = no_counts and errs = "[]" and s = s3]
    by (simp add: e)
  ultimately show ?thesis by (simp add: importAll_def l c t e)
qed

end
