(* ===== verification/Content_Publishing.thy ===== *)
theory Content_Publishing
  imports Content_Entries
begin

text \<open>
  \<open>src/src/content/services/content-publishing.service.ts\<close>: the publishing workflow over the entry
  repository. The embedding and CDN calls are started and not waited for; they are recorded as effects.
  \<open>publishing_env\<close> says which of the two optional services are present.
\<close>

section \<open>The service\<close>

datatype publishing_effect = EmbedEntry string "string option" | PurgeEntry "string option" "string option"

datatype publishing_error = BadRequest string | NotFound string | DbError

record publishing_env =
  pe_rag :: bool
  pe_cdn :: bool

type_synonym ('j, 's) publishing_result =
  "publishing_error + ('j content_entry \<times> publishing_effect list \<times> 's)"

text \<open>
  \<open>transition\<close>: \<open>now\<close> is the clock, \<open>scheduledAt\<close> the option of that name. A failure leaves the database
  as it was; a success is the updated entry, the effects started and the new database.
\<close>

definition cps_update ::
  "('j, 's) content_db \<Rightarrow> string \<Rightarrow> 'j entry_partial \<Rightarrow> publishing_effect list \<Rightarrow> 's \<Rightarrow> ('j, 's) publishing_result" where
  "cps_update db i p effects s = (case cer_update db i p s of
     None \<Rightarrow> Inl DbError | Some (e, s') \<Rightarrow> Inr (e, effects, s'))"

definition transition_data :: "int \<Rightarrow> entry_status \<Rightarrow> int option \<Rightarrow> 'j entry_partial" where
  "transition_data now target scheduledAt =
     (let p = no_change\<lparr>pa_status := Some target\<rparr>;
          p = (if target = PUBLISHED then p\<lparr>pa_publishedAt := Some now, pa_scheduledAt := None\<rparr> else p);
          p = (if target = SCHEDULED then p\<lparr>pa_scheduledAt := scheduledAt\<rparr> else p);
          p = (if target = UNPUBLISHED then p\<lparr>pa_publishedAt := None\<rparr> else p)
      in p)"

definition transition_effects ::
  "publishing_env \<Rightarrow> 'j content_entry \<Rightarrow> string \<Rightarrow> string option \<Rightarrow> entry_status \<Rightarrow> publishing_effect list" where
  "transition_effects env entry entryId tenantId target =
     (if target = PUBLISHED \<and> pe_rag env then [EmbedEntry entryId tenantId] else [])
     @ (if (target = PUBLISHED \<or> target = UNPUBLISHED) \<and> pe_cdn env
        then [PurgeEntry (en_slug entry) (Some (en_locale entry))] else [])"

definition not_allowed_message :: "entry_status \<Rightarrow> entry_status \<Rightarrow> string" where
  "not_allowed_message current target =
     ''Cannot transition from \"'' @ entry_status_str current @ ''\" to \"'' @ entry_status_str target
     @ ''\". Allowed: '' @ js_join '', '' (map entry_status_str (status_transitions current))"

definition entry_not_found_message :: "string \<Rightarrow> string" where
  "entry_not_found_message i = ''Entry \"'' @ i @ ''\" not found''"

definition cps_transition ::
  "('j, 's) content_db \<Rightarrow> publishing_env \<Rightarrow> int \<Rightarrow> string \<Rightarrow> entry_status \<Rightarrow> string option \<Rightarrow> int option
    \<Rightarrow> 's \<Rightarrow> ('j, 's) publishing_result" where
  "cps_transition db env now entryId target tenantId scheduledAt s =
     (case cer_findById db entryId tenantId s of
       None \<Rightarrow> Inl (BadRequest (entry_not_found_message entryId))
     | Some entry \<Rightarrow>
         if target \<notin> set (status_transitions (en_status entry))
         then Inl (BadRequest (not_allowed_message (en_status entry) target))
         else if target = SCHEDULED \<and> scheduledAt = None
         then Inl (BadRequest ''scheduledAt is required for SCHEDULED status'')
         else if target = SCHEDULED \<and> the scheduledAt \<le> now
         then Inl (BadRequest ''scheduledAt must be in the future'')
         else cps_update db entryId (transition_data now target scheduledAt)
                (transition_effects env entry entryId tenantId target) s)"

definition cps_approve where
  "cps_approve db env now entryId tenantId s = cps_transition db env now entryId APPROVED tenantId None s"

definition cps_reject where
  "cps_reject db env now entryId tenantId s = cps_transition db env now entryId REJECTED tenantId None s"

definition cps_publish where
  "cps_publish db env now entryId tenantId s = cps_transition db env now entryId PUBLISHED tenantId None s"

definition cps_schedule where
  "cps_schedule db env now entryId scheduledAt tenantId s =
     cps_transition db env now entryId SCHEDULED tenantId (Some scheduledAt) s"

definition cps_unpublish where
  "cps_unpublish db env now entryId tenantId s = cps_transition db env now entryId UNPUBLISHED tenantId None s"

definition cps_archive where
  "cps_archive db env now entryId tenantId s = cps_transition db env now entryId ARCHIVED tenantId None s"

definition cps_scheduleUnpublish ::
  "('j, 's) content_db \<Rightarrow> int \<Rightarrow> string \<Rightarrow> int \<Rightarrow> string option \<Rightarrow> 's \<Rightarrow> ('j, 's) publishing_result" where
  "cps_scheduleUnpublish db now entryId due tenantId s =
     (case cer_findById db entryId tenantId s of
       None \<Rightarrow> Inl (BadRequest (entry_not_found_message entryId))
     | Some entry \<Rightarrow>
         if en_status entry \<noteq> PUBLISHED
         then Inl (BadRequest ''Only PUBLISHED entries can be scheduled for unpublish'')
         else if due \<le> now then Inl (BadRequest ''scheduledUnpublishAt must be in the future'')
         else cps_update db entryId (no_change\<lparr>pa_scheduledUnpublishAt := Some due\<rparr>) [] s)"

subsection \<open>The periodic check\<close>

text \<open>A failing update is logged and the loop goes on.\<close>

definition publish_one :: "('j, 's) content_db \<Rightarrow> int \<Rightarrow> 'j content_entry \<Rightarrow> 's \<Rightarrow> 's" where
  "publish_one db now entry s =
     (case cer_update db (en_id entry)
        (no_change\<lparr>pa_status := Some PUBLISHED, pa_publishedAt := Some now, pa_scheduledAt := None\<rparr>) s of
       None \<Rightarrow> s | Some (_, s') \<Rightarrow> s')"

definition unpublish_one ::
  "('j, 's) content_db \<Rightarrow> publishing_env \<Rightarrow> 'j content_entry \<Rightarrow> 's \<times> publishing_effect list
    \<Rightarrow> 's \<times> publishing_effect list" where
  "unpublish_one db env entry st = (case st of (s, effects) \<Rightarrow>
     (case cer_update db (en_id entry)
        (no_change\<lparr>pa_status := Some UNPUBLISHED, pa_publishedAt := None, pa_scheduledUnpublishAt := None\<rparr>) s of
       None \<Rightarrow> (s, effects)
     | Some (_, s') \<Rightarrow> (s', effects @ (if pe_cdn env then [PurgeEntry (en_slug entry) None] else []))))"

definition cps_processScheduledEntries ::
  "('j, 's) content_db \<Rightarrow> publishing_env \<Rightarrow> int \<Rightarrow> 's \<Rightarrow> 's \<times> publishing_effect list" where
  "cps_processScheduledEntries db env now s =
     (let s = fold (publish_one db now) (cer_findScheduledEntries db now s) s
      in fold (unpublish_one db env) (cer_findScheduledUnpublishEntries db now s) (s, []))"

section \<open>What a transition does\<close>

lemma set_columns_transition:
  "set_columns (repo_columns (transition_data now target due)) e = e\<lparr>en_status := target,
     en_publishedAt := (if target = PUBLISHED then Some now else en_publishedAt e),
     en_scheduledAt := (if target = SCHEDULED \<and> due \<noteq> None then due else en_scheduledAt e)\<rparr>"
  by (cases target; cases due) (simp_all add: set_columns_def repo_columns_def transition_data_def no_change_def)

lemma cps_update_found:
  assumes "content_db_ok db rows" and "i \<in> en_id ` set (rows s)"
  obtains e s' where "cps_update db i p effects s = Inr (e, effects, s')"
    and "rows s' = update_rows i (repo_columns p) (rows s)" and "e \<in> set (rows s')" and "en_id e = i"
proof -
  obtain e s' where u: "cer_update db i p s = Some (e, s')"
    using cer_update_None[OF assms(1), of i p s] assms(2) by (metis option.exhaust surj_pair)
  show thesis
    using that[OF _ cer_update_rows[OF assms(1) u]] by (simp add: cps_update_def u)
qed

text \<open>The row a transition to \<open>target\<close> leaves in place of \<open>e\<close>.\<close>

definition moved :: "int \<Rightarrow> entry_status \<Rightarrow> int option \<Rightarrow> 'j content_entry \<Rightarrow> 'j content_entry" where
  "moved now target due e = e\<lparr>en_status := target,
     en_publishedAt := (if target = PUBLISHED then Some now else en_publishedAt e),
     en_scheduledAt := (if target = SCHEDULED then due else en_scheduledAt e)\<rparr>"

definition may_move :: "int \<Rightarrow> entry_status \<Rightarrow> int option \<Rightarrow> 'j content_entry \<Rightarrow> bool" where
  "may_move now target due e \<longleftrightarrow> target \<in> set (status_transitions (en_status e))
     \<and> (target = SCHEDULED \<longrightarrow> (case due of None \<Rightarrow> False | Some t \<Rightarrow> now < t))"

lemma moved_id [simp]: "en_id (moved now target due e) = en_id e"
  by (simp add: moved_def)

lemma transition_found:
  assumes "content_db_ok db rows" and "cer_findById db i tenantId s = Some e" and "may_move now target due e"
  shows "\<exists>s'. cps_transition db env now i target tenantId due s =
      Inr (moved now target due e, transition_effects env e i tenantId target, s')
    \<and> rows s' = map (\<lambda>x. if x = e then moved now target due e else x) (rows s)"
proof -
  have e: "e \<in> set (rows s)" "en_id e = i" using assms(2) cer_findById_iff[OF assms(1)] by auto
  then have "i \<in> en_id ` set (rows s)" by blast
  from cps_update_found[OF assms(1) this, of "transition_data now target due" "transition_effects env e i tenantId target"]
  obtain x s' where u: "cps_update db i (transition_data now target due) (transition_effects env e i tenantId target) s
      = Inr (x, transition_effects env e i tenantId target, s')"
    "rows s' = update_rows i (repo_columns (transition_data now target due)) (rows s)"
    "x \<in> set (rows s')" "en_id x = i" by blast
  have cols: "set_columns (repo_columns (transition_data now target due)) e = moved now target due e"
    using assms(3) by (cases due) (auto simp: set_columns_transition moved_def may_move_def)
  have rows': "rows s' = map (\<lambda>x. if x = e then moved now target due e else x) (rows s)"
    unfolding u(2) update_rows_def
  proof (rule map_cong[OF refl])
    fix x
    assume "x \<in> set (rows s)"
    then have "en_id x = i \<longleftrightarrow> x = e" using rows_id_unique[OF assms(1) _ e(1)] e(2) by metis
    then show "(if en_id x = i then set_columns (repo_columns (transition_data now target due)) x else x) =
        (if x = e then moved now target due e else x)"
      using cols by simp
  qed
  have "moved now target due e \<in> set (rows s')"
    unfolding rows' set_map using e(1) by (intro image_eqI[of _ _ e]) simp_all
  then have "x = moved now target due e"
    by (rule rows_id_unique[OF assms(1) u(3)]) (simp add: u(4) e(2))
  moreover have "cps_transition db env now i target tenantId due s =
      cps_update db i (transition_data now target due) (transition_effects env e i tenantId target) s"
    using assms(2,3) by (auto simp: cps_transition_def may_move_def split: option.splits)
  ultimately show ?thesis using u(1) rows' by auto
qed

lemma transition_refused:
  assumes "cer_findById db i tenantId s = None \<or>
    (\<exists>e. cer_findById db i tenantId s = Some e \<and> \<not> may_move now target due e)"
  shows "\<exists>msg. cps_transition db env now i target tenantId due s = Inl (BadRequest msg)"
  using assms by (auto simp: cps_transition_def may_move_def split: option.splits)


section \<open>What the periodic check does\<close>

definition tick_publish :: "int \<Rightarrow> 'j content_entry \<Rightarrow> 'j content_entry" where
  "tick_publish now e = (if en_status e = SCHEDULED \<and> lte_col (en_scheduledAt e) now
     then e\<lparr>en_status := PUBLISHED, en_publishedAt := Some now\<rparr> else e)"

definition tick_unpublish :: "int \<Rightarrow> 'j content_entry \<Rightarrow> 'j content_entry" where
  "tick_unpublish now e = (if en_status e = PUBLISHED \<and> lte_col (en_scheduledUnpublishAt e) now
     then e\<lparr>en_status := UNPUBLISHED\<rparr> else e)"

lemma update_rows_absent: "i \<notin> en_id ` set rows \<Longrightarrow> update_rows i p rows = rows"
  unfolding update_rows_def by (rule map_idI) auto

lemma publish_one_rows:
  fixes db :: "('j, 's) content_db"
  assumes "content_db_ok db rows"
  shows "rows (publish_one db now x s) =
    map (\<lambda>e. if en_id e = en_id x then e\<lparr>en_status := PUBLISHED, en_publishedAt := Some now\<rparr> else e) (rows s)"
proof -
  define p :: "'j entry_partial" where "p = no_change\<lparr>pa_status := Some PUBLISHED, pa_publishedAt := Some now, pa_scheduledAt := None\<rparr>"
  have cols: "set_columns (repo_columns p) e = e\<lparr>en_status := PUBLISHED, en_publishedAt := Some now\<rparr>"
    for e
    by (simp add: p_def set_columns_def repo_columns_def no_change_def)
  have "rows (publish_one db now x s) = update_rows (en_id x) (repo_columns p) (rows s)"
  proof (cases "cer_update db (en_id x) p s")
    case None
    then have "publish_one db now x s = s" unfolding publish_one_def p_def[symmetric] by simp
    moreover have "en_id x \<notin> en_id ` set (rows s)" using None cer_update_None[OF assms] by blast
    ultimately show ?thesis by (simp add: update_rows_absent)
  next
    case (Some r)
    then obtain e s' where u: "cer_update db (en_id x) p s = Some (e, s')" by (cases r) simp
    then have "publish_one db now x s = s'" unfolding publish_one_def p_def[symmetric] by simp
    then show ?thesis using cer_update_rows(1)[OF assms u] by simp
  qed
  then show ?thesis by (simp only: update_rows_def cols)
qed

lemma publish_all_rows:
  assumes "content_db_ok db rows"
  shows "rows (fold (publish_one db now) xs s) = map (\<lambda>e. if en_id e \<in> en_id ` set xs
    then e\<lparr>en_status := PUBLISHED, en_publishedAt := Some now\<rparr> else e) (rows s)"
proof (induction xs arbitrary: s)
  case (Cons x xs)
  show ?case by (simp add: Cons.IH publish_one_rows[OF assms])
qed simp

lemma unpublish_one_rows:
  fixes db :: "('j, 's) content_db"
  assumes "content_db_ok db rows"
  shows "rows (fst (unpublish_one db env x (s, effects))) =
    map (\<lambda>e. if en_id e = en_id x then e\<lparr>en_status := UNPUBLISHED\<rparr> else e) (rows s)"
proof -
  define p :: "'j entry_partial" where "p = no_change\<lparr>pa_status := Some UNPUBLISHED, pa_publishedAt := None, pa_scheduledUnpublishAt := None\<rparr>"
  have cols: "set_columns (repo_columns p) e = e\<lparr>en_status := UNPUBLISHED\<rparr>" for e
    by (simp add: p_def set_columns_def repo_columns_def no_change_def)
  have "rows (fst (unpublish_one db env x (s, effects))) = update_rows (en_id x) (repo_columns p) (rows s)"
  proof (cases "cer_update db (en_id x) p s")
    case None
    then have "fst (unpublish_one db env x (s, effects)) = s" unfolding unpublish_one_def p_def[symmetric] by simp
    moreover have "en_id x \<notin> en_id ` set (rows s)" using None cer_update_None[OF assms] by blast
    ultimately show ?thesis by (simp add: update_rows_absent)
  next
    case (Some r)
    then obtain e s' where u: "cer_update db (en_id x) p s = Some (e, s')" by (cases r) simp
    then have "fst (unpublish_one db env x (s, effects)) = s'"
      unfolding unpublish_one_def p_def[symmetric] by simp
    then show ?thesis using cer_update_rows(1)[OF assms u] by simp
  qed
  then show ?thesis by (simp only: update_rows_def cols)
qed

lemma unpublish_all_rows:
  assumes "content_db_ok db rows"
  shows "rows (fst (fold (unpublish_one db env) xs (s, effects))) =
    map (\<lambda>e. if en_id e \<in> en_id ` set xs then e\<lparr>en_status := UNPUBLISHED\<rparr> else e) (rows s)"
proof (induction xs arbitrary: s effects)
  case (Cons x xs)
  obtain s' eff' where u: "unpublish_one db env x (s, effects) = (s', eff')" by (metis surj_pair)
  have "rows s' = map (\<lambda>e. if en_id e = en_id x then e\<lparr>en_status := UNPUBLISHED\<rparr> else e) (rows s)"
    using unpublish_one_rows[OF assms, of env x s effects] by (simp add: u)
  then show ?case by (simp add: u Cons.IH)
qed simp

lemma found_by_id:
  assumes "content_db_ok db rows" and "e \<in> set (rows s)"
  shows "en_id e \<in> en_id ` set (db_findMany db P s) \<longleftrightarrow> P e"
proof
  assume "en_id e \<in> en_id ` set (db_findMany db P s)"
  then obtain x where x: "x \<in> set (db_findMany db P s)" "en_id x = en_id e" by fastforce
  then have "x \<in> set (rows s) \<and> P x" using content_db_okD(4)[OF assms(1)] by blast
  moreover from this have "x = e" using rows_id_unique[OF assms(1) _ assms(2) x(2)] by blast
  ultimately show "P e" by simp
next
  assume "P e"
  then have "e \<in> set (db_findMany db P s)" using content_db_okD(4)[OF assms(1)] assms(2) by blast
  then show "en_id e \<in> en_id ` set (db_findMany db P s)" by (rule imageI)
qed

lemma process_publishes:
  fixes db :: "('j, 's) content_db"
  assumes "content_db_ok db rows"
  shows "rows (fold (publish_one db now) (cer_findScheduledEntries db now s) s) = map (tick_publish now) (rows s)"
  unfolding publish_all_rows[OF assms]
proof (rule map_cong)
  fix e
  assume "e \<in> set (rows s)"
  then have "en_id e \<in> en_id ` set (cer_findScheduledEntries db now s) \<longleftrightarrow>
      en_status e = SCHEDULED \<and> lte_col (en_scheduledAt e) now"
    unfolding cer_findScheduledEntries_def by (rule found_by_id[OF assms])
  then show "(if en_id e \<in> en_id ` set (cer_findScheduledEntries db now s)
      then e\<lparr>en_status := PUBLISHED, en_publishedAt := Some now\<rparr> else e) = tick_publish now e"
    by (simp only: tick_publish_def)
qed (rule refl)

lemma process_unpublishes:
  fixes db :: "('j, 's) content_db"
  assumes "content_db_ok db rows"
  shows "rows (fst (fold (unpublish_one db env) (cer_findScheduledUnpublishEntries db now s) (s, []))) =
    map (tick_unpublish now) (rows s)"
  unfolding unpublish_all_rows[OF assms]
proof (rule map_cong)
  fix e
  assume "e \<in> set (rows s)"
  then have "en_id e \<in> en_id ` set (cer_findScheduledUnpublishEntries db now s) \<longleftrightarrow>
      en_status e = PUBLISHED \<and> lte_col (en_scheduledUnpublishAt e) now"
    unfolding cer_findScheduledUnpublishEntries_def by (rule found_by_id[OF assms])
  then show "(if en_id e \<in> en_id ` set (cer_findScheduledUnpublishEntries db now s)
      then e\<lparr>en_status := UNPUBLISHED\<rparr> else e) = tick_unpublish now e"
    by (simp only: tick_unpublish_def)
qed (rule refl)

lemma process_rows:
  assumes "content_db_ok db rows"
  shows "rows (fst (cps_processScheduledEntries db env now s)) = map (\<lambda>e. tick_unpublish now (tick_publish now e)) (rows s)"
  unfolding cps_processScheduledEntries_def Let_def process_unpublishes[OF assms] process_publishes[OF assms]
  by (simp add: comp_def)

lemma no_columns: "set_columns (repo_columns (no_change\<lparr>pa_scheduledUnpublishAt := Some due\<rparr>)) e = e"
  by (simp add: set_columns_def repo_columns_def no_change_def)

lemma scheduleUnpublish_rows:
  assumes "content_db_ok db rows" and "cps_scheduleUnpublish db now i due tenantId s = Inr (e, effects, s')"
  shows "rows s' = rows s"
proof -
  from assms(2) have "cps_update db i (no_change\<lparr>pa_scheduledUnpublishAt := Some due\<rparr>) [] s = Inr (e, effects, s')"
    by (auto simp: cps_scheduleUnpublish_def split: option.splits if_splits)
  then have "cer_update db i (no_change\<lparr>pa_scheduledUnpublishAt := Some due\<rparr>) s = Some (e, s')"
    by (auto simp: cps_update_def split: option.splits)
  from cer_update_rows(1)[OF assms(1) this] show ?thesis
    by (simp only: update_rows_def no_columns if_cancel list.map_ident)
qed

section \<open>Properties\<close>

text \<open>Publishing transitions follow the table. On a database that keeps the laws, for an entry the id and
  tenant select: \<open>transition\<close> succeeds exactly when the table allows the move and, for SCHEDULED, a time
  after now is given; it then changes that row alone, to the target status, with the publication time set
  on PUBLISHED and the schedule on SCHEDULED, answers with the new row, and starts the embedding and the
  purge of the options. In every other case, a missing entry included, it throws and nothing changes.
  The schedule and the publication time are never cleared.\<close>

theorem transition_follows_status_table:
  assumes "content_db_ok db rows"
  shows "(\<forall>e\<in>set (rows s). en_id e = i \<and> tenant_where tenantId (en_tenantId e) \<longrightarrow>
      (if may_move now target due e then
         \<exists>s'. cps_transition db env now i target tenantId due s =
             Inr (moved now target due e, transition_effects env e i tenantId target, s')
           \<and> rows s' = map (\<lambda>x. if x = e then moved now target due e else x) (rows s)
       else \<exists>msg. cps_transition db env now i target tenantId due s = Inl (BadRequest msg)))
    \<and> ((\<forall>e\<in>set (rows s). \<not> (en_id e = i \<and> tenant_where tenantId (en_tenantId e))) \<longrightarrow>
       cps_transition db env now i target tenantId due s = Inl (BadRequest (entry_not_found_message i)))"
proof (intro conjI ballI impI)
  fix e
  assume "e \<in> set (rows s)" and "en_id e = i \<and> tenant_where tenantId (en_tenantId e)"
  then have f: "cer_findById db i tenantId s = Some e" using cer_findById_iff[OF assms] by blast
  show "if may_move now target due e then
         \<exists>s'. cps_transition db env now i target tenantId due s =
             Inr (moved now target due e, transition_effects env e i tenantId target, s')
           \<and> rows s' = map (\<lambda>x. if x = e then moved now target due e else x) (rows s)
       else \<exists>msg. cps_transition db env now i target tenantId due s = Inl (BadRequest msg)"
    using transition_found[OF assms f] transition_refused[of db i tenantId s now target due] f
    by (cases "may_move now target due e") simp_all
next
  assume "\<forall>e\<in>set (rows s). \<not> (en_id e = i \<and> tenant_where tenantId (en_tenantId e))"
  then have "cer_findById db i tenantId s = None"
    using cer_findById_iff[OF assms] by (metis option.exhaust)
  then show "cps_transition db env now i target tenantId due s = Inl (BadRequest (entry_not_found_message i))"
    by (simp add: cps_transition_def)
qed

text \<open>The periodic check. One run maps every row: a SCHEDULED entry whose time has come becomes
  PUBLISHED, and a PUBLISHED entry whose unpublish time has come becomes UNPUBLISHED; no other row
  changes. But \<open>scheduleUnpublish\<close> leaves every row as it was even when it answers with success, so an
  entry without an unpublish time is never unpublished by the check.\<close>

theorem periodic_check_and_lost_unpublish:
  assumes "content_db_ok db rows"
  shows "rows (fst (cps_processScheduledEntries db env now s)) =
      map (\<lambda>e. tick_unpublish now (tick_publish now e)) (rows s)
    \<and> (\<forall>e effects s'. cps_scheduleUnpublish db t i due tenantId s = Inr (e, effects, s') \<longrightarrow>
        rows s' = rows s \<and> rows (fst (cps_processScheduledEntries db env now s')) =
          rows (fst (cps_processScheduledEntries db env now s)))"
  using process_rows[OF assms] scheduleUnpublish_rows[OF assms] by metis

subsection \<open>Witnesses\<close>

definition wit_entry :: "unit content_entry" where
  "wit_entry = \<lparr>en_id = ''e1'', en_contentTypeId = ''t'', en_data = [], en_locale = ''en'', en_status = APPROVED,
     en_version = 1, en_slug = Some ''hello'', en_publishedAt = None, en_scheduledAt = None,
     en_scheduledUnpublishAt = None, en_tenantId = None, en_createdBy = None\<rparr>"

definition wit_env :: publishing_env where
  "wit_env = \<lparr>pe_rag = True, pe_cdn = True\<rparr>"

theorem transition_follows_status_table_witness:
  "(\<exists>s'. cps_transition (list_db []) wit_env 5 ''e1'' PUBLISHED None None (table_of [wit_entry]) =
       Inr (moved 5 PUBLISHED None wit_entry,
            [EmbedEntry ''e1'' None, PurgeEntry (Some ''hello'') (Some ''en'')], s')
     \<and> table_rows s' = [moved 5 PUBLISHED None wit_entry])
   \<and> (\<exists>msg. cps_transition (list_db []) wit_env 5 ''e1'' SCHEDULED None (Some 5) (table_of [wit_entry]) =
       Inl (BadRequest msg))"
proof -
  have rows: "table_rows (table_of [wit_entry]) = [wit_entry]" by simp
  have sel: "en_id wit_entry = ''e1'' \<and> tenant_where None (en_tenantId wit_entry)"
    by (simp add: wit_entry_def tenant_where_def)
  have ok: "may_move 5 PUBLISHED None wit_entry" and no: "\<not> may_move 5 SCHEDULED (Some 5) wit_entry"
    by (simp_all add: wit_entry_def may_move_def)
  have eff: "transition_effects wit_env wit_entry ''e1'' None PUBLISHED =
      [EmbedEntry ''e1'' None, PurgeEntry (Some ''hello'') (Some ''en'')]"
    by (simp add: transition_effects_def wit_env_def wit_entry_def)
  show ?thesis
    using transition_follows_status_table[OF list_db_ok[of "[]"], of "table_of [wit_entry]" "''e1''" None 5 PUBLISHED None wit_env, THEN conjunct1]
      transition_follows_status_table[OF list_db_ok[of "[]"], of "table_of [wit_entry]" "''e1''" None 5 SCHEDULED "Some 5" wit_env, THEN conjunct1]
    by (simp add: rows sel ok no eff)
qed

theorem periodic_check_and_lost_unpublish_witness:
  "table_rows (fst (cps_processScheduledEntries (list_db []) wit_env 9
     (table_of [wit_entry\<lparr>en_status := SCHEDULED, en_scheduledAt := Some 7\<rparr>]))) =
   [wit_entry\<lparr>en_status := PUBLISHED, en_publishedAt := Some 9, en_scheduledAt := Some 7\<rparr>]"
  by (simp add: periodic_check_and_lost_unpublish[OF list_db_ok[of "[]"], THEN conjunct1]
      tick_publish_def tick_unpublish_def lte_col_def wit_entry_def)

end
