(* ===== verification/Content_Localization.thy ===== *)
theory Content_Localization
  imports Content_Entries
begin

text \<open>
  \<open>src/src/content/services/content-localization.service.ts\<close>: fallback chains, the resolution of an entry
  in a locale, the merge of field values and the translation status; and the choice of the entry the
  delivery controller serves (\<open>controllers/delivery.controller.ts\<close>), before references are populated.
  The loop that follows fallback locales may in principle run forever, so it is a partial function whose
  value \<open>None\<close> is not returning; the property shows that it returns.
\<close>

section \<open>Fallback chains\<close>

text \<open>\<open>localeConfig?.fallbackLocale\<close>, where it is a non-empty text.\<close>

definition fallback_of :: "(string \<Rightarrow> content_locale option) \<Rightarrow> string \<Rightarrow> string option" where
  "fallback_of lookup code = (case lookup code of
     None \<Rightarrow> None
   | Some config \<Rightarrow> (case lc_fallbackLocale config of
       None \<Rightarrow> None | Some f \<Rightarrow> if f = [] then None else Some f))"

partial_function (option) follow_fallbacks ::
  "(string \<Rightarrow> content_locale option) \<Rightarrow> string \<Rightarrow> string list \<Rightarrow> string list \<Rightarrow> string list option" where
  "follow_fallbacks lookup current visited chain =
     (if current = [] \<or> current \<in> set visited then Some chain
      else case fallback_of lookup current of
        None \<Rightarrow> Some chain
      | Some f \<Rightarrow> follow_fallbacks lookup f (current # visited) (chain @ [f]))"

definition buildFallbackChain ::
  "('j, 's) content_db \<Rightarrow> string option \<Rightarrow> string \<Rightarrow> string option \<Rightarrow> 's \<Rightarrow> string list option" where
  "buildFallbackChain db defaultLocale lang tenantId s =
     map_option (\<lambda>chain. let d = or_else defaultLocale ''en'' in
         if d \<in> set chain then chain else chain @ [d])
       (follow_fallbacks (\<lambda>code. clr_findByCode db code tenantId s) lang [] [])"

text \<open>The first entry found with the slug in a locale of the chain.\<close>

fun try_locales ::
  "('j, 's) content_db \<Rightarrow> string option \<Rightarrow> string option \<Rightarrow> 's \<Rightarrow> string list \<Rightarrow> 'j content_entry option" where
  "try_locales db slug tenantId s [] = None"
| "try_locales db slug tenantId s (l # ls) =
     (case slug of
        None \<Rightarrow> try_locales db slug tenantId s ls
      | Some sl \<Rightarrow> if sl = [] then try_locales db slug tenantId s ls
          else (case cer_findBySlug db sl l tenantId s of
                  Some e \<Rightarrow> Some e | None \<Rightarrow> try_locales db slug tenantId s ls))"

definition resolveWithFallback ::
  "('j, 's) content_db \<Rightarrow> string option \<Rightarrow> string \<Rightarrow> string \<Rightarrow> string option \<Rightarrow> 's
    \<Rightarrow> 'j content_entry option option" where
  "resolveWithFallback db defaultLocale entryId requestedLocale tenantId s =
     (case cer_findById db entryId tenantId s of
        None \<Rightarrow> Some None
      | Some entry \<Rightarrow>
          if en_locale entry = requestedLocale then Some (Some entry)
          else map_option (\<lambda>chain. case try_locales db (en_slug entry) tenantId s chain of
                   Some e \<Rightarrow> Some e | None \<Rightarrow> Some entry)
                 (buildFallbackChain db defaultLocale requestedLocale tenantId s))"

definition mergeFieldFallback ::
  "'j content_entry \<Rightarrow> 'j content_entry \<Rightarrow> string list \<Rightarrow> 'j content_data" where
  "mergeFieldFallback target fallback localizableFields =
     foldl (\<lambda>merged f.
       if cv_empty (cd_get merged f) \<and> cd_get (en_data fallback) f \<noteq> CUndefined
       then jm_set merged f (cd_get (en_data fallback) f) else merged)
     (en_data target) localizableFields"

definition getTranslationStatus ::
  "('j, 's) content_db \<Rightarrow> string \<Rightarrow> string option \<Rightarrow> 's \<Rightarrow> (string, bool) jsmap" where
  "getTranslationStatus db slug tenantId s =
     foldl (\<lambda>status l. jm_set status (lc_code l) (cer_findBySlug db slug (lc_code l) tenantId s \<noteq> None))
       [] (clr_findAll db tenantId s)"

section \<open>Delivery\<close>

definition delivery_getBySlug ::
  "('j, 's) content_db \<Rightarrow> string option \<Rightarrow> string \<Rightarrow> string option \<Rightarrow> string option \<Rightarrow> string option \<Rightarrow> 's
    \<Rightarrow> (string + 'j content_entry option) option" where
  "delivery_getBySlug db defaultLocale slug lang preview tenantId s =
     (let requestedLocale = or_else lang (or_else defaultLocale ''en'') in
      case cer_findBySlug db slug requestedLocale tenantId s of
        None \<Rightarrow> Some (Inl (''Entry with slug \"'' @ slug @ ''\" not found''))
      | Some entry \<Rightarrow>
          if preview = Some ''true'' \<or> en_status entry = PUBLISHED then Some (Inr (Some entry))
          else map_option (\<lambda>fallback. Inr (case fallback of
                   Some f \<Rightarrow> if en_status f = PUBLISHED then Some f else None | None \<Rightarrow> None))
                 (resolveWithFallback db defaultLocale (en_id entry) requestedLocale tenantId s))"

definition delivery_getById ::
  "('j, 's) content_db \<Rightarrow> string \<Rightarrow> string option \<Rightarrow> 's \<Rightarrow> string + 'j content_entry" where
  "delivery_getById db i tenantId s = (case cer_findById db i tenantId s of
     None \<Rightarrow> Inl (''Entry \"'' @ i @ ''\" not found'') | Some entry \<Rightarrow> Inr entry)"

section \<open>The chain that is built\<close>

text \<open>\<open>fallback_path next a ls\<close>: the locales \<open>ls\<close> follow \<open>a\<close>, each the fallback of the one before.\<close>

fun fallback_path :: "(string \<Rightarrow> string option) \<Rightarrow> string \<Rightarrow> string list \<Rightarrow> bool" where
  "fallback_path next a [] \<longleftrightarrow> True"
| "fallback_path next a (l # ls) \<longleftrightarrow> next a = Some l \<and> fallback_path next l ls"

lemma fallback_of_Some: "fallback_of lookup c = Some f \<Longrightarrow> lookup c \<noteq> None"
  by (auto simp: fallback_of_def split: option.splits)

lemma follow_fallbacks_returns:
  assumes "finite {c. lookup c \<noteq> None}"
  shows "\<exists>ls. follow_fallbacks lookup current visited chain = Some (chain @ ls)
    \<and> fallback_path (fallback_of lookup) current ls
    \<and> distinct (butlast (current # ls)) \<and> set (butlast (current # ls)) \<inter> set visited = {}
    \<and> (fallback_of lookup (last (current # ls)) = None \<or> last (current # ls) = []
       \<or> last (current # ls) \<in> set visited \<union> set (butlast (current # ls)))"
proof (induction "card ({c. lookup c \<noteq> None} - set visited)" arbitrary: current visited chain rule: less_induct)
  case less
  show ?case
  proof (cases "current = [] \<or> current \<in> set visited \<or> fallback_of lookup current = None")
    case True
    then have "follow_fallbacks lookup current visited chain = Some (chain @ [])"
      by (subst follow_fallbacks.simps) auto
    with True show ?thesis by (intro exI[of _ "[]"]) auto
  next
    case False
    then obtain f where f: "fallback_of lookup current = Some f" by blast
    have "card ({c. lookup c \<noteq> None} - set (current # visited)) < card ({c. lookup c \<noteq> None} - set visited)"
      using assms False fallback_of_Some[OF f] by (intro psubset_card_mono) auto
    from less(1)[OF this, of f "chain @ [f]"] obtain ls where
      ls: "follow_fallbacks lookup f (current # visited) (chain @ [f]) = Some ((chain @ [f]) @ ls)"
        "fallback_path (fallback_of lookup) f ls" "distinct (butlast (f # ls))"
        "set (butlast (f # ls)) \<inter> set (current # visited) = {}"
        "fallback_of lookup (last (f # ls)) = None \<or> last (f # ls) = []
          \<or> last (f # ls) \<in> set (current # visited) \<union> set (butlast (f # ls))"
      by blast
    have "follow_fallbacks lookup current visited chain = Some (chain @ f # ls)"
      using False f ls(1) by (subst follow_fallbacks.simps) simp
    moreover have "fallback_path (fallback_of lookup) current (f # ls)" using f ls(2) by simp
    moreover have "butlast (current # f # ls) = current # butlast (f # ls)" by simp
    then have "distinct (butlast (current # f # ls))" "set (butlast (current # f # ls)) \<inter> set visited = {}"
      using ls(3,4) False by auto
    moreover have "fallback_of lookup (last (current # f # ls)) = None \<or> last (current # f # ls) = []
        \<or> last (current # f # ls) \<in> set visited \<union> set (butlast (current # f # ls))"
      using ls(5) by auto
    ultimately show ?thesis by blast
  qed
qed

text \<open>The locales of a tenant are finitely many rows.\<close>

definition content_locales_ok :: "('j, 's) content_db \<Rightarrow> ('s \<Rightarrow> content_locale list) \<Rightarrow> bool" where
  "content_locales_ok db locales \<longleftrightarrow>
     (\<forall>P s l. db_findFirstLocale db P s = Some l \<longrightarrow> l \<in> set (locales s) \<and> P l)
   \<and> (\<forall>P s. db_findFirstLocale db P s = None \<longrightarrow> (\<forall>l\<in>set (locales s). \<not> P l))
   \<and> (\<forall>P s. set (db_findManyLocales db P s) = {l \<in> set (locales s). P l})"

lemma list_db_locales_ok: "content_locales_ok (list_db ls) (\<lambda>s. ls)"
  unfolding content_locales_ok_def
proof (intro conjI allI impI)
  fix P and s :: "'a entry_table" and l
  assume "db_findFirstLocale (list_db ls) P s = Some l"
  then have "find P ls = Some l" by (simp add: list_db_def)
  then show "l \<in> set ls" "P l" using find_SomeD[of P ls l] by simp_all
qed (auto simp: list_db_def find_None_iff)

lemma clr_findByCode_SomeD:
  assumes "content_locales_ok db locales" and "clr_findByCode db c tenantId s = Some l"
  shows "l \<in> set (locales s) \<and> lc_code l = c"
proof -
  have "\<forall>P s l. db_findFirstLocale db P s = Some l \<longrightarrow> l \<in> set (locales s) \<and> P l"
    using assms(1) unfolding content_locales_ok_def by (rule conjunct1)
  from this[rule_format, OF assms(2)[unfolded clr_findByCode_def]] show ?thesis by blast
qed

lemma finite_locale_codes:
  assumes "content_locales_ok db locales"
  shows "finite {c. clr_findByCode db c tenantId s \<noteq> None}"
proof (rule finite_subset)
  show "{c. clr_findByCode db c tenantId s \<noteq> None} \<subseteq> lc_code ` set (locales s)"
  proof
    fix c
    assume "c \<in> {c. clr_findByCode db c tenantId s \<noteq> None}"
    then obtain l where "clr_findByCode db c tenantId s = Some l" by auto
    from clr_findByCode_SomeD[OF assms this] show "c \<in> lc_code ` set (locales s)" by auto
  qed
qed simp

abbreviation next_locale where
  "next_locale db tenantId s \<equiv> fallback_of (\<lambda>c. clr_findByCode db c tenantId s)"

lemma buildFallbackChain_returns:
  assumes "content_locales_ok db locales"
  shows "\<exists>ls. buildFallbackChain db dl lang tenantId s =
      Some (if or_else dl ''en'' \<in> set ls then ls else ls @ [or_else dl ''en''])
    \<and> fallback_path (next_locale db tenantId s) lang ls \<and> distinct (butlast (lang # ls))
    \<and> (next_locale db tenantId s (last (lang # ls)) = None \<or> last (lang # ls) = []
       \<or> last (lang # ls) \<in> set (butlast (lang # ls)))"
proof -
  obtain ls where "follow_fallbacks (\<lambda>c. clr_findByCode db c tenantId s) lang [] [] = Some ([] @ ls)"
    and ls: "fallback_path (next_locale db tenantId s) lang ls" "distinct (butlast (lang # ls))"
      "next_locale db tenantId s (last (lang # ls)) = None \<or> last (lang # ls) = []
        \<or> last (lang # ls) \<in> set [] \<union> set (butlast (lang # ls))"
    using follow_fallbacks_returns[OF finite_locale_codes[OF assms], of tenantId s lang "[]" "[]"] by blast
  then have "buildFallbackChain db dl lang tenantId s =
      Some (if or_else dl ''en'' \<in> set ls then ls else ls @ [or_else dl ''en''])"
    by (simp add: buildFallbackChain_def Let_def)
  with ls show ?thesis by (intro exI[of _ ls]) simp
qed

section \<open>Resolution and merge\<close>

lemma try_locales_SomeD:
  assumes "content_db_ok db rows" and "try_locales db slug tenantId s ls = Some e"
  shows "e \<in> set (rows s) \<and> en_slug e = slug \<and> en_locale e \<in> set ls \<and> tenant_where tenantId (en_tenantId e)"
  using assms(2)
proof (induction ls)
  case (Cons l ls)
  show ?case
  proof (cases slug)
    case None
    with Cons show ?thesis by auto
  next
    case (Some sl)
    show ?thesis
    proof (cases "sl = [] \<or> cer_findBySlug db sl l tenantId s = None")
      case True
      then have "try_locales db slug tenantId s ls = Some e" using Cons.prems Some by (auto split: if_splits)
      from Cons.IH[OF this] show ?thesis by simp
    next
      case False
      then have "cer_findBySlug db sl l tenantId s = Some e" using Cons.prems Some by auto
      from cer_findBySlug_SomeD[OF assms(1) this] show ?thesis using Some by simp
    qed
  qed
qed simp

lemma try_locales_NoneD:
  assumes "content_db_ok db rows" and "try_locales db (Some sl) tenantId s ls = None" and "sl \<noteq> []"
    and "e \<in> set (rows s)" and "en_slug e = Some sl" and "tenant_where tenantId (en_tenantId e)"
  shows "en_locale e \<notin> set ls"
  using assms(2)
proof (induction ls)
  case (Cons l ls)
  then have none: "cer_findBySlug db sl l tenantId s = None" and rest: "en_locale e \<notin> set ls"
    using assms(3) by (auto split: option.splits)
  show ?case using cer_findBySlug_NoneD[OF assms(1) none assms(4-6)] rest by simp
qed simp

lemma cd_get_set: "cd_get (jm_set m f v) g = (if g = f then v else cd_get m g)"
  by (simp add: cd_get_def jm_get_set)

text \<open>Each localizable field that is empty in the target takes the fallback's value where it is defined.\<close>

lemma mergeFieldFallback_get:
  "cd_get (mergeFieldFallback target fallback fs) g =
     (if g \<in> set fs \<and> cv_empty (cd_get (en_data target) g) \<and> cd_get (en_data fallback) g \<noteq> CUndefined
      then cd_get (en_data fallback) g else cd_get (en_data target) g)"
proof -
  have "cd_get (foldl (\<lambda>merged f. if cv_empty (cd_get merged f) \<and> cd_get (en_data fallback) f \<noteq> CUndefined
       then jm_set merged f (cd_get (en_data fallback) f) else merged) m fs) g =
     (if g \<in> set fs \<and> cv_empty (cd_get m g) \<and> cd_get (en_data fallback) g \<noteq> CUndefined
      then cd_get (en_data fallback) g else cd_get m g)" for m
  proof (induction fs arbitrary: m)
    case (Cons f fs)
    show ?case
      unfolding foldl.simps(2) Cons.IH
      by (cases "g = f"; cases "cv_empty (cd_get m f)"; cases "cd_get (en_data fallback) f = CUndefined")
        (simp_all add: cd_get_set)
  qed simp
  then show ?thesis by (simp add: mergeFieldFallback_def)
qed

section \<open>Properties\<close>

text \<open>Locale fallback. Whatever the fallback settings, cycles included, building a chain returns: the
  chain follows the fallback settings from the locale, repeats nothing before its last element, stops
  only at a locale without fallback or already visited, and contains the default locale. Resolving an
  entry in a locale then also returns: nothing exactly for an unknown id, the entry itself in its own
  locale, and otherwise an entry with its slug in a locale of the chain, or the entry itself. The
  requested locale is not in the chain unless the settings lead back to it, so a translation into the
  very locale requested is then never the answer.\<close>

theorem locale_fallback_returns:
  assumes "content_db_ok db rows" and "content_locales_ok db locales"
  shows "\<exists>ls chain. buildFallbackChain db dl lang tenantId s = Some chain
    \<and> chain = (if or_else dl ''en'' \<in> set ls then ls else ls @ [or_else dl ''en''])
    \<and> fallback_path (next_locale db tenantId s) lang ls \<and> distinct (butlast (lang # ls))
    \<and> (next_locale db tenantId s (last (lang # ls)) = None \<or> last (lang # ls) = []
       \<or> last (lang # ls) \<in> set (butlast (lang # ls)))
    \<and> (\<exists>r. resolveWithFallback db dl i lang tenantId s = Some r
        \<and> (r = None \<longleftrightarrow> cer_findById db i tenantId s = None)
        \<and> (\<forall>e x. cer_findById db i tenantId s = Some e \<and> r = Some x \<longrightarrow>
             (en_locale e = lang \<longrightarrow> x = e)
           \<and> (en_locale e \<noteq> lang \<longrightarrow> x = e \<or> en_slug x = en_slug e \<and> en_locale x \<in> set chain)
           \<and> (en_locale e \<noteq> lang \<and> lang \<notin> set chain \<longrightarrow> en_locale x \<noteq> lang)))"
proof -
  obtain ls where ls: "buildFallbackChain db dl lang tenantId s =
      Some (if or_else dl ''en'' \<in> set ls then ls else ls @ [or_else dl ''en''])"
    "fallback_path (next_locale db tenantId s) lang ls" "distinct (butlast (lang # ls))"
    "next_locale db tenantId s (last (lang # ls)) = None \<or> last (lang # ls) = []
       \<or> last (lang # ls) \<in> set (butlast (lang # ls))"
    using buildFallbackChain_returns[OF assms(2)] by metis
  define chain where "chain = (if or_else dl ''en'' \<in> set ls then ls else ls @ [or_else dl ''en''])"
  have built: "buildFallbackChain db dl lang tenantId s = Some chain" using ls(1) by (simp add: chain_def)
  have resolved: "\<exists>r. resolveWithFallback db dl i lang tenantId s = Some r
        \<and> (r = None \<longleftrightarrow> cer_findById db i tenantId s = None)
        \<and> (\<forall>e x. cer_findById db i tenantId s = Some e \<and> r = Some x \<longrightarrow>
             (en_locale e = lang \<longrightarrow> x = e)
           \<and> (en_locale e \<noteq> lang \<longrightarrow> x = e \<or> en_slug x = en_slug e \<and> en_locale x \<in> set chain)
           \<and> (en_locale e \<noteq> lang \<and> lang \<notin> set chain \<longrightarrow> en_locale x \<noteq> lang))"
  proof (cases "cer_findById db i tenantId s")
    case None
    then show ?thesis by (simp add: resolveWithFallback_def)
  next
    case (Some e)
    show ?thesis
    proof (cases "try_locales db (en_slug e) tenantId s chain")
      case None
      with Some show ?thesis by (simp add: resolveWithFallback_def built)
    next
      case (Some x)
      from try_locales_SomeD[OF assms(1) this] Some \<open>cer_findById db i tenantId s = Some e\<close> show ?thesis
        by (auto simp: resolveWithFallback_def built)
    qed
  qed
  show ?thesis
    by (intro exI[of _ ls] exI[of _ chain] conjI built chain_def ls(2,3,4) resolved)
qed

text \<open>What delivery serves. By slug, in the requested or default locale: an unknown slug is an error;
  with \<open>preview=true\<close> the entry is served whatever its status; otherwise it is served when PUBLISHED and
  the answer is null when not, as the fallback lookup starts from an entry that already has the requested
  locale and always returns it. By id the entry is served whatever its status, without any preview.\<close>

theorem delivery_serves:
  assumes "content_db_ok db rows" and "content_locales_ok db locales"
  shows "delivery_getBySlug db dl slug lang preview tenantId s =
      (case cer_findBySlug db slug (or_else lang (or_else dl ''en'')) tenantId s of
         None \<Rightarrow> Some (Inl (''Entry with slug \"'' @ slug @ ''\" not found''))
       | Some e \<Rightarrow> Some (Inr (if preview = Some ''true'' \<or> en_status e = PUBLISHED then Some e else None)))
    \<and> (\<forall>e. delivery_getById db i tenantId s = Inr e \<longleftrightarrow>
         e \<in> set (rows s) \<and> en_id e = i \<and> tenant_where tenantId (en_tenantId e))"
proof
  show "delivery_getBySlug db dl slug lang preview tenantId s =
      (case cer_findBySlug db slug (or_else lang (or_else dl ''en'')) tenantId s of
         None \<Rightarrow> Some (Inl (''Entry with slug \"'' @ slug @ ''\" not found''))
       | Some e \<Rightarrow> Some (Inr (if preview = Some ''true'' \<or> en_status e = PUBLISHED then Some e else None)))"
  proof (cases "cer_findBySlug db slug (or_else lang (or_else dl ''en'')) tenantId s")
    case None
    then show ?thesis by (simp add: delivery_getBySlug_def Let_def)
  next
    case (Some e)
    note e = cer_findBySlug_SomeD[OF assms(1) Some]
    have "cer_findById db (en_id e) tenantId s = Some e"
      using cer_findById_iff[OF assms(1)] e(1,4) by blast
    then have "resolveWithFallback db dl (en_id e) (or_else lang (or_else dl ''en'')) tenantId s = Some (Some e)"
      using e(3) by (simp add: resolveWithFallback_def)
    with Some show ?thesis by (simp add: delivery_getBySlug_def Let_def)
  qed
  show "\<forall>e. delivery_getById db i tenantId s = Inr e \<longleftrightarrow>
      e \<in> set (rows s) \<and> en_id e = i \<and> tenant_where tenantId (en_tenantId e)"
  proof
    fix e
    show "delivery_getById db i tenantId s = Inr e \<longleftrightarrow>
        e \<in> set (rows s) \<and> en_id e = i \<and> tenant_where tenantId (en_tenantId e)"
      unfolding cer_findById_iff[OF assms(1), symmetric] delivery_getById_def
      by (cases "cer_findById db i tenantId s") simp_all
  qed
qed

subsection \<open>Witnesses\<close>

text \<open>German falls back to French and French to German; a post exists in German, as a draft, and in French.\<close>

definition wit_locales :: "content_locale list" where
  "wit_locales = [\<lparr>lc_code = ''de'', lc_name = ''German'', lc_isDefault = False, lc_fallbackLocale = Some ''fr'', lc_tenantId = None\<rparr>,
     \<lparr>lc_code = ''fr'', lc_name = ''French'', lc_isDefault = True, lc_fallbackLocale = Some ''de'', lc_tenantId = None\<rparr>]"

definition wit_post :: "string \<Rightarrow> string \<Rightarrow> entry_status \<Rightarrow> unit content_entry" where
  "wit_post i lang status = \<lparr>en_id = i, en_contentTypeId = ''t'', en_data = [], en_locale = lang, en_status = status,
     en_version = 1, en_slug = Some ''hello'', en_publishedAt = None, en_scheduledAt = None,
     en_scheduledUnpublishAt = None, en_tenantId = None, en_createdBy = None\<rparr>"

theorem locale_fallback_returns_witness:
  "\<exists>chain. buildFallbackChain (list_db wit_locales) None ''de'' None
     (table_of [wit_post ''1'' ''de'' DRAFT, wit_post ''2'' ''fr'' PUBLISHED]) = Some chain \<and> ''en'' \<in> set chain"
  using locale_fallback_returns[OF list_db_ok[of wit_locales] list_db_locales_ok[of wit_locales],
      of None "''de''" None "table_of [wit_post ''1'' ''de'' DRAFT, wit_post ''2'' ''fr'' PUBLISHED]" "''1''"]
  by (elim exE conjE) auto

theorem delivery_serves_witness:
  "delivery_getBySlug (list_db wit_locales) None ''hello'' (Some ''de'') None None
     (table_of [wit_post ''1'' ''de'' DRAFT, wit_post ''2'' ''fr'' PUBLISHED]) = Some (Inr None)"
  unfolding delivery_serves[OF list_db_ok[of wit_locales] list_db_locales_ok[of wit_locales], THEN conjunct1]
  by (simp add: cer_findBySlug_def list_db_def wit_post_def tenant_where_def)

end
