(* ===== verification/Cache_Guard.thy ===== *)
theory Cache_Guard
  imports Complex_Main Cache_Multi
begin

text \<open>
  \<open>cache/cache-stampede.ts\<close>, \<open>cache-warming.ts\<close> and \<open>cache-stats.ts\<close>: the guard that lets one of several
  concurrent misses run the factory, the warmer that fills keys in advance, and the counters of hits and
  misses. The guard is a step relation: its calls are interleaved at every \<open>await\<close>, in several processes
  that have a first layer each and share the second one.
\<close>

section \<open>CacheStampedeGuard\<close>

text \<open>
  Where a call of \<open>getOrSet\<close> stands: \<open>GRead\<close>, the cache has answered; \<open>GLock\<close> to \<open>GUnlock\<close>, inside
  \<open>runFactory\<close> before the lock is set, while the factory runs, before its value is stored, before the
  lock is deleted; \<open>GSettled\<close>, the shared promise has settled and \<open>finally\<close> has not run; \<open>GJoin\<close>, it awaits
  the promise of another call; \<open>GDone\<close>, it has returned or thrown, on its own or on the promise it joined.
\<close>

datatype ('e, 'v) guard_phase = GRead "'v option" | GLock | GRun | GStore 'v | GUnlock "'e + 'v" | GSettled "'e + 'v"
  | GJoin nat | GDone "'e + 'v" "nat option"

record ('e, 'v) guard_call =
  gc_instance :: nat
  gc_key :: string
  gc_opts :: "cache_set_options option"
  gc_phase :: "('e, 'v) guard_phase"

record ('a, 'b, 'e, 'v) guard_sys =
  gs_l1 :: "nat \<Rightarrow> 'a"
  gs_l2 :: 'b
  gs_inflight :: "nat \<Rightarrow> (string, nat) jsmap"
  gs_calls :: "nat \<Rightarrow> ('e, 'v) guard_call option"
  gs_runs :: "(nat \<times> string) list"

definition LOCK_TTL_SECONDS :: int where "LOCK_TTL_SECONDS = 30"

definition lock_key :: "string \<Rightarrow> string" where
  "lock_key key = key @ '':lock''"

definition gs_layers :: "('a, 'b, 'e, 'v) guard_sys \<Rightarrow> nat \<Rightarrow> ('a, 'b) layers" where
  "gs_layers s p = (gs_l1 s p, gs_l2 s)"

definition gs_put :: "('a, 'b, 'e, 'v) guard_sys \<Rightarrow> nat \<Rightarrow> ('a, 'b) layers \<Rightarrow> ('a, 'b, 'e, 'v) guard_sys" where
  "gs_put s p l = s\<lparr>gs_l1 := (gs_l1 s)(p := fst l), gs_l2 := snd l\<rparr>"

definition gs_goto :: "('a, 'b, 'e, 'v) guard_sys \<Rightarrow> nat \<Rightarrow> ('e, 'v) guard_call \<Rightarrow> ('e, 'v) guard_phase \<Rightarrow> ('a, 'b, 'e, 'v) guard_sys" where
  "gs_goto s i c ph = s\<lparr>gs_calls := (gs_calls s)(i := Some (c\<lparr>gc_phase := ph\<rparr>))\<rparr>"

definition set_inflight :: "('a, 'b, 'e, 'v) guard_sys \<Rightarrow> nat \<Rightarrow> (string, nat) jsmap \<Rightarrow> ('a, 'b, 'e, 'v) guard_sys" where
  "set_inflight s p m = s\<lparr>gs_inflight := (gs_inflight s)(p := m)\<rparr>"

text \<open>\<open>now\<close> is the clock at the step, \<open>one\<close> the value the lock is set to.\<close>

inductive guard_step :: "('a, 'b, 'v) multi_cache \<Rightarrow> 'v \<Rightarrow> ('a, 'b, 'e, 'v) guard_sys \<Rightarrow> ('a, 'b, 'e, 'v) guard_sys \<Rightarrow> bool"
  for mu :: "('a, 'b, 'v) multi_cache" and one :: 'v where
  guard_call_begins: "gs_calls s i = None \<Longrightarrow> mu_get mu (gs_layers s p) now key = (cached, l) \<Longrightarrow>
     guard_step mu one s (gs_goto (gs_put s p l) i
       \<lparr>gc_instance = p, gc_key = key, gc_opts = opts, gc_phase = GRead cached\<rparr> (GRead cached))"
| guard_hit: "gs_calls s i = Some c \<Longrightarrow> gc_phase c = GRead (Some v) \<Longrightarrow>
     guard_step mu one s (gs_goto s i c (GDone (Inr v) None))"
| guard_join: "gs_calls s i = Some c \<Longrightarrow> gc_phase c = GRead None \<Longrightarrow>
     jm_get (gs_inflight s (gc_instance c)) (gc_key c) = Some j \<Longrightarrow> guard_step mu one s (gs_goto s i c (GJoin j))"
| guard_lead: "gs_calls s i = Some c \<Longrightarrow> gc_phase c = GRead None \<Longrightarrow>
     jm_get (gs_inflight s (gc_instance c)) (gc_key c) = None \<Longrightarrow>
     guard_step mu one s (set_inflight (gs_goto s i c GLock) (gc_instance c) (jm_set (gs_inflight s (gc_instance c)) (gc_key c) i))"
| guard_lock: "gs_calls s i = Some c \<Longrightarrow> gc_phase c = GLock \<Longrightarrow>
     guard_step mu one s ((gs_goto (gs_put s (gc_instance c) (mu_set mu (gs_layers s (gc_instance c)) now (lock_key (gc_key c)) one
       (Some \<lparr>cs_ttl = Some LOCK_TTL_SECONDS, cs_l2Ttl = None\<rparr>))) i c GRun)\<lparr>gs_runs := gs_runs s @ [(gc_instance c, gc_key c)]\<rparr>)"
| guard_made: "gs_calls s i = Some c \<Longrightarrow> gc_phase c = GRun \<Longrightarrow> guard_step mu one s (gs_goto s i c (GStore v))"
| guard_threw: "gs_calls s i = Some c \<Longrightarrow> gc_phase c = GRun \<Longrightarrow> guard_step mu one s (gs_goto s i c (GUnlock (Inl e)))"
| guard_store: "gs_calls s i = Some c \<Longrightarrow> gc_phase c = GStore v \<Longrightarrow>
     guard_step mu one s (gs_goto (gs_put s (gc_instance c)
       (mu_set mu (gs_layers s (gc_instance c)) now (gc_key c) v (gc_opts c))) i c (GUnlock (Inr v)))"
| guard_unlock: "gs_calls s i = Some c \<Longrightarrow> gc_phase c = GUnlock r \<Longrightarrow>
     guard_step mu one s (gs_goto (gs_put s (gc_instance c)
       (mu_del mu (gs_layers s (gc_instance c)) (lock_key (gc_key c)))) i c (GSettled r))"
| guard_leave: "gs_calls s i = Some c \<Longrightarrow> gc_phase c = GSettled r \<Longrightarrow>
     guard_step mu one s (set_inflight (gs_goto s i c (GDone r None)) (gc_instance c)
       (jm_del (gs_inflight s (gc_instance c)) (gc_key c)))"
| guard_follow: "gs_calls s i = Some c \<Longrightarrow> gc_phase c = GJoin j \<Longrightarrow> gs_calls s j = Some d \<Longrightarrow>
     gc_phase d = GSettled r \<or> gc_phase d = GDone r None \<Longrightarrow> guard_step mu one s (gs_goto s i c (GDone r (Some j)))"

inductive_cases guard_stepE: "guard_step mu one s t"

definition guard_init :: "(nat \<Rightarrow> 'a) \<Rightarrow> 'b \<Rightarrow> ('a, 'b, 'e, 'v) guard_sys" where
  "guard_init l1 l2 = \<lparr>gs_l1 = l1, gs_l2 = l2, gs_inflight = (\<lambda>_. []), gs_calls = (\<lambda>_. None), gs_runs = []\<rparr>"

section \<open>One factory per key and process\<close>

definition leading :: "('e, 'v) guard_phase \<Rightarrow> bool" where
  "leading ph \<longleftrightarrow> (case ph of GLock \<Rightarrow> True | GRun \<Rightarrow> True | GStore _ \<Rightarrow> True | GUnlock _ \<Rightarrow> True | GSettled _ \<Rightarrow> True | _ \<Rightarrow> False)"

definition joined :: "('e, 'v) guard_phase \<Rightarrow> nat \<Rightarrow> bool" where
  "joined ph j \<longleftrightarrow> (case ph of GJoin k \<Rightarrow> k = j | GDone _ (Some k) \<Rightarrow> k = j | _ \<Rightarrow> False)"

definition owns :: "('e, 'v) guard_phase \<Rightarrow> bool" where
  "owns ph \<longleftrightarrow> leading ph \<or> (\<exists>r. ph = GDone r None)"

lemma leading_simps [simp]:
  "leading GLock" "leading GRun" "leading (GStore v)" "leading (GUnlock r)" "leading (GSettled r)"
  "\<not> leading (GRead cached)" "\<not> leading (GJoin j)" "\<not> leading (GDone r k)"
  by (simp_all add: leading_def)

lemma joined_simps [simp]:
  "joined (GJoin k) j \<longleftrightarrow> k = j" "joined (GDone r (Some k)) j \<longleftrightarrow> k = j" "\<not> joined (GDone r None) j"
  "\<not> joined (GRead cached) j" "\<not> joined GLock j" "\<not> joined GRun j" "\<not> joined (GStore v) j"
  "\<not> joined (GUnlock r) j" "\<not> joined (GSettled r) j"
  by (simp_all add: joined_def)

definition guard_inv :: "('a, 'b, 'e, 'v) guard_sys \<Rightarrow> bool" where
  "guard_inv s \<longleftrightarrow>
     (\<forall>p k i. jm_get (gs_inflight s p) k = Some i \<longrightarrow>
        (\<exists>c. gs_calls s i = Some c \<and> gc_instance c = p \<and> gc_key c = k \<and> leading (gc_phase c))) \<and>
     (\<forall>i c. gs_calls s i = Some c \<longrightarrow> leading (gc_phase c) \<longrightarrow> jm_get (gs_inflight s (gc_instance c)) (gc_key c) = Some i) \<and>
     (\<forall>i c j. gs_calls s i = Some c \<longrightarrow> joined (gc_phase c) j \<longrightarrow>
        (\<exists>d. gs_calls s j = Some d \<and> gc_instance d = gc_instance c \<and> gc_key d = gc_key c \<and> owns (gc_phase d))) \<and>
     (\<forall>i c j r. gs_calls s i = Some c \<longrightarrow> gc_phase c = GDone r (Some j) \<longrightarrow>
        (\<exists>d. gs_calls s j = Some d \<and> (gc_phase d = GSettled r \<or> gc_phase d = GDone r None)))"

text \<open>What every step does to the calls and the in-flight map: one call moves, and it owns its key's entry
  exactly while it leads.\<close>

lemma guard_inv_goto:
  assumes inv: "guard_inv s" and c: "gs_calls s i = None \<or> gs_calls s i = Some c"
    and calls: "gs_calls t = (gs_calls s)(i := Some (c\<lparr>gc_phase := ph\<rparr>))"
    and old: "gs_calls s i = None \<longrightarrow> \<not> leading ph"
    and infl: "\<And>p k. jm_get (gs_inflight t p) k = (if p = gc_instance c \<and> k = gc_key c \<and> gs_calls s i \<noteq> None \<and> leading ph \<noteq> leading (gc_phase c)
        then if leading ph then Some i else None else jm_get (gs_inflight s p) k)"
    and free: "gs_calls s i \<noteq> None \<Longrightarrow> leading ph \<Longrightarrow> \<not> leading (gc_phase c) \<Longrightarrow> jm_get (gs_inflight s (gc_instance c)) (gc_key c) = None"
    and joins: "\<And>j. joined ph j \<Longrightarrow> j \<noteq> i \<and> (\<exists>d. gs_calls s j = Some d \<and> gc_instance d = gc_instance c \<and> gc_key d = gc_key c \<and> owns (gc_phase d))"
    and results: "\<And>r j. ph = GDone r (Some j) \<Longrightarrow> \<exists>d. gs_calls s j = Some d \<and> (gc_phase d = GSettled r \<or> gc_phase d = GDone r None)"
    and keeps: "gs_calls s i \<noteq> None \<Longrightarrow> owns (gc_phase c) \<Longrightarrow> owns ph"
    and outcome: "\<And>r. gs_calls s i \<noteq> None \<Longrightarrow> gc_phase c = GSettled r \<or> gc_phase c = GDone r None \<Longrightarrow> ph = GDone r None"
  shows "guard_inv t"
proof -
  have I1: "\<And>p k j. jm_get (gs_inflight s p) k = Some j \<Longrightarrow>
      \<exists>d. gs_calls s j = Some d \<and> gc_instance d = p \<and> gc_key d = k \<and> leading (gc_phase d)"
    and I2: "\<And>j d. gs_calls s j = Some d \<Longrightarrow> leading (gc_phase d) \<Longrightarrow> jm_get (gs_inflight s (gc_instance d)) (gc_key d) = Some j"
    and I3: "\<And>j d k. gs_calls s j = Some d \<Longrightarrow> joined (gc_phase d) k \<Longrightarrow>
        \<exists>d'. gs_calls s k = Some d' \<and> gc_instance d' = gc_instance d \<and> gc_key d' = gc_key d \<and> owns (gc_phase d')"
    and I4: "\<And>j d k r. gs_calls s j = Some d \<Longrightarrow> gc_phase d = GDone r (Some k) \<Longrightarrow>
        \<exists>d'. gs_calls s k = Some d' \<and> (gc_phase d' = GSettled r \<or> gc_phase d' = GDone r None)"
    using inv unfolding guard_inv_def by (blast, blast, blast, blast)
  show ?thesis
    unfolding guard_inv_def
  proof (intro conjI allI impI)
    fix p k j
    assume j: "jm_get (gs_inflight t p) k = Some j"
    show "\<exists>d. gs_calls t j = Some d \<and> gc_instance d = p \<and> gc_key d = k \<and> leading (gc_phase d)"
    proof (cases "p = gc_instance c \<and> k = gc_key c \<and> gs_calls s i \<noteq> None \<and> leading ph \<noteq> leading (gc_phase c)")
      case True
      then have "leading ph" "j = i" using j by (simp_all add: infl split: if_splits)
      then show ?thesis using True by (simp add: calls)
    next
      case False
      then have "jm_get (gs_inflight t p) k = jm_get (gs_inflight s p) k" unfolding infl by (rule if_not_P)
      then have "jm_get (gs_inflight s p) k = Some j" using j by simp
      then obtain d where d: "gs_calls s j = Some d" "gc_instance d = p" "gc_key d = k" "leading (gc_phase d)" using I1 by blast
      show ?thesis
      proof (cases "j = i")
        case True
        then have "d = c" using c d(1) by auto
        then show ?thesis using False d c True by (auto simp: calls)
      qed (use d in \<open>simp add: calls\<close>)
    qed
  next
    fix j d
    assume d: "gs_calls t j = Some d" and l: "leading (gc_phase d)"
    show "jm_get (gs_inflight t (gc_instance d)) (gc_key d) = Some j"
    proof (cases "j = i")
      case True
      then have d': "d = c\<lparr>gc_phase := ph\<rparr>" using d by (simp add: calls)
      then have "leading ph" using l by simp
      then have n: "gs_calls s i \<noteq> None" using old by blast
      with c have "gs_calls s i = Some c" by metis
      then show ?thesis using d' True n \<open>leading ph\<close> I2[of i c] by (simp add: infl)
    next
      case False
      then have ds: "gs_calls s j = Some d" using d by (simp add: calls)
      then have e: "jm_get (gs_inflight s (gc_instance d)) (gc_key d) = Some j" using I2 l by blast
      have "\<not> (gc_instance d = gc_instance c \<and> gc_key d = gc_key c \<and> gs_calls s i \<noteq> None \<and> leading ph \<noteq> leading (gc_phase c))"
      proof
        assume a: "gc_instance d = gc_instance c \<and> gc_key d = gc_key c \<and> gs_calls s i \<noteq> None \<and> leading ph \<noteq> leading (gc_phase c)"
        with c have ci: "gs_calls s i = Some c" by metis
        show False
        proof (cases "leading ph")
          case True
          then show False using free a e by simp
        next
          case False
          then have "leading (gc_phase c)" using a by simp
          then show False using I2[OF ci] e a \<open>j \<noteq> i\<close> by simp
        qed
      qed
      then have "jm_get (gs_inflight t (gc_instance d)) (gc_key d) = jm_get (gs_inflight s (gc_instance d)) (gc_key d)"
        unfolding infl by (rule if_not_P)
      then show ?thesis using e by simp
    qed
  next
    fix j d k
    assume d: "gs_calls t j = Some d" and jo: "joined (gc_phase d) k"
    have *: "gs_calls s k = Some d' \<Longrightarrow> owns (gc_phase d') \<Longrightarrow> \<exists>d''. gs_calls t k = Some d'' \<and> gc_instance d'' = gc_instance d' \<and>
        gc_key d'' = gc_key d' \<and> owns (gc_phase d'')" for d'
      using keeps c by (cases "k = i") (auto simp: calls)
    show "\<exists>d'. gs_calls t k = Some d' \<and> gc_instance d' = gc_instance d \<and> gc_key d' = gc_key d \<and> owns (gc_phase d')"
    proof (cases "j = i")
      case True
      then have "d = c\<lparr>gc_phase := ph\<rparr>" using d by (simp add: calls)
      then show ?thesis using joins[of k] jo * by fastforce
    next
      case False
      then have "gs_calls s j = Some d" using d by (simp add: calls)
      then show ?thesis using I3[OF _ jo] * by fastforce
    qed
  next
    fix j d k r
    assume d: "gs_calls t j = Some d" and ph: "gc_phase d = GDone r (Some k)"
    have *: "gs_calls s k = Some d' \<Longrightarrow> gc_phase d' = GSettled r \<or> gc_phase d' = GDone r None \<Longrightarrow>
        \<exists>d''. gs_calls t k = Some d'' \<and> (gc_phase d'' = GSettled r \<or> gc_phase d'' = GDone r None)" for d'
      using outcome c by (cases "k = i") (auto simp: calls)
    show "\<exists>d'. gs_calls t k = Some d' \<and> (gc_phase d' = GSettled r \<or> gc_phase d' = GDone r None)"
    proof (cases "j = i")
      case True
      then have "ph = GDone r (Some k)" using d ph by (auto simp: calls)
      then show ?thesis using results * by blast
    next
      case False
      then have "gs_calls s j = Some d" using d by (simp add: calls)
      then show ?thesis using I4[OF _ ph] * by blast
    qed
  qed
qed

lemma gs_goto_simps [simp]:
  "gs_calls (gs_goto s i c ph) = (gs_calls s)(i := Some (c\<lparr>gc_phase := ph\<rparr>))"
  "gs_inflight (gs_goto s i c ph) = gs_inflight s"
  "gs_calls (gs_put s p l) = gs_calls s" "gs_inflight (gs_put s p l) = gs_inflight s"
  "gs_calls (set_inflight s p m) = gs_calls s" "gs_inflight (set_inflight s p m) = (gs_inflight s)(p := m)"
  "gs_runs (gs_goto s i c ph) = gs_runs s" "gs_runs (gs_put s p l) = gs_runs s" "gs_runs (set_inflight s p m) = gs_runs s"
  by (simp_all add: gs_goto_def gs_put_def set_inflight_def)

lemma owns_simps [simp]: "\<not> owns (GRead cached)" "owns GLock" "owns GRun" "owns (GStore v)" "owns (GUnlock r)" "owns (GSettled r)"
  "\<not> owns (GJoin j)" "owns (GDone r k) \<longleftrightarrow> k = None"
  by (simp_all add: owns_def)

lemma guard_inv_joinable:
  assumes "guard_inv s"
  shows "jm_get (gs_inflight s p) k = Some j \<Longrightarrow>
      \<exists>d. gs_calls s j = Some d \<and> gc_instance d = p \<and> gc_key d = k \<and> leading (gc_phase d)"
    and "gs_calls s i = Some c \<Longrightarrow> gc_phase c = GJoin j \<Longrightarrow>
      \<exists>d. gs_calls s j = Some d \<and> gc_instance d = gc_instance c \<and> gc_key d = gc_key c \<and> owns (gc_phase d)"
  using assms unfolding guard_inv_def by (blast, metis joined_simps(1))

lemma guard_inv_step:
  assumes "guard_step mu one s t" and inv: "guard_inv s"
  shows "guard_inv t"
  using assms(1)
proof cases
  case (guard_call_begins i p now key cached l opts)
  show ?thesis
    by (rule guard_inv_goto[OF inv, where i = i and ph = "GRead cached" and
        c = "\<lparr>gc_instance = p, gc_key = key, gc_opts = opts, gc_phase = GRead cached\<rparr>"]) (simp_all add: guard_call_begins)
next
  case (guard_hit i c v)
  show ?thesis
    by (rule guard_inv_goto[OF inv, where i = i and ph = "GDone (Inr v) None" and c = c]) (simp_all add: guard_hit)
next
  case (guard_join i c j)
  obtain d where d: "gs_calls s j = Some d" "gc_instance d = gc_instance c" "gc_key d = gc_key c" "leading (gc_phase d)"
    using guard_inv_joinable(1)[OF inv guard_join(4)] by blast
  have "j \<noteq> i" using d(1,4) guard_join by auto
  then show ?thesis
    using d by (intro guard_inv_goto[OF inv, where i = i and ph = "GJoin j" and c = c]) (simp_all add: guard_join owns_def)
next
  case (guard_lead i c)
  show ?thesis
    by (rule guard_inv_goto[OF inv, where i = i and ph = GLock and c = c]) (simp_all add: guard_lead jm_get_set)
next
  case (guard_lock i c now)
  show ?thesis
    by (rule guard_inv_goto[OF inv, where i = i and ph = GRun and c = c]) (simp_all add: guard_lock)
next
  case (guard_made i c v)
  show ?thesis
    by (rule guard_inv_goto[OF inv, where i = i and ph = "GStore v" and c = c]) (simp_all add: guard_made)
next
  case (guard_threw i c e)
  show ?thesis
    by (rule guard_inv_goto[OF inv, where i = i and ph = "GUnlock (Inl e)" and c = c]) (simp_all add: guard_threw)
next
  case (guard_store i c v now)
  show ?thesis
    by (rule guard_inv_goto[OF inv, where i = i and ph = "GUnlock (Inr v)" and c = c]) (simp_all add: guard_store)
next
  case (guard_unlock i c r)
  show ?thesis
    by (rule guard_inv_goto[OF inv, where i = i and ph = "GSettled r" and c = c]) (simp_all add: guard_unlock)
next
  case (guard_leave i c r)
  show ?thesis
    by (rule guard_inv_goto[OF inv, where i = i and ph = "GDone r None" and c = c]) (simp_all add: guard_leave jm_get_del)
next
  case (guard_follow i c j d r)
  obtain d' where "gs_calls s j = Some d'" "gc_instance d' = gc_instance c" "gc_key d' = gc_key c" "owns (gc_phase d')"
    using guard_inv_joinable(2)[OF inv guard_follow(2,3)] by blast
  moreover have "j \<noteq> i" using guard_follow by auto
  ultimately show ?thesis
    using guard_follow(4,5)
    by (intro guard_inv_goto[OF inv, where i = i and ph = "GDone r (Some j)" and c = c]) (simp_all add: guard_follow(1-3))
qed

lemma guard_inv_init: "guard_inv (guard_init l1 l2)"
  by (simp add: guard_inv_def guard_init_def)

lemma guard_inv_reach: "(guard_step mu one)\<^sup>*\<^sup>* (guard_init l1 l2) s \<Longrightarrow> guard_inv s"
  by (induction rule: rtranclp_induct) (simp_all add: guard_inv_init guard_inv_step)

text \<open>What a call can do by itself: begin, become the leader and run its factory, and finish.\<close>

lemma can_run:
  assumes "gs_calls s i = Some c" and "gc_phase c = GRead None" and "jm_get (gs_inflight s (gc_instance c)) (gc_key c) = None"
  shows "\<exists>t. (guard_step mu one)\<^sup>*\<^sup>* s t \<and> gs_calls t = (gs_calls s)(i := Some (c\<lparr>gc_phase := GRun\<rparr>)) \<and>
    gs_inflight t = (gs_inflight s)(gc_instance c := jm_set (gs_inflight s (gc_instance c)) (gc_key c) i) \<and>
    gs_runs t = gs_runs s @ [(gc_instance c, gc_key c)]"
proof -
  let ?s = "set_inflight (gs_goto s i c GLock) (gc_instance c) (jm_set (gs_inflight s (gc_instance c)) (gc_key c) i)"
  have 1: "guard_step mu one s ?s" using assms by (rule guard_lead)
  have "gs_calls ?s i = Some (c\<lparr>gc_phase := GLock\<rparr>)" by simp
  from guard_lock[OF this, of mu one 0] have 2: "(guard_step mu one)\<^sup>*\<^sup>* s ((gs_goto (gs_put ?s (gc_instance c)
      (mu_set mu (gs_layers ?s (gc_instance c)) 0 (lock_key (gc_key c)) one (Some \<lparr>cs_ttl = Some LOCK_TTL_SECONDS, cs_l2Ttl = None\<rparr>)))
      i (c\<lparr>gc_phase := GLock\<rparr>) GRun)\<lparr>gs_runs := gs_runs ?s @ [(gc_instance c, gc_key c)]\<rparr>)"
    using 1 by (simp add: converse_rtranclp_into_rtranclp)
  show ?thesis by (rule exI, rule conjI[OF 2]) simp
qed

lemma can_finish:
  assumes "gs_calls s i = Some c" and "gc_phase c = GRun"
  shows "\<exists>t. (guard_step mu one)\<^sup>*\<^sup>* s t \<and> gs_calls t = (gs_calls s)(i := Some (c\<lparr>gc_phase := GDone (Inr v) None\<rparr>)) \<and>
    gs_inflight t = (gs_inflight s)(gc_instance c := jm_del (gs_inflight s (gc_instance c)) (gc_key c)) \<and> gs_runs t = gs_runs s"
proof -
  have 1: "guard_step mu one s (gs_goto s i c (GStore v))" (is "guard_step _ _ _ ?s1") using assms by (rule guard_made)
  let ?c1 = "c\<lparr>gc_phase := GStore v\<rparr>"
  let ?s2 = "gs_goto (gs_put ?s1 (gc_instance ?c1) (mu_set mu (gs_layers ?s1 (gc_instance ?c1)) 0 (gc_key ?c1) v (gc_opts ?c1)))
    i ?c1 (GUnlock (Inr v))"
  have 2: "guard_step mu one ?s1 ?s2" by (rule guard_store) simp_all
  let ?c2 = "?c1\<lparr>gc_phase := GUnlock (Inr v)\<rparr>"
  let ?s3 = "gs_goto (gs_put ?s2 (gc_instance ?c2) (mu_del mu (gs_layers ?s2 (gc_instance ?c2)) (lock_key (gc_key ?c2)))) i ?c2 (GSettled (Inr v))"
  have 3: "guard_step mu one ?s2 ?s3" by (rule guard_unlock) simp_all
  let ?c3 = "?c2\<lparr>gc_phase := GSettled (Inr v)\<rparr>"
  let ?s4 = "set_inflight (gs_goto ?s3 i ?c3 (GDone (Inr v) None)) (gc_instance ?c3) (jm_del (gs_inflight ?s3 (gc_instance ?c3)) (gc_key ?c3))"
  have 4: "guard_step mu one ?s3 ?s4" by (rule guard_leave) simp_all
  have "(guard_step mu one)\<^sup>*\<^sup>* s ?s4"
    by (rule converse_rtranclp_into_rtranclp[OF 1 converse_rtranclp_into_rtranclp[OF 2
          converse_rtranclp_into_rtranclp[OF 3 r_into_rtranclp[of "guard_step mu one", OF 4]]]])
  then show ?thesis by (rule_tac exI, rule_tac conjI) (assumption, simp)
qed

text \<open>The limits of the guard. Two calls of one process that both read a miss run the factory twice when
  the first one finishes before the second one looks for a promise to join; two calls of different
  processes run it at the same time, since the lock is set but never read.\<close>

lemma stale_miss_runs_again:
  assumes "gs_calls s i = Some c" "gs_calls s j = Some d" "i \<noteq> j" and "gc_phase c = GRead None" "gc_phase d = GRead None"
    and same: "gc_instance d = gc_instance c" "gc_key d = gc_key c" and "jm_get (gs_inflight s (gc_instance c)) (gc_key c) = None"
  shows "\<exists>t. (guard_step mu one)\<^sup>*\<^sup>* s t \<and> gs_runs t = gs_runs s @ [(gc_instance c, gc_key c), (gc_instance c, gc_key c)]"
proof -
  obtain s1 where s1: "(guard_step mu one)\<^sup>*\<^sup>* s s1" "gs_calls s1 = (gs_calls s)(i := Some (c\<lparr>gc_phase := GRun\<rparr>))"
      "gs_runs s1 = gs_runs s @ [(gc_instance c, gc_key c)]"
    using can_run[OF assms(1,4,8)] by blast
  have "gs_calls s1 i = Some (c\<lparr>gc_phase := GRun\<rparr>)" by (simp add: s1(2))
  from can_finish[OF this, where ?v = one] obtain s2 where s2: "(guard_step mu one)\<^sup>*\<^sup>* s1 s2"
      "gs_calls s2 = (gs_calls s1)(i := Some (c\<lparr>gc_phase := GDone (Inr one) None\<rparr>))"
      "gs_inflight s2 = (gs_inflight s1)(gc_instance c := jm_del (gs_inflight s1 (gc_instance c)) (gc_key c))" "gs_runs s2 = gs_runs s1"
    by auto
  have "gs_calls s2 j = Some d" using assms(2,3) by (simp add: s2(2) s1(2))
  moreover have "jm_get (gs_inflight s2 (gc_instance d)) (gc_key d) = None" by (simp add: s2(3) same jm_get_del)
  ultimately obtain t where "(guard_step mu one)\<^sup>*\<^sup>* s2 t" "gs_runs t = gs_runs s2 @ [(gc_instance d, gc_key d)]"
    using can_run[OF _ assms(5)] by blast
  then show ?thesis using s1(1,3) s2(1,4) same by (metis append.assoc append_Cons append_Nil rtranclp_trans)
qed

lemma lock_is_never_read:
  assumes "gs_calls s i = Some c" "gs_calls s j = Some d" "gc_phase c = GRead None" "gc_phase d = GRead None"
    and "gc_instance c \<noteq> gc_instance d"
    and "jm_get (gs_inflight s (gc_instance c)) (gc_key c) = None" "jm_get (gs_inflight s (gc_instance d)) (gc_key d) = None"
  shows "\<exists>t. (guard_step mu one)\<^sup>*\<^sup>* s t \<and> gs_calls t i = Some (c\<lparr>gc_phase := GRun\<rparr>) \<and> gs_calls t j = Some (d\<lparr>gc_phase := GRun\<rparr>)"
proof -
  have ij: "i \<noteq> j" using assms(1,2,5) by auto
  obtain s1 where s1: "(guard_step mu one)\<^sup>*\<^sup>* s s1" "gs_calls s1 = (gs_calls s)(i := Some (c\<lparr>gc_phase := GRun\<rparr>))"
      "gs_inflight s1 = (gs_inflight s)(gc_instance c := jm_set (gs_inflight s (gc_instance c)) (gc_key c) i)"
    using can_run[OF assms(1,3,6)] by blast
  have "gs_calls s1 j = Some d" using assms(2) ij by (simp add: s1(2))
  moreover have "jm_get (gs_inflight s1 (gc_instance d)) (gc_key d) = None" using assms(5,7) by (simp add: s1(3))
  ultimately obtain t where "(guard_step mu one)\<^sup>*\<^sup>* s1 t" "gs_calls t = (gs_calls s1)(j := Some (d\<lparr>gc_phase := GRun\<rparr>))"
    using can_run[OF _ assms(4)] by blast
  then show ?thesis using s1(1,2) ij by (intro exI[of _ t]) (auto intro: rtranclp_trans)
qed

text \<open>C30. In every reachable state, at most one call per process and key is between the miss and the
  settling of its promise, so at most one factory runs; a call that joined another one is about the same
  key in the same process, and returns or throws exactly what that call settled with.\<close>

theorem one_factory_per_key_and_process:
  assumes "(guard_step mu one)\<^sup>*\<^sup>* (guard_init l1 l2) s"
  shows "(\<forall>i j c d. gs_calls s i = Some c \<and> gs_calls s j = Some d \<and> leading (gc_phase c) \<and> leading (gc_phase d) \<and>
        gc_instance c = gc_instance d \<and> gc_key c = gc_key d \<longrightarrow> i = j) \<and>
    (\<forall>i c j r. gs_calls s i = Some c \<and> gc_phase c = GDone r (Some j) \<longrightarrow>
        (\<exists>d. gs_calls s j = Some d \<and> gc_instance d = gc_instance c \<and> gc_key d = gc_key c \<and>
          (gc_phase d = GSettled r \<or> gc_phase d = GDone r None)))"
proof (intro conjI allI impI)
  have inv: "guard_inv s" using assms by (rule guard_inv_reach)
  note I = inv[unfolded guard_inv_def, THEN conjunct2]
  fix i j c d
  assume a: "gs_calls s i = Some c \<and> gs_calls s j = Some d \<and> leading (gc_phase c) \<and> leading (gc_phase d) \<and>
        gc_instance c = gc_instance d \<and> gc_key c = gc_key d"
  then show "i = j" using I[THEN conjunct1, rule_format, of i c] I[THEN conjunct1, rule_format, of j d] by simp
next
  have inv: "guard_inv s" using assms by (rule guard_inv_reach)
  note I = inv[unfolded guard_inv_def, THEN conjunct2, THEN conjunct2]
  fix i c j r
  assume a: "gs_calls s i = Some c \<and> gc_phase c = GDone r (Some j)"
  then obtain d where d: "gs_calls s j = Some d" "gc_phase d = GSettled r \<or> gc_phase d = GDone r None"
    using I[THEN conjunct2, rule_format] by blast
  moreover have "gc_instance d = gc_instance c \<and> gc_key d = gc_key c"
    using I[THEN conjunct1, rule_format, of i c j] a d(1) by simp
  ultimately show "\<exists>d. gs_calls s j = Some d \<and> gc_instance d = gc_instance c \<and> gc_key d = gc_key c \<and>
      (gc_phase d = GSettled r \<or> gc_phase d = GDone r None)" by blast
qed


abbreviation two_nats :: "(nat memory_cache, nat memory_cache, nat) multi_cache" where
  "two_nats \<equiv> two_memory_layers 300 (\<lambda>_. Some 0)"

theorem one_factory_per_key_and_process_witness:
  "\<exists>(s :: (nat memory_cache, nat memory_cache, string, nat) guard_sys) c d.
     (guard_step two_nats 1)\<^sup>*\<^sup>* (guard_init (\<lambda>_. memory_cache_new None) (memory_cache_new None)) s \<and>
     gs_calls s 1 = Some c \<and> gc_phase c = GDone (Inr 7) (Some 0) \<and>
     gs_calls s 0 = Some d \<and> gc_key d = gc_key c \<and> (gc_phase d = GSettled (Inr 7) \<or> gc_phase d = GDone (Inr 7) None)"
proof -
  let ?i = "guard_init (\<lambda>_. memory_cache_new None) (memory_cache_new None) :: (nat memory_cache, nat memory_cache, string, nat) guard_sys"
  let ?e = "(memory_cache_new None, memory_cache_new None) :: (nat memory_cache, nat memory_cache) layers"
  let ?c = "\<lparr>gc_instance = 0, gc_key = ''k'', gc_opts = None, gc_phase = GRead None\<rparr> :: (string, nat) guard_call"
  have miss: "mu_get two_nats ?e 0 ''k'' = (None, ?e)"
    by (simp add: mu_get_def two_memory_layers_def memory_cache_adapter_def mca_get_def memory_cache_new_def)
  let ?s1 = "gs_goto (gs_put ?i 0 ?e) 0 ?c (GRead None)"
  have 1: "guard_step two_nats 1 ?i ?s1"
    by (rule guard_call_begins[where now = 0]) (simp_all add: guard_init_def gs_layers_def miss)
  let ?s2 = "gs_goto (gs_put ?s1 0 ?e) 1 ?c (GRead None)"
  have 2: "guard_step two_nats 1 ?s1 ?s2"
    by (rule guard_call_begins[where now = 0]) (simp_all add: guard_init_def gs_layers_def gs_put_def gs_goto_def miss)
  obtain s3 where s3: "(guard_step two_nats 1)\<^sup>*\<^sup>* ?s2 s3" "gs_calls s3 = (gs_calls ?s2)(0 := Some (?c\<lparr>gc_phase := GRun\<rparr>))"
      "gs_inflight s3 = (gs_inflight ?s2)(0 := jm_set (gs_inflight ?s2 0) ''k'' 0)"
    using can_run[of ?s2 0 ?c two_nats 1] by (auto simp: guard_init_def)
  let ?s4 = "gs_goto s3 1 ?c (GJoin 0)"
  have 4: "guard_step two_nats 1 s3 ?s4"
    by (rule guard_join) (simp_all add: s3 guard_init_def)
  obtain s5 where s5: "(guard_step two_nats 1)\<^sup>*\<^sup>* ?s4 s5" "gs_calls s5 = (gs_calls ?s4)(0 := Some (?c\<lparr>gc_phase := GDone (Inr 7) None\<rparr>))"
    using can_finish[of ?s4 0 "?c\<lparr>gc_phase := GRun\<rparr>" two_nats 1 7] by (auto simp: s3)
  let ?s6 = "gs_goto s5 1 (?c\<lparr>gc_phase := GJoin 0\<rparr>) (GDone (Inr 7) (Some 0))"
  have 6: "guard_step two_nats 1 s5 ?s6"
    by (rule guard_follow[where d = "?c\<lparr>gc_phase := GDone (Inr 7) None\<rparr>"]) (simp_all add: s5)
  have reach: "(guard_step two_nats 1)\<^sup>*\<^sup>* ?i ?s6"
    using 1 2 s3(1) 4 s5(1) 6 by (meson converse_rtranclp_into_rtranclp rtranclp.rtrancl_into_rtrancl rtranclp_trans)
  let ?c6 = "?c\<lparr>gc_phase := GDone (Inr 7) (Some 0)\<rparr>"
  have c6: "gs_calls ?s6 1 = Some ?c6" by simp
  from one_factory_per_key_and_process[OF reach, THEN conjunct2, rule_format, of 1 ?c6 "Inr 7" 0] c6
  obtain d where "gs_calls ?s6 0 = Some d" "gc_key d = ''k''" "gc_phase d = GSettled (Inr 7) \<or> gc_phase d = GDone (Inr 7) None"
    by auto
  then show ?thesis using reach c6 by (intro exI[of _ ?s6] exI[of _ ?c6] exI[of _ d]) simp
qed

section \<open>CacheWarmer\<close>

text \<open>The factories run at once; the list gives the entries in the order in which they finish, each with the
  outcome of its factory (\<open>None\<close> for a throw) and the time. An entry's own failure is only logged.\<close>

record warm_entry =
  we_key :: string
  we_ttl :: "int option"
  we_warmOnStart :: bool

definition warmer_register :: "warm_entry list \<Rightarrow> warm_entry list \<Rightarrow> warm_entry list" where
  "warmer_register entries newEntries = entries @ newEntries"

definition warmEntry :: "('a, 'b, 'v) multi_cache \<Rightarrow> warm_entry \<times> 'v option \<times> int \<Rightarrow> ('a, 'b) layers \<Rightarrow> ('a, 'b) layers" where
  "warmEntry mu x s = (case x of (entry, outcome, now) \<Rightarrow> (case outcome of
     None \<Rightarrow> s | Some v \<Rightarrow> mu_set mu s now (we_key entry) v (Some \<lparr>cs_ttl = we_ttl entry, cs_l2Ttl = None\<rparr>)))"

text \<open>\<open>warmAll\<close>, \<open>onModuleInit\<close> and \<open>warmKey\<close> choose the entries; \<open>finish\<close> orders them and gives their outcomes.\<close>

type_synonym 'v warm_run = "warm_entry list \<Rightarrow> (warm_entry \<times> 'v option \<times> int) list"

definition warmAll :: "('a, 'b, 'v) multi_cache \<Rightarrow> 'v warm_run \<Rightarrow> warm_entry list \<Rightarrow> ('a, 'b) layers \<Rightarrow> ('a, 'b) layers" where
  "warmAll mu finish entries s = fold (warmEntry mu) (finish entries) s"

definition warmOnModuleInit :: "('a, 'b, 'v) multi_cache \<Rightarrow> 'v warm_run \<Rightarrow> warm_entry list \<Rightarrow> ('a, 'b) layers \<Rightarrow> ('a, 'b) layers" where
  "warmOnModuleInit mu finish entries s =
     (let onStartEntries = filter we_warmOnStart entries
      in if onStartEntries = [] then s else fold (warmEntry mu) (finish onStartEntries) s)"

definition warmKey :: "('a, 'b, 'v) multi_cache \<Rightarrow> 'v option \<Rightarrow> int \<Rightarrow> string \<Rightarrow> warm_entry list \<Rightarrow> ('a, 'b) layers \<Rightarrow> ('a, 'b) layers" where
  "warmKey mu outcome now key entries s = (case find (\<lambda>e. we_key e = key) entries of
     None \<Rightarrow> s | Some entry \<Rightarrow> warmEntry mu (entry, outcome, now) s)"


lemma warmed_key_is_visible:
  fixes mu :: "('v memory_cache, 'v memory_cache, 'v) multi_cache"
  assumes "mu = two_memory_layers defaultTtl jsonSize" and "find (\<lambda>e. we_key e = key) entries = Some entry"
    and "now \<le> t" and "estimateSize mu v < SIZE_THRESHOLD_BYTES" and "ttl_live (Some (or_else (we_ttl entry) defaultTtl)) now t"
  shows "fst (mu_get mu (warmKey mu (Some v) now key entries s) t key) = Some v"
proof -
  have "we_key entry = key" using assms(2) by (auto simp: find_Some_iff)
  moreover have "fst (mu_get mu (mu_set mu s now key v (Some \<lparr>cs_ttl = we_ttl entry, cs_l2Ttl = None\<rparr>)) t key) = Some v"
    unfolding assms(1) by (rule two.mu_set_get) (use assms in \<open>simp_all add: two_memory_layers_def\<close>)
  ultimately show ?thesis by (simp add: warmKey_def warmEntry_def assms(2))
qed

section \<open>CacheStats\<close>

record key_stats =
  ks_hits :: nat
  ks_misses :: nat
  ks_totalSizeBytes :: nat

type_synonym cache_stats = "(string, key_stats) jsmap"

definition getOrCreateEntry :: "cache_stats \<Rightarrow> string \<Rightarrow> key_stats" where
  "getOrCreateEntry st key = or_else (jm_get st key) \<lparr>ks_hits = 0, ks_misses = 0, ks_totalSizeBytes = 0\<rparr>"

definition recordHit :: "string \<Rightarrow> cache_stats \<Rightarrow> cache_stats" where
  "recordHit key st = (let e = getOrCreateEntry st key in jm_set st key (e\<lparr>ks_hits := ks_hits e + 1\<rparr>))"

definition recordMiss :: "string \<Rightarrow> cache_stats \<Rightarrow> cache_stats" where
  "recordMiss key st = (let e = getOrCreateEntry st key in jm_set st key (e\<lparr>ks_misses := ks_misses e + 1\<rparr>))"

definition recordSet :: "string \<Rightarrow> nat \<Rightarrow> cache_stats \<Rightarrow> cache_stats" where
  "recordSet key valueSizeBytes st = (let e = getOrCreateEntry st key
     in jm_set st key (e\<lparr>ks_totalSizeBytes := ks_totalSizeBytes e + valueSizeBytes\<rparr>))"

definition hit_rate :: "nat \<Rightarrow> nat \<Rightarrow> rat" where
  "hit_rate hits ops = (if ops = 0 then 0 else of_nat hits / of_nat ops)"

definition getHitRate :: "string option \<Rightarrow> cache_stats \<Rightarrow> rat" where
  "getHitRate pattern st =
     (let chosen = filter (\<lambda>(key, e). or_else pattern [] = [] \<or> starts_with key (or_else pattern [])) st
      in hit_rate (sum_list (map (\<lambda>(k, e). ks_hits e) chosen)) (sum_list (map (\<lambda>(k, e). ks_hits e + ks_misses e) chosen)))"

record hot_key =
  hk_key :: string
  hk_hits :: nat
  hk_misses :: nat
  hk_hitRate :: rat

record cache_stats_result =
  cr_overallHitRate :: rat
  cr_totalOps :: nat
  cr_totalHits :: nat
  cr_totalMisses :: nat
  cr_hitRateByPattern :: "(string, rat) jsmap"
  cr_hotKeys :: "hot_key list"
  cr_estimatedMemoryBytes :: nat

definition hot_key_of :: "string \<times> key_stats \<Rightarrow> hot_key" where
  "hot_key_of x = (case x of (key, e) \<Rightarrow> \<lparr>hk_key = key, hk_hits = ks_hits e, hk_misses = ks_misses e,
     hk_hitRate = hit_rate (ks_hits e) (ks_hits e + ks_misses e)\<rparr>)"

abbreviation hk_ops :: "hot_key \<Rightarrow> nat" where "hk_ops k \<equiv> hk_hits k + hk_misses k"

text \<open>\<open>key.split(':')[0]\<close> groups the keys; the sort is stable, most used first.\<close>

definition add_to_pattern :: "hot_key \<Rightarrow> (string, nat \<times> nat) jsmap \<Rightarrow> (string, nat \<times> nat) jsmap" where
  "add_to_pattern k m = (let pre = hd (js_split CHR '':'' (hk_key k)); (hits, ops) = or_else (jm_get m pre) (0, 0)
     in jm_set m pre (hits + hk_hits k, ops + hk_ops k))"

definition getStats :: "cache_stats \<Rightarrow> cache_stats_result" where
  "getStats st = (let totalHits = sum_list (map (\<lambda>(k, e). ks_hits e) st); totalMisses = sum_list (map (\<lambda>(k, e). ks_misses e) st);
      allKeys = map hot_key_of st; sorted = sort_key (\<lambda>k. - int (hk_ops k)) allKeys;
      patternMap = fold add_to_pattern sorted []
    in \<lparr>cr_overallHitRate = hit_rate totalHits (totalHits + totalMisses), cr_totalOps = totalHits + totalMisses,
        cr_totalHits = totalHits, cr_totalMisses = totalMisses,
        cr_hitRateByPattern = map (\<lambda>(pre, hits, ops). (pre, hit_rate hits ops)) patternMap,
        cr_hotKeys = take 20 sorted,
        cr_estimatedMemoryBytes = sum_list (map (\<lambda>(k, e). ks_totalSizeBytes e) st)\<rparr>)"

definition stats_reset :: "cache_stats \<Rightarrow> cache_stats" where
  "stats_reset st = []"

text \<open>A rate is between 0 and 1; the operations counted are the operations recorded; the hot keys are the most used
  ones, at most twenty, in order.\<close>

datatype stats_op = SHit string | SMiss string | SSet string nat

fun stats_do :: "stats_op \<Rightarrow> cache_stats \<Rightarrow> cache_stats" where
  "stats_do (SHit k) st = recordHit k st"
| "stats_do (SMiss k) st = recordMiss k st"
| "stats_do (SSet k n) st = recordSet k n st"

lemma sum_jm_set:
  fixes f :: "'v \<Rightarrow> nat"
  assumes "jm_wf m"
  shows "sum_list (map (\<lambda>(k, e). f e) (jm_set m k v)) + (case jm_get m k of None \<Rightarrow> 0 | Some e \<Rightarrow> f e)
    = sum_list (map (\<lambda>(k, e). f e) m) + f v"
  using assms
proof (induction m)
  case (Cons kv m)
  have "fst kv = k \<Longrightarrow> jm_get m k = None" using Cons.prems by (auto simp: jm_wf_def map_of_eq_None_iff)
  moreover have "jm_wf m" using Cons.prems by (simp add: jm_wf_def)
  ultimately show ?case using Cons.IH by (cases kv) (auto simp: add.assoc)
qed simp

lemma stats_do_counts:
  assumes "jm_wf st"
  shows "jm_wf (stats_do x st)"
    and "sum_list (map (\<lambda>(k, e). ks_hits e) (stats_do x st)) = sum_list (map (\<lambda>(k, e). ks_hits e) st) + (case x of SHit _ \<Rightarrow> 1 | _ \<Rightarrow> 0)"
    and "sum_list (map (\<lambda>(k, e). ks_misses e) (stats_do x st)) = sum_list (map (\<lambda>(k, e). ks_misses e) st) + (case x of SMiss _ \<Rightarrow> 1 | _ \<Rightarrow> 0)"
    and "sum_list (map (\<lambda>(k, e). ks_totalSizeBytes e) (stats_do x st)) = sum_list (map (\<lambda>(k, e). ks_totalSizeBytes e) st)
      + (case x of SSet _ n \<Rightarrow> n | _ \<Rightarrow> 0)"
proof -
  show "jm_wf (stats_do x st)" using assms by (cases x) (simp_all add: recordHit_def recordMiss_def recordSet_def Let_def)
  note * = sum_jm_set[OF assms, of ks_hits] sum_jm_set[OF assms, of ks_misses] sum_jm_set[OF assms, of ks_totalSizeBytes]
  obtain k where k: "x = SHit k \<or> x = SMiss k \<or> (\<exists>n. x = SSet k n)" by (cases x) auto
  show "sum_list (map (\<lambda>(k, e). ks_hits e) (stats_do x st)) = sum_list (map (\<lambda>(k, e). ks_hits e) st) + (case x of SHit _ \<Rightarrow> 1 | _ \<Rightarrow> 0)"
    using k *(1)[of k "ks_hits_update (\<lambda>_. ks_hits (getOrCreateEntry st k) + 1) (getOrCreateEntry st k)"]
      *(1)[of k "ks_misses_update (\<lambda>_. ks_misses (getOrCreateEntry st k) + 1) (getOrCreateEntry st k)"]
      *(1)[of k "ks_totalSizeBytes_update (\<lambda>_. ks_totalSizeBytes (getOrCreateEntry st k) + n) (getOrCreateEntry st k)" for n]
    by (elim disjE exE; cases "jm_get st k") (simp_all add: recordHit_def recordMiss_def recordSet_def Let_def getOrCreateEntry_def)
  show "sum_list (map (\<lambda>(k, e). ks_misses e) (stats_do x st)) = sum_list (map (\<lambda>(k, e). ks_misses e) st) + (case x of SMiss _ \<Rightarrow> 1 | _ \<Rightarrow> 0)"
    using k *(2)[of k "ks_hits_update (\<lambda>_. ks_hits (getOrCreateEntry st k) + 1) (getOrCreateEntry st k)"]
      *(2)[of k "ks_misses_update (\<lambda>_. ks_misses (getOrCreateEntry st k) + 1) (getOrCreateEntry st k)"]
      *(2)[of k "ks_totalSizeBytes_update (\<lambda>_. ks_totalSizeBytes (getOrCreateEntry st k) + n) (getOrCreateEntry st k)" for n]
    by (elim disjE exE; cases "jm_get st k") (simp_all add: recordHit_def recordMiss_def recordSet_def Let_def getOrCreateEntry_def)
  show "sum_list (map (\<lambda>(k, e). ks_totalSizeBytes e) (stats_do x st)) = sum_list (map (\<lambda>(k, e). ks_totalSizeBytes e) st)
      + (case x of SSet _ n \<Rightarrow> n | _ \<Rightarrow> 0)"
    using k *(3)[of k "ks_hits_update (\<lambda>_. ks_hits (getOrCreateEntry st k) + 1) (getOrCreateEntry st k)"]
      *(3)[of k "ks_misses_update (\<lambda>_. ks_misses (getOrCreateEntry st k) + 1) (getOrCreateEntry st k)"]
      *(3)[of k "ks_totalSizeBytes_update (\<lambda>_. ks_totalSizeBytes (getOrCreateEntry st k) + n) (getOrCreateEntry st k)" for n]
    by (elim disjE exE; cases "jm_get st k") (simp_all add: recordHit_def recordMiss_def recordSet_def Let_def getOrCreateEntry_def)
qed


lemma stats_run_counts:
  assumes "jm_wf st"
  shows "jm_wf (fold stats_do ops st)"
    and "sum_list (map (\<lambda>(k, e). ks_hits e) (fold stats_do ops st)) =
      sum_list (map (\<lambda>(k, e). ks_hits e) st) + length (filter (\<lambda>x. \<exists>k. x = SHit k) ops)"
    and "sum_list (map (\<lambda>(k, e). ks_misses e) (fold stats_do ops st)) =
      sum_list (map (\<lambda>(k, e). ks_misses e) st) + length (filter (\<lambda>x. \<exists>k. x = SMiss k) ops)"
  using assms by (induction ops arbitrary: st) (auto simp: stats_do_counts split: stats_op.split)

lemma hit_rate_bounds: "hits \<le> ops \<Longrightarrow> 0 \<le> hit_rate hits ops \<and> hit_rate hits ops \<le> 1"
  by (simp add: hit_rate_def)

theorem cache_stats_count_operations:
  "cr_totalHits (getStats (fold stats_do ops [])) = length (filter (\<lambda>x. \<exists>k. x = SHit k) ops) \<and>
   cr_totalMisses (getStats (fold stats_do ops [])) = length (filter (\<lambda>x. \<exists>k. x = SMiss k) ops) \<and>
   0 \<le> cr_overallHitRate (getStats (fold stats_do ops [])) \<and> cr_overallHitRate (getStats (fold stats_do ops [])) \<le> 1 \<and>
   length (cr_hotKeys (getStats (fold stats_do ops []))) \<le> 20 \<and>
   sorted_wrt (\<lambda>a b. hk_ops b \<le> hk_ops a) (cr_hotKeys (getStats (fold stats_do ops [])))"
proof -
  let ?st = "fold stats_do ops []" and ?sorted = "sort_key (\<lambda>k. - int (hk_ops k)) (map hot_key_of (fold stats_do ops []))"
  have "sorted_wrt (\<le>) (map (\<lambda>k. - int (hk_ops k)) (take 20 ?sorted))"
    by (simp only: take_map[symmetric] sorted_wrt_take sorted_sort_key)
  then have "sorted_wrt (\<lambda>a b. hk_ops b \<le> hk_ops a) (take 20 ?sorted)"
    unfolding sorted_wrt_map by (rule sorted_wrt_mono_rel[rotated]) simp
  then show ?thesis
    using stats_run_counts(2,3)[of "[]" ops] hit_rate_bounds[of "sum_list (map (\<lambda>(k, e). ks_hits e) ?st)"]
    by (simp add: getStats_def Let_def)
qed

end
