(* ===== verification/Rpc_Errors.thy ===== *)
theory Rpc_Errors
  imports Js_Text "HOL-Library.Countable"
begin

text \<open>
  Errors on their way to a client: \<open>common/boot-exception.ts\<close>, \<open>common/mongoose-error.transformer.ts\<close>,
  \<open>common/filters/all-exceptions.filter.ts\<close>, \<open>common/problem-details.ts\<close>, the envelopes between services in
  \<open>rpc/\<close>, and the chain of services in \<open>transport/error-context.interceptor.ts\<close>. A thrown value is an
  exception of the framework, an RPC exception, an error with further properties, or any value; JSON
  text, the text of other values and the message the framework derives from a response are parameters.
  A property that holds \<open>undefined\<close> is left out of its object.
\<close>

section \<open>Thrown values\<close>

record http_exception =
  hx_name :: string
  hx_response :: json
  hx_status :: rat
  hx_message :: string
  hx_code :: "json option"
  hx_details :: "json list option"

datatype thrown = THttp http_exception | TRpc json string | TError string json_record | TValue json

record rpc_env =
  er_init :: "json \<Rightarrow> string"
  er_stringify :: "json \<Rightarrow> string"
  er_parse :: "string \<Rightarrow> json option"
  er_string :: "json \<Rightarrow> string"
  er_correlationId :: "string option"
  er_now :: string

definition rpc_env_ok :: "rpc_env \<Rightarrow> bool" where
  "rpc_env_ok env \<longleftrightarrow> (\<forall>j. er_parse env (er_stringify env j) = Some j \<and> er_stringify env j \<noteq> [])"

text \<open>\<open>x ?? d\<close> and a property of a value.\<close>

definition js_nullish :: "json option \<Rightarrow> json \<Rightarrow> json" where
  "js_nullish x d = (case x of None \<Rightarrow> d | Some JNull \<Rightarrow> d | Some v \<Rightarrow> v)"

fun js_prop :: "json \<Rightarrow> string \<Rightarrow> json option" where
  "js_prop (JObj m) k = jm_get m k"
| "js_prop _ k = None"

fun thrown_prop :: "thrown \<Rightarrow> string \<Rightarrow> json option" where
  "thrown_prop (TValue j) k = js_prop j k"
| "thrown_prop (TError message props) k = (if k = ''message'' then Some (JStr message) else jm_get props k)"
| "thrown_prop (TRpc _ message) k = (if k = ''message'' then Some (JStr message) else None)"
| "thrown_prop (THttp x) k = (if k = ''message'' then Some (JStr (hx_message x)) else if k = ''status'' then Some (JNum (hx_status x))
     else if k = ''response'' then Some (hx_response x) else if k = ''code'' then hx_code x
     else if k = ''details'' then map_option JArr (hx_details x) else None)"

fun is_number :: "json option \<Rightarrow> bool" where "is_number (Some (JNum _)) = True" | "is_number _ = False"
fun is_string :: "json option \<Rightarrow> bool" where "is_string (Some (JStr _)) = True" | "is_string _ = False"
fun number_of :: "json option \<Rightarrow> rat" where "number_of (Some (JNum n)) = n" | "number_of _ = 0"
fun string_of :: "json option \<Rightarrow> string" where "string_of (Some (JStr s)) = s" | "string_of _ = []"
fun array_of :: "json option \<Rightarrow> json list option" where "array_of (Some (JArr xs)) = Some xs" | "array_of _ = None"

text \<open>\<open>...(v ? { name: v } : {})\<close>\<close>

definition spread_if :: "string \<Rightarrow> json option \<Rightarrow> json_record" where
  "spread_if name v = (case v of Some x \<Rightarrow> if js_truthy x then [(name, x)] else [] | None \<Rightarrow> [])"

definition spread_def :: "string \<Rightarrow> json option \<Rightarrow> json_record" where
  "spread_def name v = (case v of Some x \<Rightarrow> [(name, x)] | None \<Rightarrow> [])"

definition new_HttpException :: "rpc_env \<Rightarrow> json \<Rightarrow> rat \<Rightarrow> http_exception" where
  "new_HttpException env response status = \<lparr>hx_name = ''HttpException'', hx_response = response, hx_status = status,
     hx_message = er_init env response, hx_code = None, hx_details = None\<rparr>"

definition INTERNAL_SERVER_ERROR :: rat where "INTERNAL_SERVER_ERROR = 500"

record boot_exception_options =
  bo_code :: "string option"
  bo_status :: "rat option"
  bo_details :: "json list option"

definition new_BootException :: "rpc_env \<Rightarrow> string \<Rightarrow> boot_exception_options option \<Rightarrow> http_exception" where
  "new_BootException env message options =
     (let status = or_else (Option.bind options bo_status) INTERNAL_SERVER_ERROR; code = Option.bind options bo_code;
          details = Option.bind options bo_details;
          response = JObj ([(''statusCode'', JNum status), (''message'', JStr message), (''error'', JStr ''BootException'')]
            @ spread_if ''code'' (map_option JStr code) @ spread_def ''details'' (map_option JArr details))
      in \<lparr>hx_name = ''BootException'', hx_response = response, hx_status = status, hx_message = er_init env response,
          hx_code = map_option JStr code, hx_details = details\<rparr>)"

section \<open>Mongoose errors\<close>

record field_error =
  fe_message :: string
  fe_value :: "json option"
  fe_kind :: "json option"

record js_error =
  je_name :: string
  je_message :: string
  je_errors :: "(string \<times> field_error) list option"
  je_code :: "json option"
  je_keyValue :: "(string \<times> json) list option"

definition validation_detail :: "string \<times> field_error \<Rightarrow> json" where
  "validation_detail x = (case x of (f, e) \<Rightarrow> JObj ([(''field'', JStr f), (''message'', JStr (fe_message e))]
     @ spread_def ''value'' (fe_value e) @ spread_def ''kind'' (fe_kind e)))"

definition transformMongooseError :: "rpc_env \<Rightarrow> js_error \<Rightarrow> http_exception option" where
  "transformMongooseError env err =
     (if je_name err = ''ValidationError'' \<and> je_errors err \<noteq> None then
        (let errors = or_else (je_errors err) []
         in Some (new_BootException env (''Validation failed: '' @ js_join '', '' (map fst errors))
              (Some \<lparr>bo_code = Some ''DB_VALIDATION_FAILED'', bo_status = Some 422, bo_details = Some (map validation_detail errors)\<rparr>)))
      else if je_name err = ''MongoServerError'' \<and> je_code err = Some (JNum 11000) then
        (let keyValue = or_else (je_keyValue err) []; names = map fst keyValue;
             details = map (\<lambda>(f, v). JObj [(''field'', JStr f), (''value'', v)]) keyValue;
             fieldList = (if names \<noteq> [] then js_join '', '' names else ''unknown field'')
         in Some (new_BootException env (''Duplicate key: '' @ fieldList @ '' already exists'')
              (Some \<lparr>bo_code = Some ''DB_DUPLICATE_KEY'', bo_status = Some 409, bo_details = Some details\<rparr>)))
      else None)"

text \<open>\<open>MongooseErrorInterceptor\<close>: \<open>transformed ?? err\<close>.\<close>

definition mongoose_intercept :: "rpc_env \<Rightarrow> js_error \<Rightarrow> thrown" where
  "mongoose_intercept env err = (case transformMongooseError env err of
     Some x \<Rightarrow> THttp x
   | None \<Rightarrow> TError (je_message err) (spread_def ''code'' (je_code err)))"

section \<open>The filters\<close>

record error_object =
  eo_statusCode :: rat
  eo_message :: json
  eo_error :: string
  eo_code :: "string option"
  eo_details :: "json list option"

definition unknown_error :: error_object where
  "unknown_error = \<lparr>eo_statusCode = INTERNAL_SERVER_ERROR, eo_message = JStr ''Internal Server Error'',
     eo_error = ''InternalServerError'', eo_code = None, eo_details = None\<rparr>"

text \<open>What both filters read of an exception of the framework.\<close>

definition http_error_object :: "http_exception \<Rightarrow> error_object" where
  "http_error_object x =
     (let eo = unknown_error\<lparr>eo_statusCode := hx_status x, eo_error := hx_name x\<rparr>;
          eo1 = (case hx_response x of
              JStr s \<Rightarrow> eo\<lparr>eo_message := JStr s\<rparr>
            | JObj resp \<Rightarrow>
                (let message = jm_get resp ''message'';
                     eo = (case array_of message of
                         Some xs \<Rightarrow> eo\<lparr>eo_message := JStr ''Validation failed'', eo_details := Some xs\<rparr>
                       | None \<Rightarrow> eo\<lparr>eo_message := js_nullish message (JStr (hx_message x))\<rparr>);
                     eo = (if is_string (jm_get resp ''error'') \<and> string_of (jm_get resp ''error'') \<noteq> []
                       then eo\<lparr>eo_error := string_of (jm_get resp ''error'')\<rparr> else eo)
                 in if is_string (jm_get resp ''code'') then eo\<lparr>eo_code := Some (string_of (jm_get resp ''code''))\<rparr> else eo)
            | JArr _ \<Rightarrow> eo\<lparr>eo_message := JStr (hx_message x)\<rparr>
            | _ \<Rightarrow> eo)
      in if is_string (hx_code x) \<and> string_of (hx_code x) \<noteq> [] then eo1\<lparr>eo_code := Some (string_of (hx_code x))\<rparr> else eo1)"

text \<open>\<open>...(code ? { code } : {})\<close>: an empty code is dropped at the end.\<close>

definition drop_empty_code :: "error_object \<Rightarrow> error_object" where
  "drop_empty_code eo = (if eo_code eo = Some [] then eo\<lparr>eo_code := None\<rparr> else eo)"

definition buildErrorObject :: "thrown \<Rightarrow> error_object" where
  "buildErrorObject exception = (case exception of
     THttp x \<Rightarrow> drop_empty_code (http_error_object x)
   | TError message _ \<Rightarrow> unknown_error\<lparr>eo_message := JStr message\<rparr>
   | TRpc _ message \<Rightarrow> unknown_error\<lparr>eo_message := JStr message\<rparr>
   | TValue _ \<Rightarrow> unknown_error)"

record rpc_envelope = error_object +
  rv_correlationId :: "string option"
  rv_timestamp :: string
  rv_service :: "string option"

definition rpc_error_object :: "thrown \<Rightarrow> error_object" where
  "rpc_error_object exception = (case exception of
     THttp x \<Rightarrow> http_error_object x
   | TRpc rpcError _ \<Rightarrow> (case rpcError of
       JStr s \<Rightarrow> unknown_error\<lparr>eo_message := JStr s\<rparr>
     | JObj resp \<Rightarrow> unknown_error\<lparr>
         eo_statusCode := (if is_number (jm_get resp ''statusCode'') then number_of (jm_get resp ''statusCode'') else INTERNAL_SERVER_ERROR),
         eo_message := (if is_string (jm_get resp ''message'') then JStr (string_of (jm_get resp ''message'')) else JStr ''Internal Server Error''),
         eo_error := (if is_string (jm_get resp ''error'') then string_of (jm_get resp ''error'') else ''InternalServerError''),
         eo_details := array_of (jm_get resp ''details'')\<rparr>
     | _ \<Rightarrow> unknown_error)
   | TError message _ \<Rightarrow> unknown_error\<lparr>eo_message := JStr message\<rparr>
   | TValue _ \<Rightarrow> unknown_error)"

definition non_empty :: "string option \<Rightarrow> string option" where
  "non_empty s = (if s = Some [] then None else s)"

definition buildEnvelope :: "rpc_env \<Rightarrow> string option \<Rightarrow> thrown \<Rightarrow> rpc_envelope" where
  "buildEnvelope env serviceName exception = (let eo = drop_empty_code (rpc_error_object exception)
     in \<lparr>eo_statusCode = eo_statusCode eo, eo_message = eo_message eo, eo_error = eo_error eo, eo_code = eo_code eo,
         eo_details = eo_details eo, rv_correlationId = non_empty (er_correlationId env), rv_timestamp = er_now env,
         rv_service = non_empty serviceName\<rparr>)"

definition envelope_json :: "rpc_envelope \<Rightarrow> json" where
  "envelope_json e = JObj ([(''statusCode'', JNum (eo_statusCode e)), (''message'', eo_message e), (''error'', JStr (eo_error e))]
     @ spread_def ''code'' (map_option JStr (eo_code e)) @ spread_def ''details'' (map_option JArr (eo_details e))
     @ spread_def ''correlationId'' (map_option JStr (rv_correlationId e)) @ [(''timestamp'', JStr (rv_timestamp e))]
     @ spread_def ''service'' (map_option JStr (rv_service e)))"

section \<open>Status codes\<close>

datatype GrpcStatus = OK | CANCELLED | UNKNOWN | INVALID_ARGUMENT | DEADLINE_EXCEEDED | NOT_FOUND | ALREADY_EXISTS
  | PERMISSION_DENIED | RESOURCE_EXHAUSTED | FAILED_PRECONDITION | ABORTED | OUT_OF_RANGE | UNIMPLEMENTED | INTERNAL
  | UNAVAILABLE | DATA_LOSS | UNAUTHENTICATED

fun grpc_code :: "GrpcStatus \<Rightarrow> rat" where
  "grpc_code OK = 0" | "grpc_code CANCELLED = 1" | "grpc_code UNKNOWN = 2" | "grpc_code INVALID_ARGUMENT = 3"
| "grpc_code DEADLINE_EXCEEDED = 4" | "grpc_code NOT_FOUND = 5" | "grpc_code ALREADY_EXISTS = 6"
| "grpc_code PERMISSION_DENIED = 7" | "grpc_code RESOURCE_EXHAUSTED = 8" | "grpc_code FAILED_PRECONDITION = 9"
| "grpc_code ABORTED = 10" | "grpc_code OUT_OF_RANGE = 11" | "grpc_code UNIMPLEMENTED = 12" | "grpc_code INTERNAL = 13"
| "grpc_code UNAVAILABLE = 14" | "grpc_code DATA_LOSS = 15" | "grpc_code UNAUTHENTICATED = 16"

definition httpToGrpc :: "(rat \<times> GrpcStatus) list" where
  "httpToGrpc = [(200, OK), (400, INVALID_ARGUMENT), (401, UNAUTHENTICATED), (403, PERMISSION_DENIED), (404, NOT_FOUND),
     (408, DEADLINE_EXCEEDED), (409, ALREADY_EXISTS), (412, FAILED_PRECONDITION), (416, OUT_OF_RANGE), (422, INVALID_ARGUMENT),
     (429, RESOURCE_EXHAUSTED), (499, CANCELLED), (500, INTERNAL), (501, UNIMPLEMENTED), (503, UNAVAILABLE)]"

definition grpcToHttp :: "(rat \<times> rat) list" where
  "grpcToHttp = map (\<lambda>(g, h). (grpc_code g, h)) [(OK, 200), (CANCELLED, 499), (UNKNOWN, 500), (INVALID_ARGUMENT, 400),
     (DEADLINE_EXCEEDED, 408), (NOT_FOUND, 404), (ALREADY_EXISTS, 409), (PERMISSION_DENIED, 403), (RESOURCE_EXHAUSTED, 429),
     (FAILED_PRECONDITION, 412), (ABORTED, 409), (OUT_OF_RANGE, 416), (UNIMPLEMENTED, 501), (INTERNAL, 500), (UNAVAILABLE, 503),
     (DATA_LOSS, 500), (UNAUTHENTICATED, 401)]"

definition httpStatusToGrpc :: "rat \<Rightarrow> GrpcStatus" where
  "httpStatusToGrpc httpStatus = or_else (map_of httpToGrpc httpStatus) INTERNAL"

definition grpcStatusToHttp :: "rat \<Rightarrow> rat" where
  "grpcStatusToHttp grpcStatus = or_else (map_of grpcToHttp grpcStatus) 500"

text \<open>\<open>toGrpcError\<close>, as it arrives at the caller: an error with a code and details.\<close>

definition toGrpcError :: "rpc_env \<Rightarrow> rpc_envelope \<Rightarrow> thrown" where
  "toGrpcError env e = TValue (JObj [(''code'', JNum (grpc_code (httpStatusToGrpc (eo_statusCode e)))), (''message'', eo_message e),
     (''details'', JStr (er_stringify env (envelope_json e)))])"

section \<open>Reading an error back\<close>

definition isRpcErrorEnvelope :: "(string \<Rightarrow> json option) \<Rightarrow> bool" where
  "isRpcErrorEnvelope p \<longleftrightarrow> is_number (p ''statusCode'') \<and> is_string (p ''message'')"

definition envelope_exception :: "rpc_env \<Rightarrow> (string \<Rightarrow> json option) \<Rightarrow> http_exception" where
  "envelope_exception env p = new_HttpException env
     (JObj ([(''statusCode'', JNum (number_of (p ''statusCode''))), (''message'', JStr (string_of (p ''message'')))]
       @ spread_def ''error'' (p ''error'') @ spread_if ''code'' (p ''code'') @ spread_if ''details'' (p ''details'')
       @ spread_if ''causes'' (p ''causes'') @ spread_if ''correlationId'' (p ''correlationId'')))
     (number_of (p ''statusCode''))"

definition js_to_string :: "rpc_env \<Rightarrow> json \<Rightarrow> string" where
  "js_to_string env j = (case j of JStr s \<Rightarrow> s | _ \<Rightarrow> er_string env j)"

text \<open>A gRPC error: its details, when they are the text of an envelope, or else its code.\<close>

definition grpc_exception :: "rpc_env \<Rightarrow> (string \<Rightarrow> json option) \<Rightarrow> http_exception" where
  "grpc_exception env p =
     (let httpStatus = grpcStatusToHttp (number_of (p ''code''));
          parsed = (case p ''details'' of Some d \<Rightarrow> if js_truthy d then er_parse env (js_to_string env d) else None | None \<Rightarrow> None);
          plain = new_HttpException env (JObj [(''statusCode'', JNum httpStatus),
            (''message'', js_nullish (p ''message'') (JStr ''Unknown RPC error'')), (''error'', JStr ''RpcError'')]) httpStatus
      in case parsed of
           Some j \<Rightarrow> if isRpcErrorEnvelope (js_prop j) then envelope_exception env (js_prop j) else plain
         | None \<Rightarrow> plain)"

definition causes_exception :: "rpc_env \<Rightarrow> (string \<Rightarrow> json option) \<Rightarrow> http_exception" where
  "causes_exception env p =
     (let httpStatus = js_nullish (p ''statusCode'') (JNum INTERNAL_SERVER_ERROR)
      in new_HttpException env (JObj ([(''statusCode'', httpStatus), (''message'', js_nullish (p ''message'') (JStr ''Unknown RPC error'')),
            (''error'', js_nullish (p ''error'') (JStr ''RpcError''))] @ spread_if ''code'' (p ''code'') @ spread_if ''causes'' (p ''causes'')))
          (number_of (Some httpStatus)))"

definition fallback_message :: "thrown \<Rightarrow> string" where
  "fallback_message error = (case error of TError m _ \<Rightarrow> m | TRpc _ m \<Rightarrow> m | THttp x \<Rightarrow> hx_message x
     | TValue (JStr s) \<Rightarrow> s | TValue _ \<Rightarrow> ''Unknown RPC error'')"

definition deserializeRpcError :: "rpc_env \<Rightarrow> thrown \<Rightarrow> http_exception" where
  "deserializeRpcError env error = (case error of
     THttp x \<Rightarrow> x
   | _ \<Rightarrow> (let p = thrown_prop error in
       if isRpcErrorEnvelope p then envelope_exception env p
       else if is_number (p ''code'') then grpc_exception env p
       else if array_of (p ''causes'') \<noteq> None then causes_exception env p
       else new_HttpException env (JObj [(''statusCode'', JNum INTERNAL_SERVER_ERROR), (''message'', JStr (fallback_message error)),
              (''error'', JStr ''InternalServerError'')]) INTERNAL_SERVER_ERROR))"

definition RETRYABLE_STATUS_CODES :: "rat list" where
  "RETRYABLE_STATUS_CODES = [408, 429, 503, 504]"

definition isRetryable :: "thrown \<Rightarrow> bool" where
  "isRetryable error = (case error of
     THttp x \<Rightarrow> hx_status x \<in> set RETRYABLE_STATUS_CODES
   | _ \<Rightarrow> (let status = (case thrown_prop error ''statusCode'' of
            None \<Rightarrow> thrown_prop error ''status'' | Some JNull \<Rightarrow> thrown_prop error ''status'' | s \<Rightarrow> s)
         in is_number status \<and> number_of status \<in> set RETRYABLE_STATUS_CODES))"


section \<open>Problem details\<close>

definition HTTP_STATUS_TITLES :: "(rat \<times> string) list" where
  "HTTP_STATUS_TITLES = [(400, ''Bad Request''), (401, ''Unauthorized''), (403, ''Forbidden''), (404, ''Not Found''),
     (405, ''Method Not Allowed''), (409, ''Conflict''), (410, ''Gone''), (422, ''Unprocessable Entity''), (429, ''Too Many Requests''),
     (500, ''Internal Server Error''), (501, ''Not Implemented''), (502, ''Bad Gateway''), (503, ''Service Unavailable''),
     (504, ''Gateway Timeout'')]"

definition DEFAULT_PROBLEM_BASE_URI :: string where "DEFAULT_PROBLEM_BASE_URI = ''about:blank''"

record problem_details =
  pd_type :: string
  pd_title :: string
  pd_status :: rat
  pd_detail :: "string option"
  pd_instance :: "string option"
  pd_code :: "string option"
  pd_details :: "json list option"

record error_response =
  es_statusCode :: rat
  es_message :: string
  es_code :: "string option"
  es_details :: "json list option"

definition buildTypeUri :: "string \<Rightarrow> string option \<Rightarrow> string" where
  "buildTypeUri baseUri code = (case non_empty code of None \<Rightarrow> baseUri
     | Some c \<Rightarrow> baseUri @ (if CHR ''#'' \<in> set baseUri then ''/'' else ''#'') @ c)"

definition problem_title :: "rat \<Rightarrow> string" where
  "problem_title status = or_else (map_of HTTP_STATUS_TITLES status) ''Error''"

definition response_problem :: "error_response \<Rightarrow> string option \<Rightarrow> string \<Rightarrow> problem_details" where
  "response_problem e inst baseUri = (let title = problem_title (es_statusCode e)
     in \<lparr>pd_type = buildTypeUri baseUri (es_code e), pd_title = title, pd_status = es_statusCode e,
         pd_detail = (if es_message e \<noteq> title then Some (es_message e) else None), pd_instance = non_empty inst,
         pd_code = non_empty (es_code e), pd_details = es_details e\<rparr>)"

definition exception_problem :: "http_exception \<Rightarrow> string option \<Rightarrow> string \<Rightarrow> problem_details" where
  "exception_problem x inst baseUri =
     (let title = problem_title (hx_status x); code = (case hx_code x of Some (JStr c) \<Rightarrow> Some c | _ \<Rightarrow> None);
          detail = (case hx_response x of
              JStr s \<Rightarrow> if s \<noteq> title then Some s else None
            | JObj resp \<Rightarrow> (if is_string (jm_get resp ''message'') \<and> string_of (jm_get resp ''message'') \<noteq> title
                then Some (string_of (jm_get resp ''message'')) else None)
            | _ \<Rightarrow> None)
      in \<lparr>pd_type = buildTypeUri baseUri code, pd_title = title, pd_status = hx_status x, pd_detail = non_empty detail,
          pd_instance = non_empty inst, pd_code = non_empty code,
          pd_details = (if hx_details x = Some [] then None else hx_details x)\<rparr>)"

definition toProblemDetails :: "http_exception + error_response \<Rightarrow> string option \<Rightarrow> string option \<Rightarrow> problem_details" where
  "toProblemDetails error inst baseUri = (case error of
     Inr e \<Rightarrow> response_problem e inst (or_else baseUri DEFAULT_PROBLEM_BASE_URI)
   | Inl x \<Rightarrow> exception_problem x inst (or_else baseUri DEFAULT_PROBLEM_BASE_URI))"

section \<open>The chain of services\<close>

record boot_context =
  bc_service :: "string option"
  bc_correlationId :: "string option"
  bc_upstreamChain :: "string list option"
  bc_status :: "rat option"

record boot_rpc_exception =
  br_message :: string
  br_code :: string
  br_context :: boot_context

text \<open>
  A caught value: a \<open>BootRpcException\<close>, an object with some of the fields of an envelope (every \<open>Error\<close> is one:
  it has a message), or anything else. \<open>in\<close> asks for the field, whatever it holds: the flag.
\<close>

record rpc_fields =
  rf_has :: bool
  rf_message :: "string option"
  rf_code :: "string option"
  rf_context :: boot_context

datatype caught = CBoot boot_rpc_exception | CObject rpc_fields | COther json

definition extend_chain :: "string \<Rightarrow> string list option \<Rightarrow> string list" where
  "extend_chain serviceName chain = js_add serviceName (or_else chain [])"

definition first_known :: "'a option \<Rightarrow> 'a option \<Rightarrow> 'a option" where
  "first_known x y = (case x of None \<Rightarrow> y | Some v \<Rightarrow> Some v)"

definition isRpcEnvelope :: "caught \<Rightarrow> bool" where
  "isRpcEnvelope raw = (case raw of CBoot _ \<Rightarrow> True | CObject f \<Rightarrow> rf_has f | COther _ \<Rightarrow> False)"

definition enrich :: "string option \<Rightarrow> string \<Rightarrow> caught \<Rightarrow> caught" where
  "enrich correlationId serviceName raw = (case raw of
     CBoot x \<Rightarrow> CBoot (x\<lparr>br_context := (br_context x)\<lparr>
       bc_correlationId := first_known (bc_correlationId (br_context x)) correlationId,
       bc_upstreamChain := Some (extend_chain serviceName (bc_upstreamChain (br_context x)))\<rparr>\<rparr>)
   | CObject f \<Rightarrow> (if rf_has f then CBoot
       \<lparr>br_message = or_else (rf_message f) ''RPC call failed'', br_code = or_else (rf_code f) ''RPC_ERROR'',
        br_context = \<lparr>bc_service = Some (or_else (bc_service (rf_context f)) serviceName),
          bc_correlationId = first_known (bc_correlationId (rf_context f)) correlationId,
          bc_upstreamChain = Some (extend_chain serviceName (bc_upstreamChain (rf_context f))),
          bc_status = bc_status (rf_context f)\<rparr>\<rparr>
       else raw)
   | COther _ \<Rightarrow> raw)"

section \<open>What survives a hop\<close>

lemma spread_get [simp]:
  "jm_get (spread_def n v) k = (if k = n then v else None)"
  "jm_get (spread_if n v) k = (if k = n then (case v of Some x \<Rightarrow> if js_truthy x then Some x else None | None \<Rightarrow> None) else None)"
  by (auto simp: spread_def_def spread_if_def first_known_def split: option.split)

lemma envelope_json_prop:
  "js_prop (envelope_json e) ''statusCode'' = Some (JNum (eo_statusCode e))"
  "js_prop (envelope_json e) ''message'' = Some (eo_message e)"
  "js_prop (envelope_json e) ''error'' = Some (JStr (eo_error e))"
  "js_prop (envelope_json e) ''code'' = map_option JStr (eo_code e)"
  "js_prop (envelope_json e) ''details'' = map_option JArr (eo_details e)"
  "js_prop (envelope_json e) ''causes'' = None"
  "js_prop (envelope_json e) ''correlationId'' = map_option JStr (rv_correlationId e)"
  by (simp_all add: envelope_json_def map_add_def split: option.split)

text \<open>Both ways an envelope travels, as it is and inside a gRPC error, are read back as the same exception.\<close>

lemma deserialize_envelope:
  assumes "is_string (Some (eo_message e))"
  shows "deserializeRpcError env (TValue (envelope_json e)) = envelope_exception env (js_prop (envelope_json e))"
    and "rpc_env_ok env \<Longrightarrow> deserializeRpcError env (toGrpcError env e) = envelope_exception env (js_prop (envelope_json e))"
proof -
  have env: "isRpcErrorEnvelope (js_prop (envelope_json e))"
    using assms by (simp add: isRpcErrorEnvelope_def envelope_json_prop)
  moreover have p: "thrown_prop (TValue j) = js_prop j" for j by (rule ext) simp
  ultimately show "deserializeRpcError env (TValue (envelope_json e)) = envelope_exception env (js_prop (envelope_json e))"
    by (simp add: deserializeRpcError_def Let_def)
  assume "rpc_env_ok env"
  then have "er_parse env (er_stringify env (envelope_json e)) = Some (envelope_json e)" "er_stringify env (envelope_json e) \<noteq> []"
    unfolding rpc_env_ok_def by blast+
  then show "deserializeRpcError env (toGrpcError env e) = envelope_exception env (js_prop (envelope_json e))"
    using env by (simp add: deserializeRpcError_def toGrpcError_def p isRpcErrorEnvelope_def grpc_exception_def js_to_string_def Let_def)
qed

lemma rpc_envelope_code_not_empty: "eo_code (buildEnvelope env sv x) \<noteq> Some []"
  by (simp add: buildEnvelope_def drop_empty_code_def Let_def)

lemma rpc_envelope_correlation_not_empty: "rv_correlationId (buildEnvelope env sv x) \<noteq> Some []"
  by (simp add: buildEnvelope_def non_empty_def Let_def)

lemma envelope_exception_response:
  assumes "eo_code e \<noteq> Some []" and "rv_correlationId e \<noteq> Some []"
  shows "js_prop (hx_response (envelope_exception env (js_prop (envelope_json e)))) ''statusCode'' = Some (JNum (eo_statusCode e))"
    and "js_prop (hx_response (envelope_exception env (js_prop (envelope_json e)))) ''message'' = Some (JStr (string_of (Some (eo_message e))))"
    and "js_prop (hx_response (envelope_exception env (js_prop (envelope_json e)))) ''error'' = Some (JStr (eo_error e))"
    and "js_prop (hx_response (envelope_exception env (js_prop (envelope_json e)))) ''code'' = map_option JStr (eo_code e)"
    and "js_prop (hx_response (envelope_exception env (js_prop (envelope_json e)))) ''details'' = map_option JArr (eo_details e)"
    and "js_prop (hx_response (envelope_exception env (js_prop (envelope_json e)))) ''correlationId'' = map_option JStr (rv_correlationId e)"
    and "hx_status (envelope_exception env (js_prop (envelope_json e))) = eo_statusCode e"
    and "hx_code (envelope_exception env (js_prop (envelope_json e))) = None"
  using assms
  by (simp_all add: envelope_exception_def new_HttpException_def envelope_json_prop map_add_def split: option.split)


text \<open>C31. An error that a service reports, over the plain envelope or inside a gRPC error, becomes an exception with
  the same status, message, error and code, and the details and correlation id of the envelope; when that
  exception is reported by the next service, status, message, error and code are the same again, but the details
  are gone. A gRPC error whose details are not an envelope has only its code left: it carries exactly the
  status codes listed, and every other one arrives as 400 or 500.\<close>

theorem rpc_error_crosses_hops:
  assumes "rpc_env_ok env" and "e = buildEnvelope env serviceName x" and "is_string (Some (eo_message e))" and "eo_error e \<noteq> []"
    and "wire = TValue (envelope_json e) \<or> wire = toGrpcError env e" and "h = deserializeRpcError env wire"
    and "e2 = buildEnvelope env2 serviceName2 (THttp h)"
  shows "hx_status h = eo_statusCode e \<and> js_prop (hx_response h) ''message'' = Some (eo_message e) \<and>
    js_prop (hx_response h) ''details'' = map_option JArr (eo_details e) \<and>
    js_prop (hx_response h) ''correlationId'' = map_option JStr (rv_correlationId e) \<and>
    eo_statusCode e2 = eo_statusCode e \<and> eo_message e2 = eo_message e \<and> eo_error e2 = eo_error e \<and> eo_code e2 = eo_code e \<and>
    eo_details e2 = None \<and>
    grpcStatusToHttp (grpc_code (httpStatusToGrpc s)) =
      (if s \<in> {200, 400, 401, 403, 404, 408, 409, 412, 416, 429, 499, 500, 501, 503} then s else if s = 422 then 400 else 500)"
proof -
  have h: "h = envelope_exception env (js_prop (envelope_json e))"
    using deserialize_envelope[OF assms(3)] assms(1,5,6) by auto
  note r = envelope_exception_response[OF rpc_envelope_code_not_empty[of env serviceName x]
      rpc_envelope_correlation_not_empty[of env serviceName x], folded assms(2), of env, folded h]
  have m: "JStr (string_of (Some (eo_message e))) = eo_message e" using assms(3) by (cases "eo_message e") simp_all
  obtain resp where resp: "hx_response h = JObj resp" by (simp add: h envelope_exception_def new_HttpException_def)
  have g: "jm_get resp ''message'' = Some (eo_message e)" "jm_get resp ''error'' = Some (JStr (eo_error e))"
      "jm_get resp ''code'' = map_option JStr (eo_code e)"
    using r(2,3,4) m by (simp_all add: resp)
  obtain ms where ms: "eo_message e = JStr ms" using m by metis
  have c: "eo_code e \<noteq> Some []" unfolding assms(2) by (rule rpc_envelope_code_not_empty)
  have "eo_statusCode e2 = eo_statusCode e \<and> eo_message e2 = eo_message e \<and> eo_error e2 = eo_error e \<and> eo_code e2 = eo_code e \<and> eo_details e2 = None"
    using c r(7,8) assms(4)
    by (cases "eo_code e") (simp_all add: assms(7) buildEnvelope_def rpc_error_object_def http_error_object_def Let_def resp g ms
        drop_empty_code_def js_nullish_def unknown_error_def)
  moreover have "grpcStatusToHttp (grpc_code (httpStatusToGrpc s)) =
      (if s \<in> {200, 400, 401, 403, 404, 408, 409, 412, 416, 429, 499, 500, 501, 503} then s else if s = 422 then 400 else 500)"
    by (simp add: httpStatusToGrpc_def httpToGrpc_def grpcStatusToHttp_def grpcToHttp_def)
  ultimately show ?thesis using r(2,5,6,7) m by simp
qed


instance json :: countable
  by countable_datatype

text \<open>An environment with a text for every JSON value, its number in unary.\<close>

definition unary_env :: rpc_env where
  "unary_env = \<lparr>er_init = (\<lambda>_. []), er_stringify = (\<lambda>j. replicate (Suc (to_nat j)) CHR ''x''),
     er_parse = (\<lambda>s. Some (from_nat (length s - 1))), er_string = (\<lambda>_. []), er_correlationId = Some ''c-1'', er_now = ''now''\<rparr>"

lemma unary_env_ok: "rpc_env_ok unary_env"
  by (simp add: rpc_env_ok_def unary_env_def)

abbreviation out_of_stock :: thrown where
  "out_of_stock \<equiv> THttp (new_BootException unary_env ''Out of stock''
     (Some \<lparr>bo_code = Some ''NO_STOCK'', bo_status = Some 409, bo_details = None\<rparr>))"

theorem rpc_error_crosses_hops_witness:
  "hx_status (deserializeRpcError unary_env (toGrpcError unary_env (buildEnvelope unary_env (Some ''orders'') out_of_stock))) = 409 \<and>
   eo_code (buildEnvelope unary_env (Some ''gateway'')
     (THttp (deserializeRpcError unary_env (toGrpcError unary_env (buildEnvelope unary_env (Some ''orders'') out_of_stock))))) = Some ''NO_STOCK''"
proof -
  let ?e = "buildEnvelope unary_env (Some ''orders'') out_of_stock"
  have e: "eo_statusCode ?e = 409" "eo_message ?e = JStr ''Out of stock''" "eo_error ?e = ''BootException''" "eo_code ?e = Some ''NO_STOCK''"
    by (simp_all add: buildEnvelope_def rpc_error_object_def http_error_object_def new_BootException_def Let_def spread_if_def
        spread_def_def drop_empty_code_def js_nullish_def unknown_error_def)
  have "is_string (Some (eo_message ?e))" "eo_error ?e \<noteq> []" by (simp_all add: e)
  from rpc_error_crosses_hops[OF unary_env_ok refl this disjI2[OF refl] refl refl, where ?serviceName2.0 = "Some ''gateway''"
      and ?env2.0 = unary_env and s = 409]
  show ?thesis unfolding e by (elim conjE) (intro conjI, assumption+)
qed

lemma http_response_of_boot_exception:
  assumes "message \<noteq> []"
  shows "buildErrorObject (THttp (new_BootException env message (Some \<lparr>bo_code = Some code, bo_status = Some status, bo_details = details\<rparr>))) =
    \<lparr>eo_statusCode = status, eo_message = JStr message, eo_error = ''BootException'', eo_code = non_empty (Some code), eo_details = None\<rparr>"
  using assms
  by (simp add: buildErrorObject_def http_error_object_def new_BootException_def Let_def spread_if_def spread_def_def
      drop_empty_code_def js_nullish_def unknown_error_def non_empty_def split: option.split)

text \<open>What a client sees of a database error: a validation error answers 422 with the names of the fields, a
  duplicate key 409, both with their code and without the details the transformer collected; every other
  error answers 500 with its own message.\<close>

theorem mongoose_errors_reach_clients:
  "buildErrorObject (mongoose_intercept env err) =
    (if je_name err = ''ValidationError'' \<and> je_errors err \<noteq> None then
       \<lparr>eo_statusCode = 422, eo_message = JStr (''Validation failed: '' @ js_join '', '' (map fst (or_else (je_errors err) []))),
        eo_error = ''BootException'', eo_code = Some ''DB_VALIDATION_FAILED'', eo_details = None\<rparr>
     else if je_name err = ''MongoServerError'' \<and> je_code err = Some (JNum 11000) then
       \<lparr>eo_statusCode = 409, eo_message = JStr (''Duplicate key: '' @
          (if or_else (je_keyValue err) [] = [] then ''unknown field'' else js_join '', '' (map fst (or_else (je_keyValue err) []))) @ '' already exists''),
        eo_error = ''BootException'', eo_code = Some ''DB_DUPLICATE_KEY'', eo_details = None\<rparr>
     else \<lparr>eo_statusCode = 500, eo_message = JStr (je_message err), eo_error = ''InternalServerError'', eo_code = None, eo_details = None\<rparr>)"
  by (simp add: mongoose_intercept_def transformMongooseError_def http_response_of_boot_exception non_empty_def Let_def)
    (simp add: buildErrorObject_def unknown_error_def INTERNAL_SERVER_ERROR_def)

lemma problem_of_boot_exception:
  assumes "message \<noteq> []" and "code \<noteq> []" and "message \<noteq> problem_title status"
  shows "toProblemDetails (Inl (new_BootException env message (Some \<lparr>bo_code = Some code, bo_status = Some status, bo_details = Some details\<rparr>))) inst None =
    \<lparr>pd_type = ''about:blank#'' @ code, pd_title = problem_title status, pd_status = status, pd_detail = Some message,
     pd_instance = non_empty inst, pd_code = Some code, pd_details = (if details = [] then None else Some details)\<rparr>"
  using assms
  by (simp add: toProblemDetails_def exception_problem_def new_BootException_def Let_def spread_if_def spread_def_def non_empty_def
      buildTypeUri_def DEFAULT_PROBLEM_BASE_URI_def)

text \<open>Along a chain of services every service is named once, in the order the error passed them; the message, the code,
  the origin and the first known correlation id stay.\<close>

lemma enrich_boot_chain:
  "\<exists>y. fold (\<lambda>(c, sv). enrich c sv) hops (CBoot x) = CBoot y \<and> br_message y = br_message x \<and> br_code y = br_code x \<and>
    bc_service (br_context y) = bc_service (br_context x) \<and> bc_status (br_context y) = bc_status (br_context x) \<and>
    bc_correlationId (br_context y) = foldl first_known (bc_correlationId (br_context x)) (map fst hops) \<and>
    (hops \<noteq> [] \<longrightarrow> bc_upstreamChain (br_context y) = Some (js_add_all (map snd hops) (or_else (bc_upstreamChain (br_context x)) []))) \<and>
    (hops = [] \<longrightarrow> y = x)"
proof (induction hops arbitrary: x)
  case (Cons h hops)
  obtain c sv where h: "h = (c, sv)" by (cases h)
  let ?x = "x\<lparr>br_context := (br_context x)\<lparr>bc_correlationId := first_known (bc_correlationId (br_context x)) c,
       bc_upstreamChain := Some (extend_chain sv (bc_upstreamChain (br_context x)))\<rparr>\<rparr>"
  have e: "enrich c sv (CBoot x) = CBoot ?x" by (simp add: enrich_def)
  from Cons.IH[of ?x] obtain y where y: "fold (\<lambda>(c, sv). enrich c sv) hops (CBoot ?x) = CBoot y" "br_message y = br_message x" "br_code y = br_code x"
      "bc_service (br_context y) = bc_service (br_context x)" "bc_status (br_context y) = bc_status (br_context x)"
      "bc_correlationId (br_context y) = foldl first_known (first_known (bc_correlationId (br_context x)) c) (map fst hops)"
      "hops \<noteq> [] \<Longrightarrow> bc_upstreamChain (br_context y) = Some (js_add_all (map snd hops) (extend_chain sv (bc_upstreamChain (br_context x))))"
      "hops = [] \<Longrightarrow> y = ?x"
    by auto
  have "bc_upstreamChain (br_context y) = Some (js_add_all (map snd (h # hops)) (or_else (bc_upstreamChain (br_context x)) []))"
    using y(7,8) by (cases "hops = []") (simp_all add: h extend_chain_def js_add_all_def)
  then show ?case using y(1-6) by (intro exI[of _ y]) (simp add: h e)
qed simp

theorem error_chain_lists_services:
  assumes "rf_has f"
  shows "\<exists>x. fold (\<lambda>(c, sv). enrich c sv) ((c0, s0) # hops) (CObject f) = CBoot x \<and>
    br_message x = or_else (rf_message f) ''RPC call failed'' \<and> br_code x = or_else (rf_code f) ''RPC_ERROR'' \<and>
    bc_service (br_context x) = Some (or_else (bc_service (rf_context f)) s0) \<and>
    bc_correlationId (br_context x) = foldl first_known (bc_correlationId (rf_context f)) (c0 # map fst hops) \<and>
    bc_upstreamChain (br_context x) = Some (js_add_all (s0 # map snd hops) (or_else (bc_upstreamChain (rf_context f)) []))"
proof -
  let ?x = "\<lparr>br_message = or_else (rf_message f) ''RPC call failed'', br_code = or_else (rf_code f) ''RPC_ERROR'',
        br_context = \<lparr>bc_service = Some (or_else (bc_service (rf_context f)) s0),
          bc_correlationId = first_known (bc_correlationId (rf_context f)) c0,
          bc_upstreamChain = Some (extend_chain s0 (bc_upstreamChain (rf_context f))), bc_status = bc_status (rf_context f)\<rparr>\<rparr>"
  have e: "enrich c0 s0 (CObject f) = CBoot ?x" using assms by (simp add: enrich_def)
  from enrich_boot_chain[of hops ?x] obtain y where y: "fold (\<lambda>(c, sv). enrich c sv) hops (CBoot ?x) = CBoot y"
      "br_message y = br_message ?x" "br_code y = br_code ?x" "bc_service (br_context y) = bc_service (br_context ?x)"
      "bc_correlationId (br_context y) = foldl first_known (bc_correlationId (br_context ?x)) (map fst hops)"
      "hops \<noteq> [] \<Longrightarrow> bc_upstreamChain (br_context y) = Some (js_add_all (map snd hops) (or_else (bc_upstreamChain (br_context ?x)) []))"
      "hops = [] \<Longrightarrow> y = ?x"
    by blast
  have "bc_upstreamChain (br_context y) = Some (js_add_all (s0 # map snd hops) (or_else (bc_upstreamChain (rf_context f)) []))"
    using y(6,7) by (cases "hops = []") (simp_all add: extend_chain_def js_add_all_def)
  then show ?thesis using y(1-5) by (intro exI[of _ y]) (simp add: e)
qed

end
