(* ===== verification/Migrations.thy ===== *)
theory Migrations
  imports Boot_Prelude "HOL-Library.Sorting_Algorithms" "HOL-Library.Char_ord" "HOL-Library.List_Lexorder"
begin

text \<open>
  \<open>database/migrations/migration.runner.ts\<close>: pending migrations run in the order of their versions, and each one
  that succeeded is recorded in a tracking collection. The database is a state that a migration changes
  even when it fails; the collection is the list of its records, and whether it can be written is asked of
  the database. \<open>localeCompare\<close> is a comparator, an argument. Durations are left out.
\<close>

record 'w migration =
  mg_version :: string
  mg_name :: string
  mg_up :: "'w \<Rightarrow> string option \<times> 'w"
  mg_down :: "('w \<Rightarrow> string option \<times> 'w) option"

datatype migration_status = Applied | RolledBack | Skipped | Failed

record migration_result =
  ms_version :: string
  ms_name :: string
  ms_status :: migration_status
  ms_error :: "string option"

record migration_record =
  rc_version :: string
  rc_name :: string
  rc_appliedAt :: int

type_synonym 'w migration_db = "'w \<times> migration_record list"

record 'w migration_runner =
  mr_migrations :: "'w migration list"
  mr_compare :: "string comparator"
  mr_writable :: "'w \<Rightarrow> bool"

definition appliedVersions :: "'w migration_db \<Rightarrow> string list" where
  "appliedVersions db = map rc_version (snd db)"

definition sorted_migrations :: "'w migration_runner \<Rightarrow> 'w migration list" where
  "sorted_migrations mr = Sorting_Algorithms.sort (key mg_version (mr_compare mr)) (mr_migrations mr)"

definition migration_outcome :: "'w migration \<Rightarrow> migration_status \<Rightarrow> string option \<Rightarrow> migration_result" where
  "migration_outcome m st err = \<lparr>ms_version = mg_version m, ms_name = mg_name m, ms_status = st, ms_error = err\<rparr>"

fun migrate_each :: "'w migration_runner \<Rightarrow> int \<Rightarrow> 'w migration list \<Rightarrow> 'w migration_db \<Rightarrow> migration_result list \<times> 'w migration_db" where
  "migrate_each mr now [] db = ([], db)"
| "migrate_each mr now (m # ms) (w, recs) = (case mg_up m w of
     (Some err, w) \<Rightarrow> ([migration_outcome m Failed (Some err)], (w, recs))
   | (None, w) \<Rightarrow>
       if mr_writable mr w then
         (case migrate_each mr now ms (w, recs @ [\<lparr>rc_version = mg_version m, rc_name = mg_name m, rc_appliedAt = now\<rparr>]) of
            (results, db) \<Rightarrow> (migration_outcome m Applied None # results, db))
       else ([migration_outcome m Failed (Some ''write failed'')], (w, recs)))"

definition pending_migrations :: "'w migration_runner \<Rightarrow> 'w migration_db \<Rightarrow> 'w migration list" where
  "pending_migrations mr db = filter (\<lambda>m. mg_version m \<notin> set (appliedVersions db)) (sorted_migrations mr)"

definition migrate :: "'w migration_runner \<Rightarrow> int \<Rightarrow> 'w migration_db \<Rightarrow> migration_result list \<times> 'w migration_db" where
  "migrate mr now db = migrate_each mr now (pending_migrations mr db) db"

text \<open>\<open>deleteOne({ version })\<close>: the first record of the version.\<close>

fun delete_record :: "string \<Rightarrow> migration_record list \<Rightarrow> migration_record list" where
  "delete_record v [] = []"
| "delete_record v (r # rs) = (if rc_version r = v then rs else r # delete_record v rs)"

fun rollback_each :: "'w migration_runner \<Rightarrow> 'w migration list \<Rightarrow> 'w migration_db \<Rightarrow> migration_result list \<times> 'w migration_db" where
  "rollback_each mr [] db = ([], db)"
| "rollback_each mr (m # ms) (w, recs) = (case mg_down m of
     None \<Rightarrow> (case rollback_each mr ms (w, recs) of
       (results, db) \<Rightarrow> (migration_outcome m Skipped (Some ''No down() method defined'') # results, db))
   | Some down \<Rightarrow> (case down w of
       (Some err, w) \<Rightarrow> ([migration_outcome m Failed (Some err)], (w, recs))
     | (None, w) \<Rightarrow>
         if mr_writable mr w then
           (case rollback_each mr ms (w, delete_record (mg_version m) recs) of
              (results, db) \<Rightarrow> (migration_outcome m RolledBack None # results, db))
         else ([migration_outcome m Failed (Some ''write failed'')], (w, recs))))"

text \<open>\<open>slice(0, count)\<close>: a negative count leaves out as many at the end.\<close>

definition slice_count :: "int \<Rightarrow> 'a list \<Rightarrow> 'a list" where
  "slice_count n xs = take (if n < 0 then nat (int (length xs) + n) else nat n) xs"

definition rollback :: "'w migration_runner \<Rightarrow> int option \<Rightarrow> 'w migration_db \<Rightarrow> migration_result list \<times> 'w migration_db" where
  "rollback mr n db = rollback_each mr
     (slice_count (or_else n 1) (rev (filter (\<lambda>m. mg_version m \<in> set (appliedVersions db)) (sorted_migrations mr)))) db"

record migration_state =
  mt_version :: string
  mt_name :: string
  mt_appliedAt :: "int option"
  mt_pending :: bool

definition record_map :: "migration_record list \<Rightarrow> (string, int) jsmap" where
  "record_map records = fold (\<lambda>r m. jm_set m (rc_version r) (rc_appliedAt r)) records []"

definition status_of :: "'w migration_runner \<Rightarrow> 'w migration_db \<Rightarrow> migration_state list" where
  "status_of mr db = map (\<lambda>m. \<lparr>mt_version = mg_version m, mt_name = mg_name m,
       mt_appliedAt = jm_get (record_map (snd db)) (mg_version m), mt_pending = (\<not> jm_has (record_map (snd db)) (mg_version m))\<rparr>)
     (sorted_migrations mr)"

section \<open>Running\<close>

lemma migrate_each_runs_prefix:
  "\<exists>k. k \<le> length ms \<and> map ms_status (fst (migrate_each mr now ms db)) = replicate k Applied @ (if k < length ms then [Failed] else []) \<and>
     map ms_version (fst (migrate_each mr now ms db)) = map mg_version (take (length (fst (migrate_each mr now ms db))) ms) \<and>
     appliedVersions (snd (migrate_each mr now ms db)) = appliedVersions db @ map mg_version (take k ms)"
proof (induction mr now ms db rule: migrate_each.induct)
  case (2 mr now m ms w recs)
  show ?case
  proof (cases "fst (mg_up m w) = None \<and> mr_writable mr (snd (mg_up m w))")
    case False
    then have *: "\<exists>err w'. migrate_each mr now (m # ms) (w, recs) = ([migration_outcome m Failed err], (w', recs))"
      by (cases "mg_up m w"; cases "fst (mg_up m w)") auto
    then obtain err w' where "migrate_each mr now (m # ms) (w, recs) = ([migration_outcome m Failed err], (w', recs))" by blast
    then show ?thesis by (intro exI[of _ 0]) (simp add: migration_outcome_def appliedVersions_def)
  next
    case True
    then obtain w' where u: "mg_up m w = (None, w')" "mr_writable mr w'" by (cases "mg_up m w") auto
    obtain rs db' where r: "migrate_each mr now ms (w', recs @ [\<lparr>rc_version = mg_version m, rc_name = mg_name m, rc_appliedAt = now\<rparr>]) = (rs, db')"
      by (metis surj_pair)
    from 2[OF u(1)[symmetric] refl u(2)] obtain k where "k \<le> length ms" "map ms_status rs = replicate k Applied @ (if k < length ms then [Failed] else [])"
        "map ms_version rs = map mg_version (take (length rs) ms)" "appliedVersions db' = appliedVersions (w, recs) @ mg_version m # map mg_version (take k ms)"
      by (auto simp: r appliedVersions_def)
    then show ?thesis by (intro exI[of _ "Suc k"]) (simp add: u r migration_outcome_def)
  qed
qed simp


lemma migrate_each_all:
  assumes "\<forall>r \<in> set (fst (migrate_each mr now ms db)). ms_status r = Applied"
  shows "appliedVersions (snd (migrate_each mr now ms db)) = appliedVersions db @ map mg_version ms"
proof -
  obtain k where k: "k \<le> length ms" "map ms_status (fst (migrate_each mr now ms db)) = replicate k Applied @ (if k < length ms then [Failed] else [])"
      "appliedVersions (snd (migrate_each mr now ms db)) = appliedVersions db @ map mg_version (take k ms)"
    using migrate_each_runs_prefix by blast
  have "Failed \<notin> set (map ms_status (fst (migrate_each mr now ms db)))" using assms by auto
  then have "k = length ms" using k(1) unfolding k(2) by (cases "k < length ms") simp_all
  then show ?thesis using k(3) by simp
qed

section \<open>Rolling back\<close>

lemma rollback_each_append:
  assumes "rollback_each mr xs db = (rs, db1)" and "\<forall>r \<in> set rs. ms_status r \<noteq> Failed"
  shows "rollback_each mr (xs @ ys) db = (rs @ fst (rollback_each mr ys db1), snd (rollback_each mr ys db1))"
  using assms
proof (induction xs arbitrary: db rs)
  case (Cons m xs)
  obtain w recs where db: "db = (w, recs)" by (cases db)
  show ?case
  proof (cases "mg_down m")
    case None
    obtain rs' where r: "rollback_each mr xs (w, recs) = (rs', db1)" "rs = migration_outcome m Skipped (Some ''No down() method defined'') # rs'"
      using Cons.prems(1) by (cases "rollback_each mr xs (w, recs)") (simp add: db None)
    then show ?thesis using Cons.IH[OF r(1)] Cons.prems(2) by (simp add: db None)
  next
    case (Some down)
    obtain err w' where d: "down w = (err, w')" by (cases "down w")
    have ok: "err = None \<and> mr_writable mr w'"
      using Cons.prems by (cases err; cases "mr_writable mr w'") (auto simp: db Some d migration_outcome_def)
    obtain rs' where r: "rollback_each mr xs (w', delete_record (mg_version m) recs) = (rs', db1)" "rs = migration_outcome m RolledBack None # rs'"
      using Cons.prems(1) ok by (cases "rollback_each mr xs (w', delete_record (mg_version m) recs)") (simp add: db Some d)
    then show ?thesis using Cons.IH[OF r(1)] Cons.prems(2) ok by (simp add: db Some d)
  qed
qed simp

lemma delete_record_end: "rc_version r \<notin> set (map rc_version recs) \<Longrightarrow> delete_record (rc_version r) (recs @ [r]) = recs"
  by (induction recs) auto

text \<open>\<open>down\<close> undoes \<open>up\<close>, and the collection can be written.\<close>

definition reversible :: "'w migration_runner \<Rightarrow> 'w migration \<Rightarrow> bool" where
  "reversible mr m \<longleftrightarrow> (\<exists>down. mg_down m = Some down \<and>
     (\<forall>w w1. mg_up m w = (None, w1) \<longrightarrow> down w1 = (None, w) \<and> mr_writable mr w))"

lemma rollback_each_undoes:
  assumes "list_all (reversible mr) ms" and "distinct (map mg_version ms)" and "set (map mg_version ms) \<inter> set (appliedVersions db) = {}"
    and "\<forall>r \<in> set (fst (migrate_each mr now ms db)). ms_status r = Applied"
  shows "rollback_each mr (rev ms) (snd (migrate_each mr now ms db)) = (map (\<lambda>m. migration_outcome m RolledBack None) (rev ms), db)"
  using assms
proof (induction ms arbitrary: db)
  case (Cons m ms)
  obtain w recs where db: "db = (w, recs)" by (cases db)
  let ?r = "\<lparr>rc_version = mg_version m, rc_name = mg_name m, rc_appliedAt = now\<rparr>"
  obtain err w1 where u: "mg_up m w = (err, w1)" by (cases "mg_up m w")
  have ok: "err = None \<and> mr_writable mr w1"
    using Cons.prems(4) by (cases err; cases "mr_writable mr w1") (auto simp: db u migration_outcome_def)
  let ?db1 = "(w1, recs @ [?r])"
  have step: "migrate_each mr now (m # ms) db = (migration_outcome m Applied None # fst (migrate_each mr now ms ?db1), snd (migrate_each mr now ms ?db1))"
    using ok by (simp add: db u split: prod.split)
  have "rollback_each mr (rev ms) (snd (migrate_each mr now ms ?db1)) = (map (\<lambda>m. migration_outcome m RolledBack None) (rev ms), ?db1)"
  proof (rule Cons.IH)
    show "\<forall>r \<in> set (fst (migrate_each mr now ms ?db1)). ms_status r = Applied" using Cons.prems(4) unfolding step by simp
  qed (use Cons.prems in \<open>auto simp: appliedVersions_def db\<close>)
  note * = rollback_each_append[OF this, of "[m]"]
  obtain down where d: "mg_down m = Some down" "down w1 = (None, w)" "mr_writable mr w"
    using Cons.prems(1) u ok unfolding reversible_def by auto
  have "delete_record (mg_version m) (recs @ [?r]) = recs"
    using delete_record_end[of ?r recs] Cons.prems(3) by (simp add: appliedVersions_def db)
  then have "rollback_each mr [m] ?db1 = ([migration_outcome m RolledBack None], db)" by (simp add: d db)
  then show ?case using * unfolding step by (simp add: migration_outcome_def)
qed simp

lemma pending_after_migrate:
  assumes "\<forall>r \<in> set (fst (migrate mr now db)). ms_status r = Applied"
  shows "pending_migrations mr (snd (migrate mr now db)) = []"
  using migrate_each_all[OF assms[unfolded migrate_def]]
  by (auto simp: migrate_def pending_migrations_def filter_empty_conv)


definition counting :: "string \<Rightarrow> nat migration" where
  "counting v = \<lparr>mg_version = v, mg_name = v, mg_up = (\<lambda>w. (None, w + 1)), mg_down = Some (\<lambda>w. (None, w - 1))\<rparr>"

definition counting_runner :: "nat migration_runner" where
  "counting_runner = \<lparr>mr_migrations = [counting ''2'', counting ''1''], mr_compare = default, mr_writable = (\<lambda>_. True)\<rparr>"


text \<open>A migration without \<open>down\<close> is passed over, and an older one is rolled back under it.\<close>

lemma rollback_passes_over:
  assumes "sorted_migrations mr = [a, b]" and "mg_version a \<noteq> mg_version b" and "mg_down b = None" and "mg_down a = Some down"
    and "down w = (None, w1)" and "mr_writable mr w1" and "map rc_version recs = [mg_version a, mg_version b]"
  shows "\<exists>r. rollback mr (Some 2) (w, recs) =
    ([migration_outcome b Skipped (Some ''No down() method defined''), migration_outcome a RolledBack None], (w1, [r])) \<and> rc_version r = mg_version b"
proof -
  obtain r1 r2 where "recs = [r1, r2]" "rc_version r1 = mg_version a" "rc_version r2 = mg_version b" using assms(7) by (auto simp: map_eq_Cons_conv)
  then show ?thesis using assms by (simp add: rollback_def appliedVersions_def slice_count_def)
qed

end
