(* ===== verification/Content_References.thy ===== *)
theory Content_References
  imports Content_Entries Content_Types Js_Text
begin

text \<open>
  \<open>content/services/content-reference.service.ts\<close>: references in the data of an entry are replaced by the
  published entries they name, to a bounded depth. The rows and the types come from the database clients
  of \<open>Content_Entries\<close> and \<open>Content_Types\<close>; the service only reads. \<open>None\<close> is a call that throws, for an id that
  is not a string. The field names of a type are distinct, so no field is resolved twice.
\<close>

section \<open>Resolved data\<close>

text \<open>A value of the resolved data: one of the stored values, \<open>null\<close> for a reference that is not found, an entry with
  its own (resolved) data, or the list of resolved references.\<close>

datatype ref_value = VPlain "json content_value" | VNull | VEntry "json content_entry" "(string \<times> ref_value) list" | VMany "ref_value list"

type_synonym ref_data = "(string, ref_value) jsmap"

record 's ref_env =
  rn_entries :: "(json, 's) content_db"
  rn_types :: "'s type_db"
  rn_maxPopulateDepth :: "nat option"

definition rn_maxDepth :: "'s ref_env \<Rightarrow> nat" where
  "rn_maxDepth env = or_else (rn_maxPopulateDepth env) 3"

definition plain_data :: "json content_entry \<Rightarrow> ref_data" where
  "plain_data e = map (\<lambda>(k, v). (k, VPlain v)) (en_data e)"

definition is_populated :: "string list option \<Rightarrow> field_def \<Rightarrow> bool" where
  "is_populated populateFields f \<longleftrightarrow> fd_type f = ''reference'' \<and>
     (case populateFields of None \<Rightarrow> True | Some ps \<Rightarrow> ''*'' \<in> set ps \<or> fd_name f \<in> set ps)"

text \<open>\<open>nested\<close> resolves the data of an entry one level deeper, when the depth and \<open>populateFields\<close> allow it.\<close>

definition resolveId :: "'s ref_env \<Rightarrow> 's \<Rightarrow> (json content_entry \<Rightarrow> content_type \<Rightarrow> ref_data option) option \<Rightarrow> string \<Rightarrow> ref_value option" where
  "resolveId env s nested i = (case db_findFirst (rn_entries env) (\<lambda>e. en_id e = i \<and> en_status e = PUBLISHED) s of
     None \<Rightarrow> Some VNull
   | Some entry \<Rightarrow> (case nested of
       None \<Rightarrow> Some (VEntry entry (plain_data entry))
     | Some deeper \<Rightarrow> (case td_findFirst (rn_types env) (\<lambda>t. ct_id t = en_contentTypeId entry) s of
         None \<Rightarrow> Some (VEntry entry (plain_data entry))
       | Some ct \<Rightarrow> map_option (VEntry entry) (deeper entry ct))))"

fun resolveIds :: "(string \<Rightarrow> ref_value option) \<Rightarrow> json list \<Rightarrow> ref_value list option" where
  "resolveIds one [] = Some []"
| "resolveIds one (j # js) = (case j of
     JStr i \<Rightarrow> (case one i of None \<Rightarrow> None | Some v \<Rightarrow> map_option (\<lambda>vs. v # vs) (resolveIds one js))
   | _ \<Rightarrow> None)"

definition resolve_field :: "(string \<Rightarrow> ref_value option) \<Rightarrow> field_def \<Rightarrow> ref_data \<Rightarrow> ref_data option" where
  "resolve_field one f d = (case jm_get d (fd_name f) of
     Some (VPlain (CText i)) \<Rightarrow> (if i = [] then Some d else map_option (jm_set d (fd_name f)) (one i))
   | Some (VPlain (COther (JArr ids))) \<Rightarrow>
       (if fd_multiple f then map_option (\<lambda>vs. jm_set d (fd_name f) (VMany vs)) (resolveIds one ids) else Some d)
   | _ \<Rightarrow> Some d)"

fun resolve_fields :: "(string \<Rightarrow> ref_value option) \<Rightarrow> field_def list \<Rightarrow> ref_data \<Rightarrow> ref_data option" where
  "resolve_fields one [] d = Some d"
| "resolve_fields one (f # fs) d = (case resolve_field one f d of None \<Rightarrow> None | Some d1 \<Rightarrow> resolve_fields one fs d1)"

text \<open>\<open>resolveReferences\<close> at depth \<open>d\<close>, by the number \<open>maxDepth - d\<close> of levels that are left: at 0 the entry is returned
  as it is, and the nested call is made only while a level is left below and the fields to populate are given.\<close>

fun resolve_levels :: "'s ref_env \<Rightarrow> 's \<Rightarrow> string list option \<Rightarrow> nat \<Rightarrow> json content_entry \<Rightarrow> content_type \<Rightarrow> ref_data option" where
  "resolve_levels env s populateFields 0 entry ct = Some (plain_data entry)"
| "resolve_levels env s populateFields (Suc n) entry ct =
     (let refFields = filter (is_populated populateFields) (ct_fields ct)
      in if refFields = [] then Some (plain_data entry)
         else resolve_fields (resolveId env s (if 0 < n \<and> populateFields \<noteq> None then Some (resolve_levels env s populateFields n) else None))
           refFields (plain_data entry))"

definition resolveReferences :: "'s ref_env \<Rightarrow> 's \<Rightarrow> string list option \<Rightarrow> nat \<Rightarrow> json content_entry \<Rightarrow> content_type \<Rightarrow> ref_value option" where
  "resolveReferences env s populateFields depth entry ct =
     map_option (VEntry entry) (resolve_levels env s populateFields (rn_maxDepth env - depth) entry ct)"

fun resolveMany :: "'s ref_env \<Rightarrow> 's \<Rightarrow> (string, content_type) jsmap \<Rightarrow> string list option \<Rightarrow> json content_entry list \<Rightarrow> ref_value list option" where
  "resolveMany env s contentTypes populateFields [] = Some []"
| "resolveMany env s contentTypes populateFields (e # es) =
     (case (case jm_get contentTypes (en_contentTypeId e) of None \<Rightarrow> Some (VEntry e (plain_data e))
            | Some ct \<Rightarrow> resolveReferences env s populateFields 0 e ct) of
        None \<Rightarrow> None | Some v \<Rightarrow> map_option (\<lambda>vs. v # vs) (resolveMany env s contentTypes populateFields es))"

section \<open>How deep, and what is embedded\<close>

fun ref_depth :: "ref_value \<Rightarrow> nat" where
  "ref_depth (VPlain _) = 0"
| "ref_depth VNull = 0"
| "ref_depth (VEntry _ d) = Suc (foldr max (map (\<lambda>(k, v). ref_depth v) d) 0)"
| "ref_depth (VMany vs) = foldr max (map ref_depth vs) 0"

fun ref_all :: "(json content_entry \<Rightarrow> bool) \<Rightarrow> ref_value \<Rightarrow> bool" where
  "ref_all P (VPlain _) = True"
| "ref_all P VNull = True"
| "ref_all P (VEntry e d) \<longleftrightarrow> P e \<and> list_all (\<lambda>(k, v). ref_all P v) d"
| "ref_all P (VMany vs) \<longleftrightarrow> list_all (ref_all P) vs"

text \<open>A bound on the depth of the values of some data, and a property of the entries in it, together.\<close>

definition bounded :: "nat \<Rightarrow> (json content_entry \<Rightarrow> bool) \<Rightarrow> ref_value \<Rightarrow> bool" where
  "bounded n P v \<longleftrightarrow> ref_depth v \<le> n \<and> ref_all P v"

lemma foldr_max_le: "foldr max xs 0 \<le> (n :: nat) \<longleftrightarrow> list_all (\<lambda>x. x \<le> n) xs"
  by (induction xs) auto

lemma bounded_simps [simp]:
  "bounded n P (VPlain v)" "bounded n P VNull"
  "bounded 0 P (VEntry e d) \<longleftrightarrow> False"
  "bounded (Suc n) P (VEntry e d) \<longleftrightarrow> P e \<and> list_all (\<lambda>(k, v). bounded n P v) d"
  "bounded n P (VMany vs) \<longleftrightarrow> list_all (bounded n P) vs"
  by (auto simp: bounded_def foldr_max_le list_all_iff)

lemma list_all_jm_set: "list_all (\<lambda>(k, v). Q v) d \<Longrightarrow> Q v \<Longrightarrow> list_all (\<lambda>(k, v). Q v) (jm_set d k v)"
  by (induction d) auto

lemma plain_data_bounded [simp]: "list_all (\<lambda>(k, v). bounded n P v) (plain_data e)"
  by (auto simp: plain_data_def list_all_iff)

lemma resolveIds_bounded:
  "(\<And>i v. one i = Some v \<Longrightarrow> bounded n P v) \<Longrightarrow> resolveIds one js = Some vs \<Longrightarrow> list_all (bounded n P) vs"
  by (induction js arbitrary: vs) (auto split: json.splits option.splits)

lemma resolve_fields_bounded:
  assumes one: "\<And>i v. one i = Some v \<Longrightarrow> bounded n P v"
  shows "resolve_fields one fs d = Some d' \<Longrightarrow> list_all (\<lambda>(k, v). bounded n P v) d \<Longrightarrow> list_all (\<lambda>(k, v). bounded n P v) d'"
proof (induction fs arbitrary: d)
  case (Cons f fs)
  from Cons.prems(1) obtain d1 where d1: "resolve_field one f d = Some d1" "resolve_fields one fs d1 = Some d'"
    by (auto split: option.splits)
  have "list_all (\<lambda>(k, v). bounded n P v) d1"
    using d1(1) Cons.prems(2) one resolveIds_bounded[OF one]
    by (auto simp: resolve_field_def split: option.splits ref_value.splits content_value.splits json.splits if_splits intro!: list_all_jm_set)
  then show ?case by (rule Cons.IH[OF d1(2)])
qed simp

lemma resolve_levels_bounded:
  assumes P: "\<And>i e. db_findFirst (rn_entries env) (\<lambda>e. en_id e = i \<and> en_status e = PUBLISHED) s = Some e \<Longrightarrow> P e"
  shows "resolve_levels env s ps n e ct = Some d \<Longrightarrow> list_all (\<lambda>(k, v). bounded (if ps = None then min n 1 else n) P v) d"
proof (induction n arbitrary: e ct d)
  case (Suc n)
  let ?nested = "if 0 < n \<and> ps \<noteq> None then Some (resolve_levels env s ps n) else None"
  have one: "bounded (if ps = None then 1 else Suc n) P v" if r: "resolveId env s ?nested i = Some v" for i v
  proof (cases "db_findFirst (rn_entries env) (\<lambda>e. en_id e = i \<and> en_status e = PUBLISHED) s")
    case (Some x)
    then have x: "P x" by (rule P)
    have plain: "bounded (if ps = None then 1 else Suc n) P (VEntry x (plain_data x))" using x by simp
    show ?thesis
    proof (cases "0 < n \<and> ps \<noteq> None \<and> td_findFirst (rn_types env) (\<lambda>t. ct_id t = en_contentTypeId x) s \<noteq> None")
      case True
      then obtain ct' d' p where d': "resolve_levels env s ps n x ct' = Some d'" "v = VEntry x d'" "ps = Some p"
        using r by (auto simp: resolveId_def Some)
      show ?thesis using Suc.IH[OF d'(1)] x by (simp add: d'(2,3))
    next
      case False
      then have "v = VEntry x (plain_data x)" using r by (auto simp: resolveId_def Some split: if_splits)
      then show ?thesis using plain by simp
    qed
  qed (use r in \<open>simp add: resolveId_def\<close>)
  show ?case
  proof (cases "filter (is_populated ps) (ct_fields ct) = []")
    case False
    then have "resolve_fields (resolveId env s ?nested) (filter (is_populated ps) (ct_fields ct)) (plain_data e) = Some d"
      using Suc.prems by (simp add: Let_def)
    then have "list_all (\<lambda>(k, v). bounded (if ps = None then 1 else Suc n) P v) d"
      by (rule resolve_fields_bounded[rotated]) (simp_all add: one)
    then show ?thesis by (cases ps) simp_all
  next
    case True
    then have d: "d = plain_data e" using Suc.prems by simp
    show ?thesis unfolding d by (cases ps) simp_all
  qed
qed simp


text \<open>The call returns: on rows whose arrays of ids hold strings no level throws, whatever cycles the references form.\<close>

definition ids_are_strings :: "json content_value \<Rightarrow> bool" where
  "ids_are_strings v \<longleftrightarrow> (case v of COther (JArr js) \<Rightarrow> list_all (\<lambda>j. \<exists>i. j = JStr i) js | _ \<Rightarrow> True)"

definition entry_ids_are_strings :: "json content_entry \<Rightarrow> bool" where
  "entry_ids_are_strings e \<longleftrightarrow> list_all (\<lambda>(k, v). ids_are_strings v) (en_data e)"

abbreviation plain_ok :: "ref_value \<Rightarrow> bool" where
  "plain_ok v \<equiv> (case v of VPlain x \<Rightarrow> ids_are_strings x | _ \<Rightarrow> True)"

lemma plain_data_ok: "entry_ids_are_strings e \<Longrightarrow> list_all (\<lambda>(k, v). plain_ok v) (plain_data e)"
  by (auto simp: entry_ids_are_strings_def plain_data_def list_all_iff)

lemma list_all_jm_get: "list_all (\<lambda>(k, v). Q v) d \<Longrightarrow> jm_get d k = Some v \<Longrightarrow> Q v"
  by (induction d) (auto split: if_splits)

lemma resolveIds_returns:
  "(\<And>i. one i \<noteq> None) \<Longrightarrow> list_all (\<lambda>j. \<exists>i. j = JStr i) js \<Longrightarrow> resolveIds one js \<noteq> None"
  by (induction js) (auto split: option.splits)

lemma resolve_fields_returns:
  assumes one: "\<And>i. one i \<noteq> None" and plain: "\<And>i v. one i = Some v \<Longrightarrow> plain_ok v"
  shows "list_all (\<lambda>(k, v). plain_ok v) d \<Longrightarrow> resolve_fields one fs d \<noteq> None"
proof (induction fs arbitrary: d)
  case (Cons f fs)
  have "\<exists>d1. resolve_field one f d = Some d1 \<and> list_all (\<lambda>(k, v). plain_ok v) d1"
  proof (cases "jm_get d (fd_name f)")
    case (Some v)
    have v: "plain_ok v" by (rule list_all_jm_get[OF Cons.prems Some])
    consider i where "v = VPlain (CText i)" "i \<noteq> []" | js where "v = VPlain (COther (JArr js))" "fd_multiple f"
      | "resolve_field one f d = Some d"
    proof -
      have "(\<exists>i. v = VPlain (CText i) \<and> i \<noteq> []) \<or> (\<exists>js. v = VPlain (COther (JArr js)) \<and> fd_multiple f) \<or> resolve_field one f d = Some d"
        unfolding resolve_field_def Some by (auto split: ref_value.split content_value.split json.split)
      then show thesis using that by blast
    qed
    then show ?thesis
    proof cases
      case (1 i)
      obtain x where "one i = Some x" using one[of i] by auto
      then show ?thesis using 1 plain[of i x] Cons.prems by (simp add: resolve_field_def Some list_all_jm_set)
    next
      case (2 js)
      then have "list_all (\<lambda>j. \<exists>i. j = JStr i) js" using v by (simp add: ids_are_strings_def)
      then obtain vs where "resolveIds one js = Some vs" using resolveIds_returns[OF one] by fastforce
      then show ?thesis using 2 Cons.prems by (simp add: resolve_field_def Some list_all_jm_set)
    qed (use Cons.prems in simp)
  qed (use Cons.prems in \<open>simp add: resolve_field_def\<close>)
  then show ?case using Cons.IH by auto
qed simp

lemma resolve_levels_returns:
  assumes ok: "\<And>Q e. db_findFirst (rn_entries env) Q s = Some e \<Longrightarrow> entry_ids_are_strings e"
  shows "entry_ids_are_strings e \<Longrightarrow> resolve_levels env s ps n e ct \<noteq> None"
proof (induction n arbitrary: e ct)
  case (Suc n)
  let ?nested = "if 0 < n \<and> ps \<noteq> None then Some (resolve_levels env s ps n) else None"
  have "resolveId env s ?nested i \<noteq> None" for i
    using ok Suc.IH by (auto simp: resolveId_def split: option.split)
  moreover have "plain_ok v" if "resolveId env s ?nested i = Some v" for i v
    using that by (auto simp: resolveId_def split: option.splits if_splits)
  ultimately show ?case
    using resolve_fields_returns[OF _ _ plain_data_ok[OF Suc.prems]] by (simp add: Let_def)
qed simp

text \<open>C29. Resolving references returns on every graph of references, cycles included, while stored lists of ids are
  strings; what it embeds are published rows, nested at most as deep as the levels left, and at most one
  level when no fields are named. The tenant of the rows plays no part.\<close>

theorem references_are_bounded_and_published:
  assumes "content_db_ok (rn_entries env) rows" and "\<forall>e' \<in> set (rows s). entry_ids_are_strings e'" and "entry_ids_are_strings e"
  shows "\<exists>d. resolveReferences env s populateFields depth e ct = Some (VEntry e d) \<and>
    list_all (\<lambda>(k, v). ref_all (\<lambda>x. x \<in> set (rows s) \<and> en_status x = PUBLISHED) v \<and>
      ref_depth v \<le> (if populateFields = None then min (rn_maxDepth env - depth) 1 else rn_maxDepth env - depth)) d"
proof -
  let ?P = "\<lambda>x. x \<in> set (rows s) \<and> en_status x = PUBLISHED"
  note ok = content_db_okD(2)[OF assms(1)]
  have "resolve_levels env s populateFields (rn_maxDepth env - depth) e ct \<noteq> None"
    using assms(2) ok by (intro resolve_levels_returns assms(3)) blast
  then obtain d where d: "resolve_levels env s populateFields (rn_maxDepth env - depth) e ct = Some d" by blast
  have "list_all (\<lambda>(k, v). bounded (if populateFields = None then min (rn_maxDepth env - depth) 1 else rn_maxDepth env - depth) ?P v) d"
    using d by (rule resolve_levels_bounded[rotated]) (use ok in blast)
  then show ?thesis using d by (simp add: resolveReferences_def bounded_def conj_commute)
qed


definition author_field :: field_def where
  "author_field = \<lparr>fd_name = ''other'', fd_type = ''reference'', fd_validation = None, fd_multiple = True,
     fd_enumOptions = [], fd_componentSlug = None, fd_slugSource = None, fd_order = None\<rparr>"

definition linked_type :: content_type where
  "linked_type = \<lparr>ct_id = ''t'', ct_name = ''Page'', ct_slug = ''page'', ct_description = None, ct_fields = [author_field],
     ct_components = [], ct_tenantId = None\<rparr>"

definition linked :: "string \<Rightarrow> string \<Rightarrow> json content_entry" where
  "linked i j = \<lparr>en_id = i, en_contentTypeId = ''t'', en_data = [(''other'', COther (JArr [JStr j]))], en_locale = ''en'',
     en_status = PUBLISHED, en_version = 1, en_slug = None, en_publishedAt = None, en_scheduledAt = None,
     en_scheduledUnpublishAt = None, en_tenantId = Some ''acme'', en_createdBy = None\<rparr>"

definition linked_env :: "json entry_table ref_env" where
  "linked_env = \<lparr>rn_entries = list_db [], rn_types = \<lparr>td_findFirst = (\<lambda>P s. find P [linked_type]), td_findMany = (\<lambda>P s. []),
     td_count = (\<lambda>P s. 0), td_create = (\<lambda>t s. None), td_update = (\<lambda>i p s. None), td_delete = (\<lambda>i s. None),
     td_findFirstComponent = (\<lambda>P s. None)\<rparr>, rn_maxPopulateDepth = None\<rparr>"

text \<open>Two entries that refer to each other, for a caller of any tenant.\<close>

theorem references_are_bounded_and_published_witness:
  "\<exists>d. resolveReferences linked_env (table_of [linked ''a'' ''b'', linked ''b'' ''a'']) (Some [''*'']) 0 (linked ''a'' ''b'') linked_type =
      Some (VEntry (linked ''a'' ''b'') d) \<and>
    list_all (\<lambda>(k, v). ref_all (\<lambda>x. x \<in> set [linked ''a'' ''b'', linked ''b'' ''a''] \<and> en_status x = PUBLISHED) v \<and> ref_depth v \<le> 3) d"
proof -
  have d: "distinct (map en_id [linked ''a'' ''b'', linked ''b'' ''a''])" by (simp add: linked_def)
  have ok: "content_db_ok (rn_entries linked_env) table_rows" by (simp add: linked_env_def list_db_ok)
  have "entry_ids_are_strings (linked i j)" for i j
    by (simp add: entry_ids_are_strings_def linked_def ids_are_strings_def)
  then have "\<forall>e' \<in> set (table_rows (table_of [linked ''a'' ''b'', linked ''b'' ''a''])). entry_ids_are_strings e'"
    "entry_ids_are_strings (linked ''a'' ''b'')" using d by simp_all
  from references_are_bounded_and_published[OF ok this, of "Some [''*'']" 0 linked_type] show ?thesis
    using d by (simp add: rn_maxDepth_def linked_env_def)
qed

end
