(* ===== verification/Delivery_Guards.thy ===== *)
theory Delivery_Guards
  imports Boot_Prelude
begin

text \<open>
  What stands before the delivery API and what announces its changes: the rate limiter, the API key and
  permission guards (\<open>content/guards/\<close>), the cache headers (\<open>content/interceptors/cdn-cache.interceptor.ts\<close>) and
  the webhooks (\<open>content/services/content-webhook.service.ts\<close>). Hashes, the repository, the remote endpoint and the
  text of dates are parameters.
\<close>

section \<open>The rate limiter\<close>

record rate_entry =
  re_count :: nat
  re_resetAt :: int

type_synonym rate_store = "(string, rate_entry) jsmap"

record rate_options =
  ro_maxRequests :: nat
  ro_windowMs :: int

definition rate_options_of :: "nat option \<Rightarrow> int option \<Rightarrow> rate_options" where
  "rate_options_of rateLimitMax rateLimitWindowMs =
     \<lparr>ro_maxRequests = or_else rateLimitMax 100, ro_windowMs = or_else rateLimitWindowMs 60000\<rparr>"

record rate_request =
  rq_apiKey :: "string option"
  rq_ip :: "string option"

definition rate_key :: "rate_request \<Rightarrow> string" where
  "rate_key r = or_else (rq_apiKey r) (or_else (rq_ip r) ''anonymous'')"

record rate_headers =
  rh_limit :: nat
  rh_remaining :: nat
  rh_reset :: int

definition ceil_seconds :: "int \<Rightarrow> int" where
  "ceil_seconds ms = - ((- ms) div 1000)"

definition rate_entry_at :: "rate_options \<Rightarrow> int \<Rightarrow> rate_entry option \<Rightarrow> rate_entry" where
  "rate_entry_at opts now entry = (case entry of
     Some e \<Rightarrow> (if re_resetAt e \<le> now then \<lparr>re_count = 0, re_resetAt = now + ro_windowMs opts\<rparr> else e)
   | None \<Rightarrow> \<lparr>re_count = 0, re_resetAt = now + ro_windowMs opts\<rparr>)"

definition rate_cleanup :: "int \<Rightarrow> rate_store \<Rightarrow> rate_store" where
  "rate_cleanup now store = (if 10000 < length store then filter (\<lambda>(k, v). \<not> re_resetAt v \<le> now) store else store)"

text \<open>\<open>canActivate\<close>: the answer, the headers set before it, and the store.\<close>

definition rate_canActivate :: "rate_options \<Rightarrow> rate_request \<Rightarrow> int \<Rightarrow> rate_store \<Rightarrow> bool \<times> rate_headers \<times> rate_store" where
  "rate_canActivate opts r now store =
     (let key = rate_key r; entry = rate_entry_at opts now (jm_get store key); entry = entry\<lparr>re_count := re_count entry + 1\<rparr>;
          store = jm_set store key entry;
          headers = \<lparr>rh_limit = ro_maxRequests opts, rh_remaining = ro_maxRequests opts - re_count entry,
            rh_reset = ceil_seconds (re_resetAt entry)\<rparr>
      in if ro_maxRequests opts < re_count entry then (False, headers, store) else (True, headers, rate_cleanup now store))"

text \<open>A run: the requests with their times, and for each whether it was let through.\<close>

fun rate_run :: "rate_options \<Rightarrow> (rate_request \<times> int) list \<Rightarrow> rate_store \<Rightarrow> bool list \<times> rate_store" where
  "rate_run opts [] store = ([], store)"
| "rate_run opts ((r, now) # rs) store = (case rate_canActivate opts r now store of
     (ok, _, store) \<Rightarrow> (case rate_run opts rs store of (oks, store) \<Rightarrow> (ok # oks, store)))"

definition let_through :: "rate_options \<Rightarrow> string \<Rightarrow> (rate_request \<times> int) list \<Rightarrow> rate_store \<Rightarrow> int list" where
  "let_through opts key rs store = map (snd \<circ> fst) (filter (\<lambda>((r, t), ok). ok \<and> rate_key r = key) (zip rs (fst (rate_run opts rs store))))"

section \<open>API keys and permissions\<close>

record 'p api_key_record =
  ak_keyHash :: string
  ak_name :: string
  ak_environment :: string
  ak_permissions :: 'p
  ak_tenantId :: "string option"

record 'p api_request =
  ar_tenantId :: "string option"
  ar_permissions :: "'p option"
  ar_environment :: "string option"

text \<open>\<open>ContentApiKeyGuard.canActivate\<close>: an empty or missing header throws before the lookup.\<close>

definition key_canActivate :: "(string \<Rightarrow> string) \<Rightarrow> (string \<Rightarrow> 'p api_key_record option) \<Rightarrow> string option \<Rightarrow> 'p api_request
    \<Rightarrow> string + 'p api_request" where
  "key_canActivate hashKey findByHash apiKey request =
     (if or_else apiKey [] = [] then Inl ''Missing X-API-Key header''
      else (case findByHash (hashKey (or_else apiKey [])) of
        None \<Rightarrow> Inl ''Invalid API key''
      | Some k \<Rightarrow> Inr (request\<lparr>ar_tenantId := ak_tenantId k, ar_permissions := Some (ak_permissions k),
          ar_environment := Some (ak_environment k)\<rparr>)))"

record content_user =
  cu_roles :: "string list option"
  cu_permissions :: "string list option"

definition permission_canActivate :: "string list option \<Rightarrow> content_user option \<Rightarrow> string + bool" where
  "permission_canActivate required user =
     (if or_else required [] = [] then Inr True
      else (case user of
        None \<Rightarrow> Inl ''Authentication required''
      | Some u \<Rightarrow>
          if ''super_admin'' \<in> set (or_else (cu_roles u) []) then Inr True
          else (let missing = filter (\<lambda>p. p \<notin> set (or_else (cu_permissions u) [])) (or_else required [])
                in if missing = [] then Inr True else Inl (''Missing permissions: '' @ js_join '', '' missing))))"

section \<open>Cache headers\<close>

record cdn_options =
  cd_defaultMaxAge :: "nat option"
  cd_assetMaxAge :: "nat option"
  cd_staleWhileRevalidate :: "nat option"

record cdn_request =
  cq_url :: string
  cq_ifNoneMatch :: "string option"
  cq_ifModifiedSince :: "int option"

datatype cdn_answer = CdnNothing | CdnNotModified | CdnHeaders "(string \<times> string) list"

definition cdn_max_age :: "cdn_options option \<Rightarrow> string \<Rightarrow> nat" where
  "cdn_max_age opts path =
     (if sublist ''/assets/'' path then or_else (Option.bind opts cd_assetMaxAge) 86400
      else if sublist ''/types'' path then 3600 else or_else (Option.bind opts cd_defaultMaxAge) 300)"

text \<open>\<open>intercept\<close> on the response data: its hash and the time of its last change, \<open>None\<close> for no data. The text of
  a date is a parameter.\<close>

definition cdn_intercept :: "cdn_options option \<Rightarrow> (int \<Rightarrow> string) \<Rightarrow> cdn_request \<Rightarrow> (string \<times> int option) option \<Rightarrow> cdn_answer" where
  "cdn_intercept opts utc rq data = (case data of
     None \<Rightarrow> CdnNothing
   | Some (hash, updatedAt) \<Rightarrow>
       (let etag = [CHR 0x22] @ hash @ [CHR 0x22]
        in if cq_ifNoneMatch rq = Some etag then CdnNotModified
           else if (case (cq_ifModifiedSince rq, updatedAt) of (Some since, Some u) \<Rightarrow> u \<le> since | _ \<Rightarrow> False) then CdnNotModified
           else CdnHeaders ([(''Cache-Control'', ''public, max-age='' @ js_of_nat (cdn_max_age opts (cq_url rq)) @
               '', stale-while-revalidate='' @ js_of_nat (or_else (Option.bind opts cd_staleWhileRevalidate) 60)), (''ETag'', etag)]
             @ (case updatedAt of Some u \<Rightarrow> [(''Last-Modified'', utc u)] | None \<Rightarrow> [])
             @ [(''Vary'', ''X-API-Key, Accept-Language'')])))"

section \<open>Webhooks\<close>

record webhook =
  wh_id :: string
  wh_url :: string
  wh_events :: "string list"
  wh_secret :: string
  wh_active :: bool
  wh_tenantId :: "string option"

record webhook_log =
  wl_webhookId :: string
  wl_event :: string
  wl_responseStatus :: nat
  wl_attempt :: nat

text \<open>
  The endpoint answers an attempt with a status and whether it is a success, or not at all (\<open>None\<close>: the request
  throws, or is cut after ten seconds); writing a log entry may throw as well (\<open>False\<close>). A delivery ends
  with the success of an attempt, after all of them, or by a throw of the log in the handler of a
  failed attempt.
\<close>

record 'w webhook_env =
  we_fetch :: "webhook \<Rightarrow> string \<Rightarrow> 'w \<Rightarrow> (nat \<times> bool) option \<times> 'w"
  we_createLog :: "webhook_log \<Rightarrow> 'w \<Rightarrow> bool \<times> 'w"
  we_sign :: "string \<Rightarrow> string \<Rightarrow> string"
  we_retryAttempts :: "nat option"
  we_enabled :: bool

datatype delivery_result = WDelivered nat | WExhausted | WThrew

definition webhook_signature :: "'w webhook_env \<Rightarrow> string \<Rightarrow> string \<Rightarrow> string" where
  "webhook_signature env body secret = ''sha256='' @ we_sign env secret body"

definition verifySignature :: "'w webhook_env \<Rightarrow> string \<Rightarrow> string \<Rightarrow> string \<Rightarrow> bool" where
  "verifySignature env payload signature secret \<longleftrightarrow> signature = ''sha256='' @ we_sign env secret payload"

definition webhook_delay :: "nat \<Rightarrow> nat" where
  "webhook_delay attempt = 10 ^ (attempt - 1) * 1000"

text \<open>One attempt: whether it ends the delivery.\<close>

definition webhook_attempt :: "'w webhook_env \<Rightarrow> webhook \<Rightarrow> string \<Rightarrow> string \<Rightarrow> nat \<Rightarrow> 'w \<Rightarrow> delivery_result option \<times> 'w" where
  "webhook_attempt env h event body attempt w =
     (case we_fetch env h body w of (response, w) \<Rightarrow>
        (case (case response of
            None \<Rightarrow> (None, w)
          | Some (status, ok) \<Rightarrow> (case we_createLog env \<lparr>wl_webhookId = wh_id h, wl_event = event, wl_responseStatus = status, wl_attempt = attempt\<rparr> w of
              (True, w) \<Rightarrow> (Some ok, w) | (False, w) \<Rightarrow> (None, w))) of
           (Some True, w) \<Rightarrow> (Some (WDelivered attempt), w)
         | (Some False, w) \<Rightarrow> (None, w)
         | (None, w) \<Rightarrow> (case we_createLog env \<lparr>wl_webhookId = wh_id h, wl_event = event, wl_responseStatus = 0, wl_attempt = attempt\<rparr> w of
             (True, w) \<Rightarrow> (None, w) | (False, w) \<Rightarrow> (Some WThrew, w))))"

text \<open>The loop over the attempts, with the waits between them.\<close>

function deliver_from :: "'w webhook_env \<Rightarrow> webhook \<Rightarrow> string \<Rightarrow> string \<Rightarrow> nat \<Rightarrow> nat \<Rightarrow> 'w \<times> nat list \<Rightarrow> delivery_result \<times> 'w \<times> nat list" where
  "deliver_from env h event body maxAttempts attempt (w, waits) =
     (if maxAttempts < attempt then (WExhausted, w, waits)
      else (case webhook_attempt env h event body attempt w of
        (Some r, w) \<Rightarrow> (r, w, waits)
      | (None, w) \<Rightarrow> deliver_from env h event body maxAttempts (attempt + 1)
          (w, if attempt < maxAttempts then waits @ [webhook_delay attempt] else waits)))"
  by pat_completeness auto
termination by (relation "measure (\<lambda>(env, h, event, body, maxAttempts, attempt, w). Suc maxAttempts - attempt)") auto

declare deliver_from.simps [simp del]

definition deliverWithRetry :: "'w webhook_env \<Rightarrow> webhook \<Rightarrow> string \<Rightarrow> string \<Rightarrow> 'w \<Rightarrow> delivery_result \<times> 'w \<times> nat list" where
  "deliverWithRetry env h event body w = deliver_from env h event body (or_else (we_retryAttempts env) 3) 1 (w, [])"

definition findByEvent :: "webhook list \<Rightarrow> string \<Rightarrow> string option \<Rightarrow> webhook list" where
  "findByEvent rows event tenantId = filter (\<lambda>h. wh_active h \<and> event \<in> set (wh_events h) \<and>
     (or_else tenantId [] = [] \<or> wh_tenantId h = tenantId)) rows"

text \<open>\<open>dispatch\<close> starts one delivery for each of these and waits for none.\<close>

definition webhook_dispatch :: "'w webhook_env \<Rightarrow> webhook list \<Rightarrow> string \<Rightarrow> string option \<Rightarrow> webhook list" where
  "webhook_dispatch env rows event tenantId = (if we_enabled env then findByEvent rows event tenantId else [])"

section \<open>How many requests pass\<close>

definition count_in :: "int \<Rightarrow> int \<Rightarrow> int list \<Rightarrow> nat" where
  "count_in a b ts = length (filter (\<lambda>t. a \<le> t \<and> t < b) ts)"

definition count_from :: "int \<Rightarrow> int list \<Rightarrow> nat" where
  "count_from a ts = length (filter (\<lambda>t. a \<le> t) ts)"

text \<open>
  The invariant, for one key with the times \<open>acc\<close> of its requests let through up to \<open>now\<close>: in the current window, the one
  that ends at \<open>re_resetAt\<close>, at most \<open>re_count\<close> passed; less than a window before its start, at most \<open>max\<close>;
  without an entry, at most \<open>max\<close> during the last window.
\<close>

definition rate_inv :: "rate_options \<Rightarrow> rate_entry option \<Rightarrow> int \<Rightarrow> int list \<Rightarrow> bool" where
  "rate_inv opts entry now acc \<longleftrightarrow>
     (\<forall>s. count_in s (s + ro_windowMs opts) acc \<le> 2 * ro_maxRequests opts) \<and>
     (case entry of
        None \<Rightarrow> (\<forall>t \<in> set acc. t < now) \<and> (\<forall>s > now - ro_windowMs opts. count_from s acc \<le> ro_maxRequests opts)
      | Some e \<Rightarrow> (\<forall>t \<in> set acc. t < re_resetAt e) \<and> re_resetAt e \<le> now + ro_windowMs opts \<and>
          count_from (re_resetAt e - ro_windowMs opts) acc \<le> min (re_count e) (ro_maxRequests opts) \<and>
          (\<forall>s > re_resetAt e - 2 * ro_windowMs opts. count_in s (re_resetAt e - ro_windowMs opts) acc \<le> ro_maxRequests opts))"

lemma count_from_mono: "s \<le> s' \<Longrightarrow> count_from s' acc \<le> count_from s acc"
  unfolding count_from_def by (induction acc) auto

lemma count_in_le_from: "count_in a b acc \<le> count_from a acc"
  unfolding count_from_def count_in_def by (induction acc) auto

lemma count_in_split: "count_in a b acc \<le> count_in a c acc + count_from c acc"
  unfolding count_from_def count_in_def by (induction acc) auto

lemma count_snoc [simp]:
  "count_in a b (acc @ [t]) = count_in a b acc + (if a \<le> t \<and> t < b then 1 else 0)"
  "count_from a (acc @ [t]) = count_from a acc + (if a \<le> t then 1 else 0)"
  by (simp_all add: count_in_def count_from_def)


lemma rate_inv_later: "rate_inv opts entry now acc \<Longrightarrow> now \<le> later \<Longrightarrow> rate_inv opts entry later acc"
  unfolding rate_inv_def by (fastforce split: option.splits)

text \<open>An expired entry counts as none.\<close>

lemma rate_inv_expired:
  assumes "rate_inv opts (Some e) now acc" and "re_resetAt e \<le> now"
  shows "rate_inv opts None now acc"
proof -
  have "count_from s acc \<le> ro_maxRequests opts" if s: "s > now - ro_windowMs opts" for s
  proof -
    have "count_from s acc \<le> count_from (re_resetAt e - ro_windowMs opts) acc" using s assms(2) by (intro count_from_mono) simp
    also have "\<dots> \<le> ro_maxRequests opts" using assms(1) by (simp add: rate_inv_def)
    finally show ?thesis .
  qed
  moreover have "\<forall>t \<in> set acc. t < now" using assms by (auto simp: rate_inv_def)
  ultimately show ?thesis using assms(1) by (simp add: rate_inv_def)
qed

text \<open>The window that a request falls in: a new one without an entry, or when it has expired.\<close>

lemma rate_inv_new_window:
  assumes "rate_inv opts None now acc" and W: "0 < ro_windowMs opts"
  shows "rate_inv opts (Some \<lparr>re_count = 0, re_resetAt = now + ro_windowMs opts\<rparr>) now acc"
proof -
  have "count_in s now acc \<le> ro_maxRequests opts" if "s > now - ro_windowMs opts" for s
    using assms(1) that count_in_le_from[of s now acc] order_trans by (fastforce simp: rate_inv_def)
  moreover have "count_from now acc = 0" using assms by (auto simp: rate_inv_def count_from_def filter_empty_conv)
  ultimately show ?thesis using assms(1) W by (fastforce simp: rate_inv_def)
qed

lemma rate_inv_window:
  assumes "rate_inv opts entry now acc" and "0 < ro_windowMs opts"
  shows "rate_inv opts (Some (rate_entry_at opts now entry)) now acc" and "now < re_resetAt (rate_entry_at opts now entry)"
proof -
  show "now < re_resetAt (rate_entry_at opts now entry)"
    using assms(2) by (simp add: rate_entry_at_def split: option.split)
  show "rate_inv opts (Some (rate_entry_at opts now entry)) now acc"
  proof (cases entry)
    case (Some e)
    then show ?thesis using assms rate_inv_expired[of opts e now acc] rate_inv_new_window[of opts now acc]
      by (simp add: rate_entry_at_def)
  qed (use assms rate_inv_new_window in \<open>simp add: rate_entry_at_def\<close>)
qed

lemma rate_inv_pass:
  assumes inv: "rate_inv opts (Some e) now acc" and "now < re_resetAt e" and "Suc (re_count e) \<le> ro_maxRequests opts"
  shows "rate_inv opts (Some (e\<lparr>re_count := re_count e + 1\<rparr>)) now (acc @ [now])"
proof -
  let ?W = "ro_windowMs opts" and ?M = "ro_maxRequests opts"
  have w: "re_resetAt e - ?W \<le> now" and cur: "count_from (re_resetAt e - ?W) acc \<le> re_count e"
    and before: "\<And>s. s > re_resetAt e - 2 * ?W \<Longrightarrow> count_in s (re_resetAt e - ?W) acc \<le> ?M"
    and all: "\<And>s. count_in s (s + ?W) acc \<le> 2 * ?M"
    using inv by (auto simp: rate_inv_def)
  have "count_in s (s + ?W) (acc @ [now]) \<le> 2 * ?M" for s
  proof (cases "s \<le> now \<and> now < s + ?W")
    case True
    then have "s > re_resetAt e - 2 * ?W" using w by linarith
    from before[OF this] have "count_in s (s + ?W) acc \<le> ?M + re_count e"
      using count_in_split[of s "s + ?W" acc "re_resetAt e - ?W"] cur by linarith
    then show ?thesis using assms(3) by simp
  next
    case False
    then show ?thesis using all[of s] by auto
  qed
  moreover have "count_from (re_resetAt e - ?W) (acc @ [now]) \<le> min (re_count e + 1) ?M"
    using cur assms(3) by simp
  ultimately show ?thesis using inv assms(2) w by (auto simp: rate_inv_def)
qed

lemma rate_inv_refuse:
  "rate_inv opts (Some e) now acc \<Longrightarrow> rate_inv opts (Some (e\<lparr>re_count := re_count e + 1\<rparr>)) now acc"
  by (auto simp: rate_inv_def)

text \<open>One request, of the key or of another one: the cleanup only drops expired entries.\<close>

lemma cleanup_get:
  assumes "jm_wf store"
  shows "jm_get (rate_cleanup now store) k = (case jm_get store k of None \<Rightarrow> None
    | Some e \<Rightarrow> if 10000 < length store \<and> re_resetAt e \<le> now then None else Some e)"
  using jm_get_filter[OF assms, of "\<lambda>k v. \<not> re_resetAt v \<le> now" k] by (auto simp: rate_cleanup_def split: option.split)

lemma rate_inv_cleanup:
  assumes "jm_wf store" and "rate_inv opts (jm_get store k) now acc"
  shows "rate_inv opts (jm_get (rate_cleanup now store) k) now acc"
  using assms(2) rate_inv_expired[of opts _ now acc] by (auto simp: cleanup_get[OF assms(1)] split: option.split)

lemma rate_step:
  assumes wf: "jm_wf store" and inv: "rate_inv opts (jm_get store key) now acc" and W: "0 < ro_windowMs opts"
    and r: "rate_canActivate opts r now store = (ok, headers, store')"
  shows "jm_wf store'" and "rate_inv opts (jm_get store' key) now (acc @ (if ok \<and> rate_key r = key then [now] else []))"
proof -
  let ?e = "rate_entry_at opts now (jm_get store (rate_key r))"
  let ?e1 = "?e\<lparr>re_count := re_count ?e + 1\<rparr>" and ?s1 = "jm_set store (rate_key r) (?e\<lparr>re_count := re_count ?e + 1\<rparr>)"
  have wf1: "jm_wf ?s1" using wf by simp
  have ok: "ok \<longleftrightarrow> \<not> ro_maxRequests opts < re_count ?e + 1" and s': "store' = (if ok then rate_cleanup now ?s1 else ?s1)"
    using r by (auto simp: rate_canActivate_def Let_def split: if_splits)
  have "jm_wf (rate_cleanup now ?s1)" using wf1 by (simp add: rate_cleanup_def)
  then show "jm_wf store'" using wf1 by (simp add: s')
  have "rate_inv opts (jm_get ?s1 key) now (acc @ (if ok \<and> rate_key r = key then [now] else []))"
  proof (cases "rate_key r = key")
    case True
    from rate_inv_window[OF inv W] have e: "rate_inv opts (Some ?e) now acc" "now < re_resetAt ?e" by (simp_all add: True)
    have g: "jm_get ?s1 key = Some ?e1" by (simp add: True jm_get_set)
    show ?thesis
    proof (cases ok)
      case pass: True
      then show ?thesis using rate_inv_pass[OF e] ok unfolding g by (simp add: True)
    next
      case False
      then show ?thesis using rate_inv_refuse[OF e(1)] unfolding g by simp
    qed
  qed (use inv in \<open>simp add: jm_get_set\<close>)
  then show "rate_inv opts (jm_get store' key) now (acc @ (if ok \<and> rate_key r = key then [now] else []))"
    using rate_inv_cleanup[OF wf1, of opts key now "acc @ (if ok \<and> rate_key r = key then [now] else [])"]
    unfolding s' by (cases ok) simp_all
qed

lemma let_through_Cons:
  "let_through opts key ((r, t) # rs) store =
     (if fst (rate_canActivate opts r t store) \<and> rate_key r = key then [t] else []) @
      let_through opts key rs (snd (snd (rate_canActivate opts r t store)))"
  by (simp add: let_through_def split: prod.split)

lemma rate_run_inv:
  assumes "jm_wf store" and "rate_inv opts (jm_get store key) now acc" and "0 < ro_windowMs opts"
    and "sorted (map snd rs)" and "\<forall>t \<in> set (map snd rs). now \<le> t"
  shows "\<exists>later. rate_inv opts (jm_get (snd (rate_run opts rs store)) key) later (acc @ let_through opts key rs store)"
  using assms
proof (induction rs arbitrary: store now acc)
  case Nil
  have "let_through opts key [] store = []" by (simp add: let_through_def)
  then show ?case using Nil.prems(2) by (intro exI[of _ now]) simp
next
  case (Cons rt rs)
  obtain r t where rt: "rt = (r, t)" by (cases rt)
  obtain ok headers store' where c: "rate_canActivate opts r t store = (ok, headers, store')" by (metis surj_pair)
  have "now \<le> t" using Cons.prems(5) by (simp add: rt)
  then have inv: "rate_inv opts (jm_get store key) t acc" by (rule rate_inv_later[OF Cons.prems(2)])
  note s = rate_step[OF Cons.prems(1) inv Cons.prems(3) c]
  have sorted: "sorted (map snd rs)" "\<forall>t' \<in> set (map snd rs). t \<le> t'" using Cons.prems(4) by (simp_all add: rt)
  have run: "snd (rate_run opts (rt # rs) store) = snd (rate_run opts rs store')" by (simp add: rt c split: prod.split)
  have thr: "let_through opts key (rt # rs) store = (if ok \<and> rate_key r = key then [t] else []) @ let_through opts key rs store'"
    by (simp only: rt let_through_Cons c fst_conv snd_conv)
  show ?case using Cons.IH[OF s Cons.prems(3) sorted] unfolding run thr append_assoc .
qed

text \<open>C33. However the requests of all keys are interleaved, at most twice the limit of one key is let through in any
  interval of one window; and twice is what a fixed window allows: with a limit of two, three requests pass
  within a window.\<close>

theorem delivery_rate_is_bounded:
  assumes "sorted (map snd rs)" and "0 < ro_windowMs opts"
  shows "count_in s (s + ro_windowMs opts) (let_through opts key rs []) \<le> 2 * ro_maxRequests opts \<and>
    count_in 9 (9 + 10) (let_through \<lparr>ro_maxRequests = 2, ro_windowMs = 10\<rparr> ''k''
      (map (\<lambda>t. (\<lparr>rq_apiKey = Some ''k'', rq_ip = None\<rparr>, t)) [0, 9, 10, 11]) []) = 3"
proof
  have "rate_inv opts (jm_get [] key) (if rs = [] then 0 else snd (hd rs)) []"
    by (simp add: rate_inv_def count_in_def count_from_def)
  from rate_run_inv[OF jm_wf_Nil this assms(2,1)] obtain later where
    "rate_inv opts (jm_get (snd (rate_run opts rs [])) key) later ([] @ let_through opts key rs [])"
    using assms(1) by (cases rs) auto
  then show "count_in s (s + ro_windowMs opts) (let_through opts key rs []) \<le> 2 * ro_maxRequests opts"
    by (simp add: rate_inv_def)
qed (simp add: let_through_Cons rate_canActivate_def rate_entry_at_def rate_key_def rate_cleanup_def jm_get_set Let_def count_in_def,
  simp add: let_through_def)

theorem delivery_rate_is_bounded_witness:
  "count_in 0 60000 (let_through (rate_options_of (Some 1) None) ''k''
     [(\<lparr>rq_apiKey = Some ''k'', rq_ip = None\<rparr>, 5), (\<lparr>rq_apiKey = None, rq_ip = None\<rparr>, 6), (\<lparr>rq_apiKey = Some ''k'', rq_ip = None\<rparr>, 7)] []) \<le> 2"
  using delivery_rate_is_bounded[of "[(\<lparr>rq_apiKey = Some ''k'', rq_ip = None\<rparr>, 5), (\<lparr>rq_apiKey = None, rq_ip = None\<rparr>, 6),
      (\<lparr>rq_apiKey = Some ''k'', rq_ip = None\<rparr>, 7)]" "rate_options_of (Some 1) None" 0 "''k''"]
  by (simp add: rate_options_of_def)


section \<open>What the other guards promise\<close>

lemma permission_decides:
  "permission_canActivate required user = Inr True \<longleftrightarrow>
     or_else required [] = [] \<or> (\<exists>u. user = Some u \<and> (''super_admin'' \<in> set (or_else (cu_roles u) []) \<or>
       set (or_else required []) \<subseteq> set (or_else (cu_permissions u) [])))"
  by (auto simp: permission_canActivate_def Let_def filter_empty_conv subset_iff split: option.split)

lemma key_decides:
  "(\<exists>rq. key_canActivate hashKey findByHash apiKey request = Inr rq \<and> ar_tenantId rq = tenantId) \<longleftrightarrow>
     (\<exists>key k. apiKey = Some key \<and> key \<noteq> [] \<and> findByHash (hashKey key) = Some k \<and> ak_tenantId k = tenantId)"
  by (cases apiKey) (auto simp: key_canActivate_def split: option.split)

lemma signature_verifies: "verifySignature env body (webhook_signature env body secret) secret"
  by (simp add: verifySignature_def webhook_signature_def)

text \<open>A delivery makes at most the allowed number of attempts, ends delivered exactly at the first attempt that succeeds and
  is logged, and waits 1 s, 10 s, 100 s and so on between the attempts.\<close>

lemma deliver_from_step:
  "deliver_from env h event body n attempt (w, waits) =
     (if n < attempt then (WExhausted, w, waits)
      else (case webhook_attempt env h event body attempt w of
        (Some r, w) \<Rightarrow> (r, w, waits)
      | (None, w) \<Rightarrow> deliver_from env h event body n (Suc attempt) (w, if attempt < n then waits @ [webhook_delay attempt] else waits)))"
  unfolding deliver_from.simps[of env h event body n attempt] Suc_eq_plus1 by (rule refl)

lemma attempt_delivers: "webhook_attempt env h event body attempt w = (Some (WDelivered k), w') \<Longrightarrow> k = attempt"
  by (auto simp: webhook_attempt_def split: prod.splits option.splits bool.splits)

lemma deliver_from_delivered:
  "deliver_from env h event body n attempt (w, waits) = (WDelivered k, w', waits') \<Longrightarrow> attempt \<le> k \<and> k \<le> n"
proof (induction "Suc n - attempt" arbitrary: attempt w waits)
  case (Suc m)
  obtain r w1 where a: "webhook_attempt env h event body attempt w = (r, w1)" by (metis surj_pair)
  have n: "\<not> n < attempt" using Suc.hyps(2) by simp
  show ?case
  proof (cases r)
    case (Some x)
    then show ?thesis using Suc.prems n a attempt_delivers[of env h event body attempt w k w1]
      unfolding deliver_from_step[of env h event body n attempt] by simp
  next
    case None
    have "m = Suc n - Suc attempt" using Suc.hyps(2) by simp
    from Suc.hyps(1)[OF this, of w1] Suc.prems n show ?thesis
      unfolding deliver_from_step[of env h event body n attempt] a None by fastforce
  qed
qed (simp add: deliver_from_step)

lemma deliver_from_waits:
  "deliver_from env h event body n attempt (w, waits) = (r, w', waits') \<Longrightarrow> attempt \<le> n \<Longrightarrow>
    \<exists>k. attempt \<le> k \<and> k \<le> n \<and> waits' = waits @ map webhook_delay [attempt..<k]"
proof (induction "n - attempt" arbitrary: attempt w waits)
  case 0
  then have n: "attempt = n" by simp
  have "waits' = waits"
    using 0(2) unfolding n deliver_from_step[of env h event body n n] deliver_from_step[of env h event body n "Suc n"]
    by (auto split: prod.splits option.splits)
  then show ?case using n by (intro exI[of _ n]) simp
next
  case (Suc m)
  obtain s w1 where a: "webhook_attempt env h event body attempt w = (s, w1)" by (metis surj_pair)
  have n: "attempt < n" using Suc.hyps(2) by simp
  show ?case
  proof (cases s)
    case (Some x)
    then have "waits' = waits" using Suc.prems(1) n a unfolding deliver_from_step[of env h event body n attempt] by simp
    then show ?thesis using n by (intro exI[of _ attempt]) simp
  next
    case None
    have "deliver_from env h event body n (Suc attempt) (w1, waits @ [webhook_delay attempt]) = (r, w', waits')"
      using Suc.prems(1) n a None unfolding deliver_from_step[of env h event body n attempt] by simp
    moreover have "m = n - Suc attempt" "Suc attempt \<le> n" using Suc.hyps(2) n by simp_all
    ultimately obtain k where "Suc attempt \<le> k" "k \<le> n" "waits' = (waits @ [webhook_delay attempt]) @ map webhook_delay [Suc attempt..<k]"
      using Suc.hyps(1) by blast
    then show ?thesis by (intro exI[of _ k]) (simp add: upt_conv_Cons)
  qed
qed

text \<open>With the default of three attempts a webhook waits at most 1 s and 10 s.\<close>

lemma default_delivery_waits:
  assumes "we_retryAttempts env = None" and "deliverWithRetry env h event body w = (r, w', waits)"
  shows "waits \<in> {[], [1000], [1000, 10000]}"
proof -
  have "deliver_from env h event body 3 1 (w, []) = (r, w', waits)" using assms by (simp add: deliverWithRetry_def)
  from deliver_from_waits[OF this] obtain k where "1 \<le> k" "k \<le> 3" "waits = map webhook_delay [1..<k]" by auto
  moreover have "k = 1 \<or> k = 2 \<or> k = 3" using calculation(1,2) by linarith
  ultimately show ?thesis by (auto simp: webhook_delay_def upt_rec)
qed

text \<open>A response that is a success but cannot be logged is sent again.\<close>

lemma unlogged_success_is_sent_again:
  assumes "we_fetch env h body w = (Some (200, True), w1)"
    and "we_createLog env \<lparr>wl_webhookId = wh_id h, wl_event = event, wl_responseStatus = 200, wl_attempt = 1\<rparr> w1 = (False, w2)"
    and "we_createLog env \<lparr>wl_webhookId = wh_id h, wl_event = event, wl_responseStatus = 0, wl_attempt = 1\<rparr> w2 = (True, w3)"
  shows "webhook_attempt env h event body 1 w = (None, w3)"
  using assms by (simp add: webhook_attempt_def)

end
