(* ===== verification/Db_Cached.thy ===== *)
theory Db_Cached
  imports Cache_Multi
begin

text \<open>
  \<open>database/repository.interface.ts\<close> and \<open>cached-repository.decorator.ts\<close>: a repository behind a cache. The
  repository is any record of reads and writes over a database, which may throw; the cache is the layered
  one of \<open>Cache_Multi\<close>. MD5 and \<open>JSON.stringify\<close> of the arguments are parameters. \<open>CachedBaseRepository\<close>
  (\<open>database/cached.repository.ts\<close>) has the same shape with two more reads and writes.
\<close>

section \<open>Repositories\<close>

record pagination_options =
  po_page :: "int option"
  po_limit :: "int option"
  po_sort :: "(string \<times> bool) list option"

datatype ('f, 'p) repo_read = FindById string | FindOne 'f | FindMany 'f "pagination_options option" | Count "'f option" | Exists 'f
  | FindAll 'f pagination_options | Aggregate 'p

datatype ('f, 'd) repo_write = Create 'd | CreateMany "'d list" | Update string 'd | Delete string | UpdateMany 'f 'd | DeleteMany 'f

record ('f, 'p, 'd, 'db, 'e, 'v) repository =
  rp_read :: "('f, 'p) repo_read \<Rightarrow> 'db \<Rightarrow> 'e + 'v"
  rp_write :: "('f, 'd) repo_write \<Rightarrow> 'db \<Rightarrow> ('e + 'v) \<times> 'db"

fun read_method :: "('f, 'p) repo_read \<Rightarrow> string" where
  "read_method (FindById _) = ''findById''"
| "read_method (FindOne _) = ''findOne''"
| "read_method (FindMany _ _) = ''findMany''"
| "read_method (Count _) = ''count''"
| "read_method (Exists _) = ''exists''"
| "read_method (FindAll _ _) = ''findAll''"
| "read_method (Aggregate _) = ''aggregate''"

record ('a, 'b, 'f, 'p, 'v) cached_config =
  cg_cache :: "('a, 'b, 'v) multi_cache"
  cg_collectionName :: string
  cg_ttl :: int
  cg_md5 :: "string \<Rightarrow> string"
  cg_argsJson :: "('f, 'p) repo_read \<Rightarrow> string"

definition cacheKey :: "('a, 'b, 'f, 'p, 'v) cached_config \<Rightarrow> ('f, 'p) repo_read \<Rightarrow> string" where
  "cacheKey cg r = cg_collectionName cg @ '':'' @ read_method r @ '':'' @ cg_md5 cg (cg_argsJson cg r)"

definition invalidateCache :: "('a, 'b, 'f, 'p, 'v) cached_config \<Rightarrow> ('a, 'b) layers \<Rightarrow> ('a, 'b) layers" where
  "invalidateCache cg s = mu_delByPrefix (cg_cache cg) s (cg_collectionName cg)"

text \<open>A read goes through \<open>getOrSet\<close>, begun at \<open>now\<close> and answered by the database by \<open>later\<close>; a write that throws leaves the
  cache alone.\<close>

definition cached_read :: "('a, 'b, 'f, 'p, 'v) cached_config \<Rightarrow> ('f, 'p, 'd, 'db, 'e, 'v) repository \<Rightarrow> ('f, 'p) repo_read
    \<Rightarrow> int \<Rightarrow> int \<Rightarrow> ('a, 'b) layers \<times> 'db \<Rightarrow> ('e + 'v) \<times> ('a, 'b) layers \<times> 'db" where
  "cached_read cg rp r now later st = (case st of (s, db) \<Rightarrow>
     mu_getOrSet (cg_cache cg) s now later (cacheKey cg r) (\<lambda>db. (rp_read rp r db, db))
       (Some \<lparr>cs_ttl = Some (cg_ttl cg), cs_l2Ttl = None\<rparr>) db)"

definition cached_write :: "('a, 'b, 'f, 'p, 'v) cached_config \<Rightarrow> ('f, 'p, 'd, 'db, 'e, 'v) repository \<Rightarrow> ('f, 'd) repo_write
    \<Rightarrow> ('a, 'b) layers \<times> 'db \<Rightarrow> ('e + 'v) \<times> ('a, 'b) layers \<times> 'db" where
  "cached_write cg rp x st = (case st of (s, db) \<Rightarrow> (case rp_write rp x db of
     (Inl e, db) \<Rightarrow> (Inl e, s, db)
   | (Inr v, db) \<Rightarrow> (Inr v, invalidateCache cg s, db)))"

text \<open>A sequence of calls, on the cached repository and on the plain one.\<close>

datatype ('f, 'p, 'd) repo_call = Read "('f, 'p) repo_read" int int | Write "('f, 'd) repo_write" int

fun cached_calls :: "('a, 'b, 'f, 'p, 'v) cached_config \<Rightarrow> ('f, 'p, 'd, 'db, 'e, 'v) repository \<Rightarrow> ('f, 'p, 'd) repo_call list
    \<Rightarrow> ('a, 'b) layers \<times> 'db \<Rightarrow> ('e + 'v) list \<times> 'db" where
  "cached_calls cg rp [] st = ([], snd st)"
| "cached_calls cg rp (Read r now later # cs) st = (case cached_read cg rp r now later st of
     (v, st) \<Rightarrow> (case cached_calls cg rp cs st of (vs, db) \<Rightarrow> (v # vs, db)))"
| "cached_calls cg rp (Write x now # cs) st = (case cached_write cg rp x st of
     (v, st) \<Rightarrow> (case cached_calls cg rp cs st of (vs, db) \<Rightarrow> (v # vs, db)))"

fun plain_calls :: "('f, 'p, 'd, 'db, 'e, 'v) repository \<Rightarrow> ('f, 'p, 'd) repo_call list \<Rightarrow> 'db \<Rightarrow> ('e + 'v) list \<times> 'db" where
  "plain_calls rp [] db = ([], db)"
| "plain_calls rp (Read r now later # cs) db = (case plain_calls rp cs db of (vs, db1) \<Rightarrow> (rp_read rp r db # vs, db1))"
| "plain_calls rp (Write x now # cs) db = (case rp_write rp x db of
     (v, db) \<Rightarrow> (case plain_calls rp cs db of (vs, db1) \<Rightarrow> (v # vs, db1)))"

fun clock_ok :: "int \<Rightarrow> ('f, 'p, 'd) repo_call list \<Rightarrow> bool" where
  "clock_ok t [] \<longleftrightarrow> True"
| "clock_ok t (Read r now later # cs) \<longleftrightarrow> t \<le> now \<and> now \<le> later \<and> clock_ok later cs"
| "clock_ok t (Write x now # cs) \<longleftrightarrow> t \<le> now \<and> clock_ok now cs"

section \<open>What the layers may show\<close>

context multi_cache_spec
begin

text \<open>Everything visible in either layer from a time on satisfies \<open>Q\<close>.\<close>

definition shows_only :: "('a, 'b) layers \<Rightarrow> int \<Rightarrow> (string \<Rightarrow> 'v \<Rightarrow> bool) \<Rightarrow> bool" where
  "shows_only s t0 Q \<longleftrightarrow> (\<forall>t k v. t0 \<le> t \<longrightarrow> vis1 (fst s) t k = Some v \<or> vis2 (snd s) t k = Some v \<longrightarrow> Q k v)"

lemma shows_only_later: "shows_only s t0 Q \<Longrightarrow> t0 \<le> t1 \<Longrightarrow> shows_only s t1 Q"
  unfolding shows_only_def by (meson order_trans)

lemma shows_only_D:
  assumes "shows_only s t0 Q" and "t0 \<le> t"
  shows "vis1 (fst s) t k = Some v \<Longrightarrow> Q k v" and "vis2 (snd s) t k = Some v \<Longrightarrow> Q k v" and "mvis s t k = Some v \<Longrightarrow> Q k v"
  using assms unfolding shows_only_def mvis_def by (blast, blast, auto split: option.splits)

lemma set1_shows:
  assumes "t0 \<le> t" and "\<forall>j w. vis1 s1 t j = Some w \<longrightarrow> Q j w" and "Q k v"
  shows "vis1 (ca_set (mu_l1 mu) s1 t0 k v ttl) t j = Some w \<Longrightarrow> Q j w"
  using l1.set_vis[OF assms(1), of s1 k v ttl] l1.set_others[of j k s1 t0 v ttl t] assms(2,3)
  by (cases "j = k") (auto split: if_splits)

lemma set2_shows:
  assumes "t0 \<le> t" and "\<forall>j w. vis2 s2 t j = Some w \<longrightarrow> Q j w" and "Q k v"
  shows "vis2 (ca_set l2 s2 t0 k v ttl) t j = Some w \<Longrightarrow> Q j w"
  using l2.set_vis[OF assms(1), of s2 k v ttl] l2.set_others[of j k s2 t0 v ttl t] assms(2,3)
  by (cases "j = k") (auto split: if_splits)

lemma shows_only_set:
  assumes "shows_only s t0 Q" and "Q k v"
  shows "shows_only (mu_set mu s t0 k v opts) t0 Q"
  unfolding shows_only_def
proof (intro allI impI)
  fix t j w
  assume t: "t0 \<le> t" and v: "vis1 (fst (mu_set mu s t0 k v opts)) t j = Some w \<or> vis2 (snd (mu_set mu s t0 k v opts)) t j = Some w"
  obtain s1 s2 where s: "s = (s1, s2)" by (cases s)
  have q: "\<forall>j w. vis1 s1 t j = Some w \<longrightarrow> Q j w" "\<forall>j w. vis2 s2 t j = Some w \<longrightarrow> Q j w"
    using shows_only_D[OF assms(1) t] by (simp_all add: s)
  show "Q j w"
    using v set1_shows[where Q = Q, OF t q(1) assms(2), of _ j w] set2_shows[where Q = Q, OF t q(2) assms(2), of _ j w] q
    by (auto simp: s mu_set_def Let_def two_layers split: if_splits)
qed

lemma shows_only_get:
  assumes "shows_only s t0 Q"
  shows "shows_only (snd (mu_get mu s t0 k)) t0 Q"
  unfolding shows_only_def
proof (intro allI impI)
  fix t j w
  assume t: "t0 \<le> t" and v: "vis1 (fst (snd (mu_get mu s t0 k))) t j = Some w \<or> vis2 (snd (snd (mu_get mu s t0 k))) t j = Some w"
  obtain s1 s2 where s: "s = (s1, s2)" by (cases s)
  obtain v1 s1' where g1: "ca_get (mu_l1 mu) s1 t0 k = (v1, s1')" by (metis surj_pair)
  obtain v2 s2' where g2: "ca_get l2 s2 t0 k = (v2, s2')" by (metis surj_pair)
  have "\<And>j. vis1 s1' t j = vis1 s1 t j" "\<And>j. vis2 s2' t j = vis2 s2 t j"
    using l1.get_frame[OF t, of s1 k] l2.get_frame[OF t, of s2 k] g1 g2 by simp_all
  then have q: "\<forall>j w. vis1 s1' t j = Some w \<longrightarrow> Q j w" "\<forall>j w. vis2 s2' t j = Some w \<longrightarrow> Q j w"
    using shows_only_D[OF assms t] by (simp_all add: s)
  have v2: "v2 = Some x \<Longrightarrow> Q k x" for x
    using l2.get_vis[of s2 t0 k] g2 shows_only_D(2)[OF assms order_refl, of k x] by (simp add: s)
  show "Q j w"
    using v q set1_shows[where Q = Q, OF t q(1) v2, of _ _ j w] shows_only_D(2)[OF assms t, of j w]
    by (cases v1; cases v2) (auto simp: s mu_get_def g1 g2 two_layers split: if_splits)
qed

lemma shows_only_delByPrefix:
  "shows_only (mu_delByPrefix mu s p) t0 (\<lambda>k v. \<not> starts_with k p)"
  by (cases s) (auto simp: shows_only_def mu_delByPrefix_def two_layers l1.delByPrefix_vis l2.delByPrefix_vis split: if_splits)

text \<open>A read through the cache answers as the factory would, if the cache shows only what the factory answers.\<close>

lemma getOrSet_answers:
  assumes "shows_only s now Q" and "now \<le> later" and "\<forall>v. Q k v \<longleftrightarrow> fst (factory w) = Inr v"
  shows "fst (mu_getOrSet mu s now later k factory opts w) = fst (factory w)"
    and "shows_only (fst (snd (mu_getOrSet mu s now later k factory opts w))) later Q"
    and "snd (snd (mu_getOrSet mu s now later k factory opts w)) \<in> {w, snd (factory w)}"
proof -
  obtain c s' where g: "mu_get mu s now k = (c, s')" by (metis surj_pair)
  have s': "shows_only s' later Q" using shows_only_later[OF shows_only_get[OF assms(1), of k] assms(2)] g by simp
  have c: "c = Some v \<Longrightarrow> Q k v" for v using mu_get_vis[of s now k] g shows_only_D(3)[OF assms(1) order_refl] by simp
  obtain r w' where f: "factory w = (r, w')" by (metis surj_pair)
  show "fst (mu_getOrSet mu s now later k factory opts w) = fst (factory w)"
    and "snd (snd (mu_getOrSet mu s now later k factory opts w)) \<in> {w, snd (factory w)}"
    using c assms(3) by (cases c; cases r; simp add: mu_getOrSet_def g f)+
  show "shows_only (fst (snd (mu_getOrSet mu s now later k factory opts w))) later Q"
    using s' shows_only_set[OF s'] assms(3) by (cases c; cases r) (simp_all add: mu_getOrSet_def g f)
qed

end

section \<open>The cached repository answers as the plain one\<close>

fun reads_of :: "('f, 'p, 'd) repo_call list \<Rightarrow> ('f, 'p) repo_read list" where
  "reads_of [] = []"
| "reads_of (Read r now later # cs) = r # reads_of cs"
| "reads_of (Write x now # cs) = reads_of cs"

definition cache_is_current :: "('a, 'b, 'f, 'p, 'v) cached_config \<Rightarrow> ('f, 'p) repo_read list
    \<Rightarrow> ('f, 'p, 'd, 'db, 'e, 'v) repository \<Rightarrow> 'db \<Rightarrow> string \<Rightarrow> 'v \<Rightarrow> bool" where
  "cache_is_current cg rs rp db k v \<longleftrightarrow> (\<forall>r\<in>set rs. cacheKey cg r = k \<longrightarrow> rp_read rp r db = Inr v)"

text \<open>No two of the reads made share a key, and a write that throws changes nothing.\<close>

definition keys_are_unique :: "('a, 'b, 'f, 'p, 'v) cached_config \<Rightarrow> ('f, 'p) repo_read list \<Rightarrow> bool" where
  "keys_are_unique cg rs \<longleftrightarrow> (\<forall>r\<in>set rs. \<forall>r'\<in>set rs. cacheKey cg r = cacheKey cg r' \<longrightarrow> r = r')"

definition failed_writes_change_nothing :: "('f, 'p, 'd, 'db, 'e, 'v) repository \<Rightarrow> bool" where
  "failed_writes_change_nothing rp \<longleftrightarrow> (\<forall>x db e db'. rp_write rp x db = (Inl e, db') \<longrightarrow> db' = db)"

context multi_cache_spec
begin

lemma read_factory_agrees:
  assumes "keys_are_unique cg rs" and "r \<in> set rs"
  shows "\<forall>v. cache_is_current cg rs rp db (cacheKey cg r) v \<longleftrightarrow> fst (rp_read rp r db, db) = Inr v"
proof (intro allI iffI)
  fix v
  show "fst (rp_read rp r db, db) = Inr v" if "cache_is_current cg rs rp db (cacheKey cg r) v"
    using that assms(2) unfolding cache_is_current_def by simp
  assume v: "fst (rp_read rp r db, db) = Inr v"
  show "cache_is_current cg rs rp db (cacheKey cg r) v"
    unfolding cache_is_current_def
  proof (intro ballI impI)
    fix r'
    assume "r' \<in> set rs" "cacheKey cg r' = cacheKey cg r"
    then have "r' = r" using assms unfolding keys_are_unique_def by blast
    then show "rp_read rp r' db = Inr v" using v by simp
  qed
qed

lemma cached_read_answers:
  assumes cg: "cg_cache cg = mu" and unique: "keys_are_unique cg rs" and r: "r \<in> set rs"
    and s: "shows_only s now (cache_is_current cg rs rp db)" and now: "now \<le> later"
  obtains s' where "cached_read cg rp r now later (s, db) = (rp_read rp r db, s', db)"
    and "shows_only s' later (cache_is_current cg rs rp db)"
proof -
  define factory where "factory = (\<lambda>db. (rp_read rp r db, db))"
  define opts where "opts = Some \<lparr>cs_ttl = Some (cg_ttl cg), cs_l2Ttl = None\<rparr>"
  have f: "factory db = (rp_read rp r db, db)" by (simp add: factory_def)
  have agrees: "\<forall>v. cache_is_current cg rs rp db (cacheKey cg r) v \<longleftrightarrow> fst (factory db) = Inr v"
    unfolding f by (rule read_factory_agrees[OF unique r])
  obtain v s' db' where g: "mu_getOrSet mu s now later (cacheKey cg r) factory opts db = (v, s', db')"
    using prod_cases3 by blast
  have "v = rp_read rp r db"
    using getOrSet_answers(1)[where Q = "cache_is_current cg rs rp db" and factory = factory and w = db and opts = opts, OF s now agrees] by (simp only: g fst_conv f)
  moreover have "shows_only s' later (cache_is_current cg rs rp db)"
    using getOrSet_answers(2)[where Q = "cache_is_current cg rs rp db" and factory = factory and w = db and opts = opts, OF s now agrees] by (simp only: g fst_conv snd_conv)
  moreover have "db' = db"
    using getOrSet_answers(3)[where Q = "cache_is_current cg rs rp db" and factory = factory and w = db and opts = opts, OF s now agrees] by (simp add: g f)
  moreover have "cached_read cg rp r now later (s, db) = mu_getOrSet mu s now later (cacheKey cg r) factory opts db"
    by (simp only: cached_read_def prod.case factory_def opts_def cg)
  ultimately show ?thesis using that g by simp
qed

lemma cached_write_answers:
  assumes cg: "cg_cache cg = mu" and failed: "failed_writes_change_nothing rp"
    and s: "shows_only s now (cache_is_current cg rs rp db)" and w: "rp_write rp x db = (r, db')"
  obtains s' where "cached_write cg rp x (s, db) = (r, s', db')" and "shows_only s' now (cache_is_current cg rs rp db')"
proof (cases r)
  case (Inl e)
  have "rp_write rp x db = (Inl e, db')" using w Inl by simp
  then have "db' = db" using failed unfolding failed_writes_change_nothing_def by blast
  then show ?thesis using that[of s] s by (simp add: cached_write_def w Inl)
next
  case (Inr v)
  have "\<not> starts_with k (cg_collectionName cg) \<Longrightarrow> cache_is_current cg rs rp db' k u" for k u
    by (auto simp: cache_is_current_def cacheKey_def)
  then have "shows_only (invalidateCache cg s) now (cache_is_current cg rs rp db')"
    using shows_only_delByPrefix[of s "cg_collectionName cg" now] unfolding shows_only_def invalidateCache_def cg by blast
  then show ?thesis using that[of "invalidateCache cg s"] by (simp add: cached_write_def w Inr)
qed

lemma cached_calls_answer:
  assumes cg: "cg_cache cg = mu" and unique: "keys_are_unique cg rs" and failed: "failed_writes_change_nothing rp"
  shows "set (reads_of cs) \<subseteq> set rs \<Longrightarrow> clock_ok t0 cs \<Longrightarrow> shows_only s t0 (cache_is_current cg rs rp db) \<Longrightarrow> cached_calls cg rp cs (s, db) = plain_calls rp cs db"
proof (induction cs arbitrary: t0 s db)
  case (Cons c cs)
  show ?case
  proof (cases c)
    case (Read r now later)
    have t: "t0 \<le> now" "now \<le> later" "clock_ok later cs" "r \<in> set rs" "set (reads_of cs) \<subseteq> set rs" using Cons.prems(1,2) by (simp_all add: Read)
    obtain s' where r: "cached_read cg rp r now later (s, db) = (rp_read rp r db, s', db)"
      and s': "shows_only s' later (cache_is_current cg rs rp db)"
      using cached_read_answers[OF cg unique t(4) shows_only_later[OF Cons.prems(3) t(1)] t(2)] by blast
    show ?thesis by (simp only: Read cached_calls.simps plain_calls.simps r prod.case Cons.IH[OF t(5,3) s'])
  next
    case (Write x now)
    have t: "t0 \<le> now" "clock_ok now cs" "set (reads_of cs) \<subseteq> set rs" using Cons.prems(1,2) by (simp_all add: Write)
    obtain r db' where w: "rp_write rp x db = (r, db')" by (cases "rp_write rp x db")
    obtain s' where x: "cached_write cg rp x (s, db) = (r, s', db')"
      and s': "shows_only s' now (cache_is_current cg rs rp db')"
      using cached_write_answers[OF cg failed shows_only_later[OF Cons.prems(3) t(1)] w] by blast
    show ?thesis by (simp only: Write cached_calls.simps plain_calls.simps w x prod.case Cons.IH[OF t(3,2) s'])
  qed
qed simp

end


definition counter_repository :: "(unit, unit, int, int, string, int) repository" where
  "counter_repository = \<lparr>rp_read = (\<lambda>r n. case r of Count _ \<Rightarrow> Inr n | _ \<Rightarrow> Inl ''unsupported''),
     rp_write = (\<lambda>x n. case x of Create d \<Rightarrow> (if d < 0 then (Inl ''negative'', n) else (Inr d, n + d)) | _ \<Rightarrow> (Inl ''unsupported'', n))\<rparr>"

definition counter_config :: "(int memory_cache, int memory_cache, unit, unit, int) cached_config" where
  "counter_config = \<lparr>cg_cache = two_memory_layers 300 (\<lambda>_. Some 10), cg_collectionName = ''counters'', cg_ttl = 300,
     cg_md5 = (\<lambda>s. s), cg_argsJson = (\<lambda>_. ''[]'')\<rparr>"

lemma counter_writes: "failed_writes_change_nothing counter_repository"
  by (auto simp: failed_writes_change_nothing_def counter_repository_def split: repo_write.splits if_splits)


text \<open>A write that throws after changing the database (a bulk insert that fails half way) leaves the old answers in the cache.\<close>

lemma failed_write_leaves_cache:
  assumes "rp_write rp x db = (Inl e, db')"
  shows "cached_write cg rp x (s, db) = (Inl e, s, db')"
  using assms by (simp add: cached_write_def)

end
