(* ===== verification/Api_Contract.thy ===== *)
theory Api_Contract
  imports Js_Text
begin

text \<open>
  \<open>packages/api-test/src/methods/contract.ts\<close> and \<open>regression.ts\<close>, with the schema check of \<open>runner.ts\<close>: a schema is
  inferred from a recorded body, later bodies are validated against it, and their structure is compared with
  a baseline. Bodies are JSON values whose objects have distinct keys, none of them a name of
  \<open>Object.prototype\<close>. The specification is an inductive typing relation between schemas and bodies.
\<close>

section \<open>Schemas\<close>

datatype contract_schema = Schema (sc_type: string) (sc_properties: "(string \<times> contract_schema) list option")
  (sc_items: "contract_schema option") (sc_required: "string list option") (sc_nullable: bool)
  (sc_additional: "bool option")

abbreviation plain_schema :: "string \<Rightarrow> contract_schema" where
  "plain_schema t \<equiv> Schema t None None None False None"

fun js_typeof :: "json \<Rightarrow> string" where
  "js_typeof (JBool _) = ''boolean''"
| "js_typeof (JNum _) = ''number''"
| "js_typeof (JStr _) = ''string''"
| "js_typeof _ = ''object''"

definition inferType :: "json \<Rightarrow> string" where
  "inferType x = (case x of JNull \<Rightarrow> ''null'' | JArr _ \<Rightarrow> ''array'' | _ \<Rightarrow> js_typeof x)"

fun inferSchema :: "json \<Rightarrow> contract_schema" and infer_fields :: "(string \<times> json) list \<Rightarrow> (string \<times> contract_schema) list" where
  "inferSchema JNull = Schema ''null'' None None None True None"
| "inferSchema (JArr []) = Schema ''array'' None (Some (plain_schema ''object'')) None False None"
| "inferSchema (JArr (x # xs)) = Schema ''array'' None (Some (inferSchema x)) None False None"
| "inferSchema (JObj kvs) = Schema ''object'' (Some (infer_fields kvs)) None
     (Some (map fst (filter (\<lambda>(k, v). v \<noteq> JNull) kvs))) False (Some False)"
| "inferSchema x = plain_schema (inferType x)"
| "infer_fields [] = []"
| "infer_fields ((k, v) # kvs) = (k, inferSchema v) # infer_fields kvs"

section \<open>Validation\<close>

definition in_quotes :: "string \<Rightarrow> string" where
  "in_quotes s = CHR 0x22 # s @ [CHR 0x22]"

definition type_error :: "string \<Rightarrow> string \<Rightarrow> string \<Rightarrow> string" where
  "type_error path expected got = path @ '': expected '' @ expected @ '', got '' @ got"

definition missing_fields :: "string \<Rightarrow> string list option \<Rightarrow> json_record \<Rightarrow> string list" where
  "missing_fields path req obj =
     map (\<lambda>k. path @ '': missing required field '' @ in_quotes k) (filter (\<lambda>k. \<not> jm_has obj k) (or_else req []))"

definition unexpected_fields :: "string \<Rightarrow> bool option \<Rightarrow> (string \<times> contract_schema) list option \<Rightarrow> json_record \<Rightarrow> string list" where
  "unexpected_fields path additional props obj = (case props of
     Some ps \<Rightarrow> if additional = Some False
       then map (\<lambda>k. path @ '': unexpected field '' @ in_quotes k) (filter (\<lambda>k. k \<notin> set (jm_keys ps)) (jm_keys obj)) else []
   | None \<Rightarrow> [])"

fun validateSchema :: "json \<Rightarrow> contract_schema \<Rightarrow> string \<Rightarrow> string list"
  and validate_props :: "json_record \<Rightarrow> (string \<times> contract_schema) list \<Rightarrow> string \<Rightarrow> string list" where
  "validateSchema body (Schema t props items req nullable additional) path =
     (if nullable \<and> body = JNull then []
      else if t = ''object'' then (case body of
          JObj obj \<Rightarrow> missing_fields path req obj
            @ (case props of None \<Rightarrow> [] | Some ps \<Rightarrow> validate_props obj ps path)
            @ unexpected_fields path additional props obj
        | JArr _ \<Rightarrow> [type_error path ''object'' ''array'']
        | _ \<Rightarrow> [type_error path ''object'' (js_typeof body)])
      else if t = ''array'' then (case body of
          JArr (x # xs) \<Rightarrow> (case items of None \<Rightarrow> [] | Some i \<Rightarrow> validateSchema x i (path @ ''[0]''))
        | JArr [] \<Rightarrow> []
        | _ \<Rightarrow> [type_error path ''array'' (js_typeof body)])
      else (let actualType = (if body = JNull then ''null'' else js_typeof body)
            in if actualType \<noteq> t then [type_error path t actualType] else []))"
| "validate_props obj [] path = []"
| "validate_props obj ((k, f) # ps) path =
     (case jm_get obj k of None \<Rightarrow> [] | Some v \<Rightarrow> validateSchema v f (path @ ''.'' @ k)) @ validate_props obj ps path"

section \<open>The typing relation\<close>

inductive conforms :: "json \<Rightarrow> contract_schema \<Rightarrow> bool" where
  conforms_null: "conforms JNull (Schema t props items req True additional)"
| conforms_object:
    "\<lbrakk> \<And>k. k \<in> set (or_else req []) \<Longrightarrow> jm_has obj k;
       \<And>k f v. (k, f) \<in> set (or_else props []) \<Longrightarrow> jm_get obj k = Some v \<Longrightarrow> conforms v f;
       \<And>ps. additional = Some False \<Longrightarrow> props = Some ps \<Longrightarrow> set (jm_keys obj) \<subseteq> set (jm_keys ps) \<rbrakk>
     \<Longrightarrow> conforms (JObj obj) (Schema ''object'' props items req nullable additional)"
| conforms_empty_array: "conforms (JArr []) (Schema ''array'' props items req nullable additional)"
| conforms_any_array: "conforms (JArr xs) (Schema ''array'' props None req nullable additional)"
| conforms_array: "conforms x i \<Longrightarrow> conforms (JArr (x # xs)) (Schema ''array'' props (Some i) req nullable additional)"
| conforms_scalar: "t \<notin> {''object'', ''array''} \<Longrightarrow> t = (if x = JNull then ''null'' else js_typeof x)
     \<Longrightarrow> conforms x (Schema t props items req nullable additional)"

inductive_simps conforms_object_simps: "conforms x (Schema ''object'' props items req nullable additional)"
inductive_simps conforms_array_simps: "conforms x (Schema ''array'' props items req nullable additional)"
inductive_simps conforms_other_simps: "conforms x (Schema t props items req nullable additional)"

lemma missing_fields_Nil: "missing_fields path req obj = [] \<longleftrightarrow> (\<forall>k\<in>set (or_else req []). jm_has obj k)"
  by (auto simp: missing_fields_def filter_empty_conv)

lemma unexpected_fields_Nil:
  "unexpected_fields path additional props obj = []
     \<longleftrightarrow> (\<forall>ps. additional = Some False \<longrightarrow> props = Some ps \<longrightarrow> set (jm_keys obj) \<subseteq> set (jm_keys ps))"
  by (auto simp: unexpected_fields_def filter_empty_conv split: option.splits)

lemma type_error_not_Nil [simp]: "type_error path a b \<noteq> []"
  by (simp add: type_error_def)

text \<open>Validation decides the typing relation.\<close>

lemma validateSchema_decides:
  "validateSchema x s path = [] \<longleftrightarrow> conforms x s"
  and validate_props_decides: "validate_props obj ps path = [] \<longleftrightarrow> (\<forall>k f v. (k, f) \<in> set ps \<longrightarrow> jm_get obj k = Some v \<longrightarrow> conforms v f)"
proof (induction x s path and obj ps path rule: validateSchema_validate_props.induct)
  case (1 x t props items req nullable additional path)
  consider "nullable \<and> x = JNull" | "\<not> (nullable \<and> x = JNull)" "t = ''object''" | "\<not> (nullable \<and> x = JNull)" "t = ''array''"
    | "\<not> (nullable \<and> x = JNull)" "t \<noteq> ''object''" "t \<noteq> ''array''" by blast
  then show ?case
  proof cases
    case 1
    then show ?thesis by (auto intro: conforms_null)
  next
    case 2
    show ?thesis
    proof (cases x)
      case (JObj obj)
      show ?thesis
        using 1(1)[OF 2 JObj] 2
        by (cases props) (auto simp: JObj conforms_object_simps missing_fields_Nil unexpected_fields_Nil or_else_def)
    qed (use 2 in \<open>auto simp: conforms_object_simps\<close>)
  next
    case 3
    show ?thesis
    proof (cases x)
      case (JArr xs)
      show ?thesis
      proof (cases xs)
        case (Cons y ys)
        show ?thesis
          using 1(2)[OF 3(1) _ 3(2) JArr Cons] 3
          by (cases items) (auto simp: JArr Cons conforms_array_simps)
      qed (use 3 in \<open>auto simp: JArr conforms_array_simps\<close>)
    qed (use 3 in \<open>auto simp: conforms_array_simps\<close>)
  next
    case 4
    then show ?thesis by (auto simp: conforms_other_simps[of x t] Let_def)
  qed
next
  case (3 obj k f ps path)
  then show ?case by (cases "jm_get obj k") auto
qed simp

section \<open>The inferred schema\<close>

lemma infer_fields_keys [simp]: "jm_keys (infer_fields kvs) = jm_keys kvs"
  by (induction kvs) auto

lemma infer_fields_keyset [simp]: "fst ` set (infer_fields kvs) = fst ` set kvs"
  by (simp only: set_map[symmetric] infer_fields_keys)

lemma infer_fields_map: "infer_fields kvs = map (\<lambda>(k, v). (k, inferSchema v)) kvs"
  by (induction kvs) auto

lemma infer_required: "k \<in> fst ` set (filter (\<lambda>(k, v). v \<noteq> JNull) kvs) \<Longrightarrow> jm_has kvs k"
proof -
  assume "k \<in> fst ` set (filter (\<lambda>(k, v). v \<noteq> JNull) kvs)"
  then have "k \<in> fst ` set kvs" by force
  then show ?thesis by (simp add: map_of_eq_None_iff)
qed

lemma conforms_object_infer:
  assumes "jm_wf kvs" and "\<And>k v. (k, v) \<in> set kvs \<Longrightarrow> conforms v (inferSchema v)"
  shows "conforms (JObj kvs) (inferSchema (JObj kvs))"
  unfolding inferSchema.simps
proof (rule conforms_object)
  fix k
  assume "k \<in> set (or_else (Some (map fst (filter (\<lambda>(k, v). v \<noteq> JNull) kvs))) [])"
  then show "jm_has kvs k" using infer_required by (simp add: or_else_def)
next
  fix k f v
  assume f: "(k, f) \<in> set (or_else (Some (infer_fields kvs)) [])" and v: "jm_get kvs k = Some v"
  from f obtain w where w: "(k, w) \<in> set kvs" "f = inferSchema w"
    by (auto simp: infer_fields_map or_else_def)
  then have "w = v" using assms(1) v by (simp add: jm_wf_get_iff[symmetric])
  then show "conforms v f" using assms(2) w by simp
qed simp

lemma infer_conforms:
  "json_wf x \<Longrightarrow> conforms x (inferSchema x)"
  and "elems_wf xs \<Longrightarrow> \<forall>x\<in>set xs. conforms x (inferSchema x)"
  and "members_wf kvs \<Longrightarrow> \<forall>(k, v)\<in>set kvs. conforms v (inferSchema v)"
proof (induction x and xs and kvs rule: json_wf_elems_wf_members_wf.induct)
  case (1 xs)
  show ?case
  proof (cases xs)
    case Nil
    show ?thesis unfolding Nil inferSchema.simps by (rule conforms_empty_array)
  next
    case (Cons y ys)
    then have "conforms y (inferSchema y)" using 1 by simp
    then show ?thesis unfolding Cons inferSchema.simps by (rule conforms_array)
  qed
next
  case (2 kvs)
  have wf: "jm_wf kvs" "members_wf kvs" using "2.prems" by simp_all
  show ?case by (rule conforms_object_infer[OF wf(1)]) (use "2.IH"[OF wf(2)] in blast)
next
  case "3_1"
  show ?case by (simp add: conforms_null)
next
  case "3_2"
  show ?case by (simp add: conforms_scalar inferType_def)
next
  case "3_3"
  show ?case by (simp add: conforms_scalar inferType_def)
next
  case "3_4"
  show ?case by (simp add: conforms_scalar inferType_def)
next
  case (5 x xs)
  then show ?case by simp
next
  case (7 k v kvs)
  then show ?case by simp
qed simp_all

lemma conforms_scalar_type:
  assumes "conforms w (Schema t props items req nullable additional)" and "t \<notin> {''object'', ''array''}" and "nullable \<longrightarrow> t = ''null''"
  shows "inferType w = t"
  using assms(1)
proof (cases rule: conforms.cases)
  case conforms_scalar
  then show ?thesis using assms(2) by (cases w) (simp_all add: inferType_def)
qed (use assms(2,3) in \<open>simp_all add: inferType_def\<close>)

lemma infer_fixes_type:
  assumes "conforms w (inferSchema v)"
  shows "inferType w = inferType v"
proof (cases v)
  case (JArr xs)
  then show ?thesis using assms by (cases xs) (auto simp: conforms_array_simps inferType_def)
next
  case (JObj kvs)
  then show ?thesis using assms by (auto simp: conforms_object_simps inferType_def)
next
  case JNull
  have "inferType w = ''null''"
    by (rule conforms_scalar_type[OF assms[unfolded JNull inferSchema.simps]]) simp_all
  then show ?thesis by (simp add: JNull inferType_def)
qed (use assms in \<open>auto dest!: conforms_scalar_type simp: inferType_def split: json.splits\<close>)

lemma inferred_object_fields:
  assumes "jm_wf kvs" and "conforms (JObj obj) (inferSchema (JObj kvs))" and "jm_get kvs k = Some v" and "v \<noteq> JNull"
  obtains w where "jm_get obj k = Some w" and "inferType w = inferType v"
proof -
  have in_kvs: "(k, v) \<in> set kvs" using assms(3) by (rule map_of_SomeD)
  have "k \<in> set (map fst (filter (\<lambda>(k, v). v \<noteq> JNull) kvs))" using in_kvs assms(4) by force
  then have "jm_has obj k" using assms(2) by (simp add: conforms_object_simps or_else_def)
  then obtain w where w: "jm_get obj k = Some w" by blast
  have "(k, inferSchema v) \<in> set (infer_fields kvs)" using in_kvs by (force simp: infer_fields_map)
  then have "conforms w (inferSchema v)" using assms(2) w by (simp add: conforms_object_simps or_else_def)
  then show ?thesis using that w infer_fixes_type by blast
qed

lemma inferred_schema_detects:
  assumes "json_wf (JObj kvs)"
  shows "validateSchema (JObj kvs) (inferSchema (JObj kvs)) path = []"
    and "validateSchema x s path = [] \<longleftrightarrow> conforms x s"
    and "jm_get kvs k = Some v \<Longrightarrow> v \<noteq> JNull \<Longrightarrow> validateSchema (JObj (jm_del kvs k)) (inferSchema (JObj kvs)) path \<noteq> []"
    and "\<not> jm_has kvs j \<Longrightarrow> validateSchema (JObj (jm_set kvs j w)) (inferSchema (JObj kvs)) path \<noteq> []"
    and "jm_get kvs k = Some v \<Longrightarrow> v \<noteq> JNull \<Longrightarrow> inferType w \<noteq> inferType v
      \<Longrightarrow> validateSchema (JObj (jm_set kvs k w)) (inferSchema (JObj kvs)) path \<noteq> []"
proof -
  have wf: "jm_wf kvs" using assms by simp
  show "validateSchema (JObj kvs) (inferSchema (JObj kvs)) path = []"
    unfolding validateSchema_decides by (rule infer_conforms(1)[OF assms])
  show "validateSchema x s path = [] \<longleftrightarrow> conforms x s" by (rule validateSchema_decides)
  show "validateSchema (JObj (jm_del kvs k)) (inferSchema (JObj kvs)) path \<noteq> []" if "jm_get kvs k = Some v" "v \<noteq> JNull"
    using that inferred_object_fields[OF wf _ that] unfolding validateSchema_decides by (metis jm_get_del option.distinct(1))
  show "validateSchema (JObj (jm_set kvs k w)) (inferSchema (JObj kvs)) path \<noteq> []"
    if "jm_get kvs k = Some v" "v \<noteq> JNull" "inferType w \<noteq> inferType v"
    using that inferred_object_fields[OF wf _ that(1,2)] unfolding validateSchema_decides by (metis jm_get_set option.inject)
  show "validateSchema (JObj (jm_set kvs j w)) (inferSchema (JObj kvs)) path \<noteq> []" if "\<not> jm_has kvs j"
  proof
    assume "validateSchema (JObj (jm_set kvs j w)) (inferSchema (JObj kvs)) path = []"
    then have "set (jm_keys (jm_set kvs j w)) \<subseteq> set (jm_keys kvs)"
      unfolding validateSchema_decides by (simp add: conforms_object_simps)
    moreover have "j \<in> set (jm_keys (jm_set kvs j w))" by (simp add: jm_keys_set)
    ultimately show False using that by (auto simp: map_of_eq_None_iff)
  qed
qed



text \<open>Only the first element of an array is looked at, in the recording and in the check.\<close>

lemma array_tail_unchecked:
  "inferSchema (JArr (x # xs)) = inferSchema (JArr [x])"
  "validateSchema (JArr (x # xs)) (inferSchema (JArr (y # ys))) path = validateSchema (JArr [x]) (inferSchema (JArr [y])) path"
  by (simp_all split: option.split)

text \<open>An array that was empty when recorded may later hold only objects.\<close>

lemma empty_array_wants_objects:
  "validateSchema (JArr (JStr s # xs)) (inferSchema (JArr [])) path \<noteq> []"
  by (simp add: type_error_def)

section \<open>Regression baselines\<close>

record regression_baseline =
  bl_status :: int
  bl_bodyStructure :: "(string, string) jsmap"
  bl_keyFields :: "(string, json) jsmap"

abbreviation or_root :: "string \<Rightarrow> string" where
  "or_root pfx \<equiv> (if pfx = [] then ''$'' else pfx)"

definition assign_all :: "('k, 'v) jsmap \<Rightarrow> ('k, 'v) jsmap \<Rightarrow> ('k, 'v) jsmap" where
  "assign_all m n = fold (\<lambda>(k, v) m. jm_set m k v) n m"

fun extractBodyStructure :: "json \<Rightarrow> string \<Rightarrow> (string, string) jsmap"
  and structure_fields :: "(string \<times> json) list \<Rightarrow> string \<Rightarrow> (string, string) jsmap \<Rightarrow> (string, string) jsmap" where
  "extractBodyStructure JNull pfx = []"
| "extractBodyStructure (JArr xs) pfx = assign_all [(or_root pfx, ''array'')]
     (case xs of [] \<Rightarrow> [] | x # _ \<Rightarrow> extractBodyStructure x (or_root pfx @ ''[0]''))"
| "extractBodyStructure (JObj kvs) pfx = structure_fields kvs pfx []"
| "extractBodyStructure x pfx = [(or_root pfx, js_typeof x)]"
| "structure_fields [] pfx result = result"
| "structure_fields ((k, v) # kvs) pfx result =
     (let path = (if pfx = [] then k else pfx @ ''.'' @ k); result = jm_set result path (inferType v)
      in structure_fields kvs pfx (case v of JObj _ \<Rightarrow> assign_all result (extractBodyStructure v path) | _ \<Rightarrow> result))"

definition is_scalar :: "json \<Rightarrow> bool" where
  "is_scalar v \<longleftrightarrow> js_typeof v \<noteq> ''object''"

definition extractKeyFields :: "json \<Rightarrow> (string, json) jsmap" where
  "extractKeyFields body = (case body of JObj kvs \<Rightarrow> filter (\<lambda>(k, v). is_scalar v) kvs | _ \<Rightarrow> [])"

definition baseline_of :: "int \<Rightarrow> json \<Rightarrow> regression_baseline" where
  "baseline_of status body = \<lparr>bl_status = status, bl_bodyStructure = extractBodyStructure body [],
     bl_keyFields = extractKeyFields body\<rparr>"

datatype baseline_diff = StatusChanged int int | MissingField string string | TypeChanged string string string
  | NewField string string | ValueDrift string json json

definition diffBaseline :: "regression_baseline \<Rightarrow> json \<Rightarrow> int \<Rightarrow> baseline_diff list" where
  "diffBaseline b body status =
     (let current = extractBodyStructure body []; currentKeys = extractKeyFields body
      in (if status \<noteq> bl_status b then [StatusChanged (bl_status b) status] else [])
       @ concat (map (\<lambda>(path, t). case jm_get current path of
             None \<Rightarrow> [MissingField path t]
           | Some t' \<Rightarrow> if t' \<noteq> t then [TypeChanged path t t'] else []) (bl_bodyStructure b))
       @ concat (map (\<lambda>(path, t). if jm_has (bl_bodyStructure b) path then [] else [NewField path t]) current)
       @ concat (map (\<lambda>(k, v). case jm_get currentKeys k of
             None \<Rightarrow> [] | Some v' \<Rightarrow> if v' \<noteq> v then [ValueDrift k v v'] else []) (bl_keyFields b)))"

lemma assign_all_wf: "jm_wf m \<Longrightarrow> jm_wf (assign_all m n)"
  unfolding assign_all_def by (induction n arbitrary: m) auto

lemma structure_wf:
  "jm_wf (extractBodyStructure x pfx)"
  and "jm_wf result \<Longrightarrow> jm_wf (structure_fields kvs pfx result)"
proof (induction x pfx and kvs pfx result rule: extractBodyStructure_structure_fields.induct)
  case (2 xs pfx)
  show ?case unfolding extractBodyStructure.simps by (rule assign_all_wf) (simp add: jm_wf_def)
next
  case (6 k v kvs pfx result)
  then show ?case by (cases v) (simp_all add: Let_def assign_all_wf)
qed (simp_all add: assign_all_wf jm_wf_def)

lemma diff_structure_Nil:
  assumes "jm_wf old" and "jm_wf new"
  shows "concat (map (\<lambda>(path, t). case jm_get new path of None \<Rightarrow> [MissingField path t]
             | Some t' \<Rightarrow> if t' \<noteq> t then [TypeChanged path t t'] else []) old) = []
       \<and> concat (map (\<lambda>(path, t). if jm_has old path then [] else [NewField path t]) new) = []
     \<longleftrightarrow> (\<forall>path. jm_get new path = jm_get old path)" (is "?missing \<and> ?new \<longleftrightarrow> ?same")
proof -
  have m: "?missing \<longleftrightarrow> (\<forall>path t. jm_get old path = Some t \<longrightarrow> jm_get new path = Some t)"
    unfolding jm_wf_get_iff[OF assms(1)] by (fastforce split: option.splits if_splits)
  have n: "?new \<longleftrightarrow> (\<forall>path t. jm_get new path = Some t \<longrightarrow> jm_has old path)"
    unfolding jm_wf_get_iff[OF assms(2)] by (auto split: if_splits)
  show ?thesis unfolding m n by (metis not_Some_eq)
qed

lemma key_fields_wf: "json_wf body \<Longrightarrow> jm_wf (extractKeyFields body)"
  by (cases body) (simp_all add: extractKeyFields_def)

text \<open>The diff is empty exactly when the status, the structure and the shared top-level scalars agree; so a baseline
  accepts the response it was taken from.\<close>

theorem baseline_diff_is_exact:
  assumes "json_wf old"
  shows "diffBaseline (baseline_of status old) new status' = [] \<longleftrightarrow>
      status' = status \<and> (\<forall>path. jm_get (extractBodyStructure new []) path = jm_get (extractBodyStructure old []) path)
      \<and> (\<forall>k v v'. jm_get (extractKeyFields old) k = Some v \<longrightarrow> jm_get (extractKeyFields new) k = Some v' \<longrightarrow> v = v')"
    and "diffBaseline (baseline_of status old) old status = []"
proof -
  have exact: "diffBaseline (baseline_of status old) new status' = [] \<longleftrightarrow>
      status' = status \<and> (\<forall>path. jm_get (extractBodyStructure new []) path = jm_get (extractBodyStructure old []) path)
      \<and> (\<forall>k v v'. jm_get (extractKeyFields old) k = Some v \<longrightarrow> jm_get (extractKeyFields new) k = Some v' \<longrightarrow> v = v')" for new status'
  proof -
    have k: "concat (map (\<lambda>(k, v). case jm_get (extractKeyFields new) k of None \<Rightarrow> [] | Some v' \<Rightarrow> if v' \<noteq> v then [ValueDrift k v v'] else [])
          (extractKeyFields old)) = []
        \<longleftrightarrow> (\<forall>k v v'. jm_get (extractKeyFields old) k = Some v \<longrightarrow> jm_get (extractKeyFields new) k = Some v' \<longrightarrow> v = v')"
      unfolding jm_wf_get_iff[OF key_fields_wf[OF assms(1)]] by (fastforce split: option.splits if_splits)
    show ?thesis
      using diff_structure_Nil[OF structure_wf(1)[of old "[]"] structure_wf(1)[of new "[]"]] k
      by (auto simp: diffBaseline_def baseline_of_def Let_def)
  qed
  show "diffBaseline (baseline_of status old) new status' = [] \<longleftrightarrow>
      status' = status \<and> (\<forall>path. jm_get (extractBodyStructure new []) path = jm_get (extractBodyStructure old []) path)
      \<and> (\<forall>k v v'. jm_get (extractKeyFields old) k = Some v \<longrightarrow> jm_get (extractKeyFields new) k = Some v' \<longrightarrow> v = v')"
    by (rule exact)
  show "diffBaseline (baseline_of status old) old status = []" by (simp add: exact)
qed

text \<open>Fields of the elements of a nested array belong to no path: a change there passes.\<close>

lemma nested_array_unseen:
  "diffBaseline (baseline_of 200 (JObj [(''items'', JArr [JObj [(''id'', JNum 1)]])])) (JObj [(''items'', JArr [JStr s])]) 200 = []"
  by (simp add: diffBaseline_def baseline_of_def extractKeyFields_def is_scalar_def assign_all_def inferType_def Let_def)

end
