(* ===== verification/Api_Runner.thy ===== *)
theory Api_Runner
  imports Api_Contract
begin

text \<open>
  \<open>packages/api-test/src/utils.ts\<close>, \<open>types.ts\<close>, \<open>runner.ts\<close> and the placeholders of \<open>methods/flow.ts\<close>: URLs and headers of a
  request, the verdict on a response, and the run of the test suites with its filters, flow variables, bursts
  and bail-out. The server is a function of the request and of its own state; \<open>JSON.stringify\<close>,
  \<open>JSON.parse\<close>, \<open>encodeURIComponent\<close>, \<open>URLSearchParams\<close> and base64 are parameters. Messages are constructors; names
  and descriptions of tests are left out.
\<close>

section \<open>Requests\<close>

datatype auth_config = Bearer "string option" | ApiKey "string option" "string option" | Cookie "string option" "string option"
  | Basic "string option" "string option" | NoAuth

record api_config =
  ac_host :: string
  ac_basePath :: "string option"
  ac_auth :: "auth_config option"
  ac_headers :: "(string, string) jsmap option"

record endpoint_config =
  ep_method :: string
  ep_path :: string
  ep_headers :: "(string, string) jsmap option"
  ep_params :: "(string, string) jsmap option"
  ep_query :: "(string, string) jsmap option"
  ep_body :: "json option"
  ep_cookies :: "(string, string) jsmap option"

record api_env =
  av_encodeURIComponent :: "string \<Rightarrow> string"
  av_searchParams :: "(string, string) jsmap \<Rightarrow> string"
  av_base64 :: "string \<Rightarrow> string"
  av_stringify :: "json \<Rightarrow> string"
  av_String :: "json \<Rightarrow> string"
  av_parse :: "string \<Rightarrow> json option"
  av_baseline :: "string \<Rightarrow> regression_baseline option"

text \<open>\<open>s.replace(p, r)\<close> with a string \<open>p\<close>: the first occurrence.\<close>

fun replace_first :: "string \<Rightarrow> string \<Rightarrow> string \<Rightarrow> string" where
  "replace_first p r [] = (if p = [] then r else [])"
| "replace_first p r (c # cs) = (if starts_with (c # cs) p then r @ drop (length p) (c # cs) else c # replace_first p r cs)"

definition strip_end :: "string \<Rightarrow> string" where
  "strip_end s = rev (dropWhile (\<lambda>c. c = CHR ''/'') (rev s))"

definition strip_slashes :: "string \<Rightarrow> string" where
  "strip_slashes s = strip_end (dropWhile (\<lambda>c. c = CHR ''/'') s)"

definition truthy_string :: "string option \<Rightarrow> bool" where
  "truthy_string s \<longleftrightarrow> s \<noteq> None \<and> s \<noteq> Some []"

definition buildUrl :: "api_env \<Rightarrow> api_config \<Rightarrow> endpoint_config \<Rightarrow> string" where
  "buildUrl env cfg ep =
     (let path = fold (\<lambda>(key, val) path. replace_first ('':'' @ key) (av_encodeURIComponent env val) path) (or_else (ep_params ep) []) (ep_path ep);
          bp = (if truthy_string (ac_basePath cfg) then ''/'' @ strip_slashes (the (ac_basePath cfg)) else []);
          url = strip_end (ac_host cfg) @ bp @ path
      in (case ep_query ep of
            Some q \<Rightarrow> if q \<noteq> [] then url @ ''?'' @ av_searchParams env q else url
          | None \<Rightarrow> url))"

definition auth_headers :: "api_env \<Rightarrow> auth_config option \<Rightarrow> (string, string) jsmap \<Rightarrow> (string, string) jsmap" where
  "auth_headers env auth headers = (case auth of
     Some (Bearer token) \<Rightarrow> if truthy_string token then jm_set headers ''Authorization'' (''Bearer '' @ the token) else headers
   | Some (ApiKey headerName token) \<Rightarrow>
       if truthy_string headerName \<and> truthy_string token then jm_set headers (the headerName) (the token) else headers
   | Some (Basic username password) \<Rightarrow> if truthy_string username \<and> truthy_string password
       then jm_set headers ''Authorization'' (''Basic '' @ av_base64 env (the username @ '':'' @ the password)) else headers
   | Some (Cookie cookieName cookieValue) \<Rightarrow> if truthy_string cookieName \<and> truthy_string cookieValue
       then jm_set headers ''Cookie'' (the cookieName @ ''='' @ the cookieValue) else headers
   | _ \<Rightarrow> headers)"

definition cookie_headers :: "(string, string) jsmap option \<Rightarrow> (string, string) jsmap \<Rightarrow> (string, string) jsmap" where
  "cookie_headers cookies headers = (case cookies of None \<Rightarrow> headers | Some cs \<Rightarrow>
     (let existing = jm_get headers ''Cookie''; extra = js_join ''; '' (map (\<lambda>(k, v). k @ ''='' @ v) cs)
      in jm_set headers ''Cookie'' (if truthy_string existing then the existing @ ''; '' @ extra else extra)))"

definition buildHeaders :: "api_env \<Rightarrow> api_config \<Rightarrow> endpoint_config \<Rightarrow> (string, string) jsmap" where
  "buildHeaders env cfg ep =
     (let headers = (if ep_body ep \<noteq> None \<and> ep_method ep \<in> {''POST'', ''PUT'', ''PATCH''}
            then [(''Content-Type'', ''application/json'')] else []);
          headers = assign_all headers (or_else (ac_headers cfg) []);
          headers = auth_headers env (ac_auth cfg) headers
      in cookie_headers (ep_cookies ep) (assign_all headers (or_else (ep_headers ep) [])))"

section \<open>Test cases\<close>

record test_request =
  rq_method :: string
  rq_url :: string
  rq_headers :: "(string, string) jsmap"
  rq_body :: "json option"

record expectation =
  ex_status :: "int list"
  ex_bodyContains :: "string list option"
  ex_bodyNotContains :: "string list option"
  ex_headerPresent :: "string list option"
  ex_maxDuration :: "int option"
  ex_schema :: "contract_schema option"
  ex_baselineMatch :: bool
  ex_specFields :: "(string \<times> bool) list option"

record test_case =
  tc_id :: string
  tc_category :: string
  tc_request :: test_request
  tc_expect :: expectation
  tc_flowName :: "string option"
  tc_extractVariables :: "(string, string) jsmap option"
  tc_burstCount :: int
  tc_sequential :: bool
  tc_baselinePath :: "string option"

record api_response =
  rs_status :: int
  rs_headers :: "(string, string) jsmap"
  rs_body :: json
  rs_duration :: int

datatype fail_reason = WrongStatus "int list" int | BodyMissing string | SchemaMismatch string | Regression baseline_diff
  | BodyForbidden string | TooSlow int int | SpecMissing string | SpecUnknown string | RequestFailed string

record test_result =
  re_case :: test_case
  re_status :: int
  re_body :: json
  re_reason :: "fail_reason option"

abbreviation re_passed :: "test_result \<Rightarrow> bool" where
  "re_passed r \<equiv> re_reason r = None"

section \<open>The verdict\<close>

definition body_text :: "api_env \<Rightarrow> json \<Rightarrow> string" where
  "body_text env body = (case body of JStr s \<Rightarrow> s | _ \<Rightarrow> av_stringify env body)"

definition first_where :: "('a \<Rightarrow> bool) \<Rightarrow> ('a \<Rightarrow> fail_reason) \<Rightarrow> 'a list \<Rightarrow> fail_reason option" where
  "first_where P f xs = map_option f (find P xs)"

definition status_check :: "expectation \<Rightarrow> api_response \<Rightarrow> fail_reason option" where
  "status_check ex r = (if rs_status r \<in> set (ex_status ex) then None else Some (WrongStatus (ex_status ex) (rs_status r)))"

definition contains_check :: "api_env \<Rightarrow> expectation \<Rightarrow> api_response \<Rightarrow> fail_reason option" where
  "contains_check env ex r = first_where (\<lambda>needle. \<not> sublist needle (body_text env (rs_body r))) BodyMissing (or_else (ex_bodyContains ex) [])"

definition schema_check :: "expectation \<Rightarrow> api_response \<Rightarrow> fail_reason option" where
  "schema_check ex r = (case ex_schema ex of None \<Rightarrow> None
     | Some s \<Rightarrow> (case validateSchema (rs_body r) s ''$'' of [] \<Rightarrow> None | e # _ \<Rightarrow> Some (SchemaMismatch e)))"

definition baseline_check :: "api_env \<Rightarrow> test_case \<Rightarrow> api_response \<Rightarrow> fail_reason option" where
  "baseline_check env tc r =
     (if ex_baselineMatch (tc_expect tc) \<and> truthy_string (tc_baselinePath tc)
      then (case av_baseline env (the (tc_baselinePath tc)) of
              None \<Rightarrow> None
            | Some b \<Rightarrow> (case diffBaseline b (rs_body r) (rs_status r) of [] \<Rightarrow> None | d # _ \<Rightarrow> Some (Regression d)))
      else None)"

definition forbidden_check :: "api_env \<Rightarrow> expectation \<Rightarrow> api_response \<Rightarrow> fail_reason option" where
  "forbidden_check env ex r =
     first_where (\<lambda>needle. sublist (to_lower needle) (to_lower (body_text env (rs_body r)))) BodyForbidden (or_else (ex_bodyNotContains ex) [])"

definition duration_check :: "expectation \<Rightarrow> api_response \<Rightarrow> fail_reason option" where
  "duration_check ex r = (case ex_maxDuration ex of None \<Rightarrow> None
     | Some m \<Rightarrow> if m \<noteq> 0 \<and> m < rs_duration r then Some (TooSlow (rs_duration r) m) else None)"

definition spec_check :: "expectation \<Rightarrow> api_response \<Rightarrow> fail_reason option" where
  "spec_check ex r = (case (ex_specFields ex, rs_body r) of
     (Some specFields, JObj obj) \<Rightarrow>
       (case first_where (\<lambda>(name, required). required \<and> \<not> jm_has obj name) (SpecMissing \<circ> fst) specFields of
          Some e \<Rightarrow> Some e
        | None \<Rightarrow> first_where (\<lambda>key. key \<notin> set (map fst specFields)) SpecUnknown (jm_keys obj))
   | _ \<Rightarrow> None)"

text \<open>Each check runs only while the test has passed.\<close>

fun first_failure :: "fail_reason option list \<Rightarrow> fail_reason option" where
  "first_failure [] = None"
| "first_failure (Some e # cs) = Some e"
| "first_failure (None # cs) = first_failure cs"

definition verdict :: "api_env \<Rightarrow> test_case \<Rightarrow> api_response \<Rightarrow> fail_reason option" where
  "verdict env tc r = (let ex = tc_expect tc in first_failure
     [status_check ex r, contains_check env ex r, schema_check ex r, baseline_check env tc r, forbidden_check env ex r,
      duration_check ex r, spec_check ex r])"

type_synonym 'w server = "test_request \<Rightarrow> 'w \<Rightarrow> (string + api_response) \<times> 'w"

definition runTestCase :: "api_env \<Rightarrow> 'w server \<Rightarrow> test_case \<Rightarrow> 'w \<Rightarrow> test_result \<times> 'w" where
  "runTestCase env server tc w = (case server (tc_request tc) w of
     (Inl err, w) \<Rightarrow> (\<lparr>re_case = tc, re_status = 0, re_body = JNull, re_reason = Some (RequestFailed err)\<rparr>, w)
   | (Inr r, w) \<Rightarrow> (\<lparr>re_case = tc, re_status = rs_status r, re_body = rs_body r, re_reason = verdict env tc r\<rparr>, w))"

section \<open>Flow variables\<close>

definition word_char :: "char \<Rightarrow> bool" where
  "word_char c \<longleftrightarrow> (let n = of_char c :: nat in 48 \<le> n \<and> n \<le> 57 \<or> 65 \<le> n \<and> n \<le> 90 \<or> n = 95 \<or> 97 \<le> n \<and> n \<le> 122)"

text \<open>A match of \<open>\{\{(\w+)\}\}\<close> at the start of a string: its key and what follows it.\<close>

definition placeholder :: "string \<Rightarrow> (string \<times> string) option" where
  "placeholder s = (let key = takeWhile word_char (drop 2 s); rest = dropWhile word_char (drop 2 s)
     in if starts_with s ''{{'' \<and> key \<noteq> [] \<and> starts_with rest ''}}'' then Some (key, drop 2 rest) else None)"

lemma placeholder_shorter: "placeholder s = Some (key, rest) \<Longrightarrow> length rest < length s"
  using length_dropWhile_le[of word_char "drop 2 s"]
  by (auto simp: placeholder_def Let_def prefix_def split: if_splits)

function substituteVariables :: "string \<Rightarrow> (string, string) jsmap \<Rightarrow> string" where
  "substituteVariables [] vars = []"
| "substituteVariables (c # cs) vars = (case placeholder (c # cs) of
     Some (key, rest) \<Rightarrow> or_else (jm_get vars key) (''{{'' @ key @ ''}}'') @ substituteVariables rest vars
   | None \<Rightarrow> c # substituteVariables cs vars)"
  by pat_completeness auto
termination by (relation "measure (length \<circ> fst)") (auto dest: placeholder_shorter)

definition substitute_body :: "api_env \<Rightarrow> (string, string) jsmap \<Rightarrow> json option \<Rightarrow> json option option" where
  "substitute_body env vars body = (case body of
     Some (JStr s) \<Rightarrow> Some (Some (JStr (substituteVariables s vars)))
   | Some (JArr xs) \<Rightarrow> map_option Some (av_parse env (substituteVariables (av_stringify env (JArr xs)) vars))
   | Some (JObj kvs) \<Rightarrow> map_option Some (av_parse env (substituteVariables (av_stringify env (JObj kvs)) vars))
   | _ \<Rightarrow> Some body)"

text \<open>\<open>None\<close>: the substituted text is not JSON, and the exception ends the whole run.\<close>

definition substitute_case :: "api_env \<Rightarrow> (string, string) jsmap \<Rightarrow> test_case \<Rightarrow> test_case option" where
  "substitute_case env vars tc =
     (if tc_flowName tc \<noteq> None \<and> vars \<noteq> []
      then map_option (\<lambda>body. tc\<lparr>tc_request := (tc_request tc)\<lparr>
               rq_url := substituteVariables (rq_url (tc_request tc)) vars,
               rq_body := body,
               rq_headers := map (\<lambda>(k, v). (k, substituteVariables v vars)) (rq_headers (tc_request tc))\<rparr>\<rparr>)
             (substitute_body env vars (rq_body (tc_request tc)))
      else Some tc)"

definition index_of_key :: "nat \<Rightarrow> string \<Rightarrow> nat option" where
  "index_of_key n key = find (\<lambda>i. js_of_nat i = key) [0..<n]"

definition js_member :: "json \<Rightarrow> string \<Rightarrow> json option" where
  "js_member x key = (case x of
     JObj kvs \<Rightarrow> jm_get kvs key
   | JArr xs \<Rightarrow> if key = ''length'' then Some (JNum (of_nat (length xs))) else map_option (\<lambda>i. xs ! i) (index_of_key (length xs) key)
   | JStr s \<Rightarrow> if key = ''length'' then Some (JNum (of_nat (length s))) else map_option (\<lambda>i. JStr [s ! i]) (index_of_key (length s) key)
   | _ \<Rightarrow> None)"

fun walk_path :: "json option \<Rightarrow> string list \<Rightarrow> json option" where
  "walk_path current [] = current"
| "walk_path None (p # ps) = None"
| "walk_path (Some x) (p # ps) = (if x = JNull then None else walk_path (js_member x p) ps)"

definition extractJsonPath :: "json \<Rightarrow> string \<Rightarrow> json option" where
  "extractJsonPath x path =
     walk_path (Some x) (js_split CHR ''.'' (if starts_with path ''body.'' then drop 5 path else path))"

definition extract_variables :: "api_env \<Rightarrow> (string, string) jsmap \<Rightarrow> json \<Rightarrow> (string, string) jsmap \<Rightarrow> (string, string) jsmap" where
  "extract_variables env paths body vars =
     fold (\<lambda>(name, path) vars. case extractJsonPath body path of None \<Rightarrow> vars | Some v \<Rightarrow> jm_set vars name (av_String env v)) paths vars"

section \<open>The run\<close>

fun burst :: "api_env \<Rightarrow> 'w server \<Rightarrow> test_case \<Rightarrow> nat \<Rightarrow> 'w \<Rightarrow> test_result \<times> 'w" where
  "burst env server tc n w = (case runTestCase env server tc w of (r, w) \<Rightarrow>
     if re_status r = 429 \<or> n \<le> 1 then (r, w) else burst env server tc (n - 1) w)"

declare burst.simps [simp del]

definition run_case :: "api_env \<Rightarrow> 'w server \<Rightarrow> (string, string) jsmap \<Rightarrow> test_case \<Rightarrow> 'w
    \<Rightarrow> (test_result \<times> (string, string) jsmap \<times> 'w) option" where
  "run_case env server vars tc w = map_option (\<lambda>tc.
     if 1 < tc_burstCount tc \<and> tc_sequential tc
     then (case burst env server tc (nat (tc_burstCount tc)) w of (r, w) \<Rightarrow> (r, vars, w))
     else (case runTestCase env server tc w of (r, w) \<Rightarrow>
       (r, case tc_extractVariables tc of
             Some paths \<Rightarrow> if re_passed r \<and> js_truthy (re_body r) then extract_variables env paths (re_body r) vars else vars
           | None \<Rightarrow> vars, w))) (substitute_case env vars tc)"

fun run_cases :: "api_env \<Rightarrow> 'w server \<Rightarrow> bool \<Rightarrow> test_case list \<Rightarrow> (string, string) jsmap \<Rightarrow> bool \<Rightarrow> 'w
    \<Rightarrow> (test_result list \<times> bool \<times> 'w) option" where
  "run_cases env server bail [] vars failed w = Some ([], failed, w)"
| "run_cases env server bail (tc # tcs) vars failed w =
     (if failed \<and> bail then Some ([], failed, w)
      else (case run_case env server vars tc w of None \<Rightarrow> None
        | Some (r, vars, w) \<Rightarrow> map_option (\<lambda>(rs, failed, w). (r # rs, failed, w))
            (run_cases env server bail tcs vars (failed \<or> \<not> re_passed r) w)))"

record run_options =
  ro_category :: "string option"
  ro_endpoint :: "string option"
  ro_bail :: bool

definition selected :: "run_options \<Rightarrow> test_case list \<Rightarrow> test_case list" where
  "selected opts tcs =
     (let tcs = (if truthy_string (ro_category opts) then filter (\<lambda>tc. tc_category tc = the (ro_category opts)) tcs else tcs)
      in if truthy_string (ro_endpoint opts) then filter (\<lambda>tc. sublist (the (ro_endpoint opts)) (rq_url (tc_request tc))) tcs else tcs)"

fun run_suites :: "api_env \<Rightarrow> 'w server \<Rightarrow> run_options \<Rightarrow> test_case list list \<Rightarrow> bool \<Rightarrow> 'w \<Rightarrow> (test_result list \<times> 'w) option" where
  "run_suites env server opts [] failed w = Some ([], w)"
| "run_suites env server opts (suite # suites) failed w =
     (let cases = selected opts suite
      in if cases = [] then run_suites env server opts suites failed w
         else (case run_cases env server (ro_bail opts) cases [] failed w of None \<Rightarrow> None
           | Some (rs, failed, w) \<Rightarrow>
               if failed \<and> ro_bail opts then Some (rs, w)
               else map_option (\<lambda>(rs', w). (rs @ rs', w)) (run_suites env server opts suites failed w)))"

definition runSuites :: "api_env \<Rightarrow> 'w server \<Rightarrow> run_options \<Rightarrow> test_case list list \<Rightarrow> 'w \<Rightarrow> (test_result list \<times> 'w) option" where
  "runSuites env server opts suites w = run_suites env server opts suites False w"

section \<open>What a run reports\<close>

text \<open>A test passes exactly when each of its checks does; the headers of the response are never looked at.\<close>

lemma first_failure_None: "first_failure cs = None \<longleftrightarrow> (\<forall>c\<in>set cs. c = None)"
  by (induction cs rule: first_failure.induct) auto

lemma first_where_None: "first_where P f xs = None \<longleftrightarrow> (\<forall>x\<in>set xs. \<not> P x)"
  by (auto simp: first_where_def find_None_iff)

lemma verdict_ignores_headers: "verdict env tc (r\<lparr>rs_headers := h\<rparr>) = verdict env tc r"
  by (simp add: verdict_def status_check_def contains_check_def schema_check_def baseline_check_def forbidden_check_def
      duration_check_def spec_check_def Let_def split: option.split)

lemma header_expectation_unused:
  "verdict env (tc\<lparr>tc_expect := (tc_expect tc)\<lparr>ex_headerPresent := hs\<rparr>\<rparr>) r = verdict env tc r"
  by (simp add: verdict_def status_check_def contains_check_def schema_check_def baseline_check_def forbidden_check_def
      duration_check_def spec_check_def Let_def split: option.split)

text \<open>Only a test of a named flow is rewritten before it is sent.\<close>

lemma unnamed_flow_unchanged: "tc_flowName tc = None \<Longrightarrow> substitute_case env vars tc = Some tc"
  by (simp add: substitute_case_def)

lemma substitute_keeps_id: "substitute_case env vars tc = Some tc' \<Longrightarrow> tc_id tc' = tc_id tc"
  by (auto simp: substitute_case_def split: if_splits)

lemma runTestCase_case: "re_case (fst (runTestCase env server tc w)) = tc"
  by (simp add: runTestCase_def split: prod.split sum.split)

lemma burst_case: "re_case (fst (burst env server tc n w)) = tc"
proof (induction env server tc n w rule: burst.induct)
  case (1 env server tc n w)
  obtain r w' where r: "runTestCase env server tc w = (r, w')" by (cases "runTestCase env server tc w")
  have "re_case r = tc" using runTestCase_case[of env server tc w] r by simp
  then show ?case using 1[OF r[symmetric]] r by (subst burst.simps) simp
qed

lemma run_case_id:
  assumes "run_case env server vars tc w = Some (r, vars', w')"
  shows "tc_id (re_case r) = tc_id tc"
proof -
  obtain tc' where tc': "substitute_case env vars tc = Some tc'"
    using assms by (cases "substitute_case env vars tc") (auto simp: run_case_def)
  have "re_case r = tc'"
    using assms burst_case[of env server tc' "nat (tc_burstCount tc')" w] runTestCase_case[of env server tc' w]
    by (auto simp: run_case_def tc' split: if_splits prod.splits)
  then show ?thesis using substitute_keeps_id[OF tc'] by simp
qed

fun until_failure :: "test_result list \<Rightarrow> test_result list" where
  "until_failure [] = []"
| "until_failure (r # rs) = r # (if re_passed r then until_failure rs else [])"

lemma until_failure_append:
  "until_failure (rs @ rs') = (if \<forall>r\<in>set rs. re_passed r then rs @ until_failure rs' else until_failure rs)"
  by (induction rs) auto

lemma until_failure_id: "\<forall>r\<in>set rs. re_passed r \<Longrightarrow> until_failure rs = rs"
  by (induction rs) auto

lemma run_cases_ids:
  "run_cases env server False tcs vars failed w = Some (rs, failed', w')
    \<Longrightarrow> map (tc_id \<circ> re_case) rs = map tc_id tcs \<and> (failed' \<longleftrightarrow> failed \<or> (\<exists>r\<in>set rs. \<not> re_passed r))"
proof (induction tcs arbitrary: vars failed w rs failed' w')
  case (Cons tc tcs)
  obtain r vars1 w1 where r: "run_case env server vars tc w = Some (r, vars1, w1)"
    using Cons.prems by (cases "run_case env server vars tc w") auto
  then obtain rs1 where rs1: "run_cases env server False tcs vars1 (failed \<or> \<not> re_passed r) w1 = Some (rs1, failed', w')" "rs = r # rs1"
    using Cons.prems by auto
  show ?case using Cons.IH[OF rs1(1)] run_case_id[OF r] by (auto simp: rs1(2))
qed simp

text \<open>The run with bail-out goes the same way up to the first failure.\<close>

lemma run_cases_bail:
  "run_cases env server False tcs vars False w = Some (rs, failed, w')
    \<Longrightarrow> \<exists>w''. run_cases env server True tcs vars False w = Some (until_failure rs, failed, w'') \<and> (\<not> failed \<longrightarrow> w'' = w')"
proof (induction tcs arbitrary: vars w rs)
  case (Cons tc tcs)
  obtain r vars1 w1 where r: "run_case env server vars tc w = Some (r, vars1, w1)"
    using Cons.prems by (cases "run_case env server vars tc w") auto
  then obtain rs1 where rs1: "run_cases env server False tcs vars1 (\<not> re_passed r) w1 = Some (rs1, failed, w')" "rs = r # rs1"
    using Cons.prems by auto
  show ?case
  proof (cases "re_passed r")
    case True
    then have "run_cases env server False tcs vars1 False w1 = Some (rs1, failed, w')" using rs1 by simp
    from Cons.IH[OF this] show ?thesis using r True by (auto simp: rs1(2))
  next
    case False
    then have "failed" using run_cases_ids[OF rs1(1)] by simp
    moreover have "run_cases env server True tcs vars1 True w1 = Some ([], True, w1)" by (cases tcs) simp_all
    ultimately show ?thesis using r False by (auto simp: rs1(2))
  qed
qed simp

abbreviation with_bail :: "run_options \<Rightarrow> bool \<Rightarrow> run_options" where
  "with_bail opts b \<equiv> opts\<lparr>ro_bail := b\<rparr>"

lemma selected_with_bail [simp]: "selected (with_bail opts b) tcs = selected opts tcs"
  by (simp add: selected_def)

lemma run_suites_nobail_ids:
  "run_suites env server (with_bail opts False) suites failed w = Some (rs, w')
    \<Longrightarrow> map (tc_id \<circ> re_case) rs = map tc_id (concat (map (selected opts) suites))"
proof (induction suites arbitrary: failed w rs)
  case (Cons suite suites)
  show ?case
  proof (cases "selected opts suite = []")
    case True
    then show ?thesis using Cons by simp
  next
    case False
    obtain rs1 failed1 w1 where r: "run_cases env server False (selected opts suite) [] failed w = Some (rs1, failed1, w1)"
      using Cons.prems False by (cases "run_cases env server False (selected opts suite) [] failed w") (auto simp: Let_def)
    then obtain rs2 where rs2: "run_suites env server (with_bail opts False) suites failed1 w1 = Some (rs2, w')" "rs = rs1 @ rs2"
      using Cons.prems False by (auto simp: Let_def)
    show ?thesis using Cons.IH[OF rs2(1)] run_cases_ids[OF r] by (simp add: rs2(2) comp_def)
  qed
qed simp

lemma run_suites_bail:
  "run_suites env server (with_bail opts False) suites False w = Some (rs, w')
    \<Longrightarrow> \<exists>w''. run_suites env server (with_bail opts True) suites False w = Some (until_failure rs, w'')"
proof (induction suites arbitrary: w rs)
  case (Cons suite suites)
  show ?case
  proof (cases "selected opts suite = []")
    case True
    then show ?thesis using Cons by simp
  next
    case False
    obtain rs1 failed1 w1 where r: "run_cases env server False (selected opts suite) [] False w = Some (rs1, failed1, w1)"
      using Cons.prems False by (cases "run_cases env server False (selected opts suite) [] False w") (auto simp: Let_def)
    then obtain rs2 where rs2: "run_suites env server (with_bail opts False) suites failed1 w1 = Some (rs2, w')" "rs = rs1 @ rs2"
      using Cons.prems False by (auto simp: Let_def)
    have failed: "failed1 \<longleftrightarrow> (\<exists>x\<in>set rs1. \<not> re_passed x)" using run_cases_ids[OF r] by simp
    obtain w2 where b: "run_cases env server True (selected opts suite) [] False w = Some (until_failure rs1, failed1, w2)"
      and w2: "\<not> failed1 \<longrightarrow> w2 = w1"
      using run_cases_bail[OF r] by blast
    show ?thesis
    proof (cases failed1)
      case True
      then show ?thesis using False b failed by (auto simp: Let_def rs2(2) until_failure_append)
    next
      case F: False
      then have passed: "\<forall>x\<in>set rs1. re_passed x" using failed by blast
      have "run_suites env server (with_bail opts False) suites False w1 = Some (rs2, w')" using rs2(1) F by simp
      from Cons.IH[OF this] obtain w3 where w3: "run_suites env server (with_bail opts True) suites False w1 = Some (until_failure rs2, w3)" by blast
      have "w2 = w1" using w2 F by simp
      then show ?thesis using False b F w3 passed by (simp add: Let_def rs2(2) until_failure_append until_failure_id)
    qed
  qed
qed simp

text \<open>A run reports one result per selected test, in order; with bail-out it reports the same results up to the first failure;
  and a test passes exactly when the request succeeded and every check of its expectation did.\<close>

theorem bail_run_stops_at_first_failure:
  assumes "runSuites env server (with_bail opts False) suites w = Some (rs, w')"
  shows "map (tc_id \<circ> re_case) rs = map tc_id (concat (map (selected opts) suites))
    \<and> (\<exists>w''. runSuites env server (with_bail opts True) suites w = Some (until_failure rs, w''))
    \<and> re_reason (fst (runTestCase env server tc w)) = (case fst (server (tc_request tc) w) of
         Inl err \<Rightarrow> Some (RequestFailed err)
       | Inr r \<Rightarrow> (let ex = tc_expect tc in first_failure [status_check ex r, contains_check env ex r, schema_check ex r,
           baseline_check env tc r, forbidden_check env ex r, duration_check ex r, spec_check ex r]))
    \<and> (first_failure cs = None \<longleftrightarrow> list_all (\<lambda>c. c = None) cs)"
  using run_suites_nobail_ids run_suites_bail assms
  by (auto simp: runSuites_def runTestCase_def verdict_def first_failure_None list_all_iff Let_def comp_def split: prod.split sum.split)

definition demo_test :: "string \<Rightarrow> test_case" where
  "demo_test path = \<lparr>tc_id = path, tc_category = ''smoke'',
     tc_request = \<lparr>rq_method = ''GET'', rq_url = path, rq_headers = [], rq_body = None\<rparr>,
     tc_expect = \<lparr>ex_status = [200], ex_bodyContains = None, ex_bodyNotContains = None, ex_headerPresent = None,
       ex_maxDuration = None, ex_schema = None, ex_baselineMatch = False, ex_specFields = None\<rparr>,
     tc_flowName = None, tc_extractVariables = None, tc_burstCount = 0, tc_sequential = False, tc_baselinePath = None\<rparr>"

definition demo_env :: api_env where
  "demo_env = \<lparr>av_encodeURIComponent = (\<lambda>s. s), av_searchParams = (\<lambda>_. []), av_base64 = (\<lambda>s. s), av_stringify = (\<lambda>_. []),
     av_String = (\<lambda>_. []), av_parse = (\<lambda>_. None), av_baseline = (\<lambda>_. None)\<rparr>"

definition demo_server :: "nat server" where
  "demo_server rq n = (if rq_url rq = ''/down'' then (Inl ''refused'', n)
     else (Inr \<lparr>rs_status = 200, rs_headers = [], rs_body = JNull, rs_duration = 1\<rparr>, Suc n))"

theorem bail_run_stops_at_first_failure_witness:
  "\<exists>n. map_option (map re_passed \<circ> fst) (runSuites demo_env demo_server (with_bail \<lparr>ro_category = None, ro_endpoint = None, ro_bail = False\<rparr> True)
      [[demo_test ''/a'', demo_test ''/down''], [demo_test ''/b'']] n) = Some [True, False]"
proof -
  let ?opts = "\<lparr>ro_category = None, ro_endpoint = None, ro_bail = False\<rparr>"
  let ?suites = "[[demo_test ''/a'', demo_test ''/down''], [demo_test ''/b'']]"
  have run: "runTestCase demo_env demo_server (demo_test ''/a'') n
        = (\<lparr>re_case = demo_test ''/a'', re_status = 200, re_body = JNull, re_reason = None\<rparr>, Suc n)"
      "runTestCase demo_env demo_server (demo_test ''/b'') n
        = (\<lparr>re_case = demo_test ''/b'', re_status = 200, re_body = JNull, re_reason = None\<rparr>, Suc n)"
      "runTestCase demo_env demo_server (demo_test ''/down'') n
        = (\<lparr>re_case = demo_test ''/down'', re_status = 0, re_body = JNull, re_reason = Some (RequestFailed ''refused'')\<rparr>, n)" for n
    by (simp_all add: runTestCase_def demo_server_def demo_test_def verdict_def status_check_def contains_check_def schema_check_def
        baseline_check_def forbidden_check_def duration_check_def spec_check_def first_where_def Let_def)
  have cases: "run_case demo_env demo_server [] (demo_test p) n
      = (case runTestCase demo_env demo_server (demo_test p) n of (r, w) \<Rightarrow> Some (r, [], w))" for p n
    by (simp add: run_case_def substitute_case_def demo_test_def split: prod.split)
  obtain rs where rs: "runSuites demo_env demo_server (with_bail ?opts False) ?suites 0 = Some (rs, 2)"
      "until_failure rs = [\<lparr>re_case = demo_test ''/a'', re_status = 200, re_body = JNull, re_reason = None\<rparr>,
        \<lparr>re_case = demo_test ''/down'', re_status = 0, re_body = JNull, re_reason = Some (RequestFailed ''refused'')\<rparr>]"
    by (simp add: runSuites_def selected_def truthy_string_def cases run numeral_2_eq_2)
  from bail_run_stops_at_first_failure[OF rs(1), THEN conjunct2, THEN conjunct1] show ?thesis
    by (auto simp: rs(2) intro!: exI[of _ 0])
qed

end
