(* ===== verification/Api_Pairwise.thy ===== *)
theory Api_Pairwise
  imports Api_Runner
begin

text \<open>
  \<open>packages/api-test/src/methods/pairwise.ts\<close>: a greedy covering array. A row gives each parameter the index of one of its
  values, with \<open>-1\<close> for a field not yet filled; the keys of the covered pairs (\<open>pairKey\<close>) are the pairs
  themselves. The loop is a partial function, so that its termination is a theorem.
\<close>

section \<open>Parameters and pairs\<close>

datatype param_location = InBody | InQuery | InHeader | InParam

record pairwise_parameter =
  pw_field :: string
  pw_values :: "json list"
  pw_location :: param_location

record pair =
  pr_fieldA :: nat
  pr_valueA :: nat
  pr_fieldB :: nat
  pr_valueB :: nat

abbreviation new_pair :: "nat \<Rightarrow> nat \<Rightarrow> nat \<Rightarrow> nat \<Rightarrow> pair" where
  "new_pair a va b vb \<equiv> \<lparr>pr_fieldA = a, pr_valueA = va, pr_fieldB = b, pr_valueB = vb\<rparr>"

abbreviation value_count :: "pairwise_parameter list \<Rightarrow> nat \<Rightarrow> nat" where
  "value_count params a \<equiv> length (pw_values (params ! a))"

definition getAllPairs :: "pairwise_parameter list \<Rightarrow> pair list" where
  "getAllPairs params = concat (map (\<lambda>a. concat (map (\<lambda>b. concat (map (\<lambda>va. map (\<lambda>vb. new_pair a va b vb)
     [0..<value_count params b]) [0..<value_count params a])) [Suc a..<length params])) [0..<length params])"

type_synonym row = "int list"

definition covers :: "row \<Rightarrow> pair \<Rightarrow> bool" where
  "covers row p \<longleftrightarrow> row ! pr_fieldA p = int (pr_valueA p) \<and> row ! pr_fieldB p = int (pr_valueB p)"

section \<open>One row\<close>

definition new_pairs :: "pair list \<Rightarrow> pair list \<Rightarrow> row \<Rightarrow> nat" where
  "new_pairs uncovered covered row = length (filter (\<lambda>p. p \<notin> set covered \<and> covers row p) uncovered)"

text \<open>The loop over the values of one field: the first value with the highest count.\<close>

fun best_value :: "(row \<Rightarrow> nat) \<Rightarrow> row \<Rightarrow> nat \<Rightarrow> nat list \<Rightarrow> nat \<Rightarrow> int \<Rightarrow> nat" where
  "best_value cost row f [] bestVal bestValCount = bestVal"
| "best_value cost row f (v # vs) bestVal bestValCount =
     (let n = int (cost (row[f := int v]))
      in if bestValCount < n then best_value cost row f vs v n else best_value cost row f vs bestVal bestValCount)"

definition fill_field :: "pairwise_parameter list \<Rightarrow> (row \<Rightarrow> nat) \<Rightarrow> nat \<Rightarrow> row \<Rightarrow> row" where
  "fill_field params cost f row =
     (if row ! f \<noteq> - 1 then row else row[f := int (best_value cost row f [0..<value_count params f] 0 (- 1))])"

definition candidate :: "pairwise_parameter list \<Rightarrow> (row \<Rightarrow> nat) \<Rightarrow> pair \<Rightarrow> row" where
  "candidate params cost seed =
     fold (fill_field params cost) [0..<length params]
       ((replicate (length params) (- 1))[pr_fieldA seed := int (pr_valueA seed), pr_fieldB seed := int (pr_valueB seed)])"

fun best_row :: "pairwise_parameter list \<Rightarrow> (row \<Rightarrow> nat) \<Rightarrow> pair list \<Rightarrow> row option \<Rightarrow> int \<Rightarrow> row option \<times> int" where
  "best_row params cost [] bestRow bestCount = (bestRow, bestCount)"
| "best_row params cost (seed # seeds) bestRow bestCount =
     (let row = candidate params cost seed; n = int (cost row)
      in if bestCount < n then best_row params cost seeds (Some row) n else best_row params cost seeds bestRow bestCount)"

definition fallback_row :: "pairwise_parameter list \<Rightarrow> pair list \<Rightarrow> pair list \<Rightarrow> row" where
  "fallback_row params uncovered covered =
     (case find (\<lambda>p. p \<notin> set covered) uncovered of
        None \<Rightarrow> map (\<lambda>_. 0) params
      | Some p \<Rightarrow> (map (\<lambda>_. 0) params)[pr_fieldA p := int (pr_valueA p), pr_fieldB p := int (pr_valueB p)])"

definition next_row :: "pairwise_parameter list \<Rightarrow> pair list \<Rightarrow> pair list \<Rightarrow> row" where
  "next_row params uncovered covered =
     (let remaining = filter (\<lambda>p. p \<notin> set covered) uncovered;
          seeds = take (min (length remaining) 50) remaining
      in case best_row params (new_pairs uncovered covered) seeds None (- 1) of
           (bestRow, bestCount) \<Rightarrow>
             (if bestRow = None \<or> bestCount = 0 then fallback_row params uncovered covered else the bestRow))"

section \<open>The array\<close>

definition mark_covered :: "row \<Rightarrow> pair list \<Rightarrow> pair list \<Rightarrow> pair list" where
  "mark_covered row uncovered covered = js_add_all (filter (covers row) uncovered) covered"

partial_function (option) cover_loop :: "pairwise_parameter list \<Rightarrow> pair list \<Rightarrow> pair list \<Rightarrow> row list \<Rightarrow> row list option" where
  "cover_loop params uncovered covered result =
     (if length covered < length uncovered
      then (let row = next_row params uncovered covered
            in cover_loop params uncovered (mark_covered row uncovered covered) (result @ [row]))
      else Some result)"

definition generateCoveringArray :: "pairwise_parameter list \<Rightarrow> row list option" where
  "generateCoveringArray params =
     (if length params = 0 then Some []
      else if length params = 1 then Some (map (\<lambda>i. [int i]) [0..<value_count params 0])
      else cover_loop params (getAllPairs params) [] [])"

section \<open>Rows are valid\<close>

definition entry_ok :: "pairwise_parameter list \<Rightarrow> nat \<Rightarrow> int \<Rightarrow> bool" where
  "entry_ok params i x \<longleftrightarrow> 0 \<le> x \<and> (pw_values (params ! i) \<noteq> [] \<longrightarrow> x < int (value_count params i))"

definition row_ok :: "pairwise_parameter list \<Rightarrow> row \<Rightarrow> bool" where
  "row_ok params row \<longleftrightarrow> length row = length params \<and> (\<forall>i<length params. entry_ok params i (row ! i))"

definition pair_ok :: "pairwise_parameter list \<Rightarrow> pair \<Rightarrow> bool" where
  "pair_ok params p \<longleftrightarrow> pr_fieldA p < pr_fieldB p \<and> pr_fieldB p < length params
     \<and> pr_valueA p < value_count params (pr_fieldA p) \<and> pr_valueB p < value_count params (pr_fieldB p)"

lemma set_getAllPairs: "p \<in> set (getAllPairs params) \<longleftrightarrow> pair_ok params p"
  by (cases p) (auto simp: getAllPairs_def pair_ok_def image_iff)

lemma distinct_concat_map:
  "distinct xs \<Longrightarrow> (\<And>x. x \<in> set xs \<Longrightarrow> distinct (f x)) \<Longrightarrow> (\<And>x y. x \<in> set xs \<Longrightarrow> y \<in> set xs \<Longrightarrow> x \<noteq> y \<Longrightarrow> set (f x) \<inter> set (f y) = {})
    \<Longrightarrow> distinct (concat (map f xs))"
proof (induction xs)
  case (Cons x xs)
  have "set (f x) \<inter> set (f y) = {}" if "y \<in> set xs" for y
    using that Cons.prems(1) by (intro Cons.prems(3)) auto
  then have "set (f x) \<inter> set (concat (map f xs)) = {}" by (simp add: Int_UN_distrib)
  moreover have "distinct (concat (map f xs))" using Cons.prems by (intro Cons.IH) simp_all
  ultimately show ?case using Cons.prems(2) by simp
qed simp

lemma distinct_getAllPairs: "distinct (getAllPairs params)"
  unfolding getAllPairs_def
proof (intro distinct_concat_map)
  show "distinct (map (\<lambda>vb. new_pair a va b vb) [0..<n])" for a va b n
    by (simp add: distinct_map inj_on_def)
qed auto

lemma best_value_in: "best_value cost row f vs v n \<in> insert v (set vs)"
  by (induction vs arbitrary: v n) (auto simp: Let_def)

lemma best_value_first: "vs \<noteq> [] \<Longrightarrow> n < 0 \<Longrightarrow> best_value cost row f vs v n \<in> set vs"
  using best_value_in[of cost row f "tl vs" "hd vs" "int (cost (row[f := int (hd vs)]))"]
  by (cases vs) (auto simp: Let_def)

lemma fill_field_other: "i \<noteq> f \<or> row ! i \<noteq> - 1 \<Longrightarrow> fill_field params cost f row ! i = row ! i"
  by (cases "i = f") (auto simp: fill_field_def)

lemma fill_field_ok:
  assumes "f < length row" and "row ! f = - 1 \<or> entry_ok params f (row ! f)"
  shows "entry_ok params f (fill_field params cost f row ! f)"
proof (cases "row ! f = - 1")
  case True
  show ?thesis
  proof (cases "pw_values (params ! f) = []")
    case False
    then have "best_value cost row f [0..<value_count params f] 0 (- 1) \<in> set [0..<value_count params f]"
      by (intro best_value_first) simp_all
    then show ?thesis using True assms(1) by (simp add: fill_field_def entry_ok_def)
  qed (use True assms(1) in \<open>simp add: fill_field_def entry_ok_def\<close>)
qed (use assms in \<open>simp add: fill_field_def\<close>)

lemma fill_fields:
  "length (fold (fill_field params cost) fs row) = length row"
  "row ! i \<noteq> - 1 \<Longrightarrow> fold (fill_field params cost) fs row ! i = row ! i"
  "\<forall>f\<in>set fs. f < length row \<Longrightarrow> \<forall>f<length row. row ! f = - 1 \<or> entry_ok params f (row ! f) \<Longrightarrow> i \<in> set fs
    \<Longrightarrow> entry_ok params i (fold (fill_field params cost) fs row ! i)"
proof -
  show "length (fold (fill_field params cost) fs row) = length row"
    by (induction fs arbitrary: row) (simp_all add: fill_field_def)
  show keep: "row ! i \<noteq> - 1 \<Longrightarrow> fold (fill_field params cost) fs row ! i = row ! i" for row fs i
    by (induction fs arbitrary: row) (simp_all add: fill_field_other)
  show "\<forall>f\<in>set fs. f < length row \<Longrightarrow> \<forall>f<length row. row ! f = - 1 \<or> entry_ok params f (row ! f) \<Longrightarrow> i \<in> set fs
    \<Longrightarrow> entry_ok params i (fold (fill_field params cost) fs row ! i)"
  proof (induction fs arbitrary: row)
    case (Cons f fs)
    let ?row = "fill_field params cost f row"
    have len: "length ?row = length row" by (simp add: fill_field_def)
    have f: "entry_ok params f (?row ! f)" using Cons.prems by (intro fill_field_ok) simp_all
    have ok: "\<forall>j<length ?row. ?row ! j = - 1 \<or> entry_ok params j (?row ! j)"
    proof (intro allI impI)
      fix j
      assume "j < length ?row"
      then show "?row ! j = - 1 \<or> entry_ok params j (?row ! j)"
        using f Cons.prems(2) fill_field_other[of j f row params cost] by (cases "j = f") (auto simp: len)
    qed
    show ?case
    proof (cases "i \<in> set fs")
      case True
      then show ?thesis using Cons.IH[OF _ ok] Cons.prems(1) by (simp add: len)
    next
      case False
      then have "i = f" using Cons.prems(3) by simp
      moreover have "?row ! f \<noteq> - 1" using f by (auto simp: entry_ok_def)
      ultimately show ?thesis using keep[of ?row f fs] f by simp
    qed
  qed simp
qed

text \<open>A candidate is a valid row that covers its seed.\<close>

lemma candidate_ok:
  assumes "pair_ok params seed"
  shows "row_ok params (candidate params cost seed)" and "covers (candidate params cost seed) seed"
proof -
  let ?row = "(replicate (length params) (- 1))[pr_fieldA seed := int (pr_valueA seed), pr_fieldB seed := int (pr_valueB seed)]"
  have lt: "pr_fieldA seed < length params" "pr_fieldB seed < length params" "pr_fieldA seed \<noteq> pr_fieldB seed"
    using assms by (auto simp: pair_ok_def)
  then have e: "?row ! pr_fieldA seed = int (pr_valueA seed)" "?row ! pr_fieldB seed = int (pr_valueB seed)" by simp_all
  show "covers (candidate params cost seed) seed"
    using fill_fields(2)[of ?row "pr_fieldA seed"] fill_fields(2)[of ?row "pr_fieldB seed"] e
    by (simp add: covers_def candidate_def)
  have ok: "\<forall>f<length ?row. ?row ! f = - 1 \<or> entry_ok params f (?row ! f)"
    using assms lt by (auto simp: nth_list_update entry_ok_def pair_ok_def)
  have "entry_ok params i (candidate params cost seed ! i)" if "i < length params" for i
    using fill_fields(3)[OF _ ok, of "[0..<length params]" i cost] that by (simp add: candidate_def)
  moreover have "length (candidate params cost seed) = length params" by (simp add: candidate_def fill_fields(1))
  ultimately show "row_ok params (candidate params cost seed)" by (simp add: row_ok_def)
qed

lemma best_row_chosen:
  "\<lbrakk> bestRow = Some r \<and> bestCount = int (cost r) \<and> (\<exists>s\<in>S. r = candidate params cost s); set seeds \<subseteq> S \<rbrakk>
    \<Longrightarrow> \<exists>s\<in>S. best_row params cost seeds bestRow bestCount = (Some (candidate params cost s), int (cost (candidate params cost s)))"
proof (induction seeds arbitrary: bestRow bestCount r)
  case (Cons s seeds)
  show ?case
  proof (cases "bestCount < int (cost (candidate params cost s))")
    case True
    then show ?thesis
      using Cons.IH[of "Some (candidate params cost s)" "candidate params cost s" "int (cost (candidate params cost s))"] Cons.prems(2)
      by (auto simp: Let_def)
  next
    case False
    then show ?thesis using Cons.IH[of bestRow r bestCount] Cons.prems by (simp add: Let_def)
  qed
qed auto

lemma best_row_start:
  "seeds \<noteq> [] \<Longrightarrow> \<exists>s\<in>set seeds. best_row params cost seeds None (- 1)
     = (Some (candidate params cost s), int (cost (candidate params cost s)))"
  using best_row_chosen[where seeds = "tl seeds" and S = "set seeds" and bestRow = "Some (candidate params cost (hd seeds))"
      and r = "candidate params cost (hd seeds)" and bestCount = "int (cost (candidate params cost (hd seeds)))" and params = params and cost = cost]
  by (cases seeds) (auto simp: Let_def)

lemma new_pairs_pos: "0 < new_pairs uncovered covered row \<longleftrightarrow> (\<exists>p\<in>set uncovered. p \<notin> set covered \<and> covers row p)"
  by (auto simp: new_pairs_def filter_empty_conv)

lemma next_row_ok:
  assumes "\<forall>p\<in>set uncovered. pair_ok params p" and "q \<in> set uncovered" and "q \<notin> set covered"
  shows "row_ok params (next_row params uncovered covered)"
    and "\<exists>p\<in>set uncovered. p \<notin> set covered \<and> covers (next_row params uncovered covered) p"
proof -
  let ?remaining = "filter (\<lambda>p. p \<notin> set covered) uncovered"
  let ?seeds = "take (min (length ?remaining) 50) ?remaining" and ?cost = "new_pairs uncovered covered"
  have "q \<in> set ?remaining" using assms by simp
  then have "?remaining \<noteq> []" by force
  then have "?seeds \<noteq> []" by simp
  from best_row_start[OF this, of params ?cost] obtain s where s: "s \<in> set ?seeds"
    and b: "best_row params ?cost ?seeds None (- 1) = (Some (candidate params ?cost s), int (?cost (candidate params ?cost s)))"
    by blast
  have "s \<in> set ?remaining" using s by (rule in_set_takeD)
  then have s': "s \<in> set uncovered" "s \<notin> set covered" by simp_all
  then have c: "row_ok params (candidate params ?cost s)" "covers (candidate params ?cost s) s"
    using candidate_ok[of params s ?cost] assms(1) by simp_all
  then have pos: "0 < ?cost (candidate params ?cost s)" using s' by (auto simp: new_pairs_pos)
  then have row: "next_row params uncovered covered = candidate params ?cost s"
    using b by (simp add: next_row_def Let_def)
  show "row_ok params (next_row params uncovered covered)" using c(1) by (simp add: row)
  show "\<exists>p\<in>set uncovered. p \<notin> set covered \<and> covers (next_row params uncovered covered) p"
    using pos by (simp add: row new_pairs_pos)
qed

section \<open>The loop ends and covers every pair\<close>

definition covering :: "pairwise_parameter list \<Rightarrow> pair list \<Rightarrow> pair list \<Rightarrow> row list \<Rightarrow> bool" where
  "covering params uncovered covered rows \<longleftrightarrow> (\<forall>row\<in>set rows. row_ok params row)
     \<and> (\<forall>p\<in>set uncovered. p \<in> set covered \<or> (\<exists>row\<in>set rows. covers row p))
     \<and> length rows \<le> length uncovered - length covered"

lemma mark_covered_wf:
  assumes "distinct covered" and "set covered \<subseteq> set uncovered"
  shows "distinct (mark_covered row uncovered covered)" and "set (mark_covered row uncovered covered) \<subseteq> set uncovered"
    and "set (mark_covered row uncovered covered) = set covered \<union> {p \<in> set uncovered. covers row p}"
  using assms by (auto simp: mark_covered_def)

lemma cover_loop_covers:
  assumes "distinct uncovered" and "\<forall>p\<in>set uncovered. pair_ok params p"
  shows "distinct covered \<Longrightarrow> set covered \<subseteq> set uncovered
    \<Longrightarrow> \<exists>rows. cover_loop params uncovered covered result = Some (result @ rows) \<and> covering params uncovered covered rows"
proof (induction "length uncovered - length covered" arbitrary: covered result rule: less_induct)
  case less
  show ?case
  proof (cases "length covered < length uncovered")
    case True
    let ?row = "next_row params uncovered covered" and ?covered = "mark_covered (next_row params uncovered covered) uncovered covered"
    have "set covered \<noteq> set uncovered"
      using True distinct_card[OF assms(1)] distinct_card[OF less.prems(1)] by force
    then obtain q where "q \<in> set uncovered" "q \<notin> set covered" using less.prems(2) by blast
    note row = next_row_ok[OF assms(2) this]
    note wf = mark_covered_wf[OF less.prems, of ?row]
    have "set covered \<subset> set ?covered" using row(2) wf(3) by blast
    then have len: "length covered < length ?covered"
      using psubset_card_mono[of "set ?covered" "set covered"] distinct_card[OF less.prems(1)] distinct_card[OF wf(1)] by simp
    then have "length uncovered - length ?covered < length uncovered - length covered" using True by simp
    from less.hyps[OF this wf(1,2)] obtain rows where
      rows: "cover_loop params uncovered ?covered (result @ [?row]) = Some ((result @ [?row]) @ rows)"
      and cov: "covering params uncovered ?covered rows" by blast
    have "cover_loop params uncovered covered result = Some (result @ ?row # rows)"
      using True rows by (subst cover_loop.simps) (simp add: Let_def)
    moreover have "covering params uncovered covered (?row # rows)"
      using cov row(1) wf(3) len True unfolding covering_def by auto
    ultimately show ?thesis by blast
  next
    case False
    have "card (set uncovered) \<le> card (set covered)"
      using False distinct_card[OF assms(1)] distinct_card[OF less.prems(1)] by simp
    then have "set covered = set uncovered" using less.prems(2) by (intro card_seteq) simp_all
    then have "covering params uncovered covered []" by (simp add: covering_def)
    then show ?thesis using False by (subst cover_loop.simps) simp
  qed
qed

text \<open>C36. The generator always returns an array: it has no more rows than there are pairs, every row gives each parameter
  an index of one of its values (0 if it has none), and every combination of two values of two parameters appears in some row.\<close>

theorem covering_array_covers_all_pairs:
  shows "\<exists>rows. generateCoveringArray params = Some rows
      \<and> (\<forall>row\<in>set rows. row_ok params row)
      \<and> (\<forall>a b va vb. a < b \<longrightarrow> b < length params \<longrightarrow> va < value_count params a \<longrightarrow> vb < value_count params b
           \<longrightarrow> (\<exists>row\<in>set rows. row ! a = int va \<and> row ! b = int vb))
      \<and> (2 \<le> length params \<longrightarrow> length rows \<le> length (getAllPairs params))"
proof -
  consider "length params = 0" | "length params = 1" | "2 \<le> length params" by linarith
  then show ?thesis
  proof cases
    case 2
    then show ?thesis by (auto simp: generateCoveringArray_def row_ok_def entry_ok_def)
  next
    case 3
    have ok: "\<forall>p\<in>set (getAllPairs params). pair_ok params p" by (simp add: set_getAllPairs)
    obtain rows where rows: "cover_loop params (getAllPairs params) [] [] = Some rows"
      and cov: "covering params (getAllPairs params) [] rows"
      using cover_loop_covers[OF distinct_getAllPairs ok, of "[]" "[]"] by auto
    have "\<exists>row\<in>set rows. row ! a = int va \<and> row ! b = int vb"
      if "a < b" "b < length params" "va < value_count params a" "vb < value_count params b" for a b va vb
    proof -
      have "new_pair a va b vb \<in> set (getAllPairs params)" using that by (simp add: set_getAllPairs pair_ok_def)
      then show ?thesis using cov unfolding covering_def covers_def by fastforce
    qed
    then show ?thesis using rows cov 3 unfolding covering_def by (auto simp: generateCoveringArray_def)
  qed (simp add: generateCoveringArray_def)
qed

theorem covering_array_covers_all_pairs_witness:
  "\<exists>rows row. generateCoveringArray
      [\<lparr>pw_field = ''role'', pw_values = [JStr ''admin'', JStr ''user''], pw_location = InBody\<rparr>,
       \<lparr>pw_field = ''page'', pw_values = [JNum 0, JNum 1, JNum 2], pw_location = InQuery\<rparr>] = Some rows
    \<and> row \<in> set rows \<and> row ! 0 = 1 \<and> row ! 1 = 2"
proof -
  let ?ps = "[\<lparr>pw_field = ''role'', pw_values = [JStr ''admin'', JStr ''user''], pw_location = InBody\<rparr>,
       \<lparr>pw_field = ''page'', pw_values = [JNum 0, JNum 1, JNum 2], pw_location = InQuery\<rparr>]"
  obtain rows where rows: "generateCoveringArray ?ps = Some rows"
    and all: "\<forall>a b va vb. a < b \<longrightarrow> b < length ?ps \<longrightarrow> va < value_count ?ps a \<longrightarrow> vb < value_count ?ps b
           \<longrightarrow> (\<exists>row\<in>set rows. row ! a = int va \<and> row ! b = int vb)"
    using covering_array_covers_all_pairs[of ?ps] by blast
  have "\<exists>row\<in>set rows. row ! 0 = int 1 \<and> row ! 1 = int 2" by (rule all[rule_format]) simp_all
  then show ?thesis using rows by auto
qed

text \<open>A parameter without values has no pairs, and with one other parameter there is no test at all.\<close>

lemma no_values_no_tests:
  "pw_values q = [] \<Longrightarrow> generateCoveringArray [p, q] = Some []"
proof -
  assume "pw_values q = []"
  then have "getAllPairs [p, q] = []" by (simp add: getAllPairs_def)
  moreover have "cover_loop [p, q] [] [] [] = Some []" by (subst cover_loop.simps) simp
  ultimately show ?thesis by (simp add: generateCoveringArray_def)
qed

end
