(* ===== verification/Api_Generate.thy ===== *)
theory Api_Generate
  imports Api_Runner
begin

text \<open>
  Generators of \<open>packages/api-test/src/methods\<close>: contract tests (\<open>contract.ts\<close>) and tests of a state machine
  (\<open>state-machine.ts\<close>), with the counter behind \<open>nextId\<close>.
\<close>

section \<open>Identifiers\<close>

definition nextId :: "nat \<Rightarrow> string \<Rightarrow> string \<times> nat" where
  "nextId counter pre = (pre @ ''_'' @ js_of_nat (Suc counter), Suc counter)"

text \<open>Tests get their identifiers in the order in which they are pushed.\<close>

fun with_ids :: "nat \<Rightarrow> string \<Rightarrow> (string \<Rightarrow> 't) list \<Rightarrow> 't list" where
  "with_ids counter pre [] = []"
| "with_ids counter pre (t # ts) = (case nextId counter pre of (i, counter) \<Rightarrow> t i # with_ids counter pre ts)"

lemma with_ids_memD: "t \<in> set (with_ids n pre ts) \<Longrightarrow> \<exists>f\<in>set ts. \<exists>i. t = f i"
  by (induction ts arbitrary: n) (auto simp: nextId_def)

lemma map_with_ids: "(\<And>f i. f \<in> set ts \<Longrightarrow> g (f i) = h f) \<Longrightarrow> map g (with_ids n pre ts) = map h ts"
  by (induction ts arbitrary: n) (simp_all add: nextId_def)

definition plain_expectation :: "int list \<Rightarrow> expectation" where
  "plain_expectation status = \<lparr>ex_status = status, ex_bodyContains = None, ex_bodyNotContains = None, ex_headerPresent = None,
     ex_maxDuration = None, ex_schema = None, ex_baselineMatch = False, ex_specFields = None\<rparr>"

definition plain_test :: "string \<Rightarrow> test_request \<Rightarrow> expectation \<Rightarrow> string \<Rightarrow> test_case" where
  "plain_test category rq ex i = \<lparr>tc_id = i, tc_category = category, tc_request = rq, tc_expect = ex, tc_flowName = None,
     tc_extractVariables = None, tc_burstCount = 0, tc_sequential = False, tc_baselinePath = None\<rparr>"

section \<open>Contract tests\<close>

definition contract_list :: "api_env \<Rightarrow> api_config \<Rightarrow> endpoint_config \<Rightarrow> int \<Rightarrow> json \<Rightarrow> contract_schema option
    \<Rightarrow> (string \<Rightarrow> test_case) list" where
  "contract_list env cfg ep status body openApi =
     (let rq = \<lparr>rq_method = ep_method ep, rq_url = buildUrl env cfg ep, rq_headers = buildHeaders env cfg ep, rq_body = ep_body ep\<rparr>;
          schema = or_else openApi (inferSchema body);
          test = (\<lambda>ex. plain_test ''contract'' rq (ex (plain_expectation [status])));
          object = (sc_type schema = ''object'')
      in [test (\<lambda>ex. ex\<lparr>ex_schema := Some schema\<rparr>)]
         @ (if object then map (\<lambda>field. test (\<lambda>ex. ex\<lparr>ex_bodyContains := Some [in_quotes field]\<rparr>)) (or_else (sc_required schema) []) else [])
         @ (if object then map (\<lambda>(field, fs). test (\<lambda>ex. ex\<lparr>ex_schema := Some (Schema ''object'' (Some [(field, fs)]) None None False None)\<rparr>))
              (or_else (sc_properties schema) []) else [])
         @ (if object \<and> sc_additional schema = Some False then [test (\<lambda>ex. ex\<lparr>ex_schema := Some schema\<rparr>)] else []))"

definition generateContractTests :: "api_env \<Rightarrow> api_config \<Rightarrow> endpoint_config \<Rightarrow> int \<Rightarrow> json
    \<Rightarrow> contract_schema option \<Rightarrow> nat \<Rightarrow> test_case list" where
  "generateContractTests env cfg ep status body openApi counter =
     with_ids counter ''contract'' (contract_list env cfg ep status body openApi)"

lemma schema_test_passes:
  assumes "rs_status r = status" and "ex_schema ex = Some s" and "ex = (plain_expectation [status])\<lparr>ex_schema := Some s\<rparr>" and "conforms (rs_body r) s"
  shows "verdict env (plain_test c rq ex i) r = None"
  using assms validateSchema_decides[of "rs_body r" s "''$''"]
  by (simp add: verdict_def first_failure_None plain_test_def plain_expectation_def status_check_def contains_check_def schema_check_def
      baseline_check_def forbidden_check_def duration_check_def spec_check_def first_where_def Let_def)

lemma presence_test_passes:
  assumes "rs_status r = status" and "sublist needle (body_text env (rs_body r))"
  shows "verdict env (plain_test c rq ((plain_expectation [status])\<lparr>ex_bodyContains := Some [needle]\<rparr>) i) r = None"
  using assms
  by (simp add: verdict_def first_failure_None plain_test_def plain_expectation_def status_check_def contains_check_def schema_check_def
      baseline_check_def forbidden_check_def duration_check_def spec_check_def first_where_def Let_def)

text \<open>The contract tests generated from a recorded response all pass when the server answers as recorded, provided the
  text of a JSON body shows the names of its fields in quotes.\<close>

theorem contract_tests_pass_on_recording:
  assumes "json_wf body" and "\<forall>kvs k. body = JObj kvs \<longrightarrow> k \<in> set (jm_keys kvs) \<longrightarrow> sublist (in_quotes k) (av_stringify env body)"
    and "\<forall>rq w. \<exists>h d w'. server rq w = (Inr \<lparr>rs_status = status, rs_headers = h, rs_body = body, rs_duration = d\<rparr>, w')"
    and "tc \<in> set (generateContractTests env cfg ep status body None counter)"
  shows "re_passed (fst (runTestCase env server tc w))"
proof -
  obtain h d w' where srv: "server (tc_request tc) w = (Inr \<lparr>rs_status = status, rs_headers = h, rs_body = body, rs_duration = d\<rparr>, w')"
    using assms(3) by blast
  define r where "r = \<lparr>rs_status = status, rs_headers = h, rs_body = body, rs_duration = d\<rparr>"
  have r: "rs_status r = status" "rs_body r = body" by (simp_all add: r_def)
  have schema: "conforms (rs_body r) (inferSchema body)" using infer_conforms(1)[OF assms(1)] by (simp add: r)
  have "verdict env tc r = None"
  proof (cases "\<exists>kvs. body = JObj kvs")
    case True
    then obtain kvs where kvs: "body = JObj kvs" by blast
    have one: "conforms (rs_body r) (Schema ''object'' (Some [(k, f)]) None None False None)" if "(k, f) \<in> set (infer_fields kvs)" for k f
      using schema that by (auto simp: r kvs conforms_object_simps or_else_def)
    have shown: "sublist (in_quotes k) (body_text env (rs_body r))" if "(k, v) \<in> set kvs" for k v
      using assms(2) that by (force simp: r kvs body_text_def)
    obtain f i where tc: "tc = f i" and f: "f \<in> set (contract_list env cfg ep status body None)"
      using with_ids_memD[OF assms(4)[unfolded generateContractTests_def]] by blast
    show ?thesis
      using f one shown schema
      by (auto simp: contract_list_def Let_def tc kvs or_else_def intro!: schema_test_passes[OF r(1) _ refl] presence_test_passes[OF r(1)])
  next
    case False
    obtain f i where tc: "tc = f i" and f: "f \<in> set (contract_list env cfg ep status body None)"
      using with_ids_memD[OF assms(4)[unfolded generateContractTests_def]] by blast
    have "sc_type (inferSchema body) \<noteq> ''object''" using False by (cases body rule: inferSchema.cases) (auto simp: inferType_def)
    then show ?thesis
      using f schema by (auto simp: contract_list_def Let_def tc intro!: schema_test_passes[OF r(1) _ refl])
  qed
  then show ?thesis using srv by (simp add: runTestCase_def r_def)
qed

definition recorded_env :: api_env where
  "recorded_env = demo_env\<lparr>av_stringify := (\<lambda>_. in_quotes ''id'')\<rparr>"

definition recorded_server :: "unit server" where
  "recorded_server rq w = (Inr \<lparr>rs_status = 200, rs_headers = [], rs_body = JObj [(''id'', JNum 7)], rs_duration = 3\<rparr>, w)"

definition demo_config :: api_config where
  "demo_config = \<lparr>ac_host = ''http://localhost/'', ac_basePath = Some ''api'', ac_auth = Some (Bearer (Some ''t'')), ac_headers = None\<rparr>"

definition demo_endpoint :: endpoint_config where
  "demo_endpoint = \<lparr>ep_method = ''GET'', ep_path = ''/users/:id'', ep_headers = None, ep_params = Some [(''id'', ''7'')],
     ep_query = None, ep_body = None, ep_cookies = None\<rparr>"

lemma demo_url: "buildUrl demo_env demo_config demo_endpoint = ''http://localhost/api/users/7''"
  by (simp add: buildUrl_def demo_env_def demo_config_def demo_endpoint_def strip_end_def strip_slashes_def truthy_string_def)

theorem contract_tests_pass_on_recording_witness:
  "list_all (\<lambda>tc. re_passed (fst (runTestCase recorded_env recorded_server tc ())))
     (generateContractTests recorded_env demo_config demo_endpoint 200 (JObj [(''id'', JNum 7)]) None 0)"
  unfolding list_all_iff
proof
  fix tc
  assume tc: "tc \<in> set (generateContractTests recorded_env demo_config demo_endpoint 200 (JObj [(''id'', JNum 7)]) None 0)"
  show "re_passed (fst (runTestCase recorded_env recorded_server tc ()))"
  proof (rule contract_tests_pass_on_recording[OF _ _ _ tc])
    show "json_wf (JObj [(''id'', JNum 7)])" by (simp add: jm_wf_def)
    show "\<forall>kvs k. JObj [(''id'', JNum 7)] = JObj kvs \<longrightarrow> k \<in> set (jm_keys kvs) \<longrightarrow> sublist (in_quotes k) (av_stringify recorded_env (JObj [(''id'', JNum 7)]))"
      by (auto simp: recorded_env_def)
    show "\<forall>rq w. \<exists>h d w'. recorded_server rq w = (Inr \<lparr>rs_status = 200, rs_headers = h, rs_body = JObj [(''id'', JNum 7)], rs_duration = d\<rparr>, w')"
      by (simp add: recorded_server_def)
  qed
qed

section \<open>State machine tests\<close>

record state_transition =
  tr_from :: string
  tr_to :: string
  tr_method :: string
  tr_path :: "string option"
  tr_body :: "json option"

record state_machine_config =
  sm_resource :: string
  sm_basePath :: string
  sm_stateField :: string
  sm_states :: "string list"
  sm_transitions :: "state_transition list"
  sm_createPayload :: json

datatype transition_type = Valid | Invalid | SelfTransition | Terminal

record state_machine_test = test_case +
  st_dependsOn :: "string option"
  st_stateMachine :: "(string \<times> string \<times> transition_type) option"

definition machine_test :: "test_request \<Rightarrow> int list \<Rightarrow> (string \<times> string \<times> transition_type) option \<Rightarrow> string option
    \<Rightarrow> (string, string) jsmap option \<Rightarrow> string \<Rightarrow> state_machine_test" where
  "machine_test rq status machine depends extract i = \<lparr>tc_id = i, tc_category = ''edge'', tc_request = rq,
     tc_expect = plain_expectation status, tc_flowName = None, tc_extractVariables = extract, tc_burstCount = 0,
     tc_sequential = False, tc_baselinePath = None, st_dependsOn = depends, st_stateMachine = machine\<rparr>"

text \<open>\<open>transitionMap.get(state) || []\<close>\<close>

definition transitions_from :: "state_machine_config \<Rightarrow> string \<Rightarrow> state_transition list" where
  "transitions_from sm s = filter (\<lambda>t. tr_from t = s) (sm_transitions sm)"

definition machine_root :: "api_config \<Rightarrow> string" where
  "machine_root cfg = strip_end (ac_host cfg) @ or_else (ac_basePath cfg) []"

definition machine_headers :: "api_env \<Rightarrow> api_config \<Rightarrow> state_machine_config \<Rightarrow> (string, string) jsmap" where
  "machine_headers env cfg sm = jm_set (buildHeaders env cfg \<lparr>ep_method = ''POST'', ep_path = sm_basePath sm, ep_headers = None,
     ep_params = None, ep_query = None, ep_body = None, ep_cookies = None\<rparr>) ''Content-Type'' ''application/json''"

definition patch_request :: "api_env \<Rightarrow> api_config \<Rightarrow> state_machine_config \<Rightarrow> string \<Rightarrow> test_request" where
  "patch_request env cfg sm to = \<lparr>rq_method = ''PATCH'', rq_url = machine_root cfg @ sm_basePath sm @ ''/{{id}}'',
     rq_headers = machine_headers env cfg sm, rq_body = Some (JObj [(sm_stateField sm, JStr to)])\<rparr>"

definition transition_request :: "api_env \<Rightarrow> api_config \<Rightarrow> state_machine_config \<Rightarrow> state_transition \<Rightarrow> test_request" where
  "transition_request env cfg sm t = \<lparr>rq_method = tr_method t,
     rq_url = machine_root cfg @ (if truthy_string (tr_path t) then the (tr_path t) else sm_basePath sm @ ''/{{id}}''),
     rq_headers = machine_headers env cfg sm,
     rq_body = Some (case tr_body t of Some b \<Rightarrow> if js_truthy b then b else JObj [(sm_stateField sm, JStr (tr_to t))]
       | None \<Rightarrow> JObj [(sm_stateField sm, JStr (tr_to t))])\<rparr>"

text \<open>The valid transitions form a chain: each test depends on the one before it.\<close>

fun valid_tests :: "api_env \<Rightarrow> api_config \<Rightarrow> state_machine_config \<Rightarrow> state_transition list \<Rightarrow> string \<Rightarrow> nat
    \<Rightarrow> state_machine_test list \<times> nat" where
  "valid_tests env cfg sm [] prevId counter = ([], counter)"
| "valid_tests env cfg sm (t # ts) prevId counter =
     (case nextId counter ''sm'' of (i, counter) \<Rightarrow>
        let test = machine_test (transition_request env cfg sm t) [200, 204] (Some (tr_from t, tr_to t, Valid)) (Some prevId) None i
        in case valid_tests env cfg sm ts i counter of (tests, counter) \<Rightarrow> (test # tests, counter))"

definition invalid_list :: "api_env \<Rightarrow> api_config \<Rightarrow> state_machine_config \<Rightarrow> (string \<Rightarrow> state_machine_test) list" where
  "invalid_list env cfg sm = concat (map (\<lambda>s. map (\<lambda>to. machine_test (patch_request env cfg sm to) [400, 422, 409] (Some (s, to, Invalid)) None None)
     (filter (\<lambda>to. to \<notin> set (map tr_to (transitions_from sm s)) \<and> s \<noteq> to) (sm_states sm))) (sm_states sm))"

definition self_list :: "api_env \<Rightarrow> api_config \<Rightarrow> state_machine_config \<Rightarrow> (string \<Rightarrow> state_machine_test) list" where
  "self_list env cfg sm = map (\<lambda>s. machine_test (patch_request env cfg sm s) [200, 400, 422] (Some (s, s, SelfTransition)) None None) (sm_states sm)"

definition terminal_list :: "api_env \<Rightarrow> api_config \<Rightarrow> state_machine_config \<Rightarrow> (string \<Rightarrow> state_machine_test) list" where
  "terminal_list env cfg sm =
     concat (map (\<lambda>s. map (\<lambda>to. machine_test (patch_request env cfg sm to) [400, 422, 409] (Some (s, to, Terminal)) None None)
       (filter (\<lambda>to. to \<noteq> s) (sm_states sm))) (filter (\<lambda>s. transitions_from sm s = []) (sm_states sm)))"

definition generateStateMachineTests :: "api_env \<Rightarrow> api_config \<Rightarrow> state_machine_config \<Rightarrow> nat \<Rightarrow> state_machine_test list" where
  "generateStateMachineTests env cfg sm counter =
     (case nextId counter ''sm'' of (createId, counter) \<Rightarrow>
        let create = machine_test \<lparr>rq_method = ''POST'', rq_url = machine_root cfg @ sm_basePath sm,
              rq_headers = machine_headers env cfg sm, rq_body = Some (sm_createPayload sm)\<rparr> [200, 201] None None
              (Some [(''id'', ''$.id''), (''_id'', ''$._id'')]) createId
        in case valid_tests env cfg sm (sm_transitions sm) createId counter of (valid, counter) \<Rightarrow>
          create # valid @ with_ids counter ''sm'' (invalid_list env cfg sm @ self_list env cfg sm @ terminal_list env cfg sm))"

section \<open>The machine is covered\<close>

definition edges :: "state_machine_config \<Rightarrow> (string \<times> string) set" where
  "edges sm = (\<lambda>t. (tr_from t, tr_to t)) ` set (sm_transitions sm)"

definition tested :: "transition_type \<Rightarrow> state_machine_test list \<Rightarrow> (string \<times> string) set" where
  "tested k tests = {(s, to). \<exists>t\<in>set tests. st_stateMachine t = Some (s, to, k)}"

lemma tested_machines: "tested k tests = {(s, to). Some (s, to, k) \<in> set (map st_stateMachine tests)}"
  by (force simp: tested_def)

lemma valid_machines:
  "map st_stateMachine (fst (valid_tests env cfg sm ts prevId counter)) = map (\<lambda>t. Some (tr_from t, tr_to t, Valid)) ts"
proof (induction ts arbitrary: prevId counter)
  case (Cons t ts)
  obtain i c where i: "nextId counter ''sm'' = (i, c)" by (cases "nextId counter ''sm''")
  obtain tests c' where v: "valid_tests env cfg sm ts i c = (tests, c')" by (cases "valid_tests env cfg sm ts i c")
  show ?case using Cons.IH[of i c] by (simp add: i v Let_def machine_test_def)
qed simp

definition machine_of :: "(string \<Rightarrow> state_machine_test) \<Rightarrow> (string \<times> string \<times> transition_type) option" where
  "machine_of f = st_stateMachine (f [])"

lemma machine_of_test [simp]: "machine_of (machine_test rq status m d e) = m"
  by (simp add: machine_of_def machine_test_def)

lemma listed_machines:
  "map st_stateMachine (with_ids n ''sm'' (invalid_list env cfg sm @ self_list env cfg sm @ terminal_list env cfg sm))
     = map machine_of (invalid_list env cfg sm @ self_list env cfg sm @ terminal_list env cfg sm)"
proof (rule map_with_ids[where g = st_stateMachine and h = machine_of])
  fix f i
  assume "f \<in> set (invalid_list env cfg sm @ self_list env cfg sm @ terminal_list env cfg sm)"
  then obtain rq status m where "f = machine_test rq status m None None"
    unfolding invalid_list_def self_list_def terminal_list_def by auto
  then show "st_stateMachine (f i) = machine_of f" by (simp add: machine_test_def machine_of_def)
qed

lemma generated_machines:
  "set (map st_stateMachine (generateStateMachineTests env cfg sm counter)) =
     insert None (set (map (\<lambda>t. Some (tr_from t, tr_to t, Valid)) (sm_transitions sm))
       \<union> set (map machine_of (invalid_list env cfg sm @ self_list env cfg sm @ terminal_list env cfg sm)))"
proof -
  obtain createId c1 where c: "nextId counter ''sm'' = (createId, c1)" by (cases "nextId counter ''sm''")
  obtain valid c2 where v: "valid_tests env cfg sm (sm_transitions sm) createId c1 = (valid, c2)"
    by (cases "valid_tests env cfg sm (sm_transitions sm) createId c1")
  have "map st_stateMachine valid = map (\<lambda>t. Some (tr_from t, tr_to t, Valid)) (sm_transitions sm)"
    using valid_machines[of env cfg sm "sm_transitions sm" createId c1] v by simp
  then show ?thesis
    unfolding generateStateMachineTests_def c prod.case v Let_def
    by (simp only: list.map map_append listed_machines set_append list.set) (simp add: machine_test_def)
qed

lemma in_transitions_from: "to \<in> set (map tr_to (transitions_from sm s)) \<longleftrightarrow> (s, to) \<in> edges sm"
  by (auto simp: transitions_from_def edges_def)

lemma no_transitions_from: "transitions_from sm s = [] \<longleftrightarrow> (\<nexists>x. (s, x) \<in> edges sm)"
  by (auto simp: transitions_from_def edges_def filter_empty_conv)

lemma invalid_machines: "set (map machine_of (invalid_list env cfg sm)) =
    {Some (s, to, Invalid) | s to. s \<in> set (sm_states sm) \<and> to \<in> set (sm_states sm) \<and> (s, to) \<notin> edges sm \<and> s \<noteq> to}"
  unfolding invalid_list_def in_transitions_from by (auto simp: image_iff)

lemma self_machines: "set (map machine_of (self_list env cfg sm)) = {Some (s, s, SelfTransition) | s. s \<in> set (sm_states sm)}"
  unfolding self_list_def by (auto simp: image_iff)

lemma terminal_machines: "set (map machine_of (terminal_list env cfg sm)) =
    {Some (s, to, Terminal) | s to. s \<in> set (sm_states sm) \<and> to \<in> set (sm_states sm) \<and> (\<nexists>x. (s, x) \<in> edges sm) \<and> to \<noteq> s}"
  unfolding terminal_list_def no_transitions_from by (auto simp: image_iff)

lemma in_generated_machines:
  "Some (s, to, k) \<in> set (map st_stateMachine (generateStateMachineTests env cfg sm n)) \<longleftrightarrow>
     (case k of Valid \<Rightarrow> (s, to) \<in> edges sm
      | Invalid \<Rightarrow> s \<in> set (sm_states sm) \<and> to \<in> set (sm_states sm) \<and> (s, to) \<notin> edges sm \<and> s \<noteq> to
      | SelfTransition \<Rightarrow> s = to \<and> s \<in> set (sm_states sm)
      | Terminal \<Rightarrow> s \<in> set (sm_states sm) \<and> to \<in> set (sm_states sm) \<and> (\<nexists>x. (s, x) \<in> edges sm) \<and> to \<noteq> s)"
  unfolding generated_machines map_append set_append invalid_machines self_machines terminal_machines
  by (cases k) (auto simp: edges_def)

text \<open>The generated tests cover the machine: every declared transition is tested as valid, every other pair of distinct states
  as invalid and expected to be refused, every state with itself, and every pair out of a terminal state once more.\<close>

theorem state_machine_tests_cover:
  shows "tested Valid (generateStateMachineTests env cfg sm n) = edges sm"
    and "tested Invalid (generateStateMachineTests env cfg sm n) = {(s, to). s \<in> set (sm_states sm) \<and> to \<in> set (sm_states sm) \<and> s \<noteq> to} - edges sm"
    and "tested SelfTransition (generateStateMachineTests env cfg sm n) = {(s, s) | s. s \<in> set (sm_states sm)}"
    and "tested Terminal (generateStateMachineTests env cfg sm n) = {(s, to). s \<in> set (sm_states sm) \<and> to \<in> set (sm_states sm) \<and> s \<noteq> to \<and> (\<nexists>x. (s, x) \<in> edges sm)}"
    and "set (sm_states sm) \<times> set (sm_states sm) \<subseteq> tested Valid (generateStateMachineTests env cfg sm n) \<union> tested Invalid (generateStateMachineTests env cfg sm n) \<union> tested SelfTransition (generateStateMachineTests env cfg sm n)"
    and "tested Terminal (generateStateMachineTests env cfg sm n) \<subseteq> tested Invalid (generateStateMachineTests env cfg sm n)"
  unfolding tested_machines in_generated_machines transition_type.case by auto

text \<open>None of these tests is part of a named flow, so the run sends \<open>{{id}}\<close> as it is; and the path under which the
  identifier would be extracted finds nothing.\<close>

lemma valid_tests_unnamed: "t \<in> set (fst (valid_tests env cfg sm ts p c)) \<Longrightarrow> tc_flowName t = None"
proof (induction ts arbitrary: p c)
  case (Cons u ts)
  obtain i c1 where i: "nextId c ''sm'' = (i, c1)" by (cases "nextId c ''sm''")
  obtain tests c2 where v: "valid_tests env cfg sm ts i c1 = (tests, c2)" by (cases "valid_tests env cfg sm ts i c1")
  show ?case using Cons.IH[of i c1] Cons.prems by (auto simp: i v Let_def machine_test_def)
qed simp

lemma machine_tests_unnamed:
  assumes "t \<in> set (generateStateMachineTests env cfg sm n)"
  shows "tc_flowName t = None"
proof -
  obtain createId c1 where c: "nextId n ''sm'' = (createId, c1)" by (cases "nextId n ''sm''")
  obtain valid c2 where v: "valid_tests env cfg sm (sm_transitions sm) createId c1 = (valid, c2)"
    by (cases "valid_tests env cfg sm (sm_transitions sm) createId c1")
  consider (create) "\<exists>rq st m d e i. t = machine_test rq st m d e i" | (valid) "t \<in> set valid"
    | (listed) "t \<in> set (with_ids c2 ''sm'' (invalid_list env cfg sm @ self_list env cfg sm @ terminal_list env cfg sm))"
    using assms unfolding generateStateMachineTests_def c prod.case v Let_def
    by (simp only: list.set set_append Un_iff insert_iff) blast
  then show ?thesis
  proof cases
    case valid
    then show ?thesis using valid_tests_unnamed[of t env cfg sm "sm_transitions sm" createId c1] v by simp
  next
    case listed
    then show ?thesis
      by (auto simp: invalid_list_def self_list_def terminal_list_def machine_test_def dest!: with_ids_memD)
  qed (auto simp: machine_test_def)
qed

lemma dollar_path_finds_nothing:
  assumes "\<not> jm_has kvs ''$''"
  shows "extractJsonPath (JObj kvs) ''$.id'' = None"
  using assms by (simp add: extractJsonPath_def js_member_def)

end
