(* ===== verification/Boot_Config.thy ===== *)
theory Boot_Config
  imports Js_Text
begin

text \<open>
  Configuration (\<open>config/\<close>): the merge of sources (\<open>config-merger.ts\<close>), reads by dotted path (\<open>config.service.ts\<close>),
  the shapes of a Vault answer (\<open>adapters/vault.adapter.ts\<close>) and the hints for errors (\<open>config-errors.ts\<close>). A
  configuration is a JSON object; a source loads one or throws. The Joi schema is declarative and is
  left out; its errors are paths with a message.
\<close>

section \<open>Merging\<close>

function (sequential) deepMerge :: "json_record \<Rightarrow> json_record \<Rightarrow> json_record" where
  "deepMerge result [] = result"
| "deepMerge result ((key, overVal) # kvs) =
     deepMerge (jm_set result key (case overVal of
       JObj o1 \<Rightarrow> (case jm_get result key of Some (JObj b) \<Rightarrow> JObj (deepMerge b o1) | _ \<Rightarrow> overVal)
     | _ \<Rightarrow> overVal)) kvs"
  by pat_completeness auto
termination
  by (relation "measure (\<lambda>(b, o1). size_list (size_prod (\<lambda>_. 0) size) o1)") auto

definition newline :: string where "newline = [CHR 0x0A]"
definition quoted :: "string \<Rightarrow> string" where "quoted s = [CHR 0x22] @ s @ [CHR 0x22]"

record config_source =
  sr_name :: string
  sr_load :: "string + json"

definition load_error :: "string \<Rightarrow> string \<Rightarrow> string" where
  "load_error name message = ''[nestjs-boot] ConfigSource '' @ quoted name @ '' failed to load.'' @ [CHR 0x0A] @ ''  '' @ message"

fun merge_from :: "json_record \<Rightarrow> config_source list \<Rightarrow> string + json_record" where
  "merge_from merged [] = Inr merged"
| "merge_from merged (src # srcs) = (case sr_load src of
     Inl message \<Rightarrow> Inl (load_error (sr_name src) message)
   | Inr (JObj values) \<Rightarrow> merge_from (deepMerge merged values) srcs
   | Inr _ \<Rightarrow> merge_from merged srcs)"

definition mergeConfigs :: "config_source list \<Rightarrow> string + json_record" where
  "mergeConfigs srcs = merge_from [] srcs"

section \<open>Reading\<close>

text \<open>\<open>current[segment]\<close> for an object; an array has its elements under their indices, and its length.\<close>

definition config_member :: "json \<Rightarrow> string \<Rightarrow> json option" where
  "config_member current segment = (case current of
     JObj kvs \<Rightarrow> jm_get kvs segment
   | JArr xs \<Rightarrow> if segment = ''length'' then Some (JNum (of_nat (length xs)))
       else map_option (\<lambda>i. xs ! i) (find (\<lambda>i. js_of_nat i = segment) [0..<length xs])
   | _ \<Rightarrow> None)"

fun config_walk :: "json option \<Rightarrow> string list \<Rightarrow> json option" where
  "config_walk current [] = current"
| "config_walk current (s # ss) = config_walk (Option.bind current (\<lambda>c. config_member c s)) ss"

definition config_get :: "json_record \<Rightarrow> string \<Rightarrow> json option" where
  "config_get options path = config_walk (Some (JObj options)) (js_split CHR ''.'' path)"

definition getOrThrow :: "json_record \<Rightarrow> string \<Rightarrow> string + json" where
  "getOrThrow options path = (case config_get options path of
     None \<Rightarrow> Inl (''[nestjs-boot] Config path '' @ quoted path @ '' is not defined'')
   | Some v \<Rightarrow> Inr v)"

definition config_section :: "json_record \<Rightarrow> string \<Rightarrow> json option" where
  "config_section options key = jm_get options key"

section \<open>Vault\<close>

definition vault_url :: "string \<Rightarrow> string \<Rightarrow> string" where
  "vault_url url path = (if ends_with url ''/'' then butlast url else url) @ ''/v1/'' @ (if starts_with path ''/'' then tl path else path)"

text \<open>Key-value store of version 2, else of version 1, else nothing. An array counts as an object.\<close>

definition object_like :: "json option \<Rightarrow> json option" where
  "object_like x = (case x of Some (JObj o1) \<Rightarrow> Some (JObj o1) | Some (JArr xs) \<Rightarrow> Some (JArr xs) | _ \<Rightarrow> None)"

definition vault_load :: "json \<Rightarrow> json" where
  "vault_load response =
     (let data = config_member response ''data'';
          inner = Option.bind data (\<lambda>d. config_member d ''data'')
      in or_else (object_like inner) (or_else (object_like data) (JObj [])))"

section \<open>Hints\<close>

definition hint_map :: "(string, string option \<times> string) jsmap" where
  "hint_map =
    [(''database.connections'', None, ''MongoDB connection map (at least one entry required)''),
     (''database.connections.master.writerUri'', Some ''MONGO_URI'', ''Primary MongoDB write URI''),
     (''database.connections.master.readerUri'', Some ''MONGO_READ_URI'', ''MongoDB read-replica URI (optional)''),
     (''cache.redis.url'', Some ''REDIS_URL'', ''Redis connection URL for L2 cache''),
     (''cache.memcached.servers'', Some ''MEMCACHED_SERVERS'', ''Memcached server list (comma-separated)''),
     (''auth.jwt.secret'', Some ''JWT_SECRET'', ''JWT signing secret (minimum 8 characters)''),
     (''auth.jwt.refreshSecret'', Some ''JWT_REFRESH_SECRET'', ''JWT refresh token signing secret''),
     (''transport.grpc.url'', Some ''GRPC_URL'', ''gRPC server bind address (e.g. '' @ [CHR 0x22] @ ''0.0.0.0:5000'' @ [CHR 0x22] @ '')''),
     (''transport.grpc.package'', Some ''GRPC_PACKAGE'', ''gRPC protobuf package name''),
     (''transport.grpc.protoPath'', Some ''GRPC_PROTO_PATH'', ''Path to .proto file(s)''),
     (''transport.nats.url'', Some ''NATS_URL'', ''NATS server URL (e.g. '' @ [CHR 0x22] @ ''nats://localhost:4222'' @ [CHR 0x22] @ '')''),
     (''transport.rabbitmq.urls'', Some ''RABBITMQ_URLS'', ''RabbitMQ connection URL(s)''),
     (''transport.rabbitmq.queue'', Some ''RABBITMQ_QUEUE'', ''RabbitMQ queue name for this service''),
     (''queue.redis.url'', Some ''QUEUE_REDIS_URL'', ''Redis URL for BullMQ job queue''),
     (''events.redis.url'', Some ''EVENTS_REDIS_URL'', ''Redis URL for the event bus''),
     (''tracing.exporter'', Some ''TRACING_EXPORTER'', ''OpenTelemetry exporter type (otlp | jaeger | zipkin | console)''),
     (''tracing.endpoint'', Some ''OTEL_EXPORTER_OTLP_ENDPOINT'', ''OpenTelemetry collector endpoint URL'')]"

text \<open>The texts contain an arrow and a cross, which are kept as the bytes of their encoding.\<close>

definition arrow :: string where "arrow = [CHR 0xE2, CHR 0x86, CHR 0x92]"
definition cross :: string where "cross = [CHR 0xE2, CHR 0x9C, CHR 0x97]"

definition buildHint :: "string \<Rightarrow> string option \<Rightarrow> string \<Rightarrow> string \<Rightarrow> string" where
  "buildHint path envVar description joiMessage = js_join '' ''
     ([description, ''(config path: '' @ path @ '')''] @
      (case envVar of
         Some e \<Rightarrow> [newline @ ''    '' @ arrow @ '' Fix: set '' @ e @ ''=<value> in .env'',
                    ''    '' @ arrow @ '' Or:  pass { '' @ path @ '': '' @ [CHR 0x27] @ ''...'' @ [CHR 0x27] @ '' } in createApp() options'']
       | None \<Rightarrow> [newline @ ''    '' @ arrow @ '' Fix: pass '' @ quoted path @ '' in createApp() options'']) @
      [''    '' @ arrow @ '' Joi detail: '' @ joiMessage])"

text \<open>\<open>path.replace(/\.connections\.[^.]+\./, '.connections.master.')\<close>: the first \<open>.connections.\<close> that a name and a dot follow.\<close>

fun normalize_path :: "string \<Rightarrow> string" where
  "normalize_path [] = []"
| "normalize_path (c # cs) =
     (let after = drop (length ''.connections.'') (c # cs); rest = dropWhile (\<lambda>d. d \<noteq> CHR ''.'') after
      in if starts_with (c # cs) ''.connections.'' \<and> takeWhile (\<lambda>d. d \<noteq> CHR ''.'') after \<noteq> [] \<and> rest \<noteq> []
         then ''.connections.master'' @ rest else c # normalize_path cs)"

definition lookupHint :: "string \<Rightarrow> string \<Rightarrow> string" where
  "lookupHint path joiMessage = (case jm_get hint_map path of
     Some (envVar, description) \<Rightarrow> buildHint path envVar description joiMessage
   | None \<Rightarrow> (case jm_get hint_map (normalize_path path) of
       Some (envVar, description) \<Rightarrow> buildHint path envVar description joiMessage
     | None \<Rightarrow> joiMessage @ newline @ ''    '' @ arrow @ '' Set '' @ quoted path
         @ '' in your createApp() options or the corresponding env var in .env''))"

definition formatConfigError :: "(string list \<times> string) list \<Rightarrow> string" where
  "formatConfigError details = js_join newline
     ([''[nestjs-boot] Configuration errors found:'' @ newline] @
      map (\<lambda>(segments, message). ''  '' @ cross @ '' '' @ lookupHint (js_join ''.'' segments) message) details @
      [newline @ ''Quick-fix checklist:'',
       ''  1. Check your .env file '' @ [CHR 0xE2, CHR 0x80, CHR 0x94] @ '' run: cat .env | grep -i <KEY>'',
       ''  2. Verify createApp() options object has the required field.'',
       ''  3. If using async secrets loader, confirm the loader is resolving correctly.''])"

section \<open>Later sources win\<close>

text \<open>The value at a path through objects, and whether a source says nothing about a path.\<close>

fun obj_get :: "json_record \<Rightarrow> string list \<Rightarrow> json option" where
  "obj_get m [] = Some (JObj m)"
| "obj_get m [k] = jm_get m k"
| "obj_get m (k # ks) = (case jm_get m k of Some (JObj x) \<Rightarrow> obj_get x ks | _ \<Rightarrow> None)"

fun silent :: "json_record \<Rightarrow> string list \<Rightarrow> bool" where
  "silent m [] \<longleftrightarrow> False"
| "silent m (k # ks) \<longleftrightarrow> (case jm_get m k of None \<Rightarrow> True | Some (JObj x) \<Rightarrow> silent x ks | _ \<Rightarrow> False)"

definition is_object :: "json \<Rightarrow> bool" where
  "is_object v \<longleftrightarrow> (\<exists>kvs. v = JObj kvs)"

lemma obj_get_Cons: "ks \<noteq> [] \<Longrightarrow> obj_get m (k # ks) = (case jm_get m k of Some (JObj x) \<Rightarrow> obj_get x ks | _ \<Rightarrow> None)"
  by (cases ks) (simp_all only: obj_get.simps list.distinct simp_thms)

definition merge_value :: "json option \<Rightarrow> json \<Rightarrow> json" where
  "merge_value old v = (case v of JObj x \<Rightarrow> (case old of Some (JObj y) \<Rightarrow> JObj (deepMerge y x) | _ \<Rightarrow> v) | _ \<Rightarrow> v)"

lemma deepMerge_get:
  "jm_wf o1 \<Longrightarrow> jm_get (deepMerge b o1) k =
     (case jm_get o1 k of None \<Rightarrow> jm_get b k | Some v \<Rightarrow> Some (merge_value (jm_get b k) v))"
proof (induction o1 arbitrary: b)
  case (Cons kv kvs)
  obtain key v where kv: "kv = (key, v)" by (cases kv)
  have new: "jm_get kvs key = None" and wf: "jm_wf kvs"
    using Cons.prems by (simp_all add: kv jm_wf_def map_of_eq_None_iff)
  have "deepMerge b (kv # kvs) = deepMerge (jm_set b key (merge_value (jm_get b key) v)) kvs"
    by (simp add: kv merge_value_def)
  then show ?case
    using Cons.IH[OF wf] new by (cases "k = key") (simp_all add: kv jm_get_set split: option.split)
qed simp

lemma json_wf_get: "json_wf (JObj m) \<Longrightarrow> jm_get m k = Some v \<Longrightarrow> json_wf v"
  by (auto simp: members_wf_iff dest!: map_of_SomeD)

lemma override_wins:
  "json_wf (JObj o1) \<Longrightarrow> obj_get o1 ks = Some v \<Longrightarrow> \<not> is_object v \<Longrightarrow> obj_get (deepMerge b o1) ks = Some v"
proof (induction o1 ks arbitrary: b rule: obj_get.induct)
  case (1 m)
  then show ?case by (auto simp: is_object_def)
next
  case (2 m k)
  then show ?case by (cases v) (simp_all add: deepMerge_get merge_value_def is_object_def)
next
  case (3 m k k' ks)
  then obtain x where x: "jm_get m k = Some (JObj x)" "obj_get x (k' # ks) = Some v"
    by (auto split: option.splits json.splits)
  then have "\<And>y. obj_get (deepMerge y x) (k' # ks) = Some v"
    using 3 json_wf_get[OF "3.prems"(1) x(1)] by simp
  then show ?case
    using "3.prems"(1) x by (auto simp: deepMerge_get merge_value_def split: option.split json.split)
qed

lemma silent_keeps:
  "json_wf (JObj o1) \<Longrightarrow> silent o1 ks \<Longrightarrow> obj_get b ks = Some v \<Longrightarrow> obj_get (deepMerge b o1) ks = Some v"
proof (induction ks arbitrary: o1 b)
  case (Cons k ks)
  have wf: "jm_wf o1" using Cons.prems(1) by simp
  show ?case
  proof (cases "jm_get o1 k")
    case None
    then have "jm_get (deepMerge b o1) k = jm_get b k" by (simp add: deepMerge_get[OF wf])
    then show ?thesis using Cons.prems(3) by (cases ks) simp_all
  next
    case (Some w)
    then obtain x where x: "w = JObj x" "silent x ks" using Cons.prems(2) by (cases w) simp_all
    then have ks: "ks \<noteq> []" by auto
    obtain y where y: "jm_get b k = Some (JObj y)" "obj_get y ks = Some v"
      using Cons.prems(3) by (auto simp: obj_get_Cons[OF ks] split: option.splits json.splits)
    have "obj_get (deepMerge y x) ks = Some v"
      by (rule Cons.IH[OF _ x(2) y(2)]) (use json_wf_get[OF Cons.prems(1) Some] x(1) in simp)
    then show ?thesis using Some x y by (simp add: obj_get_Cons[OF ks] deepMerge_get[OF wf] merge_value_def)
  qed
qed simp

lemma walk_obj_get: "obj_get m ks = Some v \<Longrightarrow> config_walk (Some (JObj m)) ks = Some v"
proof (induction m ks rule: obj_get.induct)
  case (3 m k k' ks)
  then show ?case by (auto simp: config_member_def split: option.splits json.splits)
qed (simp_all add: config_member_def)

definition source_ok :: "config_source \<Rightarrow> bool" where
  "source_ok src \<longleftrightarrow> (case sr_load src of Inl _ \<Rightarrow> False | Inr j \<Rightarrow> json_wf j)"

definition source_silent :: "string list \<Rightarrow> config_source \<Rightarrow> bool" where
  "source_silent ks src \<longleftrightarrow> (case sr_load src of Inr (JObj o1) \<Rightarrow> silent o1 ks | _ \<Rightarrow> True)"

lemma merge_from_append:
  "merge_from m (xs @ ys) = (case merge_from m xs of Inl e \<Rightarrow> Inl e | Inr m \<Rightarrow> merge_from m ys)"
  by (induction m xs rule: merge_from.induct) (auto split: sum.split json.split)

lemma merge_from_keeps:
  "list_all source_ok srcs \<Longrightarrow> list_all (source_silent ks) srcs \<Longrightarrow> obj_get m ks = Some v
    \<Longrightarrow> \<exists>m'. merge_from m srcs = Inr m' \<and> obj_get m' ks = Some v"
proof (induction srcs arbitrary: m)
  case (Cons src srcs)
  obtain j where j: "sr_load src = Inr j" "json_wf j"
    using Cons.prems(1) by (auto simp: source_ok_def split: sum.splits)
  show ?case
  proof (cases j)
    case (JObj o1)
    then have "silent o1 ks" using Cons.prems(2) j by (simp add: source_silent_def)
    then have "obj_get (deepMerge m o1) ks = Some v" using silent_keeps[of o1 ks m v] j(2) JObj Cons.prems(3) by simp
    then show ?thesis using Cons.IH[of "deepMerge m o1"] Cons.prems j JObj by simp
  qed (use Cons j in simp_all)
qed simp

text \<open>The last source that sets a path decides it: a value other than an object that a source sets is what the
  merged configuration reads at its dotted path, if no later source says anything about the path; and a source that fails
  makes the merge fail with its name, after any sources that load.\<close>

theorem last_source_decides:
  assumes "merge_from [] before = Inr m0" and "sr_load src = Inr (JObj o1)" and "json_wf (JObj o1)"
    and "obj_get o1 ks = Some v" and "\<not> is_object v" and "list_all source_ok later" and "list_all (source_silent ks) later"
    and "js_split CHR ''.'' path = ks"
  shows "\<exists>m. mergeConfigs (before @ src # later) = Inr m \<and> config_get m path = Some v \<and> getOrThrow m path = Inr v
    \<and> (sr_load bad = Inl message \<longrightarrow> mergeConfigs (before @ bad # later) = Inl (load_error (sr_name bad) message))"
proof -
  have "obj_get (deepMerge m0 o1) ks = Some v" by (rule override_wins[OF assms(3-5)])
  from merge_from_keeps[OF assms(6,7) this] obtain m where
    m: "merge_from (deepMerge m0 o1) later = Inr m" "obj_get m ks = Some v" by blast
  have "config_get m path = Some v" using walk_obj_get[OF m(2)] by (simp add: config_get_def assms(8))
  then show ?thesis
    using m(1) assms(1,2) by (simp add: mergeConfigs_def merge_from_append getOrThrow_def)
qed

theorem last_source_decides_witness:
  "\<exists>m. mergeConfigs [\<lparr>sr_name = ''env'', sr_load = Inr (JObj [(''port'', JStr ''80''), (''db'', JObj [(''uri'', JStr ''a'')])])\<rparr>,
      \<lparr>sr_name = ''vault'', sr_load = Inr (JObj [(''db'', JObj [(''pool'', JNum 5)])])\<rparr>] = Inr m \<and> config_get m ''db.uri'' = Some (JStr ''a'')"
  using last_source_decides[of "[]" "[]" "\<lparr>sr_name = ''env'', sr_load = Inr (JObj [(''port'', JStr ''80''), (''db'', JObj [(''uri'', JStr ''a'')])])\<rparr>"
      "[(''port'', JStr ''80''), (''db'', JObj [(''uri'', JStr ''a'')])]" "[''db'', ''uri'']" "JStr ''a''"
      "[\<lparr>sr_name = ''vault'', sr_load = Inr (JObj [(''db'', JObj [(''pool'', JNum 5)])])\<rparr>]" "''db.uri''"]
  by (auto simp: jm_wf_def is_object_def source_ok_def source_silent_def)

text \<open>Hints: the variable of the master connection is named for every connection.\<close>

lemma replica_hint:
  "lookupHint ''database.connections.replica.writerUri'' msg =
     buildHint ''database.connections.replica.writerUri'' (Some ''MONGO_URI'') ''Primary MongoDB write URI'' msg"
  by (simp add: lookupHint_def hint_map_def)

end
