(* ===== verification/Db_Repository.thy ===== *)
theory Db_Repository
  imports Db_Cached
begin

text \<open>
  The repositories and services over the two database drivers: \<open>database/base.repository.ts\<close>, \<open>common/crud.service.ts\<close> and
  \<open>common/crud.controller.ts\<close> over Mongoose, \<open>database/prisma/prisma-base.repository.ts\<close> and \<open>common/prisma-crud.service.ts\<close>
  over Prisma, all over the reads and writes of \<open>Db_Cached\<close>. A driver is a record of operations on a database \<open>'s\<close> that
  may throw. Where a query and a count run together and both fail, the error of the query is taken.
\<close>

section \<open>Numbers and pages\<close>

text \<open>A number that a caller gives: whole, or not a number (\<open>parseInt\<close> of a text without digits). Numbers
  beyond the exact range of a double are left out.\<close>

datatype js_int = Whole int | NaN

definition is_digit :: "char \<Rightarrow> bool" where
  "is_digit c \<longleftrightarrow> (let n = of_char c :: nat in 48 \<le> n \<and> n \<le> 57)"

definition digits_value :: "string \<Rightarrow> int" where
  "digits_value ds = foldl (\<lambda>n c. n * 10 + (of_char c - 48)) 0 ds"

definition js_parseInt :: "string \<Rightarrow> js_int" where
  "js_parseInt s =
     (let t = dropWhile js_space s; negative = starts_with t ''-'';
          ds = takeWhile is_digit (if negative \<or> starts_with t ''+'' then tl t else t)
      in if ds = [] then NaN else Whole (if negative then - digits_value ds else digits_value ds))"

fun js_clamp :: "int \<Rightarrow> js_int \<Rightarrow> js_int" where
  "js_clamp low (Whole n) = Whole (max low n)"
| "js_clamp low NaN = NaN"

fun js_cap :: "int \<Rightarrow> js_int \<Rightarrow> js_int" where
  "js_cap high (Whole n) = Whole (min high n)"
| "js_cap high NaN = NaN"

fun js_skip :: "js_int \<Rightarrow> js_int \<Rightarrow> js_int" where
  "js_skip (Whole page) (Whole limit) = Whole ((page - 1) * limit)"
| "js_skip _ _ = NaN"

text \<open>\<open>Math.ceil(total / limit)\<close>.\<close>

datatype page_total = Pages int | Infinite | NoPages

fun totalPages :: "nat \<Rightarrow> js_int \<Rightarrow> page_total" where
  "totalPages n (Whole limit) = (if limit \<noteq> 0 then Pages (- ((- int n) div limit)) else if n = 0 then NoPages else Infinite)"
| "totalPages n NaN = NoPages"

record 'v paginated_result =
  pg_data :: "'v list"
  pg_total :: nat
  pg_page :: js_int
  pg_limit :: js_int
  pg_totalPages :: page_total

datatype 'v answer = OneOf "'v option" | Paged "'v paginated_result" | ListOf "'v list" | Number nat | Truth bool
  | ModifiedCount nat | DeletedCount nat | CountOf nat

type_synonym sort_fields = "(string \<times> bool) list"

section \<open>Mongoose\<close>

record 'f find_query =
  fq_filter :: 'f
  fq_skip :: js_int
  fq_limit :: js_int
  fq_sort :: "sort_fields option"
  fq_select :: "string option"
  fq_populate :: "string list"

record ('f, 'p, 'd, 's, 'e, 'v) mongo_driver =
  dr_empty :: 'f
  dr_find :: "'f find_query \<Rightarrow> 's \<Rightarrow> 'e + 'v list"
  dr_countDocuments :: "'f \<Rightarrow> 's \<Rightarrow> 'e + nat"
  dr_findById :: "string \<Rightarrow> 's \<Rightarrow> 'e + 'v option"
  dr_findOne :: "'f \<Rightarrow> 's \<Rightarrow> 'e + 'v option"
  dr_exists :: "'f \<Rightarrow> 's \<Rightarrow> 'e + 'v option"
  dr_aggregate :: "'p \<Rightarrow> 's \<Rightarrow> 'e + 'v list"
  dr_save :: "'d \<Rightarrow> 's \<Rightarrow> ('e + 'v) \<times> 's"
  dr_insertMany :: "'d list \<Rightarrow> 's \<Rightarrow> ('e + 'v list) \<times> 's"
  dr_findByIdAndUpdate :: "string \<Rightarrow> 'd \<Rightarrow> 's \<Rightarrow> ('e + 'v option) \<times> 's"
  dr_updateMany :: "'f \<Rightarrow> 'd \<Rightarrow> 's \<Rightarrow> ('e + nat) \<times> 's"
  dr_findByIdAndDelete :: "string \<Rightarrow> 's \<Rightarrow> ('e + 'v option) \<times> 's"
  dr_deleteMany :: "'f \<Rightarrow> 's \<Rightarrow> ('e + nat) \<times> 's"

text \<open>Both answers of \<open>Promise.all\<close>, or an error.\<close>

definition both :: "'e + 'a \<Rightarrow> 'e + 'b \<Rightarrow> ('a \<Rightarrow> 'b \<Rightarrow> 'c) \<Rightarrow> 'e + 'c" where
  "both x y f = (case x of Inl e \<Rightarrow> Inl e | Inr a \<Rightarrow> map_sum id (f a) y)"

definition page_of :: "js_int \<Rightarrow> js_int \<Rightarrow> 'v list \<Rightarrow> nat \<Rightarrow> 'v paginated_result" where
  "page_of page limit data n =
     \<lparr>pg_data = data, pg_total = n, pg_page = page, pg_limit = limit, pg_totalPages = totalPages n limit\<rparr>"

definition base_findAll :: "('f, 'p, 'd, 's, 'e, 'v) mongo_driver \<Rightarrow> 'f \<Rightarrow> pagination_options \<Rightarrow> 's \<Rightarrow> 'e + 'v paginated_result" where
  "base_findAll readModel f options s =
     (let page = Whole (or_else (po_page options) 1); limit = Whole (or_else (po_limit options) 20);
          q = \<lparr>fq_filter = f, fq_skip = js_skip page limit, fq_limit = limit, fq_sort = po_sort options, fq_select = None,
               fq_populate = []\<rparr>
      in both (dr_find readModel q s) (dr_countDocuments readModel f s) (page_of page limit))"

definition no_options :: pagination_options where
  "no_options = \<lparr>po_page = None, po_limit = None, po_sort = None\<rparr>"

fun base_read :: "('f, 'p, 'd, 's, 'e, 'v) mongo_driver \<Rightarrow> ('f, 'p) repo_read \<Rightarrow> 's \<Rightarrow> 'e + 'v answer" where
  "base_read readModel (FindById i) s = map_sum id OneOf (dr_findById readModel i s)"
| "base_read readModel (FindOne f) s = map_sum id OneOf (dr_findOne readModel f s)"
| "base_read readModel (FindMany f options) s = map_sum id Paged (base_findAll readModel f (or_else options no_options) s)"
| "base_read readModel (FindAll f options) s = map_sum id Paged (base_findAll readModel f options s)"
| "base_read readModel (Count f) s = map_sum id Number (dr_countDocuments readModel (or_else f (dr_empty readModel)) s)"
| "base_read readModel (Exists f) s = map_sum id (\<lambda>x. Truth (x \<noteq> None)) (dr_exists readModel f s)"
| "base_read readModel (Aggregate p) s = map_sum id ListOf (dr_aggregate readModel p s)"

fun base_write :: "('f, 'p, 'd, 's, 'e, 'v) mongo_driver \<Rightarrow> ('f, 'd) repo_write \<Rightarrow> 's \<Rightarrow> ('e + 'v answer) \<times> 's" where
  "base_write writerModel (Create d) s = map_prod (map_sum id (OneOf \<circ> Some)) id (dr_save writerModel d s)"
| "base_write writerModel (CreateMany ds) s = map_prod (map_sum id ListOf) id (dr_insertMany writerModel ds s)"
| "base_write writerModel (Update i d) s = map_prod (map_sum id OneOf) id (dr_findByIdAndUpdate writerModel i d s)"
| "base_write writerModel (UpdateMany f d) s = map_prod (map_sum id ModifiedCount) id (dr_updateMany writerModel f d s)"
| "base_write writerModel (Delete i) s = map_prod (map_sum id OneOf) id (dr_findByIdAndDelete writerModel i s)"
| "base_write writerModel (DeleteMany f) s = map_prod (map_sum id DeletedCount) id (dr_deleteMany writerModel f s)"

text \<open>The constructor: reads go to the reader if there is one.\<close>

definition base_repository :: "('f, 'p, 'd, 's, 'e, 'v) mongo_driver \<Rightarrow> ('f, 'p, 'd, 's, 'e, 'v) mongo_driver option
    \<Rightarrow> ('f, 'p, 'd, 's, 'e, 'v answer) repository" where
  "base_repository writerModel readerModel =
     \<lparr>rp_read = base_read (or_else readerModel writerModel), rp_write = base_write writerModel\<rparr>"

section \<open>Prisma\<close>

datatype sort_order = Asc | Desc

record 'f prisma_query =
  pq_where :: "'f option"
  pq_skip :: "js_int option"
  pq_take :: "js_int option"
  pq_orderBy :: "(string \<times> sort_order) list option"
  pq_select :: "(string \<times> bool) list option"
  pq_include :: "string list option"

record ('f, 'd, 's, 'e, 'v) prisma_driver =
  pm_findUnique :: "string \<Rightarrow> 's \<Rightarrow> 'e + 'v option"
  pm_findFirst :: "'f \<Rightarrow> 's \<Rightarrow> 'e + 'v option"
  pm_findMany :: "'f prisma_query \<Rightarrow> 's \<Rightarrow> 'e + 'v list"
  pm_count :: "'f option \<Rightarrow> 's \<Rightarrow> 'e + nat"
  pm_create :: "'d \<Rightarrow> 's \<Rightarrow> ('e + 'v) \<times> 's"
  pm_createMany :: "'d list \<Rightarrow> 's \<Rightarrow> ('e + nat) \<times> 's"
  pm_update :: "string \<Rightarrow> 'd \<Rightarrow> 's \<Rightarrow> ('e + 'v) \<times> 's"
  pm_updateMany :: "'f \<Rightarrow> 'd \<Rightarrow> 's \<Rightarrow> ('e + nat) \<times> 's"
  pm_delete :: "string \<Rightarrow> 's \<Rightarrow> ('e + 'v) \<times> 's"
  pm_deleteMany :: "'f \<Rightarrow> 's \<Rightarrow> ('e + nat) \<times> 's"
  pm_upsert :: "'f \<Rightarrow> 'd \<Rightarrow> 'd \<Rightarrow> 's \<Rightarrow> ('e + 'v) \<times> 's"
  pm_transaction :: "('s \<Rightarrow> ('e + 'v) \<times> 's) list \<Rightarrow> 's \<Rightarrow> ('e + 'v list) \<times> 's"
  pm_code :: "'e \<Rightarrow> string option"
  pm_notAFunction :: "string \<Rightarrow> 'e"

text \<open>An error P2025 of an update or a delete (no such record) becomes null.\<close>

definition null_if_missing :: "('e \<Rightarrow> string option) \<Rightarrow> ('e + 'v) \<times> 's \<Rightarrow> ('e + 'v option) \<times> 's" where
  "null_if_missing code x = (case x of
     (Inr v, s) \<Rightarrow> (Inr (Some v), s)
   | (Inl e, s) \<Rightarrow> (if code e = Some ''P2025'' then Inr None else Inl e, s))"

definition prisma_order :: "sort_fields option \<Rightarrow> (string \<times> sort_order) list" where
  "prisma_order sorts = (case sorts of
     Some ks \<Rightarrow> map (\<lambda>(k, ascending). (k, if ascending then Asc else Desc)) ks | None \<Rightarrow> [(''createdAt'', Desc)])"

definition prisma_findMany :: "('f, 'd, 's, 'e, 'v) prisma_driver \<Rightarrow> 'f \<Rightarrow> pagination_options option \<Rightarrow> 's
    \<Rightarrow> 'e + 'v paginated_result" where
  "prisma_findMany pm f options s =
     (let page = Whole (or_else (Option.bind options po_page) 1); limit = Whole (or_else (Option.bind options po_limit) 20);
          q = \<lparr>pq_where = Some f, pq_skip = Some (js_skip page limit), pq_take = Some limit,
               pq_orderBy = Some (prisma_order (Option.bind options po_sort)), pq_select = None, pq_include = None\<rparr>
      in both (pm_findMany pm q s) (pm_count pm (Some f) s) (page_of page limit))"

definition prisma_findWithPagination :: "('f, 'd, 's, 'e, 'v) prisma_driver \<Rightarrow> 'f \<Rightarrow> int option \<Rightarrow> int option
    \<Rightarrow> (string \<times> sort_order) list option \<Rightarrow> 's \<Rightarrow> 'e + 'v paginated_result" where
  "prisma_findWithPagination pm f opt_page opt_limit opt_sort s =
     (let page = Whole (or_else opt_page 1); limit = Whole (or_else opt_limit 20);
          q = \<lparr>pq_where = Some f, pq_skip = Some (js_skip page limit), pq_take = Some limit,
               pq_orderBy = Some (or_else opt_sort [(''createdAt'', Desc)]), pq_select = None, pq_include = None\<rparr>
      in both (pm_findMany pm q s) (pm_count pm (Some f) s) (page_of page limit))"

text \<open>\<open>findAll\<close> and \<open>aggregate\<close> are not methods of this class.\<close>

fun prisma_read :: "('f, 'd, 's, 'e, 'v) prisma_driver \<Rightarrow> ('f, 'p) repo_read \<Rightarrow> 's \<Rightarrow> 'e + 'v answer" where
  "prisma_read pm (FindById i) s = map_sum id OneOf (pm_findUnique pm i s)"
| "prisma_read pm (FindOne f) s = map_sum id OneOf (pm_findFirst pm f s)"
| "prisma_read pm (FindMany f options) s = map_sum id Paged (prisma_findMany pm f options s)"
| "prisma_read pm (Count f) s = map_sum id Number (pm_count pm f s)"
| "prisma_read pm (Exists f) s = map_sum id (\<lambda>n. Truth (0 < n)) (pm_count pm (Some f) s)"
| "prisma_read pm (FindAll f options) s = Inl (pm_notAFunction pm ''findAll'')"
| "prisma_read pm (Aggregate p) s = Inl (pm_notAFunction pm ''aggregate'')"

fun prisma_write :: "('f, 'd, 's, 'e, 'v) prisma_driver \<Rightarrow> ('f, 'd) repo_write \<Rightarrow> 's \<Rightarrow> ('e + 'v answer) \<times> 's" where
  "prisma_write pm (Create d) s = map_prod (map_sum id (OneOf \<circ> Some)) id (pm_create pm d s)"
| "prisma_write pm (CreateMany ds) s = map_prod (map_sum id ListOf) id (pm_transaction pm (map (pm_create pm) ds) s)"
| "prisma_write pm (Update i d) s = map_prod (map_sum id OneOf) id (null_if_missing (pm_code pm) (pm_update pm i d s))"
| "prisma_write pm (UpdateMany f d) s = map_prod (map_sum id CountOf) id (pm_updateMany pm f d s)"
| "prisma_write pm (Delete i) s = map_prod (map_sum id OneOf) id (null_if_missing (pm_code pm) (pm_delete pm i s))"
| "prisma_write pm (DeleteMany f) s = map_prod (map_sum id CountOf) id (pm_deleteMany pm f s)"

definition prisma_repository :: "('f, 'd, 's, 'e, 'v) prisma_driver \<Rightarrow> ('f, 'p, 'd, 's, 'e, 'v answer) repository" where
  "prisma_repository pm = \<lparr>rp_read = prisma_read pm, rp_write = prisma_write pm\<rparr>"

section \<open>The CRUD services\<close>

record crud_options =
  cr_page :: "js_int option"
  cr_limit :: "js_int option"
  cr_sort :: "sort_fields option"
  cr_select :: "string option"
  cr_populate :: "string list"

definition crud_page :: "js_int option \<Rightarrow> js_int" where
  "crud_page page = js_clamp 1 (or_else page (Whole 1))"

definition crud_limit :: "js_int option \<Rightarrow> js_int" where
  "crud_limit limit = js_cap 100 (js_clamp 1 (or_else limit (Whole 20)))"

record 'v crud_result =
  cu_data :: "'v list"
  cu_total :: nat
  cu_page :: js_int
  cu_limit :: js_int

definition crud_findAll :: "('f, 'p, 'd, 's, 'e, 'v) mongo_driver \<Rightarrow> 'f \<Rightarrow> crud_options \<Rightarrow> 's \<Rightarrow> 'e + 'v crud_result" where
  "crud_findAll model f options s =
     (let page = crud_page (cr_page options); limit = crud_limit (cr_limit options);
          q = \<lparr>fq_filter = f, fq_skip = js_skip page limit, fq_limit = limit, fq_sort = cr_sort options, fq_select = cr_select options,
               fq_populate = cr_populate options\<rparr>
      in both (dr_find model q s) (dr_countDocuments model f s)
           (\<lambda>data n. \<lparr>cu_data = data, cu_total = n, cu_page = page, cu_limit = limit\<rparr>))"

text \<open>\<open>GET /\<close> of the controller: texts of the query, ignored when empty.\<close>

definition query_number :: "string option \<Rightarrow> js_int option" where
  "query_number text = (case text of None \<Rightarrow> None | Some t \<Rightarrow> if t = [] then None else Some (js_parseInt t))"

definition crud_list :: "('f, 'p, 'd, 's, 'e, 'v) mongo_driver \<Rightarrow> string option \<Rightarrow> string option \<Rightarrow> 's \<Rightarrow> 'e + 'v crud_result" where
  "crud_list model page limit s = crud_findAll model (dr_empty model)
     \<lparr>cr_page = query_number page, cr_limit = query_number limit, cr_sort = None, cr_select = None, cr_populate = []\<rparr> s"

record prisma_crud_options =
  pc_page :: "js_int option"
  pc_limit :: "js_int option"
  pc_sort :: "(string \<times> sort_order) list option"
  pc_select :: "(string \<times> bool) list option"
  pc_include :: "string list option"

definition prisma_crud_findAll :: "('f, 'd, 's, 'e, 'v) prisma_driver \<Rightarrow> 'f \<Rightarrow> prisma_crud_options \<Rightarrow> 's \<Rightarrow> 'e + 'v paginated_result" where
  "prisma_crud_findAll pm f options s =
     (let page = crud_page (pc_page options); limit = crud_limit (pc_limit options);
          q = \<lparr>pq_where = Some f, pq_skip = Some (js_skip page limit), pq_take = Some limit, pq_orderBy = pc_sort options,
               pq_select = pc_select options, pq_include = pc_include options\<rparr>
      in both (pm_findMany pm q s) (pm_count pm (Some f) s) (page_of page limit))"

text \<open>The hooks of a subclass: they may throw, change the data and act on the database.\<close>

record ('d, 's, 'e, 'v) crud_hooks =
  hk_beforeCreate :: "'d \<Rightarrow> 's \<Rightarrow> ('e + 'd) \<times> 's"
  hk_afterCreate :: "'v \<Rightarrow> 's \<Rightarrow> ('e + unit) \<times> 's"
  hk_beforeUpdate :: "string \<Rightarrow> 'd \<Rightarrow> 's \<Rightarrow> ('e + 'd) \<times> 's"
  hk_afterUpdate :: "'v \<Rightarrow> 's \<Rightarrow> ('e + unit) \<times> 's"
  hk_beforeDelete :: "string \<Rightarrow> 's \<Rightarrow> ('e + unit) \<times> 's"
  hk_afterDelete :: "'v \<Rightarrow> 's \<Rightarrow> ('e + unit) \<times> 's"

definition then_do :: "('e + 'a) \<times> 's \<Rightarrow> ('a \<Rightarrow> 's \<Rightarrow> ('e + 'b) \<times> 's) \<Rightarrow> ('e + 'b) \<times> 's" where
  "then_do x f = (case x of (Inl e, s) \<Rightarrow> (Inl e, s) | (Inr a, s) \<Rightarrow> f a s)"

text \<open>A hook after a call that answered with a document, whose answer is the document.\<close>

definition after_hook :: "('v \<Rightarrow> 's \<Rightarrow> ('e + unit) \<times> 's) \<Rightarrow> 'v \<Rightarrow> 's \<Rightarrow> ('e + 'v) \<times> 's" where
  "after_hook hook v s = map_prod (map_sum id (\<lambda>_. v)) id (hook v s)"

definition after_hook_option :: "('v \<Rightarrow> 's \<Rightarrow> ('e + unit) \<times> 's) \<Rightarrow> 'v option \<Rightarrow> 's \<Rightarrow> ('e + 'v option) \<times> 's" where
  "after_hook_option hook x s = (case x of None \<Rightarrow> (Inr None, s)
   | Some v \<Rightarrow> map_prod (map_sum id Some) id (after_hook hook v s))"

definition crud_create :: "('f, 'p, 'd, 's, 'e, 'v) mongo_driver \<Rightarrow> ('d, 's, 'e, 'v) crud_hooks \<Rightarrow> 'd \<Rightarrow> 's \<Rightarrow> ('e + 'v) \<times> 's" where
  "crud_create model hk d s = then_do (then_do (hk_beforeCreate hk d s) (dr_save model)) (after_hook (hk_afterCreate hk))"

definition crud_update :: "('f, 'p, 'd, 's, 'e, 'v) mongo_driver \<Rightarrow> ('d, 's, 'e, 'v) crud_hooks \<Rightarrow> string \<Rightarrow> 'd \<Rightarrow> 's
    \<Rightarrow> ('e + 'v option) \<times> 's" where
  "crud_update model hk i d s =
     then_do (then_do (hk_beforeUpdate hk i d s) (dr_findByIdAndUpdate model i)) (after_hook_option (hk_afterUpdate hk))"

definition crud_delete :: "('f, 'p, 'd, 's, 'e, 'v) mongo_driver \<Rightarrow> ('d, 's, 'e, 'v) crud_hooks \<Rightarrow> string \<Rightarrow> 's
    \<Rightarrow> ('e + 'v option) \<times> 's" where
  "crud_delete model hk i s =
     then_do (then_do (hk_beforeDelete hk i s) (\<lambda>_. dr_findByIdAndDelete model i)) (after_hook_option (hk_afterDelete hk))"

definition prisma_crud_create :: "('f, 'd, 's, 'e, 'v) prisma_driver \<Rightarrow> ('d, 's, 'e, 'v) crud_hooks \<Rightarrow> 'd \<Rightarrow> 's \<Rightarrow> ('e + 'v) \<times> 's" where
  "prisma_crud_create pm hk d s = then_do (then_do (hk_beforeCreate hk d s) (pm_create pm)) (after_hook (hk_afterCreate hk))"

text \<open>Here the hook after the update runs inside the \<open>try\<close>, and the hook before it outside.\<close>

definition prisma_crud_update :: "('f, 'd, 's, 'e, 'v) prisma_driver \<Rightarrow> ('d, 's, 'e, 'v) crud_hooks \<Rightarrow> string \<Rightarrow> 'd \<Rightarrow> 's
    \<Rightarrow> ('e + 'v option) \<times> 's" where
  "prisma_crud_update pm hk i d s =
     then_do (hk_beforeUpdate hk i d s) (\<lambda>prepared s.
       null_if_missing (pm_code pm) (then_do (pm_update pm i prepared s) (after_hook (hk_afterUpdate hk))))"

definition prisma_crud_delete :: "('f, 'd, 's, 'e, 'v) prisma_driver \<Rightarrow> ('d, 's, 'e, 'v) crud_hooks \<Rightarrow> string \<Rightarrow> 's
    \<Rightarrow> ('e + 'v option) \<times> 's" where
  "prisma_crud_delete pm hk i s =
     then_do (hk_beforeDelete hk i s) (\<lambda>_ s.
       null_if_missing (pm_code pm) (then_do (pm_delete pm i s) (after_hook (hk_afterDelete hk))))"

definition prisma_crud_exists :: "('f, 'd, 's, 'e, 'v) prisma_driver \<Rightarrow> 'f \<Rightarrow> 's \<Rightarrow> 'e + bool" where
  "prisma_crud_exists pm f s = map_sum id (\<lambda>n. 0 < n) (pm_count pm (Some f) s)"

definition crud_exists :: "('f, 'p, 'd, 's, 'e, 'v) mongo_driver \<Rightarrow> 'f \<Rightarrow> 's \<Rightarrow> 'e + bool" where
  "crud_exists model f s = map_sum id (\<lambda>x. x \<noteq> None) (dr_exists model f s)"

section \<open>The pages make up the collection\<close>

text \<open>A driver that answers slices of the matching documents, in one order, and counts them.\<close>

definition answers_slices :: "('f, 'p, 'd, 's, 'e, 'v) mongo_driver \<Rightarrow> ('f \<Rightarrow> sort_fields option \<Rightarrow> 'v list) \<Rightarrow> 's \<Rightarrow> bool" where
  "answers_slices model rows s \<longleftrightarrow>
     (\<forall>f so k l. 0 \<le> k \<longrightarrow> 0 < l \<longrightarrow> dr_find model \<lparr>fq_filter = f, fq_skip = Whole k, fq_limit = Whole l, fq_sort = so,
        fq_select = None, fq_populate = []\<rparr> s = Inr (take (nat l) (drop (nat k) (rows f so))))
   \<and> (\<forall>f so. dr_countDocuments model f s = Inr (length (rows f so)))"

lemma concat_slices: "concat (map (\<lambda>i. take l (drop (i * l) xs)) [0..<n]) = take (n * l) xs"
  by (induction n) (simp_all add: take_add[symmetric] add.commute)

lemma crud_limit_bounds:
  assumes "limit \<noteq> Some NaN"
  obtains l where "crud_limit limit = Whole l" and "1 \<le> l" and "l \<le> 100"
proof (cases limit)
  case None
  then show ?thesis by (intro that[of 20]) (simp_all add: crud_limit_def)
next
  case (Some x)
  with assms obtain n where "x = Whole n" by (cases x) auto
  with Some show ?thesis by (intro that[of "min 100 (max 1 n)"]) (simp_all add: crud_limit_def)
qed

definition list_options :: "int \<Rightarrow> js_int option \<Rightarrow> sort_fields option \<Rightarrow> crud_options" where
  "list_options page limit sorts =
     \<lparr>cr_page = Some (Whole page), cr_limit = limit, cr_sort = sorts, cr_select = None, cr_populate = []\<rparr>"

lemma crud_page_slice:
  assumes "answers_slices model rows s" and "crud_limit limit = Whole l" and "1 \<le> l"
  shows "crud_findAll model f (list_options page limit so) s =
    Inr \<lparr>cu_data = take (nat l) (drop (nat (max 1 page - 1) * nat l) (rows f so)), cu_total = length (rows f so),
      cu_page = Whole (max 1 page), cu_limit = Whole l\<rparr>"
proof -
  have 1: "dr_find model \<lparr>fq_filter = f, fq_skip = Whole ((max 1 page - 1) * l), fq_limit = Whole l, fq_sort = so,
        fq_select = None, fq_populate = []\<rparr> s = Inr (take (nat l) (drop (nat ((max 1 page - 1) * l)) (rows f so)))"
    using assms(1,3) by (simp add: answers_slices_def)
  have 2: "dr_countDocuments model f s = Inr (length (rows f so))" using assms(1) unfolding answers_slices_def by blast
  have "nat ((max 1 page - 1) * l) = nat (max 1 page - 1) * nat l" using assms(3) by (simp add: nat_mult_distrib)
  then show ?thesis using 1 2 assms(2)
    by (simp add: crud_findAll_def list_options_def crud_page_def both_def Let_def)
qed

text \<open>A listing walks the whole collection: whatever the limit, the pages 1, 2, ... up to the total divided by the limit
  hold at most 100 documents each and together are exactly the matching documents in their order; a page before the
  first is the first, and one after the last is empty.\<close>

theorem crud_pages_are_the_collection:
  assumes "answers_slices model rows s" and "limit \<noteq> Some NaN" and "n = length (rows f so)"
  shows "\<exists>l page. crud_limit limit = Whole l \<and> 1 \<le> l \<and> l \<le> 100
    \<and> (\<forall>k. crud_findAll model f (list_options k limit so) s = Inr (page k) \<and> length (cu_data (page k)) \<le> nat l \<and> cu_total (page k) = n)
    \<and> concat (map (\<lambda>i. cu_data (page (int i + 1))) [0..<(n + nat l - 1) div nat l]) = rows f so
    \<and> (\<forall>k\<le>1. page k = page 1) \<and> (\<forall>k. int n \<le> (k - 1) * l \<longrightarrow> cu_data (page k) = [])"
proof -
  obtain l where l: "crud_limit limit = Whole l" "1 \<le> l" "l \<le> 100" by (rule crud_limit_bounds[OF assms(2)])
  define page where "page k = \<lparr>cu_data = take (nat l) (drop (nat (max 1 k - 1) * nat l) (rows f so)), cu_total = length (rows f so),
      cu_page = Whole (max 1 k), cu_limit = Whole l\<rparr>" for k
  have all: "concat (map (\<lambda>i. cu_data (page (int i + 1))) [0..<(n + nat l - 1) div nat l]) = rows f so"
  proof -
    have "n \<le> (n + nat l - 1) div nat l * nat l"
    proof -
      have "n + nat l - 1 = (n + nat l - 1) div nat l * nat l + (n + nat l - 1) mod nat l" by simp
      moreover have "(n + nat l - 1) mod nat l < nat l" using l(2) by simp
      ultimately show ?thesis by linarith
    qed
    then show ?thesis by (simp add: page_def concat_slices assms(3))
  qed
  have empty: "cu_data (page k) = []" if "int n \<le> (k - 1) * l" for k
  proof -
    have "n \<le> nat ((max 1 k - 1) * l)"
    proof (cases "1 \<le> k")
      case False
      then have "(k - 1) * l \<le> 0" using l(2) by (intro mult_nonpos_nonneg) simp_all
      then have "int n \<le> 0" by (rule order_trans[OF that])
      then show ?thesis by simp
    qed (use that in \<open>simp add: max_def\<close>)
    moreover have "nat ((max 1 k - 1) * l) = nat (max 1 k - 1) * nat l" using l(2) by (simp add: nat_mult_distrib)
    ultimately show ?thesis by (simp add: page_def assms(3))
  qed
  show ?thesis
    by (rule exI[of _ l], rule exI[of _ page])
      (use l all empty crud_page_slice[OF assms(1) l(1,2)] assms(3) in \<open>auto simp: page_def max_def\<close>)
qed

section \<open>Swapping the driver\<close>

text \<open>A Mongoose and a Prisma driver over related databases: the same answers and errors, where a missing record is null
  for one and an error P2025 for the other. Pages are compared from skip 0 and limit 1 on, and with an order given.\<close>

definition same_write :: "('m \<Rightarrow> 'q \<Rightarrow> bool) \<Rightarrow> ('e + 'a) \<times> 'm \<Rightarrow> ('e + 'a) \<times> 'q \<Rightarrow> bool" where
  "same_write R x y \<longleftrightarrow> fst x = fst y \<and> R (snd x) (snd y)"

definition same_or_missing :: "('e \<Rightarrow> string option) \<Rightarrow> ('m \<Rightarrow> 'q \<Rightarrow> bool) \<Rightarrow> ('e + 'v option) \<times> 'm \<Rightarrow> ('e + 'v) \<times> 'q \<Rightarrow> bool" where
  "same_or_missing code R x y \<longleftrightarrow> R (snd x) (snd y) \<and> (case fst x of
     Inr (Some v) \<Rightarrow> fst y = Inr v
   | Inr None \<Rightarrow> (\<exists>e. fst y = Inl e \<and> code e = Some ''P2025'')
   | Inl e \<Rightarrow> fst y = Inl e \<and> code e \<noteq> Some ''P2025'')"

definition drivers_agree :: "('f, 'p, 'd, 'm, 'e, 'v) mongo_driver \<Rightarrow> ('f, 'd, 'q, 'e, 'v) prisma_driver
    \<Rightarrow> ('m \<Rightarrow> 'q \<Rightarrow> bool) \<Rightarrow> bool" where
  "drivers_agree dr pm R \<longleftrightarrow> (\<forall>m q. R m q \<longrightarrow>
     (\<forall>f k l so. 0 \<le> k \<longrightarrow> 0 < l \<longrightarrow>
        dr_find dr \<lparr>fq_filter = f, fq_skip = Whole k, fq_limit = Whole l, fq_sort = Some so, fq_select = None, fq_populate = []\<rparr> m =
        pm_findMany pm \<lparr>pq_where = Some f, pq_skip = Some (Whole k), pq_take = Some (Whole l),
          pq_orderBy = Some (prisma_order (Some so)), pq_select = None, pq_include = None\<rparr> q)
   \<and> (\<forall>f. dr_countDocuments dr f m = pm_count pm (Some f) q)
   \<and> dr_countDocuments dr (dr_empty dr) m = pm_count pm None q
   \<and> (\<forall>i. dr_findById dr i m = pm_findUnique pm i q)
   \<and> (\<forall>f. dr_findOne dr f m = pm_findFirst pm f q)
   \<and> (\<forall>f. map_sum id (\<lambda>x. x \<noteq> None) (dr_exists dr f m) = map_sum id (\<lambda>n. 0 < n) (pm_count pm (Some f) q))
   \<and> (\<forall>d. same_write R (dr_save dr d m) (pm_create pm d q))
   \<and> (\<forall>i d. same_or_missing (pm_code pm) R (dr_findByIdAndUpdate dr i d m) (pm_update pm i d q))
   \<and> (\<forall>i. same_or_missing (pm_code pm) R (dr_findByIdAndDelete dr i m) (pm_delete pm i q)))"

text \<open>The calls of \<open>IRepository\<close> on which the classes agree: all but \<open>createMany\<close>, with pages from 1, limits from 1 and an order.\<close>

fun read_portable :: "('f, 'p) repo_read \<Rightarrow> bool" where
  "read_portable (FindMany f (Some options)) \<longleftrightarrow> 1 \<le> or_else (po_page options) 1 \<and> 1 \<le> or_else (po_limit options) 20 \<and> po_sort options \<noteq> None"
| "read_portable (FindMany f None) \<longleftrightarrow> False"
| "read_portable (FindAll f options) \<longleftrightarrow> False"
| "read_portable (Aggregate p) \<longleftrightarrow> False"
| "read_portable _ \<longleftrightarrow> True"

fun write_portable :: "('f, 'd) repo_write \<Rightarrow> bool" where
  "write_portable (Create d) \<longleftrightarrow> True"
| "write_portable (Update i d) \<longleftrightarrow> True"
| "write_portable (Delete i) \<longleftrightarrow> True"
| "write_portable _ \<longleftrightarrow> False"

fun portable :: "('f, 'p, 'd) repo_call \<Rightarrow> bool" where
  "portable (Read r now later) \<longleftrightarrow> read_portable r"
| "portable (Write x now) \<longleftrightarrow> write_portable x"

lemma null_if_missing_same:
  "same_or_missing code R x y \<Longrightarrow> same_write R x (null_if_missing code y)"
  by (cases x; cases y) (auto simp: same_or_missing_def same_write_def null_if_missing_def split: sum.splits option.splits)

lemma same_write_map: "same_write R x y \<Longrightarrow> same_write R (map_prod (map_sum id f) id x) (map_prod (map_sum id f) id y)"
  by (cases x; cases y) (simp add: same_write_def)

lemma portable_read_same:
  fixes dr :: "('f, 'p, 'd, 'm, 'e, 'v) mongo_driver"
  assumes "drivers_agree dr pm R" and "R m q" and "read_portable r"
  shows "base_read dr r m = prisma_read pm r q"
proof (cases r)
  case (FindMany f options)
  then obtain o1 so where o1: "options = Some o1" "po_sort o1 = Some so" "1 \<le> or_else (po_page o1) 1" "1 \<le> or_else (po_limit o1) 20"
    using assms(3) by (cases options) auto
  then have "0 \<le> (or_else (po_page o1) 1 - 1) * or_else (po_limit o1) 20" "0 < or_else (po_limit o1) 20" by simp_all
  then show ?thesis using assms(1,2) FindMany o1
    by (simp add: drivers_agree_def base_findAll_def prisma_findMany_def Let_def)
next
  case (Count f)
  have "dr_countDocuments dr (dr_empty dr) m = pm_count pm None q" "dr_countDocuments dr f' m = pm_count pm (Some f') q" for f'
    using assms(1,2) unfolding drivers_agree_def by blast+
  then show ?thesis using Count by (cases f) (simp_all only: base_read.simps prisma_read.simps or_else_simps)
next
  case (Exists f)
  have "map_sum id Truth (map_sum id (\<lambda>x. x \<noteq> None) (dr_exists dr f m)) = map_sum id Truth (map_sum id (\<lambda>n. 0 < n) (pm_count pm (Some f) q))"
    using assms(1,2) by (simp add: drivers_agree_def)
  then show ?thesis using Exists by (simp add: sum.map_comp o_def id_def)
qed (use assms in \<open>simp_all add: drivers_agree_def\<close>)

lemma portable_write_same:
  fixes dr :: "('f, 'p, 'd, 'm, 'e, 'v) mongo_driver"
  assumes "drivers_agree dr pm R" and "R m q" and "write_portable x"
  shows "same_write R (base_write dr x m) (prisma_write pm x q)"
  using assms by (cases x) (auto simp: drivers_agree_def intro!: same_write_map null_if_missing_same)


text \<open>\<open>createMany\<close> agrees while it succeeds: the inserts of Mongoose are the transaction of Prisma.\<close>

lemma create_many_same:
  assumes "dr_insertMany dr ds m = (Inr vs, m')" and "pm_transaction pm (map (pm_create pm) ds) q = (Inr vs, q')" and "R m' q'"
  shows "same_write R (base_write dr (CreateMany ds) m) (prisma_write pm (CreateMany ds) q)"
  using assms by (simp add: same_write_def)

text \<open>Without options the pages of Prisma are the newest first and those of Mongoose in no order; a limit of 0 is no limit for
  Mongoose and an empty page for Prisma, and the number of pages is infinite.\<close>

lemma default_orders_differ:
  "prisma_order (po_sort no_options) = [(''createdAt'', Desc)]" "po_sort no_options = None"
  by (simp_all add: prisma_order_def no_options_def)

lemma limit_zero_pages: "totalPages n (Whole 0) = (if n = 0 then NoPages else Infinite)"
  by simp

section \<open>The services with hooks\<close>

definition hooks_agree :: "('m \<Rightarrow> 'q \<Rightarrow> bool) \<Rightarrow> ('d, 'm, 'e, 'v) crud_hooks \<Rightarrow> ('d, 'q, 'e, 'v) crud_hooks \<Rightarrow> bool" where
  "hooks_agree R h1 h2 \<longleftrightarrow> (\<forall>m q. R m q \<longrightarrow>
     (\<forall>d. same_write R (hk_beforeCreate h1 d m) (hk_beforeCreate h2 d q))
   \<and> (\<forall>v. same_write R (hk_afterCreate h1 v m) (hk_afterCreate h2 v q))
   \<and> (\<forall>i d. same_write R (hk_beforeUpdate h1 i d m) (hk_beforeUpdate h2 i d q))
   \<and> (\<forall>v. same_write R (hk_afterUpdate h1 v m) (hk_afterUpdate h2 v q))
   \<and> (\<forall>i. same_write R (hk_beforeDelete h1 i m) (hk_beforeDelete h2 i q))
   \<and> (\<forall>v. same_write R (hk_afterDelete h1 v m) (hk_afterDelete h2 v q)))"

text \<open>The hooks after an update or a delete do not themselves throw P2025.\<close>

definition hooks_not_missing :: "('e \<Rightarrow> string option) \<Rightarrow> ('d, 's, 'e, 'v) crud_hooks \<Rightarrow> bool" where
  "hooks_not_missing code hk \<longleftrightarrow> (\<forall>v s e. (fst (hk_afterUpdate hk v s) = Inl e \<or> fst (hk_afterDelete hk v s) = Inl e)
     \<longrightarrow> code e \<noteq> Some ''P2025'')"

lemma same_then_do:
  assumes "same_write R x y" and "\<And>a m q. fst x = Inr a \<Longrightarrow> R m q \<Longrightarrow> same_write R (f a m) (g a q)"
  shows "same_write R (then_do x f) (then_do y g)"
  using assms by (cases x; cases y) (auto simp: same_write_def then_do_def split: sum.split)

lemma then_do_assoc: "then_do (then_do x f) g = then_do x (\<lambda>a s. then_do (f a s) g)"
  by (cases x) (simp add: then_do_def split: sum.split)

lemma same_after_hook:
  "same_write R (h1 v m) (h2 v q) \<Longrightarrow> same_write R (after_hook h1 v m) (after_hook h2 v q)"
  by (simp add: after_hook_def same_write_map)

lemma same_missing_hook:
  assumes "same_or_missing code R x y" and "\<And>v m q. R m q \<Longrightarrow> same_write R (h1 v m) (h2 v q)"
    and "\<And>v q e. fst (h2 v q) = Inl e \<Longrightarrow> code e \<noteq> Some ''P2025''"
  shows "same_write R (then_do x (after_hook_option h1)) (null_if_missing code (then_do y (after_hook h2)))"
proof (cases "fst x")
  case (Inl e)
  then show ?thesis using assms(1) by (cases x; cases y) (auto simp: same_or_missing_def then_do_def null_if_missing_def same_write_def)
next
  case (Inr w)
  show ?thesis
  proof (cases w)
    case None
    then show ?thesis using assms(1) Inr
      by (cases x; cases y) (auto simp: same_or_missing_def then_do_def null_if_missing_def same_write_def after_hook_option_def)
  next
    case (Some v)
    obtain m q where mq: "x = (Inr (Some v), m)" "y = (Inr v, q)" "R m q"
      using assms(1) Inr Some by (cases x; cases y) (auto simp: same_or_missing_def)
    then show ?thesis using assms(2)[OF mq(3), of v] assms(3)[of v q]
      by (cases "h1 v m"; cases "h2 v q"; cases "fst (h2 v q)")
        (auto simp: then_do_def null_if_missing_def same_write_def after_hook_option_def after_hook_def)
  qed
qed

text \<open>The two service classes do the same with the same hooks, errors of the hooks included, unless a hook after an update or a
  delete throws P2025.\<close>

theorem crud_services_agree:
  fixes dr :: "('f, 'p, 'd, 'm, 'e, 'v) mongo_driver"
  assumes "drivers_agree dr pm R" and "hooks_agree R h1 h2" and "hooks_not_missing (pm_code pm) h2" and "R m q"
  shows "same_write R (crud_create dr h1 d m) (prisma_crud_create pm h2 d q)
    \<and> same_write R (crud_update dr h1 i d m) (prisma_crud_update pm h2 i d q)
    \<and> same_write R (crud_delete dr h1 i m) (prisma_crud_delete pm h2 i q)
    \<and> crud_exists dr f m = prisma_crud_exists pm f q"
proof -
  note hooks = assms(2)[unfolded hooks_agree_def, rule_format]
  have create: "same_write R (dr_save dr d m) (pm_create pm d q)" if "R m q" for d m q
    using assms(1) that unfolding drivers_agree_def by blast
  have update: "same_or_missing (pm_code pm) R (dr_findByIdAndUpdate dr i d m) (pm_update pm i d q)" if "R m q" for i d m q
    using assms(1) that unfolding drivers_agree_def by blast
  have delete: "same_or_missing (pm_code pm) R (dr_findByIdAndDelete dr i m) (pm_delete pm i q)" if "R m q" for i m q
    using assms(1) that unfolding drivers_agree_def by blast
  have 1: "same_write R (crud_create dr h1 d m) (prisma_crud_create pm h2 d q)"
    unfolding crud_create_def prisma_crud_create_def
    by (intro same_then_do same_after_hook) (use hooks assms(4) create in blast)+
  have 2: "same_write R (crud_update dr h1 i d m) (prisma_crud_update pm h2 i d q)"
    unfolding crud_update_def prisma_crud_update_def then_do_assoc
    by (intro same_then_do same_missing_hook) (use hooks assms(3,4) update in \<open>auto simp: hooks_not_missing_def\<close>)
  have 3: "same_write R (crud_delete dr h1 i m) (prisma_crud_delete pm h2 i q)"
    unfolding crud_delete_def prisma_crud_delete_def then_do_assoc
    by (intro same_then_do same_missing_hook) (use hooks assms(3,4) delete in \<open>auto simp: hooks_not_missing_def\<close>)
  show ?thesis using 1 2 3 assms(1,4) by (simp add: drivers_agree_def crud_exists_def prisma_crud_exists_def)
qed

text \<open>A hook after the update that throws P2025, for a record of its own that is missing, makes the update answer null
  although the row is updated and stays so.\<close>

lemma hook_error_looks_like_missing:
  assumes "hk_beforeUpdate hk i d s = (Inr d', s1)" and "pm_update pm i d' s1 = (Inr v, s2)"
    and "hk_afterUpdate hk v s2 = (Inl e, s3)" and "pm_code pm e = Some ''P2025''"
  shows "prisma_crud_update pm hk i d s = (Inr None, s3)"
  using assms by (simp add: prisma_crud_update_def then_do_def after_hook_def null_if_missing_def)

section \<open>A table under both drivers\<close>

type_synonym table = "(string \<times> nat) list"

definition table_rows :: "(nat \<Rightarrow> bool) \<Rightarrow> table \<Rightarrow> table" where
  "table_rows f t = filter (\<lambda>r. f (snd r)) t"

fun table_slice :: "js_int \<Rightarrow> js_int \<Rightarrow> 'a list \<Rightarrow> string + 'a list" where
  "table_slice (Whole k) (Whole l) xs = Inr (take (nat l) (drop (nat k) xs))"
| "table_slice _ _ xs = Inl ''BadValue''"

definition table_update :: "string \<Rightarrow> string \<times> nat \<Rightarrow> table \<Rightarrow> (string \<times> nat) option \<times> table" where
  "table_update i d t = (if jm_has t i then (Some (i, snd d), jm_set t i (snd d)) else (None, t))"

definition table_delete :: "string \<Rightarrow> table \<Rightarrow> (string \<times> nat) option \<times> table" where
  "table_delete i t = (case jm_get t i of Some n \<Rightarrow> (Some (i, n), jm_del t i) | None \<Rightarrow> (None, t))"

definition table_mongo :: "(nat \<Rightarrow> bool, unit, string \<times> nat, table, string, string \<times> nat) mongo_driver" where
  "table_mongo = \<lparr>dr_empty = (\<lambda>_. True),
     dr_find = (\<lambda>q t. table_slice (fq_skip q) (fq_limit q) (table_rows (fq_filter q) t)),
     dr_countDocuments = (\<lambda>f t. Inr (length (table_rows f t))),
     dr_findById = (\<lambda>i t. Inr (map_option (Pair i) (jm_get t i))),
     dr_findOne = (\<lambda>f t. Inr (find (\<lambda>r. f (snd r)) t)),
     dr_exists = (\<lambda>f t. Inr (case table_rows f t of [] \<Rightarrow> None | r # _ \<Rightarrow> Some r)),
     dr_aggregate = (\<lambda>_ t. Inr t),
     dr_save = (\<lambda>d t. (Inr d, t @ [d])),
     dr_insertMany = (\<lambda>ds t. (Inr ds, t @ ds)),
     dr_findByIdAndUpdate = (\<lambda>i d t. map_prod Inr id (table_update i d t)),
     dr_updateMany = (\<lambda>f d t. (Inr (length (table_rows f t)), map (\<lambda>(i, n). (i, if f n then snd d else n)) t)),
     dr_findByIdAndDelete = (\<lambda>i t. map_prod Inr id (table_delete i t)),
     dr_deleteMany = (\<lambda>f t. (Inr (length (table_rows f t)), filter (\<lambda>r. \<not> f (snd r)) t))\<rparr>"

definition missing_error :: "'v option \<times> table \<Rightarrow> (string + 'v) \<times> table" where
  "missing_error x = (case x of (Some v, t) \<Rightarrow> (Inr v, t) | (None, t) \<Rightarrow> (Inl ''P2025'', t))"

fun run_creates :: "(table \<Rightarrow> (string + 'v) \<times> table) list \<Rightarrow> table \<Rightarrow> (string + 'v list) \<times> table" where
  "run_creates [] t = (Inr [], t)"
| "run_creates (c # cs) t = (case c t of (Inl e, _) \<Rightarrow> (Inl e, t)
     | (Inr v, t1) \<Rightarrow> (case run_creates cs t1 of (Inl e, _) \<Rightarrow> (Inl e, t) | (Inr vs, t2) \<Rightarrow> (Inr (v # vs), t2)))"

definition table_prisma :: "(nat \<Rightarrow> bool, string \<times> nat, table, string, string \<times> nat) prisma_driver" where
  "table_prisma = \<lparr>pm_findUnique = (\<lambda>i t. Inr (map_option (Pair i) (jm_get t i))),
     pm_findFirst = (\<lambda>f t. Inr (find (\<lambda>r. f (snd r)) t)),
     pm_findMany = (\<lambda>q t. table_slice (or_else (pq_skip q) (Whole 0)) (or_else (pq_take q) (Whole (int (length t))))
        (table_rows (or_else (pq_where q) (\<lambda>_. True)) t)),
     pm_count = (\<lambda>f t. Inr (length (table_rows (or_else f (\<lambda>_. True)) t))),
     pm_create = (\<lambda>d t. (Inr d, t @ [d])),
     pm_createMany = (\<lambda>ds t. (Inr (length ds), t @ ds)),
     pm_update = (\<lambda>i d t. missing_error (table_update i d t)),
     pm_updateMany = (\<lambda>f d t. (Inr (length (table_rows f t)), map (\<lambda>(i, n). (i, if f n then snd d else n)) t)),
     pm_delete = (\<lambda>i t. missing_error (table_delete i t)),
     pm_deleteMany = (\<lambda>f t. (Inr (length (table_rows f t)), filter (\<lambda>r. \<not> f (snd r)) t)),
     pm_upsert = (\<lambda>f c u t. case find (\<lambda>r. f (snd r)) t of None \<Rightarrow> (Inr c, t @ [c]) | Some (i, _) \<Rightarrow> (Inr (i, snd u), jm_set t i (snd u))),
     pm_transaction = run_creates,
     pm_code = Some, pm_notAFunction = (\<lambda>m. m @ '' is not a function'')\<rparr>"

lemma table_drivers_agree: "drivers_agree table_mongo table_prisma (=)"
  unfolding drivers_agree_def
  by (auto simp: table_mongo_def table_prisma_def same_write_def same_or_missing_def missing_error_def table_update_def
      table_delete_def split: option.split list.split)

lemma table_answers_slices: "answers_slices table_mongo (\<lambda>f so. table_rows f t) t"
  by (simp add: answers_slices_def table_mongo_def)

definition table_calls :: "(nat \<Rightarrow> bool, unit, string \<times> nat) repo_call list" where
  "table_calls = [Write (Create (''a'', 1)) 0, Write (Update ''b'' (''b'', 5)) 1, Read (Exists (\<lambda>n. n = 1)) 2 2, Write (Delete ''a'') 3]"


theorem crud_pages_are_the_collection_witness:
  "\<exists>page. crud_findAll table_mongo (\<lambda>_. True) (list_options 2 (Some (Whole 0)) None) [(''a'', 1), (''b'', 2)] = Inr page
    \<and> length (cu_data page) \<le> 100"
  using crud_pages_are_the_collection[OF table_answers_slices, of "Some (Whole 0)" 2 "\<lambda>_. True" "[(''a'', 1), (''b'', 2)]" None]
  by (fastforce simp: table_rows_def)

end
