(* ===== verification/Db_Units.thy ===== *)
theory Db_Units
  imports Boot_Prelude
begin

text \<open>
  Three small parts of \<open>database/\<close>: composable filters (\<open>specification.ts\<close>), the unit of work around a transaction
  (\<open>unit-of-work.ts\<close>), whose session driver is a parameter, and the registry of schemas (\<open>prisma/schema-registry.ts\<close>).
\<close>

section \<open>Specifications\<close>

text \<open>The filters that the code builds over the filters of the leaves.\<close>

datatype 'c mongo_filter = Leaf 'c | AndF "'c mongo_filter list" | OrF "'c mongo_filter list" | NorF "'c mongo_filter list"

datatype 'c filter_spec = BaseSpec 'c | AndSpecification "'c filter_spec" "'c filter_spec"
  | OrSpecification "'c filter_spec" "'c filter_spec" | NotSpecification "'c filter_spec"

primrec toFilter :: "'c filter_spec \<Rightarrow> 'c mongo_filter" where
  "toFilter (BaseSpec c) = Leaf c"
| "toFilter (AndSpecification l r) = AndF [toFilter l, toFilter r]"
| "toFilter (OrSpecification l r) = OrF [toFilter l, toFilter r]"
| "toFilter (NotSpecification s) = NorF [toFilter s]"

text \<open>What MongoDB documents of \<open>$and\<close>, \<open>$or\<close> and \<open>$nor\<close>; what a specification means.\<close>

fun selects :: "('c \<Rightarrow> 'v \<Rightarrow> bool) \<Rightarrow> 'c mongo_filter \<Rightarrow> 'v \<Rightarrow> bool" where
  "selects leaf (Leaf c) d \<longleftrightarrow> leaf c d"
| "selects leaf (AndF fs) d \<longleftrightarrow> list_all (\<lambda>f. selects leaf f d) fs"
| "selects leaf (OrF fs) d \<longleftrightarrow> list_ex (\<lambda>f. selects leaf f d) fs"
| "selects leaf (NorF fs) d \<longleftrightarrow> \<not> list_ex (\<lambda>f. selects leaf f d) fs"

primrec satisfied :: "('c \<Rightarrow> 'v \<Rightarrow> bool) \<Rightarrow> 'c filter_spec \<Rightarrow> 'v \<Rightarrow> bool" where
  "satisfied leaf (BaseSpec c) d \<longleftrightarrow> leaf c d"
| "satisfied leaf (AndSpecification l r) d \<longleftrightarrow> satisfied leaf l d \<and> satisfied leaf r d"
| "satisfied leaf (OrSpecification l r) d \<longleftrightarrow> satisfied leaf l d \<or> satisfied leaf r d"
| "satisfied leaf (NotSpecification s) d \<longleftrightarrow> \<not> satisfied leaf s d"

lemma specification_selects: "selects leaf (toFilter s) d \<longleftrightarrow> satisfied leaf s d"
  by (induction s) simp_all

section \<open>The unit of work\<close>

record ('s, 'e) session_driver =
  ss_startSession :: "'s \<Rightarrow> ('e + unit) \<times> 's"
  ss_startTransaction :: "'s \<Rightarrow> ('e + unit) \<times> 's"
  ss_commitTransaction :: "'s \<Rightarrow> ('e + unit) \<times> 's"
  ss_abortTransaction :: "'s \<Rightarrow> ('e + unit) \<times> 's"
  ss_endSession :: "'s \<Rightarrow> 's"

text \<open>The body, the commit and the \<open>catch\<close>: the error of an abort that throws replaces the first one.\<close>

definition uow_catch :: "('s, 'e) session_driver \<Rightarrow> 'e \<Rightarrow> 's \<Rightarrow> ('e + 'a) \<times> 's" where
  "uow_catch dr error s = (case ss_abortTransaction dr s of
     (Inl e, s) \<Rightarrow> (Inl e, s) | (Inr _, s) \<Rightarrow> (Inl error, s))"

definition uow_try :: "('s, 'e) session_driver \<Rightarrow> ('s \<Rightarrow> ('e + 'a) \<times> 's) \<Rightarrow> 's \<Rightarrow> ('e + 'a) \<times> 's" where
  "uow_try dr fn s = (case fn s of
     (Inl error, s) \<Rightarrow> uow_catch dr error s
   | (Inr result, s) \<Rightarrow> (case ss_commitTransaction dr s of
       (Inl error, s) \<Rightarrow> uow_catch dr error s
     | (Inr _, s) \<Rightarrow> (Inr result, s)))"

definition execute :: "('s, 'e) session_driver \<Rightarrow> ('s \<Rightarrow> ('e + 'a) \<times> 's) \<Rightarrow> 's \<Rightarrow> ('e + 'a) \<times> 's" where
  "execute dr fn s = (case ss_startSession dr s of
     (Inl e, s) \<Rightarrow> (Inl e, s)
   | (Inr _, s) \<Rightarrow> (case ss_startTransaction dr s of
       (Inl e, s) \<Rightarrow> (Inl e, s)
     | (Inr _, s) \<Rightarrow> map_prod id (ss_endSession dr) (uow_try dr fn s)))"

text \<open>
  What a driver promises of the committed data: only a commit changes it, to what the transaction has written; a
  commit that throws may or may not have been applied. \<open>fn\<close> writes inside the transaction only. \<open>held\<close> counts the open sessions.
\<close>

definition session_ok :: "('s, 'e) session_driver \<Rightarrow> ('s \<Rightarrow> 'db) \<Rightarrow> ('s \<Rightarrow> 'db) \<Rightarrow> ('s \<Rightarrow> nat) \<Rightarrow> bool" where
  "session_ok dr committed working held \<longleftrightarrow> (\<forall>s.
     committed (snd (ss_startSession dr s)) = committed s
   \<and> held (snd (ss_startSession dr s)) = held s + (case fst (ss_startSession dr s) of Inl _ \<Rightarrow> 0 | Inr _ \<Rightarrow> 1)
   \<and> committed (snd (ss_startTransaction dr s)) = committed s
   \<and> held (snd (ss_startTransaction dr s)) = held s
   \<and> (case ss_commitTransaction dr s of (Inr _, s1) \<Rightarrow> committed s1 = working s
      | (Inl _, s1) \<Rightarrow> committed s1 = committed s \<or> committed s1 = working s)
   \<and> held (snd (ss_commitTransaction dr s)) = held s
   \<and> committed (snd (ss_abortTransaction dr s)) = committed s
   \<and> held (snd (ss_abortTransaction dr s)) = held s
   \<and> committed (ss_endSession dr s) = committed s
   \<and> held (ss_endSession dr s) = held s - 1)"

definition body_ok :: "('s \<Rightarrow> 'db) \<Rightarrow> ('s \<Rightarrow> nat) \<Rightarrow> ('s \<Rightarrow> ('e + 'a) \<times> 's) \<Rightarrow> bool" where
  "body_ok committed held fn \<longleftrightarrow> (\<forall>s. committed (snd (fn s)) = committed s \<and> held (snd (fn s)) = held s)"

text \<open>All or nothing: a unit of work that answers has committed exactly what its body wrote, and one whose body throws
  leaves the committed data alone, whatever happens to the abort. The session is ended in each case, unless the
  transaction could not be started.\<close>

theorem unit_of_work_is_atomic:
  fixes fn :: "'s \<Rightarrow> ('e + 'a) \<times> 's"
  assumes "session_ok dr committed working held" and "body_ok committed held fn"
    and "ss_startSession dr s0 = (Inr (), s1)" and "ss_startTransaction dr s1 = (Inr (), s2)"
    and "execute dr fn s0 = (result, s')"
  shows "held s' = held s0
    \<and> (\<forall>a. result = Inr a \<longrightarrow> (\<exists>s3. fn s2 = (Inr a, s3) \<and> committed s' = working s3))
    \<and> (\<forall>error s3. fn s2 = (Inl error, s3) \<longrightarrow> (\<exists>e. result = Inl e) \<and> committed s' = committed s0)
    \<and> (\<forall>a s3. fn s2 = (Inr a, s3) \<longrightarrow> committed s' = working s3 \<or> (committed s' = committed s0 \<and> (\<exists>e. result = Inl e)))"
proof -
  note dr = assms(1)[unfolded session_ok_def, rule_format]
  note fn = assms(2)[unfolded body_ok_def, rule_format]
  have s2: "committed s2 = committed s0" "held s2 = held s0 + 1" using dr[of s0] dr[of s1] assms(3,4) by simp_all
  obtain r s4 where t: "uow_try dr fn s2 = (r, s4)" by fastforce
  then have s': "result = r" "s' = ss_endSession dr s4" using assms(3-5) by (simp_all add: execute_def)
  have caught: "\<exists>e s5. uow_catch dr error s = (Inl e :: 'e + 'a, s5) \<and> committed s5 = committed s \<and> held s5 = held s" for error s
    using dr[of s] by (auto simp: uow_catch_def split: prod.splits sum.splits)
  obtain x s3 where f: "fn s2 = (x, s3)" by fastforce
  have s3: "committed s3 = committed s0" "held s3 = held s0 + 1" using fn[of s2] f s2 by simp_all
  have ended: "held s' = held s0" if "held s4 = held s0 + 1" using dr[of s4] that s'(2) by simp
  have same: "committed s' = committed s4" using dr[of s4] s'(2) by simp
  show ?thesis
  proof (cases x)
    case (Inl error)
    obtain e s5 where "uow_catch dr error s3 = (Inl e :: 'e + 'a, s5)" "committed s5 = committed s3" "held s5 = held s3" using caught by blast
    moreover from this have "r = Inl e" "s4 = s5" using t f Inl by (simp_all add: uow_try_def)
    ultimately show ?thesis using f Inl s3 s' ended same by simp
  next
    case (Inr a)
    obtain c s5 where c: "ss_commitTransaction dr s3 = (c, s5)" by fastforce
    have s5: "held s5 = held s0 + 1" using dr[of s3] c s3 by simp
    show ?thesis
    proof (cases c)
      case (Inl error)
      then have com: "committed s5 = committed s3 \<or> committed s5 = working s3" using dr[of s3] c by simp
      obtain e s6 where "uow_catch dr error s5 = (Inl e :: 'e + 'a, s6)" "committed s6 = committed s5" "held s6 = held s5" using caught by blast
      moreover from this have "r = Inl e" "s4 = s6" using t f c Inl \<open>x = Inr a\<close> by (simp_all add: uow_try_def)
      ultimately show ?thesis using f \<open>x = Inr a\<close> s5 s3 s' ended same com by auto
    next
      case (Inr u)
      then have "committed s5 = working s3" using dr[of s3] c by simp
      moreover have "r = Inr a" "s4 = s5" using t f c Inr \<open>x = Inr a\<close> by (simp_all add: uow_try_def)
      ultimately show ?thesis using f \<open>x = Inr a\<close> s5 s' ended same by simp
    qed
  qed
qed

text \<open>If the transaction cannot be started, the session is not ended.\<close>

lemma failed_start_keeps_session:
  assumes "session_ok dr committed working held" and "ss_startSession dr s0 = (Inr (), s1)" and "ss_startTransaction dr s1 = (Inl e, s2)"
  shows "held (snd (execute dr fn s0)) = held s0 + 1"
proof -
  have "held s1 = held s0 + 1" "held s2 = held s1"
    using assms(1)[unfolded session_ok_def, rule_format, of s0] assms(1)[unfolded session_ok_def, rule_format, of s1] assms(2,3)
    by simp_all
  then show ?thesis using assms(2,3) by (simp add: execute_def)
qed

text \<open>A driver over numbers: the committed one, the one in the transaction, and the open sessions.\<close>

definition number_sessions :: "(nat \<times> nat \<times> nat, string) session_driver" where
  "number_sessions = \<lparr>ss_startSession = (\<lambda>(c, w, h). (Inr (), c, w, h + 1)),
     ss_startTransaction = (\<lambda>(c, w, h). (Inr (), c, c, h)),
     ss_commitTransaction = (\<lambda>(c, w, h). if 100 < w then (Inl ''too large'', c, w, h) else (Inr (), w, w, h)),
     ss_abortTransaction = (\<lambda>(c, w, h). (Inr (), c, c, h)),
     ss_endSession = (\<lambda>(c, w, h). (c, w, h - 1))\<rparr>"

lemma number_sessions_ok: "session_ok number_sessions fst (fst \<circ> snd) (snd \<circ> snd)"
  by (auto simp: session_ok_def number_sessions_def)

theorem unit_of_work_is_atomic_witness:
  "snd (execute number_sessions (\<lambda>(c, w, h). (Inl ''no stock'' :: string + unit, c, w + 5, h)) (7, 7, 0)) = (7, 7, 0) \<and>
   fst (snd (execute number_sessions (\<lambda>(c, w, h). (Inl ''no stock'' :: string + unit, c, w + 5, h)) (7, 7, 0))) = 7"
proof
  let ?fn = "\<lambda>(c, w, h). (Inl ''no stock'' :: string + unit, c, w + 5, h)" and ?s = "(7, 7, 0) :: nat \<times> nat \<times> nat"
  show "snd (execute number_sessions ?fn ?s) = ?s"
    by (simp add: execute_def number_sessions_def uow_try_def uow_catch_def)
  show "fst (snd (execute number_sessions ?fn ?s)) = 7"
    using unit_of_work_is_atomic[OF number_sessions_ok, of ?fn ?s "(7, 7, 1)" "(7, 7, 1)" "fst (execute number_sessions ?fn ?s)"
        "snd (execute number_sessions ?fn ?s)"]
    by (simp add: number_sessions_def body_ok_def split: prod.split)
qed

section \<open>The registry of schemas\<close>

definition DATABASE_SCHEMAS :: "string list" where
  "DATABASE_SCHEMAS = [''masterdata'', ''metadata'', ''userdata'', ''analytics'', ''statistics'', ''public'']"

definition DEFAULT_SCHEMA_MAP :: "(string, string) jsmap" where
  "DEFAULT_SCHEMA_MAP =
    [(''roles'', ''masterdata''), (''permissions'', ''masterdata''), (''role_permissions'', ''masterdata''),
     (''role_hierarchy'', ''masterdata''), (''organizations'', ''masterdata''), (''departments'', ''masterdata''), (''teams'', ''masterdata''),
     (''permission_definitions'', ''metadata''), (''scope_definitions'', ''metadata''), (''policy_definitions'', ''metadata''),
     (''users'', ''userdata''), (''user_roles'', ''userdata''), (''user_permissions'', ''userdata''),
     (''user_org_memberships'', ''userdata''), (''refresh_tokens'', ''userdata''), (''sessions'', ''userdata''),
     (''audit_entries'', ''analytics''), (''security_events'', ''analytics''), (''login_attempts'', ''analytics''),
     (''access_stats'', ''statistics''), (''permission_usage'', ''statistics''), (''scope_hits'', ''statistics''),
     (''policy_evaluations'', ''statistics'')]"

record schema_registry =
  sg_map :: "(string, string) jsmap"
  sg_schemas :: "string list"

definition new_registry :: "(string, string) jsmap option \<Rightarrow> string list option \<Rightarrow> schema_registry" where
  "new_registry overrides schemas =
     \<lparr>sg_map = foldl (\<lambda>m (entity, schema). jm_set m entity schema) DEFAULT_SCHEMA_MAP (or_else overrides []),
      sg_schemas = js_set_of (or_else schemas DATABASE_SCHEMAS)\<rparr>"

definition getSchema :: "schema_registry \<Rightarrow> string \<Rightarrow> string" where
  "getSchema g entityName = or_else (jm_get (sg_map g) entityName) ''public''"

definition setSchema :: "string \<Rightarrow> string \<Rightarrow> schema_registry \<Rightarrow> schema_registry" where
  "setSchema entityName schema g = g\<lparr>sg_map := jm_set (sg_map g) entityName schema\<rparr>"

definition qualifiedName :: "schema_registry \<Rightarrow> string \<Rightarrow> string" where
  "qualifiedName g entityName =
     (let schema = getSchema g entityName in if schema = ''public'' then entityName else schema @ ''.'' @ entityName)"

definition getEntitiesInSchema :: "schema_registry \<Rightarrow> string \<Rightarrow> string list" where
  "getEntitiesInSchema g schema = map fst (filter (\<lambda>(_, s). s = schema) (sg_map g))"

definition generateCreateSchemasSql :: "schema_registry \<Rightarrow> string" where
  "generateCreateSchemasSql g = js_join [CHR 0x0A]
     (map (\<lambda>s. ''CREATE SCHEMA IF NOT EXISTS '' @ [CHR 0x22] @ s @ [CHR 0x22] @ '';'') (filter (\<lambda>s. s \<noteq> ''public'') (sg_schemas g)))"

text \<open>\<open>bySchema\<close>: the entities of each schema, in the order of the first entity of a schema.\<close>

definition bySchema :: "schema_registry \<Rightarrow> (string, string list) jsmap" where
  "bySchema g = foldl (\<lambda>m (entity, schema). jm_set m schema (or_else (jm_get m schema) [] @ [entity])) [] (sg_map g)"

lemma bySchema_step:
  "jm_get (foldl (\<lambda>m (entity, schema). jm_set m schema (or_else (jm_get m schema) [] @ [entity])) m kvs) schema =
     (case map fst (filter (\<lambda>(_, s). s = schema) kvs) of [] \<Rightarrow> jm_get m schema
      | e # es \<Rightarrow> Some (or_else (jm_get m schema) [] @ e # es))"
  by (induction kvs arbitrary: m) (auto simp: jm_get_set split: list.splits)

text \<open>Each entity is listed in exactly the schema it is sent to, once, and the lists by schema are those lists.\<close>

theorem registry_lists_each_entity_once:
  assumes "jm_wf (sg_map g)"
  shows "(\<forall>schema. distinct (getEntitiesInSchema g schema)
      \<and> jm_get (bySchema g) schema = (if getEntitiesInSchema g schema = [] then None else Some (getEntitiesInSchema g schema)))
    \<and> (\<forall>entity schema. entity \<in> set (getEntitiesInSchema g schema) \<longleftrightarrow> entity \<in> set (jm_keys (sg_map g)) \<and> getSchema g entity = schema)
    \<and> (\<forall>entity schema e2. entity \<in> set (getEntitiesInSchema (setSchema e2 schema g) schema)
          \<longleftrightarrow> entity = e2 \<or> entity \<in> set (getEntitiesInSchema g schema))"
proof -
  have mem: "entity \<in> set (getEntitiesInSchema g schema) \<longleftrightarrow> jm_get (sg_map g) entity = Some schema" if "jm_wf (sg_map g)" for g entity schema
    using jm_wf_get_iff[OF that] by (auto simp: getEntitiesInSchema_def image_iff)
  have 1: "distinct (getEntitiesInSchema g schema)" for schema
    using assms by (auto simp: getEntitiesInSchema_def jm_wf_def intro: distinct_map_filter)
  have 2: "jm_get (bySchema g) schema = (if getEntitiesInSchema g schema = [] then None else Some (getEntitiesInSchema g schema))" for schema
    by (simp add: bySchema_def bySchema_step getEntitiesInSchema_def split: list.split)
  have 3: "entity \<in> set (getEntitiesInSchema g schema) \<longleftrightarrow> entity \<in> set (jm_keys (sg_map g)) \<and> getSchema g entity = schema" for entity schema
  proof (cases "jm_get (sg_map g) entity")
    case None
    then show ?thesis by (simp add: mem[OF assms]) (simp add: map_of_eq_None_iff)
  next
    case (Some t)
    then have "entity \<in> set (jm_keys (sg_map g))" by (force dest: map_of_SomeD)
    then show ?thesis using Some by (simp add: mem[OF assms] getSchema_def)
  qed
  have 4: "entity \<in> set (getEntitiesInSchema (setSchema e2 schema g) schema) \<longleftrightarrow> entity = e2 \<or> entity \<in> set (getEntitiesInSchema g schema)"
    for entity schema e2
    using assms by (simp add: mem setSchema_def jm_get_set)
  show ?thesis using 1 2 3 4 by blast
qed

text \<open>A schema that only an override names is never created.\<close>

lemma override_schema_not_created:
  "sg_schemas (new_registry (Some [(''invoices'', ''billing'')]) None) = DATABASE_SCHEMAS
   \<and> qualifiedName (new_registry (Some [(''invoices'', ''billing'')]) None) ''invoices'' = ''billing.invoices''"
  by code_simp

end
