(* ===== verification/Http_Edge.thy ===== *)
theory Http_Edge
  imports Rpc_Errors
begin

text \<open>
  The edge of a service: error boundaries (\<open>common/error-boundary.ts\<close>), the two catch-all filters
  with their reporters (\<open>common/filters/all-exceptions.filter.ts\<close>, \<open>rpc/rpc-exception.filter.ts\<close>), the
  error reporter (\<open>common/error-reporter.ts\<close>) and the response envelope (\<open>common/interceptors/response.interceptor.ts\<close>).
  The errors and the objects built from them are those of \<open>Rpc_Errors\<close>.
\<close>

section \<open>Error boundaries\<close>

record 'a boundary_options =
  eb_code :: string
  eb_status :: "rat option"
  eb_fallback :: "'a option"
  eb_rethrow :: "bool option"
  eb_wrap :: "(thrown \<Rightarrow> bool) option"

text \<open>\<open>error instanceof BootException\<close>, and its code or details if truthy.\<close>

definition boot_code :: "thrown \<Rightarrow> string option" where
  "boot_code error = (case error of
     THttp x \<Rightarrow> if hx_name x = ''BootException'' \<and> is_string (hx_code x) \<and> string_of (hx_code x) \<noteq> [] then Some (string_of (hx_code x)) else None
   | _ \<Rightarrow> None)"

definition boot_details :: "thrown \<Rightarrow> json list option" where
  "boot_details error = (case error of THttp x \<Rightarrow> if hx_name x = ''BootException'' then hx_details x else None | _ \<Rightarrow> None)"

fun boundary_message :: "thrown \<Rightarrow> string" where
  "boundary_message (THttp x) = hx_message x"
| "boundary_message (TRpc _ message) = message"
| "boundary_message (TError message _) = message"
| "boundary_message (TValue (JStr s)) = s"
| "boundary_message (TValue _) = ''An unexpected error occurred''"

text \<open>The common part, with the details to keep. A boundary without a fallback that does not rethrow answers \<open>undefined\<close>.\<close>

definition boundary :: "rpc_env \<Rightarrow> (thrown \<Rightarrow> json list option) \<Rightarrow> 'a boundary_options \<Rightarrow> thrown + 'a \<Rightarrow> thrown + 'a option" where
  "boundary env details options outcome = (case outcome of
     Inr v \<Rightarrow> Inr (Some v)
   | Inl error \<Rightarrow>
       (if (case eb_wrap options of Some wrap \<Rightarrow> \<not> wrap error | None \<Rightarrow> False) then Inl error
        else if \<not> or_else (eb_rethrow options) (eb_fallback options = None) then Inr (eb_fallback options)
        else if boot_code error \<noteq> None then Inl error
        else Inl (THttp (new_BootException env (boundary_message error)
               (Some \<lparr>bo_code = Some (eb_code options), bo_status = Some (or_else (eb_status options) INTERNAL_SERVER_ERROR),
                  bo_details = details error\<rparr>)))))"

definition errorBoundary :: "rpc_env \<Rightarrow> 'a boundary_options \<Rightarrow> thrown + 'a \<Rightarrow> thrown + 'a option" where
  "errorBoundary env options outcome = boundary env boot_details options outcome"

text \<open>The synchronous one drops the details.\<close>

definition errorBoundarySync :: "rpc_env \<Rightarrow> 'a boundary_options \<Rightarrow> thrown + 'a \<Rightarrow> thrown + 'a option" where
  "errorBoundarySync env options outcome = boundary env (\<lambda>_. None) options outcome"

section \<open>Reporting\<close>

record error_context =
  ec_statusCode :: rat
  ec_path :: string
  ec_method :: string
  ec_correlationId :: "string option"
  ec_traceId :: "string option"
  ec_userId :: "string option"
  ec_service :: "string option"
  ec_contextType :: string
  ec_timestamp :: string

record partial_context =
  px_statusCode :: "rat option"
  px_path :: "string option"
  px_method :: "string option"
  px_correlationId :: "string option"
  px_traceId :: "string option"
  px_userId :: "string option"
  px_service :: "string option"
  px_contextType :: "string option"
  px_timestamp :: "string option"

text \<open>The callbacks may throw; \<open>onError\<close> acts on the monitoring \<open>'m\<close>.\<close>

record 'm reporter_options =
  ro_onError :: "thrown \<Rightarrow> error_context \<Rightarrow> 'm \<Rightarrow> ('m + 'm)"
  ro_filter :: "(thrown \<Rightarrow> thrown + bool) option"
  ro_enrichContext :: "(error_context \<Rightarrow> error_context option) option"

fun is_error :: "thrown \<Rightarrow> bool" where
  "is_error (TValue _) = False"
| "is_error _ = True"

definition swallow :: "'m + 'm \<Rightarrow> 'm" where
  "swallow x = (case x of Inl m \<Rightarrow> m | Inr m \<Rightarrow> m)"

definition full_context :: "string \<Rightarrow> string option \<Rightarrow> partial_context \<Rightarrow> error_context" where
  "full_context now activeTrace c =
     \<lparr>ec_statusCode = or_else (px_statusCode c) 500, ec_path = or_else (px_path c) [], ec_method = or_else (px_method c) [],
      ec_correlationId = px_correlationId c,
      ec_traceId = (if px_traceId c \<noteq> None then px_traceId c else non_empty activeTrace),
      ec_userId = px_userId c, ec_service = px_service c, ec_contextType = or_else (px_contextType c) ''http'',
      ec_timestamp = or_else (px_timestamp c) now\<rparr>"

definition report :: "'m reporter_options option \<Rightarrow> string \<Rightarrow> string option \<Rightarrow> thrown \<Rightarrow> partial_context \<Rightarrow> 'm \<Rightarrow> thrown + 'm" where
  "report options now activeTrace error context m = (case options of
     None \<Rightarrow> Inr m
   | Some ro \<Rightarrow>
       if \<not> is_error error then Inr m
       else (case (case ro_filter ro of None \<Rightarrow> Inr True | Some f \<Rightarrow> f error) of
           Inl e \<Rightarrow> Inl e
         | Inr False \<Rightarrow> Inr m
         | Inr True \<Rightarrow>
             (let ctx = full_context now activeTrace context;
                  ctx = (case ro_enrichContext ro of None \<Rightarrow> ctx | Some f \<Rightarrow> or_else (f ctx) ctx)
              in Inr (swallow (ro_onError ro error ctx m)))))"

definition extractUserId :: "(json \<Rightarrow> string) \<Rightarrow> json \<Rightarrow> string option" where
  "extractUserId to_str request = (case js_prop request ''user'' of
     Some (JObj u) \<Rightarrow> (case js_nullish (jm_get u ''id'') (js_nullish (jm_get u ''userId'') (js_nullish (jm_get u ''sub'') JNull)) of
         JNull \<Rightarrow> None | i \<Rightarrow> Some (to_str i))
   | _ \<Rightarrow> None)"

section \<open>The filters\<close>

text \<open>What a filter does: answer, throw the exception on, return the object, or emit an error; after its callback.\<close>

record http_error_body = error_object +
  hb_timestamp :: string
  hb_path :: string

datatype filter_result = Respond rat http_error_body | Rethrow thrown | Return error_object

type_synonym 'm callback = "thrown \<Rightarrow> rat \<times> string option \<times> string \<Rightarrow> 'm \<Rightarrow> 'm + 'm"

definition call_reporter :: "'m callback option \<Rightarrow> thrown \<Rightarrow> rat \<times> string option \<times> string \<Rightarrow> 'm \<Rightarrow> 'm" where
  "call_reporter reporter exception c m = (case reporter of
     Some f \<Rightarrow> if is_error exception then swallow (f exception c m) else m | None \<Rightarrow> m)"

definition filter_catch :: "'m callback option \<Rightarrow> string \<Rightarrow> string \<Rightarrow> string option \<times> string option \<Rightarrow> thrown \<Rightarrow> 'm
    \<Rightarrow> filter_result \<times> 'm" where
  "filter_catch reporter now contextType url_path exception m =
     (let errorObj = buildErrorObject exception in
      if contextType \<noteq> ''http'' then
        (let m = call_reporter reporter exception (eo_statusCode errorObj, Some [], contextType) m
         in (if contextType = ''rpc'' then Rethrow exception else Return errorObj, m))
      else
        (let path = or_else (fst url_path) (or_else (snd url_path) ''/'');
             m = call_reporter reporter exception (eo_statusCode errorObj, Some path, contextType) m
         in (Respond (eo_statusCode errorObj) \<lparr>eo_statusCode = eo_statusCode errorObj, eo_message = eo_message errorObj,
               eo_error = eo_error errorObj, eo_code = eo_code errorObj, eo_details = eo_details errorObj,
               hb_timestamp = now, hb_path = path\<rparr>, m)))"

definition rpc_catch :: "rpc_env \<Rightarrow> 'm callback option \<Rightarrow> string option \<Rightarrow> thrown \<Rightarrow> 'm \<Rightarrow> rpc_envelope \<times> 'm" where
  "rpc_catch env reporter serviceName exception m =
     (let envelope = buildEnvelope env serviceName exception
      in (envelope, call_reporter reporter exception (eo_statusCode envelope, serviceName, ''rpc'') m))"

section \<open>The response envelope\<close>

definition has_prop :: "json \<Rightarrow> string \<Rightarrow> bool" where
  "has_prop v k \<longleftrightarrow> js_prop v k \<noteq> None"

definition isPaginated :: "json \<Rightarrow> bool" where
  "isPaginated v \<longleftrightarrow> has_prop v ''data'' \<and> has_prop v ''total'' \<and> has_prop v ''page'' \<and> has_prop v ''limit''"

definition isAlreadyEnveloped :: "json \<Rightarrow> bool" where
  "isAlreadyEnveloped v \<longleftrightarrow> has_prop v ''statusCode''"

definition response_intercept :: "rat option \<Rightarrow> json \<Rightarrow> json" where
  "response_intercept statusCode v =
     (let base = [(''statusCode'', JNum (or_else statusCode 200)), (''message'', JStr ''Success'')]; prop = (\<lambda>k. (k, the (js_prop v k))) in
      if isAlreadyEnveloped v then v
      else if isPaginated v then JObj (base @ [prop ''data'', prop ''total'', prop ''page'', prop ''limit''])
      else JObj (base @ [(''data'', v)]))"

section \<open>Boundaries keep the first code\<close>

definition plain_boundary :: "'a boundary_options \<Rightarrow> bool" where
  "plain_boundary options \<longleftrightarrow> or_else (eb_rethrow options) (eb_fallback options = None)"

text \<open>The outcome of an inner boundary inside an outer one: an answer passes.\<close>

definition boundary_around :: "rpc_env \<Rightarrow> 'a boundary_options \<Rightarrow> thrown + 'a option \<Rightarrow> thrown + 'a option" where
  "boundary_around env options outcome = (case outcome of Inr v \<Rightarrow> Inr v | Inl e \<Rightarrow> errorBoundary env options (Inl e))"

lemma coded_error_passes: "plain_boundary options \<Longrightarrow> boot_code e \<noteq> None \<Longrightarrow> errorBoundary env options (Inl e) = Inl e"
  by (simp add: errorBoundary_def boundary_def plain_boundary_def)

lemma coded_error_passes_all:
  "list_all plain_boundary outers \<Longrightarrow> boot_code e \<noteq> None \<Longrightarrow> fold (boundary_around env) outers (Inl e) = Inl e"
  by (induction outers) (simp_all add: boundary_around_def coded_error_passes)

lemma boundary_code: "eb_code options \<noteq> [] \<Longrightarrow>
  boot_code (THttp (new_BootException env message (Some \<lparr>bo_code = Some (eb_code options), bo_status = s, bo_details = d\<rparr>))) = Some (eb_code options)"
  by (simp add: boot_code_def new_BootException_def Let_def)


definition env0 :: rpc_env where
  "env0 = \<lparr>er_init = (\<lambda>_. []), er_stringify = (\<lambda>_. []), er_parse = (\<lambda>_. None), er_string = (\<lambda>_. []), er_correlationId = None, er_now = []\<rparr>"


text \<open>The synchronous boundary loses the details of an exception without a code.\<close>

lemma sync_boundary_drops_details:
  assumes "hx_name x = ''BootException''" and "hx_code x = None" and "plain_boundary options" and "eb_wrap options = None"
  shows "\<exists>y. errorBoundarySync env options (Inl (THttp x)) = Inl (THttp y) \<and> hx_details y = None"
    and "\<exists>y. errorBoundary env options (Inl (THttp x)) = Inl (THttp y) \<and> hx_details y = hx_details x"
  using assms by (simp_all add: errorBoundarySync_def errorBoundary_def boundary_def plain_boundary_def boot_code_def boot_details_def
      new_BootException_def Let_def)

section \<open>Reporters never disturb the answer\<close>

text \<open>The answer of a filter does not depend on its reporter, which is called exactly for errors; a value thrown that is not an
  error is answered but not reported. The error reporter fails only through its filter.\<close>

theorem reporters_do_not_disturb:
  "fst (filter_catch reporter now ctx path exception m) = fst (filter_catch None now ctx path exception m)
   \<and> fst (rpc_catch env reporter service exception m) = fst (rpc_catch env None service exception m)
   \<and> (\<not> is_error exception \<longrightarrow> snd (filter_catch reporter now ctx path exception m) = m \<and> snd (rpc_catch env reporter service exception m) = m)
   \<and> (report options now active exception context m = Inl e \<longrightarrow> (\<exists>ro f. options = Some ro \<and> ro_filter ro = Some f \<and> f exception = Inl e))"
  by (auto simp: filter_catch_def rpc_catch_def call_reporter_def report_def Let_def
      split: option.splits sum.splits bool.splits if_splits)

theorem reporters_do_not_disturb_witness:
  "fst (filter_catch (Some (\<lambda>_ _ n. Inl (n + 1))) ''now'' ''http'' (Some ''/a'', None) (TError ''boom'' []) (0::nat)) =
   fst (filter_catch None ''now'' ''http'' (Some ''/a'', None) (TError ''boom'' []) (0::nat))
   \<and> snd (filter_catch (Some (\<lambda>_ _ n. Inl (n + 1))) ''now'' ''http'' (Some ''/a'', None) (TValue JNull) (0::nat)) = 0"
  by (rule conjI, rule reporters_do_not_disturb[THEN conjunct1],
      rule reporters_do_not_disturb[THEN conjunct2, THEN conjunct2, THEN conjunct1, THEN mp, THEN conjunct1]) simp

section \<open>The envelope is put on once\<close>

lemma intercept_has_status: "isAlreadyEnveloped (response_intercept status v)"
  by (simp add: response_intercept_def isAlreadyEnveloped_def has_prop_def Let_def)

text \<open>Enveloping twice is enveloping once; the client finds the answer of the handler under \<open>data\<close>, or the page with its numbers,
  unless the answer itself has a \<open>statusCode\<close>.\<close>

theorem response_enveloped_once:
  "response_intercept s2 (response_intercept s1 v) = response_intercept s1 v
   \<and> (\<not> isAlreadyEnveloped v \<longrightarrow>
       js_prop (response_intercept s1 v) ''statusCode'' = Some (JNum (or_else s1 200))
     \<and> js_prop (response_intercept s1 v) ''data'' = (if isPaginated v then js_prop v ''data'' else Some v)
     \<and> (isPaginated v \<longrightarrow> (\<forall>k\<in>{''total'', ''page'', ''limit''}. js_prop (response_intercept s1 v) k = js_prop v k)))"
proof -
  have "response_intercept s2 w = w" if "isAlreadyEnveloped w" for w using that by (simp add: response_intercept_def Let_def)
  moreover have "isPaginated v \<Longrightarrow> js_prop v ''data'' \<noteq> None \<and> js_prop v ''total'' \<noteq> None \<and> js_prop v ''page'' \<noteq> None \<and> js_prop v ''limit'' \<noteq> None"
    by (simp add: isPaginated_def has_prop_def)
  ultimately show ?thesis using intercept_has_status[of s1 v]
    by (auto simp: response_intercept_def Let_def)
qed

theorem response_enveloped_once_witness:
  "js_prop (response_intercept None (JObj [(''data'', JArr []), (''total'', JNum 7), (''page'', JNum 2), (''limit'', JNum 5), (''totalPages'', JNum 2)])) ''total'' = Some (JNum 7)
   \<and> js_prop (response_intercept None (JObj [(''data'', JArr []), (''total'', JNum 7), (''page'', JNum 2), (''limit'', JNum 5), (''totalPages'', JNum 2)])) ''totalPages'' = None"
  using response_enveloped_once[of None None "JObj [(''data'', JArr []), (''total'', JNum 7), (''page'', JNum 2), (''limit'', JNum 5), (''totalPages'', JNum 2)]"]
  by (simp add: isPaginated_def isAlreadyEnveloped_def has_prop_def) (simp add: response_intercept_def isPaginated_def isAlreadyEnveloped_def has_prop_def)

end
