(* ===== verification/Shutdown.thy ===== *)
theory Shutdown
  imports Boot_Prelude
begin

text \<open>
  Graceful shutdown: \<open>shutdown/\<close> (the signal handler, the counter of requests in flight, the service that the framework calls
  at the end) and the probes of \<open>health/health.controller.ts\<close> that read its flag. The framework, the server and
  the clock are events; the process ends when the timer of the first signal fires.
\<close>

section \<open>Requests in flight\<close>

definition tracker_increment :: "nat \<Rightarrow> nat" where "tracker_increment n = n + 1"

definition tracker_decrement :: "nat \<Rightarrow> nat" where "tracker_decrement n = (if 0 < n then n - 1 else n)"

section \<open>The state\<close>

datatype drain_strategy = Drain | Immediate

datatype hook_result = HookDone | HookThrows

record shutdown_options =
  so_timeout :: "nat option"
  so_signals :: "string list option"
  so_beforeShutdown :: "hook_result option"
  so_drainStrategy :: "drain_strategy option"

datatype phase = PhaseHook hook_result | PhaseDraining nat | PhaseKeepAlive | PhaseClosed | PhaseCloseFailed

text \<open>The handler's flag, the service's flag, the deadline of the safety timer, the requests in flight, what the service has done at the end, and the
  exit code.\<close>

record shutdown_state =
  st_isShuttingDown :: bool
  st_shuttingDownFlag :: bool
  st_deadline :: "nat option"
  st_inFlight :: nat
  st_phases :: "phase list"
  st_exit :: "nat option"

definition DEFAULT_SHUTDOWN_TIMEOUT :: nat where "DEFAULT_SHUTDOWN_TIMEOUT = 30000"
definition DEFAULT_SHUTDOWN_SIGNALS :: "string list" where "DEFAULT_SHUTDOWN_SIGNALS = [''SIGTERM'', ''SIGINT'']"

definition shutdown_start :: shutdown_state where
  "shutdown_start = \<lparr>st_isShuttingDown = False, st_shuttingDownFlag = False, st_deadline = None, st_inFlight = 0, st_phases = [], st_exit = None\<rparr>"

section \<open>Signals\<close>

definition initiateShutdown :: "nat \<Rightarrow> nat \<Rightarrow> shutdown_state \<Rightarrow> shutdown_state" where
  "initiateShutdown timeout now s =
     (if st_isShuttingDown s then s
      else s\<lparr>st_isShuttingDown := True, st_deadline := Some (now + timeout), st_shuttingDownFlag := True\<rparr>)"

definition on_signal :: "shutdown_options \<Rightarrow> nat \<Rightarrow> string \<Rightarrow> shutdown_state \<Rightarrow> shutdown_state" where
  "on_signal options now signal s =
     (if signal \<in> set (or_else (so_signals options) DEFAULT_SHUTDOWN_SIGNALS)
      then initiateShutdown (or_else (so_timeout options) DEFAULT_SHUTDOWN_TIMEOUT) now s else s)"

text \<open>The timer.\<close>

definition timer_fires :: "nat \<Rightarrow> shutdown_state \<Rightarrow> shutdown_state" where
  "timer_fires now s = (case st_deadline s of
     Some d \<Rightarrow> if d \<le> now \<and> st_exit s = None then s\<lparr>st_exit := Some 1\<rparr> else s
   | None \<Rightarrow> s)"

section \<open>The end of the application\<close>

text \<open>The server: none, or one whose \<open>close\<close> answers with an error or not, and which may close its idle connections.\<close>

record http_server =
  sv_closeError :: bool
  sv_closeAllConnections :: bool

definition stop_server :: "drain_strategy \<Rightarrow> nat \<Rightarrow> http_server \<Rightarrow> phase list" where
  "stop_server strategy inFlight server =
     (if strategy = Drain \<and> 0 < inFlight then [PhaseDraining inFlight] else []) @
     (if sv_closeError server then [PhaseCloseFailed]
      else (if sv_closeAllConnections server then [PhaseKeepAlive] else []) @ [PhaseClosed])"

definition onApplicationShutdown :: "shutdown_options \<Rightarrow> http_server option \<Rightarrow> shutdown_state \<Rightarrow> shutdown_state" where
  "onApplicationShutdown options server s = s\<lparr>st_shuttingDownFlag := True,
     st_phases := st_phases s @
       (case so_beforeShutdown options of None \<Rightarrow> [] | Some h \<Rightarrow> [PhaseHook h]) @
       (case server of None \<Rightarrow> [] | Some sv \<Rightarrow> stop_server (or_else (so_drainStrategy options) Drain) (st_inFlight s) sv)\<rparr>"

section \<open>The probes\<close>

datatype probe = Ok | Unavailable string | Check "nat list"

definition getLiveness :: probe where "getLiveness = Ok"

definition getReadiness :: "shutdown_state option \<Rightarrow> probe" where
  "getReadiness service = (case service of
     Some s \<Rightarrow> if st_shuttingDownFlag s then Unavailable ''Shutting down'' else Ok | None \<Rightarrow> Ok)"

text \<open>The indicators that are configured, by number: database, Redis, queue.\<close>

definition health_check :: "shutdown_state option \<Rightarrow> bool \<Rightarrow> bool \<Rightarrow> bool \<Rightarrow> probe" where
  "health_check service db redis queue =
     (if (case service of Some s \<Rightarrow> st_shuttingDownFlag s | None \<Rightarrow> False)
      then Unavailable (''Service is shutting down '' @ [CHR 0xE2, CHR 0x80, CHR 0x94] @ '' readiness probe intentionally failing'')
      else Check ((if db then [0] else []) @ (if redis then [1] else []) @ (if queue then [2] else [])))"

section \<open>Runs\<close>

datatype shutdown_event = RequestStarts | RequestEnds | Signal string | ApplicationEnds "http_server option" | Clock

text \<open>An event at a time. Nothing happens after the process has ended.\<close>

fun shutdown_step :: "shutdown_options \<Rightarrow> nat \<times> shutdown_event \<Rightarrow> shutdown_state \<Rightarrow> shutdown_state" where
  "shutdown_step options (now, e) s =
     (if st_exit s \<noteq> None then s else case e of
        RequestStarts \<Rightarrow> s\<lparr>st_inFlight := tracker_increment (st_inFlight s)\<rparr>
      | RequestEnds \<Rightarrow> s\<lparr>st_inFlight := tracker_decrement (st_inFlight s)\<rparr>
      | Signal signal \<Rightarrow> on_signal options now signal s
      | ApplicationEnds server \<Rightarrow> onApplicationShutdown options server s
      | Clock \<Rightarrow> timer_fires now s)"

abbreviation shutdown_run :: "shutdown_options \<Rightarrow> (nat \<times> shutdown_event) list \<Rightarrow> shutdown_state \<Rightarrow> shutdown_state" where
  "shutdown_run options es s \<equiv> fold (shutdown_step options) es s"

fun open_requests :: "(nat \<times> shutdown_event) list \<Rightarrow> int" where
  "open_requests [] = 0"
| "open_requests ((_, RequestStarts) # es) = open_requests es + 1"
| "open_requests ((_, RequestEnds) # es) = open_requests es - 1"
| "open_requests (_ # es) = open_requests es"

text \<open>No more requests have ended than started, at any point.\<close>

definition balanced :: "(nat \<times> shutdown_event) list \<Rightarrow> bool" where
  "balanced es \<longleftrightarrow> (\<forall>k. 0 \<le> open_requests (take k es))"

definition heard :: "shutdown_options \<Rightarrow> nat \<times> shutdown_event \<Rightarrow> bool" where
  "heard options x \<longleftrightarrow> (case snd x of Signal g \<Rightarrow> g \<in> set (or_else (so_signals options) DEFAULT_SHUTDOWN_SIGNALS) | _ \<Rightarrow> False)"

lemmas shutdown_defs = on_signal_def initiateShutdown_def timer_fires_def onApplicationShutdown_def tracker_increment_def tracker_decrement_def

lemma open_requests_append: "open_requests (xs @ ys) = open_requests xs + open_requests ys"
  by (induction xs rule: open_requests.induct) simp_all

lemma open_requests_snoc:
  "open_requests (es @ [(t, e)]) = open_requests es + (case e of RequestStarts \<Rightarrow> 1 | RequestEnds \<Rightarrow> - 1 | _ \<Rightarrow> 0)"
  by (cases e) (simp_all add: open_requests_append)

lemma balanced_snoc: "balanced (es @ [x]) \<Longrightarrow> balanced es \<and> 0 \<le> open_requests (es @ [x])"
  unfolding balanced_def by (metis append_take_drop_id butlast_snoc take_all_iff take_butlast le_cases nat_le_linear length_append_singleton less_Suc_eq_le take_append append_Nil2 diff_is_0_eq' take0)

text \<open>Until the process ends, the counter is the number of requests in flight.\<close>

lemma in_flight_counts:
  "balanced es \<Longrightarrow> st_exit (shutdown_run options es shutdown_start) = None \<Longrightarrow>
     int (st_inFlight (shutdown_run options es shutdown_start)) = open_requests es"
proof (induction es rule: rev_induct)
  case (snoc x es)
  obtain t e where x: "x = (t, e)" by fastforce
  let ?s = "shutdown_run options es shutdown_start"
  have run: "st_exit ?s = None" using snoc.prems(2) x by (auto split: if_splits)
  have "int (st_inFlight ?s) = open_requests es" using snoc.IH balanced_snoc[OF snoc.prems(1)] run by blast
  moreover have "0 \<le> open_requests (es @ [x])" using balanced_snoc[OF snoc.prems(1)] by simp
  ultimately show ?case using run x
    by (cases e) (auto simp: shutdown_defs open_requests_snoc split: option.split)
qed (simp add: shutdown_start_def)

lemma flag_stays: "st_shuttingDownFlag s \<Longrightarrow> st_shuttingDownFlag (shutdown_run options es s)"
proof (induction es arbitrary: s)
  case (Cons x es)
  obtain t e where x: "x = (t, e)" by fastforce
  have "st_shuttingDownFlag (shutdown_step options x s)" using Cons.prems x
    by (cases e) (auto simp: shutdown_defs split: option.split)
  then show ?case using Cons.IH by simp
qed simp

lemma deadline_stays: "st_isShuttingDown s \<Longrightarrow> st_deadline (shutdown_run options es s) = st_deadline s \<and> st_isShuttingDown (shutdown_run options es s)"
proof (induction es arbitrary: s)
  case (Cons x es)
  obtain t e where x: "x = (t, e)" by fastforce
  have "st_isShuttingDown (shutdown_step options x s)" "st_deadline (shutdown_step options x s) = st_deadline s" using Cons.prems x
    by (cases e; auto simp: shutdown_defs split: option.split)+
  then show ?case using Cons.IH[of "shutdown_step options x s"] by simp
qed simp

lemma quiet_before_signal:
  "list_all (\<lambda>x. \<not> heard options x) es \<Longrightarrow> \<not> st_isShuttingDown s \<Longrightarrow> st_deadline s = None \<Longrightarrow> st_exit s = None
    \<Longrightarrow> \<not> st_isShuttingDown (shutdown_run options es s) \<and> st_deadline (shutdown_run options es s) = None \<and> st_exit (shutdown_run options es s) = None"
proof (induction es arbitrary: s)
  case (Cons x es)
  obtain t e where x: "x = (t, e)" by fastforce
  have "\<not> st_isShuttingDown (shutdown_step options x s) \<and> st_deadline (shutdown_step options x s) = None \<and> st_exit (shutdown_step options x s) = None"
    using Cons.prems x by (cases e) (auto simp: shutdown_defs heard_def)
  then show ?case using Cons.IH[of "shutdown_step options x s"] Cons.prems(1) by simp
qed simp

lemma exit_stays: "st_exit s \<noteq> None \<Longrightarrow> shutdown_run options es s = s"
proof (induction es)
  case (Cons x es)
  then show ?case by (cases x) simp
qed simp

lemma no_exit_before:
  "st_deadline s = Some d \<Longrightarrow> st_isShuttingDown s \<Longrightarrow> st_exit s = None \<Longrightarrow> \<forall>(t, e)\<in>set es. t < d
    \<Longrightarrow> st_exit (shutdown_run options es s) = None"
proof (induction es arbitrary: s)
  case (Cons x es)
  obtain t e where x: "x = (t, e)" by fastforce
  have "st_exit (shutdown_step options x s) = None" using Cons.prems x by (cases e) (auto simp: shutdown_defs)
  moreover have "st_deadline (shutdown_step options x s) = Some d" "st_isShuttingDown (shutdown_step options x s)"
    using deadline_stays[of s options "[x]"] Cons.prems by simp_all
  ultimately show ?case using Cons by simp
qed simp

text \<open>The first registered signal decides: from then on the readiness probe and the health check refuse while the liveness probe
  answers, later signals do not move the deadline, the process runs until the deadline at least as far as this
  code is concerned, and the first tick from the deadline on ends it with code 1. Until the end the counter is the number of requests in flight.\<close>

theorem first_signal_decides:
  assumes "list_all (\<lambda>x. \<not> heard options x) before" and "heard options (t, e)"
    and "d = t + or_else (so_timeout options) DEFAULT_SHUTDOWN_TIMEOUT"
    and "s = shutdown_run options (before @ (t, e) # later) shutdown_start"
  shows "getReadiness (Some s) = Unavailable ''Shutting down'' \<and> (\<exists>m. health_check (Some s) db redis queue = Unavailable m)
    \<and> st_deadline s = Some d
    \<and> ((\<forall>(t, e)\<in>set later. t < d) \<longrightarrow> st_exit s = None)
    \<and> (st_exit s = None \<longrightarrow> d \<le> now \<longrightarrow> st_exit (shutdown_step options (now, Clock) s) = Some 1)
    \<and> (balanced (before @ (t, e) # later) \<longrightarrow> st_exit s = None \<longrightarrow> int (st_inFlight s) = open_requests (before @ (t, e) # later))"
proof -
  let ?b = "shutdown_run options before shutdown_start"
  define s1 where "s1 = shutdown_step options (t, e) ?b"
  have b: "\<not> st_isShuttingDown ?b" "st_deadline ?b = None" "st_exit ?b = None"
    using quiet_before_signal[OF assms(1), of shutdown_start] by (simp_all add: shutdown_start_def)
  obtain g where g: "e = Signal g" "g \<in> set (or_else (so_signals options) DEFAULT_SHUTDOWN_SIGNALS)"
    using assms(2) by (cases e) (auto simp: heard_def)
  have s1: "st_isShuttingDown s1" "st_shuttingDownFlag s1" "st_deadline s1 = Some d" "st_exit s1 = None"
    using b g assms(3) by (simp_all add: s1_def shutdown_defs)
  have s: "s = shutdown_run options later s1" by (simp add: assms(4) s1_def)
  have flag: "st_shuttingDownFlag s" and dl: "st_deadline s = Some d" "st_isShuttingDown s"
    unfolding s using flag_stays[OF s1(2)] deadline_stays[OF s1(1), of options later] s1(3) by simp_all
  have "st_exit s = None" if "\<forall>(t, e)\<in>set later. t < d" unfolding s by (rule no_exit_before[OF s1(3,1,4) that])
  then show ?thesis using flag dl in_flight_counts[of "before @ (t, e) # later" options] assms(4)
    by (auto simp: getReadiness_def health_check_def timer_fires_def)
qed

definition quick_options :: shutdown_options where
  "quick_options = \<lparr>so_timeout = Some 100, so_signals = None, so_beforeShutdown = None, so_drainStrategy = Some Immediate\<rparr>"

theorem first_signal_decides_witness:
  "st_deadline (shutdown_run quick_options [(0, RequestStarts), (5, Signal ''SIGTERM''), (50, Signal ''SIGTERM'')] shutdown_start) = Some 105"
proof -
  have "list_all (\<lambda>x. \<not> heard quick_options x) [(0, RequestStarts)]" "heard quick_options (5, Signal ''SIGTERM'')"
    "(105::nat) = 5 + or_else (so_timeout quick_options) DEFAULT_SHUTDOWN_TIMEOUT"
    by (simp_all add: heard_def quick_options_def DEFAULT_SHUTDOWN_SIGNALS_def)
  from first_signal_decides[OF this refl, where later = "[(50, Signal ''SIGTERM'')]"]
  show ?thesis by (simp only: append.simps)
qed

text \<open>The strategy changes what is logged and nothing else: the server is closed the same way.\<close>

lemma strategy_only_logged:
  "filter (\<lambda>p. \<nexists>n. p = PhaseDraining n) (stop_server Immediate n sv) = filter (\<lambda>p. \<nexists>n. p = PhaseDraining n) (stop_server Drain n sv)"
  by (simp add: stop_server_def)

end
