(* ===== verification/Storage.thy ===== *)
theory Storage
  imports Boot_Prelude
begin

text \<open>
  File storage (\<open>storage/\<close>): keys and validation (\<open>storage.utils.ts\<close>), the pipe (\<open>file-validation.pipe.ts\<close>), the adapter over
  the local file system (\<open>adapters/local.adapter.ts\<close>) with the guard against path traversal, and the service. The
  file system is a parameter; \<open>path.resolve\<close> and \<open>path.extname\<close> of the runtime are modelled for POSIX paths.
\<close>

section \<open>Paths\<close>

definition path_step :: "string list \<Rightarrow> string \<Rightarrow> string list" where
  "path_step acc seg = (if seg = [] \<or> seg = ''.'' then acc else if seg = ''..'' then butlast acc else acc @ [seg])"

definition normal_segments :: "string \<Rightarrow> string list" where
  "normal_segments s = foldl path_step [] (js_split CHR ''/'' s)"

text \<open>\<open>resolve(dir, key)\<close> under the absolute working directory \<open>cwd\<close>, as its segments and as text.\<close>

definition path_resolve :: "string \<Rightarrow> string list \<Rightarrow> string list" where
  "path_resolve cwd parts = normal_segments (foldl (\<lambda>acc p. if starts_with p ''/'' then p else if p = [] then acc else acc @ ''/'' @ p) cwd parts)"

definition path_text :: "string list \<Rightarrow> string" where
  "path_text segs = ''/'' @ js_join ''/'' segs"

text \<open>\<open>extname\<close>: from the last dot of the last segment, unless the segment starts there or is \<open>..\<close>.\<close>

definition trim_slashes :: "string \<Rightarrow> string" where
  "trim_slashes s = rev (dropWhile (\<lambda>c. c = CHR ''/'') (rev s))"

definition path_basename :: "string \<Rightarrow> string" where
  "path_basename s = rev (takeWhile (\<lambda>c. c \<noteq> CHR ''/'') (rev (trim_slashes s)))"

definition extname :: "string \<Rightarrow> string" where
  "extname s =
     (let b = path_basename s; after = takeWhile (\<lambda>c. c \<noteq> CHR ''.'') (rev b)
      in if b = ''..'' \<or> length b \<le> length after + 1 then [] else CHR ''.'' # rev after)"

section \<open>Keys and validation\<close>

definition generateStorageKey :: "string \<Rightarrow> string \<Rightarrow> string option \<Rightarrow> string" where
  "generateStorageKey uuid originalName folder =
     (let filename = uuid @ to_lower (extname originalName)
      in case folder of None \<Rightarrow> filename | Some f \<Rightarrow> if f = [] then filename else trim_slashes f @ ''/'' @ filename)"

definition matchesMimeType :: "string \<Rightarrow> string \<Rightarrow> bool" where
  "matchesMimeType mimetype pat =
     (if pat = ''*'' \<or> pat = ''*/*'' then True
      else if ends_with pat ''/*'' then starts_with mimetype (take (length pat - 2) pat @ ''/'')
      else mimetype = pat)"

definition validateFile :: "string \<Rightarrow> nat \<Rightarrow> string list option \<Rightarrow> nat option \<Rightarrow> string option" where
  "validateFile mimetype fsize allowedMimeTypes maxFileSize =
     (let maxSize = or_else maxFileSize (10 * 1024 * 1024); allowed = or_else allowedMimeTypes []
      in if maxSize < fsize then Some (''File size '' @ js_of_nat fsize @ '' bytes exceeds maximum allowed '' @ js_of_nat maxSize @ '' bytes'')
         else if allowed \<noteq> [] \<and> \<not> list_ex (matchesMimeType mimetype) allowed
           then Some (''MIME type '' @ [CHR 0x22] @ mimetype @ [CHR 0x22] @ '' is not allowed. Allowed: '' @ js_join '', '' allowed)
         else None)"

record 'b uploaded_file =
  uf_originalName :: string
  uf_buffer :: 'b
  uf_mimetype :: string
  uf_size :: nat
  uf_folder :: "string option"

record file_validation_options =
  fv_maxSize :: "nat option"
  fv_mimeTypes :: "string list option"
  fv_required :: "bool option"

definition pipe_transform :: "file_validation_options \<Rightarrow> 'b uploaded_file option \<Rightarrow> string + 'b uploaded_file option" where
  "pipe_transform opts file = (case file of
     None \<Rightarrow> if or_else (fv_required opts) True then Inl ''File is required'' else Inr None
   | Some f \<Rightarrow> (case validateFile (uf_mimetype f) (uf_size f) (fv_mimeTypes opts) (fv_maxSize opts) of
       Some e \<Rightarrow> Inl e | None \<Rightarrow> Inr (Some f)))"

section \<open>The local adapter\<close>

record storage_result =
  sr_key :: string
  sr_url :: string
  sr_size :: nat
  sr_mimetype :: string

text \<open>The file system: calls on path texts, which may fail with a message.\<close>

record ('b, 'w) file_system =
  fs_mkdir :: "string \<Rightarrow> 'w \<Rightarrow> (string + unit) \<times> 'w"
  fs_writeFile :: "string \<Rightarrow> 'b \<Rightarrow> 'w \<Rightarrow> (string + unit) \<times> 'w"
  fs_readFile :: "string \<Rightarrow> 'w \<Rightarrow> string + 'b"
  fs_unlink :: "string \<Rightarrow> 'w \<Rightarrow> (string + unit) \<times> 'w"
  fs_access :: "string \<Rightarrow> 'w \<Rightarrow> bool"

record local_adapter =
  la_cwd :: string
  la_uploadDir :: string
  la_basePath :: string
  la_signingSecret :: "string option"

definition safePath :: "local_adapter \<Rightarrow> string \<Rightarrow> string + string" where
  "safePath ad key =
     (let resolved = path_text (path_resolve (la_cwd ad) [la_uploadDir ad, key]); base = path_text (path_resolve (la_cwd ad) [la_uploadDir ad])
      in if \<not> starts_with resolved (base @ ''/'') \<and> resolved \<noteq> base then Inl ''Path traversal detected'' else Inr resolved)"

definition dirname :: "string list \<Rightarrow> string" where
  "dirname segs = path_text (butlast segs)"

definition local_upload :: "('b, 'w) file_system \<Rightarrow> local_adapter \<Rightarrow> string \<Rightarrow> 'b uploaded_file \<Rightarrow> 'w \<Rightarrow> (string + storage_result) \<times> 'w" where
  "local_upload fs ad uuid file w =
     (let key = generateStorageKey uuid (uf_originalName file) (uf_folder file) in case safePath ad key of
        Inl e \<Rightarrow> (Inl e, w)
      | Inr dest \<Rightarrow> (case fs_mkdir fs (dirname (path_resolve (la_cwd ad) [la_uploadDir ad, key])) w of
          (Inl e, w) \<Rightarrow> (Inl e, w)
        | (Inr _, w) \<Rightarrow> (case fs_writeFile fs dest (uf_buffer file) w of
            (Inl e, w) \<Rightarrow> (Inl e, w)
          | (Inr _, w) \<Rightarrow> (Inr \<lparr>sr_key = key, sr_url = la_basePath ad @ ''/'' @ key, sr_size = uf_size file, sr_mimetype = uf_mimetype file\<rparr>, w))))"

definition local_download :: "('b, 'w) file_system \<Rightarrow> local_adapter \<Rightarrow> string \<Rightarrow> 'w \<Rightarrow> string + 'b" where
  "local_download fs ad key w = (case safePath ad key of Inl e \<Rightarrow> Inl e | Inr p \<Rightarrow> fs_readFile fs p w)"

definition local_delete :: "('b, 'w) file_system \<Rightarrow> local_adapter \<Rightarrow> string \<Rightarrow> 'w \<Rightarrow> (string + unit) \<times> 'w" where
  "local_delete fs ad key w = (case safePath ad key of Inl e \<Rightarrow> (Inl e, w) | Inr p \<Rightarrow> fs_unlink fs p w)"

definition local_exists :: "('b, 'w) file_system \<Rightarrow> local_adapter \<Rightarrow> string \<Rightarrow> 'w \<Rightarrow> string + bool" where
  "local_exists fs ad key w = (case safePath ad key of Inl e \<Rightarrow> Inl e | Inr p \<Rightarrow> Inr (fs_access fs p w))"

definition local_getUrl :: "local_adapter \<Rightarrow> string \<Rightarrow> string" where
  "local_getUrl ad key = la_basePath ad @ ''/'' @ key"

definition signed_payload :: "string \<Rightarrow> nat \<Rightarrow> string" where
  "signed_payload key expires = key @ '':'' @ js_of_nat expires"

text \<open>\<open>hmac secret text\<close> is the hexadecimal HMAC; \<open>now\<close> is in seconds. An empty secret is no secret.\<close>

definition local_getSignedUrl :: "(string \<Rightarrow> string \<Rightarrow> string) \<Rightarrow> local_adapter \<Rightarrow> nat \<Rightarrow> string \<Rightarrow> nat \<Rightarrow> string option" where
  "local_getSignedUrl hmac ad now key expiresIn = (case la_signingSecret ad of
     None \<Rightarrow> None
   | Some secret \<Rightarrow> if secret = [] then None else
       Some (la_basePath ad @ ''/'' @ key @ ''?token='' @ hmac secret (signed_payload key (now + expiresIn))
         @ ''&expires='' @ js_of_nat (now + expiresIn)))"

section \<open>The service\<close>

record storage_options =
  so_maxFileSize :: "nat option"
  so_allowedMimeTypes :: "string list option"

definition storage_upload :: "('b, 'w) file_system \<Rightarrow> local_adapter \<Rightarrow> storage_options \<Rightarrow> string \<Rightarrow> 'b uploaded_file \<Rightarrow> 'w
    \<Rightarrow> (string + storage_result) \<times> 'w" where
  "storage_upload fs ad opts uuid file w =
     (case validateFile (uf_mimetype file) (uf_size file) (so_allowedMimeTypes opts) (so_maxFileSize opts) of
        Some e \<Rightarrow> (Inl e, w) | None \<Rightarrow> local_upload fs ad uuid file w)"

section \<open>Nothing outside the directory\<close>

lemma js_split_concat: "js_split c (s @ c # t) = js_split c s @ js_split c t"
  by (induction s) (auto split: list.splits)

definition clean :: "string list \<Rightarrow> bool" where
  "clean segs \<longleftrightarrow> (\<forall>s\<in>set segs. s \<noteq> [] \<and> s \<noteq> ''.'' \<and> s \<noteq> ''..'' \<and> CHR ''/'' \<notin> set s)"

lemma clean_step: "clean acc \<Longrightarrow> CHR ''/'' \<notin> set seg \<Longrightarrow> clean (path_step acc seg)"
  by (auto simp: clean_def path_step_def dest: in_set_butlastD)

lemma clean_fold: "clean acc \<Longrightarrow> (\<And>s. s \<in> set segs \<Longrightarrow> CHR ''/'' \<notin> set s) \<Longrightarrow> clean (foldl path_step acc segs)"
  by (induction segs arbitrary: acc) (simp_all add: clean_step)

lemma clean_normal: "clean (normal_segments s)"
  unfolding normal_segments_def by (rule clean_fold) (auto simp: clean_def dest: js_split_parts_free)

lemma clean_resolve [simp]: "clean (path_resolve cwd parts)"
  by (simp add: path_resolve_def clean_normal)

lemma split_path_text: "clean segs \<Longrightarrow> segs \<noteq> [] \<Longrightarrow> js_split CHR ''/'' (path_text segs) = [] # segs"
  by (auto simp: path_text_def clean_def intro: js_split_join)

lemma js_join_append: "xs \<noteq> [] \<Longrightarrow> ys \<noteq> [] \<Longrightarrow> js_join sep (xs @ ys) = js_join sep xs @ sep @ js_join sep ys"
  by (induction sep xs rule: js_join.induct) (simp_all add: js_join_Cons)

lemma path_text_append: "ys \<noteq> [] \<Longrightarrow> xs \<noteq> [] \<Longrightarrow> path_text (xs @ ys) = path_text xs @ ''/'' @ js_join ''/'' ys"
  by (simp add: path_text_def js_join_append)

lemma js_join_clean: "clean zs \<Longrightarrow> js_join ''/'' zs = [] \<longleftrightarrow> zs = []"
  by (cases zs; cases "tl zs") (auto simp: clean_def js_join_Cons)

lemma path_text_inj: "clean xs \<Longrightarrow> clean ys \<Longrightarrow> path_text xs = path_text ys \<Longrightarrow> xs = ys"
proof (cases "xs = [] \<or> ys = []")
  case True
  assume "clean xs" "clean ys" "path_text xs = path_text ys"
  then show ?thesis using True js_join_clean[of xs] js_join_clean[of ys] by (auto simp: path_text_def)
next
  case False
  assume c: "clean xs" "clean ys" and e: "path_text xs = path_text ys"
  have "[] # xs = [] # ys" using split_path_text[OF c(1)] split_path_text[OF c(2)] e False by metis
  then show ?thesis by simp
qed

lemma prefix_path_text:
  assumes "clean xs" and "clean ys" and "xs \<noteq> []"
  shows "starts_with (path_text ys) (path_text xs @ ''/'') \<longleftrightarrow> (\<exists>zs. zs \<noteq> [] \<and> ys = xs @ zs)"
proof
  assume "starts_with (path_text ys) (path_text xs @ ''/'')"
  then obtain t where t: "path_text ys = path_text xs @ CHR ''/'' # t" by (auto simp: prefix_def)
  have ne: "ys \<noteq> []"
  proof
    assume "ys = []"
    then show False using t by (simp add: path_text_def)
  qed
  have "[] # ys = ([] # xs) @ js_split CHR ''/'' t"
    using arg_cong[OF t, of "js_split CHR ''/''"] split_path_text[OF assms(1,3)] split_path_text[OF assms(2) ne]
    by (simp only: js_split_concat)
  then show "\<exists>zs. zs \<noteq> [] \<and> ys = xs @ zs" by auto
next
  assume "\<exists>zs. zs \<noteq> [] \<and> ys = xs @ zs"
  then show "starts_with (path_text ys) (path_text xs @ ''/'')" by (auto simp: path_text_append assms(3))
qed

abbreviation base_dir :: "local_adapter \<Rightarrow> string list" where
  "base_dir ad \<equiv> path_resolve (la_cwd ad) [la_uploadDir ad]"

abbreviation key_path :: "local_adapter \<Rightarrow> string \<Rightarrow> string list" where
  "key_path ad key \<equiv> path_resolve (la_cwd ad) [la_uploadDir ad, key]"

lemma safePath_iff:
  assumes "base_dir ad \<noteq> []"
  shows "safePath ad key = (if \<exists>rest. key_path ad key = base_dir ad @ rest then Inr (path_text (key_path ad key)) else Inl ''Path traversal detected'')"
proof -
  have "(starts_with (path_text (key_path ad key)) (path_text (base_dir ad) @ ''/'') \<or> path_text (key_path ad key) = path_text (base_dir ad))
    \<longleftrightarrow> (\<exists>rest. key_path ad key = base_dir ad @ rest)"
    using prefix_path_text[OF clean_resolve clean_resolve assms, of "la_cwd ad" "[la_uploadDir ad, key]"]
      path_text_inj[OF clean_resolve clean_resolve, of "la_cwd ad" "[la_uploadDir ad, key]" "la_cwd ad" "[la_uploadDir ad]"]
    by (metis append_Nil2)
  then show ?thesis unfolding safePath_def Let_def by (auto simp: )
qed

text \<open>What the file system promises; the content of a path is \<open>view w p\<close>.\<close>

definition file_system_ok :: "('b, 'w) file_system \<Rightarrow> ('w \<Rightarrow> string \<Rightarrow> 'b option) \<Rightarrow> bool" where
  "file_system_ok fs view \<longleftrightarrow> (\<forall>w p b.
     view (snd (fs_mkdir fs p w)) = view w
   \<and> (\<forall>q. q \<noteq> p \<longrightarrow> view (snd (fs_writeFile fs p b w)) q = view w q)
   \<and> (fst (fs_writeFile fs p b w) = Inr () \<longrightarrow> view (snd (fs_writeFile fs p b w)) p = Some b)
   \<and> (\<forall>b. view w p = Some b \<longrightarrow> fs_readFile fs p w = Inr b \<and> fs_access fs p w)
   \<and> (\<forall>q. q \<noteq> p \<longrightarrow> view (snd (fs_unlink fs p w)) q = view w q)
   \<and> (fst (fs_unlink fs p w) = Inr () \<longrightarrow> view (snd (fs_unlink fs p w)) p = None))"

definition outside :: "local_adapter \<Rightarrow> string \<Rightarrow> bool" where
  "outside ad p \<longleftrightarrow> \<not> (\<exists>rest. p = path_text (base_dir ad @ rest))"


section \<open>Uploads are kept\<close>

text \<open>An identifier of \<open>randomUUID\<close>: it has no dot and no slash.\<close>

definition uuid_ok :: "string \<Rightarrow> bool" where
  "uuid_ok u \<longleftrightarrow> u \<noteq> [] \<and> CHR ''.'' \<notin> set u \<and> CHR ''/'' \<notin> set u"

lemma to_lower_slash: "CHR ''/'' \<in> set (to_lower s) \<Longrightarrow> CHR ''/'' \<in> set s"
proof -
  assume "CHR ''/'' \<in> set (to_lower s)"
  then obtain c where c: "c \<in> set s" "to_lower [c] = ''/''" by (auto simp: to_lower_def)
  have "c = CHR ''/''"
  proof (rule ccontr)
    assume "c \<noteq> CHR ''/''"
    then have r: "65 \<le> (of_char c :: nat)" "char_of ((of_char c :: nat) + 32) = CHR ''/''" "(of_char c :: nat) \<le> 222"
      using c(2) by (auto simp: to_lower_def Let_def split: if_splits)
    have "((of_char c :: nat) + 32) mod 256 = of_char (CHR ''/'')" using of_char_of[of "(of_char c :: nat) + 32"] r(2) by simp
    then show False using r(1,3) by simp
  qed
  then show ?thesis using c(1) by simp
qed

lemma extname_slash: "CHR ''/'' \<notin> set (extname s)"
proof -
  have "CHR ''/'' \<notin> set (path_basename s)" by (auto simp: path_basename_def dest: set_takeWhileD)
  then show ?thesis by (auto simp: extname_def Let_def dest: set_takeWhileD)
qed

lemma extname_cases: "extname s = [] \<or> (\<exists>t. extname s = CHR ''.'' # t)"
  by (simp add: extname_def Let_def)

lemma to_lower_dot: "to_lower (CHR ''.'' # t) = CHR ''.'' # to_lower t"
  by (simp add: to_lower_def)

lemma filename_uuid:
  assumes "uuid_ok u"
  shows "takeWhile (\<lambda>c. c \<noteq> CHR ''.'') (u @ to_lower (extname s)) = u" and "CHR ''/'' \<notin> set (u @ to_lower (extname s))"
proof -
  have "\<And>c. c \<in> set u \<Longrightarrow> c \<noteq> CHR ''.''" using assms by (auto simp: uuid_ok_def)
  then have "takeWhile (\<lambda>c. c \<noteq> CHR ''.'') (u @ to_lower (extname s)) = u @ takeWhile (\<lambda>c. c \<noteq> CHR ''.'') (to_lower (extname s))"
    by (rule takeWhile_append2)
  moreover have "takeWhile (\<lambda>c. c \<noteq> CHR ''.'') (to_lower (extname s)) = []"
    using extname_cases[of s] to_lower_dot by (auto simp: to_lower_def)
  ultimately show "takeWhile (\<lambda>c. c \<noteq> CHR ''.'') (u @ to_lower (extname s)) = u" by simp
  show "CHR ''/'' \<notin> set (u @ to_lower (extname s))"
    using assms to_lower_slash[of "extname s"] extname_slash[of s] by (auto simp: uuid_ok_def)
qed

lemma normal_segments_file:
  assumes "CHR ''/'' \<notin> set f" and "f \<noteq> []" and "f \<noteq> ''.''" and "f \<noteq> ''..''"
  shows "normal_segments (s @ ''/'' @ f) = normal_segments s @ [f]"
  using assms js_split_concat[of "CHR ''/''" s f] by (simp add: normal_segments_def js_split_free path_step_def)

lemma upload_path:
  assumes "uuid_ok u"
  shows "\<exists>pre. key_path ad (generateStorageKey u name folder) = pre @ [u @ to_lower (extname name)]"
proof -
  let ?f = "u @ to_lower (extname name)"
  have f: "CHR ''/'' \<notin> set ?f" "?f \<noteq> []" "?f \<noteq> ''.''" "?f \<noteq> ''..''"
    using filename_uuid[OF assms, of name] assms by (auto simp: uuid_ok_def)
  obtain t where "foldl (\<lambda>acc p. if starts_with p ''/'' then p else if p = [] then acc else acc @ ''/'' @ p) (la_cwd ad)
      [la_uploadDir ad, generateStorageKey u name folder] = t @ ''/'' @ ?f"
  proof -
    let ?a = "foldl (\<lambda>acc p. if starts_with p ''/'' then p else if p = [] then acc else acc @ ''/'' @ p) (la_cwd ad) [la_uploadDir ad]"
    let ?k = "generateStorageKey u name folder"
    have "?k = ?f \<or> (\<exists>d. ?k = d @ ''/'' @ ?f)"
      by (auto simp: generateStorageKey_def Let_def split: option.split)
    then consider "?k = ?f" | d where "?k = d @ ''/'' @ ?f" by blast
    then show ?thesis
    proof cases
      case 1
      moreover have "\<not> starts_with ?f ''/''" using f(1) set_mono_prefix[of "''/''" ?f] by auto
      ultimately show ?thesis using f(2) by (intro that[of ?a]) simp
    next
      case 2
      show ?thesis
      proof (cases "starts_with ?k ''/''")
        case True
        then show ?thesis using 2 by (intro that[of d]) simp
      next
        case False
        then show ?thesis using 2 by (intro that[of "?a @ ''/'' @ d"]) simp
      qed
    qed
  qed
  then have "key_path ad (generateStorageKey u name folder) = normal_segments t @ [?f]"
    using normal_segments_file[OF f] by (simp add: path_resolve_def)
  then show ?thesis by blast
qed

lemma uploads_differ:
  assumes "uuid_ok u1" and "uuid_ok u2" and "u1 \<noteq> u2"
  shows "path_text (key_path ad (generateStorageKey u1 n1 f1)) \<noteq> path_text (key_path ad (generateStorageKey u2 n2 f2))"
proof
  assume "path_text (key_path ad (generateStorageKey u1 n1 f1)) = path_text (key_path ad (generateStorageKey u2 n2 f2))"
  then have "key_path ad (generateStorageKey u1 n1 f1) = key_path ad (generateStorageKey u2 n2 f2)"
    by (rule path_text_inj[OF clean_resolve clean_resolve])
  then have "u1 @ to_lower (extname n1) = u2 @ to_lower (extname n2)"
    using upload_path[OF assms(1), of ad n1 f1] upload_path[OF assms(2), of ad n2 f2] by auto
  then show False using filename_uuid(1)[OF assms(1), of n1] filename_uuid(1)[OF assms(2), of n2] assms(3) by simp
qed

lemma safePath_text: "safePath ad key = Inr p \<Longrightarrow> p = path_text (key_path ad key)"
  by (auto simp: safePath_def Let_def split: if_splits)

lemma upload_view:
  assumes "file_system_ok fs view" and "storage_upload fs ad opts u file w = (r, w1)" and "\<forall>p. safePath ad (generateStorageKey u (uf_originalName file) (uf_folder file)) = Inr p \<longrightarrow> q \<noteq> p"
  shows "view w1 q = view w q"
proof (cases "safePath ad (generateStorageKey u (uf_originalName file) (uf_folder file))")
  case (Inr p)
  note fs = assms(1)[unfolded file_system_ok_def, rule_format]
  obtain a wa where m: "fs_mkdir fs (dirname (key_path ad (generateStorageKey u (uf_originalName file) (uf_folder file)))) w = (a, wa)" by fastforce
  obtain b wb where wr: "fs_writeFile fs p (uf_buffer file) wa = (b, wb)" by fastforce
  have "view wa = view w" using fs[where w = w] m by (metis snd_conv)
  moreover have "view wb q = view wa q" using fs[where w = wa and p = p] wr assms(3) Inr by (metis snd_conv)
  ultimately show ?thesis using Inr m wr assms(2)
    by (auto simp: storage_upload_def local_upload_def Let_def split: option.splits sum.splits)
qed (use assms(2) in \<open>auto simp: storage_upload_def local_upload_def Let_def split: option.splits\<close>)

text \<open>A stored file is read back under the key of the answer, has passed the validation, and stays so whatever is uploaded under another
  identifier, with any name and folder.\<close>

theorem uploads_are_kept:
  assumes "file_system_ok fs view" and "uuid_ok u1" and "uuid_ok u2" and "u1 \<noteq> u2"
    and "storage_upload fs ad opts u1 file w = (Inr r, w1)" and "storage_upload fs ad opts2 u2 file2 w1 = (r2, w2)"
  shows "local_download fs ad (sr_key r) w1 = Inr (uf_buffer file) \<and> local_exists fs ad (sr_key r) w1 = Inr True
    \<and> local_download fs ad (sr_key r) w2 = Inr (uf_buffer file)
    \<and> validateFile (uf_mimetype file) (uf_size file) (so_allowedMimeTypes opts) (so_maxFileSize opts) = None"
proof -
  note fs = assms(1)[unfolded file_system_ok_def, rule_format]
  let ?k = "generateStorageKey u1 (uf_originalName file) (uf_folder file)"
  obtain dest wa u where up: "safePath ad ?k = Inr dest" "fs_writeFile fs dest (uf_buffer file) wa = (Inr u, w1)" "sr_key r = ?k"
    and val: "validateFile (uf_mimetype file) (uf_size file) (so_allowedMimeTypes opts) (so_maxFileSize opts) = None"
    using assms(5) by (auto simp: storage_upload_def local_upload_def Let_def split: option.splits sum.splits prod.splits)
  have v1: "view w1 dest = Some (uf_buffer file)" using fs[where w = wa and p = dest] up(2) by (metis fst_conv snd_conv old.unit.exhaust)
  have "view w2 dest = view w1 dest"
    by (rule upload_view[OF assms(1,6)])
      (use safePath_text[OF up(1)] uploads_differ[OF assms(2-4)] in \<open>blast dest: safePath_text\<close>)
  then have v2: "view w2 dest = Some (uf_buffer file)" using v1 by simp
  show ?thesis using up(1,3) val v1 v2 fs[where p = dest] by (simp add: local_download_def local_exists_def)
qed

section \<open>Signed links\<close>

lemma js_of_nat_digit: "c \<in> set (js_of_nat n) \<Longrightarrow> c \<noteq> CHR '':''"
proof (induction n rule: js_of_nat.induct)
  case (1 n)
  have "char_of (48 + k) \<noteq> CHR '':''" if "k < 10" for k :: nat
  proof
    assume "char_of (48 + k) = CHR '':''"
    then have "(of_char (char_of (48 + k) :: char) :: nat) = 58" by simp
    then show False using that by simp
  qed
  then have "char_of (48 + n mod 10) \<noteq> CHR '':''" "n < 10 \<Longrightarrow> char_of (48 + n) \<noteq> CHR '':''" by simp_all
  then show ?case using 1 by (auto simp: js_of_nat.simps[of n] split: if_splits)
qed

definition decimal :: "string \<Rightarrow> nat" where
  "decimal ds = foldl (\<lambda>n c. n * 10 + (of_char c - 48)) 0 ds"

lemma decimal_js_of_nat: "decimal (js_of_nat n) = n"
proof (induction n rule: js_of_nat.induct)
  case (1 n)
  have "(of_char (char_of (48 + k) :: char) :: nat) = 48 + k" if "k < 10" for k using that by simp
  then show ?case using 1 by (simp add: js_of_nat.simps[of n] decimal_def)
qed

text \<open>The signed text determines the key and the time, even when the key has colons.\<close>

lemma signed_payload_inj:
  assumes "signed_payload k1 e1 = signed_payload k2 e2"
  shows "k1 = k2 \<and> e1 = e2"
proof -
  have tw: "takeWhile (\<lambda>c. c \<noteq> CHR '':'') (rev (signed_payload k e)) = rev (js_of_nat e)" for k e
    by (auto simp: signed_payload_def takeWhile_append dest: js_of_nat_digit)
  have "js_of_nat e1 = js_of_nat e2" using tw[of k1 e1] tw[of k2 e2] assms by simp
  then have "e1 = e2" using decimal_js_of_nat by metis
  then show ?thesis using assms by (simp add: signed_payload_def)
qed

section \<open>A file system in memory\<close>

definition memory_files :: "('b, (string, 'b) jsmap) file_system" where
  "memory_files = \<lparr>fs_mkdir = (\<lambda>p w. (Inr (), w)), fs_writeFile = (\<lambda>p b w. (Inr (), jm_set w p b)),
     fs_readFile = (\<lambda>p w. case jm_get w p of None \<Rightarrow> Inl ''ENOENT'' | Some b \<Rightarrow> Inr b),
     fs_unlink = (\<lambda>p w. if jm_has w p then (Inr (), jm_del w p) else (Inl ''ENOENT'', w)), fs_access = (\<lambda>p w. jm_has w p)\<rparr>"

lemma memory_files_ok: "file_system_ok memory_files (\<lambda>w. jm_get w)"
  by (auto simp: file_system_ok_def memory_files_def jm_get_set jm_get_del)

definition uploads_adapter :: local_adapter where
  "uploads_adapter = \<lparr>la_cwd = ''/app'', la_uploadDir = ''./files'', la_basePath = ''/uploads'', la_signingSecret = None\<rparr>"

definition text_file :: "string \<Rightarrow> string uploaded_file" where
  "text_file dir = \<lparr>uf_originalName = ''a.TXT'', uf_buffer = ''hello'', uf_mimetype = ''text/plain'', uf_size = 5, uf_folder = Some dir\<rparr>"

lemma uploads_base: "base_dir uploads_adapter = [''app'', ''files'']"
  by (simp add: uploads_adapter_def path_resolve_def normal_segments_def path_step_def)

lemma text_file_key: "generateStorageKey ''u1'' (uf_originalName (text_file ''docs/'')) (uf_folder (text_file ''docs/'')) = ''docs/u1.txt''"
  by code_simp

lemma text_file_safe: "safePath uploads_adapter ''docs/u1.txt'' = Inr ''/app/files/docs/u1.txt''"
proof -
  have "key_path uploads_adapter ''docs/u1.txt'' = [''app'', ''files'', ''docs'', ''u1.txt'']"
    by (simp add: uploads_adapter_def path_resolve_def normal_segments_def path_step_def)
  then show ?thesis by (simp add: safePath_iff uploads_base path_text_def)
qed

lemma text_file_valid: "validateFile (uf_mimetype (text_file dir)) (uf_size (text_file dir)) (Some [''text/*'']) (Some 8) = None"
  by (simp add: text_file_def validateFile_def matchesMimeType_def Let_def prefix_def suffix_def)


theorem uploads_are_kept_witness:
  "local_download memory_files uploads_adapter ''docs/u1.txt''
     (snd (storage_upload memory_files uploads_adapter \<lparr>so_maxFileSize = Some 8, so_allowedMimeTypes = Some [''text/*'']\<rparr> ''u2'' (text_file ''docs/'')
       (snd (storage_upload memory_files uploads_adapter \<lparr>so_maxFileSize = Some 8, so_allowedMimeTypes = Some [''text/*'']\<rparr> ''u1'' (text_file ''docs/'') []))))
   = Inr ''hello''"
proof -
  let ?o = "\<lparr>so_maxFileSize = Some 8, so_allowedMimeTypes = Some [''text/*'']\<rparr>"
  obtain r1 w1 where 1: "storage_upload memory_files uploads_adapter ?o ''u1'' (text_file ''docs/'') [] = (Inr r1, w1)" and k: "sr_key r1 = ''docs/u1.txt''"
  proof (rule that[of "\<lparr>sr_key = ''docs/u1.txt'', sr_url = ''/uploads/docs/u1.txt'', sr_size = 5, sr_mimetype = ''text/plain''\<rparr>" "[(''/app/files/docs/u1.txt'', ''hello'')]"])
    show "storage_upload memory_files uploads_adapter ?o ''u1'' (text_file ''docs/'') [] =
      (Inr \<lparr>sr_key = ''docs/u1.txt'', sr_url = ''/uploads/docs/u1.txt'', sr_size = 5, sr_mimetype = ''text/plain''\<rparr>, [(''/app/files/docs/u1.txt'', ''hello'')])"
      by (simp add: storage_upload_def local_upload_def text_file_valid text_file_safe text_file_key memory_files_def)
        (simp add: text_file_def uploads_adapter_def Let_def)
  qed simp
  obtain r2 w2 where 2: "storage_upload memory_files uploads_adapter ?o ''u2'' (text_file ''docs/'') w1 = (r2, w2)" by fastforce
  have u: "uuid_ok ''u1''" "uuid_ok ''u2''" "''u1'' \<noteq> ''u2''" by (simp_all add: uuid_ok_def)
  show ?thesis using uploads_are_kept[OF memory_files_ok u 1 2] 1 2 k by (simp add: text_file_def)
qed

end
