(* ===== verification/Content_Assets.thy ===== *)
theory Content_Assets
  imports Content_Types
begin

text \<open>
  Assets and components of the content module: \<open>content/repositories/content-asset.repository.ts\<close>,
  \<open>content-component.repository.ts\<close> and the services over them. A table is the list of its rows in the order they were created,
  with the identifiers and the clock as arguments; the object storage is a parameter, absent when no provider is registered.
\<close>

section \<open>Assets\<close>

record asset =
  as_id :: string
  as_filename :: string
  as_mimeType :: string
  as_size :: nat
  as_storageKey :: string
  as_folder :: "string option"
  as_tags :: "string list"
  as_altText :: "(string \<times> string) list option"
  as_tenantId :: "string option"

type_synonym asset_table = "asset list"

record asset_data =
  ad_filename :: string
  ad_mimeType :: string
  ad_size :: nat
  ad_folder :: "string option"
  ad_tags :: "string list option"
  ad_altText :: "(string \<times> string) list option"
  ad_tenantId :: "string option"

record asset_partial =
  ap_filename :: "string option"
  ap_folder :: "string option"
  ap_tags :: "string list option"
  ap_altText :: "(string \<times> string) list option"

section \<open>The asset repository\<close>

definition car_create :: "string \<Rightarrow> string \<Rightarrow> asset_data \<Rightarrow> asset_table \<Rightarrow> asset \<times> asset_table" where
  "car_create newId storageKey data t =
     (let row = \<lparr>as_id = newId, as_filename = ad_filename data, as_mimeType = ad_mimeType data, as_size = ad_size data,
        as_storageKey = storageKey, as_folder = ad_folder data, as_tags = or_else (ad_tags data) [], as_altText = ad_altText data,
        as_tenantId = ad_tenantId data\<rparr> in (row, t @ [row]))"

definition car_findById :: "string \<Rightarrow> string option \<Rightarrow> asset_table \<Rightarrow> asset option" where
  "car_findById i tenantId t = find (\<lambda>a. as_id a = i \<and> tenant_where tenantId (as_tenantId a)) t"

text \<open>An empty text is no filter. Newest first.\<close>

definition text_where :: "string option \<Rightarrow> (string \<Rightarrow> bool) \<Rightarrow> bool" where
  "text_where wanted P \<longleftrightarrow> (case wanted of None \<Rightarrow> True | Some x \<Rightarrow> x = [] \<or> P x)"

record asset_filters =
  af_tenantId :: "string option"
  af_folder :: "string option"
  af_mimeType :: "string option"
  af_tags :: "string list option"

definition asset_where :: "asset_filters \<Rightarrow> asset \<Rightarrow> bool" where
  "asset_where f a \<longleftrightarrow> tenant_where (af_tenantId f) (as_tenantId a)
     \<and> text_where (af_folder f) (\<lambda>x. as_folder a = Some x) \<and> text_where (af_mimeType f) (\<lambda>x. starts_with (as_mimeType a) x)
     \<and> (case af_tags f of None \<Rightarrow> True | Some ts \<Rightarrow> ts = [] \<or> (\<exists>x\<in>set ts. x \<in> set (as_tags a)))"

definition car_findAll :: "asset_filters \<Rightarrow> nat option \<Rightarrow> nat option \<Rightarrow> asset_table \<Rightarrow> asset list \<times> nat" where
  "car_findAll f pageOpt pageSizeOpt t =
     (let page = or_else pageOpt 1; pageSize = or_else pageSizeOpt 25; rows = filter (asset_where f) (rev t)
      in (take pageSize (drop ((page - 1) * pageSize) rows), length rows))"

definition apply_partial :: "asset_partial \<Rightarrow> asset \<Rightarrow> asset" where
  "apply_partial d a = a\<lparr>as_filename := or_else (ap_filename d) (as_filename a),
     as_folder := (if ap_folder d \<noteq> None then ap_folder d else as_folder a), as_tags := or_else (ap_tags d) (as_tags a),
     as_altText := (if ap_altText d \<noteq> None then ap_altText d else as_altText a)\<rparr>"

definition car_update :: "string \<Rightarrow> asset_partial \<Rightarrow> asset_table \<Rightarrow> asset_table" where
  "car_update i d t = map (\<lambda>a. if as_id a = i then apply_partial d a else a) t"

definition car_delete :: "string \<Rightarrow> asset_table \<Rightarrow> asset_table" where
  "car_delete i t = filter (\<lambda>a. as_id a \<noteq> i) t"

definition car_distinctTags :: "string option \<Rightarrow> asset_table \<Rightarrow> string set" where
  "car_distinctTags tenantId t = (\<Union>a\<in>set (filter (\<lambda>a. case tenantId of None \<Rightarrow> True | Some x \<Rightarrow> as_tenantId a = Some x) t). set (as_tags a))"

text \<open>Folders and tags are given as sets; the code sorts them.\<close>

definition car_distinctFolders :: "string option \<Rightarrow> asset_table \<Rightarrow> string set" where
  "car_distinctFolders tenantId t = set (filter (\<lambda>f. f \<noteq> []) (List.map_filter as_folder (filter (\<lambda>a. tenant_where tenantId (as_tenantId a)) t)))"

section \<open>The asset service\<close>

record ('b, 'w) storage_like =
  sl_upload :: "string \<Rightarrow> 'b \<Rightarrow> string \<Rightarrow> 'w \<Rightarrow> (string + unit) \<times> 'w"
  sl_delete :: "string \<Rightarrow> 'w \<Rightarrow> (string + unit) \<times> 'w"
  sl_getSignedUrl :: "(string \<Rightarrow> nat \<Rightarrow> 'w \<Rightarrow> string + string) option"

definition asset_key :: "nat \<Rightarrow> asset_data \<Rightarrow> string" where
  "asset_key now d = ''content/'' @ or_else (ad_tenantId d) ''default'' @ ''/'' @ or_else (ad_folder d) ''uploads'' @ ''/''
     @ js_of_nat now @ ''-'' @ ad_filename d"

definition asset_upload :: "('b, 'w) storage_like option \<Rightarrow> nat \<Rightarrow> string \<Rightarrow> asset_data \<Rightarrow> 'b \<Rightarrow> 'w \<times> asset_table
    \<Rightarrow> (content_error + asset) \<times> 'w \<times> asset_table" where
  "asset_upload sl now newId d buffer st = (case st of (w, t) \<Rightarrow>
     (case (case sl of None \<Rightarrow> (Inr (), w) | Some s \<Rightarrow> sl_upload s (asset_key now d) buffer (ad_mimeType d) w) of
        (Inl e, w) \<Rightarrow> (Inl (Thrown e), w, t)
      | (Inr _, w) \<Rightarrow> (case car_create newId (asset_key now d) d t of (a, t) \<Rightarrow> (Inr a, w, t))))"

definition asset_findById :: "string \<Rightarrow> string option \<Rightarrow> asset_table \<Rightarrow> content_error + asset" where
  "asset_findById i tenantId t = (case car_findById i tenantId t of
     None \<Rightarrow> Inl (NotFound (''Asset '' @ quoted i @ '' not found'')) | Some a \<Rightarrow> Inr a)"

definition asset_update :: "string \<Rightarrow> asset_partial \<Rightarrow> string option \<Rightarrow> asset_table \<Rightarrow> (content_error + asset) \<times> asset_table" where
  "asset_update i d tenantId t = (case asset_findById i tenantId t of
     Inl e \<Rightarrow> (Inl e, t) | Inr a \<Rightarrow> (Inr (apply_partial d a), car_update i d t))"

definition asset_delete :: "('b, 'w) storage_like option \<Rightarrow> string \<Rightarrow> string option \<Rightarrow> 'w \<times> asset_table
    \<Rightarrow> (content_error + unit) \<times> 'w \<times> asset_table" where
  "asset_delete sl i tenantId st = (case st of (w, t) \<Rightarrow> (case asset_findById i tenantId t of
     Inl e \<Rightarrow> (Inl e, w, t)
   | Inr a \<Rightarrow> (case (case sl of None \<Rightarrow> (Inr (), w) | Some s \<Rightarrow> sl_delete s (as_storageKey a) w) of
       (Inl e, w) \<Rightarrow> (Inl (Thrown e), w, t)
     | (Inr _, w) \<Rightarrow> (Inr (), w, car_delete i t))))"

definition asset_getSignedUrl :: "('b, 'w) storage_like option \<Rightarrow> string \<Rightarrow> string option \<Rightarrow> nat option \<Rightarrow> 'w \<times> asset_table
    \<Rightarrow> content_error + string option" where
  "asset_getSignedUrl sl i tenantId expires st = (case asset_findById i tenantId (snd st) of
     Inl e \<Rightarrow> Inl e
   | Inr a \<Rightarrow> (case Option.bind sl sl_getSignedUrl of
       None \<Rightarrow> Inr None
     | Some sign \<Rightarrow> (case sign (as_storageKey a) (or_else expires 3600) (fst st) of Inl e \<Rightarrow> Inl (Thrown e) | Inr url \<Rightarrow> Inr (Some url))))"

section \<open>Components\<close>

definition COMPONENT_FIELD_TYPES :: "string list" where
  "COMPONENT_FIELD_TYPES = [''text'', ''textarea'', ''richtext'', ''number'', ''boolean'', ''date'', ''datetime'',
     ''media'', ''reference'', ''json'', ''enum'', ''slug'', ''url'', ''email'', ''color'']"

fun component_fields_problem :: "field_def list \<Rightarrow> content_error option" where
  "component_fields_problem [] = None"
| "component_fields_problem (f # fs) =
     (if fd_name f = [] \<or> fd_type f = [] then Some (BadRequest ''Each field must have a name and type'')
      else if fd_type f = ''component'' then Some (BadRequest ''Components cannot contain nested components'')
      else if fd_type f \<notin> set COMPONENT_FIELD_TYPES then Some (BadRequest (''Invalid field type '' @ quoted (fd_type f)))
      else component_fields_problem fs)"

type_synonym component_table = "content_component list"

definition cmp_findById :: "string \<Rightarrow> string option \<Rightarrow> component_table \<Rightarrow> content_error + content_component" where
  "cmp_findById i tenantId t = (case find (\<lambda>c. cc_id c = i \<and> tenant_where tenantId (cc_tenantId c)) t of
     None \<Rightarrow> Inl (NotFound (''Component '' @ quoted i @ '' not found'')) | Some c \<Rightarrow> Inr c)"

definition cmp_findBySlug :: "string \<Rightarrow> string option \<Rightarrow> component_table \<Rightarrow> content_component option" where
  "cmp_findBySlug slug tenantId t = find (\<lambda>c. cc_slug c = slug \<and> tenant_where tenantId (cc_tenantId c)) t"

definition cmp_findAll :: "string option \<Rightarrow> component_table \<Rightarrow> content_component list" where
  "cmp_findAll tenantId t = filter (\<lambda>c. tenant_where tenantId (cc_tenantId c)) (rev t)"

text \<open>The table has a unique index over tenant and slug, where a row without a tenant is in no conflict.\<close>

definition apart :: "content_component \<Rightarrow> content_component \<Rightarrow> bool" where
  "apart c d \<longleftrightarrow> cc_tenantId c = None \<or> cc_id d = cc_id c \<or> cc_tenantId d \<noteq> cc_tenantId c \<or> cc_slug d \<noteq> cc_slug c"

definition slug_free :: "content_component \<Rightarrow> component_table \<Rightarrow> bool" where
  "slug_free c t \<longleftrightarrow> list_all (apart c) t"

definition cmp_create :: "content_component \<Rightarrow> component_table \<Rightarrow> (content_error + content_component) \<times> component_table" where
  "cmp_create c t =
     (if cmp_findBySlug (cc_slug c) (cc_tenantId c) t \<noteq> None
      then (Inl (Conflict (''Component slug '' @ quoted (cc_slug c) @ '' already exists'')), t)
      else case component_fields_problem (cc_fields c) of
        Some e \<Rightarrow> (Inl e, t)
      | None \<Rightarrow> if slug_free c t then (Inr c, t @ [c]) else (Inl (Thrown ''P2002''), t))"

record component_partial =
  cp_name :: "string option"
  cp_slug :: "string option"
  cp_fields :: "field_def list option"

definition component_changed :: "component_partial \<Rightarrow> content_component \<Rightarrow> content_component" where
  "component_changed d c = c\<lparr>cc_name := or_else (cp_name d) (cc_name c), cc_slug := or_else (cp_slug d) (cc_slug c),
     cc_fields := or_else (cp_fields d) (cc_fields c)\<rparr>"

definition cmp_update :: "string \<Rightarrow> component_partial \<Rightarrow> string option \<Rightarrow> component_table
    \<Rightarrow> (content_error + content_component) \<times> component_table" where
  "cmp_update i d tenantId t = (case cmp_findById i tenantId t of
     Inl e \<Rightarrow> (Inl e, t)
   | Inr c \<Rightarrow> (case (case cp_fields d of None \<Rightarrow> None | Some fs \<Rightarrow> component_fields_problem fs) of
       Some e \<Rightarrow> (Inl e, t)
     | None \<Rightarrow> (let c1 = component_changed d c in
         if slug_free c1 t then (Inr c1, map (\<lambda>x. if cc_id x = i then component_changed d x else x) t) else (Inl (Thrown ''P2002''), t))))"

definition cmp_delete :: "string \<Rightarrow> string option \<Rightarrow> component_table \<Rightarrow> (content_error + unit) \<times> component_table" where
  "cmp_delete i tenantId t = (case cmp_findById i tenantId t of
     Inl e \<Rightarrow> (Inl e, t) | Inr _ \<Rightarrow> (Inr (), filter (\<lambda>c. cc_id c \<noteq> i) t))"

section \<open>Every asset has its file\<close>

text \<open>A storage whose failed calls change nothing; \<open>view w k\<close> is the object under a key.\<close>

definition storage_like_ok :: "('b, 'w) storage_like \<Rightarrow> ('w \<Rightarrow> string \<Rightarrow> 'b option) \<Rightarrow> bool" where
  "storage_like_ok s view \<longleftrightarrow> (\<forall>k b m w.
     view (snd (sl_upload s k b m w)) = (case fst (sl_upload s k b m w) of Inl _ \<Rightarrow> view w | Inr _ \<Rightarrow> (view w)(k \<mapsto> b))
   \<and> view (snd (sl_delete s k w)) = (case fst (sl_delete s k w) of Inl _ \<Rightarrow> view w | Inr _ \<Rightarrow> (view w)(k := None)))"

datatype 'b asset_event = Upload nat string asset_data 'b | Change string asset_partial "string option" | Remove string "string option"

fun asset_step :: "('b, 'w) storage_like option \<Rightarrow> 'b asset_event \<Rightarrow> 'w \<times> asset_table \<Rightarrow> 'w \<times> asset_table" where
  "asset_step sl (Upload now i d b) st = snd (asset_upload sl now i d b st)"
| "asset_step sl (Change i d tenant) st = (fst st, snd (asset_update i d tenant (snd st)))"
| "asset_step sl (Remove i tenant) st = snd (asset_delete sl i tenant st)"

abbreviation asset_run :: "('b, 'w) storage_like option \<Rightarrow> 'b asset_event list \<Rightarrow> 'w \<times> asset_table \<Rightarrow> 'w \<times> asset_table" where
  "asset_run sl es st \<equiv> fold (asset_step sl) es st"

fun upload_key :: "'b asset_event \<Rightarrow> (string \<times> string) option" where
  "upload_key (Upload now i d b) = Some (i, asset_key now d)"
| "upload_key _ = None"

text \<open>The identifiers and the keys of the uploads differ.\<close>

definition distinct_uploads :: "'b asset_event list \<Rightarrow> bool" where
  "distinct_uploads es \<longleftrightarrow> distinct (map fst (List.map_filter upload_key es)) \<and> distinct (map snd (List.map_filter upload_key es))"

definition from_upload :: "'b asset_event list \<Rightarrow> ('w \<Rightarrow> string \<Rightarrow> 'b option) \<Rightarrow> 'w \<Rightarrow> asset \<Rightarrow> bool" where
  "from_upload es view w a \<longleftrightarrow> (\<exists>now d b. Upload now (as_id a) d b \<in> set es \<and> as_storageKey a = asset_key now d
     \<and> as_tenantId a = ad_tenantId d \<and> view w (as_storageKey a) = Some b)"

lemma upload_keys_mem: "Upload now i d b \<in> set es \<Longrightarrow> (i, asset_key now d) \<in> set (List.map_filter upload_key es)"
  by (force simp: List.map_filter_def image_iff)

lemma map_filter_snoc: "List.map_filter f (xs @ [x]) = List.map_filter f xs @ (case f x of None \<Rightarrow> [] | Some y \<Rightarrow> [y])"
  by (simp add: List.map_filter_def split: option.split)

lemma distinct_uploads_prefix: "distinct_uploads (es @ [e]) \<Longrightarrow> distinct_uploads es"
  by (auto simp: distinct_uploads_def map_filter_snoc split: option.splits)

lemma fresh_upload:
  assumes "distinct_uploads (es @ [Upload now i d b])" and "Upload now' j d' b' \<in> set es"
  shows "j \<noteq> i \<and> asset_key now' d' \<noteq> asset_key now d"
  using assms(1) upload_keys_mem[OF assms(2)] by (force simp: distinct_uploads_def map_filter_snoc)

lemma uploads_by_key:
  assumes "distinct_uploads es" and "Upload n1 i d1 b1 \<in> set es" and "Upload n2 j d2 b2 \<in> set es" and "asset_key n1 d1 = asset_key n2 d2"
  shows "i = j"
  using assms(1) upload_keys_mem[OF assms(2)] upload_keys_mem[OF assms(3)] assms(4)
  unfolding distinct_uploads_def distinct_map inj_on_def by (metis fst_conv snd_conv)

definition assets_ok :: "'b asset_event list \<Rightarrow> ('w \<Rightarrow> string \<Rightarrow> 'b option) \<Rightarrow> 'w \<times> asset_table \<Rightarrow> bool" where
  "assets_ok es view st \<longleftrightarrow> (\<forall>a\<in>set (snd st). from_upload es view (fst st) a) \<and> distinct (map as_id (snd st))"

lemma from_upload_more: "from_upload es view w a \<Longrightarrow> view w' (as_storageKey a) = view w (as_storageKey a) \<Longrightarrow> from_upload (es @ [e]) view w' a"
  unfolding from_upload_def by force

lemma upload_step_ok:
  assumes "storage_like_ok s view" and "distinct_uploads (es @ [Upload now i d b])" and "assets_ok es view (w, t)"
  shows "assets_ok (es @ [Upload now i d b]) view (asset_step (Some s) (Upload now i d b) (w, t))"
proof -
  obtain r w1 where up: "sl_upload s (asset_key now d) b (ad_mimeType d) w = (r, w1)" by fastforce
  note s = assms(1)[unfolded storage_like_ok_def, rule_format, where w = w and k = "asset_key now d" and b = b and m = "ad_mimeType d"]
  have other: "as_id a \<noteq> i \<and> as_storageKey a \<noteq> asset_key now d" if "a \<in> set t" for a
    using assms(3) that fresh_upload[OF assms(2)] unfolding assets_ok_def from_upload_def by fastforce
  show ?thesis
  proof (cases r)
    case (Inl e)
    then have "view w1 = view w" using s up by (simp add: storage_like_ok_def)
    then show ?thesis using up Inl assms(3) unfolding assets_ok_def by (auto simp: asset_upload_def intro: from_upload_more)
  next
    case (Inr u)
    have v: "view w1 = (view w)(asset_key now d \<mapsto> b)" using s up Inr by simp
    let ?a = "\<lparr>as_id = i, as_filename = ad_filename d, as_mimeType = ad_mimeType d, as_size = ad_size d,
        as_storageKey = asset_key now d, as_folder = ad_folder d, as_tags = or_else (ad_tags d) [], as_altText = ad_altText d, as_tenantId = ad_tenantId d\<rparr>"
    have st: "asset_step (Some s) (Upload now i d b) (w, t) = (w1, t @ [?a])"
      using up Inr by (simp add: asset_upload_def car_create_def Let_def)
    have "from_upload (es @ [Upload now i d b]) view w1 ?a" using v unfolding from_upload_def by auto
    moreover have "from_upload (es @ [Upload now i d b]) view w1 a" if "a \<in> set t" for a
      using assms(3) that other[OF that] v by (intro from_upload_more[of es view w]) (auto simp: assets_ok_def)
    moreover have "distinct (map as_id (t @ [?a]))" using assms(3) other by (auto simp: assets_ok_def)
    ultimately show ?thesis unfolding st assets_ok_def by auto
  qed
qed

lemma change_keeps: "as_id (apply_partial d a) = as_id a" "as_storageKey (apply_partial d a) = as_storageKey a" "as_tenantId (apply_partial d a) = as_tenantId a"
  by (simp_all add: apply_partial_def)

lemma change_step_ok:
  assumes "assets_ok es view (w, t)"
  shows "assets_ok (es @ [Change i d tenant]) view (asset_step sl (Change i d tenant) (w, t))"
proof (cases "asset_findById i tenant t")
  case (Inl e)
  then show ?thesis using assms by (auto simp: assets_ok_def asset_update_def intro: from_upload_more)
next
  case (Inr b)
  let ?f = "\<lambda>a. if as_id a = i then apply_partial d a else a"
  have st: "asset_step sl (Change i d tenant) (w, t) = (w, map ?f t)" using Inr by (simp add: asset_update_def car_update_def)
  have ids: "map as_id (map ?f t) = map as_id t" by (induction t) (simp_all add: change_keeps)
  have "from_upload (es @ [Change i d tenant]) view w (?f a)" if "a \<in> set t" for a
  proof -
    have "from_upload es view w a" using assms that by (simp add: assets_ok_def)
    then have "from_upload es view w (?f a)" by (cases "as_id a = i") (auto simp: from_upload_def change_keeps)
    then show ?thesis by (rule from_upload_more) simp
  qed
  then have "list_all (from_upload (es @ [Change i d tenant]) view w) (map ?f t)" by (simp only: list_all_iff set_map ball_simps) blast
  then show ?thesis unfolding st assets_ok_def snd_conv fst_conv ids using assms by (simp only: list_all_iff) (simp add: assets_ok_def)
qed

lemma remove_step_ok:
  assumes "storage_like_ok s view" and "distinct_uploads es" and "assets_ok es view (w, t)"
  shows "assets_ok (es @ [Remove i tenant]) view (asset_step (Some s) (Remove i tenant) (w, t))"
proof (cases "asset_findById i tenant t")
  case (Inl e)
  then show ?thesis using assms(3) by (auto simp: asset_delete_def assets_ok_def intro: from_upload_more)
next
  case (Inr a)
  then have a: "a \<in> set t" "as_id a = i" by (auto simp: asset_findById_def car_findById_def find_Some_iff split: option.splits)
  obtain r w1 where del: "sl_delete s (as_storageKey a) w = (r, w1)" by fastforce
  note s = assms(1)[unfolded storage_like_ok_def, rule_format, where w = w and k = "as_storageKey a"]
  show ?thesis
  proof (cases r)
    case (Inl e)
    then have "view w1 = view w" using s del by simp
    then show ?thesis using del Inl Inr assms(3) unfolding assets_ok_def by (auto simp: asset_delete_def intro: from_upload_more)
  next
    case (Inr u)
    have v: "view w1 = (view w)(as_storageKey a := None)" using s del Inr by simp
    have "as_storageKey x \<noteq> as_storageKey a" if "x \<in> set t" "as_id x \<noteq> i" for x
    proof -
      have "from_upload es view w x" "from_upload es view w a" using assms(3) that(1) a(1) by (simp_all add: assets_ok_def)
      then show ?thesis using uploads_by_key[OF assms(2)] that(2) a(2) unfolding from_upload_def by metis
    qed
    then show ?thesis using del Inr \<open>asset_findById i tenant t = Inr a\<close> assms(3) v unfolding assets_ok_def
      by (auto simp: asset_delete_def car_delete_def distinct_map_filter intro!: from_upload_more)
  qed
qed

lemma assets_stay_ok:
  assumes "storage_like_ok s view"
  shows "distinct_uploads es \<Longrightarrow> assets_ok es view (asset_run (Some s) es (w0, []))"
proof (induction es rule: rev_induct)
  case (snoc e es)
  obtain w t where st: "asset_run (Some s) es (w0, []) = (w, t)" by fastforce
  have ok: "assets_ok es view (w, t)" using snoc.IH distinct_uploads_prefix[OF snoc.prems] st by simp
  show ?case
  proof (cases e)
    case (Upload now i d b)
    then show ?thesis using upload_step_ok[OF assms _ ok, of now i d b] snoc.prems st by simp
  next
    case (Change i d tenant)
    then show ?thesis using change_step_ok[OF ok, of i d tenant "Some s"] st by simp
  next
    case (Remove i tenant)
    then show ?thesis using remove_step_ok[OF assms distinct_uploads_prefix[OF snoc.prems] ok, of i tenant] st by simp
  qed
qed (simp add: assets_ok_def)

text \<open>While uploads have keys of their own, every asset that is listed has the bytes it was uploaded with in the storage, after any
  uploads, changes and removals, failing ones included; and the calls of a tenant neither see nor change the assets of another.\<close>

theorem assets_keep_their_files:
  assumes "storage_like_ok s view" and "distinct_uploads es" and "asset_run (Some s) es (w0, []) = (w, t)" and "tenant \<noteq> []"
  shows "(\<forall>a\<in>set t. \<exists>now d b. Upload now (as_id a) d b \<in> set es \<and> as_storageKey a = asset_key now d \<and> view w (as_storageKey a) = Some b)
    \<and> (\<forall>i a. asset_findById i (Some tenant) t = Inr a \<longrightarrow> as_tenantId a = Some tenant)
    \<and> (\<forall>a\<in>set t. as_tenantId a \<noteq> Some tenant \<longrightarrow> (\<forall>i d. a \<in> set (snd (asset_step (Some s) (Change i d (Some tenant)) (w, t)))
        \<and> a \<in> set (snd (asset_step (Some s) (Remove i (Some tenant)) (w, t)))))"
proof -
  have ok: "assets_ok es view (w, t)" using assets_stay_ok[OF assms(1,2), of w0] assms(3) by simp
  have own: "a \<in> set t \<and> as_id a = i \<and> as_tenantId a = Some tenant" if "asset_findById i (Some tenant) t = Inr a" for i a
    using that assms(4) by (auto simp: asset_findById_def car_findById_def find_Some_iff tenant_where_def split: option.splits)
  have same: "a = b" if "a \<in> set t" "b \<in> set t" "as_id a = as_id b" for a b
    using ok that unfolding assets_ok_def distinct_map inj_on_def by auto
  have change: "a \<in> set (snd (asset_step (Some s) (Change i d (Some tenant)) (w, t)))" if "a \<in> set t" "as_tenantId a \<noteq> Some tenant" for a i d
  proof (cases "asset_findById i (Some tenant) t")
    case (Inr b)
    then have "as_id a \<noteq> i" using own same that by blast
    then show ?thesis using that Inr by (auto simp: asset_update_def car_update_def image_iff)
  qed (use that in \<open>simp add: asset_update_def\<close>)
  have remove: "a \<in> set (snd (asset_step (Some s) (Remove i (Some tenant)) (w, t)))" if "a \<in> set t" "as_tenantId a \<noteq> Some tenant" for a i
  proof (cases "asset_findById i (Some tenant) t")
    case (Inr b)
    then have "as_id a \<noteq> i" using own same that by blast
    then show ?thesis using that Inr by (auto simp: asset_delete_def car_delete_def split: prod.split sum.split)
  qed (use that in \<open>simp add: asset_delete_def\<close>)
  have "\<exists>now d b. Upload now (as_id a) d b \<in> set es \<and> as_storageKey a = asset_key now d \<and> view w (as_storageKey a) = Some b"
    if "a \<in> set t" for a
    using ok that unfolding assets_ok_def from_upload_def by (metis fst_conv snd_conv)
  then show ?thesis using own change remove by blast
qed

definition map_storage :: "('b, (string, 'b) jsmap) storage_like" where
  "map_storage = \<lparr>sl_upload = (\<lambda>k b m w. if length w < 2 then (Inr (), jm_set w k b) else (Inl ''full'', w)), sl_delete = (\<lambda>k w. (Inr (), jm_del w k)), sl_getSignedUrl = None\<rparr>"

lemma map_storage_ok: "storage_like_ok map_storage (\<lambda>w. jm_get w)"
  by (auto simp: storage_like_ok_def map_storage_def fun_eq_iff jm_get_set jm_get_del)

definition photo :: asset_data where
  "photo = \<lparr>ad_filename = ''a.png'', ad_mimeType = ''image/png'', ad_size = 3, ad_folder = None, ad_tags = None, ad_altText = None, ad_tenantId = Some ''acme''\<rparr>"

theorem assets_keep_their_files_witness:
  "\<exists>w t a. asset_run (Some map_storage) [Upload 1 ''x'' photo ''abc'', Upload 2 ''y'' photo ''def'', Remove ''y'' (Some ''acme'')] ([], []) = (w, t)
    \<and> as_id a = ''x'' \<and> a \<in> set t \<and> jm_get w (as_storageKey a) = Some ''abc''"
proof -
  let ?es = "[Upload 1 ''x'' photo ''abc'', Upload 2 ''y'' photo ''def'', Remove ''y'' (Some ''acme'')]"
  obtain w t where run: "asset_run (Some map_storage) ?es ([], []) = (w, t)" by fastforce
  have d: "distinct_uploads ?es"
    by (simp add: distinct_uploads_def List.map_filter_def asset_key_def photo_def js_of_nat.simps)
  have x: "\<exists>a\<in>set t. as_id a = ''x''"
    using run by (auto simp: asset_upload_def asset_delete_def asset_findById_def car_findById_def car_create_def car_delete_def map_storage_def
        tenant_where_def photo_def asset_key_def js_of_nat.simps Let_def)
  then obtain a where a: "a \<in> set t" "as_id a = ''x''" by blast
  obtain now dd b where "Upload now ''x'' dd b \<in> set ?es" "jm_get w (as_storageKey a) = Some b"
    using assets_keep_their_files[OF map_storage_ok d run, of "''acme''"] a by auto
  then show ?thesis using run a by (intro exI[of _ w] exI[of _ t] exI[of _ a]) auto
qed

section \<open>Components stay valid\<close>

definition components_ok :: "component_table \<Rightarrow> bool" where
  "components_ok t \<longleftrightarrow> distinct (map cc_id t) \<and> list_all (\<lambda>c. component_fields_problem (cc_fields c) = None) t \<and> list_all (\<lambda>c. slug_free c t) t"

datatype component_event = MakeComponent content_component | ChangeComponent string component_partial "string option" | DropComponent string "string option"

fun component_step :: "component_event \<Rightarrow> component_table \<Rightarrow> component_table" where
  "component_step (MakeComponent c) t = snd (cmp_create c t)"
| "component_step (ChangeComponent i d tenant) t = snd (cmp_update i d tenant t)"
| "component_step (DropComponent i tenant) t = snd (cmp_delete i tenant t)"

lemma component_fields_iff:
  "component_fields_problem fs = None \<longleftrightarrow> (\<forall>f\<in>set fs. fd_name f \<noteq> [] \<and> fd_type f \<in> set COMPONENT_FIELD_TYPES)"
  by (induction fs) (auto simp: COMPONENT_FIELD_TYPES_def)

lemma component_changed_id: "cc_id (component_changed d c) = cc_id c" "cc_tenantId (component_changed d c) = cc_tenantId c"
  by (simp_all add: component_changed_def)

lemma apart_sym: "apart c d \<longleftrightarrow> apart d c"
  by (auto simp: apart_def)

lemma apart_refl: "apart c c"
  by (simp add: apart_def)

lemma slug_free_mem: "slug_free c t \<longleftrightarrow> (\<forall>d\<in>set t. apart c d)"
  by (simp add: slug_free_def list_all_iff)

lemma components_okD:
  assumes "components_ok t" and "c \<in> set t"
  shows "component_fields_problem (cc_fields c) = None" and "d \<in> set t \<Longrightarrow> apart c d" and "d \<in> set t \<Longrightarrow> cc_id c = cc_id d \<Longrightarrow> c = d"
  using assms by (auto simp: components_ok_def list_all_iff slug_free_mem distinct_map inj_on_def)

lemma components_okI:
  assumes "distinct (map cc_id t)" and "\<And>c. c \<in> set t \<Longrightarrow> component_fields_problem (cc_fields c) = None"
    and "\<And>c d. c \<in> set t \<Longrightarrow> d \<in> set t \<Longrightarrow> apart c d"
  shows "components_ok t"
  using assms by (simp add: components_ok_def list_all_iff slug_free_mem)

lemma create_component_ok:
  assumes "components_ok t" and "cc_id c \<notin> cc_id ` set t"
  shows "components_ok (snd (cmp_create c t))"
proof (cases "snd (cmp_create c t) = t")
  case False
  then have c: "snd (cmp_create c t) = t @ [c]" "component_fields_problem (cc_fields c) = None" "slug_free c t"
    by (auto simp: cmp_create_def split: option.splits if_splits)
  have "apart x y" if "x \<in> set (t @ [c])" "y \<in> set (t @ [c])" for x y
    using that c(3) components_okD(2)[OF assms(1)] apart_sym apart_refl unfolding slug_free_mem by auto
  then show ?thesis unfolding c(1)
    using assms components_okD(1)[OF assms(1)] c(2) by (intro components_okI) (auto simp: components_ok_def)
qed (simp add: assms)

lemma update_component_ok:
  assumes "components_ok t"
  shows "components_ok (snd (cmp_update i d tenant t))"
proof (cases "snd (cmp_update i d tenant t) = t")
  case False
  let ?f = "\<lambda>x. if cc_id x = i then component_changed d x else x"
  obtain c where find: "cmp_findById i tenant t = Inr c" using False by (cases "cmp_findById i tenant t") (simp_all add: cmp_update_def)
  then have c: "c \<in> set t" "cc_id c = i" by (auto simp: cmp_findById_def dest: find_SomeD split: option.splits)
  have ok: "\<And>fs. cp_fields d = Some fs \<Longrightarrow> component_fields_problem fs = None"
    and free: "slug_free (component_changed d c) t" and new: "snd (cmp_update i d tenant t) = map ?f t"
    using False find by (auto simp: cmp_update_def Let_def split: option.splits if_splits)
  have only: "x = c" if "x \<in> set t" "cc_id x = i" for x using components_okD(3)[OF assms that(1) c(1)] c(2) that(2) by simp
  have ids: "map cc_id (map ?f t) = map cc_id t" by (induction t) (simp_all add: component_changed_id)
  have fields: "component_fields_problem (cc_fields (?f x)) = None" if "x \<in> set t" for x
    using components_okD(1)[OF assms that] ok by (cases "cp_fields d") (simp_all add: component_changed_def)
  have apart: "apart (?f x) (?f y)" if "x \<in> set t" "y \<in> set t" for x y
  proof (cases "cc_id x = i"; cases "cc_id y = i")
    assume "cc_id x = i" "cc_id y = i"
    then show ?thesis using only[OF that(1)] only[OF that(2)] by (simp add: apart_refl)
  next
    assume "cc_id x = i" "cc_id y \<noteq> i"
    then show ?thesis using only[OF that(1)] free that(2) by (simp add: slug_free_mem)
  next
    assume "cc_id x \<noteq> i" "cc_id y = i"
    then show ?thesis using only[OF that(2)] free that(1) apart_sym[of x] by (simp add: slug_free_mem)
  next
    assume "cc_id x \<noteq> i" "cc_id y \<noteq> i"
    then show ?thesis using components_okD(2)[OF assms that] by simp
  qed
  have "distinct (map cc_id (map ?f t))" unfolding ids using assms by (simp add: components_ok_def)
  moreover have "component_fields_problem (cc_fields c') = None" if "c' \<in> set (map ?f t)" for c'
    using that fields by (metis (no_types, lifting) imageE set_map)
  moreover have "apart a b" if "a \<in> set (map ?f t)" "b \<in> set (map ?f t)" for a b
    using that apart by (metis (no_types, lifting) imageE set_map)
  ultimately show ?thesis unfolding new by (rule components_okI)
qed (simp add: assms)

lemma delete_component_ok:
  assumes "components_ok t"
  shows "components_ok (snd (cmp_delete i tenant t))"
proof -
  have "components_ok (filter (\<lambda>c. cc_id c \<noteq> i) t)"
    using assms components_okD[OF assms] by (intro components_okI) (auto simp: components_ok_def distinct_map_filter)
  then show ?thesis using assms by (simp add: cmp_delete_def split: sum.split)
qed

fun made_id :: "component_event \<Rightarrow> string option" where
  "made_id (MakeComponent c) = Some (cc_id c)"
| "made_id _ = None"

text \<open>Whatever is created, changed and removed, components have valid fields, none of them nested, and slugs that are unique within a
  tenant.\<close>

theorem components_stay_valid:
  assumes "distinct (List.map_filter made_id es)"
  shows "components_ok (fold component_step es []) \<and> cc_id ` set (fold component_step es []) \<subseteq> set (List.map_filter made_id es)"
  using assms
proof (induction es rule: rev_induct)
  case Nil
  show ?case by (simp add: components_ok_def)
next
  case (snoc e es)
  let ?t = "fold component_step es []"
  have "distinct (List.map_filter made_id es)" using snoc.prems by (simp add: map_filter_snoc split: option.splits)
  from snoc.IH[OF this] have ok: "components_ok ?t" and ids: "cc_id ` set ?t \<subseteq> set (List.map_filter made_id es)" by blast+
  have step: "fold component_step (es @ [e]) [] = component_step e ?t" by simp
  show ?case
  proof (cases e)
    case (MakeComponent c)
    have "cc_id c \<notin> cc_id ` set ?t" using snoc.prems ids MakeComponent by (auto simp: map_filter_snoc)
    then have "components_ok (snd (cmp_create c ?t))" by (rule create_component_ok[OF ok])
    moreover have "set (snd (cmp_create c ?t)) \<subseteq> insert c (set ?t)" by (simp add: cmp_create_def subset_insertI split: option.split)
    ultimately show ?thesis unfolding step using ids MakeComponent by (simp add: map_filter_snoc) blast
  next
    case (ChangeComponent i d tenant)
    have "cc_id ` set (snd (cmp_update i d tenant ?t)) \<subseteq> cc_id ` set ?t"
      by (auto simp: cmp_update_def Let_def component_changed_id split: sum.splits option.splits if_splits)
    then show ?thesis unfolding step using ids update_component_ok[OF ok] ChangeComponent by (auto simp: map_filter_snoc)
  next
    case (DropComponent i tenant)
    have "set (snd (cmp_delete i tenant ?t)) \<subseteq> set ?t" by (auto simp: cmp_delete_def split: sum.splits)
    then show ?thesis unfolding step using ids delete_component_ok[OF ok] DropComponent by (auto simp: map_filter_snoc)
  qed
qed

theorem components_stay_valid_witness:
  "components_ok (fold component_step [MakeComponent \<lparr>cc_id = ''1'', cc_name = ''Hero'', cc_slug = ''hero'', cc_fields = [], cc_tenantId = None\<rparr>] [])"
  by (rule components_stay_valid[THEN conjunct1]) (simp add: List.map_filter_simps)

end
