(* ===== verification/Bootstrap.thy ===== *)
theory Bootstrap
  imports Boot_Prelude
begin

text \<open>
  The start of an application: \<open>create-app.ts\<close>, the plugin registry (\<open>plugin/plugin.registry.ts\<close>) and the deploy hooks
  (\<open>deploy/deploy.service.ts\<close>, \<open>deploy/hooks\<close>). The options are those the Joi schema has accepted, a section that is present being
  truthy. The framework, the tracing SDK and the hooks act on a world \<open>'w\<close>; the modules, interceptors and filters are given by
  the names of their classes. The registration of a module is taken not to throw.
\<close>

section \<open>Deploy hooks\<close>

datatype deploy_phase = PreStart | PreMigrate | PostMigrate | PostStart | HealthGate

definition DEPLOY_PHASE_ORDER :: "deploy_phase list" where
  "DEPLOY_PHASE_ORDER = [PreStart, PreMigrate, PostMigrate, PostStart, HealthGate]"

record deploy_context =
  dc_phase :: deploy_phase
  dc_environment :: string
  dc_version :: string

record 'w deploy_hook =
  dh_name :: string
  dh_phase :: deploy_phase
  dh_order :: "int option"
  dh_execute :: "deploy_context \<Rightarrow> 'w \<Rightarrow> (string + unit) \<times> 'w"

type_synonym 'w deploy_service = "'w deploy_hook list"

definition registerHook :: "'w deploy_hook \<Rightarrow> 'w deploy_service \<Rightarrow> 'w deploy_service" where
  "registerHook hook hooks = hooks @ [hook]"

fun run_hooks :: "deploy_context \<Rightarrow> 'w deploy_hook list \<Rightarrow> 'w \<Rightarrow> (string + unit) \<times> 'w" where
  "run_hooks ctx [] w = (Inr (), w)"
| "run_hooks ctx (hook # hooks) w = (case dh_execute hook ctx w of (Inl e, w) \<Rightarrow> (Inl e, w) | (Inr _, w) \<Rightarrow> run_hooks ctx hooks w)"

definition hook_order :: "'w deploy_hook \<Rightarrow> int" where
  "hook_order hook = or_else (dh_order hook) 0"

definition executePhase :: "deploy_phase \<Rightarrow> deploy_context \<Rightarrow> 'w deploy_service \<Rightarrow> 'w \<Rightarrow> (string + unit) \<times> 'w" where
  "executePhase phase ctx hooks w = run_hooks ctx (sort_key hook_order (filter (\<lambda>hook. dh_phase hook = phase) hooks)) w"

definition env_validation_hook :: "(string \<Rightarrow> string option) \<Rightarrow> string list \<Rightarrow> 'w deploy_hook" where
  "env_validation_hook env requiredVars = \<lparr>dh_name = ''EnvValidation'', dh_phase = PreStart, dh_order = Some (- 100),
     dh_execute = (\<lambda>_ w. let missing = filter (\<lambda>v. env v = None \<or> env v = Some []) requiredVars
       in (if missing \<noteq> [] then (Inl (''Missing required environment variables: '' @ js_join '', '' missing), w) else (Inr (), w)))\<rparr>"

text \<open>\<open>connect\<close> opens and closes a connection, \<open>ping\<close> asks the cache.\<close>

fun check_connections :: "(string \<Rightarrow> 'w \<Rightarrow> (string + unit) \<times> 'w) \<Rightarrow> (string \<times> string) list \<Rightarrow> 'w \<Rightarrow> (string + unit) \<times> 'w" where
  "check_connections connect [] w = (Inr (), w)"
| "check_connections connect ((name, uri) # rest) w = (case connect uri w of
     (Inl e, w) \<Rightarrow> (Inl (''MongoDB/'' @ name @ '' connectivity check failed: '' @ e), w)
   | (Inr _, w) \<Rightarrow> check_connections connect rest w)"

definition dependency_check_hook :: "(string \<Rightarrow> 'w \<Rightarrow> (string + unit) \<times> 'w) \<Rightarrow> (string \<Rightarrow> 'w \<Rightarrow> (string + unit) \<times> 'w)
    \<Rightarrow> (string \<times> string) list option \<Rightarrow> string option \<Rightarrow> 'w deploy_hook" where
  "dependency_check_hook connect ping connections redis = \<lparr>dh_name = ''DependencyCheck'', dh_phase = PreStart, dh_order = Some (- 50),
     dh_execute = (\<lambda>_ w. case check_connections connect (or_else connections []) w of
        (Inl e, w) \<Rightarrow> (Inl e, w)
      | (Inr _, w) \<Rightarrow> (case redis of None \<Rightarrow> (Inr (), w)
          | Some url \<Rightarrow> (case ping url w of (Inl e, w) \<Rightarrow> (Inl (''Redis connectivity check failed: '' @ e), w) | (Inr _, w) \<Rightarrow> (Inr (), w))))\<rparr>"

text \<open>The gate asks for the health page and waits between attempts, the first argument being the attempts left.\<close>

fun gate_attempts :: "('w \<Rightarrow> nat option \<times> 'w) \<Rightarrow> (nat \<Rightarrow> 'w \<Rightarrow> 'w) \<Rightarrow> nat \<Rightarrow> nat \<Rightarrow> nat \<Rightarrow> 'w \<Rightarrow> (string + unit) \<times> 'w" where
  "gate_attempts probe pause interval maxAttempts 0 w =
     (Inl (''Readiness gate: health check failed after '' @ js_of_nat maxAttempts @ '' attempts''), w)"
| "gate_attempts probe pause interval maxAttempts (Suc left) w = (case probe w of (status, w) \<Rightarrow>
     if (case status of Some s \<Rightarrow> 200 \<le> s \<and> s < 300 | None \<Rightarrow> False) then (Inr (), w)
     else gate_attempts probe pause interval maxAttempts left (if 0 < left then pause interval w else w))"

record gate_options =
  gt_maxAttempts :: "nat option"
  gt_intervalMs :: "nat option"
  gt_delayMs :: "nat option"

definition readiness_gate_hook :: "('w \<Rightarrow> nat option \<times> 'w) \<Rightarrow> (nat \<Rightarrow> 'w \<Rightarrow> 'w) \<Rightarrow> gate_options \<Rightarrow> 'w deploy_hook" where
  "readiness_gate_hook probe pause opts = (let maxAttempts = or_else (gt_maxAttempts opts) 30; delayMs = or_else (gt_delayMs opts) 0 in
     \<lparr>dh_name = ''ReadinessGate'', dh_phase = HealthGate, dh_order = Some 0,
      dh_execute = (\<lambda>_ w. gate_attempts probe pause (or_else (gt_intervalMs opts) 1000) maxAttempts maxAttempts
        (if 0 < delayMs then pause delayMs w else w))\<rparr>)"

section \<open>Plugins\<close>

record 'w plugin =
  pl_name :: string
  pl_configKey :: string
  pl_applyGlobals :: "('w \<Rightarrow> (string + unit) \<times> 'w) option"

record 'w plugin_registry =
  pr_plugins :: "'w plugin list"
  pr_byConfigKey :: "(string, 'w plugin) jsmap"

definition plugin_quoted :: "string \<Rightarrow> string" where
  "plugin_quoted s = [CHR 0x22] @ s @ [CHR 0x22]"

definition plugin_register :: "'w plugin \<Rightarrow> 'w plugin_registry \<Rightarrow> string + 'w plugin_registry" where
  "plugin_register p r = (case jm_get (pr_byConfigKey r) (pl_configKey p) of
     Some other \<Rightarrow> Inl (''BootPlugin configKey '' @ plugin_quoted (pl_configKey p) @ '' is already registered by plugin ''
       @ plugin_quoted (pl_name other) @ ''. Cannot register '' @ plugin_quoted (pl_name p) @ '' with the same key.'')
   | None \<Rightarrow> Inr \<lparr>pr_plugins = pr_plugins r @ [p], pr_byConfigKey = jm_set (pr_byConfigKey r) (pl_configKey p) p\<rparr>)"

definition getByConfigKey :: "string \<Rightarrow> 'w plugin_registry \<Rightarrow> 'w plugin option" where
  "getByConfigKey key r = jm_get (pr_byConfigKey r) key"

fun register_plugins :: "'w plugin list \<Rightarrow> 'w plugin_registry \<Rightarrow> string + 'w plugin_registry" where
  "register_plugins [] r = Inr r"
| "register_plugins (p # ps) r = (case plugin_register p r of Inl e \<Rightarrow> Inl e | Inr r \<Rightarrow> register_plugins ps r)"

section \<open>Options\<close>

record 'w deploy_options =
  do_enabled :: "bool option"
  do_requiredEnvVars :: "string list option"
  do_readinessDelay :: "nat option"
  do_hooks :: "'w deploy_hook list option"

record cache_section =
  cs_redis :: bool
  cs_memcached :: bool

record health_section =
  hs_enabled :: "bool option"
  hs_path :: "string option"

record auth_section =
  as_jwt :: bool
  as_apiKey :: bool

record transport_section =
  ts_grpc :: bool
  ts_tcp :: bool
  ts_nats :: bool
  ts_rabbitmq :: bool

record versioning_section =
  vs_type :: "string option"
  vs_defaultVersion :: "string option"
  vs_header :: "string option"
  vs_mediaTypeKey :: "string option"

record response_section =
  rs_envelope :: bool
  rs_errorHandler :: "bool option"

text \<open>Sections that are only tested for presence are flags; \<open>bo_other\<close> are the further keys that are truthy.\<close>

record 'w boot_options =
  bo_database :: "string list option"
  bo_cache :: "cache_section option"
  bo_response :: "response_section option"
  bo_health :: "health_section option"
  bo_auth :: "auth_section option"
  bo_correlation :: bool
  bo_shutdown :: bool
  bo_transport :: "transport_section option"
  bo_interServiceAuth :: bool
  bo_metrics :: "string option option"
  bo_logging :: "string option option"
  bo_tracing :: "string option"
  bo_timeout :: bool
  bo_queue :: "string option"
  bo_events :: "string option"
  bo_cqrs :: bool
  bo_deploy :: "'w deploy_options option"
  bo_alerts :: bool
  bo_versioning :: "versioning_section option"
  bo_tenancy :: "(string \<times> string option) option"
  bo_websocket :: bool
  bo_webhooks :: bool
  bo_content :: bool
  bo_storage :: bool
  bo_swagger :: bool
  bo_layers :: bool
  bo_errorReporter :: bool
  bo_plugins :: "'w plugin list option"
  bo_other :: "string list"

definition present_keys :: "'w boot_options \<Rightarrow> string list" where
  "present_keys o1 = concat (map (\<lambda>(key, present). if present then [key] else []) [
     (''database'', bo_database o1 \<noteq> None), (''cache'', bo_cache o1 \<noteq> None), (''response'', bo_response o1 \<noteq> None),
     (''health'', bo_health o1 \<noteq> None), (''auth'', bo_auth o1 \<noteq> None), (''correlation'', bo_correlation o1),
     (''shutdown'', bo_shutdown o1), (''transport'', bo_transport o1 \<noteq> None), (''interServiceAuth'', bo_interServiceAuth o1),
     (''metrics'', bo_metrics o1 \<noteq> None), (''logging'', bo_logging o1 \<noteq> None), (''tracing'', bo_tracing o1 \<noteq> None),
     (''queue'', bo_queue o1 \<noteq> None), (''events'', bo_events o1 \<noteq> None), (''cqrs'', bo_cqrs o1), (''deploy'', bo_deploy o1 \<noteq> None),
     (''alerts'', bo_alerts o1), (''versioning'', bo_versioning o1 \<noteq> None), (''tenancy'', bo_tenancy o1 \<noteq> None),
     (''websocket'', bo_websocket o1), (''webhooks'', bo_webhooks o1), (''content'', bo_content o1), (''storage'', bo_storage o1),
     (''swagger'', bo_swagger o1), (''plugins'', bo_plugins o1 \<noteq> None)]) @ bo_other o1"

section \<open>The modules of the application\<close>

datatype boot_import = BootConfig | Infra string | External string | UserModule

definition health_on :: "'w boot_options \<Rightarrow> bool" where
  "health_on v \<longleftrightarrow> Option.bind (bo_health v) hs_enabled \<noteq> Some False"

definition deploy_on :: "'w boot_options \<Rightarrow> bool" where
  "deploy_on v \<longleftrightarrow> Option.bind (bo_deploy v) do_enabled \<noteq> Some False"

definition infra_imports :: "'w boot_options \<Rightarrow> string list" where
  "infra_imports v =
     (if bo_database v \<noteq> None then [''DatabaseModule''] else []) @
     (if bo_cache v \<noteq> None then [''CacheModule''] else []) @
     (if health_on v then [''HealthModule''] else []) @
     (if bo_auth v \<noteq> None then [''AuthModule''] else []) @
     (if bo_correlation v \<or> bo_transport v \<noteq> None then [''CorrelationModule''] else []) @
     (if bo_shutdown v then [''ShutdownModule''] else []) @
     (if bo_transport v \<noteq> None then [''TransportModule'', ''RpcModule''] else []) @
     (if bo_interServiceAuth v then [''InterServiceAuthModule''] else []) @
     (if bo_metrics v \<noteq> None then [''MetricsModule''] else []) @
     (if bo_logging v \<noteq> None then [''LoggingModule''] else []) @
     (if bo_tracing v \<noteq> None then [''TracingModule''] else []) @
     (if bo_queue v \<noteq> None then [''QueueModule''] else []) @
     (if bo_events v \<noteq> None then [''EventBusModule''] else []) @
     (if bo_cqrs v then [''CqrsModule''] else []) @
     (if deploy_on v then [''DeployHooksModule''] else []) @
     (if bo_alerts v then [''AlertModule''] else []) @
     (if bo_versioning v \<noteq> None then [''VersioningModule''] else []) @
     (if bo_tenancy v \<noteq> None then [''TenancyModule''] else []) @
     (if bo_websocket v then [''WebSocketModule''] else []) @
     (if bo_webhooks v then [''WebhookModule''] else []) @
     (if bo_content v then [''ContentModule''] else []) @
     (if bo_storage v then [''StorageModule''] else [])"

definition no_plugins :: "'w plugin_registry" where
  "no_plugins = \<lparr>pr_plugins = [], pr_byConfigKey = []\<rparr>"

definition buildBootModule :: "'w boot_options \<Rightarrow> 'w plugin_registry \<Rightarrow> string + boot_import list \<times> 'w plugin_registry" where
  "buildBootModule v registry = (case register_plugins (or_else (bo_plugins v) []) registry of
     Inl e \<Rightarrow> Inl e
   | Inr r \<Rightarrow> Inr ([BootConfig] @ map Infra (infra_imports v)
       @ map (\<lambda>p. External (pl_name p)) (filter (\<lambda>p. pl_configKey p \<in> set (present_keys v)) (pr_plugins r)) @ [UserModule], r))"

section \<open>Starting\<close>

record boot_app =
  ba_imports :: "boot_import list"
  ba_versioning :: "versioning_section option"
  ba_bootLogger :: bool
  ba_interceptors :: "string list"
  ba_filters :: "string list"
  ba_errorReporter :: bool
  ba_shutdownHooks :: bool

text \<open>What surrounds the code: \<open>be_validate\<close> is the Joi schema, \<open>be_provides\<close> tells whether \<open>app.get\<close> finds a class, \<open>be_scanned\<close>
  are the hooks found on decorated methods.\<close>

record 'w boot_env =
  be_validate :: "'w boot_options \<Rightarrow> string list option \<times> 'w boot_options"
  be_process :: "string \<Rightarrow> string option"
  be_initTracing :: "'w \<Rightarrow> (string + unit) \<times> 'w"
  be_create :: "boot_import list \<Rightarrow> 'w \<Rightarrow> (string + unit) \<times> 'w"
  be_provides :: "string \<Rightarrow> bool"
  be_connectTransports :: "'w \<Rightarrow> (string + unit) \<times> 'w"
  be_validateLayers :: "'w \<Rightarrow> (string + unit) \<times> 'w"
  be_setupSwagger :: "bool \<Rightarrow> 'w \<Rightarrow> (string + unit) \<times> 'w"
  be_scanned :: "'w deploy_hook list"
  be_probe :: "'w \<Rightarrow> nat option \<times> 'w"
  be_pause :: "nat \<Rightarrow> 'w \<Rightarrow> 'w"

definition validateBootOptions :: "'w boot_env \<Rightarrow> 'w boot_options \<Rightarrow> string + 'w boot_options" where
  "validateBootOptions E o1 = (case be_validate E o1 of
     (Some messages, _) \<Rightarrow> Inl (''[nestjs-boot] Invalid configuration:'' @ [CHR 0x0A]
       @ js_join [CHR 0x0A] (map (\<lambda>m. ''  - '' @ m) messages))
   | (None, v) \<Rightarrow> Inr v)"

fun and_then :: "(string + 'a) \<times> 'w \<Rightarrow> ('a \<Rightarrow> 'w \<Rightarrow> (string + 'b) \<times> 'w) \<Rightarrow> (string + 'b) \<times> 'w" where
  "and_then (Inl e, w) f = (Inl e, w)"
| "and_then (Inr x, w) f = f x w"

definition env_or :: "'w boot_env \<Rightarrow> string \<Rightarrow> string \<Rightarrow> string" where
  "env_or E name dflt = (case be_process E name of Some v \<Rightarrow> (if v = [] then dflt else v) | None \<Rightarrow> dflt)"

definition deploy_ctx :: "'w boot_env \<Rightarrow> deploy_phase \<Rightarrow> deploy_context" where
  "deploy_ctx E phase = \<lparr>dc_phase = phase, dc_environment = env_or E ''NODE_ENV'' ''development'', dc_version = env_or E ''APP_VERSION'' ''0.0.0''\<rparr>"

definition pre_start :: "'w boot_env \<Rightarrow> 'w boot_options \<Rightarrow> 'w \<Rightarrow> (string + unit) \<times> 'w" where
  "pre_start E v w = (case bo_deploy v of
     None \<Rightarrow> (Inr (), w)
   | Some d \<Rightarrow> if do_enabled d = Some False then (Inr (), w)
       else (let required = or_else (do_requiredEnvVars d) [];
                 builtin = (if required \<noteq> [] then registerHook (env_validation_hook (be_process E) required) [] else []);
                 hooks = fold (\<lambda>hook hs. if dh_phase hook = PreStart then registerHook hook hs else hs) (or_else (do_hooks d) []) builtin
             in executePhase PreStart (deploy_ctx E PreStart) hooks w))"

definition enable_versioning :: "'w boot_options \<Rightarrow> boot_app \<Rightarrow> boot_app" where
  "enable_versioning v app = (case bo_versioning v of
     None \<Rightarrow> app
   | Some s \<Rightarrow> app\<lparr>ba_versioning := Some \<lparr>vs_type = Some (or_else (vs_type s) ''uri''),
       vs_defaultVersion = (if vs_defaultVersion s = Some [] then None else vs_defaultVersion s),
       vs_header = (if vs_type s = Some ''header'' \<and> vs_header s \<noteq> Some [] then vs_header s else None),
       vs_mediaTypeKey = (if vs_type s = Some ''media-type'' \<and> vs_mediaTypeKey s \<noteq> Some [] then vs_mediaTypeKey s else None)\<rparr>\<rparr>)"

definition use_interceptor :: "string \<Rightarrow> boot_app \<Rightarrow> boot_app" where
  "use_interceptor i app = app\<lparr>ba_interceptors := ba_interceptors app @ [i]\<rparr>"

definition use_filter :: "string \<Rightarrow> boot_app \<Rightarrow> boot_app" where
  "use_filter f app = app\<lparr>ba_filters := ba_filters app @ [f]\<rparr>"

definition in_flight :: "'w boot_env \<Rightarrow> 'w boot_options \<Rightarrow> boot_app \<Rightarrow> boot_app" where
  "in_flight E v app = (if bo_shutdown v \<and> be_provides E ''InFlightTracker'' then use_interceptor ''InFlightInterceptor'' app else app)"

fun plugin_globals :: "'w plugin list \<Rightarrow> 'w \<Rightarrow> (string + unit) \<times> 'w" where
  "plugin_globals [] w = (Inr (), w)"
| "plugin_globals (p # ps) w = (case pl_applyGlobals p of None \<Rightarrow> plugin_globals ps w | Some f \<Rightarrow> and_then (f w) (\<lambda>_. plugin_globals ps))"

definition applyGlobals :: "'w boot_env \<Rightarrow> 'w boot_options \<Rightarrow> 'w plugin_registry \<Rightarrow> boot_app \<Rightarrow> 'w \<Rightarrow> (string + boot_app) \<times> 'w" where
  "applyGlobals E v registry app w =
     (let app = (if map_option rs_envelope (bo_response v) = Some True then use_interceptor ''ResponseInterceptor'' app else app);
          app = (if bo_timeout v then use_interceptor ''TimeoutInterceptor'' app else app);
          app = (if bo_metrics v \<noteq> None \<and> be_provides E ''HttpMetricsInterceptor'' then use_interceptor ''HttpMetricsInterceptor'' app else app);
          app = (if bo_logging v \<noteq> None \<and> be_provides E ''LoggingInterceptor'' then use_interceptor ''LoggingInterceptor'' app else app);
          app = (if bo_errorReporter v then app\<lparr>ba_errorReporter := True\<rparr> else app);
          app = (if Option.bind (bo_response v) rs_errorHandler \<noteq> Some False then use_filter ''AllExceptionsFilter'' app else app);
          app = (if bo_transport v \<noteq> None \<and> be_provides E ''BootRpcExceptionFilter'' then use_filter ''BootRpcExceptionFilter'' app else app)
      in and_then (plugin_globals (pr_plugins registry) w) (\<lambda>_ w. (Inr app, w)))"

text \<open>The phases after the start stand in one \<open>try\<close> whose errors are dropped.\<close>

definition late_phases :: "'w boot_env \<Rightarrow> 'w boot_options \<Rightarrow> 'w \<Rightarrow> 'w" where
  "late_phases E v w = (case bo_deploy v of
     None \<Rightarrow> w
   | Some d \<Rightarrow> if do_enabled d = Some False \<or> \<not> be_provides E ''DeployService'' then w
       else (let hooks = fold (\<lambda>hook hs. if dh_phase hook \<noteq> PreStart then registerHook hook hs else hs) (or_else (do_hooks d) []) (be_scanned E);
                 hooks = (case do_readinessDelay d of None \<Rightarrow> hooks
                   | Some delay \<Rightarrow> registerHook (readiness_gate_hook (be_probe E) (be_pause E)
                       \<lparr>gt_maxAttempts = None, gt_intervalMs = None, gt_delayMs = Some delay\<rparr>) hooks)
             in snd (and_then (executePhase PostStart (deploy_ctx E PostStart) hooks w)
                  (\<lambda>_. executePhase HealthGate (deploy_ctx E HealthGate) hooks))))"

definition new_app :: "boot_import list \<Rightarrow> boot_app" where
  "new_app imported = \<lparr>ba_imports = imported, ba_versioning = None, ba_bootLogger = False, ba_interceptors = [], ba_filters = [],
     ba_errorReporter = False, ba_shutdownHooks = False\<rparr>"

definition set_logger :: "'w boot_env \<Rightarrow> 'w boot_options \<Rightarrow> boot_app \<Rightarrow> string + boot_app" where
  "set_logger E v app = (if bo_logging v = None then Inr app
     else if be_provides E ''BootLogger'' then Inr (app\<lparr>ba_bootLogger := True\<rparr>) else Inl ''UnknownElementException: BootLogger'')"

definition boot_checked :: "'w boot_env \<Rightarrow> 'w boot_options \<Rightarrow> 'w \<Rightarrow> (string + boot_app) \<times> 'w" where
  "boot_checked E v w =
     and_then (if bo_tracing v \<noteq> None then be_initTracing E w else (Inr (), w)) (\<lambda>_ w.
     and_then (pre_start E v w) (\<lambda>_ w.
     and_then (buildBootModule v no_plugins, w) (\<lambda>(imported, registry) w.
     and_then (be_create E imported w) (\<lambda>_ w.
     and_then (set_logger E v (enable_versioning v (new_app imported)), w) (\<lambda>app w.
     and_then (applyGlobals E v registry (in_flight E v app) w) (\<lambda>app w.
     and_then (if bo_transport v \<noteq> None then be_connectTransports E w else (Inr (), w)) (\<lambda>_ w.
     and_then (if bo_layers v then be_validateLayers E w else (Inr (), w)) (\<lambda>_ w.
     and_then (if bo_swagger v then be_setupSwagger E (bo_auth v \<noteq> None) w else (Inr (), w)) (\<lambda>_ w.
     (Inr (app\<lparr>ba_shutdownHooks := bo_shutdown v\<rparr>), late_phases E v w))))))))))"

definition createApp :: "'w boot_env \<Rightarrow> 'w boot_options \<Rightarrow> 'w \<Rightarrow> (string + boot_app) \<times> 'w" where
  "createApp E o1 w = (case validateBootOptions E o1 of Inl e \<Rightarrow> (Inl e, w) | Inr v \<Rightarrow> boot_checked E v w)"

section \<open>The summary of the configuration\<close>

definition tick :: "bool \<Rightarrow> string" where
  "tick b = (if b then [CHR 0xE2, CHR 0x9C, CHR 0x93] else [CHR 0xE2, CHR 0x9C, CHR 0x97])"

definition nonempty_or :: "string option \<Rightarrow> string \<Rightarrow> string" where
  "nonempty_or s dflt = (case s of Some x \<Rightarrow> (if x = [] then dflt else x) | None \<Rightarrow> dflt)"

definition logConfigSummary :: "'w boot_options \<Rightarrow> string" where
  "logConfigSummary v = js_join [CHR 0x0A] (
     [''Config summary:'']
     @ [case bo_database v of None \<Rightarrow> ''  Database: not configured''
        | Some names \<Rightarrow> ''  Database: '' @ js_of_nat (length names) @ '' connection(s) ['' @ js_join '', '' names @ '']'']
     @ [let redis = (map_option cs_redis (bo_cache v) = Some True); memcached = (map_option cs_memcached (bo_cache v) = Some True)
        in (if redis \<or> memcached then ''  Cache: Redis '' @ tick redis @ '', Memcached '' @ tick memcached else ''  Cache: not configured'')]
     @ [let jwt = (map_option as_jwt (bo_auth v) = Some True); apiKey = (map_option as_apiKey (bo_auth v) = Some True)
        in (if jwt \<or> apiKey then ''  Auth: JWT '' @ tick jwt @ '', API Key '' @ tick apiKey else ''  Auth: not configured'')]
     @ [case bo_transport v of None \<Rightarrow> ''  Transport: HTTP only''
        | Some ts \<Rightarrow> ''  Transport: '' @ js_join '' + '' ([''HTTP''] @ (if ts_grpc ts then [''gRPC''] else [])
            @ (if ts_tcp ts then [''TCP''] else []) @ (if ts_nats ts then [''NATS''] else []) @ (if ts_rabbitmq ts then [''RabbitMQ''] else []))]
     @ [''  Health: '' @ (if health_on v then nonempty_or (Option.bind (bo_health v) hs_path) ''/health'' else tick False @ '' disabled'')]
     @ (case bo_metrics v of None \<Rightarrow> [] | Some p \<Rightarrow> [''  Metrics: '' @ nonempty_or p ''/metrics''])
     @ (case bo_tracing v of None \<Rightarrow> [] | Some exporter \<Rightarrow> [''  Tracing: '' @ exporter @ '' exporter''])
     @ (case bo_logging v of None \<Rightarrow> [] | Some level \<Rightarrow> [''  Logging: pino (level: '' @ nonempty_or level ''info'' @ '')''])
     @ (case bo_queue v of None \<Rightarrow> [] | Some driver \<Rightarrow> [''  Queue: '' @ driver])
     @ (case bo_events v of None \<Rightarrow> [] | Some transport \<Rightarrow> [''  Events: '' @ transport])
     @ (case bo_versioning v of None \<Rightarrow> []
        | Some s \<Rightarrow> [''  Versioning: '' @ or_else (vs_type s) ''uri'' @ '' (default v'' @ or_else (vs_defaultVersion s) ''1'' @ '')''])
     @ (case bo_tenancy v of None \<Rightarrow> []
        | Some (strategy, isolation) \<Rightarrow> [''  Tenancy: '' @ strategy @ '' strategy / '' @ or_else isolation ''row'' @ '' isolation'']))"


section \<open>Plugins own their keys\<close>

definition registry_of :: "'w plugin list \<Rightarrow> 'w plugin_registry" where
  "registry_of ps = \<lparr>pr_plugins = ps, pr_byConfigKey = map (\<lambda>p. (pl_configKey p, p)) ps\<rparr>"

lemma registry_of_Nil: "no_plugins = registry_of []"
  by (simp add: no_plugins_def registry_of_def)

lemma registry_get: "jm_get (pr_byConfigKey (registry_of ps)) key = None \<longleftrightarrow> key \<notin> pl_configKey ` set ps"
  by (simp add: registry_of_def map_of_eq_None_iff image_image)

lemma registry_set: "key \<notin> pl_configKey ` set ps \<Longrightarrow> jm_set (map (\<lambda>p. (pl_configKey p, p)) ps) key p = map (\<lambda>p. (pl_configKey p, p)) ps @ [(key, p)]"
  by (induction ps) auto

lemma register_step:
  "plugin_register p (registry_of ps) = Inr r \<longleftrightarrow> pl_configKey p \<notin> pl_configKey ` set ps \<and> r = registry_of (ps @ [p])"
  using registry_get[of ps "pl_configKey p"]
  by (auto simp: plugin_register_def registry_set split: option.split) (auto simp: registry_of_def registry_set)

lemma register_plugins_ok:
  "distinct (map pl_configKey qs) \<Longrightarrow>
     register_plugins ps (registry_of qs) = Inr r \<longleftrightarrow> distinct (map pl_configKey (qs @ ps)) \<and> r = registry_of (qs @ ps)"
proof (induction ps arbitrary: qs)
  case (Cons p ps)
  show ?case
  proof (cases "pl_configKey p \<in> pl_configKey ` set qs")
    case True
    then obtain e where "plugin_register p (registry_of qs) = Inl e" using register_step[of p qs] by (cases "plugin_register p (registry_of qs)") auto
    with True show ?thesis by auto
  next
    case False
    then have "plugin_register p (registry_of qs) = Inr (registry_of (qs @ [p]))" using register_step by blast
    then show ?thesis using Cons.IH[of "qs @ [p]"] Cons.prems False by simp
  qed
qed auto

text \<open>The modules of an application are fixed by its options: the configuration first, the configured infrastructure, each
  plugin whose key is configured in the order of registration, the module of the user last. There is no application when two
  plugins claim one key.\<close>

theorem boot_modules:
  "buildBootModule v no_plugins = Inr (imported, r) \<longleftrightarrow>
     distinct (map pl_configKey (or_else (bo_plugins v) [])) \<and> r = registry_of (or_else (bo_plugins v) [])
     \<and> imported = BootConfig # map Infra (infra_imports v)
         @ map (External \<circ> pl_name) (filter (\<lambda>p. pl_configKey p \<in> set (present_keys v)) (or_else (bo_plugins v) [])) @ [UserModule]"
  using register_plugins_ok[of "[]" "or_else (bo_plugins v) []" r]
  by (cases "register_plugins (or_else (bo_plugins v) []) no_plugins")
     (auto simp: buildBootModule_def registry_of_Nil registry_of_def comp_def)

section \<open>Hooks\<close>

lemma run_hooks_append: "run_hooks ctx (hs @ hs') w = and_then (run_hooks ctx hs w) (\<lambda>_. run_hooks ctx hs')"
  by (induction hs arbitrary: w) (auto split: prod.split sum.split)

lemma least_first: "(\<And>y. y \<in> set xs \<Longrightarrow> f x \<le> f y) \<Longrightarrow> sort_key f (x # xs) = x # sort_key f xs" for f :: "'a \<Rightarrow> 'b::linorder"
  by (simp add: insort_is_Cons)

lemma fold_register: "fold (\<lambda>h hs. if P h then registerHook h hs else hs) hooks builtin = builtin @ filter P hooks"
  by (induction hooks arbitrary: builtin) (auto simp: registerHook_def)


definition bare_options :: "nat deploy_options \<Rightarrow> nat boot_options" where
  "bare_options d = \<lparr>bo_database = None, bo_cache = None, bo_response = None, bo_health = None, bo_auth = None, bo_correlation = False,
     bo_shutdown = False, bo_transport = None, bo_interServiceAuth = False, bo_metrics = None, bo_logging = None, bo_tracing = None,
     bo_timeout = False, bo_queue = None, bo_events = None, bo_cqrs = False, bo_deploy = Some d, bo_alerts = False, bo_versioning = None,
     bo_tenancy = None, bo_websocket = False, bo_webhooks = False, bo_content = False, bo_storage = False, bo_swagger = False,
     bo_layers = False, bo_errorReporter = False, bo_plugins = None, bo_other = []\<rparr>"

definition counting_hook :: "int option \<Rightarrow> nat deploy_hook" where
  "counting_hook order = \<lparr>dh_name = ''count'', dh_phase = PreStart, dh_order = order, dh_execute = (\<lambda>_ n. (Inr (), Suc n))\<rparr>"

definition two_variables :: "nat deploy_options" where
  "two_variables = \<lparr>do_enabled = None, do_requiredEnvVars = Some [''HOME'', ''KEY''], do_readinessDelay = None, do_hooks = Some [counting_hook None]\<rparr>"

definition calm_env :: "nat boot_env" where
  "calm_env = \<lparr>be_validate = (\<lambda>o1. (None, o1)), be_process = (\<lambda>name. if name = ''HOME'' then Some ''/'' else None),
     be_initTracing = (\<lambda>n. (Inr (), n)), be_create = (\<lambda>_ n. (Inr (), n)), be_provides = (\<lambda>_. True), be_connectTransports = (\<lambda>n. (Inr (), n)),
     be_validateLayers = (\<lambda>n. (Inr (), n)), be_setupSwagger = (\<lambda>_ n. (Inr (), n)), be_scanned = [], be_probe = (\<lambda>n. (Some 200, n)),
     be_pause = (\<lambda>_ n. n)\<rparr>"


definition without_late :: "'w boot_options \<Rightarrow> 'w boot_options" where
  "without_late v = v\<lparr>bo_deploy := map_option (\<lambda>d. d\<lparr>do_hooks := map_option (filter (\<lambda>h. dh_phase h = PreStart)) (do_hooks d),
     do_readinessDelay := None\<rparr>) (bo_deploy v)\<rparr>"

lemma fst_and_then: "(\<And>x w. fst (f x w) = fst (g x w)) \<Longrightarrow> fst (and_then r f) = fst (and_then r g)"
  by (cases r; cases "fst r") auto

lemma without_late_keeps:
  "pre_start E (without_late v) = pre_start E v" "present_keys (without_late v) = present_keys v"
  "infra_imports (without_late v) = infra_imports v" "buildBootModule (without_late v) = buildBootModule v"
proof -
  show *: "present_keys (without_late v) = present_keys v" "infra_imports (without_late v) = infra_imports v"
    by (simp_all add: present_keys_def infra_imports_def without_late_def health_on_def deploy_on_def option.case_eq_if bind_map_option
        split: Option.bind_split)
  show "buildBootModule (without_late v) = buildBootModule v" unfolding buildBootModule_def fun_eq_iff * by (simp add: without_late_def)
  show "pre_start E (without_late v) = pre_start E v"
    by (cases "bo_deploy v"; cases "do_hooks (the (bo_deploy v))")
       (auto simp: pre_start_def without_late_def fun_eq_iff fold_register or_else_def)
qed

text \<open>Hooks of the phases after the start never decide whether the application starts or how it is built: without them and
  without the readiness gate the result is the same, error or application.\<close>

theorem late_hooks_decide_nothing: "fst (boot_checked E v w) = fst (boot_checked E (without_late v) w)"
proof -
  have same: "bo_tracing (without_late v) = bo_tracing v" "bo_transport (without_late v) = bo_transport v" "bo_layers (without_late v) = bo_layers v"
    "bo_swagger (without_late v) = bo_swagger v" "bo_auth (without_late v) = bo_auth v" "bo_shutdown (without_late v) = bo_shutdown v"
    "set_logger E (without_late v) = set_logger E v" "enable_versioning (without_late v) = enable_versioning v"
    "applyGlobals E (without_late v) = applyGlobals E v" "in_flight E (without_late v) = in_flight E v"
    by (simp_all add: without_late_def set_logger_def enable_versioning_def applyGlobals_def in_flight_def fun_eq_iff)
  show ?thesis unfolding boot_checked_def same without_late_keeps
    by (intro fst_and_then) (auto intro!: fst_and_then)
qed

end
