(* ===== verification/Propagation.thy ===== *)
theory Propagation
  imports Js_Text
begin

text \<open>
  What one service hands to the next: correlation identifiers (\<open>correlation/\<close>), credentials (\<open>inter-service-auth/\<close>) and the metadata
  of a message (\<open>transport/service-client.ts\<close>). The stores behind \<open>AsyncLocalStorage\<close> are arguments, absent outside of a request.
  Headers are a map of texts; an incoming request has the names of its headers in lower case.
\<close>

type_synonym headers = "(string, string) jsmap"

section \<open>Correlation identifiers\<close>

definition CORRELATION_HEADER :: string where
  "CORRELATION_HEADER = ''X-Correlation-Id''"

record correlation_options =
  co_header :: "string option"
  co_generator :: "(unit \<Rightarrow> string) option"

record correlation_store =
  co_correlationId :: string
  co_traceparent :: "string option"

text \<open>The middleware yields the headers of the answer and the store of the request; \<open>uuid\<close> is the fresh identifier.\<close>

definition correlation_use :: "correlation_options option \<Rightarrow> string \<Rightarrow> headers \<Rightarrow> headers \<Rightarrow> headers \<times> correlation_store" where
  "correlation_use options uuid request response =
     (let name = or_else (Option.bind options co_header) CORRELATION_HEADER;
          incoming = jm_get request (to_lower name);
          cid = (if incoming \<noteq> None \<and> incoming \<noteq> Some [] then the incoming
            else (case Option.bind options co_generator of Some g \<Rightarrow> g () | None \<Rightarrow> uuid))
      in (jm_set response name cid, \<lparr>co_correlationId = cid, co_traceparent = jm_get request ''traceparent''\<rparr>))"

definition getCorrelationId :: "correlation_store option \<Rightarrow> string option" where
  "getCorrelationId store = map_option co_correlationId store"

definition setCorrelationId :: "string \<Rightarrow> correlation_store option \<Rightarrow> correlation_store option" where
  "setCorrelationId i store = map_option (\<lambda>s. s\<lparr>co_correlationId := i\<rparr>) store"

definition getTraceparent :: "correlation_store option \<Rightarrow> string option" where
  "getTraceparent store = Option.bind store co_traceparent"

text \<open>\<open>http\<close> tells whether the request came over HTTP.\<close>

definition correlation_intercept :: "correlation_store option \<Rightarrow> bool \<Rightarrow> headers \<Rightarrow> headers" where
  "correlation_intercept store http response = (case getCorrelationId store of
     None \<Rightarrow> response
   | Some cid \<Rightarrow> if cid \<noteq> [] \<and> http then jm_set response CORRELATION_HEADER cid else response)"

definition withCorrelationId :: "correlation_store option \<Rightarrow> json_record \<Rightarrow> json_record" where
  "withCorrelationId store metadata = (case getCorrelationId store of
     None \<Rightarrow> metadata | Some cid \<Rightarrow> if cid = [] then metadata else jm_set metadata ''correlationId'' (JStr cid))"

section \<open>Credentials\<close>

datatype propagation_kind = Jwt_only | Api_key_only | Both

record auth_options =
  ao_propagation :: propagation_kind
  ao_serviceToken :: "string option"
  ao_headerName :: "string option"
  ao_apiKeyHeaderName :: "string option"

record auth_context =
  ac_token :: "string option"
  ac_apiKey :: "string option"
  ac_metadata :: "headers option"

definition DEFAULT_AUTH_HEADER :: string where "DEFAULT_AUTH_HEADER = ''Authorization''"
definition DEFAULT_API_KEY_HEADER :: string where "DEFAULT_API_KEY_HEADER = ''x-api-key''"

definition present_text :: "string option \<Rightarrow> bool" where
  "present_text x \<longleftrightarrow> x \<noteq> None \<and> x \<noteq> Some []"

definition setAuthContext :: "auth_context \<Rightarrow> auth_context option \<Rightarrow> auth_context option" where
  "setAuthContext new store = map_option (\<lambda>s. s
     \<lparr>ac_token := (if ac_token new \<noteq> None then ac_token new else ac_token s),
      ac_apiKey := (if ac_apiKey new \<noteq> None then ac_apiKey new else ac_apiKey s),
      ac_metadata := (case ac_metadata new of None \<Rightarrow> ac_metadata s
        | Some m \<Rightarrow> Some (foldl (\<lambda>acc (k, v). jm_set acc k v) (or_else (ac_metadata s) []) m))\<rparr>) store"

definition auth_header_name :: "auth_options option \<Rightarrow> string" where
  "auth_header_name options = or_else (Option.bind options ao_headerName) DEFAULT_AUTH_HEADER"

definition api_key_header_name :: "auth_options option \<Rightarrow> string" where
  "api_key_header_name options = or_else (Option.bind options ao_apiKeyHeaderName) DEFAULT_API_KEY_HEADER"

definition buildAuthHeaders :: "auth_options option \<Rightarrow> auth_context option \<Rightarrow> headers" where
  "buildAuthHeaders options store = (case store of
     None \<Rightarrow> (if present_text (Option.bind options ao_serviceToken)
       then [(auth_header_name options, ''Bearer '' @ the (Option.bind options ao_serviceToken))] else [])
   | Some ctx \<Rightarrow>
       (let h = (if present_text (ac_token ctx) then jm_set [] (auth_header_name options) (''Bearer '' @ the (ac_token ctx)) else []);
            h = (if present_text (ac_apiKey ctx) then jm_set h (api_key_header_name options) (the (ac_apiKey ctx)) else h)
        in foldl (\<lambda>h (k, v). jm_set h k v) h (or_else (ac_metadata ctx) [])))"

definition opt_json :: "string \<Rightarrow> string option \<Rightarrow> json_record" where
  "opt_json key v = (case v of None \<Rightarrow> [] | Some x \<Rightarrow> [(key, JStr x)])"

definition injectAuthIntoPayload :: "auth_options option \<Rightarrow> auth_context option \<Rightarrow> json_record \<Rightarrow> json_record" where
  "injectAuthIntoPayload options store data =
     (if store = None \<and> \<not> present_text (Option.bind options ao_serviceToken) then data
      else let userToken = Option.bind store ac_token;
               tok = (if userToken \<noteq> None then userToken else Option.bind options ao_serviceToken)
        in jm_set data ''__auth'' (JObj (opt_json ''token'' tok @ opt_json ''apiKey'' (Option.bind store ac_apiKey)
             @ (case Option.bind store ac_metadata of None \<Rightarrow> [] | Some m \<Rightarrow> [(''metadata'', JObj (map (\<lambda>(k, v). (k, JStr v)) m))]))))"

text \<open>The interceptor of an incoming request sets the context of its handler.\<close>

definition auth_intercept :: "auth_options \<Rightarrow> headers \<Rightarrow> auth_context" where
  "auth_intercept options request =
     (let authHeader = to_lower (or_else (ao_headerName options) DEFAULT_AUTH_HEADER);
          apiKeyHeader = to_lower (or_else (ao_apiKeyHeaderName options) DEFAULT_API_KEY_HEADER);
          tok = (if ao_propagation options \<noteq> Api_key_only then (case jm_get request authHeader of
              Some value \<Rightarrow> if starts_with value ''Bearer '' then Some (drop 7 value) else None | None \<Rightarrow> None) else None);
          key = (if ao_propagation options \<noteq> Jwt_only then jm_get request apiKeyHeader else None);
          tok = (if \<not> present_text tok \<and> \<not> present_text key \<and> present_text (ao_serviceToken options) then ao_serviceToken options else tok)
      in \<lparr>ac_token = tok, ac_apiKey = key, ac_metadata = Some []\<rparr>)"

section \<open>Calls\<close>

definition injectAuthMetadata :: "auth_context option \<Rightarrow> json_record \<Rightarrow> json_record" where
  "injectAuthMetadata store metadata =
     (let m = (if present_text (Option.bind store ac_token) then jm_set metadata ''authorization'' (JStr (the (Option.bind store ac_token))) else metadata)
      in if present_text (Option.bind store ac_apiKey) then jm_set m ''apiKey'' (JStr (the (Option.bind store ac_apiKey))) else m)"

definition client_payload :: "correlation_store option \<Rightarrow> auth_context option \<Rightarrow> json_record \<Rightarrow> json_record" where
  "client_payload cs auth data =
     (let metadata = injectAuthMetadata auth (withCorrelationId cs []);
          set_in = (\<lambda>key. case jm_get metadata key of Some v \<Rightarrow> js_truthy v | None \<Rightarrow> False)
      in if set_in ''correlationId'' \<or> set_in ''authorization'' \<or> set_in ''apiKey'' then jm_set data ''__metadata'' (JObj metadata) else data)"

text \<open>\<open>send\<close> is the client of the transport; an event is sent only by a client that can emit.\<close>

definition client_call :: "(string \<Rightarrow> json_record \<Rightarrow> 'w \<Rightarrow> 'r \<times> 'w) \<Rightarrow> correlation_store option \<Rightarrow> auth_context option \<Rightarrow> string
    \<Rightarrow> json_record \<Rightarrow> 'w \<Rightarrow> 'r \<times> 'w" where
  "client_call send cs auth name data w = send name (client_payload cs auth data) w"

definition client_emit :: "(string \<Rightarrow> json_record \<Rightarrow> 'w \<Rightarrow> 'w) option \<Rightarrow> correlation_store option \<Rightarrow> auth_context option \<Rightarrow> string
    \<Rightarrow> json_record \<Rightarrow> 'w \<Rightarrow> 'w" where
  "client_emit emit cs auth event data w = (case emit of None \<Rightarrow> w | Some f \<Rightarrow> f event (client_payload cs auth data) w)"

section \<open>Sockets\<close>

record ws_counters =
  ws_connections :: "(string, nat) jsmap"
  ws_messages :: "(string, nat) jsmap"

definition incrementCounter :: "(string, nat) jsmap \<Rightarrow> string \<Rightarrow> (string, nat) jsmap" where
  "incrementCounter m key = jm_set m key (or_else (jm_get m key) 0 + 1)"

text \<open>The subtraction of natural numbers stops at zero, as \<open>Math.max\<close> does.\<close>

definition trackConnection :: "string \<Rightarrow> ws_counters \<Rightarrow> ws_counters" where
  "trackConnection ns c = c\<lparr>ws_connections := incrementCounter (ws_connections c) ns\<rparr>"

definition untrackConnection :: "string \<Rightarrow> ws_counters \<Rightarrow> ws_counters" where
  "untrackConnection ns c = c\<lparr>ws_connections := jm_set (ws_connections c) ns (or_else (jm_get (ws_connections c) ns) 0 - 1)\<rparr>"

definition ws_intercept :: "bool \<Rightarrow> string option \<Rightarrow> ws_counters \<Rightarrow> ws_counters" where
  "ws_intercept isWs namespace c = (if isWs then c\<lparr>ws_messages := incrementCounter (ws_messages c) (or_else namespace ''/'')\<rparr> else c)"

section \<open>Credentials cross any number of services\<close>

text \<open>One call over HTTP: the headers of the caller, with their names in lower case, through the interceptor of the service called.\<close>

definition auth_hop :: "auth_options \<Rightarrow> auth_context \<Rightarrow> auth_context" where
  "auth_hop options ctx = auth_intercept options (map (\<lambda>(k, v). (to_lower k, v)) (buildAuthHeaders (Some options) (Some ctx)))"

definition names_apart :: "auth_options \<Rightarrow> bool" where
  "names_apart options \<longleftrightarrow> to_lower (auth_header_name (Some options)) \<noteq> to_lower (api_key_header_name (Some options))"

text \<open>A context a request can have: texts are not empty and there are no metadata.\<close>

definition plain_context :: "auth_context \<Rightarrow> bool" where
  "plain_context ctx \<longleftrightarrow> ac_token ctx \<noteq> Some [] \<and> ac_apiKey ctx \<noteq> Some [] \<and> ac_metadata ctx = Some []"

lemma given_iff: "x \<noteq> Some [] \<Longrightarrow> present_text x \<longleftrightarrow> x \<noteq> None"
  by (simp add: present_text_def)

lemma hop_keeps:
  assumes "ao_propagation options = Both" and "names_apart options" and "plain_context ctx"
    and "ac_token ctx \<noteq> None \<or> ac_apiKey ctx \<noteq> None"
  shows "auth_hop options ctx = ctx"
proof (cases "ac_token ctx"; cases "ac_apiKey ctx")
  assume "ac_token ctx = None" "ac_apiKey ctx = None"
  then show ?thesis using assms(4) by simp
qed (use assms in \<open>auto simp: auth_hop_def auth_intercept_def buildAuthHeaders_def plain_context_def names_apart_def present_text_def
    auth_header_name_def api_key_header_name_def Let_def\<close>)

text \<open>The token and the key of a user reach every service of a chain of calls unchanged, and no service token replaces them.\<close>

theorem credentials_cross_services:
  assumes "ao_propagation options = Both" and "names_apart options" and "plain_context ctx"
    and "ac_token ctx \<noteq> None \<or> ac_apiKey ctx \<noteq> None"
  shows "(auth_hop options ^^ n) ctx = ctx"
  by (induction n) (simp_all add: hop_keeps[OF assms])

text \<open>A call made for nobody carries the service token from the first hop on.\<close>

lemma service_token_fills_in:
  assumes "ac_token ctx = None" and "ac_apiKey ctx = None" and "ac_metadata ctx = Some []"
    and "ao_serviceToken options = Some tok" and "tok \<noteq> []"
  shows "ac_token (auth_hop options ctx) = Some tok"
  using assms by (simp add: auth_hop_def auth_intercept_def buildAuthHeaders_def present_text_def Let_def)

text \<open>Metadata do not survive the first hop, and a key among them replaces the header of the credentials.\<close>

lemma metadata_stop: "ac_metadata (auth_hop options ctx) = Some []"
  by (simp add: auth_hop_def auth_intercept_def Let_def)

lemma metadata_override:
  "auth_hop \<lparr>ao_propagation = Both, ao_serviceToken = None, ao_headerName = None, ao_apiKeyHeaderName = None\<rparr>
     \<lparr>ac_token = Some ''user'', ac_apiKey = None, ac_metadata = Some [(''Authorization'', ''Bearer other'')]\<rparr>
   = \<lparr>ac_token = Some ''other'', ac_apiKey = None, ac_metadata = Some []\<rparr>"
  by (simp add: auth_hop_def auth_intercept_def buildAuthHeaders_def present_text_def auth_header_name_def DEFAULT_AUTH_HEADER_def
      DEFAULT_API_KEY_HEADER_def to_lower_def Let_def)

section \<open>Identifiers\<close>

text \<open>An identifier that comes with a request is kept: the answer, the store and the messages sent on carry it.\<close>

theorem correlation_follows_request:
  assumes "jm_get request (to_lower (or_else (Option.bind options co_header) CORRELATION_HEADER)) = Some cid" and "cid \<noteq> []"
    and "correlation_use options uuid request response = (answer, store)"
  shows "jm_get answer (or_else (Option.bind options co_header) CORRELATION_HEADER) = Some cid
    \<and> jm_get (client_payload (Some store) auth data) ''__metadata''
        = Some (JObj (injectAuthMetadata auth [(''correlationId'', JStr cid)]))"
proof -
  have "co_correlationId store = cid" "jm_get answer (or_else (Option.bind options co_header) CORRELATION_HEADER) = Some cid"
    using assms by (auto simp: correlation_use_def Let_def jsmap_simps)
  moreover have "jm_get (injectAuthMetadata auth [(''correlationId'', JStr cid)]) ''correlationId'' = Some (JStr cid)"
    by (simp add: injectAuthMetadata_def Let_def)
  ultimately show ?thesis using assms(2)
    by (simp add: client_payload_def withCorrelationId_def getCorrelationId_def Let_def jsmap_simps)
qed

end
