(* ===== verification/Content_Search.thy ===== *)
theory Content_Search
  imports Content_Chunking
begin

text \<open>
  Search and embeddings of the content module: \<open>content/services/content-search.service.ts\<close>, \<open>services/rag/rag-search.service.ts\<close> and
  \<open>rag-embedding.service.ts\<close>. A statement is a list of texts and numbered places, with blanks between words brought down to one;
  the values go with it, so that what a place means is a lookup. The database and the embedding provider are parameters. Characters
  above 0xFF are left out, and page sizes are positive.
\<close>

section \<open>Statements\<close>

datatype frag = T string | P nat

datatype sql_value = VStr string | VInt int | VNum rat

fun holes :: "frag list \<Rightarrow> nat list" where
  "holes [] = []"
| "holes (T _ # fs) = holes fs"
| "holes (P n # fs) = n # holes fs"

lemma holes_append [simp]: "holes (a @ b) = holes a @ holes b"
  by (induction a rule: holes.induct) simp_all

fun join_frags :: "frag list list \<Rightarrow> frag list" where
  "join_frags [] = []"
| "join_frags [c] = c"
| "join_frags (c # cs) = c @ T '' AND '' # join_frags cs"

lemma holes_join: "set (holes (join_frags cs)) = (\<Union>c\<in>set cs. set (holes c))"
  by (induction cs rule: join_frags.induct) auto

section \<open>Search terms\<close>

definition search_space :: "char \<Rightarrow> bool" where
  "search_space c \<longleftrightarrow> (let n = of_char c :: nat in 9 \<le> n \<and> n \<le> 13 \<or> n = 32 \<or> n = 160)"

definition search_word :: "char \<Rightarrow> bool" where
  "search_word c \<longleftrightarrow> (let n = of_char c :: nat in 48 \<le> n \<and> n \<le> 57 \<or> 65 \<le> n \<and> n \<le> 90 \<or> n = 95 \<or> 97 \<le> n \<and> n \<le> 122 \<or> 192 \<le> n)"

definition sanitize :: "string \<Rightarrow> string" where
  "sanitize query = (let kept = filter (\<lambda>c. search_word c \<or> search_space c) query
     in rev (dropWhile search_space (rev (dropWhile search_space kept))))"

fun words_from :: "string \<Rightarrow> string \<Rightarrow> string list" where
  "words_from word [] = (if word = [] then [] else [word])"
| "words_from word (c # cs) =
     (if search_space c then (if word = [] then [] else [word]) @ words_from [] cs else words_from (word @ [c]) cs)"

definition search_tokens :: "string \<Rightarrow> string" where
  "search_tokens sanitized = js_join '' & '' (map (\<lambda>w. w @ '':*'') (words_from [] sanitized))"

section \<open>Parameters\<close>

record search_params =
  sp_query :: string
  sp_contentTypeId :: "string option"
  sp_locale :: "string option"
  sp_status :: "string option"
  sp_tenantId :: "string option"
  sp_page :: "int option"
  sp_pageSize :: "int option"

record search_options =
  so_enableSearch :: bool
  so_defaultPageSize :: "int option"
  so_threshold :: "rat option"
  so_vectorWeight :: "rat option"

record 'r result_page =
  pg_data :: "'r list"
  pg_total :: int
  pg_page :: int
  pg_pageSize :: int
  pg_totalPages :: int

text \<open>Conditions, values and the number of the next place.\<close>

type_synonym conditions = "frag list list \<times> sql_value list \<times> nat"

definition add_filter :: "string \<Rightarrow> string option \<Rightarrow> conditions \<Rightarrow> conditions" where
  "add_filter col v st = (case st of (cs, vs, idx) \<Rightarrow> (case v of
     None \<Rightarrow> (cs, vs, idx)
   | Some x \<Rightarrow> if x = [] then (cs, vs, idx) else (cs @ [[T (col @ '' = ''), P idx]], vs @ [VStr x], idx + 1)))"

definition quote_sql :: "string \<Rightarrow> string" where
  "quote_sql s = [CHR 0x27] @ s @ [CHR 0x27]"

definition total_pages :: "int \<Rightarrow> int \<Rightarrow> int" where
  "total_pages n pageSize = - ((- n) div pageSize)"

definition page_result :: "'r list \<Rightarrow> int \<Rightarrow> int \<Rightarrow> int \<Rightarrow> 'r result_page" where
  "page_result rows n page pageSize =
     \<lparr>pg_data = rows, pg_total = n, pg_page = page, pg_pageSize = pageSize, pg_totalPages = total_pages n pageSize\<rparr>"

section \<open>Full-text search\<close>

text \<open>\<open>sd_contains\<close> is the search through Prisma with equal columns, a text in the data, a number of rows to skip and one to take.\<close>

record 'r search_db =
  sd_query :: "frag list \<Rightarrow> sql_value list \<Rightarrow> string + 'r list"
  sd_count :: "frag list \<Rightarrow> sql_value list \<Rightarrow> string + int list"
  sd_contains :: "(string \<times> string) list \<Rightarrow> string \<Rightarrow> int \<Rightarrow> int \<Rightarrow> string + 'r list \<times> int"

definition search_conditions :: "search_params \<Rightarrow> conditions" where
  "search_conditions p = add_filter ''e.status'' (sp_status p) (add_filter ''e.locale'' (sp_locale p)
     (add_filter ''e.content_type_id'' (sp_contentTypeId p) (add_filter ''e.tenant_id'' (sp_tenantId p) ([[T ''1=1'']], [], 1))))"

definition ts_vector :: string where
  "ts_vector = ''to_tsvector('simple', unaccent(e.data::text))''"

definition ts_query :: "nat \<Rightarrow> frag list" where
  "ts_query n = [T ''to_tsquery('simple', unaccent('', P n, T ''))'']"

definition ts_match :: "frag list \<Rightarrow> nat \<Rightarrow> nat \<Rightarrow> frag list" where
  "ts_match whereClause q r = [T '' FROM content.content_entries e WHERE ''] @ whereClause
     @ [T ('' AND ('' @ ts_vector @ '' @@ '')] @ ts_query q
     @ [T '' OR similarity(unaccent(e.data::text), unaccent('', P r, T '')) > 0.1)'']"

definition search_sql :: "frag list \<Rightarrow> nat \<Rightarrow> nat \<Rightarrow> nat \<Rightarrow> nat \<Rightarrow> frag list" where
  "search_sql whereClause q r l off =
     [T (''SELECT e.*, ts_rank('' @ ts_vector @ '', '')] @ ts_query q
     @ [T '') AS ts_rank, similarity(unaccent(e.data::text), unaccent('', P r, T '')) AS trgm_rank, '']
     @ [T (''( ts_rank('' @ ts_vector @ '', '')] @ ts_query q
     @ [T '') * 2 + similarity(unaccent(e.data::text), unaccent('', P r, T '')) ) AS combined_rank'']
     @ ts_match whereClause q r @ [T '' ORDER BY combined_rank DESC LIMIT '', P l, T '' OFFSET '', P off]"

definition count_sql :: "frag list \<Rightarrow> nat \<Rightarrow> nat \<Rightarrow> frag list" where
  "count_sql whereClause q r = [T ''SELECT COUNT(*)::int AS total''] @ ts_match whereClause q r"

text \<open>The statement, the one that counts, and the values of the first; the second takes all but the last two.\<close>

definition search_statements :: "search_params \<Rightarrow> string \<Rightarrow> int \<Rightarrow> int \<Rightarrow> frag list \<times> frag list \<times> sql_value list" where
  "search_statements p sanitized pageSize offset = (case search_conditions p of (cs, vs, idx) \<Rightarrow>
     (let whereClause = join_frags cs
      in (search_sql whereClause idx (idx + 1) (idx + 2) (idx + 3), count_sql whereClause idx (idx + 1),
          vs @ [VStr (search_tokens sanitized), VStr sanitized, VInt pageSize, VInt offset])))"

definition given_text :: "string \<Rightarrow> string option \<Rightarrow> (string \<times> string) list" where
  "given_text col v = (case v of None \<Rightarrow> [] | Some x \<Rightarrow> if x = [] then [] else [(col, x)])"

definition fallbackSearch :: "'r search_db \<Rightarrow> search_params \<Rightarrow> int \<Rightarrow> int \<Rightarrow> string + 'r result_page" where
  "fallbackSearch db p page pageSize =
     (case sd_contains db (given_text ''tenantId'' (sp_tenantId p) @ given_text ''contentTypeId'' (sp_contentTypeId p)
         @ given_text ''locale'' (sp_locale p) @ given_text ''status'' (sp_status p)) (sp_query p) ((page - 1) * pageSize) pageSize of
        Inl e \<Rightarrow> Inl e
      | Inr (rows, n) \<Rightarrow> Inr (page_result rows n page pageSize))"

definition search :: "'r search_db \<Rightarrow> search_options \<Rightarrow> search_params \<Rightarrow> string + 'r result_page" where
  "search db opts p =
     (if \<not> so_enableSearch opts then Inr (page_result [] 0 1 25)
      else let page = or_else (sp_page p) 1; pageSize = or_else (sp_pageSize p) (or_else (so_defaultPageSize opts) 25);
               offset = (page - 1) * pageSize; sanitized = sanitize (sp_query p)
        in if sanitized = [] then Inr (page_result [] 0 page pageSize)
           else (case search_statements p sanitized pageSize offset of (sql, countSql, vs) \<Rightarrow>
             (case (sd_query db sql vs, sd_count db countSql (take (length vs - 2) vs)) of
                (Inr rows, Inr counts) \<Rightarrow> Inr (page_result rows (case counts of [] \<Rightarrow> 0 | n # _ \<Rightarrow> n) page pageSize)
              | _ \<Rightarrow> fallbackSearch db p page pageSize)))"

section \<open>Semantic and hybrid search\<close>

definition rag_filters :: "search_params \<Rightarrow> sql_value list \<Rightarrow> conditions" where
  "rag_filters p vs = add_filter ''e.content_type_id'' (sp_contentTypeId p) (add_filter ''e.locale'' (sp_locale p)
     (add_filter ''e.tenant_id'' (sp_tenantId p) ([[T (''e.status = '' @ quote_sql ''PUBLISHED'')]], vs, length vs + 1)))"

definition vector_text :: "string list \<Rightarrow> string" where
  "vector_text v = ''['' @ js_join '','' v @ '']''"

definition semantic_sql :: "frag list \<Rightarrow> nat \<Rightarrow> nat \<Rightarrow> frag list" where
  "semantic_sql whereClause l off =
     [T ''SELECT e.*, MAX(1 - (ce.embedding <=> '', P 1, T ''::vector)) AS score FROM content.content_entries e JOIN content.content_embeddings ce ON ce.entry_id = e.id WHERE '']
     @ whereClause @ [T '' GROUP BY e.id HAVING MAX(1 - (ce.embedding <=> '', P 1, T ''::vector)) >= '', P 2,
       T '' ORDER BY score DESC LIMIT '', P l, T '' OFFSET '', P off]"

definition semantic_count_sql :: "frag list \<Rightarrow> frag list" where
  "semantic_count_sql whereClause =
     [T ''SELECT COUNT(DISTINCT e.id)::int AS total FROM content.content_entries e JOIN content.content_embeddings ce ON ce.entry_id = e.id WHERE '']
     @ whereClause @ [T '' AND (1 - (ce.embedding <=> '', P 1, T ''::vector)) >= '', P 2]"

definition semantic_statements :: "search_options \<Rightarrow> search_params \<Rightarrow> string \<Rightarrow> int \<Rightarrow> int \<Rightarrow> frag list \<times> frag list \<times> sql_value list" where
  "semantic_statements opts p vec pageSize offset =
     (case rag_filters p [VStr vec, VNum (or_else (so_threshold opts) (7 / 10))] of (cs, vs, idx) \<Rightarrow>
       (semantic_sql (join_frags cs) idx (idx + 1), semantic_count_sql (join_frags cs), vs @ [VInt pageSize, VInt offset]))"

text \<open>\<open>provider\<close> gives one vector, a list of printed numbers, for each text; without a vector the destructured value has no \<open>join\<close>.\<close>

definition query_vector :: "(string list \<Rightarrow> string + string list list) \<Rightarrow> string \<Rightarrow> string + string" where
  "query_vector provider query = (case provider [query] of
     Inl e \<Rightarrow> Inl e | Inr [] \<Rightarrow> Inl ''TypeError'' | Inr (v # _) \<Rightarrow> Inr (vector_text v))"

definition semanticSearch :: "'r search_db \<Rightarrow> (string list \<Rightarrow> string + string list list) \<Rightarrow> search_options \<Rightarrow> search_params \<Rightarrow> string + 'r result_page" where
  "semanticSearch db provider opts p =
     (let page = or_else (sp_page p) 1; pageSize = or_else (sp_pageSize p) (or_else (so_defaultPageSize opts) 25); offset = (page - 1) * pageSize
      in case query_vector provider (sp_query p) of
        Inl e \<Rightarrow> Inl e
      | Inr vec \<Rightarrow> (case semantic_statements opts p vec pageSize offset of (sql, countSql, vs) \<Rightarrow>
          (case (sd_query db sql vs, sd_count db countSql (take (length vs - 2) vs)) of
             (Inr rows, Inr counts) \<Rightarrow> Inr (page_result rows (case counts of [] \<Rightarrow> 0 | n # _ \<Rightarrow> n) page pageSize)
           | _ \<Rightarrow> Inr (page_result [] 0 page pageSize))))"

definition hybrid_sql :: "string \<Rightarrow> frag list \<Rightarrow> nat \<Rightarrow> nat \<Rightarrow> frag list" where
  "hybrid_sql threshold whereClause l off =
     [T ''WITH semantic AS ( SELECT ce.entry_id, MAX(1 - (ce.embedding <=> '', P 1, T ''::vector)) AS vector_score FROM content.content_embeddings ce GROUP BY ce.entry_id HAVING MAX(1 - (ce.embedding <=> '',
      P 1, T (''::vector)) >= '' @ threshold @ '' ), keyword AS ( SELECT e.id AS entry_id, ts_rank( '' @ ts_vector @ '', '')] @ ts_query 2
     @ [T '' ) AS keyword_score FROM content.content_entries e WHERE ''] @ whereClause
     @ [T ('' AND '' @ ts_vector @ '' @@ '')] @ ts_query 2
     @ [T '' ) SELECT e.*, (COALESCE(s.vector_score, 0) * '', P 4, T '' + COALESCE(k.keyword_score, 0) * (1 - '', P 4,
        T '')) AS score FROM content.content_entries e LEFT JOIN semantic s ON s.entry_id = e.id LEFT JOIN keyword k ON k.entry_id = e.id WHERE '']
     @ whereClause @ [T '' AND (s.entry_id IS NOT NULL OR k.entry_id IS NOT NULL) ORDER BY score DESC LIMIT '', P l, T '' OFFSET '', P off]"

definition hybrid_statement :: "(rat \<Rightarrow> string) \<Rightarrow> search_options \<Rightarrow> search_params \<Rightarrow> string \<Rightarrow> int \<Rightarrow> int \<Rightarrow> frag list \<times> sql_value list" where
  "hybrid_statement show_num opts p vec pageSize offset =
     (let sanitized = sanitize (sp_query p)
      in case rag_filters p [VStr vec, VStr (search_tokens sanitized), VStr sanitized, VNum (or_else (so_vectorWeight opts) (7 / 10))] of (cs, vs, idx) \<Rightarrow>
        (hybrid_sql (show_num (or_else (so_threshold opts) (7 / 10))) (join_frags cs) idx (idx + 1), vs @ [VInt pageSize, VInt offset]))"

definition hybridSearch :: "(rat \<Rightarrow> string) \<Rightarrow> 'r search_db \<Rightarrow> (string list \<Rightarrow> string + string list list) \<Rightarrow> search_options \<Rightarrow> search_params
    \<Rightarrow> string + 'r result_page" where
  "hybridSearch show_num db provider opts p =
     (let page = or_else (sp_page p) 1; pageSize = or_else (sp_pageSize p) (or_else (so_defaultPageSize opts) 25); offset = (page - 1) * pageSize
      in case query_vector provider (sp_query p) of
        Inl e \<Rightarrow> Inl e
      | Inr vec \<Rightarrow> (case hybrid_statement show_num opts p vec pageSize offset of (sql, vs) \<Rightarrow>
          (case sd_query db sql vs of
             Inl _ \<Rightarrow> Inr (page_result [] 0 page pageSize)
           | Inr rows \<Rightarrow> (let n = (if int (length rows) < pageSize \<and> page = 1 then int (length rows) else int (length rows) + offset + 1)
               in Inr (page_result rows n page pageSize)))))"


section \<open>Embeddings\<close>

record embedding_row =
  er_entry :: string
  er_index :: nat
  er_text :: string
  er_vector :: string
  er_metadata :: "(string, meta_value) jsmap"
  er_tenant :: "string option"

record rag_entry =
  re_id :: string
  re_slug :: string
  re_locale :: string
  re_data :: json_record
  re_published :: bool
  re_typeId :: string
  re_tenantId :: "string option"

text \<open>A chunk without a vector has nothing to join: the rows before it are kept.\<close>

fun insert_chunks :: "string \<Rightarrow> string option \<Rightarrow> text_chunk list \<Rightarrow> string list list \<Rightarrow> embedding_row list \<Rightarrow> (string + unit) \<times> embedding_row list" where
  "insert_chunks entryId tenantId [] vs table = (Inr (), table)"
| "insert_chunks entryId tenantId (c # cs) [] table = (Inl ''TypeError'', table)"
| "insert_chunks entryId tenantId (c # cs) (v # vs) table = insert_chunks entryId tenantId cs vs (table @
     [\<lparr>er_entry = entryId, er_index = tc_index c, er_text = tc_text c, er_vector = vector_text v,
       er_metadata = or_else (tc_metadata c) [], er_tenant = tenantId\<rparr>])"

text \<open>\<open>None\<close> stands for a chunking that does not return.\<close>

definition embedEntry :: "chunker \<Rightarrow> (string list \<Rightarrow> string + string list list) \<Rightarrow> rag_entry list \<Rightarrow> string \<Rightarrow> string option
    \<Rightarrow> embedding_row list \<Rightarrow> ((string + nat) \<times> embedding_row list) option" where
  "embedEntry chunking provider entries entryId tenantId table =
     (case find (\<lambda>e. re_id e = entryId) entries of
        None \<Rightarrow> Some (Inr 0, table)
      | Some entry \<Rightarrow>
          (let table = filter (\<lambda>r. er_entry r \<noteq> entryId) table
           in case extractAndChunk chunking (re_data entry) (Some [(''entryId'', MetaJson (JStr entryId)), (''slug'', MetaJson (JStr (re_slug entry))),
                  (''locale'', MetaJson (JStr (re_locale entry)))]) of
                None \<Rightarrow> None
              | Some chunks \<Rightarrow> Some (if chunks = [] then (Inr 0, table)
                  else case provider (map tc_text chunks) of
                    Inl e \<Rightarrow> (Inl e, table)
                  | Inr vs \<Rightarrow> (case insert_chunks entryId tenantId chunks vs table of
                      (Inl e, table) \<Rightarrow> (Inl e, table) | (Inr _, table) \<Rightarrow> (Inr (length chunks), table)))))"

fun embed_entries :: "(string \<Rightarrow> embedding_row list \<Rightarrow> ((string + nat) \<times> embedding_row list) option) \<Rightarrow> string list \<Rightarrow> nat \<Rightarrow> embedding_row list
    \<Rightarrow> (nat \<times> embedding_row list) option" where
  "embed_entries one [] embedded table = Some (embedded, table)"
| "embed_entries one (i # is) embedded table = (case one i table of
     None \<Rightarrow> None
   | Some (Inl e, table) \<Rightarrow> embed_entries one is embedded table
   | Some (Inr n, table) \<Rightarrow> embed_entries one is (if 0 < n then embedded + 1 else embedded) table)"

definition rag_where :: "string option \<Rightarrow> string option \<Rightarrow> rag_entry \<Rightarrow> bool" where
  "rag_where typeId tenantId e \<longleftrightarrow> re_published e \<and> (\<forall>(col, x) \<in> set (given_text ''t'' typeId). re_typeId e = x)
     \<and> (\<forall>(col, x) \<in> set (given_text ''t'' tenantId). re_tenantId e = Some x)"

definition embedAll :: "chunker \<Rightarrow> (string list \<Rightarrow> string + string list list) \<Rightarrow> rag_entry list \<Rightarrow> string option \<Rightarrow> string option
    \<Rightarrow> embedding_row list \<Rightarrow> ((nat \<times> nat) \<times> embedding_row list) option" where
  "embedAll chunking provider entries typeId tenantId table =
     (let found = filter (rag_where typeId tenantId) entries
      in map_option (\<lambda>(embedded, table). ((length found, embedded), table))
           (embed_entries (\<lambda>i. embedEntry chunking provider entries i tenantId) (map re_id found) 0 table))"

definition rag_stats :: "rag_entry list \<Rightarrow> embedding_row list \<Rightarrow> string option \<Rightarrow> nat \<times> nat \<times> nat" where
  "rag_stats entries table tenantId =
     (let rows = filter (\<lambda>r. \<forall>(col, x) \<in> set (given_text ''t'' tenantId). er_tenant r = Some x) table
      in (length (filter (rag_where None tenantId) entries), card (er_entry ` set rows), length rows))"

section \<open>Search terms are plain\<close>

lemma sanitized_plain: "list_all (\<lambda>c. search_word c \<or> search_space c) (sanitize query)"
  unfolding sanitize_def Let_def list_all_iff by (auto dest!: set_dropWhileD)

lemma words_plain:
  "list_all (\<lambda>c. search_word c \<or> search_space c) cs \<Longrightarrow> list_all search_word word
    \<Longrightarrow> list_all (\<lambda>w. w \<noteq> [] \<and> list_all search_word w) (words_from word cs)"
  by (induction word cs rule: words_from.induct) (auto split: if_splits)

text \<open>Whatever is searched for, the text that goes to \<open>to_tsquery\<close> is a conjunction of prefix terms, each a word of word characters:
  no operator, quote or bracket of the caller reaches it.\<close>

theorem search_terms_are_plain:
  "\<exists>ws. search_tokens (sanitize query) = js_join '' & '' (map (\<lambda>w. w @ '':*'') ws) \<and> list_all (\<lambda>w. w \<noteq> [] \<and> list_all search_word w) ws"
  by (rule exI[of _ "words_from [] (sanitize query)"]) (simp add: search_tokens_def words_plain[OF sanitized_plain])

section \<open>Places and values\<close>

text \<open>What the conditions of a statement bind their columns to.\<close>

fun bound :: "sql_value list \<Rightarrow> frag list list \<Rightarrow> (string \<times> sql_value) list" where
  "bound vs [] = []"
| "bound vs ([T col, P n] # cs) = (col, vs ! (n - 1)) # bound vs cs"
| "bound vs (_ # cs) = bound vs cs"

text \<open>The number of the next place is one more than the values, the places so far are among them, and from \<open>base\<close> on each is used.\<close>

definition aligned :: "nat \<Rightarrow> conditions \<Rightarrow> bool" where
  "aligned base st = (case st of (cs, vs, idx) \<Rightarrow> idx = length vs + 1 \<and> base \<le> length vs \<and> (\<Union>c\<in>set cs. set (holes c)) = {base<..length vs})"

lemma aligned_add: "aligned base st \<Longrightarrow> aligned base (add_filter col v st)"
  by (auto simp: aligned_def add_filter_def split: prod.splits option.splits)

lemma aligned_idx: "aligned base (cs, vs, idx) \<Longrightarrow> idx = length vs + 1 \<and> base \<le> length vs \<and> set (holes (join_frags cs)) = {base<..length vs}"
  by (simp add: aligned_def holes_join)

lemma aligned_search: "aligned 0 (search_conditions p)"
  unfolding search_conditions_def by (intro aligned_add) (simp add: aligned_def)

lemma aligned_rag: "aligned (length vs) (rag_filters p vs)"
  unfolding rag_filters_def by (intro aligned_add) (simp add: aligned_def)

text \<open>Full-text and semantic search use every value they send and send every value they use; the statements that count do so with the
  values that are left when the last two are dropped.\<close>

theorem places_match_values:
  "(case search_statements p sanitized pageSize offset of (sql, countSql, vs) \<Rightarrow>
      set (holes sql) = {1..length vs} \<and> set (holes countSql) = {1..length vs - 2})
   \<and> (case semantic_statements opts p vec pageSize offset of (sql, countSql, vs) \<Rightarrow>
      set (holes sql) = {1..length vs} \<and> set (holes countSql) = {1..length vs - 2})"
proof -
  obtain cs vs idx where s: "search_conditions p = (cs, vs, idx)" by (rule prod_cases3)
  obtain cs' vs' idx' where r: "rag_filters p [VStr vec, VNum (or_else (so_threshold opts) (7 / 10))] = (cs', vs', idx')" by (rule prod_cases3)
  have 1: "idx = length vs + 1" "set (holes (join_frags cs)) = {0<..length vs}"
    using aligned_idx[OF aligned_search[of p, unfolded s]] by simp_all
  have 2: "idx' = length vs' + 1" "2 \<le> length vs'" "set (holes (join_frags cs')) = {2<..length vs'}"
    using aligned_idx[OF aligned_rag[of "[VStr vec, VNum (or_else (so_threshold opts) (7 / 10))]" p, unfolded r]] by (simp_all add: numeral_2_eq_2)
  have 3: "Suc 0 \<le> length vs'" using 2(2) by simp
  show ?thesis
    by (auto simp: search_statements_def semantic_statements_def s r Let_def search_sql_def count_sql_def ts_match_def ts_query_def
        semantic_sql_def semantic_count_sql_def 1 2 3)
qed

text \<open>The hybrid search sends the text of the query as its third value and never uses it.\<close>

lemma hybrid_ignores_third:
  "case hybrid_statement show_num opts p vec pageSize offset of (sql, vs) \<Rightarrow> 3 \<le> length vs \<and> 3 \<notin> set (holes sql)"
proof -
  let ?vs = "[VStr vec, VStr (search_tokens (sanitize (sp_query p))), VStr (sanitize (sp_query p)), VNum (or_else (so_vectorWeight opts) (7 / 10))]"
  obtain cs vs idx where r: "rag_filters p ?vs = (cs, vs, idx)" by (rule prod_cases3)
  have "idx = length vs + 1" "4 \<le> length vs" "set (holes (join_frags cs)) = {4<..length vs}"
    using aligned_idx[OF aligned_rag[of ?vs p, unfolded r]] by (simp_all add: eval_nat_numeral)
  then show ?thesis by (simp add: hybrid_statement_def r Let_def hybrid_sql_def ts_query_def)
qed

lemma bound_append: "bound vs (cs @ ds) = bound vs cs @ bound vs ds"
  by (induction vs cs rule: bound.induct) simp_all

definition filters_bound :: "conditions \<Rightarrow> (string \<times> string) list \<Rightarrow> bool" where
  "filters_bound st fs = (case st of (cs, vs, idx) \<Rightarrow> idx = length vs + 1
     \<and> (\<forall>extra. bound (vs @ extra) cs = map (\<lambda>(c, x). (c @ '' = '', VStr x)) fs))"

lemma filters_bound_add: "filters_bound st fs \<Longrightarrow> filters_bound (add_filter col v st) (fs @ given_text col v)"
  by (auto simp: filters_bound_def add_filter_def given_text_def bound_append nth_append split: prod.splits option.splits)

definition all_filters :: "search_params \<Rightarrow> (string \<times> string) list" where
  "all_filters p = given_text ''e.tenant_id'' (sp_tenantId p) @ given_text ''e.content_type_id'' (sp_contentTypeId p)
     @ given_text ''e.locale'' (sp_locale p) @ given_text ''e.status'' (sp_status p)"

text \<open>Whatever values follow, the conditions of a search bind each column the caller restricts to the caller's text, the
  tenant first, and nothing else.\<close>

theorem search_binds_filters: "filters_bound (search_conditions p) (all_filters p)"
  unfolding search_conditions_def all_filters_def append_assoc[symmetric]
  by (intro filters_bound_add) (use filters_bound_add[of "([[T ''1=1'']], [], 1)" "[]" "''e.tenant_id''" "sp_tenantId p"] in
     \<open>simp add: filters_bound_def\<close>)

section \<open>Embedding an entry\<close>

lemma insert_chunks_all:
  "length vs = length cs \<Longrightarrow> insert_chunks i tenant cs vs table = (Inr (), table @
     map (\<lambda>(c, v). \<lparr>er_entry = i, er_index = tc_index c, er_text = tc_text c, er_vector = vector_text v,
       er_metadata = or_else (tc_metadata c) [], er_tenant = tenant\<rparr>) (zip cs vs))"
  by (induction cs vs arbitrary: table rule: list_induct2') auto

lemma insert_chunks_others:
  "filter (\<lambda>r. er_entry r \<noteq> i) (snd (insert_chunks i tenant cs vs table)) = filter (\<lambda>r. er_entry r \<noteq> i) table"
  by (induction i tenant cs vs table rule: insert_chunks.induct) simp_all

lemma insert_chunks_others':
  "insert_chunks i tenant cs vs (filter (\<lambda>r. er_entry r \<noteq> i) table) = (r, t) \<Longrightarrow> filter (\<lambda>r. er_entry r \<noteq> i) t = filter (\<lambda>r. er_entry r \<noteq> i) table"
  using insert_chunks_others[of i tenant cs vs "filter (\<lambda>r. er_entry r \<noteq> i) table"] by simp

text \<open>Embedding an entry, also when it fails half way, leaves the rows of all other entries as they were, and embedding it again
  gives the same answer and the same rows.\<close>

theorem embedding_replaces_rows:
  assumes "embedEntry chunking provider entries i tenant table = Some (r, table1)"
  shows "filter (\<lambda>e. er_entry e \<noteq> i) table1 = filter (\<lambda>e. er_entry e \<noteq> i) table
    \<and> embedEntry chunking provider entries i tenant table1 = Some (r, table1)"
proof -
  have others: "filter (\<lambda>e. er_entry e \<noteq> i) table1 = filter (\<lambda>e. er_entry e \<noteq> i) table"
    using assms by (auto simp: embedEntry_def Let_def dest: insert_chunks_others' split: option.splits if_splits sum.splits prod.splits)
  then show ?thesis using assms by (auto simp: embedEntry_def Let_def split: option.splits)
qed

end
