(* ===== verification/Api_Fuzz.thy ===== *)
theory Api_Fuzz
  imports Api_Mutations "HOL-Library.Word" "HOL-Library.Multiset"
begin

text \<open>
  Random tests of the API tester (\<open>packages/api-test/src/methods/fuzzing.ts\<close>): the generator of random numbers on a state of 32 bits, the
  values it picks and the scores of the answers. Fractions are exact. A pick past the end of a list is \<open>undefined\<close>; in a string it
  is the text \<open>undefined\<close>. Numbers that are not finite keep their names. Lone surrogates and non-characters are their bytes.
\<close>

unbundle bit_operations_syntax

section \<open>Random numbers\<close>

definition xorshift_new :: "int \<Rightarrow> 32 word" where
  "xorshift_new seed = (let s = word_of_int seed in if s = 0 then 1 else s)"

definition xorshift :: "32 word \<Rightarrow> 32 word" where
  "xorshift s0 = (let s1 = s0 XOR push_bit 13 s0; s2 = s1 XOR signed_drop_bit 17 s1 in s2 XOR push_bit 5 s2)"

definition rng_next :: "32 word \<Rightarrow> rat \<times> 32 word" where
  "rng_next s = (let s' = xorshift s in (of_int (uint s') / 4294967295, s'))"

definition nextInt :: "int \<Rightarrow> int \<Rightarrow> 32 word \<Rightarrow> int \<times> 32 word" where
  "nextInt lo hi s = (case rng_next s of (r, s) \<Rightarrow> (\<lfloor>r * of_int (hi - lo + 1)\<rfloor> + lo, s))"

definition nth_opt :: "'a list \<Rightarrow> int \<Rightarrow> 'a option" where
  "nth_opt xs i = (if 0 \<le> i \<and> i < int (length xs) then Some (xs ! nat i) else None)"

definition rng_pick :: "'a list \<Rightarrow> 32 word \<Rightarrow> 'a option \<times> 32 word" where
  "rng_pick xs s = (case nextInt 0 (int (length xs) - 1) s of (i, s) \<Rightarrow> (nth_opt xs i, s))"

definition ALPHABET :: string where
  "ALPHABET = ''abcdefghijklmnopqrstuvwxyzABCDEFGHIJKLMNOPQRSTUVWXYZ0123456789''"

fun randomString :: "nat \<Rightarrow> 32 word \<Rightarrow> string \<times> 32 word" where
  "randomString 0 s = ([], s)"
| "randomString (Suc n) s = (case rng_pick ALPHABET s of (c, s) \<Rightarrow>
     (case randomString n s of (rest, s) \<Rightarrow> ((case c of None \<Rightarrow> ''undefined'' | Some c \<Rightarrow> [c]) @ rest, s)))"

section \<open>Values\<close>

datatype fuzz_value = FJson json | FNotFinite string | FUndefined

definition STRING_FUZZ :: "string list" where
  "STRING_FUZZ = [[], '' '', [CHR 0x09], [CHR 0x0A], [CHR 0x0D, CHR 0x0A], [CHR 0x00], [CHR 0x00, CHR 0x00, CHR 0x00],
     ''%s%s%s%x%x%x%n%n%n'', ''{{template}}'', ''${injection}'', ''<script>alert(1)</script>'', [CHR 0x27] @ '' OR 1=1 --'',
     [CHR 0x22] @ ''; DROP TABLE users; --'', ''../../../etc/passwd'', replicate 10000 CHR ''A'', [CHR 0xED, CHR 0xA0, CHR 0x80],
     [CHR 0xEF, CHR 0xBF, CHR 0xBE], ''null'', ''undefined'', ''NaN'', ''true'', ''false'',
     ''{'' @ in_quotes ''__proto__'' @ '':{'' @ in_quotes ''polluted'' @ '':true}}'']"

definition NUMBER_FUZZ :: "fuzz_value list" where
  "NUMBER_FUZZ = [FJson (JNum 0), FJson (JNum 0), FJson (JNum 1), FJson (JNum (- 1)), FJson (JNum (1 / 10)), FJson (JNum (- 1 / 10)),
     FJson (JNum MAX_SAFE_INTEGER), FJson (JNum (- MAX_SAFE_INTEGER)), FJson (JNum ((2 ^ 53 - 1) * 2 ^ 971)), FJson (JNum (1 / 2 ^ 1074)),
     FNotFinite ''Infinity'', FNotFinite ''-Infinity'', FNotFinite ''NaN'', FJson (JNum (10 ^ 308)), FJson (JNum (- (10 ^ 308))),
     FJson (JNum (1 / 10 ^ 308)), FJson (JNum 1000000000000000000000), FJson (JNum 3735928559)]"

definition or_undefined :: "fuzz_value option \<Rightarrow> fuzz_value" where
  "or_undefined v = or_else v FUndefined"

text \<open>The innermost object is made last; writing \<open>__proto__\<close> gives the object another prototype and no field.\<close>

fun nested_objects :: "nat \<Rightarrow> nat \<Rightarrow> 32 word \<Rightarrow> json_record \<times> 32 word" where
  "nested_objects 0 level s = ([], s)"
| "nested_objects (Suc n) level s = (case randomString 10 s of (r, s) \<Rightarrow> (case nested_objects n (Suc level) s of (inner, s) \<Rightarrow>
     ([(''nested'', JObj ([(''level'', JNum (of_nat level)), (''random'', JStr r)] @ inner))], s)))"

fun fuzz_items :: "nat \<Rightarrow> 32 word \<Rightarrow> json list \<times> 32 word" where
  "fuzz_items 0 s = ([], s)"
| "fuzz_items (Suc n) s = (case rng_pick [''string'', ''number'', ''boolean'', ''object''] s of (t, s) \<Rightarrow>
     (case (if t = Some ''string'' then (case nextInt 1 50 s of (k, s) \<Rightarrow> (case randomString (nat k) s of (r, s) \<Rightarrow> ([JStr r], s)))
            else if t = Some ''number'' then (case nextInt (- 1000) 1000 s of (k, s) \<Rightarrow> ([JNum (of_int k)], s))
            else if t = Some ''boolean'' then (case rng_next s of (r, s) \<Rightarrow> ([JBool (1 / 2 < r)], s))
            else if t = Some ''object'' then (case randomString 5 s of (r, s) \<Rightarrow> ([JObj [(''k'', JStr r)]], s))
            else ([], s)) of (item, s) \<Rightarrow>
       (case fuzz_items n s of (rest, s) \<Rightarrow> (item @ rest, s))))"

datatype fuzz_location = In_body | In_query | In_header

record fuzz_field =
  ff_name :: string
  ff_type :: string
  ff_location :: fuzz_location

definition generateFuzzValue :: "fuzz_field \<Rightarrow> 32 word \<Rightarrow> fuzz_value \<times> 32 word" where
  "generateFuzzValue f s =
     (if ff_type f = ''string'' then
        (case rng_next s of (r, s) \<Rightarrow>
           if r < 1 / 2 then (case rng_pick STRING_FUZZ s of (v, s) \<Rightarrow> (or_undefined (map_option (\<lambda>x. FJson (JStr x)) v), s))
           else (case nextInt 1 5000 s of (n, s) \<Rightarrow> (case randomString (nat n) s of (x, s) \<Rightarrow> (FJson (JStr x), s))))
      else if ff_type f = ''number'' then
        (case rng_next s of (r, s) \<Rightarrow>
           if r < 1 / 2 then (case rng_pick NUMBER_FUZZ s of (v, s) \<Rightarrow> (or_undefined v, s))
           else (case rng_next s of (r, s) \<Rightarrow>
             if r < 1 / 2 then (case nextInt (- 1000000) 1000000 s of (n, s) \<Rightarrow> (FJson (JNum (of_int n)), s))
             else (case rng_next s of (r, s) \<Rightarrow> (FJson (JNum (r * 10 ^ 15 - 5 * 10 ^ 14)), s))))
      else if ff_type f = ''boolean'' then
        (case rng_pick [JBool True, JBool False, JNum 0, JNum 1, JStr ''true'', JStr ''false'', JNull, JStr []] s of (v, s) \<Rightarrow>
           (or_undefined (map_option FJson v), s))
      else if ff_type f = ''object'' then
        (case nextInt 1 5 s of (depth, s) \<Rightarrow> (case nested_objects (nat depth) 0 s of (nested, s) \<Rightarrow>
           (case rng_next s of (_, s) \<Rightarrow> (case rng_next s of (r, s) \<Rightarrow>
             (FJson (JObj ([(''fuzz'', JBool True)] @ nested
                @ (if r < 3 / 10 then [(''constructor'', JObj [(''prototype'', JObj [(''isAdmin'', JBool True)])])] else []))), s)))))
      else if ff_type f = ''array'' then
        (case nextInt 0 100 s of (n, s) \<Rightarrow> (case fuzz_items (nat n) s of (xs, s) \<Rightarrow> (FJson (JArr xs), s)))
      else (case randomString 20 s of (x, s) \<Rightarrow> (FJson (JStr x), s)))"

section \<open>Tests\<close>

definition fuzz_string :: "api_env \<Rightarrow> fuzz_value \<Rightarrow> string" where
  "fuzz_string env v = (case v of FJson j \<Rightarrow> av_String env j | FNotFinite n \<Rightarrow> n | FUndefined \<Rightarrow> ''undefined'')"

text \<open>What a body holds once it is printed: numbers that are not finite as \<open>null\<close>, and nothing for \<open>undefined\<close>.\<close>

definition put_body :: "string \<Rightarrow> fuzz_value \<Rightarrow> json_record \<Rightarrow> json_record" where
  "put_body name v body = (case v of FJson j \<Rightarrow> jm_set body name j | FNotFinite _ \<Rightarrow> jm_set body name JNull | FUndefined \<Rightarrow> jm_del body name)"

definition spread_body :: "endpoint_config \<Rightarrow> json_record" where
  "spread_body ep = (case ep_body ep of
     Some (JObj kvs) \<Rightarrow> kvs | Some (JArr xs) \<Rightarrow> zip (map js_of_nat [0..<length xs]) xs | _ \<Rightarrow> [])"

definition fuzz_test :: "api_env \<Rightarrow> api_config \<Rightarrow> endpoint_config \<Rightarrow> fuzz_field \<Rightarrow> fuzz_value \<Rightarrow> string \<Rightarrow> test_case" where
  "fuzz_test env cfg ep f v =
     (let body = (if ff_location f = In_body then put_body (ff_name f) v (spread_body ep) else spread_body ep);
          query = (if ff_location f = In_query then jm_set (or_else (ep_query ep) []) (ff_name f) (fuzz_string env v) else or_else (ep_query ep) []);
          extra = (if ff_location f = In_header then [(ff_name f, fuzz_string env v)] else []);
          modified = ep\<lparr>ep_query := (if query \<noteq> [] then Some query else None)\<rparr>
      in status_test ''edge'' \<lparr>rq_method = ep_method ep, rq_url = buildUrl env cfg modified,
           rq_headers = assign_all (buildHeaders env cfg modified) extra,
           rq_body = (if body \<noteq> [] \<or> ff_location f = In_body then Some (JObj body) else ep_body ep)\<rparr> [200, 201, 400, 422])"

text \<open>A field that is picked past the end has no name to read; the code throws.\<close>

fun fuzz_list :: "api_env \<Rightarrow> api_config \<Rightarrow> endpoint_config \<Rightarrow> fuzz_field list \<Rightarrow> nat \<Rightarrow> 32 word \<Rightarrow> (string \<Rightarrow> test_case) list option" where
  "fuzz_list env cfg ep fs 0 s = Some []"
| "fuzz_list env cfg ep fs (Suc n) s = (case rng_pick fs s of
     (None, _) \<Rightarrow> None
   | (Some f, s) \<Rightarrow> (case generateFuzzValue f s of (v, s) \<Rightarrow> map_option (\<lambda>ts. fuzz_test env cfg ep f v # ts) (fuzz_list env cfg ep fs n s)))"

record fuzz_config =
  fz_endpoint :: endpoint_config
  fz_fields :: "fuzz_field list"
  fz_iterations :: "nat option"
  fz_seed :: "int option"

definition generateFuzzTests :: "api_env \<Rightarrow> fuzz_config \<Rightarrow> api_config \<Rightarrow> nat \<Rightarrow> test_case list option" where
  "generateFuzzTests env fz cfg counter = map_option (with_ids counter ''fuzz'')
     (fuzz_list env cfg (fz_endpoint fz) (fz_fields fz) (or_else (fz_iterations fz) 100) (xorshift_new (or_else (fz_seed fz) 42)))"

section \<open>Scores\<close>

datatype fuzz_severity = HIGH | MEDIUM | LOW | NONE

definition severity_of :: "api_env \<Rightarrow> test_result \<Rightarrow> fuzz_severity" where
  "severity_of env r =
     (if 500 \<le> re_status r then HIGH
      else if 400 \<le> re_status r then (let text = body_text env (re_body r)
        in if sublist ''at '' text \<and> sublist ''.js:'' text then MEDIUM else LOW)
      else NONE)"

primrec severity_order :: "fuzz_severity \<Rightarrow> nat" where
  "severity_order HIGH = 0"
| "severity_order MEDIUM = 1"
| "severity_order LOW = 2"
| "severity_order NONE = 3"

definition scoreFuzzResults :: "api_env \<Rightarrow> test_result list \<Rightarrow> (test_result \<times> fuzz_severity) list" where
  "scoreFuzzResults env rs = sort_key (\<lambda>(r, sev). severity_order sev) (map (\<lambda>r. (r, severity_of env r)) rs)"


section \<open>The generator of numbers\<close>

lemma unit_fraction:
  fixes k :: int
  assumes "0 \<le> k" and "k \<le> 4294967295"
  shows "0 \<le> (of_int k / 4294967295 :: rat) \<and> (of_int k / 4294967295 :: rat) \<le> 1 \<and> ((of_int k / 4294967295 :: rat) = 1 \<longleftrightarrow> k = 4294967295)"
  using assms by simp

lemma uint_all_ones: "uint w = 4294967295 \<longleftrightarrow> w = - 1" for w :: "32 word"
proof -
  have "uint (- 1 :: 32 word) = 4294967295" by (simp add: unsigned_minus_1_eq_mask mask_eq_exp_minus_1)
  then show ?thesis using word_uint_eq_iff by metis
qed

lemma rng_next_unit: "0 \<le> fst (rng_next s) \<and> fst (rng_next s) \<le> 1 \<and> (fst (rng_next s) = 1 \<longleftrightarrow> snd (rng_next s) = - 1)"
proof -
  have u: "0 \<le> uint (xorshift s)" "uint (xorshift s) \<le> 4294967295" using uint_bounded[of "xorshift s"] by simp_all
  show ?thesis unfolding rng_next_def Let_def fst_conv snd_conv using unit_fraction[OF u] unfolding uint_all_ones .
qed

lemma floor_fraction:
  fixes r :: rat
  assumes "0 \<le> r" and "r \<le> 1" and "0 < n"
  shows "0 \<le> \<lfloor>r * of_int n\<rfloor>" and "\<lfloor>r * of_int n\<rfloor> \<le> n" and "\<lfloor>r * of_int n\<rfloor> = n \<longleftrightarrow> r = 1"
proof -
  show "0 \<le> \<lfloor>r * of_int n\<rfloor>" using assms by simp
  have le: "r * of_int n \<le> of_int n" using assms mult_right_mono[of r 1 "of_int n"] by simp
  then show "\<lfloor>r * of_int n\<rfloor> \<le> n" by (simp add: floor_le_iff)
  show "\<lfloor>r * of_int n\<rfloor> = n \<longleftrightarrow> r = 1"
  proof
    assume "\<lfloor>r * of_int n\<rfloor> = n"
    then have "of_int n \<le> r * of_int n" by linarith
    then have "1 \<le> r" using assms(3) by simp
    then show "r = 1" using assms(2) by simp
  qed simp
qed

text \<open>A number drawn between two bounds lies between them, but for the state of all ones, where it is one above the upper bound.\<close>

theorem nextInt_between:
  assumes "lo \<le> hi"
  shows "lo \<le> fst (nextInt lo hi s) \<and> fst (nextInt lo hi s) \<le> hi + 1 \<and> (fst (nextInt lo hi s) = hi + 1 \<longleftrightarrow> snd (rng_next s) = - 1)"
proof -
  have "0 < hi - lo + 1" using assms by simp
  note floor_fraction[OF _ _ this, of "fst (rng_next s)"]
  then show ?thesis using rng_next_unit[of s] by (auto simp: nextInt_def split: prod.split)
qed

text \<open>The middle shift keeps the sign, where the published generator shifts in zeros: from one seed the state is zero after a step and
  stays there, and every later number is zero.\<close>

lemma xorshift_zero: "xorshift 0 = 0"
  by (simp add: xorshift_def)

theorem xorshift_dies: "(xorshift ^^ Suc n) (xorshift_new (- 67100673)) = 0"
proof (induction n)
  case 0
  have "xorshift (word_of_int (- 67100673)) = 0"
    by code_simp
  then show ?case by (simp add: xorshift_new_def Let_def)
next
  case (Suc n)
  then show ?case by (simp add: xorshift_zero)
qed

text \<open>Scoring keeps every result and lists the severe ones first, results of one severity in the order of the run.\<close>

theorem scores_are_ordered:
  "mset (map fst (scoreFuzzResults env rs)) = mset rs
   \<and> sorted (map (\<lambda>(r, sev). severity_order sev) (scoreFuzzResults env rs))
   \<and> filter (\<lambda>(r, sev). sev = c) (scoreFuzzResults env rs) = map (\<lambda>r. (r, c)) (filter (\<lambda>r. severity_of env r = c) rs)"
proof (intro conjI)
  have "mset (scoreFuzzResults env rs) = mset (map (\<lambda>r. (r, severity_of env r)) rs)" by (simp add: scoreFuzzResults_def)
  then have "image_mset fst (mset (scoreFuzzResults env rs)) = image_mset fst (mset (map (\<lambda>r. (r, severity_of env r)) rs))" by simp
  then show "mset (map fst (scoreFuzzResults env rs)) = mset rs" by (simp add: multiset.map_comp comp_def)
  show "sorted (map (\<lambda>(r, sev). severity_order sev) (scoreFuzzResults env rs))" by (simp add: scoreFuzzResults_def)
  have inj: "severity_order a = severity_order b \<longleftrightarrow> a = b" for a b by (cases a; cases b) simp_all
  have "filter (\<lambda>p. (\<lambda>(r, sev). severity_order sev) p = severity_order c) (scoreFuzzResults env rs)
      = filter (\<lambda>p. (\<lambda>(r, sev). severity_order sev) p = severity_order c) (map (\<lambda>r. (r, severity_of env r)) rs)"
    unfolding scoreFuzzResults_def by (rule sort_key_stable)
  moreover have "filter (\<lambda>p. (\<lambda>(r, sev). severity_order sev) p = severity_order c) xs = filter (\<lambda>(r, sev). sev = c) xs"
    for xs :: "(test_result \<times> fuzz_severity) list" by (rule filter_cong) (auto simp: inj)
  moreover have "filter (\<lambda>(r, sev). sev = c) (map (\<lambda>r. (r, severity_of env r)) rs) = map (\<lambda>r. (r, c)) (filter (\<lambda>r. severity_of env r = c) rs)"
    by (induction rs) auto
  ultimately show "filter (\<lambda>(r, sev). sev = c) (scoreFuzzResults env rs) = map (\<lambda>r. (r, c)) (filter (\<lambda>r. severity_of env r = c) rs)" by simp
qed

end
