(* ===== verification/Backend_Accounts.thy ===== *)
theory Backend_Accounts
  imports Auth_Jwt Auth_Login Auth_Roles Audit_Log Db_Repository Js_Text
begin

text \<open>
  The accounts of the backend template (\<open>templates/backend-core/src/\<close>): users (\<open>users/users.service.ts\<close>) and roles
  (\<open>roles/roles.service.ts\<close>). The Prisma client is the parameter \<open>backend_db\<close>, a record of the queries the services make
  on a database \<open>'w\<close>; a query for a row answers it with the relations the services include. The audit service and the privilege
  boundary are those of \<open>Audit_Log\<close> and \<open>Auth_Roles\<close>; dates of creation and change are left out of the rows.
\<close>

section \<open>Rows, errors and the client\<close>

datatype app_error = Not_Found string | Bad_Request string | Unauthorized string | Forbidden string | Conflict string
  | Denied forbidden | Db_Error string

record permission_row =
  bp_id :: string
  bp_code :: string
  bp_name :: string
  bp_resource :: string
  bp_action :: string

record inherited_row =
  ih_code :: string
  ih_name :: string
  ih_permissions :: "permission_row list"

record role_row =
  br_id :: string
  br_code :: string
  br_name :: string
  br_description :: "string option"
  br_level :: int
  br_isSystem :: bool
  br_permissions :: "permission_row list"
  br_inherits :: "inherited_row list"

record member_row =
  bm_organizationId :: string
  bm_departmentId :: "string option"
  bm_teamId :: "string option"
  bm_status :: string

record user_row =
  bu_id :: string
  bu_email :: string
  bu_name :: "string option"
  bu_status :: string
  bu_passwordHash :: string
  bu_emailVerified :: bool
  bu_roles :: "role_row list"
  bu_memberships :: "member_row list"

record user_where =
  uw_search :: "string option"
  uw_status :: "string option"
  uw_role :: "string option"

text \<open>The columns that an update gives.\<close>

record user_changes =
  uc_name :: "string option"
  uc_status :: "string option"
  uc_passwordHash :: "string option"
  uc_emailVerified :: "bool option"

definition no_changes :: user_changes where
  "no_changes = \<lparr>uc_name = None, uc_status = None, uc_passwordHash = None, uc_emailVerified = None\<rparr>"

record role_changes =
  rq_name :: "string option"
  rq_description :: "string option"
  rq_level :: "int option"

record 'w backend_db =
  db_findUsers :: "user_where \<Rightarrow> int \<Rightarrow> int \<Rightarrow> string \<Rightarrow> bool \<Rightarrow> 'w \<Rightarrow> user_row list"
  db_countUsers :: "user_where \<Rightarrow> 'w \<Rightarrow> nat"
  db_userById :: "string \<Rightarrow> 'w \<Rightarrow> user_row option"
  db_userByEmail :: "string \<Rightarrow> 'w \<Rightarrow> user_row option"
  db_createUser :: "string \<Rightarrow> string \<Rightarrow> string option \<Rightarrow> 'w \<Rightarrow> (app_error + user_row) \<times> 'w"
  db_updateUser :: "string \<Rightarrow> user_changes \<Rightarrow> 'w \<Rightarrow> (app_error + user_row) \<times> 'w"
  db_upsertUserRole :: "string \<Rightarrow> string \<Rightarrow> 'w \<Rightarrow> (app_error + unit) \<times> 'w"
  db_deleteUserRole :: "string \<Rightarrow> string \<Rightarrow> 'w \<Rightarrow> (app_error + unit) \<times> 'w"
  db_allRoles :: "'w \<Rightarrow> role_row list"
  db_roleByCode :: "string \<Rightarrow> 'w \<Rightarrow> role_row option"
  db_rolesIn :: "string list \<Rightarrow> 'w \<Rightarrow> role_row list"
  db_createRole :: "string \<Rightarrow> string \<Rightarrow> string option \<Rightarrow> int \<Rightarrow> 'w \<Rightarrow> (app_error + role_row) \<times> 'w"
  db_updateRole :: "string \<Rightarrow> role_changes \<Rightarrow> 'w \<Rightarrow> (app_error + unit) \<times> 'w"
  db_deleteRole :: "string \<Rightarrow> 'w \<Rightarrow> (app_error + unit) \<times> 'w"
  db_allPermissions :: "'w \<Rightarrow> permission_row list"
  db_permissionsIn :: "string list \<Rightarrow> 'w \<Rightarrow> permission_row list"
  db_setRolePermissions :: "string \<Rightarrow> string list \<Rightarrow> 'w \<Rightarrow> (app_error + unit) \<times> 'w"
  db_clearRolePermissions :: "string \<Rightarrow> 'w \<Rightarrow> (app_error + unit) \<times> 'w"
  db_setInheritance :: "string \<Rightarrow> string list \<Rightarrow> 'w \<Rightarrow> (app_error + unit) \<times> 'w"
  db_clearInheritance :: "string \<Rightarrow> 'w \<Rightarrow> (app_error + unit) \<times> 'w"

text \<open>What the services share: the client, the hash and the store of the audit entries, bcrypt and the token package.\<close>

record ('w, 's) backend_env =
  be_db :: "'w backend_db"
  be_sha :: "json audit_entry \<Rightarrow> string"
  be_save :: "json audit_entry \<Rightarrow> 's \<Rightarrow> 's"
  be_hash :: "string \<Rightarrow> string \<Rightarrow> string"
  be_compare :: "string \<Rightarrow> string \<Rightarrow> bool"
  be_jwtLib :: jwt_lib
  be_jwt :: jwt_service

record ('w, 's) backend_app =
  ap_db :: 'w
  ap_audit :: "'s audit_service"
  ap_boundary :: boundary
  ap_tracker :: login_tracker

text \<open>A call of the client on the database of the application.\<close>

definition on_db :: "('w \<Rightarrow> (app_error + 'a) \<times> 'w) \<Rightarrow> ('w, 's) backend_app \<Rightarrow> (app_error + 'a) \<times> ('w, 's) backend_app" where
  "on_db f s = (case f (ap_db s) of (r, w) \<Rightarrow> (r, s\<lparr>ap_db := w\<rparr>))"

definition log_access :: "('w, 's) backend_env \<Rightarrow> int \<Rightarrow> string \<Rightarrow> string \<Rightarrow> string \<Rightarrow> string option \<Rightarrow> json option \<Rightarrow> ('w, 's) backend_app
    \<Rightarrow> ('w, 's) backend_app" where
  "log_access env now actorId action resource resourceId metadata s =
     s\<lparr>ap_audit := audit_logAccess (be_sha env) (be_save env) now actorId action (Some resource) resourceId metadata (ap_audit s)\<rparr>"

section \<open>Users\<close>

record user_profile =
  up_id :: string
  up_email :: string
  up_name :: "string option"
  up_status :: string
  up_emailVerified :: bool
  up_roles :: "role_row list"
  up_memberships :: "member_row list"

text \<open>\<open>const { passwordHash, ...result } = user\<close>, with the active memberships only.\<close>

definition profile_of :: "user_row \<Rightarrow> user_profile" where
  "profile_of u = \<lparr>up_id = bu_id u, up_email = bu_email u, up_name = bu_name u, up_status = bu_status u, up_emailVerified = bu_emailVerified u,
     up_roles = bu_roles u, up_memberships = filter (\<lambda>m. bm_status m = ''ACTIVE'') (bu_memberships u)\<rparr>"

record user_filter =
  uf_search :: "string option"
  uf_status :: "string option"
  uf_role :: "string option"
  uf_page :: "int option"
  uf_limit :: "int option"
  uf_sort :: "string option"

record user_summary =
  sm_id :: string
  sm_email :: string
  sm_name :: "string option"
  sm_status :: string
  sm_roles :: "(string \<times> string \<times> int) list"

definition summary_of :: "user_row \<Rightarrow> user_summary" where
  "summary_of u = \<lparr>sm_id = bu_id u, sm_email = bu_email u, sm_name = bu_name u, sm_status = bu_status u,
     sm_roles = map (\<lambda>r. (br_code r, br_name r, br_level r)) (bu_roles u)\<rparr>"

record user_page =
  upg_items :: "user_summary list"
  upg_total :: nat
  upg_page :: int
  upg_limit :: int
  upg_pages :: int

definition where_of :: "user_filter \<Rightarrow> user_where" where
  "where_of f = (let given = (\<lambda>x. if x = Some [] then None else x)
     in \<lparr>uw_search = given (uf_search f), uw_status = given (uf_status f), uw_role = given (uf_role f)\<rparr>)"

text \<open>The limit is at least 1: the filter is validated before the service sees it.\<close>

definition us_findAll :: "('w, 's) backend_env \<Rightarrow> user_filter \<Rightarrow> ('w, 's) backend_app \<Rightarrow> user_page" where
  "us_findAll env f s =
     (let page = or_else (uf_page f) 1; limit = or_else (uf_limit f) 20;
          parts = js_split CHR '':'' (or_else (uf_sort f) ''createdAt:desc'');
          ascending = (1 < length parts \<and> parts ! 1 = ''asc'');
          users = db_findUsers (be_db env) (where_of f) ((page - 1) * limit) limit (hd parts) ascending (ap_db s);
          total = db_countUsers (be_db env) (where_of f) (ap_db s)
      in \<lparr>upg_items = map summary_of users, upg_total = total, upg_page = page, upg_limit = limit, upg_pages = - ((- int total) div limit)\<rparr>)"

definition us_findById :: "('w, 's) backend_env \<Rightarrow> string \<Rightarrow> ('w, 's) backend_app \<Rightarrow> app_error + user_profile" where
  "us_findById env i s = (case db_userById (be_db env) i (ap_db s) of
     None \<Rightarrow> Inl (Not_Found (''User '' @ i @ '' not found'')) | Some u \<Rightarrow> Inr (profile_of u))"

definition us_assignRole :: "('w, 's) backend_env \<Rightarrow> int \<Rightarrow> string \<Rightarrow> string \<Rightarrow> string list option \<Rightarrow> ('w, 's) backend_app
    \<Rightarrow> (app_error + string) \<times> ('w, 's) backend_app" where
  "us_assignRole env now userId roleCode actorRoles s = (case db_roleByCode (be_db env) roleCode (ap_db s) of
     None \<Rightarrow> (Inl (Not_Found (''Role '' @ roleCode @ '' not found'')), s)
   | Some role \<Rightarrow>
       if actorRoles \<noteq> None \<and> ''super_admin'' \<notin> set (the actorRoles) \<and> roleCode = ''super_admin''
       then (Inl (Forbidden ''Cannot assign super_admin role''), s)
       else then_do (on_db (db_upsertUserRole (be_db env) userId (br_id role)) s) (\<lambda>_ s.
         (Inr (''Role '' @ roleCode @ '' assigned''),
          log_access env now userId ''ROLE_ASSIGNED'' ''user'' (Some userId) (Some (JObj [(''roleCode'', JStr roleCode)])) s)))"

fun assign_roles :: "('w, 's) backend_env \<Rightarrow> int \<Rightarrow> string \<Rightarrow> string list \<Rightarrow> string list option \<Rightarrow> ('w, 's) backend_app
    \<Rightarrow> (app_error + unit) \<times> ('w, 's) backend_app" where
  "assign_roles env now userId [] actorRoles s = (Inr (), s)"
| "assign_roles env now userId (r # rs) actorRoles s =
     then_do (us_assignRole env now userId r actorRoles s) (\<lambda>_ s. assign_roles env now userId rs actorRoles s)"

definition us_create :: "('w, 's) backend_env \<Rightarrow> int \<Rightarrow> string \<Rightarrow> string \<Rightarrow> string \<Rightarrow> string option \<Rightarrow> string list option \<Rightarrow> string list option
    \<Rightarrow> ('w, 's) backend_app \<Rightarrow> (app_error + user_profile) \<times> ('w, 's) backend_app" where
  "us_create env now salt email password name roles actorRoles s =
     (if db_userByEmail (be_db env) email (ap_db s) \<noteq> None then (Inl (Bad_Request ''Email already registered''), s)
      else then_do (on_db (db_createUser (be_db env) email (be_hash env salt password) name) s) (\<lambda>u s.
        then_do (assign_roles env now (bu_id u) (or_else roles []) actorRoles s) (\<lambda>_ s. (us_findById env (bu_id u) s, s))))"

definition us_update :: "('w, 's) backend_env \<Rightarrow> string \<Rightarrow> string option \<Rightarrow> string option \<Rightarrow> ('w, 's) backend_app
    \<Rightarrow> (app_error + user_row) \<times> ('w, 's) backend_app" where
  "us_update env i name status s = (case us_findById env i s of
     Inl e \<Rightarrow> (Inl e, s)
   | Inr _ \<Rightarrow> on_db (db_updateUser (be_db env) i (no_changes\<lparr>uc_name := name, uc_status := status\<rparr>)) s)"

definition us_delete :: "('w, 's) backend_env \<Rightarrow> string \<Rightarrow> string list option \<Rightarrow> ('w, 's) backend_app \<Rightarrow> (app_error + string) \<times> ('w, 's) backend_app" where
  "us_delete env i actorRoles s = (case us_findById env i s of
     Inl e \<Rightarrow> (Inl e, s)
   | Inr user \<Rightarrow>
       if actorRoles \<noteq> None \<and> ''super_admin'' \<notin> set (the actorRoles)
          \<and> (''super_admin'' \<in> br_code ` set (up_roles user) \<or> ''admin'' \<in> br_code ` set (up_roles user))
       then (Inl (Forbidden ''Insufficient privilege to delete this user''), s)
       else then_do (on_db (db_updateUser (be_db env) i (no_changes\<lparr>uc_status := Some ''INACTIVE''\<rparr>)) s) (\<lambda>_ s.
         (Inr ''User deactivated successfully'', s)))"

definition us_removeRole :: "('w, 's) backend_env \<Rightarrow> int \<Rightarrow> string \<Rightarrow> string \<Rightarrow> string list option \<Rightarrow> ('w, 's) backend_app
    \<Rightarrow> (app_error + string) \<times> ('w, 's) backend_app" where
  "us_removeRole env now userId roleCode actorRoles s = (case db_roleByCode (be_db env) roleCode (ap_db s) of
     None \<Rightarrow> (Inl (Not_Found (''Role '' @ roleCode @ '' not found'')), s)
   | Some role \<Rightarrow> then_do (on_db (db_deleteUserRole (be_db env) userId (br_id role)) s) (\<lambda>_ s.
       (Inr (''Role '' @ roleCode @ '' removed''),
        log_access env now userId ''ROLE_REMOVED'' ''user'' (Some userId) (Some (JObj [(''roleCode'', JStr roleCode)])) s)))"

definition role_codes :: "role_row \<Rightarrow> string list" where
  "role_codes r = map bp_code (br_permissions r) @ concat (map (\<lambda>h. map bp_code (ih_permissions h)) (br_inherits r))"

definition us_getUserPermissions :: "('w, 's) backend_env \<Rightarrow> string \<Rightarrow> ('w, 's) backend_app \<Rightarrow> app_error + string \<times> string list" where
  "us_getUserPermissions env userId s = (case db_userById (be_db env) userId (ap_db s) of
     None \<Rightarrow> Inl (Not_Found (''User '' @ userId @ '' not found''))
   | Some user \<Rightarrow> Inr (userId, js_set_of (concat (map role_codes (bu_roles user)))))"

section \<open>Roles\<close>

definition syncBoundary :: "('w, 's) backend_env \<Rightarrow> ('w, 's) backend_app \<Rightarrow> ('w, 's) backend_app" where
  "syncBoundary env s = s\<lparr>ap_boundary := foldl (\<lambda>b r. pb_define b \<lparr>lr_name = br_code r, lr_level = br_level r, lr_inherits = None, lr_permissions = None\<rparr>)
     (ap_boundary s) (db_allRoles (be_db env) (ap_db s))\<rparr>"

definition enforce :: "string list \<Rightarrow> string \<Rightarrow> ('w, 's) backend_app \<Rightarrow> (app_error + unit) \<times> ('w, 's) backend_app" where
  "enforce actorRoles code s = (map_sum Denied id (pb_enforceAssignment (ap_boundary s) actorRoles code), s)"

definition rs_findAll :: "('w, 's) backend_env \<Rightarrow> ('w, 's) backend_app \<Rightarrow> role_row list" where
  "rs_findAll env s = db_allRoles (be_db env) (ap_db s)"

definition rs_findById :: "('w, 's) backend_env \<Rightarrow> string \<Rightarrow> ('w, 's) backend_app \<Rightarrow> app_error + role_row" where
  "rs_findById env code s = (case db_roleByCode (be_db env) code (ap_db s) of
     None \<Rightarrow> Inl (Not_Found (''Role '' @ code @ '' not found'')) | Some role \<Rightarrow> Inr role)"

definition missing_codes :: "string list \<Rightarrow> string list \<Rightarrow> string list" where
  "missing_codes wanted found = filter (\<lambda>c. c \<notin> set found) wanted"

definition setPermissions :: "('w, 's) backend_env \<Rightarrow> string \<Rightarrow> string list \<Rightarrow> ('w, 's) backend_app \<Rightarrow> (app_error + unit) \<times> ('w, 's) backend_app" where
  "setPermissions env roleId codes s =
     (let perms = db_permissionsIn (be_db env) codes (ap_db s); missing = missing_codes codes (map bp_code perms)
      in if missing \<noteq> [] then (Inl (Not_Found (''Permissions not found: '' @ js_join '', '' missing)), s)
         else then_do (on_db (db_clearRolePermissions (be_db env) roleId) s) (\<lambda>_. on_db (db_setRolePermissions (be_db env) roleId (map bp_id perms))))"

definition setInherits :: "('w, 's) backend_env \<Rightarrow> string \<Rightarrow> string list \<Rightarrow> ('w, 's) backend_app \<Rightarrow> (app_error + unit) \<times> ('w, 's) backend_app" where
  "setInherits env roleId codes s =
     (let roles = db_rolesIn (be_db env) codes (ap_db s); missing = missing_codes codes (map br_code roles)
      in if missing \<noteq> [] then (Inl (Not_Found (''Inherited roles not found: '' @ js_join '', '' missing)), s)
         else then_do (on_db (db_clearInheritance (be_db env) roleId) s) (\<lambda>_. on_db (db_setInheritance (be_db env) roleId (map br_id roles))))"

record create_role =
  cr_code :: string
  cr_name :: string
  cr_description :: "string option"
  cr_level :: "int option"
  cr_permissions :: "string list option"
  cr_inherits :: "string list option"

definition rs_create :: "('w, 's) backend_env \<Rightarrow> create_role \<Rightarrow> string list option \<Rightarrow> ('w, 's) backend_app
    \<Rightarrow> (app_error + role_row) \<times> ('w, 's) backend_app" where
  "rs_create env dto actorRoles s =
     (if db_roleByCode (be_db env) (cr_code dto) (ap_db s) \<noteq> None
      then (Inl (Bad_Request (''Role code '' @ cr_code dto @ '' already exists'')), s)
      else let level = or_else (cr_level dto) 10 in
        then_do (case actorRoles of None \<Rightarrow> (Inr (), s)
          | Some actor \<Rightarrow> (let s = syncBoundary env s;
                s = s\<lparr>ap_boundary := pb_define (ap_boundary s) \<lparr>lr_name = cr_code dto, lr_level = level, lr_inherits = None, lr_permissions = None\<rparr>\<rparr>
              in enforce actor (cr_code dto) s)) (\<lambda>_ s.
        then_do (on_db (db_createRole (be_db env) (cr_code dto) (cr_name dto) (cr_description dto) level) s) (\<lambda>role s.
        then_do (case cr_permissions dto of Some (c # cs) \<Rightarrow> setPermissions env (br_id role) (c # cs) s | _ \<Rightarrow> (Inr (), s)) (\<lambda>_ s.
        then_do (case cr_inherits dto of Some (c # cs) \<Rightarrow> setInherits env (br_id role) (c # cs) s | _ \<Rightarrow> (Inr (), s)) (\<lambda>_ s.
        (rs_findById env (br_code role) s, s))))))"

record update_role =
  ud_name :: "string option"
  ud_description :: "string option"
  ud_level :: "int option"
  ud_permissions :: "string list option"
  ud_inherits :: "string list option"

definition boundary_check :: "('w, 's) backend_env \<Rightarrow> string list option \<Rightarrow> string \<Rightarrow> ('w, 's) backend_app \<Rightarrow> (app_error + unit) \<times> ('w, 's) backend_app" where
  "boundary_check env actorRoles code s = (case actorRoles of None \<Rightarrow> (Inr (), s) | Some actor \<Rightarrow> enforce actor code (syncBoundary env s))"

definition rs_update :: "('w, 's) backend_env \<Rightarrow> string \<Rightarrow> update_role \<Rightarrow> string list option \<Rightarrow> ('w, 's) backend_app
    \<Rightarrow> (app_error + role_row) \<times> ('w, 's) backend_app" where
  "rs_update env code dto actorRoles s =
     then_do (rs_findById env code s, s) (\<lambda>role s.
     if br_isSystem role \<and> \<not> (case actorRoles of None \<Rightarrow> False | Some actor \<Rightarrow> ''super_admin'' \<in> set actor)
     then (Inl (Forbidden ''Cannot modify a system role''), s)
     else then_do (boundary_check env actorRoles code s) (\<lambda>_ s.
       then_do (on_db (db_updateRole (be_db env) code \<lparr>rq_name = ud_name dto, rq_description = ud_description dto, rq_level = ud_level dto\<rparr>) s) (\<lambda>_ s.
       then_do (case ud_permissions dto of None \<Rightarrow> (Inr (), s) | Some codes \<Rightarrow> setPermissions env (br_id role) codes s) (\<lambda>_ s.
       then_do (case ud_inherits dto of None \<Rightarrow> (Inr (), s) | Some codes \<Rightarrow> setInherits env (br_id role) codes s) (\<lambda>_ s.
       (rs_findById env code s, s))))))"

definition rs_delete :: "('w, 's) backend_env \<Rightarrow> string \<Rightarrow> string list option \<Rightarrow> ('w, 's) backend_app \<Rightarrow> (app_error + string) \<times> ('w, 's) backend_app" where
  "rs_delete env code actorRoles s =
     then_do (rs_findById env code s, s) (\<lambda>role s.
     if br_isSystem role then (Inl (Forbidden ''Cannot delete a system role''), s)
     else then_do (boundary_check env actorRoles code s) (\<lambda>_ s.
       then_do (on_db (db_deleteRole (be_db env) code) s) (\<lambda>_ s. (Inr (''Role '' @ code @ '' deleted''), s))))"

definition rs_listPermissions :: "('w, 's) backend_env \<Rightarrow> ('w, 's) backend_app \<Rightarrow> permission_row list" where
  "rs_listPermissions env s = db_allPermissions (be_db env) (ap_db s)"

record role_permissions =
  rp_role :: "string \<times> string"
  rp_direct :: "permission_row list"
  rp_inherited :: "permission_row list"
  rp_all :: "permission_row list"

text \<open>\<open>new Map(all.map(p => [p.code, p])).values()\<close>: the place of the first and the row of the last with a code.\<close>

definition rs_getRolePermissions :: "('w, 's) backend_env \<Rightarrow> string \<Rightarrow> ('w, 's) backend_app \<Rightarrow> app_error + role_permissions" where
  "rs_getRolePermissions env code s = map_sum id (\<lambda>role.
     let direct = br_permissions role; inherited = concat (map ih_permissions (br_inherits role))
     in \<lparr>rp_role = (br_code role, br_name role), rp_direct = direct, rp_inherited = inherited,
         rp_all = jm_values (foldl (\<lambda>m p. jm_set m (bp_code p) p) [] (direct @ inherited))\<rparr>) (rs_findById env code s)"

section \<open>What the checks keep\<close>

lemma then_do_Inr: "then_do x f = (Inr b, t) \<longleftrightarrow> (\<exists>a s. x = (Inr a, s) \<and> f a s = (Inr b, t))"
  by (cases x; cases "fst x") (simp_all add: then_do_def)

definition may_assign :: "string list option \<Rightarrow> string \<Rightarrow> bool" where
  "may_assign actorRoles roleCode \<longleftrightarrow> roleCode \<noteq> ''super_admin'' \<or> (case actorRoles of None \<Rightarrow> True | Some actor \<Rightarrow> ''super_admin'' \<in> set actor)"

lemma assign_needs_right:
  assumes "us_assignRole env now u r actorRoles s = (Inr m, t)"
  shows "may_assign actorRoles r"
proof (rule ccontr)
  assume "\<not> may_assign actorRoles r"
  then have "actorRoles \<noteq> None \<and> ''super_admin'' \<notin> set (the actorRoles) \<and> r = ''super_admin''"
    unfolding may_assign_def by (cases actorRoles) simp_all
  then show False using assms unfolding us_assignRole_def by (simp only: if_True split: option.splits) simp_all
qed

lemma assign_roles_need_right: "assign_roles env now u rs actorRoles s = (Inr (), t) \<Longrightarrow> r \<in> set rs \<Longrightarrow> may_assign actorRoles r"
proof (induction rs arbitrary: s)
  case (Cons q rs)
  from Cons.prems(1) obtain m s1 where one: "us_assignRole env now u q actorRoles s = (Inr m, s1)" and rest: "assign_roles env now u rs actorRoles s1 = (Inr (), t)"
    unfolding assign_roles.simps then_do_Inr by (elim exE conjE)
  from Cons.prems(2) have "r = q \<or> r \<in> set rs" by simp
  then show ?case
  proof
    assume "r = q"
    then show ?thesis using assign_needs_right[OF one] by simp
  next
    assume "r \<in> set rs"
    then show ?thesis by (rule Cons.IH[OF rest])
  qed
qed simp

theorem no_account_above_its_maker:
  assumes "us_create env now salt email password name roles actorRoles s = (Inr p, t)" and "r \<in> set (or_else roles [])"
  shows "may_assign actorRoles r"
  using assms by (auto simp: us_create_def then_do_Inr intro: assign_roles_need_right split: if_splits)

text \<open>The roles of the caller are not looked at when a role is taken away.\<close>

lemma removeRole_unchecked: "us_removeRole env now u r a s = us_removeRole env now u r b s"
  by (simp add: us_removeRole_def)

lemma define_level: "pb_getLevel (pb_define b r) c = (if c = lr_name r then lr_level r else pb_getLevel b c)"
  by (simp add: pb_getLevel_def pb_define_def jm_get_set or_else_def)

lemma synced_levels:
  assumes "distinct (map br_code rs)" and "r \<in> set rs"
  shows "pb_getLevel (foldl (\<lambda>b r. pb_define b \<lparr>lr_name = br_code r, lr_level = br_level r, lr_inherits = None, lr_permissions = None\<rparr>) b rs) (br_code r) = br_level r"
  using assms
proof (induction rs rule: rev_induct)
  case (snoc q rs)
  then have "r = q \<or> (r \<in> set rs \<and> br_code r \<noteq> br_code q)" by (auto simp: image_iff)
  then show ?case using snoc by (elim disjE) (simp_all add: define_level)
qed simp

lemma max_level_attained: "0 \<le> m \<Longrightarrow> m < pb_getMaxLevel b names \<Longrightarrow> \<exists>n\<in>set names. m < pb_getLevel b n"
  unfolding pb_getMaxLevel_def using foldl_max_le_iff[of 0 "map (pb_getLevel b) names" m] by (auto simp: not_le)

lemma enforce_Inr: "enforce actor code s = (Inr (), t) \<longleftrightarrow> t = s \<and> pb_getLevel (ap_boundary s) code < pb_getMaxLevel (ap_boundary s) actor"
  by (auto simp: enforce_def pb_enforceAssignment_def pb_canAssignRole_def)

text \<open>A role is deleted only by a caller with a role of a higher level, whatever levels the boundary remembers.\<close>

theorem deleted_roles_are_below:
  assumes "rs_delete env code (Some actor) s = (Inr m, t)" and "distinct (map br_code (db_allRoles (be_db env) (ap_db s)))"
    and "db_roleByCode (be_db env) code (ap_db s) = Some role" and "role \<in> set (db_allRoles (be_db env) (ap_db s))" and "br_code role = code" and "0 \<le> br_level role"
  shows "\<not> br_isSystem role \<and> (\<exists>n\<in>set actor. br_level role < pb_getLevel (ap_boundary (syncBoundary env s)) n)"
proof -
  have b: "\<not> br_isSystem role" "\<exists>t. enforce actor code (syncBoundary env s) = (Inr (), t)"
    using assms(1,3) unfolding rs_delete_def rs_findById_def boundary_check_def by (auto simp: then_do_Inr split: if_splits)
  then have "pb_getLevel (ap_boundary (syncBoundary env s)) code < pb_getMaxLevel (ap_boundary (syncBoundary env s)) actor"
    unfolding enforce_Inr by blast
  moreover have "pb_getLevel (ap_boundary (syncBoundary env s)) code = br_level role"
    using synced_levels[OF assms(2,4), of "ap_boundary s"] assms(5) by (simp add: syncBoundary_def)
  ultimately show ?thesis using b(1) max_level_attained[OF assms(6)] by metis
qed

text \<open>An update compares the caller with the level a role has, not with the level it gets.\<close>

theorem role_level_raised_unchecked:
  assumes "db_roleByCode (be_db env) code (ap_db s) = Some role" and "\<not> br_isSystem role"
    and "pb_getLevel (ap_boundary (syncBoundary env s)) code < pb_getMaxLevel (ap_boundary (syncBoundary env s)) actor"
    and "db_updateRole (be_db env) code \<lparr>rq_name = None, rq_description = None, rq_level = Some level\<rparr> (ap_db s) = (Inr (), w)"
  shows "rs_update env code \<lparr>ud_name = None, ud_description = None, ud_level = Some level, ud_permissions = None, ud_inherits = None\<rparr> (Some actor) s
    = (rs_findById env code ((syncBoundary env s)\<lparr>ap_db := w\<rparr>), (syncBoundary env s)\<lparr>ap_db := w\<rparr>)"
proof -
  have e: "enforce actor code (syncBoundary env s) = (Inr (), syncBoundary env s)" using assms(3) unfolding enforce_Inr by simp
  have db: "ap_db (syncBoundary env s) = ap_db s" by (simp add: syncBoundary_def)
  show ?thesis unfolding rs_update_def boundary_check_def rs_findById_def[of env code s]
    by (simp add: then_do_def assms(1,2,4) e on_db_def db)
qed

end
