(* ===== verification/Backend_Auth.thy ===== *)
theory Backend_Auth
  imports Backend_Accounts
begin

text \<open>
  Authentication of the backend template (\<open>templates/backend-core/src/auth/auth.service.ts\<close>): registration, e-mail
  verification, login, rotation of refresh tokens, logout and passwords, over the accounts of \<open>Backend_Accounts\<close>, the tokens of
  \<open>Auth_Jwt\<close> and the login tracker of \<open>Auth_Login\<close>. The table of refresh tokens is part of the parameter; the salt of a
  password, the identifier of a token family and the time are arguments. A method runs as one step. The dash in the
  message about a reused token is written as a hyphen.
\<close>

section \<open>Refresh tokens\<close>

record token_row =
  tr_id :: string
  tr_token :: string
  tr_userId :: string
  tr_familyId :: string
  tr_used :: bool
  tr_revoked :: bool
  tr_expiresAt :: int

record 'w token_db =
  td_create :: "string \<Rightarrow> string \<Rightarrow> string \<Rightarrow> int \<Rightarrow> 'w \<Rightarrow> (app_error + unit) \<times> 'w"
  td_find :: "string \<Rightarrow> 'w \<Rightarrow> token_row option"
  td_markUsed :: "string \<Rightarrow> 'w \<Rightarrow> (app_error + unit) \<times> 'w"
  td_revokeWhere :: "(token_row \<Rightarrow> bool) \<Rightarrow> 'w \<Rightarrow> (app_error + unit) \<times> 'w"

record ('w, 's) auth_env = "('w, 's) backend_env" +
  av_tokens :: "'w token_db"
  av_appUrl :: "string option"

text \<open>30 days.\<close>

definition REFRESH_MS :: int where "REFRESH_MS = 30 * 24 * 60 * 60 * 1000"

section \<open>Registration\<close>

text \<open>The user, and the token that is written to the log.\<close>

definition auth_register :: "('w, 's) auth_env \<Rightarrow> int \<Rightarrow> string \<Rightarrow> string \<Rightarrow> string \<Rightarrow> string option \<Rightarrow> ('w, 's) backend_app
    \<Rightarrow> (app_error + user_row \<times> string) \<times> ('w, 's) backend_app" where
  "auth_register env now salt email password name s =
     (if db_userByEmail (be_db env) email (ap_db s) \<noteq> None then (Inl (Bad_Request ''Email already registered''), s)
      else then_do (on_db (db_createUser (be_db env) email (be_hash env salt password) name) s) (\<lambda>user s.
        (Inr (user, signEmailVerification (be_jwtLib env) (be_jwt env) (bu_email user) None now), s)))"

definition text_claim :: "claim option \<Rightarrow> string" where
  "text_claim c = (case c of Some (CStr x) \<Rightarrow> x | _ \<Rightarrow> [])"

definition auth_verifyEmail :: "('w, 's) auth_env \<Rightarrow> int \<Rightarrow> string \<Rightarrow> ('w, 's) backend_app \<Rightarrow> (app_error + string) \<times> ('w, 's) backend_app" where
  "auth_verifyEmail env now token s = (case verifyEmailVerification (be_jwtLib env) (be_jwt env) token now of
     None \<Rightarrow> (Inl (Bad_Request ''Invalid or expired verification token''), s)
   | Some (email, purpose) \<Rightarrow>
       if purpose \<noteq> ''email-verification'' then (Inl (Bad_Request ''Invalid token purpose''), s)
       else (case db_userByEmail (be_db env) (text_claim email) (ap_db s) of
         None \<Rightarrow> (Inl (Not_Found ''User not found''), s)
       | Some user \<Rightarrow> then_do (on_db (db_updateUser (be_db env) (bu_id user) (no_changes\<lparr>uc_emailVerified := Some True\<rparr>)) s) (\<lambda>_ s.
           (Inr ''Email verified successfully'', s))))"

section \<open>Login\<close>

definition optional_claim :: "string \<Rightarrow> string option \<Rightarrow> claims" where
  "optional_claim k v = (case v of None \<Rightarrow> [] | Some x \<Rightarrow> [(k, CStr x)])"

text \<open>The claims of a user: the first active membership, the codes of the roles and of their permissions; an absent identifier
  is \<open>null\<close> in the token and left out here.\<close>

definition login_claims :: "user_row \<Rightarrow> claims" where
  "login_claims user =
     (let membership = (case filter (\<lambda>m. bm_status m = ''ACTIVE'') (bu_memberships user) of [] \<Rightarrow> None | m # _ \<Rightarrow> Some m);
          roles = filter (\<lambda>c. c \<noteq> []) (map br_code (bu_roles user));
          permissions = js_set_of (concat (map (\<lambda>r. map bp_code (br_permissions r)) (bu_roles user)))
      in [(''sub'', CStr (bu_id user)), (''email'', CStr (bu_email user)), (''roles'', CStrs roles), (''permissions'', CStrs permissions)]
         @ optional_claim ''organizationId'' (map_option bm_organizationId membership)
         @ optional_claim ''departmentId'' (Option.bind membership bm_departmentId)
         @ optional_claim ''teamId'' (Option.bind membership bm_teamId))"

definition issue_tokens :: "('w, 's) auth_env \<Rightarrow> int \<Rightarrow> user_row \<Rightarrow> string \<Rightarrow> ('w, 's) backend_app
    \<Rightarrow> (app_error + string \<times> string) \<times> ('w, 's) backend_app" where
  "issue_tokens env now user family s =
     (let payload = login_claims user; access = jwt_sign (be_jwtLib env) (be_jwt env) payload now;
          refresh = jwt_signRefresh (be_jwtLib env) (be_jwt env) (payload @ [(''familyId'', CStr family)]) now
      in then_do (on_db (td_create (av_tokens env) refresh (bu_id user) family (now + REFRESH_MS)) s) (\<lambda>_ s.
           (Inr (access, refresh), s\<lparr>ap_audit := audit_logAccess (be_sha env) (be_save env) now (bu_id user) ''LOGIN'' (Some ''auth'') None None (ap_audit s)\<rparr>)))"

definition auth_login :: "('w, 's) auth_env \<Rightarrow> int \<Rightarrow> string \<Rightarrow> string \<Rightarrow> string \<Rightarrow> ('w, 's) backend_app
    \<Rightarrow> (app_error + string \<times> string) \<times> ('w, 's) backend_app" where
  "auth_login env now family email password s = (case db_userByEmail (be_db env) email (ap_db s) of
     None \<Rightarrow> (Inl (Unauthorized ''Invalid credentials''), s)
   | Some user \<Rightarrow> (case lt_isLocked now email (ap_tracker s) of (locked, tracker) \<Rightarrow>
       let s = s\<lparr>ap_tracker := tracker\<rparr>
       in if locked then (Inl (Unauthorized ''Account temporarily locked due to too many failed attempts''), s)
          else if \<not> be_compare env password (bu_passwordHash user)
          then (case lt_recordFailure now email (ap_tracker s) of (locked, tracker) \<Rightarrow>
             (Inl (Unauthorized (if locked then ''Account locked due to too many failed attempts'' else ''Invalid credentials'')), s\<lparr>ap_tracker := tracker\<rparr>))
          else issue_tokens env now user family (s\<lparr>ap_tracker := lt_recordSuccess email (ap_tracker s)\<rparr>)))"

section \<open>Rotation and logout\<close>

definition auth_refreshToken :: "('w, 's) auth_env \<Rightarrow> int \<Rightarrow> string \<Rightarrow> ('w, 's) backend_app
    \<Rightarrow> (app_error + string \<times> string) \<times> ('w, 's) backend_app" where
  "auth_refreshToken env now token s = (case jwt_verifyRefresh (be_jwtLib env) (be_jwt env) token now of
     None \<Rightarrow> (Inl (Unauthorized ''Invalid or expired refresh token''), s)
   | Some decoded \<Rightarrow> (case td_find (av_tokens env) token (ap_db s) of
       None \<Rightarrow> (Inl (Unauthorized ''Refresh token not found''), s)
     | Some stored \<Rightarrow>
         if tr_used stored then then_do (on_db (td_revokeWhere (av_tokens env) (\<lambda>r. tr_familyId r = tr_familyId stored)) s) (\<lambda>_ s.
           (Inl (Unauthorized ''Refresh token already used - possible token theft''), s))
         else if tr_revoked stored then (Inl (Unauthorized ''Refresh token revoked''), s)
         else then_do (on_db (td_markUsed (av_tokens env) (tr_id stored)) s) (\<lambda>_ s.
           let payload = strip_claims decoded; access = jwt_sign (be_jwtLib env) (be_jwt env) payload now;
               refresh = jwt_signRefresh (be_jwtLib env) (be_jwt env) payload now
           in then_do (on_db (td_create (av_tokens env) refresh (tr_userId stored) (tr_familyId stored) (now + REFRESH_MS)) s) (\<lambda>_ s.
                (Inr (access, refresh), s)))))"

definition auth_logout :: "('w, 's) auth_env \<Rightarrow> int \<Rightarrow> string \<Rightarrow> ('w, 's) backend_app \<Rightarrow> (app_error + string) \<times> ('w, 's) backend_app" where
  "auth_logout env now userId s =
     then_do (on_db (td_revokeWhere (av_tokens env) (\<lambda>r. tr_userId r = userId \<and> \<not> tr_revoked r)) s) (\<lambda>_ s.
       (Inr ''Logged out successfully'',
        s\<lparr>ap_audit := audit_logAccess (be_sha env) (be_save env) now userId ''LOGOUT'' (Some ''auth'') None None (ap_audit s)\<rparr>))"

section \<open>Passwords\<close>

text \<open>The answer and what is written to the log: the beginning of the token and the whole link.\<close>

definition auth_forgotPassword :: "('w, 's) auth_env \<Rightarrow> int \<Rightarrow> string \<Rightarrow> ('w, 's) backend_app \<Rightarrow> string \<times> string option" where
  "auth_forgotPassword env now email s = (let answer = ''If the email exists, a reset link has been sent'' in
     case db_userByEmail (be_db env) email (ap_db s) of
       None \<Rightarrow> (answer, None)
     | Some user \<Rightarrow> (let token = signPasswordReset (be_jwtLib env) (be_jwt env) (bu_id user) None now;
           url = or_else (av_appUrl env) ''http://localhost:3000'' @ ''/auth/reset-password?token='' @ token
         in (answer, Some (''[PASSWORD RESET] User: '' @ bu_email user @ '' | Token: '' @ take 8 token @ ''... | URL: '' @ url))))"

definition set_password :: "('w, 's) auth_env \<Rightarrow> string \<Rightarrow> string \<Rightarrow> string \<Rightarrow> (token_row \<Rightarrow> bool) \<Rightarrow> string \<Rightarrow> ('w, 's) backend_app
    \<Rightarrow> (app_error + string) \<times> ('w, 's) backend_app" where
  "set_password env salt userId password revoke answer s =
     then_do (on_db (db_updateUser (be_db env) userId (no_changes\<lparr>uc_passwordHash := Some (be_hash env salt password)\<rparr>)) s) (\<lambda>_ s.
     then_do (on_db (td_revokeWhere (av_tokens env) revoke) s) (\<lambda>_ s. (Inr answer, s)))"

definition auth_resetPassword :: "('w, 's) auth_env \<Rightarrow> int \<Rightarrow> string \<Rightarrow> string \<Rightarrow> string \<Rightarrow> ('w, 's) backend_app
    \<Rightarrow> (app_error + string) \<times> ('w, 's) backend_app" where
  "auth_resetPassword env now salt token password s = (case verifyPasswordReset (be_jwtLib env) (be_jwt env) token now of
     None \<Rightarrow> (Inl (Bad_Request ''Invalid or expired reset token''), s)
   | Some (sub, _) \<Rightarrow> set_password env salt (text_claim sub) password (\<lambda>r. tr_userId r = text_claim sub) ''Password reset successfully'' s)"

definition auth_changePassword :: "('w, 's) auth_env \<Rightarrow> string \<Rightarrow> string \<Rightarrow> string \<Rightarrow> string \<Rightarrow> ('w, 's) backend_app
    \<Rightarrow> (app_error + string) \<times> ('w, 's) backend_app" where
  "auth_changePassword env salt userId current password s = (case db_userById (be_db env) userId (ap_db s) of
     None \<Rightarrow> (Inl (Not_Found ''User not found''), s)
   | Some user \<Rightarrow>
       if \<not> be_compare env current (bu_passwordHash user) then (Inl (Unauthorized ''Current password is incorrect''), s)
       else set_password env salt userId password (\<lambda>r. tr_userId r = userId \<and> \<not> tr_revoked r) ''Password changed successfully'' s)"

definition auth_getProfile :: "('w, 's) auth_env \<Rightarrow> string \<Rightarrow> ('w, 's) backend_app \<Rightarrow> app_error + user_profile" where
  "auth_getProfile env userId s = (case db_userById (be_db env) userId (ap_db s) of
     None \<Rightarrow> Inl (Not_Found ''User not found'') | Some user \<Rightarrow> Inr (profile_of user))"

section \<open>Tokens are exchanged once\<close>

text \<open>What the table of tokens does: a query by the token finds the row that holds it, an update changes the rows it names, a new row
  has a fresh identifier and is neither used nor revoked. A call may fail and changes nothing then.\<close>

definition token_db_ok :: "'w token_db \<Rightarrow> ('w \<Rightarrow> token_row list) \<Rightarrow> bool" where
  "token_db_ok db rows \<longleftrightarrow>
     (\<forall>t w. td_find db t w = find (\<lambda>r. tr_token r = t) (rows w))
   \<and> (\<forall>i w w'. td_markUsed db i w = (Inr (), w') \<longrightarrow> rows w' = map (\<lambda>r. if tr_id r = i then r\<lparr>tr_used := True\<rparr> else r) (rows w))
   \<and> (\<forall>P w w'. td_revokeWhere db P w = (Inr (), w') \<longrightarrow> rows w' = map (\<lambda>r. if P r then r\<lparr>tr_revoked := True\<rparr> else r) (rows w))
   \<and> (\<forall>t u f e w w'. td_create db t u f e w = (Inr (), w') \<longrightarrow> (\<exists>i. i \<notin> tr_id ` set (rows w)
        \<and> rows w' = rows w @ [\<lparr>tr_id = i, tr_token = t, tr_userId = u, tr_familyId = f, tr_used = False, tr_revoked = False, tr_expiresAt = e\<rparr>]))"

lemma token_db_okD:
  assumes "token_db_ok db rows"
  shows "td_find db t w = find (\<lambda>r. tr_token r = t) (rows w)"
    and "td_markUsed db i w = (Inr (), w') \<Longrightarrow> rows w' = map (\<lambda>r. if tr_id r = i then r\<lparr>tr_used := True\<rparr> else r) (rows w)"
    and "td_revokeWhere db P w = (Inr (), w') \<Longrightarrow> rows w' = map (\<lambda>r. if P r then r\<lparr>tr_revoked := True\<rparr> else r) (rows w)"
    and "td_create db t u f e w = (Inr (), w') \<Longrightarrow> \<exists>i. i \<notin> tr_id ` set (rows w)
        \<and> rows w' = rows w @ [\<lparr>tr_id = i, tr_token = t, tr_userId = u, tr_familyId = f, tr_used = False, tr_revoked = False, tr_expiresAt = e\<rparr>]"
  using assms unfolding token_db_ok_def by blast+

lemma find_map_same: "(\<And>x. P (f x) = P x) \<Longrightarrow> find P (map f xs) = map_option f (find P xs)"
  by (induction xs) simp_all

lemma find_append_Some: "find P xs = Some x \<Longrightarrow> find P (xs @ ys) = Some x"
  by (induction xs) (simp_all split: if_splits)

lemma on_db_Inr: "on_db f s = (Inr x, t) \<longleftrightarrow> (\<exists>w. f (ap_db s) = (Inr x, w) \<and> t = s\<lparr>ap_db := w\<rparr>)"
  by (cases "f (ap_db s)") (auto simp: on_db_def)

text \<open>What a successful exchange leaves: the row of the token is used, and the new row has its family.\<close>

lemma refresh_rows:
  assumes "token_db_ok (av_tokens env) rows" and "auth_refreshToken env now token s = (Inr (access, refresh), t)"
  obtains stored i where "find (\<lambda>r. tr_token r = token) (rows (ap_db s)) = Some stored"
    and "rows (ap_db t) = map (\<lambda>r. if tr_id r = tr_id stored then r\<lparr>tr_used := True\<rparr> else r) (rows (ap_db s))
      @ [\<lparr>tr_id = i, tr_token = refresh, tr_userId = tr_userId stored, tr_familyId = tr_familyId stored, tr_used = False, tr_revoked = False, tr_expiresAt = now + REFRESH_MS\<rparr>]"
    and "find (\<lambda>r. tr_token r = token) (rows (ap_db t)) = Some (stored\<lparr>tr_used := True\<rparr>)"
proof -
  from assms(2) obtain stored w w' where find: "td_find (av_tokens env) token (ap_db s) = Some stored"
    and used: "td_markUsed (av_tokens env) (tr_id stored) (ap_db s) = (Inr (), w)"
    and created: "td_create (av_tokens env) refresh (tr_userId stored) (tr_familyId stored) (now + REFRESH_MS) w = (Inr (), w')" and t: "ap_db t = w'"
    unfolding auth_refreshToken_def by (auto simp: then_do_Inr on_db_Inr Let_def split: option.splits if_splits)
  have f: "find (\<lambda>r. tr_token r = token) (rows (ap_db s)) = Some stored" using find unfolding token_db_okD(1)[OF assms(1)] .
  from token_db_okD(4)[OF assms(1) created] obtain i where rows: "rows w' = rows w
      @ [\<lparr>tr_id = i, tr_token = refresh, tr_userId = tr_userId stored, tr_familyId = tr_familyId stored, tr_used = False, tr_revoked = False, tr_expiresAt = now + REFRESH_MS\<rparr>]" by blast
  have g: "find (\<lambda>r. tr_token r = token) (map (\<lambda>r. if tr_id r = tr_id stored then r\<lparr>tr_used := True\<rparr> else r) (rows (ap_db s))) = Some (stored\<lparr>tr_used := True\<rparr>)"
    by (subst find_map_same) (simp_all add: f)
  show thesis by (rule that[OF f]) (simp_all add: t rows token_db_okD(2)[OF assms(1) used] find_append_Some[OF g])
qed

definition family_revoked :: "token_row list \<Rightarrow> string \<Rightarrow> bool" where
  "family_revoked rs f \<longleftrightarrow> (\<forall>r\<in>set rs. tr_familyId r = f \<longrightarrow> tr_revoked r)"

text \<open>A token that was exchanged is never exchanged again: it is refused, and the family that the new token belongs to is revoked.\<close>

theorem reused_token_revokes_family:
  assumes "token_db_ok (av_tokens env) rows" and "auth_refreshToken env now token s = (Inr (access, refresh), t)"
    and "jwt_verifyRefresh (be_jwtLib env) (be_jwt env) token now' \<noteq> None" and "\<And>P w. fst (td_revokeWhere (av_tokens env) P w) = Inr ()"
  shows "\<exists>u f r. auth_refreshToken env now' token t = (Inl (Unauthorized ''Refresh token already used - possible token theft''), u)
    \<and> r \<in> set (rows (ap_db u)) \<and> tr_token r = refresh \<and> tr_familyId r = f \<and> family_revoked (rows (ap_db u)) f"
proof -
  obtain stored i where rows: "rows (ap_db t) = map (\<lambda>r. if tr_id r = tr_id stored then r\<lparr>tr_used := True\<rparr> else r) (rows (ap_db s))
      @ [\<lparr>tr_id = i, tr_token = refresh, tr_userId = tr_userId stored, tr_familyId = tr_familyId stored, tr_used = False, tr_revoked = False, tr_expiresAt = now + REFRESH_MS\<rparr>]"
    and g: "find (\<lambda>r. tr_token r = token) (rows (ap_db t)) = Some (stored\<lparr>tr_used := True\<rparr>)"
    by (rule refresh_rows[OF assms(1,2)])
  let ?P = "\<lambda>r. tr_familyId r = tr_familyId stored"
  have g': "td_find (av_tokens env) token (ap_db t) = Some (stored\<lparr>tr_used := True\<rparr>)" unfolding token_db_okD(1)[OF assms(1)] by (rule g)
  obtain w where revoke: "td_revokeWhere (av_tokens env) ?P (ap_db t) = (Inr (), w)" using assms(4)[of ?P "ap_db t"] by (cases "td_revokeWhere (av_tokens env) ?P (ap_db t)") simp
  obtain decoded where d: "jwt_verifyRefresh (be_jwtLib env) (be_jwt env) token now' = Some decoded" using assms(3) by blast
  have u: "auth_refreshToken env now' token t = (Inl (Unauthorized ''Refresh token already used - possible token theft''), t\<lparr>ap_db := w\<rparr>)"
    unfolding auth_refreshToken_def d option.case g' by (simp add: then_do_def on_db_def revoke)
  have w: "rows w = map (\<lambda>r. if ?P r then r\<lparr>tr_revoked := True\<rparr> else r) (rows (ap_db t))" by (rule token_db_okD(3)[OF assms(1) revoke])
  let ?new = "\<lparr>tr_id = i, tr_token = refresh, tr_userId = tr_userId stored, tr_familyId = tr_familyId stored, tr_used = False, tr_revoked = True, tr_expiresAt = now + REFRESH_MS\<rparr>"
  have "?new \<in> set (rows w)" unfolding w rows by simp
  moreover have "family_revoked (rows w) (tr_familyId stored)" unfolding family_revoked_def w by auto
  ultimately show ?thesis using u by (intro exI conjI) (assumption | simp)+
qed

text \<open>Within one second the claims of two tokens are the same, and so is the token: the client that uses the token it was given is
  taken for a thief.\<close>

theorem same_token_is_theft:
  assumes "token_db_ok (av_tokens env) rows" and "auth_refreshToken env now token s = (Inr (access, token), t)"
    and "jwt_verifyRefresh (be_jwtLib env) (be_jwt env) token now' \<noteq> None" and "\<And>P w. fst (td_revokeWhere (av_tokens env) P w) = Inr ()"
  shows "\<exists>u. auth_refreshToken env now' token t = (Inl (Unauthorized ''Refresh token already used - possible token theft''), u)"
  using reused_token_revokes_family[OF assms] by blast

section \<open>Lockout\<close>

lemma tracker_then: "ap_tracker (snd (then_do (on_db f s) g)) = ap_tracker s" if "\<And>x t. ap_tracker (snd (g x t)) = ap_tracker t"
  using that by (cases "f (ap_db s)"; cases "fst (f (ap_db s))") (simp_all add: then_do_def on_db_def)

lemma issue_keeps_tracker: "ap_tracker (snd (issue_tokens env now user family s)) = ap_tracker s"
  unfolding issue_tokens_def Let_def by (rule tracker_then) simp

definition rejected :: "(app_error + 'a) \<times> 'b \<Rightarrow> bool" where
  "rejected x \<longleftrightarrow> (\<exists>e. fst x = Inl e)"

lemma login_while_locked:
  assumes "locked_past who t0 h (ap_tracker s)" and "t0 \<le> now" and "now \<le> h"
  shows "locked_past who t0 h (ap_tracker (snd (auth_login env now family email password s)))"
    and "email = who \<Longrightarrow> rejected (auth_login env now family email password s)"
proof -
  obtain locked tracker where l: "lt_isLocked now email (ap_tracker s) = (locked, tracker)" by fastforce
  have tr: "locked_past who t0 h tracker" using locked_past_isLocked(1)[OF assms(1,3), of email] by (simp add: l)
  have mine: "email = who \<Longrightarrow> locked" using locked_past_isLocked(2)[OF assms(1,3)] l by (metis fst_conv)
  have bad: "locked_past who t0 h (snd (lt_recordFailure now email tracker))" by (rule locked_past_failure[OF tr assms(2,3)])
  have good: "email \<noteq> who \<Longrightarrow> locked_past who t0 h (lt_recordSuccess email tracker)" unfolding lt_recordSuccess_def by (rule locked_past_del_other[OF tr])
  show "locked_past who t0 h (ap_tracker (snd (auth_login env now family email password s)))"
  proof -
    obtain locked' tracker' where f: "lt_recordFailure now email tracker = (locked', tracker')" by fastforce
    have "locked_past who t0 h tracker'" using bad by (simp add: f)
    moreover have "\<not> locked \<Longrightarrow> locked_past who t0 h (lt_recordSuccess email tracker)" using good mine by blast
    ultimately show ?thesis using assms(1) tr unfolding auth_login_def by (simp add: l f Let_def issue_keeps_tracker split: option.split)
  qed
  show "rejected (auth_login env now family email password s)" if "email = who"
    using mine[OF that] unfolding auth_login_def rejected_def by (simp add: l Let_def split: option.split)
qed

record attempt_login =
  al_time :: int
  al_family :: string
  al_email :: string
  al_password :: string

definition try_login :: "('w, 's) auth_env \<Rightarrow> attempt_login \<Rightarrow> ('w, 's) backend_app \<Rightarrow> (app_error + string \<times> string) \<times> ('w, 's) backend_app" where
  "try_login env a = auth_login env (al_time a) (al_family a) (al_email a) (al_password a)"

text \<open>Once a login answered that the account is locked, every login with that address before the deadline is refused, whatever password
  it brings and whoever else logs in in between.\<close>

theorem locked_account_refuses_logins:
  assumes "jm_wf (lt_attempts (ap_tracker s))" and "auth_login env t0 family who password s = (Inl (Unauthorized ''Account locked due to too many failed attempts''), s0)"
    and "h < t0 + lt_lockoutDuration (ap_tracker s)" and "0 \<le> lt_lockoutDuration (ap_tracker s)"
    and "\<And>a. a \<in> set as \<Longrightarrow> t0 \<le> al_time a \<and> al_time a \<le> h" and "al_email a = who" and "t0 \<le> al_time a" and "al_time a \<le> h"
    and db: "\<And>t u f e w m w'. td_create (av_tokens env) t u f e w \<noteq> (Inl (Unauthorized m), w')"
  shows "rejected (try_login env a (foldl (\<lambda>s a. snd (try_login env a s)) s0 as))"
proof -
  obtain locked tracker where l: "lt_isLocked t0 who (ap_tracker s) = (locked, tracker)" by fastforce
  have tr: "jm_wf (lt_attempts tracker)" "lt_lockoutDuration tracker = lt_lockoutDuration (ap_tracker s)"
    using assms(1) l unfolding lt_isLocked_def by (auto split: option.splits if_splits)
  obtain locked' tracker' where f: "lt_recordFailure t0 who tracker = (locked', tracker')" by fastforce
  have "locked' \<and> ap_tracker s0 = tracker'"
    using assms(2) unfolding auth_login_def issue_tokens_def
    by (auto simp: l f Let_def then_do_def on_db_def db split: option.splits if_splits prod.splits sum.splits)
  then have start: "locked_past who t0 h (ap_tracker s0)" using lt_recordFailure_True[of tracker t0 who h] tr assms(3,4) by (simp add: f)
  have "locked_past who t0 h (ap_tracker (foldl (\<lambda>s a. snd (try_login env a s)) s0 as))"
    using assms(5)
  proof (induction as rule: rev_induct)
    case (snoc b bs)
    have "t0 \<le> al_time b" "al_time b \<le> h" using snoc.prems[of b] by simp_all
    then show ?case using login_while_locked(1)[OF snoc.IH] snoc.prems by (simp add: try_login_def)
  qed (simp add: start)
  then show ?thesis unfolding try_login_def by (rule login_while_locked(2)[OF _ assms(7,8,6)])
qed

text \<open>The status of the account plays no part: a deactivated user logs in.\<close>

theorem status_unchecked_at_login:
  assumes "db_userByEmail (be_db env) email (ap_db s) = Some user" and "lt_isLocked now email (ap_tracker s) = (False, tracker)"
    and "be_compare env password (bu_passwordHash user)" and "\<And>t u f e w. fst (td_create (av_tokens env) t u f e w) = Inr ()"
  shows "\<not> rejected (auth_login env now family email password s)"
proof -
  have "\<not> rejected (issue_tokens env now user family s')" for s'
    using assms(4) unfolding issue_tokens_def rejected_def Let_def then_do_def on_db_def by (auto split: prod.splits sum.splits) (metis fst_conv sum.distinct(1))
  then show ?thesis unfolding auth_login_def assms(1,2) by (simp add: Let_def assms(3))
qed

end
