(* ===== verification/Backend_Orgs.thy ===== *)
theory Backend_Orgs
  imports Backend_Accounts Organizations Policy
begin

text \<open>
  Organizations of the backend template (\<open>templates/backend-core/src/organizations/organizations.service.ts\<close>) with the calls of its
  controller, the policies (\<open>src/policies/\<close>), and the rows that the seed writes (\<open>prisma/seed.ts\<close>). The Prisma client is the
  parameter \<open>org_db\<close>; rows are the records of \<open>Organizations\<close>.
\<close>

section \<open>The client and the audit trail\<close>

record 'w org_db =
  od_organizationById :: "string \<Rightarrow> 'w \<Rightarrow> json organization option"
  od_organizationByCode :: "string \<Rightarrow> 'w \<Rightarrow> json organization option"
  od_organizations :: "(json organization \<Rightarrow> bool) \<Rightarrow> 'w \<Rightarrow> json organization list"
  od_createOrganization :: "json partial \<Rightarrow> 'w \<Rightarrow> (app_error + json organization) \<times> 'w"
  od_updateOrganization :: "string \<Rightarrow> json partial \<Rightarrow> 'w \<Rightarrow> (app_error + json organization) \<times> 'w"
  od_departmentById :: "string \<Rightarrow> 'w \<Rightarrow> json department option"
  od_departments :: "(json department \<Rightarrow> bool) \<Rightarrow> 'w \<Rightarrow> json department list"
  od_createDepartment :: "json partial \<Rightarrow> 'w \<Rightarrow> (app_error + json department) \<times> 'w"
  od_updateDepartment :: "string \<Rightarrow> json partial \<Rightarrow> 'w \<Rightarrow> (app_error + json department) \<times> 'w"
  od_teamById :: "string \<Rightarrow> 'w \<Rightarrow> json team option"
  od_teams :: "(json team \<Rightarrow> bool) \<Rightarrow> 'w \<Rightarrow> json team list"
  od_createTeam :: "json partial \<Rightarrow> 'w \<Rightarrow> (app_error + json team) \<times> 'w"
  od_updateTeam :: "string \<Rightarrow> json partial \<Rightarrow> 'w \<Rightarrow> (app_error + json team) \<times> 'w"
  od_userExists :: "string \<Rightarrow> 'w \<Rightarrow> bool"
  od_memberships :: "(membership \<Rightarrow> bool) \<Rightarrow> 'w \<Rightarrow> membership list"
  od_upsertMembership :: "membership \<Rightarrow> 'w \<Rightarrow> (app_error + membership) \<times> 'w"
  od_deleteMembership :: "string \<Rightarrow> string \<Rightarrow> 'w \<Rightarrow> (app_error + unit) \<times> 'w"

text \<open>The queries answer \<open>findMany\<close> by name.\<close>

record ('w, 's) org_env =
  oe_db :: "'w org_db"
  oe_sha :: "json audit_entry \<Rightarrow> string"
  oe_save :: "json audit_entry \<Rightarrow> 's \<Rightarrow> 's"

definition in_apostrophes :: "string \<Rightarrow> string" where
  "in_apostrophes x = [CHR 0x27] @ x @ [CHR 0x27]"

record trail =
  ta_organizationId :: "string option"
  ta_departmentId :: "string option"
  ta_metadata :: "json option"

definition audited :: "('w, 's) org_env \<Rightarrow> int \<Rightarrow> string \<Rightarrow> string \<Rightarrow> string \<Rightarrow> ('a \<Rightarrow> string \<times> trail)
    \<Rightarrow> (app_error + 'a) \<times> ('w, 's) backend_app \<Rightarrow> (app_error + 'a) \<times> ('w, 's) backend_app" where
  "audited env now actorId action resource about x = then_do x (\<lambda>r s. (Inr r, (case about r of (resourceId, tail) \<Rightarrow>
     s\<lparr>ap_audit := audit_log (oe_sha env) (oe_save env) now
         ((audit_record ALLOW actorId action (Some resource) (Some resourceId) (ta_metadata tail))
            \<lparr>ae_organizationId := ta_organizationId tail, ae_departmentId := ta_departmentId tail\<rparr>) (ap_audit s)\<rparr>)))"

definition no_trail :: trail where
  "no_trail = \<lparr>ta_organizationId = None, ta_departmentId = None, ta_metadata = None\<rparr>"

definition text_member :: "string \<Rightarrow> string option \<Rightarrow> json_record" where
  "text_member k v = (case v of None \<Rightarrow> [] | Some x \<Rightarrow> [(k, JStr x)])"

text \<open>\<open>{ changes: dto }\<close> of an update: the name, the description and the flag, if given.\<close>

definition changes_of :: "json partial \<Rightarrow> json" where
  "changes_of d = JObj [(''changes'', JObj (text_member ''name'' (pt_name d) @ text_member ''description'' (pt_description d)
     @ (case pt_isActive d of None \<Rightarrow> [] | Some b \<Rightarrow> [(''isActive'', JBool b)])))]"

definition no_partial :: "json partial" where
  "no_partial = \<lparr>pt_id = None, pt_organizationId = None, pt_departmentId = None, pt_parentId = None, pt_name = None, pt_code = None,
     pt_description = None, pt_isActive = None, pt_metadata = None\<rparr>"

definition code_trail :: "string \<Rightarrow> trail" where
  "code_trail code = no_trail\<lparr>ta_metadata := Some (JObj [(''code'', JStr code)])\<rparr>"

section \<open>Organizations\<close>

definition ogs_create :: "('w, 's) org_env \<Rightarrow> int \<Rightarrow> json partial \<Rightarrow> string \<Rightarrow> ('w, 's) backend_app
    \<Rightarrow> (app_error + json organization) \<times> ('w, 's) backend_app" where
  "ogs_create env now dto actorId s =
     (if od_organizationByCode (oe_db env) (or_else (pt_code dto) []) (ap_db s) \<noteq> None
      then (Inl (Conflict (''Organization code '' @ in_apostrophes (or_else (pt_code dto) []) @ '' is already in use'')), s)
      else audited env now actorId ''organization.create'' ''organization'' (\<lambda>org. (og_id org, code_trail (og_code org)))
        (on_db (od_createOrganization (oe_db env) (dto\<lparr>pt_isActive := Some True\<rparr>)) s))"

definition ogs_findAll :: "('w, 's) org_env \<Rightarrow> ('w, 's) backend_app \<Rightarrow> json organization list" where
  "ogs_findAll env s = od_organizations (oe_db env) og_isActive (ap_db s)"

definition ogs_findById :: "('w, 's) org_env \<Rightarrow> string \<Rightarrow> ('w, 's) backend_app
    \<Rightarrow> app_error + json organization \<times> (json department \<times> json team list) list" where
  "ogs_findById env i s = (case od_organizationById (oe_db env) i (ap_db s) of
     None \<Rightarrow> Inl (Not_Found (''Organization '' @ in_apostrophes i @ '' not found''))
   | Some org \<Rightarrow> Inr (org, map (\<lambda>d. (d, od_teams (oe_db env) (\<lambda>t. tm_departmentId t = dp_id d \<and> tm_isActive t) (ap_db s)))
       (od_departments (oe_db env) (\<lambda>d. dp_organizationId d = i \<and> dp_isActive d) (ap_db s))))"

definition ogs_update :: "('w, 's) org_env \<Rightarrow> int \<Rightarrow> string \<Rightarrow> json partial \<Rightarrow> string \<Rightarrow> ('w, 's) backend_app
    \<Rightarrow> (app_error + json organization) \<times> ('w, 's) backend_app" where
  "ogs_update env now i dto actorId s = then_do (ogs_findById env i s, s) (\<lambda>_ s.
     audited env now actorId ''organization.update'' ''organization'' (\<lambda>_. (i, no_trail\<lparr>ta_metadata := Some (changes_of dto)\<rparr>))
       (on_db (od_updateOrganization (oe_db env) i dto) s))"

definition ogs_deactivate :: "('w, 's) org_env \<Rightarrow> int \<Rightarrow> string \<Rightarrow> string \<Rightarrow> ('w, 's) backend_app
    \<Rightarrow> (app_error + json organization) \<times> ('w, 's) backend_app" where
  "ogs_deactivate env now i actorId s = then_do (ogs_findById env i s, s) (\<lambda>_ s.
     audited env now actorId ''organization.deactivate'' ''organization'' (\<lambda>_. (i, no_trail))
       (on_db (od_updateOrganization (oe_db env) i (no_partial\<lparr>pt_isActive := Some False\<rparr>)) s))"

section \<open>Departments and teams\<close>

definition ogs_createDepartment :: "('w, 's) org_env \<Rightarrow> int \<Rightarrow> json partial \<Rightarrow> string \<Rightarrow> ('w, 's) backend_app
    \<Rightarrow> (app_error + json department) \<times> ('w, 's) backend_app" where
  "ogs_createDepartment env now dto actorId s =
     (let org = or_else (pt_organizationId dto) []
      in if od_organizationById (oe_db env) org (ap_db s) = None then (Inl (Not_Found (''Organization '' @ in_apostrophes org @ '' not found'')), s)
         else if (case pt_parentId dto of None \<Rightarrow> False | Some p \<Rightarrow> p \<noteq> []
             \<and> (case od_departmentById (oe_db env) p (ap_db s) of None \<Rightarrow> True | Some parent \<Rightarrow> dp_organizationId parent \<noteq> org))
         then (Inl (Not_Found (''Parent department '' @ in_apostrophes (or_else (pt_parentId dto) []) @ '' not found in this organization'')), s)
         else audited env now actorId ''department.create'' ''department''
           (\<lambda>d. (dp_id d, (code_trail (dp_code d))\<lparr>ta_organizationId := Some org\<rparr>))
           (on_db (od_createDepartment (oe_db env) (dto\<lparr>pt_isActive := Some True\<rparr>)) s))"

definition ogs_findDepartments :: "('w, 's) org_env \<Rightarrow> string \<Rightarrow> ('w, 's) backend_app \<Rightarrow> json department list" where
  "ogs_findDepartments env org s = od_departments (oe_db env) (\<lambda>d. dp_organizationId d = org \<and> dp_isActive d) (ap_db s)"

definition ogs_findDepartment :: "('w, 's) org_env \<Rightarrow> string \<Rightarrow> ('w, 's) backend_app \<Rightarrow> app_error + json department \<times> json team list" where
  "ogs_findDepartment env i s = (case od_departmentById (oe_db env) i (ap_db s) of
     None \<Rightarrow> Inl (Not_Found (''Department '' @ in_apostrophes i @ '' not found''))
   | Some d \<Rightarrow> Inr (d, od_teams (oe_db env) (\<lambda>t. tm_departmentId t = i \<and> tm_isActive t) (ap_db s)))"

definition ogs_updateDepartment :: "('w, 's) org_env \<Rightarrow> int \<Rightarrow> string \<Rightarrow> json partial \<Rightarrow> string \<Rightarrow> ('w, 's) backend_app
    \<Rightarrow> (app_error + json department) \<times> ('w, 's) backend_app" where
  "ogs_updateDepartment env now i dto actorId s = then_do (ogs_findDepartment env i s, s) (\<lambda>(d, _) s.
     audited env now actorId ''department.update'' ''department''
       (\<lambda>_. (i, \<lparr>ta_organizationId = Some (dp_organizationId d), ta_departmentId = None, ta_metadata = Some (changes_of dto)\<rparr>))
       (on_db (od_updateDepartment (oe_db env) i dto) s))"

definition ogs_createTeam :: "('w, 's) org_env \<Rightarrow> int \<Rightarrow> json partial \<Rightarrow> string \<Rightarrow> ('w, 's) backend_app
    \<Rightarrow> (app_error + json team) \<times> ('w, 's) backend_app" where
  "ogs_createTeam env now dto actorId s =
     (let dept = or_else (pt_departmentId dto) []
      in case od_departmentById (oe_db env) dept (ap_db s) of
        None \<Rightarrow> (Inl (Not_Found (''Department '' @ in_apostrophes dept @ '' not found'')), s)
      | Some d \<Rightarrow> audited env now actorId ''team.create'' ''team''
          (\<lambda>t. (tm_id t, (code_trail (tm_code t))\<lparr>ta_organizationId := Some (dp_organizationId d), ta_departmentId := Some dept\<rparr>))
          (on_db (od_createTeam (oe_db env) (dto\<lparr>pt_organizationId := Some (dp_organizationId d), pt_isActive := Some True\<rparr>)) s))"

definition ogs_findTeams :: "('w, 's) org_env \<Rightarrow> string \<Rightarrow> ('w, 's) backend_app \<Rightarrow> json team list" where
  "ogs_findTeams env dept s = od_teams (oe_db env) (\<lambda>t. tm_departmentId t = dept \<and> tm_isActive t) (ap_db s)"

definition ogs_findTeam :: "('w, 's) org_env \<Rightarrow> string \<Rightarrow> ('w, 's) backend_app \<Rightarrow> app_error + json team \<times> membership list" where
  "ogs_findTeam env i s = (case od_teamById (oe_db env) i (ap_db s) of
     None \<Rightarrow> Inl (Not_Found (''Team '' @ in_apostrophes i @ '' not found''))
   | Some t \<Rightarrow> Inr (t, od_memberships (oe_db env) (\<lambda>m. mb_teamId m = Some i) (ap_db s)))"

definition ogs_updateTeam :: "('w, 's) org_env \<Rightarrow> int \<Rightarrow> string \<Rightarrow> json partial \<Rightarrow> string \<Rightarrow> ('w, 's) backend_app
    \<Rightarrow> (app_error + json team) \<times> ('w, 's) backend_app" where
  "ogs_updateTeam env now i dto actorId s = then_do (ogs_findTeam env i s, s) (\<lambda>(t, _) s.
     audited env now actorId ''team.update'' ''team''
       (\<lambda>_. (i, \<lparr>ta_organizationId = Some (tm_organizationId t), ta_departmentId = Some (tm_departmentId t), ta_metadata = Some (changes_of dto)\<rparr>))
       (on_db (od_updateTeam (oe_db env) i dto) s))"

section \<open>Memberships\<close>

text \<open>The row that is created; an update leaves the date of joining.\<close>

definition ogs_addMember :: "('w, 's) org_env \<Rightarrow> int \<Rightarrow> string \<Rightarrow> membership \<Rightarrow> string \<Rightarrow> ('w, 's) backend_app
    \<Rightarrow> (app_error + membership) \<times> ('w, 's) backend_app" where
  "ogs_addMember env now org dto actorId s =
     (if \<not> od_userExists (oe_db env) (mb_userId dto) (ap_db s) then (Inl (Not_Found (''User '' @ in_apostrophes (mb_userId dto) @ '' not found'')), s)
      else if od_organizationById (oe_db env) org (ap_db s) = None then (Inl (Not_Found (''Organization '' @ in_apostrophes org @ '' not found'')), s)
      else audited env now actorId ''organization.addMember'' ''membership''
        (\<lambda>_. (mb_userId dto, \<lparr>ta_organizationId = Some org, ta_departmentId = None,
           ta_metadata = Some (JObj (text_member ''role'' (mb_role dto) @ text_member ''departmentId'' (mb_departmentId dto) @ text_member ''teamId'' (mb_teamId dto)))\<rparr>))
        (on_db (od_upsertMembership (oe_db env) (dto\<lparr>mb_organizationId := org, mb_joinedAt := Some now\<rparr>)) s))"

definition ogs_removeMember :: "('w, 's) org_env \<Rightarrow> int \<Rightarrow> string \<Rightarrow> string \<Rightarrow> string \<Rightarrow> ('w, 's) backend_app
    \<Rightarrow> (app_error + unit) \<times> ('w, 's) backend_app" where
  "ogs_removeMember env now org userId actorId s =
     audited env now actorId ''organization.removeMember'' ''membership'' (\<lambda>_. (userId, no_trail\<lparr>ta_organizationId := Some org\<rparr>))
       (on_db (od_deleteMembership (oe_db env) userId org) s)"

definition ogs_getMembers :: "('w, 's) org_env \<Rightarrow> string \<Rightarrow> string option \<Rightarrow> string option \<Rightarrow> ('w, 's) backend_app \<Rightarrow> membership list" where
  "ogs_getMembers env org departmentId teamId s =
     (let asked = (\<lambda>x. x \<noteq> None \<and> x \<noteq> Some [])
      in od_memberships (oe_db env) (\<lambda>m. mb_organizationId m = org \<and> (asked departmentId \<longrightarrow> mb_departmentId m = departmentId)
           \<and> (asked teamId \<longrightarrow> mb_teamId m = teamId)) (ap_db s))"

definition ogs_getUserMemberships :: "('w, 's) org_env \<Rightarrow> string \<Rightarrow> ('w, 's) backend_app \<Rightarrow> membership list" where
  "ogs_getUserMemberships env userId s = od_memberships (oe_db env) (\<lambda>m. mb_userId m = userId) (ap_db s)"

section \<open>The controller\<close>

text \<open>\<open>req.user?.id ?? 'system'\<close>, where the guard puts the claims of the token.\<close>

definition actor_of :: "claims option \<Rightarrow> string" where
  "actor_of user = (case Option.bind user (\<lambda>c. jm_get c ''id'') of Some (CStr x) \<Rightarrow> x | _ \<Rightarrow> ''system'')"

text \<open>The path wins over the body.\<close>

definition ctl_createDepartment :: "('w, 's) org_env \<Rightarrow> int \<Rightarrow> string \<Rightarrow> json partial \<Rightarrow> claims option \<Rightarrow> ('w, 's) backend_app
    \<Rightarrow> (app_error + json department) \<times> ('w, 's) backend_app" where
  "ctl_createDepartment env now orgId dto user = ogs_createDepartment env now (dto\<lparr>pt_organizationId := Some orgId\<rparr>) (actor_of user)"

definition ctl_createTeam :: "('w, 's) org_env \<Rightarrow> int \<Rightarrow> string \<Rightarrow> json partial \<Rightarrow> claims option \<Rightarrow> ('w, 's) backend_app
    \<Rightarrow> (app_error + json team) \<times> ('w, 's) backend_app" where
  "ctl_createTeam env now deptId dto user = ogs_createTeam env now (dto\<lparr>pt_departmentId := Some deptId\<rparr>) (actor_of user)"

section \<open>Policies\<close>

definition allow_without :: "string \<Rightarrow> string \<Rightarrow> authz_result" where
  "allow_without reason policy = \<lparr>ar_allowed = True, ar_reason = Some reason, ar_matchedPermission = None, ar_scope = None, ar_policy = Some policy\<rparr>"

definition decide :: "bool \<Rightarrow> string \<Rightarrow> string \<Rightarrow> string \<Rightarrow> string option \<Rightarrow> authz_result" where
  "decide ok yes no policy scope =
     \<lparr>ar_allowed = ok, ar_reason = Some (if ok then yes else no), ar_matchedPermission = None, ar_scope = scope, ar_policy = Some policy\<rparr>"

definition context_text :: "authz_context \<Rightarrow> string \<Rightarrow> string option" where
  "context_text ctx k = (case meta_get (ac_metadata ctx) k of Some [] \<Rightarrow> None | x \<Rightarrow> x)"

definition orgBoundary :: "authz_context \<Rightarrow> authz_result" where
  "orgBoundary ctx = (case context_text ctx ''resourceOrganizationId'' of
     None \<Rightarrow> allow_without ''No org context'' ''orgBoundary''
   | Some o1 \<Rightarrow> decide (au_organizationId (ac_user ctx) = Some o1) ''Same organization'' ''Cross-organization access denied'' ''orgBoundary'' (Some ''ORGANIZATION''))"

definition departmentAccess :: "authz_context \<Rightarrow> authz_result" where
  "departmentAccess ctx = (case context_text ctx ''resourceDepartmentId'' of
     None \<Rightarrow> allow_without ''No department context'' ''departmentAccess''
   | Some d \<Rightarrow> decide (au_departmentId (ac_user ctx) = Some d) ''Same department'' ''Cross-department access denied'' ''departmentAccess'' (Some ''DEPARTMENT''))"

definition ownership :: "authz_context \<Rightarrow> authz_result" where
  "ownership ctx = (case context_text ctx ''ownerId'' of
     None \<Rightarrow> allow_without ''No ownership context'' ''ownership''
   | Some owner \<Rightarrow> if ac_resourceId ctx = None \<or> ac_resourceId ctx = Some [] then allow_without ''No ownership context'' ''ownership''
       else decide (au_id (ac_user ctx) = owner) ''User is resource owner'' ''User is not the resource owner'' ''ownership'' None)"

definition BUILT_IN_POLICIES :: "authz_policy list" where
  "BUILT_IN_POLICIES = [\<lparr>po_name = ''orgBoundary'', po_evaluate = \<lambda>ctx. Inr (orgBoundary ctx)\<rparr>,
     \<lparr>po_name = ''departmentAccess'', po_evaluate = \<lambda>ctx. Inr (departmentAccess ctx)\<rparr>,
     \<lparr>po_name = ''ownership'', po_evaluate = \<lambda>ctx. Inr (ownership ctx)\<rparr>]"

section \<open>The seed\<close>

definition ROLES :: "(string \<times> string \<times> int) list" where
  "ROLES = [(''SUPER_ADMIN'', ''Super Administrator'', 100), (''ADMIN'', ''Administrator'', 90), (''MANAGER'', ''Manager'', 70),
     (''MODERATOR'', ''Moderator'', 50), (''LEADER'', ''Team Leader'', 40), (''STAFF'', ''Staff'', 20), (''USER'', ''User'', 10)]"

text \<open>Resource and action; the code is \<open>resource.action\<close> for each.\<close>

definition PERMISSIONS :: "(string \<times> string) list" where
  "PERMISSIONS = [(''user'', ''read''), (''user'', ''create''), (''user'', ''update''), (''user'', ''delete''), (''role'', ''read''), (''role'', ''manage''),
     (''task'', ''read''), (''task'', ''create''), (''task'', ''assign''), (''task'', ''complete''),
     (''report'', ''read''), (''report'', ''detail.read''), (''report'', ''export''), (''audit_log'', ''read'')]"

definition permission_codes :: "string list" where
  "permission_codes = map (\<lambda>(resource, action). resource @ ''.'' @ action) PERMISSIONS"

definition ROLE_PERMISSIONS :: "(string \<times> string list) list" where
  "ROLE_PERMISSIONS =
    [(''SUPER_ADMIN'', permission_codes), (''ADMIN'', permission_codes),
     (''MANAGER'', [''user.read'', ''user.create'', ''user.update'', ''role.read'', ''task.read'', ''task.create'', ''task.assign'', ''task.complete'',
        ''report.read'', ''report.detail.read'', ''report.export'']),
     (''MODERATOR'', [''user.read'', ''user.update'', ''role.read'', ''task.read'', ''task.create'', ''task.assign'', ''task.complete'',
        ''report.read'', ''report.detail.read'']),
     (''LEADER'', [''user.read'', ''task.read'', ''task.create'', ''task.assign'', ''task.complete'', ''report.read'']),
     (''STAFF'', [''user.read'', ''task.read'', ''task.create'', ''task.complete'', ''report.read'']),
     (''USER'', [''user.read'', ''task.read'', ''task.complete''])]"

definition ROLE_HIERARCHY :: "(string \<times> string) list" where
  "ROLE_HIERARCHY = [(''ADMIN'', ''SUPER_ADMIN''), (''MANAGER'', ''ADMIN''), (''MODERATOR'', ''MANAGER''), (''LEADER'', ''MODERATOR''),
     (''STAFF'', ''LEADER''), (''USER'', ''STAFF'')]"

text \<open>The rows that are written if they are missing, in the order of the seed: each names the rows it refers to.\<close>

datatype seed_row = Seed_role string | Seed_permission string | Seed_role_permission string string | Seed_parent string string
  | Seed_scope string | Seed_organization string

definition seed_rows :: "seed_row list" where
  "seed_rows = map (\<lambda>(code, _, _). Seed_role code) ROLES @ map Seed_permission permission_codes
     @ concat (map (\<lambda>(role, codes). map (Seed_role_permission role) codes) ROLE_PERMISSIONS)
     @ map (\<lambda>(role, parent). Seed_parent role parent) ROLE_HIERARCHY
     @ map Seed_scope [''OWN'', ''TEAM'', ''DEPARTMENT'', ''ORGANIZATION'', ''SYSTEM''] @ [Seed_organization ''SYSTEM'']"

fun seed_all :: "(seed_row \<Rightarrow> 'w \<Rightarrow> (app_error + unit) \<times> 'w) \<Rightarrow> seed_row list \<Rightarrow> 'w \<Rightarrow> (app_error + unit) \<times> 'w" where
  "seed_all upsert [] w = (Inr (), w)"
| "seed_all upsert (r # rs) w = then_do (upsert r w) (\<lambda>_. seed_all upsert rs)"

definition seed :: "(seed_row \<Rightarrow> 'w \<Rightarrow> (app_error + unit) \<times> 'w) \<Rightarrow> 'w \<Rightarrow> (app_error + unit) \<times> 'w" where
  "seed upsert = seed_all upsert seed_rows"

section \<open>Refused calls leave no trace\<close>

definition keeps_trail :: "('w, 's) backend_app \<Rightarrow> (app_error + 'a) \<times> ('w, 's) backend_app \<Rightarrow> bool" where
  "keeps_trail s x \<longleftrightarrow> (\<forall>e. fst x = Inl e \<longrightarrow> ap_audit (snd x) = ap_audit s)"

lemma keeps_trail_Inl [simp]: "keeps_trail s (Inl e, s)"
  by (simp add: keeps_trail_def)

lemma keeps_trail_audited [simp]: "keeps_trail s (audited env now actorId action resource about (on_db f s))"
  by (cases "f (ap_db s)"; cases "fst (f (ap_db s))") (simp_all add: keeps_trail_def audited_def then_do_def on_db_def)

lemma keeps_trail_checked [simp]: "(\<And>x. r = Inr x \<Longrightarrow> keeps_trail s (f x s)) \<Longrightarrow> keeps_trail s (then_do (r, s) f)"
  by (cases r) (simp_all add: then_do_def)

text \<open>A call that is refused writes nothing to the audit log.\<close>

theorem refused_calls_leave_no_trace:
  "keeps_trail s (ogs_create env now dto actor s)" "keeps_trail s (ogs_update env now i dto actor s)" "keeps_trail s (ogs_deactivate env now i actor s)"
  "keeps_trail s (ogs_createDepartment env now dto actor s)" "keeps_trail s (ogs_updateDepartment env now i dto actor s)"
  "keeps_trail s (ogs_createTeam env now dto actor s)" "keeps_trail s (ogs_updateTeam env now i dto actor s)"
  "keeps_trail s (ogs_addMember env now org m actor s)" "keeps_trail s (ogs_removeMember env now org userId actor s)"
  by (simp_all add: ogs_create_def ogs_update_def ogs_deactivate_def ogs_createDepartment_def ogs_updateDepartment_def
      ogs_createTeam_def ogs_updateTeam_def ogs_addMember_def ogs_removeMember_def Let_def split: option.split prod.split)

text \<open>The claims of a login have no \<open>id\<close>: every entry names the system as the actor.\<close>

lemma actor_without_id: "jm_get c ''id'' = None \<Longrightarrow> actor_of (Some c) = ''system''"
  by (simp add: actor_of_def)

section \<open>What the seed writes\<close>

definition refers_to :: "seed_row \<Rightarrow> seed_row list" where
  "refers_to r = (case r of Seed_role_permission role permission \<Rightarrow> [Seed_role role, Seed_permission permission]
     | Seed_parent role parent \<Rightarrow> [Seed_role role, Seed_role parent] | _ \<Rightarrow> [])"

fun in_order :: "seed_row list \<Rightarrow> seed_row list \<Rightarrow> bool" where
  "in_order done_rows [] \<longleftrightarrow> True"
| "in_order done_rows (r # rs) \<longleftrightarrow> set (refers_to r) \<subseteq> set done_rows \<and> r \<notin> set done_rows \<and> in_order (r # done_rows) rs"

text \<open>Every row comes after the rows it refers to, and none is written twice.\<close>

theorem seed_rows_in_order: "in_order [] seed_rows"
  by code_simp

text \<open>The codes that the services compare with are not those that the seed writes.\<close>

theorem checked_codes_not_seeded: "Seed_role ''super_admin'' \<notin> set seed_rows" "Seed_role ''admin'' \<notin> set seed_rows"
  by code_simp+

text \<open>So anyone who may assign roles may assign the highest one.\<close>

theorem seeded_super_admin_unguarded: "may_assign actorRoles ''SUPER_ADMIN''"
  by (simp add: may_assign_def)

end
