(* ===== verification/Api_Sources.thy ===== *)
theory Api_Sources
  imports Api_Methods Api_Pairwise
begin

text \<open>
  The remaining sources of tests of the API tester (\<open>packages/api-test/src\<close>): flows (\<open>methods/flow.ts\<close>), tests from rows of data
  (\<open>methods/parameterized.ts\<close>), the requests of pairwise rows (\<open>methods/pairwise.ts\<close>), tests from an OpenAPI document
  (\<open>methods/spec-drift.ts\<close>), scripts for load tests (\<open>methods/load-test.ts\<close>), the recording of responses (\<open>recorder.ts\<close>)
  and the reports (\<open>reporter.ts\<close>). Files are values: what is read is an argument, what is written is a result.
\<close>

section \<open>Flows\<close>

record flow_step =
  fs_method :: string
  fs_path :: string
  fs_body :: "json option"
  fs_headers :: "(string, string) jsmap option"
  fs_extract :: "(string, string) jsmap option"
  fs_status :: "int list"

record flow_config =
  fc_name :: string
  fc_steps :: "flow_step list"

record flow_test = test_case +
  fw_dependsOn :: "string option"
  fw_stepIndex :: nat

text \<open>Placeholders in every text of a value and, with \<open>f\<close>, in its keys.\<close>

fun substitute_deep :: "(string \<Rightarrow> string) \<Rightarrow> (string \<Rightarrow> string) \<Rightarrow> json \<Rightarrow> json"
  and substitute_elems :: "(string \<Rightarrow> string) \<Rightarrow> (string \<Rightarrow> string) \<Rightarrow> json list \<Rightarrow> json list"
  and substitute_members :: "(string \<Rightarrow> string) \<Rightarrow> (string \<Rightarrow> string) \<Rightarrow> (string \<times> json) list \<Rightarrow> json_record \<Rightarrow> json_record" where
  "substitute_deep f g (JStr s) = JStr (g s)"
| "substitute_deep f g (JArr xs) = JArr (substitute_elems f g xs)"
| "substitute_deep f g (JObj kvs) = JObj (substitute_members f g kvs [])"
| "substitute_deep f g JNull = JNull"
| "substitute_deep f g (JBool b) = JBool b"
| "substitute_deep f g (JNum n) = JNum n"
| "substitute_elems f g [] = []"
| "substitute_elems f g (x # xs) = substitute_deep f g x # substitute_elems f g xs"
| "substitute_members f g [] acc = acc"
| "substitute_members f g ((k, v) # kvs) acc = substitute_members f g kvs (jm_set acc (f k) (substitute_deep f g v))"

definition flow_substituteDeep :: "json \<Rightarrow> (string, string) jsmap \<Rightarrow> json" where
  "flow_substituteDeep x vars = substitute_deep (\<lambda>k. substituteVariables k vars) (\<lambda>s. substituteVariables s vars) x"

definition flow_request :: "api_env \<Rightarrow> api_config \<Rightarrow> flow_step \<Rightarrow> test_request" where
  "flow_request env cfg step =
     (let ep = bare_endpoint (fs_method step) (fs_path step);
          h = assign_all (buildHeaders env cfg ep) (or_else (fs_headers step) []);
          h = (if truthy_body (fs_body step)
               then jm_set h ''Content-Type'' (if truthy_string (jm_get h ''Content-Type'') then the (jm_get h ''Content-Type'') else ''application/json'') else h)
      in \<lparr>rq_method = fs_method step, rq_url = buildUrl env cfg ep, rq_headers = h, rq_body = fs_body step\<rparr>)"

fun flow_tests :: "api_env \<Rightarrow> api_config \<Rightarrow> string \<Rightarrow> nat \<Rightarrow> string option \<Rightarrow> flow_step list \<Rightarrow> nat \<Rightarrow> flow_test list" where
  "flow_tests env cfg name i previous [] counter = []"
| "flow_tests env cfg name i previous (step # steps) counter = (case nextId counter ''flow'' of (ident, counter) \<Rightarrow>
     test_case.extend ((status_test ''flow'' (flow_request env cfg step) (fs_status step) ident)
         \<lparr>tc_flowName := Some name, tc_extractVariables := fs_extract step\<rparr>) \<lparr>fw_dependsOn = previous, fw_stepIndex = i\<rparr>
       # flow_tests env cfg name (Suc i) (Some ident) steps counter)"

definition generateFlow :: "api_env \<Rightarrow> api_config \<Rightarrow> flow_config \<Rightarrow> nat \<Rightarrow> flow_test list" where
  "generateFlow env cfg flow counter = flow_tests env cfg (fc_name flow) 0 None (fc_steps flow) counter"

section \<open>Rows of data\<close>

datatype data_source = Inline | Csv | Json_source

record parameterized_config =
  pz_endpoint :: endpoint_config
  pz_dataSource :: data_source
  pz_data :: "json list"
  pz_filePath :: "string option"
  pz_expectPerRow :: "int option"

record parameterized_test = test_case +
  pz_rowIndex :: nat
  pz_rowData :: json_record

definition data_csv_row :: "string list \<Rightarrow> string \<Rightarrow> (string, string) jsmap" where
  "data_csv_row headers line = (let vs = map js_trim (js_split CHR '','' line)
     in foldl (\<lambda>m (i, h). jm_set m h (if i < length vs then vs ! i else [])) [] (zip [0..<length headers] headers))"

definition parseCsv :: "string \<Rightarrow> (string, string) jsmap list" where
  "parseCsv content = (let ls = filter (\<lambda>l. l \<noteq> []) (map js_trim (js_split (CHR 0x0A) (js_trim content)))
     in if length ls < 2 then [] else map (data_csv_row (map js_trim (js_split CHR '','' (hd ls)))) (tl ls))"

text \<open>\<open>None\<close>: the file cannot be read, is not JSON or is no list.\<close>

definition loadData :: "api_env \<Rightarrow> (string \<Rightarrow> string option) \<Rightarrow> parameterized_config \<Rightarrow> json list option" where
  "loadData env read_file pz = (case pz_dataSource pz of
     Inline \<Rightarrow> Some (pz_data pz)
   | Csv \<Rightarrow> map_option (\<lambda>text. map (\<lambda>row. JObj (map (\<lambda>(k, v). (k, JStr v)) row)) (parseCsv text)) (read_file (or_else (pz_filePath pz) []))
   | Json_source \<Rightarrow> (case Option.bind (read_file (or_else (pz_filePath pz) [])) (av_parse env) of Some (JArr xs) \<Rightarrow> Some xs | _ \<Rightarrow> None))"

definition row_object :: "json \<Rightarrow> json_record" where
  "row_object row = (case row of JObj kvs \<Rightarrow> kvs | JArr xs \<Rightarrow> zip (map js_of_nat [0..<length xs]) xs | _ \<Rightarrow> [(''value'', row)])"

definition row_substitute :: "api_env \<Rightarrow> json_record \<Rightarrow> string \<Rightarrow> string" where
  "row_substitute env row s = substituteVariables s (map (\<lambda>(k, v). (k, av_String env v)) row)"

text \<open>\<open>row._expect?.status ?? expectPerRow?.status ?? 200\<close>; a status that is no number is met by no response.\<close>

definition row_status :: "parameterized_config \<Rightarrow> json_record \<Rightarrow> int list" where
  "row_status pz row = (case Option.bind (jm_get row ''_expect'') (\<lambda>x. js_member x ''status'') of
     Some (JNum n) \<Rightarrow> (if n = of_int \<lfloor>n\<rfloor> then [\<lfloor>n\<rfloor>] else [])
   | Some (JArr xs) \<Rightarrow> concat (map (\<lambda>x. case x of JNum n \<Rightarrow> (if n = of_int \<lfloor>n\<rfloor> then [\<lfloor>n\<rfloor>] else []) | _ \<Rightarrow> []) xs)
   | Some JNull \<Rightarrow> [or_else (pz_expectPerRow pz) 200]
   | Some _ \<Rightarrow> []
   | None \<Rightarrow> [or_else (pz_expectPerRow pz) 200])"

definition row_test :: "api_env \<Rightarrow> api_config \<Rightarrow> parameterized_config \<Rightarrow> nat \<times> json \<Rightarrow> string \<Rightarrow> parameterized_test" where
  "row_test env cfg pz = (\<lambda>(i, row) ident.
     (let obj = row_object row; rq = same_request env cfg (pz_endpoint pz);
          rq = rq\<lparr>rq_url := row_substitute env obj (rq_url rq),
                  rq_body := (if truthy_body (ep_body (pz_endpoint pz)) then map_option (substitute_deep (\<lambda>k. k) (row_substitute env obj)) (ep_body (pz_endpoint pz)) else None)\<rparr>
      in test_case.extend (status_test ''parameterized'' rq (row_status pz obj) ident) \<lparr>pz_rowIndex = i, pz_rowData = obj\<rparr>))"

definition generateParameterized :: "api_env \<Rightarrow> (string \<Rightarrow> string option) \<Rightarrow> api_config \<Rightarrow> parameterized_config \<Rightarrow> nat \<Rightarrow> parameterized_test list option" where
  "generateParameterized env read_file cfg pz counter =
     map_option (\<lambda>rows. with_ids counter ''param'' (map (row_test env cfg pz) (zip [0..<length rows] rows))) (loadData env read_file pz)"

section \<open>Pairwise rows\<close>

record row_places =
  wp_body :: json_record
  wp_query :: "(string, string) jsmap"
  wp_headers :: "(string, string) jsmap"
  wp_params :: "(string, string) jsmap"

definition place_value :: "api_env \<Rightarrow> pairwise_parameter \<times> int \<Rightarrow> row_places \<Rightarrow> row_places" where
  "place_value env = (\<lambda>(p, i) w. let v = pw_values p ! nat i in (case pw_location p of
     InBody \<Rightarrow> w\<lparr>wp_body := jm_set (wp_body w) (pw_field p) v\<rparr>
   | InQuery \<Rightarrow> w\<lparr>wp_query := jm_set (wp_query w) (pw_field p) (av_String env v)\<rparr>
   | InHeader \<Rightarrow> w\<lparr>wp_headers := jm_set (wp_headers w) (pw_field p) (av_String env v)\<rparr>
   | InParam \<Rightarrow> w\<lparr>wp_params := jm_set (wp_params w) (pw_field p) (av_String env v)\<rparr>))"

definition given_map :: "('k, 'v) jsmap \<Rightarrow> ('k, 'v) jsmap option" where
  "given_map m = (if m = [] then None else Some m)"

definition applyRow :: "api_env \<Rightarrow> int list \<Rightarrow> pairwise_parameter list \<Rightarrow> endpoint_config \<Rightarrow> api_config \<Rightarrow> test_request" where
  "applyRow env r params ep cfg =
     (let body0 = (case ep_body ep of Some (JObj kvs) \<Rightarrow> kvs | Some (JArr xs) \<Rightarrow> zip (map js_of_nat [0..<length xs]) xs | _ \<Rightarrow> []);
          w = fold (place_value env) (zip params r) \<lparr>wp_body = body0, wp_query = or_else (ep_query ep) [], wp_headers = [], wp_params = or_else (ep_params ep) []\<rparr>;
          body = (if wp_body w = [] then ep_body ep else Some (JObj (wp_body w)));
          modified = ep\<lparr>ep_params := given_map (wp_params w), ep_query := given_map (wp_query w), ep_body := body\<rparr>
      in \<lparr>rq_method = ep_method ep, rq_url = buildUrl env cfg modified, rq_headers = assign_all (buildHeaders env cfg modified) (wp_headers w), rq_body = body\<rparr>)"

definition generatePairwiseTests :: "api_env \<Rightarrow> api_config \<Rightarrow> endpoint_config \<Rightarrow> pairwise_parameter list \<Rightarrow> nat \<Rightarrow> test_case list option" where
  "generatePairwiseTests env cfg ep params counter = map_option (\<lambda>rows.
     with_ids counter ''pairwise'' (map (\<lambda>r. status_test ''edge'' (applyRow env r params ep cfg) [200, 201, 400, 422]) rows)) (generateCoveringArray params)"

section \<open>OpenAPI documents\<close>

text \<open>A schema is a JSON value; a member of anything that is no object is absent.\<close>

definition member_of :: "string \<Rightarrow> json option \<Rightarrow> json option" where
  "member_of k x = Option.bind x (\<lambda>x. js_member x k)"

definition members_of :: "json option \<Rightarrow> json_record" where
  "members_of x = (case x of Some (JObj kvs) \<Rightarrow> kvs | _ \<Rightarrow> [])"

definition elements_of :: "json option \<Rightarrow> json list" where
  "elements_of x = (case x of Some (JArr xs) \<Rightarrow> xs | _ \<Rightarrow> [])"

definition resolveRef :: "json \<Rightarrow> json \<Rightarrow> json" where
  "resolveRef spec schema = (case js_member schema ''$ref'' of
     Some (JStr ref) \<Rightarrow> if ref = [] then schema
       else (case fold member_of (js_split CHR ''/'' (replace_first ''#/'' [] ref)) (Some spec) of
         None \<Rightarrow> schema | Some found \<Rightarrow> if js_truthy found then found else schema)
   | _ \<Rightarrow> schema)"

definition own_properties :: "json \<Rightarrow> json \<Rightarrow> (string, string \<times> bool) jsmap \<Rightarrow> (string, string \<times> bool) jsmap" where
  "own_properties spec resolved acc =
     (let required = map (\<lambda>x. case x of JStr s \<Rightarrow> s | _ \<Rightarrow> []) (elements_of (js_member resolved ''required''))
      in foldl (\<lambda>m (key, prop). jm_set m key
           ((case js_member (resolveRef spec prop) ''type'' of Some (JStr t) \<Rightarrow> (if t = [] then ''unknown'' else t) | _ \<Rightarrow> ''unknown''), key \<in> set required))
           acc (members_of (js_member resolved ''properties'')))"

text \<open>The properties of the schemas of a list and of all that they are composed of; \<open>None\<close>: the composition never ends.\<close>

partial_function (option) flatten_schemas :: "json \<Rightarrow> (string, string \<times> bool) jsmap \<Rightarrow> json list \<Rightarrow> (string, string \<times> bool) jsmap option" where
  "flatten_schemas spec acc schemas = (case schemas of
     [] \<Rightarrow> Some acc
   | schema # rest \<Rightarrow> let resolved = resolveRef spec schema
       in flatten_schemas spec (own_properties spec resolved acc) (elements_of (js_member resolved ''allOf'') @ rest))"

definition flattenProperties :: "json \<Rightarrow> json \<Rightarrow> (string, string \<times> bool) jsmap option" where
  "flattenProperties spec schema = flatten_schemas spec [] [schema]"

definition success_schema :: "json \<Rightarrow> string \<Rightarrow> json option" where
  "success_schema operation code =
     (let responses = js_member operation ''responses'';
          response = (case member_of code responses of Some x \<Rightarrow> (if js_truthy x then Some x else member_of ''200'' responses) | None \<Rightarrow> member_of ''200'' responses)
      in member_of ''schema'' (member_of ''application/json'' (member_of ''content'' response)))"

definition schema_test :: "test_request \<Rightarrow> int \<Rightarrow> (string, string \<times> bool) jsmap \<Rightarrow> (string \<Rightarrow> test_case) list" where
  "schema_test rq code props = (if props = [] then []
     else [plain_test ''spec-drift'' rq ((plain_expectation [code])\<lparr>ex_specFields := Some (map (\<lambda>(k, _, required). (k, required)) props)\<rparr>)])"

definition operation_tests :: "api_env \<Rightarrow> (string \<Rightarrow> int option) \<Rightarrow> (int \<Rightarrow> string) \<Rightarrow> api_config \<Rightarrow> json \<Rightarrow> string \<Rightarrow> string \<Rightarrow> json
    \<Rightarrow> (string \<Rightarrow> test_case) list option" where
  "operation_tests env parseInt show_int cfg spec path m operation =
     (let rq = same_request env cfg (bare_endpoint (to_upper m) path);
          statuses = concat (map (\<lambda>(k, _). case parseInt k of None \<Rightarrow> [] | Some n \<Rightarrow> [n]) (members_of (js_member operation ''responses'')));
          success = or_else (find (\<lambda>s. 200 \<le> s \<and> s < 300) statuses) 200;
          required = filter (\<lambda>p. case js_member p ''required'' of Some x \<Rightarrow> js_truthy x | None \<Rightarrow> False) (elements_of (js_member operation ''parameters''));
          shape = (case success_schema operation (show_int success) of
             Some schema \<Rightarrow> if js_truthy schema then map_option (schema_test rq success) (flattenProperties spec schema) else Some []
           | None \<Rightarrow> Some [])
      in map_option (\<lambda>shape. (if statuses \<noteq> [] then [status_test ''spec-drift'' rq statuses] else []) @ shape
           @ (if required \<noteq> [] then [status_test ''spec-drift'' rq [success, 400, 422]] else [])) shape)"

fun all_some :: "'a option list \<Rightarrow> 'a list option" where
  "all_some [] = Some []"
| "all_some (x # xs) = (case x of None \<Rightarrow> None | Some a \<Rightarrow> map_option (Cons a) (all_some xs))"

definition generateSpecDriftTests :: "api_env \<Rightarrow> (string \<Rightarrow> int option) \<Rightarrow> (int \<Rightarrow> string) \<Rightarrow> api_config \<Rightarrow> json \<Rightarrow> nat \<Rightarrow> test_case list option" where
  "generateSpecDriftTests env parseInt show_int cfg spec counter =
     map_option (\<lambda>ts. with_ids counter ''drift'' (concat ts))
       (all_some (concat (map (\<lambda>(path, ms). map (\<lambda>(m, operation). operation_tests env parseInt show_int cfg spec path m operation)
           (filter (\<lambda>(m, _). m \<notin> {''parameters'', ''summary'', ''description'', ''servers''}) (members_of (Some ms))))
         (members_of (js_member spec ''paths'')))))"

section \<open>Load tests\<close>

record load_config =
  ld_stages :: "(string \<times> rat) list option"
  ld_p95Threshold :: "rat option"
  ld_maxFailRate :: "rat option"
  ld_connections :: "rat option"
  ld_duration :: "rat option"

definition DEFAULT_STAGES :: "(string \<times> rat) list" where
  "DEFAULT_STAGES = [(''30s'', 10), (''1m'', 50), (''30s'', 0)]"

definition or_number :: "rat option \<Rightarrow> rat \<Rightarrow> rat" where
  "or_number x d = (case x of None \<Rightarrow> d | Some n \<Rightarrow> if n = 0 then d else n)"

definition apostrophes :: "string \<Rightarrow> string" where
  "apostrophes x = [CHR 0x27] @ x @ [CHR 0x27]"

definition k6_call :: "api_env \<Rightarrow> api_config \<Rightarrow> endpoint_config \<Rightarrow> string" where
  "k6_call env cfg ep =
     (let url = apostrophes (buildUrl env cfg ep);
          body = (if truthy_body (ep_body ep) \<and> ep_method ep \<in> set with_body_methods then '', '' @ av_stringify env (the (ep_body ep)) else [])
      in if ep_method ep = ''GET'' then ''http.get('' @ url @ '', { headers })''
         else if ep_method ep = ''DELETE'' then ''http.del('' @ url @ '', null, { headers })''
         else ''http.'' @ to_lower (ep_method ep) @ ''('' @ url @ body @ '', { headers })'')"

text \<open>\<open>pretty\<close> prints the headers with an indentation of four.\<close>

definition generateK6Script :: "api_env \<Rightarrow> ((string, string) jsmap \<Rightarrow> string) \<Rightarrow> endpoint_config \<Rightarrow> api_config \<Rightarrow> load_config \<Rightarrow> string" where
  "generateK6Script env pretty ep cfg ld =
     (let newline = [CHR 0x0A]; num = (\<lambda>n. av_String env (JNum n));
          p95 = num (or_number (ld_p95Threshold ld) 500); rate = num (or_number (ld_maxFailRate ld) (5 / 100));
          headers = (case js_split (CHR 0x0A) (pretty (buildHeaders env cfg ep)) of [] \<Rightarrow> [] | l # ls \<Rightarrow> js_join newline (l # map (\<lambda>l. ''    '' @ l) ls));
          stages = js_join newline (map (\<lambda>(d, target). ''    { duration: '' @ apostrophes d @ '', target: '' @ num target @ '' },'') (or_else (ld_stages ld) DEFAULT_STAGES))
      in concat (map (\<lambda>l. l @ newline)
        [''// Generated load test for '' @ ep_method ep @ '' '' @ ep_path ep, ''// Run: k6 run <this-file>'',
         ''import http from '' @ apostrophes ''k6/http'' @ '';'', ''import { check, sleep } from '' @ apostrophes ''k6'' @ '';'', [],
         ''export const options = {'', ''  stages: ['', stages, ''  ],'', ''  thresholds: {'',
         ''    http_req_duration: ['' @ apostrophes (''p(95)<'' @ p95) @ ''],'', ''    http_req_failed: ['' @ apostrophes (''rate<'' @ rate) @ ''],'',
         ''  },'', ''};'', [], ''const headers = '' @ headers @ '';'', [], ''export default function () {'', ''  const res = '' @ k6_call env cfg ep @ '';'',
         ''  check(res, {'', ''    '' @ apostrophes ''status is 2xx'' @ '': (r) => r.status >= 200 && r.status < 300,'',
         ''    '' @ apostrophes (''response time < '' @ p95 @ ''ms'') @ '': (r) => r.timings.duration < '' @ p95 @ '','',
         ''  });'', ''  sleep(1);'', ''}'']))"

definition generateAutocannonConfig :: "api_env \<Rightarrow> endpoint_config \<Rightarrow> api_config \<Rightarrow> load_config \<Rightarrow> json" where
  "generateAutocannonConfig env ep cfg ld = JObj ([(''url'', JStr (buildUrl env cfg ep)), (''connections'', JNum (or_number (ld_connections ld) 10)),
       (''duration'', JNum (or_number (ld_duration ld) 30)), (''method'', JStr (ep_method ep)),
       (''headers'', JObj (map (\<lambda>(k, v). (k, JStr v)) (buildHeaders env cfg ep)))]
     @ (if truthy_body (ep_body ep) \<and> ep_method ep \<in> set with_body_methods then [(''body'', JStr (av_stringify env (the (ep_body ep))))] else []))"

definition pathSlug :: "endpoint_config \<Rightarrow> string" where
  "pathSlug ep = (let under = (\<lambda>c. c = CHR ''_''); s = map (\<lambda>c. if c = CHR ''/'' \<or> c = CHR '':'' then CHR ''_'' else c) (ep_path ep)
     in ep_method ep @ ''_'' @ rev (dropWhile under (rev (dropWhile under s))))"

text \<open>The files that are written, with their texts; the text of the README is an argument.\<close>

definition generateLoadTests :: "api_env \<Rightarrow> ((string, string) jsmap \<Rightarrow> string) \<Rightarrow> (string list \<Rightarrow> string) \<Rightarrow> string \<Rightarrow> string option \<Rightarrow> recording list
    \<Rightarrow> api_config \<Rightarrow> load_config \<Rightarrow> (string \<times> string) list" where
  "generateLoadTests env pretty join_path readme outputDir recordings cfg ld =
     (let dir = join_path [if truthy_string outputDir then the outputDir else ''./api-tests'', ''load''];
          live = filter (\<lambda>r. rc_status r \<noteq> 0 \<and> rc_status r < 500) recordings;
          configs = foldl (\<lambda>m r. jm_set m (pathSlug (rc_endpoint r)) (generateAutocannonConfig env (rc_endpoint r) cfg ld)) [] live
      in map (\<lambda>r. (join_path [dir, ''k6'', pathSlug (rc_endpoint r) @ ''.js''], generateK6Script env pretty (rc_endpoint r) cfg ld)) live
         @ [(join_path [dir, ''autocannon'', ''config.json''], av_stringify env (JObj configs)), (join_path [dir, ''README.md''], readme)])"

section \<open>Recording\<close>

definition failed_recording :: "endpoint_config \<Rightarrow> recording" where
  "failed_recording ep = \<lparr>rc_endpoint = ep, rc_status = 0, rc_headers = [], rc_body = JNull\<rparr>"

definition recordEndpoint :: "api_env \<Rightarrow> 'w server \<Rightarrow> api_config \<Rightarrow> endpoint_config \<Rightarrow> 'w \<Rightarrow> (string + recording) \<times> 'w" where
  "recordEndpoint env server cfg ep w = (case server (same_request env cfg ep) w of (r, w) \<Rightarrow>
     (map_sum id (\<lambda>r. \<lparr>rc_endpoint = ep, rc_status = rs_status r, rc_headers = rs_headers r, rc_body = rs_body r\<rparr>) r, w))"

fun record_all :: "api_env \<Rightarrow> 'w server \<Rightarrow> api_config \<Rightarrow> endpoint_config list \<Rightarrow> 'w \<Rightarrow> recording list \<times> 'w" where
  "record_all env server cfg [] w = ([], w)"
| "record_all env server cfg (ep # eps) w = (case recordEndpoint env server cfg ep w of (r, w) \<Rightarrow>
     (case record_all env server cfg eps w of (rs, w) \<Rightarrow> ((case r of Inl _ \<Rightarrow> failed_recording ep | Inr x \<Rightarrow> x) # rs, w)))"

section \<open>Reports\<close>

text \<open>The texts of a test that the model of a test leaves out, and the printing of a number with one decimal.\<close>

record report_texts =
  rt_name :: "test_case \<Rightarrow> string"
  rt_mutation :: "test_case \<Rightarrow> string"
  rt_reason :: "fail_reason \<Rightarrow> string"
  rt_fixed :: "rat \<Rightarrow> string"
  rt_number :: "int \<Rightarrow> string"
  rt_duration :: "test_result \<Rightarrow> int"

definition passed_count :: "test_result list \<Rightarrow> nat" where
  "passed_count rs = length (filter re_passed rs)"

definition pass_rate :: "report_texts \<Rightarrow> test_result list \<Rightarrow> string" where
  "pass_rate t rs = (if rs = [] then ''0'' else rt_fixed t (of_nat (passed_count rs) / of_nat (length rs) * 100))"

definition reportJson :: "report_texts \<Rightarrow> string \<Rightarrow> test_result list \<Rightarrow> json" where
  "reportJson t timestamp rs = JObj [(''timestamp'', JStr timestamp), (''total'', JNum (of_nat (length rs))), (''passed'', JNum (of_nat (passed_count rs))),
     (''failed'', JNum (of_nat (length (filter (\<lambda>r. \<not> re_passed r) rs)))), (''rate'', JStr (pass_rate t rs)),
     (''results'', JArr (map (\<lambda>r. JObj ([(''id'', JStr (tc_id (re_case r))), (''name'', JStr (rt_name t (re_case r))), (''category'', JStr (tc_category (re_case r))),
        (''mutation'', JStr (rt_mutation t (re_case r))), (''passed'', JBool (re_passed r))]
        @ (case re_reason r of None \<Rightarrow> [] | Some x \<Rightarrow> [(''reason'', JStr (rt_reason t x))])
        @ [(''expectedStatus'', JArr (map (\<lambda>n. JNum (of_int n)) (ex_status (tc_expect (re_case r))))),
           (''actualStatus'', JNum (of_int (re_status r))), (''duration'', JNum (of_int (rt_duration t r)))])) rs))]"

definition category_row :: "test_result list \<Rightarrow> string \<Rightarrow> string" where
  "category_row rs cat = (let mine = filter (\<lambda>r. tc_category (re_case r) = cat) rs; passed = passed_count mine
     in ''<tr><td>'' @ cat @ ''</td><td>'' @ js_of_nat (length mine) @ ''</td><td class='' @ in_quotes ''pass'' @ ''>'' @ js_of_nat passed
        @ ''</td><td class='' @ in_quotes ''fail'' @ ''>'' @ js_of_nat (length mine - passed) @ ''</td></tr>'')"

definition test_row :: "report_texts \<Rightarrow> test_result \<Rightarrow> string" where
  "test_row t r = (let cell = (\<lambda>x. ''<td>'' @ x @ ''</td>'')
     in ''<tr class='' @ in_quotes (if re_passed r then ''pass'' else ''fail'') @ ''>'' @ cell (rt_name t (re_case r)) @ cell (tc_category (re_case r))
        @ cell (js_join ''|'' (map (rt_number t) (ex_status (tc_expect (re_case r))))) @ cell (rt_number t (re_status r))
        @ cell (if re_passed r then ''PASS'' else ''FAIL'') @ cell (case re_reason r of None \<Rightarrow> [] | Some x \<Rightarrow> rt_reason t x) @ ''</tr>'')"

text \<open>\<open>s.replace(p, r)\<close>: the first occurrence, where \<open>$$\<close>, \<open>$&\<close>, \<open>$`\<close> and \<open>$'\<close> in \<open>r\<close> stand for a dollar sign, the occurrence and the
  text before and after it.\<close>

fun expand_dollars :: "string \<Rightarrow> string \<Rightarrow> string \<Rightarrow> string \<Rightarrow> string" where
  "expand_dollars before p after [] = []"
| "expand_dollars before p after [c] = [c]"
| "expand_dollars before p after (c # d # cs) =
     (if c \<noteq> CHR ''$'' then c # expand_dollars before p after (d # cs)
      else if d = CHR ''$'' then CHR ''$'' # expand_dollars before p after cs
      else if d = CHR ''&'' then p @ expand_dollars before p after cs
      else if d = CHR 0x60 then before @ expand_dollars before p after cs
      else if d = CHR 0x27 then after @ expand_dollars before p after cs
      else c # expand_dollars before p after (d # cs))"

fun js_replace_from :: "string \<Rightarrow> string \<Rightarrow> string \<Rightarrow> string \<Rightarrow> string" where
  "js_replace_from before p r [] = (if p = [] then before @ expand_dollars before p [] r else before)"
| "js_replace_from before p r (c # cs) =
     (if starts_with (c # cs) p then before @ expand_dollars before p (drop (length p) (c # cs)) r @ drop (length p) (c # cs)
      else js_replace_from (before @ [c]) p r cs)"

definition js_replace :: "string \<Rightarrow> string \<Rightarrow> string \<Rightarrow> string" where
  "js_replace p r s = js_replace_from [] p r s"

definition reportHtml :: "report_texts \<Rightarrow> string \<Rightarrow> string \<Rightarrow> test_result list \<Rightarrow> string" where
  "reportHtml t template timestamp rs =
     (let newline = [CHR 0x0A];
          rows = js_join newline (map (category_row rs) (js_set_of (map (\<lambda>r. tc_category (re_case r)) rs)))
      in fold (\<lambda>(p, r). js_replace p r)
        [(''{{TIMESTAMP}}'', timestamp), (''{{TOTAL}}'', js_of_nat (length rs)), (''{{PASSED}}'', js_of_nat (passed_count rs)),
         (''{{FAILED}}'', js_of_nat (length rs - passed_count rs)), (''{{RATE}}'', pass_rate t rs), (''{{CATEGORY_ROWS}}'', rows),
         (''{{TEST_ROWS}}'', js_join newline (map (test_row t) rs))] template)"

section \<open>What the sources yield\<close>

text \<open>A schema that is composed of itself is walked for ever: the generator does not return.\<close>

lemma circular_never_flattened:
  assumes "flatten_schemas spec acc schemas = Some props" and "elements_of (js_member (resolveRef spec schema) ''allOf'') = [schema]"
  shows "schemas \<noteq> schema # rest"
proof -
  have "\<forall>schema. sp = spec \<longrightarrow> elements_of (js_member (resolveRef spec schema) ''allOf'') = [schema] \<longrightarrow> ss \<noteq> schema # rest"
    if "flatten_schemas sp a ss = Some p" for sp a ss p
    using that
  proof (rule flatten_schemas.raw_induct[rotated])
    fix f :: "json \<Rightarrow> (string, string \<times> bool) jsmap \<Rightarrow> json list \<Rightarrow> (string, string \<times> bool) jsmap option" and sp a ss p
    assume ih: "\<And>sp a ss p. f sp a ss = Some p \<Longrightarrow>
        \<forall>schema. sp = spec \<longrightarrow> elements_of (js_member (resolveRef spec schema) ''allOf'') = [schema] \<longrightarrow> ss \<noteq> schema # rest"
      and step: "(case ss of [] \<Rightarrow> Some a | schema # others \<Rightarrow> let resolved = resolveRef sp schema
         in f sp (own_properties sp resolved a) (elements_of (js_member resolved ''allOf'') @ others)) = Some p"
    show "\<forall>schema. sp = spec \<longrightarrow> elements_of (js_member (resolveRef spec schema) ''allOf'') = [schema] \<longrightarrow> ss \<noteq> schema # rest"
    proof (intro allI impI notI)
      fix schema
      assume sp: "sp = spec" and self: "elements_of (js_member (resolveRef spec schema) ''allOf'') = [schema]" and ss: "ss = schema # rest"
      have "f spec (own_properties spec (resolveRef spec schema) a) (schema # rest) = Some p" using step unfolding sp ss by (simp add: Let_def self)
      from ih[OF this] show False using self by blast
    qed
  qed
  from this[OF assms(1)] show ?thesis using assms(2) by simp
qed

theorem circular_schema_diverges:
  assumes "elements_of (js_member (resolveRef spec schema) ''allOf'') = [schema]"
  shows "flattenProperties spec schema = None"
  using circular_never_flattened[OF _ assms] unfolding flattenProperties_def by (metis not_Some_eq)

text \<open>Every endpoint is recorded once, in order, whether its request succeeds or not.\<close>

theorem recordings_follow_endpoints: "map rc_endpoint (fst (record_all env server cfg eps w)) = eps"
proof (induction eps arbitrary: w)
  case (Cons ep eps)
  obtain r w1 where r: "server (same_request env cfg ep) w = (r, w1)" by fastforce
  obtain rs w2 where rs: "record_all env server cfg eps w1 = (rs, w2)" by fastforce
  have "map rc_endpoint rs = eps" using Cons.IH[of w1] by (simp add: rs)
  then show ?case by (cases r) (simp_all add: recordEndpoint_def failed_recording_def r rs)
qed simp

text \<open>Every step of a flow depends on the one before it.\<close>

lemma flow_step_test:
  "flow_tests env cfg name i previous (step # steps) counter =
     test_case.extend ((status_test ''flow'' (flow_request env cfg step) (fs_status step) (''flow_'' @ js_of_nat (Suc counter)))
         \<lparr>tc_flowName := Some name, tc_extractVariables := fs_extract step\<rparr>) \<lparr>fw_dependsOn = previous, fw_stepIndex = i\<rparr>
       # flow_tests env cfg name (Suc i) (Some (''flow_'' @ js_of_nat (Suc counter))) steps (Suc counter)"
  by (simp add: nextId_def)

theorem flow_steps_chained:
  "map fw_dependsOn (flow_tests env cfg name i previous steps counter)
     = take (length steps) (previous # map (\<lambda>t. Some (tc_id t)) (flow_tests env cfg name i previous steps counter))
   \<and> map fw_stepIndex (flow_tests env cfg name i previous steps counter) = [i..<i + length steps]"
proof (induction steps arbitrary: i previous counter)
  case (Cons step steps)
  show ?case using Cons.IH[of "Suc i" "Some (''flow_'' @ js_of_nat (Suc counter))" "Suc counter"]
    unfolding flow_step_test by (simp add: test_case.defs status_test_def plain_test_def upt_conv_Cons del: upt_Suc)
qed simp

text \<open>Two paths with the same slug: the files of one endpoint are overwritten by those of the other.\<close>

lemma slugs_collide: "pathSlug (bare_endpoint m ''/a/b'') = pathSlug (bare_endpoint m ''/a_b'')"
  by (simp add: pathSlug_def bare_endpoint_def)

text \<open>Without a body the headers are sent as the body.\<close>

lemma k6_headers_as_body: "k6_call env cfg (bare_endpoint ''POST'' path) = ''http.post('' @ apostrophes (buildUrl env cfg (bare_endpoint ''POST'' path)) @ '', { headers })''"
proof -
  have "to_lower ''POST'' = ''post''" by code_simp
  then show ?thesis by (simp add: k6_call_def bare_endpoint_def truthy_body_def Let_def)
qed

lemma report_counts: "passed_count rs + length (filter (\<lambda>r. \<not> re_passed r) rs) = length rs"
  unfolding passed_count_def by (rule sum_length_filter_compl)

end
