(* ===== verification/Project_Generator.thy ===== *)
theory Project_Generator
  imports Api_Sources Graph_Modules
begin

text \<open>
  The command line tool \<open>bin/create.mjs\<close>: its arguments, the configuration it settles on, the template engine,
  the files of a new project, of a generated resource and of a migration, and the module graph it reports. The answers to its questions are
  parameters; the texts of the templates are a function of their names, the disk is the set of paths on it.
\<close>

section \<open>Arguments\<close>

datatype cli_value = CNull | CBool bool | CText string

type_synonym cli_args = "(string, cli_value) jsmap"

fun cli_truthy :: "cli_value option \<Rightarrow> bool" where
  "cli_truthy None = False"
| "cli_truthy (Some CNull) = False"
| "cli_truthy (Some (CBool b)) = b"
| "cli_truthy (Some (CText s)) = (s \<noteq> [])"

text \<open>Assigning a text or a boolean to \<open>__proto__\<close> leaves an object as it is.\<close>

definition assign_key :: "cli_args \<Rightarrow> string \<Rightarrow> cli_value \<Rightarrow> cli_args" where
  "assign_key r k v = (if k = ''__proto__'' then r else jm_set r k v)"

text \<open>The match of \<open>^--(\w+)=(.+)$\<close>.\<close>

definition key_and_text :: "string \<Rightarrow> (string \<times> string) option" where
  "key_and_text arg = (let key = takeWhile word_char (drop 2 arg); rest = dropWhile word_char (drop 2 arg)
     in if starts_with arg ''--'' \<and> key \<noteq> [] \<and> starts_with rest ''='' \<and> tl rest \<noteq> []
          \<and> CHR 0x0A \<notin> set (tl rest) \<and> CHR 0x0D \<notin> set (tl rest)
        then Some (key, tl rest) else None)"

definition parse_arg :: "string \<Rightarrow> cli_args \<times> string list \<Rightarrow> cli_args \<times> string list" where
  "parse_arg arg = (\<lambda>(r, positional).
     if arg = ''-y'' \<or> arg = ''--yes'' then (jm_set r ''yes'' (CBool True), positional)
     else if arg = ''-h'' \<or> arg = ''--help'' then (jm_set r ''help'' (CBool True), positional)
     else if arg = ''--grpc'' then (jm_set r ''transport'' (CText ''grpc''), positional)
     else if arg = ''--observability'' then (jm_set r ''observability'' (CBool True), positional)
     else (case key_and_text arg of
         Some (k, v) \<Rightarrow> (assign_key r k (CText v), positional)
       | None \<Rightarrow> if starts_with arg ''--no-'' then (assign_key r (drop 5 arg) (CText ''none''), positional)
           else if \<not> starts_with arg ''-'' then (r, positional @ [arg]) else (r, positional)))"

definition parseArgs :: "string list \<Rightarrow> cli_args" where
  "parseArgs args =
     (let (r, positional) = fold parse_arg args ([(''name'', CNull), (''yes'', CBool False), (''help'', CBool False)], []);
          positional = (case positional of p # ps \<Rightarrow> if p = ''new'' then ps else positional | [] \<Rightarrow> [])
      in jm_set r ''name'' (case positional of p # _ \<Rightarrow> if p = [] then CNull else CText p | [] \<Rightarrow> CNull))"

section \<open>The configuration\<close>

record project_choice =
  pj_name :: string
  pj_db :: string
  pj_cache :: string
  pj_auth :: string
  pj_transport :: string
  pj_ci :: "string option"
  pj_iac :: "string option"
  pj_observability :: bool

definition plain_choice :: "string \<Rightarrow> string \<Rightarrow> string \<Rightarrow> string \<Rightarrow> string \<Rightarrow> project_choice" where
  "plain_choice name db cache auth transport = \<lparr>pj_name = name, pj_db = db, pj_cache = cache, pj_auth = auth,
     pj_transport = transport, pj_ci = None, pj_iac = None, pj_observability = False\<rparr>"

definition lowercase :: "char \<Rightarrow> bool" where
  "lowercase c \<longleftrightarrow> (let n = of_char c :: nat in 97 \<le> n \<and> n \<le> 122)"

definition cli_digit :: "char \<Rightarrow> bool" where
  "cli_digit c \<longleftrightarrow> (let n = of_char c :: nat in 48 \<le> n \<and> n \<le> 57)"

text \<open>\<open>/^[a-z][a-z0-9-]*$/\<close>.\<close>

definition name_ok :: "string \<Rightarrow> bool" where
  "name_ok s = (case s of [] \<Rightarrow> False | c # cs \<Rightarrow> lowercase c \<and> list_all (\<lambda>c. lowercase c \<or> cli_digit c \<or> c = CHR ''-'') cs)"

definition cli_text :: "cli_args \<Rightarrow> string \<Rightarrow> string option" where
  "cli_text r k = (case jm_get r k of Some (CText s) \<Rightarrow> if s = [] then None else Some s | _ \<Rightarrow> None)"

datatype cli_outcome = ShowUsage nat | Refuse string | CreateProject project_choice | Cancelled

text \<open>
  \<open>ask\<close> answers the questions of \<open>runInteractive\<close> in order; a question that is cancelled ends the run. \<open>cliArgs.name || await ...\<close> asks only for
  what the arguments leave open.
\<close>

definition runInteractive :: "(string \<Rightarrow> string option) \<Rightarrow> cli_args \<Rightarrow> cli_outcome" where
  "runInteractive ask r =
     (let answer = (\<lambda>k. case cli_text r k of Some v \<Rightarrow> Some v | None \<Rightarrow> ask k)
      in case answer ''name'' of None \<Rightarrow> Cancelled | Some name \<Rightarrow>
        (case answer ''db'' of None \<Rightarrow> Cancelled | Some db \<Rightarrow>
        (case answer ''cache'' of None \<Rightarrow> Cancelled | Some cache \<Rightarrow>
        (case answer ''auth'' of None \<Rightarrow> Cancelled | Some auth \<Rightarrow>
        (case answer ''transport'' of None \<Rightarrow> Cancelled | Some transport \<Rightarrow>
          CreateProject (plain_choice name db cache auth transport))))))"

text \<open>The constant \<open>DEFAULTS\<close>.\<close>

definition DEFAULTS :: "(string, string) jsmap" where
  "DEFAULTS = [(''db'', ''mongodb''), (''cache'', ''redis''), (''auth'', ''jwt''), (''transport'', ''http'')]"

definition or_default :: "cli_args \<Rightarrow> string \<Rightarrow> string" where
  "or_default r k = or_else (cli_text r k) (the (jm_get DEFAULTS k))"

definition resolve_config :: "bool \<Rightarrow> (string \<Rightarrow> string option) \<Rightarrow> cli_args \<Rightarrow> cli_outcome" where
  "resolve_config isTTY ask r =
     (if cli_truthy (jm_get r ''yes'') \<or> \<not> isTTY then
        (case cli_text r ''name'' of
           None \<Rightarrow> Refuse ''Error: project name is required (use --yes or provide via args).''
         | Some name \<Rightarrow> CreateProject (plain_choice name (or_default r ''db'') (or_default r ''cache'')
             (or_default r ''auth'') (or_default r ''transport'')))
      else (case (cli_text r ''name'', cli_text r ''db'', cli_text r ''cache'', cli_text r ''auth'', cli_text r ''transport'') of
          (Some name, Some db, Some cache, Some auth, Some transport) \<Rightarrow> CreateProject (plain_choice name db cache auth transport)
        | _ \<Rightarrow> runInteractive ask r))"

definition create_main :: "bool \<Rightarrow> (string \<Rightarrow> string option) \<Rightarrow> string list \<Rightarrow> cli_outcome" where
  "create_main isTTY ask args =
     (if args = [] then ShowUsage 1
      else let r = parseArgs args
        in if cli_truthy (jm_get r ''help'') then ShowUsage 0
           else (case cli_text r ''name'' of
               Some name \<Rightarrow> if \<not> name_ok name
                 then Refuse ''Error: project name must be lowercase alphanumeric with hyphens (e.g. my-service).''
                 else resolve_config isTTY ask r
             | None \<Rightarrow> resolve_config isTTY ask r))"

text \<open>Which part of the tool the arguments reach.\<close>

datatype cli_command = MigrateCreate "string option" | RunMigrations string | ShowGraph "string list" | GenerateAuth
  | GenerateResource string bool | GeneratorUsage string | NewProject "string list"

definition dispatch :: "string list \<Rightarrow> cli_command" where
  "dispatch args = (case args of
     [] \<Rightarrow> NewProject []
   | a # rest \<Rightarrow>
      if a = ''migrate:create'' then MigrateCreate (case rest of [] \<Rightarrow> None | b # _ \<Rightarrow> Some b)
      else if a = ''migrate'' \<or> a = ''migrate:rollback'' \<or> a = ''migrate:status'' then RunMigrations a
      else if a = ''graph'' then ShowGraph rest
      else if a = ''g'' \<or> a = ''generate'' then
        (case rest of
           ''auth'' # _ \<Rightarrow> GenerateAuth
         | b # c # _ \<Rightarrow> if b = ''resource'' \<and> c \<noteq> [] then
               if name_ok c then GenerateResource c (''--minimal'' \<in> set args)
               else GeneratorUsage ''Error: resource name must be lowercase alphanumeric with hyphens.''
             else GeneratorUsage ''Usage:''
         | _ \<Rightarrow> GeneratorUsage ''Usage:'')
      else NewProject args)"

section \<open>The template engine\<close>

datatype template_var = VFlag bool | VText string

type_synonym template_vars = "(string, template_var) jsmap"

fun var_truthy :: "template_var option \<Rightarrow> bool" where
  "var_truthy None = False"
| "var_truthy (Some (VFlag b)) = b"
| "var_truthy (Some (VText s)) = (s \<noteq> [])"

text \<open>A block begins with \<open>{{#if flag}}\<close>, or with \<open>{{#eq field "text"}}\<close> and the like; the head of a block holds the field and the text.\<close>

datatype block_kind = IfBlock | EqBlock | NeqBlock | InBlock

fun kind_word :: "block_kind \<Rightarrow> string" where
  "kind_word IfBlock = ''if''"
| "kind_word EqBlock = ''eq''"
| "kind_word NeqBlock = ''neq''"
| "kind_word InBlock = ''in''"

definition after_text :: "string \<Rightarrow> string \<Rightarrow> string option" where
  "after_text p s = (if starts_with s p then Some (drop (length p) s) else None)"

definition skip_newline :: "string \<Rightarrow> string" where
  "skip_newline s = (if starts_with s [CHR 0x0A] then tl s else s)"

text \<open>The end of a head: \<open>}}\<close> after a flag, a text in quotes and \<open>}}\<close> after a field.\<close>

definition head_end :: "block_kind \<Rightarrow> string \<Rightarrow> (string \<times> string) option" where
  "head_end k s = (case k of
     IfBlock \<Rightarrow> map_option (Pair []) (after_text ''}}'' s)
   | _ \<Rightarrow> (case after_text [CHR '' '', CHR 0x22] s of None \<Rightarrow> None
       | Some t \<Rightarrow> (let v = takeWhile (\<lambda>c. c \<noteq> CHR 0x22) t
           in if v = [] then None else map_option (Pair v) (after_text (CHR 0x22 # ''}}'') (drop (length v) t)))))"

definition block_head :: "block_kind \<Rightarrow> string \<Rightarrow> (string \<times> string \<times> string) option" where
  "block_head k s = (case after_text (''{{#'' @ kind_word k @ '' '') s of None \<Rightarrow> None
     | Some t \<Rightarrow> (let field = takeWhile word_char t
         in if field = [] then None
            else (case head_end k (dropWhile word_char t) of None \<Rightarrow> None | Some (v, rest) \<Rightarrow> Some (field, v, rest))))"

fun first_close :: "string \<Rightarrow> string \<Rightarrow> (string \<times> string) option" where
  "first_close p [] = (if p = [] then Some ([], []) else None)"
| "first_close p (c # cs) = (if starts_with (c # cs) p then Some ([], drop (length p) (c # cs))
     else (case first_close p cs of None \<Rightarrow> None | Some (b, rest) \<Rightarrow> Some (c # b, rest)))"

definition close_tag :: "block_kind \<Rightarrow> string" where
  "close_tag k = ''{{/'' @ kind_word k @ ''}}''"

text \<open>A whole match at the start of a text: its field, its text, its block and what follows it.\<close>

definition block_at :: "block_kind \<Rightarrow> string \<Rightarrow> (string \<times> string \<times> string \<times> string) option" where
  "block_at k s = (case block_head k s of None \<Rightarrow> None
     | Some (field, v, rest) \<Rightarrow> (case first_close (close_tag k) (skip_newline rest) of None \<Rightarrow> None
         | Some (block, after) \<Rightarrow> Some (field, v, block, skip_newline after)))"

lemma after_text_shorter: "after_text p s = Some t \<Longrightarrow> length t \<le> length s"
  by (auto simp: after_text_def split: if_splits)

lemma head_end_shorter: "head_end k s = Some (v, rest) \<Longrightarrow> length rest \<le> length s"
  unfolding head_end_def Let_def
  by (auto split: block_kind.splits option.splits if_splits dest!: after_text_shorter)

lemma first_close_shorter: "first_close p s = Some (b, rest) \<Longrightarrow> length rest \<le> length s"
  by (induction s arbitrary: b) (auto split: if_splits option.splits)

lemma skip_newline_shorter: "length (skip_newline s) \<le> length s"
  by (simp add: skip_newline_def)

lemma block_head_shorter:
  assumes "block_head k s = Some (field, v, rest)"
  shows "length rest < length s"
proof -
  let ?p = "''{{#'' @ kind_word k @ '' ''"
  obtain t where t: "after_text ?p s = Some t" "head_end k (dropWhile word_char t) = Some (v, rest)"
    using assms unfolding block_head_def Let_def by (auto split: option.splits if_splits)
  have "length rest \<le> length (dropWhile word_char t)" by (rule head_end_shorter[OF t(2)])
  also have "\<dots> \<le> length t" by (rule length_dropWhile_le)
  also have "\<dots> < length s" using t(1) by (auto simp: after_text_def prefix_def split: if_splits)
  finally show ?thesis .
qed

lemma block_at_shorter:
  assumes "block_at k s = Some (field, v, block, after)"
  shows "length after < length s"
proof -
  obtain rest a where h: "block_head k s = Some (field, v, rest)" and c: "first_close (close_tag k) (skip_newline rest) = Some (block, a)"
    and a: "after = skip_newline a"
    using assms unfolding block_at_def by (auto split: option.splits)
  have "length after \<le> length a" unfolding a by (rule skip_newline_shorter)
  also have "\<dots> \<le> length (skip_newline rest)" by (rule first_close_shorter[OF c])
  also have "\<dots> \<le> length rest" by (rule skip_newline_shorter)
  also have "\<dots> < length s" by (rule block_head_shorter[OF h])
  finally show ?thesis .
qed

text \<open>\<open>result.replace(regex, ...)\<close> with the flag \<open>g\<close>.\<close>

function replace_blocks :: "block_kind \<Rightarrow> (string \<Rightarrow> string \<Rightarrow> bool) \<Rightarrow> string \<Rightarrow> string" where
  "replace_blocks k keep s = (case block_at k s of
     Some (field, v, block, after) \<Rightarrow> (if keep field v then block else []) @ replace_blocks k keep after
   | None \<Rightarrow> (case s of [] \<Rightarrow> [] | c # cs \<Rightarrow> c # replace_blocks k keep cs))"
  by pat_completeness auto
termination
  by (relation "measure (\<lambda>(k, keep, s). length s)") (auto dest: block_at_shorter)

declare replace_blocks.simps [simp del]

function replace_name :: "string \<Rightarrow> string \<Rightarrow> string" where
  "replace_name name s = (if starts_with s ''{{name}}'' then name @ replace_name name (drop 8 s)
     else (case s of [] \<Rightarrow> [] | c # cs \<Rightarrow> c # replace_name name cs))"
  by pat_completeness auto
termination
  by (relation "measure (\<lambda>(name, s). length s)") (auto simp: prefix_def)

declare replace_name.simps [simp del]

definition keep_block :: "template_vars \<Rightarrow> block_kind \<Rightarrow> string \<Rightarrow> string \<Rightarrow> bool" where
  "keep_block vars k field v = (case k of
     IfBlock \<Rightarrow> var_truthy (jm_get vars field)
   | EqBlock \<Rightarrow> jm_get vars field = Some (VText v)
   | NeqBlock \<Rightarrow> jm_get vars field \<noteq> Some (VText v)
   | InBlock \<Rightarrow> (case jm_get vars field of Some (VText t) \<Rightarrow> t \<in> set (js_split CHR ''|'' v) | _ \<Rightarrow> False))"

text \<open>The name of a project has no dollar sign, so it replaces itself.\<close>

definition renderTemplate :: "string \<Rightarrow> template_vars \<Rightarrow> string" where
  "renderTemplate content vars =
     (let name = (case jm_get vars ''name'' of Some (VText n) \<Rightarrow> n | _ \<Rightarrow> [])
      in fold (\<lambda>k. replace_blocks k (keep_block vars k)) [IfBlock, EqBlock, NeqBlock, InBlock] (replace_name name content))"

section \<open>The files of a project\<close>

text \<open>Copying a directory: the files copied, or \<open>None\<close> when an entry cannot be read.\<close>

fun copyDirRecursive :: "string \<Rightarrow> fs_entry list \<Rightarrow> string list option" where
  "copyDirRecursive dest [] = Some []"
| "copyDirRecursive dest (entry # entries) = (let destPath = path_join dest (fs_name entry)
     in case (case entry of FsDir _ inner \<Rightarrow> copyDirRecursive destPath inner | FsFile _ \<Rightarrow> Some [destPath] | FsUnreadable _ \<Rightarrow> None) of
          None \<Rightarrow> None
        | Some here \<Rightarrow> map_option (append here) (copyDirRecursive dest entries))"

text \<open>
  What \<open>createProject\<close> leaves behind: the files it wrote with the template of each (\<open>None\<close> for a copy or a constant text), in order, the files it says
  it created, and its warnings. \<open>scripts\<close> are the deploy scripts of the package, \<open>iac_dir\<close> the directories of \<open>terraform\<close>. It is
  \<open>None\<close> when the run ends before the project is complete.
\<close>

record project_result =
  pr_written :: "(string \<times> string option) list"
  pr_created :: "string list"
  pr_warnings :: "string list"

definition template_vars_of :: "project_choice \<Rightarrow> template_vars" where
  "template_vars_of c = [(''name'', VText (pj_name c)), (''db'', VText (pj_db c)), (''cache'', VFlag (pj_cache c \<noteq> ''none'')),
     (''auth'', VFlag (pj_auth c \<noteq> ''none'')), (''grpc'', VFlag (pj_transport c = ''grpc'')), (''dbType'', VText (pj_db c)),
     (''cacheType'', VText (pj_cache c)), (''authType'', VText (pj_auth c)), (''transportType'', VText (pj_transport c))]"

definition base_files :: "(string \<times> string) list" where
  "base_files = [(''main.ts.tpl'', ''src/main.ts''), (''app.module.ts.tpl'', ''src/app.module.ts''),
     (''app.controller.ts.tpl'', ''src/app.controller.ts''), (''app.service.ts.tpl'', ''src/app.service.ts''),
     (''package.json.tpl'', ''package.json''), (''tsconfig.json.tpl'', ''tsconfig.json''), (''.env.example.tpl'', ''.env.example''),
     (''.gitignore.tpl'', ''.gitignore''), (''.eslintrc.cjs.tpl'', ''.eslintrc.cjs''), (''.prettierrc.tpl'', ''.prettierrc''),
     (''Dockerfile.tpl'', ''Dockerfile''), (''.dockerignore.tpl'', ''.dockerignore''), (''docker-compose.yml.tpl'', ''docker-compose.yml''),
     (''vitest.config.ts.tpl'', ''vitest.config.ts''), (''app.e2e-spec.ts.tpl'', ''test/app.e2e-spec.ts''), (''README.md.tpl'', ''README.md''),
     (''k8s/deployment.yaml'', ''k8s/deployment.yaml''), (''k8s/service.yaml'', ''k8s/service.yaml''),
     (''k8s/configmap.yaml'', ''k8s/configmap.yaml''), (''k8s/hpa.yaml'', ''k8s/hpa.yaml''), (''k8s/ingress.yaml'', ''k8s/ingress.yaml''),
     (''docker-compose.override.yml.tpl'', ''docker-compose.override.yml''), (''docker-compose.prod.yml.tpl'', ''docker-compose.prod.yml''),
     (''nginx.conf.tpl'', ''nginx.conf'')]"

definition project_files :: "project_choice \<Rightarrow> (string \<times> string) list" where
  "project_files c = base_files
     @ (if pj_transport c = ''grpc'' then [(''proto.tpl'', ''proto/'' @ pj_name c @ ''.proto'')] else [])
     @ (if pj_ci c = Some ''github'' then [(''ci/github-actions.yml.tpl'', ''.github/workflows/ci.yml'')]
        else if pj_ci c = Some ''gitlab'' then [(''ci/gitlab-ci.yml.tpl'', ''.gitlab-ci.yml'')] else [])"

definition observability_files :: "(string \<times> string) list" where
  "observability_files = [(''prometheus.yml'', ''observability/prometheus.yml''),
     (''docker-compose.observability.yml'', ''docker-compose.observability.yml''),
     (''grafana/http-overview.json'', ''observability/grafana/dashboards/http-overview.json''),
     (''grafana/service-health.json'', ''observability/grafana/dashboards/service-health.json''),
     (''grafana/microservice-overview.json'', ''observability/grafana/dashboards/microservice-overview.json''),
     (''grafana/alerts.yml'', ''observability/grafana/alerts.yml'')]"

text \<open>
  \<open>createdFiles\<close> is a constant declared further down, so \<open>createdFiles.push\<close> throws inside the \<open>try\<close> once the file is written, and
  the \<open>catch\<close> warns.
\<close>

definition copy_observability :: "(string \<Rightarrow> bool) \<Rightarrow> (string \<times> string option) list \<times> string list" where
  "copy_observability readable =
     (map (\<lambda>(src, out). (out, None)) (filter (\<lambda>(src, out). readable src) observability_files),
      map (\<lambda>(src, out). ''Could not copy observability template: '' @ src) observability_files)"

definition deploy_scripts :: "string list" where
  "deploy_scripts = [''deploy.sh'', ''build-push.sh'']"

definition copy_iac :: "(string \<Rightarrow> bool) \<Rightarrow> (string \<Rightarrow> fs_entry list option) \<Rightarrow> project_choice \<Rightarrow> string list option" where
  "copy_iac readable iac_dir c = (case pj_iac c of
     None \<Rightarrow> Some []
   | Some cloud \<Rightarrow> if cloud = ''aws'' \<or> cloud = ''gcp''
       then map_option (\<lambda>fs. fs @ (if readable ''terraform/README.md'' then [''infrastructure/README.md''] else []))
              (case iac_dir cloud of None \<Rightarrow> if readable ''terraform/README.md'' then None else Some [] | Some es \<Rightarrow> copyDirRecursive ''infrastructure'' es)
       else Some [])"

definition createProject ::
  "(string \<Rightarrow> bool) \<Rightarrow> (string \<Rightarrow> bool) \<Rightarrow> (string \<Rightarrow> fs_entry list option) \<Rightarrow> (string \<Rightarrow> bool) \<Rightarrow> project_choice \<Rightarrow> project_result option" where
  "createProject exists readable iac_dir scripts c =
     (if exists (pj_name c) then None
      else case copy_iac readable iac_dir c of None \<Rightarrow> None
        | Some iac \<Rightarrow>
          (let (obs, warnings) = (if pj_observability c then copy_observability readable else ([], []));
               copied = map (\<lambda>s. (''scripts/'' @ s, None)) (filter scripts deploy_scripts);
               rendered = map (\<lambda>(tpl, out). (out, Some tpl)) (project_files c);
               prisma = (if pj_db c = ''postgres'' then [(''prisma/schema.prisma'', None)] else [])
           in Some \<lparr>pr_written = obs @ map (\<lambda>f. (f, None)) iac @ copied @ rendered @ prisma @ [(''.env'', Some ''.env.example.tpl'')],
                pr_created = map snd (project_files c) @ map (\<lambda>s. ''scripts/'' @ s) deploy_scripts @ map fst prisma @ [''.env''],
                pr_warnings = warnings\<rparr>))"

definition docker_services :: "project_choice \<Rightarrow> string list" where
  "docker_services c =
     (if pj_db c = ''mongodb'' then [''MongoDB''] else []) @ (if pj_db c = ''postgres'' then [''PostgreSQL''] else [])
     @ (if pj_cache c \<noteq> ''none'' then [if pj_cache c = ''redis'' then ''Redis'' else ''Memcached''] else [])"

section \<open>Resources\<close>

datatype db_driver = PrismaDriver | MongooseDriver

text \<open>\<open>dependencies\<close> are the names in \<open>package.json\<close>, when it can be read.\<close>

definition detectDbDriver :: "bool \<Rightarrow> string list option \<Rightarrow> db_driver" where
  "detectDbDriver has_prisma_dir dependencies =
     (if has_prisma_dir then PrismaDriver
      else case dependencies of
          Some ds \<Rightarrow> if ''@prisma/client'' \<in> set ds then PrismaDriver else MongooseDriver
        | None \<Rightarrow> MongooseDriver)"

definition pascal_name :: "string \<Rightarrow> string" where
  "pascal_name name = to_upper (take 1 name) @ drop 1 name"

text \<open>The files that the four ways to generate a resource report.\<close>

definition resource_file :: "string \<Rightarrow> string \<Rightarrow> string" where
  "resource_file name part = ''src/'' @ name @ ''/'' @ name @ ''.'' @ part @ ''.ts''"

definition resource_parts :: "db_driver \<Rightarrow> bool \<Rightarrow> string list" where
  "resource_parts driver minimal = (case driver of
     PrismaDriver \<Rightarrow> if minimal then [''dto'', ''service'', ''module''] else [''dto'', ''service'', ''controller'', ''module'', ''spec'']
   | MongooseDriver \<Rightarrow> if minimal then [''schema'', ''dto'', ''service'', ''module'']
       else [''schema'', ''dto'', ''service'', ''controller'', ''module'', ''spec''])"

definition generateResource :: "(string \<Rightarrow> bool) \<Rightarrow> db_driver \<Rightarrow> string \<Rightarrow> bool \<Rightarrow> string list option" where
  "generateResource exists driver name minimal = (let lower = to_lower name
     in if exists (''src/'' @ lower) then None else Some (map (resource_file lower) (resource_parts driver minimal)))"

section \<open>Migrations\<close>

text \<open>\<open>today\<close> is the date, \<open>files\<close> are the names in the directory of migrations; the result is the new version and file name.\<close>

definition migrationCreate :: "string \<Rightarrow> string list \<Rightarrow> string option \<Rightarrow> (string \<times> string) option" where
  "migrationCreate today files name = (case name of
     None \<Rightarrow> None
   | Some n \<Rightarrow> if \<not> name_ok n then None
       else let existing = length (filter (\<lambda>f. starts_with f today) files);
                version = today @ ''-'' @ js_padStart 3 CHR ''0'' (js_of_nat (existing + 1))
            in Some (version, version @ ''-'' @ n @ ''.ts''))"

section \<open>The module graph\<close>

record graph_flags =
  gf_strict :: bool
  gf_output :: "string option"
  gf_json :: bool
  gf_project :: string

definition graph_flag :: "string \<Rightarrow> graph_flags \<Rightarrow> graph_flags" where
  "graph_flag arg f =
     (if arg = ''--strict'' then f\<lparr>gf_strict := True\<rparr>
      else if arg = ''--format=json'' \<or> arg = ''--json'' then f\<lparr>gf_json := True\<rparr>
      else if starts_with arg ''--output='' then f\<lparr>gf_output := Some (drop 9 arg)\<rparr>
      else if starts_with arg ''--project='' then f\<lparr>gf_project := drop 10 arg\<rparr> else f)"

definition graph_flags_of :: "string \<Rightarrow> string list \<Rightarrow> graph_flags" where
  "graph_flags_of cwd args = fold graph_flag args \<lparr>gf_strict = False, gf_output = None, gf_json = False, gf_project = cwd\<rparr>"

text \<open>The copy of the detector in the tool: its state and its steps are those of \<open>cycle-detector.ts\<close>.\<close>

definition cli_detectCycles :: "string list \<Rightarrow> dep_edge list \<Rightarrow> string list list" where
  "cli_detectCycles nodes deps =
     tj_sccs (foldl (\<lambda>s v. if jm_has (tj_indices s) v then s else strongconnect (build_adj nodes deps) v s) tj_start nodes)"

definition cli_mermaid :: "module_node list \<Rightarrow> dep_edge list \<Rightarrow> string list list \<Rightarrow> string list" where
  "cli_mermaid modules deps cycles =
     (let nodesWithEdges = foldl (\<lambda>s e. js_add (eg_to e) (js_add (eg_from e) s)) [] deps
      in [''graph TD'']
         @ map (\<lambda>m. ''    '' @ md_name m @ ''['' @ md_name m @ '']'') (filter (\<lambda>m. md_name m \<notin> set nodesWithEdges) modules)
         @ map (\<lambda>e. ''    '' @ eg_from e @ '' --> '' @ eg_to e) deps
         @ map (\<lambda>n. ''    style '' @ n @ '' fill:#ef4444,stroke:#dc2626,color:#fff'') (js_set_of (concat cycles)))"

datatype graph_outcome = NoSources | NoModules
  | GraphReport "module_node list" "dep_edge list" "string list list" fan fan "string list"

definition cli_graph_report :: "module_node list \<Rightarrow> graph_outcome" where
  "cli_graph_report modules =
     (let deps = module_edges modules; cycles = cli_detectCycles (map md_name modules) deps;
          fanOut = foldl (\<lambda>m e. fan_add (eg_from e) m) (fan_zero modules) deps;
          fanIn = foldl (\<lambda>m e. fan_add (eg_to e) m) (fan_zero modules) deps
      in GraphReport modules deps cycles (max_fan fanOut) (max_fan fanIn) (cli_mermaid modules deps cycles))"

definition generateGraph ::
  "(string \<Rightarrow> module_node option) \<Rightarrow> (string \<Rightarrow> fs_entry list option) \<Rightarrow> graph_flags \<Rightarrow> graph_outcome" where
  "generateGraph parse dir f =
     (let src = path_join (gf_project f) ''src''; dist = path_join (gf_project f) ''dist'';
          report = (\<lambda>files. if files = [] then NoModules else cli_graph_report (List.map_filter parse files))
      in case dir src of Some es \<Rightarrow> report (walkDir src ''.ts'' es)
         | None \<Rightarrow> (case dir dist of Some es \<Rightarrow> report (walkDir dist ''.js'' es) | None \<Rightarrow> NoSources))"

definition graph_exit :: "graph_flags \<Rightarrow> graph_outcome \<Rightarrow> nat" where
  "graph_exit f r = (case r of
     NoSources \<Rightarrow> 1 | NoModules \<Rightarrow> 0
   | GraphReport _ _ cycles _ _ _ \<Rightarrow> if gf_strict f \<and> cycles \<noteq> [] then 1 else 0)"

section \<open>What the template engine keeps\<close>

text \<open>A template as its author sees it: texts, and blocks on lines of their own.\<close>

datatype piece = Plain string | Cond string string string

fun head_text :: "block_kind \<Rightarrow> string \<Rightarrow> string" where
  "head_text IfBlock v = ''}}''"
| "head_text k v = [CHR '' '', CHR 0x22] @ v @ CHR 0x22 # ''}}''"

fun print_piece :: "block_kind \<Rightarrow> piece \<Rightarrow> string" where
  "print_piece k (Plain t) = t"
| "print_piece k (Cond field v block) =
     ''{{#'' @ kind_word k @ '' '' @ field @ head_text k v @ [CHR 0x0A] @ block @ close_tag k @ [CHR 0x0A]"

fun piece_ok :: "block_kind \<Rightarrow> piece \<Rightarrow> bool" where
  "piece_ok k (Plain t) \<longleftrightarrow> CHR ''{'' \<notin> set t"
| "piece_ok k (Cond field v block) \<longleftrightarrow> field \<noteq> [] \<and> list_all word_char field \<and> (v = [] \<longleftrightarrow> k = IfBlock)
     \<and> CHR 0x22 \<notin> set v \<and> CHR ''{'' \<notin> set block"

fun piece_text :: "(string \<Rightarrow> string \<Rightarrow> bool) \<Rightarrow> piece \<Rightarrow> string" where
  "piece_text keep (Plain t) = t"
| "piece_text keep (Cond field v block) = (if keep field v then block else [])"

lemma after_text_append [simp]: "after_text p (p @ s) = Some s"
  by (simp add: after_text_def)

lemma head_text_word: "takeWhile word_char (head_text k v @ s) = []" "dropWhile word_char (head_text k v @ s) = head_text k v @ s"
  by (cases k; simp add: word_char_def)+

lemma takeWhile_field: "list_all word_char field \<Longrightarrow> takeWhile word_char (field @ head_text k v @ s) = field"
  "list_all word_char field \<Longrightarrow> dropWhile word_char (field @ head_text k v @ s) = head_text k v @ s"
  by (simp_all add: list_all_iff takeWhile_append2 dropWhile_append2 head_text_word)

lemma takeWhile_quote: "CHR 0x22 \<notin> set v \<Longrightarrow> takeWhile (\<lambda>c. c \<noteq> CHR 0x22) (v @ CHR 0x22 # s) = v"
  by (subst takeWhile_append2) auto

lemma head_end_text:
  assumes "v = [] \<longleftrightarrow> k = IfBlock" and "CHR 0x22 \<notin> set v"
  shows "head_end k (head_text k v @ s) = Some (v, s)"
proof (cases "k = IfBlock")
  case True
  then show ?thesis using assms(1) after_text_append[of "''}}''" s] by (simp add: head_end_def)
next
  case False
  then have v: "v \<noteq> []" using assms(1) by simp
  have t: "head_text k v @ s = [CHR '' '', CHR 0x22] @ v @ CHR 0x22 # ''}}'' @ s" using False by (cases k) simp_all
  have e: "after_text (CHR 0x22 # ''}}'') (CHR 0x22 # ''}}'' @ s) = Some s" using after_text_append[of "CHR 0x22 # ''}}''" s] by simp
  show ?thesis using False v unfolding t head_end_def after_text_append
    by (cases k) (simp_all add: takeWhile_quote[OF assms(2)] e[simplified])
qed

lemma block_head_text:
  assumes "field \<noteq> []" and "list_all word_char field" and "v = [] \<longleftrightarrow> k = IfBlock" and "CHR 0x22 \<notin> set v"
  shows "block_head k (''{{#'' @ kind_word k @ '' '' @ field @ head_text k v @ s) = Some (field, v, s)"
proof -
  have e: "''{{#'' @ kind_word k @ '' '' @ field @ head_text k v @ s = (''{{#'' @ kind_word k @ '' '') @ field @ head_text k v @ s" by simp
  show ?thesis
    unfolding block_head_def e after_text_append Let_def
    using assms(1) by (simp add: takeWhile_field[OF assms(2)] head_end_text[OF assms(3,4)])
qed

lemma first_close_text: "CHR ''{'' \<notin> set b \<Longrightarrow> first_close (close_tag k) (b @ close_tag k @ s) = Some (b, s)"
proof (induction b)
  case Nil
  have "\<exists>cs. close_tag k = CHR ''{'' # cs" by (simp add: close_tag_def)
  then obtain cs where cs: "close_tag k = CHR ''{'' # cs" ..
  show ?case by (simp add: cs)
next
  case (Cons c b)
  have "\<not> prefix (close_tag k) (c # b @ close_tag k @ s)" using Cons.prems by (simp add: close_tag_def)
  then show ?case using Cons by simp
qed

lemma block_at_text:
  assumes "piece_ok k (Cond field v block)"
  shows "block_at k (print_piece k (Cond field v block) @ s) = Some (field, v, block, s)"
proof -
  have h: "block_head k (print_piece k (Cond field v block) @ s) = Some (field, v, [CHR 0x0A] @ block @ close_tag k @ [CHR 0x0A] @ s)"
    using block_head_text[of field v k "[CHR 0x0A] @ block @ close_tag k @ [CHR 0x0A] @ s"] assms by simp
  show ?thesis
    using assms first_close_text[of block k "[CHR 0x0A] @ s"] unfolding block_at_def h by (simp add: skip_newline_def)
qed

lemma block_at_none: "c \<noteq> CHR ''{'' \<Longrightarrow> block_at k (c # cs) = None" "block_at k [] = None"
  by (simp_all add: block_at_def block_head_def after_text_def)

lemma replace_plain: "CHR ''{'' \<notin> set t \<Longrightarrow> replace_blocks k keep (t @ s) = t @ replace_blocks k keep s"
proof (induction t)
  case (Cons c t)
  then have "block_at k (c # t @ s) = None" by (intro block_at_none) auto
  then show ?case using Cons by (simp add: replace_blocks.simps[of k keep "c # t @ s"])
qed simp

lemma replace_block:
  assumes "piece_ok k (Cond field v block)"
  shows "replace_blocks k keep (print_piece k (Cond field v block) @ s) = (if keep field v then block else []) @ replace_blocks k keep s"
  unfolding replace_blocks.simps[of k keep "print_piece k (Cond field v block) @ s"] block_at_text[OF assms]
  by (simp only: option.case prod.case)

text \<open>The engine keeps the texts, keeps a block when its condition holds and leaves nothing of one whose condition fails.\<close>

lemma replace_blocks_pieces:
  assumes "list_all (piece_ok k) ps"
  shows "replace_blocks k keep (concat (map (print_piece k) ps)) = concat (map (piece_text keep) ps)"
  using assms
proof (induction ps)
  case Nil
  then show ?case by (subst replace_blocks.simps) (simp add: block_at_none)
next
  case (Cons p ps)
  then have ok: "piece_ok k p" and ih: "replace_blocks k keep (concat (map (print_piece k) ps)) = concat (map (piece_text keep) ps)" by simp_all
  show ?case
  proof (cases p)
    case (Plain t)
    then show ?thesis using ok ih by (simp add: replace_plain)
  next
    case (Cond field v block)
    show ?thesis using replace_block[OF ok[unfolded Cond], of keep "concat (map (print_piece k) ps)"] ih
      unfolding Cond list.map concat.simps by (simp only: piece_text.simps)
  qed
qed

section \<open>What the command line settles\<close>

text \<open>Whatever the arguments and answers, the project has no CI files, no infrastructure and no observability stack: the
  configuration drops these flags.\<close>

definition no_stacks :: "project_choice \<Rightarrow> bool" where
  "no_stacks c \<longleftrightarrow> pj_ci c = None \<and> pj_iac c = None \<and> \<not> pj_observability c"

fun outcome_plain :: "cli_outcome \<Rightarrow> bool" where
  "outcome_plain (CreateProject c) = no_stacks c"
| "outcome_plain _ = True"

lemma plain_choice_no_stacks [simp]: "no_stacks (plain_choice n d k a t)"
  by (simp add: plain_choice_def no_stacks_def)

lemma interactive_plain [simp]: "outcome_plain (runInteractive ask r)"
  unfolding runInteractive_def Let_def by (simp split: option.split)

lemma resolved_plain [simp]: "outcome_plain (resolve_config isTTY ask r)"
  unfolding resolve_config_def Let_def by (simp split: option.split)

theorem created_project_is_plain:
  assumes "create_main isTTY ask args = CreateProject c"
  shows "pj_ci c = None \<and> pj_iac c = None \<and> \<not> pj_observability c"
proof -
  have "outcome_plain (create_main isTTY ask args)" unfolding create_main_def Let_def by (simp split: option.split)
  then show ?thesis unfolding assms by (simp add: no_stacks_def)
qed

text \<open>Without questions, a project gets a name only of lowercase letters, digits and hyphens.\<close>

lemma unattended_name_ok:
  assumes "create_main False ask args = CreateProject c"
  shows "name_ok (pj_name c)"
proof -
  have "resolve_config False ask r \<noteq> CreateProject c" if "cli_text r ''name'' = None" for r
    unfolding resolve_config_def using that by simp
  moreover have "pj_name c = name" if "resolve_config False ask r = CreateProject c" "cli_text r ''name'' = Some name" for r name
    using that unfolding resolve_config_def by (auto simp: plain_choice_def)
  ultimately show ?thesis
    using assms unfolding create_main_def Let_def by (auto split: if_splits option.splits)
qed

text \<open>A configuration without the two stacks: the tool says it created exactly the files it wrote, when the package has its scripts.\<close>

lemma created_files_written:
  assumes "createProject exists readable iac_dir (\<lambda>s. True) c = Some r" and "pj_iac c = None" and "\<not> pj_observability c"
  shows "set (pr_created r) = fst ` set (pr_written r)" and "pr_warnings r = []"
proof -
  have free: "\<not> exists (pj_name c)" using assms(1) unfolding createProject_def by (metis option.distinct(1))
  have "createProject exists readable iac_dir (\<lambda>s. True) c = Some \<lparr>pr_written = map (\<lambda>s. (''scripts/'' @ s, None)) deploy_scripts @ map (\<lambda>(tpl, out). (out, Some tpl)) (project_files c)
        @ (if pj_db c = ''postgres'' then [(''prisma/schema.prisma'', None)] else []) @ [(''.env'', Some ''.env.example.tpl'')],
      pr_created = map snd (project_files c) @ map (\<lambda>s. ''scripts/'' @ s) deploy_scripts
        @ map fst (if pj_db c = ''postgres'' then [(''prisma/schema.prisma'', None :: string option)] else []) @ [''.env''], pr_warnings = []\<rparr>"
    using free assms(2,3) by (simp add: createProject_def copy_iac_def)
  then have r: "r = \<lparr>pr_written = map (\<lambda>s. (''scripts/'' @ s, None)) deploy_scripts @ map (\<lambda>(tpl, out). (out, Some tpl)) (project_files c)
        @ (if pj_db c = ''postgres'' then [(''prisma/schema.prisma'', None)] else []) @ [(''.env'', Some ''.env.example.tpl'')],
      pr_created = map snd (project_files c) @ map (\<lambda>s. ''scripts/'' @ s) deploy_scripts
        @ map fst (if pj_db c = ''postgres'' then [(''prisma/schema.prisma'', None :: string option)] else []) @ [''.env''], pr_warnings = []\<rparr>"
    unfolding assms(1) by (rule option.inject[THEN iffD1])
  have f: "fst \<circ> (\<lambda>(tpl, out). (out, Some tpl)) = snd" "fst \<circ> (\<lambda>s. (''scripts/'' @ s, None)) = (\<lambda>s. ''scripts/'' @ s)"
    by (auto simp: fun_eq_iff)
  have "map fst (pr_written r) = map (\<lambda>s. ''scripts/'' @ s) deploy_scripts @ map snd (project_files c)
      @ map fst (if pj_db c = ''postgres'' then [(''prisma/schema.prisma'', None :: string option)] else []) @ [''.env'']"
    unfolding r by (simp only: project_result.select_convs map_append map_map f list.map fst_conv)
  then have "fst ` set (pr_written r) = set (map (\<lambda>s. ''scripts/'' @ s) deploy_scripts @ map snd (project_files c)
      @ map fst (if pj_db c = ''postgres'' then [(''prisma/schema.prisma'', None :: string option)] else []) @ [''.env''])"
    by (metis set_map)
  then show "set (pr_created r) = fst ` set (pr_written r)" by (simp only: r project_result.select_convs set_append Un_assoc Un_left_commute)
  show "pr_warnings r = []" by (simp add: r)
qed

text \<open>The two disagree on the observability stack: every file of it is written and yet reported as not copied, and none is listed.\<close>

lemma observability_written_but_warned:
  assumes "createProject exists (\<lambda>s. True) iac_dir scripts c = Some r" and "pj_observability c"
  shows "snd ` set observability_files \<subseteq> fst ` set (pr_written r)"
    and "length (pr_warnings r) = length observability_files"
    and "''observability/prometheus.yml'' \<notin> set (map snd base_files)"
proof -
  obtain iac where r: "r = \<lparr>pr_written = fst (copy_observability (\<lambda>s. True)) @ map (\<lambda>f. (f, None)) iac
        @ map (\<lambda>s. (''scripts/'' @ s, None)) (filter scripts deploy_scripts) @ map (\<lambda>(tpl, out). (out, Some tpl)) (project_files c)
        @ (if pj_db c = ''postgres'' then [(''prisma/schema.prisma'', None)] else []) @ [(''.env'', Some ''.env.example.tpl'')],
      pr_created = pr_created r, pr_warnings = snd (copy_observability (\<lambda>s. True))\<rparr>"
    using assms unfolding createProject_def Let_def by (auto split: if_splits option.splits prod.splits)
  show "snd ` set observability_files \<subseteq> fst ` set (pr_written r)"
  proof -
    have "snd ` set observability_files = fst ` set (fst (copy_observability (\<lambda>s. True)))"
      by (simp add: copy_observability_def image_image case_prod_unfold)
    then show ?thesis by (subst r) auto
  qed
  show "length (pr_warnings r) = length observability_files" by (subst r) (simp add: copy_observability_def)
  show "''observability/prometheus.yml'' \<notin> set (map snd base_files)" by (simp add: base_files_def)
qed

section \<open>Names\<close>

text \<open>A resource whose name has a hyphen is accepted, and the class it generates has no valid name.\<close>

definition is_identifier :: "string \<Rightarrow> bool" where
  "is_identifier s \<longleftrightarrow> s \<noteq> [] \<and> list_all word_char s \<and> \<not> cli_digit (hd s)"

lemma name_chars:
  assumes "name_ok s"
  shows "\<exists>c cs. s = c # cs \<and> lowercase c \<and> list_all (\<lambda>c. lowercase c \<or> cli_digit c \<or> c = CHR ''-'') cs"
  using assms by (cases s) (auto simp: name_ok_def)

lemma upper_word: "lowercase c \<Longrightarrow> \<exists>d. to_upper [c] = [d] \<and> word_char d \<and> \<not> cli_digit d"
  by (auto simp: lowercase_def to_upper_def word_char_def cli_digit_def Let_def)

lemma plain_char_word: "lowercase c \<or> cli_digit c \<Longrightarrow> word_char c"
  by (auto simp: lowercase_def cli_digit_def word_char_def Let_def)

lemma hyphen_not_word: "\<not> word_char CHR ''-''"
  by (simp add: word_char_def)

lemma resource_class_name:
  assumes "name_ok s"
  shows "is_identifier (pascal_name s) \<longleftrightarrow> CHR ''-'' \<notin> set s"
proof -
  obtain c cs where s: "s = c # cs" "lowercase c" and cs: "list_all (\<lambda>c. lowercase c \<or> cli_digit c \<or> c = CHR ''-'') cs"
    using name_chars[OF assms] by blast
  obtain d where d: "to_upper [c] = [d]" "word_char d" "\<not> cli_digit d" using upper_word[OF s(2)] by blast
  have "c \<noteq> CHR ''-''" using s(2) by (auto simp: lowercase_def)
  moreover have "list_all word_char cs \<longleftrightarrow> CHR ''-'' \<notin> set cs"
    using cs hyphen_not_word plain_char_word unfolding list_all_iff by blast
  ultimately show ?thesis by (simp add: s(1) pascal_name_def d is_identifier_def)
qed

text \<open>Names stay as they are in lower case, so the directory of a resource bears its name.\<close>

lemma lower_plain: "lowercase c \<or> cli_digit c \<or> c = CHR ''-'' \<Longrightarrow> to_lower [c] = [c]"
  by (auto simp: lowercase_def cli_digit_def to_lower_def Let_def)

lemma to_lower_Cons: "to_lower [c] = [c] \<Longrightarrow> to_lower (c # cs) = c # to_lower cs"
  by (simp add: to_lower_def)

lemma resource_name_lower:
  assumes "name_ok s"
  shows "to_lower s = s"
proof -
  have tail: "to_lower cs = cs" if "list_all (\<lambda>c. lowercase c \<or> cli_digit c \<or> c = CHR ''-'') cs" for cs
    using that
  proof (induction cs)
    case (Cons c cs)
    then show ?case using to_lower_Cons[OF lower_plain, of c cs] by simp
  qed (simp add: to_lower_def)
  obtain c cs where s: "s = c # cs" "lowercase c" "list_all (\<lambda>c. lowercase c \<or> cli_digit c \<or> c = CHR ''-'') cs"
    using name_chars[OF assms] by blast
  show ?thesis unfolding s(1) using to_lower_Cons[OF lower_plain, of c cs] s(2) tail[OF s(3)] by simp
qed

section \<open>Versions of migrations\<close>

lemma pad_injective:
  assumes "js_padStart k CHR ''0'' (js_of_nat m) = js_padStart k CHR ''0'' (js_of_nat n)"
  shows "m = n"
proof -
  have zeros: "digits_value (replicate j CHR ''0'' @ s) = digits_value s" for j s
    by (induction j) (simp_all add: digits_value_def)
  show ?thesis using arg_cong[OF assms, of digits_value] unfolding js_padStart_def zeros digits_value_js .
qed

text \<open>When the files of the day are those of the versions 1 to \<open>n\<close>, the next version is new.\<close>

definition day_version :: "string \<Rightarrow> nat \<Rightarrow> string" where
  "day_version today i = today @ ''-'' @ js_padStart 3 CHR ''0'' (js_of_nat i)"

lemma next_version_is_new:
  assumes "migrationCreate today files (Some name) = Some (version, file)"
    and "filter (\<lambda>f. starts_with f today) files = map (\<lambda>i. day_version today i @ ''-'' @ names i @ ''.ts'') [1..<Suc n]"
  shows "version = day_version today (Suc n)" and "version \<notin> day_version today ` {1..n}"
proof -
  show v: "version = day_version today (Suc n)"
    using assms unfolding migrationCreate_def Let_def day_version_def by (simp split: if_splits del: upt_Suc)
  show "version \<notin> day_version today ` {1..n}"
    unfolding v by (auto simp: day_version_def dest: pad_injective)
qed

text \<open>After a file was deleted, the next version may be taken.\<close>

lemma version_taken_after_deletion:
  "map_option fst (migrationCreate ''2026-08-07'' [''2026-08-07-002-add-index.ts''] (Some ''drop-index'')) = Some ''2026-08-07-002''"
  by code_simp

section \<open>The report on the graph\<close>

text \<open>The tool's detector and renderer agree with those of the library.\<close>

lemma cli_detectCycles_same: "cli_detectCycles nodes deps = detectCycles nodes deps"
proof -
  have "(\<lambda>s v. if jm_has (tj_indices s) v then s else strongconnect (build_adj nodes deps) v s) = (\<lambda>s v. connect_node (build_adj nodes deps) v s)"
    by (intro ext) (simp add: connect_node_def)
  then show ?thesis by (simp add: cli_detectCycles_def detectCycles_def foldl_conv_fold)
qed

theorem graph_report_agrees:
  "cli_graph_report modules = GraphReport (gr_modules r) (gr_edges r) (gr_cycles r) (gr_maxFanOut r) (gr_maxFanIn r) rows
     \<and> js_join ''\<newline>'' rows = renderMermaid r"
  if "r = build_result modules" "rows = cli_mermaid modules (module_edges modules) (detectCycles (map md_name modules) (module_edges modules))"
  unfolding that by (simp add: cli_graph_report_def build_result_def cli_detectCycles_same Let_def cli_mermaid_def renderMermaid_def)

text \<open>With \<open>--strict\<close>, the exit code is 1 exactly when the imports of the modules have a cycle.\<close>

theorem strict_exit_code:
  assumes "generateGraph parse dir f = GraphReport modules deps cycles fout fin rows"
  shows "graph_exit f (generateGraph parse dir f) = 1 \<longleftrightarrow>
    gf_strict f \<and> \<not> acyclic (known_edges (map md_name modules) deps - Id)"
proof -
  have "cycles = detectCycles (map md_name modules) deps"
    using assms unfolding generateGraph_def Let_def
    by (auto simp: cli_graph_report_def cli_detectCycles_same Let_def split: option.splits if_splits)
  then show ?thesis unfolding assms graph_exit_def no_cycles_iff_acyclic[symmetric] by simp
qed

end
