(* ===== verification/Web_Generators.thy ===== *)
theory Web_Generators
  imports Project_Generator "HOL-Library.Multiset"
begin

text \<open>
  The two generators with a user interface, \<open>packages/web-generator/js/generator.js\<close> and
  \<open>packages/admin-dashboard/src/lib/generator.ts\<close>: file trees, diagrams, the compose file and the command they tell the user to run. The
  theory relates these commands to what the command line tool makes of them. A shell splits a command at blanks; comparing
  names in the language of the user is an order given by sort keys.
\<close>

section \<open>The web generator\<close>

record web_config =
  wc_name :: string
  wc_db :: string
  wc_cache :: string
  wc_auth :: string
  wc_transport :: string
  wc_docker :: bool
  wc_k8s :: bool
  wc_lint :: bool
  wc_tests :: bool

definition tree_paths :: "web_config \<Rightarrow> string list" where
  "tree_paths c =
     [''src/main.ts'', ''src/app.module.ts'', ''src/app.controller.ts'', ''src/app.service.ts'', ''package.json'', ''tsconfig.json'',
      ''.env.example'', ''README.md'']
     @ (if wc_tests c then [''test/app.e2e-spec.ts'', ''vitest.config.ts''] else [])
     @ (if wc_docker c then [''Dockerfile'', ''docker-compose.yml''] else [])
     @ (if wc_k8s c then [''k8s/deployment.yaml'', ''k8s/service.yaml'', ''k8s/configmap.yaml'', ''k8s/hpa.yaml''] else [])
     @ (if wc_lint c then [''.eslintrc.js'', ''.prettierrc''] else [])
     @ (if wc_transport c = ''grpc'' then [''proto/'' @ wc_name c @ ''.proto''] else [])"

definition generateFileTree :: "(string \<Rightarrow> nat) \<Rightarrow> web_config \<Rightarrow> string list" where
  "generateFileTree collate c = sort_key collate (tree_paths c)"

text \<open>The nested object: \<open>null\<close> for a file.\<close>

datatype file_tree = TreeFile | TreeDir "(string \<times> file_tree) list"

fun tree_entries :: "file_tree option \<Rightarrow> (string \<times> file_tree) list" where
  "tree_entries (Some (TreeDir m)) = m"
| "tree_entries _ = []"

fun put_path :: "string list \<Rightarrow> (string \<times> file_tree) list \<Rightarrow> (string \<times> file_tree) list" where
  "put_path [] m = m"
| "put_path [p] m = jm_set m p TreeFile"
| "put_path (p # ps) m = jm_set m p (TreeDir (put_path ps (tree_entries (jm_get m p))))"

definition tree_of :: "string list \<Rightarrow> (string \<times> file_tree) list" where
  "tree_of paths = fold (\<lambda>path. put_path (js_split CHR ''/'' path)) paths []"

definition tree_div :: "string \<Rightarrow> string \<Rightarrow> string" where
  "tree_div cls body = ''<div class='' @ in_quotes cls @ ''>'' @ body @ ''</div>''"

definition tree_icon :: "string \<Rightarrow> string \<Rightarrow> string" where
  "tree_icon colour icon = ''<span class='' @ in_quotes colour @ ''>'' @ icon @ ''</span> ''"

text \<open>An entry with the HTML of all below it; entries are sorted afterwards, directories first.\<close>

fun render_tree :: "(string \<Rightarrow> nat) \<Rightarrow> nat \<Rightarrow> string \<Rightarrow> file_tree \<Rightarrow> string"
  and render_entries :: "(string \<Rightarrow> nat) \<Rightarrow> nat \<Rightarrow> (string \<times> file_tree) list \<Rightarrow> ((string \<times> bool) \<times> string) list" where
  "render_tree collate indent key TreeFile =
     tree_div ''tree-file'' (concat (replicate indent ''  '') @ tree_icon ''text-gray-500'' ''&#x1F4C4;'' @ key)"
| "render_tree collate indent key (TreeDir m) =
     tree_div ''tree-dir'' (concat (replicate indent ''  '') @ tree_icon ''text-sky-400'' ''&#x1F4C1;'' @ key @ ''/'')
     @ concat (map snd (sort_key (\<lambda>((k, file), _). file) (sort_key (\<lambda>((k, _), _). collate k) (render_entries collate (indent + 1) m))))"
| "render_entries collate indent [] = []"
| "render_entries collate indent ((k, t) # m) = ((k, t = TreeFile), render_tree collate indent k t) # render_entries collate indent m"

definition renderFileTree :: "(string \<Rightarrow> nat) \<Rightarrow> string list \<Rightarrow> string \<Rightarrow> string" where
  "renderFileTree collate paths name = render_tree collate 0 name (TreeDir (tree_of paths))"

definition web_node :: "string \<Rightarrow> string \<Rightarrow> string list" where
  "web_node key style = [''  APP --> '' @ key, ''  style '' @ key @ '' '' @ style]"

definition web_db :: "(string \<times> string \<times> string) list" where
  "web_db = [(''mongodb'', ''MongoDB'', ''fill:#00684a,stroke:#00ed64,color:#fff''), (''postgres'', ''PostgreSQL'', ''fill:#336791,stroke:#fff,color:#fff''),
     (''mysql'', ''MySQL'', ''fill:#4479a1,stroke:#fff,color:#fff''), (''dynamodb'', ''DynamoDB'', ''fill:#4053d6,stroke:#fff,color:#fff''),
     (''elasticsearch'', ''Elasticsearch'', ''fill:#fed10a,stroke:#333,color:#333'')]"

definition web_mermaid :: "web_config \<Rightarrow> string" where
  "web_mermaid c = js_join ''\<newline>'' (
     [''graph LR'', ''  APP['' @ in_quotes (wc_name c @ ''<br/>NestJS'') @ '']'', ''  style APP fill:#0ea5e9,stroke:#0284c7,color:#fff'']
     @ (case map_of web_db (wc_db c) of Some (label, style) \<Rightarrow> (''  DB[('' @ in_quotes label @ '')]'') # web_node ''DB'' style | None \<Rightarrow> [])
     @ (if wc_cache c = ''redis'' then (''  CACHE['' @ in_quotes ''Redis'' @ '']'') # web_node ''CACHE'' ''fill:#dc382d,stroke:#fff,color:#fff''
        else if wc_cache c = ''memcached'' then (''  CACHE['' @ in_quotes ''Memcached'' @ '']'') # web_node ''CACHE'' ''fill:#6b7280,stroke:#fff,color:#fff''
        else [])
     @ (if wc_auth c = ''jwt'' then [''  AUTH['' @ in_quotes ''JWT Auth'' @ '']'', ''  APP --- AUTH'', ''  style AUTH fill:#7c3aed,stroke:#fff,color:#fff''] else [])
     @ (if wc_transport c \<noteq> ''http'' then
          [''  TRANSPORT['' @ in_quotes (if wc_transport c = ''grpc'' then ''gRPC'' else if wc_transport c = ''tcp'' then ''TCP''
              else if wc_transport c = ''nats'' then ''NATS'' else ''RabbitMQ'') @ '']'',
           ''  APP <--> TRANSPORT'', ''  style TRANSPORT fill:#f59e0b,stroke:#fff,color:#333''] else [])
     @ [''  CLIENT(('' @ in_quotes ''Client'' @ ''))'', ''  CLIENT -->|HTTP :3000| APP'', ''  style CLIENT fill:#374151,stroke:#9ca3af,color:#fff''])"

definition web_command :: "web_config \<Rightarrow> string" where
  "web_command c = ''npx nestjs-boot new '' @ wc_name c
     @ (if wc_db c \<noteq> ''none'' then '' --db='' @ wc_db c else []) @ (if wc_cache c \<noteq> ''none'' then '' --cache='' @ wc_cache c else [])
     @ (if wc_auth c \<noteq> ''none'' then '' --auth='' @ wc_auth c else [])
     @ (if wc_transport c \<noteq> ''http'' then '' --transport='' @ wc_transport c else [])
     @ (if wc_docker c then '' --docker'' else []) @ (if wc_k8s c then '' --k8s'' else [])
     @ (if wc_lint c then '' --lint'' else []) @ (if wc_tests c then '' --tests'' else [])"

text \<open>The files of the archive, by their paths below its folder.\<close>

definition zip_paths :: "web_config \<Rightarrow> string list" where
  "zip_paths c =
     map (append ''src/'') [''main.ts'', ''app.module.ts'', ''app.controller.ts'', ''app.service.ts'']
     @ [''package.json'', ''tsconfig.json'', ''.env.example'', ''README.md'']
     @ (if wc_tests c then [''test/'' @ ''app.e2e-spec.ts'', ''vitest.config.ts''] else [])
     @ (if wc_docker c then [''Dockerfile'', ''docker-compose.yml''] else [])
     @ (if wc_k8s c then map (append ''k8s/'') [''deployment.yaml'', ''service.yaml'', ''configmap.yaml'', ''hpa.yaml''] else [])
     @ (if wc_lint c then [''.eslintrc.js'', ''.prettierrc''] else [])
     @ (if wc_transport c = ''grpc'' then [''proto/'' @ wc_name c @ ''.proto''] else [])"

section \<open>The dashboard's generator\<close>

record dash_config =
  dc_name :: string
  dc_db :: string
  dc_cache :: string
  dc_auth :: string
  dc_transport :: string
  dc_docker :: bool
  dc_k8s :: bool
  dc_tests :: bool
  dc_eslint :: bool

definition defaultConfig :: dash_config where
  "defaultConfig = \<lparr>dc_name = ''my-service'', dc_db = ''none'', dc_cache = ''none'', dc_auth = ''none'', dc_transport = ''http'',
     dc_docker = True, dc_k8s = False, dc_tests = True, dc_eslint = True\<rparr>"

definition dash_command :: "dash_config \<Rightarrow> string" where
  "dash_command c = ''npx nestjs-boot '' @ dc_name c
     @ (if dc_db c \<noteq> ''none'' then '' --db '' @ dc_db c else []) @ (if dc_cache c \<noteq> ''none'' then '' --cache '' @ dc_cache c else [])
     @ (if dc_auth c \<noteq> ''none'' then '' --auth '' @ dc_auth c else [])
     @ (if dc_transport c \<noteq> ''http'' then '' --transport '' @ dc_transport c else [])
     @ (if dc_docker c then '' --docker'' else []) @ (if dc_k8s c then '' --k8s'' else [])
     @ (if dc_tests c then '' --tests'' else []) @ (if dc_eslint c then '' --eslint'' else [])"

definition dash_arrow :: "string \<Rightarrow> string \<Rightarrow> string" where
  "dash_arrow arrow target = ''\<newline>  App '' @ arrow @ '' '' @ target"

definition dash_mermaid :: "dash_config \<Rightarrow> string" where
  "dash_mermaid c = ''graph TD\<newline>  Client[Client] --> App['' @ dc_name c @ '']''
     @ (case map_of [(''mongodb'', ''MongoDB[(MongoDB)]''), (''postgres'', ''PostgreSQL[(PostgreSQL)]''), (''mysql'', ''MySQL[(MySQL)]''),
            (''dynamodb'', ''DynamoDB[(DynamoDB)]''), (''elasticsearch'', ''ES[(Elasticsearch)]'')] (dc_db c) of
          Some node \<Rightarrow> dash_arrow ''-->'' node | None \<Rightarrow> [])
     @ (case map_of [(''redis'', ''Redis[(Redis)]''), (''memcached'', ''Memcached[(Memcached)]'')] (dc_cache c) of
          Some node \<Rightarrow> dash_arrow ''-->'' node | None \<Rightarrow> [])
     @ (if dc_auth c = ''jwt'' then dash_arrow ''-->'' ''JWT{JWT Auth}'' else [])
     @ (case map_of [(''grpc'', ''gRPC''), (''tcp'', ''TCP''), (''nats'', ''NATS''), (''rabbitmq'', ''RabbitMQ'')] (dc_transport c) of
          Some label \<Rightarrow> dash_arrow (''-- '' @ label @ '' -->'') ''Services[Other Services]'' | None \<Rightarrow> [])
     @ dash_arrow ''-->'' ''Health[/health]''"

text \<open>The compose file: the services the application waits for, the services, and the volumes.\<close>

record compose_service =
  cs_key :: string
  cs_chosen :: "dash_config \<Rightarrow> bool"
  cs_volume :: "string option"
  cs_body :: "string \<Rightarrow> string list"

definition publish :: "string \<Rightarrow> string list" where
  "publish port = [''    ports:'', ''      - '' @ in_quotes (port @ '':'' @ port)]"

definition mounted :: "string \<Rightarrow> string \<Rightarrow> string list" where
  "mounted volume path = [''    volumes:'', ''      - '' @ volume @ '':'' @ path]"

definition compose_services :: "compose_service list" where
  "compose_services =
     [\<lparr>cs_key = ''mongodb'', cs_chosen = (\<lambda>c. dc_db c = ''mongodb''), cs_volume = Some ''mongo-data'',
        cs_body = (\<lambda>name. [''    image: mongo:7'', ''    container_name: '' @ name @ ''-mongodb''] @ publish ''27017'' @ mounted ''mongo-data'' ''/data/db'')\<rparr>,
      \<lparr>cs_key = ''postgres'', cs_chosen = (\<lambda>c. dc_db c = ''postgres''), cs_volume = Some ''postgres-data'',
        cs_body = (\<lambda>name. [''    image: postgres:16-alpine'', ''    container_name: '' @ name @ ''-postgres''] @ publish ''5432''
          @ [''    environment:'', ''      POSTGRES_DB: '' @ name, ''      POSTGRES_USER: postgres'', ''      POSTGRES_PASSWORD: postgres'']
          @ mounted ''postgres-data'' ''/var/lib/postgresql/data'')\<rparr>,
      \<lparr>cs_key = ''mysql'', cs_chosen = (\<lambda>c. dc_db c = ''mysql''), cs_volume = Some ''mysql-data'',
        cs_body = (\<lambda>name. [''    image: mysql:8'', ''    container_name: '' @ name @ ''-mysql''] @ publish ''3306''
          @ [''    environment:'', ''      MYSQL_DATABASE: '' @ name, ''      MYSQL_ROOT_PASSWORD: root''] @ mounted ''mysql-data'' ''/var/lib/mysql'')\<rparr>,
      \<lparr>cs_key = ''dynamodb'', cs_chosen = (\<lambda>c. dc_db c = ''dynamodb''), cs_volume = None,
        cs_body = (\<lambda>name. [''    image: amazon/dynamodb-local:latest'', ''    container_name: '' @ name @ ''-dynamodb''] @ publish ''8000''
          @ [''    command: '' @ in_quotes ''-jar DynamoDBLocal.jar -sharedDb''])\<rparr>,
      \<lparr>cs_key = ''elasticsearch'', cs_chosen = (\<lambda>c. dc_db c = ''elasticsearch''), cs_volume = Some ''es-data'',
        cs_body = (\<lambda>name. [''    image: docker.elastic.co/elasticsearch/elasticsearch:8.14.0'', ''    container_name: '' @ name @ ''-elasticsearch'']
          @ publish ''9200'' @ [''    environment:'', ''      - discovery.type=single-node'', ''      - xpack.security.enabled=false'']
          @ mounted ''es-data'' ''/usr/share/elasticsearch/data'')\<rparr>,
      \<lparr>cs_key = ''redis'', cs_chosen = (\<lambda>c. dc_cache c = ''redis''), cs_volume = None,
        cs_body = (\<lambda>name. [''    image: redis:7-alpine'', ''    container_name: '' @ name @ ''-redis''] @ publish ''6379'')\<rparr>,
      \<lparr>cs_key = ''memcached'', cs_chosen = (\<lambda>c. dc_cache c = ''memcached''), cs_volume = None,
        cs_body = (\<lambda>name. [''    image: memcached:1.6-alpine'', ''    container_name: '' @ name @ ''-memcached''] @ publish ''11211'')\<rparr>]"

definition depends_on :: "dash_config \<Rightarrow> string list" where
  "depends_on c = (if dc_db c \<noteq> ''none'' \<or> dc_cache c \<noteq> ''none''
     then map cs_key (filter (\<lambda>s. cs_chosen s c) compose_services) else [])"

definition compose_lines :: "dash_config \<Rightarrow> string list" where
  "compose_lines c =
     [''services:'', ''  app:'', ''    build: .'', ''    container_name: '' @ dc_name c, ''    ports:'', ''      - '' @ in_quotes ''3000:3000'', ''    env_file: .env'']
     @ (if dc_db c \<noteq> ''none'' \<or> dc_cache c \<noteq> ''none'' then [''    depends_on:''] else [])
     @ concat (map (\<lambda>k. [''      '' @ k @ '':'', ''        condition: service_started'']) (depends_on c))
     @ [''    restart: unless-stopped'', []]
     @ concat (map (\<lambda>s. [''  '' @ cs_key s @ '':''] @ cs_body s (dc_name c) @ [''    restart: unless-stopped'', []])
         (filter (\<lambda>s. cs_chosen s c) compose_services))
     @ [''volumes:''] @ map (\<lambda>v. ''  '' @ v @ '':'') (List.map_filter cs_volume (filter (\<lambda>s. cs_chosen s c) compose_services))"

definition generateDockerCompose :: "dash_config \<Rightarrow> string" where
  "generateDockerCompose c = concat (map (\<lambda>l. l @ ''\<newline>'') (compose_lines c))"

section \<open>The preview and the archive\<close>

text \<open>The tree that is shown holds exactly the files of the archive.\<close>

theorem tree_shows_the_archive:
  "mset (generateFileTree collate c) = mset (zip_paths c)"
  unfolding generateFileTree_def mset_sort tree_paths_def zip_paths_def by simp

text \<open>The application waits for exactly the services of the file.\<close>

lemma waits_for_its_services:
  "depends_on c = map cs_key (filter (\<lambda>s. cs_chosen s c) compose_services)"
proof (cases "dc_db c \<noteq> ''none'' \<or> dc_cache c \<noteq> ''none''")
  case False
  then show ?thesis by (simp add: depends_on_def compose_services_def)
qed (simp add: depends_on_def)

section \<open>The commands they tell the user to run\<close>

lemma join_words: "xs \<noteq> [] \<Longrightarrow> js_join sep (xs @ ys) = js_join sep xs @ concat (map (append sep) ys)"
proof (induction ys rule: rev_induct)
  case (snoc y ys)
  have snoc_join: "zs \<noteq> [] \<Longrightarrow> js_join sep (zs @ [y]) = js_join sep zs @ sep @ y" for zs
  proof (induction zs)
    case (Cons z zs)
    then show ?case by (cases zs) simp_all
  qed simp
  show ?case using snoc snoc_join[of "xs @ ys"] by simp
qed simp

definition plain_word :: "string \<Rightarrow> bool" where
  "plain_word v \<longleftrightarrow> v \<noteq> [] \<and> hd v \<noteq> CHR ''-'' \<and> CHR '' '' \<notin> set v \<and> CHR 0x0A \<notin> set v \<and> CHR 0x0D \<notin> set v"

lemma plain_wordD:
  assumes "plain_word v"
  shows "v \<noteq> []" "\<not> prefix ''-'' v" "\<not> prefix ''--'' v" "\<not> prefix ''--no-'' v" "CHR '' '' \<notin> set v" "CHR 0x0A \<notin> set v" "CHR 0x0D \<notin> set v"
  using assms by (auto simp: plain_word_def prefix_def)

lemma name_char_plain: "lowercase c \<or> cli_digit c \<or> c = CHR ''-'' \<Longrightarrow> c \<noteq> CHR '' '' \<and> c \<noteq> CHR 0x0A \<and> c \<noteq> CHR 0x0D"
  by (auto simp: lowercase_def cli_digit_def Let_def)

lemma name_plain:
  assumes "name_ok s"
  shows "plain_word s"
proof -
  obtain c cs where s: "s = c # cs" "lowercase c" "list_all (\<lambda>c. lowercase c \<or> cli_digit c \<or> c = CHR ''-'') cs"
    using name_chars[OF assms] by blast
  have "c \<noteq> CHR ''-''" using s(2) by (auto simp: lowercase_def)
  moreover have "\<forall>d \<in> set s. d \<noteq> CHR '' '' \<and> d \<noteq> CHR 0x0A \<and> d \<noteq> CHR 0x0D"
    using s name_char_plain unfolding list_all_iff by auto
  ultimately show ?thesis unfolding plain_word_def s(1) by auto
qed

text \<open>An argument that does not begin with a hyphen is positional; an assignment sets its key; a switch the tool does not know changes nothing.\<close>

lemma parse_positional:
  assumes "plain_word v"
  shows "parse_arg v (r, ps) = (r, ps @ [v])"
proof -
  have "v \<noteq> ''-y'' \<and> v \<noteq> ''--yes'' \<and> v \<noteq> ''-h'' \<and> v \<noteq> ''--help'' \<and> v \<noteq> ''--grpc'' \<and> v \<noteq> ''--observability''"
    using plain_wordD(2)[OF assms] by auto
  then show ?thesis by (simp add: parse_arg_def key_and_text_def plain_wordD[OF assms])
qed

lemma word_chars [simp]: "word_char CHR ''a''" "word_char CHR ''b''" "word_char CHR ''c''" "word_char CHR ''d''" "word_char CHR ''e''" "word_char CHR ''h''"
  "word_char CHR ''n''" "word_char CHR ''o''" "word_char CHR ''p''" "word_char CHR ''r''" "word_char CHR ''s''" "word_char CHR ''t''"
  "word_char CHR ''u''" "\<not> word_char CHR ''=''" "\<not> word_char CHR ''-''"
  by (simp_all add: word_char_def)

definition option_word :: "string \<Rightarrow> string \<Rightarrow> string" where
  "option_word key v = ''--'' @ key @ ''='' @ v"

lemma parse_assignment:
  assumes "plain_word v" and "key \<in> {''db'', ''cache'', ''auth'', ''transport''}"
  shows "parse_arg (option_word key v) (r, ps) = (jm_set r key (CText v), ps)"
proof -
  have "key_and_text (option_word key v) = Some (key, v)"
    using assms(2) plain_wordD[OF assms(1)] unfolding key_and_text_def option_word_def by auto
  moreover have "key \<noteq> ''__proto__''" using assms(2) by auto
  moreover have "option_word key v \<notin> {''-y'', ''--yes'', ''-h'', ''--help'', ''--grpc'', ''--observability''}"
    using assms(2) unfolding option_word_def by auto
  ultimately show ?thesis by (simp add: parse_arg_def assign_key_def)
qed

definition option_words :: "string \<Rightarrow> string \<Rightarrow> string \<Rightarrow> string list" where
  "option_words omitted key v = (if v \<noteq> omitted then [option_word key v] else [])"

definition set_option :: "string \<Rightarrow> string \<Rightarrow> string \<Rightarrow> cli_args \<Rightarrow> cli_args" where
  "set_option omitted key v r = (if v \<noteq> omitted then jm_set r key (CText v) else r)"

lemma set_option_get: "jm_get (set_option omitted key v r) k = (if v \<noteq> omitted \<and> k = key then Some (CText v) else jm_get r k)"
  by (simp add: set_option_def jsmap_simps)

lemma set_option_text:
  "v \<noteq> [] \<Longrightarrow> cli_text (set_option omitted key v r) k = (if v \<noteq> omitted \<and> k = key then Some v else cli_text r k)"
  by (simp add: cli_text_def set_option_get)

lemma cli_text_set: "cli_text (jm_set r key (CText v)) k = (if k = key then if v = [] then None else Some v else cli_text r k)"
  by (simp add: cli_text_def jsmap_simps)

lemma parse_options:
  "plain_word v \<Longrightarrow> key \<in> {''db'', ''cache'', ''auth'', ''transport''} \<Longrightarrow>
     fold parse_arg (option_words omitted key v) (r, ps) = (set_option omitted key v r, ps)"
  by (simp add: option_words_def set_option_def parse_assignment)

definition ignored_switches :: "string list" where
  "ignored_switches = [''--docker'', ''--k8s'', ''--lint'', ''--tests'', ''--eslint'', ''--db'', ''--cache'', ''--auth'', ''--transport'']"

lemma ignored_switch_shape:
  "list_all (\<lambda>s. key_and_text s = None \<and> \<not> starts_with s ''--no-'' \<and> starts_with s ''-''
     \<and> s \<notin> set [''-y'', ''--yes'', ''-h'', ''--help'', ''--grpc'', ''--observability'']) ignored_switches"
  by code_simp

lemma parse_unknown:
  assumes "s \<in> set ignored_switches"
  shows "parse_arg s st = st"
  using ignored_switch_shape assms unfolding list_all_iff parse_arg_def by (cases st) (simp split: option.split)

lemma parse_ignored: "set ss \<subseteq> set ignored_switches \<Longrightarrow> fold parse_arg ss st = st"
  by (induction ss arbitrary: st) (simp_all add: parse_unknown)

definition web_flags :: "web_config \<Rightarrow> string list" where
  "web_flags c = option_words ''none'' ''db'' (wc_db c) @ option_words ''none'' ''cache'' (wc_cache c)
     @ option_words ''none'' ''auth'' (wc_auth c) @ option_words ''http'' ''transport'' (wc_transport c)"

definition web_switches :: "web_config \<Rightarrow> string list" where
  "web_switches c = (if wc_docker c then [''--docker''] else []) @ (if wc_k8s c then [''--k8s''] else [])
     @ (if wc_lint c then [''--lint''] else []) @ (if wc_tests c then [''--tests''] else [])"

definition web_plain :: "web_config \<Rightarrow> bool" where
  "web_plain c \<longleftrightarrow> name_ok (wc_name c) \<and> plain_word (wc_db c) \<and> plain_word (wc_cache c) \<and> plain_word (wc_auth c) \<and> plain_word (wc_transport c)"

lemma web_words:
  assumes "web_plain c"
  shows "drop 2 (js_split CHR '' '' (web_command c)) = [''new'', wc_name c] @ web_flags c @ web_switches c"
proof -
  let ?ws = "[''npx'', ''nestjs-boot'', ''new'', wc_name c] @ web_flags c @ web_switches c"
  have "web_command c = js_join '' '' ?ws"
    by (subst join_words) (simp_all add: web_command_def web_flags_def web_switches_def option_words_def option_word_def)
  moreover have "CHR '' '' \<notin> set w" if "w \<in> set ?ws" for w
    using that assms name_plain[of "wc_name c"] unfolding web_plain_def web_flags_def web_switches_def option_words_def option_word_def
    by (auto dest: plain_wordD split: if_splits)
  ultimately have "js_split CHR '' '' (web_command c) = ?ws" by (simp only: js_split_join append_is_Nil_conv list.distinct simp_thms)
  then show ?thesis by simp
qed

text \<open>
  A project made without questions by the command of the web generator has the name and the choices made there, except that
  a choice of none is not in the command: such a project gets the default in its place.
\<close>

theorem web_command_creates:
  assumes "web_plain c"
  defines "args \<equiv> drop 2 (js_split CHR '' '' (web_command c))"
  shows "dispatch args = NewProject args"
    and "create_main False ask args = CreateProject (plain_choice (wc_name c)
      (if wc_db c = ''none'' then ''mongodb'' else wc_db c) (if wc_cache c = ''none'' then ''redis'' else wc_cache c)
      (if wc_auth c = ''none'' then ''jwt'' else wc_auth c) (wc_transport c))"
proof -
  note p = assms(1)[unfolded web_plain_def]
  have args: "args = [''new'', wc_name c] @ web_flags c @ web_switches c" unfolding args_def by (rule web_words[OF assms(1)])
  show "dispatch args = NewProject args" unfolding args by (simp add: dispatch_def)
  have new: "parse_arg ''new'' (r, []) = (r, [''new''])" for r
    using parse_positional[of "''new''" r "[]"] by (simp add: plain_word_def)
  let ?start = "[(''name'', CNull), (''yes'', CBool False), (''help'', CBool False)]"
  let ?r = "set_option ''http'' ''transport'' (wc_transport c) (set_option ''none'' ''auth'' (wc_auth c)
      (set_option ''none'' ''cache'' (wc_cache c) (set_option ''none'' ''db'' (wc_db c) ?start)))"
  have switches: "fold parse_arg (web_switches c) st = st" for st
    by (rule parse_ignored) (auto simp: web_switches_def ignored_switches_def)
  have flags: "fold parse_arg (web_flags c) (?start, ps) = (?r, ps)" for ps
    unfolding web_flags_def fold_append comp_apply using p by (simp add: parse_options)
  have "fold parse_arg args (?start, []) = (?r, [''new'', wc_name c])"
    unfolding args using new parse_positional[OF name_plain, of "wc_name c" ?start "[''new'']"] p
    by (simp add: flags switches)
  then have parsed: "parseArgs args = jm_set ?r ''name'' (CText (wc_name c))"
    using p plain_wordD(1)[OF name_plain, of "wc_name c"] by (simp only: parseArgs_def Let_def prod.case list.case simp_thms if_True if_False)
  show "create_main False ask args = CreateProject (plain_choice (wc_name c)
      (if wc_db c = ''none'' then ''mongodb'' else wc_db c) (if wc_cache c = ''none'' then ''redis'' else wc_cache c)
      (if wc_auth c = ''none'' then ''jwt'' else wc_auth c) (wc_transport c))"
  proof -
    have words: "wc_name c \<noteq> []" "wc_db c \<noteq> []" "wc_cache c \<noteq> []" "wc_auth c \<noteq> []" "wc_transport c \<noteq> []" "args \<noteq> []"
      using p plain_wordD(1) name_plain by (auto simp: args)
    have start: "cli_text ?start k = None" for k by (simp add: cli_text_def)
    have got: "cli_text (parseArgs args) ''name'' = Some (wc_name c)"
      "cli_text (parseArgs args) ''db'' = (if wc_db c = ''none'' then None else Some (wc_db c))"
      "cli_text (parseArgs args) ''cache'' = (if wc_cache c = ''none'' then None else Some (wc_cache c))"
      "cli_text (parseArgs args) ''auth'' = (if wc_auth c = ''none'' then None else Some (wc_auth c))"
      "cli_text (parseArgs args) ''transport'' = (if wc_transport c = ''http'' then None else Some (wc_transport c))"
      unfolding parsed by (simp_all add: words cli_text_set set_option_text start)
    have flags: "\<not> cli_truthy (jm_get (parseArgs args) ''help'')"
      unfolding parsed by (simp add: jsmap_simps set_option_get)
    show ?thesis
      using p words(6) flags by (simp add: create_main_def Let_def got resolve_config_def or_default_def DEFAULTS_def)
  qed
qed

text \<open>A choice of no database in the web generator ends in a project with MongoDB.\<close>

lemma web_none_becomes_default:
  "create_main False (\<lambda>k. None) (drop 2 (js_split CHR '' '' (web_command \<lparr>wc_name = ''shop'', wc_db = ''none'', wc_cache = ''none'', wc_auth = ''none'',
     wc_transport = ''http'', wc_docker = True, wc_k8s = False, wc_lint = True, wc_tests = True\<rparr>)))
   = CreateProject (plain_choice ''shop'' ''mongodb'' ''redis'' ''jwt'' ''http'')"
  by code_simp

text \<open>
  The command of the dashboard writes its choices as words of their own, which the tool takes for further names: none of them
  reaches the project.
\<close>

definition dash_words :: "string \<Rightarrow> string \<Rightarrow> string \<Rightarrow> string list" where
  "dash_words omitted switch v = (if v \<noteq> omitted then [switch, v] else [])"

lemma parse_dash_words:
  "plain_word v \<Longrightarrow> switch \<in> set ignored_switches \<Longrightarrow> \<exists>ps'. fold parse_arg (dash_words omitted switch v) (r, ps) = (r, ps @ ps')"
  by (simp add: dash_words_def parse_unknown parse_positional)

definition dash_flags :: "dash_config \<Rightarrow> string list" where
  "dash_flags c = dash_words ''none'' ''--db'' (dc_db c) @ dash_words ''none'' ''--cache'' (dc_cache c)
     @ dash_words ''none'' ''--auth'' (dc_auth c) @ dash_words ''http'' ''--transport'' (dc_transport c)"

definition dash_switches :: "dash_config \<Rightarrow> string list" where
  "dash_switches c = (if dc_docker c then [''--docker''] else []) @ (if dc_k8s c then [''--k8s''] else [])
     @ (if dc_tests c then [''--tests''] else []) @ (if dc_eslint c then [''--eslint''] else [])"

definition dash_plain :: "dash_config \<Rightarrow> bool" where
  "dash_plain c \<longleftrightarrow> name_ok (dc_name c) \<and> dc_name c \<noteq> ''new'' \<and> plain_word (dc_db c) \<and> plain_word (dc_cache c) \<and> plain_word (dc_auth c)
     \<and> plain_word (dc_transport c)"

lemma dash_split:
  assumes "dash_plain c"
  shows "drop 2 (js_split CHR '' '' (dash_command c)) = [dc_name c] @ dash_flags c @ dash_switches c"
proof -
  let ?ws = "[''npx'', ''nestjs-boot'', dc_name c] @ dash_flags c @ dash_switches c"
  have "dash_command c = js_join '' '' ?ws"
    by (subst join_words) (simp_all add: dash_command_def dash_flags_def dash_switches_def dash_words_def)
  moreover have "CHR '' '' \<notin> set w" if "w \<in> set ?ws" for w
    using that assms name_plain[of "dc_name c"] unfolding dash_plain_def dash_flags_def dash_switches_def dash_words_def
    by (auto dest: plain_wordD split: if_splits)
  ultimately have "js_split CHR '' '' (dash_command c) = ?ws" by (simp only: js_split_join append_is_Nil_conv list.distinct simp_thms)
  then show ?thesis by simp
qed

lemma fold_positional:
  assumes "\<And>ps. \<exists>ps'. fold parse_arg xs (r, ps) = (r, ps @ ps')" and "\<And>ps. \<exists>ps'. fold parse_arg ys (r, ps) = (r, ps @ ps')"
  shows "\<exists>ps'. fold parse_arg (xs @ ys) (r, ps) = (r, ps @ ps')"
  using assms(1)[of ps] assms(2) by (auto simp: append_assoc) (metis append_assoc)

theorem dash_command_ignores_choices:
  assumes "dash_plain c"
  shows "create_main False ask (drop 2 (js_split CHR '' '' (dash_command c)))
    = CreateProject (plain_choice (dc_name c) ''mongodb'' ''redis'' ''jwt'' ''http'')"
proof -
  note p = assms(1)[unfolded dash_plain_def]
  let ?start = "[(''name'', CNull), (''yes'', CBool False), (''help'', CBool False)]"
  note word = parse_dash_words[of _ _ _ ?start]
  have switches: "fold parse_arg (dash_switches c) st = st" for st
    by (rule parse_ignored) (auto simp: dash_switches_def ignored_switches_def)
  have flags: "\<exists>ps'. fold parse_arg (dash_flags c) (?start, ps) = (?start, ps @ ps')" for ps
    unfolding dash_flags_def by (intro fold_positional word) (use p in \<open>simp_all add: ignored_switches_def\<close>)
  obtain ps where "fold parse_arg (dash_flags c) (?start, [dc_name c]) = (?start, dc_name c # ps)" using flags[of "[dc_name c]"] by auto
  then have "fold parse_arg ([dc_name c] @ dash_flags c @ dash_switches c) (?start, []) = (?start, dc_name c # ps)"
    using parse_positional[OF name_plain, of "dc_name c" ?start "[]"] p by (simp add: switches)
  then have parsed: "parseArgs ([dc_name c] @ dash_flags c @ dash_switches c) = jm_set ?start ''name'' (CText (dc_name c))"
    using p plain_wordD(1)[OF name_plain, of "dc_name c"] by (simp only: parseArgs_def Let_def prod.case list.case simp_thms if_True if_False)
  show ?thesis
    using p plain_wordD(1)[OF name_plain, of "dc_name c"]
    unfolding create_main_def Let_def dash_split[OF assms] parsed
    by (simp add: cli_text_def resolve_config_def or_default_def DEFAULTS_def)
qed

end
