(* ===== verification/Dev_Tools.thy ===== *)
theory Dev_Tools
  imports Api_Runner
begin

text \<open>
  What the library offers to developers: the contract verifier (\<open>testing/contract/contract-verifier.ts\<close>), the in-process
  dispatcher of messages (\<open>testing/microservice/message-dispatcher.ts\<close>), document factories (\<open>testing/factories/factory.ts\<close>), the
  start-up profiler and the reader of injection errors (\<open>di/\<close>), and the watcher of configuration files
  (\<open>config/config-watcher.ts\<close>). A handler or a service method is a function of its arguments and of the state of the program.
\<close>

section \<open>Contracts\<close>

text \<open>A schema of either library: what \<open>parse\<close> throws, what \<open>validate\<close> reports.\<close>

record schema_like =
  sl_parse :: "(json \<Rightarrow> string option) option"
  sl_validate :: "(json \<Rightarrow> string option) option"

record contract_method =
  cm_name :: string
  cm_input :: "schema_like option"
  cm_output :: "schema_like option"
  cm_testInput :: "json option"

datatype violation = MissingOnPrototype string | NotFunction string | MissingOnInstance string
  | InputFailed string string | OutputFailed string string | MethodThrew string string

datatype property_kind = FunctionProperty | OtherProperty

definition verify_method :: "(string \<Rightarrow> property_kind option) \<Rightarrow> contract_method \<Rightarrow> violation list" where
  "verify_method proto m = (case proto (cm_name m) of
     None \<Rightarrow> [MissingOnPrototype (cm_name m)]
   | Some OtherProperty \<Rightarrow> [NotFunction (cm_name m)]
   | Some FunctionProperty \<Rightarrow> [])"

definition verify_class :: "(string \<Rightarrow> property_kind option) \<Rightarrow> contract_method list \<Rightarrow> bool \<times> violation list" where
  "verify_class proto methods = (let violations = concat (map (verify_method proto) methods) in (violations = [], violations))"

definition validateWithSchema :: "schema_like \<Rightarrow> json \<Rightarrow> string option" where
  "validateWithSchema s x = (case sl_parse s of
     Some parse \<Rightarrow> map_option (\<lambda>msg. if msg = [] then ''Schema validation failed'' else msg) (parse x)
   | None \<Rightarrow> (case sl_validate s of Some validate \<Rightarrow> validate x | None \<Rightarrow> None))"

definition schema_error :: "schema_like option \<Rightarrow> json \<Rightarrow> string option" where
  "schema_error s x = (case s of None \<Rightarrow> None
     | Some sc \<Rightarrow> (case validateWithSchema sc x of Some e \<Rightarrow> if e = [] then None else Some e | None \<Rightarrow> None))"

text \<open>A method of the instance throws a message, or answers a value or \<open>undefined\<close>.\<close>

type_synonym 'w instance_method = "json list \<Rightarrow> 'w \<Rightarrow> (string + json option) \<times> 'w"

definition call_arguments :: "json \<Rightarrow> json list" where
  "call_arguments x = (case x of JArr xs \<Rightarrow> xs | _ \<Rightarrow> [x])"

definition verify_call :: "'w instance_method \<Rightarrow> contract_method \<Rightarrow> json \<Rightarrow> 'w \<Rightarrow> violation list \<times> 'w" where
  "verify_call f m x w = (case f (call_arguments x) w of
     (Inl msg, w) \<Rightarrow> ([MethodThrew (cm_name m) msg], w)
   | (Inr result, w) \<Rightarrow> (case result of
         None \<Rightarrow> ([], w)
       | Some r \<Rightarrow> (case (if r = JNull then None else schema_error (cm_output m) r) of
             Some e \<Rightarrow> ([OutputFailed (cm_name m) e], w) | None \<Rightarrow> ([], w))))"

definition verify_on_instance :: "(string \<Rightarrow> 'w instance_method option) \<Rightarrow> contract_method \<Rightarrow> 'w \<Rightarrow> violation list \<times> 'w" where
  "verify_on_instance inst m w = (case inst (cm_name m) of
     None \<Rightarrow> ([MissingOnInstance (cm_name m)], w)
   | Some f \<Rightarrow> (case cm_testInput m of
         None \<Rightarrow> ([], w)
       | Some x \<Rightarrow> (case schema_error (cm_input m) x of
             Some e \<Rightarrow> ([InputFailed (cm_name m) e], w)
           | None \<Rightarrow> verify_call f m x w)))"

fun verify_methods :: "(string \<Rightarrow> 'w instance_method option) \<Rightarrow> contract_method list \<Rightarrow> 'w \<Rightarrow> violation list \<times> 'w" where
  "verify_methods inst [] w = ([], w)"
| "verify_methods inst (m # ms) w = (let (vs, w) = verify_on_instance inst m w; (vs', w) = verify_methods inst ms w in (vs @ vs', w))"

definition verifyInstance :: "(string \<Rightarrow> 'w instance_method option) \<Rightarrow> contract_method list \<Rightarrow> 'w \<Rightarrow> (bool \<times> violation list) \<times> 'w" where
  "verifyInstance inst methods w = (let (vs, w) = verify_methods inst methods w in ((vs = [], vs), w))"

text \<open>A class meets its contract exactly when every method of the contract is a function on its prototype.\<close>

lemma verify_method_iff: "verify_method proto m = [] \<longleftrightarrow> proto (cm_name m) = Some FunctionProperty"
  unfolding verify_method_def by (simp split: option.split property_kind.split)

lemma verify_class_iff: "fst (verify_class proto methods) \<longleftrightarrow> (\<forall>m \<in> set methods. proto (cm_name m) = Some FunctionProperty)"
  by (simp add: verify_class_def Let_def verify_method_iff)

text \<open>
  An instance meets its contract exactly when every method exists, every test input satisfies its input schema, and every
  call answers nothing or a value of the output schema. Calls of methods that keep the state are taken in any order.
\<close>

definition honours :: "(string \<Rightarrow> 'w instance_method option) \<Rightarrow> 'w \<Rightarrow> contract_method \<Rightarrow> bool" where
  "honours inst w m \<longleftrightarrow> (\<exists>f. inst (cm_name m) = Some f
     \<and> (\<forall>x. cm_testInput m = Some x \<longrightarrow> schema_error (cm_input m) x = None
          \<and> (\<exists>r. fst (f (call_arguments x) w) = Inr r \<and> (\<forall>v. r = Some v \<and> v \<noteq> JNull \<longrightarrow> schema_error (cm_output m) v = None))))"

lemma verify_on_instance_iff: "fst (verify_on_instance inst m w) = [] \<longleftrightarrow> honours inst w m"
  unfolding verify_on_instance_def honours_def verify_call_def
  by (auto split: option.splits prod.splits sum.splits if_splits)

definition keeps_state :: "(string \<Rightarrow> 'w instance_method option) \<Rightarrow> bool" where
  "keeps_state inst \<longleftrightarrow> (\<forall>name f args w. inst name = Some f \<longrightarrow> snd (f args w) = w)"

lemma keeps_stateD: "keeps_state inst \<Longrightarrow> inst name = Some f \<Longrightarrow> f args w = (r, w') \<Longrightarrow> w' = w"
  unfolding keeps_state_def by (metis snd_conv)

lemma verify_methods_state:
  assumes "keeps_state inst"
  shows "snd (verify_on_instance inst m w) = w"
  unfolding verify_on_instance_def verify_call_def
  by (auto split: option.splits prod.splits sum.splits dest: keeps_stateD[OF assms])

lemma verify_methods_iff:
  assumes "keeps_state inst"
  shows "fst (verify_methods inst ms w) = [] \<longleftrightarrow> (\<forall>m \<in> set ms. honours inst w m)"
proof (induction ms)
  case (Cons m ms)
  have "verify_on_instance inst m w = (fst (verify_on_instance inst m w), w)" using verify_methods_state[OF assms, of m w] by (metis prod.collapse)
  then show ?case using Cons verify_on_instance_iff[of inst m w]
    by (simp add: Let_def case_prod_unfold) (metis fst_conv snd_conv)
qed simp

theorem instance_meets_contract:
  assumes "keeps_state inst"
  shows "fst (fst (verifyInstance inst methods w)) \<longleftrightarrow> (\<forall>m \<in> set methods. honours inst w m)"
  using verify_methods_iff[OF assms, of methods w] unfolding verifyInstance_def by (simp add: Let_def case_prod_unfold)

section \<open>Messages\<close>

text \<open>A method of a controller or provider with the patterns its decorator attached; its handler type is the number in the metadata.\<close>

record handler_method =
  hm_instance :: nat
  hm_name :: string
  hm_patterns :: "string list option"
  hm_type :: "nat option"

datatype handler_kind = MessageHandler | EventHandler

record dispatch_entry =
  he_instance :: nat
  he_method :: string
  he_kind :: handler_kind

definition handler_of :: "handler_method \<Rightarrow> dispatch_entry" where
  "handler_of m = \<lparr>he_instance = hm_instance m, he_method = hm_name m,
     he_kind = (if hm_type m = Some 1 then EventHandler else MessageHandler)\<rparr>"

text \<open>Patterns that are not texts are keyed by their JSON text; \<open>hm_patterns\<close> holds the keys.\<close>

definition register_handler :: "handler_method \<Rightarrow> (string, dispatch_entry list) jsmap \<Rightarrow> (string, dispatch_entry list) jsmap" where
  "register_handler m handlers = (if hm_name m = ''constructor'' then handlers
     else fold (\<lambda>key h. jm_set h key (or_else (jm_get h key) [] @ [handler_of m])) (or_else (hm_patterns m) []) handlers)"

definition dispatch_table :: "handler_method list \<Rightarrow> (string, dispatch_entry list) jsmap" where
  "dispatch_table ms = fold register_handler ms []"

definition handlers_for :: "handler_method list \<Rightarrow> string \<Rightarrow> dispatch_entry list option" where
  "handlers_for ms pattern = (case jm_get (dispatch_table ms) pattern of Some [] \<Rightarrow> None | r \<Rightarrow> r)"

definition dispatcher_error :: "handler_method list \<Rightarrow> string \<Rightarrow> string" where
  "dispatcher_error ms pattern = ''[nestjs-boot] MessageDispatcher: No handler found for pattern '' @ [CHR 0x22] @ pattern @ [CHR 0x22] @ ''. ''
     @ ''Registered patterns: '' @ (let keys = js_join '', '' (jm_keys (dispatch_table ms)) in if keys = [] then ''none'' else keys)"

definition dispatcher_send :: "handler_method list \<Rightarrow> string \<Rightarrow> string + dispatch_entry" where
  "dispatcher_send ms pattern = (case handlers_for ms pattern of
     None \<Rightarrow> Inl (dispatcher_error ms pattern)
   | Some entries \<Rightarrow> Inr (case List.find (\<lambda>e. he_kind e = MessageHandler) entries of Some e \<Rightarrow> e | None \<Rightarrow> hd entries))"

text \<open>The handlers that \<open>emit\<close> calls, in order.\<close>

definition dispatcher_emit :: "handler_method list \<Rightarrow> string \<Rightarrow> string + dispatch_entry list" where
  "dispatcher_emit ms pattern = (case handlers_for ms pattern of
     None \<Rightarrow> Inl (dispatcher_error ms pattern) | Some entries \<Rightarrow> Inr entries)"

text \<open>Every registration under the pattern is called once, in the order of the scan, whatever its kind.\<close>

definition registrations :: "handler_method list \<Rightarrow> string \<Rightarrow> dispatch_entry list" where
  "registrations ms pattern = concat (map (\<lambda>m. if hm_name m = ''constructor'' then []
     else map (\<lambda>_. handler_of m) (filter (\<lambda>k. k = pattern) (or_else (hm_patterns m) []))) ms)"

lemma fold_keys_get:
  "or_else (jm_get (fold (\<lambda>key h. jm_set h key (or_else (jm_get h key) [] @ [e])) keys h) p) []
     = or_else (jm_get h p) [] @ map (\<lambda>_. e) (filter (\<lambda>k. k = p) keys)"
  by (induction keys arbitrary: h) (auto simp: jsmap_simps)

lemma dispatch_table_get: "or_else (jm_get (fold register_handler ms h) p) [] = or_else (jm_get h p) [] @ registrations ms p"
proof (induction ms arbitrary: h)
  case (Cons m ms)
  then show ?case by (simp add: register_handler_def registrations_def fold_keys_get)
qed (simp add: registrations_def)

lemma handlers_for_registrations: "handlers_for ms p = (if registrations ms p = [] then None else Some (registrations ms p))"
  using dispatch_table_get[of ms "[]" p] unfolding handlers_for_def dispatch_table_def
  by (auto split: option.splits list.splits)

theorem emit_reaches_registrations:
  "dispatcher_emit ms p = (if registrations ms p = [] then Inl (dispatcher_error ms p) else Inr (registrations ms p))"
  by (simp add: dispatcher_emit_def handlers_for_registrations)

lemma send_prefers_messages:
  assumes "dispatcher_send ms p = Inr e"
  shows "e \<in> set (registrations ms p)"
    and "(\<exists>x \<in> set (registrations ms p). he_kind x = MessageHandler) \<longrightarrow> he_kind e = MessageHandler"
  using assms unfolding dispatcher_send_def handlers_for_registrations
  by (auto simp: find_Some_iff find_None_iff split: option.splits if_splits)

section \<open>Factories\<close>

datatype factory_field = StaticField json | GeneratedField "nat \<Rightarrow> json"

type_synonym factory_defaults = "(string, factory_field) jsmap"

record doc_factory =
  fc_defaults :: factory_defaults
  fc_traits :: "(string, factory_defaults) jsmap"

definition resolveFields :: "factory_defaults \<Rightarrow> nat \<Rightarrow> json_record" where
  "resolveFields defs seq = map (\<lambda>(k, d). (k, case d of StaticField v \<Rightarrow> v | GeneratedField g \<Rightarrow> g seq)) defs"

definition object_assign :: "json_record \<Rightarrow> json_record \<Rightarrow> json_record" where
  "object_assign m kvs = fold (\<lambda>(k, v) m. jm_set m k v) kvs m"

text \<open>An empty name of a trait counts as none.\<close>

definition resolveDefaults :: "doc_factory \<Rightarrow> string \<Rightarrow> json_record \<Rightarrow> nat \<Rightarrow> (string + json_record) \<times> nat" where
  "resolveDefaults f trait overrides sequence = (let seq = Suc sequence; base = resolveFields (fc_defaults f) seq
     in if trait = [] then (Inr (object_assign base overrides), seq)
        else (case jm_get (fc_traits f) trait of
            None \<Rightarrow> (Inl (''[nestjs-boot] Unknown factory trait: '' @ [CHR 0x22] @ trait @ [CHR 0x22] @ ''. Available: ''
                @ (let ks = js_join '', '' (jm_keys (fc_traits f)) in if ks = [] then ''none'' else ks)), seq)
          | Some defs \<Rightarrow> (Inr (object_assign (object_assign base (resolveFields defs seq)) overrides), seq)))"

fun build_many :: "doc_factory \<Rightarrow> nat \<Rightarrow> string \<Rightarrow> json_record \<Rightarrow> nat \<Rightarrow> (string + json_record list) \<times> nat" where
  "build_many f 0 trait overrides sequence = (Inr [], sequence)"
| "build_many f (Suc n) trait overrides sequence = (case resolveDefaults f trait overrides sequence of
     (Inl e, s) \<Rightarrow> (Inl e, s)
   | (Inr d, s) \<Rightarrow> (case build_many f n trait overrides s of (Inl e, s) \<Rightarrow> (Inl e, s) | (Inr ds, s) \<Rightarrow> (Inr (d # ds), s)))"

lemma object_assign_get:
  "jm_wf kvs \<Longrightarrow> jm_get (object_assign m kvs) k = (case jm_get kvs k of Some v \<Rightarrow> Some v | None \<Rightarrow> jm_get m k)"
proof (induction kvs arbitrary: m)
  case (Cons kv kvs)
  obtain j v where kv: "kv = (j, v)" by (cases kv)
  have wf: "jm_wf kvs" and "j \<notin> set (jm_keys kvs)" using Cons.prems by (simp_all add: jm_wf_def kv)
  then have new: "jm_get kvs j = None" by (simp add: map_of_eq_None_iff)
  have "object_assign m (kv # kvs) = object_assign (jm_set m j v) kvs" by (simp add: object_assign_def kv)
  then show ?case using Cons.IH[OF wf] new by (auto simp: kv jsmap_simps split: option.split)
qed (simp add: object_assign_def)

text \<open>Overrides win over the trait, the trait over the defaults.\<close>

lemma overrides_win:
  assumes "resolveDefaults f trait overrides n = (Inr d, s)" and "jm_wf overrides" and "jm_get overrides k = Some v"
  shows "jm_get d k = Some v"
  using assms unfolding resolveDefaults_def Let_def by (auto simp: object_assign_get split: if_splits option.splits)

text \<open>Documents built together get consecutive numbers: a generated field without override or trait holds them in order.\<close>

theorem built_in_sequence:
  assumes "build_many f n [] overrides s = (Inr ds, s')" and "jm_get (fc_defaults f) k = Some (GeneratedField g)"
    and "jm_wf overrides" and "jm_get overrides k = None"
  shows "map (\<lambda>d. jm_get d k) ds = map (\<lambda>i. Some (g i)) [Suc s..<Suc s + n]" and "s' = s + n"
proof -
  have field: "jm_get (resolveFields defs i) k = map_option (\<lambda>d. case d of StaticField v \<Rightarrow> v | GeneratedField g \<Rightarrow> g i) (jm_get defs k)" for defs i
    by (induction defs) (auto simp: resolveFields_def)
  have "map (\<lambda>d. jm_get d k) ds = map (\<lambda>i. Some (g i)) [Suc s..<Suc s + n] \<and> s' = s + n" using assms(1)
  proof (induction n arbitrary: s ds)
    case (Suc n)
    obtain es where es: "build_many f n [] overrides (Suc s) = (Inr es, s')" and ds: "ds = object_assign (resolveFields (fc_defaults f) (Suc s)) overrides # es"
      using Suc.prems by (auto simp: resolveDefaults_def Let_def split: prod.splits sum.splits)
    have "[Suc s..<Suc s + Suc n] = Suc s # [Suc (Suc s)..<Suc (Suc s) + n]" by (simp add: upt_rec)
    then show ?case using Suc.IH[OF es] assms(2-4) unfolding ds by (simp add: object_assign_get field del: upt_Suc)
  qed simp
  then show "map (\<lambda>d. jm_get d k) ds = map (\<lambda>i. Some (g i)) [Suc s..<Suc s + n]" "s' = s + n" by simp_all
qed

section \<open>The start-up profiler\<close>

record startup_profiler =
  sp_enabled :: bool
  sp_startTime :: int
  sp_phases :: "(string \<times> int) list"
  sp_phaseStart :: int
  sp_current :: "string option"

definition new_profiler :: "bool option \<Rightarrow> bool \<Rightarrow> int \<Rightarrow> startup_profiler" where
  "new_profiler enabled production now = \<lparr>sp_enabled = or_else enabled (\<not> production), sp_startTime = now, sp_phases = [],
     sp_phaseStart = now, sp_current = None\<rparr>"

definition endPhase :: "int \<Rightarrow> startup_profiler \<Rightarrow> startup_profiler" where
  "endPhase now s = (case sp_current s of
     Some phase \<Rightarrow> if sp_enabled s then s\<lparr>sp_phases := sp_phases s @ [(phase, now - sp_phaseStart s)], sp_current := None\<rparr> else s
   | None \<Rightarrow> s)"

definition startPhase :: "string \<Rightarrow> int \<Rightarrow> startup_profiler \<Rightarrow> startup_profiler" where
  "startPhase phase now s = (if \<not> sp_enabled s then s
     else let s = endPhase now s in s\<lparr>sp_current := Some phase, sp_phaseStart := now\<rparr>)"

text \<open>The phases and the total that \<open>log\<close> prints.\<close>

definition profiler_log :: "int \<Rightarrow> startup_profiler \<Rightarrow> ((string \<times> int) list \<times> int) option \<times> startup_profiler" where
  "profiler_log now s = (if \<not> sp_enabled s then (None, s)
     else let s = endPhase now s in (Some (sp_phases s, now - sp_startTime s), s))"

datatype profiler_call = PStart string | PEnd

fun profiler_step :: "profiler_call \<times> int \<Rightarrow> startup_profiler \<Rightarrow> startup_profiler" where
  "profiler_step (PStart p, t) s = startPhase p t s"
| "profiler_step (PEnd, t) s = endPhase t s"

definition phase_time :: "startup_profiler \<Rightarrow> int" where
  "phase_time s = sum_list (map snd (sp_phases s))"

definition profiler_ok :: "int \<Rightarrow> startup_profiler \<Rightarrow> bool" where
  "profiler_ok t s \<longleftrightarrow> sp_phaseStart s \<le> t \<and> sp_startTime s \<le> t
     \<and> sp_startTime s + phase_time s \<le> (if sp_current s = None then t else sp_phaseStart s)"

lemma profiler_ok_idle: "sp_current s = None \<Longrightarrow>
    profiler_ok t s \<longleftrightarrow> sp_phaseStart s \<le> t \<and> sp_startTime s \<le> t \<and> sp_startTime s + phase_time s \<le> t"
  by (simp add: profiler_ok_def)

lemma profiler_ok_busy: "sp_current s = Some p \<Longrightarrow>
    profiler_ok t s \<longleftrightarrow> sp_phaseStart s \<le> t \<and> sp_startTime s \<le> t \<and> sp_startTime s + phase_time s \<le> sp_phaseStart s"
  by (simp add: profiler_ok_def)

lemma endPhase_ok:
  assumes "profiler_ok t s" and "t \<le> now"
  shows "profiler_ok now (endPhase now s)"
proof (cases "sp_current s")
  case None
  then show ?thesis using assms by (simp add: endPhase_def profiler_ok_idle)
next
  case (Some p)
  let ?e = "s\<lparr>sp_phases := sp_phases s @ [(p, now - sp_phaseStart s)], sp_current := None\<rparr>"
  have "sp_current ?e = None" "phase_time ?e = phase_time s + (now - sp_phaseStart s)" by (simp_all add: phase_time_def)
  then have "profiler_ok now ?e" using assms profiler_ok_busy[OF Some, of t] by (simp add: profiler_ok_idle)
  moreover have "profiler_ok now s" using assms by (simp add: profiler_ok_busy[OF Some])
  ultimately show ?thesis by (simp add: endPhase_def Some)
qed

lemma profiler_step_ok:
  assumes "profiler_ok t s" and "t \<le> now"
  shows "profiler_ok now (profiler_step (c, now) s)"
proof (cases c)
  case (PStart p)
  have "profiler_ok now (endPhase now s)" by (rule endPhase_ok[OF assms])
  moreover have "sp_current (endPhase now s) = None" if "sp_enabled s" using that by (simp add: endPhase_def split: option.split)
  moreover have "profiler_ok now s" if "\<not> sp_enabled s"
    using endPhase_ok[OF assms] that by (simp add: endPhase_def split: option.splits)
  moreover have "profiler_ok now (e\<lparr>sp_current := Some p, sp_phaseStart := now\<rparr>)" if "sp_current e = None" "profiler_ok now e" for e
    using that by (simp add: profiler_ok_idle profiler_ok_busy[of _ p] phase_time_def)
  ultimately show ?thesis by (simp add: PStart startPhase_def Let_def)
qed (simp add: endPhase_ok[OF assms])

lemma profiler_run_ok:
  "profiler_ok t s \<Longrightarrow> sorted (t # map snd calls @ [now]) \<Longrightarrow> profiler_ok now (fold profiler_step calls s)"
proof (induction calls arbitrary: s t)
  case Nil
  then have "t \<le> now" by simp
  then show ?case using Nil(1) by (cases "sp_current s") (simp_all add: profiler_ok_idle profiler_ok_busy)
next
  case (Cons c calls)
  obtain k u where c: "c = (k, u)" by (cases c)
  have "profiler_ok u (profiler_step (k, u) s)" using Cons.prems by (intro profiler_step_ok[of t]) (simp_all add: c)
  then show ?case using Cons by (simp add: c)
qed

lemma profiler_constants: "sp_startTime (fold profiler_step calls s) = sp_startTime s" "sp_enabled (fold profiler_step calls s) = sp_enabled s"
proof -
  have "sp_startTime (profiler_step c s) = sp_startTime s" "sp_enabled (profiler_step c s) = sp_enabled s" for c s
    by (cases c; cases "fst c"; simp add: startPhase_def endPhase_def Let_def split: option.split)+
  then show "sp_startTime (fold profiler_step calls s) = sp_startTime s" "sp_enabled (fold profiler_step calls s) = sp_enabled s"
    by (induction calls arbitrary: s) simp_all
qed

text \<open>However phases are started and ended, the times that are logged do not add up to more than the total.\<close>

theorem phases_within_total:
  assumes "sorted (t0 # map snd calls @ [now])"
    and "fst (profiler_log now (fold profiler_step calls (new_profiler enabled production t0))) = Some (phases, whole)"
  shows "sum_list (map snd phases) \<le> whole" and "whole = now - t0"
proof -
  let ?s = "fold profiler_step calls (new_profiler enabled production t0)"
  have "profiler_ok now ?s" by (rule profiler_run_ok[OF _ assms(1)]) (simp add: new_profiler_def profiler_ok_def phase_time_def)
  then have ok: "profiler_ok now (endPhase now ?s)" by (rule endPhase_ok) simp
  have s: "phases = sp_phases (endPhase now ?s)" "whole = now - sp_startTime (endPhase now ?s)" "sp_enabled ?s"
    using assms(2) by (auto simp: profiler_log_def Let_def split: if_splits)
  have "sp_startTime (endPhase now ?s) = t0" by (simp add: endPhase_def profiler_constants new_profiler_def split: option.split)
  then show "whole = now - t0" using s by simp
  show "sum_list (map snd phases) \<le> whole"
    using ok s by (cases "sp_current (endPhase now ?s)") (simp_all add: profiler_ok_idle profiler_ok_busy phase_time_def)
qed

section \<open>Injection errors\<close>

text \<open>Regular expressions of the form \<open>/pre(\w+)post/i\<close>; what follows the word never begins with a letter of a word.\<close>

fun ci_starts :: "string \<Rightarrow> string \<Rightarrow> bool" where
  "ci_starts s [] = True"
| "ci_starts [] (p # ps) = False"
| "ci_starts (c # cs) (p # ps) = (to_lower [c] = to_lower [p] \<and> ci_starts cs ps)"

definition word_here :: "string \<Rightarrow> string \<Rightarrow> string \<Rightarrow> string option" where
  "word_here pre post s = (if ci_starts s pre
     then (let w = takeWhile word_char (drop (length pre) s)
           in if w \<noteq> [] \<and> ci_starts (drop (length pre + length w) s) post then Some w else None)
     else None)"

fun word_match :: "(string \<Rightarrow> string option) \<Rightarrow> string \<Rightarrow> string option" where
  "word_match here [] = here []"
| "word_match here (c # cs) = (case here (c # cs) of Some w \<Rightarrow> Some w | None \<Rightarrow> word_match here cs)"

fun ci_contains :: "string \<Rightarrow> string \<Rightarrow> bool" where
  "ci_contains [] p = ci_starts [] p"
| "ci_contains (c # cs) p = (ci_starts (c # cs) p \<or> ci_contains cs p)"

definition add_new :: "string option \<Rightarrow> string list \<Rightarrow> string list" where
  "add_new w names = (case w of Some n \<Rightarrow> if n \<in> set names then names else names @ [n] | None \<Rightarrow> names)"

definition extractModuleNames :: "string \<Rightarrow> string list" where
  "extractModuleNames msg =
     add_new (word_match (word_here ''cannot create the '' '' instance'') msg)
       (add_new (word_match (word_here ''the '' ('' '' @ [CHR 0x22] @ ''imports'' @ [CHR 0x22])) msg)
         (add_new (word_match (word_here ''in the '' '' context'') msg) []))"

definition extractProviderNames :: "string \<Rightarrow> string list" where
  "extractProviderNames msg = add_new (word_match (word_here ''dependencies of the '' []) msg) []"

text \<open>The second alternative also takes a text in quotes.\<close>

definition word_or_quoted :: "string \<Rightarrow> string option" where
  "word_or_quoted s = (case word_here ''the argument '' [] s of
     Some w \<Rightarrow> Some w
   | None \<Rightarrow> (if ci_starts s (''the argument '' @ [CHR 0x22])
       then (let q = takeWhile (\<lambda>c. c \<noteq> CHR 0x22) (drop 14 s)
             in if q \<noteq> [] \<and> starts_with (drop (14 + length q) s) [CHR 0x22] then Some q else None)
       else None))"

definition extractMissingDep :: "string \<Rightarrow> string option" where
  "extractMissingDep msg = (case word_match (word_here ''the argument '' '' at index'') msg of
     Some w \<Rightarrow> Some w | None \<Rightarrow> word_match word_or_quoted msg)"

datatype di_error_type = CircularError | UnresolvedError

record di_error_info =
  di_type :: di_error_type
  di_modules :: "string list"
  di_providers :: "string list"
  di_message :: string
  di_suggestion :: "string list"

text \<open>Suggestions, line by line.\<close>

definition buildCircularSuggestion :: "string list \<Rightarrow> string list" where
  "buildCircularSuggestion modules =
     (case modules of
        m # n # _ \<Rightarrow> [''Use forwardRef() in '' @ m @ [CHR 0x27] @ ''s imports:'', [], ''  @Module({'', ''    imports: [forwardRef(() => '' @ n @ '')]'', ''  })'',
          ''  export class '' @ m @ '' {}'']
      | [m] \<Rightarrow> [''Use forwardRef() when importing the other module in '' @ m @ '':'', [], ''  imports: [forwardRef(() => OtherModule)]'']
      | [] \<Rightarrow> [''Use forwardRef() on both sides of the circular import:'', [], ''  imports: [forwardRef(() => TheOtherModule)]''])
     @ [[], ''Or extract shared logic into a SharedModule that both can import.'']"

definition buildUnresolvedSuggestion :: "string option \<Rightarrow> string list \<Rightarrow> string list" where
  "buildUnresolvedSuggestion missingDep modules =
     (let dep = or_else missingDep ''the missing dependency''; md = (case modules of m # _ \<Rightarrow> m | [] \<Rightarrow> ''your module'')
      in [''Ensure '' @ dep @ '' is provided and exported:'', [], ''  1. Check that the module providing it is imported:'',
          ''     @Module({ imports: [ModuleThatProvides'' @ dep @ ''] })'', ''     export class '' @ md @ '' {}'', [],
          ''  2. Check that '' @ dep @ '' is in the providers AND exports of its module:'',
          ''     @Module({ providers: ['' @ dep @ ''], exports: ['' @ dep @ ''] })'', [],
          ''  3. If '' @ dep @ '' is from a dynamic module, ensure .register()/.forRoot() is called''])"

definition parseDiError :: "string \<Rightarrow> di_error_info option" where
  "parseDiError msg =
     (let modules = extractModuleNames msg; providers = extractProviderNames msg; missing = extractMissingDep msg
      in if ci_contains msg ''circular dependency''
         then Some \<lparr>di_type = CircularError, di_modules = modules, di_providers = providers, di_message = msg,
                di_suggestion = buildCircularSuggestion modules\<rparr>
         else if ci_contains msg (''can'' @ [CHR 0x27] @ ''t resolve dependencies'') \<or> ci_contains msg ''cannot resolve dependencies''
         then Some \<lparr>di_type = UnresolvedError, di_modules = modules,
                di_providers = (case missing of Some d \<Rightarrow> d # providers | None \<Rightarrow> providers), di_message = msg,
                di_suggestion = buildUnresolvedSuggestion missing modules\<rparr>
         else None)"

text \<open>The message of the framework, and what is read from it.\<close>

lemma framework_message_read:
  "map_option (\<lambda>i. (di_type i, di_modules i, di_providers i))
     (parseDiError (''Nest can'' @ [CHR 0x27] @ ''t resolve dependencies of the CatsService (?). Please make sure that the argument CatsRepository at index [0] ''
       @ ''is available in the CatsModule context.''))
   = Some (UnresolvedError, [''CatsModule''], [''CatsRepository'', ''CatsService''])"
  by code_simp

text \<open>The type of an error depends on the message alone, and every module that is named is a word of it.\<close>

lemma word_here_word: "word_here pre post s = Some w \<Longrightarrow> w \<noteq> [] \<and> list_all word_char w"
  unfolding word_here_def Let_def by (auto simp: list_all_iff dest: set_takeWhileD split: if_splits)

lemma word_match_word: "(\<And>t v. here t = Some v \<Longrightarrow> P v) \<Longrightarrow> word_match here s = Some w \<Longrightarrow> P w"
  by (induction s) (auto split: option.splits)

lemma module_names_are_words:
  assumes "n \<in> set (extractModuleNames msg)"
  shows "n \<noteq> []" and "list_all word_char n"
proof -
  have m: "n \<noteq> [] \<and> list_all word_char n" if "word_match (word_here pre post) msg = Some n" for pre post
    by (rule word_match_word[OF _ that, where P = "\<lambda>n. n \<noteq> [] \<and> list_all word_char n"]) (rule word_here_word)
  have "\<exists>pre post. word_match (word_here pre post) msg = Some n"
    using assms unfolding extractModuleNames_def add_new_def by (auto split: option.splits if_splits)
  then show "n \<noteq> []" "list_all word_char n" using m by blast+
qed

section \<open>The watcher of configuration files\<close>

text \<open>A watched file: whether its watcher is open, and when the timer that was set last fires.\<close>

record file_watch =
  fw_path :: string
  fw_open :: bool
  fw_timer :: "int option"

definition watch_file :: "bool \<Rightarrow> (string \<Rightarrow> string) \<Rightarrow> (string \<Rightarrow> bool) \<Rightarrow> string \<Rightarrow> file_watch list \<Rightarrow> (string + file_watch list)" where
  "watch_file production resolve exists envPath ws =
     (if production then Inl ''[nestjs-boot] ConfigWatcher.watch() called in production. ''
      else if \<not> exists (resolve envPath)
      then Inl (''[nestjs-boot] ConfigWatcher: File not found: '' @ [CHR 0x22] @ resolve envPath @ [CHR 0x22])
      else Inr (ws @ [\<lparr>fw_path = resolve envPath, fw_open = True, fw_timer = None\<rparr>]))"

text \<open>A change or renaming of a file sets the timer of each of its open watchers anew.\<close>

definition file_event :: "string \<Rightarrow> int \<Rightarrow> file_watch list \<Rightarrow> file_watch list" where
  "file_event path now = map (\<lambda>w. if fw_open w \<and> fw_path w = path then w\<lparr>fw_timer := Some (now + 100)\<rparr> else w)"

definition is_due :: "int \<Rightarrow> file_watch \<Rightarrow> bool" where
  "is_due now w = (case fw_timer w of Some d \<Rightarrow> d \<le> now | None \<Rightarrow> False)"

definition fire_timers :: "int \<Rightarrow> file_watch list \<Rightarrow> string list \<times> file_watch list" where
  "fire_timers now ws = (map fw_path (filter (is_due now) ws), map (\<lambda>w. if is_due now w then w\<lparr>fw_timer := None\<rparr> else w) ws)"

definition stop_watching :: "file_watch list \<Rightarrow> file_watch list" where
  "stop_watching = map (\<lambda>w. w\<lparr>fw_open := False\<rparr>)"

fun createDevConfigWatcher :: "bool \<Rightarrow> (string \<Rightarrow> string) \<Rightarrow> (string \<Rightarrow> bool) \<Rightarrow> string list \<Rightarrow> file_watch list \<Rightarrow> (string + file_watch list)" where
  "createDevConfigWatcher production resolve exists [] ws = Inr ws"
| "createDevConfigWatcher production resolve exists (p # ps) ws =
     (if \<not> exists (resolve p) then createDevConfigWatcher production resolve exists ps ws
      else (case watch_file production resolve exists p ws of Inl e \<Rightarrow> Inl e
        | Inr ws \<Rightarrow> createDevConfigWatcher production resolve exists ps ws))"

text \<open>The events of a file at some times, with the timers that are due fired before each.\<close>

fun watch_events :: "string \<Rightarrow> int list \<Rightarrow> file_watch list \<Rightarrow> string list \<times> file_watch list" where
  "watch_events path [] ws = ([], ws)"
| "watch_events path (t # ts) ws = (let (n, ws) = fire_timers t ws; (n', ws) = watch_events path ts (file_event path t ws) in (n @ n', ws))"

fun close_together :: "int list \<Rightarrow> bool" where
  "close_together (s # t # ts) \<longleftrightarrow> s \<le> t \<and> t < s + 100 \<and> close_together (t # ts)"
| "close_together _ \<longleftrightarrow> True"

lemma burst_pending:
  assumes "close_together (s # ts)" and "fw_open w" and "fw_path w = path" and "fw_timer w = Some (s + 100)"
  shows "watch_events path ts [w] = ([], [w\<lparr>fw_timer := Some (last (s # ts) + 100)\<rparr>])"
  using assms
proof (induction ts arbitrary: s w)
  case Nil
  then show ?case by simp
next
  case (Cons t ts)
  have "\<not> is_due t w" using Cons.prems by (simp add: is_due_def)
  then have "fire_timers t [w] = ([], [w])" by (simp add: fire_timers_def)
  moreover have "file_event path t [w] = [w\<lparr>fw_timer := Some (t + 100)\<rparr>]" using Cons.prems by (simp add: file_event_def)
  ultimately show ?case using Cons.IH[of t "w\<lparr>fw_timer := Some (t + 100)\<rparr>"] Cons.prems by simp
qed

text \<open>Events less than 100 ms apart lead to one notification, 100 ms after the last.\<close>

theorem burst_notified_once:
  assumes "close_together ts" and "ts \<noteq> []" and "fw_open w" and "fw_path w = path" and "fw_timer w = None"
  shows "fst (watch_events path ts [w]) = []"
    and "fire_timers (last ts + 100) (snd (watch_events path ts [w])) = ([path], [w])"
proof -
  obtain s us where ts: "ts = s # us" using assms(2) by (cases ts) auto
  have "\<not> is_due s w" using assms(5) by (simp add: is_due_def)
  then have "fire_timers s [w] = ([], [w])" by (simp add: fire_timers_def)
  moreover have "file_event path s [w] = [w\<lparr>fw_timer := Some (s + 100)\<rparr>]" using assms by (simp add: file_event_def)
  ultimately have e: "watch_events path ts [w] = ([], [w\<lparr>fw_timer := Some (last ts + 100)\<rparr>])"
    using burst_pending[of s us "w\<lparr>fw_timer := Some (s + 100)\<rparr>" path] assms unfolding ts by simp
  show "fst (watch_events path ts [w]) = []" by (simp add: e)
  show "fire_timers (last ts + 100) (snd (watch_events path ts [w])) = ([path], [w])"
    using assms(4,5) by (simp add: e fire_timers_def is_due_def)
qed

text \<open>Stopping closes the watchers but leaves their timers: a change just before is still notified after the stop.\<close>

lemma notified_after_stop:
  assumes "fw_open w" and "fw_path w = path"
  shows "fst (fire_timers (now + 100) (stop_watching (file_event path now [w]))) = [path]"
  using assms by (simp add: fire_timers_def stop_watching_def file_event_def is_due_def)

end
