(* ===== verification/Job_Queue.thy ===== *)
theory Job_Queue
  imports Js_Text
begin

text \<open>
  The job queue, \<open>queue/queue.service.ts\<close> and \<open>queue/queue.module.ts\<close>: queues by name, workers, their end, and which method of a
  processor class handles a job. A queue or a worker of the BullMQ package is a number; the package answers calls on it.
\<close>

section \<open>The service\<close>

record queue_service =
  qs_installed :: bool
  qs_connected :: bool
  qs_queues :: "(string, nat) jsmap"
  qs_workers :: "(string, nat) jsmap"
  qs_opened :: nat
  qs_closed :: "nat list"

text \<open>\<open>qs_opened\<close> numbers the queues and workers made; \<open>qs_closed\<close> are those whose \<open>close\<close> was called, in order.\<close>

definition new_queue_service :: "bool \<Rightarrow> string option \<Rightarrow> queue_service" where
  "new_queue_service installed url = \<lparr>qs_installed = installed, qs_connected = (installed \<and> (case url of Some u \<Rightarrow> u \<noteq> [] | None \<Rightarrow> False)),
     qs_queues = [], qs_workers = [], qs_opened = 0, qs_closed = []\<rparr>"

definition getQueue :: "string \<Rightarrow> queue_service \<Rightarrow> (string + nat) \<times> queue_service" where
  "getQueue name s =
     (if \<not> qs_installed s then (Inl ''bullmq is not installed. Install it to use QueueService.'', s)
      else (case jm_get (qs_queues s) name of
          Some q \<Rightarrow> (Inr q, s)
        | None \<Rightarrow> (Inr (qs_opened s), s\<lparr>qs_queues := jm_set (qs_queues s) name (qs_opened s), qs_opened := qs_opened s + 1\<rparr>)))"

text \<open>\<open>add\<close> is the queue's own method, on a state of the package.\<close>

definition addJob :: "(nat \<Rightarrow> 'j \<Rightarrow> 'w \<Rightarrow> (string + 'r) \<times> 'w) \<Rightarrow> string \<Rightarrow> 'j \<Rightarrow> queue_service \<times> 'w \<Rightarrow> (string + 'r) \<times> queue_service \<times> 'w" where
  "addJob add queueName job = (\<lambda>(s, w). case getQueue queueName s of
     (Inl e, s) \<Rightarrow> (Inl e, s, w)
   | (Inr q, s) \<Rightarrow> (let (r, w) = add q job w in (r, s, w)))"

definition addBulk :: "(nat \<Rightarrow> 'j list \<Rightarrow> 'w \<Rightarrow> (string + 'r list) \<times> 'w) \<Rightarrow> string \<Rightarrow> 'j list \<Rightarrow> queue_service \<times> 'w
    \<Rightarrow> (string + 'r list) \<times> queue_service \<times> 'w" where
  "addBulk add queueName jobs = (\<lambda>(s, w). case getQueue queueName s of
     (Inl e, s) \<Rightarrow> (Inl e, s, w)
   | (Inr q, s) \<Rightarrow> (let (r, w) = add q jobs w in (r, s, w)))"

definition registerWorker :: "string \<Rightarrow> queue_service \<Rightarrow> queue_service" where
  "registerWorker queueName s = (if \<not> qs_installed s then s
     else s\<lparr>qs_workers := jm_set (qs_workers s) queueName (qs_opened s), qs_opened := qs_opened s + 1\<rparr>)"

text \<open>A \<open>close\<close> that fails is logged and the next is called; so is a \<open>quit\<close> that fails.\<close>

definition queue_destroy :: "queue_service \<Rightarrow> queue_service" where
  "queue_destroy s = s\<lparr>qs_closed := qs_closed s @ jm_values (qs_workers s) @ jm_values (qs_queues s), qs_workers := [], qs_queues := [],
     qs_connected := False\<rparr>"

section \<open>Processor classes\<close>

text \<open>What the decorators attached to a method; a provider with its queue name, when it is an object of a class that has one.\<close>

record process_method =
  pm_name :: string
  pm_process :: "string option"
  pm_failed :: bool
  pm_completed :: bool

record queue_provider =
  qp_queue :: "string option"
  qp_methods :: "process_method list"

record worker_handlers =
  wh_queue :: string
  wh_job :: "string option"
  wh_process :: string
  wh_failed :: "string option"
  wh_completed :: "string option"

text \<open>The last method that bears a decorator is taken.\<close>

definition last_method :: "(process_method \<Rightarrow> bool) \<Rightarrow> process_method list \<Rightarrow> process_method option" where
  "last_method P ms = fold (\<lambda>m r. if P m then Some m else r) ms None"

definition provider_worker :: "queue_provider \<Rightarrow> worker_handlers option" where
  "provider_worker p = (case qp_queue p of
     None \<Rightarrow> None
   | Some queue \<Rightarrow> if queue = [] then None
       else (case last_method (\<lambda>m. pm_process m \<noteq> None) (qp_methods p) of
           None \<Rightarrow> None
         | Some m \<Rightarrow> Some \<lparr>wh_queue = queue,
             wh_job = (case pm_process m of Some j \<Rightarrow> if j = ''*'' then None else Some j | None \<Rightarrow> None), wh_process = pm_name m,
             wh_failed = map_option pm_name (last_method pm_failed (qp_methods p)),
             wh_completed = map_option pm_name (last_method pm_completed (qp_methods p))\<rparr>))"

definition queue_module_init :: "queue_provider list \<Rightarrow> queue_service \<Rightarrow> worker_handlers list \<times> queue_service" where
  "queue_module_init ps s = (let ws = List.map_filter provider_worker ps in (ws, fold (\<lambda>w. registerWorker (wh_queue w)) ws s))"

text \<open>The method that a job with some name runs; \<open>None\<close> when the processor answers \<open>undefined\<close> at once.\<close>

definition processor_runs :: "worker_handlers \<Rightarrow> string option \<Rightarrow> string option" where
  "processor_runs w jobName = (case wh_job w of
     None \<Rightarrow> Some (wh_process w)
   | Some j \<Rightarrow> if j = [] \<or> jobName = Some j then Some (wh_process w) else None)"

section \<open>Queues and workers\<close>

text \<open>A queue keeps its number, and two names have two queues.\<close>

definition queues_ok :: "queue_service \<Rightarrow> bool" where
  "queues_ok s \<longleftrightarrow> jm_wf (qs_queues s) \<and> jm_wf (qs_workers s) \<and> distinct (jm_values (qs_workers s) @ jm_values (qs_queues s))
     \<and> (\<forall>i \<in> set (jm_values (qs_workers s) @ jm_values (qs_queues s)). i < qs_opened s)"

datatype queue_call = QGet string | QRegister string

fun queue_call_step :: "queue_call \<Rightarrow> queue_service \<Rightarrow> queue_service" where
  "queue_call_step (QGet n) s = snd (getQueue n s)"
| "queue_call_step (QRegister n) s = registerWorker n s"

lemma jm_set_fresh: "jm_get m k = None \<Longrightarrow> jm_set m k v = m @ [(k, v)]"
  by (induction m) (auto split: if_splits)

lemma jm_set_values: "jm_wf m \<Longrightarrow> set (jm_values (jm_set m k v)) \<subseteq> insert v (set (jm_values m))"
  by (induction m) (auto simp: jm_wf_def)

lemma jm_set_distinct:
  assumes "distinct (jm_values m)" and "v \<notin> set (jm_values m)"
  shows "distinct (jm_values (jm_set m k v))"
proof -
  have sub: "set (jm_values (jm_set m k v)) \<subseteq> insert v (set (jm_values m))" for m by (induction m) auto
  show ?thesis using assms
  proof (induction m)
    case (Cons kv m)
    then show ?case using sub[of m] by auto
  qed simp
qed

lemma queue_call_ok:
  assumes "queues_ok s"
  shows "queues_ok (queue_call_step c s)"
proof (cases c)
  case (QGet n)
  show ?thesis
  proof (cases "qs_installed s \<and> jm_get (qs_queues s) n = None")
    case True
    then show ?thesis using assms unfolding QGet queues_ok_def
      by (simp add: getQueue_def jm_set_fresh) (auto simp: jm_wf_def map_of_eq_None_iff less_Suc_eq)
  next
    case False
    then show ?thesis using assms by (auto simp: QGet getQueue_def split: option.split)
  qed
next
  case (QRegister n)
  show ?thesis
  proof (cases "qs_installed s")
    case True
    note ok = assms[unfolded queues_ok_def]
    let ?ws = "jm_set (qs_workers s) n (qs_opened s)"
    have sub: "set (jm_values ?ws) \<subseteq> insert (qs_opened s) (set (jm_values (qs_workers s)))" using ok by (intro jm_set_values) blast
    have new: "qs_opened s \<notin> set (jm_values (qs_workers s) @ jm_values (qs_queues s))" using ok by blast
    have "distinct (jm_values ?ws)" using ok new by (intro jm_set_distinct) auto
    moreover have "x \<notin> set (jm_values (qs_queues s))" if "x \<in> set (jm_values ?ws)" for x
    proof (cases "x = qs_opened s")
      case False
      then have "x \<in> set (jm_values (qs_workers s))" using subsetD[OF sub that] by blast
      moreover have "set (jm_values (qs_workers s)) \<inter> set (jm_values (qs_queues s)) = {}" using ok by simp
      ultimately show ?thesis by blast
    next
      case True
      have "qs_opened s \<notin> set (jm_values (qs_queues s))" using new by simp
      then show ?thesis unfolding True .
    qed
    then have "set (jm_values ?ws) \<inter> set (jm_values (qs_queues s)) = {}" by blast
    moreover have "\<forall>i \<in> set (jm_values ?ws @ jm_values (qs_queues s)). i < Suc (qs_opened s)"
    proof
      fix i assume "i \<in> set (jm_values ?ws @ jm_values (qs_queues s))"
      then have "i = qs_opened s \<or> i \<in> set (jm_values (qs_workers s) @ jm_values (qs_queues s))" using subsetD[OF sub, of i] by auto
      then show "i < Suc (qs_opened s)" using ok by (metis lessI less_SucI)
    qed
    ultimately show ?thesis using ok True unfolding QRegister queues_ok_def by (simp add: registerWorker_def)
  next
    case False
    then show ?thesis using assms by (simp add: QRegister registerWorker_def)
  qed
qed

lemma queue_calls_ok: "queues_ok s \<Longrightarrow> queues_ok (fold queue_call_step cs s)"
  by (induction cs arbitrary: s) (simp_all add: queue_call_ok)

text \<open>Asking again for a queue answers the same queue, whatever was asked in between.\<close>

lemma queue_kept: "jm_get (qs_queues s) n = Some q \<Longrightarrow> jm_get (qs_queues (queue_call_step c s)) n = Some q"
  by (cases c) (auto simp: getQueue_def registerWorker_def jsmap_simps split: option.split)

theorem same_queue:
  assumes "fst (getQueue n s) = Inr q"
  shows "fst (getQueue n (fold queue_call_step cs (snd (getQueue n s)))) = Inr q"
proof -
  have inst: "qs_installed (queue_call_step c s) = qs_installed s" for c s
    by (cases c) (auto simp: getQueue_def registerWorker_def split: option.split)
  have insts: "qs_installed (fold queue_call_step cs s) = qs_installed s" for s
    by (induction cs arbitrary: s) (simp_all add: inst)
  have kept: "jm_get (qs_queues s) n = Some q \<Longrightarrow> jm_get (qs_queues (fold queue_call_step cs s)) n = Some q" for s
    by (induction cs arbitrary: s) (simp_all add: queue_kept)
  have "jm_get (qs_queues (snd (getQueue n s))) n = Some q" "qs_installed (snd (getQueue n s))"
    using assms by (auto simp: getQueue_def jsmap_simps split: if_splits option.splits)
  then show ?thesis using kept[of "snd (getQueue n s)"] insts[of "snd (getQueue n s)"] by (simp add: getQueue_def)
qed

text \<open>At the end every queue and worker on record is closed once; what is lost is a worker that was replaced by another for its queue.\<close>

definition one_worker_each :: "queue_call list \<Rightarrow> bool" where
  "one_worker_each cs \<longleftrightarrow> distinct (concat (map (\<lambda>c. case c of QRegister n \<Rightarrow> [n] | QGet _ \<Rightarrow> []) cs))"

definition all_recorded :: "queue_service \<Rightarrow> bool" where
  "all_recorded s \<longleftrightarrow> set (jm_values (qs_workers s) @ jm_values (qs_queues s)) = {..<qs_opened s}"

lemma call_recorded:
  assumes "all_recorded s" and "\<And>n. c = QRegister n \<Longrightarrow> jm_get (qs_workers s) n = None"
  shows "all_recorded (queue_call_step c s)"
  using assms unfolding all_recorded_def
  by (cases c) (auto simp: getQueue_def registerWorker_def jm_set_fresh lessThan_Suc split: option.split)

lemma call_workers:
  "m \<in> set (jm_keys (qs_workers (queue_call_step c s))) \<Longrightarrow> m \<in> set (jm_keys (qs_workers s)) \<or> c = QRegister m"
  by (cases c) (auto simp: getQueue_def registerWorker_def dom_update split: option.splits if_splits)

lemma calls_recorded:
  assumes "all_recorded s" and "one_worker_each cs" and "\<forall>n. QRegister n \<in> set cs \<longrightarrow> n \<notin> set (jm_keys (qs_workers s))"
  shows "all_recorded (fold queue_call_step cs s)"
  using assms
proof (induction cs arbitrary: s)
  case (Cons c cs)
  let ?t = "queue_call_step c s"
  have "all_recorded ?t" using Cons.prems by (intro call_recorded) (auto simp: map_of_eq_None_iff)
  moreover have "one_worker_each cs" using Cons.prems(2) by (cases c) (auto simp: one_worker_each_def)
  moreover have "n \<notin> set (jm_keys (qs_workers ?t))" if "QRegister n \<in> set cs" for n
  proof
    assume "n \<in> set (jm_keys (qs_workers ?t))"
    then have "c = QRegister n" using call_workers[of n c s] Cons.prems(3) that by auto
    then show False using Cons.prems(2) that by (force simp: one_worker_each_def)
  qed
  ultimately show ?case using Cons.IH[of ?t] by simp
qed simp

theorem destroy_closes_all:
  assumes "one_worker_each cs" and "s = fold queue_call_step cs (new_queue_service installed url)"
  shows "set (qs_closed (queue_destroy s)) = {..<qs_opened s}" and "distinct (qs_closed (queue_destroy s))"
proof -
  let ?n = "new_queue_service installed url"
  have "all_recorded s" unfolding assms(2) by (rule calls_recorded[OF _ assms(1)]) (simp_all add: new_queue_service_def all_recorded_def)
  moreover have "queues_ok s" unfolding assms(2) by (rule queue_calls_ok) (simp add: new_queue_service_def queues_ok_def)
  moreover have "qs_closed s = []"
  proof -
    have "qs_closed (queue_call_step c s) = qs_closed s" for c s
      by (cases c) (auto simp: getQueue_def registerWorker_def split: option.split)
    then have "qs_closed (fold queue_call_step cs t) = qs_closed t" for t by (induction cs arbitrary: t) simp_all
    then show ?thesis by (simp add: assms(2) new_queue_service_def)
  qed
  ultimately show "set (qs_closed (queue_destroy s)) = {..<qs_opened s}" "distinct (qs_closed (queue_destroy s))"
    by (simp_all add: queue_destroy_def all_recorded_def queues_ok_def)
qed

text \<open>Two processor classes for one queue: the worker of the first is never closed.\<close>

lemma replaced_worker_left_open:
  assumes "s = registerWorker n (registerWorker n (new_queue_service True url))"
  shows "0 < qs_opened s" and "0 \<notin> set (qs_closed (queue_destroy s))"
  unfolding assms by (simp_all add: registerWorker_def new_queue_service_def queue_destroy_def)

section \<open>Which jobs are handled\<close>

lemma last_method_append: "last_method P (ms @ [m]) = (if P m then Some m else last_method P ms)"
  by (simp add: last_method_def)

lemma last_method_None: "last_method P ms = None \<longleftrightarrow> (\<forall>m \<in> set ms. \<not> P m)"
proof (induction ms rule: rev_induct)
  case Nil
  then show ?case by (simp add: last_method_def)
qed (auto simp: last_method_append)

text \<open>In a class with one handler, a job runs it exactly when its name is the handler's, or the handler takes every job.\<close>

theorem single_handler_runs:
  assumes "provider_worker p = Some w" and "qp_methods p = before @ [m] @ after" and "pm_process m = Some job"
    and "\<forall>x \<in> set (before @ after). pm_process x = None" and "job \<noteq> []"
  shows "processor_runs w (Some n) = (if job = ''*'' \<or> n = job then Some (pm_name m) else None)"
proof -
  have skip: "fold (\<lambda>x r. if pm_process x \<noteq> None then Some x else r) xs r = r" if "\<forall>x \<in> set xs. pm_process x = None" for xs and r
    using that by (induction xs) simp_all
  have "last_method (\<lambda>m. pm_process m \<noteq> None) (qp_methods p) = Some m"
    using assms(3,4) skip[of before None] skip[of after "Some m"] unfolding last_method_def assms(2) by simp
  then show ?thesis using assms(1,3,5) by (auto simp: provider_worker_def processor_runs_def split: option.splits if_splits)
qed

text \<open>Of two handlers in a class the first never runs: its jobs are answered as if they were done.\<close>

lemma earlier_handler_never_runs:
  assumes "pm_process m1 = Some j1" and "pm_process m2 = Some j2" and "j2 \<noteq> ''*''" and "j2 \<noteq> []" and "j1 \<noteq> j2" and "q \<noteq> []"
    and "provider_worker \<lparr>qp_queue = Some q, qp_methods = [m1, m2]\<rparr> = Some w"
  shows "processor_runs w (Some j1) = None"
  using assms by (auto simp: provider_worker_def last_method_def processor_runs_def)

end
