(* ===== verification/Campaigns.thy ===== *)
theory Campaigns
  imports Js_Text
begin

text \<open>
  The campaign service of the microservices example, \<open>examples/microservices/campaign-service/src/campaign.service.ts\<close>: campaigns with promo
  codes, a cache in front of them, and the count of their uses. The Mongoose models are the parameter \<open>campaign_db\<close>, a record of the
  queries the service makes on a database \<open>'w\<close>; the cache is a map whose entries may expire at any time. Amounts are rationals, dates are
  milliseconds; the texts of numbers and the parsing of dates are parameters.
\<close>

section \<open>Data\<close>

record discount =
  ds_type :: string
  ds_value :: rat
  ds_max :: "rat option"

record campaign =
  cg_id :: string
  cg_name :: string
  cg_description :: "string option"
  cg_type :: string
  cg_status :: string
  cg_promoCode :: "string option"
  cg_discount :: discount
  cg_startDate :: int
  cg_endDate :: int
  cg_usageLimit :: int
  cg_usageCount :: int
  cg_minOrderAmount :: rat
  cg_targetProducts :: "string list"
  cg_targetCategories :: "string list"

record campaign_input =
  cn_name :: string
  cn_description :: "string option"
  cn_type :: string
  cn_promoCode :: "string option"
  cn_discount :: discount
  cn_startDate :: string
  cn_endDate :: string
  cn_usageLimit :: "int option"
  cn_minOrderAmount :: "rat option"
  cn_targetProducts :: "string list option"
  cn_targetCategories :: "string list option"

record campaign_changes =
  ch_name :: "string option"
  ch_description :: "string option"
  ch_discount :: "discount option"
  ch_endDate :: "string option"
  ch_usageLimit :: "int option"
  ch_minOrderAmount :: "rat option"

record campaign_usage =
  cu_campaignId :: string
  cu_userId :: string
  cu_orderId :: string
  cu_discount :: rat

text \<open>What the service asks of its two models. A document to be saved comes with its dates, its status and its count, an
  update with its date.\<close>

record 'w campaign_db =
  cd_create :: "campaign_input \<Rightarrow> int \<Rightarrow> int \<Rightarrow> string \<Rightarrow> int \<Rightarrow> 'w \<Rightarrow> (string + campaign) \<times> 'w"
  cd_findById :: "string \<Rightarrow> 'w \<Rightarrow> campaign option"
  cd_findByPromo :: "string \<Rightarrow> 'w \<Rightarrow> campaign option"
  cd_find :: "string option \<Rightarrow> string option \<Rightarrow> int \<Rightarrow> int \<Rightarrow> 'w \<Rightarrow> campaign list"
  cd_count :: "string option \<Rightarrow> string option \<Rightarrow> 'w \<Rightarrow> nat"
  cd_update :: "string \<Rightarrow> campaign_changes \<Rightarrow> int option \<Rightarrow> 'w \<Rightarrow> campaign option \<times> 'w"
  cd_delete :: "string \<Rightarrow> 'w \<Rightarrow> 'w"
  cd_saveStatus :: "string \<Rightarrow> string \<Rightarrow> 'w \<Rightarrow> (string + campaign) \<times> 'w"
  cd_incUsage :: "string \<Rightarrow> 'w \<Rightarrow> 'w"
  cd_usageOf :: "string \<Rightarrow> 'w \<Rightarrow> campaign_usage option"
  cd_createUsage :: "campaign_usage \<Rightarrow> 'w \<Rightarrow> (string + unit) \<times> 'w"
  cd_usages :: "string \<Rightarrow> 'w \<Rightarrow> campaign_usage list"

datatype campaign_event = Activated string string "string option" | Deactivated string string string | Applied string string string rat

record 'w campaign_state =
  cp_db :: 'w
  cp_cache :: "(string, campaign) jsmap"
  cp_events :: "campaign_event list"

record 'w campaign_env =
  ce_db :: "'w campaign_db"
  ce_date :: "string \<Rightarrow> int"
  ce_fixed :: "rat \<Rightarrow> string"

definition campaign_key :: "string \<Rightarrow> string" where "campaign_key i = ''campaign:'' @ i"
definition promo_key :: "string \<Rightarrow> string" where "promo_key code = ''promo:'' @ code"

definition uncache :: "string \<Rightarrow> 'w campaign_state \<Rightarrow> 'w campaign_state" where
  "uncache k s = s\<lparr>cp_cache := jm_del (cp_cache s) k\<rparr>"

definition uncache_promo :: "string option \<Rightarrow> 'w campaign_state \<Rightarrow> 'w campaign_state" where
  "uncache_promo p s = (case p of Some code \<Rightarrow> if code = [] then s else uncache (promo_key code) s | None \<Rightarrow> s)"

definition emit_event :: "campaign_event \<Rightarrow> 'w campaign_state \<Rightarrow> 'w campaign_state" where
  "emit_event e s = s\<lparr>cp_events := cp_events s @ [e]\<rparr>"

definition not_found :: "string \<Rightarrow> string" where
  "not_found i = ''Campaign '' @ i @ '' not found''"

section \<open>The service\<close>

definition campaign_create :: "'w campaign_env \<Rightarrow> campaign_input \<Rightarrow> 'w campaign_state \<Rightarrow> (string + campaign) \<times> 'w campaign_state" where
  "campaign_create env input s =
     (let (r, w) = cd_create (ce_db env) input (ce_date env (cn_startDate input)) (ce_date env (cn_endDate input)) ''draft'' 0 (cp_db s)
      in (r, s\<lparr>cp_db := w\<rparr>))"

definition campaign_findOne :: "'w campaign_env \<Rightarrow> string \<Rightarrow> 'w campaign_state \<Rightarrow> (string + campaign) \<times> 'w campaign_state" where
  "campaign_findOne env i s = (case jm_get (cp_cache s) (campaign_key i) of
     Some c \<Rightarrow> (Inr c, s)
   | None \<Rightarrow> (case cd_findById (ce_db env) i (cp_db s) of
         None \<Rightarrow> (Inl (not_found i), s)
       | Some c \<Rightarrow> (Inr c, s\<lparr>cp_cache := jm_set (cp_cache s) (campaign_key i) c\<rparr>)))"

definition campaign_findAll :: "'w campaign_env \<Rightarrow> string option \<Rightarrow> string option \<Rightarrow> int \<Rightarrow> int \<Rightarrow> 'w campaign_state \<Rightarrow> campaign list \<times> nat" where
  "campaign_findAll env status kind page limit s =
     (let given = (\<lambda>x. case x of Some [] \<Rightarrow> None | _ \<Rightarrow> x); skip = (max page 1 - 1) * limit
      in (cd_find (ce_db env) (given status) (given kind) skip (min limit 100) (cp_db s), cd_count (ce_db env) (given status) (given kind) (cp_db s)))"

definition campaign_update :: "'w campaign_env \<Rightarrow> string \<Rightarrow> campaign_changes \<Rightarrow> 'w campaign_state \<Rightarrow> (string + campaign) \<times> 'w campaign_state" where
  "campaign_update env i changes s = (case cd_update (ce_db env) i changes
       (case ch_endDate changes of Some d \<Rightarrow> if d = [] then None else Some (ce_date env d) | None \<Rightarrow> None) (cp_db s) of
     (None, w) \<Rightarrow> (Inl (not_found i), s\<lparr>cp_db := w\<rparr>)
   | (Some c, w) \<Rightarrow> (Inr c, uncache_promo (cg_promoCode c) (uncache (campaign_key i) (s\<lparr>cp_db := w\<rparr>))))"

definition campaign_delete :: "'w campaign_env \<Rightarrow> string \<Rightarrow> 'w campaign_state \<Rightarrow> (string + bool) \<times> 'w campaign_state" where
  "campaign_delete env i s = (case cd_findById (ce_db env) i (cp_db s) of
     None \<Rightarrow> (Inl (not_found i), s)
   | Some c \<Rightarrow> (Inr True, uncache_promo (cg_promoCode c) (uncache (campaign_key i) (s\<lparr>cp_db := cd_delete (ce_db env) i (cp_db s)\<rparr>))))"

definition campaign_activate :: "'w campaign_env \<Rightarrow> int \<Rightarrow> string \<Rightarrow> 'w campaign_state \<Rightarrow> (string + campaign) \<times> 'w campaign_state" where
  "campaign_activate env now i s = (case cd_findById (ce_db env) i (cp_db s) of
     None \<Rightarrow> (Inl (not_found i), s)
   | Some c \<Rightarrow> if cg_endDate c < now then (Inl ''Cannot activate a campaign that has already ended'', s)
       else if now < cg_startDate c then (Inl ''Cannot activate a campaign before its start date'', s)
       else (case cd_saveStatus (ce_db env) i ''active'' (cp_db s) of
           (Inl e, w) \<Rightarrow> (Inl e, s\<lparr>cp_db := w\<rparr>)
         | (Inr saved, w) \<Rightarrow> (Inr saved, emit_event (Activated i (cg_name saved) (cg_promoCode saved)) (uncache (campaign_key i) (s\<lparr>cp_db := w\<rparr>)))))"

definition campaign_deactivate :: "'w campaign_env \<Rightarrow> string \<Rightarrow> 'w campaign_state \<Rightarrow> (string + campaign) \<times> 'w campaign_state" where
  "campaign_deactivate env i s = (case cd_findById (ce_db env) i (cp_db s) of
     None \<Rightarrow> (Inl (not_found i), s)
   | Some c \<Rightarrow> (case cd_saveStatus (ce_db env) i ''paused'' (cp_db s) of
         (Inl e, w) \<Rightarrow> (Inl e, s\<lparr>cp_db := w\<rparr>)
       | (Inr saved, w) \<Rightarrow> (Inr saved, emit_event (Deactivated i (cg_name saved) ''manual'')
           (uncache_promo (cg_promoCode saved) (uncache (campaign_key i) (s\<lparr>cp_db := w\<rparr>))))))"

definition calculateDiscount :: "discount \<Rightarrow> rat \<Rightarrow> rat" where
  "calculateDiscount d orderAmount =
     (let amount = (if ds_type d = ''percentage'' then
            (let a = orderAmount * (ds_value d / 100) in case ds_max d of Some m \<Rightarrow> if m \<noteq> 0 then min a m else a | None \<Rightarrow> a)
          else if ds_type d = ''fixed_amount'' then ds_value d else 0)
      in min amount orderAmount)"

text \<open>The checks on a campaign, and the message of the first that fails.\<close>

definition promo_refusal :: "'w campaign_env \<Rightarrow> int \<Rightarrow> campaign \<Rightarrow> rat \<Rightarrow> string list \<Rightarrow> string option" where
  "promo_refusal env now c orderAmount productIds =
     (if cg_status c \<noteq> ''active'' then Some ''Promo code is not currently active''
      else if now < cg_startDate c then Some ''Promo code is not yet valid''
      else if cg_endDate c < now then Some ''Promo code has expired''
      else if 0 < cg_usageLimit c \<and> cg_usageLimit c \<le> cg_usageCount c then Some ''Promo code has reached its usage limit''
      else if 0 < cg_minOrderAmount c \<and> orderAmount < cg_minOrderAmount c
        then Some (''Minimum order amount is $'' @ ce_fixed env (cg_minOrderAmount c))
      else if cg_targetProducts c \<noteq> [] \<and> productIds \<noteq> [] \<and> \<not> list_ex (\<lambda>p. p \<in> set (cg_targetProducts c)) productIds
        then Some ''Promo code is not valid for these products''
      else None)"

definition lookup_promo :: "'w campaign_env \<Rightarrow> string \<Rightarrow> 'w campaign_state \<Rightarrow> campaign option \<times> 'w campaign_state" where
  "lookup_promo env code s = (case jm_get (cp_cache s) (promo_key code) of
     Some c \<Rightarrow> (Some c, s)
   | None \<Rightarrow> (case cd_findByPromo (ce_db env) code (cp_db s) of
         None \<Rightarrow> (None, s)
       | Some c \<Rightarrow> (Some c, s\<lparr>cp_cache := jm_set (cp_cache s) (promo_key code) c\<rparr>)))"

definition validatePromoCode ::
  "'w campaign_env \<Rightarrow> int \<Rightarrow> string \<Rightarrow> rat \<Rightarrow> string list \<Rightarrow> 'w campaign_state \<Rightarrow> (string + discount \<times> rat) \<times> 'w campaign_state" where
  "validatePromoCode env now code orderAmount productIds s = (case lookup_promo env code s of
     (None, s) \<Rightarrow> (Inl ''Promo code not found'', s)
   | (Some c, s) \<Rightarrow> (case promo_refusal env now c orderAmount productIds of
         Some message \<Rightarrow> (Inl message, s)
       | None \<Rightarrow> (Inr (cg_discount c, calculateDiscount (cg_discount c) orderAmount), s)))"

text \<open>Applying a code up to the first write: a refusal, or the campaign that is found.\<close>

definition apply_checks :: "'w campaign_env \<Rightarrow> int \<Rightarrow> string \<Rightarrow> string \<Rightarrow> rat \<Rightarrow> 'w campaign_state \<Rightarrow> (string + campaign) \<times> 'w campaign_state" where
  "apply_checks env now code orderId orderAmount s = (case validatePromoCode env now code orderAmount [] s of
     (Inl message, s) \<Rightarrow> (Inl message, s)
   | (Inr _, s) \<Rightarrow> if cd_usageOf (ce_db env) orderId (cp_db s) \<noteq> None
       then (Inl ''A promo code has already been applied to this order'', s)
       else (case cd_findByPromo (ce_db env) code (cp_db s) of
           None \<Rightarrow> (Inl ''Campaign not found'', s)
         | Some c \<Rightarrow> (Inr c, s)))"

text \<open>The writes; the count goes up before the usage is recorded. \<open>None\<close> when that throws.\<close>

definition apply_writes :: "'w campaign_env \<Rightarrow> string \<Rightarrow> string \<Rightarrow> string \<Rightarrow> rat \<Rightarrow> campaign \<Rightarrow> 'w campaign_state \<Rightarrow> rat option \<times> 'w campaign_state" where
  "apply_writes env code orderId userId orderAmount c s =
     (let applied = calculateDiscount (cg_discount c) orderAmount;
          s = s\<lparr>cp_db := cd_incUsage (ce_db env) (cg_id c) (cp_db s)\<rparr>
      in case cd_createUsage (ce_db env) \<lparr>cu_campaignId = cg_id c, cu_userId = userId, cu_orderId = orderId, cu_discount = applied\<rparr> (cp_db s) of
          (Inl e, w) \<Rightarrow> (None, s\<lparr>cp_db := w\<rparr>)
        | (Inr _, w) \<Rightarrow> (Some applied, emit_event (Applied (cg_id c) orderId userId applied)
            (uncache (promo_key code) (uncache (campaign_key (cg_id c)) (s\<lparr>cp_db := w\<rparr>)))))"

datatype promo_result = PromoRefused string | PromoApplied rat string | PromoThrown

definition applyPromoCode ::
  "'w campaign_env \<Rightarrow> int \<Rightarrow> string \<Rightarrow> string \<Rightarrow> string \<Rightarrow> rat \<Rightarrow> 'w campaign_state \<Rightarrow> promo_result \<times> 'w campaign_state" where
  "applyPromoCode env now code orderId userId orderAmount s = (case apply_checks env now code orderId orderAmount s of
     (Inl message, s) \<Rightarrow> (PromoRefused message, s)
   | (Inr c, s) \<Rightarrow> (case apply_writes env code orderId userId orderAmount c s of
         (None, s) \<Rightarrow> (PromoThrown, s)
       | (Some applied, s) \<Rightarrow> (PromoApplied applied (''Discount of $'' @ ce_fixed env applied @ '' applied''), s)))"

record campaign_stats =
  st_totalUses :: int
  st_totalDiscount :: rat
  st_uniqueUsers :: nat
  st_conversionRate :: rat

text \<open>\<open>Math.round(x * 100) / 100\<close> rounds halves up.\<close>

definition campaign_getStats :: "'w campaign_env \<Rightarrow> string \<Rightarrow> 'w campaign_state \<Rightarrow> string + campaign_stats" where
  "campaign_getStats env i s = (case cd_findById (ce_db env) i (cp_db s) of
     None \<Rightarrow> Inl (not_found i)
   | Some c \<Rightarrow> (let usages = cd_usages (ce_db env) i (cp_db s);
         rate = (if 0 < cg_usageLimit c then of_int (cg_usageCount c) / of_int (cg_usageLimit c) * 100 else 0)
       in Inr \<lparr>st_totalUses = cg_usageCount c, st_totalDiscount = sum_list (map cu_discount usages),
            st_uniqueUsers = length (js_set_of (map cu_userId usages)), st_conversionRate = of_int \<lfloor>rate * 100 + 1 / 2\<rfloor> / 100\<rparr>))"

section \<open>Discounts\<close>

text \<open>A discount is never negative and never more than the order, nor than its cap when it is a percentage.\<close>

theorem discount_bounds:
  assumes "0 \<le> orderAmount" and "0 \<le> ds_value d" and "\<forall>m. ds_max d = Some m \<longrightarrow> 0 \<le> m"
  shows "0 \<le> calculateDiscount d orderAmount" and "calculateDiscount d orderAmount \<le> orderAmount"
    and "ds_type d = ''percentage'' \<Longrightarrow> ds_max d = Some m \<Longrightarrow> m \<noteq> 0 \<Longrightarrow> calculateDiscount d orderAmount \<le> m"
  using assms unfolding calculateDiscount_def Let_def by (auto split: option.splits)

text \<open>Applying a code never asks which products the order holds: a campaign for some products accepts any order.\<close>

lemma targets_not_checked_on_apply:
  "promo_refusal env now (c\<lparr>cg_targetProducts := products\<rparr>) orderAmount [] = promo_refusal env now c orderAmount []"
  by (simp add: promo_refusal_def)

section \<open>The database\<close>

text \<open>
  What the queries answer and change, on the rows of the two collections: ids and promo codes are unique, an order has one
  usage, and the schema refuses amounts below zero and empty ids.
\<close>

definition set_row :: "string \<Rightarrow> (campaign \<Rightarrow> campaign) \<Rightarrow> campaign list \<Rightarrow> campaign list" where
  "set_row i f = map (\<lambda>c. if cg_id c = i then f c else c)"

definition discount_ok :: "discount \<Rightarrow> bool" where
  "discount_ok d \<longleftrightarrow> 0 \<le> ds_value d \<and> (\<forall>m. ds_max d = Some m \<longrightarrow> 0 \<le> m)"

definition usage_ok :: "campaign_usage \<Rightarrow> bool" where
  "usage_ok u \<longleftrightarrow> cu_campaignId u \<noteq> [] \<and> cu_userId u \<noteq> [] \<and> cu_orderId u \<noteq> [] \<and> 0 \<le> cu_discount u"

definition campaign_rows_ok :: "campaign list \<Rightarrow> bool" where
  "campaign_rows_ok cs \<longleftrightarrow> distinct (map cg_id cs) \<and> (\<forall>c \<in> set cs. cg_id c \<noteq> [] \<and> discount_ok (cg_discount c))
     \<and> (\<forall>c \<in> set cs. \<forall>d \<in> set cs. cg_promoCode c \<noteq> None \<and> cg_promoCode c = cg_promoCode d \<longrightarrow> c = d)"

definition campaign_db_ok :: "'w campaign_db \<Rightarrow> ('w \<Rightarrow> campaign list) \<Rightarrow> ('w \<Rightarrow> campaign_usage list) \<Rightarrow> bool" where
  "campaign_db_ok db rows usages \<longleftrightarrow>
     (\<forall>w. campaign_rows_ok (rows w))
   \<and> (\<forall>i w. cd_findById db i w = find (\<lambda>c. cg_id c = i) (rows w))
   \<and> (\<forall>p w. cd_findByPromo db p w = find (\<lambda>c. cg_promoCode c = Some p) (rows w))
   \<and> (\<forall>n a b st k w c w'. cd_create db n a b st k w = (Inr c, w') \<longrightarrow>
        cg_usageCount c = k \<and> cg_status c = st \<and> rows w' = rows w @ [c] \<and> usages w' = usages w)
   \<and> (\<forall>n a b st k w e w'. cd_create db n a b st k w = (Inl e, w') \<longrightarrow> w' = w)
   \<and> (\<forall>i w. rows (cd_delete db i w) = filter (\<lambda>c. cg_id c \<noteq> i) (rows w) \<and> usages (cd_delete db i w) = usages w)
   \<and> (\<forall>i st w c w'. cd_saveStatus db i st w = (Inr c, w') \<longrightarrow>
        rows w' = set_row i (\<lambda>c. c\<lparr>cg_status := st\<rparr>) (rows w) \<and> find (\<lambda>c. cg_id c = i) (rows w') = Some c \<and> usages w' = usages w)
   \<and> (\<forall>i st w e w'. cd_saveStatus db i st w = (Inl e, w') \<longrightarrow> w' = w)
   \<and> (\<forall>i w. rows (cd_incUsage db i w) = set_row i (\<lambda>c. c\<lparr>cg_usageCount := cg_usageCount c + 1\<rparr>) (rows w) \<and> usages (cd_incUsage db i w) = usages w)
   \<and> (\<forall>orderId w. cd_usageOf db orderId w = find (\<lambda>u. cu_orderId u = orderId) (usages w))
   \<and> (\<forall>u w w'. cd_createUsage db u w = (Inr (), w') \<longrightarrow> rows w' = rows w \<and> usages w' = usages w @ [u])
   \<and> (\<forall>u w e w'. cd_createUsage db u w = (Inl e, w') \<longrightarrow> w' = w \<and> (\<not> usage_ok u \<or> cu_orderId u \<in> cu_orderId ` set (usages w)))"

lemma campaign_db_okD:
  assumes "campaign_db_ok db rows usages"
  shows "campaign_rows_ok (rows w)"
    and "cd_findById db i w = find (\<lambda>c. cg_id c = i) (rows w)"
    and "cd_findByPromo db p w = find (\<lambda>c. cg_promoCode c = Some p) (rows w)"
    and "cd_create db n a b st k w = (Inr c, w') \<Longrightarrow> cg_usageCount c = k \<and> cg_status c = st \<and> rows w' = rows w @ [c] \<and> usages w' = usages w"
    and "cd_create db n a b st k w = (Inl e, w') \<Longrightarrow> w' = w"
    and "rows (cd_delete db i w) = filter (\<lambda>c. cg_id c \<noteq> i) (rows w)" and "usages (cd_delete db i w) = usages w"
    and "cd_saveStatus db i st w = (Inr c, w') \<Longrightarrow> rows w' = set_row i (\<lambda>c. c\<lparr>cg_status := st\<rparr>) (rows w)
        \<and> find (\<lambda>c. cg_id c = i) (rows w') = Some c \<and> usages w' = usages w"
    and "cd_saveStatus db i st w = (Inl e, w') \<Longrightarrow> w' = w"
    and "rows (cd_incUsage db i w) = set_row i (\<lambda>c. c\<lparr>cg_usageCount := cg_usageCount c + 1\<rparr>) (rows w)" and "usages (cd_incUsage db i w) = usages w"
    and "cd_usageOf db orderId w = find (\<lambda>u. cu_orderId u = orderId) (usages w)"
    and "cd_createUsage db u w = (Inr (), w') \<Longrightarrow> rows w' = rows w \<and> usages w' = usages w @ [u]"
    and "cd_createUsage db u w = (Inl e, w') \<Longrightarrow> w' = w \<and> (\<not> usage_ok u \<or> cu_orderId u \<in> cu_orderId ` set (usages w))"
proof -
  note r0 = assms[unfolded campaign_db_ok_def]
  note c1 = conjunct1[OF r0] and r1 = conjunct2[OF r0]
  note c2 = conjunct1[OF r1] and r2 = conjunct2[OF r1]
  note c3 = conjunct1[OF r2] and r3 = conjunct2[OF r2]
  note c4 = conjunct1[OF r3] and r4 = conjunct2[OF r3]
  note c5 = conjunct1[OF r4] and r5 = conjunct2[OF r4]
  note c6 = conjunct1[OF r5] and r6 = conjunct2[OF r5]
  note c7 = conjunct1[OF r6] and r7 = conjunct2[OF r6]
  note c8 = conjunct1[OF r7] and r8 = conjunct2[OF r7]
  note c9 = conjunct1[OF r8] and r9 = conjunct2[OF r8]
  note c10 = conjunct1[OF r9] and r10 = conjunct2[OF r9]
  note c11 = conjunct1[OF r10] and r11 = conjunct2[OF r10]
  show "campaign_rows_ok (rows w)" by (rule c1[rule_format])
  show "cd_findById db i w = find (\<lambda>c. cg_id c = i) (rows w)" by (rule c2[rule_format])
  show "cd_findByPromo db p w = find (\<lambda>c. cg_promoCode c = Some p) (rows w)" by (rule c3[rule_format])
  show "cd_create db n a b st k w = (Inr c, w') \<Longrightarrow> cg_usageCount c = k \<and> cg_status c = st \<and> rows w' = rows w @ [c] \<and> usages w' = usages w" by (rule c4[rule_format])
  show "cd_create db n a b st k w = (Inl e, w') \<Longrightarrow> w' = w" by (rule c5[rule_format])
  show "rows (cd_delete db i w) = filter (\<lambda>c. cg_id c \<noteq> i) (rows w)" by (rule c6[rule_format, THEN conjunct1])
  show "usages (cd_delete db i w) = usages w" by (rule c6[rule_format, THEN conjunct2])
  show "cd_saveStatus db i st w = (Inr c, w') \<Longrightarrow> rows w' = set_row i (\<lambda>c. c\<lparr>cg_status := st\<rparr>) (rows w)
        \<and> find (\<lambda>c. cg_id c = i) (rows w') = Some c \<and> usages w' = usages w" by (rule c7[rule_format])
  show "cd_saveStatus db i st w = (Inl e, w') \<Longrightarrow> w' = w" by (rule c8[rule_format])
  show "rows (cd_incUsage db i w) = set_row i (\<lambda>c. c\<lparr>cg_usageCount := cg_usageCount c + 1\<rparr>) (rows w)" by (rule c9[rule_format, THEN conjunct1])
  show "usages (cd_incUsage db i w) = usages w" by (rule c9[rule_format, THEN conjunct2])
  show "cd_usageOf db orderId w = find (\<lambda>u. cu_orderId u = orderId) (usages w)" by (rule c10[rule_format])
  show "cd_createUsage db u w = (Inr (), w') \<Longrightarrow> rows w' = rows w \<and> usages w' = usages w @ [u]" by (rule c11[rule_format])
  show "cd_createUsage db u w = (Inl e, w') \<Longrightarrow> w' = w \<and> (\<not> usage_ok u \<or> cu_orderId u \<in> cu_orderId ` set (usages w))" by (rule r11[rule_format])
qed

section \<open>The limit on uses\<close>

text \<open>
  What holds between calls: no campaign was used more often than its limit, and a campaign cached under its code
  has the count and the limit of its row.
\<close>

definition within_limit :: "campaign \<Rightarrow> bool" where
  "within_limit c \<longleftrightarrow> (0 < cg_usageLimit c \<longrightarrow> cg_usageCount c \<le> cg_usageLimit c)"

definition promo_cached_ok :: "campaign list \<Rightarrow> (string, campaign) jsmap \<Rightarrow> bool" where
  "promo_cached_ok cs cache \<longleftrightarrow> (\<forall>code c. code \<noteq> [] \<and> jm_get cache (promo_key code) = Some c \<longrightarrow>
     (\<exists>d \<in> set cs. cg_promoCode d = Some code \<and> cg_usageCount d = cg_usageCount c \<and> cg_usageLimit d = cg_usageLimit c))"

definition campaigns_inv :: "('w \<Rightarrow> campaign list) \<Rightarrow> 'w campaign_state \<Rightarrow> bool" where
  "campaigns_inv rows s \<longleftrightarrow> (\<forall>c \<in> set (rows (cp_db s)). within_limit c) \<and> promo_cached_ok (rows (cp_db s)) (cp_cache s)"

lemma keys_differ [simp]: "promo_key a = promo_key b \<longleftrightarrow> a = b" "promo_key a \<noteq> campaign_key b" "campaign_key b \<noteq> promo_key a"
  by (simp_all add: promo_key_def campaign_key_def)

lemma promo_cached_mono:
  assumes "promo_cached_ok cs cache" and "\<And>k c. jm_get cache' (promo_key k) = Some c \<Longrightarrow> jm_get cache (promo_key k) = Some c"
    and "\<And>d. d \<in> set cs \<Longrightarrow> \<exists>e \<in> set ds. cg_promoCode e = cg_promoCode d \<and> cg_usageCount e = cg_usageCount d \<and> cg_usageLimit e = cg_usageLimit d"
  shows "promo_cached_ok ds cache'"
  unfolding promo_cached_ok_def
proof (intro allI impI, elim conjE)
  fix code c assume "code \<noteq> []" "jm_get cache' (promo_key code) = Some c"
  then obtain d where "d \<in> set cs" "cg_promoCode d = Some code" "cg_usageCount d = cg_usageCount c" "cg_usageLimit d = cg_usageLimit c"
    using assms(1,2) unfolding promo_cached_ok_def by blast
  then show "\<exists>d \<in> set ds. cg_promoCode d = Some code \<and> cg_usageCount d = cg_usageCount c \<and> cg_usageLimit d = cg_usageLimit c"
    using assms(3)[of d] by force
qed

lemma set_row_members: "d \<in> set cs \<Longrightarrow> (if cg_id d = i then f d else d) \<in> set (set_row i f cs)"
  by (auto simp: set_row_def)

lemma lookup_promo_inv:
  assumes "campaign_db_ok (ce_db env) rows usages" and "campaigns_inv rows s" and "lookup_promo env code s = (r, t)"
  shows "campaigns_inv rows t" and "cp_db t = cp_db s"
    and "code \<noteq> [] \<Longrightarrow> r = Some c \<Longrightarrow>
      \<exists>d \<in> set (rows (cp_db s)). cg_promoCode d = Some code \<and> cg_usageCount d = cg_usageCount c \<and> cg_usageLimit d = cg_usageLimit c"
proof -
  note D = campaign_db_okD[OF assms(1)]
  show "cp_db t = cp_db s" using assms(3) unfolding lookup_promo_def by (auto split: option.splits)
  have found: "\<exists>d \<in> set (rows (cp_db s)). cg_promoCode d = Some code \<and> cg_usageCount d = cg_usageCount c \<and> cg_usageLimit d = cg_usageLimit c"
    if "cd_findByPromo (ce_db env) code (cp_db s) = Some c" for c
    using that unfolding D(3) by (auto simp: find_Some_iff)
  show "campaigns_inv rows t"
  proof (cases "jm_get (cp_cache s) (promo_key code)")
    case None
    show ?thesis
    proof (cases "cd_findByPromo (ce_db env) code (cp_db s)")
      case (Some c)
      have "t = s\<lparr>cp_cache := jm_set (cp_cache s) (promo_key code) c\<rparr>" using assms(3) None Some by (simp add: lookup_promo_def)
      then show ?thesis using assms(2) found[OF Some] by (auto simp: campaigns_inv_def promo_cached_ok_def jsmap_simps)
    qed (use assms(2,3) None in \<open>simp add: lookup_promo_def\<close>)
  qed (use assms(2,3) in \<open>simp add: lookup_promo_def\<close>)
  show "\<exists>d \<in> set (rows (cp_db s)). cg_promoCode d = Some code \<and> cg_usageCount d = cg_usageCount c \<and> cg_usageLimit d = cg_usageLimit c"
    if "code \<noteq> []" "r = Some c"
  proof (cases "jm_get (cp_cache s) (promo_key code)")
    case None
    then have "cd_findByPromo (ce_db env) code (cp_db s) = Some c" using assms(3) that(2) by (auto simp: lookup_promo_def split: option.splits)
    then show ?thesis by (rule found)
  next
    case (Some c')
    then have "c' = c" using assms(3) that(2) by (simp add: lookup_promo_def)
    then show ?thesis using assms(2) Some that(1) unfolding campaigns_inv_def promo_cached_ok_def by blast
  qed
qed

text \<open>What \<open>validatePromoCode\<close> answers \<open>Inr\<close> to was below its limit.\<close>

lemma validate_inv:
  assumes "campaign_db_ok (ce_db env) rows usages" and "campaigns_inv rows s"
    and "validatePromoCode env now code amount products s = (r, t)"
  shows "campaigns_inv rows t" and "cp_db t = cp_db s"
    and "code \<noteq> [] \<Longrightarrow> r = Inr x \<Longrightarrow> \<exists>d \<in> set (rows (cp_db s)). cg_promoCode d = Some code
      \<and> (0 < cg_usageLimit d \<longrightarrow> cg_usageCount d < cg_usageLimit d)"
proof -
  obtain o1 u where l: "lookup_promo env code s = (o1, u)" by (cases "lookup_promo env code s")
  have t: "t = u" using assms(3) unfolding validatePromoCode_def l by (auto split: option.splits)
  note L = lookup_promo_inv[OF assms(1,2) l]
  show "campaigns_inv rows t" "cp_db t = cp_db s" using L(1,2) by (simp_all add: t)
  assume code: "code \<noteq> []" and r: "r = Inr x"
  obtain c where c: "o1 = Some c" "promo_refusal env now c amount products = None"
    using assms(3) r unfolding validatePromoCode_def l by (auto split: option.splits)
  then have "\<not> (0 < cg_usageLimit c \<and> cg_usageLimit c \<le> cg_usageCount c)" by (auto simp: promo_refusal_def split: if_splits)
  then show "\<exists>d \<in> set (rows (cp_db s)). cg_promoCode d = Some code \<and> (0 < cg_usageLimit d \<longrightarrow> cg_usageCount d < cg_usageLimit d)"
    using L(3)[OF code c(1)] by force
qed

lemma apply_checks_inv:
  assumes "campaign_db_ok (ce_db env) rows usages" and "campaigns_inv rows s" and "code \<noteq> []"
    and "apply_checks env now code orderId amount s = (r, t)"
  shows "campaigns_inv rows t" and "cp_db t = cp_db s"
    and "r = Inr c \<Longrightarrow> c \<in> set (rows (cp_db s)) \<and> cg_promoCode c = Some code \<and> (0 < cg_usageLimit c \<longrightarrow> cg_usageCount c < cg_usageLimit c)
      \<and> orderId \<notin> cu_orderId ` set (usages (cp_db s))"
proof -
  note D = campaign_db_okD[OF assms(1)]
  obtain v u where v: "validatePromoCode env now code amount [] s = (v, u)" by (cases "validatePromoCode env now code amount [] s")
  note V = validate_inv[OF assms(1,2) v]
  have t: "t = u" using assms(4) unfolding apply_checks_def v by (auto split: sum.splits if_splits option.splits)
  show "campaigns_inv rows t" "cp_db t = cp_db s" using V(1,2) by (simp_all add: t)
  assume r: "r = Inr c"
  obtain x where x: "v = Inr x" and free: "cd_usageOf (ce_db env) orderId (cp_db s) = None" and f: "cd_findByPromo (ce_db env) code (cp_db s) = Some c"
    using assms(4) r V(2) unfolding apply_checks_def v by (auto split: sum.splits if_splits option.splits)
  obtain d where d: "d \<in> set (rows (cp_db s))" "cg_promoCode d = Some code" "0 < cg_usageLimit d \<longrightarrow> cg_usageCount d < cg_usageLimit d"
    using V(3)[OF assms(3) x] by blast
  have c: "c \<in> set (rows (cp_db s))" "cg_promoCode c = Some code" using f unfolding D(3) by (auto simp: find_Some_iff)
  then have "c = d" using D(1)[of "cp_db s"] d unfolding campaign_rows_ok_def by auto
  moreover have "orderId \<notin> cu_orderId ` set (usages (cp_db s))" using free unfolding D(12) by (auto simp: find_None_iff)
  ultimately show "c \<in> set (rows (cp_db s)) \<and> cg_promoCode c = Some code \<and> (0 < cg_usageLimit c \<longrightarrow> cg_usageCount c < cg_usageLimit c)
      \<and> orderId \<notin> cu_orderId ` set (usages (cp_db s))" using c d by simp
qed

lemma promo_cached_del: "promo_cached_ok cs cache \<Longrightarrow> promo_cached_ok cs (jm_del cache k)"
  by (rule promo_cached_mono) (auto simp: jsmap_simps split: if_splits)

lemma promo_cached_upto:
  assumes "promo_cached_ok cs cache" and "\<And>d. d \<in> set cs \<Longrightarrow> cg_promoCode d \<noteq> Some code \<Longrightarrow> \<exists>e \<in> set ds. cg_promoCode e = cg_promoCode d
      \<and> cg_usageCount e = cg_usageCount d \<and> cg_usageLimit e = cg_usageLimit d"
    and "jm_get cache' (promo_key code) = None" and "\<And>k c. jm_get cache' (promo_key k) = Some c \<Longrightarrow> jm_get cache (promo_key k) = Some c"
  shows "promo_cached_ok ds cache'"
  unfolding promo_cached_ok_def
proof (intro allI impI, elim conjE)
  fix k c assume k: "k \<noteq> []" "jm_get cache' (promo_key k) = Some c"
  then obtain d where d: "d \<in> set cs" "cg_promoCode d = Some k" "cg_usageCount d = cg_usageCount c" "cg_usageLimit d = cg_usageLimit c"
    using assms(1,4) unfolding promo_cached_ok_def by blast
  moreover have "k \<noteq> code" using k(2) assms(3) by auto
  ultimately show "\<exists>d \<in> set ds. cg_promoCode d = Some k \<and> cg_usageCount d = cg_usageCount c \<and> cg_usageLimit d = cg_usageLimit c"
    using assms(2)[of d] by force
qed

lemma apply_writes_inv:
  assumes "campaign_db_ok (ce_db env) rows usages" and "campaigns_inv rows s"
    and c: "c \<in> set (rows (cp_db s))" "cg_promoCode c = Some code" "0 < cg_usageLimit c \<longrightarrow> cg_usageCount c < cg_usageLimit c"
    and new: "orderId \<notin> cu_orderId ` set (usages (cp_db s))" and "orderId \<noteq> []" and "userId \<noteq> []" and "0 \<le> amount"
    and w: "apply_writes env code orderId userId amount c s = (r, t)"
  shows "campaigns_inv rows t" and "r \<noteq> None"
proof -
  note D = campaign_db_okD[OF assms(1)]
  let ?w = "cd_incUsage (ce_db env) (cg_id c) (cp_db s)"
  let ?u = "\<lparr>cu_campaignId = cg_id c, cu_userId = userId, cu_orderId = orderId, cu_discount = calculateDiscount (cg_discount c) amount\<rparr>"
  have ok: "cg_id c \<noteq> []" "discount_ok (cg_discount c)" using D(1)[of "cp_db s"] c(1) unfolding campaign_rows_ok_def by blast+
  have "0 \<le> calculateDiscount (cg_discount c) amount"
    using ok(2) assms(9) unfolding discount_ok_def by (intro discount_bounds(1)) auto
  then have u: "usage_ok ?u" using ok(1) assms(7,8) by (simp add: usage_ok_def)
  have "\<exists>w'. cd_createUsage (ce_db env) ?u ?w = (Inr (), w')"
  proof (cases "cd_createUsage (ce_db env) ?u ?w")
    case (Pair x w')
    show ?thesis
    proof (cases x)
      case (Inl e)
      then have "cu_orderId ?u \<in> cu_orderId ` set (usages ?w)" using D(14)[OF Pair[unfolded Inl]] u by blast
      then show ?thesis using new by (simp add: D(11))
    qed (use Pair in auto)
  qed
  then obtain w' where w': "cd_createUsage (ce_db env) ?u ?w = (Inr (), w')" by blast
  have rows: "rows w' = set_row (cg_id c) (\<lambda>c. c\<lparr>cg_usageCount := cg_usageCount c + 1\<rparr>) (rows (cp_db s))"
    using D(13)[OF w'] by (simp add: D(10))
  show "r \<noteq> None" using w by (auto simp: apply_writes_def Let_def w')
  have t: "cp_db t = w'" "cp_cache t = jm_del (jm_del (cp_cache s) (campaign_key (cg_id c))) (promo_key code)"
    using w by (auto simp: apply_writes_def Let_def w' uncache_def emit_event_def)
  have mine: "d = c" if "d \<in> set (rows (cp_db s))" "cg_id d = cg_id c" for d
    using D(1)[of "cp_db s"] that c(1) unfolding campaign_rows_ok_def distinct_map by (auto dest: inj_onD)
  have "within_limit d" if "d \<in> set (rows w')" for d
  proof -
    have "d \<in> (\<lambda>e. if cg_id e = cg_id c then e\<lparr>cg_usageCount := cg_usageCount e + 1\<rparr> else e) ` set (rows (cp_db s))"
      using that unfolding rows set_row_def set_map .
    then obtain e where e: "d = (if cg_id e = cg_id c then e\<lparr>cg_usageCount := cg_usageCount e + 1\<rparr> else e)" "e \<in> set (rows (cp_db s))"
      by (rule imageE)
    have "within_limit e" using e(2) assms(2) unfolding campaigns_inv_def by blast
    then show ?thesis using e mine[OF e(2)] c(3) by (auto simp: within_limit_def split: if_splits)
  qed
  moreover have "promo_cached_ok (rows w') (cp_cache t)"
  proof (rule promo_cached_upto[where code = code and cs = "rows (cp_db s)" and cache = "cp_cache s"])
    fix d assume d: "d \<in> set (rows (cp_db s))" "cg_promoCode d \<noteq> Some code"
    then have "cg_id d \<noteq> cg_id c" using mine[of d] c(2) by auto
    then have "d \<in> set (rows w')" using set_row_members[OF d(1), of "cg_id c" "\<lambda>c. c\<lparr>cg_usageCount := cg_usageCount c + 1\<rparr>"] unfolding rows by simp
    then show "\<exists>e \<in> set (rows w'). cg_promoCode e = cg_promoCode d \<and> cg_usageCount e = cg_usageCount d \<and> cg_usageLimit e = cg_usageLimit d" by blast
  qed (use assms(2) in \<open>auto simp: campaigns_inv_def t(2) jsmap_simps split: if_splits\<close>)
  ultimately show "campaigns_inv rows t" by (simp add: campaigns_inv_def t(1))
qed

section \<open>Every sequence of calls\<close>

datatype campaign_call = CCreate campaign_input | CFindOne string | CDelete string | CActivate string | CDeactivate string
  | CValidate string rat "string list" | CApply string string string rat | CExpire string

fun campaign_step :: "'w campaign_env \<Rightarrow> campaign_call \<times> int \<Rightarrow> 'w campaign_state \<Rightarrow> 'w campaign_state" where
  "campaign_step env (CCreate input, now) s = snd (campaign_create env input s)"
| "campaign_step env (CFindOne i, now) s = snd (campaign_findOne env i s)"
| "campaign_step env (CDelete i, now) s = snd (campaign_delete env i s)"
| "campaign_step env (CActivate i, now) s = snd (campaign_activate env now i s)"
| "campaign_step env (CDeactivate i, now) s = snd (campaign_deactivate env i s)"
| "campaign_step env (CValidate code amount products, now) s = snd (validatePromoCode env now code amount products s)"
| "campaign_step env (CApply code orderId userId amount, now) s = snd (applyPromoCode env now code orderId userId amount s)"
| "campaign_step env (CExpire k, now) s = uncache k s"

fun call_ok :: "campaign_call \<Rightarrow> bool" where
  "call_ok (CApply code orderId userId amount) \<longleftrightarrow> code \<noteq> [] \<and> orderId \<noteq> [] \<and> userId \<noteq> [] \<and> 0 \<le> amount"
| "call_ok _ \<longleftrightarrow> True"

lemma inv_uncache: "campaigns_inv rows s \<Longrightarrow> campaigns_inv rows (uncache k s)"
  by (simp add: campaigns_inv_def uncache_def promo_cached_del)

lemma inv_uncache_promo: "campaigns_inv rows s \<Longrightarrow> campaigns_inv rows (uncache_promo p s)"
  by (simp add: uncache_promo_def inv_uncache split: option.split)

lemma inv_emit: "campaigns_inv rows (emit_event e s) = campaigns_inv rows s"
  by (simp add: campaigns_inv_def emit_event_def)

lemma create_inv:
  assumes "campaign_db_ok (ce_db env) rows usages" and "campaigns_inv rows s"
  shows "campaigns_inv rows (snd (campaign_create env input s))"
proof (cases "cd_create (ce_db env) input (ce_date env (cn_startDate input)) (ce_date env (cn_endDate input)) ''draft'' 0 (cp_db s)")
  case (Pair r w)
  show ?thesis
  proof (cases r)
    case (Inl e)
    then show ?thesis using campaign_db_okD(5)[OF assms(1) Pair[unfolded Inl]] assms(2) Pair by (simp add: campaign_create_def)
  next
    case (Inr c)
    have c: "cg_usageCount c = 0" "rows w = rows (cp_db s) @ [c]" using campaign_db_okD(4)[OF assms(1) Pair[unfolded Inr]] by simp_all
    have "promo_cached_ok (rows w) (cp_cache s)"
      by (rule promo_cached_mono[where cs = "rows (cp_db s)"]) (use assms(2) c in \<open>auto simp: campaigns_inv_def\<close>)
    then show ?thesis using assms(2) c Pair by (auto simp: campaign_create_def campaigns_inv_def within_limit_def)
  qed
qed

lemma find_inv:
  assumes "campaigns_inv rows s"
  shows "campaigns_inv rows (snd (campaign_findOne env i s))"
proof -
  have "campaigns_inv rows (s\<lparr>cp_cache := jm_set (cp_cache s) (campaign_key i) c\<rparr>)" for c
    using assms by (auto simp: campaigns_inv_def promo_cached_ok_def jsmap_simps)
  then show ?thesis using assms by (simp add: campaign_findOne_def split: option.split)
qed

lemma delete_inv:
  assumes "campaign_db_ok (ce_db env) rows usages" and "campaigns_inv rows s"
  shows "campaigns_inv rows (snd (campaign_delete env i s))"
proof (cases "cd_findById (ce_db env) i (cp_db s)")
  case (Some c)
  note D = campaign_db_okD[OF assms(1)]
  have c: "c \<in> set (rows (cp_db s))" "cg_id c = i" using Some unfolding D(2) by (auto simp: find_Some_iff)
  let ?t = "s\<lparr>cp_db := cd_delete (ce_db env) i (cp_db s)\<rparr>"
  let ?u = "uncache_promo (cg_promoCode c) (uncache (campaign_key i) ?t)"
  have other: "d \<in> set (rows (cp_db ?t))" if "d \<in> set (rows (cp_db s))" "d \<noteq> c" for d
    using D(1)[of "cp_db s"] that c unfolding campaign_rows_ok_def distinct_map by (auto simp: D(6) dest: inj_onD)
  have kept: "jm_get (cp_cache ?u) (promo_key k) = Some x \<Longrightarrow> jm_get (cp_cache s) (promo_key k) = Some x \<and> cg_promoCode c \<noteq> Some k" if "k \<noteq> []" for k x
    using that by (auto simp: uncache_promo_def uncache_def jsmap_simps split: option.splits if_splits)
  have "promo_cached_ok (rows (cp_db ?t)) (cp_cache ?u)"
    unfolding promo_cached_ok_def
  proof (intro allI impI, elim conjE)
    fix k x assume k: "k \<noteq> []" "jm_get (cp_cache ?u) (promo_key k) = Some x"
    from kept[OF this] obtain d where d: "d \<in> set (rows (cp_db s))" "cg_promoCode d = Some k" "cg_usageCount d = cg_usageCount x" "cg_usageLimit d = cg_usageLimit x"
      using assms(2) k(1) unfolding campaigns_inv_def promo_cached_ok_def by blast
    have "d \<noteq> c" using kept[OF k] d(2) by auto
    then show "\<exists>d \<in> set (rows (cp_db ?t)). cg_promoCode d = Some k \<and> cg_usageCount d = cg_usageCount x \<and> cg_usageLimit d = cg_usageLimit x"
      using d other[of d] by blast
  qed
  moreover have "cp_db ?u = cp_db ?t" by (simp add: uncache_promo_def uncache_def split: option.split)
  moreover have "\<forall>d \<in> set (rows (cp_db ?t)). within_limit d" using assms(2) by (simp add: campaigns_inv_def D(6))
  ultimately have "campaigns_inv rows ?u" unfolding campaigns_inv_def by (simp only:)
  then show ?thesis by (simp add: campaign_delete_def Some)
qed (simp add: campaign_delete_def assms(2))

lemma status_inv:
  assumes "campaign_db_ok (ce_db env) rows usages" and "campaigns_inv rows s" and "cd_saveStatus (ce_db env) i st (cp_db s) = (r, w)"
  shows "campaigns_inv rows (s\<lparr>cp_db := w\<rparr>)"
proof (cases r)
  case (Inl e)
  then show ?thesis using campaign_db_okD(9)[OF assms(1) assms(3)[unfolded Inl]] assms(2) by simp
next
  case (Inr c)
  have rows: "rows w = set_row i (\<lambda>c. c\<lparr>cg_status := st\<rparr>) (rows (cp_db s))" using campaign_db_okD(8)[OF assms(1) assms(3)[unfolded Inr]] by simp
  have "promo_cached_ok (rows w) (cp_cache s)"
  proof (rule promo_cached_mono[where cs = "rows (cp_db s)"])
    fix d assume "d \<in> set (rows (cp_db s))"
    from set_row_members[OF this, of i "\<lambda>c. c\<lparr>cg_status := st\<rparr>"]
    show "\<exists>e \<in> set (rows w). cg_promoCode e = cg_promoCode d \<and> cg_usageCount e = cg_usageCount d \<and> cg_usageLimit e = cg_usageLimit d"
      unfolding rows by (rule bexI[rotated]) simp
  qed (use assms(2) in \<open>auto simp: campaigns_inv_def\<close>)
  moreover have "within_limit d" if "d \<in> set (rows w)" for d
    using that assms(2) unfolding rows set_row_def campaigns_inv_def by (auto simp: within_limit_def split: if_splits)
  ultimately show ?thesis by (simp add: campaigns_inv_def)
qed

lemma campaign_step_inv:
  assumes "campaign_db_ok (ce_db env) rows usages" and "campaigns_inv rows s" and "call_ok c"
  shows "campaigns_inv rows (campaign_step env (c, now) s)"
proof (cases c)
  case (CActivate i)
  then show ?thesis using assms(2) status_inv[OF assms(1,2), of i "''active''"]
    by (auto simp: campaign_activate_def inv_emit inv_uncache split: option.split sum.split prod.split)
next
  case (CDeactivate i)
  then show ?thesis using assms(2) status_inv[OF assms(1,2), of i "''paused''"]
    by (auto simp: campaign_deactivate_def inv_emit inv_uncache inv_uncache_promo split: option.split sum.split prod.split)
next
  case (CValidate code amount products)
  obtain r t where v: "validatePromoCode env now code amount products s = (r, t)" by (cases "validatePromoCode env now code amount products s")
  show ?thesis using validate_inv(1)[OF assms(1,2) v] by (simp add: CValidate v)
next
  case (CApply code orderId userId amount)
  have ok: "code \<noteq> []" "orderId \<noteq> []" "userId \<noteq> []" "0 \<le> amount" using assms(3) by (simp_all add: CApply)
  obtain r t where v: "apply_checks env now code orderId amount s = (r, t)" by (cases "apply_checks env now code orderId amount s")
  note A = apply_checks_inv[OF assms(1,2) ok(1) v]
  show ?thesis
  proof (cases r)
    case (Inl m)
    then show ?thesis using A(1) by (simp add: CApply applyPromoCode_def v)
  next
    case (Inr d)
    obtain x u where w: "apply_writes env code orderId userId amount d t = (x, u)" by (cases "apply_writes env code orderId userId amount d t")
    have "campaigns_inv rows u" by (rule apply_writes_inv(1)[OF assms(1) A(1) _ _ _ _ ok(2-4) w]) (use A(2) A(3)[OF Inr] in simp_all)
    then show ?thesis by (simp add: CApply applyPromoCode_def v Inr w split: option.split)
  qed
qed (use assms(2) create_inv[OF assms(1,2)] find_inv[OF assms(2)] delete_inv[OF assms(1,2)] in \<open>simp_all add: inv_uncache\<close>)

text \<open>
  Whatever calls the service answers, one after the other, and whenever cache entries expire, no campaign is used more often than its
  limit.
\<close>

theorem promo_limit_kept:
  assumes "campaign_db_ok (ce_db env) rows usages" and "\<forall>c \<in> set (rows (cp_db s)). within_limit c" and "cp_cache s = []"
    and "\<forall>(c, now) \<in> set calls. call_ok c"
  shows "\<forall>c \<in> set (rows (cp_db (fold (campaign_step env) calls s))). 0 < cg_usageLimit c \<longrightarrow> cg_usageCount c \<le> cg_usageLimit c"
proof -
  have start: "campaigns_inv rows s" using assms(2,3) by (simp add: campaigns_inv_def promo_cached_ok_def)
  have "campaigns_inv rows (fold (campaign_step env) calls s)" using start assms(4)
  proof (induction calls arbitrary: s)
    case (Cons c calls)
    obtain k t where c: "c = (k, t)" by (cases c)
    have "campaigns_inv rows (campaign_step env (k, t) s)" using Cons.prems by (intro campaign_step_inv[OF assms(1)]) (auto simp: c)
    then show ?case using Cons by (simp add: c)
  qed simp
  then show ?thesis by (simp add: campaigns_inv_def within_limit_def)
qed

section \<open>A database in memory\<close>

type_synonym memory_rows = "campaign list \<times> campaign_usage list"

definition memory_campaigns :: "memory_rows \<Rightarrow> campaign list" where
  "memory_campaigns w = (if campaign_rows_ok (fst w) then fst w else [])"

definition memory_save :: "memory_rows \<Rightarrow> campaign_input \<Rightarrow> int \<Rightarrow> int \<Rightarrow> string \<Rightarrow> int \<Rightarrow> (string + campaign) \<times> memory_rows" where
  "memory_save w n a b st k =
     (let c = \<lparr>cg_id = ''c'' @ js_of_nat (length (memory_campaigns w)), cg_name = cn_name n, cg_description = cn_description n, cg_type = cn_type n,
            cg_status = st, cg_promoCode = cn_promoCode n, cg_discount = cn_discount n, cg_startDate = a, cg_endDate = b,
            cg_usageLimit = or_else (cn_usageLimit n) 0, cg_usageCount = k, cg_minOrderAmount = or_else (cn_minOrderAmount n) 0,
            cg_targetProducts = or_else (cn_targetProducts n) [], cg_targetCategories = or_else (cn_targetCategories n) []\<rparr>
      in if campaign_rows_ok (memory_campaigns w @ [c]) then (Inr c, (memory_campaigns w @ [c], snd w)) else (Inl ''validation failed'', w))"

definition memory_status :: "string \<Rightarrow> string \<Rightarrow> memory_rows \<Rightarrow> (string + campaign) \<times> memory_rows" where
  "memory_status i st w = (let cs = set_row i (\<lambda>c. c\<lparr>cg_status := st\<rparr>) (memory_campaigns w)
     in case find (\<lambda>c. cg_id c = i) cs of Some c \<Rightarrow> (Inr c, (cs, snd w)) | None \<Rightarrow> (Inl ''no document'', w))"

definition memory_usage :: "campaign_usage \<Rightarrow> memory_rows \<Rightarrow> (string + unit) \<times> memory_rows" where
  "memory_usage u w = (if usage_ok u \<and> cu_orderId u \<notin> cu_orderId ` set (snd w) then (Inr (), (fst w, snd w @ [u])) else (Inl ''duplicate key'', w))"

definition memory_db :: "memory_rows campaign_db" where
  "memory_db = \<lparr>cd_create = (\<lambda>n a b st k w. memory_save w n a b st k),
     cd_findById = (\<lambda>i w. find (\<lambda>c. cg_id c = i) (memory_campaigns w)),
     cd_findByPromo = (\<lambda>p w. find (\<lambda>c. cg_promoCode c = Some p) (memory_campaigns w)),
     cd_find = (\<lambda>st k skip limit w. memory_campaigns w), cd_count = (\<lambda>st k w. length (memory_campaigns w)),
     cd_update = (\<lambda>i ch d w. (None, w)),
     cd_delete = (\<lambda>i w. (filter (\<lambda>c. cg_id c \<noteq> i) (memory_campaigns w), snd w)),
     cd_saveStatus = memory_status,
     cd_incUsage = (\<lambda>i w. (set_row i (\<lambda>c. c\<lparr>cg_usageCount := cg_usageCount c + 1\<rparr>) (memory_campaigns w), snd w)),
     cd_usageOf = (\<lambda>orderId w. find (\<lambda>u. cu_orderId u = orderId) (snd w)), cd_createUsage = memory_usage,
     cd_usages = (\<lambda>i w. filter (\<lambda>u. cu_campaignId u = i) (snd w))\<rparr>"

lemma rows_okI:
  assumes "distinct (map cg_id cs)" and "\<And>c. c \<in> set cs \<Longrightarrow> cg_id c \<noteq> [] \<and> discount_ok (cg_discount c)"
    and "\<And>c d. c \<in> set cs \<Longrightarrow> d \<in> set cs \<Longrightarrow> cg_promoCode c \<noteq> None \<Longrightarrow> cg_promoCode c = cg_promoCode d \<Longrightarrow> c = d"
  shows "campaign_rows_ok cs"
  unfolding campaign_rows_ok_def by (intro conjI ballI impI) (use assms in blast)+

lemma rows_okD:
  assumes "campaign_rows_ok cs"
  shows "distinct (map cg_id cs)" and "c \<in> set cs \<Longrightarrow> cg_id c \<noteq> [] \<and> discount_ok (cg_discount c)"
    and "c \<in> set cs \<Longrightarrow> d \<in> set cs \<Longrightarrow> cg_promoCode c \<noteq> None \<Longrightarrow> cg_promoCode c = cg_promoCode d \<Longrightarrow> c = d"
  using assms unfolding campaign_rows_ok_def by blast+

lemma rows_ok_image:
  assumes "campaign_rows_ok cs" and "\<And>c. cg_id (f c) = cg_id c \<and> cg_promoCode (f c) = cg_promoCode c \<and> cg_discount (f c) = cg_discount c"
  shows "campaign_rows_ok (set_row i f cs)"
proof -
  let ?g = "\<lambda>c. if cg_id c = i then f c else c"
  have g: "cg_id (?g c) = cg_id c" "cg_promoCode (?g c) = cg_promoCode c" "cg_discount (?g c) = cg_discount c" for c using assms(2) by simp_all
  have members: "\<exists>d \<in> set cs. c = ?g d" if "c \<in> set (set_row i f cs)" for c
    using that unfolding set_row_def set_map by (rule imageE) (rule bexI)
  show ?thesis
  proof (rule rows_okI)
    have "map cg_id (set_row i f cs) = map cg_id cs" unfolding set_row_def map_map comp_def g(1) ..
    then show "distinct (map cg_id (set_row i f cs))" using rows_okD(1)[OF assms(1)] by simp
    fix c assume "c \<in> set (set_row i f cs)"
    from members[OF this] obtain c' where c': "c' \<in> set cs" "c = ?g c'" ..
    show "cg_id c \<noteq> [] \<and> discount_ok (cg_discount c)" unfolding c'(2) g by (rule rows_okD(2)[OF assms(1) c'(1)])
    fix d assume "d \<in> set (set_row i f cs)" and p: "cg_promoCode c \<noteq> None" "cg_promoCode c = cg_promoCode d"
    from members[OF this(1)] obtain d' where d': "d' \<in> set cs" "d = ?g d'" ..
    have "c' = d'" using p unfolding c'(2) d'(2) g by (rule rows_okD(3)[OF assms(1) c'(1) d'(1)])
    then show "c = d" using c'(2) d'(2) by simp
  qed
qed

lemma rows_ok_filter:
  assumes "campaign_rows_ok cs"
  shows "campaign_rows_ok (filter P cs)"
  by (rule rows_okI) (use rows_okD[OF assms] in \<open>auto simp: distinct_map_filter\<close>)

lemma rows_ok_Nil: "campaign_rows_ok []"
  by (rule rows_okI) simp_all

lemma memory_ok [simp]: "campaign_rows_ok (memory_campaigns w)"
  by (simp add: memory_campaigns_def rows_ok_Nil)

lemma memory_view: "campaign_rows_ok cs \<Longrightarrow> memory_campaigns (cs, us) = cs"
  by (simp add: memory_campaigns_def)

lemma memory_rows_status: "memory_campaigns (set_row i (\<lambda>c. c\<lparr>cg_status := st\<rparr>) (memory_campaigns w), us) = set_row i (\<lambda>c. c\<lparr>cg_status := st\<rparr>) (memory_campaigns w)"
  by (rule memory_view, rule rows_ok_image) simp_all

lemma memory_rows_count: "memory_campaigns (set_row i (\<lambda>c. c\<lparr>cg_usageCount := cg_usageCount c + 1\<rparr>) (memory_campaigns w), us)
    = set_row i (\<lambda>c. c\<lparr>cg_usageCount := cg_usageCount c + 1\<rparr>) (memory_campaigns w)"
  by (rule memory_view, rule rows_ok_image) simp_all

text \<open>The laws hold of it.\<close>

lemma memory_db_laws: "campaign_db_ok memory_db memory_campaigns snd"
  unfolding campaign_db_ok_def memory_db_def campaign_db.select_convs
proof (intro conjI allI impI)
  fix n a b st k w c w' assume "memory_save w n a b st k = (Inr c, w')"
  then show "cg_usageCount c = k" "cg_status c = st" "memory_campaigns w' = memory_campaigns w @ [c]" "snd w' = snd w"
    by (auto simp: memory_save_def Let_def memory_view split: if_splits)
next
  fix n a b st k w e w' assume "memory_save w n a b st k = (Inl e, w')"
  then show "w' = w" by (auto simp: memory_save_def Let_def split: if_splits)
next
  fix i w show "memory_campaigns (filter (\<lambda>c. cg_id c \<noteq> i) (memory_campaigns w), snd w) = filter (\<lambda>c. cg_id c \<noteq> i) (memory_campaigns w)"
    by (rule memory_view, rule rows_ok_filter) simp
next
  fix i st w c w' assume s: "memory_status i st w = (Inr c, w')"
  then show "memory_campaigns w' = set_row i (\<lambda>c. c\<lparr>cg_status := st\<rparr>) (memory_campaigns w)" "snd w' = snd w"
    by (auto simp: memory_status_def Let_def memory_rows_status split: option.splits)
  show "find (\<lambda>c. cg_id c = i) (memory_campaigns w') = Some c"
    using s by (auto simp: memory_status_def Let_def memory_rows_status split: option.splits)
next
  fix i st w e w' assume "memory_status i st w = (Inl e, w')"
  then show "w' = w" by (auto simp: memory_status_def Let_def split: option.splits)
next
  fix i w show "memory_campaigns (set_row i (\<lambda>c. c\<lparr>cg_usageCount := cg_usageCount c + 1\<rparr>) (memory_campaigns w), snd w)
      = set_row i (\<lambda>c. c\<lparr>cg_usageCount := cg_usageCount c + 1\<rparr>) (memory_campaigns w)" by (rule memory_rows_count)
next
  fix u w w' assume "memory_usage u w = (Inr (), w')"
  then show "memory_campaigns w' = memory_campaigns w" "snd w' = snd w @ [u]"
    by (auto simp: memory_usage_def memory_campaigns_def split: if_splits)
next
  fix u w e w' assume u: "memory_usage u w = (Inl e, w')"
  then show "w' = w" "\<not> usage_ok u \<or> cu_orderId u \<in> cu_orderId ` set (snd w)" by (auto simp: memory_usage_def split: if_splits)
qed simp_all

section \<open>What the service does not keep\<close>

text \<open>
  A code that was tried while its campaign was paused is in the cache; activating the campaign leaves it there, and the code stays
  refused until the entry expires. Only \<open>campaign_deactivate\<close> removes it.
\<close>

theorem stale_after_activation:
  assumes "lookup_promo env code s = (Some c, t)" and "cg_status c \<noteq> ''active''" and "campaign_activate env now i t = (Inr saved, u)"
  shows "fst (validatePromoCode env now code amount products u) = Inl ''Promo code is not currently active''"
proof -
  have "jm_get (cp_cache t) (promo_key code) = Some c"
    using assms(1) by (auto simp: lookup_promo_def jsmap_simps split: option.splits)
  then have "jm_get (cp_cache u) (promo_key code) = Some c"
    using assms(3) by (auto simp: campaign_activate_def emit_event_def uncache_def jsmap_simps split: option.splits if_splits sum.splits prod.splits)
  then show ?thesis using assms(2) by (simp add: validatePromoCode_def lookup_promo_def promo_refusal_def)
qed

text \<open>Two calls whose checks come before the writes of either use a campaign twice whose limit is one.\<close>

definition one_use :: campaign where
  "one_use = \<lparr>cg_id = ''c1'', cg_name = ''Sale'', cg_description = None, cg_type = ''fixed_amount'', cg_status = ''active'', cg_promoCode = Some ''SAVE'',
     cg_discount = \<lparr>ds_type = ''fixed_amount'', ds_value = 5, ds_max = None\<rparr>, cg_startDate = 0, cg_endDate = 100, cg_usageLimit = 1, cg_usageCount = 0,
     cg_minOrderAmount = 0, cg_targetProducts = [], cg_targetCategories = []\<rparr>"

definition memory_env :: "memory_rows campaign_env" where
  "memory_env = \<lparr>ce_db = memory_db, ce_date = (\<lambda>_. 0), ce_fixed = (\<lambda>_. ''5.00'')\<rparr>"

lemma limit_lost_in_race:
  defines "s0 \<equiv> \<lparr>cp_db = ([one_use], []), cp_cache = [], cp_events = []\<rparr>"
  defines "r1 \<equiv> apply_checks memory_env 10 ''SAVE'' ''o1'' 20 s0"
  defines "r2 \<equiv> apply_checks memory_env 10 ''SAVE'' ''o2'' 20 (snd r1)"
  defines "t1 \<equiv> snd (apply_writes memory_env ''SAVE'' ''o1'' ''u1'' 20 one_use (snd r2))"
  defines "t2 \<equiv> snd (apply_writes memory_env ''SAVE'' ''o2'' ''u2'' 20 one_use t1)"
  shows "fst r1 = Inr one_use" and "fst r2 = Inr one_use" and "map cg_usageCount (memory_campaigns (cp_db t2)) = [2]"
proof -
  have ok: "campaign_rows_ok [one_use\<lparr>cg_usageCount := k\<rparr>]" for k by (simp add: campaign_rows_ok_def one_use_def discount_ok_def)
  have one: "one_use = one_use\<lparr>cg_usageCount := 0\<rparr>" by (simp add: one_use_def)
  have view: "memory_campaigns ([one_use\<lparr>cg_usageCount := k\<rparr>], us) = [one_use\<lparr>cg_usageCount := k\<rparr>]" for k us using ok by (rule memory_view)
  have view0: "memory_campaigns ([one_use], us) = [one_use]" for us using view[of 0 us] one by simp
  have found: "lookup_promo memory_env ''SAVE'' s0 = (Some one_use, s0\<lparr>cp_cache := [(promo_key ''SAVE'', one_use)]\<rparr>)"
    by (simp add: lookup_promo_def memory_env_def memory_db_def s0_def view0) (simp add: one_use_def)
  have free: "promo_refusal env 10 one_use 20 [] = None" for env :: "memory_rows campaign_env" by (simp add: promo_refusal_def one_use_def)
  have r1: "r1 = (Inr one_use, s0\<lparr>cp_cache := [(promo_key ''SAVE'', one_use)]\<rparr>)"
    unfolding r1_def apply_checks_def validatePromoCode_def found
    by (simp add: free memory_env_def memory_db_def s0_def view0) (simp add: one_use_def)
  then have r2: "r2 = r1"
    unfolding r2_def apply_checks_def validatePromoCode_def r1
    by (simp add: lookup_promo_def free memory_env_def memory_db_def s0_def view0) (simp add: one_use_def)
  show "fst r1 = Inr one_use" "fst r2 = Inr one_use" by (simp_all add: r1 r2)
  have five: "calculateDiscount (cg_discount one_use) 20 = 5" by (simp add: calculateDiscount_def one_use_def)
  have row: "set_row (cg_id one_use) (\<lambda>c. c\<lparr>cg_usageCount := cg_usageCount c + 1\<rparr>) [one_use\<lparr>cg_usageCount := k\<rparr>] = [one_use\<lparr>cg_usageCount := k + 1\<rparr>]" for k
    by (simp add: set_row_def one_use_def)
  have id1: "cg_id one_use \<noteq> []" by (simp add: one_use_def)
  have "cp_db t1 = ([one_use\<lparr>cg_usageCount := 1\<rparr>], [\<lparr>cu_campaignId = cg_id one_use, cu_userId = ''u1'', cu_orderId = ''o1'', cu_discount = 5\<rparr>])"
    unfolding t1_def apply_writes_def r2 r1 five
    using row[of 0] one by (simp add: memory_env_def memory_db_def memory_usage_def usage_ok_def s0_def view0 id1 Let_def uncache_def emit_event_def)
  then have "fst (cp_db t2) = [one_use\<lparr>cg_usageCount := 2\<rparr>]"
    unfolding t2_def apply_writes_def five
    using row[of 1] by (simp add: memory_env_def memory_db_def memory_usage_def usage_ok_def view id1 Let_def uncache_def emit_event_def)
  then show "map cg_usageCount (memory_campaigns (cp_db t2)) = [2]" using view[of 2 "snd (cp_db t2)"] by (metis prod.collapse list.map campaign.select_convs(11) campaign.update_convs(11) campaign.surjective)
qed

end
