(* ===== verification/Spec2Isabelle.thy ===== *)
theory Spec2Isabelle
  imports
    Resilience_Breaker Resilience_Retry
    Auth_Roles Auth_Store Auth_Guards Auth_Manager Auth_Jwt Auth_Login Auth_Session Auth_Totp
    Policy Audit_Log
    Cache_Memory Cache_Multi
    Cqrs_Store Cqrs_Saga
    Graph_Cycles Graph_Modules
    Payments Event_Bus Outbox Alerts Layers
    Tenancy Access_Scope Organizations
    Content_Entries Content_Types Content_Entry_Service Content_Chunking Content_Bulk Content_Publishing Content_Localization
    Cache_Guard
    Rpc_Errors
    Migrations
    Content_References
    Delivery_Guards
    Db_Cached
    Api_Contract
    Api_Runner
    Api_Pairwise
    Api_Generate
    Boot_Config
    Db_Repository
    Db_Units
    Http_Edge
    Shutdown
    Storage
    Content_Assets
    Bootstrap
    Propagation
    Content_Search
    Api_Mutations
    Api_Fuzz
    Api_Methods
    Backend_Accounts
    Backend_Auth
    Backend_Orgs
    Api_Sources
    Project_Generator
    Web_Generators
    Dev_Tools
    Job_Queue
    Campaigns
begin

text \<open>
  \<^bold>\<open>nestjs-boot: a verification development.\<close>

  The program is a TypeScript library of building blocks for services on the NestJS framework; its
  code is under \<open>src/src/\<close>, and the paths below are relative to that directory (those that begin with \<open>packages/\<close>,
  \<open>templates/\<close>, \<open>examples/\<close> or \<open>bin/\<close> to \<open>src/\<close>). A service
  picks blocks (authentication, caching, event sourcing, content management, tenancy, ...), each of which is
  a few classes that keep state in memory or hand it to a database behind an interface. This development
  models those classes, one theory per block, and proves what each promises.

  \<^bold>\<open>How the code is modelled.\<close>
  A class is a \<open>record\<close> of its fields and one definition per method, with the name of the method,
  often behind a short prefix for the class where two classes share it (\<open>ces_update\<close> is \<open>update\<close> of the
  content entry service). A method that changes state takes the state and returns the new one; a throw
  is \<open>Inl\<close> of an error, or \<open>None\<close> where the code tells no two errors apart. A \<open>Map\<close> is an association
  list in insertion order (type \<open>jsmap\<close> of \<open>Boot_Prelude\<close>), a \<open>Set\<close> a list without repetitions, a string a list
  of characters, a number a \<open>nat\<close>, an \<open>int\<close> or a \<open>rat\<close> as the code uses it; 32-bit
  operators of TOTP act on words. The clock is an argument (milliseconds), and reads of it within one stretch
  of code that does not wait share one value. Where an \<open>await\<close> lets other calls run in between, the
  method is cut into the steps between the waits (circuit breaker, webhook deduplication, updates of entries) and
  the theorems speak of interleaved sequences of these steps; elsewhere a call runs to its end.

  \<^bold>\<open>The theories and the code.\<close>
  \<^item> \<open>Boot_Prelude\<close>, \<open>Js_Text\<close>: maps, sets, strings and JSON values of the language.
  \<^item> \<open>Resilience_Breaker\<close>, \<open>Resilience_Retry\<close>: \<open>resilience/circuit-breaker.ts\<close> with its observability,
    \<open>retry.decorator.ts\<close>, and \<open>transport/resilient-client.ts\<close> that composes them. Lemmas: the
    invariant of every reachable breaker, what trips and closes it, where retrying stops.
  \<^item> \<open>Auth_Roles\<close>, \<open>Auth_Store\<close>, \<open>Auth_Guards\<close>, \<open>Auth_Manager\<close>: \<open>auth/rbac/\<close> and the role and permission
    guards. The store interface is a locale with its laws, interpreted on the in-memory store; the
    guards and the manager rest on these laws. Lemmas: resolution is the closure of inheritance, guards
    decide by effective rights, no operation leaves a dangling role or permission, nobody assigns above
    their own level.
  \<^item> \<open>Auth_Jwt\<close>, \<open>Auth_Login\<close>, \<open>Auth_Session\<close>, \<open>Auth_Totp\<close>: tokens and their guards, the login tracker and the
    refresh token store, signed sessions, one-time passwords with base 32.
  \<^item> \<open>Policy\<close>, \<open>Audit_Log\<close>: named policies and the hash-chained audit log.
  \<^item> \<open>Cache_Memory\<close>, \<open>Cache_Multi\<close>: the adapter contract as a locale over the value visible at a time, the LRU
    adapter, two layers and tags; the tagged cache's locale extends the layered one's, and both are
    interpreted on two in-memory layers.
  \<^item> \<open>Cqrs_Store\<close>, \<open>Cqrs_Saga\<close>, \<open>Event_Bus\<close>, \<open>Outbox\<close>: event store, aggregates and snapshots, sagas, commands, the event
    bus and the outbox that drains into it.
  \<^item> \<open>Graph_Cycles\<close>, \<open>Graph_Modules\<close>, \<open>Layers\<close>: Tarjan's algorithm on the module graph, the graph's statistics
    and rendering, the scan for circular imports and the check of layers.
  \<^item> \<open>Payments\<close>, \<open>Alerts\<close>, \<open>Tenancy\<close>, \<open>Access_Scope\<close>, \<open>Organizations\<close>: webhooks and idempotency, alert rules, tenant
    scoping of database calls, access scopes, organizations and memberships.
  \<^item> \<open>Content_Types\<close>, \<open>Content_Entries\<close>, \<open>Content_Entry_Service\<close>, \<open>Content_Publishing\<close>, \<open>Content_Localization\<close>, \<open>Content_Chunking\<close>,
    \<open>Content_Bulk\<close>: the content management services over their repositories.
  \<^item> \<open>Cache_Guard\<close>: the stampede guard, the warmer and the statistics of the cache (\<open>cache/stampede-guard.ts\<close>,
    \<open>cache-warmer.ts\<close>); one factory call per key and process, under every interleaving.
  \<^item> \<open>Db_Cached\<close>: repositories behind the layered cache (\<open>database/cached-repository.decorator.ts\<close>); a simulation of the
    plain repository.
  \<^item> \<open>Migrations\<close>: the migration runner (\<open>database/migrations\<close>) over a history that may fail.
  \<^item> \<open>Rpc_Errors\<close>: errors across services (\<open>common\<close>, \<open>rpc\<close>, \<open>transport\<close>): exceptions, filters, envelopes and gRPC codes,
    and what of an error survives its way through several hops.
  \<^item> \<open>Content_References\<close>, \<open>Delivery_Guards\<close>: population of references to a bounded depth; rate limits, API keys,
    permissions, CDN headers and webhooks of content delivery.
  \<^item> \<open>Api_Contract\<close>, \<open>Api_Runner\<close>, \<open>Api_Pairwise\<close>, \<open>Api_Generate\<close>: the API tester (\<open>packages/api-test/src\<close>): schemas inferred
    from bodies as types, baselines, the runner with its flows and bail-out, covering arrays, and generated contract and
    state machine tests.
  \<^item> \<open>Api_Mutations\<close>, \<open>Api_Fuzz\<close>, \<open>Api_Methods\<close>: its analysis of payloads and the generators of mutations (\<open>mutations/\<close>), of
    boundary, negative, fuzz and security tests and of the other methods (\<open>methods/\<close>), and the suite of an endpoint; which request
    each test sends, that fields are changed one at a time and that identifiers never clash.
  \<^item> \<open>Boot_Config\<close>, \<open>Bootstrap\<close>, \<open>Shutdown\<close>: configuration sources and their merge (\<open>config/\<close>), the start of an application
    with its plugins and hooks (\<open>create-app.ts\<close>, \<open>plugin/\<close>, \<open>deploy/\<close>), and its end (\<open>shutdown/\<close>).
  \<^item> \<open>Db_Repository\<close>, \<open>Db_Units\<close>: the repositories over Mongoose and Prisma, the services on them, filters, the unit of work;
    the two drivers are related by a simulation.
  \<^item> \<open>Http_Edge\<close>, \<open>Propagation\<close>: error boundaries, filters, rate limits and interceptors at the edge of a service, and what a service hands
    to the next: correlation, credentials, metadata.
  \<^item> \<open>Storage\<close>, \<open>Content_Assets\<close>, \<open>Content_Search\<close>: file storage with the paths its keys reach, assets and components, and the
    statements of the content search with their values.
  \<^item> \<open>Api_Sources\<close>: what else the API tester makes tests from: flows, rows of data, pairwise requests, an OpenAPI document; scripts for
    load tests, the recorder and the reports.
  \<^item> \<open>Backend_Accounts\<close>, \<open>Backend_Auth\<close>, \<open>Backend_Orgs\<close>: the services of the backend template (\<open>templates/backend-core/src\<close>): users and
    roles, login and tokens, organizations with their audit trail, policies and the seed; who may hand out which role, that a refresh token
    that is used twice revokes its family, that a locked address is refused, that refused calls leave no trace.
  \<^item> \<open>Project_Generator\<close>, \<open>Web_Generators\<close>: the command line tool (\<open>bin/create.mjs\<close>) with its arguments, templates, files, migrations and
    graph report, and the two generators with a user interface (\<open>packages/web-generator\<close>, \<open>packages/admin-dashboard\<close>); what the tool makes of
    the commands they show.
  \<^item> \<open>Dev_Tools\<close>, \<open>Job_Queue\<close>: contracts, the dispatcher of messages, factories, the profiler, injection errors and the watcher of
    configuration files; queues, workers and processor classes (\<open>queue/\<close>).
  \<^item> \<open>Campaigns\<close>: the campaign service of the microservices example, with an invariant of its count of uses under every sequence of calls
    and the interleaving that breaks it.

  \<^bold>\<open>Interaction.\<close> The resilient client calls the breaker inside the retry loop; the guards and the role manager
  call the permission store and the role hierarchy; the JWT, API-key and session guards feed the request
  user the role guards read; caches stack over adapters; aggregates load from the event and
  snapshot stores, and the outbox publishes to the event bus; publishing and the entry service share the entry
  repository and the version service, delivery and localization read the same rows, and the
  bulk import creates them.

  \<^bold>\<open>Parameters.\<close> Code outside \<open>src/\<close> is an argument of the definitions that use it, with its documented
  behaviour as a named predicate: the JWT package (\<open>jwt_lib_ok\<close>: verifying what was signed with the same
  secret and before its expiry returns the claims), the Mongoose model (\<open>mongoose_ok\<close>), the Prisma clients
  (\<open>content_db_ok\<close>, \<open>type_db_ok\<close>, \<open>version_db_ok\<close>: a query answers the matching rows, an update changes them),
  HMAC and SHA-256, regular expressions, JSON text, random bytes and generated ids. The witnesses of the
  theorems that use such a predicate instantiate it with a concrete function or store.

  \<^bold>\<open>Termination and bounds.\<close> Every loop of the code is a recursion that Isabelle accepts as terminating, or one
  whose return is a theorem: \<open>cover_loop\<close> (pairwise tests), \<open>hard_from\<close> (chunking) and \<open>follow_fallbacks\<close> (localization) are partial functions whose \<open>None\<close> is a call
  that never returns, and \<open>chunking_returns_bounded_and_complete\<close> and \<open>locale_fallback_returns\<close> say when they return. Walks over
  cyclic role hierarchies carry the visited set as the code does and terminate because it grows within
  the roles; Tarjan's search likewise. No definition uses a fuel argument.

  \<^bold>\<open>What is not modelled.\<close> Module wiring, decorators that only set metadata, controllers that pass a request on to a
  service, and adapters that only translate a call into one of a database, a queue, a
  broker or a cloud service (their contracts are the locales and predicates above). Logging and metrics are
  left out except for the observability of the breaker. Integer overflow beyond the safe
  integers and time going backwards are not modelled. The pages of the dashboard and of the flow visualiser, the
  controllers of the backend template, and the texts of generated files are left out, as are the other examples. \<open>PROJECT.json\<close> lists these parts with the reason for each.
\<close>

end
